(* ===== verification/Prelude.thy ===== *)
theory Prelude
  imports "HOL-Library.Word" "HOL-Library.Monad_Syntax"
begin

text \<open>
  Shared vocabulary of the development: the C integer types of the driver, the wrap-around
  of 32- and 64-bit arithmetic written out on integers, the errno values the driver returns,
  the kernel's \<open>do_div\<close>, and the generic lemmas on options, lists and words that the component
  theories use. Values that the code masks or shifts are words of their width; values that
  take part in 64-bit time arithmetic are integers to which \<open>wrap_u64\<close>, \<open>wrap_u32\<close> or
  \<open>wrap_s64\<close> is applied wherever the C expression is evaluated at that type.
  A computation that C leaves undefined or that stops the kernel (a division by zero, a NULL
  dereference, an access outside an array) or that never returns is \<open>None\<close> of an option type.
\<close>

unbundle bit_operations_syntax

section \<open>C types\<close>

type_synonym u8 = "8 word"
type_synonym u16 = "16 word"
type_synonym u32 = "32 word"
type_synonym u64 = "64 word"

text \<open>Proof collections: wrap-around that does not happen, and word-to-integer conversions.\<close>

named_theorems wrap_simps
named_theorems word_conv

section \<open>Wrap-around of integer arithmetic\<close>

definition wrap_u32 :: "int \<Rightarrow> int" where
  "wrap_u32 x = x mod 2 ^ 32"

definition wrap_u64 :: "int \<Rightarrow> int" where
  "wrap_u64 x = x mod 2 ^ 64"

definition wrap_s64 :: "int \<Rightarrow> int" where
  "wrap_s64 x = (x + 2 ^ 63) mod 2 ^ 64 - 2 ^ 63"

lemma wrap_u32_id [wrap_simps]: "0 \<le> x \<Longrightarrow> x < 4294967296 \<Longrightarrow> wrap_u32 x = x"
  by (simp add: wrap_u32_def)

lemma wrap_u64_id [wrap_simps]: "0 \<le> x \<Longrightarrow> x < 18446744073709551616 \<Longrightarrow> wrap_u64 x = x"
  by (simp add: wrap_u64_def)

lemma wrap_s64_id [wrap_simps]:
  "- 9223372036854775808 \<le> x \<Longrightarrow> x < 9223372036854775808 \<Longrightarrow> wrap_s64 x = x"
  by (simp add: wrap_s64_def)

lemma wrap_u32_bounds: "0 \<le> wrap_u32 x \<and> wrap_u32 x < 2 ^ 32"
  by (simp add: wrap_u32_def)

lemma wrap_u64_bounds: "0 \<le> wrap_u64 x \<and> wrap_u64 x < 2 ^ 64"
  by (simp add: wrap_u64_def)

lemma wrap_s64_bounds: "- (2 ^ 63) \<le> wrap_s64 x \<and> wrap_s64 x < 2 ^ 63"
proof -
  have "(0::int) \<le> (x + 2 ^ 63) mod 2 ^ 64 \<and> (x + 2 ^ 63) mod 2 ^ 64 < (2 ^ 64 :: int)" by simp
  then show ?thesis by (simp add: wrap_s64_def)
qed

lemma uint_u32_bounds: "0 \<le> uint (x :: u32)" "uint (x :: u32) < 4294967296"
  using uint_lt2p [of x] by simp_all

lemma uint_u16_bounds: "0 \<le> uint (x :: u16)" "uint (x :: u16) < 65536"
  using uint_lt2p [of x] by simp_all

lemma unat_u32_bound: "unat (x :: u32) < 4294967296"
  using unsigned_less [of x, where ?'a = nat] by simp

lemma uint_word_of_int_u32: "0 \<le> x \<Longrightarrow> x < 4294967296 \<Longrightarrow> uint (word_of_int x :: u32) = x"
  by (simp add: uint_word_of_int)

section \<open>Error numbers\<close>

text \<open>Linux errno values; a C function that fails returns the negated value.\<close>

abbreviation (input) EPERM :: int where "EPERM \<equiv> 1"
abbreviation (input) ENOENT :: int where "ENOENT \<equiv> 2"
abbreviation (input) ENOMEM :: int where "ENOMEM \<equiv> 12"
abbreviation (input) EACCES :: int where "EACCES \<equiv> 13"
abbreviation (input) EFAULT :: int where "EFAULT \<equiv> 14"
abbreviation (input) EBUSY :: int where "EBUSY \<equiv> 16"
abbreviation (input) EEXIST :: int where "EEXIST \<equiv> 17"
abbreviation (input) ENODEV :: int where "ENODEV \<equiv> 19"
abbreviation (input) EINVAL :: int where "EINVAL \<equiv> 22"
abbreviation (input) EFBIG :: int where "EFBIG \<equiv> 27"
abbreviation (input) ERANGE :: int where "ERANGE \<equiv> 34"
abbreviation (input) EOPNOTSUPP :: int where "EOPNOTSUPP \<equiv> 95"
abbreviation (input) E2BIG :: int where "E2BIG \<equiv> 7"

abbreviation (input) NSEC_PER_SEC :: int where "NSEC_PER_SEC \<equiv> 1000000000"
abbreviation (input) NSEC_PER_MSEC :: int where "NSEC_PER_MSEC \<equiv> 1000000"

text \<open>The kernel's \<open>BIT(n)\<close>, truncated to the width of the variable it is used with.\<close>

abbreviation BIT :: "nat \<Rightarrow> 'a::len word" where
  "BIT n \<equiv> push_bit n 1"

section \<open>Division that can trap\<close>

text \<open>
  \<open>do_div(n, base)\<close> replaces the 64-bit \<open>n\<close> by the quotient and returns the 32-bit remainder;
  a zero divisor traps.
\<close>

definition do_div :: "int \<Rightarrow> int \<Rightarrow> (int \<times> int) option" where
  "do_div n base = (if base = 0 then None else Some (n div base, n mod base))"

lemma do_div_Some [simp]: "base \<noteq> 0 \<Longrightarrow> do_div n base = Some (n div base, n mod base)"
  by (simp add: do_div_def)

lemma do_div_zero [simp]: "do_div n 0 = None"
  by (simp add: do_div_def)

text \<open>Unsigned division of two machine words.\<close>

definition udiv :: "'a::len word \<Rightarrow> 'a word \<Rightarrow> 'a word option" where
  "udiv a b = (if b = 0 then None else Some (a div b))"

definition umod :: "'a::len word \<Rightarrow> 'a word \<Rightarrow> 'a word option" where
  "umod a b = (if b = 0 then None else Some (a mod b))"

lemma udiv_Some [simp]: "b \<noteq> 0 \<Longrightarrow> udiv a b = Some (a div b)"
  by (simp add: udiv_def)

lemma umod_Some [simp]: "b \<noteq> 0 \<Longrightarrow> umod a b = Some (a mod b)"
  by (simp add: umod_def)

text \<open>The quotient rounded up, the reference for the driver's rounding computations.\<close>

definition ceil_div :: "int \<Rightarrow> int \<Rightarrow> int" where
  "ceil_div a b = (a + b - 1) div b"

lemma ceil_div_bounds:
  assumes "0 < b"
  shows "a \<le> ceil_div a b * b" and "ceil_div a b * b < a + b"
proof -
  let ?q = "(a + b - 1) div b"
  have eq: "a + b - 1 = ?q * b + (a + b - 1) mod b" by simp
  have "0 \<le> (a + b - 1) mod b" "(a + b - 1) mod b < b" using assms by simp_all
  with eq show "a \<le> ceil_div a b * b" and "ceil_div a b * b < a + b"
    unfolding ceil_div_def by linarith+
qed

lemma ceil_div_mono: "0 < b \<Longrightarrow> a \<le> a' \<Longrightarrow> ceil_div a b \<le> ceil_div a' b"
  by (simp add: ceil_div_def zdiv_mono1)

lemma ceil_div_nonneg: "0 < b \<Longrightarrow> 0 \<le> a \<Longrightarrow> 0 \<le> ceil_div a b"
  by (simp add: ceil_div_def pos_imp_zdiv_nonneg_iff)

section \<open>Generic lemmas\<close>

text \<open>Reading a bind in the option type backwards: the shape of every driver function here.\<close>

lemma bind_eq_Some: "(m \<bind> f = Some y) \<longleftrightarrow> (\<exists>x. m = Some x \<and> f x = Some y)"
  by (cases m) simp_all

lemma bind_eq_SomeE:
  assumes "m \<bind> f = Some y"
  obtains x where "m = Some x" "f x = Some y"
  using assms by (auto simp: bind_eq_Some)

lemma if_None_eq_Some [simp]:
  "((if b then None else m) = Some y) \<longleftrightarrow> \<not> b \<and> m = Some y"
  "((if b then m else None) = Some y) \<longleftrightarrow> b \<and> m = Some y"
  by simp_all

text \<open>The first index whose element satisfies a predicate: the driver's table searches.\<close>

fun find_idx :: "('a \<Rightarrow> bool) \<Rightarrow> 'a list \<Rightarrow> nat option" where
  "find_idx P [] = None"
| "find_idx P (x # xs) = (if P x then Some 0 else map_option Suc (find_idx P xs))"

lemma find_idx_None: "find_idx P xs = None \<longleftrightarrow> (\<forall>x \<in> set xs. \<not> P x)"
  by (induction xs) auto

lemma find_idx_SomeD:
  "find_idx P xs = Some i \<Longrightarrow> i < length xs \<and> P (xs ! i) \<and> (\<forall>j < i. \<not> P (xs ! j))"
proof (induction xs arbitrary: i)
  case Nil
  then show ?case by simp
next
  case (Cons x xs)
  show ?case
  proof (cases "P x")
    case True
    with Cons.prems show ?thesis by simp
  next
    case False
    with Cons.prems obtain k where k: "find_idx P xs = Some k" "i = Suc k" by auto
    from Cons.IH [OF k(1)] False k(2) show ?thesis by (auto simp: nth_Cons split: nat.splits)
  qed
qed

lemma find_idx_first:
  assumes "i < length xs" "P (xs ! i)" "\<And>j. j < i \<Longrightarrow> \<not> P (xs ! j)"
  shows "find_idx P xs = Some i"
proof -
  from assms(1,2) have "find_idx P xs \<noteq> None" by (auto simp: find_idx_None)
  then obtain k where k: "find_idx P xs = Some k" by blast
  from find_idx_SomeD [OF k] assms have "k = i" by (meson linorder_neqE_nat)
  with k show ?thesis by simp
qed

lemma find_idx_unique:
  assumes "i < length xs" "P (xs ! i)" "\<And>j. j < length xs \<Longrightarrow> P (xs ! j) \<Longrightarrow> j = i"
  shows "find_idx P xs = Some i"
proof (rule find_idx_first)
  show "i < length xs" and "P (xs ! i)" by fact+
  show "\<not> P (xs ! j)" if "j < i" for j
    using assms(1) assms(3) [of j] that by auto
qed

lemma find_idx_map: "find_idx P (map f xs) = find_idx (\<lambda>x. P (f x)) xs"
  by (induction xs) (simp_all add: o_def)

text \<open>Access to a C array: an index outside of it is undefined.\<close>

definition nth_opt :: "'a list \<Rightarrow> nat \<Rightarrow> 'a option" where
  "nth_opt xs i = (if i < length xs then Some (xs ! i) else None)"

definition upd_opt :: "'a list \<Rightarrow> nat \<Rightarrow> 'a \<Rightarrow> 'a list option" where
  "upd_opt xs i x = (if i < length xs then Some (xs[i := x]) else None)"

lemma nth_opt_Some [simp]: "i < length xs \<Longrightarrow> nth_opt xs i = Some (xs ! i)"
  by (simp add: nth_opt_def)

lemma upd_opt_Some [simp]: "i < length xs \<Longrightarrow> upd_opt xs i x = Some (xs[i := x])"
  by (simp add: upd_opt_def)

lemma nth_opt_eq_Some: "nth_opt xs i = Some x \<longleftrightarrow> i < length xs \<and> xs ! i = x"
  by (simp add: nth_opt_def)

lemma upd_opt_eq_Some: "upd_opt xs i x = Some ys \<longleftrightarrow> i < length xs \<and> ys = xs[i := x]"
  by (auto simp: upd_opt_def)

text \<open>Reading back disjoint mask operations on words.\<close>

lemma word_and_not_and [simp]: "((x :: 'a::len word) AND NOT m) AND m = 0"
  by (rule bit_word_eqI) (auto simp: bit_simps)

lemma minus2_not1: "(- 2 :: 'a::len word) = NOT 1"
  by simp

lemma word_clear_bit0 [simp]: "((x :: 'a::len word) AND - 2) AND 1 = 0"
  unfolding minus2_not1 by (rule word_and_not_and)

lemma word_clear_bit0_keep [simp]: "((x :: 'a::len word) AND - 2) AND 2 = x AND 2"
  unfolding minus2_not1 by (rule bit_word_eqI) (auto simp: bit_simps)

lemma word_or_and_self: "((x :: 'a::len word) OR m) AND m = m"
  by (rule bit_word_eqI) (auto simp: bit_simps)

lemma word_mask_merge:
  fixes a b m :: "'a::len word"
  shows "((a AND NOT m) OR (b AND m)) AND m = b AND m"
    and "((a AND NOT m) OR (b AND m)) AND NOT m = a AND NOT m"
  by (rule bit_word_eqI; auto simp: bit_simps)+

lemma bit_BIT_iff: "p < LENGTH('a) \<Longrightarrow> bit (BIT p :: 'a::len word) q \<longleftrightarrow> q = p"
  by (auto simp: bit_simps)

lemma unat_add_1:
  assumes "unat (x::'a::len word) < unat (y::'a word)"
  shows "unat (x + 1) = Suc (unat x)"
proof -
  have "unat y < 2 ^ LENGTH('a)" by (rule unsigned_less)
  with assms have "Suc (unat x) < 2 ^ LENGTH('a)" by linarith
  then show ?thesis by (simp add: unat_word_ariths(1))
qed

lemma and_mask_12: "(f :: u16) < 4096 \<Longrightarrow> f AND mask 12 = f"
proof -
  assume "f < 4096"
  then have "unat f < 2 ^ 12" by (simp add: word_less_nat_alt)
  then have "unat (take_bit 12 f) = unat f" by (simp only: unsigned_take_bit_eq take_bit_nat_eq_self)
  then have "take_bit 12 f = f" by (rule unsigned_word_eqI)
  then show ?thesis by (simp add: take_bit_eq_mask)
qed

text \<open>A hash under the mask of a table with \<open>n\<close> rows is a row of the table.\<close>

lemma row_mask_less:
  fixes n :: u16
  assumes "n \<noteq> 0"
  shows "(ucast (x AND ((ucast n :: u64) - 1)) :: u16) < n"
proof -
  have n: "0 < unat n" "unat n < 65536"
    using assms unsigned_less [of "n", where ?'a = nat] by (simp_all add: unat_gt_0)
  have "unat n < 2 ^ 64" using n(2) by simp
  then have "unat (ucast n :: u64) = unat n" by (simp add: unsigned_ucast_eq take_bit_nat_eq_self_iff)
  then have msk: "unat ((ucast n :: u64) - 1) = unat n - 1"
    using n by (subst unat_minus_one) auto
  have "unat (x AND ((ucast n :: u64) - 1)) \<le> unat n - 1"
    using word_and_le1 [of x "(ucast n :: u64) - 1"] msk by (simp add: word_le_nat_alt)
  moreover then have "unat (x AND ((ucast n :: u64) - 1)) < 2 ^ 16" using n by simp
  ultimately have "unat (ucast (x AND ((ucast n :: u64) - 1)) :: u16) \<le> unat n - 1"
    by (simp add: unsigned_ucast_eq take_bit_nat_eq_self_iff take_bit_nat_eq_self)
  then show ?thesis using n by (simp add: word_less_nat_alt)
qed

end
