(* ===== verification/RegIO.thy ===== *)
theory RegIO
  imports Prelude
begin

text \<open>
  Register access of the driver (\<open>edge_util.h\<close>). Memory-mapped I/O is a map from byte addresses
  to 16-bit cells; a 32-bit register is the cell at its address (low half) and the cell two bytes
  above (high half). The switch itself is a parameter \<open>dev\<close>, a function on the I/O memory that
  says what the hardware does between two accesses of the driver; a polling loop
  \<open>do reg = read(); while (reg & busy)\<close> lets the device act before every read and does not
  return (\<open>None\<close>) when the busy flag never clears. The bit-field helpers take their bounds as
  C \<open>int\<close>s: when the shift count leaves the range that C defines, the mask is a parameter
  \<open>ub\<close>, whatever the machine computes there.
\<close>

unbundle bit_operations_syntax

type_synonym iomem = "nat \<Rightarrow> u16"
type_synonym device = "iomem \<Rightarrow> iomem"

section \<open>Reads and writes\<close>

definition edgx_rd16 :: "iomem \<Rightarrow> nat \<Rightarrow> nat \<Rightarrow> u16" where
  "edgx_rd16 m iobase ofs = m (iobase + ofs)"

definition edgx_wr16 :: "iomem \<Rightarrow> nat \<Rightarrow> nat \<Rightarrow> u16 \<Rightarrow> iomem" where
  "edgx_wr16 m iobase ofs val = m(iobase + ofs := val)"

definition edgx_rd32 :: "iomem \<Rightarrow> nat \<Rightarrow> nat \<Rightarrow> u32" where
  "edgx_rd32 m iobase ofs =
     ucast (m (iobase + ofs)) OR push_bit 16 (ucast (m (iobase + ofs + 2)))"

definition edgx_wr32 :: "iomem \<Rightarrow> nat \<Rightarrow> nat \<Rightarrow> u32 \<Rightarrow> iomem" where
  "edgx_wr32 m iobase ofs val =
     m(iobase + ofs := ucast val, iobase + ofs + 2 := ucast (drop_bit 16 val))"

text \<open>
  The interface that every register helper relies on: a write is read back, and it leaves every
  register at a distance of at least \<open>gap\<close> bytes alone.
\<close>

locale reg_access =
  fixes rd :: "iomem \<Rightarrow> nat \<Rightarrow> nat \<Rightarrow> 'w::len word"
    and wr :: "iomem \<Rightarrow> nat \<Rightarrow> nat \<Rightarrow> 'w word \<Rightarrow> iomem"
    and gap :: nat
  assumes rd_wr_same: "rd (wr m b r v) b r = v"
    and rd_wr_apart:
      "b + r + gap \<le> b' + r' \<or> b' + r' + gap \<le> b + r \<Longrightarrow> rd (wr m b r v) b' r' = rd m b' r'"
begin

lemma modify_same: "rd (wr m b r (f (rd m b r))) b r = f (rd m b r)"
  by (rule rd_wr_same)

lemma modify_twice:
  "b + r + gap \<le> b + r' \<or> b + r' + gap \<le> b + r \<Longrightarrow>
   rd (wr (wr m b r (f (rd m b r))) b r' (g (rd (wr m b r (f (rd m b r))) b r'))) b r
     = f (rd m b r)"
  by (subst rd_wr_apart) (auto simp: rd_wr_same)

lemma mask_cleared: "rd (wr m b r (rd m b r AND NOT k)) b r AND k = 0"
  by (simp add: rd_wr_same)

lemma mask_set: "rd (wr m b r (rd m b r OR k)) b r AND k = k"
  by (simp add: rd_wr_same word_or_and_self)

end

lemma halves_of_u32: "ucast (ucast v :: u16) OR push_bit 16 (ucast (ucast (drop_bit 16 v) :: u16)) = (v :: u32)"
  by (rule bit_word_eqI) (auto simp: bit_simps)

interpretation io16: reg_access edgx_rd16 edgx_wr16 1
  by unfold_locales (auto simp: edgx_rd16_def edgx_wr16_def)

interpretation io32: reg_access edgx_rd32 edgx_wr32 4
  by unfold_locales (auto simp: edgx_rd32_def edgx_wr32_def halves_of_u32)

lemma rd16_wr16 [simp]:
  "edgx_rd16 (edgx_wr16 m b r v) b' r' = (if b + r = b' + r' then v else edgx_rd16 m b' r')"
  by (simp add: edgx_rd16_def edgx_wr16_def)

lemma wr16_apply [simp]: "edgx_wr16 m b r v a = (if a = b + r then v else m a)"
  by (simp add: edgx_wr16_def)

section \<open>Bit fields\<close>

definition field_mask :: "'a::len word \<Rightarrow> int \<Rightarrow> int \<Rightarrow> 'a word" where
  "field_mask ub bithi bitlo =
     (let n = bithi - bitlo + 1 in if 0 \<le> n \<and> n < 32 then mask (nat n) else ub)"

definition edgx_set32 :: "u32 \<Rightarrow> iomem \<Rightarrow> nat \<Rightarrow> nat \<Rightarrow> int \<Rightarrow> int \<Rightarrow> u32 \<Rightarrow> iomem" where
  "edgx_set32 ub m iobase ofs bithi bitlo val =
     (let msk = push_bit (nat bitlo) (field_mask ub bithi bitlo);
          v = push_bit (nat bitlo) val AND msk
      in edgx_wr32 m iobase ofs ((edgx_rd32 m iobase ofs AND NOT msk) OR v))"

definition edgx_get32 :: "u32 \<Rightarrow> iomem \<Rightarrow> nat \<Rightarrow> nat \<Rightarrow> int \<Rightarrow> int \<Rightarrow> u32" where
  "edgx_get32 ub m iobase ofs bithi bitlo =
     drop_bit (nat bitlo) (edgx_rd32 m iobase ofs) AND field_mask ub bithi bitlo"

definition edgx_set16 :: "u16 \<Rightarrow> iomem \<Rightarrow> nat \<Rightarrow> nat \<Rightarrow> int \<Rightarrow> int \<Rightarrow> u16 \<Rightarrow> iomem" where
  "edgx_set16 ub m iobase ofs bithi bitlo val =
     (let msk = push_bit (nat bitlo) (field_mask ub bithi bitlo);
          v = push_bit (nat bitlo) val AND msk
      in edgx_wr16 m iobase ofs ((edgx_rd16 m iobase ofs AND NOT msk) OR v))"

definition edgx_get16 :: "u16 \<Rightarrow> iomem \<Rightarrow> nat \<Rightarrow> nat \<Rightarrow> int \<Rightarrow> int \<Rightarrow> u16" where
  "edgx_get16 ub m iobase ofs bithi bitlo =
     drop_bit (nat bitlo) (edgx_rd16 m iobase ofs) AND field_mask ub bithi bitlo"

lemma field_put_get:
  fixes x v :: "'a::len word"
  assumes "lo + n \<le> LENGTH('a)"
  shows "drop_bit lo ((x AND NOT (push_bit lo (mask n))) OR (push_bit lo v AND push_bit lo (mask n)))
           AND mask n = v AND mask n"
  using assms by (intro bit_word_eqI) (auto simp: bit_simps)

lemma field_mask_def_range:
  "lo \<le> hi \<Longrightarrow> hi - lo < 31 \<Longrightarrow> field_mask ub hi lo = mask (nat (hi - lo + 1))"
  by (simp add: field_mask_def Let_def)

lemma edgx_get_set16:
  assumes "0 \<le> lo" "lo \<le> hi" "hi < 16"
  shows "edgx_get16 ub (edgx_set16 ub m b r hi lo v) b r hi lo = v AND mask (nat (hi - lo + 1))"
  using assms field_put_get [of "nat lo" "nat (hi - lo + 1)" "edgx_rd16 m b r" v]
  by (simp add: edgx_get16_def edgx_set16_def Let_def field_mask_def_range nat_add_distrib [symmetric]
        nat_le_iff flip: nat_add_distrib)

lemma edgx_get_set32:
  assumes "0 \<le> lo" "lo \<le> hi" "hi < 31"
  shows "edgx_get32 ub (edgx_set32 ub m b r hi lo v) b r hi lo = v AND mask (nat (hi - lo + 1))"
  using assms field_put_get [of "nat lo" "nat (hi - lo + 1)" "edgx_rd32 m b r" v]
  by (simp add: edgx_get32_def edgx_set32_def Let_def field_mask_def_range io32.rd_wr_same
        nat_le_iff flip: nat_add_distrib)

section \<open>Polling\<close>

partial_function (option) wait_clear :: "device \<Rightarrow> (iomem \<Rightarrow> bool) \<Rightarrow> iomem \<Rightarrow> iomem option" where
  "wait_clear dev busy m =
     (let m' = dev m in if busy m' then wait_clear dev busy m' else Some m')"

text \<open>The loop returns exactly when the device clears the flag after finitely many steps.\<close>

lemma wait_clear_ready: "\<not> busy (dev m) \<Longrightarrow> wait_clear dev busy m = Some (dev m)"
  by (simp add: wait_clear.simps)

lemma wait_clear_after:
  assumes "\<not> busy ((dev ^^ Suc n) m)" and "\<And>k. k < n \<Longrightarrow> busy ((dev ^^ Suc k) m)"
  shows "wait_clear dev busy m = Some ((dev ^^ Suc n) m)"
  using assms
proof (induction n arbitrary: m)
  case 0
  then show ?case by (simp add: wait_clear.simps)
next
  case (Suc n)
  from Suc.prems(2) [of 0] have busy: "busy (dev m)" by simp
  have "wait_clear dev busy (dev m) = Some ((dev ^^ Suc n) (dev m))"
  proof (rule Suc.IH)
    show "\<not> busy ((dev ^^ Suc n) (dev m))"
      using Suc.prems(1) by (simp add: funpow_swap1)
    show "busy ((dev ^^ Suc k) (dev m))" if "k < n" for k
      using Suc.prems(2) [of "Suc k"] that by (simp add: funpow_swap1)
  qed
  with busy show ?case by (simp add: wait_clear.simps [of dev busy m] funpow_swap1)
qed

lemma wait_clear_returns:
  assumes "\<not> busy ((dev ^^ Suc n) m)"
  shows "\<exists>k \<le> n. wait_clear dev busy m = Some ((dev ^^ Suc k) m)"
proof -
  define k where "k = (LEAST i. \<not> busy ((dev ^^ Suc i) m))"
  have 1: "\<not> busy ((dev ^^ Suc k) m)" unfolding k_def by (rule LeastI) (rule assms)
  have 2: "busy ((dev ^^ Suc i) m)" if "i < k" for i
    using not_less_Least [OF that [unfolded k_def]] by simp
  have "k \<le> n" unfolding k_def by (rule Least_le) (rule assms)
  from wait_clear_after [where busy = busy and dev = dev and n = k and m = m, OF 1 2] \<open>k \<le> n\<close> show ?thesis by blast
qed

lemma wait_clear_SomeD:
  assumes "wait_clear dev busy m = Some m'"
  shows "\<not> busy m' \<and> (\<exists>n. m' = (dev ^^ Suc n) m)"
proof (rule wait_clear.raw_induct [where P = "\<lambda>dev busy m m'. \<not> busy m' \<and> (\<exists>n. m' = (dev ^^ Suc n) m)", OF _ assms])
  fix f :: "device \<Rightarrow> (iomem \<Rightarrow> bool) \<Rightarrow> iomem \<Rightarrow> iomem option" and dev busy m m'
  assume IH: "\<And>dev busy m m'. f dev busy m = Some m' \<Longrightarrow> \<not> busy m' \<and> (\<exists>n. m' = (dev ^^ Suc n) m)"
    and eq: "(let m' = dev m in if busy m' then f dev busy m' else Some m') = Some m'"
  show "\<not> busy m' \<and> (\<exists>n. m' = (dev ^^ Suc n) m)"
  proof (cases "busy (dev m)")
    case True
    with eq have "f dev busy (dev m) = Some m'" by simp
    from IH [OF this] obtain n where "\<not> busy m'" "m' = (dev ^^ Suc n) (dev m)" by blast
    then have "\<not> busy m' \<and> m' = (dev ^^ Suc (Suc n)) m" by (simp add: funpow_swap1)
    then show ?thesis by blast
  next
    case False
    with eq have "m' = (dev ^^ Suc 0) m" and "\<not> busy m'" by auto
    then show ?thesis by blast
  qed
qed

section \<open>Parameters of sysfs table and list accesses\<close>

text \<open>
  Offset and byte count of a binary sysfs access against the size of a table element: the result
  is the errno or the element index (for a list also the number of elements).
\<close>

definition edgx_sysfs_tbl_params :: "int \<Rightarrow> int \<Rightarrow> int \<Rightarrow> (int + int) option" where
  "edgx_sysfs_tbl_params ofs cnt tsz = do {
     (idx, idx_rem) \<leftarrow> do_div ofs tsz;
     if idx_rem \<noteq> 0 then Some (Inl (- EINVAL))
     else if cnt \<noteq> tsz then Some (Inl (- EINVAL))
     else Some (Inr idx)
   }"

definition edgx_sysfs_list_params :: "int \<Rightarrow> int \<Rightarrow> int \<Rightarrow> (int + int \<times> int) option" where
  "edgx_sysfs_list_params ofs cnt lsz = do {
     (idx, idx_rem) \<leftarrow> do_div ofs lsz;
     (nelems, nelems_rem) \<leftarrow> do_div cnt lsz;
     if idx_rem \<noteq> 0 \<or> nelems_rem \<noteq> 0 then Some (Inl (- EINVAL))
     else Some (Inr (idx, nelems))
   }"

lemma sysfs_tbl_params_elem [simp]:
  "0 < tsz \<Longrightarrow> edgx_sysfs_tbl_params (i * tsz) tsz tsz = Some (Inr i)"
  by (simp add: edgx_sysfs_tbl_params_def)

lemma sysfs_list_params_elems [simp]:
  "0 < lsz \<Longrightarrow> edgx_sysfs_list_params (i * lsz) (n * lsz) lsz = Some (Inr (i, n))"
  by (simp add: edgx_sysfs_list_params_def)

lemma sysfs_tbl_params_iff:
  assumes "0 < tsz"
  shows "edgx_sysfs_tbl_params ofs cnt tsz =
           Some (if tsz dvd ofs \<and> cnt = tsz then Inr (ofs div tsz) else Inl (- EINVAL))"
  using assms by (auto simp: edgx_sysfs_tbl_params_def dvd_eq_mod_eq_0)

lemma sysfs_list_params_iff:
  assumes "0 < lsz"
  shows "edgx_sysfs_list_params ofs cnt lsz =
           Some (if lsz dvd ofs \<and> lsz dvd cnt then Inr (ofs div lsz, cnt div lsz)
                 else Inl (- EINVAL))"
  using assms by (auto simp: edgx_sysfs_list_params_def dvd_eq_mod_eq_0)

end
