(* ===== verification/KTime.thy ===== *)
theory KTime
  imports Prelude
begin

text \<open>
  The kernel's \<open>struct timespec64\<close> and the operations of \<open>linux/time64.h\<close> that the driver calls.
  Seconds and nanoseconds are integers; every operation wraps at the width of its C type. The
  subtract-and-count loops of the kernel's \<open>set_normalized_timespec64\<close> and
  \<open>__iter_div_u64_rem\<close> are written as the division they compute.
\<close>

record timespec64 =
  tv_sec :: int
  tv_nsec :: int

definition set_normalized_timespec64 :: "int \<Rightarrow> int \<Rightarrow> timespec64" where
  "set_normalized_timespec64 sec nsec =
     \<lparr>tv_sec = wrap_s64 (sec + nsec div NSEC_PER_SEC), tv_nsec = nsec mod NSEC_PER_SEC\<rparr>"

definition timespec64_sub :: "timespec64 \<Rightarrow> timespec64 \<Rightarrow> timespec64" where
  "timespec64_sub lhs rhs =
     set_normalized_timespec64 (wrap_s64 (tv_sec lhs - tv_sec rhs)) (wrap_s64 (tv_nsec lhs - tv_nsec rhs))"

definition timespec64_add :: "timespec64 \<Rightarrow> timespec64 \<Rightarrow> timespec64" where
  "timespec64_add lhs rhs =
     set_normalized_timespec64 (wrap_s64 (tv_sec lhs + tv_sec rhs)) (wrap_s64 (tv_nsec lhs + tv_nsec rhs))"

definition timespec64_to_ns :: "timespec64 \<Rightarrow> int" where
  "timespec64_to_ns ts = wrap_s64 (tv_sec ts * NSEC_PER_SEC + tv_nsec ts)"

text \<open>
  \<open>timespec64_add_ns\<close> takes an unsigned 64-bit number of nanoseconds; the quotient that is added to
  the seconds is a 32-bit counter.
\<close>

definition timespec64_add_ns :: "timespec64 \<Rightarrow> int \<Rightarrow> timespec64" where
  "timespec64_add_ns a ns =
     (let total = wrap_u64 (tv_nsec a + wrap_u64 ns)
      in \<lparr>tv_sec = wrap_s64 (tv_sec a + wrap_u32 (total div NSEC_PER_SEC)),
          tv_nsec = total mod NSEC_PER_SEC\<rparr>)"

section \<open>Normalised times and their value\<close>

definition ts_norm :: "timespec64 \<Rightarrow> bool" where
  "ts_norm t \<longleftrightarrow> 0 \<le> tv_nsec t \<and> tv_nsec t < NSEC_PER_SEC"

text \<open>The point in time in nanoseconds, as a mathematical integer.\<close>

definition ts_ns :: "timespec64 \<Rightarrow> int" where
  "ts_ns t = tv_sec t * NSEC_PER_SEC + tv_nsec t"

text \<open>Seconds that no computation of the driver can push out of 64 bits.\<close>

definition sec_range :: "int \<Rightarrow> bool" where
  "sec_range s \<longleftrightarrow> - (2 ^ 62) < s \<and> s < 2 ^ 62"

lemma ts_norm_set_normalized [simp]: "ts_norm (set_normalized_timespec64 sec nsec)"
  by (simp add: ts_norm_def set_normalized_timespec64_def)

lemma ts_norm_sub [simp]: "ts_norm (timespec64_sub a b)"
  by (simp add: timespec64_sub_def)

lemma ts_norm_add [simp]: "ts_norm (timespec64_add a b)"
  by (simp add: timespec64_add_def)

lemma ts_ns_set_normalized:
  assumes "- (2 ^ 63) \<le> sec + nsec div NSEC_PER_SEC" "sec + nsec div NSEC_PER_SEC < 2 ^ 63"
  shows "ts_ns (set_normalized_timespec64 sec nsec) = sec * NSEC_PER_SEC + nsec"
  using assms by (simp add: ts_ns_def set_normalized_timespec64_def wrap_s64_id algebra_simps)

text \<open>Sums and differences of two sub-second parts carry at most one second.\<close>

lemma nsec_carry:
  fixes x :: int
  assumes "- NSEC_PER_SEC < x" "x < 2 * NSEC_PER_SEC"
  shows "- 1 \<le> x div NSEC_PER_SEC" "x div NSEC_PER_SEC \<le> 1"
proof -
  have "(- NSEC_PER_SEC) div NSEC_PER_SEC \<le> x div NSEC_PER_SEC"
    by (rule zdiv_mono1) (use assms in simp_all)
  then show "- 1 \<le> x div NSEC_PER_SEC" by simp
  have "x div NSEC_PER_SEC \<le> (2 * NSEC_PER_SEC - 1) div NSEC_PER_SEC"
    by (rule zdiv_mono1) (use assms in simp_all)
  then show "x div NSEC_PER_SEC \<le> 1" by simp
qed

lemma ts_ns_sub:
  assumes "ts_norm a" "ts_norm b" "sec_range (tv_sec a - tv_sec b)"
  shows "ts_ns (timespec64_sub a b) = ts_ns a - ts_ns b"
proof -
  have w: "wrap_s64 (tv_sec a - tv_sec b) = tv_sec a - tv_sec b"
    "wrap_s64 (tv_nsec a - tv_nsec b) = tv_nsec a - tv_nsec b"
    using assms by (simp_all add: wrap_s64_id ts_norm_def sec_range_def)
  have "- 1 \<le> (tv_nsec a - tv_nsec b) div NSEC_PER_SEC"
    "(tv_nsec a - tv_nsec b) div NSEC_PER_SEC \<le> 1"
    by (rule nsec_carry; use assms in \<open>simp add: ts_norm_def\<close>)+
  with assms(3) have "ts_ns (timespec64_sub a b) =
      (tv_sec a - tv_sec b) * NSEC_PER_SEC + (tv_nsec a - tv_nsec b)"
    unfolding timespec64_sub_def w by (intro ts_ns_set_normalized) (simp_all add: sec_range_def)
  then show ?thesis by (simp add: ts_ns_def algebra_simps)
qed

lemma ts_ns_add:
  assumes "ts_norm a" "ts_norm b" "sec_range (tv_sec a + tv_sec b)"
  shows "ts_ns (timespec64_add a b) = ts_ns a + ts_ns b"
proof -
  have w: "wrap_s64 (tv_sec a + tv_sec b) = tv_sec a + tv_sec b"
    "wrap_s64 (tv_nsec a + tv_nsec b) = tv_nsec a + tv_nsec b"
    using assms by (simp_all add: wrap_s64_id ts_norm_def sec_range_def)
  have "- 1 \<le> (tv_nsec a + tv_nsec b) div NSEC_PER_SEC"
    "(tv_nsec a + tv_nsec b) div NSEC_PER_SEC \<le> 1"
    by (rule nsec_carry; use assms in \<open>simp add: ts_norm_def\<close>)+
  with assms(3) have "ts_ns (timespec64_add a b) =
      (tv_sec a + tv_sec b) * NSEC_PER_SEC + (tv_nsec a + tv_nsec b)"
    unfolding timespec64_add_def w by (intro ts_ns_set_normalized) (simp_all add: sec_range_def)
  then show ?thesis by (simp add: ts_ns_def algebra_simps)
qed

lemma ts_ns_le_iff:
  assumes "ts_norm a" "ts_norm b"
  shows "ts_ns a \<le> ts_ns b \<longleftrightarrow>
           tv_sec a < tv_sec b \<or> (tv_sec a = tv_sec b \<and> tv_nsec a \<le> tv_nsec b)"
  using assms unfolding ts_ns_def ts_norm_def by auto

lemma ts_ns_inject:
  assumes "ts_norm a" "ts_norm b" "ts_ns a = ts_ns b"
  shows "a = b"
proof -
  have "tv_sec a = tv_sec b"
    using assms unfolding ts_ns_def ts_norm_def by linarith
  with assms show ?thesis by (simp add: ts_ns_def)
qed

lemma timespec64_to_ns_value:
  "- (2 ^ 63) \<le> ts_ns t \<Longrightarrow> ts_ns t < 2 ^ 63 \<Longrightarrow> timespec64_to_ns t = ts_ns t"
  by (simp add: timespec64_to_ns_def ts_ns_def wrap_s64_id)

end
