(* ===== verification/SchedTime.thy ===== *)
theory SchedTime
  imports KTime
begin

text \<open>
  The time computations of \<open>edge_sched.c\<close>: cycle times as fractions of a second, their conversion
  to nanoseconds, and the start of the first cycle that does not lie before the current time.
  The model is the LP64 data model of a 64-bit kernel (\<open>NSEC_PER_SEC\<close> is a 64-bit \<open>long\<close>).
\<close>

unbundle bit_operations_syntax

record sched_rational =
  num :: u32
  denom :: u32

definition edgx_sched_rational_to_nsec :: "sched_rational \<Rightarrow> (int \<times> int) option" where
  "edgx_sched_rational_to_nsec rat = do {
     (n1, rem1) \<leftarrow> do_div (uint (num rat)) (uint (denom rat));
     let cycle_sec = wrap_u32 n1;
     (n2, rem2) \<leftarrow> do_div (wrap_u64 (rem1 * NSEC_PER_SEC)) (uint (denom rat));
     let nsec = wrap_u64 (n2 + cycle_sec * NSEC_PER_SEC);
     (n3, rem3) \<leftarrow> do_div (wrap_u64 (rem2 * 2 ^ 32)) (uint (denom rat));
     Some (nsec, wrap_u32 n3)
   }"

definition edgx_sched_nsec_to_rational :: "int \<Rightarrow> int \<Rightarrow> sched_rational" where
  "edgx_sched_nsec_to_rational nsec subnsec = \<lparr>num = word_of_int nsec, denom = word_of_int NSEC_PER_SEC\<rparr>"

definition edgx_sched_diff_to_cycles ::
  "timespec64 \<Rightarrow> timespec64 \<Rightarrow> sched_rational \<Rightarrow> bool \<Rightarrow> int \<Rightarrow> int option" where
  "edgx_sched_diff_to_cycles begin_time end_time ct round_up diff_sec_mask = do {
     let delta = timespec64_sub end_time begin_time;
     let delta_sec = wrap_s64 (wrap_u64 (tv_sec delta) AND diff_sec_mask);
     (count_sec, count_sec_rem) \<leftarrow> do_div (wrap_u64 (delta_sec * uint (denom ct))) (uint (num ct));
     (count_nsec, count_nsec_rem) \<leftarrow>
       do_div (wrap_u64 (tv_nsec delta * uint (denom ct))) (uint (num ct));
     let count_res = wrap_u64 (count_sec_rem * NSEC_PER_SEC + count_nsec * uint (num ct) + count_nsec_rem);
     let count_res = (if round_up then wrap_u64 (count_res + (uint (num ct) * NSEC_PER_SEC - 1))
                      else count_res);
     (count_res, rem1) \<leftarrow> do_div count_res (uint (num ct));
     (count_res, rem2) \<leftarrow> do_div count_res NSEC_PER_SEC;
     Some (wrap_u64 (count_sec + count_res))
   }"

definition edgx_sched_calc_future_time ::
  "timespec64 \<Rightarrow> timespec64 \<Rightarrow> sched_rational \<Rightarrow> timespec64 option" where
  "edgx_sched_calc_future_time in_time cur_time ct = do {
     count \<leftarrow> edgx_sched_diff_to_cycles in_time cur_time ct True (2 ^ 64 - 1);
     (n1, rem1) \<leftarrow> do_div (wrap_u64 (count * uint (num ct))) (uint (denom ct));
     (n2, rem2) \<leftarrow> do_div (wrap_u64 (rem1 * NSEC_PER_SEC)) (uint (denom ct));
     let advance = \<lparr>tv_sec = wrap_s64 n1, tv_nsec = n2\<rparr>;
     Some (timespec64_add in_time advance)
   }"

section \<open>Conversion of a cycle time to nanoseconds\<close>

lemma uint_pos: "(x :: 'a::len word) \<noteq> 0 \<Longrightarrow> 0 < uint x"
  using uint_nonnegative [of x] by (metis order_le_less uint_0_iff)

lemma mult_u32_bound:
  fixes a b :: int
  assumes "0 \<le> a" "a < A" "0 \<le> b" "b \<le> B"
  shows "0 \<le> a * b" "a * b \<le> A * B"
  using assms by (auto intro: mult_mono less_imp_le)

lemma int_div_le_self: "0 < d \<Longrightarrow> 0 \<le> n \<Longrightarrow> n div d \<le> (n :: int)"
  using zdiv_mono2 [of n 1 d] by simp

lemma int_div_bounds:
  fixes n d :: int
  assumes "0 < d" "0 \<le> n" "n < d * c"
  shows "0 \<le> n div d" "n div d < c"
proof -
  show "0 \<le> n div d" using assms by (simp add: pos_imp_zdiv_nonneg_iff)
  have "n div d \<le> (d * c - 1) div d" using assms by (intro zdiv_mono1) simp_all
  also have "\<dots> = (- 1 + c * d) div d" by (simp add: algebra_simps)
  also have "\<dots> = c + (- 1) div d" using assms by (subst div_mult_self1) simp_all
  also have "\<dots> < c" using div_neg_pos_less0 [of "- 1" d] assms by simp
  finally show "n div d < c" .
qed

lemma sec_nsec_split:
  fixes a d c :: int
  assumes "0 < d"
  shows "(a div d) * c + ((a mod d) * c) div d = (a * c) div d"
    and "((a mod d) * c) mod d = (a * c) mod d"
proof -
  have eq: "a * c = (a div d * c) * d + (a mod d) * c"
    by (metis (no_types) distrib_right div_mult_mod_eq mult.assoc mult.commute)
  show "(a div d) * c + ((a mod d) * c) div d = (a * c) div d"
    using assms by (subst eq) simp
  show "((a mod d) * c) mod d = (a * c) mod d"
    by (simp add: mod_mult_left_eq)
qed

lemma rational_to_nsec_value:
  assumes "denom rat \<noteq> 0"
  shows "edgx_sched_rational_to_nsec rat =
           Some (uint (num rat) * NSEC_PER_SEC div uint (denom rat),
                 (uint (num rat) * NSEC_PER_SEC mod uint (denom rat)) * 2 ^ 32 div uint (denom rat))"
proof -
  let ?n = "uint (num rat)" and ?d = "uint (denom rat)"
  have d: "0 < ?d" using assms by (rule uint_pos)
  have n: "0 \<le> ?n" "?n < 4294967296" and dU: "?d < 4294967296" by (rule uint_u32_bounds)+
  have q: "0 \<le> ?n div ?d" "?n div ?d \<le> ?n"
    using d n by (simp_all add: pos_imp_zdiv_nonneg_iff int_div_le_self)
  have r: "0 \<le> ?n mod ?d" "?n mod ?d < ?d" using d by simp_all
  let ?m = "(?n mod ?d) * NSEC_PER_SEC"
  have r2: "0 \<le> ?m mod ?d" "?m mod ?d < ?d" using d by simp_all
  have q2: "0 \<le> ?m div ?d" "?m div ?d < NSEC_PER_SEC"
    by (rule int_div_bounds [where c = NSEC_PER_SEC]; use d r in simp)+
  have q3: "0 \<le> (?m mod ?d) * 2 ^ 32 div ?d" "(?m mod ?d) * 2 ^ 32 div ?d < 4294967296"
    by (rule int_div_bounds [where c = 4294967296]; use d r2 in simp)+
  have m: "0 \<le> ?m" "?m < 18446744073709551616" using r dU by linarith+
  have m2: "0 \<le> (?m mod ?d) * 2 ^ 32" "(?m mod ?d) * 2 ^ 32 < 18446744073709551616"
    using r2 dU by simp_all
  have w: "wrap_u32 (?n div ?d) = ?n div ?d" "wrap_u64 ?m = ?m"
    "wrap_u64 (?n div ?d * NSEC_PER_SEC + ?m div ?d) = ?n div ?d * NSEC_PER_SEC + ?m div ?d"
    "wrap_u64 ((?m mod ?d) * 2 ^ 32) = (?m mod ?d) * 2 ^ 32"
    "wrap_u32 ((?m mod ?d) * 2 ^ 32 div ?d) = (?m mod ?d) * 2 ^ 32 div ?d"
    using q q2 q3 n m m2 by (simp_all only: wrap_u32_def wrap_u64_def) (simp_all add: zmod_trivial_iff)
  note split = sec_nsec_split [OF d, of ?n NSEC_PER_SEC]
  show ?thesis
    using d split w(1,2) w(3) [unfolded split] w(4,5) [unfolded split]
    by (simp add: edgx_sched_rational_to_nsec_def add.commute)
qed

section \<open>The number of cycles between two points in time\<close>

lemma and_all_ones: "0 \<le> x \<Longrightarrow> x < 2 ^ 64 \<Longrightarrow> x AND (2 ^ 64 - 1) = (x :: int)"
  using take_bit_eq_mask [of 64 x] by (simp add: take_bit_int_eq_self mask_eq_exp_minus_1)

text \<open>Seconds and sub-seconds are divided apart; together they give the division of the whole.\<close>

lemma split_cycle_count:
  fixes S n D N r :: int
  assumes "0 < N"
  shows "S * D div N + ((S * D mod N) * NSEC_PER_SEC + n * D div N * N + n * D mod N + r) div N div NSEC_PER_SEC
           = ((S * NSEC_PER_SEC + n) * D + r) div (N * NSEC_PER_SEC)"
proof -
  let ?q = "S * D div N" and ?m = "S * D mod N"
  let ?K = "N * NSEC_PER_SEC"
  have sd: "S * D = ?q * N + ?m" by simp
  have "(S * NSEC_PER_SEC + n) * D + r = S * D * NSEC_PER_SEC + n * D + r" by (simp add: algebra_simps)
  also have "\<dots> = ?m * NSEC_PER_SEC + n * D + r + ?q * ?K"
  proof -
    have "S * D * NSEC_PER_SEC = (?q * N + ?m) * NSEC_PER_SEC" using sd by (rule arg_cong)
    also have "\<dots> = ?m * NSEC_PER_SEC + ?q * ?K" by (simp only: distrib_right mult.assoc add.commute)
    finally show ?thesis by linarith
  qed
  finally have e: "(S * NSEC_PER_SEC + n) * D + r = ?m * NSEC_PER_SEC + n * D + r + ?q * ?K" .
  have "((S * NSEC_PER_SEC + n) * D + r) div ?K = ?q + (?m * NSEC_PER_SEC + n * D + r) div ?K"
    unfolding e by (rule div_mult_self1) (use assms in simp)
  moreover have "?m * NSEC_PER_SEC + n * D div N * N + n * D mod N + r = ?m * NSEC_PER_SEC + n * D + r"
    by simp
  moreover have "x div N div NSEC_PER_SEC = x div ?K" for x :: int
    using assms by (simp add: div_mult2_eq zdiv_zmult2_eq)
  ultimately show ?thesis by (simp only: add.assoc)
qed

text \<open>The bounds under which no intermediate value of the driver's 64-bit computation wraps.\<close>

lemma cycle_count_bounds:
  fixes S n :: int and N D :: u32
  assumes "N \<noteq> 0" "0 \<le> S" "S < 2 ^ 31" "0 \<le> n" "n < NSEC_PER_SEC"
  defines "sd \<equiv> S * uint D" and "nd \<equiv> n * uint D"
  shows "0 \<le> sd" "sd < 2 ^ 63" "0 \<le> nd" "nd \<le> 4294967295 * NSEC_PER_SEC"
    "0 \<le> sd mod uint N" "sd mod uint N \<le> 4294967295" "0 \<le> sd div uint N" "sd div uint N < 2 ^ 63"
proof -
  have N: "0 < uint N" "uint N < 4294967296" using assms(1) uint_u32_bounds by (auto intro: uint_pos)
  have D: "0 \<le> uint D" "uint D \<le> 4294967295" using uint_u32_bounds [of D] by auto
  show sd0: "0 \<le> sd" using assms D by simp
  have "sd \<le> (2 ^ 31 - 1) * 4294967295" unfolding sd_def by (rule mult_mono) (use assms D in auto)
  then show sd: "sd < 2 ^ 63" by simp
  show "0 \<le> nd" using assms D by simp
  have "nd \<le> NSEC_PER_SEC * 4294967295" unfolding nd_def by (rule mult_mono) (use assms D in auto)
  then show "nd \<le> 4294967295 * NSEC_PER_SEC" by simp
  show "0 \<le> sd mod uint N" "0 \<le> sd div uint N" using N sd0 by (simp_all add: pos_imp_zdiv_nonneg_iff)
  have "sd mod uint N < uint N" using N by simp
  then show "sd mod uint N \<le> 4294967295" using N by linarith
  show "sd div uint N < 2 ^ 63" using int_div_le_self [OF N(1) sd0] sd by linarith
qed

lemma diff_to_cycles_value:
  assumes norm: "ts_norm a" "ts_norm b" and sec: "sec_range (tv_sec b - tv_sec a)"
    and N: "num ct \<noteq> 0"
    and d: "0 \<le> ts_ns b - ts_ns a" "ts_ns b - ts_ns a < 2 ^ 31 * NSEC_PER_SEC"
  shows "edgx_sched_diff_to_cycles a b ct up (2 ^ 64 - 1) =
           Some (((ts_ns b - ts_ns a) * uint (denom ct) + (if up then uint (num ct) * NSEC_PER_SEC - 1 else 0))
                   div (uint (num ct) * NSEC_PER_SEC))"
proof -
  let ?t = "timespec64_sub b a" and ?N = "uint (num ct)" and ?D = "uint (denom ct)"
  define r where "r = (if up then ?N * NSEC_PER_SEC - 1 else 0)"
  have v: "tv_sec ?t * NSEC_PER_SEC + tv_nsec ?t = ts_ns b - ts_ns a"
    using ts_ns_sub [OF norm(2,1) sec] by (simp add: ts_ns_def)
  have n: "0 \<le> tv_nsec ?t" "tv_nsec ?t < NSEC_PER_SEC"
    using ts_norm_sub [of b a] by (simp_all add: ts_norm_def)
  have S: "0 \<le> tv_sec ?t" "tv_sec ?t < 2 ^ 31" by (use v n d in linarith)+
  have N': "0 < ?N" "?N < 4294967296" using N uint_u32_bounds by (auto intro: uint_pos)
  note bnd = cycle_count_bounds [OF N S n, of "denom ct"]
  have mask: "wrap_s64 (wrap_u64 (tv_sec ?t) AND 18446744073709551615) = tv_sec ?t"
    using and_all_ones [of "tv_sec ?t"] S by (simp add: wrap_simps)
  have r: "0 \<le> r" "r < 4294967295 * NSEC_PER_SEC" using N' by (auto simp: r_def)
  define sd nd where "sd = tv_sec ?t * ?D" and "nd = tv_nsec ?t * ?D"
  note bnd = bnd [folded sd_def nd_def]
  define x where "x = (sd mod ?N) * NSEC_PER_SEC + nd div ?N * ?N + nd mod ?N"
  have x: "x = (sd mod ?N) * NSEC_PER_SEC + nd" by (simp add: x_def)
  define sm sq where "sm = sd mod ?N" and "sq = sd div ?N"
  note bnd = bnd [folded sm_def sq_def]
  have xb: "0 \<le> x" "x + r < 18446744073709551616" "0 \<le> x + r"
    unfolding x sm_def [symmetric] using bnd(3-6) r by linarith+
  define y where "y = (x + r) div ?N div NSEC_PER_SEC"
  have y: "0 \<le> y" "y \<le> 18446744073"
  proof -
    have a: "0 \<le> (x + r) div ?N" "(x + r) div ?N \<le> x + r"
      using N' xb by (auto simp: pos_imp_zdiv_nonneg_iff intro!: int_div_le_self)
    then show "0 \<le> y" by (simp add: y_def pos_imp_zdiv_nonneg_iff)
    have "y \<le> 18446744073709551616 div NSEC_PER_SEC"
      unfolding y_def by (rule zdiv_mono1) (use a xb in linarith, simp)
    then show "y \<le> 18446744073" by simp
  qed
  have w: "wrap_u64 sd = sd" "wrap_u64 nd = nd" "wrap_u64 x = x" "wrap_u64 (x + r) = x + r"
    "wrap_u64 (sq + y) = sq + y"
    by (rule wrap_u64_id; use bnd xb y r in simp)+
  have "edgx_sched_diff_to_cycles a b ct up (2 ^ 64 - 1) = Some (sq + y)"
    unfolding edgx_sched_diff_to_cycles_def Let_def sd_def [symmetric] nd_def [symmetric]
    using N' w by (cases up) (simp_all add: mask r_def sq_def y_def x_def sd_def nd_def)
  then show ?thesis
    using split_cycle_count [OF N'(1), of "tv_sec ?t" ?D "tv_nsec ?t" r] v
    by (simp only: r_def sq_def y_def x_def sd_def nd_def)
qed

lemma round_up_ceil: "a + (N * NSEC_PER_SEC - 1) = a + N * NSEC_PER_SEC - 1" by simp

section \<open>The first cycle start that is not in the past\<close>

text \<open>The start of cycle \<open>k\<close>, in nanoseconds from the base time, rounded down.\<close>

definition cycle_start_ns :: "sched_rational \<Rightarrow> int \<Rightarrow> int" where
  "cycle_start_ns ct k = k * uint (num ct) * NSEC_PER_SEC div uint (denom ct)"

lemma ns_split:
  fixes a D :: int
  assumes "0 < D" "0 \<le> a" "a div D < 2 ^ 63"
  shows "ts_norm \<lparr>tv_sec = wrap_s64 (a div D), tv_nsec = (a mod D) * NSEC_PER_SEC div D\<rparr>"
    and "ts_ns \<lparr>tv_sec = wrap_s64 (a div D), tv_nsec = (a mod D) * NSEC_PER_SEC div D\<rparr>
           = a * NSEC_PER_SEC div D"
proof -
  have r: "0 \<le> a mod D" "a mod D < D" using assms by simp_all
  have "0 \<le> (a mod D) * NSEC_PER_SEC div D" "(a mod D) * NSEC_PER_SEC div D < NSEC_PER_SEC"
    by (rule int_div_bounds [where c = NSEC_PER_SEC]; use assms r in simp)+
  then show "ts_norm \<lparr>tv_sec = wrap_s64 (a div D), tv_nsec = (a mod D) * NSEC_PER_SEC div D\<rparr>"
    by (simp add: ts_norm_def)
  have "wrap_s64 (a div D) = a div D"
  proof (rule wrap_s64_id)
    have "0 \<le> a div D" using assms by (simp add: pos_imp_zdiv_nonneg_iff)
    then show "- 9223372036854775808 \<le> a div D" by linarith
    show "a div D < 9223372036854775808" using assms(3) by simp
  qed
  then show "ts_ns \<lparr>tv_sec = wrap_s64 (a div D), tv_nsec = (a mod D) * NSEC_PER_SEC div D\<rparr>
           = a * NSEC_PER_SEC div D"
    using sec_nsec_split(1) [OF assms(1), of a NSEC_PER_SEC] by (simp add: ts_ns_def)
qed

lemma calc_future_time_value:
  assumes norm: "ts_norm a" "ts_norm b" and sec: "sec_range (tv_sec b - tv_sec a)"
    and N: "num ct \<noteq> 0" and D: "denom ct \<noteq> 0"
    and d: "0 \<le> ts_ns b - ts_ns a" "ts_ns b - ts_ns a < 2 ^ 31 * NSEC_PER_SEC"
    and room: "\<bar>tv_sec a\<bar> < 2 ^ 61"
  defines "k \<equiv> ceil_div ((ts_ns b - ts_ns a) * uint (denom ct)) (uint (num ct) * NSEC_PER_SEC)"
  shows "\<exists>t. edgx_sched_calc_future_time a b ct = Some t \<and> ts_norm t \<and> ts_ns t = ts_ns a + cycle_start_ns ct k"
proof -
  let ?N = "uint (num ct)" and ?D = "uint (denom ct)"
  let ?d = "ts_ns b - ts_ns a"
  have N': "0 < ?N" "?N \<le> 4294967295" using N uint_u32_bounds [of "num ct"] by (auto intro: uint_pos)
  have D': "0 < ?D" "?D \<le> 4294967295" using D uint_u32_bounds [of "denom ct"] by (auto intro: uint_pos)
  have cnt: "edgx_sched_diff_to_cycles a b ct True (2 ^ 64 - 1) = Some k"
    using diff_to_cycles_value [OF norm sec N d(1), of True] d(2)
    by (simp add: k_def ceil_div_def algebra_simps)
  have k0: "0 \<le> k" unfolding k_def using N' D' d by (intro ceil_div_nonneg) simp_all
  define a' where "a' = k * ?N"
  have a0: "0 \<le> a'" using k0 N' by (simp add: a'_def)
  have "?d * ?D \<le> (2 ^ 31 * NSEC_PER_SEC) * ?D"
    by (rule mult_right_mono) (use d D' in auto)
  moreover have "k * (?N * NSEC_PER_SEC) < ?d * ?D + ?N * NSEC_PER_SEC"
    unfolding k_def by (rule ceil_div_bounds(2)) (use N' in simp)
  ultimately have a1: "a' < 2 ^ 31 * ?D + ?N" by (simp add: a'_def)
  also have "\<dots> \<le> ?D * (2 ^ 31 + ?N)"
    using mult_right_mono [of 1 ?D ?N] D' N' by (simp add: algebra_simps)
  finally have q: "0 \<le> a' div ?D" "a' div ?D < 2 ^ 31 + ?N"
    using int_div_bounds [OF D'(1) a0] by blast+
  have "2 ^ 31 + ?N \<le> 2 ^ 63" using N'(2) by simp
  with q(2) have q': "a' div ?D < 2 ^ 63" by (rule less_le_trans)
  have m: "0 \<le> a' mod ?D" "a' mod ?D < ?D" using D' by simp_all
  have w: "wrap_u64 a' = a'" using a0 a1 D' N' by (intro wrap_u64_id) simp_all
  have w2: "wrap_u64 (a' mod ?D * NSEC_PER_SEC) = a' mod ?D * NSEC_PER_SEC"
    by (rule wrap_u64_id) (use m D' in linarith)+
  define adv where "adv = \<lparr>tv_sec = wrap_s64 (a' div ?D), tv_nsec = (a' mod ?D) * NSEC_PER_SEC div ?D\<rparr>"
  have res: "edgx_sched_calc_future_time a b ct = Some (timespec64_add a adv)"
    unfolding edgx_sched_calc_future_time_def cnt using D' w w2
    by (simp add: adv_def a'_def [symmetric])
  have adv: "ts_norm adv" "ts_ns adv = a' * NSEC_PER_SEC div ?D"
    unfolding adv_def by (rule ns_split [OF D'(1) a0 q'])+
  have "wrap_s64 (a' div ?D) = a' div ?D" using q(1) q' by (intro wrap_s64_id) simp_all
  with q have "sec_range (tv_sec a + tv_sec adv)"
    using N' room by (simp add: sec_range_def adv_def abs_less_iff)
  from ts_ns_add [OF norm(1) adv(1) this] adv(2) res show ?thesis
    by (simp add: cycle_start_ns_def a'_def)
qed

section \<open>Properties\<close>

text \<open>
  \<open>edgx_sched_rational_to_nsec\<close> converts a fraction of a second exactly: for every
  numerator and every non-zero denominator the whole nanoseconds are the rounded-down quotient and
  the third component is the first 32 binary digits of the remaining fraction; no intermediate
  64-bit product wraps. Only a zero denominator stops it (with a division trap).
\<close>

theorem rational_to_nsec_exact:
  "edgx_sched_rational_to_nsec rat =
     (if denom rat = 0 then None
      else Some (uint (num rat) * NSEC_PER_SEC div uint (denom rat),
                 (uint (num rat) * NSEC_PER_SEC mod uint (denom rat)) * 2 ^ 32 div uint (denom rat)))"
proof (cases "denom rat = 0")
  case True
  then show ?thesis by (simp add: edgx_sched_rational_to_nsec_def)
next
  case False
  with rational_to_nsec_value [OF False] show ?thesis by simp
qed

text \<open>
  \<open>edgx_sched_diff_to_cycles\<close> with rounding up is the mathematical ceiling of the time
  difference divided by the cycle time, for every cycle time and every difference below 2^31
  seconds: the split into seconds and nanoseconds loses nothing and nothing wraps.
\<close>

theorem diff_to_cycles_ceil:
  assumes "ts_norm begin_time" "ts_norm end_time" "sec_range (tv_sec end_time - tv_sec begin_time)"
    and "num ct \<noteq> 0"
    and "0 \<le> ts_ns end_time - ts_ns begin_time"
    and "ts_ns end_time - ts_ns begin_time < 2 ^ 31 * NSEC_PER_SEC"
  shows "edgx_sched_diff_to_cycles begin_time end_time ct True (2 ^ 64 - 1) =
           Some (ceil_div ((ts_ns end_time - ts_ns begin_time) * uint (denom ct))
                          (uint (num ct) * NSEC_PER_SEC))"
  using diff_to_cycles_value [OF assms, of True] by (simp add: ceil_div_def algebra_simps)

theorem diff_to_cycles_ceil_witness:
  "edgx_sched_diff_to_cycles \<lparr>tv_sec = 10, tv_nsec = 0\<rparr> \<lparr>tv_sec = 12, tv_nsec = 1\<rparr>
     \<lparr>num = 1, denom = 100\<rparr> True (2 ^ 64 - 1) = Some (ceil_div 200000000100 1000000000)"
  using diff_to_cycles_ceil [of "\<lparr>tv_sec = 10, tv_nsec = 0\<rparr>" "\<lparr>tv_sec = 12, tv_nsec = 1\<rparr>"
      "\<lparr>num = 1, denom = 100\<rparr>"]
  by (simp add: ts_norm_def sec_range_def ts_ns_def)

text \<open>
  Property C3. \<open>edgx_sched_calc_future_time\<close> returns a cycle start at or after the current time
  and less than one cycle after it: the base time plus a whole number of cycles (rounded down to a
  nanosecond), for every non-zero fraction as cycle time and every base time less than 2^31 seconds
  in the past.
\<close>

theorem calc_future_time_next_cycle:
  assumes "ts_norm in_time" "ts_norm cur_time"
    and "sec_range (tv_sec cur_time - tv_sec in_time)" "\<bar>tv_sec in_time\<bar> < 2 ^ 61"
    and "num ct \<noteq> 0" "denom ct \<noteq> 0"
    and "0 \<le> ts_ns cur_time - ts_ns in_time"
    and "ts_ns cur_time - ts_ns in_time < 2 ^ 31 * NSEC_PER_SEC"
  shows "\<exists>t k. edgx_sched_calc_future_time in_time cur_time ct = Some t \<and> ts_norm t
           \<and> 0 \<le> k \<and> ts_ns t = ts_ns in_time + cycle_start_ns ct k
           \<and> ts_ns cur_time \<le> ts_ns t
           \<and> (ts_ns t - ts_ns cur_time) * uint (denom ct) < uint (num ct) * NSEC_PER_SEC"
proof -
  let ?N = "uint (num ct)" and ?D = "uint (denom ct)" and ?d = "ts_ns cur_time - ts_ns in_time"
  define k where "k = ceil_div (?d * ?D) (?N * NSEC_PER_SEC)"
  obtain t where t: "edgx_sched_calc_future_time in_time cur_time ct = Some t" "ts_norm t"
    "ts_ns t = ts_ns in_time + cycle_start_ns ct k"
    using calc_future_time_value [of in_time cur_time ct] assms unfolding k_def by blast
  have pos: "0 < ?N" "0 < ?D" using assms by (simp_all add: uint_pos)
  have k: "?d * ?D \<le> k * (?N * NSEC_PER_SEC)" "k * (?N * NSEC_PER_SEC) < ?d * ?D + ?N * NSEC_PER_SEC"
    unfolding k_def by (rule ceil_div_bounds; use pos in simp)+
  have "0 \<le> k" unfolding k_def using pos assms by (intro ceil_div_nonneg) simp_all
  have "?d * ?D div ?D \<le> cycle_start_ns ct k"
    unfolding cycle_start_ns_def by (rule zdiv_mono1) (use k pos in \<open>simp_all add: algebra_simps\<close>)
  then have lo: "?d \<le> cycle_start_ns ct k" using pos by simp
  have "cycle_start_ns ct k * ?D \<le> k * ?N * NSEC_PER_SEC"
    unfolding cycle_start_ns_def using pos
    by (metis add_le_same_cancel1 div_mult_mod_eq linorder_not_le mod_int_pos_iff order_less_imp_not_less add_less_same_cancel1)
  with k have "cycle_start_ns ct k * ?D < ?d * ?D + ?N * NSEC_PER_SEC" by (simp add: algebra_simps)
  then have "(cycle_start_ns ct k - ?d) * ?D < ?N * NSEC_PER_SEC" by (simp add: algebra_simps)
  with t lo \<open>0 \<le> k\<close> show ?thesis by (intro exI [of _ t] exI [of _ k]) (simp add: algebra_simps)
qed

theorem calc_future_time_next_cycle_witness:
  "\<exists>t k. edgx_sched_calc_future_time \<lparr>tv_sec = 10, tv_nsec = 7\<rparr> \<lparr>tv_sec = 12, tv_nsec = 1\<rparr>
        \<lparr>num = 1, denom = 3000\<rparr> = Some t \<and> ts_norm t
      \<and> 0 \<le> k \<and> ts_ns t = 10000000007 + cycle_start_ns \<lparr>num = 1, denom = 3000\<rparr> k
      \<and> 12000000001 \<le> ts_ns t \<and> (ts_ns t - 12000000001) * 3000 < 1000000000"
  using calc_future_time_next_cycle [of "\<lparr>tv_sec = 10, tv_nsec = 7\<rparr>" "\<lparr>tv_sec = 12, tv_nsec = 1\<rparr>"
      "\<lparr>num = 1, denom = 3000\<rparr>"]
  by (simp add: ts_norm_def sec_range_def ts_ns_def)

end
