(* ===== verification/SchedHw.thy ===== *)
theory SchedHw
  imports RegIO SchedTime
begin

text \<open>
  The data of the scheduler (\<open>struct edgx_sched_tab_entry\<close>, \<open>edgx_sched_limits\<close>,
  \<open>edgx_sched_table\<close>, \<open>edgx_sched\<close>, \<open>edgx_sched_com\<close> of \<open>edge_sched.h\<close> and \<open>edge_sched.c\<close>) and
  the functions of \<open>edge_sched.c\<close> that read and write the registers of the flexible scheduler
  core: table flags, start and cycle time, and the rows of the gate control list.
\<close>

unbundle bit_operations_syntax

section \<open>Data\<close>

record tab_entry =
  time_interval :: u32
  operation_name :: u8
  gate_states :: u8
  padding :: u16

record sched_limits =
  hw_granularity_ns :: u32
  freq_err_abs :: u32
  max_entry_cnt :: u32
  max_int_len :: u32
  max_cyc_ms :: int
  nr_gates :: u8

datatype edgx_sched_state =
  EDGX_SCHED_ST_IDLE | EDGX_SCHED_ST_PENDING | EDGX_SCHED_ST_PENDING_DELAYED

text \<open>A NULL pointer to the rows of a table is \<open>None\<close>.\<close>

record sched_table =
  entries :: "tab_entry list option"
  entry_cnt :: u32
  list_len :: u32
  base_time :: timespec64
  cycle_time :: sched_rational
  tab_gate_states :: u8

text \<open>
  The delayed work is the number of jiffies' milliseconds it was armed with (\<open>None\<close>: not armed);
  the back pointers of the C structures are not part of the record.
\<close>

record sched =
  iobase :: nat
  sched_idx :: u32
  admin_tab :: sched_table
  op_tabs :: "sched_table list"
  gate_enabled :: bool
  conf_change :: bool
  offset_ns :: int
  conf_change_time :: timespec64
  start_time :: timespec64
  sched_state :: edgx_sched_state
  hnd_delayed :: "int option"
  conf_change_err :: u64

record sched_com =
  com_iobase :: nat
  limits :: sched_limits
  init_gate_states :: u16
  delay_chain :: u8
  irq_level_trig :: bool
  irq_shared :: bool

definition edgx_sched_undef_entry :: tab_entry where
  "edgx_sched_undef_entry = \<lparr>time_interval = 0, operation_name = 0xff, gate_states = 0, padding = 0\<rparr>"

section \<open>Register map\<close>

abbreviation (input) SCHED_GENERAL :: nat where "SCHED_GENERAL \<equiv> 0x10"
abbreviation (input) SCHED_OF_GATE_CNT :: nat where "SCHED_OF_GATE_CNT \<equiv> 0x4002"
abbreviation (input) SCHED_OF_ROW_CNT :: nat where "SCHED_OF_ROW_CNT \<equiv> 0x4004"
abbreviation (input) SCHED_OF_DELAY_CHAIN :: nat where "SCHED_OF_DELAY_CHAIN \<equiv> 0x4006"
abbreviation (input) SCHED_TBL_OFS :: nat where "SCHED_TBL_OFS \<equiv> 0x100"
abbreviation (input) SCHED_TBL_GEN :: nat where "SCHED_TBL_GEN \<equiv> 0x800"
abbreviation (input) SCHED_CAN_USE_MASK :: u16 where "SCHED_CAN_USE_MASK \<equiv> 1"
abbreviation (input) SCHED_IN_USE_MASK :: u16 where "SCHED_IN_USE_MASK \<equiv> 2"
abbreviation (input) SCHED_STOP_LAST :: u16 where "SCHED_STOP_LAST \<equiv> 0x100"
abbreviation (input) SCHED_START_TIME_NSEC_L :: nat where "SCHED_START_TIME_NSEC_L \<equiv> 0x814"
abbreviation (input) SCHED_START_TIME_NSEC_H :: nat where "SCHED_START_TIME_NSEC_H \<equiv> 0x816"
abbreviation (input) SCHED_START_TIME_SEC :: nat where "SCHED_START_TIME_SEC \<equiv> 0x818"
abbreviation (input) SCHED_CYC_TIME_NSEC_L :: nat where "SCHED_CYC_TIME_NSEC_L \<equiv> 0x824"
abbreviation (input) SCHED_CYC_TIME_NSEC_H :: nat where "SCHED_CYC_TIME_NSEC_H \<equiv> 0x826"
abbreviation (input) SCHED_ROW_AC_CMD0 :: nat where "SCHED_ROW_AC_CMD0 \<equiv> 0x1000"
abbreviation (input) SCHED_ROW_AC_CMD1 :: nat where "SCHED_ROW_AC_CMD1 \<equiv> 0x1002"
abbreviation (input) SCHED_ROW_DATA_OUT0 :: nat where "SCHED_ROW_DATA_OUT0 \<equiv> 0x1010"
abbreviation (input) SCHED_ROW_DATA_CYCLES :: nat where "SCHED_ROW_DATA_CYCLES \<equiv> 0x1018"
abbreviation (input) SCHED_AC_ERR :: u16 where "SCHED_AC_ERR \<equiv> 0x2000"
abbreviation (input) SCHED_AC_WRITE :: u16 where "SCHED_AC_WRITE \<equiv> 0x4000"
abbreviation (input) SCHED_AC_TRANSFER :: u16 where "SCHED_AC_TRANSFER \<equiv> 0x8000"
abbreviation (input) SCHED_EME_DIS_CTRL :: nat where "SCHED_EME_DIS_CTRL \<equiv> 0x20"
abbreviation (input) SCHED_EME_DIS_STAT0 :: nat where "SCHED_EME_DIS_STAT0 \<equiv> 0x30"
abbreviation (input) SCHED_INT_MASK :: nat where "SCHED_INT_MASK \<equiv> 0x1100"
abbreviation (input) SCHED_INT_STAT :: nat where "SCHED_INT_STAT \<equiv> 0x1102"
abbreviation (input) SCHED_INTERVAL_MAX :: u32 where "SCHED_INTERVAL_MAX \<equiv> 0xffff"
abbreviation (input) SCHED_MAX_CYC_NS :: int where "SCHED_MAX_CYC_NS \<equiv> 16 * NSEC_PER_MSEC"

section \<open>Capabilities and initialisation\<close>

definition edgx_sched_hw_get_delay_chain :: "iomem \<Rightarrow> nat \<Rightarrow> u16" where
  "edgx_sched_hw_get_delay_chain io base = edgx_rd16 io base SCHED_OF_DELAY_CHAIN"

definition edgx_sched_get_hw_row_cnt :: "iomem \<Rightarrow> nat \<Rightarrow> u16" where
  "edgx_sched_get_hw_row_cnt io base =
     (let val = edgx_rd16 io base SCHED_OF_ROW_CNT; val = val AND 0x0f in push_bit (unat val) 1)"

definition edgx_sched_get_hw_gate_cnt :: "iomem \<Rightarrow> nat \<Rightarrow> u16" where
  "edgx_sched_get_hw_gate_cnt io base = edgx_rd16 io base SCHED_OF_GATE_CNT AND 0x7f"

definition edgx_sched_set_hw_granularity :: "iomem \<Rightarrow> nat \<Rightarrow> u32 \<Rightarrow> iomem" where
  "edgx_sched_set_hw_granularity io base sched_granularity =
     edgx_wr16 io base SCHED_GENERAL (if sched_granularity = 3200 then 1 else 0)"

definition edgx_sched_hw_init :: "iomem \<Rightarrow> nat \<Rightarrow> u8 \<Rightarrow> int \<times> iomem" where
  "edgx_sched_hw_init io base gstates =
     (let io = edgx_wr16 io base SCHED_EME_DIS_STAT0 (ucast gstates);
          io = edgx_wr16 io base 0x32 0;
          io = edgx_wr16 io base 0x34 0;
          io = edgx_wr16 io base 0x36 0;
          io = edgx_wr16 io base SCHED_EME_DIS_CTRL 1
      in (0, io))"

definition edgx_sched_hw_disable :: "iomem \<Rightarrow> nat \<Rightarrow> u8 \<Rightarrow> iomem" where
  "edgx_sched_hw_disable io base gstates =
     (let io = edgx_wr16 io base SCHED_EME_DIS_STAT0 (ucast gstates)
      in edgx_wr16 io base SCHED_EME_DIS_CTRL 1)"

definition edgx_sched_hw_enable :: "iomem \<Rightarrow> nat \<Rightarrow> u8 \<Rightarrow> iomem" where
  "edgx_sched_hw_enable io base gstates =
     (let io = edgx_wr16 io base SCHED_EME_DIS_STAT0 (ucast gstates)
      in edgx_wr16 io base SCHED_EME_DIS_CTRL 0)"

section \<open>Table flags\<close>

definition edgx_sched_hw_is_pending :: "iomem \<Rightarrow> nat \<Rightarrow> bool" where
  "edgx_sched_hw_is_pending io base \<longleftrightarrow>
     (let pending_0 = edgx_rd16 io base SCHED_TBL_GEN AND SCHED_CAN_USE_MASK;
          pending_1 = edgx_rd16 io base (SCHED_TBL_GEN + SCHED_TBL_OFS) AND SCHED_CAN_USE_MASK
      in pending_0 \<noteq> 0 \<or> pending_1 \<noteq> 0)"

definition edgx_sched_hw_cancel_pending :: "iomem \<Rightarrow> nat \<Rightarrow> iomem" where
  "edgx_sched_hw_cancel_pending io base =
     (let tbl_gen = edgx_rd16 io base SCHED_TBL_GEN;
          io = edgx_wr16 io base SCHED_TBL_GEN (tbl_gen AND NOT SCHED_CAN_USE_MASK);
          tbl_gen = edgx_rd16 io base (SCHED_TBL_GEN + SCHED_TBL_OFS)
      in edgx_wr16 io base (SCHED_TBL_GEN + SCHED_TBL_OFS) (tbl_gen AND NOT SCHED_CAN_USE_MASK))"

definition edgx_sched_get_free_tab :: "iomem \<Rightarrow> sched \<Rightarrow> int" where
  "edgx_sched_get_free_tab io s =
     (let base = iobase s;
          in_use = edgx_rd16 io base SCHED_TBL_GEN AND SCHED_IN_USE_MASK
      in if in_use = 0 then 0
         else let in_use = edgx_rd16 io base (SCHED_TBL_GEN + SCHED_TBL_OFS) AND SCHED_IN_USE_MASK
              in if in_use = 0 then 1 else - EINVAL)"

definition edgx_sched_get_used_tab :: "iomem \<Rightarrow> sched \<Rightarrow> int" where
  "edgx_sched_get_used_tab io s =
     (let base = iobase s;
          in_use = edgx_rd16 io base SCHED_TBL_GEN AND SCHED_IN_USE_MASK
      in if in_use \<noteq> 0 then 0
         else let in_use = edgx_rd16 io base (SCHED_TBL_GEN + SCHED_TBL_OFS) AND SCHED_IN_USE_MASK
              in if in_use \<noteq> 0 then 1 else - EINVAL)"

section \<open>Submitting a configuration\<close>

definition edgx_sched_hw_set_pending :: "iomem \<Rightarrow> nat \<Rightarrow> nat \<Rightarrow> timespec64 \<Rightarrow> u32 \<Rightarrow> iomem" where
  "edgx_sched_hw_set_pending io base tab_idx btime cycle_nsec =
     (let ofs = tab_idx * SCHED_TBL_OFS;
          nsec = (word_of_int (tv_nsec btime) :: u32);
          io = edgx_wr16 io base (SCHED_CYC_TIME_NSEC_L + ofs) (ucast (cycle_nsec AND 0xffff));
          io = edgx_wr16 io base (SCHED_CYC_TIME_NSEC_H + ofs) (ucast (drop_bit 16 cycle_nsec));
          io = edgx_wr16 io base (SCHED_START_TIME_SEC + ofs) (word_of_int (tv_sec btime) AND 0xff);
          io = edgx_wr16 io base (SCHED_START_TIME_NSEC_L + ofs) (ucast (nsec AND 0xffff));
          io = edgx_wr16 io base (SCHED_START_TIME_NSEC_H + ofs) (ucast (drop_bit 16 nsec));
          tbl_gen = edgx_rd16 io base (SCHED_TBL_GEN + ofs)
      in edgx_wr16 io base (SCHED_TBL_GEN + ofs)
           ((tbl_gen OR SCHED_CAN_USE_MASK) AND NOT SCHED_STOP_LAST))"

definition edgx_sched_hw_get_cc_time :: "iomem \<Rightarrow> nat \<Rightarrow> nat \<Rightarrow> timespec64" where
  "edgx_sched_hw_get_cc_time io base tab_idx =
     (let ofs = tab_idx * SCHED_TBL_OFS;
          start_sec = edgx_rd16 io base (SCHED_START_TIME_SEC + ofs);
          start_nsec = (ucast (edgx_rd16 io base (SCHED_START_TIME_NSEC_L + ofs)) :: u32);
          start_nsec = start_nsec OR push_bit 16 (ucast (edgx_rd16 io base (SCHED_START_TIME_NSEC_H + ofs)))
      in \<lparr>tv_sec = uint start_sec, tv_nsec = uint start_nsec\<rparr>)"

section \<open>Rows of the gate control list\<close>

text \<open>
  The command register is polled until the transfer flag clears, at most 501 times: \<open>timeout\<close>
  counts down from 500 and is tested after each read. The device acts before every read.
\<close>

fun edgx_sched_hw_transfer_wait :: "device \<Rightarrow> nat \<Rightarrow> iomem \<Rightarrow> nat \<Rightarrow> int \<times> iomem" where
  "edgx_sched_hw_transfer_wait dev base io timeout =
     (let io = dev io; cmd = edgx_rd16 io base SCHED_ROW_AC_CMD0
      in if timeout = 0 \<or> cmd AND SCHED_AC_ERR \<noteq> 0 then (- EBUSY, io)
         else if cmd AND SCHED_AC_TRANSFER \<noteq> 0
              then edgx_sched_hw_transfer_wait dev base io (timeout - 1)
         else (0, io))"

declare edgx_sched_hw_transfer_wait.simps [simp del]

definition sched_row_cmd :: "sched \<Rightarrow> nat \<Rightarrow> u16" where
  "sched_row_cmd s tab_idx =
     ucast (sched_idx s AND 0xf) OR push_bit 8 (of_nat tab_idx AND 1)"

definition edgx_sched_write_entry ::
  "device \<Rightarrow> sched_com \<Rightarrow> sched \<Rightarrow> iomem \<Rightarrow> nat \<Rightarrow> nat \<Rightarrow> u16 \<Rightarrow> u32 \<Rightarrow> (int \<times> iomem) option" where
  "edgx_sched_write_entry dev com s io tab_idx row_idx gstates time_ns = do {
     let base = com_iobase com;
     let io = edgx_wr16 io base SCHED_ROW_AC_CMD1 (of_nat row_idx AND 0x3ff);
     let io = edgx_wr16 io base SCHED_ROW_DATA_OUT0 gstates;
     cycles \<leftarrow> udiv time_ns (hw_granularity_ns (limits com));
     let io = edgx_wr16 io base SCHED_ROW_DATA_CYCLES (ucast cycles);
     let cmd = sched_row_cmd s tab_idx OR SCHED_AC_WRITE OR SCHED_AC_TRANSFER;
     let io = edgx_wr16 io base SCHED_ROW_AC_CMD0 cmd;
     Some (edgx_sched_hw_transfer_wait dev base io 500)
   }"

text \<open>On success the result carries the gate states and the time that the C code writes back.\<close>

definition edgx_sched_read_entry ::
  "device \<Rightarrow> sched_com \<Rightarrow> sched \<Rightarrow> iomem \<Rightarrow> nat \<Rightarrow> nat \<Rightarrow> ((int + u16 \<times> u32) \<times> iomem) option" where
  "edgx_sched_read_entry dev com s io tab_idx row_idx =
     (if length (op_tabs s) \<le> tab_idx then None
      else if unat (list_len (op_tabs s ! tab_idx)) \<le> row_idx then Some (Inl (- ENOENT), io)
      else let base = com_iobase com;
               io = edgx_wr16 io base SCHED_ROW_AC_CMD1 (of_nat row_idx AND 0x3ff);
               io = edgx_wr16 io base SCHED_ROW_AC_CMD0 (sched_row_cmd s tab_idx OR SCHED_AC_TRANSFER);
               (ret, io) = edgx_sched_hw_transfer_wait dev base io 500
           in if ret \<noteq> 0 then Some (Inl ret, io)
              else Some (Inr (edgx_rd16 io base SCHED_ROW_DATA_OUT0,
                              ucast (edgx_rd16 io base SCHED_ROW_DATA_CYCLES)
                                * hw_granularity_ns (limits com)), io))"

section \<open>Lemmas on the table flags\<close>

lemma free_tab_cases:
  "edgx_sched_get_free_tab io s = 0 \<or> edgx_sched_get_free_tab io s = 1
     \<or> edgx_sched_get_free_tab io s = - EINVAL"
  by (simp add: edgx_sched_get_free_tab_def Let_def)

lemma used_tab_cases:
  "edgx_sched_get_used_tab io s = 0 \<or> edgx_sched_get_used_tab io s = 1
     \<or> edgx_sched_get_used_tab io s = - EINVAL"
  by (simp add: edgx_sched_get_used_tab_def Let_def)

lemma free_tab_range:
  "\<not> edgx_sched_get_free_tab io s < 0 \<Longrightarrow> nat (edgx_sched_get_free_tab io s) < 2"
  using free_tab_cases [of io s] by auto

lemma used_tab_range:
  "0 \<le> edgx_sched_get_used_tab io s \<Longrightarrow> nat (edgx_sched_get_used_tab io s) < 2"
  using used_tab_cases [of io s] by auto

lemma used_tab_iff:
  "0 \<le> edgx_sched_get_used_tab io s \<longleftrightarrow>
     edgx_rd16 io (iobase s) SCHED_TBL_GEN AND SCHED_IN_USE_MASK \<noteq> 0 \<or>
     edgx_rd16 io (iobase s) (SCHED_TBL_GEN + SCHED_TBL_OFS) AND SCHED_IN_USE_MASK \<noteq> 0"
  by (simp add: edgx_sched_get_used_tab_def Let_def)

text \<open>The free and the used table are never the same one.\<close>

lemma free_not_used:
  "0 \<le> edgx_sched_get_free_tab io s \<Longrightarrow>
   edgx_sched_get_free_tab io s \<noteq> edgx_sched_get_used_tab io s"
  by (auto simp: edgx_sched_get_free_tab_def edgx_sched_get_used_tab_def Let_def split: if_splits)

lemma cancel_pending_clears: "\<not> edgx_sched_hw_is_pending (edgx_sched_hw_cancel_pending io base) base"
  by (simp add: edgx_sched_hw_is_pending_def edgx_sched_hw_cancel_pending_def Let_def)

lemma cancel_pending_elsewhere:
  "edgx_sched_hw_cancel_pending io base a =
     (if a = base + 0x800 \<or> a = base + 0x900 then io a AND NOT 1 else io a)"
  by (simp add: edgx_sched_hw_cancel_pending_def Let_def edgx_rd16_def)

lemma cancel_pending_used_tab:
  "edgx_sched_get_used_tab (edgx_sched_hw_cancel_pending io (iobase s)) s = edgx_sched_get_used_tab io s"
  by (simp add: edgx_sched_get_used_tab_def edgx_sched_hw_cancel_pending_def Let_def)

end
