(* ===== verification/SchedStm.thy ===== *)
theory SchedStm
  imports SchedHw
begin

text \<open>
  The scheduler state machine of \<open>edge_sched.c\<close>. A scheduler runs in a system state that holds the
  common part, the scheduler, the I/O memory and the state of the client (\<open>struct edgx_st\<close> in the
  driver). The client is reached through the operations of \<open>struct edgx_sched_ops\<close>. The mutex
  makes every request atomic (its steps are in \<open>SchedLock\<close>). The delayed work is \<open>hnd_delayed\<close> (armed
  or not) and \<open>sys_running\<close> (the handler has started and has not finished). The kernel's
  \<open>cancel_delayed_work_sync\<close> disarms the work and returns when no handler is left that has not
  finished; \<open>None\<close> says that it has not returned.
\<close>

unbundle bit_operations_syntax

section \<open>System state and client interface\<close>

record 'c sys =
  sys_com :: sched_com
  sys_sd :: sched
  sys_running :: bool
  sys_io :: iomem
  sys_client :: 'c

text \<open>
  \<open>get_sched_offset\<close> returns an errno or the offset, \<open>prepare_config\<close> an errno or zero;
  \<open>config_changed\<close> may be NULL.
\<close>

record 'c sched_ops =
  get_sched_offset :: "'c sys \<Rightarrow> ((int + int) \<times> 'c sys) option"
  prepare_config :: "'c sys \<Rightarrow> tab_entry list \<Rightarrow> nat \<Rightarrow> (int \<times> 'c sys) option"
  config_changed :: "('c sys \<Rightarrow> 'c sys option) option"

abbreviation set_sd :: "(sched \<Rightarrow> sched) \<Rightarrow> 'c sys \<Rightarrow> 'c sys" where
  "set_sd f y \<equiv> y\<lparr>sys_sd := f (sys_sd y)\<rparr>"

definition sched_cc_err_inc :: "'c sys \<Rightarrow> 'c sys" where
  "sched_cc_err_inc = set_sd (\<lambda>s. s\<lparr>conf_change_err := conf_change_err s + 1\<rparr>)"

section \<open>Delayed work\<close>

definition cancel_delayed_work_sync :: "'c sys \<Rightarrow> 'c sys option" where
  "cancel_delayed_work_sync y =
     (if sys_running y then None else Some (set_sd (\<lambda>s. s\<lparr>hnd_delayed := None\<rparr>) y))"

definition schedule_delayed_work :: "int \<Rightarrow> 'c sys \<Rightarrow> 'c sys" where
  "schedule_delayed_work ms y =
     (case hnd_delayed (sys_sd y) of
        None \<Rightarrow> set_sd (\<lambda>s. s\<lparr>hnd_delayed := Some ms\<rparr>) y
      | Some _ \<Rightarrow> y)"

section \<open>Computation of a configuration change\<close>

definition edgx_sched_notify :: "'c sched_ops \<Rightarrow> 'c sys \<Rightarrow> 'c sys option" where
  "edgx_sched_notify ops y = (case config_changed ops of None \<Rightarrow> Some y | Some f \<Rightarrow> f y)"

text \<open>The loop over the entries of the table; it stops at the first entry that is rejected.\<close>

fun adjust_entries :: "u32 \<Rightarrow> tab_entry list \<Rightarrow> int option" where
  "adjust_entries gran [] = Some 0"
| "adjust_entries gran (e # es) = do {
     r \<leftarrow> umod (time_interval e) gran;
     if r \<noteq> 0 then Some (- EINVAL)
     else do {
       hw_time_interval \<leftarrow> udiv (time_interval e) gran;
       if hw_time_interval > SCHED_INTERVAL_MAX then Some (- EINVAL)
       else adjust_entries gran es
     }
   }"

definition edgx_sched_adjust_admin_tab :: "'c sys \<Rightarrow> (int \<times> 'c sys) option" where
  "edgx_sched_adjust_admin_tab y = do {
     let tab = admin_tab (sys_sd y);
     es \<leftarrow> (if entry_cnt tab = 0 then Some []
           else case entries tab of None \<Rightarrow> None
                | Some es \<Rightarrow> if unat (entry_cnt tab) \<le> length es
                              then Some (take (unat (entry_cnt tab)) es) else None);
     ret \<leftarrow> adjust_entries (hw_granularity_ns (limits (sys_com y))) es;
     Some (ret, if ret = 0 then y else sched_cc_err_inc y)
   }"

definition edgx_sched_check_cc_params :: "'c sched_ops \<Rightarrow> 'c sys \<Rightarrow> (int \<times> 'c sys) option" where
  "edgx_sched_check_cc_params ops y =
     (let tab = admin_tab (sys_sd y) in
      if entries tab = None \<or> entry_cnt tab = 0 \<or> num (cycle_time tab) = 0 \<or> list_len tab = 0
         \<or> entry_cnt tab < list_len tab
      then Some (- EFAULT, y)
      else do {
        (r, y) \<leftarrow> get_sched_offset ops y;
        case r of Inl ret \<Rightarrow> Some (ret, y)
        | Inr ofs \<Rightarrow> Some (0, set_sd (\<lambda>s. s\<lparr>offset_ns := ofs\<rparr>) y)
      })"

definition edgx_sched_calc_cc_time :: "timespec64 \<Rightarrow> 'c sys \<Rightarrow> ('c sys \<times> int \<times> bool) option" where
  "edgx_sched_calc_cc_time cur_time y = do {
     let s = sys_sd y;
     let bt = base_time (admin_tab s);
     let time_in_past = tv_sec bt < tv_sec cur_time \<or>
                        (tv_sec bt = tv_sec cur_time \<and> tv_nsec bt \<le> tv_nsec cur_time);
     st \<leftarrow> (if time_in_past
           then edgx_sched_calc_future_time bt cur_time (cycle_time (admin_tab s))
           else Some bt);
     let st' = set_normalized_timespec64 (tv_sec st) (wrap_s64 (tv_nsec st + offset_ns s));
     let s = s\<lparr>conf_change_time := st, start_time := st'\<rparr>;
     let diff = wrap_s64 (tv_sec st' - tv_sec cur_time);
     let delay_sec = (if diff > 64 then if diff - 32 < 64 then diff - 32 else 64 else 0);
     Some (y\<lparr>sys_sd := s\<rparr>, delay_sec, time_in_past)
   }"

definition edgx_sched_config_change :: "'c sched_ops \<Rightarrow> 'c sys \<Rightarrow> (int \<times> 'c sys) option" where
  "edgx_sched_config_change ops y =
     (let tab_idx = edgx_sched_get_free_tab (sys_io y) (sys_sd y) in
      if tab_idx < 0 then Some (tab_idx, y)
      else do {
        let tab = admin_tab (sys_sd y);
        let y = set_sd (\<lambda>s. s\<lparr>op_tabs := (op_tabs s)[nat tab_idx := tab\<lparr>entries := None\<rparr>]\<rparr>) y;
        es \<leftarrow> entries tab;
        (ret, y) \<leftarrow> prepare_config ops y es (unat (list_len tab));
        if ret \<noteq> 0 then Some (ret, y)
        else do {
          (ct_nsec, ct_subnsec) \<leftarrow>
            edgx_sched_rational_to_nsec (cycle_time (op_tabs (sys_sd y) ! nat tab_idx));
          Some (0, y\<lparr>sys_io := edgx_sched_hw_set_pending (sys_io y) (iobase (sys_sd y)) (nat tab_idx)
                                (start_time (sys_sd y)) (word_of_int ct_nsec)\<rparr>)
        }
      })"

text \<open>
  \<open>delta\<close> is signed, but \<open>timespec64_add_ns\<close> takes an unsigned number of nanoseconds: a start time
  that the hardware moved backwards is added modulo 2^64.
\<close>

definition edgx_sched_fix_cc_time :: "'c sys \<Rightarrow> 'c sys" where
  "edgx_sched_fix_cc_time y =
     (let s = sys_sd y; tab_idx = edgx_sched_get_used_tab (sys_io y) s in
      if tab_idx < 0 then y
      else let hw_start_time = edgx_sched_hw_get_cc_time (sys_io y) (iobase s) (nat tab_idx);
               start_time_reduced = (start_time s)\<lparr>tv_sec := tv_sec (start_time s) AND 0xff\<rparr>;
               delta = wrap_s64 (timespec64_to_ns hw_start_time - timespec64_to_ns start_time_reduced)
           in if \<bar>delta\<bar> > 256
              then let y = sched_cc_err_inc y;
                       st = timespec64_add_ns (start_time s) delta
                   in set_sd (\<lambda>s. s\<lparr>start_time := st,
                        conf_change_time := set_normalized_timespec64 (tv_sec st)
                                              (wrap_s64 (tv_nsec st - offset_ns s))\<rparr>) y
              else y)"

section \<open>Request handlers\<close>

abbreviation set_state :: "edgx_sched_state \<Rightarrow> 'c sys \<Rightarrow> 'c sys" where
  "set_state st \<equiv> set_sd (\<lambda>s. s\<lparr>sched_state := st\<rparr>)"

abbreviation set_conf_change :: "bool \<Rightarrow> 'c sys \<Rightarrow> 'c sys" where
  "set_conf_change b \<equiv> set_sd (\<lambda>s. s\<lparr>conf_change := b\<rparr>)"

definition edgx_sched_stm_cct_handler :: "'c sched_ops \<Rightarrow> 'c sys \<Rightarrow> 'c sys option" where
  "edgx_sched_stm_cct_handler ops y =
     (if sched_state (sys_sd y) = EDGX_SCHED_ST_PENDING
         \<and> \<not> edgx_sched_hw_is_pending (sys_io y) (iobase (sys_sd y))
      then edgx_sched_notify ops (set_state EDGX_SCHED_ST_IDLE (edgx_sched_fix_cc_time y))
      else Some y)"

definition sched_cancel_current :: "'c sys \<Rightarrow> 'c sys option" where
  "sched_cancel_current y =
     (case sched_state (sys_sd y) of
        EDGX_SCHED_ST_PENDING \<Rightarrow>
          Some (y\<lparr>sys_io := edgx_sched_hw_cancel_pending (sys_io y) (iobase (sys_sd y))\<rparr>)
      | EDGX_SCHED_ST_PENDING_DELAYED \<Rightarrow> cancel_delayed_work_sync y
      | EDGX_SCHED_ST_IDLE \<Rightarrow> Some y)"

text \<open>The part of \<open>edgx_sched_stm_cfg_change\<close> after the parameters have been checked.\<close>

definition sched_submit :: "'c sched_ops \<Rightarrow> timespec64 \<Rightarrow> 'c sys \<Rightarrow> (int \<times> 'c sys) option" where
  "sched_submit ops cur_time y = do {
     (y, delay_sec, time_in_past) \<leftarrow> edgx_sched_calc_cc_time cur_time y;
     let y = (if time_in_past then sched_cc_err_inc y else y);
     if delay_sec \<noteq> 0 then
       Some (0, set_conf_change False
                  (schedule_delayed_work (delay_sec * 1000) (set_state EDGX_SCHED_ST_PENDING_DELAYED y)))
     else do {
       (ret, y) \<leftarrow> edgx_sched_config_change ops y;
       Some (ret, set_conf_change False (if ret = 0 then set_state EDGX_SCHED_ST_PENDING y else y))
     }
   }"

definition edgx_sched_stm_cfg_change ::
  "'c sched_ops \<Rightarrow> timespec64 \<Rightarrow> 'c sys \<Rightarrow> (int \<times> 'c sys) option" where
  "edgx_sched_stm_cfg_change ops cur_time y =
     (if \<not> conf_change (sys_sd y) then Some (0, y)
      else do {
        y \<leftarrow> sched_cancel_current y;
        let y = set_state EDGX_SCHED_ST_IDLE y;
        if \<not> gate_enabled (sys_sd y) then Some (0, y)
        else do {
          (ret, y) \<leftarrow> edgx_sched_check_cc_params ops y;
          if ret \<noteq> 0 then Some (ret, set_conf_change False y)
          else sched_submit ops cur_time y
        }
      })"

definition edgx_sched_stm_gate_enable ::
  "'c sched_ops \<Rightarrow> timespec64 \<Rightarrow> 'c sys \<Rightarrow> (int \<times> 'c sys) option" where
  "edgx_sched_stm_gate_enable ops cur_time y =
     (if sched_state (sys_sd y) = EDGX_SCHED_ST_IDLE then do {
        let y = y\<lparr>sys_io := edgx_sched_hw_enable (sys_io y) (iobase (sys_sd y))
                              (tab_gate_states (admin_tab (sys_sd y)))\<rparr>;
        let tab_idx = edgx_sched_get_used_tab (sys_io y) (sys_sd y);
        y \<leftarrow> (if tab_idx \<ge> 0 then edgx_sched_notify ops y else Some y);
        if conf_change (sys_sd y) then edgx_sched_stm_cfg_change ops cur_time y else Some (0, y)
      } else Some (0, y))"

definition edgx_sched_stm_gate_disable :: "'c sched_ops \<Rightarrow> 'c sys \<Rightarrow> 'c sys option" where
  "edgx_sched_stm_gate_disable ops y = do {
     y \<leftarrow> sched_cancel_current y;
     let y = y\<lparr>sys_io := edgx_sched_hw_disable (sys_io y) (iobase (sys_sd y))
                           (tab_gate_states (admin_tab (sys_sd y)))\<rparr>;
     edgx_sched_notify ops (set_state EDGX_SCHED_ST_IDLE y)
   }"

text \<open>The handler of the delayed work, from the moment it holds the mutex.\<close>

definition edgx_sched_stm_pending_delayed ::
  "'c sched_ops \<Rightarrow> timespec64 \<Rightarrow> 'c sys \<Rightarrow> 'c sys option" where
  "edgx_sched_stm_pending_delayed ops cur_time y = do {
     (ret, y) \<leftarrow> edgx_sched_stm_cfg_change ops cur_time (set_state EDGX_SCHED_ST_IDLE y);
     Some y
   }"

section \<open>Interrupt\<close>

text \<open>
  The work of the table interrupt runs the handler of every scheduler; the schedulers share the
  I/O memory, which is threaded through the list.
\<close>

fun isr_each :: "'c sched_ops \<Rightarrow> iomem \<Rightarrow> 'c sys option list \<Rightarrow> ('c sys option list \<times> iomem) option" where
  "isr_each ops io [] = Some ([], io)"
| "isr_each ops io (None # ys) = do {
     (ys', io') \<leftarrow> isr_each ops io ys;
     Some (None # ys', io')
   }"
| "isr_each ops io (Some y # ys) = do {
     y' \<leftarrow> edgx_sched_stm_cct_handler ops (y\<lparr>sys_io := io\<rparr>);
     (ys', io') \<leftarrow> isr_each ops (sys_io y') ys;
     Some (Some y' # ys', io')
   }"

definition edgx_sched_isr_work ::
  "'c sched_ops \<Rightarrow> sched_com \<Rightarrow> 'c sys option list \<Rightarrow> iomem \<Rightarrow> ('c sys option list \<times> iomem) option" where
  "edgx_sched_isr_work ops c sched_list io = do {
     let intstat = edgx_rd16 io (com_iobase c) SCHED_INT_STAT;
     let io = edgx_wr16 io (com_iobase c) SCHED_INT_STAT (NOT intstat);
     (ys, io) \<leftarrow> isr_each ops io sched_list;
     Some (ys, if irq_level_trig c then edgx_wr16 io (com_iobase c) SCHED_INT_MASK 1 else io)
   }"

text \<open>The interrupt itself: whether the work is queued, and the I/O memory.\<close>

definition edgx_sched_isr :: "sched_com \<Rightarrow> iomem \<Rightarrow> bool \<times> iomem" where
  "edgx_sched_isr c io =
     (let mask = edgx_rd16 io (com_iobase c) SCHED_INT_MASK;
          stat = edgx_rd16 io (com_iobase c) SCHED_INT_STAT
      in if irq_shared c \<and> (mask = 0 \<or> mask AND stat = 0) then (False, io)
         else (True, if irq_level_trig c then edgx_wr16 io (com_iobase c) SCHED_INT_MASK 0 else io))"

end
