(* ===== verification/SchedUser.thy ===== *)
theory SchedUser
  imports SchedStm
begin

text \<open>
  The user interface of \<open>edge_sched.c\<close>: probing of the common part and of one scheduler, the
  accessors of the administrative and operational parameters, the administrative control list,
  and the gate-enable and config-change requests.
\<close>

unbundle bit_operations_syntax

datatype edgx_sched_sel = EDGX_SCHED_ADMIN | EDGX_SCHED_OPER

section \<open>Probing\<close>

text \<open>
  The common part: the outcomes of the kernel's allocations and of \<open>request_irq\<close> are parameters,
  as is whether the interface description is there.
\<close>

definition edgx_sched_com_probe ::
  "bool \<Rightarrow> bool \<Rightarrow> bool \<Rightarrow> int \<Rightarrow> bool \<Rightarrow> bool \<Rightarrow> nat \<Rightarrow> u16 \<Rightarrow> iomem \<Rightarrow> (int + sched_com) \<times> iomem" where
  "edgx_sched_com_probe ifd_ok alloc_ok wq_ok irq_ret shared level base init_states io =
     (if \<not> ifd_ok then (Inl (- ENODEV), io)
      else if \<not> alloc_ok then (Inl (- ENOMEM), io)
      else if \<not> wq_ok then (Inl (- ENOMEM), io)
      else if irq_ret \<noteq> 0 then (Inl irq_ret, io)
      else let lim = \<lparr>hw_granularity_ns = 0, freq_err_abs = 0,
                      max_entry_cnt = ucast (edgx_sched_get_hw_row_cnt io base) - 1,
                      max_int_len = SCHED_INTERVAL_MAX, max_cyc_ms = 16,
                      nr_gates = ucast (edgx_sched_get_hw_gate_cnt io base)\<rparr>;
               c = \<lparr>com_iobase = base, limits = lim, init_gate_states = init_states,
                    delay_chain = ucast (edgx_sched_hw_get_delay_chain io base),
                    irq_level_trig = level, irq_shared = shared\<rparr>;
               io = edgx_wr16 io base SCHED_INT_STAT 0;
               io = edgx_wr16 io base SCHED_INT_MASK 1
           in (Inr c, io))"

definition edgx_sched_com_set_params :: "u32 \<Rightarrow> u32 \<Rightarrow> sched_com \<Rightarrow> iomem \<Rightarrow> sched_com \<times> iomem" where
  "edgx_sched_com_set_params ferr_abs sched_granul c io =
     (c\<lparr>limits := (limits c)\<lparr>hw_granularity_ns := sched_granul, freq_err_abs := ferr_abs\<rparr>\<rparr>,
      edgx_sched_set_hw_granularity io (com_iobase c) sched_granul)"

definition edgx_sched_com_shutdown :: "sched_com option \<Rightarrow> iomem \<Rightarrow> iomem" where
  "edgx_sched_com_shutdown c io =
     (case c of None \<Rightarrow> io
      | Some c \<Rightarrow> edgx_wr16 (edgx_wr16 io (com_iobase c) SCHED_INT_MASK 0) (com_iobase c) SCHED_INT_STAT 0)"

definition zero_timespec :: timespec64 where
  "zero_timespec = \<lparr>tv_sec = 0, tv_nsec = 0\<rparr>"

definition zero_table :: sched_table where
  "zero_table = \<lparr>entries = None, entry_cnt = 0, list_len = 0, base_time = zero_timespec,
                 cycle_time = \<lparr>num = 0, denom = 0\<rparr>, tab_gate_states = 0\<rparr>"

text \<open>The zeroed allocation followed by \<open>edgx_sched_init\<close>.\<close>

definition edgx_sched_init :: "sched_com \<Rightarrow> u32 \<Rightarrow> nat \<Rightarrow> iomem \<Rightarrow> (int \<times> iomem) \<times> sched" where
  "edgx_sched_init c idx base io =
     (let s = \<lparr>iobase = base, sched_idx = idx,
               admin_tab = zero_table\<lparr>tab_gate_states := ucast (init_gate_states c),
                                      cycle_time := \<lparr>num = 0, denom = 1\<rparr>\<rparr>,
               op_tabs = [zero_table, zero_table], gate_enabled = False, conf_change = False,
               offset_ns = 0, conf_change_time = zero_timespec, start_time = zero_timespec,
               sched_state = EDGX_SCHED_ST_IDLE, hnd_delayed = None, conf_change_err = 0\<rparr>
      in (edgx_sched_hw_init io base (tab_gate_states (admin_tab s)), s))"

definition edgx_sched_get_if :: "nat \<Rightarrow> nat \<Rightarrow> nat" where
  "edgx_sched_get_if ifd_com_iobase idx = ifd_com_iobase + 0x10000 + idx * 0x1000"

definition edgx_probe_sched ::
  "bool \<Rightarrow> bool \<Rightarrow> sched_com \<Rightarrow> nat \<Rightarrow> iomem \<Rightarrow> (int + sched) \<times> iomem" where
  "edgx_probe_sched time_ok alloc_ok c idx io =
     (if \<not> time_ok then (Inl (- EINVAL), io)
      else let base = edgx_sched_get_if (com_iobase c) idx in
           if \<not> alloc_ok then (Inl (- ENOMEM), io)
           else let ((ret, io), s) = edgx_sched_init c (of_nat idx) base io
                in if ret \<noteq> 0 then (Inl (- ENODEV), io) else (Inr s, io))"

definition edgx_shutdown_sched :: "sched option \<Rightarrow> iomem \<Rightarrow> iomem" where
  "edgx_shutdown_sched s io =
     (case s of None \<Rightarrow> io
      | Some s \<Rightarrow> edgx_sched_hw_disable io (iobase s) (tab_gate_states (admin_tab s)))"

section \<open>Parameters of the delay compensation\<close>

definition edgx_sched_set_delay :: "u8 \<Rightarrow> 'c sys \<Rightarrow> 'c sys" where
  "edgx_sched_set_delay delay y =
     y\<lparr>sys_io := edgx_wr16 (sys_io y) (iobase (sys_sd y)) 0 (ucast delay)\<rparr>"

definition edgx_sched_set_g_close_adv :: "u16 \<Rightarrow> u16 \<Rightarrow> 'c sys \<Rightarrow> 'c sys" where
  "edgx_sched_set_g_close_adv g_cl_adv_lo g_cl_adv_hi y =
     (let io = edgx_wr16 (sys_io y) (iobase (sys_sd y)) 0x10 g_cl_adv_lo;
          io = edgx_wr16 io (iobase (sys_sd y)) 0x12 g_cl_adv_hi
      in y\<lparr>sys_io := io\<rparr>)"

definition edgx_sched_get_s2g :: "int \<Rightarrow> 'c sys \<Rightarrow> int + int \<times> int" where
  "edgx_sched_get_s2g clk y =
     (let base = com_iobase (sys_com y);
          ticks = (\<lambda>reg :: u16. wrap_u64 (wrap_u64 (uint (reg AND 0x0f) * clk) + uint (drop_bit 4 reg)))
      in if hw_granularity_ns (limits (sys_com y)) = 320 then
           Inr (ticks (edgx_rd16 (sys_io y) base 0x4200), ticks (edgx_rd16 (sys_io y) base 0x4208))
         else if hw_granularity_ns (limits (sys_com y)) = 3200 then
           Inr (ticks (edgx_rd16 (sys_io y) base 0x4202), ticks (edgx_rd16 (sys_io y) base 0x420a))
         else Inl (- EINVAL))"

section \<open>Gates\<close>

definition edgx_sched_set_gate_enabled ::
  "'c sched_ops \<Rightarrow> timespec64 \<Rightarrow> bool \<Rightarrow> 'c sys \<Rightarrow> (int \<times> 'c sys) option" where
  "edgx_sched_set_gate_enabled ops cur_time enabled y =
     (let y = set_sd (\<lambda>s. s\<lparr>gate_enabled := enabled\<rparr>) y in
      if gate_enabled (sys_sd y) then edgx_sched_stm_gate_enable ops cur_time y
      else do { y \<leftarrow> edgx_sched_stm_gate_disable ops y; Some (0, y) })"

definition edgx_sched_get_gate_enabled :: "'c sys \<Rightarrow> bool" where
  "edgx_sched_get_gate_enabled y = gate_enabled (sys_sd y)"

definition edgx_sched_set_admin_gate_states :: "u8 \<Rightarrow> u8 \<Rightarrow> 'c sys \<Rightarrow> int \<times> 'c sys" where
  "edgx_sched_set_admin_gate_states gstates msk y =
     (0, set_sd (\<lambda>s. s\<lparr>admin_tab := (admin_tab s)\<lparr>tab_gate_states :=
            (tab_gate_states (admin_tab s) AND NOT msk) OR (gstates AND msk)\<rparr>\<rparr>) y)"

definition edgx_sched_get_admin_gate_states :: "u8 \<Rightarrow> 'c sys \<Rightarrow> u8" where
  "edgx_sched_get_admin_gate_states msk y = tab_gate_states (admin_tab (sys_sd y)) AND msk"

section \<open>Cycle time, base time and list length\<close>

definition edgx_sched_set_cycle_time :: "sched_rational \<Rightarrow> 'c sys \<Rightarrow> (int \<times> 'c sys) option" where
  "edgx_sched_set_cycle_time ct y =
     (if denom ct \<noteq> 0 then do {
        (ct_nsec, ct_subnsec) \<leftarrow> edgx_sched_rational_to_nsec ct;
        if ct_nsec \<le> SCHED_MAX_CYC_NS
        then Some (0, set_sd (\<lambda>s. s\<lparr>admin_tab := (admin_tab s)\<lparr>cycle_time := ct\<rparr>\<rparr>) y)
        else Some (- ERANGE, sched_cc_err_inc y)
      } else Some (- EINVAL, y))"

text \<open>The selected table: the administrative one, or the operational one the hardware uses.\<close>

definition sel_table :: "edgx_sched_sel \<Rightarrow> 'c sys \<Rightarrow> sched_table option" where
  "sel_table sel y =
     (case sel of EDGX_SCHED_ADMIN \<Rightarrow> Some (admin_tab (sys_sd y))
      | EDGX_SCHED_OPER \<Rightarrow>
          let tab_idx = edgx_sched_get_used_tab (sys_io y) (sys_sd y)
          in if tab_idx \<ge> 0 then Some (op_tabs (sys_sd y) ! nat tab_idx) else None)"

definition edgx_sched_get_cycle_time :: "edgx_sched_sel \<Rightarrow> 'c sys \<Rightarrow> int + sched_rational" where
  "edgx_sched_get_cycle_time sel y =
     (case sel_table sel y of None \<Rightarrow> Inl (- ENOENT) | Some t \<Rightarrow> Inr (cycle_time t))"

definition edgx_sched_set_base_time :: "timespec64 \<Rightarrow> 'c sys \<Rightarrow> int \<times> 'c sys" where
  "edgx_sched_set_base_time bt y =
     (0, set_sd (\<lambda>s. s\<lparr>admin_tab := (admin_tab s)\<lparr>base_time := bt\<rparr>\<rparr>) y)"

definition edgx_sched_get_base_time :: "edgx_sched_sel \<Rightarrow> 'c sys \<Rightarrow> int + timespec64" where
  "edgx_sched_get_base_time sel y =
     (case sel_table sel y of None \<Rightarrow> Inl (- ENOENT) | Some t \<Rightarrow> Inr (base_time t))"

definition edgx_sched_set_ctrl_list_len :: "u32 \<Rightarrow> 'c sys \<Rightarrow> int \<times> 'c sys" where
  "edgx_sched_set_ctrl_list_len len y =
     (if len > max_entry_cnt (limits (sys_com y)) then (- ERANGE, y)
      else (0, set_sd (\<lambda>s. s\<lparr>admin_tab := (admin_tab s)\<lparr>list_len := len\<rparr>\<rparr>) y))"

definition edgx_sched_get_ctrl_list_len :: "edgx_sched_sel \<Rightarrow> 'c sys \<Rightarrow> u32" where
  "edgx_sched_get_ctrl_list_len sel y =
     (case sel_table sel y of None \<Rightarrow> 0 | Some t \<Rightarrow> list_len t)"

section \<open>Administrative control list\<close>

definition table_rows :: "sched_table \<Rightarrow> tab_entry list" where
  "table_rows t = (case entries t of None \<Rightarrow> [] | Some xs \<Rightarrow> xs)"

text \<open>
  The write: the element counts are 64-bit, the sum wraps. \<open>alloc_ok\<close> is the outcome of
  \<open>krealloc\<close>, which keeps the old elements up to the smaller of the two sizes.
\<close>

definition edgx_sched_set_entries ::
  "bool \<Rightarrow> nat \<Rightarrow> tab_entry list \<Rightarrow> 'c sys \<Rightarrow> (int \<times> 'c sys) option" where
  "edgx_sched_set_entries alloc_ok first es y =
     (let total = wrap_u64 (int first + int (length es)) in
      if total > uint (max_entry_cnt (limits (sys_com y))) then Some (- EFBIG, y)
      else
        let y = (if first = 0
                 then set_sd (\<lambda>s. s\<lparr>admin_tab := (admin_tab s)\<lparr>entry_cnt := 0, entries := None\<rparr>\<rparr>) y
                 else y);
            old = table_rows (admin_tab (sys_sd y))
        in if first \<noteq> unat (entry_cnt (admin_tab (sys_sd y))) then Some (- EINVAL, y)
           else if \<not> alloc_ok then Some (- ENOMEM, y)
           else if total < int first + int (length es) \<or> length old < first then None
           else edgx_sched_adjust_admin_tab
                  (set_sd (\<lambda>s. s\<lparr>admin_tab := (admin_tab s)\<lparr>entries := Some (take first old @ es),
                                    entry_cnt := word_of_int total\<rparr>\<rparr>) y))"

text \<open>
  The read fills \<open>count\<close> elements of the caller's buffer. Its first loop runs to the minimum of
  \<open>first + count\<close> and the number of entries, indexed from zero: \<open>None\<close> when it leaves the table
  or the buffer.
\<close>

definition edgx_sched_get_entries :: "nat \<Rightarrow> nat \<Rightarrow> 'c sys \<Rightarrow> (int + tab_entry list) option" where
  "edgx_sched_get_entries first count y =
     (let tab = admin_tab (sys_sd y); cnt = unat (entry_cnt tab) in
      if cnt = 0 then Some (Inl (- ENOENT))
      else let count_max = nat (min (wrap_u64 (int first + int count)) (int cnt)) in
           case entries tab of None \<Rightarrow> None
           | Some es \<Rightarrow>
               if count_max > count \<or> first + count_max > length es \<and> count_max > 0 then None
               else Some (Inr (take count_max (drop first es)
                               @ replicate (count - count_max) edgx_sched_undef_entry)))"

section \<open>Configuration change\<close>

definition edgx_sched_set_config_change ::
  "'c sched_ops \<Rightarrow> timespec64 \<Rightarrow> bool \<Rightarrow> 'c sys \<Rightarrow> (int \<times> 'c sys) option" where
  "edgx_sched_set_config_change ops cur_time config_change y =
     edgx_sched_stm_cfg_change ops cur_time (set_conf_change config_change y)"

definition edgx_sched_get_config_change :: "'c sys \<Rightarrow> bool" where
  "edgx_sched_get_config_change y = conf_change (sys_sd y)"

definition edgx_sched_get_config_change_time :: "'c sys \<Rightarrow> timespec64" where
  "edgx_sched_get_config_change_time y = conf_change_time (sys_sd y)"

definition edgx_sched_get_config_pending :: "'c sys \<Rightarrow> bool" where
  "edgx_sched_get_config_pending y \<longleftrightarrow> sched_state (sys_sd y) \<noteq> EDGX_SCHED_ST_IDLE"

definition edgx_sched_get_config_change_error :: "'c sys \<Rightarrow> u64" where
  "edgx_sched_get_config_change_error y = conf_change_err (sys_sd y)"

end
