(* ===== verification/SchedInv.thy ===== *)
theory SchedInv
  imports SchedUser
begin

text \<open>
  The invariant of the scheduler, the steps that its environment can make it take, and the
  contract that a client of the scheduler has to keep (locale \<open>sched_client\<close>). Inside the locale
  every request is shown to keep the invariant, so that it holds in every reachable state.
\<close>

unbundle bit_operations_syntax

section \<open>Invariant\<close>

definition cycle_ok :: "sched_rational \<Rightarrow> bool" where
  "cycle_ok ct \<longleftrightarrow> denom ct \<noteq> 0 \<and> uint (num ct) * NSEC_PER_SEC div uint (denom ct) \<le> SCHED_MAX_CYC_NS"

text \<open>The row count of the administrative table is the length of its row array.\<close>

definition admin_wf :: "sched_com \<Rightarrow> sched_table \<Rightarrow> bool" where
  "admin_wf c t \<longleftrightarrow>
     length (table_rows t) = unat (entry_cnt t)
     \<and> entry_cnt t \<le> max_entry_cnt (limits c) \<and> list_len t \<le> max_entry_cnt (limits c)
     \<and> cycle_ok (cycle_time t)"

definition oper_wf :: "sched_com \<Rightarrow> sched_table list \<Rightarrow> bool" where
  "oper_wf c ts \<longleftrightarrow> length ts = 2
     \<and> (\<forall>t \<in> set ts. entries t = None \<and> list_len t \<le> max_entry_cnt (limits c))"

text \<open>
  A configuration is pending only while the gates are enabled; a request is latched only while
  they are disabled; the delayed work exists exactly in the delayed state.
\<close>

definition stm_wf :: "bool \<Rightarrow> sched \<Rightarrow> bool" where
  "stm_wf running s \<longleftrightarrow>
     (\<not> gate_enabled s \<longrightarrow> sched_state s = EDGX_SCHED_ST_IDLE)
     \<and> (gate_enabled s \<longrightarrow> \<not> conf_change s)
     \<and> (sched_state s = EDGX_SCHED_ST_PENDING_DELAYED \<longleftrightarrow> hnd_delayed s \<noteq> None \<or> running)
     \<and> (running \<longrightarrow> hnd_delayed s = None)
     \<and> (\<forall>ms. hnd_delayed s = Some ms \<longrightarrow> 32000 < ms \<and> ms \<le> 64000)"

definition sched_wf :: "'c sys \<Rightarrow> bool" where
  "sched_wf y \<longleftrightarrow> admin_wf (sys_com y) (admin_tab (sys_sd y)) \<and> oper_wf (sys_com y) (op_tabs (sys_sd y))
     \<and> stm_wf (sys_running y) (sys_sd y)"

text \<open>The tables alone, which no request of the state machine breaks.\<close>

definition tabs_wf :: "'c sys \<Rightarrow> bool" where
  "tabs_wf y \<longleftrightarrow> admin_wf (sys_com y) (admin_tab (sys_sd y)) \<and> oper_wf (sys_com y) (op_tabs (sys_sd y))"

lemma sched_wf_split: "sched_wf y \<longleftrightarrow> tabs_wf y \<and> stm_wf (sys_running y) (sys_sd y)"
  by (simp add: sched_wf_def tabs_wf_def)

text \<open>What a step of the client leaves alone.\<close>

definition same_sched :: "'c sys \<Rightarrow> 'c sys \<Rightarrow> bool" where
  "same_sched y y' \<longleftrightarrow> sys_com y' = sys_com y \<and> sys_sd y' = sys_sd y \<and> sys_running y' = sys_running y"

text \<open>The fields of a scheduler that the invariant is about; the others are times and offsets.\<close>

definition sched_core ::
  "sched \<Rightarrow> sched_table \<times> bool \<times> bool \<times> edgx_sched_state \<times> int option \<times> nat \<times> u32" where
  "sched_core s = (admin_tab s, gate_enabled s, conf_change s, sched_state s, hnd_delayed s, iobase s, sched_idx s)"

lemma sched_core_eq:
  "sched_core s' = sched_core s \<Longrightarrow> admin_tab s' = admin_tab s \<and> gate_enabled s' = gate_enabled s
     \<and> conf_change s' = conf_change s \<and> sched_state s' = sched_state s \<and> hnd_delayed s' = hnd_delayed s
     \<and> iobase s' = iobase s \<and> sched_idx s' = sched_idx s \<and> stm_wf b s' = stm_wf b s"
  by (simp add: sched_core_def stm_wf_def)

lemma sched_core_update [simp]:
  "sched_core (s\<lparr>op_tabs := ts\<rparr>) = sched_core s"
  "sched_core (s\<lparr>offset_ns := ofs\<rparr>) = sched_core s"
  "sched_core (s\<lparr>conf_change_time := t\<rparr>) = sched_core s"
  "sched_core (s\<lparr>start_time := t\<rparr>) = sched_core s"
  "sched_core (s\<lparr>conf_change_err := e\<rparr>) = sched_core s"
  by (simp_all add: sched_core_def)

lemma same_sched_wf: "same_sched y y' \<Longrightarrow> sched_wf y' = sched_wf y \<and> tabs_wf y' = tabs_wf y"
  by (simp add: same_sched_def sched_wf_def tabs_wf_def)

lemma oper_wf_update:
  "oper_wf c ts \<Longrightarrow> entries t = None \<Longrightarrow> list_len t \<le> max_entry_cnt (limits c) \<Longrightarrow> oper_wf c (ts[i := t])"
  unfolding oper_wf_def by (auto dest!: set_update_subset_insert [THEN subsetD])

lemma stm_wf_admin [simp]: "stm_wf b (s\<lparr>admin_tab := t\<rparr>) = stm_wf b s"
  by (simp add: stm_wf_def)

lemma sched_wf_set_admin:
  "sched_wf y \<Longrightarrow> admin_wf (sys_com y) t \<Longrightarrow> sched_wf (y\<lparr>sys_sd := (sys_sd y)\<lparr>admin_tab := t\<rparr>\<rparr>)"
  by (simp add: sched_wf_def)

lemma sched_wf_admin: "sched_wf y \<Longrightarrow> admin_wf (sys_com y) (admin_tab (sys_sd y))"
  by (simp add: sched_wf_def)

lemma table_rows_update [simp]:
  "table_rows (t\<lparr>entry_cnt := n\<rparr>) = table_rows t"
  "table_rows (t\<lparr>list_len := n\<rparr>) = table_rows t"
  "table_rows (t\<lparr>cycle_time := ct\<rparr>) = table_rows t"
  "table_rows (t\<lparr>base_time := bt\<rparr>) = table_rows t"
  "table_rows (t\<lparr>tab_gate_states := g\<rparr>) = table_rows t"
  "table_rows (t\<lparr>entries := None\<rparr>) = []"
  "table_rows (t\<lparr>entries := Some es\<rparr>) = es"
  by (simp_all add: table_rows_def)

section \<open>Requests that only touch the tables\<close>

lemma set_cycle_time_result:
  "edgx_sched_set_cycle_time ct y =
     (if denom ct = 0 then Some (- EINVAL, y)
      else if cycle_ok ct then Some (0, set_sd (\<lambda>s. s\<lparr>admin_tab := (admin_tab s)\<lparr>cycle_time := ct\<rparr>\<rparr>) y)
      else Some (- ERANGE, sched_cc_err_inc y))"
  by (simp add: edgx_sched_set_cycle_time_def rational_to_nsec_value cycle_ok_def)

lemma adjust_admin_tab_same:
  "edgx_sched_adjust_admin_tab y = Some (r, y') \<Longrightarrow>
     sys_com y' = sys_com y \<and> admin_tab (sys_sd y') = admin_tab (sys_sd y) \<and> op_tabs (sys_sd y') = op_tabs (sys_sd y)
     \<and> sys_running y' = sys_running y \<and> stm_wf b (sys_sd y') = stm_wf b (sys_sd y) \<and> sys_io y' = sys_io y"
  by (auto simp: edgx_sched_adjust_admin_tab_def Let_def bind_eq_Some sched_cc_err_inc_def stm_wf_def
      split: if_splits)

lemma cc_err_inc_wf [simp]: "sched_wf (sched_cc_err_inc y) = sched_wf y"
  "tabs_wf (sched_cc_err_inc y) = tabs_wf y"
  by (simp_all add: sched_wf_def tabs_wf_def sched_cc_err_inc_def stm_wf_def)

lemma set_cycle_time_wf:
  "sched_wf y \<Longrightarrow> edgx_sched_set_cycle_time ct y = Some (r, y') \<Longrightarrow> sched_wf y'"
  by (auto simp: set_cycle_time_result admin_wf_def dest: sched_wf_admin
      intro!: sched_wf_set_admin split: if_splits)

lemma admin_simple_wf:
  assumes "sched_wf y"
  shows "sched_wf (snd (edgx_sched_set_admin_gate_states g m y))"
    and "sched_wf (snd (edgx_sched_set_base_time bt y))"
    and "sched_wf (snd (edgx_sched_set_ctrl_list_len n y))"
  using assms sched_wf_admin [OF assms]
  by (auto simp: admin_wf_def edgx_sched_set_admin_gate_states_def
      edgx_sched_set_base_time_def edgx_sched_set_ctrl_list_len_def intro!: sched_wf_set_admin)

lemma unat_word_of_int_u32: "0 \<le> x \<Longrightarrow> x < 4294967296 \<Longrightarrow> unat (word_of_int x :: u32) = nat x"
  by (simp add: unat_eq_nat_uint uint_word_of_int)

lemma set_entries_wf:
  assumes "sched_wf y" and res: "edgx_sched_set_entries ok first es y = Some (r, y')"
  shows "sched_wf y'"
proof -
  define y0 where "y0 = (if first = 0
      then set_sd (\<lambda>s. s\<lparr>admin_tab := (admin_tab s)\<lparr>entry_cnt := 0, entries := None\<rparr>\<rparr>) y else y)"
  define total where "total = wrap_u64 (int first + int (length es))"
  have y0: "sched_wf y0" "limits (sys_com y0) = limits (sys_com y)"
    using assms(1) sched_wf_admin [OF assms(1)]
    by (auto simp: y0_def admin_wf_def intro!: sched_wf_set_admin)
  show ?thesis
  proof (cases "total \<le> uint (max_entry_cnt (limits (sys_com y))) \<and> first = unat (entry_cnt (admin_tab (sys_sd y0))) \<and> ok")
    case False
    with res y0 assms(1) show ?thesis
      unfolding edgx_sched_set_entries_def Let_def total_def [symmetric] y0_def [symmetric]
      by (auto split: if_splits)
  next
    case True
    let ?old = "table_rows (admin_tab (sys_sd y0))"
    let ?y1 = "set_sd (\<lambda>s. s\<lparr>admin_tab := (admin_tab s)\<lparr>entries := Some (take first ?old @ es),
                                    entry_cnt := word_of_int total\<rparr>\<rparr>) y0"
    from True res have adj: "edgx_sched_adjust_admin_tab ?y1 = Some (r, y')"
      and tot: "int first + int (length es) \<le> total" "first \<le> length ?old"
      unfolding edgx_sched_set_entries_def Let_def total_def [symmetric] y0_def [symmetric]
      by (auto split: if_splits)
    have "total \<le> int first + int (length es)"
      unfolding total_def wrap_u64_def by (rule zmod_le_nonneg_dividend) simp
    with tot have tot': "total = int (first + length es)" by simp
    have mx: "uint (max_entry_cnt (limits (sys_com y))) < 4294967296" by (rule uint_u32_bounds)
    have "unat (word_of_int total :: u32) = nat total"
      by (rule unat_word_of_int_u32) (use True tot' mx in auto)
    with tot' have "unat (word_of_int total :: u32) = first + length es" by (simp only: nat_int)
    moreover have "word_of_int total \<le> max_entry_cnt (limits (sys_com y))"
      unfolding word_le_def by (subst uint_word_of_int_u32) (use True tot' mx in auto)
    ultimately have "sched_wf ?y1"
      using y0 tot(2) sched_wf_admin [OF y0(1)]
      by (intro sched_wf_set_admin) (simp_all add: admin_wf_def)
    then show ?thesis
      using adjust_admin_tab_same [OF adj, of "sys_running ?y1"] by (simp add: sched_wf_def)
  qed
qed

section \<open>Requests of the state machine\<close>

lemma stm_wf_conf_change_False: "stm_wf b s \<Longrightarrow> stm_wf b (s\<lparr>conf_change := False\<rparr>)"
  by (simp add: stm_wf_def)

lemma stm_wf_gate_enable:
  "stm_wf b s \<Longrightarrow> sched_state s = EDGX_SCHED_ST_IDLE \<Longrightarrow>
     stm_wf b (s\<lparr>gate_enabled := True, conf_change := False\<rparr>)"
  by (simp add: stm_wf_def)

lemma fix_cc_time_frame:
  "sys_com (edgx_sched_fix_cc_time y) = sys_com y \<and> sys_running (edgx_sched_fix_cc_time y) = sys_running y
     \<and> sys_io (edgx_sched_fix_cc_time y) = sys_io y \<and> sys_client (edgx_sched_fix_cc_time y) = sys_client y
     \<and> sched_core (sys_sd (edgx_sched_fix_cc_time y)) = sched_core (sys_sd y)
     \<and> op_tabs (sys_sd (edgx_sched_fix_cc_time y)) = op_tabs (sys_sd y)"
  by (simp add: edgx_sched_fix_cc_time_def Let_def sched_cc_err_inc_def)

text \<open>After the cancellation nothing is armed and no handler is waiting.\<close>

lemma cancel_current_quiet:
  assumes "sched_wf y" "sched_cancel_current y = Some y'"
  shows "tabs_wf y' \<and> hnd_delayed (sys_sd y') = None \<and> \<not> sys_running y'
     \<and> sys_com y' = sys_com y \<and> sys_client y' = sys_client y
     \<and> sched_core ((sys_sd y')\<lparr>hnd_delayed := None\<rparr>) = sched_core ((sys_sd y)\<lparr>hnd_delayed := None\<rparr>)"
  using assms
  by (cases "sched_state (sys_sd y)")
    (auto simp: sched_cancel_current_def cancel_delayed_work_sync_def sched_wf_def tabs_wf_def
      stm_wf_def sched_core_def split: if_splits)

lemma calc_cc_time_frame:
  assumes "edgx_sched_calc_cc_time cur y = Some (y', delay, past)"
  shows "sys_com y' = sys_com y \<and> sys_running y' = sys_running y \<and> sys_io y' = sys_io y
     \<and> sys_client y' = sys_client y \<and> sched_core (sys_sd y') = sched_core (sys_sd y)
     \<and> op_tabs (sys_sd y') = op_tabs (sys_sd y) \<and> (delay = 0 \<or> 32 < delay \<and> delay \<le> 64)"
proof -
  define past' st where "past' = (tv_sec (base_time (admin_tab (sys_sd y))) < tv_sec cur \<or>
      (tv_sec (base_time (admin_tab (sys_sd y))) = tv_sec cur
        \<and> tv_nsec (base_time (admin_tab (sys_sd y))) \<le> tv_nsec cur))"
    and "st = (if past' then edgx_sched_calc_future_time (base_time (admin_tab (sys_sd y))) cur
                 (cycle_time (admin_tab (sys_sd y))) else Some (base_time (admin_tab (sys_sd y))))"
  have "edgx_sched_calc_cc_time cur y = st \<bind> (\<lambda>st.
      let st' = set_normalized_timespec64 (tv_sec st) (wrap_s64 (tv_nsec st + offset_ns (sys_sd y)));
          diff = wrap_s64 (tv_sec st' - tv_sec cur)
      in Some (y\<lparr>sys_sd := (sys_sd y)\<lparr>conf_change_time := st, start_time := st'\<rparr>\<rparr>,
               if diff > 64 then if diff - 32 < 64 then diff - 32 else 64 else 0, past'))"
    unfolding edgx_sched_calc_cc_time_def Let_def st_def past'_def by simp
  with assms show ?thesis
    by (cases st) (auto simp: Let_def split: if_splits)
qed

locale sched_client =
  fixes ops :: "'c sched_ops"
  assumes offset_frame: "get_sched_offset ops y = Some (r, y') \<Longrightarrow> same_sched y y'"
    and prepare_frame: "prepare_config ops y es n = Some (ret, y') \<Longrightarrow> same_sched y y'"
    and changed_frame: "config_changed ops = Some f \<Longrightarrow> f y = Some y' \<Longrightarrow> same_sched y y'"
begin

lemma notify_frame: "edgx_sched_notify ops y = Some y' \<Longrightarrow> same_sched y y'"
  using changed_frame by (auto simp: edgx_sched_notify_def same_sched_def split: option.splits)

lemma check_frame:
  assumes "edgx_sched_check_cc_params ops y = Some (r, y')"
  shows "sys_com y' = sys_com y \<and> sys_running y' = sys_running y
     \<and> sched_core (sys_sd y') = sched_core (sys_sd y) \<and> op_tabs (sys_sd y') = op_tabs (sys_sd y)"
proof (cases "get_sched_offset ops y")
  case None
  with assms show ?thesis by (auto simp: edgx_sched_check_cc_params_def Let_def split: if_splits)
next
  case (Some p)
  obtain res y0 where p: "p = (res, y0)" by fastforce
  have "same_sched y y0" using Some p by (auto intro: offset_frame)
  with assms Some p show ?thesis
    by (cases res) (auto simp: edgx_sched_check_cc_params_def Let_def same_sched_def split: if_splits)
qed

lemma config_change_frame:
  assumes "edgx_sched_config_change ops y = Some (r, y')" "tabs_wf y"
  shows "tabs_wf y' \<and> sys_com y' = sys_com y \<and> sys_running y' = sys_running y
     \<and> sched_core (sys_sd y') = sched_core (sys_sd y)"
proof (cases "edgx_sched_get_free_tab (sys_io y) (sys_sd y) < 0")
  case True
  with assms show ?thesis by (auto simp: edgx_sched_config_change_def Let_def)
next
  case False
  let ?t = "admin_tab (sys_sd y)\<lparr>entries := None\<rparr>"
  let ?i = "nat (edgx_sched_get_free_tab (sys_io y) (sys_sd y))"
  define y1 where "y1 = set_sd (\<lambda>s. s\<lparr>op_tabs := (op_tabs s)[?i := ?t]\<rparr>) y"
  have t1: "tabs_wf y1"
    using assms(2) by (auto simp: y1_def tabs_wf_def admin_wf_def intro!: oper_wf_update)
  from assms(1) False obtain es ret y2 where
    p: "prepare_config ops y1 es (unat (list_len (admin_tab (sys_sd y)))) = Some (ret, y2)"
    and y': "sys_com y' = sys_com y2 \<and> sys_sd y' = sys_sd y2 \<and> sys_running y' = sys_running y2"
    by (auto simp: edgx_sched_config_change_def Let_def bind_eq_Some y1_def [symmetric] split: if_splits)
  have "same_sched y1 y2" by (rule prepare_frame [OF p])
  with t1 y' show ?thesis by (auto simp: same_sched_def tabs_wf_def y1_def)
qed

text \<open>Submitting a configuration: the state machine is idle, nothing is armed, the gates are enabled.\<close>

lemma submit_wf:
  assumes "sched_submit ops cur y = Some (r, y')" "tabs_wf y" "gate_enabled (sys_sd y)"
    "hnd_delayed (sys_sd y) = None" "\<not> sys_running y" "sched_state (sys_sd y) = EDGX_SCHED_ST_IDLE"
  shows "sched_wf y' \<and> sys_com y' = sys_com y"
proof -
  obtain y1 delay past where cc: "edgx_sched_calc_cc_time cur y = Some (y1, delay, past)"
    using assms(1) by (auto simp: sched_submit_def bind_eq_Some)
  define y2 where "y2 = (if past then sched_cc_err_inc y1 else y1)"
  note f = calc_cc_time_frame [OF cc]
  have y2: "tabs_wf y2" "sys_com y2 = sys_com y" "sys_running y2 = sys_running y"
    "sched_core (sys_sd y2) = sched_core (sys_sd y)"
    using f assms(2) by (auto simp: y2_def tabs_wf_def sched_cc_err_inc_def dest: sched_core_eq)
  note c = sched_core_eq [OF y2(4)]
  show ?thesis
  proof (cases "delay = 0")
    case False
    with assms(1) cc have "y' = set_conf_change False
        (schedule_delayed_work (delay * 1000) (set_state EDGX_SCHED_ST_PENDING_DELAYED y2))"
      by (simp add: sched_submit_def y2_def Let_def)
    with y2 c assms f False show ?thesis
      by (simp add: schedule_delayed_work_def sched_wf_split tabs_wf_def stm_wf_def)
  next
    case True
    with assms(1) cc obtain y3 where
      y3: "edgx_sched_config_change ops y2 = Some (r, y3)"
      and y': "y' = set_conf_change False (if r = 0 then set_state EDGX_SCHED_ST_PENDING y3 else y3)"
      by (auto simp: sched_submit_def y2_def [symmetric] Let_def bind_eq_Some)
    note g = config_change_frame [OF y3 y2(1)]
    from g have "sched_core (sys_sd y3) = sched_core (sys_sd y2)" by blast
    from sched_core_eq [OF this] g y' y2 c assms show ?thesis
      by (auto simp: sched_wf_split tabs_wf_def stm_wf_def)
  qed
qed

lemma cfg_change_wf:
  assumes "edgx_sched_stm_cfg_change ops cur y = Some (r, y')"
    and y: "tabs_wf y" "stm_wf (sys_running y) ((sys_sd y)\<lparr>conf_change := False\<rparr>)"
  shows "sched_wf y' \<and> sys_com y' = sys_com y"
proof (cases "conf_change (sys_sd y)")
  case False
  then have "(sys_sd y)\<lparr>conf_change := False\<rparr> = sys_sd y" by simp
  with False assms show ?thesis by (simp add: edgx_sched_stm_cfg_change_def sched_wf_split)
next
  case True
  define y0 where "y0 = set_conf_change False y"
  have w0: "sched_wf y0" using y by (simp add: y0_def sched_wf_split tabs_wf_def)
  from True assms(1) obtain y1 where c1: "sched_cancel_current y = Some y1"
    by (auto simp: edgx_sched_stm_cfg_change_def bind_eq_Some)
  have "sched_cancel_current y0 = Some (set_conf_change False y1)"
    using c1 by (auto simp: sched_cancel_current_def cancel_delayed_work_sync_def y0_def
        split: edgx_sched_state.splits if_splits)
  from cancel_current_quiet [OF w0 this] have q: "tabs_wf y1" "hnd_delayed (sys_sd y1) = None"
    "\<not> sys_running y1" "sys_com y1 = sys_com y"
    by (auto simp: tabs_wf_def y0_def)
  define y2 where "y2 = set_state EDGX_SCHED_ST_IDLE y1"
  have q2: "tabs_wf y2" "hnd_delayed (sys_sd y2) = None" "\<not> sys_running y2" "sys_com y2 = sys_com y"
    "sched_state (sys_sd y2) = EDGX_SCHED_ST_IDLE"
    using q by (simp_all add: y2_def tabs_wf_def)
  show ?thesis
  proof (cases "gate_enabled (sys_sd y2)")
    case False
    with True assms(1) c1 have "y' = y2" by (simp add: edgx_sched_stm_cfg_change_def y2_def Let_def)
    with q2 False show ?thesis by (simp add: sched_wf_split stm_wf_def)
  next
    case gate: True
    have "edgx_sched_stm_cfg_change ops cur y = edgx_sched_check_cc_params ops y2 \<bind> (\<lambda>(ret, y3).
        if ret \<noteq> 0 then Some (ret, set_conf_change False y3) else sched_submit ops cur y3)"
      using True c1 gate by (simp add: edgx_sched_stm_cfg_change_def y2_def Let_def)
    with assms(1) obtain ret y3 where
      c3: "edgx_sched_check_cc_params ops y2 = Some (ret, y3)"
      and rest: "(if ret \<noteq> 0 then Some (ret, set_conf_change False y3) else sched_submit ops cur y3) = Some (r, y')"
      by (auto simp: bind_eq_Some)
    note f = check_frame [OF c3]
    from f have "sched_core (sys_sd y3) = sched_core (sys_sd y2)" by blast
    note e = sched_core_eq [OF this]
    have t3: "tabs_wf y3" using q2(1) f e by (simp add: tabs_wf_def)
    show ?thesis
    proof (cases "ret = 0")
      case True
      with rest have "sched_submit ops cur y3 = Some (r, y')" by simp
      from submit_wf [OF this t3] e gate q2 f show ?thesis by simp
    next
      case False
      with rest have "y' = set_conf_change False y3" by simp
      with t3 e gate q2 f show ?thesis by (simp add: sched_wf_split tabs_wf_def stm_wf_def)
    qed
  qed
qed

lemma set_config_change_wf:
  assumes "sched_wf y" "edgx_sched_set_config_change ops cur b y = Some (r, y')"
  shows "sched_wf y'"
  using cfg_change_wf [OF assms(2) [unfolded edgx_sched_set_config_change_def]] assms(1)
  by (auto simp: sched_wf_split tabs_wf_def stm_wf_conf_change_False)

lemma gate_enable_wf:
  assumes y: "sched_wf y" and res: "edgx_sched_stm_gate_enable ops cur (set_sd (\<lambda>s. s\<lparr>gate_enabled := True\<rparr>) y) = Some (r, y')"
  shows "sched_wf y'"
proof (cases "sched_state (sys_sd y) = EDGX_SCHED_ST_IDLE")
  case False
  then have "gate_enabled (sys_sd y)" using y by (auto simp: sched_wf_def stm_wf_def)
  then have "set_sd (\<lambda>s. s\<lparr>gate_enabled := True\<rparr>) y = y" by simp
  with res False y show ?thesis by (simp add: edgx_sched_stm_gate_enable_def)
next
  case True
  define y1 where "y1 = y\<lparr>sys_sd := (sys_sd y)\<lparr>gate_enabled := True\<rparr>,
      sys_io := edgx_sched_hw_enable (sys_io y) (iobase (sys_sd y)) (tab_gate_states (admin_tab (sys_sd y)))\<rparr>"
  define n where "n = (if edgx_sched_get_used_tab (sys_io y1) (sys_sd y1) \<ge> 0
      then edgx_sched_notify ops y1 else Some y1)"
  have "edgx_sched_stm_gate_enable ops cur (set_sd (\<lambda>s. s\<lparr>gate_enabled := True\<rparr>) y) =
      n \<bind> (\<lambda>y2. if conf_change (sys_sd y2) then edgx_sched_stm_cfg_change ops cur y2 else Some (0, y2))"
    using True by (simp add: edgx_sched_stm_gate_enable_def Let_def n_def y1_def)
  with res obtain y2 where n2: "n = Some y2"
    and rest: "(if conf_change (sys_sd y2) then edgx_sched_stm_cfg_change ops cur y2 else Some (0, y2)) = Some (r, y')"
    by (auto simp: bind_eq_Some)
  from n2 have "same_sched y1 y2"
    by (auto simp: n_def same_sched_def split: if_splits dest: notify_frame)
  moreover have "tabs_wf y1" "stm_wf (sys_running y1) ((sys_sd y1)\<lparr>conf_change := False\<rparr>)"
    using y True stm_wf_gate_enable by (auto simp: y1_def sched_wf_split tabs_wf_def)
  ultimately have y2: "tabs_wf y2" "stm_wf (sys_running y2) ((sys_sd y2)\<lparr>conf_change := False\<rparr>)"
    by (simp_all add: same_sched_def tabs_wf_def)
  show ?thesis
  proof (cases "conf_change (sys_sd y2)")
    case True
    with rest cfg_change_wf [OF _ y2] show ?thesis by simp
  next
    case False
    then have "(sys_sd y2)\<lparr>conf_change := False\<rparr> = sys_sd y2" by simp
    with False rest y2 show ?thesis by (simp add: sched_wf_split)
  qed
qed

lemma gate_disable_wf:
  assumes y: "sched_wf y" and res: "edgx_sched_stm_gate_disable ops (set_sd (\<lambda>s. s\<lparr>gate_enabled := False\<rparr>) y) = Some y'"
  shows "sched_wf y'"
proof -
  from res obtain y1 where c: "sched_cancel_current (set_sd (\<lambda>s. s\<lparr>gate_enabled := False\<rparr>) y) = Some y1"
    and n: "edgx_sched_notify ops (set_state EDGX_SCHED_ST_IDLE (y1\<lparr>sys_io := edgx_sched_hw_disable (sys_io y1)
         (iobase (sys_sd y1)) (tab_gate_states (admin_tab (sys_sd y1)))\<rparr>)) = Some y'"
    by (auto simp: edgx_sched_stm_gate_disable_def Let_def bind_eq_Some)
  have "tabs_wf y1 \<and> hnd_delayed (sys_sd y1) = None \<and> \<not> sys_running y1 \<and> \<not> gate_enabled (sys_sd y1)"
    using c y by (auto simp: sched_cancel_current_def cancel_delayed_work_sync_def sched_wf_def tabs_wf_def
        stm_wf_def split: edgx_sched_state.splits if_splits)
  with notify_frame [OF n] show ?thesis
    by (auto simp: same_sched_def sched_wf_split tabs_wf_def stm_wf_def)
qed

lemma set_gate_enabled_wf:
  assumes "sched_wf y" "edgx_sched_set_gate_enabled ops cur b y = Some (r, y')"
  shows "sched_wf y'"
  using assms gate_enable_wf [OF assms(1)] gate_disable_wf [OF assms(1)]
  by (cases b) (auto simp: edgx_sched_set_gate_enabled_def Let_def bind_eq_Some)

lemma cct_handler_wf:
  assumes y: "sched_wf y" and res: "edgx_sched_stm_cct_handler ops y = Some y'"
  shows "sched_wf y'"
proof (cases "y' = y")
  case False
  let ?z = "edgx_sched_fix_cc_time y"
  from False res have p: "sched_state (sys_sd y) = EDGX_SCHED_ST_PENDING"
    and n: "edgx_sched_notify ops (set_state EDGX_SCHED_ST_IDLE ?z) = Some y'"
    by (auto simp: edgx_sched_stm_cct_handler_def split: if_splits)
  note f = fix_cc_time_frame [of y]
  from f have "sched_core (sys_sd ?z) = sched_core (sys_sd y)" by blast
  note e = sched_core_eq [OF this]
  have "sched_wf (set_state EDGX_SCHED_ST_IDLE ?z)"
    using y p f e by (auto simp: sched_wf_def stm_wf_def)
  with notify_frame [OF n] show ?thesis by (simp add: same_sched_wf)
qed (use y in simp)

text \<open>The delayed handler finds no request any more: it only returns the state machine to idle.\<close>

lemma pending_delayed_result:
  assumes "sched_wf y" "sys_running y"
  shows "edgx_sched_stm_pending_delayed ops cur y = Some (set_state EDGX_SCHED_ST_IDLE y)"
proof -
  have "\<not> conf_change (sys_sd y)"
    using assms by (auto simp: sched_wf_def stm_wf_def)
  then show ?thesis by (simp add: edgx_sched_stm_pending_delayed_def edgx_sched_stm_cfg_change_def)
qed

end

section \<open>Steps and reachable states\<close>

text \<open>
  One atomic step: a user request, the table interrupt, the expiry of the delayed work, its
  handler, or a change of the hardware's or the client's own state.
\<close>

inductive sched_step :: "'c sched_ops \<Rightarrow> 'c sys \<Rightarrow> 'c sys \<Rightarrow> bool" for ops where
  set_gate_enabled: "edgx_sched_set_gate_enabled ops cur b y = Some (r, y') \<Longrightarrow> sched_step ops y y'"
| set_gate_states: "edgx_sched_set_admin_gate_states g m y = (r, y') \<Longrightarrow> sched_step ops y y'"
| set_cycle_time: "edgx_sched_set_cycle_time ct y = Some (r, y') \<Longrightarrow> sched_step ops y y'"
| set_base_time: "edgx_sched_set_base_time bt y = (r, y') \<Longrightarrow> sched_step ops y y'"
| set_ctrl_list_len: "edgx_sched_set_ctrl_list_len n y = (r, y') \<Longrightarrow> sched_step ops y y'"
| set_ctrl_list: "edgx_sched_set_entries ok first es y = Some (r, y') \<Longrightarrow> sched_step ops y y'"
| set_config_change: "edgx_sched_set_config_change ops cur b y = Some (r, y') \<Longrightarrow> sched_step ops y y'"
| table_interrupt: "edgx_sched_stm_cct_handler ops y = Some y' \<Longrightarrow> sched_step ops y y'"
| delay_expires:
    "hnd_delayed (sys_sd y) = Some ms \<Longrightarrow>
     sched_step ops y (y\<lparr>sys_sd := (sys_sd y)\<lparr>hnd_delayed := None\<rparr>, sys_running := True\<rparr>)"
| delayed_handler:
    "sys_running y \<Longrightarrow> edgx_sched_stm_pending_delayed ops cur y = Some y' \<Longrightarrow>
     sched_step ops y (y'\<lparr>sys_running := False\<rparr>)"
| hardware: "sched_step ops y (y\<lparr>sys_io := io\<rparr>)"
| client: "sched_step ops y (y\<lparr>sys_client := c\<rparr>)"

inductive_cases sched_stepE: "sched_step ops y y'"

text \<open>A scheduler as \<open>edgx_probe_sched\<close> leaves it.\<close>

definition sched_probed :: "sched_com \<Rightarrow> nat \<Rightarrow> iomem \<Rightarrow> 'c \<Rightarrow> 'c sys \<Rightarrow> bool" where
  "sched_probed c idx io cl y \<longleftrightarrow>
     (case edgx_probe_sched True True c idx io of
        (Inr s, io') \<Rightarrow> y = \<lparr>sys_com = c, sys_sd = s, sys_running = False, sys_io = io', sys_client = cl\<rparr>
      | _ \<Rightarrow> False)"

inductive sched_reachable :: "'c sched_ops \<Rightarrow> 'c sys \<Rightarrow> bool" for ops where
  probe: "sched_probed c idx io cl y \<Longrightarrow> sched_reachable ops y"
| step: "sched_reachable ops y \<Longrightarrow> sched_step ops y y' \<Longrightarrow> sched_reachable ops y'"

lemma probed_wf: "sched_probed c idx io cl y \<Longrightarrow> sched_wf y"
  by (auto simp: sched_probed_def edgx_probe_sched_def edgx_sched_init_def edgx_sched_hw_init_def Let_def
      sched_wf_def admin_wf_def oper_wf_def stm_wf_def table_rows_def zero_table_def cycle_ok_def
      split: prod.splits)

context sched_client
begin

lemma step_wf: "sched_step ops y y' \<Longrightarrow> sched_wf y \<Longrightarrow> sched_wf y'"
proof (induction rule: sched_step.induct)
  case (set_gate_enabled cur b y r y')
  then show ?case by (blast intro: set_gate_enabled_wf)
next
  case (set_gate_states g m y r y')
  then show ?case using admin_simple_wf(1) [of y g m] by simp
next
  case (set_cycle_time ct y r y')
  then show ?case by (blast intro: set_cycle_time_wf)
next
  case (set_base_time bt y r y')
  then show ?case using admin_simple_wf(2) [of y bt] by simp
next
  case (set_ctrl_list_len n y r y')
  then show ?case using admin_simple_wf(3) [of y n] by simp
next
  case (set_ctrl_list ok first es y r y')
  then show ?case by (blast intro: set_entries_wf)
next
  case (set_config_change cur b y r y')
  then show ?case by (blast intro: set_config_change_wf)
next
  case (table_interrupt y y')
  then show ?case by (blast intro: cct_handler_wf)
next
  case (delay_expires y ms)
  then show ?case by (auto simp: sched_wf_def stm_wf_def)
next
  case (delayed_handler y cur y')
  with pending_delayed_result [of y cur] show ?case
    by (auto simp: sched_wf_def stm_wf_def)
qed (simp_all add: sched_wf_def)

lemma reachable_wf: "sched_reachable ops y \<Longrightarrow> sched_wf y"
  by (induction rule: sched_reachable.induct) (auto intro: probed_wf step_wf)

end

end
