(* ===== verification/SchedTabProps.thy ===== *)
theory SchedTabProps
  imports SchedInv
begin

text \<open>
  Properties of the administrative parameters and of the register-level operations of the
  scheduler: acceptance of a cycle time, the chunked write and the read of the control list, the
  bounded wait for a row transfer, and the start time written to and read from the hardware.
\<close>

unbundle bit_operations_syntax

section \<open>Cycle time\<close>

text \<open>
  \<open>edgx_sched_set_cycle_time\<close> never traps: it stores the fraction exactly when the
  denominator is not zero and the cycle lasts at most 16 ms; a longer cycle is refused with
  \<open>-ERANGE\<close> and counted as a configuration error, a zero denominator with \<open>-EINVAL\<close>.
\<close>

theorem set_cycle_time_outcome:
  "edgx_sched_set_cycle_time ct y =
     (if denom ct = 0 then Some (- EINVAL, y)
      else if uint (num ct) * NSEC_PER_SEC div uint (denom ct) \<le> 16000000
      then Some (0, y\<lparr>sys_sd := (sys_sd y)\<lparr>admin_tab := (admin_tab (sys_sd y))\<lparr>cycle_time := ct\<rparr>\<rparr>\<rparr>)
      else Some (- ERANGE, y\<lparr>sys_sd := (sys_sd y)\<lparr>conf_change_err := conf_change_err (sys_sd y) + 1\<rparr>\<rparr>))"
  by (simp add: set_cycle_time_result cycle_ok_def sched_cc_err_inc_def)

section \<open>Gate states\<close>

text \<open>
  Setting the administrative gate states under a mask changes exactly the masked
  gates: reading with any mask gives the new states inside the mask and the old ones outside.
\<close>

theorem admin_gate_states_masked:
  "edgx_sched_get_admin_gate_states m' (snd (edgx_sched_set_admin_gate_states g m y))
     = (g AND m AND m') OR (edgx_sched_get_admin_gate_states m' y AND NOT m)"
  by (rule bit_word_eqI)
    (auto simp: edgx_sched_get_admin_gate_states_def edgx_sched_set_admin_gate_states_def bit_simps)

section \<open>Control list\<close>

definition valid_interval :: "u32 \<Rightarrow> tab_entry \<Rightarrow> bool" where
  "valid_interval gran e \<longleftrightarrow> time_interval e mod gran = 0 \<and> time_interval e div gran \<le> 0xffff"

lemma adjust_entries_result:
  "gran \<noteq> 0 \<Longrightarrow> adjust_entries gran es = Some (if list_all (valid_interval gran) es then 0 else - EINVAL)"
  by (induction es) (auto simp: valid_interval_def)

lemma adjust_admin_tab_result:
  assumes "hw_granularity_ns (limits (sys_com y)) \<noteq> 0" "entries (admin_tab (sys_sd y)) = Some es"
    "length es = unat (entry_cnt (admin_tab (sys_sd y)))"
  shows "edgx_sched_adjust_admin_tab y =
    (if list_all (valid_interval (hw_granularity_ns (limits (sys_com y)))) es then Some (0, y)
     else Some (- EINVAL, sched_cc_err_inc y))"
  using assms by (auto simp: edgx_sched_adjust_admin_tab_def Let_def adjust_entries_result unat_eq_zero)

text \<open>What a write at the end of the stored list does, for any number of elements that fit.\<close>

lemma set_entries_append:
  assumes wf: "sched_wf y" and gran: "hw_granularity_ns (limits (sys_com y)) \<noteq> 0"
    and first: "first = 0 \<or> first = unat (entry_cnt (admin_tab (sys_sd y)))"
    and fits: "first + length es \<le> unat (max_entry_cnt (limits (sys_com y)))"
  defines "rows \<equiv> take first (table_rows (admin_tab (sys_sd y))) @ es"
  shows "\<exists>y'. edgx_sched_set_entries True first es y
           = Some (if list_all (valid_interval (hw_granularity_ns (limits (sys_com y)))) rows then 0 else - EINVAL, y')
         \<and> entries (admin_tab (sys_sd y')) = Some rows \<and> unat (entry_cnt (admin_tab (sys_sd y'))) = length rows
         \<and> sys_com y' = sys_com y"
proof -
  let ?max = "max_entry_cnt (limits (sys_com y))"
  define y0 where "y0 = (if first = 0
      then set_sd (\<lambda>s. s\<lparr>admin_tab := (admin_tab s)\<lparr>entry_cnt := 0, entries := None\<rparr>\<rparr>) y else y)"
  have old: "length (table_rows (admin_tab (sys_sd y))) = unat (entry_cnt (admin_tab (sys_sd y)))"
    using wf by (simp add: sched_wf_def admin_wf_def)
  have y0: "first = unat (entry_cnt (admin_tab (sys_sd y0)))" "sys_com y0 = sys_com y"
    "take first (table_rows (admin_tab (sys_sd y0))) = take first (table_rows (admin_tab (sys_sd y)))"
    "first \<le> length (table_rows (admin_tab (sys_sd y0)))"
    using first old by (auto simp: y0_def)
  have mx: "unat ?max < 4294967296" by (rule unat_u32_bound)
  have tot: "wrap_u64 (int first + int (length es)) = int (first + length es)"
    unfolding of_nat_add [symmetric] by (rule wrap_u64_id) (use fits mx in linarith)+
  have le: "int (first + length es) \<le> uint ?max"
  proof -
    have "int (unat ?max) = uint ?max" by simp
    with fits show ?thesis by linarith
  qed
  define y1 where "y1 = set_sd (\<lambda>s. s\<lparr>admin_tab := (admin_tab s)\<lparr>entries := Some rows,
                                    entry_cnt := word_of_int (int (first + length es))\<rparr>\<rparr>) y0"
  have len: "length rows = first + length es"
    using y0(3,4) first old by (auto simp: rows_def)
  have "unat (word_of_int (int (first + length es)) :: u32) = nat (int (first + length es))"
    by (rule unat_word_of_int_u32) (use fits mx in linarith)+
  then have cnt: "unat (entry_cnt (admin_tab (sys_sd y1))) = length rows"
    using len by (simp only: y1_def nat_int) simp
  have "edgx_sched_set_entries True first es y = edgx_sched_adjust_admin_tab y1"
    unfolding edgx_sched_set_entries_def Let_def tot y0_def [symmetric]
    using le y0 by (simp add: y1_def rows_def)
  then have res: "edgx_sched_set_entries True first es y =
      (if list_all (valid_interval (hw_granularity_ns (limits (sys_com y)))) rows then Some (0, y1)
       else Some (- EINVAL, sched_cc_err_inc y1))"
    using adjust_admin_tab_result [of y1 rows] gran cnt y0(2) by (simp add: y1_def)
  have e1: "entries (admin_tab (sys_sd y1)) = Some rows" "sys_com y1 = sys_com y"
    using y0(2) by (simp_all add: y1_def)
  have e2: "admin_tab (sys_sd (sched_cc_err_inc y1)) = admin_tab (sys_sd y1)"
    "sys_com (sched_cc_err_inc y1) = sys_com y1"
    by (simp_all add: sched_cc_err_inc_def)
  show ?thesis
    using res e1 e2 cnt by (cases "list_all (valid_interval (hw_granularity_ns (limits (sys_com y)))) rows") auto
qed

lemma get_entries_from_zero:
  assumes "entries (admin_tab (sys_sd y)) = Some rows"
    "unat (entry_cnt (admin_tab (sys_sd y))) = length rows" "rows \<noteq> []" "count < 2 ^ 32"
  shows "edgx_sched_get_entries 0 count y =
           Some (Inr (take count rows @ replicate (count - length rows) edgx_sched_undef_entry))"
  using assms by (auto simp: edgx_sched_get_entries_def Let_def wrap_u64_def min_def)

text \<open>
  Property C9. A control list written in two consecutive chunks and read back from the start is
  the concatenation of the chunks, followed by undefined entries up to the size asked for. The
  list is stored even when an interval is refused with \<open>-EINVAL\<close>.
\<close>

theorem ctrl_list_roundtrip:
  assumes "sched_wf y" "hw_granularity_ns (limits (sys_com y)) \<noteq> 0"
    and "length es1 + length es2 \<le> unat (max_entry_cnt (limits (sys_com y)))" "es1 \<noteq> []"
    and "count < 2 ^ 32"
  shows "\<exists>r1 y1 r2 y2. edgx_sched_set_entries True 0 es1 y = Some (r1, y1)
      \<and> edgx_sched_set_entries True (length es1) es2 y1 = Some (r2, y2)
      \<and> (r2 = 0 \<longleftrightarrow> list_all (valid_interval (hw_granularity_ns (limits (sys_com y)))) (es1 @ es2))
      \<and> edgx_sched_get_entries 0 count y2
          = Some (Inr (take count (es1 @ es2)
                       @ replicate (count - length (es1 @ es2)) edgx_sched_undef_entry))"
proof -
  obtain r1 y1 where w1: "edgx_sched_set_entries True 0 es1 y = Some (r1, y1)"
    "entries (admin_tab (sys_sd y1)) = Some es1" "unat (entry_cnt (admin_tab (sys_sd y1))) = length es1"
    "sys_com y1 = sys_com y"
    using set_entries_append [OF assms(1,2), of 0 es1] assms(3) by auto
  have wf1: "sched_wf y1" by (rule set_entries_wf [OF assms(1) w1(1)])
  have "table_rows (admin_tab (sys_sd y1)) = es1" using w1(2) by (simp add: table_rows_def)
  then obtain r2 y2 where w2: "edgx_sched_set_entries True (length es1) es2 y1 = Some (r2, y2)"
    "r2 = (if list_all (valid_interval (hw_granularity_ns (limits (sys_com y)))) (es1 @ es2) then 0 else - EINVAL)"
    "entries (admin_tab (sys_sd y2)) = Some (es1 @ es2)"
    "unat (entry_cnt (admin_tab (sys_sd y2))) = length (es1 @ es2)"
    using set_entries_append [OF wf1, of "length es1" es2] assms(2,3) w1(3,4) by auto
  have g: "edgx_sched_get_entries 0 count y2 = Some (Inr (take count (es1 @ es2)
      @ replicate (count - length (es1 @ es2)) edgx_sched_undef_entry))"
    by (rule get_entries_from_zero [OF w2(3,4)]) (use assms in simp_all)
  have "r2 = 0 \<longleftrightarrow> list_all (valid_interval (hw_granularity_ns (limits (sys_com y)))) (es1 @ es2)"
    using w2(2) by simp
  with w1(1) w2(1) g show ?thesis by blast
qed

definition tab_demo :: "unit sys" where
  "tab_demo =
     (let c = \<lparr>com_iobase = 0, limits = \<lparr>hw_granularity_ns = 320, freq_err_abs = 25, max_entry_cnt = 1023,
                max_int_len = 65535, max_cyc_ms = 16, nr_gates = 8\<rparr>, init_gate_states = 255,
                delay_chain = 0, irq_level_trig = False, irq_shared = False\<rparr>
      in \<lparr>sys_com = c, sys_sd = snd (edgx_sched_init c 0 0x10000 (\<lambda>_. 0)), sys_running = False,
          sys_io = snd (fst (edgx_sched_init c 0 0x10000 (\<lambda>_. 0))), sys_client = ()\<rparr>)"

lemma tab_demo_wf: "sched_wf tab_demo"
  by (rule probed_wf [where c = "sys_com tab_demo" and idx = 0 and io = "\<lambda>_. 0" and cl = "()"])
    (simp add: sched_probed_def edgx_probe_sched_def edgx_sched_get_if_def tab_demo_def Let_def
      edgx_sched_init_def edgx_sched_hw_init_def)

definition demo_entry :: tab_entry where
  "demo_entry = \<lparr>time_interval = 640, operation_name = 0, gate_states = 0x0f, padding = 0\<rparr>"

theorem ctrl_list_roundtrip_witness:
  "\<exists>r1 y1 r2 y2. edgx_sched_set_entries True 0 [demo_entry] tab_demo = Some (r1, y1)
      \<and> edgx_sched_set_entries True 1 [demo_entry] y1 = Some (r2, y2) \<and> r2 = 0
      \<and> edgx_sched_get_entries 0 3 y2 = Some (Inr [demo_entry, demo_entry, edgx_sched_undef_entry])"
  using ctrl_list_roundtrip [OF tab_demo_wf, of "[demo_entry]" "[demo_entry]" 3]
  by (simp add: tab_demo_def Let_def valid_interval_def demo_entry_def numeral_3_eq_3)

text \<open>
  Reading a non-empty list from any element but the first is never defined: the copy
  loop runs to the minimum of \<open>first + count\<close> and the number of entries instead of their
  difference, so it writes past the caller's buffer or reads past the end of the table.
\<close>

theorem get_entries_offset_out_of_bounds:
  assumes "sched_wf y" "entry_cnt (admin_tab (sys_sd y)) \<noteq> 0" "0 < first" "first + count < 2 ^ 32"
  shows "edgx_sched_get_entries first count y = None"
proof (cases "entries (admin_tab (sys_sd y))")
  case None
  with assms(2) show ?thesis by (simp add: edgx_sched_get_entries_def Let_def unat_eq_zero)
next
  case (Some es)
  let ?cnt = "unat (entry_cnt (admin_tab (sys_sd y)))"
  have len: "length es = ?cnt" using assms(1) Some by (simp add: sched_wf_def admin_wf_def table_rows_def)
  have pos: "0 < ?cnt" using assms(2) by (simp add: unat_gt_0)
  have w: "wrap_u64 (int first + int count) = int (first + count)"
  proof -
    have "first + count < 4294967296" using assms(4) by simp
    then have "int first + int count < 18446744073709551616" by linarith
    then show ?thesis by (simp add: wrap_u64_id)
  qed
  have "nat (min (wrap_u64 (int first + int count)) (int ?cnt)) = min (first + count) ?cnt"
    unfolding w by (simp only: of_nat_min [symmetric] nat_int)
  with Some len pos assms(2,3) show ?thesis
    by (simp add: edgx_sched_get_entries_def Let_def unat_eq_zero min_def)
qed

theorem get_entries_offset_out_of_bounds_witness:
  "\<exists>y. entries (admin_tab (sys_sd y)) = Some [demo_entry, demo_entry]
     \<and> edgx_sched_get_entries 1 1 (y :: unit sys) = None"
proof -
  let ?y = "tab_demo\<lparr>sys_sd := (sys_sd tab_demo)\<lparr>admin_tab := (admin_tab (sys_sd tab_demo))
              \<lparr>entries := Some [demo_entry, demo_entry], entry_cnt := 2\<rparr>\<rparr>\<rparr>"
  have "sched_wf ?y"
    by (rule sched_wf_set_admin [OF tab_demo_wf])
      (use sched_wf_admin [OF tab_demo_wf] in \<open>simp add: admin_wf_def tab_demo_def Let_def\<close>)
  from get_entries_offset_out_of_bounds [OF this, of 1 1] show ?thesis by (intro exI [of _ ?y]) simp
qed

section \<open>Row transfer\<close>

definition row_busy :: "nat \<Rightarrow> iomem \<Rightarrow> bool" where
  "row_busy base io \<longleftrightarrow> edgx_rd16 io base SCHED_ROW_AC_CMD0 AND SCHED_AC_TRANSFER \<noteq> 0"

definition row_err :: "nat \<Rightarrow> iomem \<Rightarrow> bool" where
  "row_err base io \<longleftrightarrow> edgx_rd16 io base SCHED_ROW_AC_CMD0 AND SCHED_AC_ERR \<noteq> 0"

text \<open>
  Property C10. The wait for a row transfer reads the command register at most 501 times and always
  returns: success exactly when one of the first \<open>n\<close> reads (500 for the driver) shows the transfer
  flag clear after reads that showed it set, none of them with the error flag, and then the I/O
  memory is the one of that read; otherwise \<open>-EBUSY\<close>.
\<close>

theorem transfer_wait_bounded:
  "(\<exists>io'. edgx_sched_hw_transfer_wait dev base io n = (0, io')
       \<and> (\<exists>k < n. io' = (dev ^^ Suc k) io \<and> \<not> row_busy base io' \<and> \<not> row_err base io'
            \<and> (\<forall>j < k. row_busy base ((dev ^^ Suc j) io) \<and> \<not> row_err base ((dev ^^ Suc j) io))))
   \<or> (\<exists>k \<le> n. edgx_sched_hw_transfer_wait dev base io n = (- EBUSY, (dev ^^ Suc k) io)
        \<and> (k = n \<or> row_err base ((dev ^^ Suc k) io))
        \<and> (\<forall>j < k. row_busy base ((dev ^^ Suc j) io) \<and> \<not> row_err base ((dev ^^ Suc j) io)))"
proof (induction n arbitrary: io)
  case 0
  have "edgx_sched_hw_transfer_wait dev base io 0 = (- EBUSY, (dev ^^ Suc 0) io)"
    by (simp add: edgx_sched_hw_transfer_wait.simps [of dev base io 0])
  then show ?case by blast
next
  case (Suc n)
  let ?io = "dev io"
  note step = edgx_sched_hw_transfer_wait.simps [of dev base io "Suc n"]
  consider (err) "row_err base ?io" | (ok) "\<not> row_err base ?io" "\<not> row_busy base ?io"
    | (busy) "\<not> row_err base ?io" "row_busy base ?io" by blast
  then show ?case
  proof cases
    case err
    then have "edgx_sched_hw_transfer_wait dev base io (Suc n) = (- EBUSY, (dev ^^ Suc 0) io)"
      by (simp add: step row_err_def)
    with err show ?thesis by (intro disjI2 exI [of _ 0]) simp
  next
    case ok
    then have "edgx_sched_hw_transfer_wait dev base io (Suc n) = (0, (dev ^^ Suc 0) io)"
      by (simp add: step row_err_def row_busy_def)
    with ok show ?thesis by (intro disjI1 exI [of _ ?io] conjI exI [of _ 0]) simp_all
  next
    case busy
    then have eq: "edgx_sched_hw_transfer_wait dev base io (Suc n) = edgx_sched_hw_transfer_wait dev base ?io n"
      by (simp add: step row_err_def row_busy_def)
    have sh: "(dev ^^ Suc k) ?io = (dev ^^ Suc (Suc k)) io" for k by (simp add: funpow_swap1)
    have all: "(\<forall>j < Suc k. row_busy base ((dev ^^ Suc j) io) \<and> \<not> row_err base ((dev ^^ Suc j) io))
        \<longleftrightarrow> (\<forall>j < k. row_busy base ((dev ^^ Suc j) ?io) \<and> \<not> row_err base ((dev ^^ Suc j) ?io))" for k
      using busy unfolding sh by (auto simp: less_Suc_eq_0_disj)
    from Suc.IH [of ?io] show ?thesis
    proof (elim disjE exE conjE)
      fix io' k assume k: "k < n" and r: "edgx_sched_hw_transfer_wait dev base ?io n = (0, io')"
        "io' = (dev ^^ Suc k) ?io" "\<not> row_busy base io'" "\<not> row_err base io'"
        "\<forall>j < k. row_busy base ((dev ^^ Suc j) ?io) \<and> \<not> row_err base ((dev ^^ Suc j) ?io)"
      have "io' = (dev ^^ Suc (Suc k)) io" using r(2) by (simp only: sh)
      with k r all [of k] show ?thesis
        by (intro disjI1 exI [of _ io'] conjI exI [of _ "Suc k"]) (auto simp only: eq Suc_less_eq)
    next
      fix k assume k: "k \<le> n" and r: "edgx_sched_hw_transfer_wait dev base ?io n = (- EBUSY, (dev ^^ Suc k) ?io)"
        "\<forall>j < k. row_busy base ((dev ^^ Suc j) ?io) \<and> \<not> row_err base ((dev ^^ Suc j) ?io)" and "k = n"
      then show ?thesis
        using all [of k] by (intro disjI2 exI [of _ "Suc k"]) (simp only: eq sh Suc_le_mono simp_thms)
    next
      fix k assume k: "k \<le> n" and r: "edgx_sched_hw_transfer_wait dev base ?io n = (- EBUSY, (dev ^^ Suc k) ?io)"
        "\<forall>j < k. row_busy base ((dev ^^ Suc j) ?io) \<and> \<not> row_err base ((dev ^^ Suc j) ?io)"
        and e: "row_err base ((dev ^^ Suc k) ?io)"
      then show ?thesis
        using all [of k] by (intro disjI2 exI [of _ "Suc k"]) (simp only: eq sh Suc_le_mono simp_thms)
    qed
  qed
qed

theorem transfer_wait_bounded_witness:
  "edgx_sched_hw_transfer_wait (\<lambda>io. io(0x1000 := io 0x1000 AND 0x10f)) 0 (\<lambda>_. 0x8000) 500
     = (0, (\<lambda>_. 0x8000)(0x1000 := 0))"
proof -
  let ?dev = "\<lambda>io :: iomem. io(0x1000 := io 0x1000 AND 0x10f)" and ?io = "\<lambda>_ :: nat. 0x8000 :: u16"
  have p: "(?dev ^^ Suc k) ?io = ?io(0x1000 := 0)" for k
  proof (induction k)
    case 0
    have "(0x8000 :: u16) AND 0x10f = 0" by simp
    then show ?case by (simp only: funpow.simps o_apply id_apply)
  next
    case (Suc k)
    have "(?dev ^^ Suc (Suc k)) ?io = ?dev (?io(0x1000 := 0))"
      unfolding funpow.simps(2) [of "Suc k"] o_apply Suc ..
    also have "\<dots> = ?io(0x1000 := 0)" by simp
    finally show ?case .
  qed
  have b: "\<not> row_busy 0 (?io(0x1000 := 0))" "\<not> row_err 0 (?io(0x1000 := 0))"
    by (simp_all add: row_busy_def row_err_def edgx_rd16_def)
  have j: "\<exists>j. j < (500 :: nat)" by (rule exI [of _ 0]) simp
  show ?thesis
    using transfer_wait_bounded [of ?dev 0 ?io 500] j unfolding p using b by auto
qed

section \<open>Start time in the hardware\<close>

lemma u16_halves: "ucast (ucast (v AND 0xffff) :: u16) OR push_bit 16 (ucast (ucast (drop_bit 16 v) :: u16)) = (v :: u32)"
proof -
  have m: "(0xffff :: u32) = mask 16" by (simp add: mask_eq_exp_minus_1)
  show ?thesis unfolding m by (rule bit_word_eqI) (auto simp: bit_simps)
qed

text \<open>
  The start time that \<open>edgx_sched_hw_get_cc_time\<close> reads is the one that
  \<open>edgx_sched_hw_set_pending\<close> wrote to the same table, with its seconds modulo 256; the other
  table's registers are untouched.
\<close>

theorem set_pending_cc_time:
  assumes "tab < 2" "0 \<le> tv_nsec bt" "tv_nsec bt < NSEC_PER_SEC"
  shows "edgx_sched_hw_get_cc_time (edgx_sched_hw_set_pending io base tab bt cyc) base tab
           = \<lparr>tv_sec = tv_sec bt mod 256, tv_nsec = tv_nsec bt\<rparr>
       \<and> (\<forall>a. base + (1 - tab) * 0x100 + 0x800 \<le> a \<and> a < base + (1 - tab) * 0x100 + 0x900
            \<longrightarrow> edgx_sched_hw_set_pending io base tab bt cyc a = io a)"
proof -
  have sec: "uint (word_of_int (tv_sec bt) AND (0xff :: u16)) = tv_sec bt mod 256"
  proof -
    have "(0xff :: u16) = mask 8" by (simp add: mask_eq_exp_minus_1)
    then have "word_of_int (tv_sec bt) AND (0xff :: u16) = take_bit 8 (word_of_int (tv_sec bt))"
      by (simp only: take_bit_eq_mask)
    then have "uint (word_of_int (tv_sec bt) AND (0xff :: u16)) = take_bit 8 (take_bit LENGTH(16) (tv_sec bt))"
      by (simp only: unsigned_take_bit_eq uint_word_of_int_eq)
    also have "\<dots> = tv_sec bt mod 256" by (simp add: take_bit_eq_mod mod_mod_cancel)
    finally show ?thesis .
  qed
  have nsec: "uint (word_of_int (tv_nsec bt) :: u32) = tv_nsec bt"
    using assms by (intro uint_word_of_int_u32) simp_all
  have "tab = 0 \<or> tab = 1" using assms(1) by auto
  then show ?thesis
    by (auto simp: edgx_sched_hw_get_cc_time_def edgx_sched_hw_set_pending_def Let_def sec nsec u16_halves)
qed

theorem set_pending_cc_time_witness:
  "edgx_sched_hw_get_cc_time (edgx_sched_hw_set_pending (\<lambda>_. 0) 0x10000 1 \<lparr>tv_sec = 1000, tv_nsec = 5\<rparr> 70000) 0x10000 1
     = \<lparr>tv_sec = 232, tv_nsec = 5\<rparr>"
  using set_pending_cc_time [of 1 "\<lparr>tv_sec = 1000, tv_nsec = 5\<rparr>"] by simp

section \<open>Start time of a configuration\<close>

text \<open>
  The computed start time: it is the base time when that lies in the future, and
  otherwise the next cycle start, in both cases shifted by the client's offset; the unshifted time
  becomes the configuration change time. The delay is zero when the start is at most 64 seconds
  ahead, else it leaves 32 seconds of advance but is at most 64 seconds.
\<close>

theorem calc_cc_time_outcome:
  assumes "ts_norm (base_time (admin_tab (sys_sd y)))" "ts_norm cur"
    and "\<bar>tv_sec (base_time (admin_tab (sys_sd y)))\<bar> < 2 ^ 40" "\<bar>offset_ns (sys_sd y)\<bar> < 2 ^ 40"
    and res: "edgx_sched_calc_cc_time cur y = Some (y', delay, past)"
  shows "past = (ts_ns (base_time (admin_tab (sys_sd y))) \<le> ts_ns cur)
     \<and> (if past then edgx_sched_calc_future_time (base_time (admin_tab (sys_sd y))) cur
                        (cycle_time (admin_tab (sys_sd y))) = Some (conf_change_time (sys_sd y'))
        else conf_change_time (sys_sd y') = base_time (admin_tab (sys_sd y)))
     \<and> (\<bar>tv_sec (conf_change_time (sys_sd y'))\<bar> < 2 ^ 41 \<and> ts_norm (conf_change_time (sys_sd y')) \<longrightarrow>
          ts_norm (start_time (sys_sd y'))
          \<and> ts_ns (start_time (sys_sd y')) = ts_ns (conf_change_time (sys_sd y')) + offset_ns (sys_sd y))
     \<and> (let ahead = wrap_s64 (tv_sec (start_time (sys_sd y')) - tv_sec cur)
        in delay = (if ahead \<le> 64 then 0 else min (ahead - 32) 64))"
proof -
  let ?bt = "base_time (admin_tab (sys_sd y))"
  have le: "(tv_sec ?bt < tv_sec cur \<or> (tv_sec ?bt = tv_sec cur \<and> tv_nsec ?bt \<le> tv_nsec cur))
      = (ts_ns ?bt \<le> ts_ns cur)"
    using ts_ns_le_iff [OF assms(1,2)] by simp
  have norm: "ts_norm (set_normalized_timespec64 (tv_sec t) (wrap_s64 (tv_nsec t + offset_ns (sys_sd y))))
      \<and> ts_ns (set_normalized_timespec64 (tv_sec t) (wrap_s64 (tv_nsec t + offset_ns (sys_sd y))))
        = ts_ns t + offset_ns (sys_sd y)"
    if "\<bar>tv_sec t\<bar> < 2 ^ 41" "ts_norm t" for t
  proof -
    have n: "0 \<le> tv_nsec t" "tv_nsec t < NSEC_PER_SEC" using that(2) by (simp_all add: ts_norm_def)
    have b: "- (2 ^ 41) \<le> tv_nsec t + offset_ns (sys_sd y)" "tv_nsec t + offset_ns (sys_sd y) < 2 ^ 41"
      using n assms(4) by (simp_all add: abs_less_iff)
    then have w: "wrap_s64 (tv_nsec t + offset_ns (sys_sd y)) = tv_nsec t + offset_ns (sys_sd y)"
      by (intro wrap_s64_id) simp_all
    have "(- (2 ^ 41)) div NSEC_PER_SEC \<le> (tv_nsec t + offset_ns (sys_sd y)) div NSEC_PER_SEC"
      "(tv_nsec t + offset_ns (sys_sd y)) div NSEC_PER_SEC \<le> 2 ^ 41 div NSEC_PER_SEC"
      by (rule zdiv_mono1; use b in simp)+
    then have "ts_ns (set_normalized_timespec64 (tv_sec t) (tv_nsec t + offset_ns (sys_sd y)))
        = tv_sec t * NSEC_PER_SEC + (tv_nsec t + offset_ns (sys_sd y))"
      using that(1) by (intro ts_ns_set_normalized) (simp_all add: abs_less_iff)
    then show ?thesis unfolding w by (simp add: ts_ns_def)
  qed
  define st where "st = (if ts_ns ?bt \<le> ts_ns cur then edgx_sched_calc_future_time ?bt cur
                 (cycle_time (admin_tab (sys_sd y))) else Some ?bt)"
  have "edgx_sched_calc_cc_time cur y = st \<bind> (\<lambda>st.
      let st' = set_normalized_timespec64 (tv_sec st) (wrap_s64 (tv_nsec st + offset_ns (sys_sd y)));
          diff = wrap_s64 (tv_sec st' - tv_sec cur)
      in Some (y\<lparr>sys_sd := (sys_sd y)\<lparr>conf_change_time := st, start_time := st'\<rparr>\<rparr>,
               if diff > 64 then if diff - 32 < 64 then diff - 32 else 64 else 0, ts_ns ?bt \<le> ts_ns cur))"
    unfolding edgx_sched_calc_cc_time_def Let_def st_def le by simp
  with res obtain t where t: "st = Some t" "past = (ts_ns ?bt \<le> ts_ns cur)"
    "conf_change_time (sys_sd y') = t"
    "start_time (sys_sd y') = set_normalized_timespec64 (tv_sec t) (wrap_s64 (tv_nsec t + offset_ns (sys_sd y)))"
    "delay = (let diff = wrap_s64 (tv_sec (start_time (sys_sd y')) - tv_sec cur)
              in if diff > 64 then if diff - 32 < 64 then diff - 32 else 64 else 0)"
    by (cases st) (auto simp: Let_def)
  have "delay = (let ahead = wrap_s64 (tv_sec (start_time (sys_sd y')) - tv_sec cur)
        in if ahead \<le> 64 then 0 else min (ahead - 32) 64)"
    unfolding t(5) Let_def by (simp add: min_def)
  moreover have "if past then edgx_sched_calc_future_time ?bt cur
                        (cycle_time (admin_tab (sys_sd y))) = Some (conf_change_time (sys_sd y'))
        else conf_change_time (sys_sd y') = ?bt"
    using t(1,2,3) by (simp add: st_def split: if_splits)
  ultimately show ?thesis
    using t(2) norm [of t] t(3,4) by (simp add: Let_def)
qed

theorem calc_cc_time_outcome_witness:
  "\<exists>y' delay past. edgx_sched_calc_cc_time \<lparr>tv_sec = 10, tv_nsec = 0\<rparr>
       (tab_demo\<lparr>sys_sd := (sys_sd tab_demo)\<lparr>admin_tab := (admin_tab (sys_sd tab_demo))
           \<lparr>base_time := \<lparr>tv_sec = 100, tv_nsec = 0\<rparr>\<rparr>\<rparr>\<rparr>) = Some (y', delay, past)
     \<and> \<not> past \<and> conf_change_time (sys_sd y') = \<lparr>tv_sec = 100, tv_nsec = 0\<rparr>"
proof -
  let ?y = "tab_demo\<lparr>sys_sd := (sys_sd tab_demo)\<lparr>admin_tab := (admin_tab (sys_sd tab_demo))
           \<lparr>base_time := \<lparr>tv_sec = 100, tv_nsec = 0\<rparr>\<rparr>\<rparr>\<rparr>"
  have "offset_ns (sys_sd tab_demo) = 0" by (simp add: tab_demo_def Let_def edgx_sched_init_def)
  moreover have "edgx_sched_calc_cc_time \<lparr>tv_sec = 10, tv_nsec = 0\<rparr> ?y \<noteq> None"
    by (simp add: edgx_sched_calc_cc_time_def Let_def)
  then obtain y' delay past where
    "edgx_sched_calc_cc_time \<lparr>tv_sec = 10, tv_nsec = 0\<rparr> ?y = Some (y', delay, past)" by auto
  ultimately show ?thesis
    using calc_cc_time_outcome [of ?y "\<lparr>tv_sec = 10, tv_nsec = 0\<rparr>" y' delay past]
    by (auto simp: ts_norm_def ts_ns_def split: if_splits)
qed

section \<open>Start time adjusted by the hardware\<close>

text \<open>
  When the hardware reports a start time at most 256 ns from the requested one (both
  modulo 256 seconds) nothing changes; when it reports one that is later by more, the start time
  moves by exactly that difference and the error is counted. When it reports an earlier one (also
  because its eight-bit seconds have wrapped around), the negative difference is taken as unsigned:
  within the same second the result is still right, but beyond it the start time jumps more than
  40 years (at least 1266874633 seconds) into the future.
\<close>

theorem fix_cc_time_outcome:
  assumes used: "edgx_sched_get_used_tab (sys_io y) (sys_sd y) = tab" "0 \<le> tab"
    and norm: "ts_norm (start_time (sys_sd y))" and sec: "\<bar>tv_sec (start_time (sys_sd y))\<bar> < 2 ^ 40"
    and hw: "edgx_sched_hw_get_cc_time (sys_io y) (iobase (sys_sd y)) (nat tab) = h"
      "ts_norm h" "0 \<le> tv_sec h" "tv_sec h < 256"
  defines "delta \<equiv> ts_ns h - (tv_sec (start_time (sys_sd y)) mod 256 * NSEC_PER_SEC
                              + tv_nsec (start_time (sys_sd y)))"
  shows "(\<bar>delta\<bar> \<le> 256 \<longrightarrow> edgx_sched_fix_cc_time y = y)
     \<and> (delta > 256 \<longrightarrow> ts_ns (start_time (sys_sd (edgx_sched_fix_cc_time y)))
            = ts_ns (start_time (sys_sd y)) + delta
          \<and> conf_change_err (sys_sd (edgx_sched_fix_cc_time y)) = conf_change_err (sys_sd y) + 1)
     \<and> (delta < - 256 \<longrightarrow>
          (if 0 \<le> tv_nsec (start_time (sys_sd y)) + delta
           then ts_ns (start_time (sys_sd (edgx_sched_fix_cc_time y))) = ts_ns (start_time (sys_sd y)) + delta
           else tv_sec (start_time (sys_sd (edgx_sched_fix_cc_time y)))
                  \<ge> tv_sec (start_time (sys_sd y)) + 1266874633))"
proof -
  let ?st = "start_time (sys_sd y)"
  have m: "tv_sec ?st AND 0xff = tv_sec ?st mod 256"
    using take_bit_eq_mask [of 8 "tv_sec ?st"] by (simp add: take_bit_eq_mod mask_eq_exp_minus_1)
  have n: "0 \<le> tv_nsec ?st" "tv_nsec ?st < NSEC_PER_SEC" using norm by (simp_all add: ts_norm_def)
  have hn: "0 \<le> tv_nsec h" "tv_nsec h < NSEC_PER_SEC" using hw(2) by (simp_all add: ts_norm_def)
  have mb: "0 \<le> tv_sec ?st mod 256" "tv_sec ?st mod 256 < 256" by simp_all
  have to_ns: "timespec64_to_ns h = ts_ns h"
    "timespec64_to_ns (?st\<lparr>tv_sec := tv_sec ?st AND 0xff\<rparr>) = tv_sec ?st mod 256 * NSEC_PER_SEC + tv_nsec ?st"
    using hw(3,4) hn n mb by (simp_all add: timespec64_to_ns_def ts_ns_def wrap_s64_id m)
  have db: "\<bar>delta\<bar> < 256 * NSEC_PER_SEC"
    using hw(3,4) hn n mb unfolding delta_def ts_ns_def abs_less_iff by linarith
  have d: "wrap_s64 (timespec64_to_ns h - timespec64_to_ns (?st\<lparr>tv_sec := tv_sec ?st AND 0xff\<rparr>)) = delta"
    unfolding to_ns using db by (fold delta_def) (simp add: wrap_s64_id abs_less_iff)
  have eq: "edgx_sched_fix_cc_time y = (if \<bar>delta\<bar> > 256
      then set_sd (\<lambda>s. s\<lparr>start_time := timespec64_add_ns ?st delta,
             conf_change_time := set_normalized_timespec64 (tv_sec (timespec64_add_ns ?st delta))
               (wrap_s64 (tv_nsec (timespec64_add_ns ?st delta) - offset_ns s))\<rparr>) (sched_cc_err_inc y)
      else y)"
    using used hw(1) unfolding edgx_sched_fix_cc_time_def Let_def
    by (simp add: d sched_cc_err_inc_def)
  have pos: "ts_ns (timespec64_add_ns ?st delta) = ts_ns ?st + delta" if "delta > 256"
  proof -
    define total where "total = tv_nsec ?st + delta"
    have t: "0 \<le> total" "total \<le> 257 * NSEC_PER_SEC"
      using that db n by (simp_all add: total_def abs_less_iff)
    have "wrap_u64 delta = delta" using that db by (intro wrap_u64_id) (simp_all add: abs_less_iff)
    then have w: "wrap_u64 (tv_nsec ?st + wrap_u64 delta) = total"
      using t by (simp add: total_def wrap_u64_id)
    have q0: "0 \<le> total div NSEC_PER_SEC" using t by (simp add: pos_imp_zdiv_nonneg_iff)
    have q1: "total div NSEC_PER_SEC \<le> (257 * NSEC_PER_SEC) div NSEC_PER_SEC"
      by (rule zdiv_mono1) (use t in simp_all)
    have "timespec64_add_ns ?st delta =
        \<lparr>tv_sec = tv_sec ?st + total div NSEC_PER_SEC, tv_nsec = total mod NSEC_PER_SEC\<rparr>"
      using q0 q1 sec by (simp add: timespec64_add_ns_def Let_def w wrap_u32_id wrap_s64_id abs_less_iff)
    then show ?thesis
      using div_mult_mod_eq [of total NSEC_PER_SEC] by (simp add: ts_ns_def total_def distrib_right)
  qed
  have w0: "wrap_u64 delta = delta + 18446744073709551616" if "delta < - 256"
  proof -
    have "delta mod 18446744073709551616 = (delta + 18446744073709551616) mod 18446744073709551616"
      by (rule mod_add_self2 [symmetric])
    also have "\<dots> = delta + 18446744073709551616"
      by (rule mod_pos_pos_trivial) (use that db in \<open>simp_all add: abs_less_iff\<close>)
    finally show ?thesis by (simp add: wrap_u64_def)
  qed
  have neg1: "ts_ns (timespec64_add_ns ?st delta) = ts_ns ?st + delta"
    if neg: "delta < - 256" and same: "0 \<le> tv_nsec ?st + delta"
  proof -
    have "(tv_nsec ?st + delta + 1 * 18446744073709551616) mod 18446744073709551616
        = (tv_nsec ?st + delta) mod 18446744073709551616"
      by (rule mod_mult_self1)
    then have w: "wrap_u64 (tv_nsec ?st + wrap_u64 delta) = tv_nsec ?st + delta"
      using same n neg unfolding w0 [OF neg] by (simp add: wrap_u64_def add.assoc)
    have "tv_nsec ?st + delta < NSEC_PER_SEC" using n neg by linarith
    with same sec show ?thesis
      by (simp add: timespec64_add_ns_def Let_def w ts_ns_def wrap_u32_id wrap_s64_id abs_less_iff)
  qed
  have neg2: "tv_sec (timespec64_add_ns ?st delta) \<ge> tv_sec ?st + 1266874633"
    if neg: "delta < - 256" and other: "tv_nsec ?st + delta < 0"
  proof -
    define total where "total = tv_nsec ?st + (delta + 18446744073709551616)"
    have t: "18446743817709551616 \<le> total" "total \<le> 18446744073709551615"
      using db n other by (simp_all add: total_def abs_less_iff)
    have w: "wrap_u64 (tv_nsec ?st + wrap_u64 delta) = total"
      unfolding w0 [OF neg] total_def [symmetric] using t by (simp add: wrap_u64_id)
    have q: "18446743817709551616 div NSEC_PER_SEC \<le> total div NSEC_PER_SEC"
      "total div NSEC_PER_SEC \<le> 18446744073709551615 div NSEC_PER_SEC"
      by (rule zdiv_mono1; use t in simp)+
    define k where "k = total div NSEC_PER_SEC - 17179869184"
    have k: "1266874633 \<le> k" "k \<le> 1266874889" using q by (simp_all add: k_def)
    have "(k + 4 * 4294967296) mod 4294967296 = k mod 4294967296" by (rule mod_mult_self1)
    then have "wrap_u32 (total div NSEC_PER_SEC) = k" using k by (simp add: k_def wrap_u32_def)
    then show ?thesis
      using k sec by (simp add: timespec64_add_ns_def Let_def w wrap_s64_id abs_less_iff)
  qed
  show ?thesis using eq pos neg1 neg2 by (auto simp: sched_cc_err_inc_def)
qed

theorem fix_cc_time_outcome_witness:
  "\<exists>y :: unit sys. start_time (sys_sd y) = \<lparr>tv_sec = 255, tv_nsec = 0\<rparr>
     \<and> tv_sec (start_time (sys_sd (edgx_sched_fix_cc_time y))) \<ge> 1266874888"
proof -
  let ?io = "\<lambda>a. if a = 0x10000 + 0x800 then 2 else 0 :: u16"
  let ?y = "tab_demo\<lparr>sys_sd := (sys_sd tab_demo)\<lparr>start_time := \<lparr>tv_sec = 255, tv_nsec = 0\<rparr>\<rparr>, sys_io := ?io\<rparr>"
  have i: "iobase (sys_sd tab_demo) = 0x10000" by (simp add: tab_demo_def Let_def edgx_sched_init_def)
  have u: "edgx_sched_get_used_tab (sys_io ?y) (sys_sd ?y) = 0"
    by (simp add: edgx_sched_get_used_tab_def edgx_rd16_def i)
  have h: "edgx_sched_hw_get_cc_time (sys_io ?y) (iobase (sys_sd ?y)) (nat 0) = \<lparr>tv_sec = 0, tv_nsec = 0\<rparr>"
    by (simp add: edgx_sched_hw_get_cc_time_def edgx_rd16_def i Let_def)
  from fix_cc_time_outcome [OF u _ _ _ h] show ?thesis
    by (intro exI [of _ ?y]) (simp add: ts_norm_def ts_ns_def)
qed

end
