(* ===== verification/LinkDelay.thy ===== *)
theory LinkDelay
  imports RegIO
begin

text \<open>
  Propagation delays: the PHY and adapter delays of a link (\<open>edge_link.c\<close>), the delays inside the
  switch that its feature registers announce (\<open>edge_port.c\<close>, \<open>edge_bridge.c\<close>), and the choice of
  the link mode and of the scheduler granularity. \<open>ktime_t\<close> values are nanoseconds.
\<close>

unbundle bit_operations_syntax

section \<open>Data\<close>

datatype edgx_lnk_mode =
  EDGX_LNKMOD_INVAL | EDGX_LNKMOD_10_100_1000 | EDGX_LNKMOD_10_100 | EDGX_LNKMOD_100_1000 | EDGX_LNKMOD_100

datatype delay_id = DLY_10 | DLY_100 | DLY_1000
datatype delay_dir = DLY_TX | DLY_RX
datatype delay_min_max = DLY_MIN | DLY_MAX

abbreviation (input) SPEED_10 :: int where "SPEED_10 \<equiv> 10"
abbreviation (input) SPEED_100 :: int where "SPEED_100 \<equiv> 100"
abbreviation (input) SPEED_1000 :: int where "SPEED_1000 \<equiv> 1000"
abbreviation (input) SPEED_UNKNOWN :: int where "SPEED_UNKNOWN \<equiv> - 1"

text \<open>The part of \<open>struct edgx_link\<close> that the delays need; the adapter is its register base or absent.\<close>

record edgx_link =
  link_speed :: int
  adpt_iobase :: "nat option"
  phy_dly :: "delay_dir \<Rightarrow> delay_id \<Rightarrow> delay_min_max \<Rightarrow> u32"
  adpt_dly :: "delay_dir \<Rightarrow> delay_id \<Rightarrow> u32"
  dly_flags :: "delay_dir \<Rightarrow> u32"
  lnk_mode :: edgx_lnk_mode

text \<open>The part of \<open>struct edgx_br\<close>: where its parameters are, and the clock period.\<close>

record edgx_br =
  brparam :: nat
  cycle_ns :: u32

section \<open>Bridge parameters\<close>

definition edgx_br_get_generic :: "iomem \<Rightarrow> edgx_br \<Rightarrow> nat \<Rightarrow> u16" where
  "edgx_br_get_generic io br ofs = edgx_rd16 io (brparam br) (0x0 + ofs)"

definition edgx_br_get_generic_pow2 :: "iomem \<Rightarrow> edgx_br \<Rightarrow> nat \<Rightarrow> u32" where
  "edgx_br_get_generic_pow2 io br ofs = push_bit (unat (edgx_rd16 io (brparam br) (0x0 + ofs))) 1"

definition edgx_br_get_generic_pow2z :: "iomem \<Rightarrow> edgx_br \<Rightarrow> nat \<Rightarrow> u32" where
  "edgx_br_get_generic_pow2z io br ofs =
     (let value = edgx_rd16 io (brparam br) (0x0 + ofs) in if value \<noteq> 0 then push_bit (unat value) 1 else 0)"

definition edgx_br_get_num_ports :: "iomem \<Rightarrow> edgx_br \<Rightarrow> u16" where
  "edgx_br_get_num_ports io br = edgx_br_get_generic io br 0 + 1"

definition edgx_br_get_cycle_ns :: "edgx_br \<Rightarrow> u32" where
  "edgx_br_get_cycle_ns br = cycle_ns br"

definition edgx_br_get_feature :: "iomem \<Rightarrow> edgx_br \<Rightarrow> nat \<Rightarrow> u16" where
  "edgx_br_get_feature io br ofs = edgx_rd16 io (brparam br) (0x100 + ofs)"

text \<open>The link mode, the frequency error and the granularity from the module parameters.\<close>

definition edgx_br_check_lnk_mode ::
  "string \<Rightarrow> int \<Rightarrow> bool \<Rightarrow> bool \<Rightarrow> int + edgx_lnk_mode \<times> u32 \<times> u32" where
  "edgx_br_check_lnk_mode linkmode ppm gigabit max_2_speeds =
     (let pre = (\<lambda>s. take 11 linkmode = s);
          m = (if pre ''10/100/1000''
               then Some (if max_2_speeds then EDGX_LNKMOD_100_1000 else EDGX_LNKMOD_10_100_1000)
               else if pre ''100/1000'' then Some EDGX_LNKMOD_100_1000
               else if pre ''10/100'' then Some EDGX_LNKMOD_10_100
               else None)
      in case m of None \<Rightarrow> Inl (- EINVAL)
         | Some m \<Rightarrow>
             let m = (if gigabit then m
                      else if m = EDGX_LNKMOD_10_100_1000 then EDGX_LNKMOD_10_100
                      else if m = EDGX_LNKMOD_100_1000 then EDGX_LNKMOD_100 else m);
                 sched_granul = (if m = EDGX_LNKMOD_100_1000 \<or> m = EDGX_LNKMOD_100 then 320
                                 else if m = EDGX_LNKMOD_10_100 then 3200 else 0)
             in if ppm = 0 then Inr (m, 25, sched_granul)
                else if ppm > 25 then Inl (- EINVAL)
                else Inr (m, word_of_int ppm, sched_granul))"

section \<open>Delays of the link\<close>

definition edgx_link_dly_idx :: "int \<Rightarrow> delay_id option" where
  "edgx_link_dly_idx speed =
     (if speed = SPEED_10 then Some DLY_10
      else if speed = SPEED_100 then Some DLY_100
      else if speed = SPEED_1000 then Some DLY_1000 else None)"

text \<open>The sum of two \<open>unsigned int\<close>s, read as nanoseconds.\<close>

definition dly_sum :: "edgx_link \<Rightarrow> delay_dir \<Rightarrow> delay_id \<Rightarrow> delay_min_max \<Rightarrow> int" where
  "dly_sum lnk dir i mm = uint (phy_dly lnk dir i mm + adpt_dly lnk dir i)"

definition edgx_link_get_offline_delay :: "edgx_link \<Rightarrow> delay_dir \<Rightarrow> delay_min_max \<Rightarrow> int \<Rightarrow> int" where
  "edgx_link_get_offline_delay lnk dir min_max speed =
     (case edgx_link_dly_idx speed of None \<Rightarrow> 0 | Some i \<Rightarrow> dly_sum lnk dir i min_max)"

definition edgx_link_get_delay :: "edgx_link \<Rightarrow> delay_dir \<Rightarrow> delay_min_max \<Rightarrow> int" where
  "edgx_link_get_delay lnk dir min_max = edgx_link_get_offline_delay lnk dir min_max (link_speed lnk)"

definition edgx_link_delays_entered :: "edgx_link \<Rightarrow> delay_dir \<Rightarrow> bool" where
  "edgx_link_delays_entered lnk dir =
     (let all_set = (\<lambda>msk. dly_flags lnk dir AND msk = msk) in
      case lnk_mode lnk of
        EDGX_LNKMOD_10_100_1000 \<Rightarrow> all_set 0x3f
      | EDGX_LNKMOD_100_1000 \<Rightarrow> all_set 0x3c
      | EDGX_LNKMOD_10_100 \<Rightarrow> all_set 0xf
      | EDGX_LNKMOD_100 \<Rightarrow> all_set 0xc
      | EDGX_LNKMOD_INVAL \<Rightarrow> False)"

definition edgx_link_get_tx_delays_hi :: "edgx_link \<Rightarrow> int + int \<times> int" where
  "edgx_link_get_tx_delays_hi lnk =
     (if \<not> edgx_link_delays_entered lnk DLY_TX then Inl (- EINVAL)
      else if lnk_mode lnk = EDGX_LNKMOD_100_1000 then
        Inr (dly_sum lnk DLY_TX DLY_1000 DLY_MIN, dly_sum lnk DLY_TX DLY_1000 DLY_MAX)
      else if lnk_mode lnk = EDGX_LNKMOD_10_100 \<or> lnk_mode lnk = EDGX_LNKMOD_100 then
        Inr (dly_sum lnk DLY_TX DLY_100 DLY_MIN, dly_sum lnk DLY_TX DLY_100 DLY_MAX)
      else Inl (- EINVAL))"

definition edgx_link_get_tx_delays_lo :: "edgx_link \<Rightarrow> int + int \<times> int" where
  "edgx_link_get_tx_delays_lo lnk =
     (if \<not> edgx_link_delays_entered lnk DLY_TX then Inl (- EINVAL)
      else if lnk_mode lnk = EDGX_LNKMOD_100_1000 \<or> lnk_mode lnk = EDGX_LNKMOD_100 then
        Inr (dly_sum lnk DLY_TX DLY_100 DLY_MIN, dly_sum lnk DLY_TX DLY_100 DLY_MAX)
      else if lnk_mode lnk = EDGX_LNKMOD_10_100 then
        Inr (dly_sum lnk DLY_TX DLY_10 DLY_MIN, dly_sum lnk DLY_TX DLY_10 DLY_MAX)
      else Inl (- EINVAL))"

definition edgx_link_get_rx_delays_hi :: "edgx_link \<Rightarrow> int + int \<times> int" where
  "edgx_link_get_rx_delays_hi lnk =
     (if \<not> edgx_link_delays_entered lnk DLY_RX then Inl (- EINVAL)
      else if lnk_mode lnk = EDGX_LNKMOD_100_1000 then
        Inr (dly_sum lnk DLY_RX DLY_1000 DLY_MIN, dly_sum lnk DLY_RX DLY_1000 DLY_MAX)
      else if lnk_mode lnk = EDGX_LNKMOD_10_100 \<or> lnk_mode lnk = EDGX_LNKMOD_100 then
        Inr (dly_sum lnk DLY_RX DLY_100 DLY_MIN, dly_sum lnk DLY_RX DLY_100 DLY_MAX)
      else Inl (- EINVAL))"

definition edgx_link_update_delays :: "iomem \<Rightarrow> int \<Rightarrow> edgx_link \<Rightarrow> edgx_link" where
  "edgx_link_update_delays io speed lnk =
     (case (adpt_iobase lnk, edgx_link_dly_idx speed) of
        (Some base, Some idx) \<Rightarrow>
          lnk\<lparr>adpt_dly := \<lambda>dir i. if i = idx
                 then ucast (edgx_rd16 io base (case dir of DLY_RX \<Rightarrow> 0x20 | DLY_TX \<Rightarrow> 0x22))
                 else adpt_dly lnk dir i\<rparr>
      | _ \<Rightarrow> lnk)"

definition edgx_link_set_delays :: "(delay_dir \<Rightarrow> delay_id \<Rightarrow> delay_min_max \<Rightarrow> u32) \<Rightarrow> edgx_link \<Rightarrow> edgx_link" where
  "edgx_link_set_delays d lnk = lnk\<lparr>phy_dly := d, dly_flags := \<lambda>_. 0x3f\<rparr>"

definition delay_bit :: "delay_id \<Rightarrow> delay_min_max \<Rightarrow> u32" where
  "delay_bit i limit = push_bit (2 * (case i of DLY_10 \<Rightarrow> 0 | DLY_100 \<Rightarrow> 1 | DLY_1000 \<Rightarrow> 2)
                                   + (case limit of DLY_MIN \<Rightarrow> 0 | DLY_MAX \<Rightarrow> 1)) 1"

text \<open>\<open>parsed\<close> is the result of \<open>kstrtouint\<close>: an errno or the value, written only on success.\<close>

definition delay_store ::
  "int + u32 \<Rightarrow> int \<Rightarrow> delay_id \<Rightarrow> delay_dir \<Rightarrow> delay_min_max \<Rightarrow> edgx_link \<Rightarrow> int \<times> edgx_link" where
  "delay_store parsed count i dir limit lnk =
     (if dly_flags lnk dir AND delay_bit i limit \<noteq> 0 then (- EINVAL, lnk)
      else case parsed of
        Inl ret \<Rightarrow> (ret, lnk)
      | Inr v \<Rightarrow> (count, lnk\<lparr>phy_dly := (phy_dly lnk)(dir := (phy_dly lnk dir)(i := (phy_dly lnk dir i)(limit := v))),
                          dly_flags := (dly_flags lnk)(dir := dly_flags lnk dir OR delay_bit i limit)\<rparr>))"

section \<open>Delays inside the switch\<close>

abbreviation (input) BR_FEAT_I2G_BASE :: nat where "BR_FEAT_I2G_BASE \<equiv> 0x110"
abbreviation (input) BR_FEAT_G2O_BASE :: nat where "BR_FEAT_G2O_BASE \<equiv> 0x120"
abbreviation (input) BR_FEAT_I2SG_BASE :: nat where "BR_FEAT_I2SG_BASE \<equiv> 0x130"

definition edgx_pt_get_dly_spd :: "iomem \<Rightarrow> edgx_br \<Rightarrow> nat \<Rightarrow> bool \<Rightarrow> int \<Rightarrow> int" where
  "edgx_pt_get_dly_spd io br ofs_base mx speed =
     (let dly = (\<lambda>mii_cycle_ns ofs.
            let v = edgx_br_get_feature io br (ofs + (if mx then 8 else 0))
            in uint (edgx_br_get_cycle_ns br * (ucast v AND 0xff)
                     + mii_cycle_ns * ((drop_bit 8 (ucast v)) AND 0xff) :: u32))
      in if speed = SPEED_10 then dly 400 ofs_base
         else if speed = SPEED_100 then dly 40 (ofs_base + 2)
         else if speed = SPEED_1000 then dly 8 (ofs_base + 4)
         else 0)"

definition edgx_pt_get_dly :: "iomem \<Rightarrow> edgx_br \<Rightarrow> int \<Rightarrow> nat \<Rightarrow> bool \<Rightarrow> int" where
  "edgx_pt_get_dly io br speed ofs_base mx = edgx_pt_get_dly_spd io br ofs_base mx speed"

definition edgx_pt_get_g2o_lo :: "iomem \<Rightarrow> edgx_br \<Rightarrow> edgx_lnk_mode \<Rightarrow> int + int \<times> int" where
  "edgx_pt_get_g2o_lo io br m =
     (if m = EDGX_LNKMOD_100_1000 \<or> m = EDGX_LNKMOD_100 then
        Inr (edgx_pt_get_dly_spd io br BR_FEAT_G2O_BASE False SPEED_100,
             edgx_pt_get_dly_spd io br BR_FEAT_G2O_BASE True SPEED_100)
      else if m = EDGX_LNKMOD_10_100 then
        Inr (edgx_pt_get_dly_spd io br BR_FEAT_G2O_BASE False SPEED_10,
             edgx_pt_get_dly_spd io br BR_FEAT_G2O_BASE True SPEED_10)
      else Inl (- EINVAL))"

definition dly_hi :: "nat \<Rightarrow> iomem \<Rightarrow> edgx_br \<Rightarrow> edgx_lnk_mode \<Rightarrow> int + int \<times> int" where
  "dly_hi ofs_base io br m =
     (if m = EDGX_LNKMOD_100_1000 then
        Inr (edgx_pt_get_dly_spd io br ofs_base False SPEED_1000,
             edgx_pt_get_dly_spd io br ofs_base True SPEED_1000)
      else if m = EDGX_LNKMOD_10_100 \<or> m = EDGX_LNKMOD_100 then
        Inr (edgx_pt_get_dly_spd io br ofs_base False SPEED_100,
             edgx_pt_get_dly_spd io br ofs_base True SPEED_100)
      else Inl (- EINVAL))"

definition edgx_pt_get_g2o_hi :: "iomem \<Rightarrow> edgx_br \<Rightarrow> edgx_lnk_mode \<Rightarrow> int + int \<times> int" where
  "edgx_pt_get_g2o_hi = dly_hi BR_FEAT_G2O_BASE"

definition edgx_pt_get_i2sg_hi :: "iomem \<Rightarrow> edgx_br \<Rightarrow> edgx_lnk_mode \<Rightarrow> int + int \<times> int" where
  "edgx_pt_get_i2sg_hi = dly_hi BR_FEAT_I2SG_BASE"

text \<open>The stream gate delay register counts in units of 320 ns, rounded to the nearest.\<close>

definition edgx_pt_set_sg_delay :: "iomem \<Rightarrow> nat \<Rightarrow> int \<Rightarrow> iomem" where
  "edgx_pt_set_sg_delay io base sg_dly =
     (let reg = wrap_u64 (wrap_u64 sg_dly + 160) div 320; reg = (if reg > 7 then 7 else reg)
      in edgx_wr16 io base 0x24 (word_of_int reg))"

definition edgx_pt_get_framesize :: "iomem \<Rightarrow> nat \<Rightarrow> nat \<Rightarrow> u32" where
  "edgx_pt_get_framesize io base idx = ucast (edgx_rd16 io (base + 0x40 + 2 * idx) 0 AND 0x7ff) - 12"

definition edgx_pt_set_framesize :: "iomem \<Rightarrow> nat \<Rightarrow> nat \<Rightarrow> u32 \<Rightarrow> iomem" where
  "edgx_pt_set_framesize io base idx val =
     edgx_wr16 io (base + 0x40 + 2 * idx) 0 (ucast ((val + 12) AND 0x7ff))"

section \<open>Lemmas\<close>

text \<open>With the scheduler present the granularity is never zero: nothing divides by zero later.\<close>

lemma check_lnk_mode_granul:
  "edgx_br_check_lnk_mode linkmode ppm gigabit True = Inr (m, ferr, granul) \<Longrightarrow>
     (granul = 320 \<and> m \<in> {EDGX_LNKMOD_100_1000, EDGX_LNKMOD_100}) \<or> (granul = 3200 \<and> m = EDGX_LNKMOD_10_100)"
  by (auto simp: edgx_br_check_lnk_mode_def Let_def split: if_splits)

end
