(* ===== verification/Fqtss.thy ===== *)
theory Fqtss
  imports LinkDelay "HOL-Library.Signed_Division"
begin

text \<open>
  The credit-based shapers of a port (\<open>edge_fqtss.c\<close>). The tables are indexed by traffic class.
  The transmission rate of a class is what \<open>edgx_st_get_trans_rate\<close> stores (\<open>None\<close> when it stores
  nothing and the code goes on with an uninitialised variable); the port speed is an argument. Divisions by zero trap (\<open>None\<close>).
\<close>

unbundle bit_operations_syntax

record st_tr_rate =
  tr_num :: int
  tr_denom :: int

record fqtss =
  fq_iobase :: nat
  tsa_tbl :: "u8 list"
  adminidleslope :: "u32 list"
  idleslope :: "u32 list"
  addend :: "u16 list"

abbreviation (input) FQ_OFFS :: "nat \<Rightarrow> nat" where "FQ_OFFS idx \<equiv> 0x30 + idx * 2"
abbreviation (input) MAX_LINE_SPEED :: u32 where "MAX_LINE_SPEED \<equiv> 1000000000"
abbreviation (input) MAX_ADDEND :: u16 where "MAX_ADDEND \<equiv> 65535"
abbreviation (input) CBS :: u8 where "CBS \<equiv> 1"
abbreviation (input) STRICT_PRIO :: u8 where "STRICT_PRIO \<equiv> 0"

section \<open>Operations\<close>

definition edgx_fqtss_calc_addend :: "u32 \<Rightarrow> u32 \<Rightarrow> u16 option" where
  "edgx_fqtss_calc_addend bitrate clk = do {
     let addend_tmp = wrap_u64 (uint bitrate * 2 ^ 12 + uint clk - 1);
     (q, r) \<leftarrow> do_div addend_tmp (uint clk);
     Some (word_of_int q)
   }"

definition edgx_fqtss_write_addend :: "u16 \<Rightarrow> nat \<Rightarrow> fqtss \<Rightarrow> iomem \<Rightarrow> (fqtss \<times> iomem) option" where
  "edgx_fqtss_write_addend a idx f io = do {
     as \<leftarrow> upd_opt (addend f) idx a;
     tsa \<leftarrow> nth_opt (tsa_tbl f) idx;
     Some (f\<lparr>addend := as\<rparr>,
           if tsa = CBS then edgx_wr16 io (fq_iobase f) (FQ_OFFS idx) a
           else if tsa = STRICT_PRIO then edgx_wr16 io (fq_iobase f) (FQ_OFFS idx) MAX_ADDEND
           else io)
   }"

text \<open>The clock in Hz; the period is converted to a C \<open>int\<close>, the division truncates.\<close>

definition edgx_fqtss_get_clk :: "edgx_br \<Rightarrow> u32 option" where
  "edgx_fqtss_get_clk br =
     (let cycle = sint (edgx_br_get_cycle_ns br)
      in if cycle = 0 then None else Some (word_of_int (1000000000 sdiv cycle)))"

text \<open>
  The operational rate \<open>bitrate * num / dnm\<close>, with the code's way around a 64-bit overflow of the
  product. \<open>num\<close> and \<open>dnm\<close> are unsigned 64-bit and not zero here.
\<close>

definition oper_bitrate :: "u32 \<Rightarrow> int \<Rightarrow> int \<Rightarrow> u32 option" where
  "oper_bitrate bitrate num dnm =
     (if uint bitrate > (2 ^ 64 - 1) div num then
        (if num div dnm > 0 then Some (word_of_int (num div dnm) * bitrate)
         else do {
           let tmp = dnm div num;
           let num = wrap_u64 (num * tmp);
           let tmp = num div dnm;
           let bitrate = word_of_int tmp * bitrate;
           (q, r) \<leftarrow> do_div (uint bitrate) tmp;
           Some (word_of_int q)
         })
      else Some (word_of_int (wrap_u64 (uint bitrate * num) div dnm)))"

definition limit_bitrate :: "int \<Rightarrow> u32 \<Rightarrow> u32" where
  "limit_bitrate lspeed bitrate =
     (if lspeed = SPEED_UNKNOWN \<and> bitrate > MAX_LINE_SPEED then MAX_LINE_SPEED
      else if bitrate > word_of_int (lspeed * 1000000) then word_of_int (lspeed * 1000000)
      else bitrate)"

definition edgx_fqtss_calc_idle_slope ::
  "edgx_br \<Rightarrow> int \<Rightarrow> nat \<Rightarrow> st_tr_rate \<Rightarrow> fqtss \<Rightarrow> (u16 \<times> fqtss) option" where
  "edgx_fqtss_calc_idle_slope br lspeed idx rate f = do {
     clk \<leftarrow> edgx_fqtss_get_clk br;
     let num = tr_num rate;
     let dnm = tr_denom rate;
     if num = 0 \<or> dnm = 0 then Some (0, f)
     else if num = 1 \<and> dnm = 1 then do {
       a \<leftarrow> nth_opt (addend f) idx;
       Some (a, f)
     }
     else do {
       bitrate \<leftarrow> nth_opt (adminidleslope f) idx;
       bitrate \<leftarrow> oper_bitrate bitrate num dnm;
       let bitrate = limit_bitrate lspeed bitrate;
       is \<leftarrow> upd_opt (idleslope f) idx bitrate;
       a \<leftarrow> edgx_fqtss_calc_addend bitrate clk;
       Some (a, f\<lparr>idleslope := is\<rparr>)
     }
   }"

text \<open>The loop over the classes \<open>i, ..., nr_queues - 1\<close>; \<open>rate\<close> gives the class's rate.\<close>

fun st_change_from ::
  "edgx_br \<Rightarrow> int \<Rightarrow> (nat \<Rightarrow> st_tr_rate option) \<Rightarrow> nat list \<Rightarrow> fqtss \<Rightarrow> iomem \<Rightarrow> (fqtss \<times> iomem) option" where
  "st_change_from br lspeed rate [] f io = Some (f, io)"
| "st_change_from br lspeed rate (i # is) f io = do {
     r \<leftarrow> rate i;
     (a, f) \<leftarrow> edgx_fqtss_calc_idle_slope br lspeed i r f;
     (f, io) \<leftarrow> edgx_fqtss_write_addend a i f io;
     st_change_from br lspeed rate is f io
   }"

definition edgx_fqtss_st_change ::
  "edgx_br \<Rightarrow> int \<Rightarrow> nat \<Rightarrow> (nat \<Rightarrow> st_tr_rate option) \<Rightarrow> fqtss option \<Rightarrow> iomem \<Rightarrow> (fqtss option \<times> iomem) option" where
  "edgx_fqtss_st_change br lspeed nr_queues rate fqt io =
     (case fqt of None \<Rightarrow> Some (None, io)
      | Some f \<Rightarrow> do {
          clk \<leftarrow> edgx_fqtss_get_clk br;
          (f, io) \<leftarrow> st_change_from br lspeed rate [0..<nr_queues] f io;
          Some (Some f, io)
        })"

section \<open>sysfs tables\<close>

definition admin_slope_tbl_read :: "nat \<Rightarrow> int \<Rightarrow> int \<Rightarrow> fqtss \<Rightarrow> (int + u32) option" where
  "admin_slope_tbl_read nr_queues ofs count f = do {
     r \<leftarrow> edgx_sysfs_tbl_params ofs count 8;
     case r of Inl e \<Rightarrow> Some (Inl (- EINVAL))
     | Inr idx \<Rightarrow> if idx > int nr_queues - 1 then Some (Inl (- EINVAL))
                  else do { v \<leftarrow> nth_opt (adminidleslope f) (nat idx); Some (Inr v) }
   }"

definition admin_slope_tbl_write ::
  "edgx_br \<Rightarrow> int \<Rightarrow> nat \<Rightarrow> (nat \<Rightarrow> st_tr_rate option) \<Rightarrow> int \<Rightarrow> int \<Rightarrow> u32 \<Rightarrow> fqtss \<Rightarrow> iomem \<Rightarrow> (int \<times> fqtss \<times> iomem) option" where
  "admin_slope_tbl_write br lspeed nr_queues rate ofs count val f io = do {
     clk \<leftarrow> edgx_fqtss_get_clk br;
     r \<leftarrow> edgx_sysfs_tbl_params ofs count 8;
     case r of Inl e \<Rightarrow> Some (- EINVAL, f, io)
     | Inr idx \<Rightarrow>
         if idx > int nr_queues - 1 then Some (- EINVAL, f, io)
         else if (if lspeed = SPEED_UNKNOWN then val > MAX_LINE_SPEED
                  else val > word_of_int (lspeed * 1000000)) then Some (- EINVAL, f, io)
         else do {
           let i = nat idx;
           a \<leftarrow> edgx_fqtss_calc_addend val clk;
           adm \<leftarrow> upd_opt (adminidleslope f) i val;
           is \<leftarrow> upd_opt (idleslope f) i val;
           as \<leftarrow> upd_opt (addend f) i a;
           let f = f\<lparr>adminidleslope := adm, idleslope := is, addend := as\<rparr>;
           r \<leftarrow> rate i;
           (a, f) \<leftarrow> edgx_fqtss_calc_idle_slope br lspeed i r f;
           (f, io) \<leftarrow> edgx_fqtss_write_addend a i f io;
           Some (count, f, io)
         }
   }"

definition tsa_tbl_read :: "nat \<Rightarrow> int \<Rightarrow> int \<Rightarrow> fqtss \<Rightarrow> (int + u8) option" where
  "tsa_tbl_read nr_queues ofs count f = do {
     r \<leftarrow> edgx_sysfs_tbl_params ofs count 1;
     case r of Inl e \<Rightarrow> Some (Inl (- EINVAL))
     | Inr idx \<Rightarrow> if idx > int nr_queues - 1 then Some (Inl (- EINVAL))
                  else do { v \<leftarrow> nth_opt (tsa_tbl f) (nat idx); Some (Inr v) }
   }"

definition tsa_tbl_write ::
  "nat \<Rightarrow> int \<Rightarrow> int \<Rightarrow> u8 \<Rightarrow> fqtss \<Rightarrow> iomem \<Rightarrow> (int \<times> fqtss \<times> iomem) option" where
  "tsa_tbl_write nr_queues ofs count val f io = do {
     r \<leftarrow> edgx_sysfs_tbl_params ofs count 1;
     case r of Inl e \<Rightarrow> Some (- EINVAL, f, io)
     | Inr idx \<Rightarrow>
         if idx > int nr_queues - 1 \<or> val > CBS then Some (- EINVAL, f, io)
         else do {
           ts \<leftarrow> upd_opt (tsa_tbl f) (nat idx) val;
           let f = f\<lparr>tsa_tbl := ts\<rparr>;
           a \<leftarrow> nth_opt (addend f) (nat idx);
           (f, io) \<leftarrow> edgx_fqtss_write_addend a (nat idx) f io;
           Some (count, f, io)
         }
   }"

definition edgx_probe_fqtss :: "edgx_br \<Rightarrow> nat \<Rightarrow> nat \<Rightarrow> iomem \<Rightarrow> (fqtss \<times> iomem) option" where
  "edgx_probe_fqtss br nr_queues base io = do {
     let f = \<lparr>fq_iobase = base, tsa_tbl = replicate 8 0, adminidleslope = replicate 8 0,
              idleslope = replicate 8 0, addend = replicate 8 0\<rparr>;
     clk \<leftarrow> edgx_fqtss_get_clk br;
     Some (f, fold (\<lambda>i io. edgx_wr16 io base (FQ_OFFS i) MAX_ADDEND) [0..<nr_queues] io)
   }"

end
