(* ===== verification/StFscr.thy ===== *)
theory StFscr
  imports SchedInv Fqtss
begin

text \<open>
  Scheduled traffic (\<open>edge_st_fscr.c\<close>), the client of the scheduler: the compensation of the
  transmission delays, the translation of a gate control list into the rows of the hardware
  table, the transmission rates of the queues, and the operational control list read back from
  the hardware. At the end its operations are shown to satisfy the client contract.
\<close>

unbundle bit_operations_syntax

section \<open>Data\<close>

text \<open>\<open>struct edgx_sched_dly\<close>; every number is an unsigned 64-bit value.\<close>

record sched_dly =
  ready :: bool
  phy_tx_hi :: "int \<times> int"
  phy_tx_lo :: "int \<times> int"
  g2o_hi :: "int \<times> int"
  g2o_lo :: "int \<times> int"
  s2g :: "int \<times> int"
  clk :: int
  delay_reg :: int
  time_advance :: int
  freq_err_per_cyc :: int
  tx_dly_hi :: "int \<times> int"
  tx_dly_lo :: "int \<times> int"
  g_close_adv_lo :: int
  g_close_adv_hi :: int

text \<open>\<open>struct edgx_st\<close> with the parts of the port that it uses.\<close>

record st =
  nr_queues :: nat
  tr_rate :: "st_tr_rate list"
  dly :: sched_dly
  st_br :: edgx_br
  st_link :: edgx_link
  st_fqtss :: "fqtss option"
  st_pt_iobase :: nat

type_synonym st_sys = "st sys"

abbreviation (input) ST_MAX_QUEUES :: nat where "ST_MAX_QUEUES \<equiv> 8"
abbreviation (input) OP_SET_GSTATES :: u8 where "OP_SET_GSTATES \<equiv> 0"
abbreviation (input) OP_HOLD_MAC :: u8 where "OP_HOLD_MAC \<equiv> 1"
abbreviation (input) OP_REL_MAC :: u8 where "OP_REL_MAC \<equiv> 2"

definition edgx_st_get_gate_mask :: "st \<Rightarrow> u8" where
  "edgx_st_get_gate_mask st = BIT (nr_queues st) - 1"

definition edgx_st_get_hold :: "st \<Rightarrow> u16" where
  "edgx_st_get_hold st = BIT (nr_queues st)"

abbreviation set_st :: "(st \<Rightarrow> st) \<Rightarrow> st_sys \<Rightarrow> st_sys" where
  "set_st f y \<equiv> y\<lparr>sys_client := f (sys_client y)\<rparr>"

section \<open>Transmission rates\<close>

definition sum_intervals :: "(tab_entry \<Rightarrow> bool) \<Rightarrow> tab_entry list \<Rightarrow> int" where
  "sum_intervals P es =
     fold (\<lambda>e acc. if P e then wrap_u64 (acc + uint (time_interval e)) else acc) es 0"

definition gate_open :: "nat \<Rightarrow> tab_entry \<Rightarrow> bool" where
  "gate_open q e \<longleftrightarrow> q < 8 \<and> bit (gate_states e) q"

definition queue_rate :: "int \<Rightarrow> sched_rational \<Rightarrow> tab_entry list \<Rightarrow> nat \<Rightarrow> st_tr_rate" where
  "queue_rate cyc_time_nsec ct es q =
     (let sum = sum_intervals (gate_open q) es;
          sum_total = sum_intervals (\<lambda>_. True) es;
          idle_time = wrap_u64 (cyc_time_nsec - sum_total);
          sum = (if gate_open q (last es) then wrap_u64 (sum + idle_time) else sum)
      in if sum \<noteq> 0
         then let rate = edgx_sched_nsec_to_rational sum 0
              in \<lparr>tr_num = wrap_u64 (uint (denom rate) * uint (num ct)),
                  tr_denom = wrap_u64 (uint (num rate) * uint (denom ct))\<rparr>
         else \<lparr>tr_num = 0, tr_denom = 1\<rparr>)"

definition edgx_st_calc_trans_rate :: "tab_entry list \<Rightarrow> nat \<Rightarrow> st_sys \<Rightarrow> st_sys option" where
  "edgx_st_calc_trans_rate es count y = do {
     let ct = cycle_time (admin_tab (sys_sd y));
     (cyc_time_nsec, cyc_time_subnsec) \<leftarrow> edgx_sched_rational_to_nsec ct;
     let nq = nr_queues (sys_client y);
     if nq > 0 \<and> (count = 0 \<or> length es < count \<or> length (tr_rate (sys_client y)) < nq) then None
     else Some (set_st (\<lambda>st. st\<lparr>tr_rate :=
            map (queue_rate cyc_time_nsec ct (take count es)) [0..<nq] @ drop nq (tr_rate st)\<rparr>) y)
   }"

text \<open>The rate handed out is that of an ungated queue while the gates are disabled.\<close>

definition edgx_st_get_trans_rate_locked :: "st_sys \<Rightarrow> nat \<Rightarrow> int + st_tr_rate" where
  "edgx_st_get_trans_rate_locked y queue_idx =
     (if queue_idx \<ge> nr_queues (sys_client y) then Inl (- EINVAL)
      else if \<not> gate_enabled (sys_sd y) then Inr \<lparr>tr_num = 1, tr_denom = 1\<rparr>
      else Inr (tr_rate (sys_client y) ! queue_idx))"

definition stored_rate :: "st_sys \<Rightarrow> nat \<Rightarrow> st_tr_rate option" where
  "stored_rate y q = (case edgx_st_get_trans_rate_locked y q of Inl e \<Rightarrow> None | Inr r \<Rightarrow> Some r)"

definition edgx_st_config_changed :: "st_sys \<Rightarrow> st_sys option" where
  "edgx_st_config_changed y = do {
     let c = sys_client y;
     let nq = (ucast (edgx_br_get_generic (sys_io y) (st_br c) 0xE) :: u8);
     (f, io) \<leftarrow> edgx_fqtss_st_change (st_br c) (link_speed (st_link c)) (unat nq) (stored_rate y)
                  (st_fqtss c) (sys_io y);
     Some (y\<lparr>sys_io := io, sys_client := c\<lparr>st_fqtss := f\<rparr>\<rparr>)
   }"

section \<open>Delay compensation\<close>

text \<open>The bounds of the gate-close advance for the two speeds: maximum and divisor.\<close>

definition close_adv_params :: "edgx_lnk_mode \<Rightarrow> ((int \<times> int) \<times> (int \<times> int)) option" where
  "close_adv_params m =
     (if m = EDGX_LNKMOD_100_1000 then Some ((46, 80), (255, 8))
      else if m = EDGX_LNKMOD_10_100 then Some ((46, 800), (255, 80))
      else if m = EDGX_LNKMOD_100 then Some ((46, 80), (0, 1))
      else None)"

definition close_adv :: "int \<Rightarrow> int \<times> int \<Rightarrow> int" where
  "close_adv overrun p = (let q = overrun div snd p; q = (if overrun mod snd p \<noteq> 0 then q + 1 else q) in min q (fst p))"

text \<open>
  The computation from the collected delays: \<open>gran\<close> and \<open>ferr\<close> are the limits' granularity and
  frequency error, \<open>max_cyc\<close> the longest cycle in milliseconds. The result is the record without
  the gate-close advances, and the maximal overruns for the low and the high speed.
\<close>

definition compute_delays :: "int \<Rightarrow> int \<Rightarrow> int \<Rightarrow> sched_dly \<Rightarrow> (sched_dly \<times> int \<times> int) option" where
  "compute_delays gran ferr max_cyc d = do {
     let g2w_hi_min = wrap_u64 (fst (phy_tx_hi d) + fst (g2o_hi d));
     let g2w_hi_max = wrap_u64 (snd (phy_tx_hi d) + snd (g2o_hi d));
     let g2w_lo_min = wrap_u64 (fst (phy_tx_lo d) + fst (g2o_lo d));
     let g2w_lo_max = wrap_u64 (snd (phy_tx_lo d) + snd (g2o_lo d));
     (dreg, rem) \<leftarrow> do_div (wrap_u64 \<bar>wrap_s64 (wrap_s64 g2w_hi_min - wrap_s64 g2w_lo_min)\<bar>) gran;
     let s2g_lo = wrap_u64 (fst (s2g d) + 399 * gran);
     let s2g_hi = wrap_u64 (snd (s2g d) + 399 * gran + 256);
     let s2w_hi_min = wrap_u64 (s2g_lo + g2w_hi_min);
     let s2w_hi_max = wrap_u64 (s2g_hi + g2w_hi_max);
     let s2w_lo_min = wrap_u64 (s2g_lo + g2w_lo_min);
     let s2w_lo_max = wrap_u64 (s2g_hi + g2w_lo_max);
     let ferr_cyc = wrap_u64 (wrap_u64 (ferr * 1000) * max_cyc) div 1000;
     let adv = wrap_u64 (min s2w_hi_min s2w_lo_min - ferr_cyc);
     let adv_err_hi = wrap_u64 (s2w_hi_min - adv);
     let adv_err_lo = wrap_u64 (s2w_lo_min - adv - gran * dreg);
     let max_overrun_hi = wrap_u64 (s2w_hi_max - adv + ferr_cyc);
     let max_overrun_lo = wrap_u64 (s2w_lo_max - adv + ferr_cyc - gran * dreg);
     let v_s2g = wrap_u64 (s2g_hi - s2g_lo);
     Some (d\<lparr>delay_reg := dreg, time_advance := adv, freq_err_per_cyc := ferr_cyc,
             tx_dly_hi := (adv_err_hi, wrap_u64 (adv_err_hi + v_s2g + 256 + ferr_cyc)),
             tx_dly_lo := (adv_err_lo, wrap_u64 (adv_err_lo + v_s2g + 256 + ferr_cyc))\<rparr>,
           max_overrun_lo, max_overrun_hi)
   }"

text \<open>The delays are fetched in the code's order; each error leaves what was fetched before.\<close>

definition edgx_sched_calc_delays :: "st_sys \<Rightarrow> (int \<times> st_sys) option" where
  "edgx_sched_calc_delays y =
     (let st = sys_client y; d = dly st; io = sys_io y;
          put = (\<lambda>d. set_st (\<lambda>st. st\<lparr>dly := d\<rparr>) y)
      in if ready d then Some (0, y)
      else case edgx_link_get_tx_delays_hi (st_link st) of Inl ret \<Rightarrow> Some (ret, y) | Inr p \<Rightarrow>
        let d = d\<lparr>phy_tx_hi := p\<rparr> in
      case edgx_link_get_tx_delays_lo (st_link st) of Inl ret \<Rightarrow> Some (ret, put d) | Inr p \<Rightarrow>
        let d = d\<lparr>phy_tx_lo := p\<rparr> in
      case edgx_pt_get_g2o_hi io (st_br st) (lnk_mode (st_link st)) of Inl ret \<Rightarrow> Some (ret, put d) | Inr p \<Rightarrow>
        let d = d\<lparr>g2o_hi := p\<rparr> in
      case edgx_pt_get_g2o_lo io (st_br st) (lnk_mode (st_link st)) of Inl ret \<Rightarrow> Some (ret, put d) | Inr p \<Rightarrow>
        let d = d\<lparr>g2o_lo := p, clk := uint (edgx_br_get_cycle_ns (st_br st))\<rparr> in
      if clk d = 0 then Some (- EINVAL, put d) else
      case edgx_sched_get_s2g (clk d) y of Inl ret \<Rightarrow> Some (ret, put d) | Inr p \<Rightarrow>
        let d = d\<lparr>s2g := p\<rparr>; lim = limits (sys_com y) in do {
          (d, lo, hi) \<leftarrow> compute_delays (uint (hw_granularity_ns lim)) (uint (freq_err_abs lim))
                           (max_cyc_ms lim) d;
          case close_adv_params (lnk_mode (st_link st)) of None \<Rightarrow> Some (- EINVAL, put d)
          | Some (plo, phi) \<Rightarrow>
              let d = d\<lparr>g_close_adv_lo := close_adv lo plo, g_close_adv_hi := close_adv hi phi, ready := True\<rparr>;
                  y = edgx_sched_set_delay (word_of_int (delay_reg d)) (put d)
              in Some (0, edgx_sched_set_g_close_adv (word_of_int (g_close_adv_lo d))
                                                     (word_of_int (g_close_adv_hi d)) y)
        })"

definition edgx_st_get_sched_offset :: "st_sys \<Rightarrow> ((int + int) \<times> st_sys) option" where
  "edgx_st_get_sched_offset y = do {
     (ret, y) \<leftarrow> edgx_sched_calc_delays y;
     Some (if ret \<noteq> 0 then Inl ret else Inr (wrap_s64 (- time_advance (dly (sys_client y)))), y)
   }"

section \<open>Rows of the hardware table\<close>

definition next_hold :: "st \<Rightarrow> tab_entry \<Rightarrow> u16 \<Rightarrow> u16" where
  "next_hold st e hold =
     (if operation_name e = OP_HOLD_MAC then edgx_st_get_hold st
      else if operation_name e = OP_REL_MAC then 0 else hold)"

text \<open>First loop: one row per entry, from row \<open>i\<close> on; also the final hold bit and time.\<close>

fun write_rows ::
  "device \<Rightarrow> sched_com \<Rightarrow> sched \<Rightarrow> st \<Rightarrow> nat \<Rightarrow> tab_entry list \<Rightarrow> nat \<Rightarrow> u16 \<Rightarrow> u32 \<Rightarrow> iomem
     \<Rightarrow> (int \<times> u16 \<times> u32 \<times> iomem) option" where
  "write_rows dev c s st tab_idx [] i hold t io = Some (0, hold, t, io)"
| "write_rows dev c s st tab_idx (e # es) i hold t io = do {
     let hold = next_hold st e hold;
     let t = t + time_interval e;
     (ret, io) \<leftarrow> edgx_sched_write_entry dev c s io tab_idx i (ucast (gate_states e) OR hold) t;
     if ret \<noteq> 0 then Some (ret, hold, t, io)
     else write_rows dev c s st tab_idx es (Suc i) hold t io
   }"

text \<open>
  Last loop: a hold that is active at the end of the list also covers the first rows, up to the
  first entry that sets or releases it; \<open>es\<close> are all entries but the last.
\<close>

fun rewrite_rows ::
  "device \<Rightarrow> sched_com \<Rightarrow> sched \<Rightarrow> nat \<Rightarrow> tab_entry list \<Rightarrow> nat \<Rightarrow> u16 \<Rightarrow> u32 \<Rightarrow> iomem \<Rightarrow> (int \<times> iomem) option" where
  "rewrite_rows dev c s tab_idx [] i hold t io = Some (0, io)"
| "rewrite_rows dev c s tab_idx (e # es) i hold t io =
     (if operation_name e = OP_HOLD_MAC \<or> operation_name e = OP_REL_MAC then Some (0, io)
      else do {
        let t = t + time_interval e;
        (ret, io) \<leftarrow> edgx_sched_write_entry dev c s io tab_idx i (ucast (gate_states e) OR hold) t;
        if ret \<noteq> 0 then Some (ret, io) else rewrite_rows dev c s tab_idx es (Suc i) hold t io
      })"

definition edgx_st_prepare_config ::
  "device \<Rightarrow> st_sys \<Rightarrow> tab_entry list \<Rightarrow> nat \<Rightarrow> (int \<times> st_sys) option" where
  "edgx_st_prepare_config dev y es0 count =
     (let c = sys_com y; s = sys_sd y; st = sys_client y;
          tab_idx = edgx_sched_get_free_tab (sys_io y) s
      in if tab_idx < 0 then Some (tab_idx, y)
         else if count = 0 \<or> length es0 < count then None
         else do {
           let es = take count es0;
           (ret, hold, t, io) \<leftarrow> write_rows dev c s st (nat tab_idx) es 0 0 0 (sys_io y);
           (ret, io) \<leftarrow> (if ret \<noteq> 0 then Some (ret, io)
                        else edgx_sched_write_entry dev c s io (nat tab_idx) count
                               (ucast (gate_states (last es))) t);
           (ret, io) \<leftarrow> (if hold = 0 \<or> ret \<noteq> 0 then Some (ret, io)
                        else rewrite_rows dev c s (nat tab_idx) (butlast es) 0 hold 0 io);
           let y = y\<lparr>sys_io := io\<rparr>;
           if ret \<noteq> 0 then Some (ret, y)
           else do { y \<leftarrow> edgx_st_calc_trans_rate es count y; Some (0, y) }
         })"

definition edgx_st_sched_ops :: "device \<Rightarrow> st sched_ops" where
  "edgx_st_sched_ops dev =
     \<lparr>get_sched_offset = edgx_st_get_sched_offset,
      prepare_config = edgx_st_prepare_config dev,
      config_changed = Some edgx_st_config_changed\<rparr>"

section \<open>The operational control list\<close>

definition entry_of_row :: "st \<Rightarrow> bool \<Rightarrow> u32 \<Rightarrow> u16 \<Rightarrow> u32 \<Rightarrow> tab_entry \<Rightarrow> tab_entry" where
  "entry_of_row st hold prev_time gstates t old =
     (let new_hold = gstates AND edgx_st_get_hold st \<noteq> 0
      in old\<lparr>time_interval := t - prev_time,
             gate_states := ucast (gstates AND ucast (edgx_st_get_gate_mask st)),
             operation_name := (if \<not> hold \<and> new_hold then OP_HOLD_MAC
                                else if hold \<and> \<not> new_hold then OP_REL_MAC else OP_SET_GSTATES)\<rparr>)"

text \<open>
  The loop over the caller's elements \<open>buf\<close> (with their old contents) from row \<open>row\<close> on. A row
  past the list length is skipped: \<open>ret\<close> stays \<open>-ENOENT\<close>, so the loop ends after it, with that
  element left as it was. After any other error the C code goes on with the values \<open>last\<close> of the
  row before, which are indeterminate for the first row (\<open>None\<close>), and then the loop ends.
\<close>

fun read_rows ::
  "device \<Rightarrow> sched_com \<Rightarrow> sched \<Rightarrow> st \<Rightarrow> nat \<Rightarrow> tab_entry list \<Rightarrow> nat \<Rightarrow> bool \<Rightarrow> (u16 \<times> u32) option \<Rightarrow> u32 \<Rightarrow> iomem
     \<Rightarrow> (tab_entry list \<times> iomem) option" where
  "read_rows dev c s st tab_idx [] row hold prev prev_time io = Some ([], io)"
| "read_rows dev c s st tab_idx (b # bs) row hold prev prev_time io = do {
     (r, io) \<leftarrow> edgx_sched_read_entry dev c s io tab_idx row;
     case r of
       Inl ret \<Rightarrow>
         do {
           b' \<leftarrow> (if ret = - ENOENT then Some b
                 else map_option (\<lambda>(gstates, t). entry_of_row st hold prev_time gstates t b) prev);
           Some (b' # replicate (length bs) edgx_sched_undef_entry, io)
         }
     | Inr (gstates, t) \<Rightarrow> do {
         let e = entry_of_row st hold prev_time gstates t b;
         (es, io) \<leftarrow> read_rows dev c s st tab_idx bs (Suc row)
                      (gstates AND edgx_st_get_hold st \<noteq> 0) (Some (gstates, t)) t io;
         Some (e # es, io)
       }
   }"

definition edgx_st_get_oper_ctrl_list ::
  "device \<Rightarrow> nat \<Rightarrow> tab_entry list \<Rightarrow> st_sys \<Rightarrow> ((int + tab_entry list) \<times> st_sys) option" where
  "edgx_st_get_oper_ctrl_list dev first buf y =
     (let c = sys_com y; s = sys_sd y; st = sys_client y;
          tab_idx = edgx_sched_get_used_tab (sys_io y) s
      in if tab_idx < 0 then Some (Inl tab_idx, y)
         else do {
           (prev, io) \<leftarrow> (if first = 0 then Some (Inr (0, 0), sys_io y)
                         else edgx_sched_read_entry dev c s (sys_io y) (nat tab_idx) (first - 1));
           case prev of Inl ret \<Rightarrow> Some (Inl ret, y\<lparr>sys_io := io\<rparr>)
           | Inr (g, prev_time) \<Rightarrow> do {
               (es, io) \<leftarrow> read_rows dev c s st (nat tab_idx) buf first False None prev_time io;
               Some (Inr es, y\<lparr>sys_io := io\<rparr>)
             }
         })"

section \<open>The client contract\<close>

lemma calc_delays_same: "edgx_sched_calc_delays y = Some (r, y') \<Longrightarrow> same_sched y y'"
  by (auto simp: edgx_sched_calc_delays_def Let_def same_sched_def bind_eq_Some
      edgx_sched_set_delay_def edgx_sched_set_g_close_adv_def split: if_splits sum.splits option.splits prod.splits)

lemma calc_trans_rate_same: "edgx_st_calc_trans_rate es n y = Some y' \<Longrightarrow> same_sched y y' \<and> sys_io y' = sys_io y"
  by (auto simp: edgx_st_calc_trans_rate_def Let_def same_sched_def bind_eq_Some split: if_splits prod.splits)

lemma prepare_config_same:
  assumes "edgx_st_prepare_config dev y es n = Some (r, y')"
  shows "same_sched y y'"
proof -
  have same_io: "same_sched (y\<lparr>sys_io := io\<rparr>) z \<Longrightarrow> same_sched y z" for io z
    by (simp add: same_sched_def)
  have "same_sched y (y\<lparr>sys_io := io\<rparr>)" "same_sched y y" for io by (simp_all add: same_sched_def)
  then show ?thesis
    using assms
    by (auto simp: edgx_st_prepare_config_def Let_def bind_eq_Some split: if_splits
        dest!: calc_trans_rate_same intro: same_io)
qed

lemma config_changed_same: "edgx_st_config_changed y = Some y' \<Longrightarrow> same_sched y y'"
  by (auto simp: edgx_st_config_changed_def Let_def same_sched_def bind_eq_Some split: prod.splits)

interpretation st_client: sched_client "edgx_st_sched_ops dev" for dev
proof unfold_locales
  show "same_sched y y'" if "get_sched_offset (edgx_st_sched_ops dev) y = Some (r, y')" for y r y'
    using that by (auto simp: edgx_st_sched_ops_def edgx_st_get_sched_offset_def bind_eq_Some
        dest: calc_delays_same)
  show "same_sched y y'" if "prepare_config (edgx_st_sched_ops dev) y es n = Some (ret, y')" for y es n ret y'
    using that by (auto simp: edgx_st_sched_ops_def dest: prepare_config_same)
  show "same_sched y y'" if "config_changed (edgx_st_sched_ops dev) = Some f" "f y = Some y'" for f y y'
    using that by (auto simp: edgx_st_sched_ops_def dest: config_changed_same)
qed

end
