(* ===== verification/SchedProps.thy ===== *)
theory SchedProps
  imports StFscr
begin

text \<open>
  Properties of the scheduler with scheduled traffic as its client: the invariant of every
  reachable state, what a configuration change does on each branch, the administrative control
  list, and the register-level operations. \<open>demo_sys\<close> is a concrete system for the examples.
\<close>

unbundle bit_operations_syntax

section \<open>A concrete system\<close>

definition demo_com :: sched_com where
  "demo_com = \<lparr>com_iobase = 0, limits = \<lparr>hw_granularity_ns = 320, freq_err_abs = 25, max_entry_cnt = 1023,
      max_int_len = 65535, max_cyc_ms = 16, nr_gates = 8\<rparr>, init_gate_states = 255, delay_chain = 0,
      irq_level_trig = False, irq_shared = False\<rparr>"

definition demo_dly :: sched_dly where
  "demo_dly = \<lparr>ready = True, phy_tx_hi = (0, 0), phy_tx_lo = (0, 0), g2o_hi = (0, 0), g2o_lo = (0, 0),
      s2g = (0, 0), clk = 8, delay_reg = 0, time_advance = 1000, freq_err_per_cyc = 400,
      tx_dly_hi = (0, 0), tx_dly_lo = (0, 0), g_close_adv_lo = 0, g_close_adv_hi = 0\<rparr>"

definition demo_st :: st where
  "demo_st = \<lparr>nr_queues = 8, tr_rate = replicate 8 \<lparr>tr_num = 1, tr_denom = 1\<rparr>, dly = demo_dly,
      st_br = \<lparr>brparam = 0, cycle_ns = 8\<rparr>,
      st_link = \<lparr>link_speed = 1000, adpt_iobase = None, phy_dly = \<lambda>_ _ _. 0, adpt_dly = \<lambda>_ _. 0,
                 dly_flags = \<lambda>_. 0x3f, lnk_mode = EDGX_LNKMOD_100_1000\<rparr>,
      st_fqtss = None, st_pt_iobase = 0\<rparr>"

definition demo_sched :: sched where
  "demo_sched = snd (edgx_sched_init demo_com 0 0x10000 (\<lambda>_. 0))"

definition demo_sys :: st_sys where
  "demo_sys = \<lparr>sys_com = demo_com, sys_sd = demo_sched, sys_running = False,
      sys_io = snd (fst (edgx_sched_init demo_com 0 0x10000 (\<lambda>_. 0))), sys_client = demo_st\<rparr>"

lemma demo_probed: "sched_probed demo_com 0 (\<lambda>_. 0) demo_st demo_sys"
  by (simp add: sched_probed_def edgx_probe_sched_def edgx_sched_get_if_def demo_sys_def demo_sched_def
      edgx_sched_init_def edgx_sched_hw_init_def Let_def demo_com_def)

lemma demo_wf: "sched_wf demo_sys"
  by (rule probed_wf [OF demo_probed])

lemmas demo_simps = demo_sys_def demo_sched_def demo_com_def demo_st_def demo_dly_def edgx_sched_init_def
  edgx_sched_hw_init_def zero_table_def zero_timespec_def

section \<open>Invariant of the reachable states\<close>

text \<open>
  Property C1. In every state the scheduler can reach - by user requests, table interrupts, the
  expiry and the handler of the delayed work, and arbitrary changes of hardware and client state -
  the invariant holds: the administrative table's row count is the length of its row array and
  within the hardware's limit, its cycle time is a defined fraction of at most 16 ms, no
  operational table keeps a row pointer, a configuration is pending only while the gates are
  enabled, a request is latched only while they are disabled, and the delayed work exists exactly
  in the delayed state, armed for more than 32 and at most 64 seconds.
\<close>

theorem reachable_sched_wf:
  assumes "sched_reachable (edgx_st_sched_ops dev) y"
  shows "sched_wf y"
  by (rule st_client.reachable_wf [OF assms])

theorem reachable_sched_wf_witness:
  "sched_wf (snd (edgx_sched_set_ctrl_list_len 3 demo_sys))"
proof (rule reachable_sched_wf)
  show "sched_reachable (edgx_st_sched_ops id) (snd (edgx_sched_set_ctrl_list_len 3 demo_sys))"
    by (rule sched_reachable.step [OF sched_reachable.probe [OF demo_probed] sched_step.set_ctrl_list_len])
      (rule prod.collapse [symmetric])
qed

text \<open>
  Property C4. The handler of the delayed work never submits the configuration it was armed for:
  in every state in which it can run, the request flag has already been cleared, so it only
  returns the state machine to idle; registers, tables and client stay as they are.
\<close>

theorem delayed_config_never_submitted:
  assumes "sched_wf y" "sys_running y"
  shows "edgx_sched_stm_pending_delayed (edgx_st_sched_ops dev) cur y
           = Some (y\<lparr>sys_sd := (sys_sd y)\<lparr>sched_state := EDGX_SCHED_ST_IDLE\<rparr>\<rparr>)"
  by (rule st_client.pending_delayed_result [OF assms])

definition demo_delayed :: st_sys where
  "demo_delayed = demo_sys\<lparr>sys_running := True,
     sys_sd := demo_sched\<lparr>gate_enabled := True, sched_state := EDGX_SCHED_ST_PENDING_DELAYED\<rparr>\<rparr>"

lemma demo_delayed_wf: "sched_wf demo_delayed"
  using demo_wf by (simp add: demo_delayed_def sched_wf_def stm_wf_def demo_simps)

theorem delayed_config_never_submitted_witness:
  "sched_wf demo_delayed \<and> sys_running demo_delayed
     \<and> edgx_sched_stm_pending_delayed (edgx_st_sched_ops id) zero_timespec demo_delayed
         = Some (demo_delayed\<lparr>sys_sd := (sys_sd demo_delayed)\<lparr>sched_state := EDGX_SCHED_ST_IDLE\<rparr>\<rparr>)"
  using delayed_config_never_submitted [of demo_delayed id zero_timespec] demo_delayed_wf
  by (simp add: demo_delayed_def)

section \<open>Configuration change\<close>

lemma is_pending_set_pending:
  "tab < 2 \<Longrightarrow> edgx_sched_hw_is_pending (edgx_sched_hw_set_pending io base tab bt cyc) base"
proof -
  assume "tab < 2"
  then have "tab = 0 \<or> tab = 1" by auto
  moreover have "((x OR 1) AND NOT 0x100) AND 1 = (1 :: u16)" for x
    by (rule bit_word_eqI) (auto simp: bit_simps)
  then have "((x OR 1) AND - 257) AND 1 = (1 :: u16)" for x by simp
  ultimately show ?thesis
    by (auto simp: edgx_sched_hw_is_pending_def edgx_sched_hw_set_pending_def Let_def)
qed

lemma config_change_cases:
  assumes "edgx_sched_config_change ops y = Some (r, y')" "\<not> edgx_sched_get_free_tab (sys_io y) (sys_sd y) < 0"
  obtains es z n sn where
    "prepare_config ops (set_sd (\<lambda>s. s\<lparr>op_tabs := (op_tabs s)[nat (edgx_sched_get_free_tab (sys_io y) (sys_sd y)) :=
        admin_tab (sys_sd y)\<lparr>entries := None\<rparr>]\<rparr>) y) es (unat (list_len (admin_tab (sys_sd y)))) = Some (r, z)"
    "y' = (if r \<noteq> 0 then z
           else z\<lparr>sys_io := edgx_sched_hw_set_pending (sys_io z) (iobase (sys_sd z))
                   (nat (edgx_sched_get_free_tab (sys_io y) (sys_sd y))) (start_time (sys_sd z)) (word_of_int n)\<rparr>)"
    "r = 0 \<Longrightarrow> edgx_sched_rational_to_nsec (cycle_time (op_tabs (sys_sd z)
        ! nat (edgx_sched_get_free_tab (sys_io y) (sys_sd y)))) = Some (n, sn)"
proof -
  define tab where "tab = edgx_sched_get_free_tab (sys_io y) (sys_sd y)"
  define y0 where "y0 = set_sd (\<lambda>s. s\<lparr>op_tabs := (op_tabs s)[nat tab := admin_tab (sys_sd y)\<lparr>entries := None\<rparr>]\<rparr>) y"
  have eq: "edgx_sched_config_change ops y = entries (admin_tab (sys_sd y)) \<bind> (\<lambda>es.
      prepare_config ops y0 es (unat (list_len (admin_tab (sys_sd y)))) \<bind> (\<lambda>(ret, z).
        if ret \<noteq> 0 then Some (ret, z)
        else edgx_sched_rational_to_nsec (cycle_time (op_tabs (sys_sd z) ! nat tab)) \<bind> (\<lambda>(n, sn).
          Some (0, z\<lparr>sys_io := edgx_sched_hw_set_pending (sys_io z) (iobase (sys_sd z)) (nat tab)
                                (start_time (sys_sd z)) (word_of_int n)\<rparr>))))"
    using assms(2) unfolding edgx_sched_config_change_def tab_def y0_def Let_def by simp
  obtain es where es: "entries (admin_tab (sys_sd y)) = Some es"
    using assms(1) eq by (cases "entries (admin_tab (sys_sd y))") simp_all
  obtain ret z where z: "prepare_config ops y0 es (unat (list_len (admin_tab (sys_sd y)))) = Some (ret, z)"
    using assms(1) eq es by (cases "prepare_config ops y0 es (unat (list_len (admin_tab (sys_sd y))))") auto
  show thesis
  proof (cases "ret = 0")
    case True
    with assms(1) eq es z obtain n sn where
      "edgx_sched_rational_to_nsec (cycle_time (op_tabs (sys_sd z) ! nat tab)) = Some (n, sn)"
      "r = 0" "y' = z\<lparr>sys_io := edgx_sched_hw_set_pending (sys_io z) (iobase (sys_sd z)) (nat tab)
                    (start_time (sys_sd z)) (word_of_int n)\<rparr>"
      by (cases "edgx_sched_rational_to_nsec (cycle_time (op_tabs (sys_sd z) ! nat tab))") auto
    with True z show thesis by (intro that [of es z n sn]) (simp_all add: tab_def y0_def)
  next
    case False
    with assms(1) eq es z show thesis
      by (intro that [of es z 0 0]) (simp_all add: tab_def y0_def)
  qed
qed

lemma config_change_pending:
  assumes "edgx_sched_config_change ops y = Some (0, y')"
  shows "edgx_sched_hw_is_pending (sys_io y') (iobase (sys_sd y'))"
proof -
  have t: "\<not> edgx_sched_get_free_tab (sys_io y) (sys_sd y) < 0"
    using assms by (auto simp: edgx_sched_config_change_def Let_def)
  show ?thesis
    by (rule config_change_cases [OF assms t])
      (use free_tab_range [OF t] in \<open>simp add: is_pending_set_pending\<close>)
qed

text \<open>What the driver does with a request that gets past the parameter check.\<close>

lemma submit_result:
  assumes "sched_submit (edgx_st_sched_ops dev) cur y = Some (r, y')" "tabs_wf y"
    "sched_state (sys_sd y) = EDGX_SCHED_ST_IDLE"
  shows "\<not> conf_change (sys_sd y') \<and>
     (r \<noteq> 0 \<longrightarrow> sched_state (sys_sd y') = EDGX_SCHED_ST_IDLE) \<and>
     (r = 0 \<longrightarrow> sched_state (sys_sd y') = EDGX_SCHED_ST_PENDING_DELAYED
        \<or> sched_state (sys_sd y') = EDGX_SCHED_ST_PENDING
          \<and> edgx_sched_hw_is_pending (sys_io y') (iobase (sys_sd y')))"
proof -
  obtain y1 delay past where cc: "edgx_sched_calc_cc_time cur y = Some (y1, delay, past)"
    using assms(1) by (auto simp: sched_submit_def bind_eq_Some)
  define y2 where "y2 = (if past then sched_cc_err_inc y1 else y1)"
  note f = calc_cc_time_frame [OF cc]
  have core: "sched_core (sys_sd y2) = sched_core (sys_sd y)" and t2: "tabs_wf y2"
    using f assms(2) by (auto simp: y2_def tabs_wf_def sched_cc_err_inc_def dest: sched_core_eq)
  note c = sched_core_eq [OF core]
  show ?thesis
  proof (cases "delay = 0")
    case False
    with assms(1) cc show ?thesis
      by (auto simp: sched_submit_def Let_def schedule_delayed_work_def split: option.splits)
  next
    case True
    with assms(1) cc obtain y3 where
      y3: "edgx_sched_config_change (edgx_st_sched_ops dev) y2 = Some (r, y3)"
      and y': "y' = set_conf_change False (if r = 0 then set_state EDGX_SCHED_ST_PENDING y3 else y3)"
      by (auto simp: sched_submit_def y2_def [symmetric] Let_def bind_eq_Some)
    from st_client.config_change_frame [OF y3 t2] have "sched_core (sys_sd y3) = sched_core (sys_sd y2)"
      by blast
    note e = sched_core_eq [OF this]
    have "r = 0 \<Longrightarrow> edgx_sched_hw_is_pending (sys_io y3) (iobase (sys_sd y3))"
      using y3 config_change_pending by blast
    with y' e c assms(3) show ?thesis by auto
  qed
qed

text \<open>
  Property C2. A configuration change with enabled gates ends in one of three ways: it is refused
  with an error and the state machine is idle; it is accepted and pending in the hardware, with the
  can-use flag of a table set; or it is accepted and waits for the delayed work. In every case the
  request flag is cleared.
\<close>

theorem config_change_outcome:
  assumes "sched_wf y" "gate_enabled (sys_sd y)"
    and "edgx_sched_set_config_change (edgx_st_sched_ops dev) cur True y = Some (r, y')"
  shows "\<not> conf_change (sys_sd y')
     \<and> (r \<noteq> 0 \<longrightarrow> sched_state (sys_sd y') = EDGX_SCHED_ST_IDLE)
     \<and> (r = 0 \<longrightarrow> sched_state (sys_sd y') = EDGX_SCHED_ST_PENDING_DELAYED
          \<or> sched_state (sys_sd y') = EDGX_SCHED_ST_PENDING
            \<and> edgx_sched_hw_is_pending (sys_io y') (iobase (sys_sd y')))"
proof -
  define y0 where "y0 = set_conf_change True y"
  from assms(3) obtain y1 where c1: "sched_cancel_current y0 = Some y1"
    by (auto simp: edgx_sched_set_config_change_def edgx_sched_stm_cfg_change_def y0_def bind_eq_Some)
  define y2 where "y2 = set_state EDGX_SCHED_ST_IDLE y1"
  have "tabs_wf y1 \<and> gate_enabled (sys_sd y1)"
    using c1 assms(1,2) by (auto simp: sched_cancel_current_def cancel_delayed_work_sync_def y0_def
        sched_wf_split tabs_wf_def split: edgx_sched_state.splits if_splits)
  then have y2: "tabs_wf y2" "gate_enabled (sys_sd y2)" "sched_state (sys_sd y2) = EDGX_SCHED_ST_IDLE"
    by (simp_all add: y2_def tabs_wf_def)
  have "edgx_sched_set_config_change (edgx_st_sched_ops dev) cur True y =
      edgx_sched_check_cc_params (edgx_st_sched_ops dev) y2 \<bind> (\<lambda>(ret, y3).
        if ret \<noteq> 0 then Some (ret, set_conf_change False y3)
        else sched_submit (edgx_st_sched_ops dev) cur y3)"
    using c1 y2(2) by (simp add: edgx_sched_set_config_change_def edgx_sched_stm_cfg_change_def y0_def y2_def Let_def)
  with assms(3) obtain ret y3 where
    c3: "edgx_sched_check_cc_params (edgx_st_sched_ops dev) y2 = Some (ret, y3)"
    and rest: "(if ret \<noteq> 0 then Some (ret, set_conf_change False y3)
                else sched_submit (edgx_st_sched_ops dev) cur y3) = Some (r, y')"
    by (auto simp: bind_eq_Some)
  note f = st_client.check_frame [OF c3]
  from f have "sched_core (sys_sd y3) = sched_core (sys_sd y2)" by blast
  note e = sched_core_eq [OF this]
  have t3: "tabs_wf y3" using y2(1) f e by (simp add: tabs_wf_def)
  show ?thesis
  proof (cases "ret = 0")
    case True
    with rest e y2 submit_result [OF _ t3] show ?thesis by simp
  next
    case False
    with rest e y2 show ?thesis by auto
  qed
qed

theorem config_change_outcome_witness:
  "\<exists>y r y'. edgx_sched_set_config_change (edgx_st_sched_ops id) zero_timespec True y = Some (r, y')
     \<and> r = - EFAULT \<and> \<not> conf_change (sys_sd y') \<and> sched_state (sys_sd y') = EDGX_SCHED_ST_IDLE"
proof -
  let ?y = "demo_sys\<lparr>sys_sd := demo_sched\<lparr>gate_enabled := True\<rparr>\<rparr>"
  have wf: "sched_wf ?y" using demo_wf by (simp add: sched_wf_def stm_wf_def demo_simps)
  obtain y' where r: "edgx_sched_set_config_change (edgx_st_sched_ops id) zero_timespec True ?y = Some (- EFAULT, y')"
    by (simp add: edgx_sched_set_config_change_def edgx_sched_stm_cfg_change_def sched_cancel_current_def
        edgx_sched_check_cc_params_def demo_simps)
  with config_change_outcome [OF wf _ r] show ?thesis by fastforce
qed

end
