(* ===== verification/SchedLock.thy ===== *)
theory SchedLock
  imports SchedProps
begin

text \<open>
  The mutex of a scheduler. The other theories take a request and the handler of the delayed work as
  single steps; here the lock, the body and the unlock of the two are steps of two threads, so that a
  thread can wait for the mutex, or for the other thread to finish.
\<close>

section \<open>Two threads and the mutex\<close>

datatype thread = User | Worker

datatype 'c instr = Mutex_Lock | Mutex_Unlock | Body "'c sys \<Rightarrow> 'c sys option"

record 'c exec =
  ex_holder :: "thread option"
  ex_prog :: "thread \<Rightarrow> 'c instr list"
  ex_sys :: "'c sys"

definition set_config_change_code :: "'c sched_ops \<Rightarrow> timespec64 \<Rightarrow> bool \<Rightarrow> 'c instr list" where
  "set_config_change_code ops cur b =
     [Mutex_Lock, Body (\<lambda>y. map_option snd (edgx_sched_set_config_change ops cur b y)), Mutex_Unlock]"

definition set_gate_enabled_code :: "'c sched_ops \<Rightarrow> timespec64 \<Rightarrow> bool \<Rightarrow> 'c instr list" where
  "set_gate_enabled_code ops cur b =
     [Mutex_Lock, Body (\<lambda>y. map_option snd (edgx_sched_set_gate_enabled ops cur b y)), Mutex_Unlock]"

definition pending_delayed_code :: "'c sched_ops \<Rightarrow> timespec64 \<Rightarrow> 'c instr list" where
  "pending_delayed_code ops cur = [Mutex_Lock, Body (edgx_sched_stm_pending_delayed ops cur), Mutex_Unlock]"

text \<open>
  A step of one thread. The mutex is taken when nobody holds it. A body runs with the flag that says
  whether the handler has started and not finished; when it waits for the handler it has no value, and
  the thread stays where it is. An armed work starts at any time.
\<close>

inductive lock_step :: "'c sched_ops \<Rightarrow> timespec64 \<Rightarrow> 'c exec \<Rightarrow> 'c exec \<Rightarrow> bool" for ops cur where
  lock: "ex_prog e t = Mutex_Lock # is \<Longrightarrow> ex_holder e = None \<Longrightarrow>
     lock_step ops cur e (e\<lparr>ex_holder := Some t, ex_prog := (ex_prog e)(t := is)\<rparr>)"
| unlock: "ex_prog e t = Mutex_Unlock # is \<Longrightarrow> ex_holder e = Some t \<Longrightarrow>
     lock_step ops cur e (e\<lparr>ex_holder := None, ex_prog := (ex_prog e)(t := is)\<rparr>)"
| body: "ex_prog e t = Body f # is \<Longrightarrow> f ((ex_sys e)\<lparr>sys_running := (ex_prog e Worker \<noteq> [])\<rparr>) = Some y \<Longrightarrow>
     lock_step ops cur e (e\<lparr>ex_sys := y, ex_prog := (ex_prog e)(t := is)\<rparr>)"
| start: "ex_prog e Worker = [] \<Longrightarrow> hnd_delayed (sys_sd (ex_sys e)) = Some ms \<Longrightarrow>
     lock_step ops cur e (e\<lparr>ex_sys := set_sd (\<lambda>s. s\<lparr>hnd_delayed := None\<rparr>) (ex_sys e),
       ex_prog := (ex_prog e)(Worker := pending_delayed_code ops cur)\<rparr>)"

definition user_starts :: "'c instr list \<Rightarrow> 'c sys \<Rightarrow> 'c exec" where
  "user_starts code y = \<lparr>ex_holder = None, ex_prog = (\<lambda>_. [])(User := code), ex_sys = y\<rparr>"

lemma waits_for_handler:
  assumes "sched_state (sys_sd y) = EDGX_SCHED_ST_PENDING_DELAYED" "sys_running y"
  shows "edgx_sched_set_config_change ops cur True y = None" "edgx_sched_set_gate_enabled ops cur False y = None"
  using assms
  by (simp_all add: edgx_sched_set_config_change_def edgx_sched_stm_cfg_change_def sched_cancel_current_def
      cancel_delayed_work_sync_def edgx_sched_set_gate_enabled_def edgx_sched_stm_gate_disable_def)

text \<open>A thread that holds the mutex and waits for the other, which waits for the mutex.\<close>

lemma stuck:
  assumes "ex_holder e = Some User" "ex_prog e User = Body f # is" "ex_prog e Worker = Mutex_Lock # js"
    and "f ((ex_sys e)\<lparr>sys_running := True\<rparr>) = None"
  shows "\<not> lock_step ops cur e e'"
proof
  assume "lock_step ops cur e e'"
  then show False
  proof cases
    case (lock t "is'") then show False using assms(1) by simp
  next
    case (unlock t "is'") then show False using assms(1,2) by auto
  next
    case (body t g "is'" y) then show False using assms(2-4) by (cases t) auto
  next
    case (start ms) then show False using assms(3) by simp
  qed
qed

text \<open>
  Property C5. While a configuration waits for its time, a configuration change and a gate disable can
  deadlock with the handler of the delayed work: there is a run in which the work starts, the request
  takes the mutex before the handler does, and then no thread can make a step. The request holds the
  mutex and waits in \<open>cancel_delayed_work_sync\<close> for the handler to finish, and the handler waits for
  the mutex.
\<close>

theorem delayed_work_deadlock:
  fixes y :: "'c sys"
  assumes "sched_wf y" "sched_state (sys_sd y) = EDGX_SCHED_ST_PENDING_DELAYED" "\<not> sys_running y"
    and "code = set_config_change_code ops cur True \<or> code = set_gate_enabled_code ops cur False"
  shows "\<exists>e. (lock_step ops now)\<^sup>*\<^sup>* (user_starts code y) e \<and> (\<forall>e'. \<not> lock_step ops now e e')
     \<and> ex_holder e = Some User \<and> ex_prog e User = tl code \<and> ex_prog e Worker = pending_delayed_code ops now"
proof -
  obtain ms where ms: "hnd_delayed (sys_sd y) = Some ms" using assms(1-3) by (auto simp: sched_wf_def stm_wf_def)
  obtain req :: "'c sys \<Rightarrow> (int \<times> 'c sys) option" where code: "code = [Mutex_Lock, Body (\<lambda>y. map_option snd (req y)), Mutex_Unlock]"
    and req: "\<And>z. sched_state (sys_sd z) = EDGX_SCHED_ST_PENDING_DELAYED \<Longrightarrow> sys_running z \<Longrightarrow> req z = None"
    using assms(4)
  proof
    assume "code = set_config_change_code ops cur True"
    then show ?thesis using that [of "edgx_sched_set_config_change ops cur True"]
      by (simp add: set_config_change_code_def waits_for_handler)
  next
    assume "code = set_gate_enabled_code ops cur False"
    then show ?thesis using that [of "edgx_sched_set_gate_enabled ops cur False"]
      by (simp add: set_gate_enabled_code_def waits_for_handler)
  qed
  define y1 where "y1 = set_sd (\<lambda>s. s\<lparr>hnd_delayed := None\<rparr>) y"
  define e1 where "e1 = \<lparr>ex_holder = None, ex_prog = (\<lambda>_. [])(User := code, Worker := pending_delayed_code ops now), ex_sys = y1\<rparr>"
  define e2 where "e2 = e1\<lparr>ex_holder := Some User, ex_prog := (ex_prog e1)(User := tl code)\<rparr>"
  have "lock_step ops now (user_starts code y) e1"
    using lock_step.start [of "user_starts code y" ms ops now] ms by (simp add: user_starts_def e1_def y1_def)
  moreover have "lock_step ops now e1 e2" unfolding e2_def by (rule lock_step.lock) (simp_all add: e1_def code)
  ultimately have run: "(lock_step ops now)\<^sup>*\<^sup>* (user_starts code y) e2"
    by (rule rtranclp.rtrancl_into_rtrancl [OF r_into_rtranclp])
  have e2: "ex_holder e2 = Some User" "ex_prog e2 User = tl code" "ex_prog e2 Worker = pending_delayed_code ops now"
    "ex_sys e2 = y1" by (simp_all add: e2_def e1_def)
  have wait: "req (y1\<lparr>sys_running := True\<rparr>) = None" by (rule req) (simp_all add: y1_def assms(2))
  have "\<not> lock_step ops now e2 e'" for e'
    by (rule stuck [where f = "\<lambda>y. map_option snd (req y)", OF e2(1)]) (simp_all only: e2 wait code pending_delayed_code_def list.sel option.map refl)
  with run e2(1-3) show ?thesis by blast
qed

definition demo_armed :: st_sys where
  "demo_armed = demo_sys\<lparr>sys_sd := demo_sched\<lparr>gate_enabled := True, sched_state := EDGX_SCHED_ST_PENDING_DELAYED,
     hnd_delayed := Some 40000\<rparr>\<rparr>"

theorem delayed_work_deadlock_witness:
  "\<exists>e. (lock_step (edgx_st_sched_ops id) zero_timespec)\<^sup>*\<^sup>*
         (user_starts (set_gate_enabled_code (edgx_st_sched_ops id) zero_timespec False) demo_armed) e
     \<and> (\<forall>e'. \<not> lock_step (edgx_st_sched_ops id) zero_timespec e e') \<and> ex_prog e User \<noteq> []"
proof -
  have "sched_wf demo_armed" using demo_wf by (simp add: demo_armed_def sched_wf_def stm_wf_def demo_simps)
  moreover have "sched_state (sys_sd demo_armed) = EDGX_SCHED_ST_PENDING_DELAYED" "\<not> sys_running demo_armed"
    by (simp_all add: demo_armed_def demo_sys_def)
  ultimately show ?thesis
    using delayed_work_deadlock [of demo_armed "set_gate_enabled_code (edgx_st_sched_ops id) zero_timespec False"
        "edgx_st_sched_ops id" zero_timespec zero_timespec]
    by (auto simp: set_gate_enabled_code_def)
qed

end
