(* ===== verification/StProps.thy ===== *)
theory StProps
  imports SchedProps
begin

text \<open>
  Properties of scheduled traffic: the rows that a configuration writes to the hardware table, a
  row written and read back through a row memory, the transmission rates, and the table that a
  configuration change may touch.
\<close>

unbundle bit_operations_syntax

section \<open>Transmission rates\<close>

definition open_ns :: "(tab_entry \<Rightarrow> bool) \<Rightarrow> tab_entry list \<Rightarrow> int" where
  "open_ns P es = sum_list (map (\<lambda>e. if P e then uint (time_interval e) else 0) es)"

lemma open_ns_nonneg: "0 \<le> open_ns P es"
  unfolding open_ns_def by (rule sum_list_nonneg) auto

lemma open_ns_le: "open_ns P es \<le> open_ns (\<lambda>_. True) es"
  unfolding open_ns_def by (rule sum_list_mono) auto

lemma open_ns_append: "open_ns P (xs @ ys) = open_ns P xs + open_ns P ys"
  by (simp add: open_ns_def)

lemma open_ns_single: "open_ns P [e] = (if P e then uint (time_interval e) else 0)"
  by (simp add: open_ns_def)

lemma sum_intervals_eq:
  "open_ns P es < 18446744073709551616 \<Longrightarrow> sum_intervals P es = open_ns P es"
proof (induction es rule: rev_induct)
  case Nil
  then show ?case by (simp add: sum_intervals_def open_ns_def)
next
  case (snoc e es)
  have nn: "0 \<le> open_ns P [e]" "0 \<le> open_ns P es" by (rule open_ns_nonneg)+
  with snoc.prems have lt: "open_ns P es < 18446744073709551616" by (simp add: open_ns_append)
  have "sum_intervals P (es @ [e]) = (if P e then wrap_u64 (sum_intervals P es + uint (time_interval e))
      else sum_intervals P es)"
    by (simp add: sum_intervals_def)
  with snoc.IH [OF lt] snoc.prems nn show ?case
    by (auto simp: open_ns_append open_ns_single intro!: wrap_u64_id)
qed

text \<open>How long the gate of queue \<open>q\<close> is open in one cycle: it keeps its last state until the cycle ends.\<close>

definition gate_open_ns :: "int \<Rightarrow> tab_entry list \<Rightarrow> nat \<Rightarrow> int" where
  "gate_open_ns cyc es q =
     open_ns (gate_open q) es + (if gate_open q (last es) then cyc - open_ns (\<lambda>_. True) es else 0)"

text \<open>
  When the intervals of the list fit into the cycle, the rate of a queue is exactly
  the cycle time divided by the time its gate is open in a cycle (including the rest of the cycle
  in the last gate state), and 0/1 for a queue that is never open; nothing wraps for any cycle
  time the driver accepts.
\<close>

theorem queue_rate_exact:
  assumes "cycle_ok ct" "cyc = uint (num ct) * NSEC_PER_SEC div uint (denom ct)"
    and "open_ns (\<lambda>_. True) es \<le> cyc"
  shows "queue_rate cyc ct es q =
     (if gate_open_ns cyc es q = 0 then \<lparr>tr_num = 0, tr_denom = 1\<rparr>
      else \<lparr>tr_num = NSEC_PER_SEC * uint (num ct), tr_denom = gate_open_ns cyc es q * uint (denom ct)\<rparr>)"
proof -
  let ?N = "uint (num ct)" and ?D = "uint (denom ct)"
  have N: "0 \<le> ?N" "?N \<le> 4294967295" and D: "0 \<le> ?D" "?D \<le> 4294967295"
    using uint_u32_bounds [of "num ct"] uint_u32_bounds [of "denom ct"] by auto
  have cyc: "cyc \<le> 16000000" using assms(1,2) by (simp add: cycle_ok_def)
  have b: "0 \<le> open_ns (gate_open q) es" "open_ns (gate_open q) es \<le> open_ns (\<lambda>_. True) es"
    by (rule open_ns_nonneg) (rule open_ns_le)
  have s: "sum_intervals (gate_open q) es = open_ns (gate_open q) es"
    "sum_intervals (\<lambda>_. True) es = open_ns (\<lambda>_. True) es"
    by (rule sum_intervals_eq; use b cyc assms(3) in linarith)+
  have idle: "wrap_u64 (cyc - open_ns (\<lambda>_. True) es) = cyc - open_ns (\<lambda>_. True) es"
    by (rule wrap_u64_id) (use b cyc assms(3) in linarith)+
  let ?g = "gate_open_ns cyc es q"
  have g: "0 \<le> ?g" "?g \<le> 16000000" using b cyc assms(3) by (auto simp: gate_open_ns_def)
  have sum: "(if gate_open q (last es) then wrap_u64 (open_ns (gate_open q) es + (cyc - open_ns (\<lambda>_. True) es))
      else open_ns (gate_open q) es) = ?g"
    using g by (auto simp: gate_open_ns_def intro!: wrap_u64_id)
  have "?g * ?D \<le> 16000000 * 4294967295" by (rule mult_mono) (use g D in auto)
  moreover have "0 \<le> ?g * ?D" using g D by simp
  ultimately have wd: "wrap_u64 (?g * ?D) = ?g * ?D" by (intro wrap_u64_id) linarith+
  have wn: "wrap_u64 (NSEC_PER_SEC * ?N) = NSEC_PER_SEC * ?N"
    by (rule wrap_u64_id) (use N in linarith)+
  have u: "uint (word_of_int ?g :: u32) = ?g" using g by (intro uint_word_of_int_u32) linarith+
  show ?thesis
    unfolding queue_rate_def Let_def s idle sum
    by (simp add: edgx_sched_nsec_to_rational_def u wd wn)
qed

theorem queue_rate_exact_witness:
  "queue_rate 1000000 \<lparr>num = 1, denom = 1000\<rparr>
     [\<lparr>time_interval = 300000, operation_name = 0, gate_states = 1, padding = 0\<rparr>,
      \<lparr>time_interval = 200000, operation_name = 0, gate_states = 2, padding = 0\<rparr>] 1
   = \<lparr>tr_num = 1000000000, tr_denom = 700000000\<rparr>"
proof -
  let ?es = "[\<lparr>time_interval = 300000, operation_name = 0, gate_states = 1, padding = 0\<rparr>,
      \<lparr>time_interval = 200000, operation_name = 0, gate_states = 2, padding = 0\<rparr>]"
  have c: "cycle_ok \<lparr>num = 1, denom = 1000\<rparr>" by (simp add: cycle_ok_def)
  have n: "(1000000 :: int) = uint (num \<lparr>num = 1, denom = 1000\<rparr>) * NSEC_PER_SEC
             div uint (denom \<lparr>num = 1, denom = 1000\<rparr>)" by simp
  have o: "open_ns (\<lambda>_. True) ?es \<le> 1000000" by (simp add: open_ns_def)
  have g: "gate_open_ns 1000000 ?es 1 = 700000"
    by (simp add: gate_open_ns_def open_ns_def gate_open_def)
  show ?thesis using queue_rate_exact [OF c n o, of 1] unfolding g by simp
qed

section \<open>The rows of a configuration\<close>

text \<open>Writing a list of rows (index, gate states, time), stopping at the first error.\<close>

fun write_seq ::
  "device \<Rightarrow> sched_com \<Rightarrow> sched \<Rightarrow> nat \<Rightarrow> (nat \<times> u16 \<times> u32) list \<Rightarrow> iomem \<Rightarrow> (int \<times> iomem) option" where
  "write_seq dev c s tab [] io = Some (0, io)"
| "write_seq dev c s tab ((i, g, t) # rs) io = do {
     (ret, io) \<leftarrow> edgx_sched_write_entry dev c s io tab i g t;
     if ret \<noteq> 0 then Some (ret, io) else write_seq dev c s tab rs io
   }"

lemma write_seq_append:
  "write_seq dev c s tab (rs @ rs') io = do {
     (ret, io) \<leftarrow> write_seq dev c s tab rs io;
     if ret \<noteq> 0 then Some (ret, io) else write_seq dev c s tab rs' io
   }"
proof (induction rs arbitrary: io)
  case Nil
  show ?case by simp
next
  case (Cons r rs)
  obtain i g t where r: "r = (i, g, t)" by (cases r)
  show ?case
  proof (cases "edgx_sched_write_entry dev c s io tab i g t")
    case None
    then show ?thesis by (simp add: r)
  next
    case (Some p)
    obtain ret io1 where p: "p = (ret, io1)" by (cases p)
    show ?thesis using Some p Cons.IH [of io1] by (simp add: r)
  qed
qed

text \<open>
  The abstract rows: row \<open>k\<close> ends at the sum of the first \<open>k + 1\<close> intervals, with the gate states of
  its entry and the hold bit as the last set or release operation up to it left it.
\<close>

definition hold_at :: "st \<Rightarrow> tab_entry list \<Rightarrow> nat \<Rightarrow> u16" where
  "hold_at st es k = fold (next_hold st) (take (Suc k) es) 0"

definition time_at :: "tab_entry list \<Rightarrow> nat \<Rightarrow> u32" where
  "time_at es k = sum_list (map time_interval (take (Suc k) es))"

definition head_rows :: "tab_entry list \<Rightarrow> tab_entry list" where
  "head_rows es = takeWhile (\<lambda>e. operation_name e \<noteq> OP_HOLD_MAC \<and> operation_name e \<noteq> OP_REL_MAC) es"

definition plain_row :: "tab_entry list \<Rightarrow> (nat \<Rightarrow> u16) \<Rightarrow> nat \<Rightarrow> nat \<times> u16 \<times> u32" where
  "plain_row es h k = (k, ucast (gate_states (es ! k)) OR h k, time_at es k)"

definition planned_rows :: "st \<Rightarrow> tab_entry list \<Rightarrow> (nat \<times> u16 \<times> u32) list" where
  "planned_rows st es =
     map (plain_row es (hold_at st es)) [0..<length es]
     @ [(length es, ucast (gate_states (last es)), time_at es (length es - 1))]
     @ (let h = hold_at st es (length es - 1)
        in if h = 0 then [] else map (plain_row es (\<lambda>_. h)) [0..<length (head_rows (butlast es))])"

text \<open>The first loop writes the abstract rows, and ends with the hold bit and the time of the last one.\<close>

lemma write_rows_seq:
  "map_option (\<lambda>(ret, hold, t, io). (ret, io)) (write_rows dev c s st tab es i hold t io) =
     write_seq dev c s tab
       (map (\<lambda>k. (i + k, ucast (gate_states (es ! k)) OR fold (next_hold st) (take (Suc k) es) hold,
                  t + sum_list (map time_interval (take (Suc k) es)))) [0..<length es]) io"
proof (induction es arbitrary: i hold t io)
  case Nil
  then show ?case by simp
next
  case (Cons e es)
  let ?h = "next_hold st e hold" and ?t = "t + time_interval e"
  let ?rest = "map (\<lambda>k. (Suc i + k, ucast (gate_states (es ! k)) OR fold (next_hold st) (take (Suc k) es) ?h,
                   ?t + sum_list (map time_interval (take (Suc k) es)))) [0..<length es]"
  have upt: "[0..<length (e # es)] = 0 # map Suc [0..<length es]"
    by (simp add: upt_conv_Cons map_Suc_upt del: upt_Suc)
  have rows: "map (\<lambda>k. (i + k, ucast (gate_states ((e # es) ! k)) OR fold (next_hold st) (take (Suc k) (e # es)) hold,
                   t + sum_list (map time_interval (take (Suc k) (e # es))))) [0..<length (e # es)]
      = (i, ucast (gate_states e) OR ?h, ?t) # ?rest"
    unfolding upt by (simp add: o_def add.assoc)
  show ?case
  proof (cases "edgx_sched_write_entry dev c s io tab i (ucast (gate_states e) OR ?h) ?t")
    case None
    then show ?thesis unfolding rows by (simp add: Let_def)
  next
    case (Some p)
    obtain ret io1 where p: "p = (ret, io1)" by (cases p)
    show ?thesis using Some p Cons.IH [of "Suc i" ?h ?t io1] unfolding rows by (simp add: Let_def)
  qed
qed

lemma write_rows_done:
  "write_rows dev c s st tab es i hold t io = Some (0, hold', t', io') \<Longrightarrow>
     hold' = fold (next_hold st) es hold \<and> t' = t + sum_list (map time_interval es)"
proof (induction es arbitrary: i hold t io)
  case Nil
  then show ?case by simp
next
  case (Cons e es)
  let ?h = "next_hold st e hold" and ?t = "t + time_interval e"
  from Cons.prems obtain io1 where "write_rows dev c s st tab es (Suc i) ?h ?t io1 = Some (0, hold', t', io')"
    by (cases "edgx_sched_write_entry dev c s io tab i (ucast (gate_states e) OR ?h) ?t")
      (auto simp: Let_def split: if_splits prod.splits)
  from Cons.IH [OF this] show ?case by (simp add: add.assoc)
qed

lemma rewrite_rows_seq:
  "rewrite_rows dev c s tab es i hold t io =
     write_seq dev c s tab
       (map (\<lambda>k. (i + k, ucast (gate_states (es ! k)) OR hold,
                  t + sum_list (map time_interval (take (Suc k) es)))) [0..<length (head_rows es)]) io"
proof (induction es arbitrary: i t io)
  case Nil
  then show ?case by (simp add: head_rows_def)
next
  case (Cons e es)
  show ?case
  proof (cases "operation_name e = 1 \<or> operation_name e = 2")
    case True
    then show ?thesis by (auto simp: head_rows_def)
  next
    case False
    let ?t = "t + time_interval e"
    let ?rest = "map (\<lambda>k. (Suc i + k, ucast (gate_states (es ! k)) OR hold,
                   ?t + sum_list (map time_interval (take (Suc k) es)))) [0..<length (head_rows es)]"
    have hr: "head_rows (e # es) = e # head_rows es" using False by (simp add: head_rows_def)
    have upt: "[0..<length (e # head_rows es)] = 0 # map Suc [0..<length (head_rows es)]"
      by (simp add: upt_conv_Cons map_Suc_upt del: upt_Suc)
    have rows: "map (\<lambda>k. (i + k, ucast (gate_states ((e # es) ! k)) OR hold,
                     t + sum_list (map time_interval (take (Suc k) (e # es))))) [0..<length (head_rows (e # es))]
        = (i, ucast (gate_states e) OR hold, ?t) # ?rest"
      unfolding hr upt by (simp add: o_def add.assoc)
    show ?thesis
    proof (cases "edgx_sched_write_entry dev c s io tab i (ucast (gate_states e) OR hold) ?t")
      case None
      with False show ?thesis unfolding rows by (simp add: Let_def)
    next
      case (Some p)
      obtain ret io1 where p: "p = (ret, io1)" by (cases p)
      show ?thesis using Some p False Cons.IH [of "Suc i" ?t io1] unfolding rows by (simp add: Let_def)
    qed
  qed
qed

lemma head_rows_butlast_take:
  "k < length (head_rows (butlast es)) \<Longrightarrow> take (Suc k) (butlast es) = take (Suc k) es \<and> butlast es ! k = es ! k"
proof -
  assume k: "k < length (head_rows (butlast es))"
  have "length (head_rows (butlast es)) \<le> length (butlast es)"
    unfolding head_rows_def by (rule length_takeWhile_le)
  with k have "k < length (butlast es)" by linarith
  then show ?thesis by (simp add: butlast_conv_take nth_butlast)
qed

lemma prepare_config_writes_planned_rows_gen:
  assumes "0 \<le> edgx_sched_get_free_tab (sys_io y) (sys_sd y)" "0 < count" "count \<le> length es0"
  shows "edgx_st_prepare_config dev y es0 count =
     (case write_seq dev (sys_com y) (sys_sd y) (nat (edgx_sched_get_free_tab (sys_io y) (sys_sd y)))
             (planned_rows (sys_client y) (take count es0)) (sys_io y) of
        None \<Rightarrow> None
      | Some (ret, io) \<Rightarrow>
          if ret \<noteq> 0 then Some (ret, y\<lparr>sys_io := io\<rparr>)
          else map_option (Pair 0) (edgx_st_calc_trans_rate (take count es0) count (y\<lparr>sys_io := io\<rparr>)))"
proof -
  let ?c = "sys_com y" and ?s = "sys_sd y" and ?st = "sys_client y"
  let ?tab = "nat (edgx_sched_get_free_tab (sys_io y) ?s)" and ?es = "take count es0"
  let ?n = "length ?es"
  have n: "?n = count" "?es \<noteq> []" using assms by auto
  let ?R1 = "map (plain_row ?es (hold_at ?st ?es)) [0..<?n]"
  have R1: "map_option (\<lambda>(ret, hold, t, io). (ret, io)) (write_rows dev ?c ?s ?st ?tab ?es 0 0 0 (sys_io y))
      = write_seq dev ?c ?s ?tab ?R1 (sys_io y)"
    unfolding write_rows_seq plain_row_def hold_at_def time_at_def by simp
  show ?thesis
  proof (cases "write_rows dev ?c ?s ?st ?tab ?es 0 0 0 (sys_io y)")
    case None
    with R1 have "write_seq dev ?c ?s ?tab ?R1 (sys_io y) = None" by simp
    with None assms n show ?thesis
      by (simp add: edgx_st_prepare_config_def Let_def planned_rows_def write_seq_append)
  next
    case (Some p)
    obtain ret hold t io1 where p: "p = (ret, hold, t, io1)" by (cases p)
    with Some R1 have w1: "write_seq dev ?c ?s ?tab ?R1 (sys_io y) = Some (ret, io1)" by simp
    show ?thesis
    proof (cases "ret = 0")
      case False
      with Some p w1 assms n show ?thesis
        by (simp add: edgx_st_prepare_config_def Let_def planned_rows_def write_seq_append)
    next
      case True
      have h: "hold = hold_at ?st ?es (?n - 1)" and t: "t = time_at ?es (?n - 1)"
        using write_rows_done [of dev ?c ?s ?st ?tab ?es 0 0 0 "sys_io y" hold t io1] Some p True n
        by (simp_all add: hold_at_def time_at_def)
      let ?w = "edgx_sched_write_entry dev ?c ?s io1 ?tab count (ucast (gate_states (last ?es))) t"
      have R3: "rewrite_rows dev ?c ?s ?tab (butlast ?es) 0 hold 0 io
          = write_seq dev ?c ?s ?tab (map (plain_row ?es (\<lambda>_. hold)) [0..<length (head_rows (butlast ?es))]) io" for io
      proof -
        have "map (\<lambda>k. (0 + k, ucast (gate_states (butlast ?es ! k)) OR hold,
                  0 + sum_list (map time_interval (take (Suc k) (butlast ?es))))) [0..<length (head_rows (butlast ?es))]
            = map (plain_row ?es (\<lambda>_. hold)) [0..<length (head_rows (butlast ?es))]"
          by (rule map_cong) (use head_rows_butlast_take [of _ ?es] in \<open>auto simp: plain_row_def time_at_def\<close>)
        then show ?thesis unfolding rewrite_rows_seq by (rule arg_cong)
      qed
      have plan: "planned_rows ?st ?es = ?R1 @ [(count, ucast (gate_states (last ?es)), t)]
          @ (if hold = 0 then [] else map (plain_row ?es (\<lambda>_. hold)) [0..<length (head_rows (butlast ?es))])"
        using n by (simp add: planned_rows_def Let_def h t)
      show ?thesis
      proof (cases ?w)
        case None
        with Some p True w1 assms n show ?thesis
          unfolding plan by (simp add: edgx_st_prepare_config_def Let_def write_seq_append)
      next
        case w: (Some q)
        obtain ret2 io2 where q: "q = (ret2, io2)" by (cases q)
        with Some p True w1 w assms n show ?thesis
          unfolding plan
          by (auto simp: edgx_st_prepare_config_def Let_def write_seq_append R3 map_option_case
              split: option.splits prod.splits)
      qed
    qed
  qed
qed

text \<open>
  Property C8. Preparing a configuration writes exactly the planned rows, in order, to the free
  table: one row per entry with the accumulated time and the hold bit, the last gate states once
  more as the row the hardware stops on, and, when the hold is still set at the end of the list,
  the first rows again with the hold bit; it stops with the first write that fails, and computes
  the transmission rates only when all of them succeeded.
\<close>

theorem prepare_config_writes_planned_rows:
  assumes "0 \<le> edgx_sched_get_free_tab (sys_io y) (sys_sd y)" "0 < count" "count \<le> length es0"
  shows "edgx_st_prepare_config dev y es0 count =
     (case write_seq dev (sys_com y) (sys_sd y) (nat (edgx_sched_get_free_tab (sys_io y) (sys_sd y)))
             (planned_rows (sys_client y) (take count es0)) (sys_io y) of
        None \<Rightarrow> None
      | Some (ret, io) \<Rightarrow>
          if ret \<noteq> 0 then Some (ret, y\<lparr>sys_io := io\<rparr>)
          else map_option (Pair 0) (edgx_st_calc_trans_rate (take count es0) count (y\<lparr>sys_io := io\<rparr>)))"
  by (rule prepare_config_writes_planned_rows_gen [OF assms])

lemma demo_free_tab: "edgx_sched_get_free_tab (sys_io demo_sys) (sys_sd demo_sys) = 0"
  by (simp add: edgx_sched_get_free_tab_def demo_simps edgx_rd16_def)

lemma demo_take: "take 2 [a, b] = [a, b]"
  by simp

definition demo_row :: "u8 \<Rightarrow> u8 \<Rightarrow> tab_entry" where
  "demo_row opn g = \<lparr>time_interval = 640, operation_name = opn, gate_states = g, padding = 0\<rparr>"

theorem prepare_config_writes_planned_rows_witness:
  "edgx_st_prepare_config id demo_sys [demo_row 1 3, demo_row 0 5] 2 =
     (case write_seq id demo_com demo_sched 0
             [(0, 0x103, 640), (1, 0x105, 1280), (2, 5, 1280)] (sys_io demo_sys) of
        None \<Rightarrow> None
      | Some (ret, io) \<Rightarrow>
          if ret \<noteq> 0 then Some (ret, demo_sys\<lparr>sys_io := io\<rparr>)
          else map_option (Pair 0) (edgx_st_calc_trans_rate [demo_row 1 3, demo_row 0 5] 2 (demo_sys\<lparr>sys_io := io\<rparr>)))"
proof -
  have q: "nr_queues (sys_client demo_sys) = 8" by (simp add: demo_sys_def demo_st_def)
  have plan: "planned_rows (sys_client demo_sys) (take 2 [demo_row 1 3, demo_row 0 5])
      = [(0, 0x103, 640), (1, 0x105, 1280), (2, 5, 1280)]"
    by (simp add: planned_rows_def plain_row_def hold_at_def time_at_def head_rows_def next_hold_def
        demo_row_def edgx_st_get_hold_def q upt_rec)
  have c: "sys_com demo_sys = demo_com" "sys_sd demo_sys = demo_sched" by (simp_all add: demo_sys_def)
  show ?thesis
    using prepare_config_writes_planned_rows [of demo_sys 2 "[demo_row 1 3, demo_row 0 5]" id]
    unfolding demo_free_tab plan unfolding c unfolding demo_take by (simp del: write_seq.simps)
qed

end
