(* ===== verification/RowMemory.thy ===== *)
theory RowMemory
  imports StProps
begin

text \<open>
  A control list written to the rows of the hardware table and read back from them, through a
  device whose transfer commands keep a row memory.
\<close>

unbundle bit_operations_syntax

section \<open>A row written and read back\<close>

text \<open>
  What the driver relies on in the hardware: \<open>rows io (k, r)\<close> is row \<open>r\<close> of the table that the low
  bits \<open>k\<close> of the command select. A transfer command that writes stores the data registers in the
  row, one that reads loads them; either completes at the first poll without error.
\<close>

definition row_memory :: "device \<Rightarrow> nat \<Rightarrow> (iomem \<Rightarrow> u16 \<times> u16 \<Rightarrow> u16 \<times> u16) \<Rightarrow> bool" where
  "row_memory dev base rows \<longleftrightarrow>
     (\<forall>io. let cmd = io (base + 0x1000); key = (cmd AND 0x10f, io (base + 0x1002)); io' = dev io in
        cmd AND SCHED_AC_TRANSFER \<noteq> 0 \<longrightarrow>
          io' (base + 0x1000) AND SCHED_AC_TRANSFER = 0 \<and> io' (base + 0x1000) AND SCHED_AC_ERR = 0
          \<and> (if cmd AND SCHED_AC_WRITE \<noteq> 0
             then rows io' = (rows io)(key := (io (base + 0x1010), io (base + 0x1018)))
             else rows io' = rows io \<and> (io' (base + 0x1010), io' (base + 0x1018)) = rows io key))
     \<and> (\<forall>io a v. a \<in> {base + 0x1000, base + 0x1002, base + 0x1010, base + 0x1018}
          \<longrightarrow> rows (io(a := v)) = rows io)"

lemma row_cmd_low: "sched_row_cmd s tab AND 0x10f = sched_row_cmd s tab"
proof -
  have 1: "ucast (sched_idx s AND 0xf) = (ucast (sched_idx s) :: u16) AND 0xf"
    by (simp add: unsigned_and_eq)
  have 2: "push_bit 8 ((of_nat tab :: u16) AND 1) = push_bit 8 (of_nat tab) AND 0x100"
    by (simp add: push_bit_and)
  have 3: "(x AND 0xf OR y AND 0x100) AND 0x10f = x AND 0xf OR y AND (0x100 :: u16)" for x y
    by (simp add: bit.conj_disj_distrib2 and.assoc)
  show ?thesis unfolding sched_row_cmd_def 1 2 by (rule 3)
qed

lemma row_cmd_and: "sched_row_cmd s tab AND k = sched_row_cmd s tab AND (0x10f AND k)"
  using row_cmd_low [of s tab] by (metis and.assoc)

lemma row_cmd_bits:
  "(sched_row_cmd s tab OR 0xC000) AND 0x8000 = 0x8000"
  "(sched_row_cmd s tab OR 0xC000) AND 0x4000 = 0x4000"
  "(sched_row_cmd s tab OR 0x8000) AND 0x8000 = 0x8000"
  "(sched_row_cmd s tab OR 0x8000) AND 0x4000 = 0"
  "(sched_row_cmd s tab OR 0xC000) AND 0x10f = sched_row_cmd s tab"
  "(sched_row_cmd s tab OR 0x8000) AND 0x10f = sched_row_cmd s tab"
  using row_cmd_and [where k = "0x8000"] row_cmd_and [where k = "0x4000"] row_cmd_low
  by (simp_all add: bit.conj_disj_distrib2)

lemma row_memoryD:
  assumes "row_memory dev base rows" "io (base + 0x1000) AND 0x8000 \<noteq> 0"
  shows "dev io (base + 0x1000) AND 0x8000 = 0" "dev io (base + 0x1000) AND 0x2000 = 0"
    "io (base + 0x1000) AND 0x4000 \<noteq> 0 \<Longrightarrow>
       rows (dev io) = (rows io)((io (base + 0x1000) AND 0x10f, io (base + 0x1002)) :=
                                 (io (base + 0x1010), io (base + 0x1018)))"
    "io (base + 0x1000) AND 0x4000 = 0 \<Longrightarrow> rows (dev io) = rows io
       \<and> (dev io (base + 0x1010), dev io (base + 0x1018)) = rows io (io (base + 0x1000) AND 0x10f, io (base + 0x1002))"
  using assms unfolding row_memory_def Let_def by (smt (verit))+

lemma row_memory_keep:
  assumes "row_memory dev base rows" "a \<in> {base + 0x1000, base + 0x1002, base + 0x1010, base + 0x1018}"
  shows "rows (io(a := v)) = rows io"
  using assms unfolding row_memory_def by blast

definition row_key :: "sched \<Rightarrow> nat \<Rightarrow> nat \<Rightarrow> u16 \<times> u16" where
  "row_key s tab r = (sched_row_cmd s tab, of_nat r AND 0x3ff)"

lemma row_key_inj: "i < 1024 \<Longrightarrow> j < 1024 \<Longrightarrow> row_key s tab i = row_key s tab j \<Longrightarrow> i = j"
proof -
  assume b: "i < 1024" "j < 1024" and e: "row_key s tab i = row_key s tab j"
  have m: "(0x3ff :: u16) = mask 10" by (simp add: mask_eq_exp_minus_1)
  have u: "unat ((of_nat k :: u16) AND 0x3ff) = k" if "k < 1024" for k
  proof -
    have "(of_nat k :: u16) AND 0x3ff = of_nat (take_bit 10 k)"
      unfolding m take_bit_eq_mask [symmetric] by (rule take_bit_of_nat)
    then show ?thesis using that by (simp add: take_bit_nat_eq_self unat_of_nat)
  qed
  from e have "(of_nat i :: u16) AND 0x3ff = of_nat j AND 0x3ff" unfolding row_key_def prod.inject by (rule conjunct2)
  from arg_cong [OF this, of unat] show "i = j" unfolding u [OF b(1)] u [OF b(2)] .
qed

lemma write_entry_mem:
  assumes m: "row_memory dev (com_iobase c) rows" and g: "hw_granularity_ns (limits c) \<noteq> 0"
  obtains io' where "edgx_sched_write_entry dev c s io tab r gs t = Some (0, io')"
    "rows io' = (rows io)(row_key s tab r := (gs, ucast (t div hw_granularity_ns (limits c))))"
proof -
  let ?b = "com_iobase c" and ?cyc = "ucast (t div hw_granularity_ns (limits c)) :: u16"
  define io4 where "io4 = io(?b + 0x1002 := of_nat r AND 0x3ff, ?b + 0x1010 := gs, ?b + 0x1018 := ?cyc,
                             ?b + 0x1000 := sched_row_cmd s tab OR 0xC000)"
  have c4: "io4 (?b + 0x1000) = sched_row_cmd s tab OR 0xC000" "io4 (?b + 0x1002) = of_nat r AND 0x3ff"
    "io4 (?b + 0x1010) = gs" "io4 (?b + 0x1018) = ?cyc" by (simp_all add: io4_def)
  have r4: "rows io4 = rows io" by (simp add: io4_def row_memory_keep [OF m])
  have t4: "io4 (?b + 0x1000) AND 0x8000 \<noteq> 0" "io4 (?b + 0x1000) AND 0x4000 \<noteq> 0"
    unfolding c4 row_cmd_bits by simp_all
  have w: "edgx_sched_write_entry dev c s io tab r gs t = Some (edgx_sched_hw_transfer_wait dev ?b io4 500)"
    using g by (simp add: edgx_sched_write_entry_def edgx_wr16_def io4_def Let_def)
  have "edgx_sched_hw_transfer_wait dev ?b io4 500 = (0, dev io4)"
    using row_memoryD(1,2) [where io = io4, OF m t4(1)]
    by (subst edgx_sched_hw_transfer_wait.simps) (simp add: edgx_rd16_def)
  moreover have "rows (dev io4) = (rows io)(row_key s tab r := (gs, ?cyc))"
    using row_memoryD(3) [where io = io4, OF m t4(1) t4(2)] by (simp only: c4 row_cmd_bits r4 row_key_def)
  ultimately show thesis using w that by simp
qed

lemma read_entry_mem:
  assumes m: "row_memory dev (com_iobase c) rows"
    and t: "tab < length (op_tabs s)" "r < unat (list_len (op_tabs s ! tab))"
  obtains io' where "edgx_sched_read_entry dev c s io tab r =
      Some (Inr (fst (rows io (row_key s tab r)),
                 ucast (snd (rows io (row_key s tab r))) * hw_granularity_ns (limits c)), io')"
    "rows io' = rows io"
proof -
  let ?b = "com_iobase c"
  define io2 where "io2 = io(?b + 0x1002 := of_nat r AND 0x3ff, ?b + 0x1000 := sched_row_cmd s tab OR 0x8000)"
  have c2: "io2 (?b + 0x1000) = sched_row_cmd s tab OR 0x8000" "io2 (?b + 0x1002) = of_nat r AND 0x3ff"
    by (simp_all add: io2_def)
  have r2: "rows io2 = rows io" by (simp add: io2_def row_memory_keep [OF m])
  have t2: "io2 (?b + 0x1000) AND 0x8000 \<noteq> 0" "io2 (?b + 0x1000) AND 0x4000 = 0"
    unfolding c2 row_cmd_bits by simp_all
  have "edgx_sched_hw_transfer_wait dev ?b io2 500 = (0, dev io2)"
    using row_memoryD(1,2) [where io = io2, OF m t2(1)]
    by (subst edgx_sched_hw_transfer_wait.simps) (simp add: edgx_rd16_def)
  then have w: "edgx_sched_read_entry dev c s io tab r =
      Some (Inr (dev io2 (?b + 0x1010), ucast (dev io2 (?b + 0x1018)) * hw_granularity_ns (limits c)), dev io2)"
    using t by (simp add: edgx_sched_read_entry_def edgx_wr16_def edgx_rd16_def io2_def Let_def)
  have "rows (dev io2) = rows io \<and> (dev io2 (?b + 0x1010), dev io2 (?b + 0x1018)) = rows io (row_key s tab r)"
    using row_memoryD(4) [where io = io2, OF m t2] by (simp only: c2 row_cmd_bits r2 row_key_def)
  then show thesis using w that [of "dev io2"] by (metis fst_conv snd_conv)
qed

section \<open>Whole lists\<close>

definition store_row ::
  "sched \<Rightarrow> nat \<Rightarrow> u32 \<Rightarrow> nat \<times> u16 \<times> u32 \<Rightarrow> (u16 \<times> u16 \<Rightarrow> u16 \<times> u16) \<Rightarrow> u16 \<times> u16 \<Rightarrow> u16 \<times> u16" where
  "store_row s tab gran r mem = mem(row_key s tab (fst r) := (fst (snd r), ucast (snd (snd r) div gran)))"

lemma write_seq_mem:
  assumes m: "row_memory dev (com_iobase c) rows" and g: "hw_granularity_ns (limits c) \<noteq> 0"
  shows "\<exists>io'. write_seq dev c s tab rs io = Some (0, io')
           \<and> rows io' = fold (store_row s tab (hw_granularity_ns (limits c))) rs (rows io)"
proof (induction rs arbitrary: io)
  case Nil
  show ?case by simp
next
  case (Cons r rs)
  obtain i gs t where r: "r = (i, gs, t)" by (cases r)
  obtain io1 where w: "edgx_sched_write_entry dev c s io tab i gs t = Some (0, io1)"
    "rows io1 = (rows io)(row_key s tab i := (gs, ucast (t div hw_granularity_ns (limits c))))"
    by (rule write_entry_mem [OF m g])
  have "store_row s tab (hw_granularity_ns (limits c)) r (rows io) = rows io1"
    by (simp add: store_row_def r w(2))
  with Cons.IH [of io1] w(1) show ?case by (simp add: r)
qed

lemma store_rows_other:
  "\<forall>r \<in> set rs. row_key s tab (fst r) \<noteq> k \<Longrightarrow> fold (store_row s tab gran) rs mem k = mem k"
  by (induction rs arbitrary: mem) (auto simp: store_row_def)

lemma store_rows_at:
  assumes "distinct (map fst rs)" "\<forall>r \<in> set rs. fst r < 1024" "(i, gs, t) \<in> set rs"
  shows "fold (store_row s tab gran) rs mem (row_key s tab i) = (gs, ucast (t div gran))"
  using assms
proof (induction rs arbitrary: mem)
  case Nil
  then show ?case by simp
next
  case (Cons r rs)
  show ?case
  proof (cases "(i, gs, t) \<in> set rs")
    case True
    with Cons show ?thesis by simp
  next
    case False
    with Cons.prems have r: "r = (i, gs, t)" by auto
    have "row_key s tab (fst x) \<noteq> row_key s tab i" if "x \<in> set rs" for x
    proof
      assume "row_key s tab (fst x) = row_key s tab i"
      moreover have "fst x < 1024" "i < 1024" using Cons.prems(2) that r by auto
      ultimately have "fst x = i" by (intro row_key_inj)
      with Cons.prems(1) r that show False by force
    qed
    then show ?thesis by (simp add: store_rows_other r) (simp add: store_row_def)
  qed
qed

lemma read_rows_mem:
  assumes m: "row_memory dev (com_iobase c) rows" and t: "tab < length (op_tabs s)"
  shows "row + length bs \<le> unat (list_len (op_tabs s ! tab)) \<Longrightarrow>
     \<forall>k < length bs. fst (rows io (row_key s tab (row + k))) AND edgx_st_get_hold st = 0 \<Longrightarrow>
     \<exists>io'. read_rows dev c s st tab bs row False prev prev_time io = Some (map (\<lambda>k.
        entry_of_row st False
          (if k = 0 then prev_time
           else ucast (snd (rows io (row_key s tab (row + k - 1)))) * hw_granularity_ns (limits c))
          (fst (rows io (row_key s tab (row + k))))
          (ucast (snd (rows io (row_key s tab (row + k)))) * hw_granularity_ns (limits c)) (bs ! k))
        [0..<length bs], io') \<and> rows io' = rows io"
proof (induction bs arbitrary: row prev prev_time io)
  case Nil
  then show ?case by simp
next
  case (Cons b bs)
  let ?t = "ucast (snd (rows io (row_key s tab row))) * hw_granularity_ns (limits c)"
  let ?g = "fst (rows io (row_key s tab row))"
  from Cons.prems(1) have r: "row < unat (list_len (op_tabs s ! tab))" by simp
  obtain io1 where w: "edgx_sched_read_entry dev c s io tab row = Some (Inr (?g, ?t), io1)"
    and ri: "rows io1 = rows io"
    by (rule read_entry_mem [OF m t r])
  from Cons.prems(2) have h0: "?g AND edgx_st_get_hold st = 0" by (auto dest: spec [of _ 0])
  have h: "\<forall>k < length bs. fst (rows io1 (row_key s tab (Suc row + k))) AND edgx_st_get_hold st = 0"
    using Cons.prems(2) ri by (auto dest: spec [of _ "Suc _"])
  from Cons.prems(1) have l: "Suc row + length bs \<le> unat (list_len (op_tabs s ! tab))" by simp
  have upt: "[0..<length (b # bs)] = 0 # map Suc [0..<length bs]"
    by (simp add: upt_conv_Cons map_Suc_upt del: upt_Suc)
  have shift: "(if Suc k = 0 then prev_time
           else ucast (snd (rows io (row_key s tab (row + Suc k - 1)))) * hw_granularity_ns (limits c))
      = (if k = 0 then ?t else ucast (snd (rows io (row_key s tab (Suc row + k - 1)))) * hw_granularity_ns (limits c))" for k
    by (cases k) simp_all
  obtain io2 where "read_rows dev c s st tab bs (Suc row) False (Some (?g, ?t)) ?t io1 = Some (map (\<lambda>k.
        entry_of_row st False
          (if k = 0 then ?t
           else ucast (snd (rows io (row_key s tab (Suc row + k - 1)))) * hw_granularity_ns (limits c))
          (fst (rows io (row_key s tab (Suc row + k))))
          (ucast (snd (rows io (row_key s tab (Suc row + k)))) * hw_granularity_ns (limits c)) (bs ! k))
        [0..<length bs], io2)" and "rows io2 = rows io"
    using Cons.IH [OF l h, of "Some (?g, ?t)" ?t] ri by auto
  then show ?case
    unfolding upt list.map map_map o_def shift
    by (simp add: w h0)
qed

text \<open>Times that are multiples of the granularity survive the row's 16-bit cycle count.\<close>

lemma cycles_exact:
  fixes t gran :: u32
  assumes "gran \<noteq> 0" "unat gran dvd unat t" "unat t \<le> 65535 * unat gran"
  shows "ucast (ucast (t div gran) :: u16) * gran = t"
proof -
  have pos: "0 < unat gran" using assms(1) by (simp add: unat_gt_0)
  obtain q where q: "unat t = unat gran * q" using assms(2) by (rule dvdE)
  have "unat gran * q \<le> unat gran * 65535" using assms(3) q by (simp add: mult.commute)
  with pos have le: "q \<le> 65535" by simp
  have td: "t div gran = of_nat q"
    by (rule unsigned_word_eqI [where ?'a = nat]) (use q pos le in \<open>simp add: unat_div unat_of_nat\<close>)
  have "ucast (ucast (of_nat q :: u32) :: u16) = (of_nat q :: u32)"
    using le by (simp add: unsigned_of_nat take_bit_nat_eq_self)
  moreover have "of_nat q * gran = t"
  proof (rule unsigned_word_eqI [where ?'a = nat])
    have "unat gran * q < 4294967296" using unat_u32_bound [of t] q by simp
    then show "unat (of_nat q * gran) = unat t"
      using le q by (simp add: unat_word_ariths unat_of_nat mult.commute)
  qed
  ultimately show ?thesis by (simp add: td)
qed

definition end_ns :: "tab_entry list \<Rightarrow> nat \<Rightarrow> nat" where
  "end_ns es k = sum_list (map (\<lambda>e. unat (time_interval e)) (take k es))"

lemma end_ns_le: "end_ns es k \<le> end_ns es (length es)"
proof -
  have "end_ns es (length es) = end_ns es k + sum_list (map (\<lambda>e. unat (time_interval e)) (drop k es))"
    unfolding end_ns_def using append_take_drop_id [of k es] by (metis map_append order_refl sum_list_append take_all)
  then show ?thesis by simp
qed

lemma time_at_unat:
  "end_ns es (Suc k) < 4294967296 \<Longrightarrow> unat (time_at es k) = end_ns es (Suc k)"
proof -
  have "unat (sum_list (map time_interval xs)) = sum_list (map (\<lambda>e. unat (time_interval e)) xs)"
    if "sum_list (map (\<lambda>e. unat (time_interval e)) xs) < 4294967296" for xs :: "tab_entry list"
    using that by (induction xs) (simp_all add: unat_word_ariths)
  then show "end_ns es (Suc k) < 4294967296 \<Longrightarrow> unat (time_at es k) = end_ns es (Suc k)"
    by (simp add: time_at_def end_ns_def)
qed

text \<open>A list that the rows can hold without loss: only set operations, gates and times that exist.\<close>

definition storable :: "st \<Rightarrow> nat \<Rightarrow> tab_entry list \<Rightarrow> bool" where
  "storable st gran es \<longleftrightarrow> es \<noteq> [] \<and> length es \<le> 1023
     \<and> (\<forall>e \<in> set es. operation_name e = OP_SET_GSTATES
          \<and> (ucast (gate_states e) :: u16) AND edgx_st_get_hold st = 0
          \<and> (ucast (gate_states e) :: u16) AND ucast (edgx_st_get_gate_mask st) = ucast (gate_states e)
          \<and> gran dvd unat (time_interval e))
     \<and> end_ns es (length es) \<le> 65535 * gran \<and> end_ns es (length es) < 4294967296"

lemma storable_time:
  assumes "storable st (unat gran) es" "gran \<noteq> 0" "k < length es"
  shows "ucast (ucast (time_at es k div gran) :: u16) * gran = time_at es k"
proof (rule cycles_exact [OF assms(2)])
  have le: "end_ns es (Suc k) \<le> end_ns es (length es)" by (rule end_ns_le)
  have u: "unat (time_at es k) = end_ns es (Suc k)"
    by (rule time_at_unat) (use assms(1) le in \<open>simp add: storable_def\<close>)
  show "unat (time_at es k) \<le> 65535 * unat gran"
    using assms(1) le u by (simp add: storable_def)
  show "unat gran dvd unat (time_at es k)"
    unfolding u end_ns_def
  proof -
    have "(\<forall>e \<in> set xs. d dvd unat (time_interval e)) \<Longrightarrow> d dvd sum_list (map (\<lambda>e. unat (time_interval e)) xs)"
      for d and xs :: "tab_entry list"
      by (induction xs) auto
    then show "unat gran dvd sum_list (map (\<lambda>e. unat (time_interval e)) (take (Suc k) es))"
      using assms(1) by (auto simp: storable_def dest: in_set_takeD)
  qed
qed

lemma no_hold_ops: "\<forall>e \<in> set es. operation_name e = 0 \<Longrightarrow> fold (next_hold st) es h = h"
  by (induction es arbitrary: h) (simp_all add: next_hold_def)

lemma storable_plan:
  assumes "storable st gran es"
  shows "planned_rows st es = map (\<lambda>k. (k, ucast (gate_states (es ! k)), time_at es k)) [0..<length es]
           @ [(length es, ucast (gate_states (last es)), time_at es (length es - 1))]"
proof -
  have "hold_at st es k = 0" for k
    unfolding hold_at_def by (rule no_hold_ops) (use assms in \<open>auto simp: storable_def dest: in_set_takeD\<close>)
  then show ?thesis by (simp add: planned_rows_def plain_row_def)
qed

lemma storable_mem:
  assumes "storable st gran' es" "k < length es"
  shows "fold (store_row s tab gran) (planned_rows st es) mem (row_key s tab k)
           = (ucast (gate_states (es ! k)), ucast (time_at es k div gran))"
proof (rule store_rows_at)
  have n: "length es \<le> 1023" using assms(1) by (simp add: storable_def)
  have fst: "map fst (planned_rows st es) = [0..<Suc (length es)]"
    unfolding storable_plan [OF assms(1)] by (simp add: o_def)
  then show "distinct (map fst (planned_rows st es))" by simp
  have "fst r \<in> set (map fst (planned_rows st es))" if "r \<in> set (planned_rows st es)" for r
    using that by auto
  with n show "\<forall>r \<in> set (planned_rows st es). fst r < 1024" unfolding fst by force
  show "(k, ucast (gate_states (es ! k)), time_at es k) \<in> set (planned_rows st es)"
    unfolding storable_plan [OF assms(1)] using assms(2) by auto
qed

text \<open>The operational list that a row memory with the planned rows gives back.\<close>

lemma entry_of_stored_row:
  assumes st: "storable st gran es" and k: "k < length es"
  shows "entry_of_row st False (if k = 0 then 0 else time_at es (k - 1)) (ucast (gate_states (es ! k))) (time_at es k) b
           = (es ! k)\<lparr>padding := padding b\<rparr>"
proof -
  have e: "es ! k \<in> set es" using k by simp
  have op: "operation_name (es ! k) = 0"
    and h: "(ucast (gate_states (es ! k)) :: u16) AND edgx_st_get_hold st = 0"
    and gm: "(ucast (gate_states (es ! k)) :: u16) AND ucast (edgx_st_get_gate_mask st) = ucast (gate_states (es ! k))"
    using st e by (auto simp: storable_def)
  have g: "(ucast (ucast (gate_states (es ! k)) AND ucast (edgx_st_get_gate_mask st) :: u16) :: u8) = gate_states (es ! k)"
    unfolding gm by (rule bit_word_eqI) (auto simp: bit_simps)
  have t: "time_at es k - (if k = 0 then 0 else time_at es (k - 1)) = time_interval (es ! k)"
    using k by (cases k) (simp_all add: time_at_def take_Suc_conv_app_nth)
  show ?thesis unfolding entry_of_row_def h g t Let_def by (simp add: op)
qed

lemma read_planned:
  assumes m: "row_memory dev (com_iobase c) rows" and g: "hw_granularity_ns (limits c) \<noteq> 0"
    and st: "storable st (unat (hw_granularity_ns (limits c))) es"
    and tab: "tab < length (op_tabs s)" "unat (list_len (op_tabs s ! tab)) = length es"
    and mem: "rows io = fold (store_row s tab (hw_granularity_ns (limits c))) (planned_rows st es) mem"
    and buf: "length buf = length es"
  shows "\<exists>io'. read_rows dev c s st tab buf 0 False None 0 io
           = Some (map (\<lambda>(e, b). e\<lparr>padding := padding b\<rparr>) (zip es buf), io')"
proof -
  let ?gran = "hw_granularity_ns (limits c)"
  have row: "rows io (row_key s tab k) = (ucast (gate_states (es ! k)), ucast (time_at es k div ?gran))"
    if "k < length es" for k
    unfolding mem by (rule storable_mem [OF st that])
  have h: "\<forall>k < length buf. fst (rows io (row_key s tab (0 + k))) AND edgx_st_get_hold st = 0"
    using st buf by (auto simp: row storable_def)
  have l: "0 + length buf \<le> unat (list_len (op_tabs s ! tab))" using tab(2) buf by simp
  have eq: "map (\<lambda>k. entry_of_row st False
          (if k = 0 then 0 else ucast (snd (rows io (row_key s tab (0 + k - 1)))) * ?gran)
          (fst (rows io (row_key s tab (0 + k))))
          (ucast (snd (rows io (row_key s tab (0 + k)))) * ?gran) (buf ! k)) [0..<length buf]
      = map (\<lambda>(e, b). e\<lparr>padding := padding b\<rparr>) (zip es buf)"
  proof (rule nth_equalityI)
    fix k assume "k < length (map (\<lambda>k. entry_of_row st False
          (if k = 0 then 0 else ucast (snd (rows io (row_key s tab (0 + k - 1)))) * ?gran)
          (fst (rows io (row_key s tab (0 + k))))
          (ucast (snd (rows io (row_key s tab (0 + k)))) * ?gran) (buf ! k)) [0..<length buf])"
    then have k: "k < length es" using buf by simp
    have prev: "(if k = 0 then 0 else ucast (snd (rows io (row_key s tab (0 + k - 1)))) * ?gran)
        = (if k = 0 then 0 else time_at es (k - 1))"
      using k by (simp add: row storable_time [OF st g])
    show "map (\<lambda>k. entry_of_row st False
          (if k = 0 then 0 else ucast (snd (rows io (row_key s tab (0 + k - 1)))) * ?gran)
          (fst (rows io (row_key s tab (0 + k))))
          (ucast (snd (rows io (row_key s tab (0 + k)))) * ?gran) (buf ! k)) [0..<length buf] ! k
      = map (\<lambda>(e, b). e\<lparr>padding := padding b\<rparr>) (zip es buf) ! k"
      using k buf prev entry_of_stored_row [OF st k, of "buf ! k"]
      by (cases "k = 0") (simp_all add: row storable_time [OF st g])
  qed (use buf in simp)
  from read_rows_mem [OF m tab(1) l h, of None 0] eq show ?thesis by auto
qed

lemma prepare_config_succeeds:
  assumes m: "row_memory dev (com_iobase (sys_com y)) rows" and g: "hw_granularity_ns (limits (sys_com y)) \<noteq> 0"
    and free: "0 \<le> edgx_sched_get_free_tab (sys_io y) (sys_sd y)"
    and n: "0 < n" "n \<le> length es"
    and rate: "denom (cycle_time (admin_tab (sys_sd y))) \<noteq> 0" "nr_queues (sys_client y) \<le> length (tr_rate (sys_client y))"
  obtains y1 where "edgx_st_prepare_config dev y es n = Some (0, y1)"
    "sys_com y1 = sys_com y" "sys_sd y1 = sys_sd y" "nr_queues (sys_client y1) = nr_queues (sys_client y)"
    "rows (sys_io y1) = fold (store_row (sys_sd y) (nat (edgx_sched_get_free_tab (sys_io y) (sys_sd y)))
        (hw_granularity_ns (limits (sys_com y)))) (planned_rows (sys_client y) (take n es)) (rows (sys_io y))"
proof -
  let ?tab = "nat (edgx_sched_get_free_tab (sys_io y) (sys_sd y))"
  obtain io1 where w: "write_seq dev (sys_com y) (sys_sd y) ?tab (planned_rows (sys_client y) (take n es)) (sys_io y) = Some (0, io1)"
    and mem: "rows io1 = fold (store_row (sys_sd y) ?tab (hw_granularity_ns (limits (sys_com y))))
                (planned_rows (sys_client y) (take n es)) (rows (sys_io y))"
    using write_seq_mem [OF m g] by blast
  obtain y1 where r: "edgx_st_calc_trans_rate (take n es) n (y\<lparr>sys_io := io1\<rparr>) = Some y1"
    and y1: "sys_com y1 = sys_com y" "sys_sd y1 = sys_sd y" "sys_io y1 = io1"
      "nr_queues (sys_client y1) = nr_queues (sys_client y)"
    using rate n by (auto simp: edgx_st_calc_trans_rate_def rational_to_nsec_value Let_def)
  show thesis
    using prepare_config_writes_planned_rows_gen [OF free n, of dev] y1 mem
    by (intro that [of y1]) (simp_all add: w r)
qed

text \<open>
  Property C6. A control list that the rows can hold without loss survives the hardware: preparing
  it succeeds, and once the hardware has switched to the table that was free, reading the
  operational list back gives the entries that were written (with the reader's padding bytes).
\<close>

theorem oper_list_roundtrip:
  assumes m: "row_memory dev (com_iobase (sys_com y)) rows" and g: "hw_granularity_ns (limits (sys_com y)) \<noteq> 0"
    and st: "storable (sys_client y) (unat (hw_granularity_ns (limits (sys_com y)))) es"
    and free: "0 \<le> edgx_sched_get_free_tab (sys_io y) (sys_sd y)"
    and tab: "tab = nat (edgx_sched_get_free_tab (sys_io y) (sys_sd y))" "tab < length (op_tabs (sys_sd y))"
      "unat (list_len (op_tabs (sys_sd y) ! tab)) = length es"
    and rate: "denom (cycle_time (admin_tab (sys_sd y))) \<noteq> 0" "nr_queues (sys_client y) \<le> length (tr_rate (sys_client y))"
    and buf: "length buf = length es"
  shows "\<exists>y1. edgx_st_prepare_config dev y es (length es) = Some (0, y1)
     \<and> (\<forall>io. rows io = rows (sys_io y1) \<and> edgx_sched_get_used_tab io (sys_sd y1) = int tab \<longrightarrow>
          (\<exists>y2. edgx_st_get_oper_ctrl_list dev 0 buf (y1\<lparr>sys_io := io\<rparr>)
             = Some (Inr (map (\<lambda>(e, b). e\<lparr>padding := padding b\<rparr>) (zip es buf)), y2)))"
proof -
  let ?c = "sys_com y" and ?s = "sys_sd y" and ?st = "sys_client y"
  have len: "0 < length es" "length es \<le> length es" using st by (simp_all add: storable_def)
  obtain y1 where p: "edgx_st_prepare_config dev y es (length es) = Some (0, y1)"
    and y1: "sys_com y1 = ?c" "sys_sd y1 = ?s" "nr_queues (sys_client y1) = nr_queues ?st"
    and mem: "rows (sys_io y1) = fold (store_row ?s tab (hw_granularity_ns (limits ?c))) (planned_rows ?st es) (rows (sys_io y))"
    by (rule prepare_config_succeeds [OF m g free len rate]) (simp add: tab(1))
  have st': "storable (sys_client y1) (unat (hw_granularity_ns (limits ?c))) es"
    using st by (simp add: storable_def edgx_st_get_hold_def edgx_st_get_gate_mask_def y1(3))
  have plan: "planned_rows (sys_client y1) es = planned_rows ?st es"
    unfolding storable_plan [OF st] storable_plan [OF st'] ..
  have "\<exists>y2. edgx_st_get_oper_ctrl_list dev 0 buf (y1\<lparr>sys_io := io\<rparr>)
             = Some (Inr (map (\<lambda>(e, b). e\<lparr>padding := padding b\<rparr>) (zip es buf)), y2)"
    if io: "rows io = rows (sys_io y1)" "edgx_sched_get_used_tab io (sys_sd y1) = int tab" for io
  proof -
    have "rows io = fold (store_row ?s tab (hw_granularity_ns (limits ?c))) (planned_rows (sys_client y1) es) (rows (sys_io y))"
      using io(1) mem by (simp add: plan y1)
    from read_planned [OF m g st' tab(2,3) this buf] obtain io' where
      "read_rows dev ?c ?s (sys_client y1) tab buf 0 False None 0 io
         = Some (map (\<lambda>(e, b). e\<lparr>padding := padding b\<rparr>) (zip es buf), io')" by blast
    with io(2) show ?thesis by (simp add: edgx_st_get_oper_ctrl_list_def y1 Let_def)
  qed
  with p show ?thesis by blast
qed

section \<open>The table in use\<close>

lemma row_key_tab: "row_key s 0 i \<noteq> row_key s 1 j"
proof
  have b: "(ucast (x AND 0xf) :: u16) AND 0x100 = 0" for x :: u32
    by (simp add: unsigned_and_eq and.assoc)
  assume "row_key s 0 i = row_key s 1 j"
  then have "sched_row_cmd s 0 AND 0x100 = sched_row_cmd s 1 AND 0x100" by (simp only: row_key_def prod.inject)
  then show False by (simp add: sched_row_cmd_def bit.conj_disj_distrib2 b)
qed

lemma write_seq_other_table:
  assumes m: "row_memory dev (com_iobase c) rows" and g: "hw_granularity_ns (limits c) \<noteq> 0"
    and w: "write_seq dev c s tab rs io = Some (ret, io')" and t: "tab < 2" "u < 2" "tab \<noteq> u"
  shows "rows io' (row_key s u k) = rows io (row_key s u k)"
proof -
  from write_seq_mem [OF m g, of s tab rs io] w
  have r: "rows io' = fold (store_row s tab (hw_granularity_ns (limits c))) rs (rows io)" by auto
  have "tab = 0 \<and> u = 1 \<or> tab = 1 \<and> u = 0" using t by auto
  then have "row_key s tab i \<noteq> row_key s u k" for i
    using row_key_tab [of s i k] row_key_tab [of s k i] by auto
  then show ?thesis unfolding r by (simp add: store_rows_other)
qed

lemma set_pending_keeps:
  assumes "\<And>io k v. 0x800 \<le> k \<Longrightarrow> k < 0xa00 \<Longrightarrow> rows (io(base + k := v)) = rows io" "tab < 2"
  shows "rows (edgx_sched_hw_set_pending io base tab bt cyc) = rows io"
proof -
  have "tab = 0 \<or> tab = 1" using assms(2) by auto
  then show ?thesis
    by (auto simp: edgx_sched_hw_set_pending_def edgx_wr16_def Let_def assms(1))
qed

text \<open>The registers of one table: flags, start time and cycle time; and the four registers of a transfer.\<close>

definition table_regs :: "nat \<Rightarrow> nat \<Rightarrow> nat set" where
  "table_regs base u = {base + u * 0x100 + 0x800 ..< base + u * 0x100 + 0x900}"

definition transfer_regs :: "nat \<Rightarrow> nat set" where
  "transfer_regs base = {base + 0x1000, base + 0x1002, base + 0x1010, base + 0x1018}"

lemma transfer_wait_cell:
  "(\<And>io. dev io a = io a) \<Longrightarrow> edgx_sched_hw_transfer_wait dev base io n = (r, io') \<Longrightarrow> io' a = io a"
  by (induction dev base io n rule: edgx_sched_hw_transfer_wait.induct)
    (subst (asm) (2) edgx_sched_hw_transfer_wait.simps, auto simp: Let_def split: if_splits)

lemma write_seq_cell:
  assumes dev: "\<And>io. dev io a = io a" and a: "a \<notin> transfer_regs (com_iobase c)"
  shows "write_seq dev c s tab rs io = Some (r, io') \<Longrightarrow> io' a = io a"
proof (induction rs arbitrary: io)
  case (Cons x rs)
  obtain i g t where x: "x = (i, g, t)" by (cases x)
  from Cons.prems obtain r1 io1 where w: "edgx_sched_write_entry dev c s io tab i g t = Some (r1, io1)"
    and rest: "(if r1 \<noteq> 0 then Some (r1, io1) else write_seq dev c s tab rs io1) = Some (r, io')"
    by (auto simp: x elim: bind_eq_SomeE)
  have wait: "io2 a = io3 a" if "edgx_sched_hw_transfer_wait dev base io3 n = (r2, io2)" for base io3 n r2 io2
    by (rule transfer_wait_cell [OF _ that]) (rule dev)
  have "io1 a = io a"
    using w a by (auto simp: edgx_sched_write_entry_def edgx_wr16_def transfer_regs_def Let_def
        dest!: wait elim!: bind_eq_SomeE)
  then show ?case using rest Cons.IH by (auto split: if_splits)
qed simp

lemma set_pending_cell:
  assumes "a \<in> table_regs base u" "tab < 2" "u < 2" "tab \<noteq> u"
  shows "edgx_sched_hw_set_pending io base tab bt cyc a = io a"
proof -
  have "tab = 0 \<and> u = 1 \<or> tab = 1 \<and> u = 0" using assms(2-4) by auto
  then show ?thesis using assms(1) by (auto simp: table_regs_def edgx_sched_hw_set_pending_def edgx_wr16_def Let_def)
qed

text \<open>
  Property C7. Submitting a configuration leaves the table that the hardware is using alone,
  whether the submission succeeds or not: the driver's record of it does not change, none of its
  rows changes, and none of its registers (flags, start time, cycle time) is written, i.e. a register
  that the hardware itself leaves alone while it transfers rows has the same value afterwards. The
  device keeps the rows in a memory that the registers of the two tables are not part of.
\<close>

theorem config_change_keeps_used_table:
  assumes m: "row_memory dev (com_iobase (sys_com y)) rows" and g: "hw_granularity_ns (limits (sys_com y)) \<noteq> 0"
    and regs: "\<And>io k v. 0x800 \<le> k \<Longrightarrow> k < 0xa00 \<Longrightarrow> rows (io(iobase (sys_sd y) + k := v)) = rows io"
    and used: "edgx_sched_get_used_tab (sys_io y) (sys_sd y) = int u"
    and cc: "edgx_sched_config_change (edgx_st_sched_ops dev) y = Some (r, y')"
  shows "op_tabs (sys_sd y') ! u = op_tabs (sys_sd y) ! u
     \<and> rows (sys_io y') (row_key (sys_sd y) u k) = rows (sys_io y) (row_key (sys_sd y) u k)
     \<and> (\<forall>a \<in> table_regs (iobase (sys_sd y)) u. a \<notin> transfer_regs (com_iobase (sys_com y))
          \<and> (\<forall>io. dev io a = io a) \<longrightarrow> sys_io y' a = sys_io y a)"
proof (cases "edgx_sched_get_free_tab (sys_io y) (sys_sd y) < 0")
  case True
  with cc show ?thesis by (simp add: edgx_sched_config_change_def Let_def)
next
  case False
  define tab where "tab = nat (edgx_sched_get_free_tab (sys_io y) (sys_sd y))"
  have t: "tab < 2" using free_tab_range [OF False] by (simp add: tab_def)
  have u: "u < 2" using used_tab_range [of "sys_io y" "sys_sd y"] used by simp
  have tu: "tab \<noteq> u" using free_not_used [of "sys_io y" "sys_sd y"] False used by (auto simp: tab_def)
  define y0 where "y0 = set_sd (\<lambda>s. s\<lparr>op_tabs := (op_tabs s)[tab := admin_tab (sys_sd y)\<lparr>entries := None\<rparr>]\<rparr>) y"
  have y0: "sys_com y0 = sys_com y" "sys_io y0 = sys_io y" "iobase (sys_sd y0) = iobase (sys_sd y)"
    "op_tabs (sys_sd y0) ! u = op_tabs (sys_sd y) ! u"
    using tu by (simp_all add: y0_def)
  have key: "row_key (sys_sd y0) u k = row_key (sys_sd y) u k" for k
    by (simp add: row_key_def sched_row_cmd_def y0_def)
  have free0: "edgx_sched_get_free_tab (sys_io y0) (sys_sd y0) = int tab"
    using False by (simp add: edgx_sched_get_free_tab_def y0 tab_def)
  obtain es z n sn where p0: "prepare_config (edgx_st_sched_ops dev) y0 es (unat (list_len (admin_tab (sys_sd y)))) = Some (r, z)"
    and y': "y' = (if r \<noteq> 0 then z
        else z\<lparr>sys_io := edgx_sched_hw_set_pending (sys_io z) (iobase (sys_sd z)) tab (start_time (sys_sd z)) (word_of_int n)\<rparr>)"
    by (rule config_change_cases [OF cc False, folded tab_def, folded y0_def])
  from p0 have p: "edgx_st_prepare_config dev y0 es (unat (list_len (admin_tab (sys_sd y)))) = Some (r, z)"
    by (simp add: edgx_st_sched_ops_def)
  let ?n = "unat (list_len (admin_tab (sys_sd y)))"
  have n: "0 < ?n" "?n \<le> length es"
    using p free0 by (auto simp: edgx_st_prepare_config_def Let_def split: if_splits)
  note same = prepare_config_same [OF p]
  have z: "sys_sd z = sys_sd y0" using same by (simp add: same_sched_def)
  obtain ret io1 where w: "write_seq dev (sys_com y0) (sys_sd y0) tab (planned_rows (sys_client y0) (take ?n es)) (sys_io y0) = Some (ret, io1)"
    and zio: "sys_io z = io1"
    using p prepare_config_writes_planned_rows_gen [OF _ n, of y0 dev] free0
    by (auto split: option.splits if_splits dest!: calc_trans_rate_same)
  have "rows io1 (row_key (sys_sd y0) u k) = rows (sys_io y0) (row_key (sys_sd y0) u k)"
    using write_seq_other_table [OF _ _ w t u tu] m g y0 by simp
  moreover have "rows (sys_io y') = rows (sys_io z)"
    unfolding y' z y0(3) by (simp add: set_pending_keeps [OF regs t])
  moreover have "sys_io y' a = sys_io y a" if "a \<in> table_regs (iobase (sys_sd y)) u"
    "a \<notin> transfer_regs (com_iobase (sys_com y))" "\<And>io. dev io a = io a" for a
  proof -
    have "io1 a = sys_io y0 a" by (rule write_seq_cell [OF _ _ w]) (use that y0 in simp_all)
    then have "io1 a = sys_io y a" by (simp add: y0)
    then show ?thesis unfolding y' z y0(3) using set_pending_cell [OF that(1) t u tu] by (simp add: zio)
  qed
  ultimately show ?thesis using y0 by (simp add: y' z zio key)
qed

section \<open>A concrete row memory\<close>

definition row_adr :: "u16 \<times> u16 \<Rightarrow> nat" where
  "row_adr k = 0x200000 + 2 * (unat (fst k) * 65536 + unat (snd k))"

definition demo_rows :: "iomem \<Rightarrow> u16 \<times> u16 \<Rightarrow> u16 \<times> u16" where
  "demo_rows io k = (io (row_adr k), io (row_adr k + 1))"

definition demo_dev :: device where
  "demo_dev io =
     (let cmd = io 0x1000; k = (cmd AND 0x10f, io 0x1002)
      in if cmd AND 0x8000 = 0 then io
         else if cmd AND 0x4000 \<noteq> 0
              then io(row_adr k := io 0x1010, row_adr k + 1 := io 0x1018, 0x1000 := cmd AND 0x10f)
              else io(0x1010 := io (row_adr k), 0x1018 := io (row_adr k + 1), 0x1000 := cmd AND 0x10f))"

lemma row_adr_eq: "row_adr k = row_adr k' \<longleftrightarrow> k = k'"
proof
  assume e: "row_adr k = row_adr k'"
  have b: "unat (snd k) < 65536" "unat (snd k') < 65536"
    using unsigned_less [of "snd k", where ?'a = nat] unsigned_less [of "snd k'", where ?'a = nat] by simp_all
  from e have s: "unat (fst k) * 65536 + unat (snd k) = unat (fst k') * 65536 + unat (snd k')"
    by (simp add: row_adr_def)
  have dm: "(a * 65536 + c) div 65536 = a" "(a * 65536 + c) mod 65536 = c" if "c < 65536" for a c :: nat
    using that by simp_all
  have "unat (fst k) = unat (fst k')"
    using arg_cong [OF s, of "\<lambda>n. n div 65536"] unfolding dm(1) [OF b(1)] dm(1) [OF b(2)] .
  moreover have "unat (snd k) = unat (snd k')"
    using arg_cong [OF s, of "\<lambda>n. n mod 65536"] unfolding dm(2) [OF b(1)] dm(2) [OF b(2)] .
  ultimately show "k = k'" by (simp add: prod_eq_iff word_eq_iff_unsigned [where ?'a = nat])
qed simp

lemma row_adr_apart: "row_adr k \<noteq> Suc (row_adr k')" "Suc (row_adr k') \<noteq> row_adr k"
  unfolding row_adr_def by presburger+

lemma row_adr_ge: "0x200000 \<le> row_adr k"
  by (simp add: row_adr_def)

lemma demo_rows_low: "a < 0x200000 \<Longrightarrow> demo_rows (io(a := v)) = demo_rows io"
proof (rule ext)
  fix k
  assume "a < 0x200000"
  then have "row_adr k \<noteq> a" "row_adr k + 1 \<noteq> a" using row_adr_ge [of k] by linarith+
  then show "demo_rows (io(a := v)) k = demo_rows io k" by (simp add: demo_rows_def)
qed

lemma demo_row_memory: "row_memory demo_dev 0 demo_rows"
proof -
  note low = demo_rows_low
  have put: "demo_rows (io(row_adr k := x, Suc (row_adr k) := y)) = (demo_rows io)(k := (x, y))" for io k x y
    by (rule ext) (simp add: demo_rows_def row_adr_eq row_adr_apart)
  have m: "(x AND 0x10f) AND 0x8000 = (0 :: u16)" "(x AND 0x10f) AND 0x2000 = (0 :: u16)" for x
    by (simp_all add: and.assoc)
  show ?thesis
    unfolding row_memory_def demo_dev_def Let_def
    by (auto simp: low put m demo_rows_def [of _ "(_, _)"])
qed

lemma demo_storable: "storable demo_st 320 [demo_row 0 3, demo_row 0 5]"
  by (simp add: storable_def demo_row_def demo_st_def edgx_st_get_hold_def edgx_st_get_gate_mask_def end_ns_def)

definition demo_full :: st_sys where
  "demo_full = demo_sys\<lparr>sys_sd := demo_sched\<lparr>
     op_tabs := [zero_table\<lparr>list_len := 2\<rparr>, zero_table\<lparr>list_len := 2\<rparr>]\<rparr>\<rparr>"

theorem oper_list_roundtrip_witness:
  "\<exists>y1. edgx_st_prepare_config demo_dev demo_full [demo_row 0 3, demo_row 0 5] 2 = Some (0, y1)
     \<and> (\<forall>io. demo_rows io = demo_rows (sys_io y1) \<and> edgx_sched_get_used_tab io (sys_sd y1) = 0 \<longrightarrow>
          (\<exists>y2. edgx_st_get_oper_ctrl_list demo_dev 0 [demo_row 9 9, demo_row 9 9] (y1\<lparr>sys_io := io\<rparr>)
             = Some (Inr [demo_row 0 3, demo_row 0 5], y2)))"
proof -
  have c: "sys_com demo_full = demo_com" "sys_client demo_full = demo_st"
    by (simp_all add: demo_full_def demo_sys_def)
  have m: "row_memory demo_dev (com_iobase (sys_com demo_full)) demo_rows"
    by (simp add: c demo_com_def demo_row_memory)
  have g0: "hw_granularity_ns (limits (sys_com demo_full)) \<noteq> 0" by (simp add: c demo_com_def)
  have st: "storable (sys_client demo_full) (unat (hw_granularity_ns (limits (sys_com demo_full)))) [demo_row 0 3, demo_row 0 5]"
    using demo_storable by (simp add: c demo_com_def)
  have f: "edgx_sched_get_free_tab (sys_io demo_full) (sys_sd demo_full) = 0"
    by (simp add: demo_full_def edgx_sched_get_free_tab_def demo_simps edgx_rd16_def)
  have t: "unat (list_len (op_tabs (sys_sd demo_full) ! 0)) = length [demo_row 0 3, demo_row 0 5]"
    "0 < length (op_tabs (sys_sd demo_full))"
    by (simp_all add: demo_full_def)
  have d: "denom (cycle_time (admin_tab (sys_sd demo_full))) \<noteq> 0"
    "nr_queues (sys_client demo_full) \<le> length (tr_rate (sys_client demo_full))"
    by (simp_all add: demo_full_def demo_simps)
  have pad: "(demo_row a b)\<lparr>padding := padding (demo_row x y)\<rparr> = demo_row a b" for a b x y
    by (simp add: demo_row_def)
  show ?thesis
    using oper_list_roundtrip [OF m g0 st, of 0 "[demo_row 9 9, demo_row 9 9]"] f t d
    by (simp add: pad numeral_2_eq_2)
qed

definition demo_busy :: st_sys where
  "demo_busy = demo_full\<lparr>
     sys_sd := (sys_sd demo_full)\<lparr>iobase := 0x8000, admin_tab := (admin_tab (sys_sd demo_full))\<lparr>
       entries := Some [demo_row 0 3], entry_cnt := 1, list_len := 1\<rparr>\<rparr>,
     sys_io := (\<lambda>_. 0)(0x8800 := 2)\<rparr>"

lemma demo_busy_cc: "\<exists>r y'. edgx_sched_config_change (edgx_st_sched_ops demo_dev) demo_busy = Some (r, y')"
proof -
  let ?y0 = "set_sd (\<lambda>s. s\<lparr>op_tabs := (op_tabs s)[1 := (admin_tab s)\<lparr>entries := None\<rparr>]\<rparr>) demo_busy"
  have f: "edgx_sched_get_free_tab (sys_io demo_busy) (sys_sd demo_busy) = 1"
    "edgx_sched_get_free_tab (sys_io ?y0) (sys_sd ?y0) = 1"
    by (simp_all add: demo_busy_def edgx_sched_get_free_tab_def edgx_rd16_def)
  have f0: "0 \<le> edgx_sched_get_free_tab (sys_io ?y0) (sys_sd ?y0)" unfolding f(2) by simp
  have n: "0 < (1 :: nat)" "1 \<le> length [demo_row 0 3]" by simp_all
  have m: "row_memory demo_dev (com_iobase (sys_com ?y0)) demo_rows"
    and g: "hw_granularity_ns (limits (sys_com ?y0)) \<noteq> 0"
    and d: "denom (cycle_time (admin_tab (sys_sd ?y0))) \<noteq> 0"
    and q: "nr_queues (sys_client ?y0) \<le> length (tr_rate (sys_client ?y0))"
    by (simp_all add: demo_busy_def demo_full_def demo_simps demo_row_memory)
  obtain y1 where p: "edgx_st_prepare_config demo_dev ?y0 [demo_row 0 3] 1 = Some (0, y1)" and y1: "sys_sd y1 = sys_sd ?y0"
    by (rule prepare_config_succeeds [OF m g f0 n d q])
  have adm: "entries (admin_tab (sys_sd demo_busy)) = Some [demo_row 0 3]"
    "unat (list_len (admin_tab (sys_sd demo_busy))) = 1" "length (op_tabs (sys_sd demo_busy)) = 2"
    by (simp_all add: demo_busy_def demo_full_def)
  have ct: "denom (cycle_time (admin_tab (sys_sd demo_busy))) \<noteq> 0" using d by simp
  show ?thesis
    using p y1 by (simp add: edgx_sched_config_change_def f(1) edgx_st_sched_ops_def Let_def adm ct rational_to_nsec_value)
qed

theorem config_change_keeps_used_table_witness:
  "\<exists>r y'. edgx_sched_config_change (edgx_st_sched_ops demo_dev) demo_busy = Some (r, y')
     \<and> op_tabs (sys_sd y') ! 0 = op_tabs (sys_sd demo_busy) ! 0
     \<and> demo_rows (sys_io y') (row_key (sys_sd demo_busy) 0 7) = demo_rows (sys_io demo_busy) (row_key (sys_sd demo_busy) 0 7)
     \<and> (\<forall>a \<in> {0x8800 ..< 0x8900}. sys_io y' a = sys_io demo_busy a)"
proof -
  have c: "sys_com demo_busy = demo_com" "sys_client demo_busy = demo_st" "sys_com demo_full = demo_com"
    "sys_client demo_full = demo_st"
    by (simp_all add: demo_busy_def demo_full_def demo_sys_def)
  have m: "row_memory demo_dev (com_iobase (sys_com demo_busy)) demo_rows"
    by (simp add: c demo_com_def demo_row_memory)
  have g: "hw_granularity_ns (limits (sys_com demo_busy)) \<noteq> 0" by (simp add: c demo_com_def)
  have low: "demo_rows (io(iobase (sys_sd demo_busy) + k := v)) = demo_rows io" if "k < 0xa00" for io k v
    using demo_rows_low [of "iobase (sys_sd demo_busy) + k"] that by (simp add: demo_busy_def)
  have used: "edgx_sched_get_used_tab (sys_io demo_busy) (sys_sd demo_busy) = int 0"
    by (simp add: demo_busy_def edgx_sched_get_used_tab_def edgx_rd16_def)
  obtain r y' where cc: "edgx_sched_config_change (edgx_st_sched_ops demo_dev) demo_busy = Some (r, y')"
    using demo_busy_cc by blast
  have "demo_dev io a = io a" "a \<notin> transfer_regs (com_iobase (sys_com demo_busy))"
    if "a \<in> table_regs (iobase (sys_sd demo_busy)) 0" for io a
  proof -
    have a: "0x8800 \<le> a" "a < 0x8900" using that by (auto simp: demo_busy_def table_regs_def)
    then have "row_adr k \<noteq> a" "Suc (row_adr k) \<noteq> a" for k using row_adr_ge [of k] by linarith+
    with a show "demo_dev io a = io a" by (auto simp: demo_dev_def Let_def)
    show "a \<notin> transfer_regs (com_iobase (sys_com demo_busy))"
      using a by (simp add: transfer_regs_def c demo_com_def)
  qed
  then have cells: "\<forall>a \<in> table_regs (iobase (sys_sd demo_busy)) 0. sys_io y' a = sys_io demo_busy a"
    using config_change_keeps_used_table [OF m g low used cc, of 7] by blast
  have "table_regs (iobase (sys_sd demo_busy)) 0 = {0x8800 ..< 0x8900}"
    by (simp add: demo_busy_def table_regs_def)
  with cells show ?thesis
    using config_change_keeps_used_table [OF m g low used cc, of 7] cc by auto
qed

end
