(* ===== verification/FqtssProps.thy ===== *)
theory FqtssProps
  imports Fqtss
begin

text \<open>
  Properties of the credit-based shapers: the addend as a ceiling, the operational rate and its
  overflow branch, the idle slope that a change of the transmission rate gives, and the agreement
  of the shaper registers with the driver's tables in every reachable state.
\<close>

unbundle bit_operations_syntax

section \<open>Addend and operational rate\<close>

lemma calc_addend_ceil:
  "clk \<noteq> 0 \<Longrightarrow> edgx_fqtss_calc_addend b clk = Some (word_of_int (ceil_div (uint b * 4096) (uint clk)))"
proof -
  assume c: "clk \<noteq> 0"
  then have c0: "uint clk \<noteq> 0" "0 < uint clk" using uint_u32_bounds [of clk] by (simp_all add: unsigned_eq_0_iff order_less_le)
  have "wrap_u64 (uint b * 4096 + uint clk - 1) = uint b * 4096 + uint clk - 1"
    by (rule wrap_u64_id) (use c0 uint_u32_bounds [of b] uint_u32_bounds [of clk] in linarith)+
  with c0 show ?thesis by (simp add: edgx_fqtss_calc_addend_def ceil_div_def)
qed

lemma int_le_div: "0 < n \<Longrightarrow> b \<le> a div n \<longleftrightarrow> b * n \<le> (a :: int)"
proof
  assume n: "0 < n"
  show "b * n \<le> a" if "b \<le> a div n"
    using mult_right_mono [OF that, of n] n minus_mod_eq_div_mult [of a n] pos_mod_sign [OF n, of a] by linarith
  show "b \<le> a div n" if "b * n \<le> a"
    using zdiv_mono1 [OF that n] n by simp
qed

text \<open>
  The operational rate \<open>bitrate * num / dnm\<close> is computed exactly (rounded down) when
  the product fits into 64 bits. When it does not, a rate of at least one is rounded down to a
  whole number first; and for a rate below one the computation divides by zero, unless \<open>num\<close>
  divides \<open>dnm\<close>, when the bit rate comes back unscaled.
\<close>

theorem oper_bitrate_outcome:
  assumes "0 < num" "0 < dnm" "num < 2 ^ 64" "dnm < 2 ^ 64"
  shows "oper_bitrate b num dnm =
     (if uint b * num < 2 ^ 64 then Some (word_of_int (uint b * num div dnm))
      else if dnm \<le> num then Some (word_of_int (uint b * (num div dnm)))
      else if num dvd dnm then Some b else None)"
proof -
  have ov: "uint b > (2 ^ 64 - 1) div num \<longleftrightarrow> \<not> uint b * num < 2 ^ 64"
  proof -
    have "uint b \<le> (2 ^ 64 - 1) div num \<longleftrightarrow> uint b * num \<le> 2 ^ 64 - 1"
      by (rule int_le_div [OF assms(1)])
    then show ?thesis by auto
  qed
  consider (fits) "uint b * num < 2 ^ 64" | (big) "\<not> uint b * num < 2 ^ 64" "dnm \<le> num"
    | (below) "\<not> uint b * num < 2 ^ 64" "num < dnm" by linarith
  then show ?thesis
  proof cases
    case fits
    have "wrap_u64 (uint b * num) = uint b * num"
      by (rule wrap_u64_id) (use fits assms(1) in simp_all)
    with fits ov show ?thesis by (simp add: oper_bitrate_def)
  next
    case big
    then have "num div dnm > 0" using assms(2) by (simp add: pos_imp_zdiv_pos_iff)
    moreover have "word_of_int (num div dnm) * b = word_of_int (uint b * (num div dnm))"
      by (simp add: mult.commute flip: wi_hom_mult)
    ultimately show ?thesis using big ov by (simp add: oper_bitrate_def)
  next
    case below
    let ?k = "dnm div num"
    have z: "num div dnm = 0" using below assms(1) by simp
    have le: "num * ?k \<le> dnm" "0 \<le> num * ?k"
      using assms(1,2) int_le_div [OF assms(1), of ?k dnm]
      by (simp_all add: pos_imp_zdiv_nonneg_iff mult.commute)
    have w: "wrap_u64 (num * ?k) = num * ?k" by (rule wrap_u64_id) (use le assms(4) in simp_all)
    show ?thesis
    proof (cases "num dvd dnm")
      case True
      then have "num * ?k = dnm" by simp
      with w z below ov assms(2) True show ?thesis by (simp add: oper_bitrate_def)
    next
      case False
      then have "num * ?k \<noteq> dnm" by (metis dvd_triv_left)
      with le(1) have "num * ?k < dnm" by simp
      with le(2) have "num * ?k div dnm = 0" by simp
      with w z below ov False show ?thesis by (simp add: oper_bitrate_def)
    qed
  qed
qed

theorem oper_bitrate_outcome_witness:
  "oper_bitrate 1000000000 20000000000 30000000001 = None
   \<and> oper_bitrate 1000000000 3 2 = Some 1500000000"
  using oper_bitrate_outcome [of 20000000000 30000000001 1000000000]
    oper_bitrate_outcome [of 3 2 1000000000] by simp

section \<open>Idle slope under a gate schedule\<close>

text \<open>
  With a known port speed, a gated class (its rate is neither 0 nor 1/1) gets the
  administrative slope times cycle over open time, at most the line rate, as its idle slope, and
  the ceiling of the slope times 4096 over the clock as its addend; the rest of the tables stays.
  This holds as long as the scaled slope fits into 32 bits: it is cut to 32 bits before it is
  compared with the line rate.
\<close>

theorem calc_idle_slope_outcome:
  assumes "edgx_fqtss_get_clk br = Some clk" "clk \<noteq> 0"
    and "0 < tr_num rate" "0 < tr_denom rate" "\<not> (tr_num rate = 1 \<and> tr_denom rate = 1)"
      "tr_num rate < 2 ^ 64" "tr_denom rate < 2 ^ 64"
    and "i < length (adminidleslope f)" "length (idleslope f) = length (adminidleslope f)"
    and "uint (adminidleslope f ! i) * tr_num rate < 2 ^ 64"
    and "uint (adminidleslope f ! i) * tr_num rate div tr_denom rate < 2 ^ 32"
    and "0 \<le> speed" "speed * 1000000 < 2 ^ 32"
    and slope: "slope = min (uint (adminidleslope f ! i) * tr_num rate div tr_denom rate) (speed * 1000000)"
  shows "edgx_fqtss_calc_idle_slope br speed i rate f =
     Some (word_of_int (ceil_div (slope * 4096) (uint clk)), f\<lparr>idleslope := (idleslope f)[i := word_of_int slope]\<rparr>)"
proof -
  let ?a = "adminidleslope f ! i" and ?n = "tr_num rate" and ?d = "tr_denom rate"
  let ?b = "uint ?a * ?n div ?d"
  have b0: "0 \<le> ?b" using assms(3,4) by (simp add: pos_imp_zdiv_nonneg_iff)
  have o: "oper_bitrate ?a ?n ?d = Some (word_of_int ?b)"
    using oper_bitrate_outcome [OF assms(3,4,6,7), of ?a] assms(10) by simp
  have ub: "uint (word_of_int ?b :: u32) = ?b" by (rule uint_word_of_int_u32) (use b0 assms(11) in simp_all)
  have us: "uint (word_of_int (speed * 1000000) :: u32) = speed * 1000000"
    by (rule uint_word_of_int_u32) (use assms(12,13) in simp_all)
  have l: "limit_bitrate speed (word_of_int ?b) = word_of_int slope"
  proof -
    define m where "m = speed * 1000000"
    have "uint (word_of_int m :: u32) = m" unfolding m_def by (rule us)
    then show ?thesis
      using assms(12) unfolding limit_bitrate_def slope m_def [symmetric] by (simp add: word_less_alt ub)
  qed
  have s: "uint (word_of_int slope :: u32) = slope"
    by (rule uint_word_of_int_u32) (use b0 assms(11,12,13) in \<open>simp_all add: slope\<close>)
  have "edgx_fqtss_calc_addend (word_of_int slope) clk = Some (word_of_int (ceil_div (slope * 4096) (uint clk)))"
    using calc_addend_ceil [OF assms(2), of "word_of_int slope"] by (simp only: s)
  then show ?thesis
    using assms(1,3,4,5,8,9) by (auto simp: edgx_fqtss_calc_idle_slope_def o l Let_def)
qed

definition demo_fqtss :: fqtss where
  "demo_fqtss = \<lparr>fq_iobase = 0x200, tsa_tbl = replicate 8 0, adminidleslope = replicate 8 20000000,
     idleslope = replicate 8 0, addend = replicate 8 0\<rparr>"

theorem calc_idle_slope_outcome_witness:
  "edgx_fqtss_calc_idle_slope \<lparr>brparam = 0, cycle_ns = 8\<rparr> 100 1 \<lparr>tr_num = 3, tr_denom = 1\<rparr> demo_fqtss
     = Some (1967, demo_fqtss\<lparr>idleslope := (replicate 8 0)[1 := 60000000]\<rparr>)"
proof -
  have c: "edgx_fqtss_get_clk \<lparr>brparam = 0, cycle_ns = 8\<rparr> = Some 125000000"
    by (simp add: edgx_fqtss_get_clk_def edgx_br_get_cycle_ns_def)
  have a: "adminidleslope demo_fqtss ! 1 = 20000000" "idleslope demo_fqtss = replicate 8 0"
    "adminidleslope demo_fqtss = replicate 8 20000000"
    by (simp_all add: demo_fqtss_def)
  have m: "60000000 = min (uint (adminidleslope demo_fqtss ! 1) * tr_num \<lparr>tr_num = 3, tr_denom = 1\<rparr>
      div tr_denom \<lparr>tr_num = 3, tr_denom = 1\<rparr>) (100 * 1000000)" unfolding a by simp
  show ?thesis
    using calc_idle_slope_outcome [OF c _ _ _ _ _ _ _ _ _ _ _ _ m] a
    by (simp add: ceil_div_def)
qed

section \<open>Shaper registers and tables\<close>

text \<open>The tables have one element per class, and the algorithm is one of the two known ones.\<close>

definition fq_tabs :: "fqtss \<Rightarrow> bool" where
  "fq_tabs f \<longleftrightarrow> length (tsa_tbl f) = 8 \<and> length (addend f) = 8 \<and> length (adminidleslope f) = 8
     \<and> length (idleslope f) = 8 \<and> (\<forall>v \<in> set (tsa_tbl f). v = CBS \<or> v = STRICT_PRIO)"

text \<open>The register of class \<open>i\<close>: the addend for a shaped class, the maximum for a strict one.\<close>

definition fq_reg_ok :: "fqtss \<Rightarrow> iomem \<Rightarrow> nat \<Rightarrow> bool" where
  "fq_reg_ok f io i \<longleftrightarrow> edgx_rd16 io (fq_iobase f) (FQ_OFFS i) = (if tsa_tbl f ! i = CBS then addend f ! i else MAX_ADDEND)"

definition fq_wf :: "nat \<Rightarrow> fqtss \<Rightarrow> iomem \<Rightarrow> bool" where
  "fq_wf nq f io \<longleftrightarrow> fq_tabs f \<and> (\<forall>i < nq. fq_reg_ok f io i)"

inductive fqtss_step :: "edgx_br \<Rightarrow> nat \<Rightarrow> fqtss \<times> iomem \<Rightarrow> fqtss \<times> iomem \<Rightarrow> bool" for br nq where
  set_tsa: "tsa_tbl_write nq ofs cnt v f io = Some (r, f', io') \<Longrightarrow> fqtss_step br nq (f, io) (f', io')"
| set_slope: "admin_slope_tbl_write br speed nq rate ofs cnt v f io = Some (r, f', io') \<Longrightarrow>
    fqtss_step br nq (f, io) (f', io')"
| rate_change: "edgx_fqtss_st_change br speed nq rate (Some f) io = Some (Some f', io') \<Longrightarrow>
    fqtss_step br nq (f, io) (f', io')"
| other_write: "(\<And>i. i < nq \<Longrightarrow> edgx_rd16 io' (fq_iobase f) (FQ_OFFS i) = edgx_rd16 io (fq_iobase f) (FQ_OFFS i)) \<Longrightarrow>
    fqtss_step br nq (f, io) (f, io')"

inductive fqtss_reachable :: "edgx_br \<Rightarrow> nat \<Rightarrow> fqtss \<times> iomem \<Rightarrow> bool" for br nq where
  probe: "edgx_probe_fqtss br nq base io = Some (f, io') \<Longrightarrow> fqtss_reachable br nq (f, io')"
| step: "fqtss_reachable br nq y \<Longrightarrow> fqtss_step br nq y y' \<Longrightarrow> fqtss_reachable br nq y'"

lemma write_addend_wf:
  assumes "edgx_fqtss_write_addend a j f io = Some (f', io')" "fq_tabs f"
    and "\<forall>i < nq. i \<noteq> j \<longrightarrow> fq_reg_ok f io i"
  shows "fq_wf nq f' io'"
proof -
  from assms(1,2) have j: "j < 8" "f' = f\<lparr>addend := (addend f)[j := a]\<rparr>"
    and io': "io' = (if tsa_tbl f ! j = CBS then edgx_wr16 io (fq_iobase f) (FQ_OFFS j) a
                     else if tsa_tbl f ! j = STRICT_PRIO then edgx_wr16 io (fq_iobase f) (FQ_OFFS j) MAX_ADDEND else io)"
    by (auto simp: edgx_fqtss_write_addend_def fq_tabs_def bind_eq_Some upd_opt_eq_Some nth_opt_eq_Some)
  have tsa: "tsa_tbl f ! j = CBS \<or> tsa_tbl f ! j = STRICT_PRIO" using assms(2) j(1) by (simp add: fq_tabs_def)
  have len: "length (addend f) = 8" using assms(2) by (simp add: fq_tabs_def)
  have "fq_reg_ok f' io' i" if "i < nq" for i
    using assms(3) that tsa j(1) len by (cases "i = j") (auto simp: fq_reg_ok_def io' j(2))
  moreover have "fq_tabs f'" using assms(2) by (simp add: fq_tabs_def j(2))
  ultimately show ?thesis by (simp add: fq_wf_def)
qed

lemma fq_reg_ok_idleslope [simp]: "fq_reg_ok (f\<lparr>idleslope := x\<rparr>) io i = fq_reg_ok f io i"
  "fq_reg_ok (f\<lparr>adminidleslope := x\<rparr>) io i = fq_reg_ok f io i"
  by (simp_all add: fq_reg_ok_def)

lemma fq_reg_ok_other: "i \<noteq> j \<Longrightarrow> fq_reg_ok (f\<lparr>addend := (addend f)[j := a]\<rparr>) io i = fq_reg_ok f io i"
  "i \<noteq> j \<Longrightarrow> fq_reg_ok (f\<lparr>tsa_tbl := (tsa_tbl f)[j := v]\<rparr>) io i = fq_reg_ok f io i"
  by (simp_all add: fq_reg_ok_def)

lemma calc_idle_slope_frame:
  "edgx_fqtss_calc_idle_slope br speed j r f = Some (a, f') \<Longrightarrow> fq_tabs f \<Longrightarrow>
     fq_tabs f' \<and> (\<forall>i. fq_reg_ok f' io i = fq_reg_ok f io i)"
  by (auto simp: edgx_fqtss_calc_idle_slope_def bind_eq_Some Let_def fq_tabs_def upd_opt_eq_Some split: if_splits)

lemma st_change_from_wf:
  "st_change_from br speed rate is f io = Some (f', io') \<Longrightarrow> fq_wf nq f io \<Longrightarrow> fq_wf nq f' io'"
proof (induction "is" arbitrary: f io)
  case Nil
  then show ?case by simp
next
  case (Cons i "is")
  from Cons.prems(1) obtain r a f1 f2 io2 where
    1: "edgx_fqtss_calc_idle_slope br speed i r f = Some (a, f1)"
    and 2: "edgx_fqtss_write_addend a i f1 io = Some (f2, io2)"
    and 3: "st_change_from br speed rate is f2 io2 = Some (f', io')"
    by (auto simp: bind_eq_Some)
  from calc_idle_slope_frame [OF 1, of io] Cons.prems(2) have "fq_wf nq f2 io2"
    by (intro write_addend_wf [OF 2]) (auto simp: fq_wf_def)
  with 3 show ?case by (rule Cons.IH)
qed

lemma tsa_tbl_write_wf:
  "tsa_tbl_write nq ofs cnt v f io = Some (r, f', io') \<Longrightarrow> fq_wf nq f io \<Longrightarrow> fq_wf nq f' io'"
proof -
  assume w: "tsa_tbl_write nq ofs cnt v f io = Some (r, f', io')" and wf: "fq_wf nq f io"
  have v01: "v = CBS \<or> v = STRICT_PRIO" if "\<not> v > CBS"
  proof -
    have "unat v = 0 \<or> unat v = unat (1 :: u8)" using that by (auto simp: not_less word_le_nat_alt)
    then show ?thesis by (metis unsigned_word_eqI unsigned_0)
  qed
  obtain p where p: "edgx_sysfs_tbl_params ofs cnt 1 = Some p"
    using w by (auto simp: tsa_tbl_write_def bind_eq_Some)
  have "(f' = f \<and> io' = io) \<or> (\<exists>j a. \<not> v > CBS \<and> j < length (tsa_tbl f)
      \<and> edgx_fqtss_write_addend a j (f\<lparr>tsa_tbl := (tsa_tbl f)[j := v]\<rparr>) io = Some (f', io'))"
  proof (cases p)
    case (Inl e)
    with w p show ?thesis by (simp add: tsa_tbl_write_def)
  next
    case (Inr idx)
    show ?thesis
    proof (cases "idx > int nq - 1 \<or> v > CBS")
      case True
      with w p Inr show ?thesis by (simp add: tsa_tbl_write_def)
    next
      case False
      with w p Inr show ?thesis by (auto simp: tsa_tbl_write_def bind_eq_Some upd_opt_eq_Some)
    qed
  qed
  then consider (same) "f' = f" "io' = io"
    | (set) j a where "\<not> v > CBS" "j < length (tsa_tbl f)"
      "edgx_fqtss_write_addend a j (f\<lparr>tsa_tbl := (tsa_tbl f)[j := v]\<rparr>) io = Some (f', io')" by blast
  then show ?thesis
  proof cases
    case same
    with wf show ?thesis by simp
  next
    case set
    have "fq_tabs (f\<lparr>tsa_tbl := (tsa_tbl f)[j := v]\<rparr>)"
      using wf v01 [OF set(1)] by (auto simp: fq_wf_def fq_tabs_def dest!: set_update_subset_insert [THEN subsetD])
    with wf show ?thesis by (intro write_addend_wf [OF set(3)]) (simp_all add: fq_wf_def fq_reg_ok_other)
  qed
qed

lemma admin_slope_write_wf:
  "admin_slope_tbl_write br speed nq rate ofs cnt v f io = Some (r, f', io') \<Longrightarrow> fq_wf nq f io \<Longrightarrow> fq_wf nq f' io'"
proof -
  assume w: "admin_slope_tbl_write br speed nq rate ofs cnt v f io = Some (r, f', io')" and wf: "fq_wf nq f io"
  obtain clk p where cp: "edgx_fqtss_get_clk br = Some clk" "edgx_sysfs_tbl_params ofs cnt 8 = Some p"
    using w by (auto simp: admin_slope_tbl_write_def bind_eq_Some)
  have "(f' = f \<and> io' = io) \<or> (\<exists>j a0 a r f1.
      edgx_fqtss_calc_idle_slope br speed j r (f\<lparr>adminidleslope := (adminidleslope f)[j := v],
          idleslope := (idleslope f)[j := v], addend := (addend f)[j := a0]\<rparr>) = Some (a, f1)
      \<and> edgx_fqtss_write_addend a j f1 io = Some (f', io'))"
  proof (cases p)
    case (Inl e)
    with w cp show ?thesis by (simp add: admin_slope_tbl_write_def)
  next
    case (Inr idx)
    define bad where "bad \<longleftrightarrow> (if speed = SPEED_UNKNOWN then v > MAX_LINE_SPEED else v > word_of_int (speed * 1000000))"
    show ?thesis
    proof (cases "idx > int nq - 1 \<or> bad")
      case True
      with w cp Inr show ?thesis
        unfolding admin_slope_tbl_write_def bad_def [symmetric] by (auto split: if_splits)
    next
      case False
      with w cp Inr show ?thesis
        unfolding admin_slope_tbl_write_def bad_def [symmetric]
        by (auto simp: bind_eq_Some upd_opt_eq_Some Let_def)
    qed
  qed
  then consider (same) "f' = f" "io' = io"
    | (set) j a0 a r f1 where
      "edgx_fqtss_calc_idle_slope br speed j r (f\<lparr>adminidleslope := (adminidleslope f)[j := v],
          idleslope := (idleslope f)[j := v], addend := (addend f)[j := a0]\<rparr>) = Some (a, f1)"
      "edgx_fqtss_write_addend a j f1 io = Some (f', io')" by blast
  then show ?thesis
  proof cases
    case same
    with wf show ?thesis by simp
  next
    case set
    let ?f = "f\<lparr>adminidleslope := (adminidleslope f)[j := v],
          idleslope := (idleslope f)[j := v], addend := (addend f)[j := a0]\<rparr>"
    have t: "fq_tabs ?f" using wf by (simp add: fq_wf_def fq_tabs_def)
    have "fq_reg_ok ?f io i = fq_reg_ok f io i" if "i \<noteq> j" for i
      using that by (simp add: fq_reg_ok_def)
    with wf calc_idle_slope_frame [OF set(1) t, of io] show ?thesis
      by (intro write_addend_wf [OF set(2)]) (simp_all add: fq_wf_def)
  qed
qed

lemma probe_fold:
  "fold (\<lambda>i io. edgx_wr16 io base (FQ_OFFS i) v) [0..<n] io a
     = (if \<exists>i < n. a = base + FQ_OFFS i then v else io a)"
  by (induction n) (auto simp: less_Suc_eq)

lemma fqtss_step_wf: "fqtss_step br nq y y' \<Longrightarrow> fq_wf nq (fst y) (snd y) \<Longrightarrow> fq_wf nq (fst y') (snd y')"
proof (induction rule: fqtss_step.induct)
  case (rate_change speed rate f io f' io')
  then show ?case
    by (auto simp: edgx_fqtss_st_change_def bind_eq_Some dest: st_change_from_wf)
qed (auto simp: fq_wf_def fq_reg_ok_def dest: tsa_tbl_write_wf admin_slope_write_wf)

lemma fqtss_reachable_wf:
  "fqtss_reachable br nq (f, io) \<Longrightarrow> nq \<le> 8 \<Longrightarrow> fq_wf nq f io"
proof -
  have "fqtss_reachable br nq y \<Longrightarrow> nq \<le> 8 \<Longrightarrow> fq_wf nq (fst y) (snd y)" for y
  proof (induction rule: fqtss_reachable.induct)
    case (probe base io f io')
    then show ?case
      by (auto simp: edgx_probe_fqtss_def bind_eq_Some fq_wf_def fq_tabs_def fq_reg_ok_def edgx_rd16_def probe_fold)
  next
    case (step y y')
    then show ?case by (blast intro: fqtss_step_wf)
  qed
  then show "fqtss_reachable br nq (f, io) \<Longrightarrow> nq \<le> 8 \<Longrightarrow> fq_wf nq f io" by fastforce
qed

text \<open>
  Property C11. In every state of the shapers that the probe, the writes of both tables and the
  rate changes of the scheduler can reach, the register of each queue holds the queue's addend
  when the queue is shaped and the maximum when it is strict, and the tables keep their size.
\<close>

theorem fqtss_registers_agree:
  assumes "fqtss_reachable br nq (f, io)" "nq \<le> 8" "i < nq"
  shows "fq_tabs f \<and> edgx_rd16 io (fq_iobase f) (FQ_OFFS i)
     = (if tsa_tbl f ! i = CBS then addend f ! i else MAX_ADDEND)"
  using fqtss_reachable_wf [OF assms(1,2)] assms(3) by (simp add: fq_wf_def fq_reg_ok_def)

definition demo_fq_probed :: "fqtss \<times> iomem" where
  "demo_fq_probed = the (edgx_probe_fqtss \<lparr>brparam = 0, cycle_ns = 8\<rparr> 2 0x200 (\<lambda>_. 0))"

theorem fqtss_registers_agree_witness:
  "\<exists>f io. tsa_tbl_write 2 1 1 1 (fst demo_fq_probed) (snd demo_fq_probed) = Some (1, f, io)
     \<and> edgx_rd16 io (fq_iobase f) (FQ_OFFS 1) = 0 \<and> edgx_rd16 io (fq_iobase f) (FQ_OFFS 0) = 65535"
proof -
  let ?br = "\<lparr>brparam = 0, cycle_ns = 8\<rparr>"
  have p: "edgx_probe_fqtss ?br 2 0x200 (\<lambda>_. 0) = Some (fst demo_fq_probed, snd demo_fq_probed)"
    by (simp add: demo_fq_probed_def edgx_probe_fqtss_def edgx_fqtss_get_clk_def edgx_br_get_cycle_ns_def)
  have d: "tsa_tbl (fst demo_fq_probed) = replicate 8 0" "addend (fst demo_fq_probed) = replicate 8 0"
    by (simp_all add: demo_fq_probed_def edgx_probe_fqtss_def edgx_fqtss_get_clk_def edgx_br_get_cycle_ns_def)
  have "\<exists>f io. tsa_tbl_write 2 1 1 1 (fst demo_fq_probed) (snd demo_fq_probed) = Some (1, f, io)
      \<and> tsa_tbl f = (replicate 8 0)[1 := 1] \<and> addend f ! 1 = 0"
    by (simp add: tsa_tbl_write_def edgx_fqtss_write_addend_def edgx_sysfs_tbl_params_def d)
  then obtain f io where w: "tsa_tbl_write 2 1 1 1 (fst demo_fq_probed) (snd demo_fq_probed) = Some (1, f, io)"
    "tsa_tbl f = (replicate 8 0)[1 := 1]" "addend f ! 1 = 0" by blast
  have "fqtss_reachable ?br 2 (f, io)"
    by (rule fqtss_reachable.step [OF fqtss_reachable.probe [OF p] fqtss_step.set_tsa [OF w(1)]])
  from fqtss_registers_agree [OF this, of 0] fqtss_registers_agree [OF this, of 1] w show ?thesis by auto
qed

end
