(* ===== verification/StFqtss.thy ===== *)
theory StFqtss
  imports SchedProps FqtssProps
begin

text \<open>
  The scheduler of a port and its shapers together: what a change of the gates' schedule, and then
  disabling the gates, makes of the idle slopes and of the shaper registers.
\<close>

unbundle bit_operations_syntax

section \<open>A change of the rates, class by class\<close>

lemma write_addend_reg:
  assumes "edgx_fqtss_write_addend a j f io = Some (f', io')" "fq_tabs f"
  shows "fq_tabs f'" "f' = f\<lparr>addend := (addend f)[j := a]\<rparr>" "i = j \<or> fq_reg_ok f io i \<Longrightarrow> fq_reg_ok f' io' i"
proof -
  from assms have j: "j < 8" and f': "f' = f\<lparr>addend := (addend f)[j := a]\<rparr>"
    and io': "io' = (if tsa_tbl f ! j = CBS then edgx_wr16 io (fq_iobase f) (FQ_OFFS j) a
                     else if tsa_tbl f ! j = STRICT_PRIO then edgx_wr16 io (fq_iobase f) (FQ_OFFS j) MAX_ADDEND else io)"
    by (auto simp: edgx_fqtss_write_addend_def fq_tabs_def bind_eq_Some upd_opt_eq_Some nth_opt_eq_Some)
  have tsa: "tsa_tbl f ! j = CBS \<or> tsa_tbl f ! j = STRICT_PRIO" "length (addend f) = 8"
    using assms(2) j by (simp_all add: fq_tabs_def)
  show "fq_tabs f'" using assms(2) by (simp add: fq_tabs_def f')
  show "f' = f\<lparr>addend := (addend f)[j := a]\<rparr>" by (rule f')
  show "fq_reg_ok f' io' i" if "i = j \<or> fq_reg_ok f io i"
    using that tsa j by (cases "i = j") (auto simp: fq_reg_ok_def io' f')
qed

text \<open>What the loop leaves alone, and that it writes the register of every class it visits.\<close>

lemma change_frame:
  "st_change_from br speed rate is f io = Some (f', io') \<Longrightarrow> fq_tabs f \<Longrightarrow>
     fq_tabs f' \<and> adminidleslope f' = adminidleslope f \<and> tsa_tbl f' = tsa_tbl f \<and> fq_iobase f' = fq_iobase f
     \<and> (\<forall>i. i \<in> set is \<or> fq_reg_ok f io i \<longrightarrow> fq_reg_ok f' io' i)
     \<and> (\<forall>i. i \<notin> set is \<longrightarrow> addend f' ! i = addend f ! i \<and> idleslope f' ! i = idleslope f ! i)"
proof (induction "is" arbitrary: f io)
  case Nil
  then show ?case by simp
next
  case (Cons j "is")
  from Cons.prems(1) obtain r a f1 f2 io2 where
    1: "edgx_fqtss_calc_idle_slope br speed j r f = Some (a, f1)"
    and 2: "edgx_fqtss_write_addend a j f1 io = Some (f2, io2)"
    and 3: "st_change_from br speed rate is f2 io2 = Some (f', io')"
    by (auto simp: bind_eq_Some)
  obtain x where f1: "f1 = f\<lparr>idleslope := x\<rparr>" "\<And>i. i \<noteq> j \<Longrightarrow> x ! i = idleslope f ! i"
  proof (cases "f1 = f")
    case True
    then show thesis using that [of "idleslope f"] by simp
  next
    case False
    with 1 obtain s where "f1 = f\<lparr>idleslope := (idleslope f)[j := s]\<rparr>"
      by (auto simp: edgx_fqtss_calc_idle_slope_def bind_eq_Some Let_def upd_opt_eq_Some split: if_splits)
    then show thesis by (intro that [of "(idleslope f)[j := s]"]) simp_all
  qed
  have t1: "fq_tabs f1" and reg: "\<And>i. fq_reg_ok f1 io i = fq_reg_ok f io i"
    using calc_idle_slope_frame [OF 1 Cons.prems(2)] by simp_all
  note w = write_addend_reg [OF 2 t1]
  have f2: "adminidleslope f2 = adminidleslope f" "tsa_tbl f2 = tsa_tbl f" "fq_iobase f2 = fq_iobase f"
    "\<And>i. i \<noteq> j \<Longrightarrow> addend f2 ! i = addend f ! i \<and> idleslope f2 ! i = idleslope f ! i"
    by (simp_all add: w(2) f1)
  from Cons.IH [OF 3 w(1)] show ?case using w(3) by (auto simp: f2 reg)
qed

lemma change_length:
  "st_change_from br speed rate is f io = Some (f', io') \<Longrightarrow> i \<in> set is \<Longrightarrow> i < length (addend f)"
proof (induction "is" arbitrary: f io)
  case (Cons j "is")
  from Cons.prems(1) obtain r a f1 f2 io2 where
    1: "edgx_fqtss_calc_idle_slope br speed j r f = Some (a, f1)"
    and 2: "edgx_fqtss_write_addend a j f1 io = Some (f2, io2)"
    and 3: "st_change_from br speed rate is f2 io2 = Some (f', io')"
    by (auto simp: bind_eq_Some)
  have "addend f1 = addend f"
    using 1 by (auto simp: edgx_fqtss_calc_idle_slope_def bind_eq_Some Let_def split: if_splits)
  with 2 have "j < length (addend f)" "length (addend f2) = length (addend f)"
    by (auto simp: edgx_fqtss_write_addend_def bind_eq_Some upd_opt_eq_Some)
  with Cons.IH [OF 3] Cons.prems(2) show ?case by auto
qed simp

text \<open>A class gets what the computation gives for its administrative slope and its rate.\<close>

lemma change_class:
  assumes calc: "\<And>g. adminidleslope g = adm \<Longrightarrow> fq_tabs g \<Longrightarrow>
      edgx_fqtss_calc_idle_slope br speed i r g = Some (a, g\<lparr>idleslope := (idleslope g)[i := s]\<rparr>)"
    and r: "rate i = Some r"
  shows "st_change_from br speed rate is f io = Some (f', io') \<Longrightarrow> adminidleslope f = adm \<Longrightarrow> fq_tabs f \<Longrightarrow>
     i \<in> set is \<Longrightarrow> distinct is \<Longrightarrow> addend f' ! i = a \<and> idleslope f' ! i = s"
proof (induction "is" arbitrary: f io)
  case (Cons j "is")
  from Cons.prems(1) obtain rj b f1 f2 io2 where
    0: "rate j = Some rj" and 1: "edgx_fqtss_calc_idle_slope br speed j rj f = Some (b, f1)"
    and 2: "edgx_fqtss_write_addend b j f1 io = Some (f2, io2)"
    and 3: "st_change_from br speed rate is f2 io2 = Some (f', io')"
    by (auto simp: bind_eq_Some)
  have "st_change_from br speed rate [j] f io = Some (f2, io2)" using 0 1 2 by simp
  note t2 = change_frame [OF this Cons.prems(3)]
  show ?case
  proof (cases "i = j")
    case True
    with calc [OF Cons.prems(2,3)] 0 1 r have "b = a" "f1 = f\<lparr>idleslope := (idleslope f)[i := s]\<rparr>" by simp_all
    moreover have "i < 8" "fq_tabs f1"
      using 2 calc_idle_slope_frame [OF 1 Cons.prems(3)] True
      by (auto simp: edgx_fqtss_write_addend_def bind_eq_Some upd_opt_eq_Some fq_tabs_def)
    ultimately have "addend f2 ! i = a" "idleslope f2 ! i = s"
      using write_addend_reg(2) [OF 2] Cons.prems(3) True by (simp_all add: fq_tabs_def)
    with change_frame [OF 3] t2 Cons.prems(5) True show ?thesis by simp
  next
    case False
    with Cons.IH [OF 3] t2 Cons.prems show ?thesis by simp
  qed
qed simp

text \<open>When every rate is 1/1 the tables stay as they are.\<close>

lemma ungated_class:
  "edgx_fqtss_calc_idle_slope br speed i \<lparr>tr_num = 1, tr_denom = 1\<rparr> f = Some (a, f') \<Longrightarrow>
     f' = f \<and> i < length (addend f) \<and> a = addend f ! i"
  by (auto simp: edgx_fqtss_calc_idle_slope_def bind_eq_Some nth_opt_eq_Some)

lemma ungated_from:
  assumes "\<And>i r. rate i = Some r \<Longrightarrow> r = \<lparr>tr_num = 1, tr_denom = 1\<rparr>"
  shows "st_change_from br speed rate is f io = Some (f', io') \<Longrightarrow> f' = f"
proof (induction "is" arbitrary: f io)
  case (Cons i "is")
  from Cons.prems obtain r a f1 f2 io2 where 0: "rate i = Some r"
    and 1: "edgx_fqtss_calc_idle_slope br speed i r f = Some (a, f1)"
    and 2: "edgx_fqtss_write_addend a i f1 io = Some (f2, io2)"
    and 3: "st_change_from br speed rate is f2 io2 = Some (f', io')"
    by (auto simp: bind_eq_Some)
  from ungated_class [OF 1 [unfolded assms [OF 0]]] 2 have "f2 = f"
    by (auto simp: edgx_fqtss_write_addend_def bind_eq_Some upd_opt_eq_Some)
  with Cons.IH [OF 3] show ?case by simp
qed simp

section \<open>Disabling the gates\<close>

text \<open>
  The registers of the scheduler that disabling the gates writes; the number of queues is read from a
  register of the bridge that is none of them.
\<close>

definition queues_apart :: "st_sys \<Rightarrow> bool" where
  "queues_apart y \<longleftrightarrow> brparam (st_br (sys_client y)) + 0xE \<notin>
     {iobase (sys_sd y) + 0x20, iobase (sys_sd y) + 0x30, iobase (sys_sd y) + 0x800, iobase (sys_sd y) + 0x900}"

definition st_queues :: "st_sys \<Rightarrow> nat" where
  "st_queues y = unat (ucast (edgx_br_get_generic (sys_io y) (st_br (sys_client y)) 0xE) :: u8)"

lemma config_changed_shapers:
  assumes "edgx_st_config_changed y = Some y'" "st_fqtss (sys_client y) = Some f"
  obtains f' where "st_fqtss (sys_client y') = Some f'"
    "st_change_from (st_br (sys_client y)) (link_speed (st_link (sys_client y))) (stored_rate y) [0..<st_queues y] f (sys_io y)
       = Some (f', sys_io y')"
    "sys_client y' = (sys_client y)\<lparr>st_fqtss := Some f'\<rparr>" "sys_sd y' = sys_sd y" "sys_com y' = sys_com y"
  using assms that by (auto simp: edgx_st_config_changed_def edgx_fqtss_st_change_def st_queues_def Let_def bind_eq_Some)

lemma disable_frame:
  assumes "edgx_sched_set_gate_enabled (edgx_st_sched_ops dev) cur False y = Some (r, y')"
  obtains z where "edgx_st_config_changed z = Some y'" "sys_client z = sys_client y" "\<not> gate_enabled (sys_sd z)"
    "iobase (sys_sd z) = iobase (sys_sd y)" "r = 0"
    "\<And>a. a \<notin> {iobase (sys_sd y) + 0x20, iobase (sys_sd y) + 0x30, iobase (sys_sd y) + 0x800, iobase (sys_sd y) + 0x900}
       \<Longrightarrow> sys_io z a = sys_io y a"
proof -
  let ?y = "set_sd (\<lambda>s. s\<lparr>gate_enabled := False\<rparr>) y"
  from assms obtain y1 where 1: "sched_cancel_current ?y = Some y1" and r: "r = 0"
    and 2: "edgx_st_config_changed (set_state EDGX_SCHED_ST_IDLE (y1\<lparr>sys_io := edgx_sched_hw_disable (sys_io y1)
         (iobase (sys_sd y1)) (tab_gate_states (admin_tab (sys_sd y1)))\<rparr>)) = Some y'"
    by (auto simp: edgx_sched_set_gate_enabled_def edgx_sched_stm_gate_disable_def edgx_sched_notify_def
        edgx_st_sched_ops_def bind_eq_Some Let_def)
  have y1: "sys_client y1 = sys_client y" "\<not> gate_enabled (sys_sd y1)" "iobase (sys_sd y1) = iobase (sys_sd y)"
    "\<And>a. a \<notin> {iobase (sys_sd y) + 0x800, iobase (sys_sd y) + 0x900} \<Longrightarrow> sys_io y1 a = sys_io y a"
    using 1 by (auto simp: sched_cancel_current_def cancel_delayed_work_sync_def edgx_sched_hw_cancel_pending_def
        edgx_wr16_def Let_def split: edgx_sched_state.splits if_splits)
  show thesis
    by (rule that [OF 2]) (use y1 r in \<open>simp_all add: edgx_sched_hw_disable_def edgx_wr16_def Let_def\<close>)
qed

text \<open>
  Property C12. Disabling the gates leaves a shaper at the slope of the gated cycle. A change of the
  schedule gives a shaped class, whose gate is open for \<open>denominator / numerator\<close> of the cycle, the
  administrative slope times that rate's inverse (at most the line rate). When the gates are disabled
  later, with rates and shapers as that change left them, the rate of every class is 1/1 again, and
  still the class keeps that slope, its addend and its register; nothing goes back to the
  administrative slope. Assumed: the products of the rate and the slopes fit into the widths they are
  computed in, the clock is not zero, and the scheduler's registers do not overlap the number of queues.
\<close>

theorem disabled_gates_keep_gated_slope:
  assumes on: "edgx_st_config_changed y = Some y1" "gate_enabled (sys_sd y)"
    and f: "st_fqtss (sys_client y) = Some f" "fq_tabs f"
    and i: "i < st_queues y" "i < nr_queues (sys_client y)" "tsa_tbl f ! i = CBS"
    and rate: "rate = tr_rate (sys_client y) ! i" "0 < tr_num rate" "0 < tr_denom rate"
      "\<not> (tr_num rate = 1 \<and> tr_denom rate = 1)" "tr_num rate < 2 ^ 64" "tr_denom rate < 2 ^ 64"
      "uint (adminidleslope f ! i) * tr_num rate < 2 ^ 64"
      "uint (adminidleslope f ! i) * tr_num rate div tr_denom rate < 2 ^ 32"
    and fclk: "edgx_fqtss_get_clk (st_br (sys_client y)) = Some fclk" "fclk \<noteq> 0"
    and speed: "speed = link_speed (st_link (sys_client y))" "0 \<le> speed" "speed * 1000000 < 2 ^ 32"
    and slope: "slope = min (uint (adminidleslope f ! i) * tr_num rate div tr_denom rate) (speed * 1000000)"
    and z: "sys_client z = sys_client y1" "i < st_queues z" "queues_apart z"
    and off: "edgx_sched_set_gate_enabled (edgx_st_sched_ops dev) cur False z = Some (r, y2)"
  shows "\<exists>f2. st_fqtss (sys_client y2) = Some f2 \<and> adminidleslope f2 = adminidleslope f
     \<and> edgx_st_get_trans_rate_locked y2 i = Inr \<lparr>tr_num = 1, tr_denom = 1\<rparr>
     \<and> idleslope f2 ! i = word_of_int slope \<and> addend f2 ! i = word_of_int (ceil_div (slope * 4096) (uint fclk))
     \<and> edgx_rd16 (sys_io y2) (fq_iobase f2) (FQ_OFFS i) = word_of_int (ceil_div (slope * 4096) (uint fclk))"
proof -
  let ?a = "word_of_int (ceil_div (slope * 4096) (uint fclk)) :: u16"
  obtain f1 where f1: "st_fqtss (sys_client y1) = Some f1"
    and ch: "st_change_from (st_br (sys_client y)) speed (stored_rate y) [0..<st_queues y] f (sys_io y) = Some (f1, sys_io y1)"
    and y1: "sys_client y1 = (sys_client y)\<lparr>st_fqtss := Some f1\<rparr>"
    using config_changed_shapers [OF on(1) f(1)] by (auto simp: speed(1))
  note fr = change_frame [OF ch f(2)]
  have sr: "stored_rate y i = Some rate"
    using on(2) i(2) by (simp add: stored_rate_def edgx_st_get_trans_rate_locked_def rate(1))
  have i8: "i < 8" using change_length [OF ch] i(1) f(2) by (simp add: fq_tabs_def)
  have c1: "addend f1 ! i = ?a \<and> idleslope f1 ! i = word_of_int slope"
  proof (rule change_class [OF _ sr ch refl f(2)])
    fix g :: fqtss
    assume g: "adminidleslope g = adminidleslope f" "fq_tabs g"
    show "edgx_fqtss_calc_idle_slope (st_br (sys_client y)) speed i rate g
        = Some (?a, g\<lparr>idleslope := (idleslope g)[i := word_of_int slope]\<rparr>)"
      using calc_idle_slope_outcome [where f = g, OF fclk rate(2-6)] g rate(7,8) speed(2,3) slope i8
      by (simp add: fq_tabs_def)
  qed (use i(1) in simp_all)
  obtain w where w: "edgx_st_config_changed w = Some y2" "sys_client w = sys_client z" "\<not> gate_enabled (sys_sd w)"
    "iobase (sys_sd w) = iobase (sys_sd z)"
    and io: "\<And>a. a \<notin> {iobase (sys_sd z) + 0x20, iobase (sys_sd z) + 0x30, iobase (sys_sd z) + 0x800, iobase (sys_sd z) + 0x900}
       \<Longrightarrow> sys_io w a = sys_io z a"
    by (rule disable_frame [OF off]) blast
  have fw: "st_fqtss (sys_client w) = Some f1" using w(2) z(1) f1 by simp
  obtain f2 where f2: "st_fqtss (sys_client y2) = Some f2"
    and ch2: "st_change_from (st_br (sys_client w)) (link_speed (st_link (sys_client w))) (stored_rate w) [0..<st_queues w] f1 (sys_io w)
       = Some (f2, sys_io y2)"
    and y2: "sys_client y2 = (sys_client w)\<lparr>st_fqtss := Some f2\<rparr>" "sys_sd y2 = sys_sd w"
    using config_changed_shapers [OF w(1) fw] by auto
  have ung: "rt = \<lparr>tr_num = 1, tr_denom = 1\<rparr>" if "stored_rate w q = Some rt" for q rt
    using that w(3) by (auto simp: stored_rate_def edgx_st_get_trans_rate_locked_def split: if_splits)
  have same: "f2 = f1" by (rule ungated_from [OF ung ch2])
  have "st_queues w = st_queues z"
    using io z(3) w(2) by (auto simp: st_queues_def edgx_br_get_generic_def edgx_rd16_def queues_apart_def)
  then have "fq_reg_ok f2 (sys_io y2) i" using change_frame [OF ch2] fr z(2) by simp
  then have "edgx_rd16 (sys_io y2) (fq_iobase f2) (FQ_OFFS i) = ?a"
    using fr c1 i(3) by (simp add: fq_reg_ok_def same)
  moreover have "edgx_st_get_trans_rate_locked y2 i = Inr \<lparr>tr_num = 1, tr_denom = 1\<rparr>"
    using w(2,3) z(1) y1 i(2) by (simp add: edgx_st_get_trans_rate_locked_def y2)
  ultimately show ?thesis using f2 fr c1 by (simp add: same)
qed

text \<open>Two queues; the gate of queue 1 is open for a third of the cycle.\<close>

definition shaped_fqtss :: fqtss where
  "shaped_fqtss = demo_fqtss\<lparr>fq_iobase := 0x600, tsa_tbl := replicate 8 1, addend := replicate 8 656\<rparr>"

definition shaped_sys :: st_sys where
  "shaped_sys = demo_sys\<lparr>sys_sd := demo_sched\<lparr>gate_enabled := True\<rparr>, sys_io := (\<lambda>_. 0)(0x50000E := 2),
     sys_client := demo_st\<lparr>nr_queues := 2, tr_rate := [\<lparr>tr_num = 1, tr_denom = 1\<rparr>, \<lparr>tr_num = 3, tr_denom = 1\<rparr>],
       st_br := \<lparr>brparam = 0x500000, cycle_ns = 8\<rparr>, st_fqtss := Some shaped_fqtss\<rparr>\<rparr>"

lemma shaped_simps:
  "st_fqtss (sys_client shaped_sys) = Some shaped_fqtss" "gate_enabled (sys_sd shaped_sys)" "nr_queues (sys_client shaped_sys) = 2"
  "tr_rate (sys_client shaped_sys) = [\<lparr>tr_num = 1, tr_denom = 1\<rparr>, \<lparr>tr_num = 3, tr_denom = 1\<rparr>]"
  "st_br (sys_client shaped_sys) = \<lparr>brparam = 0x500000, cycle_ns = 8\<rparr>" "link_speed (st_link (sys_client shaped_sys)) = 1000"
  "st_queues shaped_sys = 2" "iobase (sys_sd shaped_sys) = 0x10000" "sched_state (sys_sd shaped_sys) = EDGX_SCHED_ST_IDLE"
  "\<not> sys_running shaped_sys"
  "edgx_fqtss_get_clk \<lparr>brparam = 0x500000, cycle_ns = 8\<rparr> = Some 125000000"
  by (simp_all add: shaped_sys_def st_queues_def edgx_br_get_generic_def edgx_rd16_def demo_simps edgx_fqtss_get_clk_def
      edgx_br_get_cycle_ns_def)

lemma shaped_tabs: "fq_tabs shaped_fqtss" "tsa_tbl shaped_fqtss = replicate 8 1" "adminidleslope shaped_fqtss = replicate 8 20000000"
  "addend shaped_fqtss = replicate 8 656" "idleslope shaped_fqtss = replicate 8 0" "fq_iobase shaped_fqtss = 0x600"
  by (simp_all add: shaped_fqtss_def demo_fqtss_def fq_tabs_def)

lemma rate_values: "stored_rate shaped_sys 0 = Some \<lparr>tr_num = 1, tr_denom = 1\<rparr>"
  "stored_rate shaped_sys (Suc 0) = Some \<lparr>tr_num = 3, tr_denom = 1\<rparr>"
  by (simp_all add: stored_rate_def edgx_st_get_trans_rate_locked_def shaped_simps)

lemma config_changed_total:
  assumes "st_fqtss (sys_client y) = Some f" "edgx_fqtss_get_clk (st_br (sys_client y)) = Some c"
    and "st_change_from (st_br (sys_client y)) (link_speed (st_link (sys_client y))) (stored_rate y) [0..<st_queues y] f (sys_io y) = Some p"
  shows "\<exists>y'. edgx_st_config_changed y = Some y'"
  using assms by (cases p) (simp add: edgx_st_config_changed_def edgx_fqtss_st_change_def st_queues_def)

lemma gated_run: "\<exists>y1. edgx_st_config_changed shaped_sys = Some y1"
proof -
  let ?br = "\<lparr>brparam = 0x500000, cycle_ns = 8\<rparr>" and ?f = shaped_fqtss
  have u: "[0..<2] = [0, Suc 0]" by (simp add: upt_rec)
  have "\<exists>p. st_change_from ?br 1000 (stored_rate shaped_sys) [0, Suc 0] ?f io = Some p" for io
    by (simp add: shaped_simps rate_values shaped_tabs edgx_fqtss_calc_idle_slope_def edgx_fqtss_write_addend_def
        upd_opt_def nth_opt_def edgx_fqtss_calc_addend_def oper_bitrate_def do_div_def Let_def)
  then obtain p where "st_change_from ?br 1000 (stored_rate shaped_sys) [0..<2] ?f (sys_io shaped_sys) = Some p"
    unfolding u by blast
  then show ?thesis by (intro config_changed_total [OF shaped_simps(1)]) (simp_all add: shaped_simps)
qed

lemma change_cells:
  "st_change_from br speed rate is f io = Some (f', io') \<Longrightarrow> a \<notin> (\<lambda>i. fq_iobase f + FQ_OFFS i) ` set is \<Longrightarrow> io' a = io a"
proof (induction "is" arbitrary: f io)
  case (Cons j "is")
  from Cons.prems(1) obtain r b f1 f2 io2 where
    1: "edgx_fqtss_calc_idle_slope br speed j r f = Some (b, f1)"
    and 2: "edgx_fqtss_write_addend b j f1 io = Some (f2, io2)"
    and 3: "st_change_from br speed rate is f2 io2 = Some (f', io')"
    by (auto simp: bind_eq_Some)
  have "fq_iobase f1 = fq_iobase f"
    using 1 by (auto simp: edgx_fqtss_calc_idle_slope_def bind_eq_Some Let_def split: if_splits)
  with 2 Cons.prems(2) have "fq_iobase f2 = fq_iobase f" "io2 a = io a"
    by (auto simp: edgx_fqtss_write_addend_def bind_eq_Some edgx_wr16_def split: if_splits)
  with Cons.IH [OF 3] Cons.prems(2) show ?case by simp
qed simp

lemma ungated_run:
  assumes "\<And>i. i \<in> set is \<Longrightarrow> i < 8 \<and> rate i = Some \<lparr>tr_num = 1, tr_denom = 1\<rparr>" "fq_tabs f"
    "edgx_fqtss_get_clk br = Some c"
  shows "\<exists>p. st_change_from br speed rate is f io = Some p"
  using assms
proof (induction "is" arbitrary: f io)
  case (Cons i "is")
  have i: "i < 8" "rate i = Some \<lparr>tr_num = 1, tr_denom = 1\<rparr>" using Cons.prems(1) by simp_all
  then obtain f2 io2 where 1: "edgx_fqtss_write_addend (addend f ! i) i f io = Some (f2, io2)"
    using Cons.prems(2) by (simp add: edgx_fqtss_write_addend_def upd_opt_def nth_opt_def fq_tabs_def)
  have "\<exists>p. st_change_from br speed rate is f2 io2 = Some p"
    using Cons.IH [OF _ write_addend_reg(1) [OF 1 Cons.prems(2)]] Cons.prems by simp
  with i 1 Cons.prems(2,3) show ?case
    by (simp add: edgx_fqtss_calc_idle_slope_def nth_opt_def fq_tabs_def)
qed simp

theorem disabled_gates_keep_gated_slope_witness:
  "\<exists>y1 y2 f2. edgx_st_config_changed shaped_sys = Some y1
     \<and> edgx_sched_set_gate_enabled (edgx_st_sched_ops id) zero_timespec False y1 = Some (0, y2)
     \<and> st_fqtss (sys_client y2) = Some f2 \<and> idleslope f2 ! 1 = 60000000
     \<and> edgx_rd16 (sys_io y2) (fq_iobase f2) (FQ_OFFS 1) = 1967
     \<and> adminidleslope f2 ! 1 = 20000000 \<and> edgx_fqtss_calc_addend 20000000 125000000 = Some 656"
proof -
  let ?r = "\<lparr>tr_num = 3, tr_denom = 1\<rparr>" and ?ops = "edgx_st_sched_ops id"
  obtain y1 where on: "edgx_st_config_changed shaped_sys = Some y1" using gated_run by blast
  obtain f1 where f1: "st_fqtss (sys_client y1) = Some f1" "sys_client y1 = (sys_client shaped_sys)\<lparr>st_fqtss := Some f1\<rparr>"
    "sys_sd y1 = sys_sd shaped_sys" and ch: "st_change_from (st_br (sys_client shaped_sys))
      (link_speed (st_link (sys_client shaped_sys))) (stored_rate shaped_sys) [0..<st_queues shaped_sys] shaped_fqtss
      (sys_io shaped_sys) = Some (f1, sys_io y1)"
    by (rule config_changed_shapers [OF on shaped_simps(1)])
  have q1: "st_queues y1 = 2" "st_queues (y1\<lparr>sys_io := edgx_sched_hw_disable (sys_io y1) 0x10000 gs, sys_sd := sd\<rparr>) = 2" for sd gs
  proof -
    have "sys_io y1 0x50000E = sys_io shaped_sys 0x50000E"
      by (rule change_cells [OF ch]) (auto simp: shaped_simps shaped_tabs)
    then show "st_queues y1 = 2" "st_queues (y1\<lparr>sys_io := edgx_sched_hw_disable (sys_io y1) 0x10000 gs, sys_sd := sd\<rparr>) = 2"
      by (simp_all add: st_queues_def f1(2) edgx_br_get_generic_def edgx_rd16_def shaped_sys_def edgx_sched_hw_disable_def edgx_wr16_def)
  qed
  have off: "\<exists>y2. edgx_sched_set_gate_enabled ?ops zero_timespec False y1 = Some (0, y2)"
  proof -
    let ?gs = "tab_gate_states (admin_tab (sys_sd shaped_sys))"
    let ?z = "y1\<lparr>sys_io := edgx_sched_hw_disable (sys_io y1) 0x10000 ?gs,
      sys_sd := (sys_sd shaped_sys)\<lparr>gate_enabled := False, sched_state := EDGX_SCHED_ST_IDLE\<rparr>\<rparr>"
    have "\<exists>p. st_change_from (st_br (sys_client ?z)) (link_speed (st_link (sys_client ?z))) (stored_rate ?z)
        [0..<st_queues ?z] f1 (sys_io ?z) = Some p"
      using change_frame [OF ch shaped_tabs(1)]
      by (intro ungated_run [where c = 125000000])
        (auto simp: q1(2) f1(2) stored_rate_def edgx_st_get_trans_rate_locked_def shaped_simps)
    then obtain p where p: "st_change_from (st_br (sys_client ?z)) (link_speed (st_link (sys_client ?z))) (stored_rate ?z)
        [0..<st_queues ?z] f1 (sys_io ?z) = Some p" by blast
    have "\<exists>y2. edgx_st_config_changed ?z = Some y2"
      by (rule config_changed_total [OF _ _ p]) (simp_all add: f1(2) shaped_simps)
    then obtain y2 where "edgx_st_config_changed ?z = Some y2" by blast
    then show ?thesis
      by (simp add: edgx_sched_set_gate_enabled_def edgx_sched_stm_gate_disable_def sched_cancel_current_def
          edgx_sched_notify_def edgx_st_sched_ops_def f1(3) shaped_simps Let_def)
  qed
  then obtain y2 where off: "edgx_sched_set_gate_enabled ?ops zero_timespec False y1 = Some (0, y2)" by blast
  have ap: "queues_apart y1" by (simp add: queues_apart_def f1 shaped_simps)
  have adm: "edgx_fqtss_calc_addend 20000000 125000000 = Some 656"
    using calc_addend_ceil [of 125000000 20000000] by (simp add: ceil_div_def)
  have i: "1 < st_queues shaped_sys" "1 < nr_queues (sys_client shaped_sys)" "tsa_tbl shaped_fqtss ! 1 = CBS" "1 < st_queues y1"
    by (simp_all add: shaped_simps shaped_tabs q1(1))
  have rt: "?r = tr_rate (sys_client shaped_sys) ! 1" "0 < tr_num ?r" "0 < tr_denom ?r" "\<not> (tr_num ?r = 1 \<and> tr_denom ?r = 1)"
    "tr_num ?r < 2 ^ 64" "tr_denom ?r < 2 ^ 64" by (simp_all add: shaped_simps)
  have a1: "adminidleslope shaped_fqtss ! 1 = 20000000" by (simp add: shaped_tabs)
  have bd: "uint (adminidleslope shaped_fqtss ! 1) * tr_num ?r < 2 ^ 64"
    "uint (adminidleslope shaped_fqtss ! 1) * tr_num ?r div tr_denom ?r < 2 ^ 32"
    "60000000 = min (uint (adminidleslope shaped_fqtss ! 1) * tr_num ?r div tr_denom ?r) (1000 * 1000000)"
    unfolding a1 by simp_all
  have c: "edgx_fqtss_get_clk (st_br (sys_client shaped_sys)) = Some 125000000" "(125000000 :: u32) \<noteq> 0"
    "1000 = link_speed (st_link (sys_client shaped_sys))" "(0 :: int) \<le> 1000" "(1000 :: int) * 1000000 < 2 ^ 32"
    by (simp_all add: shaped_simps)
  obtain f2 where "st_fqtss (sys_client y2) = Some f2" "adminidleslope f2 = adminidleslope shaped_fqtss"
    "idleslope f2 ! 1 = word_of_int 60000000"
    "edgx_rd16 (sys_io y2) (fq_iobase f2) (FQ_OFFS 1) = word_of_int (ceil_div (60000000 * 4096) (uint (125000000 :: u32)))"
    using disabled_gates_keep_gated_slope [OF on shaped_simps(2,1) shaped_tabs(1) i(1-3) rt bd(1,2) c bd(3) refl i(4) ap off]
    by blast
  moreover have "ceil_div (60000000 * 4096) (uint (125000000 :: u32)) = 1967" by (simp add: ceil_div_def)
  ultimately show ?thesis using on off adm a1 by auto
qed

end
