(* ===== verification/VlanData.thy ===== *)
theory VlanData
  imports LinkDelay
begin

text \<open>
  The VLAN tables of the bridge (\<open>edge_br_vlan.c\<close>): VLANs, filtering identifiers (FIDs) and spanning
  trees (MSTIs), their lookups and the iteration over the VLANs of a FID that the forwarding
  database uses; and the port registers that the VLAN code changes (\<open>edge_port.c\<close>).

  The C structures point at each other; here a pointer to an element of one of the three arrays is
  its index, NULL is \<open>None\<close>, and a linked list is the list of the indices of its members. The arrays
  are allocated with \<open>max_vlans\<close>, \<open>max_fids\<close> and \<open>max_mstis\<close> elements; the loops over them are loops
  over the lists.
\<close>

unbundle bit_operations_syntax

section \<open>Data\<close>

record vlan_ent =
  vid :: u16
  vl_fid :: "nat option"
  ptvec :: u32

record fid_ent =
  vlanlist :: "nat list"
  fid :: u16
  fd_msti :: "nat option"

record msti_ent =
  mstid :: u16
  fidlist :: "nat list"
  ptstate :: "u8 list"

text \<open>A bridge port: its number and the base of its registers.\<close>

record edgx_pt =
  pt_id :: nat
  pt_iobase :: nat

record br_vlan =
  bv_iobase :: nat
  bv_ports :: "edgx_pt option list"
  nvlans :: u16
  max_vlans :: u16
  max_fids :: u16
  max_mstis :: u16
  vids :: "vlan_ent list"
  fids :: "fid_ent list"
  mstis :: "msti_ent list"

abbreviation (input) EDGX_CIST_MSTID :: u16 where "EDGX_CIST_MSTID \<equiv> 0"
abbreviation (input) EDGX_TE_MSTID :: u16 where "EDGX_TE_MSTID \<equiv> 0xFFE"
abbreviation (input) EDGX_SPBM_MSTID :: u16 where "EDGX_SPBM_MSTID \<equiv> 0xFFC"
abbreviation (input) EDGX_SPBV_MSTID :: u16 where "EDGX_SPBV_MSTID \<equiv> 0xFFD"
abbreviation (input) EDGX_INVALID_MSTID :: u16 where "EDGX_INVALID_MSTID \<equiv> 0xFFF"
abbreviation (input) EDGX_MAX_SUPP_MSTI :: u16 where "EDGX_MAX_SUPP_MSTI \<equiv> 64"
abbreviation (input) EDGX_BR_MAX_PORTS :: nat where "EDGX_BR_MAX_PORTS \<equiv> 16"
abbreviation (input) INVALID_VID :: u16 where "INVALID_VID \<equiv> 0"
abbreviation (input) CIST_IDX :: nat where "CIST_IDX \<equiv> 0"
abbreviation (input) TE_IDX :: nat where "TE_IDX \<equiv> 1"

text \<open>The port states of the Linux bridge.\<close>

abbreviation (input) BR_STATE_DISABLED :: u8 where "BR_STATE_DISABLED \<equiv> 0"
abbreviation (input) BR_STATE_LISTENING :: u8 where "BR_STATE_LISTENING \<equiv> 1"
abbreviation (input) BR_STATE_LEARNING :: u8 where "BR_STATE_LEARNING \<equiv> 2"
abbreviation (input) BR_STATE_FORWARDING :: u8 where "BR_STATE_FORWARDING \<equiv> 3"
abbreviation (input) BR_STATE_BLOCKING :: u8 where "BR_STATE_BLOCKING \<equiv> 4"

section \<open>Lookups\<close>

definition is_reserved_mstid :: "u16 \<Rightarrow> bool" where
  "is_reserved_mstid m \<longleftrightarrow> m = EDGX_CIST_MSTID \<or> m = EDGX_TE_MSTID \<or> m = EDGX_SPBM_MSTID
     \<or> m = EDGX_SPBV_MSTID \<or> m = EDGX_INVALID_MSTID"

definition edgx_br_vlan_get_vlan :: "br_vlan \<Rightarrow> u16 \<Rightarrow> nat option" where
  "edgx_br_vlan_get_vlan brvlan v = find_idx (\<lambda>e. vid e = v) (vids brvlan)"

definition edgx_br_vlan_get_free_vlan :: "br_vlan \<Rightarrow> nat option" where
  "edgx_br_vlan_get_free_vlan brvlan = edgx_br_vlan_get_vlan brvlan INVALID_VID"

definition edgx_br_vlan_get_fid :: "br_vlan \<Rightarrow> u16 \<Rightarrow> nat option" where
  "edgx_br_vlan_get_fid brvlan f = find_idx (\<lambda>e. fid e = f) (fids brvlan)"

definition edgx_br_vlan_get_free_fid :: "br_vlan \<Rightarrow> nat option" where
  "edgx_br_vlan_get_free_fid brvlan = find_idx (\<lambda>e. vlanlist e = []) (fids brvlan)"

definition edgx_br_vlan_get_msti :: "br_vlan \<Rightarrow> u16 \<Rightarrow> nat option" where
  "edgx_br_vlan_get_msti brvlan m = find_idx (\<lambda>e. mstid e = m) (mstis brvlan)"

definition edgx_br_vlan_get_free_msti :: "br_vlan \<Rightarrow> nat option" where
  "edgx_br_vlan_get_free_msti brvlan = edgx_br_vlan_get_msti brvlan EDGX_INVALID_MSTID"

section \<open>Iteration over the VLANs of a FID\<close>

text \<open>The VLAN iterator is the rest of the FID's list from the current VLAN on; NULL is the empty list.\<close>

definition edgx_br_vlan_iter_fid_vlans :: "br_vlan \<Rightarrow> u16 \<Rightarrow> nat option \<times> nat list" where
  "edgx_br_vlan_iter_fid_vlans brvlan fidno =
     (case edgx_br_vlan_get_fid brvlan fidno of
        None \<Rightarrow> (None, [])
      | Some i \<Rightarrow> (Some i, vlanlist (fids brvlan ! i)))"

definition edgx_br_vlan_get_fid_vlan :: "br_vlan \<Rightarrow> nat list \<Rightarrow> (u16 \<times> nat list) option" where
  "edgx_br_vlan_get_fid_vlan brvlan vlan_iter =
     (case vlan_iter of [] \<Rightarrow> None | v # rest \<Rightarrow> do { e \<leftarrow> nth_opt (vids brvlan) v; Some (vid e, rest) })"

section \<open>Port registers\<close>

text \<open>
  The forwarding state of a FID on a port: two bits per FID, eight FIDs per register. An unknown
  state changes nothing.
\<close>

definition stp_hwstate :: "u8 \<Rightarrow> u16 option" where
  "stp_hwstate st =
     (if st = BR_STATE_FORWARDING then Some 0
      else if st = BR_STATE_LEARNING then Some 1
      else if st = BR_STATE_LISTENING \<or> st = BR_STATE_DISABLED \<or> st = BR_STATE_BLOCKING then Some 2
      else None)"

definition edgx_pt_set_fid_fwd_state :: "u16 \<Rightarrow> edgx_pt \<Rightarrow> u16 \<Rightarrow> u8 \<Rightarrow> iomem \<Rightarrow> iomem" where
  "edgx_pt_set_fid_fwd_state ub pt f st io =
     (case stp_hwstate st of None \<Rightarrow> io
      | Some hwstate \<Rightarrow>
          let ofs = unat f div 8 * 2; bitlo = int (unat f mod 8) * 2
          in edgx_set16 ub io (pt_iobase pt) (0x80 + ofs) (bitlo + 1) bitlo hwstate)"

definition edgx_pt_set_pvid :: "u16 \<Rightarrow> edgx_pt \<Rightarrow> u16 \<Rightarrow> iomem \<Rightarrow> iomem" where
  "edgx_pt_set_pvid ub pt v io =
     (let io = edgx_set16 ub io (pt_iobase pt) 0x10 11 0 v
      in edgx_set16 ub io (pt_iobase pt) 0x12 11 0 v)"

definition edgx_pt_clear_pvid :: "u16 \<Rightarrow> edgx_pt \<Rightarrow> iomem \<Rightarrow> iomem" where
  "edgx_pt_clear_pvid ub pt io = edgx_pt_set_pvid ub pt 0xFFF io"

definition edgx_pt_get_pvid :: "u16 \<Rightarrow> edgx_pt \<Rightarrow> iomem \<Rightarrow> u16" where
  "edgx_pt_get_pvid ub pt io = edgx_get16 ub io (pt_iobase pt) 0x10 11 0"

text \<open>The port of a number: none for a negative number or one past the array.\<close>

definition edgx_br_get_brpt :: "edgx_pt option list \<Rightarrow> int \<Rightarrow> edgx_pt option option" where
  "edgx_br_get_brpt pts ptid =
     (if ptid < int EDGX_BR_MAX_PORTS then (if ptid < 0 then None else nth_opt pts (nat ptid)) else Some None)"

lemma set_pvid_get: "edgx_pt_get_pvid ub pt (edgx_pt_set_pvid ub pt v io) = v AND mask 12"
proof -
  have "edgx_get16 ub (edgx_set16 ub io' (pt_iobase pt) 0x12 11 0 v) (pt_iobase pt) 0x10 11 0
      = edgx_get16 ub io' (pt_iobase pt) 0x10 11 0" for io'
    by (simp add: edgx_get16_def edgx_set16_def Let_def)
  with edgx_get_set16 [of 0 11 ub io "pt_iobase pt" "0x10" v] show ?thesis
    by (simp add: edgx_pt_get_pvid_def edgx_pt_set_pvid_def Let_def)
qed

end
