(* ===== verification/BrFdb.thy ===== *)
theory BrFdb
  imports VlanData
begin

text \<open>
  The static forwarding database of the bridge (\<open>edge_br_fdb.c\<close>, first half): the hash of a MAC
  address and VLAN to one row per column, reading and writing an entry through the table registers,
  and the operations that add and delete ports and stream handles. A MAC address is a list of six
  bytes; a byte array that the code accesses as 16-bit words is little-endian.
\<close>

unbundle bit_operations_syntax

section \<open>Data\<close>

record smac_entry =
  general :: u16
  mac :: "u8 list"
  fwd_mask :: u16
  policed_pts :: u16
  policer :: u16
  vlan :: u16
  stream_no :: u16

record edgx_brfdb =
  fdb_br :: edgx_br
  fdb_iobase :: nat
  nrows :: u16
  sents :: u32

text \<open>A stream of the stream identification (\<open>struct edgx_sid\<close>).\<close>

record edgx_sid =
  sid_addr :: "u8 list"
  sid_vid :: u16
  id_type :: u32
  str_hdl :: u16
  sid_port_mask :: u16
  valid_fdb :: bool

abbreviation (input) VID_WILDCARD :: u16 where "VID_WILDCARD \<equiv> 0"
abbreviation (input) SMAC_NCOLS :: nat where "SMAC_NCOLS \<equiv> 4"
abbreviation (input) NCOLS_VLAN :: nat where "NCOLS_VLAN \<equiv> 2"
abbreviation (input) COL_VLAN :: u8 where "COL_VLAN \<equiv> 1"
abbreviation (input) COL_WILDCARD :: u8 where "COL_WILDCARD \<equiv> 0"

definition SMAC_CTL_POS :: "u16 \<Rightarrow> u16 \<Rightarrow> u16" where
  "SMAC_CTL_POS row col = push_bit 12 (col AND 3) OR (row AND 0xFFF)"

definition column :: "u8 list" where
  "column = [COL_VLAN, COL_VLAN, COL_WILDCARD, COL_WILDCARD]"

section \<open>Predicates on an entry\<close>

definition edgx_brfdb_is_fdb_used :: "smac_entry \<Rightarrow> bool" where
  "edgx_brfdb_is_fdb_used e \<longleftrightarrow> general e AND 0x8000 \<noteq> 0"

definition edgx_brfdb_is_sid_used :: "smac_entry \<Rightarrow> bool" where
  "edgx_brfdb_is_sid_used e \<longleftrightarrow> general e AND 0x40 \<noteq> 0"

definition edgx_brfdb_is_smac_match :: "smac_entry \<Rightarrow> u8 list \<Rightarrow> u16 \<Rightarrow> bool" where
  "edgx_brfdb_is_smac_match e m v \<longleftrightarrow> m = mac e \<and> v = vlan e"

definition edgx_brfdb_is_sid_fit :: "smac_entry \<Rightarrow> u8 list \<Rightarrow> u16 \<Rightarrow> bool" where
  "edgx_brfdb_is_sid_fit e m v \<longleftrightarrow> edgx_brfdb_is_sid_used e \<and> edgx_brfdb_is_smac_match e m v"

definition edgx_brfdb_is_fdb_fit :: "smac_entry \<Rightarrow> u8 list \<Rightarrow> u16 \<Rightarrow> bool" where
  "edgx_brfdb_is_fdb_fit e m v \<longleftrightarrow> edgx_brfdb_is_fdb_used e \<and> edgx_brfdb_is_smac_match e m v"

definition edgx_brfdb_col_is_vid :: "nat \<Rightarrow> u16 \<Rightarrow> bool" where
  "edgx_brfdb_col_is_vid col v =
     (if v = VID_WILDCARD then column ! col = COL_WILDCARD else column ! col = COL_VLAN)"

section \<open>Hash\<close>

definition crc40tbl :: "u64 list" where
  "crc40tbl =
     [0x000000000, 0x104c11db7, 0x209823b6e, 0x30d4326d9,
      0x4130476dc, 0x517c56b6b, 0x61a864db2, 0x71e475005,
      0x82608edb8, 0x922c9f00f, 0xa2f8ad6d6, 0xb2b4bcb61,
      0xc350c9b64, 0xd31cd86d3, 0xe3c8ea00a, 0xf384fbdbd]"

definition crc_nibble :: "u8 \<Rightarrow> u64 \<Rightarrow> u64" where
  "crc_nibble n crc =
     push_bit 4 crc XOR crc40tbl ! unat (((ucast (drop_bit 36 crc) :: u8) AND 0xf) XOR n)"

text \<open>Both nibbles of a byte, the high one first.\<close>

definition crc_byte :: "u8 \<Rightarrow> u64 \<Rightarrow> u64" where
  "crc_byte b crc = crc_nibble (b AND 0xf) (crc_nibble (drop_bit 4 b) crc)"

definition edgx_brfdb_calc_smac_rows :: "edgx_brfdb \<Rightarrow> u8 list \<Rightarrow> u16 \<Rightarrow> u16 list" where
  "edgx_brfdb_calc_smac_rows brfdb m v =
     (let crc = fold crc_byte (take 6 m) (NOT 0);
          crc = crc AND 0xffffffffff;
          extra = push_bit 10 (ucast ((m ! 3 XOR m ! 4) AND 3) :: u64);
          hash = extra OR (crc AND 0x3ff);
          hash = hash OR push_bit 16 (extra OR (drop_bit 10 crc AND 0x3ff));
          hash = hash OR push_bit 32 (extra OR (drop_bit 20 crc AND 0x3ff));
          hash = hash OR push_bit 48 (extra OR (drop_bit 30 crc AND 0x3ff));
          w = (ucast v :: u64);
          hash = (if v \<noteq> VID_WILDCARD
                  then hash XOR (push_bit 48 w OR push_bit 32 w OR push_bit 16 w OR w) else hash);
          msk = (ucast (nrows brfdb) :: u64) - 1
      in map (\<lambda>i. ucast (drop_bit (16 * i) hash AND msk)) [0..<SMAC_NCOLS])"

section \<open>Table registers\<close>

definition mac16 :: "u8 list \<Rightarrow> nat \<Rightarrow> u16" where
  "mac16 m i = ucast (m ! (2 * i)) OR push_bit 8 (ucast (m ! (2 * i + 1)))"

definition mac_bytes :: "u16 \<Rightarrow> u16 \<Rightarrow> u16 \<Rightarrow> u8 list" where
  "mac_bytes a b c =
     [ucast a, ucast (drop_bit 8 a), ucast b, ucast (drop_bit 8 b), ucast c, ucast (drop_bit 8 c)]"

definition smac_busy :: "nat \<Rightarrow> iomem \<Rightarrow> bool" where
  "smac_busy base io \<longleftrightarrow> edgx_rd16 io base 0x220 AND 0x8000 \<noteq> 0"

definition edgx_brfdb_smac_get ::
  "device \<Rightarrow> edgx_brfdb \<Rightarrow> nat \<Rightarrow> u16 \<Rightarrow> iomem \<Rightarrow> (smac_entry \<times> iomem) option" where
  "edgx_brfdb_smac_get dev brfdb col row io = do {
     let base = fdb_iobase brfdb;
     let io = edgx_wr16 io base 0x220 (0x8000 OR SMAC_CTL_POS row (of_nat col));
     io \<leftarrow> wait_clear dev (smac_busy base) io;
     Some (\<lparr>general = edgx_rd16 io base 0x230,
            mac = mac_bytes (edgx_rd16 io base 0x232) (edgx_rd16 io base 0x234) (edgx_rd16 io base 0x236),
            fwd_mask = edgx_rd16 io base 0x238, policed_pts = 0, policer = 0,
            vlan = edgx_rd16 io base 0x23E, stream_no = edgx_rd16 io base 0x240\<rparr>, io)
   }"

definition edgx_brfdb_smac_set ::
  "device \<Rightarrow> edgx_brfdb \<Rightarrow> nat \<Rightarrow> u16 \<Rightarrow> smac_entry \<Rightarrow> bool \<Rightarrow> iomem \<Rightarrow> iomem option" where
  "edgx_brfdb_smac_set dev brfdb col row e sid io =
     (let base = fdb_iobase brfdb;
          io = edgx_wr16 io base 0x230 (general e);
          io = edgx_wr16 io base 0x232 (mac16 (mac e) 0);
          io = edgx_wr16 io base 0x234 (mac16 (mac e) 1);
          io = edgx_wr16 io base 0x236 (mac16 (mac e) 2);
          io = edgx_wr16 io base 0x23A 0;
          io = edgx_wr16 io base 0x23C 0;
          io = edgx_wr16 io base 0x23E (vlan e);
          io = edgx_wr16 io base 0x238 (fwd_mask e);
          io = (if sid then edgx_wr16 io base 0x240 (stream_no e) else io);
          io = edgx_wr16 io base 0x220 (0xC000 OR SMAC_CTL_POS row (of_nat col))
      in wait_clear dev (smac_busy base) io)"

text \<open>The loop that reads the entries at the hash positions of the columns \<open>cols\<close>.\<close>

fun smac_get_all ::
  "device \<Rightarrow> edgx_brfdb \<Rightarrow> u16 list \<Rightarrow> nat list \<Rightarrow> iomem \<Rightarrow> (smac_entry list \<times> iomem) option" where
  "smac_get_all dev brfdb row [] io = Some ([], io)"
| "smac_get_all dev brfdb row (i # is) io = do {
     (e, io) \<leftarrow> edgx_brfdb_smac_get dev brfdb i (row ! i) io;
     (es, io) \<leftarrow> smac_get_all dev brfdb row is io;
     Some (e # es, io)
   }"

definition edgx_brfdb_set_general :: "smac_entry \<Rightarrow> smac_entry" where
  "edgx_brfdb_set_general e =
     (let g = (if fwd_mask e \<noteq> 0 then general e OR 0x8000 else general e AND NOT 0x8000)
      in e\<lparr>general := (if vlan e = VID_WILDCARD then g AND NOT 0x1000 else g OR 0x1000)\<rparr>)"

section \<open>Operations\<close>

definition edgx_brfdb_sz :: "edgx_brfdb option \<Rightarrow> u32" where
  "edgx_brfdb_sz brfdb = (case brfdb of None \<Rightarrow> 0 | Some f \<Rightarrow> ucast (nrows f) * 4)"

definition edgx_brfdb_nsmac :: "edgx_brfdb option \<Rightarrow> u32" where
  "edgx_brfdb_nsmac brfdb = (case brfdb of None \<Rightarrow> 0 | Some f \<Rightarrow> sents f)"

text \<open>The shift \<open>1 << frer_streams\<close> is undefined from 31 on.\<close>

definition edgx_brfdb_sid_get_max_str :: "edgx_brfdb \<Rightarrow> iomem \<Rightarrow> u16 option" where
  "edgx_brfdb_sid_get_max_str brfdb io =
     (let frer_streams = edgx_br_get_generic io (fdb_br brfdb) 0x28;
          fdb_streams = edgx_brfdb_sz (Some brfdb) div 2
      in if unat frer_streams \<ge> 31 then None
         else if fdb_streams < push_bit (unat frer_streams) 1 then Some (ucast fdb_streams)
         else Some (push_bit (unat frer_streams) 1))"

definition edgx_brfdb_sid_get_smac ::
  "device \<Rightarrow> edgx_brfdb \<Rightarrow> nat \<Rightarrow> u16 \<Rightarrow> iomem \<Rightarrow> ((u8 list \<times> u16) \<times> iomem) option" where
  "edgx_brfdb_sid_get_smac dev brfdb col row io = do {
     (e, io) \<leftarrow> edgx_brfdb_smac_get dev brfdb col row io;
     Some ((mac e, vlan e), io)
   }"

definition edgx_brfdb_sid_add ::
  "device \<Rightarrow> edgx_brfdb \<Rightarrow> edgx_sid \<Rightarrow> iomem \<Rightarrow> (int \<times> edgx_brfdb \<times> edgx_sid \<times> iomem) option" where
  "edgx_brfdb_sid_add dev brfdb sid io = do {
     let row = edgx_brfdb_calc_smac_rows brfdb (sid_addr sid) (sid_vid sid);
     (e, io) \<leftarrow> smac_get_all dev brfdb row [0..<NCOLS_VLAN] io;
     if \<exists>x \<in> set e. edgx_brfdb_is_fdb_fit x (sid_addr sid) (sid_vid sid)
          \<and> stream_no x = str_hdl sid \<and> edgx_brfdb_is_sid_used x
     then Some (0, brfdb, sid, io)
     else case find_idx (\<lambda>x. \<not> edgx_brfdb_is_sid_used x) e of
       None \<Rightarrow> Some (- ENOMEM, brfdb, sid, io)
     | Some i \<Rightarrow> do {
         let g = general (e ! i) OR 0x1040;
         let x = (e ! i)\<lparr>mac := sid_addr sid, vlan := sid_vid sid,
                         general := (if id_type sid \<noteq> 0 then g OR 0x80 else g), stream_no := str_hdl sid\<rparr>;
         io \<leftarrow> edgx_brfdb_smac_set dev brfdb i (row ! i) x True io;
         Some (0, brfdb\<lparr>sents := sents brfdb + 1\<rparr>, sid\<lparr>valid_fdb := True\<rparr>, io)
       }
   }"

definition edgx_brfdb_add ::
  "device \<Rightarrow> edgx_brfdb \<Rightarrow> u8 list \<Rightarrow> u16 \<Rightarrow> nat \<Rightarrow> iomem \<Rightarrow> (int \<times> edgx_brfdb \<times> iomem) option" where
  "edgx_brfdb_add dev brfdb addr v ptid io = do {
     let row = edgx_brfdb_calc_smac_rows brfdb addr v;
     (e, io) \<leftarrow> smac_get_all dev brfdb row [0..<SMAC_NCOLS] io;
     case find_idx (\<lambda>x. edgx_brfdb_is_fdb_fit x addr v) e of
       Some i \<Rightarrow> do {
         let x = edgx_brfdb_set_general ((e ! i)\<lparr>fwd_mask := fwd_mask (e ! i) OR BIT ptid\<rparr>);
         io \<leftarrow> edgx_brfdb_smac_set dev brfdb i (row ! i) x (edgx_brfdb_is_sid_used x) io;
         Some (0, brfdb, io)
       }
     | None \<Rightarrow>
         (case find_idx (\<lambda>i. \<not> edgx_brfdb_is_fdb_used (e ! i) \<and> edgx_brfdb_col_is_vid i v) [0..<SMAC_NCOLS] of
            None \<Rightarrow> Some (- ENOMEM, brfdb, io)
          | Some i \<Rightarrow> do {
              let x = edgx_brfdb_set_general ((e ! i)\<lparr>mac := addr, fwd_mask := BIT ptid,
                        policed_pts := 0, policer := 0, vlan := v\<rparr>);
              io \<leftarrow> edgx_brfdb_smac_set dev brfdb i (row ! i) x False io;
              Some (0, brfdb\<lparr>sents := sents brfdb + 1\<rparr>, io)
            })
   }"

definition edgx_brfdb_sid_del ::
  "device \<Rightarrow> edgx_brfdb \<Rightarrow> u8 list \<Rightarrow> u16 \<Rightarrow> iomem \<Rightarrow> (int \<times> iomem) option" where
  "edgx_brfdb_sid_del dev brfdb addr v io = do {
     let row = edgx_brfdb_calc_smac_rows brfdb addr v;
     (e, io) \<leftarrow> smac_get_all dev brfdb row [0..<NCOLS_VLAN] io;
     case find_idx (\<lambda>x. edgx_brfdb_is_sid_fit x addr v) e of
       None \<Rightarrow> Some (0, io)
     | Some i \<Rightarrow> do {
         let x = (e ! i)\<lparr>general := general (e ! i) AND NOT 0x40\<rparr>;
         io \<leftarrow> edgx_brfdb_smac_set dev brfdb i (row ! i) x True io;
         Some (0, io)
       }
   }"

definition edgx_brfdb_del ::
  "device \<Rightarrow> edgx_brfdb \<Rightarrow> u8 list \<Rightarrow> u16 \<Rightarrow> nat \<Rightarrow> iomem \<Rightarrow> (int \<times> edgx_brfdb \<times> iomem) option" where
  "edgx_brfdb_del dev brfdb addr v ptid io = do {
     let row = edgx_brfdb_calc_smac_rows brfdb addr v;
     (e, io) \<leftarrow> smac_get_all dev brfdb row [0..<SMAC_NCOLS] io;
     case find_idx (\<lambda>x. edgx_brfdb_is_fdb_fit x addr v) e of
       None \<Rightarrow> Some (0, brfdb, io)
     | Some i \<Rightarrow> do {
         let x = edgx_brfdb_set_general ((e ! i)\<lparr>fwd_mask := fwd_mask (e ! i) AND NOT (BIT ptid)\<rparr>);
         io \<leftarrow> edgx_brfdb_smac_set dev brfdb i (row ! i) x (edgx_brfdb_is_sid_used x) io;
         Some (0, if fwd_mask x = 0 then brfdb\<lparr>sents := sents brfdb - 1\<rparr> else brfdb, io)
       }
   }"

text \<open>The dump calls \<open>cb\<close> on every used entry of the port, by row and column; the last error wins.\<close>

fun dump_from ::
  "device \<Rightarrow> edgx_brfdb \<Rightarrow> (u8 list \<Rightarrow> u16 \<Rightarrow> int) \<Rightarrow> nat \<Rightarrow> (nat \<times> nat) list \<Rightarrow> int \<Rightarrow> iomem
     \<Rightarrow> (int \<times> (u8 list \<times> u16) list \<times> iomem) option" where
  "dump_from dev brfdb cb ptid [] stored_r io = Some (stored_r, [], io)"
| "dump_from dev brfdb cb ptid ((row, col) # ps) stored_r io = do {
     (e, io) \<leftarrow> edgx_brfdb_smac_get dev brfdb col (of_nat row) io;
     let hit = fwd_mask e AND BIT ptid \<noteq> 0 \<and> edgx_brfdb_is_fdb_used e;
     let r = (if hit then cb (mac e) (vlan e) else 0);
     (stored_r, calls, io) \<leftarrow> dump_from dev brfdb cb ptid ps (if r \<noteq> 0 then r else stored_r) io;
     Some (stored_r, if hit then (mac e, vlan e) # calls else calls, io)
   }"

definition edgx_brfdb_dump ::
  "device \<Rightarrow> edgx_brfdb \<Rightarrow> (u8 list \<Rightarrow> u16 \<Rightarrow> int) \<Rightarrow> nat \<Rightarrow> iomem \<Rightarrow> (int \<times> (u8 list \<times> u16) list \<times> iomem) option" where
  "edgx_brfdb_dump dev brfdb cb ptid io =
     dump_from dev brfdb cb ptid (List.product [0..<unat (nrows brfdb)] [0..<SMAC_NCOLS]) 0 io"

definition edgx_brfdb_init :: "u16 \<Rightarrow> edgx_br \<Rightarrow> nat \<Rightarrow> iomem \<Rightarrow> (int + edgx_brfdb) \<times> iomem" where
  "edgx_brfdb_init ub br base io =
     (let n = (ucast (edgx_br_get_generic_pow2z io br 0x8) :: u16)
      in if n = 0 then (Inl (- ENODEV), io)
         else let io = edgx_set16 ub io base 0x222 1 0 (ucast (column ! 0));
                  io = edgx_set16 ub io base 0x222 3 2 (ucast (column ! 1));
                  io = edgx_set16 ub io base 0x222 5 4 (ucast (column ! 2));
                  io = edgx_set16 ub io base 0x222 7 6 (ucast (column ! 3))
              in (Inr \<lparr>fdb_br = br, fdb_iobase = base, nrows = n, sents = 0\<rparr>, io))"

end
