(* ===== verification/BrFdbProps.thy ===== *)
theory BrFdbProps
  imports BrFdb
begin

text \<open>
  The static forwarding database: the hash stays inside of the table, adding a port to a station and
  removing it, and what adding a station does to an entry that a stream uses. What the driver expects
  of the hardware table is the contract \<open>smac_contract\<close>.
\<close>

unbundle bit_operations_syntax

section \<open>Rows\<close>

lemma smac_row_bound:
  assumes "nrows f \<noteq> 0"
  shows "length (edgx_brfdb_calc_smac_rows f m v) = SMAC_NCOLS \<and> (\<forall>i < SMAC_NCOLS. edgx_brfdb_calc_smac_rows f m v ! i < nrows f)"
  using row_mask_less [OF assms] by (simp add: edgx_brfdb_calc_smac_rows_def Let_def del: upt_rec_numeral)

section \<open>The hardware table\<close>

text \<open>The entry in the data registers.\<close>

definition regs_entry :: "nat \<Rightarrow> iomem \<Rightarrow> smac_entry" where
  "regs_entry base io =
     \<lparr>general = edgx_rd16 io base 0x230,
      mac = mac_bytes (edgx_rd16 io base 0x232) (edgx_rd16 io base 0x234) (edgx_rd16 io base 0x236),
      fwd_mask = edgx_rd16 io base 0x238, policed_pts = 0, policer = 0,
      vlan = edgx_rd16 io base 0x23E, stream_no = edgx_rd16 io base 0x240\<rparr>"

text \<open>
  The contract of the device: a read command loads the entry of the position into the data registers
  and leaves the table alone, a write command stores the data registers at the position and nowhere
  else, both end, and the data registers are no part of the table.
\<close>

definition smac_contract :: "device \<Rightarrow> nat \<Rightarrow> (iomem \<Rightarrow> nat \<Rightarrow> u16 \<Rightarrow> smac_entry) \<Rightarrow> bool" where
  "smac_contract dev base tab \<longleftrightarrow>
     (\<forall>io col row. col < SMAC_NCOLS \<longrightarrow> row < 4096 \<longrightarrow>
        (\<exists>io'. wait_clear dev (smac_busy base) (edgx_wr16 io base 0x220 (0x8000 OR SMAC_CTL_POS row (of_nat col))) = Some io'
           \<and> tab io' = tab io \<and> regs_entry base io' = tab io col row))
   \<and> (\<forall>io col row. col < SMAC_NCOLS \<longrightarrow> row < 4096 \<longrightarrow>
        (\<exists>io'. wait_clear dev (smac_busy base) (edgx_wr16 io base 0x220 (0xC000 OR SMAC_CTL_POS row (of_nat col))) = Some io'
           \<and> (\<forall>c < SMAC_NCOLS. \<forall>r < 4096. tab io' c r = (if c = col \<and> r = row then regs_entry base io else tab io c r))))
   \<and> (\<forall>io ofs v. 0x230 \<le> ofs \<longrightarrow> ofs \<le> 0x240 \<longrightarrow> tab (edgx_wr16 io base ofs v) = tab io)"

lemma smac_getD:
  assumes "smac_contract dev (fdb_iobase f) tab" "col < SMAC_NCOLS" "row < 4096"
  shows "\<exists>io'. edgx_brfdb_smac_get dev f col row io = Some (tab io col row, io') \<and> tab io' = tab io"
proof -
  obtain io' where "wait_clear dev (smac_busy (fdb_iobase f)) (edgx_wr16 io (fdb_iobase f) 0x220 (0x8000 OR SMAC_CTL_POS row (of_nat col))) = Some io'"
    "tab io' = tab io" "regs_entry (fdb_iobase f) io' = tab io col row"
    using assms unfolding smac_contract_def by blast
  then show ?thesis by (auto simp: edgx_brfdb_smac_get_def regs_entry_def Let_def)
qed

text \<open>Two bytes form a register, and the register yields the two bytes.\<close>

lemma mac_bytes_mac16:
  assumes "length m = 6"
  shows "mac_bytes (mac16 m 0) (mac16 m 1) (mac16 m 2) = m"
proof -
  obtain a b c d e g where m: "m = [a, b, c, d, e, g]"
    using assms by (auto simp: length_Suc_conv numeral_eq_Suc)
  have "ucast (ucast x OR push_bit 8 (ucast y :: u16) :: u16) = (x :: u8)"
    "ucast (drop_bit 8 (ucast x OR push_bit 8 (ucast y) :: u16)) = (y :: u8)" for x y :: u8
    by (rule bit_word_eqI; auto simp: bit_simps dest: bit_imp_le_length)+
  then show ?thesis by (simp add: m mac_bytes_def mac16_def)
qed

text \<open>The entry as the table holds it after a write: without the stream when it is not written.\<close>

lemma smac_setD:
  assumes c: "smac_contract dev (fdb_iobase f) tab" "col < SMAC_NCOLS" "row < 4096" and m: "length (mac e) = 6"
  shows "\<exists>io' s. edgx_brfdb_smac_set dev f col row e sid io = Some io'
     \<and> (\<forall>c < SMAC_NCOLS. \<forall>r < 4096. tab io' c r = (if c = col \<and> r = row
           then e\<lparr>policed_pts := 0, policer := 0, stream_no := s\<rparr> else tab io c r))
     \<and> (sid \<longrightarrow> s = stream_no e)"
proof -
  let ?b = "fdb_iobase f"
  define io1 where "io1 = edgx_wr16 (edgx_wr16 (edgx_wr16 (edgx_wr16 (edgx_wr16 (edgx_wr16 (edgx_wr16 (edgx_wr16 io
     ?b 0x230 (general e)) ?b 0x232 (mac16 (mac e) 0)) ?b 0x234 (mac16 (mac e) 1)) ?b 0x236 (mac16 (mac e) 2)) ?b 0x23A 0) ?b 0x23C 0)
     ?b 0x23E (vlan e)) ?b 0x238 (fwd_mask e)"
  define io2 where "io2 = (if sid then edgx_wr16 io1 ?b 0x240 (stream_no e) else io1)"
  have "tab (edgx_wr16 x ?b ofs v) = tab x" if "0x230 \<le> ofs" "ofs \<le> 0x240" for x ofs v
    using c(1) that unfolding smac_contract_def by blast
  then have tab: "tab io2 = tab io" by (simp add: io2_def io1_def)
  have regs: "regs_entry ?b io2 = e\<lparr>policed_pts := 0, policer := 0, stream_no := edgx_rd16 io2 ?b 0x240\<rparr>"
    using mac_bytes_mac16 [OF m] by (auto simp: regs_entry_def io2_def io1_def)
  obtain io' where io': "wait_clear dev (smac_busy ?b) (edgx_wr16 io2 ?b 0x220 (0xC000 OR SMAC_CTL_POS row (of_nat col))) = Some io'"
    "\<forall>c < SMAC_NCOLS. \<forall>r < 4096. tab io' c r = (if c = col \<and> r = row then regs_entry ?b io2 else tab io2 c r)"
    using c unfolding smac_contract_def by blast
  have "edgx_brfdb_smac_set dev f col row e sid io = Some io'"
    using io'(1) by (cases sid) (simp_all add: edgx_brfdb_smac_set_def Let_def io2_def io1_def)
  moreover have "sid \<longrightarrow> edgx_rd16 io2 ?b 0x240 = stream_no e" by (simp add: io2_def)
  ultimately show ?thesis using io'(2) tab regs by (intro exI [of _ io'] exI [of _ "edgx_rd16 io2 ?b 0x240"]) simp
qed

lemma smac_get_allD:
  assumes "smac_contract dev (fdb_iobase f) tab" "\<forall>i \<in> set is. i < SMAC_NCOLS \<and> row ! i < 4096"
  shows "\<exists>io'. smac_get_all dev f row is io = Some (map (\<lambda>i. tab io i (row ! i)) is, io') \<and> tab io' = tab io"
  using assms(2)
proof (induction "is" arbitrary: io)
  case (Cons i "is")
  obtain io1 where 1: "edgx_brfdb_smac_get dev f i (row ! i) io = Some (tab io i (row ! i), io1)" "tab io1 = tab io"
    using smac_getD [OF assms(1), of i "row ! i" io] Cons.prems by auto
  from Cons.IH [of io1] Cons.prems 1 show ?case by auto
qed simp

section \<open>Adding and removing a port\<close>

text \<open>The four candidate entries of an address, and the ports that it is forwarded to.\<close>

definition candidates :: "(nat \<Rightarrow> u16 \<Rightarrow> smac_entry) \<Rightarrow> edgx_brfdb \<Rightarrow> u8 list \<Rightarrow> u16 \<Rightarrow> smac_entry list" where
  "candidates t f addr v = map (\<lambda>i. t i (edgx_brfdb_calc_smac_rows f addr v ! i)) [0..<SMAC_NCOLS]"

definition fdb_ports :: "smac_entry list \<Rightarrow> u8 list \<Rightarrow> u16 \<Rightarrow> u16" where
  "fdb_ports es addr v = (case find_idx (\<lambda>x. edgx_brfdb_is_fdb_fit x addr v) es of None \<Rightarrow> 0 | Some i \<Rightarrow> fwd_mask (es ! i))"

text \<open>Two tables that differ at most in the candidate of column \<open>i\<close>.\<close>

definition only_changed :: "edgx_brfdb \<Rightarrow> u8 list \<Rightarrow> u16 \<Rightarrow> nat \<Rightarrow> (nat \<Rightarrow> u16 \<Rightarrow> smac_entry) \<Rightarrow> (nat \<Rightarrow> u16 \<Rightarrow> smac_entry) \<Rightarrow> bool" where
  "only_changed f addr v i t t' \<longleftrightarrow>
     (\<forall>c < SMAC_NCOLS. \<forall>r < 4096. (c, r) \<noteq> (i, edgx_brfdb_calc_smac_rows f addr v ! i) \<longrightarrow> t' c r = t c r)"

lemma length_candidates [simp]: "length (candidates t f addr v) = 4"
  by (simp add: candidates_def)

lemma nth_candidates: "i < 4 \<Longrightarrow> candidates t f addr v ! i = t i (edgx_brfdb_calc_smac_rows f addr v ! i)"
  by (simp add: candidates_def)

lemma rows_in_range:
  assumes "nrows f \<noteq> 0" "nrows f \<le> 4096" "i < 4"
  shows "edgx_brfdb_calc_smac_rows f addr v ! i < 4096"
  using smac_row_bound [OF assms(1), of addr v] assms(2,3) by (blast intro: less_le_trans)

lemma read_candidates:
  assumes "smac_contract dev (fdb_iobase f) tab" "nrows f \<noteq> 0" "nrows f \<le> 4096"
  shows "\<exists>io'. smac_get_all dev f (edgx_brfdb_calc_smac_rows f addr v) [0..<SMAC_NCOLS] io = Some (candidates (tab io) f addr v, io') \<and> tab io' = tab io"
  unfolding candidates_def by (rule smac_get_allD) (use assms rows_in_range in auto)

text \<open>Writing one candidate.\<close>

lemma write_candidate:
  assumes "smac_contract dev (fdb_iobase f) tab" "nrows f \<noteq> 0" "nrows f \<le> 4096" "i < 4" "length (mac x) = 6"
  shows "\<exists>io' s. edgx_brfdb_smac_set dev f i (edgx_brfdb_calc_smac_rows f addr v ! i) x sid io = Some io'
     \<and> candidates (tab io') f addr v = (candidates (tab io) f addr v)[i := x\<lparr>policed_pts := 0, policer := 0, stream_no := s\<rparr>]
     \<and> only_changed f addr v i (tab io) (tab io') \<and> (sid \<longrightarrow> s = stream_no x)"
proof -
  let ?row = "edgx_brfdb_calc_smac_rows f addr v"
  have r: "?row ! j < 4096" if "j < 4" for j using rows_in_range assms(2,3) that by blast
  from smac_setD [OF assms(1) assms(4) r [OF assms(4)] assms(5), of sid io] obtain io' s where
    1: "edgx_brfdb_smac_set dev f i (?row ! i) x sid io = Some io'" "sid \<longrightarrow> s = stream_no x"
    and t: "\<forall>c < SMAC_NCOLS. \<forall>r < 4096. tab io' c r = (if c = i \<and> r = ?row ! i
           then x\<lparr>policed_pts := 0, policer := 0, stream_no := s\<rparr> else tab io c r)" by blast
  have "candidates (tab io') f addr v = (candidates (tab io) f addr v)[i := x\<lparr>policed_pts := 0, policer := 0, stream_no := s\<rparr>]"
    by (rule nth_equalityI) (use t r assms(4) in \<open>auto simp: nth_candidates nth_list_update\<close>)
  moreover have "only_changed f addr v i (tab io) (tab io')" using t by (auto simp: only_changed_def)
  ultimately show ?thesis using 1 by blast
qed

text \<open>The general word of an entry: the used flag follows the ports.\<close>

lemma and_0x8000: "(x :: u16) AND 0x8000 \<noteq> 0 \<longleftrightarrow> bit x 15"
proof -
  have "(0x8000 :: u16) = 2 ^ 15" by simp
  then show ?thesis by (simp only: and_exp_eq_0_iff_not_bit) simp
qed

lemma set_general_fields [simp]:
  "mac (edgx_brfdb_set_general e) = mac e" "vlan (edgx_brfdb_set_general e) = vlan e"
  "fwd_mask (edgx_brfdb_set_general e) = fwd_mask e" "stream_no (edgx_brfdb_set_general e) = stream_no e"
  by (simp_all add: edgx_brfdb_set_general_def Let_def)

lemma const_bits: "bit (0x8000 :: u16) n \<longleftrightarrow> n = 15" "bit (0x1000 :: u16) n \<longleftrightarrow> n = 12" "bit (0x40 :: u16) n \<longleftrightarrow> n = 6"
proof -
  have "(0x8000 :: u16) = 2 ^ 15" "(0x1000 :: u16) = 2 ^ 12" "(0x40 :: u16) = 2 ^ 6" by simp_all
  then show "bit (0x8000 :: u16) n \<longleftrightarrow> n = 15" "bit (0x1000 :: u16) n \<longleftrightarrow> n = 12" "bit (0x40 :: u16) n \<longleftrightarrow> n = 6"
    by (auto simp only: bit_exp_iff) auto
qed

lemma set_general_used: "edgx_brfdb_is_fdb_used (edgx_brfdb_set_general e) \<longleftrightarrow> fwd_mask e \<noteq> 0"
  by (auto simp: edgx_brfdb_is_fdb_used_def and_0x8000 edgx_brfdb_set_general_def Let_def bit_or_iff bit_and_iff bit_not_iff const_bits)

lemma BIT_u16_nz: "p < 16 \<Longrightarrow> (BIT p :: u16) \<noteq> 0"
  using bit_exp_iff [of p p, where ?'a = u16] by auto

lemma fit_fields: "edgx_brfdb_is_fdb_fit x addr v \<longleftrightarrow> edgx_brfdb_is_fdb_used x \<and> mac x = addr \<and> vlan x = v"
  by (auto simp: edgx_brfdb_is_fdb_fit_def edgx_brfdb_is_smac_match_def)

lemma fit_stored [simp]:
  "edgx_brfdb_is_fdb_fit (x\<lparr>policed_pts := a, policer := b, stream_no := s\<rparr>) addr v = edgx_brfdb_is_fdb_fit x addr v"
  by (simp add: fit_fields edgx_brfdb_is_fdb_used_def)

lemma fdb_ports_first:
  assumes "find_idx (\<lambda>x. edgx_brfdb_is_fdb_fit x addr v) es = Some i" "edgx_brfdb_is_fdb_fit x addr v"
  shows "fdb_ports (es[i := x]) addr v = fwd_mask x"
proof -
  note i = find_idx_SomeD [OF assms(1)]
  have "find_idx (\<lambda>x. edgx_brfdb_is_fdb_fit x addr v) (es[i := x]) = Some i"
    by (rule find_idx_first) (use i assms(2) in auto)
  with i show ?thesis by (simp add: fdb_ports_def)
qed

lemma fdb_ports_new:
  assumes "find_idx (\<lambda>x. edgx_brfdb_is_fdb_fit x addr v) es = None" "i < length es" "edgx_brfdb_is_fdb_fit x addr v"
  shows "fdb_ports (es[i := x]) addr v = fwd_mask x"
proof -
  have "find_idx (\<lambda>x. edgx_brfdb_is_fdb_fit x addr v) (es[i := x]) = Some i"
    by (rule find_idx_unique) (use assms in \<open>auto simp: find_idx_None nth_list_update split: if_splits\<close>)
  with assms(2) show ?thesis by (simp add: fdb_ports_def)
qed

text \<open>The two ways of adding: to the entry of the station, or to an unused entry.\<close>

lemma fdb_add_known:
  fixes io :: iomem and v :: u16
  assumes c: "smac_contract dev (fdb_iobase f) tab" and n: "nrows f \<noteq> 0" "nrows f \<le> 4096"
    and a: "length addr = 6" and p: "p < 16"
  defines "es \<equiv> candidates (tab io) f addr v"
  assumes fi: "find_idx (\<lambda>x. edgx_brfdb_is_fdb_fit x addr v) es = Some i"
  shows "\<exists>io' s. edgx_brfdb_add dev f addr v p io = Some (0, f, io') \<and> only_changed f addr v i (tab io) (tab io')
     \<and> fdb_ports (candidates (tab io') f addr v) addr v = fwd_mask (es ! i) OR BIT p
     \<and> candidates (tab io') f addr v = es[i := (edgx_brfdb_set_general ((es ! i)\<lparr>fwd_mask := fwd_mask (es ! i) OR BIT p\<rparr>))
           \<lparr>policed_pts := 0, policer := 0, stream_no := s\<rparr>]"
proof -
  obtain io1 where rd: "smac_get_all dev f (edgx_brfdb_calc_smac_rows f addr v) [0..<SMAC_NCOLS] io = Some (es, io1)"
    and t1: "tab io1 = tab io" using read_candidates [OF c n] unfolding es_def by blast
  note i = find_idx_SomeD [OF fi]
  let ?x = "edgx_brfdb_set_general ((es ! i)\<lparr>fwd_mask := fwd_mask (es ! i) OR BIT p\<rparr>)"
  have "fwd_mask (es ! i) OR BIT p \<noteq> 0" using BIT_u16_nz [OF p] by (simp add: or_eq_0_iff)
  with i have fit: "edgx_brfdb_is_fdb_fit ?x addr v" by (simp add: fit_fields set_general_used)
  have "length (mac ?x) = 6" "i < 4" using i a by (simp_all add: fit_fields es_def)
  from write_candidate [OF c n this(2,1), of addr v "edgx_brfdb_is_sid_used ?x" io1] obtain io' s where
    w: "edgx_brfdb_smac_set dev f i (edgx_brfdb_calc_smac_rows f addr v ! i) ?x (edgx_brfdb_is_sid_used ?x) io1 = Some io'"
    and es': "candidates (tab io') f addr v = es[i := ?x\<lparr>policed_pts := 0, policer := 0, stream_no := s\<rparr>]"
    and o: "only_changed f addr v i (tab io) (tab io')" unfolding t1 es_def by blast
  have "edgx_brfdb_add dev f addr v p io = Some (0, f, io')" using rd fi w by (simp add: edgx_brfdb_add_def Let_def)
  moreover have "fdb_ports (candidates (tab io') f addr v) addr v = fwd_mask (es ! i) OR BIT p"
    unfolding es' using fit by (simp add: fdb_ports_first [OF fi])
  ultimately show ?thesis using o es' by blast
qed

lemma fdb_add_new:
  fixes io :: iomem and v :: u16
  assumes c: "smac_contract dev (fdb_iobase f) tab" and n: "nrows f \<noteq> 0" "nrows f \<le> 4096"
    and a: "length addr = 6" and p: "p < 16"
  defines "es \<equiv> candidates (tab io) f addr v"
  assumes none: "find_idx (\<lambda>x. edgx_brfdb_is_fdb_fit x addr v) es = None"
    and free: "find_idx (\<lambda>i. \<not> edgx_brfdb_is_fdb_used (es ! i) \<and> edgx_brfdb_col_is_vid i v) [0..<SMAC_NCOLS] = Some i"
  shows "\<exists>io' s. edgx_brfdb_add dev f addr v p io = Some (0, f\<lparr>sents := sents f + 1\<rparr>, io') \<and> only_changed f addr v i (tab io) (tab io')
     \<and> fdb_ports (candidates (tab io') f addr v) addr v = BIT p
     \<and> candidates (tab io') f addr v = es[i := (edgx_brfdb_set_general ((es ! i)\<lparr>mac := addr, fwd_mask := BIT p,
           policed_pts := 0, policer := 0, vlan := v\<rparr>))\<lparr>policed_pts := 0, policer := 0, stream_no := s\<rparr>]
     \<and> i < 4 \<and> \<not> edgx_brfdb_is_fdb_used (es ! i)"
proof -
  obtain io1 where rd: "smac_get_all dev f (edgx_brfdb_calc_smac_rows f addr v) [0..<SMAC_NCOLS] io = Some (es, io1)"
    and t1: "tab io1 = tab io" using read_candidates [OF c n] unfolding es_def by blast
  have len: "length es = 4" by (simp add: es_def)
  have i: "i < 4" "\<not> edgx_brfdb_is_fdb_used (es ! i)"
    using find_idx_SomeD [OF free] by (auto simp del: upt_rec_numeral)
  let ?x = "edgx_brfdb_set_general ((es ! i)\<lparr>mac := addr, fwd_mask := BIT p, policed_pts := 0, policer := 0, vlan := v\<rparr>)"
  have fit: "edgx_brfdb_is_fdb_fit ?x addr v" using BIT_u16_nz [OF p] by (simp add: fit_fields set_general_used)
  have "length (mac ?x) = 6" using a by simp
  from write_candidate [OF c n i(1) this, of addr v False io1] obtain io' s where
    w: "edgx_brfdb_smac_set dev f i (edgx_brfdb_calc_smac_rows f addr v ! i) ?x False io1 = Some io'"
    and es': "candidates (tab io') f addr v = es[i := ?x\<lparr>policed_pts := 0, policer := 0, stream_no := s\<rparr>]"
    and o: "only_changed f addr v i (tab io) (tab io')" unfolding t1 es_def by blast
  have "edgx_brfdb_add dev f addr v p io = Some (0, f\<lparr>sents := sents f + 1\<rparr>, io')"
    using rd none free w by (simp add: edgx_brfdb_add_def Let_def)
  moreover have "fdb_ports (candidates (tab io') f addr v) addr v = BIT p"
    unfolding es' using fit i(1) len by (simp add: fdb_ports_new [OF none])
  ultimately show ?thesis using o i es' by blast
qed

text \<open>
  Property C16. Adding a port to a station always returns. On success the station is forwarded to
  exactly the ports of before and the new one, and at most one position of the table changed, one
  that held the station or was unused; otherwise the error is -ENOMEM, the station was not known,
  every candidate column for its VLAN is used, and the table is unchanged.
\<close>

theorem fdb_add_outcome:
  assumes c: "smac_contract dev (fdb_iobase f) tab" and n: "nrows f \<noteq> 0" "nrows f \<le> 4096"
    and a: "length addr = 6" and p: "p < 16"
  shows "\<exists>r f' io'. edgx_brfdb_add dev f addr v p io = Some (r, f', io') \<and>
     (let es = candidates (tab io) f addr v; es' = candidates (tab io') f addr v in
      if r = 0 then fdb_ports es' addr v = fdb_ports es addr v OR BIT p
         \<and> (\<exists>i < 4. only_changed f addr v i (tab io) (tab io')
              \<and> (edgx_brfdb_is_fdb_fit (es ! i) addr v \<or> \<not> edgx_brfdb_is_fdb_used (es ! i)))
      else r = - ENOMEM \<and> tab io' = tab io \<and> fdb_ports es addr v = 0
         \<and> (\<forall>i < 4. edgx_brfdb_col_is_vid i v \<longrightarrow> edgx_brfdb_is_fdb_used (es ! i)))"
proof -
  let ?es = "candidates (tab io) f addr v" and ?fit = "\<lambda>x. edgx_brfdb_is_fdb_fit x addr v"
  let ?free = "find_idx (\<lambda>i. \<not> edgx_brfdb_is_fdb_used (?es ! i) \<and> edgx_brfdb_col_is_vid i v) [0..<SMAC_NCOLS]"
  consider i where "find_idx ?fit ?es = Some i" | i where "find_idx ?fit ?es = None" "?free = Some i"
    | "find_idx ?fit ?es = None" "?free = None" by (cases "find_idx ?fit ?es"; cases ?free) auto
  then show ?thesis
  proof cases
    case (1 i)
    with fdb_add_known [OF c n a p 1] find_idx_SomeD [OF 1] show ?thesis by (auto simp: Let_def fdb_ports_def [of ?es])
  next
    case (2 i)
    with fdb_add_new [OF c n a p 2] show ?thesis by (auto simp: Let_def fdb_ports_def [of ?es])
  next
    case 3
    obtain io1 where rd: "smac_get_all dev f (edgx_brfdb_calc_smac_rows f addr v) [0..<SMAC_NCOLS] io = Some (?es, io1)"
      and t1: "tab io1 = tab io" using read_candidates [OF c n] by blast
    from 3(2) have "\<forall>i < 4. edgx_brfdb_col_is_vid i v \<longrightarrow> edgx_brfdb_is_fdb_used (?es ! i)"
      by (auto simp: find_idx_None simp del: upt_rec_numeral)
    with rd 3 t1 show ?thesis by (simp add: edgx_brfdb_add_def Let_def fdb_ports_def [of ?es])
  qed
qed

section \<open>A hardware table\<close>

text \<open>A device that keeps the table in memory behind the registers: it satisfies the contract.\<close>

definition smac_addr :: "u16 \<Rightarrow> nat" where
  "smac_addr ctl = 0x1000 + 8 * unat (ctl AND 0x3FFF)"

definition smac_ram :: device where
  "smac_ram io =
     (let ctl = io 0x220; a = smac_addr ctl; io0 = io(0x220 := 0) in
      if bit ctl 14
      then io0(a := io 0x230, a + 1 := io 0x232, a + 2 := io 0x234, a + 3 := io 0x236, a + 4 := io 0x238, a + 5 := io 0x23E, a + 6 := io 0x240)
      else io0(0x230 := io a, 0x232 := io (a + 1), 0x234 := io (a + 2), 0x236 := io (a + 3), 0x238 := io (a + 4), 0x23E := io (a + 5), 0x240 := io (a + 6)))"

definition ram_tab :: "iomem \<Rightarrow> nat \<Rightarrow> u16 \<Rightarrow> smac_entry" where
  "ram_tab io c r =
     (let a = smac_addr (SMAC_CTL_POS r (of_nat c)) in
      \<lparr>general = io a, mac = mac_bytes (io (a + 1)) (io (a + 2)) (io (a + 3)), fwd_mask = io (a + 4),
       policed_pts = 0, policer = 0, vlan = io (a + 5), stream_no = io (a + 6)\<rparr>)"

lemma ctl_consts: "(0x3FFF :: u16) = mask 14" "(0xFFF :: u16) = mask 12" "(3 :: u16) = mask 2"
  by (simp_all add: mask_eq_exp_minus_1)

lemma bit_0xC000: "bit (0xC000 :: u16) n \<longleftrightarrow> n = 14 \<or> n = 15"
proof -
  have "(0xC000 :: u16) = 2 ^ 15 OR 2 ^ 14" by simp
  then show ?thesis by (auto simp only: bit_or_iff bit_exp_iff) auto
qed

lemma smac_pos_bits:
  "bit (SMAC_CTL_POS r c) n \<longleftrightarrow> (if n < 12 then bit r n else n < 14 \<and> bit c (n - 12))"
  unfolding SMAC_CTL_POS_def ctl_consts by (auto simp: bit_simps)

lemma smac_addr_cmd:
  "smac_addr (0x8000 OR SMAC_CTL_POS r c) = smac_addr (SMAC_CTL_POS r c)"
  "smac_addr (0xC000 OR SMAC_CTL_POS r c) = smac_addr (SMAC_CTL_POS r c)"
  "\<not> bit (0x8000 OR SMAC_CTL_POS r c) 14" "bit (0xC000 OR SMAC_CTL_POS r c) 14"
proof -
  have "(0x8000 OR SMAC_CTL_POS r c) AND mask 14 = SMAC_CTL_POS r c AND mask 14"
    "(0xC000 OR SMAC_CTL_POS r c) AND mask 14 = SMAC_CTL_POS r c AND mask 14"
    by (rule bit_word_eqI, unfold bit_and_iff bit_or_iff bit_mask_iff const_bits bit_0xC000, auto)+
  then show "smac_addr (0x8000 OR SMAC_CTL_POS r c) = smac_addr (SMAC_CTL_POS r c)"
    "smac_addr (0xC000 OR SMAC_CTL_POS r c) = smac_addr (SMAC_CTL_POS r c)" by (simp_all only: smac_addr_def ctl_consts)
  show "\<not> bit (0x8000 OR SMAC_CTL_POS r c) 14" "bit (0xC000 OR SMAC_CTL_POS r c) 14"
    unfolding bit_or_iff const_bits bit_0xC000 smac_pos_bits by simp_all
qed

lemma smac_addr_inj:
  assumes "smac_addr (SMAC_CTL_POS r (of_nat c)) = smac_addr (SMAC_CTL_POS r' (of_nat c'))" "c < 4" "c' < 4" "r < 4096" "r' < 4096"
  shows "c = c' \<and> r = r'"
proof -
  have eq: "SMAC_CTL_POS r (of_nat c) AND mask 14 = SMAC_CTL_POS r' (of_nat c') AND mask 14"
    using assms(1) unsigned_word_eqI by (simp add: smac_addr_def ctl_consts) blast
  then have b: "n < 14 \<Longrightarrow> bit (SMAC_CTL_POS r (of_nat c)) n = bit (SMAC_CTL_POS r' (of_nat c')) n" for n
    using arg_cong [OF eq, of "\<lambda>x. bit x n"] unfolding bit_and_iff bit_mask_iff by simp
  have "bit r k = bit r' k" if "k < 12" for k using b [of k] that by (simp add: smac_pos_bits)
  then have "r AND mask 12 = r' AND mask 12" by (intro bit_word_eqI) (auto simp: bit_simps)
  then have r: "r = r'" using assms(4,5) and_mask_12 by metis
  have "bit (of_nat c :: u16) k = bit (of_nat c' :: u16) k" if "k < 2" for k
    using b [of "k + 12"] that by (simp add: smac_pos_bits)
  then have "bit c k = bit c' k" if "k < 2" for k using that by (simp add: bit_of_nat_iff)
  then have "take_bit 2 c = take_bit 2 c'" by (intro bit_eqI) (auto simp: bit_take_bit_iff)
  then show ?thesis using r assms(2,3) by (simp add: take_bit_nat_eq_self)
qed

lemma smac_addr_apart:
  assumes "smac_addr x \<noteq> smac_addr y" "i < 7" "j < 7"
  shows "smac_addr x + i \<noteq> smac_addr y + j"
  using assms by (simp add: smac_addr_def)

lemma smac_ram_read:
  fixes io :: iomem and row col
  defines "a \<equiv> smac_addr (SMAC_CTL_POS row (of_nat col))"
  shows "smac_ram (edgx_wr16 io 0 0x220 (0x8000 OR SMAC_CTL_POS row (of_nat col)))
     = io(0x220 := 0, 0x230 := io a, 0x232 := io (a + 1), 0x234 := io (a + 2), 0x236 := io (a + 3), 0x238 := io (a + 4), 0x23E := io (a + 5), 0x240 := io (a + 6))"
  by (simp add: smac_ram_def smac_addr_cmd edgx_wr16_def Let_def a_def) (simp add: smac_addr_def)

lemma smac_ram_write:
  fixes io :: iomem and row col
  defines "a \<equiv> smac_addr (SMAC_CTL_POS row (of_nat col))"
  shows "smac_ram (edgx_wr16 io 0 0x220 (0xC000 OR SMAC_CTL_POS row (of_nat col)))
     = io(0x220 := 0, a := io 0x230, a + 1 := io 0x232, a + 2 := io 0x234, a + 3 := io 0x236, a + 4 := io 0x238, a + 5 := io 0x23E, a + 6 := io 0x240)"
  by (simp add: smac_ram_def smac_addr_cmd edgx_wr16_def Let_def a_def)

lemma ram_tab_cong:
  assumes "\<And>x. 0x1000 \<le> x \<Longrightarrow> io' x = io x"
  shows "ram_tab io' = ram_tab io"
  using assms by (simp add: fun_eq_iff ram_tab_def Let_def smac_addr_def)

lemma smac_ram_contract: "smac_contract smac_ram 0 ram_tab"
  unfolding smac_contract_def
proof (intro conjI allI impI)
  fix io :: iomem and col :: nat and row :: u16
  assume "col < SMAC_NCOLS" "row < 4096"
  let ?io = "smac_ram (edgx_wr16 io 0 0x220 (0x8000 OR SMAC_CTL_POS row (of_nat col)))"
  have "wait_clear smac_ram (smac_busy 0) (edgx_wr16 io 0 0x220 (0x8000 OR SMAC_CTL_POS row (of_nat col))) = Some ?io"
    by (rule wait_clear_ready) (simp add: smac_ram_read smac_busy_def edgx_rd16_def)
  moreover have "ram_tab ?io = ram_tab io" by (rule ram_tab_cong) (simp add: smac_ram_read)
  moreover have "regs_entry 0 ?io = ram_tab io col row"
    by (simp add: smac_ram_read regs_entry_def edgx_rd16_def ram_tab_def Let_def)
  ultimately show "\<exists>io'. wait_clear smac_ram (smac_busy 0) (edgx_wr16 io 0 0x220 (0x8000 OR SMAC_CTL_POS row (of_nat col))) = Some io'
      \<and> ram_tab io' = ram_tab io \<and> regs_entry 0 io' = ram_tab io col row" by blast
next
  fix io :: iomem and col :: nat and row :: u16
  assume cr: "col < SMAC_NCOLS" "row < 4096"
  let ?a = "smac_addr (SMAC_CTL_POS row (of_nat col))"
  let ?io = "smac_ram (edgx_wr16 io 0 0x220 (0xC000 OR SMAC_CTL_POS row (of_nat col)))"
  have hi: "0x1000 \<le> ?a" by (simp add: smac_addr_def)
  have "wait_clear smac_ram (smac_busy 0) (edgx_wr16 io 0 0x220 (0xC000 OR SMAC_CTL_POS row (of_nat col))) = Some ?io"
    by (rule wait_clear_ready) (use hi in \<open>simp add: smac_ram_write smac_busy_def edgx_rd16_def\<close>)
  moreover have "ram_tab ?io c r = (if c = col \<and> r = row then regs_entry 0 io else ram_tab io c r)" if "c < SMAC_NCOLS" "r < 4096" for c r
  proof (cases "c = col \<and> r = row")
    case True
    then show ?thesis by (simp add: ram_tab_def Let_def smac_ram_write regs_entry_def edgx_rd16_def)
  next
    case False
    let ?b = "smac_addr (SMAC_CTL_POS r (of_nat c))"
    have ne: "?b \<noteq> ?a" using smac_addr_inj [of r c row col] False that cr by auto
    have "?io (?b + j) = io (?b + j)" if "j < 7" for j
      using smac_addr_apart [OF ne that, of 0] smac_addr_apart [OF ne that, of 1] smac_addr_apart [OF ne that, of 2]
        smac_addr_apart [OF ne that, of 3] smac_addr_apart [OF ne that, of 4] smac_addr_apart [OF ne that, of 5]
        smac_addr_apart [OF ne that, of 6] hi by (simp add: smac_ram_write) (simp add: smac_addr_def)
    from this [of 0] this [of 1] this [of 2] this [of 3] this [of 4] this [of 5] this [of 6]
    have "ram_tab ?io c r = ram_tab io c r" by (simp add: ram_tab_def Let_def)
    then show ?thesis unfolding if_not_P [OF False] .
  qed
  ultimately show "\<exists>io'. wait_clear smac_ram (smac_busy 0) (edgx_wr16 io 0 0x220 (0xC000 OR SMAC_CTL_POS row (of_nat col))) = Some io'
      \<and> (\<forall>c < SMAC_NCOLS. \<forall>r < 4096. ram_tab io' c r = (if c = col \<and> r = row then regs_entry 0 io else ram_tab io c r))" by blast
next
  fix io :: iomem and ofs :: nat and x :: u16
  assume "0x230 \<le> ofs" "ofs \<le> 0x240"
  then show "ram_tab (edgx_wr16 io 0 ofs x) = ram_tab io"
    by (intro ram_tab_cong) (simp add: edgx_wr16_def)
qed

text \<open>A table of one row, empty.\<close>

definition small_fdb :: edgx_brfdb where
  "small_fdb = \<lparr>fdb_br = \<lparr>brparam = 0, cycle_ns = 8\<rparr>, fdb_iobase = 0, nrows = 1, sents = 0\<rparr>"

lemma small_fdb_simps [simp]: "fdb_iobase small_fdb = 0" "nrows small_fdb = 1"
  by (simp_all add: small_fdb_def)

lemma small_row: "i < 4 \<Longrightarrow> edgx_brfdb_calc_smac_rows small_fdb m v ! i = 0"
  using smac_row_bound [of small_fdb m v] by (auto simp: word_less_nat_alt unat_eq_0)

theorem fdb_add_outcome_witness:
  "\<exists>f' io'. edgx_brfdb_add smac_ram small_fdb [1, 2, 3, 4, 5, 6] 5 3 (\<lambda>_. 0) = Some (0, f', io')
     \<and> fdb_ports (candidates (ram_tab io') small_fdb [1, 2, 3, 4, 5, 6] 5) [1, 2, 3, 4, 5, 6] 5 = 8"
proof -
  let ?es = "candidates (ram_tab (\<lambda>_. 0)) small_fdb [1, 2, 3, 4, 5, 6] 5"
  have es: "?es ! i = \<lparr>general = 0, mac = [0, 0, 0, 0, 0, 0], fwd_mask = 0, policed_pts = 0, policer = 0, vlan = 0, stream_no = 0\<rparr>" if "i < 4" for i
    using that by (simp add: nth_candidates ram_tab_def Let_def mac_bytes_def)
  have c: "smac_contract smac_ram (fdb_iobase small_fdb) ram_tab" by (simp add: smac_ram_contract)
  have "\<not> edgx_brfdb_is_fdb_used (?es ! 0)" using es [of 0] by (simp add: edgx_brfdb_is_fdb_used_def)
  moreover have "edgx_brfdb_col_is_vid 0 5" by (simp add: edgx_brfdb_col_is_vid_def column_def)
  moreover have "fdb_ports ?es [1, 2, 3, 4, 5, 6] 5 = 0"
    using es by (auto simp: fdb_ports_def dest!: find_idx_SomeD split: option.splits)
  ultimately show ?thesis
    using fdb_add_outcome [OF c, of "[1, 2, 3, 4, 5, 6]" 3 5 "\<lambda>_. 0"] by (auto simp: Let_def split: if_splits)
qed

text \<open>
  A station that is added takes over an entry that a stream uses: when the first
  candidate column holds a stream whose forwarding mask is empty, adding another address writes this
  address over the stream's and leaves the stream flag set, so that the stream's entry is gone and
  the frames of the added station match as a stream.
\<close>

theorem fdb_add_takes_over_stream:
  assumes c: "smac_contract dev (fdb_iobase f) tab" and n: "nrows f \<noteq> 0" "nrows f \<le> 4096"
    and a: "length addr = 6" and p: "p < 16" and v: "v \<noteq> VID_WILDCARD"
    and none: "\<forall>x \<in> set (candidates (tab io) f addr v). \<not> edgx_brfdb_is_fdb_fit x addr v"
    and e: "e = candidates (tab io) f addr v ! 0" "edgx_brfdb_is_sid_fit e saddr sv" "\<not> edgx_brfdb_is_fdb_used e"
    and other: "(saddr, sv) \<noteq> (addr, v)"
  shows "\<exists>f' io'. edgx_brfdb_add dev f addr v p io = Some (0, f', io')
     \<and> \<not> edgx_brfdb_is_sid_fit (candidates (tab io') f addr v ! 0) saddr sv
     \<and> edgx_brfdb_is_sid_fit (candidates (tab io') f addr v ! 0) addr v"
proof -
  let ?es = "candidates (tab io) f addr v"
  have fi: "find_idx (\<lambda>x. edgx_brfdb_is_fdb_fit x addr v) ?es = None" using none by (simp add: find_idx_None)
  have free: "find_idx (\<lambda>i. \<not> edgx_brfdb_is_fdb_used (?es ! i) \<and> edgx_brfdb_col_is_vid i v) [0..<SMAC_NCOLS] = Some 0"
    by (rule find_idx_first) (use e v in \<open>simp_all add: edgx_brfdb_col_is_vid_def column_def del: upt_rec_numeral\<close>)
  have sid: "edgx_brfdb_is_sid_used (edgx_brfdb_set_general x\<lparr>policed_pts := s, policer := t, stream_no := u\<rparr>) = edgx_brfdb_is_sid_used x" for x s t u
  proof -
    have "y AND 0x40 \<noteq> 0 \<longleftrightarrow> bit y 6" for y :: u16
    proof -
      have "(0x40 :: u16) = 2 ^ 6" by simp
      then show ?thesis by (simp only: and_exp_eq_0_iff_not_bit) simp
    qed
    then show ?thesis
      by (simp add: edgx_brfdb_is_sid_used_def edgx_brfdb_set_general_def Let_def bit_or_iff bit_and_iff bit_not_iff const_bits)
  qed
  from fdb_add_new [OF c n a p fi free] obtain io' s where
    add: "edgx_brfdb_add dev f addr v p io = Some (0, f\<lparr>sents := sents f + 1\<rparr>, io')"
    and es': "candidates (tab io') f addr v = ?es[0 := (edgx_brfdb_set_general ((?es ! 0)\<lparr>mac := addr, fwd_mask := BIT p,
           policed_pts := 0, policer := 0, vlan := v\<rparr>))\<lparr>policed_pts := 0, policer := 0, stream_no := s\<rparr>]" by blast
  have "edgx_brfdb_is_sid_used (?es ! 0)" using e by (simp add: edgx_brfdb_is_sid_fit_def)
  then have "edgx_brfdb_is_sid_used (candidates (tab io') f addr v ! 0)"
    unfolding es' by (simp add: sid) (simp add: edgx_brfdb_is_sid_used_def)
  moreover have "mac (candidates (tab io') f addr v ! 0) = addr" "vlan (candidates (tab io') f addr v ! 0) = v" by (simp_all add: es')
  ultimately show ?thesis using add other by (auto simp: edgx_brfdb_is_sid_fit_def edgx_brfdb_is_smac_match_def)
qed

theorem fdb_add_takes_over_stream_witness:
  defines "io \<equiv> (\<lambda>_. 0)(0x1000 := 0x1040, 0x1001 := 0x0109, 0x1005 := 7)"
  shows "edgx_brfdb_is_sid_fit (candidates (ram_tab io) small_fdb [1, 2, 3, 4, 5, 6] 5 ! 0) [9, 1, 0, 0, 0, 0] 7 \<and>
    (\<exists>f' io'. edgx_brfdb_add smac_ram small_fdb [1, 2, 3, 4, 5, 6] 5 3 io = Some (0, f', io')
     \<and> edgx_brfdb_is_sid_fit (candidates (ram_tab io') small_fdb [1, 2, 3, 4, 5, 6] 5 ! 0) [1, 2, 3, 4, 5, 6] 5)"
proof -
  let ?es = "candidates (ram_tab io) small_fdb [1, 2, 3, 4, 5, 6] 5"
  have c: "smac_contract smac_ram (fdb_iobase small_fdb) ram_tab" by (simp add: smac_ram_contract)
  have e0: "?es ! 0 = \<lparr>general = 0x1040, mac = [9, 1, 0, 0, 0, 0], fwd_mask = 0, policed_pts = 0, policer = 0, vlan = 7, stream_no = 0\<rparr>"
    by (simp add: nth_candidates small_row ram_tab_def Let_def mac_bytes_def smac_addr_def SMAC_CTL_POS_def io_def)
  have no: "\<forall>x \<in> set ?es. \<not> edgx_brfdb_is_fdb_fit x [1, 2, 3, 4, 5, 6] 5"
  proof
    fix x assume "x \<in> set ?es"
    then obtain i where i: "i < 4" "x = ?es ! i" by (auto simp: in_set_conv_nth)
    then have "i = 0 \<or> i = 1 \<or> i = 2 \<or> i = 3" by auto
    then have "mac x \<noteq> [1, 2, 3, 4, 5, 6]"
      using i by (auto simp: nth_candidates small_row ram_tab_def Let_def mac_bytes_def smac_addr_def SMAC_CTL_POS_def io_def)
    then show "\<not> edgx_brfdb_is_fdb_fit x [1, 2, 3, 4, 5, 6] 5" by (simp add: fit_fields)
  qed
  have s: "edgx_brfdb_is_sid_fit (?es ! 0) [9, 1, 0, 0, 0, 0] 7" "\<not> edgx_brfdb_is_fdb_used (?es ! 0)"
    by (simp_all add: e0 edgx_brfdb_is_sid_fit_def edgx_brfdb_is_sid_used_def edgx_brfdb_is_smac_match_def edgx_brfdb_is_fdb_used_def)
  from fdb_add_takes_over_stream [OF c _ _ _ _ _ no refl s, of 3] s show ?thesis by auto
qed

section \<open>Removing a port\<close>

lemma rows_sents [simp]: "edgx_brfdb_calc_smac_rows (f\<lparr>sents := x\<rparr>) = edgx_brfdb_calc_smac_rows f"
  by (simp add: fun_eq_iff edgx_brfdb_calc_smac_rows_def Let_def)

lemma candidates_sents [simp]: "candidates t (f\<lparr>sents := x\<rparr>) addr v = candidates t f addr v"
  by (simp add: candidates_def)

lemma only_changed_sents [simp]: "only_changed (f\<lparr>sents := x\<rparr>) addr v i t t' = only_changed f addr v i t t'"
  by (simp add: only_changed_def)

lemma only_changed_trans: "only_changed f addr v i t t' \<Longrightarrow> only_changed f addr v i t' t'' \<Longrightarrow> only_changed f addr v i t t''"
  by (simp add: only_changed_def)

lemma fdb_del_known:
  fixes io :: iomem and v :: u16 and p :: nat
  assumes c: "smac_contract dev (fdb_iobase f) tab" and n: "nrows f \<noteq> 0" "nrows f \<le> 4096"
    and a: "length addr = 6"
  defines "es \<equiv> candidates (tab io) f addr v"
  assumes fi: "find_idx (\<lambda>x. edgx_brfdb_is_fdb_fit x addr v) es = Some i"
  defines "x \<equiv> edgx_brfdb_set_general ((es ! i)\<lparr>fwd_mask := fwd_mask (es ! i) AND NOT (BIT p)\<rparr>)"
  shows "\<exists>io' s. edgx_brfdb_del dev f addr v p io = Some (0, if fwd_mask x = 0 then f\<lparr>sents := sents f - 1\<rparr> else f, io')
     \<and> only_changed f addr v i (tab io) (tab io')
     \<and> candidates (tab io') f addr v = es[i := x\<lparr>policed_pts := 0, policer := 0, stream_no := s\<rparr>]"
proof -
  obtain io1 where rd: "smac_get_all dev f (edgx_brfdb_calc_smac_rows f addr v) [0..<SMAC_NCOLS] io = Some (es, io1)"
    and t1: "tab io1 = tab io" using read_candidates [OF c n] unfolding es_def by blast
  note i = find_idx_SomeD [OF fi]
  have "length (mac x) = 6" "i < 4" using i a by (simp_all add: fit_fields es_def x_def)
  from write_candidate [OF c n this(2,1), of addr v "edgx_brfdb_is_sid_used x" io1] obtain io' s where
    w: "edgx_brfdb_smac_set dev f i (edgx_brfdb_calc_smac_rows f addr v ! i) x (edgx_brfdb_is_sid_used x) io1 = Some io'"
    and es': "candidates (tab io') f addr v = es[i := x\<lparr>policed_pts := 0, policer := 0, stream_no := s\<rparr>]"
    and o: "only_changed f addr v i (tab io) (tab io')" unfolding t1 es_def by blast
  have "edgx_brfdb_del dev f addr v p io = Some (0, if fwd_mask x = 0 then f\<lparr>sents := sents f - 1\<rparr> else f, io')"
    using rd fi w unfolding x_def by (simp add: edgx_brfdb_del_def Let_def)
  with o es' show ?thesis by blast
qed

text \<open>
  Property C17. Adding an unknown station for a port and removing it again returns 0 twice, gives the
  entry counter back, and leaves a table in which the station is unknown, that differs from the old
  one at most in one position, which was unused before.
\<close>

theorem fdb_add_del_roundtrip:
  assumes c: "smac_contract dev (fdb_iobase f) tab" and n: "nrows f \<noteq> 0" "nrows f \<le> 4096"
    and a: "length addr = 6" and p: "p < 16"
    and none: "\<forall>x \<in> set (candidates (tab io) f addr v). \<not> edgx_brfdb_is_fdb_fit x addr v"
    and add: "edgx_brfdb_add dev f addr v p io = Some (0, f1, io1)"
  shows "\<exists>io2 i. edgx_brfdb_del dev f1 addr v p io1 = Some (0, f, io2)
     \<and> (\<forall>x \<in> set (candidates (tab io2) f addr v). \<not> edgx_brfdb_is_fdb_fit x addr v)
     \<and> i < 4 \<and> only_changed f addr v i (tab io) (tab io2) \<and> \<not> edgx_brfdb_is_fdb_used (candidates (tab io) f addr v ! i)
     \<and> \<not> edgx_brfdb_is_fdb_used (candidates (tab io2) f addr v ! i)"
proof -
  let ?es = "candidates (tab io) f addr v" and ?fit = "\<lambda>x. edgx_brfdb_is_fdb_fit x addr v"
  have fn: "find_idx ?fit ?es = None" using none by (simp add: find_idx_None)
  obtain i where fi: "find_idx (\<lambda>i. \<not> edgx_brfdb_is_fdb_used (?es ! i) \<and> edgx_brfdb_col_is_vid i v) [0..<SMAC_NCOLS] = Some i"
    using add fn read_candidates [OF c n, of addr v io] by (auto simp: edgx_brfdb_add_def Let_def split: option.splits)
  from fdb_add_new [OF c n a p fn fi] add obtain s where
    f1: "f1 = f\<lparr>sents := sents f + 1\<rparr>" and o: "only_changed f addr v i (tab io) (tab io1)" and i: "i < 4" "\<not> edgx_brfdb_is_fdb_used (?es ! i)"
    and es1: "candidates (tab io1) f addr v = ?es[i := (edgx_brfdb_set_general ((?es ! i)\<lparr>mac := addr, fwd_mask := BIT p,
           policed_pts := 0, policer := 0, vlan := v\<rparr>))\<lparr>policed_pts := 0, policer := 0, stream_no := s\<rparr>]" by auto
  let ?es1 = "candidates (tab io1) f1 addr v"
  have es1': "?es1 = candidates (tab io1) f addr v" by (simp add: f1)
  have at_i: "?es1 ! i = (edgx_brfdb_set_general ((?es ! i)\<lparr>mac := addr, fwd_mask := BIT p,
           policed_pts := 0, policer := 0, vlan := v\<rparr>))\<lparr>policed_pts := 0, policer := 0, stream_no := s\<rparr>"
    using i(1) by (simp add: es1' es1)
  have f1i: "find_idx ?fit ?es1 = Some i"
  proof (rule find_idx_unique)
    show "?fit (?es1 ! i)" unfolding at_i fit_stored using BIT_u16_nz [OF p] by (simp add: fit_fields set_general_used)
    show "j = i" if "j < length ?es1" "?fit (?es1 ! j)" for j
      using that none i(1) by (auto simp: es1' es1 nth_list_update split: if_splits)
  qed (use i in simp)
  have c1: "smac_contract dev (fdb_iobase f1) tab" "nrows f1 \<noteq> 0" "nrows f1 \<le> 4096" using c n by (simp_all add: f1)
  let ?x = "edgx_brfdb_set_general ((?es1 ! i)\<lparr>fwd_mask := fwd_mask (?es1 ! i) AND NOT (BIT p)\<rparr>)"
  from fdb_del_known [OF c1 a f1i, of p] obtain io2 s2 where
    del: "edgx_brfdb_del dev f1 addr v p io1 = Some (0, if fwd_mask ?x = 0 then f1\<lparr>sents := sents f1 - 1\<rparr> else f1, io2)"
    and o2: "only_changed f1 addr v i (tab io1) (tab io2)"
    and es2: "candidates (tab io2) f1 addr v = ?es1[i := ?x\<lparr>policed_pts := 0, policer := 0, stream_no := s2\<rparr>]" by blast
  have x0: "fwd_mask ?x = 0" by (simp add: at_i)
  then have unused: "\<not> edgx_brfdb_is_fdb_used (?x\<lparr>policed_pts := 0, policer := 0, stream_no := s2\<rparr>)"
    using set_general_used [of "(?es1 ! i)\<lparr>fwd_mask := fwd_mask (?es1 ! i) AND NOT (BIT p)\<rparr>"]
    by (simp add: edgx_brfdb_is_fdb_used_def)
  have es2': "candidates (tab io2) f addr v = ?es[i := ?x\<lparr>policed_pts := 0, policer := 0, stream_no := s2\<rparr>]"
    using es2 by (simp add: f1 es1)
  have "\<not> ?fit y" if "y \<in> set (candidates (tab io2) f addr v)" for y
  proof -
    from that have "y = ?x\<lparr>policed_pts := 0, policer := 0, stream_no := s2\<rparr> \<or> y \<in> set ?es"
      using subsetD [OF set_update_subset_insert, OF that [unfolded es2']] by (simp only: insert_iff)
    then show ?thesis
    proof
      assume "y = ?x\<lparr>policed_pts := 0, policer := 0, stream_no := s2\<rparr>"
      with unused show ?thesis unfolding edgx_brfdb_is_fdb_fit_def by (simp only:) simp
    qed (use none in blast)
  qed
  moreover have "f1\<lparr>sents := sents f1 - 1\<rparr> = f" by (simp add: f1)
  moreover have "only_changed f addr v i (tab io) (tab io2)" using only_changed_trans [OF o] o2 by (simp add: f1)
  ultimately show ?thesis using del x0 i unused by (intro exI [of _ io2] exI [of _ i]) (simp add: es2')
qed

lemma zero_candidates:
  assumes "m \<noteq> [0, 0, 0, 0, 0, 0]"
  shows "\<forall>x \<in> set (candidates (ram_tab (\<lambda>_. 0)) small_fdb m v). \<not> edgx_brfdb_is_fdb_fit x m v"
  using assms by (auto simp: in_set_conv_nth nth_candidates ram_tab_def Let_def mac_bytes_def fit_fields)

theorem fdb_add_del_roundtrip_witness:
  "\<exists>f1 io1 io2. edgx_brfdb_add smac_ram small_fdb [1, 2, 3, 4, 5, 6] 5 3 (\<lambda>_. 0) = Some (0, f1, io1)
     \<and> edgx_brfdb_del smac_ram f1 [1, 2, 3, 4, 5, 6] 5 3 io1 = Some (0, small_fdb, io2)"
proof -
  let ?es = "candidates (ram_tab (\<lambda>_. 0)) small_fdb [1, 2, 3, 4, 5, 6] 5"
  have c: "smac_contract smac_ram (fdb_iobase small_fdb) ram_tab" by (simp add: smac_ram_contract)
  have no: "\<forall>x \<in> set ?es. \<not> edgx_brfdb_is_fdb_fit x [1, 2, 3, 4, 5, 6] 5" by (rule zero_candidates) simp
  have fi: "find_idx (\<lambda>x. edgx_brfdb_is_fdb_fit x [1, 2, 3, 4, 5, 6] 5) ?es = None" using no by (simp add: find_idx_None)
  have free: "find_idx (\<lambda>i. \<not> edgx_brfdb_is_fdb_used (?es ! i) \<and> edgx_brfdb_col_is_vid i 5) [0..<SMAC_NCOLS] = Some 0"
    by (rule find_idx_first)
      (simp_all add: edgx_brfdb_col_is_vid_def column_def nth_candidates ram_tab_def Let_def edgx_brfdb_is_fdb_used_def del: upt_rec_numeral)
  obtain f1 io1 where add: "edgx_brfdb_add smac_ram small_fdb [1, 2, 3, 4, 5, 6] 5 3 (\<lambda>_. 0) = Some (0, f1, io1)"
    using fdb_add_new [OF c _ _ _ _ fi free, of 3] by auto
  from fdb_add_del_roundtrip [OF c _ _ _ _ no add] add show ?thesis by auto
qed

end
