(* ===== verification/BrDmac.thy ===== *)
theory BrDmac
  imports BrFdb
begin

text \<open>
  The dynamic MAC addresses that the switch has learned (\<open>edge_br_fdb.c\<close>, second half): the copy of
  the hardware table that the driver keeps in a red-black tree, its periodic synchronisation, and
  the notifications to the Linux bridge.

  The tree is the kernel's \<open>rbtree\<close>: the code finds the place of a new node by comparing keys, and
  the library keeps the in-order sequence when it rebalances. The model keeps that sequence, a list
  ordered by \<open>edgx_dmac_cmp\<close>. Notifications are values, in the order in which they are sent.
  Allocations succeed.
\<close>

unbundle bit_operations_syntax

section \<open>Data\<close>

record dmac_entry =
  change_detector :: bool
  de_fid :: u16
  de_mac :: "u8 list"
  ptid :: nat
  ptid_new :: nat

record edgx_dmac =
  dm_iobase :: nat
  dm_ports :: "edgx_pt option list"
  root :: "dmac_entry list"
  detector_state :: bool
  work_sync :: "int option"

datatype fdb_notification =
  SWITCHDEV_FDB_ADD_TO_BRIDGE nat "u8 list" u16
| SWITCHDEV_FDB_DEL_TO_BRIDGE nat "u8 list" u16

record dmac_notify =
  nt_fid :: u16
  nt_fid_iter :: "nat option"
  nt_vlan_iter :: "nat list"

datatype dmac_sync_disable_mode = DMAC_SEND_NOTIFICATIONS | DMAC_SKIP_NOTIFICATIONS

abbreviation (input) DMAC_SYNC_DELAY_MS :: int where "DMAC_SYNC_DELAY_MS \<equiv> 60000"
abbreviation (input) DMAC_INV_FID :: u16 where "DMAC_INV_FID \<equiv> 0xFFFF"

section \<open>Order of the keys\<close>

text \<open>\<open>memcmp\<close>: the sign of the first difference.\<close>

fun memcmp :: "u8 list \<Rightarrow> u8 list \<Rightarrow> int" where
  "memcmp (a # as) (b # bs) = (if a < b then - 1 else if b < a then 1 else memcmp as bs)"
| "memcmp _ _ = 0"

definition edgx_dmac_cmp :: "u16 \<Rightarrow> u8 list \<Rightarrow> u16 \<Rightarrow> u8 list \<Rightarrow> int" where
  "edgx_dmac_cmp lfid lmac rfid rmac =
     (if lfid < rfid then - 1 else if lfid > rfid then 1 else memcmp lmac rmac)"

section \<open>The tree\<close>

text \<open>The identifier is a bit field of 12 bits.\<close>

definition edgx_dmac_create :: "u8 list \<Rightarrow> u16 \<Rightarrow> nat \<Rightarrow> dmac_entry" where
  "edgx_dmac_create m f p =
     \<lparr>change_detector = False, de_fid = f AND mask 12, de_mac = m, ptid = p, ptid_new = p\<rparr>"

fun edgx_dmac_insert :: "dmac_entry list \<Rightarrow> dmac_entry \<Rightarrow> int \<times> dmac_entry list" where
  "edgx_dmac_insert [] new = (0, [new])"
| "edgx_dmac_insert (e # es) new =
     (let cmp = edgx_dmac_cmp (de_fid new) (de_mac new) (de_fid e) (de_mac e) in
      if cmp < 0 then (0, new # e # es)
      else if cmp > 0 then (let (ret, es') = edgx_dmac_insert es new in (ret, e # es'))
      else (- EINVAL, e # es))"

fun edgx_dmac_search :: "dmac_entry list \<Rightarrow> u16 \<Rightarrow> u8 list \<Rightarrow> dmac_entry option" where
  "edgx_dmac_search [] f m = None"
| "edgx_dmac_search (e # es) f m =
     (let cmp = edgx_dmac_cmp f m (de_fid e) (de_mac e) in
      if cmp < 0 then None else if cmp > 0 then edgx_dmac_search es f m else Some e)"

section \<open>Synchronisation with the hardware table\<close>

text \<open>Marking the entry of a key as seen in the current round.\<close>

definition mark_seen :: "bool \<Rightarrow> u16 \<Rightarrow> u8 list \<Rightarrow> dmac_entry list \<Rightarrow> dmac_entry list" where
  "mark_seen det f m =
     map (\<lambda>e. if de_fid e = f \<and> de_mac e = m then e\<lparr>change_detector := det\<rparr> else e)"

text \<open>What the code does with one address that it read.\<close>

definition dmac_seen :: "bool \<Rightarrow> u16 \<Rightarrow> u8 list \<Rightarrow> nat \<Rightarrow> dmac_entry list \<Rightarrow> int \<times> dmac_entry list" where
  "dmac_seen det f m p es =
     (case edgx_dmac_search es f m of
        Some e \<Rightarrow> (0, mark_seen det (de_fid e) (de_mac e) es)
      | None \<Rightarrow>
          let new = edgx_dmac_create m f p; (ret, es') = edgx_dmac_insert es new
          in if ret \<noteq> 0 then (ret, es) else (0, mark_seen det (de_fid new) (de_mac new) es'))"

definition dmac_busy :: "nat \<Rightarrow> iomem \<Rightarrow> bool" where
  "dmac_busy base io \<longleftrightarrow> edgx_rd16 io base 0x200 AND 0x8000 \<noteq> 0"

definition edgx_dmac_read_next :: "device \<Rightarrow> edgx_dmac \<Rightarrow> iomem \<Rightarrow> (int \<times> edgx_dmac \<times> iomem) option" where
  "edgx_dmac_read_next dev dmac io = do {
     let base = dm_iobase dmac;
     io \<leftarrow> wait_clear dev (dmac_busy base) (edgx_wr16 io base 0x200 0x8000);
     let m = mac_bytes (edgx_rd16 io base 0x202) (edgx_rd16 io base 0x204) (edgx_rd16 io base 0x206);
     if m = replicate 6 0xFF then Some (- ENOENT, dmac, io)
     else do {
       let p = unat (edgx_rd16 io base 0x200 AND 0xf);
       let (ret, es) = dmac_seen (detector_state dmac) (edgx_rd16 io base 0x208) m p (root dmac);
       Some (ret, dmac\<lparr>root := es\<rparr>, io)
     }
   }"

partial_function (option) dmac_read_all :: "device \<Rightarrow> edgx_dmac \<Rightarrow> iomem \<Rightarrow> (edgx_dmac \<times> iomem) option" where
  "dmac_read_all dev dmac io =
     edgx_dmac_read_next dev dmac io \<bind> (\<lambda>(ret, dmac, io).
       if ret = - ENOENT then Some (dmac, io) else dmac_read_all dev dmac io)"

section \<open>Notifications\<close>

definition edgx_dmac_init_notify :: dmac_notify where
  "edgx_dmac_init_notify = \<lparr>nt_fid = DMAC_INV_FID, nt_fid_iter = None, nt_vlan_iter = []\<rparr>"

text \<open>The VLANs from the iterator on; the length of the iterator is the number of rounds.\<close>

fun fid_vlans :: "br_vlan \<Rightarrow> nat \<Rightarrow> nat list \<Rightarrow> u16 list option" where
  "fid_vlans brv 0 vlan_iter = Some []"
| "fid_vlans brv (Suc n) vlan_iter = do {
     (v, vlan_iter) \<leftarrow> edgx_br_vlan_get_fid_vlan brv vlan_iter;
     vs \<leftarrow> fid_vlans brv n vlan_iter;
     Some (v # vs)
   }"

definition edgx_dmac_notify_fid ::
  "edgx_dmac \<Rightarrow> br_vlan \<Rightarrow> dmac_notify \<Rightarrow> (nat \<Rightarrow> u8 list \<Rightarrow> u16 \<Rightarrow> fdb_notification) \<Rightarrow> nat \<Rightarrow> u8 list
     \<Rightarrow> fdb_notification list option" where
  "edgx_dmac_notify_fid dmac brv notify val p m = do {
     pt \<leftarrow> edgx_br_get_brpt (dm_ports dmac) (int p);
     if pt = None then Some []
     else do {
       vs \<leftarrow> fid_vlans brv (length (nt_vlan_iter notify)) (nt_vlan_iter notify);
       Some (map (val p m) vs)
     }
   }"

definition edgx_dmac_update_fid :: "br_vlan \<Rightarrow> dmac_notify \<Rightarrow> u16 \<Rightarrow> bool \<times> dmac_notify" where
  "edgx_dmac_update_fid brv notify f =
     (let notify = (if nt_fid notify \<noteq> f
                    then let (fi, vi) = edgx_br_vlan_iter_fid_vlans brv f
                         in \<lparr>nt_fid = f, nt_fid_iter = fi, nt_vlan_iter = vi\<rparr>
                    else notify)
      in (nt_fid_iter notify \<noteq> None \<and> nt_vlan_iter notify \<noteq> [], notify))"

text \<open>The walk through the tree: the entries that stay, and the notifications.\<close>

fun notify_from ::
  "edgx_dmac \<Rightarrow> br_vlan \<Rightarrow> dmac_notify \<Rightarrow> dmac_entry list \<Rightarrow> (dmac_entry list \<times> fdb_notification list) option" where
  "notify_from dmac brv notify [] = Some ([], [])"
| "notify_from dmac brv notify (e # es) =
     (let (ok, notify) = edgx_dmac_update_fid brv notify (de_fid e) in
      if \<not> ok then do {
        (es, ns) \<leftarrow> notify_from dmac brv notify es;
        Some (e # es, ns)
      }
      else do {
        let aged = change_detector e \<noteq> detector_state dmac;
        del \<leftarrow> (if aged \<or> ptid_new e \<noteq> ptid e
               then edgx_dmac_notify_fid dmac brv notify SWITCHDEV_FDB_DEL_TO_BRIDGE (ptid e) (de_mac e)
               else Some []);
        if aged then do {
          (es, ns) \<leftarrow> notify_from dmac brv notify es;
          Some (es, del @ ns)
        }
        else do {
          let e = e\<lparr>ptid := ptid_new e\<rparr>;
          add \<leftarrow> edgx_dmac_notify_fid dmac brv notify SWITCHDEV_FDB_ADD_TO_BRIDGE (ptid e) (de_mac e);
          (es, ns) \<leftarrow> notify_from dmac brv notify es;
          Some (e # es, del @ add @ ns)
        }
      })"

definition edgx_dmac_call_notifiers ::
  "edgx_dmac \<Rightarrow> br_vlan \<Rightarrow> (edgx_dmac \<times> fdb_notification list) option" where
  "edgx_dmac_call_notifiers dmac brv = do {
     (es, ns) \<leftarrow> notify_from dmac brv edgx_dmac_init_notify (root dmac);
     Some (dmac\<lparr>root := es\<rparr>, ns)
   }"

definition edgx_dmac_sync_work ::
  "device \<Rightarrow> edgx_dmac \<Rightarrow> br_vlan \<Rightarrow> iomem \<Rightarrow> (edgx_dmac \<times> fdb_notification list \<times> iomem) option" where
  "edgx_dmac_sync_work dev dmac brv io = do {
     (dmac, io) \<leftarrow> dmac_read_all dev (dmac\<lparr>detector_state := \<not> detector_state dmac\<rparr>) io;
     (dmac, ns) \<leftarrow> edgx_dmac_call_notifiers dmac brv;
     Some (dmac\<lparr>work_sync := Some DMAC_SYNC_DELAY_MS\<rparr>, ns, io)
   }"

text \<open>When a VLAN leaves a FID, the entries of the old FID are forgotten for that VLAN.\<close>

fun forget_vlan :: "edgx_dmac \<Rightarrow> u16 \<Rightarrow> u16 \<Rightarrow> dmac_entry list \<Rightarrow> fdb_notification list option" where
  "forget_vlan dmac v fid_old [] = Some []"
| "forget_vlan dmac v fid_old (e # es) =
     (if de_fid e \<noteq> fid_old then forget_vlan dmac v fid_old es
      else do {
        pt \<leftarrow> edgx_br_get_brpt (dm_ports dmac) (int (ptid e));
        ns \<leftarrow> forget_vlan dmac v fid_old es;
        Some (if pt = None then ns else SWITCHDEV_FDB_DEL_TO_BRIDGE (ptid e) (de_mac e) v # ns)
      })"

definition edgx_brfdb_update_vid2fid ::
  "edgx_dmac \<Rightarrow> u16 \<Rightarrow> u16 \<Rightarrow> u16 \<Rightarrow> fdb_notification list option" where
  "edgx_brfdb_update_vid2fid dmac v fid_new fid_old = forget_vlan dmac v fid_old (root dmac)"

section \<open>Enabling and disabling\<close>

definition edgx_dmac_sync_enable :: "edgx_dmac \<Rightarrow> edgx_dmac" where
  "edgx_dmac_sync_enable dmac = dmac\<lparr>work_sync := Some 0\<rparr>"

fun disable_from ::
  "dmac_sync_disable_mode \<Rightarrow> edgx_dmac \<Rightarrow> br_vlan \<Rightarrow> dmac_notify \<Rightarrow> dmac_entry list \<Rightarrow> fdb_notification list option" where
  "disable_from mode dmac brv notify [] = Some []"
| "disable_from mode dmac brv notify (e # es) =
     (let (ok, notify) = (if mode = DMAC_SEND_NOTIFICATIONS then edgx_dmac_update_fid brv notify (de_fid e)
                          else (False, notify))
      in do {
        del \<leftarrow> (if ok then edgx_dmac_notify_fid dmac brv notify SWITCHDEV_FDB_DEL_TO_BRIDGE (ptid e) (de_mac e)
               else Some []);
        ns \<leftarrow> disable_from mode dmac brv notify es;
        Some (del @ ns)
      })"

definition edgx_dmac_sync_disable ::
  "dmac_sync_disable_mode \<Rightarrow> edgx_dmac \<Rightarrow> br_vlan \<Rightarrow> (edgx_dmac \<times> fdb_notification list) option" where
  "edgx_dmac_sync_disable mode dmac brv = do {
     ns \<leftarrow> disable_from mode dmac brv edgx_dmac_init_notify (root dmac);
     Some (dmac\<lparr>work_sync := None, root := []\<rparr>, ns)
   }"

text \<open>The attribute \<open>sync_enable\<close>: \<open>en\<close> is the parsed value, \<open>None\<close> when it is not a boolean.\<close>

definition dmac_sync_enable_store ::
  "bool option \<Rightarrow> int \<Rightarrow> edgx_dmac \<Rightarrow> br_vlan \<Rightarrow> (int \<times> edgx_dmac \<times> fdb_notification list) option" where
  "dmac_sync_enable_store en count dmac brv =
     (case en of
        None \<Rightarrow> Some (- EINVAL, dmac, [])
      | Some True \<Rightarrow> Some (count, edgx_dmac_sync_enable dmac, [])
      | Some False \<Rightarrow> do {
          (dmac, ns) \<leftarrow> edgx_dmac_sync_disable DMAC_SEND_NOTIFICATIONS dmac brv;
          Some (count, dmac, ns)
        })"

definition edgx_dmac_init :: "edgx_pt option list \<Rightarrow> nat \<Rightarrow> edgx_dmac" where
  "edgx_dmac_init pts base =
     \<lparr>dm_iobase = base, dm_ports = pts, root = [], detector_state = False, work_sync = None\<rparr>"

end
