(* ===== verification/BrVlan.thy ===== *)
theory BrVlan
  imports BrDmac
begin

text \<open>
  The VLAN management of the bridge (\<open>edge_br_vlan.c\<close>): VLAN membership of the ports, allocation of
  VLANs to FIDs and of FIDs to spanning trees, the port states of a tree, and the sysfs tables.

  The state is the VLAN tables, the copy of the learned addresses (which is told when a VLAN changes
  its FID) with the notifications sent so far, and the registers. \<open>list_del\<close> of an element that is
  in no list is undefined. The wait for a VLAN command reads the bit field with its bounds in the
  wrong order (13, 15): what it masks with is undefined, the parameter \<open>ub\<close>.
\<close>

unbundle bit_operations_syntax

record bridge =
  brv :: br_vlan
  dmac :: edgx_dmac
  sent :: "fdb_notification list"
  bio :: iomem

abbreviation set_brv :: "(br_vlan \<Rightarrow> br_vlan) \<Rightarrow> bridge \<Rightarrow> bridge" where
  "set_brv g b \<equiv> b\<lparr>brv := g (brv b)\<rparr>"

abbreviation set_bio :: "(iomem \<Rightarrow> iomem) \<Rightarrow> bridge \<Rightarrow> bridge" where
  "set_bio g b \<equiv> b\<lparr>bio := g (bio b)\<rparr>"

abbreviation (input) VLAN_CMD_BASE :: nat where "VLAN_CMD_BASE \<equiv> 0x8000"
abbreviation (input) VLAN_PORTS_BASE :: nat where "VLAN_PORTS_BASE \<equiv> 0x8008"
abbreviation (input) VLAN_TAG_BASE :: nat where "VLAN_TAG_BASE \<equiv> 0x800A"
abbreviation (input) VLAN_FID_BASE :: nat where "VLAN_FID_BASE \<equiv> 0x800C"
abbreviation (input) CMD_READ :: u16 where "CMD_READ \<equiv> 0"
abbreviation (input) CMD_WRITE :: u16 where "CMD_WRITE \<equiv> 0x1000"
abbreviation (input) CMD_PORTS :: u16 where "CMD_PORTS \<equiv> 0x2000"
abbreviation (input) CMD_TAG :: u16 where "CMD_TAG \<equiv> 0x4000"
abbreviation (input) CMD_FID :: u16 where "CMD_FID \<equiv> 0x8000"
abbreviation (input) BR_GEN_REG :: nat where "BR_GEN_REG \<equiv> 0x10"
abbreviation (input) PT_VEC_ALL :: u32 where "PT_VEC_ALL \<equiv> 0xFFFF"

section \<open>Commands\<close>

text \<open>A VLAN command: write the command register and wait.\<close>

definition vlan_cmd_busy :: "u16 \<Rightarrow> nat \<Rightarrow> iomem \<Rightarrow> bool" where
  "vlan_cmd_busy ub base io \<longleftrightarrow> edgx_get16 ub io base VLAN_CMD_BASE 13 15 \<noteq> 0"

definition vlan_cmd :: "device \<Rightarrow> u16 \<Rightarrow> u16 \<Rightarrow> bridge \<Rightarrow> bridge option" where
  "vlan_cmd dev ub cmd b = do {
     let base = bv_iobase (brv b);
     io \<leftarrow> wait_clear dev (vlan_cmd_busy ub base) (edgx_wr16 (bio b) base VLAN_CMD_BASE cmd);
     Some (b\<lparr>bio := io\<rparr>)
   }"

definition edgx_br_vlan_flush_fid :: "device \<Rightarrow> u16 \<Rightarrow> u16 \<Rightarrow> u32 \<Rightarrow> bridge \<Rightarrow> bridge option" where
  "edgx_br_vlan_flush_fid dev ub f pts b = do {
     let base = bv_iobase (brv b);
     let io = edgx_wr16 (bio b) base 0x14 f;
     let io = edgx_wr16 io base 0x12 (ucast pts);
     let io = edgx_set16 ub io base BR_GEN_REG 14 14 1;
     io \<leftarrow> wait_clear dev (\<lambda>m. edgx_get16 ub m base BR_GEN_REG 14 14 \<noteq> 0) io;
     Some (b\<lparr>bio := io\<rparr>)
   }"

section \<open>FIDs and trees\<close>

fun te_vlans :: "device \<Rightarrow> u16 \<Rightarrow> u16 \<Rightarrow> bool \<Rightarrow> nat list \<Rightarrow> bridge \<Rightarrow> bridge option" where
  "te_vlans dev ub f te [] b = Some b"
| "te_vlans dev ub f te (v # vs) b = do {
     let io = edgx_wr16 (bio b) (bv_iobase (brv b)) VLAN_FID_BASE (f OR (if te then 0x8000 else 0));
     e \<leftarrow> nth_opt (vids (brv b)) v;
     b \<leftarrow> vlan_cmd dev ub (vid e OR CMD_WRITE OR CMD_FID) (b\<lparr>bio := io\<rparr>);
     te_vlans dev ub f te vs b
   }"

text \<open>The forwarding state of a FID on every port that exists.\<close>

definition fwd_all_ports :: "u16 \<Rightarrow> u16 \<Rightarrow> bridge \<Rightarrow> bridge option" where
  "fwd_all_ports ub f b =
     (if length (bv_ports (brv b)) < EDGX_BR_MAX_PORTS then None
      else Some (set_bio (fold (\<lambda>pt io. case pt of None \<Rightarrow> io
             | Some pt \<Rightarrow> edgx_pt_set_fid_fwd_state ub pt f BR_STATE_FORWARDING io)
             (take EDGX_BR_MAX_PORTS (bv_ports (brv b)))) b))"

definition edgx_br_vlan_set_te_fid :: "device \<Rightarrow> u16 \<Rightarrow> nat \<Rightarrow> bool \<Rightarrow> bridge \<Rightarrow> bridge option" where
  "edgx_br_vlan_set_te_fid dev ub fi te b = do {
     e \<leftarrow> nth_opt (fids (brv b)) fi;
     b \<leftarrow> te_vlans dev ub (fid e) te (vlanlist e) b;
     if te then fwd_all_ports ub (fid e) b else Some b
   }"

definition unlink_fid :: "nat \<Rightarrow> br_vlan \<Rightarrow> br_vlan option" where
  "unlink_fid fi v =
     (if \<exists>m \<in> set (mstis v). fi \<in> set (fidlist m)
      then Some (v\<lparr>mstis := map (\<lambda>m. m\<lparr>fidlist := removeAll fi (fidlist m)\<rparr>) (mstis v)\<rparr>) else None)"

definition unlink_vlan :: "nat \<Rightarrow> br_vlan \<Rightarrow> br_vlan option" where
  "unlink_vlan vi v =
     (if \<exists>f \<in> set (fids v). vi \<in> set (vlanlist f)
      then Some (v\<lparr>fids := map (\<lambda>f. f\<lparr>vlanlist := removeAll vi (vlanlist f)\<rparr>) (fids v)\<rparr>) else None)"

definition link_fid :: "nat \<Rightarrow> nat \<Rightarrow> br_vlan \<Rightarrow> br_vlan" where
  "link_fid fi mi v =
     v\<lparr>fids := (fids v)[fi := (fids v ! fi)\<lparr>fd_msti := Some mi\<rparr>],
       mstis := (mstis v)[mi := (mstis v ! mi)\<lparr>fidlist := fidlist (mstis v ! mi) @ [fi]\<rparr>]\<rparr>"

definition link_vlan :: "nat \<Rightarrow> nat \<Rightarrow> br_vlan \<Rightarrow> br_vlan" where
  "link_vlan vi fi v = v\<lparr>fids := (fids v)[fi := (fids v ! fi)\<lparr>vlanlist := vlanlist (fids v ! fi) @ [vi]\<rparr>]\<rparr>"

definition edgx_br_move_fid2msti :: "device \<Rightarrow> u16 \<Rightarrow> nat \<Rightarrow> nat \<Rightarrow> bridge \<Rightarrow> bridge option" where
  "edgx_br_move_fid2msti dev ub fi mi b = do {
     e \<leftarrow> nth_opt (fids (brv b)) fi;
     m \<leftarrow> nth_opt (mstis (brv b)) mi;
     if fd_msti e = Some mi then Some b
     else do {
       v \<leftarrow> (if fd_msti e \<noteq> None then unlink_fid fi (brv b) else Some (brv b));
       let b = b\<lparr>brv := link_fid fi mi v\<rparr>;
       if mstid m = EDGX_TE_MSTID then do {
         b \<leftarrow> edgx_br_vlan_flush_fid dev ub (fid e) PT_VEC_ALL b;
         edgx_br_vlan_set_te_fid dev ub fi True b
       }
       else edgx_br_vlan_set_te_fid dev ub fi False b
     }
   }"

definition edgx_br_set_fid2msti :: "device \<Rightarrow> u16 \<Rightarrow> u16 \<Rightarrow> u16 \<Rightarrow> bridge \<Rightarrow> (int \<times> bridge) option" where
  "edgx_br_set_fid2msti dev ub f m b =
     (if f \<ge> max_vlans (brv b) then Some (- EINVAL, b)
      else case edgx_br_vlan_get_msti (brv b) m of
        None \<Rightarrow> Some (- EINVAL, b)
      | Some mi \<Rightarrow> do { b \<leftarrow> edgx_br_move_fid2msti dev ub (unat f) mi b; Some (0, b) })"

section \<open>VLANs and FIDs\<close>

definition edgx_br_move_vid2fid :: "device \<Rightarrow> u16 \<Rightarrow> nat \<Rightarrow> nat \<Rightarrow> bool \<Rightarrow> bridge \<Rightarrow> bridge option" where
  "edgx_br_move_vid2fid dev ub vi fi flush b = do {
     e \<leftarrow> nth_opt (vids (brv b)) vi;
     fe \<leftarrow> nth_opt (fids (brv b)) fi;
     if vl_fid e = Some fi then Some b
     else do {
       v \<leftarrow> (if vl_fid e \<noteq> None then unlink_vlan vi (brv b) else Some (brv b));
       let b = b\<lparr>brv := link_vlan vi fi v\<rparr>;
       b \<leftarrow> vlan_cmd dev ub (vid e OR CMD_READ OR CMD_FID) b;
       let b = set_bio (\<lambda>io. edgx_set16 ub io (bv_iobase (brv b)) VLAN_FID_BASE 5 0 (fid fe)) b;
       b \<leftarrow> vlan_cmd dev ub (vid e OR CMD_WRITE OR CMD_FID) b;
       b \<leftarrow> (case vl_fid e of None \<Rightarrow> Some b
            | Some old \<Rightarrow> do {
                oe \<leftarrow> nth_opt (fids (brv b)) old;
                b \<leftarrow> (if flush then edgx_br_vlan_flush_fid dev ub (fid oe) PT_VEC_ALL b else Some b);
                ns \<leftarrow> edgx_brfdb_update_vid2fid (dmac b) (vid e) (fid fe) (fid oe);
                Some (b\<lparr>sent := sent b @ ns\<rparr>)
              });
       Some (set_brv (\<lambda>v. v\<lparr>vids := (vids v)[vi := (vids v ! vi)\<lparr>vl_fid := Some fi\<rparr>]\<rparr>) b)
     }
   }"

definition edgx_br_set_vid2fid :: "device \<Rightarrow> u16 \<Rightarrow> u16 \<Rightarrow> u16 \<Rightarrow> bridge \<Rightarrow> (int \<times> bridge) option" where
  "edgx_br_set_vid2fid dev ub v f b =
     (if f \<ge> max_fids (brv b) then Some (- EINVAL, b)
      else case edgx_br_vlan_get_vlan (brv b) v of
        None \<Rightarrow> Some (- EINVAL, b)
      | Some vi \<Rightarrow> do { b \<leftarrow> edgx_br_move_vid2fid dev ub vi (unat f) True b; Some (0, b) })"

definition edgx_br_get_vid2fid :: "u16 \<Rightarrow> br_vlan \<Rightarrow> (int + u16) option" where
  "edgx_br_get_vid2fid v bv =
     (case edgx_br_vlan_get_vlan bv v of
        None \<Rightarrow> Some (Inl (- EINVAL))
      | Some vi \<Rightarrow> do {
          fi \<leftarrow> vl_fid (vids bv ! vi);
          fe \<leftarrow> nth_opt (fids bv) fi;
          Some (Inr (fid fe))
        })"

section \<open>Trees\<close>

definition edgx_br_vlan_init_msti :: "u16 \<Rightarrow> u8 \<Rightarrow> msti_ent \<Rightarrow> msti_ent" where
  "edgx_br_vlan_init_msti m st e = e\<lparr>mstid := m, ptstate := replicate EDGX_BR_MAX_PORTS st\<rparr>"

definition edgx_br_vlan_create_msti :: "u16 \<Rightarrow> br_vlan \<Rightarrow> int \<times> br_vlan" where
  "edgx_br_vlan_create_msti m v =
     (if is_reserved_mstid m \<or> edgx_br_vlan_get_msti v m \<noteq> None then (- EEXIST, v)
      else if m \<ge> EDGX_INVALID_MSTID then (- EINVAL, v)
      else case edgx_br_vlan_get_free_msti v of
        None \<Rightarrow> (- ENOMEM, v)
      | Some mi \<Rightarrow> (0, v\<lparr>mstis := (mstis v)[mi := edgx_br_vlan_init_msti m BR_STATE_DISABLED (mstis v ! mi)]\<rparr>))"

definition edgx_br_vlan_delete_msti :: "u16 \<Rightarrow> br_vlan \<Rightarrow> int \<times> br_vlan" where
  "edgx_br_vlan_delete_msti m v =
     (if is_reserved_mstid m then (- EACCES, v)
      else case edgx_br_vlan_get_msti v m of
        None \<Rightarrow> (- EBUSY, v)
      | Some mi \<Rightarrow>
          if fidlist (mstis v ! mi) = []
          then (0, v\<lparr>mstis := (mstis v)[mi := (mstis v ! mi)\<lparr>mstid := EDGX_INVALID_MSTID\<rparr>]\<rparr>)
          else (- EBUSY, v))"

fun flush_fids :: "device \<Rightarrow> u16 \<Rightarrow> u32 \<Rightarrow> nat list \<Rightarrow> bridge \<Rightarrow> bridge option" where
  "flush_fids dev ub pts [] b = Some b"
| "flush_fids dev ub pts (fi # fis) b = do {
     e \<leftarrow> nth_opt (fids (brv b)) fi;
     b \<leftarrow> edgx_br_vlan_flush_fid dev ub (fid e) pts b;
     flush_fids dev ub pts fis b
   }"

definition edgx_br_vlan_flush_mstpt :: "device \<Rightarrow> u16 \<Rightarrow> u16 \<Rightarrow> nat \<Rightarrow> bridge \<Rightarrow> (int \<times> bridge) option" where
  "edgx_br_vlan_flush_mstpt dev ub m p b =
     (case edgx_br_vlan_get_msti (brv b) m of
        None \<Rightarrow> Some (- EINVAL, b)
      | Some mi \<Rightarrow> do { b \<leftarrow> flush_fids dev ub (BIT p) (fidlist (mstis (brv b) ! mi)) b; Some (0, b) })"

definition edgx_br_vlan_get_mstpt_state :: "u16 \<Rightarrow> nat \<Rightarrow> br_vlan \<Rightarrow> (int + u8) option" where
  "edgx_br_vlan_get_mstpt_state m p v =
     (case edgx_br_vlan_get_msti v m of
        None \<Rightarrow> Some (Inl (- EINVAL))
      | Some mi \<Rightarrow> do { st \<leftarrow> nth_opt (ptstate (mstis v ! mi)) p; Some (Inr st) })"

fun fwd_fids :: "u16 \<Rightarrow> edgx_pt \<Rightarrow> u8 \<Rightarrow> nat list \<Rightarrow> bridge \<Rightarrow> bridge option" where
  "fwd_fids ub pt st [] b = Some b"
| "fwd_fids ub pt st (fi # fis) b = do {
     e \<leftarrow> nth_opt (fids (brv b)) fi;
     fwd_fids ub pt st fis (set_bio (edgx_pt_set_fid_fwd_state ub pt (fid e) st) b)
   }"

definition edgx_br_vlan_set_mstpt_state :: "u16 \<Rightarrow> u16 \<Rightarrow> edgx_pt \<Rightarrow> u8 \<Rightarrow> bridge \<Rightarrow> (int \<times> bridge) option" where
  "edgx_br_vlan_set_mstpt_state ub m pt st b =
     (case edgx_br_vlan_get_msti (brv b) m of
        None \<Rightarrow> Some (- EINVAL, b)
      | Some mi \<Rightarrow> do {
          b \<leftarrow> fwd_fids ub pt st (fidlist (mstis (brv b) ! mi)) b;
          sts \<leftarrow> upd_opt (ptstate (mstis (brv b) ! mi)) (pt_id pt) st;
          Some (0, set_brv (\<lambda>v. v\<lparr>mstis := (mstis v)[mi := (mstis v ! mi)\<lparr>ptstate := sts\<rparr>]\<rparr>) b)
        })"

section \<open>Membership of the ports\<close>

text \<open>The two cases of \<open>edgx_br_vlan_add_pt\<close>: the VLAN exists, or it gets a free entry and a free FID.\<close>

definition join_vlan :: "u16 \<Rightarrow> nat \<Rightarrow> u16 \<Rightarrow> bool \<Rightarrow> edgx_pt \<Rightarrow> bridge \<Rightarrow> (nat \<times> bridge) option" where
  "join_vlan ub vi v is_pvid pt b = do {
     let e = vids (brv b) ! vi;
     let b = set_brv (\<lambda>x. x\<lparr>vids := (vids x)[vi := e\<lparr>ptvec := ptvec e OR BIT (pt_id pt)\<rparr>]\<rparr>) b;
     fi \<leftarrow> vl_fid e;
     Some (fi, if v = edgx_pt_get_pvid ub pt (bio b) \<and> \<not> is_pvid
               then set_bio (edgx_pt_clear_pvid ub pt) b else b)
   }"

definition new_vlan :: "device \<Rightarrow> u16 \<Rightarrow> nat \<Rightarrow> nat \<Rightarrow> u16 \<Rightarrow> edgx_pt \<Rightarrow> bridge \<Rightarrow> bridge option" where
  "new_vlan dev ub vi fi v pt b = do {
     let b = set_brv (\<lambda>x. x\<lparr>vids := (vids x)[vi := (vids x ! vi)\<lparr>vid := v, ptvec := BIT (pt_id pt)\<rparr>]\<rparr>) b;
     (ret, b) \<leftarrow> edgx_br_set_fid2msti dev ub (fid (fids (brv b) ! fi)) EDGX_CIST_MSTID b;
     b \<leftarrow> edgx_br_move_vid2fid dev ub vi fi False b;
     Some (set_brv (\<lambda>x. x\<lparr>nvlans := nvlans x + 1\<rparr>) b)
   }"

text \<open>Writing the membership and the tag flag of a port for a VLAN.\<close>

definition write_member :: "device \<Rightarrow> u16 \<Rightarrow> nat \<Rightarrow> nat \<Rightarrow> bool \<Rightarrow> bridge \<Rightarrow> bridge option" where
  "write_member dev ub vi p untagged b = do {
     let e = vids (brv b) ! vi;
     let base = bv_iobase (brv b);
     b \<leftarrow> vlan_cmd dev ub (vid e OR CMD_READ OR CMD_TAG) b;
     let b = set_bio (\<lambda>io. edgx_set16 ub (edgx_wr16 io base VLAN_PORTS_BASE (ucast (ptvec e)))
                             base VLAN_TAG_BASE (int p) (int p) (if untagged then 1 else 0)) b;
     vlan_cmd dev ub (vid e OR CMD_WRITE OR CMD_PORTS OR CMD_TAG) b
   }"

definition edgx_br_vlan_add_pt ::
  "device \<Rightarrow> u16 \<Rightarrow> u16 \<Rightarrow> bool \<Rightarrow> bool \<Rightarrow> edgx_pt \<Rightarrow> bridge \<Rightarrow> (int \<times> bridge) option" where
  "edgx_br_vlan_add_pt dev ub v untagged is_pvid pt b =
     (if nvlans (brv b) \<ge> max_vlans (brv b) then Some (- ENOMEM, b)
      else if is_pvid \<and> \<not> untagged then Some (- EINVAL, b)
      else do {
        found \<leftarrow> (case edgx_br_vlan_get_vlan (brv b) v of
            Some vi \<Rightarrow> map_option (\<lambda>(fi, b). Some (vi, fi, b)) (join_vlan ub vi v is_pvid pt b)
          | None \<Rightarrow>
              (case (edgx_br_vlan_get_free_vlan (brv b), edgx_br_vlan_get_free_fid (brv b)) of
                 (Some vi, Some fi) \<Rightarrow> map_option (\<lambda>b. Some (vi, fi, b)) (new_vlan dev ub vi fi v pt b)
               | _ \<Rightarrow> Some None));
        case found of None \<Rightarrow> Some (- ENOMEM, b)
        | Some (vi, fi, b) \<Rightarrow> do {
            b \<leftarrow> write_member dev ub vi (pt_id pt) untagged b;
            fe \<leftarrow> nth_opt (fids (brv b)) fi;
            mi \<leftarrow> fd_msti fe;
            m \<leftarrow> nth_opt (mstis (brv b)) mi;
            b \<leftarrow> (if mstid m \<noteq> EDGX_TE_MSTID then do {
                   cist \<leftarrow> nth_opt (mstis (brv b)) CIST_IDX;
                   fidfwd \<leftarrow> nth_opt (ptstate cist) (pt_id pt);
                   Some (set_bio (edgx_pt_set_fid_fwd_state ub pt (fid fe) fidfwd) b)
                 } else Some b);
            Some (0, if is_pvid then set_bio (edgx_pt_set_pvid ub pt v) b else b)
          }
      })"

definition edgx_br_vlan_del_pt :: "device \<Rightarrow> u16 \<Rightarrow> u16 \<Rightarrow> edgx_pt \<Rightarrow> bridge \<Rightarrow> (int \<times> bridge) option" where
  "edgx_br_vlan_del_pt dev ub v pt b =
     (case edgx_br_vlan_get_vlan (brv b) v of
        None \<Rightarrow> Some (- EINVAL, b)
      | Some vi \<Rightarrow> do {
          let e = vids (brv b) ! vi;
          let pts = ptvec e AND NOT (BIT (pt_id pt));
          let b = set_brv (\<lambda>x. x\<lparr>vids := (vids x)[vi := e\<lparr>ptvec := pts\<rparr>]\<rparr>) b;
          let b = set_bio (\<lambda>io. edgx_wr16 io (bv_iobase (brv b)) VLAN_PORTS_BASE (ucast pts)) b;
          b \<leftarrow> vlan_cmd dev ub (vid e OR CMD_WRITE OR CMD_PORTS) b;
          b \<leftarrow> (if pts \<noteq> 0 then Some b
               else do {
                 x \<leftarrow> unlink_vlan vi ((brv b)\<lparr>vids := (vids (brv b))[vi := e\<lparr>ptvec := pts, vid := INVALID_VID, vl_fid := None\<rparr>]\<rparr>);
                 Some (b\<lparr>brv := x\<lparr>nvlans := nvlans x - 1\<rparr>\<rparr>)
               });
          Some (0, if v = edgx_pt_get_pvid ub pt (bio b) then set_bio (edgx_pt_clear_pvid ub pt) b else b)
        })"

text \<open>The loop over the VLAN entries \<open>i, i + 1, ...\<close>.\<close>

fun purge_from :: "device \<Rightarrow> u16 \<Rightarrow> edgx_pt \<Rightarrow> nat list \<Rightarrow> bridge \<Rightarrow> bridge option" where
  "purge_from dev ub pt [] b = Some b"
| "purge_from dev ub pt (i # is) b = do {
     e \<leftarrow> nth_opt (vids (brv b)) i;
     b \<leftarrow> (if ptvec e AND BIT (pt_id pt) \<noteq> 0
          then map_option snd (edgx_br_vlan_del_pt dev ub (vid e) pt b) else Some b);
     purge_from dev ub pt is b
   }"

definition edgx_br_vlan_purge_pt :: "device \<Rightarrow> u16 \<Rightarrow> edgx_pt \<Rightarrow> bridge \<Rightarrow> (int \<times> bridge) option" where
  "edgx_br_vlan_purge_pt dev ub pt b =
     map_option (Pair 0) (purge_from dev ub pt [0..<unat (max_vlans (brv b))] b)"

text \<open>
  The dump of a port's VLANs calls \<open>cb\<close> with the VLAN and its flags (PVID, untagged) and stops at the
  first error.
\<close>

fun vlan_dump_from ::
  "device \<Rightarrow> u16 \<Rightarrow> (u16 \<Rightarrow> bool \<Rightarrow> bool \<Rightarrow> int) \<Rightarrow> u16 \<Rightarrow> nat \<Rightarrow> nat list \<Rightarrow> bridge
     \<Rightarrow> (int \<times> (u16 \<times> bool \<times> bool) list \<times> bridge) option" where
  "vlan_dump_from dev ub cb pvid p [] b = Some (0, [], b)"
| "vlan_dump_from dev ub cb pvid p (i # is) b = do {
     e \<leftarrow> nth_opt (vids (brv b)) i;
     if vid e \<noteq> INVALID_VID \<and> ptvec e AND BIT p \<noteq> 0 then do {
       b \<leftarrow> vlan_cmd dev ub (vid e OR CMD_READ OR CMD_TAG) b;
       let untagged = edgx_rd16 (bio b) (bv_iobase (brv b)) VLAN_TAG_BASE AND BIT p \<noteq> 0;
       let item = (vid e, vid e = pvid, untagged);
       let ret = cb (vid e) (vid e = pvid) untagged;
       if ret \<noteq> 0 then Some (ret, [item], b)
       else do {
         (ret, items, b) \<leftarrow> vlan_dump_from dev ub cb pvid p is b;
         Some (ret, item # items, b)
       }
     }
     else vlan_dump_from dev ub cb pvid p is b
   }"

definition edgx_br_vlan_dump_pt ::
  "device \<Rightarrow> u16 \<Rightarrow> (u16 \<Rightarrow> bool \<Rightarrow> bool \<Rightarrow> int) \<Rightarrow> edgx_pt \<Rightarrow> bridge
     \<Rightarrow> (int \<times> (u16 \<times> bool \<times> bool) list \<times> bridge) option" where
  "edgx_br_vlan_dump_pt dev ub cb pt b =
     vlan_dump_from dev ub cb (edgx_pt_get_pvid ub pt (bio b)) (pt_id pt) [0..<unat (max_vlans (brv b))] b"

section \<open>sysfs tables\<close>

definition vid2fid_read :: "int \<Rightarrow> int \<Rightarrow> br_vlan \<Rightarrow> (int \<times> u32 option) option" where
  "vid2fid_read ofs count v = do {
     p \<leftarrow> edgx_sysfs_tbl_params ofs count 4;
     case p of Inl e \<Rightarrow> Some (0, None)
     | Inr idx \<Rightarrow> do {
         r \<leftarrow> edgx_br_get_vid2fid (word_of_int idx) v;
         case r of Inl e \<Rightarrow> Some (0, None) | Inr f \<Rightarrow> Some (count, Some (ucast f))
       }
   }"

text \<open>The written word is read as a 16-bit FID (the first two bytes of the buffer).\<close>

definition vid2fid_write :: "device \<Rightarrow> u16 \<Rightarrow> int \<Rightarrow> int \<Rightarrow> u32 \<Rightarrow> bridge \<Rightarrow> (int \<times> bridge) option" where
  "vid2fid_write dev ub ofs count val b = do {
     p \<leftarrow> edgx_sysfs_tbl_params ofs count 4;
     case p of Inl e \<Rightarrow> Some (- EINVAL, b)
     | Inr idx \<Rightarrow> do {
         (r, b) \<leftarrow> edgx_br_set_vid2fid dev ub (word_of_int idx) (ucast val) b;
         Some (if r \<noteq> 0 then - EINVAL else count, b)
       }
   }"

text \<open>
  The VLANs of a FID, filled up to \<open>max_vlans\<close>: the loop that fills the rest advances its index
  twice, so that only every second of the remaining elements is written.
\<close>

fun fill_rest :: "nat \<Rightarrow> nat \<Rightarrow> nat \<Rightarrow> u32 list \<Rightarrow> u32 list option" where
  "fill_rest 0 i n buf = Some buf"
| "fill_rest (Suc k) i n buf =
     (if i < n then do { buf \<leftarrow> upd_opt buf i 0; fill_rest k (i + 2) n buf } else Some buf)"

definition fid2vid_read :: "int \<Rightarrow> int \<Rightarrow> u32 list \<Rightarrow> br_vlan \<Rightarrow> (int \<times> u32 list) option" where
  "fid2vid_read ofs count buf v = do {
     p \<leftarrow> edgx_sysfs_list_params ofs count (4 * uint (max_vlans v));
     case p of Inl e \<Rightarrow> Some (0, buf)
     | Inr (idx, nelems) \<Rightarrow>
         if nelems \<noteq> 1 then Some (0, buf)
         else case edgx_br_vlan_get_fid v (word_of_int idx) of
           None \<Rightarrow> Some (0, buf)
         | Some fi \<Rightarrow> do {
             let vs = vlanlist (fids v ! fi);
             let n = unat (max_vlans v);
             if length buf < length vs \<or> (\<exists>i \<in> set vs. length (vids v) \<le> i) then None
             else do {
               buf \<leftarrow> fill_rest n (length vs) n
                        (map (\<lambda>i. ucast (vid (vids v ! i))) vs @ drop (length vs) buf);
               Some (count, buf)
             }
           }
   }"

definition fid2msti_write :: "device \<Rightarrow> u16 \<Rightarrow> int \<Rightarrow> int \<Rightarrow> u32 \<Rightarrow> bridge \<Rightarrow> (int \<times> bridge) option" where
  "fid2msti_write dev ub ofs count val b = do {
     p \<leftarrow> edgx_sysfs_tbl_params ofs count 4;
     case p of Inl e \<Rightarrow> Some (- EINVAL, b)
     | Inr idx \<Rightarrow> do {
         (r, b) \<leftarrow> edgx_br_set_fid2msti dev ub (word_of_int idx) (ucast val) b;
         Some (if r \<noteq> 0 then - EINVAL else count, b)
       }
   }"

definition fid2msti_read :: "int \<Rightarrow> int \<Rightarrow> br_vlan \<Rightarrow> (int \<times> u32 option) option" where
  "fid2msti_read ofs count v = do {
     p \<leftarrow> edgx_sysfs_tbl_params ofs count 4;
     case p of Inl e \<Rightarrow> Some (0, None)
     | Inr idx \<Rightarrow>
         (case edgx_br_vlan_get_fid v (word_of_int idx) of
            None \<Rightarrow> Some (0, None)
          | Some fi \<Rightarrow> do {
              mi \<leftarrow> fd_msti (fids v ! fi);
              m \<leftarrow> nth_opt (mstis v) mi;
              Some (count, Some (ucast (mstid m)))
            })
   }"

text \<open>The trees that exist, filled up with the invalid identifier.\<close>

definition msti_list_read :: "int \<Rightarrow> int \<Rightarrow> br_vlan \<Rightarrow> (int \<times> u32 list) option" where
  "msti_list_read ofs count v = do {
     p \<leftarrow> edgx_sysfs_list_params ofs count (4 * uint (max_mstis v));
     case p of Inl e \<Rightarrow> Some (0, [])
     | Inr (idx, nelems) \<Rightarrow>
         if nelems \<noteq> 1 \<or> idx \<noteq> 0 then Some (0, [])
         else let ms = map (ucast \<circ> mstid) (filter (\<lambda>m. mstid m \<noteq> EDGX_INVALID_MSTID) (mstis v))
              in Some (count, ms @ replicate (unat (max_mstis v) - length ms) (ucast EDGX_INVALID_MSTID))
   }"

text \<open>\<open>val\<close> is the parsed number, \<open>None\<close> when it does not fit into 16 bits or is no number.\<close>

definition add_msti_store :: "u16 option \<Rightarrow> int \<Rightarrow> br_vlan \<Rightarrow> int \<times> br_vlan" where
  "add_msti_store val count v =
     (case val of None \<Rightarrow> (- EINVAL, v)
      | Some m \<Rightarrow> (let (err, v) = edgx_br_vlan_create_msti m v in (if err \<noteq> 0 then err else count, v)))"

definition del_msti_store :: "u16 option \<Rightarrow> int \<Rightarrow> br_vlan \<Rightarrow> int \<times> br_vlan" where
  "del_msti_store val count v =
     (case val of None \<Rightarrow> (- EINVAL, v)
      | Some m \<Rightarrow> (let (err, v) = edgx_br_vlan_delete_msti m v in (if err \<noteq> 0 then err else count, v)))"

section \<open>Initialisation\<close>

fun init_fids :: "device \<Rightarrow> u16 \<Rightarrow> nat list \<Rightarrow> bridge \<Rightarrow> bridge option" where
  "init_fids dev ub [] b = Some b"
| "init_fids dev ub (i # is) b = do {
     b \<leftarrow> edgx_br_move_fid2msti dev ub i CIST_IDX
            (set_brv (\<lambda>v. v\<lparr>fids := (fids v)[i := (fids v ! i)\<lparr>fid := of_nat i\<rparr>]\<rparr>) b);
     init_fids dev ub is b
   }"

fun reset_members :: "device \<Rightarrow> u16 \<Rightarrow> nat list \<Rightarrow> bridge \<Rightarrow> bridge option" where
  "reset_members dev ub [] b = Some b"
| "reset_members dev ub (i # is) b = do {
     let b = set_bio (\<lambda>io. edgx_wr16 io (bv_iobase (brv b)) VLAN_PORTS_BASE 0) b;
     b \<leftarrow> vlan_cmd dev ub (of_nat i OR CMD_WRITE OR CMD_PORTS) b;
     reset_members dev ub is b
   }"

text \<open>The tables before the loops of the initialisation.\<close>

definition empty_tables :: "nat \<Rightarrow> edgx_pt option list \<Rightarrow> u16 \<Rightarrow> br_vlan" where
  "empty_tables base pts n =
     (let nm = min n EDGX_MAX_SUPP_MSTI;
          ms = replicate (unat nm) \<lparr>mstid = EDGX_INVALID_MSTID, fidlist = [], ptstate = replicate EDGX_BR_MAX_PORTS 0\<rparr>
      in \<lparr>bv_iobase = base, bv_ports = pts, nvlans = 0, max_vlans = n, max_fids = n, max_mstis = nm,
          vids = replicate (unat n) \<lparr>vid = 0, vl_fid = None, ptvec = 0\<rparr>,
          fids = replicate (unat n) \<lparr>vlanlist = [], fid = 0, fd_msti = None\<rparr>,
          mstis = ms[CIST_IDX := edgx_br_vlan_init_msti EDGX_CIST_MSTID BR_STATE_DISABLED (ms ! CIST_IDX),
                     TE_IDX := edgx_br_vlan_init_msti EDGX_TE_MSTID BR_STATE_FORWARDING (ms ! TE_IDX)]\<rparr>)"

definition edgx_br_init_vlan ::
  "device \<Rightarrow> u16 \<Rightarrow> edgx_br \<Rightarrow> nat \<Rightarrow> edgx_pt option list \<Rightarrow> edgx_dmac \<Rightarrow> iomem \<Rightarrow> (int + bridge) option" where
  "edgx_br_init_vlan dev ub br base pts d io =
     (let n = (ucast (edgx_br_get_generic_pow2z io br 0x2A) :: u16)
      in if min n EDGX_MAX_SUPP_MSTI < 2 then Some (Inl (- ENOMEM))
         else do {
           b \<leftarrow> init_fids dev ub [0..<unat n] \<lparr>brv = empty_tables base pts n, dmac = d, sent = [], bio = io\<rparr>;
           b \<leftarrow> reset_members dev ub [0..<4096] b;
           Some (Inr b)
         })"

end
