(* ===== verification/BrVlanInv.thy ===== *)
theory BrVlanInv
  imports BrVlan
begin

text \<open>
  The invariant of the VLAN tables: the lists of VLANs of the FIDs and of FIDs of the trees agree
  with the back pointers of their members, every used VLAN has a FID and every FID a tree, and the
  counter counts the used VLANs. It holds after the initialisation and every operation keeps it.
\<close>

unbundle bit_operations_syntax

section \<open>Lists with back pointers\<close>

text \<open>\<open>own ! i\<close> is the list that element \<open>i\<close> is in, \<open>mem ! g\<close> are the members of list \<open>g\<close>.\<close>

definition linked :: "nat option list \<Rightarrow> nat list list \<Rightarrow> bool" where
  "linked own mem \<longleftrightarrow>
     (\<forall>g < length mem. distinct (mem ! g) \<and> (\<forall>i. i \<in> set (mem ! g) \<longleftrightarrow> i < length own \<and> own ! i = Some g))
     \<and> (\<forall>i < length own. \<forall>g. own ! i = Some g \<longrightarrow> g < length mem)"

lemma linkedD:
  assumes "linked own mem"
  shows "g < length mem \<Longrightarrow> distinct (mem ! g)"
    and "g < length mem \<Longrightarrow> i \<in> set (mem ! g) \<longleftrightarrow> i < length own \<and> own ! i = Some g"
    and "i < length own \<Longrightarrow> own ! i = Some g \<Longrightarrow> g < length mem"
  using assms by (auto simp: linked_def)

lemma linked_member:
  assumes "linked own mem" "i < length own" "own ! i = Some g"
  shows "\<exists>ms \<in> set mem. i \<in> set ms"
proof -
  have "g < length mem" by (rule linkedD(3) [OF assms])
  with linkedD(2) [OF assms(1), of g i] assms(2,3) show ?thesis by (auto intro!: bexI [of _ "mem ! g"])
qed

lemma linked_unlink:
  assumes "linked own mem" "i < length own"
  shows "linked (own[i := None]) (map (removeAll i) mem)"
  using assms by (auto simp: linked_def nth_list_update distinct_removeAll)

lemma linked_free:
  assumes "linked own mem" "i < length own" "own ! i = None"
  shows "map (removeAll i) mem = mem"
proof (rule nth_equalityI)
  fix g assume "g < length (map (removeAll i) mem)"
  then have g: "g < length mem" by simp
  then have "i \<notin> set (mem ! g)" using linkedD(2) [OF assms(1), of g i] assms(3) by simp
  with g show "map (removeAll i) mem ! g = mem ! g" by simp
qed simp

lemma linked_link:
  assumes "linked own mem" "i < length own" "own ! i = None" "g < length mem"
  shows "linked (own[i := Some g]) (mem[g := mem ! g @ [i]])"
proof -
  have no: "i \<notin> set (mem ! h)" if "h < length mem" for h
    using linkedD(2) [OF assms(1) that, of i] assms(3) by simp
  show ?thesis
    unfolding linked_def
  proof (intro conjI allI impI)
    fix h assume h: "h < length (mem[g := mem ! g @ [i]])"
    then show "distinct (mem[g := mem ! g @ [i]] ! h)"
      using linkedD(1) [OF assms(1), of h] no by (cases "h = g") auto
    show "k \<in> set (mem[g := mem ! g @ [i]] ! h) \<longleftrightarrow>
        k < length (own[i := Some g]) \<and> own[i := Some g] ! k = Some h" for k
      using linkedD(2) [OF assms(1), of h k] h no [of h] assms(2,4) by (auto simp: nth_list_update)
  next
    fix k h assume "k < length (own[i := Some g])" "own[i := Some g] ! k = Some h"
    then show "h < length (mem[g := mem ! g @ [i]])"
      using linkedD(3) [OF assms(1), of k h] assms(2,4) by (cases "k = i") auto
  qed
qed

text \<open>Moving an element to another list, wherever it was.\<close>

lemma linked_move:
  assumes "linked own mem" "i < length own" "g < length mem"
  shows "linked (own[i := Some g]) ((map (removeAll i) mem)[g := removeAll i (mem ! g) @ [i]])"
proof -
  have "linked ((own[i := None])[i := Some g]) ((map (removeAll i) mem)[g := map (removeAll i) mem ! g @ [i]])"
    by (rule linked_link [OF linked_unlink [OF assms(1,2)]]) (use assms in simp_all)
  then show ?thesis using assms(3) by simp
qed

section \<open>Invariant of the VLAN tables\<close>

definition sizes_ok :: "br_vlan \<Rightarrow> bool" where
  "sizes_ok v \<longleftrightarrow> length (vids v) = unat (max_vlans v) \<and> length (fids v) = unat (max_vlans v)
     \<and> max_fids v = max_vlans v \<and> length (mstis v) = unat (max_mstis v) \<and> 2 \<le> length (mstis v)
     \<and> (\<forall>i < length (fids v). fid (fids v ! i) = of_nat i)"

definition links_ok :: "br_vlan \<Rightarrow> bool" where
  "links_ok v \<longleftrightarrow> linked (map vl_fid (vids v)) (map vlanlist (fids v))
     \<and> linked (map fd_msti (fids v)) (map fidlist (mstis v))"

text \<open>The columns of identifiers and FIDs: a used VLAN has a FID, and no identifier occurs twice.\<close>

definition used_cols :: "u16 list \<Rightarrow> nat option list \<Rightarrow> bool" where
  "used_cols vs own \<longleftrightarrow> (\<forall>i < length vs. vs ! i \<noteq> INVALID_VID \<longrightarrow> own ! i \<noteq> None)
     \<and> distinct (filter (\<lambda>x. x \<noteq> INVALID_VID) vs)"

definition vlans_used :: "u16 list \<Rightarrow> nat" where
  "vlans_used vs = length (filter (\<lambda>x. x \<noteq> INVALID_VID) vs)"

text \<open>An unused entry is a member of no port.\<close>

definition idle_cols :: "u16 list \<Rightarrow> u32 list \<Rightarrow> bool" where
  "idle_cols vs pts \<longleftrightarrow> (\<forall>i < length vs. vs ! i = INVALID_VID \<longrightarrow> pts ! i = 0)"

definition used_ok :: "br_vlan \<Rightarrow> bool" where
  "used_ok v \<longleftrightarrow> idle_cols (map vid (vids v)) (map ptvec (vids v)) \<and> used_cols (map vid (vids v)) (map vl_fid (vids v)) \<and> None \<notin> set (map fd_msti (fids v))
     \<and> unat (nvlans v) = vlans_used (map vid (vids v))"

definition trees_ok :: "br_vlan \<Rightarrow> bool" where
  "trees_ok v \<longleftrightarrow> map mstid (mstis v) ! CIST_IDX = EDGX_CIST_MSTID \<and> map mstid (mstis v) ! TE_IDX = EDGX_TE_MSTID
     \<and> (\<forall>st \<in> set (map ptstate (mstis v)). length st = EDGX_BR_MAX_PORTS)"

definition vlan_wf :: "br_vlan \<Rightarrow> bool" where
  "vlan_wf v \<longleftrightarrow> sizes_ok v \<and> links_ok v \<and> used_ok v \<and> trees_ok v"

lemma wf_nvlans [simp]:
  "sizes_ok (v\<lparr>nvlans := n\<rparr>) = sizes_ok v" "links_ok (v\<lparr>nvlans := n\<rparr>) = links_ok v" "trees_ok (v\<lparr>nvlans := n\<rparr>) = trees_ok v"
  by (simp_all add: sizes_ok_def links_ok_def trees_ok_def)

section \<open>What the commands leave alone\<close>

lemma vlan_cmd_brv: "vlan_cmd dev ub cmd b = Some b' \<Longrightarrow> brv b' = brv b \<and> dmac b' = dmac b \<and> sent b' = sent b"
  by (auto simp: vlan_cmd_def bind_eq_Some Let_def)

lemma flush_fid_brv: "edgx_br_vlan_flush_fid dev ub f p b = Some b' \<Longrightarrow> brv b' = brv b \<and> dmac b' = dmac b \<and> sent b' = sent b"
  by (auto simp: edgx_br_vlan_flush_fid_def bind_eq_Some Let_def)

lemma te_vlans_brv: "te_vlans dev ub f te vs b = Some b' \<Longrightarrow> brv b' = brv b \<and> dmac b' = dmac b \<and> sent b' = sent b"
  by (induction vs arbitrary: b) (auto simp: bind_eq_Some dest!: vlan_cmd_brv)

lemma set_te_fid_brv: "edgx_br_vlan_set_te_fid dev ub fi te b = Some b' \<Longrightarrow> brv b' = brv b \<and> dmac b' = dmac b \<and> sent b' = sent b"
  by (auto simp: edgx_br_vlan_set_te_fid_def bind_eq_Some fwd_all_ports_def dest!: te_vlans_brv split: if_splits)

lemma flush_fids_brv: "flush_fids dev ub p is b = Some b' \<Longrightarrow> brv b' = brv b"
  by (induction "is" arbitrary: b) (auto simp: bind_eq_Some dest!: flush_fid_brv)

lemma fwd_fids_brv: "fwd_fids ub pt st is b = Some b' \<Longrightarrow> brv b' = brv b"
  by (induction "is" arbitrary: b) (auto simp: bind_eq_Some)

lemma write_member_brv: "write_member dev ub vi p u b = Some b' \<Longrightarrow> brv b' = brv b"
  by (auto simp: write_member_def bind_eq_Some Let_def dest!: vlan_cmd_brv)

lemma vlan_dump_brv: "vlan_dump_from dev ub cb pvid p is b = Some (r, items, b') \<Longrightarrow> brv b' = brv b"
proof (induction "is" arbitrary: b items)
  case Nil
  then show ?case by simp
next
  case (Cons i "is")
  then show ?case
    by (auto simp: bind_eq_Some Let_def split: if_splits dest!: vlan_cmd_brv)
qed

section \<open>Moving a FID to a tree and a VLAN to a FID\<close>

text \<open>What a move changes in the tables.\<close>

lemma move_fid2msti_tables:
  assumes "edgx_br_move_fid2msti dev ub fi mi b = Some b'" "links_ok (brv b)"
  shows "fi < length (fids (brv b)) \<and> mi < length (mstis (brv b))
     \<and> (brv b' = brv b \<and> fd_msti (fids (brv b) ! fi) = Some mi
        \<or> brv b' = (brv b)\<lparr>fids := (fids (brv b))[fi := (fids (brv b) ! fi)\<lparr>fd_msti := Some mi\<rparr>],
             mstis := (map (\<lambda>m. m\<lparr>fidlist := removeAll fi (fidlist m)\<rparr>) (mstis (brv b)))
                        [mi := (mstis (brv b) ! mi)\<lparr>fidlist := removeAll fi (fidlist (mstis (brv b) ! mi)) @ [fi]\<rparr>]\<rparr>)"
proof -
  let ?v = "brv b"
  from assms(1) have b: "fi < length (fids ?v)" "mi < length (mstis ?v)"
    by (auto simp: edgx_br_move_fid2msti_def bind_eq_Some nth_opt_eq_Some)
  have lk: "linked (map fd_msti (fids ?v)) (map fidlist (mstis ?v))" using assms(2) by (simp add: links_ok_def)
  show ?thesis
  proof (cases "fd_msti (fids ?v ! fi) = Some mi")
    case True
    with assms(1) b show ?thesis by (simp add: edgx_br_move_fid2msti_def)
  next
    case False
    define v where "v = ?v\<lparr>mstis := map (\<lambda>m. m\<lparr>fidlist := removeAll fi (fidlist m)\<rparr>) (mstis ?v)\<rparr>"
    have v: "(if fd_msti (fids ?v ! fi) \<noteq> None then unlink_fid fi ?v else Some ?v) = Some v"
    proof (cases "fd_msti (fids ?v ! fi)")
      case None
      have "map (removeAll fi) (map fidlist (mstis ?v)) = map fidlist (mstis ?v)"
        by (rule linked_free [OF lk]) (use b None in simp_all)
      then have "mstis v = mstis ?v" by (auto simp: v_def intro: map_idI)
      with None show ?thesis by (simp add: v_def)
    next
      case (Some g)
      have "\<exists>ms \<in> set (map fidlist (mstis ?v)). fi \<in> set ms"
        by (rule linked_member [OF lk]) (use b Some in simp_all)
      then show ?thesis by (auto simp: unlink_fid_def v_def Some)
    qed
    from assms(1) b False v have "brv b' = link_fid fi mi v"
      by (auto simp: edgx_br_move_fid2msti_def bind_eq_Some Let_def split: if_splits
          dest!: flush_fid_brv set_te_fid_brv)
    with b show ?thesis by (simp add: link_fid_def v_def)
  qed
qed

lemma move_vid2fid_tables:
  assumes "edgx_br_move_vid2fid dev ub vi fi flush b = Some b'" "links_ok (brv b)"
  shows "vi < length (vids (brv b)) \<and> fi < length (fids (brv b))
     \<and> (brv b' = brv b \<and> vl_fid (vids (brv b) ! vi) = Some fi
        \<or> brv b' = (brv b)\<lparr>vids := (vids (brv b))[vi := (vids (brv b) ! vi)\<lparr>vl_fid := Some fi\<rparr>],
             fids := (map (\<lambda>f. f\<lparr>vlanlist := removeAll vi (vlanlist f)\<rparr>) (fids (brv b)))
                       [fi := (fids (brv b) ! fi)\<lparr>vlanlist := removeAll vi (vlanlist (fids (brv b) ! fi)) @ [vi]\<rparr>]\<rparr>)"
proof -
  let ?v = "brv b"
  from assms(1) have b: "vi < length (vids ?v)" "fi < length (fids ?v)"
    by (auto simp: edgx_br_move_vid2fid_def bind_eq_Some nth_opt_eq_Some)
  have lk: "linked (map vl_fid (vids ?v)) (map vlanlist (fids ?v))" using assms(2) by (simp add: links_ok_def)
  show ?thesis
  proof (cases "vl_fid (vids ?v ! vi) = Some fi")
    case True
    with assms(1) b show ?thesis by (simp add: edgx_br_move_vid2fid_def)
  next
    case False
    define v where "v = ?v\<lparr>fids := map (\<lambda>f. f\<lparr>vlanlist := removeAll vi (vlanlist f)\<rparr>) (fids ?v)\<rparr>"
    have v: "(if vl_fid (vids ?v ! vi) \<noteq> None then unlink_vlan vi ?v else Some ?v) = Some v"
    proof (cases "vl_fid (vids ?v ! vi)")
      case None
      have "map (removeAll vi) (map vlanlist (fids ?v)) = map vlanlist (fids ?v)"
        by (rule linked_free [OF lk]) (use b None in simp_all)
      then have "fids v = fids ?v" by (auto simp: v_def intro: map_idI)
      with None show ?thesis by (simp add: v_def)
    next
      case (Some g)
      have "\<exists>ms \<in> set (map vlanlist (fids ?v)). vi \<in> set ms"
        by (rule linked_member [OF lk]) (use b Some in simp_all)
      then show ?thesis by (auto simp: unlink_vlan_def v_def Some)
    qed
    from assms(1) b False v have "brv b' = (link_vlan vi fi v)\<lparr>vids := (vids ?v)[vi := (vids ?v ! vi)\<lparr>vl_fid := Some fi\<rparr>]\<rparr>"
      by (auto simp: edgx_br_move_vid2fid_def bind_eq_Some Let_def link_vlan_def v_def split: if_splits option.splits
          dest!: flush_fid_brv vlan_cmd_brv)
    with b show ?thesis by (simp add: link_vlan_def v_def)
  qed
qed

lemma sizes_okD:
  assumes "sizes_ok v"
  shows "length (vids v) = unat (max_vlans v)" "length (fids v) = unat (max_vlans v)" "max_fids v = max_vlans v"
    "length (mstis v) = unat (max_mstis v)" "2 \<le> length (mstis v)"
    "i < length (fids v) \<Longrightarrow> fid (fids v ! i) = of_nat i"
  using assms by (auto simp: sizes_ok_def)

lemma nth_field_same: "f y = f (xs ! i) \<Longrightarrow> f (xs[i := y] ! j) = f (xs ! j)"
  by (cases "i < length xs"; cases "i = j") (auto simp: list_update_beyond)

lemma map_update_nth: "(map f xs)[i := f (xs ! i)] = map f xs"
  by (metis list_update_id map_update)

lemma move_fid2msti_links:
  assumes "edgx_br_move_fid2msti dev ub fi mi b = Some b'" "links_ok (brv b)" "trees_ok (brv b)"
  shows "links_ok (brv b') \<and> trees_ok (brv b') \<and> vids (brv b') = vids (brv b)
    \<and> map fd_msti (fids (brv b')) = (map fd_msti (fids (brv b)))[fi := Some mi]
    \<and> map vlanlist (fids (brv b')) = map vlanlist (fids (brv b))
    \<and> map fid (fids (brv b')) = map fid (fids (brv b)) \<and> length (mstis (brv b')) = length (mstis (brv b))
    \<and> nvlans (brv b') = nvlans (brv b) \<and> max_vlans (brv b') = max_vlans (brv b)
    \<and> max_fids (brv b') = max_fids (brv b) \<and> max_mstis (brv b') = max_mstis (brv b)"
proof -
  note t = move_fid2msti_tables [OF assms(1,2)]
  let ?v = "brv b"
  from t have b: "fi < length (fids ?v)" "mi < length (mstis ?v)" by simp_all
  from t consider (same) "brv b' = ?v" "fd_msti (fids ?v ! fi) = Some mi"
    | (moved) "brv b' = ?v\<lparr>fids := (fids ?v)[fi := (fids ?v ! fi)\<lparr>fd_msti := Some mi\<rparr>],
             mstis := (map (\<lambda>m. m\<lparr>fidlist := removeAll fi (fidlist m)\<rparr>) (mstis ?v))
                        [mi := (mstis ?v ! mi)\<lparr>fidlist := removeAll fi (fidlist (mstis ?v ! mi)) @ [fi]\<rparr>]\<rparr>" by blast
  then show ?thesis
  proof cases
    case same
    then have "(map fd_msti (fids ?v))[fi := Some mi] = map fd_msti (fids ?v)" by (metis map_update_nth)
    with same assms show ?thesis by simp
  next
    case moved
    have "linked ((map fd_msti (fids ?v))[fi := Some mi])
        ((map (removeAll fi) (map fidlist (mstis ?v)))[mi := removeAll fi (map fidlist (mstis ?v) ! mi) @ [fi]])"
      by (rule linked_move) (use assms(2) b in \<open>simp_all add: links_ok_def\<close>)
    then have l: "links_ok (brv b')"
      using assms(2) b by (simp add: links_ok_def moved map_update map_update_nth o_def)
    have "map mstid (mstis (brv b')) = map mstid (mstis ?v)" "map ptstate (mstis (brv b')) = map ptstate (mstis ?v)"
      by (simp_all add: moved map_update map_update_nth o_def)
    then have "trees_ok (brv b')" using assms(3) by (simp only: trees_ok_def) blast
    with l show ?thesis by (simp add: moved map_update map_update_nth)
  qed
qed

lemma sizes_ok_cong:
  assumes "sizes_ok v" "length (vids w) = length (vids v)" "map fid (fids w) = map fid (fids v)" "length (mstis w) = length (mstis v)"
    "max_vlans w = max_vlans v" "max_fids w = max_fids v" "max_mstis w = max_mstis v"
  shows "sizes_ok w"
proof -
  have "length (fids w) = length (fids v)" using assms(3) by (metis length_map)
  moreover have "fid (fids w ! i) = fid (fids v ! i)" if "i < length (fids w)" for i
    using assms(3) that calculation by (metis nth_map)
  ultimately show ?thesis using assms(1,2,4-) by (simp add: sizes_ok_def)
qed

lemma move_fid2msti_cols:
  assumes "edgx_br_move_fid2msti dev ub fi mi b = Some b'"
    and "sizes_ok (brv b)" "links_ok (brv b)" "trees_ok (brv b)"
  shows "sizes_ok (brv b') \<and> links_ok (brv b') \<and> trees_ok (brv b') \<and> vids (brv b') = vids (brv b)
    \<and> map fd_msti (fids (brv b')) = (map fd_msti (fids (brv b)))[fi := Some mi]
    \<and> map vlanlist (fids (brv b')) = map vlanlist (fids (brv b))
    \<and> nvlans (brv b') = nvlans (brv b) \<and> max_vlans (brv b') = max_vlans (brv b)"
  using move_fid2msti_links [OF assms(1,3,4)] sizes_ok_cong [OF assms(2), of "brv b'"] by simp

lemma move_fid2msti_wf:
  assumes "edgx_br_move_fid2msti dev ub fi mi b = Some b'" "vlan_wf (brv b)"
  shows "vlan_wf (brv b')"
  using move_fid2msti_cols [OF assms(1)] assms(2)
  by (auto simp: vlan_wf_def used_ok_def dest!: set_update_subset_insert [THEN subsetD])

lemma move_vid2fid_wf:
  assumes "edgx_br_move_vid2fid dev ub vi fi flush b = Some b'"
    and "sizes_ok (brv b)" "links_ok (brv b)" "trees_ok (brv b)"
  shows "sizes_ok (brv b') \<and> links_ok (brv b') \<and> trees_ok (brv b')
    \<and> map vid (vids (brv b')) = map vid (vids (brv b)) \<and> map ptvec (vids (brv b')) = map ptvec (vids (brv b))
    \<and> map vl_fid (vids (brv b')) = (map vl_fid (vids (brv b)))[vi := Some fi]
    \<and> map fd_msti (fids (brv b')) = map fd_msti (fids (brv b)) \<and> mstis (brv b') = mstis (brv b)
    \<and> nvlans (brv b') = nvlans (brv b) \<and> max_vlans (brv b') = max_vlans (brv b)"
proof -
  note t = move_vid2fid_tables [OF assms(1,3)]
  let ?v = "brv b"
  from t have b: "vi < length (vids ?v)" "fi < length (fids ?v)" by simp_all
  from t consider (same) "brv b' = ?v" "vl_fid (vids ?v ! vi) = Some fi"
    | (moved) "brv b' = ?v\<lparr>vids := (vids ?v)[vi := (vids ?v ! vi)\<lparr>vl_fid := Some fi\<rparr>],
             fids := (map (\<lambda>f. f\<lparr>vlanlist := removeAll vi (vlanlist f)\<rparr>) (fids ?v))
                       [fi := (fids ?v ! fi)\<lparr>vlanlist := removeAll vi (vlanlist (fids ?v ! fi)) @ [vi]\<rparr>]\<rparr>" by blast
  then show ?thesis
  proof cases
    case same
    then have "(map vl_fid (vids ?v))[vi := Some fi] = map vl_fid (vids ?v)" by (metis map_update_nth)
    with same assms show ?thesis by simp
  next
    case moved
    have "fid (fids (brv b') ! i) = fid (fids ?v ! i)" if "i < length (fids ?v)" for i
      using that by (cases "i = fi") (simp_all add: moved)
    then have s: "sizes_ok (brv b')" using assms(2) by (simp add: moved sizes_ok_def)
    have "linked ((map vl_fid (vids ?v))[vi := Some fi])
        ((map (removeAll vi) (map vlanlist (fids ?v)))[fi := removeAll vi (map vlanlist (fids ?v) ! fi) @ [vi]])"
      by (rule linked_move) (use assms(3) b in \<open>simp_all add: links_ok_def\<close>)
    moreover have m: "map fd_msti (fids (brv b')) = map fd_msti (fids ?v)"
      by (simp add: moved map_update map_update_nth o_def)
    ultimately have l: "links_ok (brv b')"
      using assms(3) b by (simp add: links_ok_def moved map_update map_update_nth o_def)
    have "map vid (vids (brv b')) = map vid (vids ?v)" "map ptvec (vids (brv b')) = map ptvec (vids ?v)"
      "map vl_fid (vids (brv b')) = (map vl_fid (vids ?v))[vi := Some fi]"
      by (simp_all add: moved map_update map_update_nth)
    with s l m assms(4) show ?thesis by (simp add: moved trees_ok_def)
  qed
qed

lemma nth_update_Some: "own ! k \<noteq> None \<Longrightarrow> own[i := Some f] ! k \<noteq> None"
  by (cases "i < length own"; cases "i = k") (auto simp: list_update_beyond)

lemma used_cols_own: "used_cols vs own \<Longrightarrow> used_cols vs (own[i := Some f])"
  by (simp add: used_cols_def nth_update_Some del: not_None_eq)

lemma filter_update:
  "i < length xs \<Longrightarrow> filter P (xs[i := x]) = filter P (take i xs) @ (if P x then [x] else []) @ filter P (drop (Suc i) xs)"
  by (simp add: upd_conv_take_nth_drop)

lemma filter_split:
  "i < length xs \<Longrightarrow> filter P xs = filter P (take i xs) @ (if P (xs ! i) then [xs ! i] else []) @ filter P (drop (Suc i) xs)"
  using filter_update [of i xs P "xs ! i"] by simp

lemma idle_cols_new: "idle_cols vs pts \<Longrightarrow> x \<noteq> INVALID_VID \<Longrightarrow> idle_cols (vs[i := x]) (pts[i := p])"
  unfolding idle_cols_def
proof (intro allI impI)
  fix k assume a: "\<forall>i < length vs. vs ! i = 0 \<longrightarrow> pts ! i = 0" "x \<noteq> 0" "k < length (vs[i := x])" "vs[i := x] ! k = 0"
  then show "pts[i := p] ! k = 0" by (cases "k = i") simp_all
qed

lemma idle_cols_clear:
  "idle_cols vs pts \<Longrightarrow> length pts = length vs \<Longrightarrow> idle_cols (vs[i := INVALID_VID]) (pts[i := 0])"
  unfolding idle_cols_def
proof (intro allI impI)
  fix k assume a: "\<forall>i < length vs. vs ! i = 0 \<longrightarrow> pts ! i = 0" "length pts = length vs"
    "k < length (vs[i := 0])" "vs[i := 0] ! k = 0"
  then show "pts[i := 0] ! k = 0" by (cases "k = i") simp_all
qed

lemma used_cols_new:
  assumes "used_cols vs own" "i < length vs" "length own = length vs" "vs ! i = INVALID_VID" "x \<notin> set vs" "x \<noteq> INVALID_VID"
  shows "used_cols (vs[i := x]) (own[i := Some f])" "vlans_used (vs[i := x]) = Suc (vlans_used vs)"
proof -
  have "x \<notin> set (take i vs)" "x \<notin> set (drop (Suc i) vs)"
    using assms(5) by (auto dest: in_set_takeD in_set_dropD)
  then show "used_cols (vs[i := x]) (own[i := Some f])"
    using assms by (auto simp: used_cols_def filter_update filter_split [OF assms(2), of "\<lambda>x. x \<noteq> INVALID_VID"] nth_list_update)
  show "vlans_used (vs[i := x]) = Suc (vlans_used vs)"
    unfolding vlans_used_def filter_update [OF assms(2)] filter_split [OF assms(2), of "\<lambda>x. x \<noteq> INVALID_VID"]
    using assms(4,6) by simp
qed

lemma used_cols_remove:
  assumes "used_cols vs own" "i < length vs" "vs ! i \<noteq> INVALID_VID"
  shows "used_cols (vs[i := INVALID_VID]) (own[i := None])" "Suc (vlans_used (vs[i := INVALID_VID])) = vlans_used vs"
proof -
  have d: "distinct (filter (\<lambda>x. x \<noteq> INVALID_VID) (vs[i := INVALID_VID]))"
    using assms(1) unfolding used_cols_def filter_update [OF assms(2)] filter_split [OF assms(2), of "\<lambda>x. x \<noteq> INVALID_VID"]
    by (auto split: if_splits)
  have "own[i := None] ! k \<noteq> None" if "k < length vs" "vs[i := INVALID_VID] ! k \<noteq> INVALID_VID" for k
    using assms(1) that by (cases "k = i") (auto simp: used_cols_def)
  with d show "used_cols (vs[i := INVALID_VID]) (own[i := None])" by (simp add: used_cols_def)
  show "Suc (vlans_used (vs[i := INVALID_VID])) = vlans_used vs"
    unfolding vlans_used_def filter_update [OF assms(2)] filter_split [OF assms(2), of "\<lambda>x. x \<noteq> INVALID_VID"]
    using assms(3) by simp
qed

lemma set_vid2fid_wf:
  assumes "edgx_br_move_vid2fid dev ub vi fi flush b = Some b'" "vlan_wf (brv b)"
  shows "vlan_wf (brv b')"
proof -
  have wf: "sizes_ok (brv b)" "links_ok (brv b)" "used_ok (brv b)" "trees_ok (brv b)"
    using assms(2) by (simp_all add: vlan_wf_def)
  note m = move_vid2fid_wf [OF assms(1) wf(1,2,4)]
  have "used_ok (brv b')"
    using wf(3) m unfolding used_ok_def by (auto intro: used_cols_own)
  with m show ?thesis by (simp add: vlan_wf_def)
qed

lemma set_fid2msti_wf:
  "edgx_br_set_fid2msti dev ub f m b = Some (r, b') \<Longrightarrow> vlan_wf (brv b) \<Longrightarrow> vlan_wf (brv b')"
  by (auto simp: edgx_br_set_fid2msti_def bind_eq_Some dest: move_fid2msti_wf split: if_splits option.splits)

lemma set_vid2fid_cmd_wf:
  "edgx_br_set_vid2fid dev ub v f b = Some (r, b') \<Longrightarrow> vlan_wf (brv b) \<Longrightarrow> vlan_wf (brv b')"
  by (auto simp: edgx_br_set_vid2fid_def bind_eq_Some dest: set_vid2fid_wf split: if_splits option.splits)

section \<open>Trees\<close>

lemma trees_ok_idx:
  assumes "trees_ok v" "sizes_ok v" "edgx_br_vlan_get_msti v m = Some mi" "m \<noteq> EDGX_CIST_MSTID" "m \<noteq> EDGX_TE_MSTID"
  shows "mi < length (mstis v) \<and> mi \<noteq> CIST_IDX \<and> mi \<noteq> TE_IDX \<and> mstid (mstis v ! mi) = m"
proof -
  from find_idx_SomeD [OF assms(3) [unfolded edgx_br_vlan_get_msti_def]]
  have mi: "mi < length (mstis v)" "mstid (mstis v ! mi) = m" by simp_all
  have "map mstid (mstis v) ! CIST_IDX = mstid (mstis v ! CIST_IDX)" "map mstid (mstis v) ! TE_IDX = mstid (mstis v ! TE_IDX)"
    using sizes_okD(5) [OF assms(2)] by (intro nth_map; linarith)+
  with assms(1,4,5) mi show ?thesis
    by (cases "mi = CIST_IDX"; cases "mi = TE_IDX") (simp_all add: trees_ok_def)
qed

lemma mstis_update_wf:
  assumes "vlan_wf v" "mi < length (mstis v)" "mi \<noteq> CIST_IDX" "mi \<noteq> TE_IDX" "length (ptstate e) = EDGX_BR_MAX_PORTS"
    and "fidlist e = fidlist (mstis v ! mi)"
  shows "vlan_wf (v\<lparr>mstis := (mstis v)[mi := e]\<rparr>)"
proof -
  have "map fidlist ((mstis v)[mi := e]) = map fidlist (mstis v)"
    by (simp add: map_update assms(6) map_update_nth)
  then show ?thesis
    using assms(1-5) by (auto simp: vlan_wf_def sizes_ok_def links_ok_def used_ok_def trees_ok_def
        nth_list_update dest!: set_update_subset_insert [THEN subsetD])
qed

lemma mstis_update_state_wf:
  assumes "vlan_wf v" "mi < length (mstis v)" "length st = EDGX_BR_MAX_PORTS"
  shows "vlan_wf (v\<lparr>mstis := (mstis v)[mi := (mstis v ! mi)\<lparr>ptstate := st\<rparr>]\<rparr>)"
proof -
  have "map fidlist ((mstis v)[mi := (mstis v ! mi)\<lparr>ptstate := st\<rparr>]) = map fidlist (mstis v)"
    "map mstid ((mstis v)[mi := (mstis v ! mi)\<lparr>ptstate := st\<rparr>]) = map mstid (mstis v)"
    by (simp_all add: map_update map_update_nth)
  moreover have "\<forall>x \<in> set (map ptstate ((mstis v)[mi := (mstis v ! mi)\<lparr>ptstate := st\<rparr>])). length x = EDGX_BR_MAX_PORTS"
    using assms(1,3) by (auto simp: vlan_wf_def trees_ok_def dest!: set_update_subset_insert [THEN subsetD])
  ultimately show ?thesis
    using assms(1) unfolding vlan_wf_def sizes_ok_def links_ok_def used_ok_def trees_ok_def
    by (simp del: map_update)
qed

lemma create_msti_wf: "edgx_br_vlan_create_msti m v = (r, v') \<Longrightarrow> vlan_wf v \<Longrightarrow> vlan_wf v'"
proof -
  assume c: "edgx_br_vlan_create_msti m v = (r, v')" and wf: "vlan_wf v"
  consider "v' = v" | mi where "edgx_br_vlan_get_msti v EDGX_INVALID_MSTID = Some mi"
      "v' = v\<lparr>mstis := (mstis v)[mi := edgx_br_vlan_init_msti m BR_STATE_DISABLED (mstis v ! mi)]\<rparr>"
  proof (cases "is_reserved_mstid m \<or> edgx_br_vlan_get_msti v m \<noteq> None \<or> EDGX_INVALID_MSTID \<le> m")
    case True
    with c that(1) show thesis by (simp add: edgx_br_vlan_create_msti_def split: if_splits)
  next
    case False
    with c that show thesis
      by (simp add: edgx_br_vlan_create_msti_def edgx_br_vlan_get_free_msti_def split: option.splits)
  qed
  then show "vlan_wf v'"
  proof cases
    case (2 mi)
    have "mi < length (mstis v) \<and> mi \<noteq> CIST_IDX \<and> mi \<noteq> TE_IDX"
      using trees_ok_idx [OF _ _ 2(1)] wf by (simp add: vlan_wf_def)
    then show ?thesis
      unfolding 2(2) by (intro mstis_update_wf [OF wf]) (simp_all add: edgx_br_vlan_init_msti_def)
  qed (use wf in simp)
qed

lemma delete_msti_wf: "edgx_br_vlan_delete_msti m v = (r, v') \<Longrightarrow> vlan_wf v \<Longrightarrow> vlan_wf v'"
proof -
  assume d: "edgx_br_vlan_delete_msti m v = (r, v')" and wf: "vlan_wf v"
  consider "v' = v" | mi where "edgx_br_vlan_get_msti v m = Some mi" "\<not> is_reserved_mstid m"
      "v' = v\<lparr>mstis := (mstis v)[mi := (mstis v ! mi)\<lparr>mstid := EDGX_INVALID_MSTID\<rparr>]\<rparr>"
    using d by (auto simp: edgx_br_vlan_delete_msti_def split: if_splits option.splits)
  then show "vlan_wf v'"
  proof cases
    case (2 mi)
    have mi: "mi < length (mstis v) \<and> mi \<noteq> CIST_IDX \<and> mi \<noteq> TE_IDX"
      using trees_ok_idx [OF _ _ 2(1)] 2(2) wf by (simp add: vlan_wf_def is_reserved_mstid_def)
    have "length (ptstate (mstis v ! mi)) = EDGX_BR_MAX_PORTS"
      using wf mi by (simp add: vlan_wf_def trees_ok_def)
    with mi show ?thesis unfolding 2(3) by (intro mstis_update_wf [OF wf]) simp_all
  qed (use wf in simp)
qed

lemma set_mstpt_state_wf:
  "edgx_br_vlan_set_mstpt_state ub m pt st b = Some (r, b') \<Longrightarrow> vlan_wf (brv b) \<Longrightarrow> vlan_wf (brv b')"
proof -
  assume s: "edgx_br_vlan_set_mstpt_state ub m pt st b = Some (r, b')" and wf: "vlan_wf (brv b)"
  consider "brv b' = brv b" | mi where "edgx_br_vlan_get_msti (brv b) m = Some mi"
      "brv b' = (brv b)\<lparr>mstis := (mstis (brv b))[mi := (mstis (brv b) ! mi)\<lparr>ptstate :=
         (ptstate (mstis (brv b) ! mi))[pt_id pt := st]\<rparr>]\<rparr>"
    using s by (auto simp: edgx_br_vlan_set_mstpt_state_def bind_eq_Some upd_opt_eq_Some
        split: option.splits dest!: fwd_fids_brv)
  then show "vlan_wf (brv b')"
  proof cases
    case (2 mi)
    have mi: "mi < length (mstis (brv b))"
      using find_idx_SomeD [OF 2(1) [unfolded edgx_br_vlan_get_msti_def]] by simp
    then have "length (ptstate (mstis (brv b) ! mi)) = EDGX_BR_MAX_PORTS"
      using wf by (simp add: vlan_wf_def trees_ok_def)
    then show ?thesis unfolding 2(2) by (intro mstis_update_state_wf [OF wf mi]) simp
  qed (use wf in simp)
qed

section \<open>Membership\<close>

lemma get_vlan_SomeD:
  "edgx_br_vlan_get_vlan v x = Some vi \<Longrightarrow> vi < length (vids v) \<and> vid (vids v ! vi) = x"
  unfolding edgx_br_vlan_get_vlan_def by (drule find_idx_SomeD) simp

lemma get_vlan_None: "edgx_br_vlan_get_vlan v x = None \<Longrightarrow> x \<notin> set (map vid (vids v))"
  by (auto simp: edgx_br_vlan_get_vlan_def find_idx_None)

lemma vlan_wf_ptvec:
  assumes "vlan_wf v" "vi < length (vids v)" "vid (vids v ! vi) \<noteq> INVALID_VID"
  shows "vlan_wf (v\<lparr>vids := (vids v)[vi := (vids v ! vi)\<lparr>ptvec := p\<rparr>]\<rparr>)"
proof -
  have "map vid ((vids v)[vi := (vids v ! vi)\<lparr>ptvec := p\<rparr>]) = map vid (vids v)"
    "map vl_fid ((vids v)[vi := (vids v ! vi)\<lparr>ptvec := p\<rparr>]) = map vl_fid (vids v)"
    by (simp_all add: map_update map_update_nth)
  moreover have "idle_cols (map vid (vids v)) (map ptvec ((vids v)[vi := (vids v ! vi)\<lparr>ptvec := p\<rparr>]))"
    using assms unfolding vlan_wf_def used_ok_def idle_cols_def by (auto simp: map_update nth_list_update)
  ultimately show ?thesis
    using assms(1) unfolding vlan_wf_def sizes_ok_def links_ok_def used_ok_def trees_ok_def
    by (simp del: map_update)
qed

lemma join_vlan_brv:
  "join_vlan ub vi v pv pt b = Some (fi, b') \<Longrightarrow>
     brv b' = (brv b)\<lparr>vids := (vids (brv b))[vi := (vids (brv b) ! vi)\<lparr>ptvec := ptvec (vids (brv b) ! vi) OR BIT (pt_id pt)\<rparr>]\<rparr>
     \<and> vl_fid (vids (brv b) ! vi) = Some fi"
  by (auto simp: join_vlan_def bind_eq_Some Let_def split: if_splits)

text \<open>A new VLAN takes an unused entry, and the counter goes up.\<close>

lemma set_fid2msti_cols:
  assumes "edgx_br_set_fid2msti dev ub f m b = Some (r, b')"
    and "sizes_ok (brv b)" "links_ok (brv b)" "trees_ok (brv b)" "None \<notin> set (map fd_msti (fids (brv b)))"
  shows "sizes_ok (brv b') \<and> links_ok (brv b') \<and> trees_ok (brv b') \<and> vids (brv b') = vids (brv b)
    \<and> None \<notin> set (map fd_msti (fids (brv b'))) \<and> map vlanlist (fids (brv b')) = map vlanlist (fids (brv b))
    \<and> nvlans (brv b') = nvlans (brv b) \<and> max_vlans (brv b') = max_vlans (brv b)"
proof -
  consider "b' = b" | fi mi where "edgx_br_move_fid2msti dev ub fi mi b = Some b'"
    using assms(1) by (auto simp: edgx_br_set_fid2msti_def bind_eq_Some split: if_splits option.splits)
  then show ?thesis
  proof cases
    case (2 fi mi)
    note c = move_fid2msti_cols [OF 2 assms(2-4)]
    have "None \<notin> set ((map fd_msti (fids (brv b)))[fi := Some mi])"
      using assms(5) by (auto dest!: set_update_subset_insert [THEN subsetD])
    with c show ?thesis by simp
  qed (use assms in simp)
qed

lemma get_cist: "sizes_ok v \<Longrightarrow> trees_ok v \<Longrightarrow> edgx_br_vlan_get_msti v EDGX_CIST_MSTID = Some CIST_IDX"
  unfolding edgx_br_vlan_get_msti_def sizes_ok_def trees_ok_def by (cases "mstis v") auto

lemma set_fid2msti_cist:
  assumes "edgx_br_set_fid2msti dev ub (fid (fids (brv b) ! fi)) EDGX_CIST_MSTID b = Some (r, b')"
    and "sizes_ok (brv b)" "links_ok (brv b)" "trees_ok (brv b)" "fi < length (fids (brv b))"
  shows "map fd_msti (fids (brv b')) = (map fd_msti (fids (brv b)))[fi := Some CIST_IDX]"
proof -
  have f: "fid (fids (brv b) ! fi) = of_nat fi" "fi < unat (max_vlans (brv b))"
    using sizes_okD [OF assms(2)] assms(5) by auto
  have "unat (max_vlans (brv b)) < 2 ^ LENGTH(16)" by (rule unsigned_less)
  with f(2) have u: "unat (of_nat fi :: u16) = fi" by (simp add: unat_of_nat)
  with f(2) have "\<not> max_vlans (brv b) \<le> of_nat fi" by (simp add: word_le_nat_alt)
  with assms(1) f u get_cist [OF assms(2,4)] have "edgx_br_move_fid2msti dev ub fi CIST_IDX b = Some b'"
    by (auto simp: edgx_br_set_fid2msti_def bind_eq_Some)
  from move_fid2msti_links [OF this assms(3,4)] show ?thesis by simp
qed

lemma new_vlan_wf:
  assumes n: "new_vlan dev ub vi fi v pt b = Some b'" and wf: "vlan_wf (brv b)"
    and vi: "edgx_br_vlan_get_free_vlan (brv b) = Some vi" and v: "edgx_br_vlan_get_vlan (brv b) v = None"
      "v \<noteq> INVALID_VID"
    and room: "nvlans (brv b) < max_vlans (brv b)"
  shows "vlan_wf (brv b') \<and> vids (brv b') ! vi = \<lparr>vid = v, vl_fid = Some fi, ptvec = BIT (pt_id pt)\<rparr>
     \<and> nvlans (brv b') = nvlans (brv b) + 1
     \<and> map vid (vids (brv b')) = (map vid (vids (brv b)))[vi := v]
     \<and> map ptvec (vids (brv b')) = (map ptvec (vids (brv b)))[vi := BIT (pt_id pt)]
     \<and> map vl_fid (vids (brv b')) = (map vl_fid (vids (brv b)))[vi := Some fi]
     \<and> (fi < length (fids (brv b)) \<longrightarrow> map fd_msti (fids (brv b')) = (map fd_msti (fids (brv b)))[fi := Some CIST_IDX])"
proof -
  let ?v = "brv b"
  let ?e = "(vids ?v ! vi)\<lparr>vid := v, ptvec := BIT (pt_id pt)\<rparr>"
  define b0 where "b0 = set_brv (\<lambda>x. x\<lparr>vids := (vids x)[vi := ?e]\<rparr>) b"
  from vi have vi0: "vi < length (vids ?v)" "vid (vids ?v ! vi) = INVALID_VID"
    using get_vlan_SomeD [of ?v INVALID_VID vi] by (simp_all add: edgx_br_vlan_get_free_vlan_def)
  from n obtain r b1 b2 where
    1: "edgx_br_set_fid2msti dev ub (fid (fids (brv b0) ! fi)) EDGX_CIST_MSTID b0 = Some (r, b1)"
    and 2: "edgx_br_move_vid2fid dev ub vi fi False b1 = Some b2"
    and b': "b' = set_brv (\<lambda>x. x\<lparr>nvlans := nvlans x + 1\<rparr>) b2"
    unfolding new_vlan_def b0_def [symmetric] Let_def by (auto simp: bind_eq_Some)
  have wf': "sizes_ok ?v" "links_ok ?v" "used_ok ?v" "trees_ok ?v" using wf by (simp_all add: vlan_wf_def)
  have own: "map vl_fid (vids (brv b0)) = map vl_fid (vids ?v)"
    by (simp add: b0_def map_update map_update_nth)
  have wf0: "sizes_ok (brv b0)" "links_ok (brv b0)" "trees_ok (brv b0)"
    using wf' own by (simp_all add: b0_def sizes_ok_def links_ok_def trees_ok_def del: map_update)
  have none: "None \<notin> set (map fd_msti (fids (brv b0)))" using wf'(3) by (simp add: b0_def used_ok_def)
  note c = set_fid2msti_cols [OF 1 wf0 none]
  then have wf1: "sizes_ok (brv b1)" "links_ok (brv b1)" "trees_ok (brv b1)" by simp_all
  note m = move_vid2fid_wf [OF 2 wf1]
  have vid1: "map vid (vids (brv b2)) = (map vid (vids ?v))[vi := v]"
    "map ptvec (vids (brv b2)) = (map ptvec (vids ?v))[vi := BIT (pt_id pt)]"
    using m c by (simp_all add: b0_def map_update)
  have own2: "map vl_fid (vids (brv b2)) = (map vl_fid (vids ?v))[vi := Some fi]"
    using m c own by simp
  have new: "used_cols ((map vid (vids ?v))[vi := v]) ((map vl_fid (vids ?v))[vi := Some fi])"
    "vlans_used ((map vid (vids ?v))[vi := v]) = Suc (vlans_used (map vid (vids ?v)))"
    using wf'(3) vi0 get_vlan_None [OF v(1)] v(2)
    by (auto intro!: used_cols_new simp: used_ok_def simp del: map_update)
  have idle: "idle_cols ((map vid (vids ?v))[vi := v]) ((map ptvec (vids ?v))[vi := BIT (pt_id pt)])"
    by (rule idle_cols_new) (use wf'(3) v(2) in \<open>simp_all add: used_ok_def\<close>)
  have cnt: "unat (nvlans ?v + 1) = Suc (unat (nvlans ?v))"
    by (rule unat_add_1) (use room in \<open>auto simp: word_less_nat_alt\<close>)
  have n2: "nvlans (brv b2) = nvlans ?v" using m c by (simp add: b0_def)
  have "used_ok (brv b')"
    using new idle m c cnt wf'(3) unfolding used_ok_def by (simp add: b' vid1 own2 n2)
  moreover have "sizes_ok (brv b')" "links_ok (brv b')" "trees_ok (brv b')"
    using m by (simp_all add: b')
  moreover have "length (vids (brv b2)) = length (vids ?v)" using vid1(1) by (metis length_list_update length_map)
  then have "vid (vids (brv b2) ! vi) = v" "ptvec (vids (brv b2) ! vi) = BIT (pt_id pt)" "vl_fid (vids (brv b2) ! vi) = Some fi"
    using vid1 own2 vi0(1) by (metis length_map nth_list_update_eq nth_map)+
  moreover have "map fd_msti (fids (brv b1)) = (map fd_msti (fids ?v))[fi := Some CIST_IDX]" if "fi < length (fids ?v)"
    using set_fid2msti_cist [OF 1 wf0] that by (simp add: b0_def)
  ultimately show ?thesis using m vid1 own2 by (simp add: vlan_wf_def b' n2)
qed

text \<open>The three ways through \<open>edgx_br_vlan_add_pt\<close>.\<close>

lemma add_pt_cases:
  assumes a: "edgx_br_vlan_add_pt dev ub v untagged pvid pt b = Some (r, b')"
  obtains (rejected) "b' = b" "r \<noteq> 0"
    | (joined) vi fi b1 b2 where "edgx_br_vlan_get_vlan (brv b) v = Some vi" "join_vlan ub vi v pvid pt b = Some (fi, b1)"
        "write_member dev ub vi (pt_id pt) untagged b1 = Some b2" "brv b' = brv b2" "r = 0"
    | (created) vi fi b1 b2 where "edgx_br_vlan_get_vlan (brv b) v = None" "edgx_br_vlan_get_free_vlan (brv b) = Some vi"
        "edgx_br_vlan_get_free_fid (brv b) = Some fi" "nvlans (brv b) < max_vlans (brv b)" "new_vlan dev ub vi fi v pt b = Some b1"
        "write_member dev ub vi (pt_id pt) untagged b1 = Some b2" "brv b' = brv b2" "r = 0"
proof (cases "max_vlans (brv b) \<le> nvlans (brv b) \<or> (pvid \<and> \<not> untagged)")
  case True
  with a rejected show thesis by (auto simp: edgx_br_vlan_add_pt_def split: if_splits)
next
  case False
  show thesis
  proof (cases "edgx_br_vlan_get_vlan (brv b) v")
    case (Some vi)
    with a False joined show thesis
      by (auto simp: edgx_br_vlan_add_pt_def bind_eq_Some split: if_splits)
  next
    case None
    show thesis
    proof (cases "edgx_br_vlan_get_free_vlan (brv b) = None \<or> edgx_br_vlan_get_free_fid (brv b) = None")
      case True
      with a False None rejected show thesis
        by (auto simp: edgx_br_vlan_add_pt_def split: option.splits)
    next
      case f: False
      then obtain vi fi where vf: "edgx_br_vlan_get_free_vlan (brv b) = Some vi" "edgx_br_vlan_get_free_fid (brv b) = Some fi" by auto
      with a False None created [of vi fi] show thesis
        by (auto simp: edgx_br_vlan_add_pt_def bind_eq_Some split: if_splits)
    qed
  qed
qed

lemma add_pt_wf:
  assumes a: "edgx_br_vlan_add_pt dev ub v untagged pvid pt b = Some (r, b')" and wf: "vlan_wf (brv b)" and v: "v \<noteq> INVALID_VID"
  shows "vlan_wf (brv b')"
  using a
proof (cases rule: add_pt_cases)
  case (joined vi fi b1 b2)
  have "vi < length (vids (brv b))" "vid (vids (brv b) ! vi) \<noteq> INVALID_VID"
    using get_vlan_SomeD [OF joined(1)] v by auto
  from vlan_wf_ptvec [OF wf this] show ?thesis
    using join_vlan_brv [OF joined(2)] write_member_brv [OF joined(3)] joined(4) by simp
next
  case (created vi fi b1 b2)
  from new_vlan_wf [OF created(5) wf created(2,1) v created(4)] show ?thesis
    using write_member_brv [OF created(6)] created(7) by simp
qed (use wf in simp)

lemma del_pt_wf:
  assumes d: "edgx_br_vlan_del_pt dev ub v pt b = Some (r, b')" and wf: "vlan_wf (brv b)" and v: "v \<noteq> INVALID_VID"
  shows "vlan_wf (brv b')"
proof (cases "edgx_br_vlan_get_vlan (brv b) v")
  case None
  with d wf show ?thesis by (simp add: edgx_br_vlan_del_pt_def)
next
  case (Some vi)
  let ?v = "brv b" and ?e = "vids (brv b) ! vi"
  let ?pts = "ptvec ?e AND NOT (BIT (pt_id pt))"
  have vi: "vi < length (vids ?v)" "vid ?e \<noteq> INVALID_VID" using get_vlan_SomeD [OF Some] v by auto
  have wf': "sizes_ok ?v" "links_ok ?v" "used_ok ?v" "trees_ok ?v" using wf by (simp_all add: vlan_wf_def)
  show ?thesis
  proof (cases "?pts = 0")
    case False
    have "brv b' = ?v\<lparr>vids := (vids ?v)[vi := ?e\<lparr>ptvec := ?pts\<rparr>]\<rparr>"
      using d Some False by (auto simp: edgx_br_vlan_del_pt_def bind_eq_Some Let_def dest!: vlan_cmd_brv)
    then show ?thesis using vlan_wf_ptvec [OF wf vi] by simp
  next
    case True
    let ?vids = "(vids ?v)[vi := ?e\<lparr>ptvec := 0, vid := INVALID_VID, vl_fid := None\<rparr>]"
    have b': "brv b' = ?v\<lparr>vids := ?vids, fids := map (\<lambda>f. f\<lparr>vlanlist := removeAll vi (vlanlist f)\<rparr>) (fids ?v),
        nvlans := nvlans ?v - 1\<rparr>"
      using d Some True by (auto simp: edgx_br_vlan_del_pt_def bind_eq_Some Let_def unlink_vlan_def
          split: if_splits dest!: vlan_cmd_brv)
    have cols: "map vid ?vids = (map vid (vids ?v))[vi := INVALID_VID]" "map ptvec ?vids = (map ptvec (vids ?v))[vi := 0]"
      "map vl_fid ?vids = (map vl_fid (vids ?v))[vi := None]"
      by (simp_all add: map_update)
    have "linked ((map vl_fid (vids ?v))[vi := None]) (map (removeAll vi) (map vlanlist (fids ?v)))"
      by (rule linked_unlink) (use wf'(2) vi in \<open>simp_all add: links_ok_def\<close>)
    then have l: "links_ok (brv b')" using wf'(2) unfolding links_ok_def by (simp add: b' cols o_def)
    have rem: "used_cols ((map vid (vids ?v))[vi := INVALID_VID]) ((map vl_fid (vids ?v))[vi := None])"
      "Suc (vlans_used ((map vid (vids ?v))[vi := INVALID_VID])) = vlans_used (map vid (vids ?v))"
      using used_cols_remove [of "map vid (vids ?v)" "map vl_fid (vids ?v)" vi] wf'(3) vi
      by (simp_all add: used_ok_def)
    have idle: "idle_cols ((map vid (vids ?v))[vi := INVALID_VID]) ((map ptvec (vids ?v))[vi := 0])"
      by (rule idle_cols_clear) (use wf'(3) in \<open>simp_all add: used_ok_def\<close>)
    have cnt: "unat (nvlans ?v) = Suc (vlans_used ((map vid (vids ?v))[vi := INVALID_VID]))"
      using rem(2) wf'(3) by (simp add: used_ok_def)
    then have "nvlans ?v \<noteq> 0" by auto
    with cnt have "unat (nvlans ?v - 1) = vlans_used ((map vid (vids ?v))[vi := INVALID_VID])"
      by (simp add: unat_minus_one)
    with rem idle wf'(3) have "used_ok (brv b')" unfolding used_ok_def by (simp add: b' cols o_def)
    moreover have "sizes_ok (brv b')" using wf'(1) by (simp add: b' sizes_ok_def)
    moreover have "trees_ok (brv b')" using wf'(4) by (simp add: b' trees_ok_def)
    ultimately show ?thesis using l by (simp add: vlan_wf_def)
  qed
qed

end
