(* ===== verification/BrVlanProps.thy ===== *)
theory BrVlanProps
  imports BrVlanInv
begin

text \<open>
  The VLAN management as a whole: the initialisation establishes the invariant of the tables, every
  operation keeps it, and what single operations do to membership, FIDs and trees.
\<close>

unbundle bit_operations_syntax

section \<open>Initialisation\<close>

lemma purge_wf:
  assumes "purge_from dev ub pt is b = Some b'" "vlan_wf (brv b)"
  shows "vlan_wf (brv b')"
  using assms
proof (induction "is" arbitrary: b)
  case Nil
  then show ?case by simp
next
  case (Cons i "is")
  from Cons.prems(1) have i: "i < length (vids (brv b))" by (auto simp: bind_eq_Some nth_opt_eq_Some)
  show ?case
  proof (cases "ptvec (vids (brv b) ! i) AND BIT (pt_id pt) = 0")
    case True
    with Cons i show ?thesis by simp
  next
    case False
    then have "vid (vids (brv b) ! i) \<noteq> INVALID_VID"
      using Cons.prems(2) i by (auto simp: vlan_wf_def used_ok_def idle_cols_def)
    moreover from Cons.prems(1) i False obtain r b1 where
      "edgx_br_vlan_del_pt dev ub (vid (vids (brv b) ! i)) pt b = Some (r, b1)" "purge_from dev ub pt is b1 = Some b'"
      by (auto simp: bind_eq_Some)
    ultimately show ?thesis using Cons.IH Cons.prems(2) del_pt_wf by blast
  qed
qed

definition fids_ready :: "br_vlan \<Rightarrow> nat \<Rightarrow> br_vlan \<Rightarrow> bool" where
  "fids_ready v0 k v \<longleftrightarrow> links_ok v \<and> trees_ok v \<and> vids v = vids v0 \<and> map vlanlist (fids v) = map vlanlist (fids v0)
     \<and> nvlans v = nvlans v0 \<and> max_vlans v = max_vlans v0 \<and> max_fids v = max_fids v0 \<and> max_mstis v = max_mstis v0
     \<and> length (mstis v) = length (mstis v0)
     \<and> (\<forall>j < k. map fid (fids v) ! j = of_nat j \<and> map fd_msti (fids v) ! j = Some CIST_IDX)"

lemma init_fids_ready:
  assumes "init_fids dev ub [k..<n] b = Some b'" "fids_ready v0 k (brv b)" "n = length (fids v0)" "k \<le> n"
  shows "fids_ready v0 n (brv b')"
  using assms
proof (induction "n - k" arbitrary: k b)
  case 0
  then show ?case by simp
next
  case (Suc d)
  then have k: "k < n" by simp
  let ?v = "(brv b)\<lparr>fids := (fids (brv b))[k := (fids (brv b) ! k)\<lparr>fid := of_nat k\<rparr>]\<rparr>"
  have len: "length (fids (brv b)) = n" using Suc.prems(2,3) by (metis fids_ready_def length_map)
  from Suc.prems(1) k obtain b1 where
    1: "edgx_br_move_fid2msti dev ub k CIST_IDX (b\<lparr>brv := ?v\<rparr>) = Some b1" and 2: "init_fids dev ub [Suc k..<n] b1 = Some b'"
    by (auto simp: upt_conv_Cons bind_eq_Some)
  have cols: "map fd_msti (fids ?v) = map fd_msti (fids (brv b))" "map vlanlist (fids ?v) = map vlanlist (fids (brv b))"
    "map fid (fids ?v) = (map fid (fids (brv b)))[k := of_nat k]"
    by (simp_all add: map_update map_update_nth)
  have "links_ok (brv b)" "trees_ok (brv b)" using Suc.prems(2) by (simp_all add: fids_ready_def)
  then have "links_ok ?v" "trees_ok ?v"
    unfolding links_ok_def cols(1,2) by (simp_all add: trees_ok_def)
  with move_fid2msti_links [OF 1] have m: "links_ok (brv b1)" "trees_ok (brv b1)" "vids (brv b1) = vids (brv b)"
    "map fd_msti (fids (brv b1)) = (map fd_msti (fids (brv b)))[k := Some CIST_IDX]"
    "map vlanlist (fids (brv b1)) = map vlanlist (fids (brv b))"
    "map fid (fids (brv b1)) = (map fid (fids (brv b)))[k := of_nat k]" "length (mstis (brv b1)) = length (mstis (brv b))"
    "nvlans (brv b1) = nvlans (brv b)" "max_vlans (brv b1) = max_vlans (brv b)"
    "max_fids (brv b1) = max_fids (brv b)" "max_mstis (brv b1) = max_mstis (brv b)"
    using cols by (simp_all del: map_update)
  have "fids_ready v0 (Suc k) (brv b1)"
    using Suc.prems(2) k len unfolding fids_ready_def by (auto simp: m less_Suc_eq nth_list_update simp del: nth_map)
  from Suc.hyps(1) [OF _ 2 this Suc.prems(3)] Suc.hyps(2) k show ?case by simp
qed

lemma reset_members_brv: "reset_members dev ub is b = Some b' \<Longrightarrow> brv b' = brv b"
  by (induction "is" arbitrary: b) (auto simp: bind_eq_Some Let_def dest!: vlan_cmd_brv)

lemma empty_tables_ready:
  assumes "2 \<le> min n EDGX_MAX_SUPP_MSTI"
  shows "fids_ready (empty_tables base pts n) 0 (empty_tables base pts n)"
proof -
  have "2 \<le> unat (min n EDGX_MAX_SUPP_MSTI)" using assms by (simp add: word_le_nat_alt)
  then show ?thesis
    by (auto simp: fids_ready_def empty_tables_def Let_def links_ok_def linked_def trees_ok_def
        edgx_br_vlan_init_msti_def nth_list_update dest!: set_update_subset_insert [THEN subsetD])
qed

lemma init_vlan_wf:
  assumes "edgx_br_init_vlan dev ub br base pts d io = Some (Inr b)"
  shows "vlan_wf (brv b)"
proof -
  define n where "n = (ucast (edgx_br_get_generic_pow2z io br 0x2A) :: u16)"
  let ?v = "empty_tables base pts n"
  from assms obtain b0 where n: "2 \<le> min n EDGX_MAX_SUPP_MSTI"
    and b0: "init_fids dev ub [0..<unat n] \<lparr>brv = ?v, dmac = d, sent = [], bio = io\<rparr> = Some b0"
      "reset_members dev ub [0..<4096] b0 = Some b"
    unfolding edgx_br_init_vlan_def n_def [symmetric] Let_def
    by (auto simp: bind_eq_Some not_less split: if_splits)
  have "fids_ready ?v (unat n) (brv b0)"
    by (rule init_fids_ready [OF b0(1)]) (use empty_tables_ready [OF n] in \<open>simp_all add: empty_tables_def Let_def\<close>)
  then have r: "fids_ready ?v (unat n) (brv b)" using reset_members_brv [OF b0(2)] by simp
  have v: "length (fids ?v) = unat n" "vids ?v = replicate (unat n) \<lparr>vid = 0, vl_fid = None, ptvec = 0\<rparr>"
    "nvlans ?v = 0" "max_vlans ?v = n" "max_fids ?v = n" "length (mstis ?v) = unat (max_mstis ?v)" "2 \<le> length (mstis ?v)"
    using n by (simp_all add: empty_tables_def Let_def word_le_nat_alt)
  have len: "length (fids (brv b)) = unat n" using r v(1) by (metis fids_ready_def length_map)
  then have "sizes_ok (brv b)" using r v by (auto simp: fids_ready_def sizes_ok_def)
  moreover have "used_ok (brv b)"
    using r v len by (auto simp: fids_ready_def used_ok_def idle_cols_def used_cols_def vlans_used_def in_set_conv_nth)
  ultimately show ?thesis using r by (simp add: vlan_wf_def fids_ready_def)
qed

section \<open>Every operation keeps the invariant\<close>

text \<open>
  A step is one call of the module by a port, the bridge or the user, or anything the rest of the
  driver and the device do to the registers and the learned addresses in between. The kernel rejects
  VLAN 0 before it calls the driver. A call that does not return takes no step.
\<close>

inductive vlan_step :: "bridge \<Rightarrow> bridge \<Rightarrow> bool" where
  add_pt: "v \<noteq> INVALID_VID \<Longrightarrow> edgx_br_vlan_add_pt dev ub v untagged pvid pt b = Some (r, b') \<Longrightarrow> vlan_step b b'"
| del_pt: "v \<noteq> INVALID_VID \<Longrightarrow> edgx_br_vlan_del_pt dev ub v pt b = Some (r, b') \<Longrightarrow> vlan_step b b'"
| purge_pt: "edgx_br_vlan_purge_pt dev ub pt b = Some (r, b') \<Longrightarrow> vlan_step b b'"
| dump_pt: "edgx_br_vlan_dump_pt dev ub cb pt b = Some (r, items, b') \<Longrightarrow> vlan_step b b'"
| set_vid2fid: "vid2fid_write dev ub ofs count val b = Some (r, b') \<Longrightarrow> vlan_step b b'"
| set_fid2msti: "fid2msti_write dev ub ofs count val b = Some (r, b') \<Longrightarrow> vlan_step b b'"
| add_msti: "add_msti_store m count (brv b) = (r, v') \<Longrightarrow> vlan_step b (b\<lparr>brv := v'\<rparr>)"
| del_msti: "del_msti_store m count (brv b) = (r, v') \<Longrightarrow> vlan_step b (b\<lparr>brv := v'\<rparr>)"
| set_state: "edgx_br_vlan_set_mstpt_state ub m pt st b = Some (r, b') \<Longrightarrow> vlan_step b b'"
| flush_mstpt: "edgx_br_vlan_flush_mstpt dev ub m p b = Some (r, b') \<Longrightarrow> vlan_step b b'"
| others: "vlan_step b (b\<lparr>dmac := d, sent := ns, bio := io\<rparr>)"

inductive vlan_reachable :: "bridge \<Rightarrow> bool" where
  init: "edgx_br_init_vlan dev ub br base pts d io = Some (Inr b) \<Longrightarrow> vlan_reachable b"
| step: "vlan_reachable b \<Longrightarrow> vlan_step b b' \<Longrightarrow> vlan_reachable b'"

inductive_cases vlan_stepE: "vlan_step b b'"

lemma vid2fid_write_calls:
  assumes "vid2fid_write dev ub ofs count val b = Some (r, b')"
  shows "b' = b \<or> (\<exists>v r'. edgx_br_set_vid2fid dev ub v (ucast val) b = Some (r', b'))"
proof (cases "edgx_sysfs_tbl_params ofs count 4")
  case (Some p)
  with assms show ?thesis by (cases p) (auto simp: vid2fid_write_def bind_eq_Some)
qed (use assms in \<open>simp add: vid2fid_write_def\<close>)

lemma fid2msti_write_calls:
  assumes "fid2msti_write dev ub ofs count val b = Some (r, b')"
  shows "b' = b \<or> (\<exists>f r'. edgx_br_set_fid2msti dev ub f (ucast val) b = Some (r', b'))"
proof (cases "edgx_sysfs_tbl_params ofs count 4")
  case (Some p)
  with assms show ?thesis by (cases p) (auto simp: fid2msti_write_def bind_eq_Some)
qed (use assms in \<open>simp add: fid2msti_write_def\<close>)

lemma vlan_step_wf: "vlan_step b b' \<Longrightarrow> vlan_wf (brv b) \<Longrightarrow> vlan_wf (brv b')"
proof (erule vlan_stepE, goal_cases)
  case (5 dev ub ofs count val r)
  then show ?case using vid2fid_write_calls set_vid2fid_cmd_wf by metis
next
  case (6 dev ub ofs count val r)
  then show ?case using fid2msti_write_calls set_fid2msti_wf by metis
next
  case (7 m count r v')
  then show ?case by (auto simp: add_msti_store_def dest: create_msti_wf split: option.splits prod.splits)
next
  case (8 m count r v')
  then show ?case by (auto simp: del_msti_store_def dest: delete_msti_wf split: option.splits prod.splits)
next
  case (10 dev ub m p r)
  then show ?case by (auto simp: edgx_br_vlan_flush_mstpt_def bind_eq_Some dest!: flush_fids_brv split: option.splits)
next
  case (4 dev ub cb pt r items)
  then show ?case by (auto simp: edgx_br_vlan_dump_pt_def dest!: vlan_dump_brv)
next
  case (3 dev ub pt r)
  then show ?case by (auto simp: edgx_br_vlan_purge_pt_def dest: purge_wf)
qed (auto dest: add_pt_wf del_pt_wf set_mstpt_state_wf)

text \<open>
  Property C13. In every state that the initialisation and any sequence of calls can reach, the VLAN
  tables are consistent: the VLAN list of a FID holds exactly the VLANs that point at the FID and the
  FID list of a tree exactly its FIDs, without duplicates; every used VLAN has a FID and every FID a
  tree; no VLAN has two entries; unused entries have no member ports; the counter is the number of
  used VLANs; and the CIST and TE trees keep their places.
\<close>

theorem reachable_vlan_wf: "vlan_reachable b \<Longrightarrow> vlan_wf (brv b)"
  by (induction rule: vlan_reachable.induct) (auto intro: init_vlan_wf vlan_step_wf)

text \<open>A device that does nothing, where the undefined mask of the VLAN commands is zero.\<close>

lemma vlan_cmd_idle: "vlan_cmd (\<lambda>m. m) 0 cmd b = Some (b\<lparr>bio := edgx_wr16 (bio b) (bv_iobase (brv b)) VLAN_CMD_BASE cmd\<rparr>)"
  by (simp add: vlan_cmd_def wait_clear_ready vlan_cmd_busy_def edgx_get16_def field_mask_def Let_def)

lemma reset_members_idle: "\<exists>b'. reset_members (\<lambda>m. m) 0 is b = Some b'"
  by (induction "is" arbitrary: b) (simp_all add: vlan_cmd_idle)

lemma init_vlan_idle:
  "\<exists>b. edgx_br_init_vlan (\<lambda>m. m) 0 \<lparr>brparam = 0, cycle_ns = 0\<rparr> 0 pts d (\<lambda>a. if a = 0x2A then 1 else 0) = Some (Inr b)"
proof -
  have n: "unat (2 :: u16) = Suc (Suc 0)" "min (2 :: u16) 64 = 2" "[0..<2] = [0, Suc 0]"
    by simp (simp_all add: min_def upt_conv_Cons)
  have "\<exists>b0. init_fids (\<lambda>m. m) 0 [0..<2] \<lparr>brv = empty_tables 0 pts 2, dmac = d, sent = [], bio = \<lambda>a. if a = 0x2A then 1 else 0\<rparr> = Some b0"
    unfolding empty_tables_def Let_def n edgx_br_vlan_init_msti_def
    by (simp add: edgx_br_move_fid2msti_def link_fid_def edgx_br_vlan_set_te_fid_def Let_def)
  then obtain b0 where b0: "init_fids (\<lambda>m. m) 0 [0..<2] \<lparr>brv = empty_tables 0 pts 2, dmac = d, sent = [], bio = \<lambda>a. if a = 0x2A then 1 else 0\<rparr> = Some b0" ..
  obtain b where "reset_members (\<lambda>m. m) 0 [0..<4096] b0 = Some b" using reset_members_idle by blast
  with b0 show ?thesis
    by (simp add: edgx_br_init_vlan_def edgx_br_get_generic_pow2z_def edgx_rd16_def Let_def)
qed

theorem reachable_vlan_wf_witness: "\<exists>b. vlan_reachable b \<and> vlan_wf (brv b) \<and> sizes_ok (brv b)"
proof -
  from init_vlan_idle obtain b where "vlan_reachable b" by (blast intro: vlan_reachable.init)
  moreover from reachable_vlan_wf [OF this] have "vlan_wf (brv b)" .
  ultimately show ?thesis by (auto simp: vlan_wf_def)
qed

section \<open>Membership as a relation of ports and VLANs\<close>

text \<open>The abstract view of the table: which port is a member of which VLAN.\<close>

definition cols_members :: "u16 list \<Rightarrow> u32 list \<Rightarrow> (nat \<times> u16) set" where
  "cols_members vs pts = {(p, x). x \<noteq> INVALID_VID \<and> (\<exists>i < length vs. vs ! i = x \<and> bit (pts ! i) p)}"

definition members :: "br_vlan \<Rightarrow> (nat \<times> u16) set" where
  "members v = cols_members (map vid (vids v)) (map ptvec (vids v))"

lemma bit_BIT: "p < 32 \<Longrightarrow> bit (BIT p :: u32) q \<longleftrightarrow> q = p"
  by (rule bit_BIT_iff) simp

lemma members_set:
  assumes "i < length vs" "length pts = length vs" "vs ! i = x" "x \<noteq> INVALID_VID"
  shows "cols_members vs (pts[i := pts ! i OR BIT p]) = cols_members vs pts \<union> {(q, y). y = x \<and> bit (BIT p :: u32) q}"
  using assms by (auto simp: cols_members_def nth_list_update bit_or_iff split: if_splits)

lemma members_new:
  assumes "i < length vs" "length pts = length vs" "vs ! i = INVALID_VID" "x \<noteq> INVALID_VID" "x \<notin> set vs"
  shows "cols_members (vs[i := x]) (pts[i := m]) = cols_members vs pts \<union> {(q, y). y = x \<and> bit m q}"
  using assms by (auto simp: cols_members_def nth_list_update split: if_splits)

lemma members_clear:
  assumes "i < length vs" "length pts = length vs" "vs ! i = x" "x \<noteq> INVALID_VID"
    and "\<And>j. j < length vs \<Longrightarrow> vs ! j = x \<Longrightarrow> j = i"
  shows "cols_members vs (pts[i := pts ! i AND NOT (BIT p)]) = cols_members vs pts - {(q, y). y = x \<and> bit (BIT p :: u32) q}"
proof (rule set_eqI)
  fix z :: "nat \<times> u16"
  obtain q y where z: "z = (q, y)" by (cases z)
  have clr: "bit (pts ! i AND NOT (BIT p)) q \<longleftrightarrow> bit (pts ! i) q \<and> \<not> bit (BIT p :: u32) q"
    by (auto simp: bit_and_iff bit_not_iff dest: bit_imp_le_length)
  have ex: "(\<exists>j < length vs. vs ! j = x \<and> Q j) \<longleftrightarrow> Q i" for Q
    using assms(1,3,5) by blast
  show "z \<in> cols_members vs (pts[i := pts ! i AND NOT (BIT p)])
      \<longleftrightarrow> z \<in> cols_members vs pts - {(q, y). y = x \<and> bit (BIT p :: u32) q}"
  proof (cases "y = x")
    case True
    then show ?thesis using ex assms(1,2,4) clr by (simp add: cols_members_def z)
  next
    case False
    then have "(\<exists>j < length vs. vs ! j = y \<and> bit (pts[i := P] ! j) q) \<longleftrightarrow> (\<exists>j < length vs. vs ! j = y \<and> bit (pts ! j) q)" for P
      by (intro iff_exI, case_tac "j = i") (use assms(3) in auto)
    with False show ?thesis by (simp add: cols_members_def z)
  qed
qed

lemma members_drop:
  assumes "i < length vs" "length pts = length vs" "pts ! i = 0"
  shows "cols_members (vs[i := INVALID_VID]) pts = cols_members vs pts"
proof -
  have "(\<exists>j < length vs. vs[i := INVALID_VID] ! j = x \<and> bit (pts ! j) p) \<longleftrightarrow> (\<exists>j < length vs. vs ! j = x \<and> bit (pts ! j) p)"
    if "x \<noteq> INVALID_VID" for x p
    by (intro iff_exI, case_tac "j = i") (use assms that in auto)
  then show ?thesis by (auto simp: cols_members_def)
qed

lemma used_cols_inj:
  assumes "used_cols vs own" "i < length vs" "j < length vs" "vs ! i = x" "vs ! j = x" "x \<noteq> INVALID_VID"
  shows "j = i"
proof (rule ccontr)
  assume ne: "j \<noteq> i"
  have "x \<in> set (take (max i j) vs)" "vs ! max i j = x"
    using assms ne by (auto simp: in_set_conv_nth max_def intro!: exI [of _ "min i j"])
  moreover have "distinct (filter (\<lambda>y. y \<noteq> INVALID_VID) (take (max i j) vs @ vs ! max i j # drop (Suc (max i j)) vs))"
    using assms by (simp add: used_cols_def id_take_nth_drop [symmetric] max_def split: if_splits)
  ultimately show False using assms(6) by auto
qed

lemma wf_vid_unique:
  assumes "vlan_wf v" "i < length (vids v)" "j < length (vids v)" "vid (vids v ! i) = x" "vid (vids v ! j) = x" "x \<noteq> INVALID_VID"
  shows "j = i"
  using used_cols_inj [of "map vid (vids v)" "map vl_fid (vids v)" i j x] assms by (simp add: vlan_wf_def used_ok_def)

lemma del_pt_cols:
  assumes d: "edgx_br_vlan_del_pt dev ub v pt b = Some (r, b')" and vi: "edgx_br_vlan_get_vlan (brv b) v = Some vi"
  defines "pts \<equiv> ptvec (vids (brv b) ! vi) AND NOT (BIT (pt_id pt))"
  shows "map vid (vids (brv b')) = (if pts = 0 then (map vid (vids (brv b)))[vi := INVALID_VID] else map vid (vids (brv b)))
     \<and> map ptvec (vids (brv b')) = (map ptvec (vids (brv b)))[vi := pts] \<and> r = 0"
proof (cases "pts = 0")
  case False
  then show ?thesis using d vi unfolding pts_def
    by (auto simp: edgx_br_vlan_del_pt_def bind_eq_Some Let_def map_update map_update_nth dest!: vlan_cmd_brv)
next
  case True
  then show ?thesis using d vi unfolding pts_def
    by (auto simp: edgx_br_vlan_del_pt_def bind_eq_Some Let_def map_update unlink_vlan_def
        split: if_splits dest!: vlan_cmd_brv)
qed

lemma members_add_pt:
  assumes a: "edgx_br_vlan_add_pt dev ub v untagged pvid pt b = Some (r, b')" and wf: "vlan_wf (brv b)"
    and v: "v \<noteq> INVALID_VID" and p: "pt_id pt < EDGX_BR_MAX_PORTS"
  shows "members (brv b') = (if r = 0 then insert (pt_id pt, v) (members (brv b)) else members (brv b))"
  using a
proof (cases rule: add_pt_cases)
  case rejected
  then show ?thesis by simp
next
  case (joined vi fi b1 b2)
  let ?vs = "map vid (vids (brv b))" and ?pts = "map ptvec (vids (brv b))"
  have vi: "vi < length (vids (brv b))" "vid (vids (brv b) ! vi) = v" using get_vlan_SomeD [OF joined(1)] by auto
  have "map vid (vids (brv b')) = ?vs" "map ptvec (vids (brv b')) = ?pts[vi := ?pts ! vi OR BIT (pt_id pt)]"
    using join_vlan_brv [OF joined(2)] write_member_brv [OF joined(3)] joined(4) vi(1)
    by (simp_all add: map_update map_update_nth)
  then have "members (brv b') = members (brv b) \<union> {(q, y). y = v \<and> bit (BIT (pt_id pt) :: u32) q}"
    using members_set [of vi ?vs ?pts v "pt_id pt"] vi v by (simp add: members_def)
  then show ?thesis using p joined(5) bit_BIT [of "pt_id pt"] by auto
next
  case (created vi fi b1 b2)
  let ?vs = "map vid (vids (brv b))" and ?pts = "map ptvec (vids (brv b))"
  have vi: "vi < length (vids (brv b))" "vid (vids (brv b) ! vi) = INVALID_VID"
    using get_vlan_SomeD [of "brv b" INVALID_VID vi] created(2) by (simp_all add: edgx_br_vlan_get_free_vlan_def)
  have "members (brv b') = members (brv b) \<union> {(q, y). y = v \<and> bit (BIT (pt_id pt) :: u32) q}"
    using new_vlan_wf [OF created(5) wf created(2,1) v created(4)] write_member_brv [OF created(6)] created(7)
      members_new [of vi ?vs ?pts v] vi v get_vlan_None [OF created(1)] by (simp add: members_def)
  then show ?thesis using p created(8) bit_BIT [of "pt_id pt"] by auto
qed

lemma members_del_pt:
  assumes d: "edgx_br_vlan_del_pt dev ub v pt b = Some (r, b')" and wf: "vlan_wf (brv b)"
    and v: "v \<noteq> INVALID_VID" and p: "pt_id pt < EDGX_BR_MAX_PORTS"
  shows "members (brv b') = members (brv b) - {(pt_id pt, v)}"
proof (cases "edgx_br_vlan_get_vlan (brv b) v")
  case None
  with d have "b' = b" by (simp add: edgx_br_vlan_del_pt_def)
  moreover have "(pt_id pt, v) \<notin> members (brv b)"
    using get_vlan_None [OF None] by (auto simp: members_def cols_members_def)
  ultimately show ?thesis by simp
next
  case (Some vi)
  let ?vs = "map vid (vids (brv b))" and ?pts = "map ptvec (vids (brv b))"
  have vi: "vi < length (vids (brv b))" "vid (vids (brv b) ! vi) = v" using get_vlan_SomeD [OF Some] by auto
  have inj: "j = vi" if "j < length ?vs" "?vs ! j = v" for j
    using wf_vid_unique [OF wf, of vi j v] vi v that by simp
  have c: "cols_members ?vs (?pts[vi := ?pts ! vi AND NOT (BIT (pt_id pt))])
      = members (brv b) - {(q, y). y = v \<and> bit (BIT (pt_id pt) :: u32) q}"
    unfolding members_def by (rule members_clear [OF _ _ _ v inj]) (use vi in simp_all)
  have "members (brv b') = cols_members ?vs (?pts[vi := ?pts ! vi AND NOT (BIT (pt_id pt))])"
    using del_pt_cols [OF d Some] vi members_drop [of vi ?vs "?pts[vi := 0]"] by (simp add: members_def)
  with c show ?thesis using p bit_BIT [of "pt_id pt"] by auto
qed

text \<open>Removing a port from all VLANs: the loop visits every entry, and none gets the port back.\<close>

definition purged :: "nat \<Rightarrow> br_vlan \<Rightarrow> br_vlan \<Rightarrow> bool" where
  "purged p v v' \<longleftrightarrow> members v' \<subseteq> members v \<and> members v - members v' \<subseteq> {x. fst x = p}
     \<and> length (vids v') = length (vids v)
     \<and> (\<forall>j < length (vids v). bit (ptvec (vids v' ! j)) p \<longrightarrow> bit (ptvec (vids v ! j)) p)"

lemma purged_refl: "purged p v v"
  by (simp add: purged_def)

lemma purged_trans: "purged p v v' \<Longrightarrow> purged p v' v'' \<Longrightarrow> purged p v v''"
  unfolding purged_def by (intro conjI) (blast, blast, simp, simp)

lemma del_pt_purged:
  assumes d: "edgx_br_vlan_del_pt dev ub v pt b = Some (r, b')" and wf: "vlan_wf (brv b)"
    and v: "v \<noteq> INVALID_VID" and p: "pt_id pt < EDGX_BR_MAX_PORTS" and i: "i < length (vids (brv b))" "vid (vids (brv b) ! i) = v"
  shows "purged (pt_id pt) (brv b) (brv b') \<and> \<not> bit (ptvec (vids (brv b') ! i)) (pt_id pt)"
proof -
  let ?vs = "map vid (vids (brv b))"
  from i obtain vi where vi: "edgx_br_vlan_get_vlan (brv b) v = Some vi"
    using get_vlan_None [of "brv b" v] by (cases "edgx_br_vlan_get_vlan (brv b) v") auto
  have "vi = i"
    using wf_vid_unique [OF wf, of i vi v] get_vlan_SomeD [OF vi] i v by simp
  note c = del_pt_cols [OF d vi, unfolded this]
  then have len: "length (vids (brv b')) = length (vids (brv b))" by (metis length_list_update length_map)
  have "ptvec (vids (brv b') ! j) = (map ptvec (vids (brv b)))[i := ptvec (vids (brv b) ! i) AND NOT (BIT (pt_id pt))] ! j"
    if "j < length (vids (brv b))" for j
    using c len that by (metis nth_map)
  then show ?thesis
    using members_del_pt [OF d wf v p] i(1) len p bit_BIT [of "pt_id pt" "pt_id pt"]
    by (auto simp: purged_def nth_list_update bit_and_iff bit_not_iff bit_BIT split: if_splits)
qed

lemma purge_from_purged:
  assumes "purge_from dev ub pt is b = Some b'" "vlan_wf (brv b)" "pt_id pt < EDGX_BR_MAX_PORTS"
  shows "purged (pt_id pt) (brv b) (brv b') \<and> (\<forall>i \<in> set is. \<not> bit (ptvec (vids (brv b') ! i)) (pt_id pt))"
  using assms(1,2)
proof (induction "is" arbitrary: b)
  case Nil
  then show ?case by (simp add: purged_refl)
next
  case (Cons i "is")
  let ?e = "vids (brv b) ! i"
  from Cons.prems(1) have i: "i < length (vids (brv b))" by (auto simp: bind_eq_Some nth_opt_eq_Some)
  have bit: "bit (ptvec ?e) (pt_id pt) \<longleftrightarrow> ptvec ?e AND BIT (pt_id pt) \<noteq> 0"
    by (simp add: and_exp_eq_0_iff_not_bit)
  obtain b1 where b1: "purge_from dev ub pt is b1 = Some b'" "vlan_wf (brv b1)"
    "purged (pt_id pt) (brv b) (brv b1) \<and> \<not> bit (ptvec (vids (brv b1) ! i)) (pt_id pt)"
  proof (cases "bit (ptvec ?e) (pt_id pt)")
    case False
    with Cons.prems i bit that [of b] show ?thesis by (simp add: purged_refl)
  next
    case True
    then have v: "vid ?e \<noteq> INVALID_VID"
      using Cons.prems(2) i by (auto simp: vlan_wf_def used_ok_def idle_cols_def)
    from Cons.prems(1) i True bit obtain r b1 where d: "edgx_br_vlan_del_pt dev ub (vid ?e) pt b = Some (r, b1)"
      "purge_from dev ub pt is b1 = Some b'" by (auto simp: bind_eq_Some)
    from that [OF d(2) del_pt_wf [OF d(1) Cons.prems(2) v] del_pt_purged [OF d(1) Cons.prems(2) v assms(3) i refl]]
    show ?thesis .
  qed
  from Cons.IH [OF b1(1,2)] b1(3) i show ?case
    by (auto intro: purged_trans simp: purged_def)
qed

text \<open>
  Property C14. The membership table implements a relation of ports and VLANs: \<open>edgx_br_vlan_add_pt\<close>
  inserts exactly the pair of the port and the VLAN when it returns 0 and changes nothing when it
  returns an error, \<open>edgx_br_vlan_del_pt\<close> removes exactly this pair, and \<open>edgx_br_vlan_purge_pt\<close> removes
  exactly the pairs of the port.
\<close>

theorem membership_refined:
  assumes "vlan_wf (brv b)" "v \<noteq> INVALID_VID" "pt_id pt < EDGX_BR_MAX_PORTS"
  shows "(edgx_br_vlan_add_pt dev ub v untagged is_pvid pt b = Some (r, b')
            \<longrightarrow> members (brv b') = (if r = 0 then insert (pt_id pt, v) (members (brv b)) else members (brv b)))
       \<and> (edgx_br_vlan_del_pt dev ub v pt b = Some (r, b') \<longrightarrow> members (brv b') = members (brv b) - {(pt_id pt, v)})
       \<and> (edgx_br_vlan_purge_pt dev ub pt b = Some (r, b') \<longrightarrow> members (brv b') = {x \<in> members (brv b). fst x \<noteq> pt_id pt})"
proof (intro conjI impI)
  assume "edgx_br_vlan_add_pt dev ub v untagged is_pvid pt b = Some (r, b')"
  from members_add_pt [OF this assms]
  show "members (brv b') = (if r = 0 then insert (pt_id pt, v) (members (brv b)) else members (brv b))" .
next
  assume "edgx_br_vlan_del_pt dev ub v pt b = Some (r, b')"
  from members_del_pt [OF this assms] show "members (brv b') = members (brv b) - {(pt_id pt, v)}" .
next
  assume "edgx_br_vlan_purge_pt dev ub pt b = Some (r, b')"
  then have "purge_from dev ub pt [0..<unat (max_vlans (brv b))] b = Some b'" by (auto simp: edgx_br_vlan_purge_pt_def)
  note p = purge_from_purged [OF this assms(1,3)]
  have "length (vids (brv b)) = unat (max_vlans (brv b))" using assms(1) by (simp add: vlan_wf_def sizes_ok_def)
  with p have "(pt_id pt, x) \<notin> members (brv b')" for x
    by (auto simp: purged_def members_def cols_members_def)
  with p show "members (brv b') = {x \<in> members (brv b). fst x \<noteq> pt_id pt}"
    by (auto simp: purged_def)
qed

text \<open>A bridge with two VLANs as the initialisation leaves it.\<close>

definition two_vlans :: bridge where
  "two_vlans = \<lparr>brv = \<lparr>bv_iobase = 0, bv_ports = [], nvlans = 0, max_vlans = 2, max_fids = 2, max_mstis = 2,
       vids = [\<lparr>vid = 0, vl_fid = None, ptvec = 0\<rparr>, \<lparr>vid = 0, vl_fid = None, ptvec = 0\<rparr>],
       fids = [\<lparr>vlanlist = [], fid = 0, fd_msti = Some 0\<rparr>, \<lparr>vlanlist = [], fid = 1, fd_msti = Some 0\<rparr>],
       mstis = [\<lparr>mstid = 0, fidlist = [0, 1], ptstate = replicate 16 0\<rparr>, \<lparr>mstid = 0xFFE, fidlist = [], ptstate = replicate 16 3\<rparr>]\<rparr>,
     dmac = \<lparr>dm_iobase = 0, dm_ports = [], root = [], detector_state = False, work_sync = None\<rparr>, sent = [], bio = \<lambda>_. 0\<rparr>"

lemma two_vlans_wf: "vlan_wf (brv two_vlans)"
  by (auto simp: two_vlans_def vlan_wf_def sizes_ok_def links_ok_def linked_def used_ok_def idle_cols_def used_cols_def
      vlans_used_def trees_ok_def less_Suc_eq nth_Cons split: nat.splits)

lemma two_vlans_add:
  "\<exists>b'. edgx_br_vlan_add_pt (\<lambda>m. m) 0 5 True False \<lparr>pt_id = 1, pt_iobase = 0x1000\<rparr> two_vlans = Some (0, b')"
  by (simp add: two_vlans_def edgx_br_vlan_add_pt_def edgx_br_vlan_get_vlan_def edgx_br_vlan_get_free_vlan_def
      edgx_br_vlan_get_free_fid_def new_vlan_def edgx_br_set_fid2msti_def edgx_br_vlan_get_msti_def
      edgx_br_move_fid2msti_def edgx_br_move_vid2fid_def link_vlan_def vlan_cmd_idle write_member_def Let_def)

theorem membership_refined_witness:
  "\<exists>b'. edgx_br_vlan_add_pt (\<lambda>m. m) 0 5 True False \<lparr>pt_id = 1, pt_iobase = 0x1000\<rparr> two_vlans = Some (0, b')
     \<and> members (brv b') = {(1, 5)}"
proof -
  obtain b' where a: "edgx_br_vlan_add_pt (\<lambda>m. m) 0 5 True False \<lparr>pt_id = 1, pt_iobase = 0x1000\<rparr> two_vlans = Some (0, b')"
    using two_vlans_add by blast
  have "members (brv two_vlans) = {}"
    by (auto simp: two_vlans_def members_def cols_members_def less_Suc_eq nth_Cons split: nat.splits)
  with membership_refined [OF two_vlans_wf, of 5 "\<lparr>pt_id = 1, pt_iobase = 0x1000\<rparr>" "\<lambda>m. m" 0 True False 0 b'] a
  have "members (brv b') = {(1, 5)}" by simp
  with a show ?thesis by blast
qed

section \<open>FIDs of new VLANs\<close>

text \<open>
  A VLAN that a port creates gets a FID of its own (independent learning) in the common
  tree: afterwards the VLAN is the only member of that FID, the port is its only member, and the
  entries of all other VLANs are unchanged.
\<close>

theorem new_vlan_has_own_fid:
  assumes wf: "vlan_wf (brv b)" and v: "v \<noteq> INVALID_VID" "edgx_br_vlan_get_vlan (brv b) v = None"
    and a: "edgx_br_vlan_add_pt dev ub v untagged is_pvid pt b = Some (0, b')"
  shows "\<exists>vi fi. edgx_br_vlan_get_vlan (brv b') v = Some vi \<and> vids (brv b') ! vi = \<lparr>vid = v, vl_fid = Some fi, ptvec = BIT (pt_id pt)\<rparr>
     \<and> vlanlist (fids (brv b') ! fi) = [vi] \<and> fd_msti (fids (brv b') ! fi) = Some CIST_IDX
     \<and> nvlans (brv b') = nvlans (brv b) + 1
     \<and> (\<forall>j < length (vids (brv b)). j \<noteq> vi \<longrightarrow> vids (brv b') ! j = vids (brv b) ! j)"
  using a
proof (cases rule: add_pt_cases)
  case (created vi fi b1 b2)
  have vi: "vi < length (vids (brv b))"
    using get_vlan_SomeD [of "brv b" INVALID_VID vi] created(2) by (simp add: edgx_br_vlan_get_free_vlan_def)
  have fi: "fi < length (fids (brv b))" "vlanlist (fids (brv b) ! fi) = []"
    using find_idx_SomeD [of "\<lambda>e. vlanlist e = []" "fids (brv b)" fi] created(3) by (simp_all add: edgx_br_vlan_get_free_fid_def)
  have b1: "brv b' = brv b1" using write_member_brv [OF created(6)] created(7) by simp
  note n = new_vlan_wf [OF created(5) wf created(2) v(2,1) created(4)]
  let ?own = "map vl_fid (vids (brv b))"
  have len: "length (vids (brv b1)) = length (vids (brv b))" using n by (metis length_list_update length_map)
  have own: "?own ! j \<noteq> Some fi" if "j < length ?own" for j
    using linkedD(2) [of ?own "map vlanlist (fids (brv b))" fi j] wf fi that by (simp add: vlan_wf_def links_ok_def)
  have wf1: "vlan_wf (brv b1)" using n by blast
  then have "linked (map vl_fid (vids (brv b1))) (map vlanlist (fids (brv b1)))" by (simp add: vlan_wf_def links_ok_def)
  moreover have "map vl_fid (vids (brv b1)) = ?own[vi := Some fi]" using n by simp
  ultimately have "linked (?own[vi := Some fi]) (map vlanlist (fids (brv b1)))" by simp
  note l = linkedD [OF this]
  have lf: "length (fids (brv b1)) = length (fids (brv b))"
    using n fi(1) by (metis length_list_update length_map)
  have set: "set (vlanlist (fids (brv b1) ! fi)) = {vi}"
    using l(2) [of fi] lf fi(1) vi own by (auto simp: nth_list_update split: if_splits)
  moreover have "distinct (vlanlist (fids (brv b1) ! fi))" using l(1) [of fi] lf fi(1) by simp
  ultimately have "vlanlist (fids (brv b1) ! fi) = [vi]" by (cases "vlanlist (fids (brv b1) ! fi)") (auto simp: subset_singleton_iff)
  moreover have "edgx_br_vlan_get_vlan (brv b1) v = Some vi" unfolding edgx_br_vlan_get_vlan_def
  proof (rule find_idx_unique)
    fix j assume j: "j < length (vids (brv b1))" "vid (vids (brv b1) ! j) = v"
    then show "j = vi"
      using wf_vid_unique [OF wf1, of vi j v] n vi v(1) len by simp
  qed (use n vi len in simp_all)
  moreover have "fd_msti (fids (brv b1) ! fi) = Some CIST_IDX"
    using n fi(1) lf by (metis length_map nth_list_update_eq nth_map)
  moreover have "vids (brv b1) ! j = vids (brv b) ! j" if "j < length (vids (brv b))" "j \<noteq> vi" for j
  proof -
    have "map vid (vids (brv b1)) ! j = map vid (vids (brv b)) ! j" "map ptvec (vids (brv b1)) ! j = map ptvec (vids (brv b)) ! j"
      "map vl_fid (vids (brv b1)) ! j = map vl_fid (vids (brv b)) ! j"
      using n that by simp_all
    then show ?thesis using that len by (intro vlan_ent.equality) simp_all
  qed
  ultimately show ?thesis using n b1 by auto
qed (use v(2) in auto)

theorem new_vlan_has_own_fid_witness:
  "\<exists>b' vi fi. edgx_br_vlan_add_pt (\<lambda>m. m) 0 5 True False \<lparr>pt_id = 1, pt_iobase = 0x1000\<rparr> two_vlans = Some (0, b')
     \<and> vlanlist (fids (brv b') ! fi) = [vi] \<and> vids (brv b') ! vi = \<lparr>vid = 5, vl_fid = Some fi, ptvec = 2\<rparr>"
proof -
  obtain b' where a: "edgx_br_vlan_add_pt (\<lambda>m. m) 0 5 True False \<lparr>pt_id = 1, pt_iobase = 0x1000\<rparr> two_vlans = Some (0, b')"
    using two_vlans_add by blast
  have "edgx_br_vlan_get_vlan (brv two_vlans) 5 = None"
    by (simp add: two_vlans_def edgx_br_vlan_get_vlan_def)
  from new_vlan_has_own_fid [OF two_vlans_wf _ this a] a show ?thesis by auto
qed

section \<open>Waiting for VLAN commands\<close>

text \<open>
  The wait for a VLAN command does not see the tag and port flags of the command
  register: when the FID flag (bit 15) is clear after the first poll, the command returns there,
  whatever the other flags say, and when it is set, whether the driver waits depends only on the
  undefined mask.
\<close>

theorem vlan_cmd_ignores_flags:
  fixes dev :: device and ub cmd :: u16 and b :: bridge
  defines "io \<equiv> dev (edgx_wr16 (bio b) (bv_iobase (brv b)) VLAN_CMD_BASE cmd)"
  shows "(bit (edgx_rd16 io (bv_iobase (brv b)) VLAN_CMD_BASE) 15 \<or> vlan_cmd dev ub cmd b = Some (b\<lparr>bio := io\<rparr>))
       \<and> (bit ub 0 \<or> vlan_cmd dev ub cmd b = Some (b\<lparr>bio := io\<rparr>))"
proof -
  let ?x = "edgx_rd16 io (bv_iobase (brv b)) VLAN_CMD_BASE"
  have d: "drop_bit 15 ?x = (if bit ?x 15 then 1 else 0)"
  proof (rule bit_word_eqI)
    show "bit (drop_bit 15 ?x) n \<longleftrightarrow> bit (if bit ?x 15 then 1 else 0 :: u16) n" for n
      by (cases n) (auto simp: bit_simps bit_1_iff dest: bit_imp_le_length)
  qed
  have "\<not> vlan_cmd_busy ub (bv_iobase (brv b)) io" if "\<not> bit ?x 15 \<or> \<not> bit ub 0"
  proof -
    have "(1 AND ub) = 0" if "\<not> bit ub 0" using that by (simp add: one_and_eq bit_0 even_iff_mod_2_eq_zero)
    then show ?thesis using that d by (auto simp: vlan_cmd_busy_def edgx_get16_def field_mask_def Let_def)
  qed
  then have "vlan_cmd dev ub cmd b = Some (b\<lparr>bio := io\<rparr>)" if "\<not> bit ?x 15 \<or> \<not> bit ub 0"
    using that by (simp add: vlan_cmd_def Let_def io_def wait_clear_ready)
  then show ?thesis by blast
qed

text \<open>A read of the tags (flag 14): a device that never finishes the command is not waited for.\<close>

theorem vlan_cmd_ignores_flags_witness:
  "vlan_cmd (\<lambda>m. m) 1 CMD_TAG two_vlans = Some (two_vlans\<lparr>bio := edgx_wr16 (bio two_vlans) 0 VLAN_CMD_BASE CMD_TAG\<rparr>)"
  using vlan_cmd_ignores_flags [of "\<lambda>m. m" two_vlans CMD_TAG 1] by (simp add: two_vlans_def bit_iff_odd)

section \<open>Trees\<close>

lemma get_msti_SomeD:
  "edgx_br_vlan_get_msti v m = Some mi \<Longrightarrow> mi < length (mstis v) \<and> mstid (mstis v ! mi) = m"
  unfolding edgx_br_vlan_get_msti_def by (drule find_idx_SomeD) simp

text \<open>
  The user can move a FID to the invalid tree: when a tree entry is free, writing the
  invalid identifier is accepted and puts the FID into the free entry, which thereby names no tree.
  A tree that is created next takes this entry over together with the FID, with all its ports
  disabled in the driver, although nothing was written to the registers that hold the forwarding
  state of the FID.
\<close>

theorem fid_moves_to_invalid_tree:
  assumes wf: "vlan_wf (brv b)" and f: "f < max_vlans (brv b)"
    and free: "edgx_br_vlan_get_free_msti (brv b) = Some mi"
    and set: "edgx_br_set_fid2msti dev ub f EDGX_INVALID_MSTID b = Some (r, b')"
    and m: "\<not> is_reserved_mstid m" "edgx_br_vlan_get_msti (brv b) m = None" "m < EDGX_INVALID_MSTID"
  shows "r = 0 \<and> fd_msti (fids (brv b') ! unat f) = Some mi \<and> mstid (mstis (brv b') ! mi) = EDGX_INVALID_MSTID
     \<and> (\<exists>v'. edgx_br_vlan_create_msti m (brv b') = (0, v') \<and> mstid (mstis v' ! mi) = m
          \<and> unat f \<in> set (fidlist (mstis v' ! mi)) \<and> ptstate (mstis v' ! mi) = replicate EDGX_BR_MAX_PORTS BR_STATE_DISABLED)"
proof -
  have mi: "mi < length (mstis (brv b))" "mstid (mstis (brv b) ! mi) = EDGX_INVALID_MSTID"
    using get_msti_SomeD [of "brv b" EDGX_INVALID_MSTID mi] free by (simp_all add: edgx_br_vlan_get_free_msti_def)
  have mv: "edgx_br_move_fid2msti dev ub (unat f) mi b = Some b'" "r = 0"
    using set free f [folded not_le] by (auto simp: edgx_br_set_fid2msti_def edgx_br_vlan_get_free_msti_def bind_eq_Some)
  have wf': "links_ok (brv b)" "sizes_ok (brv b)" using wf by (simp_all add: vlan_wf_def)
  note t = move_fid2msti_tables [OF mv(1) wf'(1)]
  have ids: "map mstid (mstis (brv b')) = map mstid (mstis (brv b))" "length (mstis (brv b')) = length (mstis (brv b))"
    and fd: "fd_msti (fids (brv b') ! unat f) = Some mi"
    using t by (auto simp: map_update map_update_nth o_def)
  have find: "edgx_br_vlan_get_msti (brv b') x = edgx_br_vlan_get_msti (brv b) x" for x
    using ids(1) unfolding edgx_br_vlan_get_msti_def find_idx_map [of "\<lambda>y. y = x" mstid, symmetric] by simp
  have lf: "unat f < length (fids (brv b'))"
    using t by auto
  have "links_ok (brv b')" using move_fid2msti_wf [OF mv(1) wf] by (simp add: vlan_wf_def)
  then have "unat f \<in> set (fidlist (mstis (brv b') ! mi))"
    using linkedD(2) [of "map fd_msti (fids (brv b'))" "map fidlist (mstis (brv b'))" mi "unat f"] fd lf mi(1) ids(2)
    by (simp add: links_ok_def)
  moreover have "mstid (mstis (brv b') ! mi) = EDGX_INVALID_MSTID" using ids mi by (metis nth_map)
  ultimately show ?thesis
    using mv(2) fd m find free mi(1) ids(2)
    by (simp add: edgx_br_vlan_create_msti_def edgx_br_vlan_get_free_msti_def edgx_br_vlan_init_msti_def not_le)
qed

text \<open>The bridge with a free tree entry.\<close>

theorem fid_moves_to_invalid_tree_witness:
  defines "b \<equiv> two_vlans\<lparr>brv := (brv two_vlans)\<lparr>max_mstis := 3, mstis := mstis (brv two_vlans) @
      [\<lparr>mstid = EDGX_INVALID_MSTID, fidlist = [], ptstate = replicate 16 0\<rparr>]\<rparr>\<rparr>"
  shows "\<exists>b' v'. edgx_br_set_fid2msti (\<lambda>m. m) 0 1 EDGX_INVALID_MSTID b = Some (0, b')
     \<and> edgx_br_vlan_create_msti 7 (brv b') = (0, v') \<and> mstid (mstis v' ! 2) = 7 \<and> 1 \<in> set (fidlist (mstis v' ! 2))"
proof -
  have wf: "vlan_wf (brv b)"
    by (auto simp: b_def two_vlans_def vlan_wf_def sizes_ok_def links_ok_def linked_def used_ok_def idle_cols_def used_cols_def
      vlans_used_def trees_ok_def less_Suc_eq nth_Cons split: nat.splits)
  have f: "edgx_br_vlan_get_free_msti (brv b) = Some 2" "edgx_br_vlan_get_msti (brv b) 7 = None" "1 < max_vlans (brv b)"
    by (simp_all add: b_def two_vlans_def edgx_br_vlan_get_free_msti_def edgx_br_vlan_get_msti_def)
  have "\<exists>r b'. edgx_br_set_fid2msti (\<lambda>m. m) 0 1 EDGX_INVALID_MSTID b = Some (r, b')"
    by (simp add: b_def two_vlans_def edgx_br_set_fid2msti_def edgx_br_vlan_get_msti_def edgx_br_move_fid2msti_def
        unlink_fid_def link_fid_def edgx_br_vlan_set_te_fid_def Let_def)
  then obtain r b' where s: "edgx_br_set_fid2msti (\<lambda>m. m) 0 1 EDGX_INVALID_MSTID b = Some (r, b')" by blast
  from fid_moves_to_invalid_tree [OF wf f(3,1) s, of 7] s f(2) show ?thesis by (auto simp: is_reserved_mstid_def)
qed

section \<open>Reading the VLANs of a FID\<close>

text \<open>The loop that fills the rest of the buffer visits every second element only.\<close>

lemma fill_rest_outcome:
  assumes "n \<le> length buf" "n - i \<le> k"
  shows "\<exists>buf'. fill_rest k i n buf = Some buf' \<and> length buf' = length buf
     \<and> (\<forall>j < length buf. buf' ! j = (if i \<le> j \<and> j < n \<and> even (j - i) then 0 else buf ! j))"
  using assms
proof (induction k arbitrary: i buf)
  case 0
  then show ?case by auto
next
  case (Suc k)
  show ?case
  proof (cases "i < n")
    case True
    have "n - (i + 2) \<le> k" using Suc.prems(2) by linarith
    with Suc.IH [of "buf[i := 0]" "i + 2"] Suc.prems(1) obtain buf' where
      b: "fill_rest k (i + 2) n (buf[i := 0]) = Some buf'" "length buf' = length buf"
      "\<forall>j < length buf. buf' ! j = (if i + 2 \<le> j \<and> j < n \<and> even (j - (i + 2)) then 0 else buf[i := 0] ! j)"
      unfolding length_list_update by blast
    have "buf' ! j = (if i \<le> j \<and> j < n \<and> even (j - i) then 0 else buf ! j)" if "j < length buf" for j
    proof -
      consider "j < i" | "j = i" | "j = i + 1" | "i + 2 \<le> j" by linarith
      then show ?thesis
      proof cases
        case 4
        then have "even (j - (i + 2)) \<longleftrightarrow> even (j - i)" by auto
        with 4 b(3) that show ?thesis by simp
      qed (use b(3) that True in auto)
    qed
    with b(1,2) True Suc.prems show ?thesis by simp
  next
    case False
    then show ?thesis by (auto simp: not_less)
  qed
qed

text \<open>
  Reading the VLANs of a FID fills the buffer with the VLANs and then clears only every
  second of the remaining elements: the others keep what the buffer held before.
\<close>

theorem fid2vid_read_outcome:
  assumes wf: "vlan_wf v" and f: "f < unat (max_vlans v)" and n: "length (vlanlist (fids v ! f)) \<le> unat (max_vlans v)"
    and buf: "length buf = unat (max_vlans v)"
  shows "\<exists>buf'. fid2vid_read (int f * (4 * uint (max_vlans v))) (4 * uint (max_vlans v)) buf v = Some (4 * uint (max_vlans v), buf')
     \<and> length buf' = length buf
     \<and> (\<forall>j < length buf. buf' ! j =
          (if j < length (vlanlist (fids v ! f)) then ucast (vid (vids v ! (vlanlist (fids v ! f) ! j)))
           else if even (j - length (vlanlist (fids v ! f))) then 0 else buf ! j))"
proof -
  let ?vs = "vlanlist (fids v ! f)" and ?n = "unat (max_vlans v)"
  let ?buf = "map (\<lambda>i. ucast (vid (vids v ! i)) :: u32) ?vs @ drop (length ?vs) buf"
  have s: "length (fids v) = ?n" "length (vids v) = ?n" "\<And>i. i < ?n \<Longrightarrow> fid (fids v ! i) = of_nat i"
    using wf by (simp_all add: vlan_wf_def sizes_ok_def)
  have b16: "?n < 2 ^ LENGTH(16)" by (rule unsigned_less)
  have "0 < int (unat (max_vlans v))" using f by linarith
  then have pos: "0 < uint (max_vlans v)" by (simp only: uint_nat)
  have get: "edgx_br_vlan_get_fid v (word_of_int (int f)) = Some f" unfolding edgx_br_vlan_get_fid_def
  proof (rule find_idx_unique)
    show "j = f" if "j < length (fids v)" "fid (fids v ! j) = word_of_int (int f)" for j
    proof -
      have "(of_nat j :: u16) = of_nat f" using that s by simp
      then have "unat (of_nat j :: u16) = unat (of_nat f :: u16)" by simp
      then show ?thesis using that s f b16 by (simp add: unat_of_nat)
    qed
  qed (use s f in simp_all)
  have in_range: "\<forall>i \<in> set ?vs. i < length (vids v)"
  proof
    fix i assume "i \<in> set ?vs"
    then show "i < length (vids v)"
      using linkedD(2) [of "map vl_fid (vids v)" "map vlanlist (fids v)" f i] wf f s(1)
      by (simp add: vlan_wf_def links_ok_def)
  qed
  obtain buf' where b': "fill_rest ?n (length ?vs) ?n ?buf = Some buf'" "length buf' = length ?buf"
    "\<forall>j < length ?buf. buf' ! j = (if length ?vs \<le> j \<and> j < ?n \<and> even (j - length ?vs) then 0 else ?buf ! j)"
    using fill_rest_outcome [of ?n ?buf "length ?vs" ?n] n buf by auto
  have len: "length ?buf = length buf" using n buf by simp
  have params: "edgx_sysfs_list_params (int f * (4 * uint (max_vlans v))) (4 * uint (max_vlans v)) (4 * uint (max_vlans v))
      = Some (Inr (int f, 1))"
    using sysfs_list_params_elems [of "4 * uint (max_vlans v)" "int f" 1] pos by simp
  have ok: "\<not> (length buf < length ?vs \<or> (\<exists>i \<in> set ?vs. length (vids v) \<le> i))"
    using in_range n buf by (simp add: Ball_def Bex_def not_less not_le)
  have "fid2vid_read (int f * (4 * uint (max_vlans v))) (4 * uint (max_vlans v)) buf v = Some (4 * uint (max_vlans v), buf')"
    unfolding fid2vid_read_def params using get b'(1) by (simp add: Let_def if_not_P [OF ok])
  then show ?thesis using b'(2,3) len n buf by (intro exI [of _ buf']) (auto simp: nth_append)
qed

text \<open>The second FID of a bridge with two VLANs, without members: the second element is not cleared.\<close>

theorem fid2vid_read_outcome_witness:
  "\<exists>buf'. fid2vid_read 8 8 [77, 99] (brv two_vlans) = Some (8, buf') \<and> buf' ! 0 = 0 \<and> buf' ! 1 = 99"
  using fid2vid_read_outcome [OF two_vlans_wf, of 1 "[77, 99]"] by (auto simp: two_vlans_def)

end
