(* ===== verification/KeyOrder.thy ===== *)
theory KeyOrder
  imports Prelude
begin

text \<open>
  Ordered sequences: the in-order sequence of a search tree of the kernel (\<open>linux/rbtree.h\<close>), whose
  clients find the place of a node with their own comparison of keys. The locale \<open>key_compare\<close> states
  what such a comparison has to be and proves the facts on ordered sequences; \<open>for_list\<close> is a loop
  over a list whose body may fail.
\<close>

section \<open>Sequences ordered by a comparison\<close>

locale key_compare =
  fixes cmp :: "'k \<Rightarrow> 'k \<Rightarrow> int" and valid :: "'k \<Rightarrow> bool"
  assumes cmp_zero: "valid a \<Longrightarrow> valid b \<Longrightarrow> cmp a b = 0 \<longleftrightarrow> a = b"
    and cmp_flip: "valid a \<Longrightarrow> valid b \<Longrightarrow> cmp a b < 0 \<longleftrightarrow> 0 < cmp b a"
    and cmp_trans: "valid a \<Longrightarrow> valid b \<Longrightarrow> valid c \<Longrightarrow> cmp a b < 0 \<Longrightarrow> cmp b c < 0 \<Longrightarrow> cmp a c < 0"
begin

definition ordered :: "'k list \<Rightarrow> bool" where
  "ordered ks \<longleftrightarrow> (\<forall>k \<in> set ks. valid k) \<and> sorted_wrt (\<lambda>a b. cmp a b < 0) ks"

lemma ordered_Nil: "ordered []"
  by (simp add: ordered_def)

lemma ordered_Cons: "ordered (k # ks) \<longleftrightarrow> valid k \<and> (\<forall>x \<in> set ks. cmp k x < 0) \<and> ordered ks"
  by (auto simp: ordered_def)

lemma cmp_irrefl: "valid k \<Longrightarrow> \<not> cmp k k < 0"
  by (metis cmp_zero less_irrefl)

lemma ordered_distinct: "ordered ks \<Longrightarrow> distinct ks"
proof (induction ks)
  case (Cons k ks)
  then show ?case using cmp_irrefl by (auto simp: ordered_Cons)
qed simp

text \<open>A key below the first one is in front of all.\<close>

lemma ordered_below:
  assumes "ordered (k # ks)" "valid x" "cmp x k < 0"
  shows "ordered (x # k # ks)"
proof -
  have "cmp x y < 0" if "y \<in> set ks" for y
  proof (rule cmp_trans [where b = k])
    show "valid y" using assms(1) that by (auto simp: ordered_def)
    show "cmp k y < 0" using assms(1) that by (auto simp: ordered_Cons)
  qed (use assms in \<open>auto simp: ordered_def\<close>)
  then show ?thesis using assms by (auto simp: ordered_Cons)
qed

lemma ordered_below_notin: "ordered (k # ks) \<Longrightarrow> valid x \<Longrightarrow> cmp x k < 0 \<Longrightarrow> x \<notin> set (k # ks)"
  using ordered_distinct [OF ordered_below] by simp

lemma cmp_above:
  assumes "valid x" "valid k" "\<not> cmp x k < 0" "cmp x k \<noteq> 0"
  shows "cmp k x < 0"
  using cmp_flip [OF assms(2,1)] assms(3,4) by simp

text \<open>Removing elements keeps the order; the first element is the least one.\<close>

lemma ordered_filter: "ordered ks \<Longrightarrow> ordered (filter P ks)"
  by (auto simp: ordered_def sorted_wrt_filter)

lemma ordered_least: "ordered (k # ks) \<Longrightarrow> x \<in> set (k # ks) \<Longrightarrow> x = k \<or> cmp k x < 0"
  by (auto simp: ordered_Cons)

end

section \<open>Loops\<close>

fun for_list :: "('a \<Rightarrow> 's \<Rightarrow> 's option) \<Rightarrow> 'a list \<Rightarrow> 's \<Rightarrow> 's option" where
  "for_list f [] s = Some s"
| "for_list f (x # xs) s = Option.bind (f x s) (for_list f xs)"

lemma for_list_append: "for_list f (xs @ ys) s = Option.bind (for_list f xs s) (for_list f ys)"
proof (induction xs arbitrary: s)
  case (Cons x xs)
  then show ?case by (cases "f x s") simp_all
qed simp

text \<open>A loop whose body succeeds and keeps an invariant that depends on the elements that are done.\<close>

lemma for_list_inv:
  assumes "I [] s"
    and "\<And>ds x s. I ds s \<Longrightarrow> x \<in> set xs \<Longrightarrow> \<exists>s'. f x s = Some s' \<and> I (ds @ [x]) s'"
  shows "\<exists>s'. for_list f xs s = Some s' \<and> I xs s'"
proof -
  have "\<exists>s'. for_list f ys s = Some s' \<and> I (ds @ ys) s'" if "I ds s" "set ys \<subseteq> set xs" for ds ys s
    using that
  proof (induction ys arbitrary: ds s)
    case (Cons y ys)
    then obtain s1 where "f y s = Some s1" "I (ds @ [y]) s1" using assms(2) [of ds s y] by auto
    with Cons.IH [of "ds @ [y]" s1] Cons.prems(2) show ?case by simp
  qed simp
  from this [OF assms(1), of xs] show ?thesis by simp
qed

end
