(* ===== verification/BrDmacProps.thy ===== *)
theory BrDmacProps
  imports BrVlanProps KeyOrder
begin

text \<open>
  The learned addresses: the ordered tree implements a map from FID and address to a port, and what
  one round of the synchronisation does to the map and reports to the Linux bridge.
\<close>

unbundle bit_operations_syntax

section \<open>Order of the keys\<close>

text \<open>The lexicographic comparison of bytes, and the comparison of the keys.\<close>

lemma memcmp_zero: "length a = length b \<Longrightarrow> memcmp a b = 0 \<longleftrightarrow> a = b"
  by (induction a b rule: memcmp.induct) auto

lemma memcmp_flip: "memcmp a b < 0 \<longleftrightarrow> 0 < memcmp b a"
  by (induction a b rule: memcmp.induct) auto

lemma memcmp_trans:
  "length a = length b \<Longrightarrow> length b = length c \<Longrightarrow> memcmp a b < 0 \<Longrightarrow> memcmp b c < 0 \<Longrightarrow> memcmp a c < 0"
proof (induction a b arbitrary: c rule: memcmp.induct)
  case (1 a as b bs)
  then obtain d ds where c: "c = d # ds" by (cases c) auto
  with 1 show ?case by (auto split: if_splits)
qed auto

definition dmac_key_cmp :: "u16 \<times> u8 list \<Rightarrow> u16 \<times> u8 list \<Rightarrow> int" where
  "dmac_key_cmp a b = edgx_dmac_cmp (fst a) (snd a) (fst b) (snd b)"

definition dmac_key_valid :: "u16 \<times> u8 list \<Rightarrow> bool" where
  "dmac_key_valid k \<longleftrightarrow> length (snd k) = 6"

interpretation dk: key_compare dmac_key_cmp dmac_key_valid
proof
  fix a b c :: "u16 \<times> u8 list"
  assume v: "dmac_key_valid a" "dmac_key_valid b"
  show "dmac_key_cmp a b = 0 \<longleftrightarrow> a = b"
    using v memcmp_zero [of "snd a" "snd b"] by (auto simp: dmac_key_cmp_def edgx_dmac_cmp_def dmac_key_valid_def prod_eq_iff)
  show "dmac_key_cmp a b < 0 \<longleftrightarrow> 0 < dmac_key_cmp b a"
    using memcmp_flip [of "snd a" "snd b"] by (auto simp: dmac_key_cmp_def edgx_dmac_cmp_def)
  assume "dmac_key_valid c" "dmac_key_cmp a b < 0" "dmac_key_cmp b c < 0"
  with v show "dmac_key_cmp a c < 0"
    using memcmp_trans [of "snd a" "snd b" "snd c"]
    by (auto simp: dmac_key_cmp_def edgx_dmac_cmp_def dmac_key_valid_def split: if_splits)
qed

section \<open>The tree as a map\<close>

definition dmac_key :: "dmac_entry \<Rightarrow> u16 \<times> u8 list" where
  "dmac_key e = (de_fid e, de_mac e)"

text \<open>
  The tree is ordered by its keys; the FIDs have 12 bits, the ports are ports of the bridge, and no
  entry waits for a change of its port.
\<close>

definition dmac_tree_ok :: "dmac_entry list \<Rightarrow> bool" where
  "dmac_tree_ok es \<longleftrightarrow> dk.ordered (map dmac_key es)
     \<and> (\<forall>e \<in> set es. de_fid e < 4096 \<and> ptid e < EDGX_BR_MAX_PORTS \<and> ptid_new e = ptid e)"

text \<open>The abstract view: the port of every station, and whether it was seen in the current round.\<close>

definition stations :: "dmac_entry list \<Rightarrow> u16 \<times> u8 list \<rightharpoonup> nat" where
  "stations es = map_of (map (\<lambda>e. (dmac_key e, ptid e)) es)"

definition seen_keys :: "bool \<Rightarrow> dmac_entry list \<Rightarrow> (u16 \<times> u8 list) set" where
  "seen_keys det es = dmac_key ` {e \<in> set es. change_detector e = det}"

lemma dom_stations: "dom (stations es) = dmac_key ` set es"
  by (simp add: stations_def dom_map_of_conv_image_fst image_image)

lemma stations_eq:
  assumes "dk.ordered (map dmac_key es)"
  shows "stations es k = Some p \<longleftrightarrow> (\<exists>e \<in> set es. dmac_key e = k \<and> ptid e = p)"
proof -
  have "map fst (map (\<lambda>e. (dmac_key e, ptid e)) es) = map dmac_key es" by simp
  then have "distinct (map fst (map (\<lambda>e. (dmac_key e, ptid e)) es))"
    using dk.ordered_distinct [OF assms] by (simp only:)
  then show ?thesis unfolding stations_def by (auto simp: map_of_eq_Some_iff image_iff)
qed

lemma dmac_key_inj:
  assumes "dk.ordered (map dmac_key es)" "e \<in> set es" "e' \<in> set es" "dmac_key e = dmac_key e'"
  shows "e = e'"
  using dk.ordered_distinct [OF assms(1)] assms(2-) by (auto simp: distinct_map inj_on_def)

lemma dmac_cmp_key: "edgx_dmac_cmp f m (de_fid e) (de_mac e) = dmac_key_cmp (f, m) (dmac_key e)"
  "edgx_dmac_cmp (de_fid n) (de_mac n) (de_fid e) (de_mac e) = dmac_key_cmp (dmac_key n) (dmac_key e)"
  by (simp_all add: dmac_key_cmp_def dmac_key_def)

lemma dmac_search_None:
  assumes "dk.ordered (map dmac_key es)" "dmac_key_valid (f, m)"
  shows "edgx_dmac_search es f m = None \<longleftrightarrow> (f, m) \<notin> dmac_key ` set es"
  using assms(1)
proof (induction es)
  case (Cons e es)
  let ?c = "dmac_key_cmp (f, m) (dmac_key e)"
  have v: "dmac_key_valid (dmac_key e)" using Cons.prems by (simp add: dk.ordered_Cons)
  consider "?c < 0" | "?c > 0" | "?c = 0" by linarith
  then show ?case
  proof cases
    case 1
    then show ?thesis
      using dk.ordered_below_notin [of "dmac_key e" "map dmac_key es" "(f, m)"] Cons.prems assms(2)
      by (simp add: Let_def dmac_cmp_key)
  next
    case 2
    then have "(f, m) \<noteq> dmac_key e" using dk.cmp_zero [OF assms(2) v] by auto
    with 2 Cons show ?thesis by (simp add: Let_def dmac_cmp_key dk.ordered_Cons)
  next
    case 3
    then have "(f, m) = dmac_key e" using dk.cmp_zero [OF assms(2) v] by auto
    with 3 show ?thesis by (simp add: Let_def dmac_cmp_key)
  qed
qed simp

lemma dmac_search_Some:
  assumes "dk.ordered (map dmac_key es)" "dmac_key_valid (f, m)" "edgx_dmac_search es f m = Some e"
  shows "e \<in> set es \<and> dmac_key e = (f, m)"
  using assms(1,3)
proof (induction es)
  case (Cons e' es)
  have v: "dmac_key_valid (dmac_key e')" using Cons.prems by (simp add: dk.ordered_Cons)
  from Cons show ?case
    using dk.cmp_zero [OF assms(2) v]
    by (auto simp: Let_def dmac_cmp_key dk.ordered_Cons split: if_splits)
qed simp

lemma dmac_insert_new:
  assumes "dk.ordered (map dmac_key es)" "dmac_key_valid (dmac_key n)" "dmac_key n \<notin> dmac_key ` set es"
  shows "\<exists>es'. edgx_dmac_insert es n = (0, es') \<and> set es' = insert n (set es) \<and> dk.ordered (map dmac_key es')"
  using assms(1,3)
proof (induction es)
  case Nil
  then show ?case using assms(2) by (simp add: dk.ordered_Cons dk.ordered_Nil)
next
  case (Cons e es)
  let ?c = "dmac_key_cmp (dmac_key n) (dmac_key e)"
  have v: "dmac_key_valid (dmac_key e)" using Cons.prems by (simp add: dk.ordered_Cons)
  have ne: "?c \<noteq> 0" using dk.cmp_zero [OF assms(2) v] Cons.prems(2) by auto
  show ?case
  proof (cases "?c < 0")
    case True
    then show ?thesis
      using dk.ordered_below [of "dmac_key e" "map dmac_key es" "dmac_key n"] Cons.prems(1) assms(2)
      by (simp add: Let_def dmac_cmp_key(2))
  next
    case False
    from Cons obtain es' where es': "edgx_dmac_insert es n = (0, es')" "set es' = insert n (set es)"
      "dk.ordered (map dmac_key es')" by (auto simp: dk.ordered_Cons)
    moreover have "dmac_key_cmp (dmac_key e) (dmac_key n) < 0"
      by (rule dk.cmp_above) (use assms(2) v False ne in simp_all)
    ultimately show ?thesis
      using False ne Cons.prems(1) v by (auto simp: Let_def dmac_cmp_key(2) dk.ordered_Cons)
  qed
qed

lemma mark_seen_keys: "map dmac_key (mark_seen det f m es) = map dmac_key es"
  by (simp add: mark_seen_def dmac_key_def o_def)

lemma mark_seen_ports: "map (\<lambda>e. (dmac_key e, ptid e)) (mark_seen det f m es) = map (\<lambda>e. (dmac_key e, ptid e)) es"
  by (simp add: mark_seen_def dmac_key_def)

lemma mark_seen_set:
  "set (mark_seen det f m es) = (\<lambda>e. if dmac_key e = (f, m) then e\<lparr>change_detector := det\<rparr> else e) ` set es"
  by (auto simp: mark_seen_def dmac_key_def)

lemma mark_seen_ok: "dmac_tree_ok es \<Longrightarrow> dmac_tree_ok (mark_seen det f m es)"
  unfolding dmac_tree_ok_def mark_seen_keys by (auto simp: mark_seen_set)

lemma seen_keys_mark:
  assumes "(f, m) \<in> dmac_key ` set es"
  shows "seen_keys det (mark_seen det f m es) = insert (f, m) (seen_keys det es)"
proof -
  let ?u = "\<lambda>e. if dmac_key e = (f, m) then e\<lparr>change_detector := det\<rparr> else e"
  have "seen_keys det (mark_seen det f m es) = dmac_key ` ?u ` {e \<in> set es. change_detector (?u e) = det}"
    by (auto simp: seen_keys_def mark_seen_set)
  also have "\<dots> = dmac_key ` {e \<in> set es. dmac_key e = (f, m) \<or> change_detector e = det}"
  proof -
    have "dmac_key (?u e) = dmac_key e" for e by (simp add: dmac_key_def)
    moreover have "change_detector (?u e) = det \<longleftrightarrow> dmac_key e = (f, m) \<or> change_detector e = det" for e by simp
    ultimately show ?thesis by (simp only: image_image)
  qed
  also have "\<dots> = dmac_key ` {e \<in> set es. dmac_key e = (f, m)} \<union> seen_keys det es"
    unfolding seen_keys_def by blast
  also have "dmac_key ` {e \<in> set es. dmac_key e = (f, m)} = {(f, m)}" using assms by force
  finally show ?thesis by simp
qed

text \<open>What one address read from the hardware does to the tree.\<close>

lemma dmac_seen_effect:
  assumes ok: "dmac_tree_ok es" and m: "length m = 6" and f: "f < 4096" and p: "p < EDGX_BR_MAX_PORTS"
  shows "\<exists>es'. dmac_seen det f m p es = (0, es') \<and> dmac_tree_ok es'
     \<and> stations es' = (if (f, m) \<in> dom (stations es) then stations es else (stations es)((f, m) \<mapsto> p))
     \<and> seen_keys det es' = insert (f, m) (seen_keys det es)"
proof (cases "edgx_dmac_search es f m")
  case (Some e)
  have ord: "dk.ordered (map dmac_key es)" using ok by (simp add: dmac_tree_ok_def)
  have v: "dmac_key_valid (f, m)" using m by (simp add: dmac_key_valid_def)
  from dmac_search_Some [OF ord v Some] have e: "e \<in> set es" "dmac_key e = (f, m)" by simp_all
  then have d: "(f, m) \<in> dmac_key ` set es" by force
  have "dmac_seen det f m p es = (0, mark_seen det f m es)" using Some e by (simp add: dmac_seen_def dmac_key_def)
  moreover have "stations (mark_seen det f m es) = stations es" by (simp add: stations_def mark_seen_ports)
  moreover have "(f, m) \<in> dom (stations es)" using d by (simp add: dom_stations)
  ultimately show ?thesis using mark_seen_ok [OF ok] seen_keys_mark [OF d] by simp
next
  case None
  let ?n = "edgx_dmac_create m f p"
  have ord: "dk.ordered (map dmac_key es)" using ok by (simp add: dmac_tree_ok_def)
  have v: "dmac_key_valid (f, m)" using m by (simp add: dmac_key_valid_def)
  have "f AND mask 12 = f" using f by (rule and_mask_12)
  then have n: "dmac_key ?n = (f, m)" "ptid ?n = p" "ptid_new ?n = p" "de_fid ?n = f" "de_mac ?n = m"
    by (simp_all add: edgx_dmac_create_def dmac_key_def)
  have new: "(f, m) \<notin> dmac_key ` set es" using dmac_search_None [OF ord v] None by simp
  then have fresh: "\<And>e. e \<in> set es \<Longrightarrow> dmac_key e \<noteq> (f, m)" by (metis imageI)
  obtain es' where es': "edgx_dmac_insert es ?n = (0, es')" "set es' = insert ?n (set es)" "dk.ordered (map dmac_key es')"
    using dmac_insert_new [OF ord, of ?n] v new n(1) by auto
  have ok': "dmac_tree_ok es'" using es' ok n f p by (auto simp: dmac_tree_ok_def)
  have "stations es' = (stations es)((f, m) \<mapsto> p)"
  proof
    fix k
    have "stations es' k = Some q \<longleftrightarrow> ((stations es)((f, m) \<mapsto> p)) k = Some q" for q
      using stations_eq [OF es'(3)] stations_eq [OF ord] es'(2) n fresh by (cases "k = (f, m)") auto
    then show "stations es' k = ((stations es)((f, m) \<mapsto> p)) k" by (metis not_None_eq)
  qed
  moreover have "stations (mark_seen det f m es') = stations es'" by (simp add: stations_def mark_seen_ports)
  moreover have "seen_keys det (mark_seen det f m es') = insert (f, m) (seen_keys det es)"
    using seen_keys_mark [of f m es' det] es'(2) n(1) by (auto simp: seen_keys_def)
  ultimately show ?thesis
    using None es'(1) ok' n new by (simp add: dmac_seen_def Let_def mark_seen_ok dom_stations)
qed

section \<open>Reading the hardware table\<close>

text \<open>
  What the driver relies on: every transfer request makes the device present the next address in its
  registers, and the broadcast address after the last one.
\<close>

fun feeds :: "device \<Rightarrow> nat \<Rightarrow> (u16 \<times> u8 list \<times> nat) list \<Rightarrow> iomem \<Rightarrow> bool" where
  "feeds dev base [] io =
     (case wait_clear dev (dmac_busy base) (edgx_wr16 io base 0x200 0x8000) of
        None \<Rightarrow> False
      | Some io' \<Rightarrow> mac_bytes (edgx_rd16 io' base 0x202) (edgx_rd16 io' base 0x204) (edgx_rd16 io' base 0x206) = replicate 6 0xFF)"
| "feeds dev base ((f, m, p) # rs) io =
     (case wait_clear dev (dmac_busy base) (edgx_wr16 io base 0x200 0x8000) of
        None \<Rightarrow> False
      | Some io' \<Rightarrow>
          mac_bytes (edgx_rd16 io' base 0x202) (edgx_rd16 io' base 0x204) (edgx_rd16 io' base 0x206) = m
          \<and> m \<noteq> replicate 6 0xFF \<and> edgx_rd16 io' base 0x208 = f \<and> f < 4096
          \<and> unat (edgx_rd16 io' base 0x200 AND 0xf) = p \<and> feeds dev base rs io')"

text \<open>The stations that are known after a list of readings: the first port of a station stays.\<close>

fun learn :: "(u16 \<times> u8 list \<times> nat) list \<Rightarrow> (u16 \<times> u8 list \<rightharpoonup> nat) \<Rightarrow> (u16 \<times> u8 list \<rightharpoonup> nat)" where
  "learn [] s = s"
| "learn ((f, m, p) # rs) s = learn rs (if (f, m) \<in> dom s then s else s((f, m) \<mapsto> p))"

definition read_keys :: "(u16 \<times> u8 list \<times> nat) list \<Rightarrow> (u16 \<times> u8 list) set" where
  "read_keys rs = (\<lambda>(f, m, p). (f, m)) ` set rs"

lemma length_mac_bytes: "length (mac_bytes a b c) = 6"
  by (simp add: mac_bytes_def)

lemma and_0xf_less: "unat (x AND 0xf :: u16) < 16"
proof -
  have "x AND 0xf \<le> 0xf" by (rule word_and_le1)
  then show ?thesis by (simp add: word_le_nat_alt)
qed

lemma dmac_read_all_feeds:
  assumes "feeds dev (dm_iobase d) rs io" "dmac_tree_ok (root d)"
  shows "\<exists>es io'. dmac_read_all dev d io = Some (d\<lparr>root := es\<rparr>, io') \<and> dmac_tree_ok es
     \<and> stations es = learn rs (stations (root d))
     \<and> seen_keys (detector_state d) es = read_keys rs \<union> seen_keys (detector_state d) (root d)"
  using assms
proof (induction rs arbitrary: d io)
  case Nil
  then show ?case
    by (auto simp: dmac_read_all.simps [of dev d io] edgx_dmac_read_next_def read_keys_def Let_def split: option.split_asm
        intro: exI [of _ "root d"])
next
  case (Cons r rs)
  obtain f m p where r: "r = (f, m, p)" by (cases r)
  from Cons.prems(1) r obtain io1 where io1:
    "wait_clear dev (dmac_busy (dm_iobase d)) (edgx_wr16 io (dm_iobase d) 0x200 0x8000) = Some io1"
    "mac_bytes (edgx_rd16 io1 (dm_iobase d) 0x202) (edgx_rd16 io1 (dm_iobase d) 0x204) (edgx_rd16 io1 (dm_iobase d) 0x206) = m"
    "m \<noteq> replicate 6 0xFF" "edgx_rd16 io1 (dm_iobase d) 0x208 = f" "f < 4096"
    "unat (edgx_rd16 io1 (dm_iobase d) 0x200 AND 0xf) = p" "feeds dev (dm_iobase d) rs io1"
    by (auto split: option.split_asm)
  have "length m = 6" "p < EDGX_BR_MAX_PORTS" using io1(2,6) length_mac_bytes and_0xf_less by blast+
  from dmac_seen_effect [OF Cons.prems(2) this(1) io1(5) this(2), of "detector_state d"] obtain es1 where
    es1: "dmac_seen (detector_state d) f m p (root d) = (0, es1)" "dmac_tree_ok es1"
    "stations es1 = (if (f, m) \<in> dom (stations (root d)) then stations (root d) else (stations (root d))((f, m) \<mapsto> p))"
    "seen_keys (detector_state d) es1 = insert (f, m) (seen_keys (detector_state d) (root d))" by blast
  have next1: "edgx_dmac_read_next dev d io = Some (0, d\<lparr>root := es1\<rparr>, io1)"
    unfolding edgx_dmac_read_next_def Let_def io1(1) using io1(2-6) es1(1) by (simp add: io1(2))
  from Cons.IH [of "d\<lparr>root := es1\<rparr>" io1] io1(7) es1(2) obtain es io' where
    es: "dmac_read_all dev (d\<lparr>root := es1\<rparr>) io1 = Some (d\<lparr>root := es\<rparr>, io')" "dmac_tree_ok es"
    "stations es = learn rs (stations es1)"
    "seen_keys (detector_state d) es = read_keys rs \<union> seen_keys (detector_state d) es1" by auto
  have "dmac_read_all dev d io = Some (d\<lparr>root := es\<rparr>, io')"
    using es(1) by (simp add: dmac_read_all.simps [of dev d io] next1)
  then show ?case using es(2-4) es1(3,4) r
    by (intro exI [of _ es] exI [of _ io']) (simp add: read_keys_def)
qed

section \<open>Notifications\<close>

text \<open>The VLANs of a FID.\<close>

definition fid_vids :: "br_vlan \<Rightarrow> u16 \<Rightarrow> u16 list" where
  "fid_vids v f = (case edgx_br_vlan_get_fid v f of None \<Rightarrow> [] | Some i \<Rightarrow> map (\<lambda>j. vid (vids v ! j)) (vlanlist (fids v ! i)))"

definition port_exists :: "edgx_dmac \<Rightarrow> nat \<Rightarrow> bool" where
  "port_exists d p \<longleftrightarrow> dm_ports d ! p \<noteq> None"

text \<open>The messages about one entry, and whether it stays.\<close>

definition entry_notes :: "edgx_dmac \<Rightarrow> br_vlan \<Rightarrow> dmac_entry \<Rightarrow> fdb_notification list" where
  "entry_notes d v e =
     (if port_exists d (ptid e)
      then map ((if change_detector e = detector_state d then SWITCHDEV_FDB_ADD_TO_BRIDGE else SWITCHDEV_FDB_DEL_TO_BRIDGE)
                  (ptid e) (de_mac e)) (fid_vids v (de_fid e))
      else [])"

definition entry_stays :: "edgx_dmac \<Rightarrow> br_vlan \<Rightarrow> dmac_entry \<Rightarrow> bool" where
  "entry_stays d v e \<longleftrightarrow> fid_vids v (de_fid e) = [] \<or> change_detector e = detector_state d"

definition iters_ok :: "br_vlan \<Rightarrow> dmac_notify \<Rightarrow> bool" where
  "iters_ok v n \<longleftrightarrow> nt_fid n = DMAC_INV_FID \<or> (nt_fid_iter n, nt_vlan_iter n) = edgx_br_vlan_iter_fid_vlans v (nt_fid n)"

lemma fid_vlans_all:
  "\<forall>j \<in> set js. j < length (vids v) \<Longrightarrow> fid_vlans v (length js) js = Some (map (\<lambda>j. vid (vids v ! j)) js)"
  by (induction js) (auto simp: edgx_br_vlan_get_fid_vlan_def)

lemma vlanlist_in_range:
  assumes "vlan_wf v" "edgx_br_vlan_get_fid v f = Some i"
  shows "\<forall>j \<in> set (vlanlist (fids v ! i)). j < length (vids v)"
proof
  have i: "i < length (fids v)" using find_idx_SomeD [OF assms(2) [unfolded edgx_br_vlan_get_fid_def]] by simp
  fix j assume "j \<in> set (vlanlist (fids v ! i))"
  then show "j < length (vids v)"
    using linkedD(2) [of "map vl_fid (vids v)" "map vlanlist (fids v)" i j] assms(1) i
    by (simp add: vlan_wf_def links_ok_def)
qed

lemma update_fid_effect:
  assumes wf: "vlan_wf v" and n: "iters_ok v n" and f: "f \<noteq> DMAC_INV_FID"
    and u: "edgx_dmac_update_fid v n f = (ok, n')"
  shows "iters_ok v n' \<and> (ok \<longleftrightarrow> fid_vids v f \<noteq> [])
     \<and> (ok \<longrightarrow> fid_vlans v (length (nt_vlan_iter n')) (nt_vlan_iter n') = Some (fid_vids v f))"
proof -
  have it: "(nt_fid_iter n', nt_vlan_iter n') = edgx_br_vlan_iter_fid_vlans v f" "nt_fid n' = f"
    "ok \<longleftrightarrow> nt_fid_iter n' \<noteq> None \<and> nt_vlan_iter n' \<noteq> []"
    using u n f by (auto simp: edgx_dmac_update_fid_def iters_ok_def Let_def split: prod.splits if_splits)
  show ?thesis
  proof (cases "edgx_br_vlan_get_fid v f")
    case None
    with it show ?thesis by (simp add: edgx_br_vlan_iter_fid_vlans_def iters_ok_def fid_vids_def)
  next
    case (Some i)
    with it fid_vlans_all [OF vlanlist_in_range [OF wf Some]] show ?thesis
      by (simp add: edgx_br_vlan_iter_fid_vlans_def iters_ok_def fid_vids_def)
  qed
qed

lemma notify_fid_effect:
  assumes "fid_vlans v (length (nt_vlan_iter n)) (nt_vlan_iter n) = Some vs" "p < EDGX_BR_MAX_PORTS"
    "length (dm_ports d) = EDGX_BR_MAX_PORTS"
  shows "edgx_dmac_notify_fid d v n val p m = Some (if port_exists d p then map (val p m) vs else [])"
  using assms by (simp add: edgx_dmac_notify_fid_def edgx_br_get_brpt_def port_exists_def)

lemma notify_from_effect:
  assumes wf: "vlan_wf v" and d: "length (dm_ports d) = EDGX_BR_MAX_PORTS"
    and es: "\<forall>e \<in> set es. de_fid e < 4096 \<and> ptid e < EDGX_BR_MAX_PORTS \<and> ptid_new e = ptid e" and n: "iters_ok v n"
  shows "notify_from d v n es = Some (filter (entry_stays d v) es, concat (map (entry_notes d v) es))"
  using es n
proof (induction es arbitrary: n)
  case (Cons e es)
  obtain ok n' where u: "edgx_dmac_update_fid v n (de_fid e) = (ok, n')" by (meson surj_pair)
  have "de_fid e \<noteq> DMAC_INV_FID" using Cons.prems(1) by auto
  note e = update_fid_effect [OF wf Cons.prems(2) this u]
  have p: "ptid e < EDGX_BR_MAX_PORTS" "e\<lparr>ptid := ptid_new e\<rparr> = e" "ptid_new e = ptid e" using Cons.prems(1) by simp_all
  have IH: "notify_from d v n' es = Some (filter (entry_stays d v) es, concat (map (entry_notes d v) es))"
    using Cons.IH [of n'] Cons.prems(1) e by simp
  show ?case
  proof (cases ok)
    case False
    with e u IH show ?thesis by (simp add: entry_stays_def [of d v e] entry_notes_def [of d v e])
  next
    case True
    with e have vs: "fid_vlans v (length (nt_vlan_iter n')) (nt_vlan_iter n') = Some (fid_vids v (de_fid e))" "fid_vids v (de_fid e) \<noteq> []" by simp_all
    show ?thesis
      using True u IH vs p by (simp add: notify_fid_effect [OF vs(1) p(1) d] Let_def entry_stays_def [of d v e] entry_notes_def [of d v e])
  qed
qed simp

section \<open>One round of the synchronisation\<close>

lemma learn_known: "k \<in> dom s \<Longrightarrow> learn rs s k = s k"
  by (induction rs s rule: learn.induct) auto

lemma dom_learn: "dom (learn rs s) = dom s \<union> read_keys rs"
  by (induction rs s rule: learn.induct) (auto simp: read_keys_def)

lemma filter_tree_ok: "dmac_tree_ok es \<Longrightarrow> dmac_tree_ok (filter P es)"
proof -
  assume ok: "dmac_tree_ok es"
  have "dk.ordered (map dmac_key es) \<Longrightarrow> dk.ordered (map dmac_key (filter P es))"
    by (induction es) (auto simp: dk.ordered_Cons dk.ordered_Nil)
  with ok show ?thesis by (auto simp: dmac_tree_ok_def)
qed

text \<open>The tree after the hardware table has been read: \<open>es\<close>, with the detector toggled.\<close>

definition synced :: "edgx_dmac \<Rightarrow> (u16 \<times> u8 list \<times> nat) list \<Rightarrow> dmac_entry list \<Rightarrow> bool" where
  "synced d rs es \<longleftrightarrow> dmac_tree_ok (root d) \<and> dmac_tree_ok es \<and> stations es = learn rs (stations (root d))
     \<and> seen_keys (\<not> detector_state d) es = read_keys rs \<union> seen_keys (\<not> detector_state d) (root d)"

abbreviation toggled :: "edgx_dmac \<Rightarrow> edgx_dmac" where
  "toggled d \<equiv> d\<lparr>detector_state := \<not> detector_state d\<rparr>"

lemma sync_work_effect:
  assumes ok: "dmac_tree_ok (root d)" and pts: "length (dm_ports d) = EDGX_BR_MAX_PORTS" and wf: "vlan_wf v"
    and feed: "feeds dev (dm_iobase d) rs io"
  obtains es io' where
    "edgx_dmac_sync_work dev d v io = Some ((toggled d)\<lparr>root := filter (entry_stays (toggled d) v) es, work_sync := Some DMAC_SYNC_DELAY_MS\<rparr>,
       concat (map (entry_notes (toggled d) v) es), io')" "synced d rs es"
proof -
  define d1 where "d1 = toggled d"
  have "feeds dev (dm_iobase d1) rs io" "dmac_tree_ok (root d1)" using feed ok by (simp_all add: d1_def)
  from dmac_read_all_feeds [OF this] obtain es io' where
    r: "dmac_read_all dev d1 io = Some (d1\<lparr>root := es\<rparr>, io')" "dmac_tree_ok es" "stations es = learn rs (stations (root d1))"
    "seen_keys (detector_state d1) es = read_keys rs \<union> seen_keys (detector_state d1) (root d1)" by blast
  have eq: "entry_stays (d1\<lparr>root := es\<rparr>) v = entry_stays d1 v" "entry_notes (d1\<lparr>root := es\<rparr>) v = entry_notes d1 v"
    by (simp_all add: fun_eq_iff entry_stays_def entry_notes_def port_exists_def)
  have "notify_from (d1\<lparr>root := es\<rparr>) v edgx_dmac_init_notify es = Some (filter (entry_stays d1 v) es, concat (map (entry_notes d1 v) es))"
    unfolding eq [symmetric]
    by (rule notify_from_effect [OF wf])
      (use pts r(2) in \<open>simp_all add: d1_def dmac_tree_ok_def iters_ok_def edgx_dmac_init_notify_def\<close>)
  then have "edgx_dmac_sync_work dev d v io = Some (d1\<lparr>root := filter (entry_stays d1 v) es, work_sync := Some DMAC_SYNC_DELAY_MS\<rparr>,
       concat (map (entry_notes d1 v) es), io')"
    using r(1) by (simp add: edgx_dmac_sync_work_def edgx_dmac_call_notifiers_def d1_def)
  moreover have "synced d rs es" using ok r(2-4) by (simp add: synced_def d1_def)
  ultimately show thesis using that by (simp add: d1_def)
qed

text \<open>A key is seen exactly when its entry carries the detector's value.\<close>

lemma image_filter_Int: "(\<And>e. e \<in> S \<Longrightarrow> key e \<in> D \<longleftrightarrow> P e) \<Longrightarrow> key ` {e \<in> S. P e} = key ` S \<inter> D"
  by blast

lemma seen_keys_iff:
  assumes "dk.ordered (map dmac_key es)" "e \<in> set es"
  shows "dmac_key e \<in> seen_keys det es \<longleftrightarrow> change_detector e = det"
  using dmac_key_inj [OF assms(1)] assms(2) by (auto simp: seen_keys_def)

lemma synced_ordered:
  assumes "synced d rs es"
  shows "dk.ordered (map dmac_key es)" "dk.ordered (map dmac_key (filter P es))" "dk.ordered (map dmac_key (root d))"
  using assms filter_tree_ok [of es P] by (simp_all add: synced_def dmac_tree_ok_def)

lemma synced_dom: "synced d rs es \<Longrightarrow> dmac_key ` set es = dom (stations (root d)) \<union> read_keys rs"
  using dom_stations [of es] dom_learn by (metis synced_def)

lemma synced_port:
  assumes "synced d rs es" "e \<in> set es" "dmac_key e \<in> dom (stations (root d))"
  shows "stations (root d) (dmac_key e) = Some (ptid e)"
  using stations_eq [OF synced_ordered(1) [OF assms(1)], of "dmac_key e" "ptid e"] learn_known [OF assms(3)] assms(1,2)
  by (auto simp: synced_def)

text \<open>The stations that survive a round.\<close>

definition survivors :: "edgx_dmac \<Rightarrow> br_vlan \<Rightarrow> (u16 \<times> u8 list \<times> nat) list \<Rightarrow> (u16 \<times> u8 list) set" where
  "survivors d v rs = read_keys rs \<union>
     {k \<in> dom (stations (root d)). fid_vids v (fst k) = [] \<or> k \<notin> seen_keys (detector_state d) (root d)}"

lemma synced_stays:
  assumes s: "synced d rs es" and e: "e \<in> set es"
  shows "entry_stays (toggled d) v e \<longleftrightarrow> dmac_key e \<in> survivors d v rs"
proof -
  have old: "k \<in> seen_keys (\<not> detector_state d) (root d) \<longleftrightarrow> k \<in> dom (stations (root d)) \<and> k \<notin> seen_keys (detector_state d) (root d)" for k
    using seen_keys_iff [OF synced_ordered(3) [OF s]] by (auto simp: dom_stations seen_keys_def)
  have "dmac_key e \<in> dom (stations (root d)) \<union> read_keys rs" using synced_dom [OF s] e by blast
  then show ?thesis
    using seen_keys_iff [OF synced_ordered(1) [OF s] e, of "\<not> detector_state d"] s old [of "dmac_key e"]
    by (auto simp: synced_def survivors_def entry_stays_def dmac_key_def)
qed

lemma synced_survivors:
  assumes s: "synced d rs es"
  shows "dom (stations (filter (entry_stays (toggled d) v) es)) = survivors d v rs"
proof -
  have "dmac_key ` {e \<in> set es. entry_stays (toggled d) v e} = dmac_key ` set es \<inter> survivors d v rs"
    by (rule image_filter_Int) (simp add: synced_stays [OF s])
  then have "dmac_key ` set (filter (entry_stays (toggled d) v) es) = dmac_key ` set es \<inter> survivors d v rs" by simp
  then show ?thesis unfolding dom_stations [of "filter _ es"] synced_dom [OF s] by (auto simp: survivors_def)
qed

lemma synced_stations:
  assumes s: "synced d rs es"
  shows "stations (filter (entry_stays (toggled d) v) es) = learn rs (stations (root d)) |` survivors d v rs"
proof
  fix k
  let ?es' = "filter (entry_stays (toggled d) v) es"
  show "stations ?es' k = (learn rs (stations (root d)) |` survivors d v rs) k"
  proof (cases "stations ?es' k")
    case (Some p)
    then have "stations es k = Some p" using stations_eq [OF synced_ordered(1) [OF s]] stations_eq [OF synced_ordered(2) [OF s]] by auto
    moreover have "k \<in> survivors d v rs" using Some synced_survivors [OF s] by blast
    ultimately show ?thesis using Some s by (simp add: synced_def)
  next
    case None
    then have "k \<notin> survivors d v rs" using synced_survivors [OF s, of v] by blast
    with None show ?thesis by simp
  qed
qed

lemma synced_gone:
  assumes s: "synced d rs es"
  shows "(\<exists>e \<in> set es. dmac_key e = k \<and> ptid e = p \<and> \<not> entry_stays (toggled d) v e)
      \<longleftrightarrow> stations (root d) k = Some p \<and> k \<notin> survivors d v rs"
proof
  assume "\<exists>e \<in> set es. dmac_key e = k \<and> ptid e = p \<and> \<not> entry_stays (toggled d) v e"
  then obtain e where e: "e \<in> set es" "dmac_key e = k" "ptid e = p" "\<not> entry_stays (toggled d) v e" by blast
  then have "k \<notin> survivors d v rs" using synced_stays [OF s e(1)] by simp
  moreover then have "k \<in> dom (stations (root d))" using synced_dom [OF s] e(1,2) by (auto simp: survivors_def)
  ultimately show "stations (root d) k = Some p \<and> k \<notin> survivors d v rs" using synced_port [OF s e(1)] e by simp
next
  assume a: "stations (root d) k = Some p \<and> k \<notin> survivors d v rs"
  then have "k \<in> dmac_key ` set es" unfolding synced_dom [OF s] by blast
  then obtain e where e: "e \<in> set es" "dmac_key e = k" by force
  moreover have "ptid e = p" using synced_port [OF s e(1)] a e(2) by auto
  ultimately show "\<exists>e \<in> set es. dmac_key e = k \<and> ptid e = p \<and> \<not> entry_stays (toggled d) v e"
    using synced_stays [OF s e(1)] a by auto
qed

lemma entry_notes_mem:
  "y \<in> set (entry_notes d v e) \<longleftrightarrow> (\<exists>x \<in> set (fid_vids v (de_fid e)). port_exists d (ptid e) \<and>
     y = (if entry_stays d v e then SWITCHDEV_FDB_ADD_TO_BRIDGE (ptid e) (de_mac e) x
          else SWITCHDEV_FDB_DEL_TO_BRIDGE (ptid e) (de_mac e) x))"
proof (cases "fid_vids v (de_fid e)")
  case (Cons x xs)
  then have "entry_stays d v e \<longleftrightarrow> change_detector e = detector_state d" by (simp add: entry_stays_def)
  then show ?thesis by (auto simp: entry_notes_def)
qed (simp add: entry_notes_def)

lemma ex_if_split:
  "(\<exists>e \<in> S. \<exists>x \<in> V e. P e \<and> y = (if Q e then F e x else G e x))
     \<longleftrightarrow> (\<exists>e \<in> S. Q e \<and> (\<exists>x \<in> V e. P e \<and> y = F e x)) \<or> (\<exists>e \<in> S. \<not> Q e \<and> (\<exists>x \<in> V e. P e \<and> y = G e x))"
  by (auto split: if_splits)

lemma synced_messages:
  assumes s: "synced d rs es"
  shows "set (concat (map (entry_notes (toggled d) v) es)) =
      {SWITCHDEV_FDB_ADD_TO_BRIDGE p m x | p m x f. (learn rs (stations (root d)) |` survivors d v rs) (f, m) = Some p
           \<and> x \<in> set (fid_vids v f) \<and> port_exists d p}
      \<union> {SWITCHDEV_FDB_DEL_TO_BRIDGE p m x | p m x f. stations (root d) (f, m) = Some p \<and> (f, m) \<notin> survivors d v rs
           \<and> x \<in> set (fid_vids v f) \<and> port_exists d p}" (is "?L = ?A \<union> ?B")
proof -
  have px: "port_exists (toggled d) p = port_exists d p" for p by (simp add: port_exists_def)
  have added: "(\<exists>e \<in> set es. dmac_key e = k \<and> ptid e = p \<and> entry_stays (toggled d) v e)
      \<longleftrightarrow> (learn rs (stations (root d)) |` survivors d v rs) k = Some p" for k p
    unfolding synced_stations [OF s, symmetric] stations_eq [OF synced_ordered(2) [OF s]] by auto
  have A: "y \<in> ?A \<longleftrightarrow> (\<exists>e \<in> set es. entry_stays (toggled d) v e \<and> (\<exists>x \<in> set (fid_vids v (de_fid e)). port_exists d (ptid e)
      \<and> y = SWITCHDEV_FDB_ADD_TO_BRIDGE (ptid e) (de_mac e) x))" (is "_ \<longleftrightarrow> ?R") for y
  proof -
    have "y \<in> ?A \<longleftrightarrow> (\<exists>p m x f. y = SWITCHDEV_FDB_ADD_TO_BRIDGE p m x \<and> (\<exists>e \<in> set es. dmac_key e = (f, m) \<and> ptid e = p \<and> entry_stays (toggled d) v e)
        \<and> x \<in> set (fid_vids v f) \<and> port_exists d p)" unfolding added by blast
    also have "\<dots> \<longleftrightarrow> ?R" unfolding dmac_key_def prod.inject by blast
    finally show ?thesis .
  qed
  have B: "y \<in> ?B \<longleftrightarrow> (\<exists>e \<in> set es. \<not> entry_stays (toggled d) v e \<and> (\<exists>x \<in> set (fid_vids v (de_fid e)). port_exists d (ptid e)
      \<and> y = SWITCHDEV_FDB_DEL_TO_BRIDGE (ptid e) (de_mac e) x))" (is "_ \<longleftrightarrow> ?R") for y
  proof -
    have "y \<in> ?B \<longleftrightarrow> (\<exists>p m x f. y = SWITCHDEV_FDB_DEL_TO_BRIDGE p m x \<and> (\<exists>e \<in> set es. dmac_key e = (f, m) \<and> ptid e = p \<and> \<not> entry_stays (toggled d) v e)
        \<and> x \<in> set (fid_vids v f) \<and> port_exists d p)" unfolding synced_gone [OF s] by blast
    also have "\<dots> \<longleftrightarrow> ?R" unfolding dmac_key_def prod.inject by blast
    finally show ?thesis .
  qed
  have "y \<in> ?L \<longleftrightarrow> (\<exists>e \<in> set es. y \<in> set (entry_notes (toggled d) v e))" for y by auto
  then have "y \<in> ?L \<longleftrightarrow> y \<in> ?A \<or> y \<in> ?B" for y
    unfolding A B entry_notes_mem px by (simp only: ex_if_split)
  then show ?thesis by blast
qed

text \<open>
  Property C15. One round of the synchronisation with a hardware table that holds the stations \<open>rs\<close>:
  the round returns, and afterwards the ordered tree holds every station of the table, and of the old
  ones those that were not fresh in the last round or whose FID has no VLAN. A station keeps
  the port it was first learned on. The messages to the Linux bridge are exactly an addition for
  every station in the tree and every VLAN of its FID, and a deletion for every station that left.
\<close>

theorem sync_round_outcome:
  assumes "dmac_tree_ok (root d)" "length (dm_ports d) = EDGX_BR_MAX_PORTS" "vlan_wf v" "feeds dev (dm_iobase d) rs io"
  shows "\<exists>d' ns io'. edgx_dmac_sync_work dev d v io = Some (d', ns, io') \<and> dmac_tree_ok (root d')
     \<and> detector_state d' = (\<not> detector_state d)
     \<and> dom (stations (root d')) = survivors d v rs
     \<and> stations (root d') = learn rs (stations (root d)) |` survivors d v rs
     \<and> set ns = {SWITCHDEV_FDB_ADD_TO_BRIDGE p m x | p m x f. stations (root d') (f, m) = Some p \<and> x \<in> set (fid_vids v f) \<and> port_exists d p}
         \<union> {SWITCHDEV_FDB_DEL_TO_BRIDGE p m x | p m x f. stations (root d) (f, m) = Some p \<and> (f, m) \<notin> dom (stations (root d'))
              \<and> x \<in> set (fid_vids v f) \<and> port_exists d p}"
proof -
  from sync_work_effect [OF assms] obtain es io' where
    w: "edgx_dmac_sync_work dev d v io = Some ((toggled d)\<lparr>root := filter (entry_stays (toggled d) v) es, work_sync := Some DMAC_SYNC_DELAY_MS\<rparr>,
       concat (map (entry_notes (toggled d) v) es), io')" and s: "synced d rs es" by blast
  have "dmac_tree_ok (filter (entry_stays (toggled d) v) es)" using s by (simp add: synced_def filter_tree_ok)
  with w show ?thesis
    using synced_messages [OF s, of v] synced_stations [OF s, of v] synced_survivors [OF s, of v] by simp
qed

text \<open>A device that presents one station and then the end of the table, and a bridge with one VLAN.\<close>

definition one_station :: device where
  "one_station io = (if io 0x202 = 0 then io(0x200 := 1, 0x202 := 1, 0x204 := 0, 0x206 := 0, 0x208 := 0)
                     else io(0x200 := 0, 0x202 := 0xFFFF, 0x204 := 0xFFFF, 0x206 := 0xFFFF))"

definition one_vlan :: br_vlan where
  "one_vlan = (brv two_vlans)\<lparr>nvlans := 1, vids := [\<lparr>vid = 5, vl_fid = Some 0, ptvec = 2\<rparr>, \<lparr>vid = 0, vl_fid = None, ptvec = 0\<rparr>],
     fids := [\<lparr>vlanlist = [0], fid = 0, fd_msti = Some 0\<rparr>, \<lparr>vlanlist = [], fid = 1, fd_msti = Some 0\<rparr>]\<rparr>"

definition empty_dmac :: edgx_dmac where
  "empty_dmac = edgx_dmac_init (replicate EDGX_BR_MAX_PORTS (Some \<lparr>pt_id = 0, pt_iobase = 0\<rparr>)) 0"

lemma one_vlan_wf: "vlan_wf one_vlan"
  by (auto simp: one_vlan_def two_vlans_def vlan_wf_def sizes_ok_def links_ok_def linked_def used_ok_def idle_cols_def used_cols_def
      vlans_used_def trees_ok_def less_Suc_eq nth_Cons split: nat.splits)

lemma one_station_feeds: "feeds one_station 0 [(0, [1, 0, 0, 0, 0, 0], 1)] (\<lambda>_. 0)"
proof -
  have six: "replicate 6 y = [y, y, y, y, y, y]" for y :: u8 by (simp add: numeral_eq_Suc)
  show ?thesis
    by (simp add: one_station_def wait_clear_ready dmac_busy_def edgx_rd16_def edgx_wr16_def mac_bytes_def six)
qed

lemma empty_dmac_ok:
  "dmac_tree_ok (root empty_dmac)" "length (dm_ports empty_dmac) = EDGX_BR_MAX_PORTS" "dm_iobase empty_dmac = 0"
  "stations (root empty_dmac) = Map.empty" "port_exists empty_dmac (Suc 0)"
  by (simp_all add: empty_dmac_def edgx_dmac_init_def dmac_tree_ok_def dk.ordered_Nil stations_def port_exists_def)

lemma one_vlan_vids: "fid_vids one_vlan f = (if f = 0 then [5] else [])"
  by (simp add: fid_vids_def one_vlan_def two_vlans_def edgx_br_vlan_get_fid_def)

theorem sync_round_outcome_witness:
  "\<exists>d' ns io'. edgx_dmac_sync_work one_station empty_dmac one_vlan (\<lambda>_. 0) = Some (d', ns, io')
     \<and> stations (root d') = [(0, [1, 0, 0, 0, 0, 0]) \<mapsto> 1] \<and> set ns = {SWITCHDEV_FDB_ADD_TO_BRIDGE 1 [1, 0, 0, 0, 0, 0] 5}"
proof -
  have f: "feeds one_station (dm_iobase empty_dmac) [(0, [1, 0, 0, 0, 0, 0], 1)] (\<lambda>_. 0)"
    using one_station_feeds by (simp add: empty_dmac_ok)
  show ?thesis
    using sync_round_outcome [OF empty_dmac_ok(1,2) one_vlan_wf f]
  proof (elim exE conjE, goal_cases)
    case (1 d' ns io')
    have st: "stations (root d') = [(0, [1, 0, 0, 0, 0, 0]) \<mapsto> 1]"
      unfolding 1(5) by (simp add: empty_dmac_ok survivors_def read_keys_def restrict_map_def fun_eq_iff)
    moreover have "set ns = {SWITCHDEV_FDB_ADD_TO_BRIDGE 1 [1, 0, 0, 0, 0, 0] 5}"
      unfolding 1(6) st by (auto simp: empty_dmac_ok one_vlan_vids split: if_splits)
    ultimately show ?case using 1(1) by blast
  qed
qed

text \<open>
  A station that left the network comes back: when its FID has no VLAN during one round,
  the round does not remove it, and the one-bit mark of the round after next cannot tell it from a
  station that was just read. If the FID has a VLAN again by then, the station is reported to the
  Linux bridge as learned although it is in neither of the two hardware tables.
\<close>

theorem stale_station_revived:
  assumes ok: "dmac_tree_ok (root d)" "length (dm_ports d) = EDGX_BR_MAX_PORTS"
    and st: "stations (root d) (f, m) = Some p" "(f, m) \<in> seen_keys (detector_state d) (root d)" "port_exists d p"
    and gone: "(f, m) \<notin> read_keys rs1" "(f, m) \<notin> read_keys rs2"
    and v1: "vlan_wf v1" "fid_vids v1 f = []" and r1: "feeds dev (dm_iobase d) rs1 io" "edgx_dmac_sync_work dev d v1 io = Some (d1, ns1, io1)"
    and v2: "vlan_wf v2" "x \<in> set (fid_vids v2 f)" and r2: "feeds dev (dm_iobase d) rs2 io2"
  shows "\<exists>d2 ns2 io3. edgx_dmac_sync_work dev d1 v2 io2 = Some (d2, ns2, io3)
     \<and> stations (root d2) (f, m) = Some p \<and> SWITCHDEV_FDB_ADD_TO_BRIDGE p m x \<in> set ns2"
proof -
  from sync_work_effect [OF ok v1(1) r1(1)] obtain es1 io' where
    w1: "edgx_dmac_sync_work dev d v1 io = Some ((toggled d)\<lparr>root := filter (entry_stays (toggled d) v1) es1, work_sync := Some DMAC_SYNC_DELAY_MS\<rparr>,
       concat (map (entry_notes (toggled d) v1) es1), io')" and s1: "synced d rs1 es1" by blast
  have d1: "d1 = (toggled d)\<lparr>root := filter (entry_stays (toggled d) v1) es1, work_sync := Some DMAC_SYNC_DELAY_MS\<rparr>"
    using trans [OF r1(2) [symmetric] w1] by (simp only: option.inject prod.inject)
  have k: "(f, m) \<in> survivors d v1 rs1" using st(1) v1(2) by (auto simp: survivors_def)
  have st1: "stations (root d1) (f, m) = Some p"
    using synced_stations [OF s1, of v1] k learn_known [of "(f, m)" "stations (root d)" rs1] st(1) by (auto simp: d1)
  from st(2) obtain e where e: "e \<in> set (root d)" "dmac_key e = (f, m)" "change_detector e = detector_state d"
    unfolding seen_keys_def by (metis (mono_tags, lifting) imageE mem_Collect_eq)
  then have "(f, m) \<notin> seen_keys (\<not> detector_state d) (root d)"
    using seen_keys_iff [OF synced_ordered(3) [OF s1] e(1), of "\<not> detector_state d"] by simp
  then have "(f, m) \<notin> seen_keys (\<not> detector_state d) es1" using s1 gone(1) by (simp add: synced_def)
  then have old: "(f, m) \<notin> seen_keys (detector_state d1) (root d1)" by (auto simp: d1 seen_keys_def)
  have ok1: "dmac_tree_ok (root d1)" "length (dm_ports d1) = EDGX_BR_MAX_PORTS" "dm_iobase d1 = dm_iobase d" "port_exists d1 p"
    using s1 ok(2) st(3) by (simp_all add: d1 synced_def filter_tree_ok port_exists_def)
  have f2: "feeds dev (dm_iobase d1) rs2 io2" using r2 ok1(3) by simp
  from sync_work_effect [OF ok1(1,2) v2(1) f2] obtain es2 io3 where
    w2: "edgx_dmac_sync_work dev d1 v2 io2 = Some ((toggled d1)\<lparr>root := filter (entry_stays (toggled d1) v2) es2, work_sync := Some DMAC_SYNC_DELAY_MS\<rparr>,
       concat (map (entry_notes (toggled d1) v2) es2), io3)" and s2: "synced d1 rs2 es2" by blast
  have k2: "(f, m) \<in> survivors d1 v2 rs2" using st1 old by (auto simp: survivors_def)
  then have st2: "(learn rs2 (stations (root d1)) |` survivors d1 v2 rs2) (f, m) = Some p"
    using learn_known [of "(f, m)" "stations (root d1)" rs2] st1 by auto
  then have "SWITCHDEV_FDB_ADD_TO_BRIDGE p m x \<in> set (concat (map (entry_notes (toggled d1) v2) es2))"
    unfolding synced_messages [OF s2] using v2(2) ok1(4) by blast
  with w2 st2 synced_stations [OF s2, of v2] show ?thesis by simp
qed

text \<open>An empty hardware table, and a tree with one fresh station.\<close>

definition no_station :: device where
  "no_station io = io(0x200 := 0, 0x202 := 0xFFFF, 0x204 := 0xFFFF, 0x206 := 0xFFFF)"

definition one_entry_dmac :: edgx_dmac where
  "one_entry_dmac = empty_dmac\<lparr>root := [\<lparr>change_detector = False, de_fid = 0, de_mac = [1, 0, 0, 0, 0, 0], ptid = 1, ptid_new = 1\<rparr>]\<rparr>"

lemma no_station_feeds: "feeds no_station base [] io" if "base = 0"
proof -
  have six: "replicate 6 y = [y, y, y, y, y, y]" for y :: u8 by (simp add: numeral_eq_Suc)
  show ?thesis
    by (simp add: that no_station_def wait_clear_ready dmac_busy_def edgx_rd16_def mac_bytes_def six)
qed

lemma one_entry_dmac_ok:
  "dmac_tree_ok (root one_entry_dmac)" "length (dm_ports one_entry_dmac) = EDGX_BR_MAX_PORTS" "dm_iobase one_entry_dmac = 0"
  "stations (root one_entry_dmac) (0, [1, 0, 0, 0, 0, 0]) = Some 1" "port_exists one_entry_dmac 1"
  "(0, [1, 0, 0, 0, 0, 0]) \<in> seen_keys (detector_state one_entry_dmac) (root one_entry_dmac)"
  by (simp_all add: one_entry_dmac_def empty_dmac_def edgx_dmac_init_def dmac_tree_ok_def dk.ordered_Cons dk.ordered_Nil
      stations_def port_exists_def seen_keys_def dmac_key_def dmac_key_valid_def image_def)

theorem stale_station_revived_witness:
  "\<exists>d1 ns1 io1 d2 ns2 io3. edgx_dmac_sync_work no_station one_entry_dmac (brv two_vlans) (\<lambda>_. 0) = Some (d1, ns1, io1)
     \<and> edgx_dmac_sync_work no_station d1 one_vlan io1 = Some (d2, ns2, io3)
     \<and> SWITCHDEV_FDB_ADD_TO_BRIDGE 1 [1, 0, 0, 0, 0, 0] 5 \<in> set ns2"
proof -
  let ?d = one_entry_dmac
  have f: "feeds no_station (dm_iobase ?d) [] io" for io by (rule no_station_feeds) (rule one_entry_dmac_ok)
  from sync_work_effect [OF one_entry_dmac_ok(1,2) two_vlans_wf f] obtain d1 ns1 io1 where
    r: "edgx_dmac_sync_work no_station ?d (brv two_vlans) (\<lambda>_. 0) = Some (d1, ns1, io1)" by metis
  have e: "fid_vids (brv two_vlans) 0 = []"
    by (simp add: fid_vids_def two_vlans_def edgx_br_vlan_get_fid_def)
  have k: "(0, [1, 0, 0, 0, 0, 0]) \<notin> read_keys []" by (simp add: read_keys_def)
  have x: "5 \<in> set (fid_vids one_vlan 0)" by (simp add: one_vlan_vids)
  from stale_station_revived [OF one_entry_dmac_ok(1,2,4,6,5) k k two_vlans_wf e f r one_vlan_wf x f] r show ?thesis by blast
qed

end
