(* ===== verification/Stat.thy ===== *)
theory Stat
  imports LinkDelay
begin

text \<open>
  The statistics manager (\<open>edge_stat.c\<close>): 64-bit counters in memory that accumulate the 32-bit
  counters of the switch, which count from the last time they were latched.

  The lock of a handle is a parameter: an update that finds it taken leaves the work to the other
  side. Registering the manager and freeing a handle are not modelled.
\<close>

unbundle bit_operations_syntax

record edgx_statinfo =
  feat_id :: int
  rate_ms :: u32
  nwords :: nat

record edgx_stat_hdl =
  pts_base :: nat
  st_info :: edgx_statinfo
  st_ptid :: nat
  st_data :: "u64 list"
  st_update :: "u32 option"

abbreviation (input) EDGX_STAT_FEAT_MIN :: int where "EDGX_STAT_FEAT_MIN \<equiv> 8"
abbreviation (input) EDGX_STAT_FEAT_MAX :: int where "EDGX_STAT_FEAT_MAX \<equiv> 13"
abbreviation (input) EDGX_STAT_FEAT_PREEMPT :: int where "EDGX_STAT_FEAT_PREEMPT \<equiv> 10"
abbreviation (input) STAT_SEL_MASK :: u16 where "STAT_SEL_MASK \<equiv> 0x1F00"
abbreviation (input) STAT_CMD_REG :: nat where "STAT_CMD_REG \<equiv> 0x2"
abbreviation (input) STAT_CNT_LO :: nat where "STAT_CNT_LO \<equiv> 0x8"
abbreviation (input) STAT_CMD_READ :: u16 where "STAT_CMD_READ \<equiv> 0x8000"
abbreviation (input) PT_EP_ID :: int where "PT_EP_ID \<equiv> - 1"

definition edgx_stat_feat_offset :: "nat list" where
  "edgx_stat_feat_offset = [0, 44, 28, 36, 48]"

definition stat_busy :: "u16 \<Rightarrow> nat \<Rightarrow> iomem \<Rightarrow> bool" where
  "stat_busy ub base io \<longleftrightarrow> edgx_get16 ub io base STAT_CMD_REG 15 15 \<noteq> 0"

text \<open>The loop over the counters: the delta of counter \<open>cnt_base + i\<close> is added to word \<open>i\<close>.\<close>

fun stat_words :: "device \<Rightarrow> u16 \<Rightarrow> nat \<Rightarrow> nat \<Rightarrow> nat list \<Rightarrow> u64 list \<Rightarrow> iomem \<Rightarrow> (u64 list \<times> iomem) option" where
  "stat_words dev ub base cnt_base [] data io = Some (data, io)"
| "stat_words dev ub base cnt_base (i # is) data io = do {
     let io = edgx_wr16 io base STAT_CMD_REG (of_nat (cnt_base + i) OR STAT_CMD_READ);
     io \<leftarrow> wait_clear dev (stat_busy ub base) io;
     w \<leftarrow> nth_opt data i;
     stat_words dev ub base cnt_base is (data[i := w + ucast (edgx_rd32 io base STAT_CNT_LO)]) io
   }"

text \<open>
  The update: \<open>locked\<close> tells that another update is in progress, which the code leaves alone. The
  counters of the feature are latched first. A feature below the table is read in front of it, which
  is undefined.
\<close>

definition stat_do_update ::
  "device \<Rightarrow> u16 \<Rightarrow> bool \<Rightarrow> edgx_stat_hdl \<Rightarrow> iomem \<Rightarrow> (int \<times> edgx_stat_hdl \<times> iomem) option" where
  "stat_do_update dev ub locked sh io =
     (if locked then Some (0, sh, io)
      else if feat_id (st_info sh) < EDGX_STAT_FEAT_MIN then None
      else do {
        let feat = nat (feat_id (st_info sh));
        let io = dev (edgx_wr16 io (pts_base sh) 0 ((NOT (BIT feat) AND STAT_SEL_MASK) OR 1));
        cnt_base \<leftarrow> nth_opt edgx_stat_feat_offset (feat - 8);
        (data, io) \<leftarrow> stat_words dev ub (pts_base sh) cnt_base [0..<nwords (st_info sh)] (st_data sh) io;
        Some (0, sh\<lparr>st_data := data\<rparr>, io)
      })"

definition edgx_stat_update ::
  "device \<Rightarrow> u16 \<Rightarrow> bool \<Rightarrow> edgx_stat_hdl option \<Rightarrow> iomem \<Rightarrow> (int \<times> edgx_stat_hdl option \<times> iomem) option" where
  "edgx_stat_update dev ub locked sh io =
     (case sh of None \<Rightarrow> Some (- EINVAL, None, io)
      | Some sh \<Rightarrow> do {
          (r, sh, io) \<leftarrow> stat_do_update dev ub locked sh io;
          Some (r, Some (if st_update sh \<noteq> None then sh\<lparr>st_update := Some (rate_ms (st_info sh))\<rparr> else sh), io)
        })"

text \<open>The worker runs when the delayed work has expired.\<close>

definition edgx_stat_update_worker ::
  "device \<Rightarrow> u16 \<Rightarrow> bool \<Rightarrow> edgx_stat_hdl \<Rightarrow> iomem \<Rightarrow> (edgx_stat_hdl \<times> iomem) option" where
  "edgx_stat_update_worker dev ub locked sh io = do {
     (r, sh, io) \<leftarrow> stat_do_update dev ub locked sh io;
     Some (sh\<lparr>st_update := Some (rate_ms (st_info sh))\<rparr>, io)
   }"

text \<open>The bounds check lets the index \<open>nwords\<close> pass, one behind the array.\<close>

definition edgx_stat_get :: "edgx_stat_hdl option \<Rightarrow> nat \<Rightarrow> u64 option" where
  "edgx_stat_get sh idx =
     (case sh of None \<Rightarrow> Some 0
      | Some sh \<Rightarrow> if idx > nwords (st_info sh) then Some 0 else nth_opt (st_data sh) idx)"

definition edgx_stat_upget ::
  "device \<Rightarrow> u16 \<Rightarrow> bool \<Rightarrow> edgx_stat_hdl option \<Rightarrow> nat \<Rightarrow> iomem \<Rightarrow> (u64 \<times> edgx_stat_hdl option \<times> iomem) option" where
  "edgx_stat_upget dev ub locked sh idx io = do {
     (r, sh, io) \<leftarrow> edgx_stat_update dev ub locked sh io;
     w \<leftarrow> edgx_stat_get sh idx;
     Some (w, sh, io)
   }"

definition edgx_stat_alloc_hdl :: "(int \<Rightarrow> nat) option \<Rightarrow> int \<Rightarrow> edgx_statinfo option \<Rightarrow> edgx_stat_hdl option" where
  "edgx_stat_alloc_hdl sm ptid info =
     (case (sm, info) of
        (Some ptstat, Some info) \<Rightarrow>
          if ptid \<le> PT_EP_ID then None
          else if feat_id info \<ge> EDGX_STAT_FEAT_MAX \<or> feat_id info < 0 then None
          else Some \<lparr>pts_base = ptstat ptid, st_info = info, st_ptid = nat ptid,
                     st_data = replicate (nwords info) 0, st_update = Some (rate_ms info)\<rparr>
      | _ \<Rightarrow> None)"

section \<open>What an update counts\<close>

text \<open>
  What the driver relies on: a read command on a latched counter ends and presents the delta.
\<close>

fun counts :: "device \<Rightarrow> u16 \<Rightarrow> nat \<Rightarrow> nat list \<Rightarrow> u32 list \<Rightarrow> iomem \<Rightarrow> bool" where
  "counts dev ub base [] [] io = True"
| "counts dev ub base (c # cs) (d # ds) io =
     (case wait_clear dev (stat_busy ub base) (edgx_wr16 io base STAT_CMD_REG (of_nat c OR STAT_CMD_READ)) of
        None \<Rightarrow> False | Some io' \<Rightarrow> edgx_rd32 io' base STAT_CNT_LO = d \<and> counts dev ub base cs ds io')"
| "counts dev ub base _ _ io = False"

lemma stat_words_counts:
  assumes "counts dev ub base (map ((+) cnt_base) is) ds io" "\<forall>i \<in> set is. i < length data" "distinct is"
  shows "\<exists>data' io'. stat_words dev ub base cnt_base is data io = Some (data', io') \<and> length data' = length data
     \<and> (\<forall>k < length is. data' ! (is ! k) = data ! (is ! k) + ucast (ds ! k))
     \<and> (\<forall>j < length data. j \<notin> set is \<longrightarrow> data' ! j = data ! j)"
  using assms
proof (induction "is" arbitrary: ds data io)
  case Nil
  then show ?case by simp
next
  case (Cons i "is")
  from Cons.prems(1) obtain d ds' where ds: "ds = d # ds'" by (cases ds) auto
  from Cons.prems(1) ds obtain io1 where
    io1: "wait_clear dev (stat_busy ub base) (edgx_wr16 io base STAT_CMD_REG (of_nat (cnt_base + i) OR STAT_CMD_READ)) = Some io1"
      "edgx_rd32 io1 base STAT_CNT_LO = d" "counts dev ub base (map ((+) cnt_base) is) ds' io1"
    by (auto split: option.splits)
  have i: "i < length data" "i \<notin> set is" using Cons.prems by auto
  let ?data = "data[i := data ! i + ucast d]"
  from Cons.IH [OF io1(3), of ?data] Cons.prems(2,3) obtain data' io' where
    w: "stat_words dev ub base cnt_base is ?data io1 = Some (data', io')" "length data' = length data"
      "\<forall>k < length is. data' ! (is ! k) = ?data ! (is ! k) + ucast (ds' ! k)"
      "\<forall>j < length data. j \<notin> set is \<longrightarrow> data' ! j = ?data ! j" by auto
  have "stat_words dev ub base cnt_base (i # is) data io = Some (data', io')"
    using w(1) io1(1,2) i(1) by simp
  moreover have "data' ! ((i # is) ! k) = data ! ((i # is) ! k) + ucast (ds ! k)" if "k < length (i # is)" for k
  proof (cases k)
    case 0
    with w(4) i show ?thesis by (simp add: ds)
  next
    case (Suc m)
    then have "is ! m \<noteq> i" "m < length is" using i(2) that by auto
    with w(3) Suc show ?thesis by (simp add: ds)
  qed
  moreover have "data' ! j = data ! j" if "j < length data" "j \<notin> set (i # is)" for j using w(4) that by simp
  ultimately show ?case using w(2) by blast
qed

text \<open>The latch command of a handle.\<close>

definition latched :: "device \<Rightarrow> edgx_stat_hdl \<Rightarrow> iomem \<Rightarrow> iomem" where
  "latched dev sh io = dev (edgx_wr16 io (pts_base sh) 0 ((NOT (BIT (nat (feat_id (st_info sh)))) AND STAT_SEL_MASK) OR 1))"

definition counter_numbers :: "edgx_statinfo \<Rightarrow> nat list" where
  "counter_numbers info = map ((+) (edgx_stat_feat_offset ! (nat (feat_id info) - 8))) [0..<nwords info]"

text \<open>
  Property C40. Reading a counter first fetches the deltas of all counters of the feature: the result
  is the accumulated value plus the delta that the switch latched, every other word grows by its own
  delta, and the pending worker is deferred. Reading the word number \<open>nwords\<close> passes the bounds
  check and leaves the array.
\<close>

theorem stat_upget_outcome:
  assumes len: "length (st_data sh) = nwords (st_info sh)" and idx: "idx < nwords (st_info sh)"
    and f: "EDGX_STAT_FEAT_MIN \<le> feat_id (st_info sh)" "feat_id (st_info sh) < EDGX_STAT_FEAT_MAX"
    and c: "counts dev ub (pts_base sh) (counter_numbers (st_info sh)) ds (latched dev sh io)"
  shows "\<exists>sh' io'. edgx_stat_upget dev ub False (Some sh) idx io = Some (st_data sh ! idx + ucast (ds ! idx), Some sh', io')
     \<and> length (st_data sh') = length (st_data sh)
     \<and> (\<forall>k < length (st_data sh). st_data sh' ! k = st_data sh ! k + ucast (ds ! k))
     \<and> st_update sh' = (if st_update sh = None then None else Some (rate_ms (st_info sh)))
     \<and> edgx_stat_get (Some sh') (nwords (st_info sh)) = None"
proof -
  let ?b = "edgx_stat_feat_offset ! (nat (feat_id (st_info sh)) - 8)"
  have "nat (feat_id (st_info sh)) - 8 < 5" using f by auto
  then have b: "nth_opt edgx_stat_feat_offset (nat (feat_id (st_info sh)) - 8) = Some ?b"
    by (simp add: edgx_stat_feat_offset_def del: nth_Cons_numeral)
  have "\<forall>i \<in> set [0..<nwords (st_info sh)]. i < length (st_data sh)" "distinct [0..<nwords (st_info sh)]"
    using len by simp_all
  from stat_words_counts [OF c [unfolded counter_numbers_def] this] obtain data io' where
    w: "stat_words dev ub (pts_base sh) ?b [0..<nwords (st_info sh)] (st_data sh) (latched dev sh io) = Some (data, io')"
    "length data = length (st_data sh)" "\<forall>k < nwords (st_info sh). data ! k = st_data sh ! k + ucast (ds ! k)" by auto
  have "stat_do_update dev ub False sh io = Some (0, sh\<lparr>st_data := data\<rparr>, io')"
    using f(1) b w(1) unfolding latched_def by (simp add: stat_do_update_def Let_def)
  then have "edgx_stat_update dev ub False (Some sh) io
      = Some (0, Some (sh\<lparr>st_data := data, st_update := if st_update sh = None then None else Some (rate_ms (st_info sh))\<rparr>), io')"
    by (simp add: edgx_stat_update_def)
  moreover have "nth_opt data idx = Some (st_data sh ! idx + ucast (ds ! idx))" using w idx len by simp
  ultimately show ?thesis
    using w(2,3) len idx by (simp add: edgx_stat_upget_def edgx_stat_get_def) (simp add: nth_opt_def)
qed

text \<open>A device whose counters always present 5.\<close>

theorem stat_upget_outcome_witness:
  defines "dev \<equiv> \<lambda>io :: iomem. io(2 := 0, 8 := 5, 10 := 0)"
    and "sh \<equiv> \<lparr>pts_base = 0, st_info = \<lparr>feat_id = 10, rate_ms = 200000, nwords = 1\<rparr>, st_ptid = 1, st_data = [7], st_update = None\<rparr>"
  shows "\<exists>sh' io'. edgx_stat_upget dev 0 False (Some sh) 0 (\<lambda>_. 0) = Some (12, Some sh', io') \<and> st_data sh' ! 0 = 12"
proof -
  have "counts dev 0 (pts_base sh) (counter_numbers (st_info sh)) [5] (latched dev sh (\<lambda>_. 0))"
    by (simp add: dev_def sh_def counter_numbers_def edgx_stat_feat_offset_def latched_def wait_clear_ready stat_busy_def
        edgx_get16_def edgx_rd16_def edgx_rd32_def)
  from stat_upget_outcome [OF _ _ _ _ this, of 0] show ?thesis by (simp add: sh_def) blast
qed

end
