(* ===== verification/Preempt.thy ===== *)
theory Preempt
  imports Stat
begin

text \<open>
  Frame preemption of a port (\<open>edge_preempt.c\<close>): the sysfs attributes, the verification of the link
  partner with its timer, and the register that tells which queues are preemptible.

  The counter of the verification attempts is a static variable of the module, shared by all ports:
  it is a component of the state of its own. The timer is inactive or has a period in nanoseconds.
  The frames that the port sends are listed by their flags; their allocation succeeds. Parsed
  attribute values are parameters, \<open>None\<close> when the text does not parse. Not modelled: attributes that
  only print a constant, and the registration of the attributes.
\<close>

unbundle bit_operations_syntax

section \<open>State\<close>

datatype verif_status = VERIF_UNKNOWN | VERIF_INIT | VERIF_INPROCESS | VERIF_SUCCESS | VERIF_FAILED | VERIF_DISABLED

text \<open>Kinds of preemption frames.\<close>

datatype smd = COM_FLAG_SMD_R | COM_FLAG_SMD_V | SMD_OTHER

record edgx_preempt =
  pm_iobase :: nat
  pm_stat :: "edgx_stat_hdl option"
  pm_timer :: "int option"
  ver_state :: verif_status
  disable_ver :: bool
  p_enable :: bool
  link_fail :: bool
  verified :: bool
  ver_time :: u8
  pmt_status :: u16
  pm_sent :: "smd list"

record preempt_sys =
  pmt :: edgx_preempt
  ver_cnt :: u8
  pio :: iomem

abbreviation (input) PMT_TX_PREE0 :: nat where "PMT_TX_PREE0 \<equiv> 0x1C"
abbreviation (input) PMT_TX_PREE1 :: nat where "PMT_TX_PREE1 \<equiv> 0x1E"
abbreviation (input) PMT_VERIFY_LIMIT :: u8 where "PMT_VERIFY_LIMIT \<equiv> 3"
abbreviation (input) PMT_EXPRESS :: u8 where "PMT_EXPRESS \<equiv> 1"
abbreviation (input) PMT_PREEMPT :: u8 where "PMT_PREEMPT \<equiv> 2"
abbreviation (input) ADD_FRAG_SIZE_MASK :: u16 where "ADD_FRAG_SIZE_MASK \<equiv> 3"
abbreviation (input) BR_GX_QUEUES :: nat where "BR_GX_QUEUES \<equiv> 0xE"

abbreviation set_pmt :: "(edgx_preempt \<Rightarrow> edgx_preempt) \<Rightarrow> preempt_sys \<Rightarrow> preempt_sys" where
  "set_pmt g y \<equiv> y\<lparr>pmt := g (pmt y)\<rparr>"

section \<open>Activation\<close>

definition preempt_calc_p_active :: "edgx_preempt \<Rightarrow> bool" where
  "preempt_calc_p_active p \<longleftrightarrow> p_enable p \<and> (verified p \<or> disable_ver p)"

definition preempt_set_tx :: "preempt_sys \<Rightarrow> preempt_sys" where
  "preempt_set_tx y =
     y\<lparr>pio := edgx_wr16 (pio y) (pm_iobase (pmt y)) PMT_TX_PREE0
                (if \<not> preempt_calc_p_active (pmt y) then 0 else pmt_status (pmt y))\<rparr>"

section \<open>Verification\<close>

definition preempt_start_ver :: "edgx_preempt \<Rightarrow> edgx_preempt" where
  "preempt_start_ver p = (if pm_timer p = None then p\<lparr>pm_timer := Some (uint (ver_time p) * NSEC_PER_MSEC)\<rparr> else p)"

text \<open>The four flags as a number, and the cases that the code distinguishes.\<close>

definition sm_result :: "edgx_preempt \<Rightarrow> nat" where
  "sm_result p = (if verified p then 8 else 0) + (if link_fail p then 4 else 0)
     + (if disable_ver p then 2 else 0) + (if p_enable p then 1 else 0)"

definition preempt_update_sm :: "preempt_sys \<Rightarrow> preempt_sys" where
  "preempt_update_sm y =
     (let result = sm_result (pmt y);
          y = (if result = 9 then set_pmt (\<lambda>p. p\<lparr>ver_state := VERIF_SUCCESS\<rparr>) y
               else if result = 7 \<or> result = 3 \<or> result = 6 \<or> result = 2
               then set_pmt (\<lambda>p. p\<lparr>ver_state := VERIF_DISABLED\<rparr>) y
               else if result = 5 \<or> result = 4 \<or> result = 0
               then set_pmt (\<lambda>p. p\<lparr>ver_state := VERIF_INIT\<rparr>) y
               else if result = 1 then set_pmt preempt_start_ver y
               else y)
      in preempt_set_tx y)"

definition preempt_send_frame :: "smd \<Rightarrow> preempt_sys \<Rightarrow> preempt_sys" where
  "preempt_send_frame flag = set_pmt (\<lambda>p. p\<lparr>pm_sent := pm_sent p @ [flag]\<rparr>)"

text \<open>The timer function; it only runs when the timer was active.\<close>

definition preempt_verification_fn :: "preempt_sys \<Rightarrow> preempt_sys" where
  "preempt_verification_fn y =
     (let p = pmt y in
      if disable_ver p \<or> link_fail p \<or> \<not> p_enable p \<or> verified p
      then set_pmt (\<lambda>p. p\<lparr>pm_timer := None\<rparr>) (y\<lparr>ver_cnt := 0\<rparr>)
      else if ver_cnt y < PMT_VERIFY_LIMIT
      then let y = set_pmt (\<lambda>p. p\<lparr>ver_state := VERIF_INPROCESS\<rparr>) y;
               y = y\<lparr>ver_cnt := ver_cnt y + 1\<rparr>;
               y = preempt_send_frame COM_FLAG_SMD_V y
           in set_pmt (\<lambda>p. p\<lparr>pm_timer := Some (uint (ver_time p) * NSEC_PER_MSEC)\<rparr>) y
      else let y = set_pmt (\<lambda>p. p\<lparr>verified := False\<rparr>) y;
               y = y\<lparr>ver_cnt := 0\<rparr>;
               y = set_pmt (\<lambda>p. p\<lparr>ver_state := VERIF_FAILED\<rparr>) y
           in set_pmt (\<lambda>p. p\<lparr>pm_timer := Some (uint (ver_time p) * NSEC_PER_MSEC * 100)\<rparr>) y)"

definition edgx_preempt_link_chng :: "bool \<Rightarrow> preempt_sys \<Rightarrow> preempt_sys" where
  "edgx_preempt_link_chng link y =
     (let y = set_pmt (\<lambda>p. p\<lparr>link_fail := \<not> link\<rparr>) y;
          y = (if link_fail (pmt y) then set_pmt (\<lambda>p. p\<lparr>verified := False\<rparr>) y else y)
      in preempt_update_sm y)"

definition edgx_preempt_rcv :: "smd \<Rightarrow> preempt_sys \<Rightarrow> preempt_sys" where
  "edgx_preempt_rcv flags y =
     (if flags = COM_FLAG_SMD_V then preempt_send_frame COM_FLAG_SMD_R y
      else if flags = COM_FLAG_SMD_R then preempt_update_sm (set_pmt (\<lambda>p. p\<lparr>verified := True\<rparr>) y)
      else y)"

section \<open>Attributes\<close>

text \<open>A value that does not parse leaves the flag alone, but the rest of the handler runs.\<close>

definition ver_dis_tx_store :: "bool option \<Rightarrow> int \<Rightarrow> preempt_sys \<Rightarrow> int \<times> preempt_sys" where
  "ver_dis_tx_store v count y =
     (let y = (case v of None \<Rightarrow> y | Some b \<Rightarrow> set_pmt (\<lambda>p. p\<lparr>disable_ver := b\<rparr>) y);
          y = (if disable_ver (pmt y) then set_pmt (\<lambda>p. p\<lparr>verified := False\<rparr>) y else y)
      in (if v = None then - EINVAL else count, preempt_update_sm y))"

definition enable_tx_store :: "bool option \<Rightarrow> int \<Rightarrow> preempt_sys \<Rightarrow> int \<times> preempt_sys" where
  "enable_tx_store v count y =
     (let y = (case v of None \<Rightarrow> y | Some b \<Rightarrow> set_pmt (\<lambda>p. p\<lparr>p_enable := b\<rparr>) y);
          y = (if \<not> p_enable (pmt y) then set_pmt (\<lambda>p. p\<lparr>verified := False\<rparr>) y else y)
      in (if v = None then - EINVAL else count, preempt_update_sm y))"

definition ver_time_store :: "u8 option \<Rightarrow> int \<Rightarrow> preempt_sys \<Rightarrow> int \<times> preempt_sys" where
  "ver_time_store v count y =
     (case v of None \<Rightarrow> (- EINVAL, y)
      | Some t \<Rightarrow> if t < 1 \<or> t > 128 then (- EINVAL, y)
                  else (count, set_pmt (\<lambda>p. p\<lparr>ver_time := t\<rparr>) y))"

definition stat_verify_show :: "preempt_sys \<Rightarrow> nat" where
  "stat_verify_show y =
     (case ver_state (pmt y) of VERIF_UNKNOWN \<Rightarrow> 1 | VERIF_INIT \<Rightarrow> 2 | VERIF_INPROCESS \<Rightarrow> 3
      | VERIF_SUCCESS \<Rightarrow> 4 | VERIF_FAILED \<Rightarrow> 5 | VERIF_DISABLED \<Rightarrow> 6)"

definition add_frag_size_show :: "preempt_sys \<Rightarrow> u16" where
  "add_frag_size_show y = edgx_rd16 (pio y) (pm_iobase (pmt y)) PMT_TX_PREE1 AND ADD_FRAG_SIZE_MASK"

definition add_frag_size_store :: "u16 option \<Rightarrow> int \<Rightarrow> preempt_sys \<Rightarrow> int \<times> preempt_sys" where
  "add_frag_size_store v count y =
     (case v of None \<Rightarrow> (- EINVAL, y)
      | Some r \<Rightarrow> (count, y\<lparr>pio := edgx_wr16 (pio y) (pm_iobase (pmt y)) PMT_TX_PREE1 (r AND ADD_FRAG_SIZE_MASK)\<rparr>))"

definition preempt_active_show :: "preempt_sys \<Rightarrow> nat" where
  "preempt_active_show y = (if preempt_calc_p_active (pmt y) then 1 else 0)"

definition ADV_CLK_CYCLES :: "u16 \<Rightarrow> u32" where "ADV_CLK_CYCLES r = ucast r AND 0xFF"
definition ADV_MII_CYCLES :: "u16 \<Rightarrow> u32" where "ADV_MII_CYCLES r = drop_bit 8 (ucast r) AND 0xFF"

text \<open>The register and the cycle time of a speed; none for an unknown speed.\<close>

definition adv_params :: "iomem \<Rightarrow> edgx_br \<Rightarrow> nat \<Rightarrow> int \<Rightarrow> u16 \<times> u32" where
  "adv_params io br feat speed =
     (if speed = SPEED_10 then (edgx_br_get_feature io br feat, 400)
      else if speed = SPEED_100 then (edgx_br_get_feature io br (feat + 2), 40)
      else if speed = SPEED_1000 then (edgx_br_get_feature io br (feat + 4), 8)
      else (0, 0))"

definition rel_adv_show :: "edgx_br \<Rightarrow> int \<Rightarrow> preempt_sys \<Rightarrow> u32" where
  "rel_adv_show br speed y =
     (let (reg, mii_cycle) = adv_params (pio y) br 0x108 speed
      in edgx_br_get_cycle_ns br * ADV_CLK_CYCLES reg + mii_cycle * ADV_MII_CYCLES reg)"

definition hold_adv_show :: "edgx_br \<Rightarrow> int \<Rightarrow> preempt_sys \<Rightarrow> u32" where
  "hold_adv_show br speed y =
     (let (reg, mii_cycle) = adv_params (pio y) br 0x100 speed;
          add_frag = (ucast (edgx_rd16 (pio y) (pm_iobase (pmt y)) PMT_TX_PREE1) :: u32)
      in edgx_br_get_cycle_ns br * ADV_CLK_CYCLES reg
         + mii_cycle * (128 + add_frag * 64 + ADV_MII_CYCLES reg))"

text \<open>The counters: the number of the word in the statistics of the port.\<close>

definition preempt_stat_show ::
  "nat \<Rightarrow> device \<Rightarrow> u16 \<Rightarrow> bool \<Rightarrow> preempt_sys \<Rightarrow> (u64 \<times> preempt_sys) option" where
  "preempt_stat_show idx dev ub locked y = do {
     (w, sh, io) \<leftarrow> edgx_stat_upget dev ub locked (pm_stat (pmt y)) idx (pio y);
     Some (w, set_pmt (\<lambda>p. p\<lparr>pm_stat := sh\<rparr>) (y\<lparr>pio := io\<rparr>))
   }"

definition frame_smd_err_show where "frame_smd_err_show = preempt_stat_show 0"
definition frame_ass_err_show where "frame_ass_err_show = preempt_stat_show 1"
definition frame_ass_ok_show where "frame_ass_ok_show = preempt_stat_show 2"
definition frag_cnt_rx_show where "frag_cnt_rx_show = preempt_stat_show 3"
definition frag_cnt_tx_show where "frag_cnt_tx_show = preempt_stat_show 4"

text \<open>The table of the queues: 1 is express, 2 preemptible. The number of queues is a byte.\<close>

definition queue_count :: "edgx_br \<Rightarrow> iomem \<Rightarrow> int" where
  "queue_count br io = uint (ucast (edgx_br_get_generic io br BR_GX_QUEUES) :: u8)"

definition frame_preempt_status_read :: "edgx_br \<Rightarrow> int \<Rightarrow> int \<Rightarrow> preempt_sys \<Rightarrow> (int \<times> u8 option) option" where
  "frame_preempt_status_read br ofs count y = do {
     p \<leftarrow> edgx_sysfs_tbl_params ofs count 1;
     case p of Inl e \<Rightarrow> Some (- EINVAL, None)
     | Inr idx \<Rightarrow>
         if idx > queue_count br (pio y) - 1 then Some (- EINVAL, None)
         else let reg_val = edgx_rd16 (pio y) (pm_iobase (pmt y)) PMT_TX_PREE0
              in Some (count, Some (ucast ((drop_bit (nat idx) reg_val AND 1) + 1)))
   }"

definition frame_preempt_status_write :: "edgx_br \<Rightarrow> u8 \<Rightarrow> int \<Rightarrow> int \<Rightarrow> preempt_sys \<Rightarrow> (int \<times> preempt_sys) option" where
  "frame_preempt_status_write br val ofs count y = do {
     p \<leftarrow> edgx_sysfs_tbl_params ofs count 1;
     case p of Inl e \<Rightarrow> Some (- EINVAL, y)
     | Inr idx \<Rightarrow>
         if idx > queue_count br (pio y) - 1 \<or> val < PMT_EXPRESS \<or> val > PMT_PREEMPT then Some (- EINVAL, y)
         else let y = set_pmt (\<lambda>p. p\<lparr>pmt_status := if val = PMT_PREEMPT then pmt_status p OR BIT (nat idx)
                                                     else pmt_status p AND NOT (BIT (nat idx))\<rparr>) y
              in Some (count, preempt_set_tx y)
   }"

section \<open>Probe\<close>

text \<open>The state after the probe; the interface of the port exists.\<close>

definition preempt_info :: edgx_statinfo where
  "preempt_info = \<lparr>feat_id = EDGX_STAT_FEAT_PREEMPT, rate_ms = 200000, nwords = 5\<rparr>"

definition edgx_probe_preempt ::
  "nat \<Rightarrow> bool \<Rightarrow> (int \<Rightarrow> nat) option \<Rightarrow> int \<Rightarrow> u8 \<Rightarrow> iomem \<Rightarrow> int \<times> preempt_sys" where
  "edgx_probe_preempt base link_up sm ptid cnt io =
     (let p = \<lparr>pm_iobase = base, pm_stat = None, pm_timer = None, ver_state = VERIF_INIT, disable_ver = False,
               p_enable = False, link_fail = \<not> link_up, verified = False, ver_time = 10, pmt_status = 0, pm_sent = []\<rparr>;
          y = preempt_set_tx \<lparr>pmt = p, ver_cnt = cnt, pio = io\<rparr>;
          y = set_pmt (\<lambda>p. p\<lparr>pm_stat := edgx_stat_alloc_hdl sm ptid (Some preempt_info)\<rparr>) y
      in (if pm_stat (pmt y) = None then - ENOMEM else 0, y))"

end
