(* ===== verification/PreemptProps.thy ===== *)
theory PreemptProps
  imports Preempt
begin

text \<open>
  Frame preemption as a state machine: the invariant of the reachable states, a run of the
  verification, and what an unexpected response does.
\<close>

unbundle bit_operations_syntax

section \<open>Reachable states\<close>

text \<open>
  The register follows the activation, success means that every condition of it holds, and the
  verification time keeps its range.
\<close>

definition preempt_wf :: "preempt_sys \<Rightarrow> bool" where
  "preempt_wf y \<longleftrightarrow>
     edgx_rd16 (pio y) (pm_iobase (pmt y)) PMT_TX_PREE0 = (if preempt_calc_p_active (pmt y) then pmt_status (pmt y) else 0)
   \<and> (ver_state (pmt y) = VERIF_SUCCESS \<longrightarrow> verified (pmt y) \<and> p_enable (pmt y) \<and> \<not> disable_ver (pmt y) \<and> \<not> link_fail (pmt y))
   \<and> 1 \<le> ver_time (pmt y) \<and> ver_time (pmt y) \<le> 128"

text \<open>
  A step is a call of the driver for this port, the expiry of its timer, the verification of another
  port, which changes the shared counter, or any change of registers other than the two of the port.
\<close>

inductive preempt_step :: "preempt_sys \<Rightarrow> preempt_sys \<Rightarrow> bool" where
  ver_dis: "ver_dis_tx_store v n y = (r, y') \<Longrightarrow> preempt_step y y'"
| enable: "enable_tx_store v n y = (r, y') \<Longrightarrow> preempt_step y y'"
| ver_time: "ver_time_store t n y = (r, y') \<Longrightarrow> preempt_step y y'"
| frag_size: "add_frag_size_store a n y = (r, y') \<Longrightarrow> preempt_step y y'"
| queue: "frame_preempt_status_write br val ofs n y = Some (r, y') \<Longrightarrow> preempt_step y y'"
| link: "preempt_step y (edgx_preempt_link_chng up y)"
| rcv: "preempt_step y (edgx_preempt_rcv flags y)"
| timer: "pm_timer (pmt y) \<noteq> None \<Longrightarrow> preempt_step y (preempt_verification_fn y)"
| other_port: "preempt_step y (y\<lparr>ver_cnt := c\<rparr>)"
| registers: "(\<And>r. r \<in> {PMT_TX_PREE0, PMT_TX_PREE1} \<Longrightarrow> edgx_rd16 io (pm_iobase (pmt y)) r = edgx_rd16 (pio y) (pm_iobase (pmt y)) r)
    \<Longrightarrow> preempt_step y (set_pmt (\<lambda>p. p\<lparr>pm_stat := sh\<rparr>) (y\<lparr>pio := io\<rparr>))"

inductive preempt_reachable :: "preempt_sys \<Rightarrow> bool" where
  probe: "edgx_probe_preempt base up sm ptid c io = (0, y) \<Longrightarrow> preempt_reachable y"
| step: "preempt_reachable y \<Longrightarrow> preempt_step y y' \<Longrightarrow> preempt_reachable y'"

inductive_cases preempt_stepE: "preempt_step y y'"

lemmas preempt_ops = ver_dis_tx_store_def enable_tx_store_def ver_time_store_def add_frag_size_store_def
  edgx_preempt_link_chng_def edgx_preempt_rcv_def preempt_send_frame_def preempt_calc_p_active_def

text \<open>The state machine restores the invariant from its part that does not concern the register.\<close>

lemma update_sm_wf:
  assumes "ver_state (pmt y) = VERIF_SUCCESS \<Longrightarrow> sm_result (pmt y) \<in> {0, 2, 3, 4, 5, 6, 7, 9}"
    and "1 \<le> ver_time (pmt y)" "ver_time (pmt y) \<le> 128"
  shows "preempt_wf (preempt_update_sm y)"
  using assms
  by (cases "verified (pmt y)"; cases "link_fail (pmt y)"; cases "disable_ver (pmt y)"; cases "p_enable (pmt y)")
    (auto simp: preempt_wf_def preempt_update_sm_def preempt_set_tx_def sm_result_def preempt_calc_p_active_def
        preempt_start_ver_def Let_def)

text \<open>What the invariant says without the register, for the handlers that run the state machine.\<close>

definition pmt_ok :: "edgx_preempt \<Rightarrow> bool" where
  "pmt_ok p \<longleftrightarrow> (ver_state p = VERIF_SUCCESS \<longrightarrow> sm_result p \<in> {0, 2, 3, 4, 5, 6, 7, 9})
     \<and> 1 \<le> ver_time p \<and> ver_time p \<le> 128"

lemma update_sm_ok: "pmt_ok (pmt y) \<Longrightarrow> preempt_wf (preempt_update_sm y)"
  by (rule update_sm_wf) (simp_all add: pmt_ok_def)

lemma set_tx_wf:
  assumes "preempt_wf y"
  shows "preempt_wf (preempt_set_tx (set_pmt (\<lambda>p. p\<lparr>pmt_status := m\<rparr>) y))"
  using assms by (simp add: preempt_wf_def preempt_set_tx_def preempt_calc_p_active_def)

lemma u8_ge_1: "(a :: u8) \<noteq> 0 \<Longrightarrow> 1 \<le> a"
  by (simp add: word_le_nat_alt Suc_le_eq unat_gt_0)

lemma preempt_step_wf: "preempt_step y y' \<Longrightarrow> preempt_wf y \<Longrightarrow> preempt_wf y'"
proof (erule preempt_stepE, goal_cases)
  case (1 v n r)
  have "y' = preempt_update_sm (let z = (case v of None \<Rightarrow> y | Some b \<Rightarrow> set_pmt (\<lambda>p. p\<lparr>disable_ver := b\<rparr>) y)
      in if disable_ver (pmt z) then set_pmt (\<lambda>p. p\<lparr>verified := False\<rparr>) z else z)" (is "_ = preempt_update_sm ?z")
    using 1(2) by (simp add: ver_dis_tx_store_def Let_def)
  moreover have "pmt_ok (pmt ?z)"
    using 1(1) by (auto simp: preempt_wf_def pmt_ok_def sm_result_def Let_def split: option.split)
  ultimately show ?case by (simp only: update_sm_ok)
next
  case (2 v n r)
  have "y' = preempt_update_sm (let z = (case v of None \<Rightarrow> y | Some b \<Rightarrow> set_pmt (\<lambda>p. p\<lparr>p_enable := b\<rparr>) y)
      in if \<not> p_enable (pmt z) then set_pmt (\<lambda>p. p\<lparr>verified := False\<rparr>) z else z)" (is "_ = preempt_update_sm ?z")
    using 2(2) by (simp add: enable_tx_store_def Let_def)
  moreover have "pmt_ok (pmt ?z)"
    using 2(1) by (auto simp: preempt_wf_def pmt_ok_def sm_result_def Let_def split: option.split)
  ultimately show ?case by (simp only: update_sm_ok)
next
  case (6 up)
  have "y' = preempt_update_sm (let z = set_pmt (\<lambda>p. p\<lparr>link_fail := \<not> up\<rparr>) y
      in if link_fail (pmt z) then set_pmt (\<lambda>p. p\<lparr>verified := False\<rparr>) z else z)" (is "_ = preempt_update_sm ?z")
    using 6(2) by (simp add: edgx_preempt_link_chng_def Let_def)
  moreover have "pmt_ok (pmt ?z)"
    using 6(1) by (auto simp: preempt_wf_def pmt_ok_def sm_result_def Let_def)
  ultimately show ?case by (simp only: update_sm_ok)
next
  case (7 flags)
  have "pmt_ok ((pmt y)\<lparr>verified := True\<rparr>)"
    using 7(1) by (auto simp: preempt_wf_def pmt_ok_def sm_result_def)
  then show ?case
    using 7 update_sm_ok[of "set_pmt (\<lambda>p. p\<lparr>verified := True\<rparr>) y"]
    by (cases flags) (auto simp: edgx_preempt_rcv_def preempt_send_frame_def preempt_wf_def preempt_calc_p_active_def)
next
  case (3 t n r)
  then show ?case
    by (cases t) (auto simp: ver_time_store_def preempt_wf_def preempt_calc_p_active_def not_less u8_ge_1 split: if_split_asm)
next
  case (4 a n r)
  then show ?case
    by (cases a) (auto simp: add_frag_size_store_def preempt_wf_def preempt_calc_p_active_def)
next
  case (5 br val ofs n r)
  have "y' = y \<or> (\<exists>m. y' = preempt_set_tx (set_pmt (\<lambda>p. p\<lparr>pmt_status := m\<rparr>) y))"
    using 5(2) unfolding frame_preempt_status_write_def
    by (auto simp: sysfs_tbl_params_iff Let_def split: if_split_asm)
  then show ?case
    using 5(1) by (elim disjE exE) (simp_all only: set_tx_wf)
next
  case 8
  then show ?case
    by (auto simp: preempt_verification_fn_def Let_def preempt_send_frame_def preempt_wf_def preempt_calc_p_active_def)
next
  case (9 c)
  then show ?case by (simp add: preempt_wf_def)
next
  case (10 io sh)
  then show ?case by (auto simp: preempt_wf_def preempt_calc_p_active_def)
qed

lemma preempt_probe_wf: "edgx_probe_preempt base up sm ptid c io = (0, y) \<Longrightarrow> preempt_wf y"
  by (auto simp: edgx_probe_preempt_def preempt_wf_def preempt_set_tx_def preempt_calc_p_active_def Let_def split: if_splits)

lemma preempt_reachable_wf: "preempt_reachable y \<Longrightarrow> preempt_wf y"
  by (induction rule: preempt_reachable.induct) (blast intro: preempt_probe_wf preempt_step_wf)+

section \<open>Properties\<close>

text \<open>A port at address 0x1000 of a bridge with eight queues, without statistics unless the probe made them.\<close>

definition pmt_br :: edgx_br where
  "pmt_br = \<lparr>brparam = 0, cycle_ns = 8\<rparr>"

definition pmt_io :: iomem where
  "pmt_io = (\<lambda>a. if a = 0xE then 8 else 0)"

definition pmt_up :: preempt_sys where
  "pmt_up = snd (edgx_probe_preempt 0x1000 True (Some (\<lambda>_. 0x8000)) 1 0 pmt_io)"

text \<open>
  Property C18. In every reachable state the preemption register of the port holds the configured queues
  exactly while preemption is active and 0 otherwise; the status says success only while the link is
  up, preemption is enabled, verification is not disabled and an answer was seen; and the
  verification time is between 1 and 128 milliseconds.
\<close>

theorem reachable_preempt_wf:
  assumes "preempt_reachable y"
  shows "edgx_rd16 (pio y) (pm_iobase (pmt y)) PMT_TX_PREE0 = (if preempt_calc_p_active (pmt y) then pmt_status (pmt y) else 0)
    \<and> (stat_verify_show y = 4 \<longrightarrow> verified (pmt y) \<and> p_enable (pmt y) \<and> \<not> disable_ver (pmt y) \<and> \<not> link_fail (pmt y))
    \<and> 1 \<le> ver_time (pmt y) \<and> ver_time (pmt y) \<le> 128"
  using preempt_reachable_wf [OF assms]
  by (auto simp: preempt_wf_def stat_verify_show_def split: verif_status.splits)

text \<open>A verified port: enabled, a request sent, the answer received, queue 0 preemptible.\<close>

definition pmt_asked :: preempt_sys where
  "pmt_asked = preempt_verification_fn (snd (enable_tx_store (Some True) 2 pmt_up))"

definition pmt_verified :: preempt_sys where
  "pmt_verified = snd (the (frame_preempt_status_write pmt_br 2 0 1 (edgx_preempt_rcv COM_FLAG_SMD_R pmt_asked)))"

lemmas pmt_up_simps = pmt_up_def pmt_br_def pmt_io_def edgx_probe_preempt_def preempt_set_tx_def
  preempt_calc_p_active_def edgx_stat_alloc_hdl_def preempt_info_def enable_tx_store_def preempt_update_sm_def
  sm_result_def preempt_start_ver_def preempt_verification_fn_def preempt_send_frame_def edgx_preempt_rcv_def
  frame_preempt_status_write_def queue_count_def edgx_br_get_generic_def edgx_rd16_def sysfs_tbl_params_iff

lemma pmt_up_reachable: "preempt_reachable pmt_up"
  by (rule preempt_reachable.probe [of "0x1000" True "Some (\<lambda>_. 0x8000)" 1 0 pmt_io])
    (simp add: pmt_up_def edgx_probe_preempt_def edgx_stat_alloc_hdl_def preempt_info_def Let_def)

lemma pmt_verified_reachable: "preempt_reachable pmt_verified"
proof -
  have "preempt_reachable (snd (enable_tx_store (Some True) 2 pmt_up))"
    by (rule preempt_reachable.step [OF pmt_up_reachable preempt_step.enable]) (rule surjective_pairing)
  then have "preempt_reachable pmt_asked"
    unfolding pmt_asked_def
    by (rule preempt_reachable.step) (rule preempt_step.timer, simp add: pmt_up_simps Let_def)
  then have "preempt_reachable (edgx_preempt_rcv COM_FLAG_SMD_R pmt_asked)"
    by (rule preempt_reachable.step) (rule preempt_step.rcv)
  moreover have "frame_preempt_status_write pmt_br 2 0 1 (edgx_preempt_rcv COM_FLAG_SMD_R pmt_asked) = Some (1, pmt_verified)"
    by (simp add: pmt_verified_def pmt_asked_def pmt_up_simps Let_def)
  ultimately show ?thesis
    by (rule preempt_reachable.step [OF _ preempt_step.queue])
qed

theorem reachable_preempt_wf_witness:
  "edgx_rd16 (pio pmt_verified) 0x1000 0x1C = 1 \<and> stat_verify_show pmt_verified = 4 \<and> ver_time (pmt pmt_verified) = 10"
proof -
  have f: "preempt_calc_p_active (pmt pmt_verified)" "pmt_status (pmt pmt_verified) = 1"
    "pm_iobase (pmt pmt_verified) = 0x1000" "ver_state (pmt pmt_verified) = VERIF_SUCCESS" "ver_time (pmt pmt_verified) = 10"
    by (simp_all add: pmt_verified_def pmt_asked_def pmt_up_simps Let_def)
  then show ?thesis
    using reachable_preempt_wf [OF pmt_verified_reachable] by (simp add: stat_verify_show_def)
qed

text \<open>
  Property C19. A verification without an answer sends one request per expiry until three were counted,
  then fails and asks again after a hundred periods. The count is shared by all ports: a port whose
  timer expires when another port has left the count at three fails without a request of its own.
\<close>

theorem verification_run:
  assumes "p_enable (pmt y)" "\<not> disable_ver (pmt y)" "\<not> link_fail (pmt y)" "\<not> verified (pmt y)"
    and "unat (ver_cnt y) + k = 3"
  shows "(preempt_verification_fn ^^ (k + 1)) y =
    set_pmt (\<lambda>p. p\<lparr>ver_state := VERIF_FAILED, pm_timer := Some (uint (ver_time p) * NSEC_PER_MSEC * 100),
                     pm_sent := pm_sent p @ replicate k COM_FLAG_SMD_V\<rparr>) (y\<lparr>ver_cnt := 0\<rparr>)"
  using assms
proof (induction k arbitrary: y)
  case 0
  then have "ver_cnt y = 3"
    by (simp add: unsigned_word_eqI)
  with 0 show ?case by (simp add: preempt_verification_fn_def Let_def)
next
  case (Suc k)
  let ?z = "set_pmt (\<lambda>p. p\<lparr>ver_state := VERIF_INPROCESS, pm_timer := Some (uint (ver_time p) * NSEC_PER_MSEC),
                     pm_sent := pm_sent p @ [COM_FLAG_SMD_V]\<rparr>) (y\<lparr>ver_cnt := ver_cnt y + 1\<rparr>)"
  have lt: "ver_cnt y < 3"
    using Suc.prems(5) by (simp add: word_less_nat_alt)
  then have "preempt_verification_fn y = ?z"
    using Suc.prems by (simp add: preempt_verification_fn_def preempt_send_frame_def Let_def)
  moreover have "unat (ver_cnt ?z) = Suc (unat (ver_cnt y))"
    using lt by (simp add: unat_add_1 [where y = 3] word_less_nat_alt)
  moreover have "(preempt_verification_fn ^^ (Suc k + 1)) y = (preempt_verification_fn ^^ (k + 1)) (preempt_verification_fn y)"
    by (simp only: add_Suc funpow_Suc_right comp_apply)
  ultimately show ?case
    using Suc.prems Suc.IH [of ?z] by simp
qed

theorem verification_run_witness:
  "preempt_verification_fn (snd (enable_tx_store (Some True) 2 pmt_up)\<lparr>ver_cnt := 3\<rparr>) =
     set_pmt (\<lambda>p. p\<lparr>ver_state := VERIF_FAILED, pm_timer := Some 1000000000\<rparr>) (snd (enable_tx_store (Some True) 2 pmt_up))"
  using verification_run [of "snd (enable_tx_store (Some True) 2 pmt_up)\<lparr>ver_cnt := 3\<rparr>" 0]
  by (simp add: pmt_up_simps Let_def)

text \<open>
  A response is believed whether or not a request was sent: a port whose link is up and
  that has never sent a frame sets the flag on a response while preemption is still disabled, and
  enabling it then reports success and makes preemption active, with no request sent and no timer
  started.
\<close>

theorem unsolicited_response:
  assumes "\<not> p_enable (pmt y)" "\<not> disable_ver (pmt y)" "\<not> link_fail (pmt y)"
    and "enable_tx_store (Some True) n (edgx_preempt_rcv COM_FLAG_SMD_R y) = (r, y')"
  shows "r = n \<and> stat_verify_show y' = 4 \<and> preempt_active_show y' = 1
    \<and> pm_sent (pmt y') = pm_sent (pmt y) \<and> pm_timer (pmt y') = pm_timer (pmt y)
    \<and> edgx_rd16 (pio y') (pm_iobase (pmt y)) PMT_TX_PREE0 = pmt_status (pmt y)"
  using assms by (auto simp: edgx_preempt_rcv_def enable_tx_store_def preempt_update_sm_def sm_result_def Let_def
      preempt_set_tx_def preempt_calc_p_active_def stat_verify_show_def preempt_active_show_def)

theorem unsolicited_response_witness:
  "case enable_tx_store (Some True) 2 (edgx_preempt_rcv COM_FLAG_SMD_R pmt_up) of
     (r, y') \<Rightarrow> r = 2 \<and> stat_verify_show y' = 4 \<and> preempt_active_show y' = 1 \<and> pm_sent (pmt y') = []"
proof -
  have "\<not> p_enable (pmt pmt_up)" "\<not> disable_ver (pmt pmt_up)" "\<not> link_fail (pmt pmt_up)" "pm_sent (pmt pmt_up) = []"
    by (simp_all add: pmt_up_simps Let_def)
  then show ?thesis
    using unsolicited_response [of pmt_up 2] by (cases "enable_tx_store (Some True) 2 (edgx_preempt_rcv COM_FLAG_SMD_R pmt_up)") simp
qed

lemma queue_bit: "ucast ((drop_bit j (w :: u16) AND 1) + 1) = (if bit w j then 2 else (1 :: u8))"
  by (cases "bit w j") (simp_all only: and_one_eq bit_iff_odd_drop_bit odd_iff_mod_2_eq_one even_iff_mod_2_eq_zero, simp_all)

lemma queue_read:
  assumes "int j < queue_count br (pio y)"
  shows "frame_preempt_status_read br (int j) 1 y =
    Some (1, Some (if bit (edgx_rd16 (pio y) (pm_iobase (pmt y)) PMT_TX_PREE0) j then PMT_PREEMPT else PMT_EXPRESS))"
  using assms by (simp only: frame_preempt_status_read_def sysfs_tbl_params_iff queue_bit) simp

lemma queue_write:
  assumes "int i < queue_count br (pio y)" and "val = PMT_EXPRESS \<or> val = PMT_PREEMPT"
  shows "frame_preempt_status_write br val (int i) 1 y =
    Some (1, preempt_set_tx (set_pmt (\<lambda>p. p\<lparr>pmt_status := if val = PMT_PREEMPT then pmt_status p OR BIT i
                                                             else pmt_status p AND NOT (BIT i)\<rparr>) y))"
  using assms by (auto simp: frame_preempt_status_write_def sysfs_tbl_params_iff Let_def)

text \<open>
  A value written to the table of the queues is read back while preemption is active, and
  the other queues keep theirs; while it is not active every queue reads as express, whatever was
  written.
\<close>

theorem queue_status_roundtrip:
  assumes "brparam br + BR_GX_QUEUES \<noteq> pm_iobase (pmt y) + PMT_TX_PREE0"
    and "int i < queue_count br (pio y)" "int j < queue_count br (pio y)" "i < 16" "j < 16"
    and "val = PMT_EXPRESS \<or> val = PMT_PREEMPT"
  shows "\<exists>y'. frame_preempt_status_write br val (int i) 1 y = Some (1, y')
    \<and> frame_preempt_status_read br (int j) 1 y' =
        Some (1, Some (if \<not> preempt_calc_p_active (pmt y) then PMT_EXPRESS
                       else if i = j then val
                       else if bit (pmt_status (pmt y)) j then PMT_PREEMPT else PMT_EXPRESS))"
proof -
  let ?p = "pmt y"
  let ?w = "if val = PMT_PREEMPT then pmt_status ?p OR BIT i else pmt_status ?p AND NOT (BIT i)"
  let ?y = "preempt_set_tx (set_pmt (\<lambda>p. p\<lparr>pmt_status := ?w\<rparr>) y)"
  have q: "int j < queue_count br (pio ?y)"
    using assms(1,3) by (simp add: preempt_set_tx_def queue_count_def edgx_br_get_generic_def)
  have r: "edgx_rd16 (pio ?y) (pm_iobase (pmt ?y)) PMT_TX_PREE0 = (if preempt_calc_p_active ?p then ?w else 0)"
    by (simp add: preempt_set_tx_def preempt_calc_p_active_def)
  have b: "bit ?w j = (if i = j then val = PMT_PREEMPT else bit (pmt_status ?p) j)"
    using assms(4-6) bit_BIT_iff [of i j, where 'a = 16] by (auto simp: bit_or_iff bit_and_iff bit_not_iff)
  show ?thesis
    unfolding queue_write [OF assms(2,6)]
  proof (intro exI conjI refl)
    show "frame_preempt_status_read br (int j) 1 ?y =
      Some (1, Some (if \<not> preempt_calc_p_active ?p then PMT_EXPRESS else if i = j then val
                     else if bit (pmt_status ?p) j then PMT_PREEMPT else PMT_EXPRESS))"
      unfolding queue_read [OF q] r using b assms(6) by (simp split: if_split_asm)
  qed (rule refl)
qed

theorem queue_status_roundtrip_witness:
  "\<exists>y'. frame_preempt_status_write pmt_br 2 2 1 pmt_verified = Some (1, y')
    \<and> frame_preempt_status_read pmt_br 2 1 y' = Some (1, Some 2)"
proof -
  have "preempt_calc_p_active (pmt pmt_verified)" "brparam pmt_br + 0xE \<noteq> pm_iobase (pmt pmt_verified) + 0x1C"
    "2 < queue_count pmt_br (pio pmt_verified)"
    by (simp_all add: pmt_verified_def pmt_asked_def pmt_up_simps Let_def)
  then show ?thesis
    using queue_status_roundtrip [of pmt_br pmt_verified 2 2 2] by simp
qed

end
