(* ===== verification/PsfpFlt.thy ===== *)
theory PsfpFlt
  imports RegIO KeyOrder
begin

text \<open>
  The stream filters of per-stream filtering and policing (first part of \<open>edge_psfp.c\<close>). A filter has
  a number and matches frames by stream handle and priority, each of which may be a wildcard; for
  every stream and priority the hardware table holds the filter with the lowest number.

  The three kinds of red-black trees are their in-order sequences. A filter entry and the sub-entry
  inside of it are named by the number of the filter, a stream entry by its key; \<open>None\<close> is NULL. A
  pointer to a filter that is not in the tree any more must not be followed (\<open>None\<close> of the option
  type). Allocations succeed; the mutex makes an operation atomic. Not modelled: the release at
  shutdown.
\<close>

unbundle bit_operations_syntax

section \<open>Data\<close>

record psfp_flt_data =
  fd_gate :: u32
  fd_max_sdu :: u32
  fd_fmtr :: int
  fd_blk_oversz_ena :: bool
  fd_blk_oversz :: bool

record psfp_flt_sysfs_entry =
  sf_str_hdl :: int
  sf_pcp :: int
  sf_data :: psfp_flt_data

datatype psfp_cnt_type =
    PSFP_CNT_MATCHING_FRAMES | PSFP_CNT_PASSING_FRAMES | PSFP_CNT_PASSING_SDU | PSFP_CNT_RED_FRAMES
  | PSFP_CNT_NOT_PASSING_FRAMES | PSFP_CNT_NOT_PASSING_SDU

text \<open>\<open>struct psfp_flt_cnt\<close>: the four counters of the hardware.\<close>

record psfp_flt_cnt =
  raw_matching :: u32
  raw_passing :: u32
  raw_sdu :: u32
  raw_red :: u32

record psfp_flt_entry =
  fe_filter :: nat
  fe_key :: "int \<times> int"
  fe_data :: psfp_flt_data
  fe_cnt_ref :: psfp_flt_cnt

record psfp_flt_str_entry =
  se_str_hdl :: int
  se_pcp :: int
  se_sub_root :: "nat list"

record psfp_limits =
  max_str_cnt :: nat
  max_flt_cnt :: nat
  max_gate_cnt :: nat
  max_fmtr_cnt :: nat
  res_fmtr_cnt :: nat
  max_gcl_len :: nat

record psfp_flt =
  pf_iobase :: nat
  flt_root :: "psfp_flt_entry list"
  str_root :: "psfp_flt_str_entry list"
  pf_limits :: psfp_limits
  cur_sub :: "nat option list list"

text \<open>The filters with the registers.\<close>

record flt_sys =
  pf :: psfp_flt
  fio :: iomem

abbreviation (input) PSFP_WC :: int where "PSFP_WC \<equiv> - 1"
abbreviation (input) PSFP_FMTR_NONE :: int where "PSFP_FMTR_NONE \<equiv> - 1"
abbreviation (input) PSFP_MAX_NO_FILTERS :: int where "PSFP_MAX_NO_FILTERS \<equiv> 8192"
abbreviation (input) PSFP_FRAME_SZ_OVERHEAD :: u32 where "PSFP_FRAME_SZ_OVERHEAD \<equiv> 12"
abbreviation (input) PSFP_MAX_FRAME_SZ :: u32 where "PSFP_MAX_FRAME_SZ \<equiv> 1518"
abbreviation (input) EDGX_BR_NUM_PCP :: nat where "EDGX_BR_NUM_PCP \<equiv> 8"
abbreviation (input) FILTER_CMD :: nat where "FILTER_CMD \<equiv> 0x500"
abbreviation (input) FILTER_TBL_0 :: nat where "FILTER_TBL_0 \<equiv> 0x510"
abbreviation (input) FILTER_TBL_1 :: nat where "FILTER_TBL_1 \<equiv> 0x512"
abbreviation (input) FILTER_TBL_2 :: nat where "FILTER_TBL_2 \<equiv> 0x514"
abbreviation (input) FILTER_WRITE :: u16 where "FILTER_WRITE \<equiv> 0x4000"
abbreviation (input) FILTER_TRANSFER :: u16 where "FILTER_TRANSFER \<equiv> 0x8000"
abbreviation (input) FILTER_GATE_ENA :: u16 where "FILTER_GATE_ENA \<equiv> 0x80"
abbreviation (input) CNT_CAPT0 :: nat where "CNT_CAPT0 \<equiv> 0xF000"
abbreviation (input) CNT_CAPT5 :: nat where "CNT_CAPT5 \<equiv> 0xF00A"
abbreviation (input) CNT_MATCHING :: nat where "CNT_MATCHING \<equiv> 0xF400"
abbreviation (input) CNT_P_FRAMESIZE :: nat where "CNT_P_FRAMESIZE \<equiv> 0xF404"
abbreviation (input) CNT_P_SGATE :: nat where "CNT_P_SGATE \<equiv> 0xF408"
abbreviation (input) CNT_P_DROP :: nat where "CNT_P_DROP \<equiv> 0xF40C"

text \<open>\<open>FIELD_PREP\<close> and \<open>FIELD_GET\<close> of \<open>linux/bitfield.h\<close> for the bits \<open>h\<close> down to \<open>l\<close> of a 16-bit register.\<close>

definition FIELD_PREP :: "nat \<Rightarrow> nat \<Rightarrow> 'a::len word \<Rightarrow> u16" where
  "FIELD_PREP h l v = push_bit l (ucast v AND mask (h + 1 - l))"

definition FIELD_GET :: "nat \<Rightarrow> nat \<Rightarrow> u16 \<Rightarrow> u16" where
  "FIELD_GET h l r = drop_bit l r AND mask (h + 1 - l)"

abbreviation prep_bool :: "nat \<Rightarrow> bool \<Rightarrow> u16" where
  "prep_bool l b \<equiv> FIELD_PREP l l (if b then 1 else 0 :: u16)"

abbreviation set_pf :: "(psfp_flt \<Rightarrow> psfp_flt) \<Rightarrow> flt_sys \<Rightarrow> flt_sys" where
  "set_pf g y \<equiv> y\<lparr>pf := g (pf y)\<rparr>"

section \<open>Trees\<close>

definition edgx_psfp_flt_create :: "nat \<Rightarrow> int \<times> int \<Rightarrow> psfp_flt_data \<Rightarrow> psfp_flt_entry" where
  "edgx_psfp_flt_create no key d =
     \<lparr>fe_filter = no, fe_key = key, fe_data = d,
      fe_cnt_ref = \<lparr>raw_matching = 0, raw_passing = 0, raw_sdu = 0, raw_red = 0\<rparr>\<rparr>"

fun edgx_psfp_flt_insert :: "psfp_flt_entry list \<Rightarrow> psfp_flt_entry \<Rightarrow> int \<times> psfp_flt_entry list" where
  "edgx_psfp_flt_insert [] new = (0, [new])"
| "edgx_psfp_flt_insert (e # es) new =
     (if fe_filter new < fe_filter e then (0, new # e # es)
      else if fe_filter new > fe_filter e
      then (let (ret, es') = edgx_psfp_flt_insert es new in (ret, e # es'))
      else (- EINVAL, e # es))"

fun edgx_psfp_flt_search :: "psfp_flt_entry list \<Rightarrow> nat \<Rightarrow> psfp_flt_entry option" where
  "edgx_psfp_flt_search [] no = None"
| "edgx_psfp_flt_search (e # es) no =
     (if no < fe_filter e then None
      else if no > fe_filter e then edgx_psfp_flt_search es no
      else Some e)"

definition edgx_psfp_flt_str_create :: "int \<Rightarrow> int \<Rightarrow> psfp_flt_str_entry" where
  "edgx_psfp_flt_str_create s p = \<lparr>se_str_hdl = s, se_pcp = p, se_sub_root = []\<rparr>"

fun edgx_psfp_flt_str_insert :: "psfp_flt_str_entry list \<Rightarrow> psfp_flt_str_entry \<Rightarrow> int \<times> psfp_flt_str_entry list" where
  "edgx_psfp_flt_str_insert [] new = (0, [new])"
| "edgx_psfp_flt_str_insert (e # es) new =
     (if se_str_hdl new < se_str_hdl e then (0, new # e # es)
      else if se_str_hdl new > se_str_hdl e
      then (let (ret, es') = edgx_psfp_flt_str_insert es new in (ret, e # es'))
      else if se_pcp new < se_pcp e then (0, new # e # es)
      else if se_pcp new > se_pcp e
      then (let (ret, es') = edgx_psfp_flt_str_insert es new in (ret, e # es'))
      else (- EINVAL, e # es))"

fun edgx_psfp_flt_str_search :: "psfp_flt_str_entry list \<Rightarrow> int \<Rightarrow> int \<Rightarrow> psfp_flt_str_entry option" where
  "edgx_psfp_flt_str_search [] s p = None"
| "edgx_psfp_flt_str_search (e # es) s p =
     (if s < se_str_hdl e then None
      else if s > se_str_hdl e then edgx_psfp_flt_str_search es s p
      else if p < se_pcp e then None
      else if p > se_pcp e then edgx_psfp_flt_str_search es s p
      else Some e)"

fun edgx_psfp_flt_sub_insert :: "nat list \<Rightarrow> nat \<Rightarrow> int \<times> nat list" where
  "edgx_psfp_flt_sub_insert [] new = (0, [new])"
| "edgx_psfp_flt_sub_insert (n # ns) new =
     (if new < n then (0, new # n # ns)
      else if new > n then (let (ret, ns') = edgx_psfp_flt_sub_insert ns new in (ret, n # ns'))
      else (- EINVAL, n # ns))"

definition edgx_psfp_flt_first_sub :: "psfp_flt \<Rightarrow> int \<Rightarrow> int \<Rightarrow> nat option" where
  "edgx_psfp_flt_first_sub f s p =
     (case edgx_psfp_flt_str_search (str_root f) s p of None \<Rightarrow> None
      | Some stre \<Rightarrow> (case se_sub_root stre of [] \<Rightarrow> None | n # ns \<Rightarrow> Some n))"

text \<open>The sub-entries of a stream entry replaced, and a stream entry erased.\<close>

definition set_subs :: "int \<times> int \<Rightarrow> nat list \<Rightarrow> psfp_flt_str_entry list \<Rightarrow> psfp_flt_str_entry list" where
  "set_subs k ns = map (\<lambda>e. if (se_str_hdl e, se_pcp e) = k then e\<lparr>se_sub_root := ns\<rparr> else e)"

definition erase_str :: "int \<times> int \<Rightarrow> psfp_flt_str_entry list \<Rightarrow> psfp_flt_str_entry list" where
  "erase_str k = filter (\<lambda>e. (se_str_hdl e, se_pcp e) \<noteq> k)"

text \<open>Following a pointer to a filter.\<close>

definition deref_flt :: "psfp_flt \<Rightarrow> nat \<Rightarrow> psfp_flt_entry option" where
  "deref_flt f n = find (\<lambda>e. fe_filter e = n) (flt_root f)"

definition PSFP_FLT_SUB_IS_VALID :: "psfp_flt \<Rightarrow> nat option \<Rightarrow> bool" where
  "PSFP_FLT_SUB_IS_VALID f sub =
     (case sub of None \<Rightarrow> False | Some n \<Rightarrow> list_ex (\<lambda>e. n \<in> set (se_sub_root e)) (str_root f))"

definition edgx_psfp_flt_str_is_wc :: "int \<times> int \<Rightarrow> bool" where
  "edgx_psfp_flt_str_is_wc k \<longleftrightarrow> fst k = PSFP_WC \<or> snd k = PSFP_WC"

section \<open>Selection\<close>

text \<open>The effective one of the candidates: the lowest number.\<close>

fun find_eff_from :: "nat option \<Rightarrow> nat option list \<Rightarrow> nat option" where
  "find_eff_from eff [] = eff"
| "find_eff_from eff (c # cs) =
     find_eff_from (case c of None \<Rightarrow> eff
                    | Some n \<Rightarrow> (case eff of None \<Rightarrow> c | Some m \<Rightarrow> if m > n then c else eff)) cs"

definition edgx_psfp_flt_str_find_eff_sub :: "nat option list \<Rightarrow> nat option" where
  "edgx_psfp_flt_str_find_eff_sub cands = find_eff_from None cands"

definition edgx_psfp_flt_check :: "psfp_limits \<Rightarrow> psfp_flt_sysfs_entry \<Rightarrow> int" where
  "edgx_psfp_flt_check lim d =
     (if \<not> (sf_str_hdl d = PSFP_WC \<or> (sf_str_hdl d \<ge> 0 \<and> sf_str_hdl d < int (max_str_cnt lim))) then - EINVAL
      else if \<not> (sf_pcp d = PSFP_WC \<or> (sf_pcp d \<ge> 0 \<and> sf_pcp d < int EDGX_BR_NUM_PCP)) then - EINVAL
      else if \<not> unat (fd_gate (sf_data d)) < max_gate_cnt lim then - EINVAL
      else if \<not> (fd_fmtr (sf_data d) = PSFP_FMTR_NONE
                 \<or> (fd_fmtr (sf_data d) \<ge> 0 \<and> fd_fmtr (sf_data d) < int (max_fmtr_cnt lim))) then - EINVAL
      else 0)"

section \<open>The hardware table\<close>

definition filter_pos :: "int \<Rightarrow> int \<Rightarrow> u16" where
  "filter_pos s p = FIELD_PREP 9 0 (word_of_int s :: u32) OR FIELD_PREP 13 11 (word_of_int p :: u32)"

text \<open>The three table registers for a filter, and for none.\<close>

definition filter_regs :: "psfp_limits \<Rightarrow> psfp_flt_data option \<Rightarrow> u16 \<times> u16 \<times> u16" where
  "filter_regs lim fltd =
     (case fltd of
        None \<Rightarrow> (FIELD_PREP 10 0 PSFP_MAX_FRAME_SZ OR prep_bool 14 False OR prep_bool 15 False,
                 FIELD_PREP 11 0 (0 :: u32) OR prep_bool 15 False,
                 FIELD_PREP 3 0 (0 :: u32) OR prep_bool 7 False)
      | Some d \<Rightarrow>
          let max_frame_sz = fd_max_sdu d + PSFP_FRAME_SZ_OVERHEAD;
              fmtr = (if fd_fmtr d \<noteq> PSFP_FMTR_NONE then word_of_int (fd_fmtr d) + of_nat (res_fmtr_cnt lim) else (0 :: u32))
          in (FIELD_PREP 10 0 (min max_frame_sz PSFP_MAX_FRAME_SZ)
                OR prep_bool 14 (fd_blk_oversz d) OR prep_bool 15 (fd_blk_oversz_ena d),
              FIELD_PREP 11 0 fmtr OR prep_bool 15 (fd_fmtr d \<noteq> PSFP_FMTR_NONE),
              FIELD_PREP 3 0 (fd_gate d) OR FILTER_GATE_ENA))"

text \<open>The busy bits of the table and of the counter capture; the bounds of the field are in range.\<close>

definition filter_busy :: "nat \<Rightarrow> iomem \<Rightarrow> bool" where
  "filter_busy base io \<longleftrightarrow> edgx_get16 0 io base FILTER_CMD 15 15 \<noteq> 0"

definition capture_busy :: "nat \<Rightarrow> iomem \<Rightarrow> bool" where
  "capture_busy base io \<longleftrightarrow> edgx_get16 0 io base CNT_CAPT0 8 8 \<noteq> 0"

definition edgx_psfp_flt_write_hw ::
  "device \<Rightarrow> psfp_flt \<Rightarrow> int \<Rightarrow> int \<Rightarrow> psfp_flt_data option \<Rightarrow> iomem \<Rightarrow> iomem option" where
  "edgx_psfp_flt_write_hw dev f s p fltd io =
     (let base = pf_iobase f;
          cmd = filter_pos s p OR FILTER_WRITE OR FILTER_TRANSFER;
          (table0, table1, table2) = filter_regs (pf_limits f) fltd;
          io = edgx_wr16 io base FILTER_TBL_0 table0;
          io = edgx_wr16 io base FILTER_TBL_1 table1;
          io = edgx_wr16 io base FILTER_TBL_2 table2;
          io = edgx_wr16 io base FILTER_CMD cmd
      in wait_clear dev (filter_busy base) io)"

definition edgx_psfp_flt_read_hw ::
  "device \<Rightarrow> psfp_flt \<Rightarrow> int \<Rightarrow> int \<Rightarrow> iomem \<Rightarrow> (psfp_flt_data \<times> iomem) option" where
  "edgx_psfp_flt_read_hw dev f s p io = do {
     let base = pf_iobase f;
     io \<leftarrow> wait_clear dev (filter_busy base) (edgx_wr16 io base FILTER_CMD (filter_pos s p OR FILTER_TRANSFER));
     let table0 = edgx_rd16 io base FILTER_TBL_0;
     let table1 = edgx_rd16 io base FILTER_TBL_1;
     let table2 = edgx_rd16 io base FILTER_TBL_2;
     let max_frame_sz = (ucast (FIELD_GET 10 0 table0) :: u32);
     Some (\<lparr>fd_gate = (if FIELD_GET 7 7 table2 \<noteq> 0 then ucast (FIELD_GET 3 0 table2) else 0),
            fd_max_sdu = max_frame_sz - PSFP_FRAME_SZ_OVERHEAD,
            fd_fmtr = (if FIELD_GET 15 15 table1 \<noteq> 0
                       then sint ((ucast (FIELD_GET 11 0 table1) :: u32) - of_nat (res_fmtr_cnt (pf_limits f))) else 0),
            fd_blk_oversz_ena = (FIELD_GET 15 15 table0 \<noteq> 0),
            fd_blk_oversz = (FIELD_GET 14 14 table0 \<noteq> 0)\<rparr>, io)
   }"

section \<open>Counters\<close>

definition edgx_psfp_flt_str_get_cnt_hw ::
  "device \<Rightarrow> psfp_flt \<Rightarrow> int \<Rightarrow> int \<Rightarrow> iomem \<Rightarrow> (psfp_flt_cnt \<times> iomem) option" where
  "edgx_psfp_flt_str_get_cnt_hw dev f s p io = do {
     let base = pf_iobase f;
     let capture = FIELD_PREP 2 0 (word_of_int p :: u8) OR FIELD_PREP 15 4 (word_of_int s :: u16);
     io \<leftarrow> wait_clear dev (capture_busy base) (edgx_wr16 io base CNT_CAPT5 capture);
     Some (\<lparr>raw_matching = edgx_rd32 io base CNT_MATCHING, raw_passing = edgx_rd32 io base CNT_P_SGATE,
            raw_sdu = edgx_rd32 io base CNT_P_FRAMESIZE, raw_red = edgx_rd32 io base CNT_P_DROP\<rparr>, io)
   }"

definition edgx_psfp_flt_update_cnt_ref :: "psfp_flt_cnt \<Rightarrow> psfp_flt_entry \<Rightarrow> psfp_flt_entry" where
  "edgx_psfp_flt_update_cnt_ref cur e =
     e\<lparr>fe_cnt_ref := \<lparr>raw_matching = raw_matching cur - raw_matching (fe_cnt_ref e),
                      raw_passing = raw_passing cur - raw_passing (fe_cnt_ref e),
                      raw_sdu = raw_sdu cur - raw_sdu (fe_cnt_ref e),
                      raw_red = raw_red cur - raw_red (fe_cnt_ref e)\<rparr>\<rparr>"

definition edgx_psfp_flt_get_user_cnt :: "psfp_flt_cnt \<Rightarrow> psfp_flt_cnt option \<Rightarrow> psfp_cnt_type \<Rightarrow> u32" where
  "edgx_psfp_flt_get_user_cnt cur ref_opt cnt_type =
     (let ref = (case ref_opt of None \<Rightarrow> \<lparr>raw_matching = 0, raw_passing = 0, raw_sdu = 0, raw_red = 0\<rparr> | Some r \<Rightarrow> r)
      in case cnt_type of
           PSFP_CNT_MATCHING_FRAMES \<Rightarrow> raw_matching cur - raw_matching ref
         | PSFP_CNT_PASSING_FRAMES \<Rightarrow> raw_passing cur - raw_passing ref
         | PSFP_CNT_PASSING_SDU \<Rightarrow> raw_sdu cur - raw_sdu ref
         | PSFP_CNT_RED_FRAMES \<Rightarrow> raw_red cur - raw_red ref
         | PSFP_CNT_NOT_PASSING_FRAMES \<Rightarrow>
             raw_matching cur - raw_matching ref - raw_passing cur + raw_passing ref
         | PSFP_CNT_NOT_PASSING_SDU \<Rightarrow>
             raw_matching cur - raw_matching ref - raw_sdu cur + raw_sdu ref)"

text \<open>The entry of a number replaced.\<close>

definition upd_flt :: "nat \<Rightarrow> (psfp_flt_entry \<Rightarrow> psfp_flt_entry) \<Rightarrow> psfp_flt \<Rightarrow> psfp_flt" where
  "upd_flt n g f = f\<lparr>flt_root := map (\<lambda>e. if fe_filter e = n then g e else e) (flt_root f)\<rparr>"

definition edgx_psfp_flt_upd_cnt ::
  "device \<Rightarrow> nat option \<Rightarrow> int \<Rightarrow> int \<Rightarrow> nat option \<Rightarrow> flt_sys \<Rightarrow> flt_sys option" where
  "edgx_psfp_flt_upd_cnt dev trigger s p eff y = do {
     row \<leftarrow> nth_opt (cur_sub (pf y)) (nat s);
     cur \<leftarrow> nth_opt row (nat p);
     if eff = cur then Some y
     else do {
       update_eff \<leftarrow> (case eff of None \<Rightarrow> Some False
                      | Some n \<Rightarrow> do { e \<leftarrow> deref_flt (pf y) n; Some (\<not> edgx_psfp_flt_str_is_wc (fe_key e)) });
       update_cur \<leftarrow> (case cur of None \<Rightarrow> Some False
                      | Some n \<Rightarrow> if trigger = eff
                                  then do { e \<leftarrow> deref_flt (pf y) n; Some (\<not> edgx_psfp_flt_str_is_wc (fe_key e)) }
                                  else Some False);
       if \<not> update_eff \<and> \<not> update_cur then Some y
       else do {
         (cnt, io) \<leftarrow> edgx_psfp_flt_str_get_cnt_hw dev (pf y) s p (fio y);
         let y = y\<lparr>fio := io\<rparr>;
         let y = (if update_eff then set_pf (upd_flt (the eff) (edgx_psfp_flt_update_cnt_ref cnt)) y else y);
         Some (if update_cur then set_pf (upd_flt (the cur) (edgx_psfp_flt_update_cnt_ref cnt)) y else y)
       }
     }
   }"

section \<open>Update of the hardware table\<close>

definition edgx_psfp_flt_upd_hw_iter ::
  "device \<Rightarrow> nat option \<Rightarrow> nat option \<Rightarrow> int \<Rightarrow> int \<Rightarrow> flt_sys \<Rightarrow> flt_sys option" where
  "edgx_psfp_flt_upd_hw_iter dev trigger eff s p y = do {
     fltd \<leftarrow> (case eff of None \<Rightarrow> Some None | Some n \<Rightarrow> map_option (\<lambda>e. Some (fe_data e)) (deref_flt (pf y) n));
     io \<leftarrow> edgx_psfp_flt_write_hw dev (pf y) s p fltd (fio y);
     let y = y\<lparr>fio := io\<rparr>;
     y \<leftarrow> (if trigger \<noteq> None then edgx_psfp_flt_upd_cnt dev trigger s p eff y else Some y);
     row \<leftarrow> nth_opt (cur_sub (pf y)) (nat s);
     row' \<leftarrow> upd_opt row (nat p) eff;
     Some (set_pf (\<lambda>f. f\<lparr>cur_sub := (cur_sub f)[nat s := row']\<rparr>) y)
   }"

definition edgx_psfp_flt_get_cand :: "psfp_flt \<Rightarrow> nat option \<Rightarrow> int \<Rightarrow> int \<Rightarrow> nat option" where
  "edgx_psfp_flt_get_cand f trigger s p =
     (if PSFP_FLT_SUB_IS_VALID f trigger then trigger else edgx_psfp_flt_first_sub f s p)"

text \<open>\<open>_edgx_psfp_flt_for_each_one\<close>: the candidates are those of the stream and priority, of the
  priority for all streams, of the stream for all priorities, and of all.\<close>

definition psfp_flt_each ::
  "device \<Rightarrow> nat option \<Rightarrow> nat option list \<Rightarrow> int \<Rightarrow> int \<Rightarrow> flt_sys \<Rightarrow> flt_sys option" where
  "psfp_flt_each dev trigger cand s p y =
     edgx_psfp_flt_upd_hw_iter dev trigger (edgx_psfp_flt_str_find_eff_sub cand) s p y"

definition edgx_psfp_flt_for_each_one :: "device \<Rightarrow> nat option \<Rightarrow> int \<Rightarrow> int \<Rightarrow> flt_sys \<Rightarrow> flt_sys option" where
  "edgx_psfp_flt_for_each_one dev trigger s p y =
     psfp_flt_each dev trigger
       [edgx_psfp_flt_get_cand (pf y) trigger s p,
        edgx_psfp_flt_first_sub (pf y) s PSFP_WC,
        edgx_psfp_flt_first_sub (pf y) PSFP_WC p,
        edgx_psfp_flt_first_sub (pf y) PSFP_WC PSFP_WC] s p y"

definition edgx_psfp_flt_for_each_wc :: "device \<Rightarrow> nat option \<Rightarrow> flt_sys \<Rightarrow> flt_sys option" where
  "edgx_psfp_flt_for_each_wc dev trigger y =
     (let wc = edgx_psfp_flt_get_cand (pf y) trigger PSFP_WC PSFP_WC;
          wc_str = map (\<lambda>p. edgx_psfp_flt_first_sub (pf y) PSFP_WC (int p)) [0..<EDGX_BR_NUM_PCP]
      in for_list (\<lambda>s y.
           let wc_pcp = edgx_psfp_flt_first_sub (pf y) (int s) PSFP_WC
           in for_list (\<lambda>p y.
                psfp_flt_each dev trigger
                  [edgx_psfp_flt_first_sub (pf y) (int s) (int p), wc_str ! p, wc_pcp, wc] (int s) (int p) y)
              [0..<EDGX_BR_NUM_PCP] y)
         [0..<max_str_cnt (pf_limits (pf y))] y)"

definition edgx_psfp_flt_for_each_wc_pcp :: "device \<Rightarrow> nat option \<Rightarrow> int \<Rightarrow> flt_sys \<Rightarrow> flt_sys option" where
  "edgx_psfp_flt_for_each_wc_pcp dev trigger s y =
     (let wc_pcp = edgx_psfp_flt_get_cand (pf y) trigger s PSFP_WC;
          wc = edgx_psfp_flt_first_sub (pf y) PSFP_WC PSFP_WC
      in for_list (\<lambda>p y.
           psfp_flt_each dev trigger
             [edgx_psfp_flt_first_sub (pf y) s (int p), edgx_psfp_flt_first_sub (pf y) PSFP_WC (int p), wc_pcp, wc]
             s (int p) y)
         [0..<EDGX_BR_NUM_PCP] y)"

definition edgx_psfp_flt_for_each_wc_str_hdl :: "device \<Rightarrow> nat option \<Rightarrow> int \<Rightarrow> flt_sys \<Rightarrow> flt_sys option" where
  "edgx_psfp_flt_for_each_wc_str_hdl dev trigger p y =
     (let wc_str = edgx_psfp_flt_get_cand (pf y) trigger PSFP_WC p;
          wc = edgx_psfp_flt_first_sub (pf y) PSFP_WC PSFP_WC
      in for_list (\<lambda>s y.
           psfp_flt_each dev trigger
             [edgx_psfp_flt_first_sub (pf y) (int s) p, wc_str, edgx_psfp_flt_first_sub (pf y) (int s) PSFP_WC, wc]
             (int s) p y)
         [0..<max_str_cnt (pf_limits (pf y))] y)"

definition edgx_psfp_flt_for_each :: "device \<Rightarrow> nat option \<Rightarrow> int \<Rightarrow> int \<Rightarrow> flt_sys \<Rightarrow> flt_sys option" where
  "edgx_psfp_flt_for_each dev trigger s p y =
     (if s = PSFP_WC \<and> p = PSFP_WC then edgx_psfp_flt_for_each_wc dev trigger y
      else if s \<noteq> PSFP_WC \<and> p = PSFP_WC then edgx_psfp_flt_for_each_wc_pcp dev trigger s y
      else if s = PSFP_WC \<and> p \<noteq> PSFP_WC then edgx_psfp_flt_for_each_wc_str_hdl dev trigger p y
      else edgx_psfp_flt_for_each_one dev trigger s p y)"

definition edgx_psfp_flt_upd_hw :: "device \<Rightarrow> nat option \<Rightarrow> flt_sys \<Rightarrow> flt_sys option" where
  "edgx_psfp_flt_upd_hw dev sub y = do {
     (s, p) \<leftarrow> (case sub of None \<Rightarrow> Some (PSFP_WC, PSFP_WC) | Some n \<Rightarrow> map_option fe_key (deref_flt (pf y) n));
     edgx_psfp_flt_for_each dev sub s p y
   }"

definition edgx_psfp_flt_init :: "device \<Rightarrow> nat \<Rightarrow> psfp_limits \<Rightarrow> iomem \<Rightarrow> flt_sys option" where
  "edgx_psfp_flt_init dev iobase lim io =
     edgx_psfp_flt_upd_hw dev None
       \<lparr>pf = \<lparr>pf_iobase = iobase, flt_root = [], str_root = [], pf_limits = lim,
              cur_sub = replicate (max_str_cnt lim) (replicate EDGX_BR_NUM_PCP None)\<rparr>, fio = io\<rparr>"

section \<open>Operations of the user\<close>

text \<open>
  The result of the insertions decides whether the entry stays; the entries that a failed insertion
  took out again are those of before.
\<close>

definition edgx_psfp_flt_add :: "device \<Rightarrow> nat \<Rightarrow> psfp_flt_sysfs_entry \<Rightarrow> flt_sys \<Rightarrow> (int \<times> flt_sys) option" where
  "edgx_psfp_flt_add dev no d y =
     (let key = (sf_str_hdl d, sf_pcp d);
          flte = edgx_psfp_flt_create no key (sf_data d);
          found = edgx_psfp_flt_str_search (str_root (pf y)) (fst key) (snd key);
          stre = (case found of Some e \<Rightarrow> e | None \<Rightarrow> edgx_psfp_flt_str_create (fst key) (snd key));
          (ret, subs) = edgx_psfp_flt_sub_insert (se_sub_root stre) no
      in if ret \<noteq> 0 then Some (ret, y)
         else
           let (ret, strs) = (case found of
                 Some e \<Rightarrow> (0, set_subs key subs (str_root (pf y)))
               | None \<Rightarrow> edgx_psfp_flt_str_insert (str_root (pf y)) (stre\<lparr>se_sub_root := subs\<rparr>))
           in if ret \<noteq> 0 then Some (ret, y)
              else
                let (ret, flts) = edgx_psfp_flt_insert (flt_root (pf y)) flte
                in if ret \<noteq> 0 then Some (ret, y)
                   else
                     let y = set_pf (\<lambda>f. f\<lparr>str_root := strs, flt_root := flts\<rparr>) y
                     in do {
                       y \<leftarrow> (if hd subs = no then edgx_psfp_flt_upd_hw dev (Some no) y else Some y);
                       Some (0, y)
                     })"

definition flt_tbl_write ::
  "device \<Rightarrow> psfp_flt_sysfs_entry \<Rightarrow> int \<Rightarrow> int \<Rightarrow> flt_sys \<Rightarrow> (int \<times> flt_sys) option" where
  "flt_tbl_write dev d ofs count y = do {
     r \<leftarrow> edgx_sysfs_tbl_params ofs count 22;
     case r of Inl e \<Rightarrow> Some (- EINVAL, y)
     | Inr idx \<Rightarrow>
         if idx \<ge> PSFP_MAX_NO_FILTERS then Some (- EINVAL, y)
         else if edgx_psfp_flt_check (pf_limits (pf y)) d \<noteq> 0 then Some (- EINVAL, y)
         else if edgx_psfp_flt_search (flt_root (pf y)) (nat idx) \<noteq> None then Some (- EEXIST, y)
         else do {
           (ret, y) \<leftarrow> edgx_psfp_flt_add dev (nat idx) d y;
           Some (if ret \<noteq> 0 then ret else count, y)
         }
   }"

definition flt_tbl_read ::
  "device \<Rightarrow> int \<Rightarrow> int \<Rightarrow> flt_sys \<Rightarrow> (int \<times> psfp_flt_sysfs_entry option \<times> flt_sys) option" where
  "flt_tbl_read dev ofs count y = do {
     r \<leftarrow> edgx_sysfs_tbl_params ofs count 22;
     case r of Inl e \<Rightarrow> Some (- EINVAL, None, y)
     | Inr idx \<Rightarrow>
         if idx \<ge> PSFP_MAX_NO_FILTERS then Some (- EINVAL, None, y)
         else case edgx_psfp_flt_search (flt_root (pf y)) (nat idx) of
           None \<Rightarrow> Some (- ENOENT, None, y)
         | Some flte \<Rightarrow>
             let (s, p) = fe_key flte; d = \<lparr>sf_str_hdl = s, sf_pcp = p, sf_data = fe_data flte\<rparr>
             in if edgx_psfp_flt_str_is_wc (s, p) then Some (count, Some d, y)
                else do {
                  (fltd, io) \<leftarrow> edgx_psfp_flt_read_hw dev (pf y) s p (fio y);
                  Some (count, Some (d\<lparr>sf_data := (fe_data flte)\<lparr>fd_blk_oversz := fd_blk_oversz fltd\<rparr>\<rparr>), y\<lparr>fio := io\<rparr>)
                }
   }"

text \<open>The parsed number, \<open>None\<close> when the text is none. The sub-entry is erased before the update, the
  filter entry after it.\<close>

definition flt_del_store :: "device \<Rightarrow> nat option \<Rightarrow> int \<Rightarrow> flt_sys \<Rightarrow> (int \<times> flt_sys) option" where
  "flt_del_store dev no_opt count y =
     (case no_opt of None \<Rightarrow> Some (- EINVAL, y)
      | Some no \<Rightarrow>
          case edgx_psfp_flt_search (flt_root (pf y)) no of
            None \<Rightarrow> Some (- ENOENT, y)
          | Some flte \<Rightarrow> do {
              let key = fe_key flte;
              stre \<leftarrow> edgx_psfp_flt_str_search (str_root (pf y)) (fst key) (snd key);
              let was_first = (case se_sub_root stre of [] \<Rightarrow> False | n # ns \<Rightarrow> n = no);
              let subs = removeAll no (se_sub_root stre);
              let strs = (if subs = [] then erase_str key (str_root (pf y)) else set_subs key subs (str_root (pf y)));
              let y = set_pf (\<lambda>f. f\<lparr>str_root := strs\<rparr>) y;
              y \<leftarrow> (if was_first then edgx_psfp_flt_upd_hw dev (Some no) y else Some y);
              Some (count, set_pf (\<lambda>f. f\<lparr>flt_root := filter (\<lambda>e. fe_filter e \<noteq> no) (flt_root f)\<rparr>) y)
            })"

definition edgx_psfp_flt_get_cnt ::
  "device \<Rightarrow> nat \<Rightarrow> psfp_cnt_type \<Rightarrow> flt_sys \<Rightarrow> (int \<times> u32 \<times> flt_sys) option" where
  "edgx_psfp_flt_get_cnt dev no cnt_type y =
     (case edgx_psfp_flt_search (flt_root (pf y)) no of
        None \<Rightarrow> Some (- ENOENT, 0, y)
      | Some flte \<Rightarrow>
          let (s, p) = fe_key flte
          in if edgx_psfp_flt_str_is_wc (s, p) then Some (0, 0, y)
             else do {
               row \<leftarrow> nth_opt (cur_sub (pf y)) (nat s);
               cur \<leftarrow> nth_opt row (nat p);
               if cur \<noteq> Some no
               then Some (0, edgx_psfp_flt_get_user_cnt (fe_cnt_ref flte) None cnt_type, y)
               else do {
                 (cnt_hw, io) \<leftarrow> edgx_psfp_flt_str_get_cnt_hw dev (pf y) s p (fio y);
                 Some (0, edgx_psfp_flt_get_user_cnt cnt_hw (Some (fe_cnt_ref flte)) cnt_type, y\<lparr>fio := io\<rparr>)
               }
             })"

text \<open>The six counter files differ in the counter only; the buffer keeps its content on an error.\<close>

definition flt_str_cnt_read ::
  "device \<Rightarrow> psfp_cnt_type \<Rightarrow> int \<Rightarrow> int \<Rightarrow> flt_sys \<Rightarrow> (int \<times> u32 option \<times> flt_sys) option" where
  "flt_str_cnt_read dev cnt_type ofs count y = do {
     r \<leftarrow> edgx_sysfs_tbl_params ofs count 4;
     case r of Inl e \<Rightarrow> Some (- EINVAL, None, y)
     | Inr idx \<Rightarrow>
         if idx \<ge> PSFP_MAX_NO_FILTERS then Some (- EINVAL, None, y)
         else if idx \<ge> int (max_flt_cnt (pf_limits (pf y))) then Some (- EINVAL, None, y)
         else do {
           (ret, cnt, y) \<leftarrow> edgx_psfp_flt_get_cnt dev (nat idx) cnt_type y;
           Some (if ret \<noteq> 0 then (ret, None, y) else (count, Some cnt, y))
         }
   }"

definition flt_cnt_matching_frames_read where
  "flt_cnt_matching_frames_read dev = flt_str_cnt_read dev PSFP_CNT_MATCHING_FRAMES"
definition flt_cnt_passing_frames_read where
  "flt_cnt_passing_frames_read dev = flt_str_cnt_read dev PSFP_CNT_PASSING_FRAMES"
definition flt_cnt_not_passing_frames_read where
  "flt_cnt_not_passing_frames_read dev = flt_str_cnt_read dev PSFP_CNT_NOT_PASSING_FRAMES"
definition flt_cnt_passing_sdu_read where
  "flt_cnt_passing_sdu_read dev = flt_str_cnt_read dev PSFP_CNT_PASSING_SDU"
definition flt_cnt_not_passing_sdu_read where
  "flt_cnt_not_passing_sdu_read dev = flt_str_cnt_read dev PSFP_CNT_NOT_PASSING_SDU"
definition flt_cnt_red_frames_read where
  "flt_cnt_red_frames_read dev = flt_str_cnt_read dev PSFP_CNT_RED_FRAMES"

end
