(* ===== verification/PsfpFltProps.thy ===== *)
theory PsfpFltProps
  imports PsfpFlt
begin

text \<open>
  The stream filters: the trees of filters, streams and sub-entries are an index of one ordered list of
  filters, the update after an addition or a removal makes the lowest matching filter the effective
  one for every stream and priority, and the counters of the other filters go on where they were.
  What the driver expects of the hardware is the contract \<open>flt_contract\<close>.
\<close>

unbundle bit_operations_syntax

section \<open>The effective filter\<close>

definition key_matches :: "int \<times> int \<Rightarrow> int \<Rightarrow> int \<Rightarrow> bool" where
  "key_matches k s p \<longleftrightarrow> (fst k = PSFP_WC \<or> fst k = s) \<and> (snd k = PSFP_WC \<or> snd k = p)"

text \<open>The reference: the first filter of the ordered list that matches.\<close>

definition first_with :: "(psfp_flt_entry \<Rightarrow> bool) \<Rightarrow> psfp_flt_entry list \<Rightarrow> nat option" where
  "first_with P es = map_option fe_filter (find P es)"

definition lowest :: "psfp_flt_entry list \<Rightarrow> int \<Rightarrow> int \<Rightarrow> nat option" where
  "lowest es s p = first_with (\<lambda>e. key_matches (fe_key e) s p) es"

definition flts_ordered :: "psfp_flt_entry list \<Rightarrow> bool" where
  "flts_ordered es \<longleftrightarrow> sorted_wrt (<) (map fe_filter es)"

lemma flts_ordered_simps [simp]:
  "flts_ordered []"
  "flts_ordered (e # es) \<longleftrightarrow> (\<forall>x \<in> set es. fe_filter e < fe_filter x) \<and> flts_ordered es"
  by (auto simp: flts_ordered_def)

lemma flts_ordered_filter: "flts_ordered es \<Longrightarrow> flts_ordered (filter P es)"
  by (induction es) auto

lemma flts_ordered_inj: "flts_ordered es \<Longrightarrow> e \<in> set es \<Longrightarrow> e' \<in> set es \<Longrightarrow> fe_filter e = fe_filter e' \<Longrightarrow> e = e'"
  by (induction es) auto

lemma first_with_None: "first_with P es = None \<longleftrightarrow> (\<forall>e \<in> set es. \<not> P e)"
  by (auto simp: first_with_def find_None_iff)

lemma first_with_Some:
  assumes "flts_ordered es"
  shows "first_with P es = Some n \<longleftrightarrow>
    (\<exists>e \<in> set es. fe_filter e = n \<and> P e) \<and> (\<forall>e \<in> set es. P e \<longrightarrow> n \<le> fe_filter e)"
  using assms by (induction es) (auto simp: first_with_def intro: order_less_imp_le dest: leD)

text \<open>The lowest of several candidates.\<close>

lemma find_eff_from_spec:
  "find_eff_from eff cs = None \<longleftrightarrow> eff = None \<and> (\<forall>c \<in> set cs. c = None)"
  "find_eff_from eff cs = Some n \<longleftrightarrow>
     (eff = Some n \<or> Some n \<in> set cs) \<and> (\<forall>m. eff = Some m \<or> Some m \<in> set cs \<longrightarrow> n \<le> m)"
proof (induction cs arbitrary: eff n)
  case (Cons c cs)
  {
    case 1
    show ?case by (simp add: Cons.IH(1) split: option.split)
  next
    case 2
    show ?case by (auto simp: Cons.IH(2) split: option.split)
  }
qed auto

definition first_of :: "psfp_flt_entry list \<Rightarrow> int \<Rightarrow> int \<Rightarrow> nat option" where
  "first_of es s p = first_with (\<lambda>e. fe_key e = (s, p)) es"

lemma first_ofD:
  assumes "flts_ordered es" "first_of es a b = Some m"
  shows "\<exists>e \<in> set es. fe_filter e = m \<and> fe_key e = (a, b)"
  using assms(2) unfolding first_of_def first_with_Some [OF assms(1)] by blast

lemma eff_lowest:
  assumes "flts_ordered es"
    and "set cs = {first_of es s p, first_of es PSFP_WC p, first_of es s PSFP_WC, first_of es PSFP_WC PSFP_WC}"
  shows "edgx_psfp_flt_str_find_eff_sub cs = lowest es s p"
proof (cases "lowest es s p")
  case None
  then have no: "\<forall>e \<in> set es. \<not> key_matches (fe_key e) s p" by (simp add: lowest_def first_with_None)
  have "first_of es a b = None" if "key_matches (a, b) s p" for a b
    unfolding first_of_def first_with_None using no that by fastforce
  then have "\<forall>c \<in> set cs. c = None" unfolding assms(2) by (simp add: key_matches_def)
  then show ?thesis using None by (simp add: edgx_psfp_flt_str_find_eff_sub_def find_eff_from_spec)
next
  case (Some n)
  then have n: "\<exists>e \<in> set es. fe_filter e = n \<and> key_matches (fe_key e) s p"
    "\<forall>e \<in> set es. key_matches (fe_key e) s p \<longrightarrow> n \<le> fe_filter e"
    unfolding lowest_def first_with_Some [OF assms(1)] by simp_all
  have le: "n \<le> m" if "Some m \<in> set cs" for m
  proof -
    have "\<exists>a b. first_of es a b = Some m \<and> key_matches (a, b) s p"
      using that unfolding assms(2) insert_iff empty_iff
      by (elim disjE FalseE) (rule exI, rule exI, rule conjI, erule sym, simp add: key_matches_def)+
    then obtain a b where "first_of es a b = Some m" and k: "key_matches (a, b) s p" by blast
    then obtain e where "e \<in> set es" "fe_filter e = m" "fe_key e = (a, b)"
      using first_ofD [OF assms(1)] by blast
    with n(2) k show ?thesis by auto
  qed
  from n(1) obtain e where e: "e \<in> set es" "fe_filter e = n" "key_matches (fe_key e) s p" by blast
  obtain a b where ab: "fe_key e = (a, b)" by (cases "fe_key e")
  have "first_of es a b = Some n"
    unfolding first_of_def first_with_Some [OF assms(1)]
  proof (intro conjI ballI impI)
    show "\<exists>e \<in> set es. fe_filter e = n \<and> fe_key e = (a, b)" using e ab by blast
    show "n \<le> fe_filter e'" if "e' \<in> set es" "fe_key e' = (a, b)" for e'
      using n(2) that e(3) ab by simp
  qed
  moreover have "first_of es a b \<in> set cs"
    using e(3) ab unfolding assms(2) by (auto simp: key_matches_def)
  ultimately show ?thesis
    using le Some by (auto simp: edgx_psfp_flt_str_find_eff_sub_def find_eff_from_spec)
qed

section \<open>The trees\<close>

definition str_key :: "psfp_flt_str_entry \<Rightarrow> int \<times> int" where
  "str_key e = (se_str_hdl e, se_pcp e)"

text \<open>The comparison of the keys that the code of the stream tree spells out.\<close>

definition str_cmp :: "int \<times> int \<Rightarrow> int \<times> int \<Rightarrow> int" where
  "str_cmp a b = (if fst a < fst b then - 1 else if fst a > fst b then 1
                  else if snd a < snd b then - 1 else if snd a > snd b then 1 else 0)"

interpretation sk: key_compare str_cmp "\<lambda>_. True"
  by unfold_locales (auto simp: str_cmp_def prod_eq_iff split: if_split_asm)

text \<open>The stream entries list, for every key that a filter of the list has, the filters with this key.\<close>

definition index_ok :: "psfp_flt_str_entry list \<Rightarrow> psfp_flt_entry list \<Rightarrow> bool" where
  "index_ok strs es \<longleftrightarrow> sk.ordered (map str_key strs)
     \<and> str_key ` set strs = fe_key ` set es
     \<and> (\<forall>x \<in> set strs. se_sub_root x = map fe_filter (filter (\<lambda>e. fe_key e = str_key x) es))"

lemma str_search_spec:
  assumes "sk.ordered (map str_key strs)"
  shows "edgx_psfp_flt_str_search strs s p = find (\<lambda>x. str_key x = (s, p)) strs"
  using assms
proof (induction strs)
  case (Cons x xs)
  have step: "edgx_psfp_flt_str_search (x # xs) s p =
    (if str_cmp (s, p) (str_key x) < 0 then None
     else if str_cmp (s, p) (str_key x) > 0 then edgx_psfp_flt_str_search xs s p else Some x)"
    by (simp add: str_cmp_def str_key_def)
  have IH: "edgx_psfp_flt_str_search xs s p = find (\<lambda>x. str_key x = (s, p)) xs"
    using Cons by (simp add: sk.ordered_Cons)
  have below: "str_cmp (s, p) (str_key x) < 0 \<Longrightarrow> (s, p) \<notin> set (map str_key (x # xs))"
    using sk.ordered_below_notin [of "str_key x" "map str_key xs" "(s, p)"] Cons.prems by simp
  have zero: "str_cmp (s, p) (str_key x) = 0 \<longleftrightarrow> str_key x = (s, p)"
    using sk.cmp_zero by auto
  have "find (\<lambda>x. str_key x = (s, p)) xs = None" if "(s, p) \<notin> set (map str_key (x # xs))"
    using that by (auto simp: find_None_iff image_iff dest: sym)
  then show ?case unfolding step IH using below zero by auto
qed simp

lemma str_insert_spec:
  assumes "sk.ordered (map str_key strs)" "str_key new \<notin> str_key ` set strs"
  shows "\<exists>strs'. edgx_psfp_flt_str_insert strs new = (0, strs') \<and> sk.ordered (map str_key strs')
     \<and> set strs' = insert new (set strs)"
  using assms
proof (induction strs)
  case Nil
  then show ?case by (simp add: sk.ordered_Cons sk.ordered_Nil)
next
  case (Cons x xs)
  then obtain xs' where xs': "edgx_psfp_flt_str_insert xs new = (0, xs')" "sk.ordered (map str_key xs')"
    "set xs' = insert new (set xs)" by (auto simp: sk.ordered_Cons)
  have ins: "edgx_psfp_flt_str_insert (x # xs) new =
    (if str_cmp (str_key new) (str_key x) < 0 then (0, new # x # xs)
     else if str_cmp (str_key new) (str_key x) > 0 then (0, x # xs') else (- EINVAL, x # xs))"
    using xs'(1) by (simp add: str_cmp_def str_key_def)
  have ne: "str_cmp (str_key new) (str_key x) \<noteq> 0"
    using Cons.prems(2) sk.cmp_zero by auto
  show ?case
  proof (cases "str_cmp (str_key new) (str_key x) < 0")
    case True
    then show ?thesis using ins Cons.prems sk.ordered_below [of "str_key x" "map str_key xs" "str_key new"] by auto
  next
    case False
    then have "str_cmp (str_key x) (str_key new) < 0" using ne sk.cmp_above by blast
    then show ?thesis using False ne ins xs' Cons.prems(1) by (auto simp: sk.ordered_Cons)
  qed
qed

lemma flt_search_spec:
  "flts_ordered es \<Longrightarrow> edgx_psfp_flt_search es n = find (\<lambda>e. fe_filter e = n) es"
proof (induction es)
  case (Cons e es)
  have "find (\<lambda>e. fe_filter e = n) es = None" if "n < fe_filter e"
    using Cons.prems that unfolding find_None_iff by fastforce
  then show ?case using Cons by auto
qed simp

lemma flt_insert_spec:
  assumes "flts_ordered es" "\<forall>e \<in> set es. fe_filter e \<noteq> fe_filter new"
  shows "\<exists>es'. edgx_psfp_flt_insert es new = (0, es') \<and> flts_ordered es' \<and> set es' = insert new (set es)"
  using assms
proof (induction es)
  case (Cons e es)
  then obtain es' where "edgx_psfp_flt_insert es new = (0, es')" "flts_ordered es'" "set es' = insert new (set es)" by auto
  then show ?case using Cons.prems by (cases "fe_filter new < fe_filter e") (auto dest: less_trans)
qed simp

lemma sub_insert_spec:
  assumes "sorted_wrt (<) ns" "new \<notin> set ns"
  shows "\<exists>ns'. edgx_psfp_flt_sub_insert ns new = (0, ns') \<and> sorted_wrt (<) ns' \<and> set ns' = insert new (set ns)"
  using assms
proof (induction ns)
  case (Cons n ns)
  then obtain ns' where "edgx_psfp_flt_sub_insert ns new = (0, ns')" "sorted_wrt (<) ns'" "set ns' = insert new (set ns)" by auto
  then show ?case using Cons.prems by (cases "new < n") (auto dest: less_trans)
qed simp

lemma find_filter: "find P xs = (case filter P xs of [] \<Rightarrow> None | x # _ \<Rightarrow> Some x)"
  by (induction xs) auto

lemma first_sub_spec:
  assumes "index_ok (str_root f) es"
  shows "edgx_psfp_flt_first_sub f s p = first_of es s p"
proof (cases "find (\<lambda>x. str_key x = (s, p)) (str_root f)")
  case None
  then have "(s, p) \<notin> fe_key ` set es"
    using assms unfolding index_ok_def by (force simp: find_None_iff)
  then have "first_of es s p = None" unfolding first_of_def first_with_None by (metis imageI)
  then show ?thesis
    using None assms by (simp add: edgx_psfp_flt_first_sub_def index_ok_def str_search_spec)
next
  case (Some x)
  then have "x \<in> set (str_root f)" "str_key x = (s, p)" by (auto simp: find_Some_iff)
  then have "se_sub_root x = map fe_filter (filter (\<lambda>e. fe_key e = (s, p)) es)"
    using assms by (simp add: index_ok_def)
  then show ?thesis
    using Some assms
    by (simp add: edgx_psfp_flt_first_sub_def index_ok_def str_search_spec first_of_def first_with_def find_filter
        split: list.split)
qed

section \<open>The hardware\<close>

text \<open>
  The hardware table and the counters as the driver sees them: without a command under way, a write
  command stores the three registers at the position, a read command presents them, a capture
  presents the counters of a stream and priority; all of them end and change nothing else.
\<close>

type_synonym filter_table = "nat \<times> nat \<Rightarrow> u16 \<times> u16 \<times> u16"

definition cnt_regs :: "nat \<Rightarrow> iomem \<Rightarrow> psfp_flt_cnt" where
  "cnt_regs base io = \<lparr>raw_matching = edgx_rd32 io base CNT_MATCHING, raw_passing = edgx_rd32 io base CNT_P_SGATE,
     raw_sdu = edgx_rd32 io base CNT_P_FRAMESIZE, raw_red = edgx_rd32 io base CNT_P_DROP\<rparr>"

definition flt_contract ::
  "device \<Rightarrow> nat \<Rightarrow> (iomem \<Rightarrow> filter_table) \<Rightarrow> (iomem \<Rightarrow> nat \<times> nat \<Rightarrow> psfp_flt_cnt) \<Rightarrow> bool" where
  "flt_contract dev base tab cnt \<longleftrightarrow>
     (\<forall>io s p t0 t1 t2. \<not> filter_busy base io \<longrightarrow> s < 1024 \<longrightarrow> p < EDGX_BR_NUM_PCP \<longrightarrow>
        (\<exists>io'. wait_clear dev (filter_busy base)
            (edgx_wr16 (edgx_wr16 (edgx_wr16 (edgx_wr16 io base FILTER_TBL_0 t0) base FILTER_TBL_1 t1) base FILTER_TBL_2 t2)
               base FILTER_CMD (filter_pos (int s) (int p) OR FILTER_WRITE OR FILTER_TRANSFER)) = Some io'
          \<and> tab io' = (tab io)((s, p) := (t0, t1, t2)) \<and> cnt io' = cnt io))
   \<and> (\<forall>io s p. \<not> filter_busy base io \<longrightarrow> s < 1024 \<longrightarrow> p < EDGX_BR_NUM_PCP \<longrightarrow>
        (\<exists>io'. wait_clear dev (filter_busy base) (edgx_wr16 io base FILTER_CMD (filter_pos (int s) (int p) OR FILTER_TRANSFER)) = Some io'
          \<and> tab io' = tab io \<and> cnt io' = cnt io
          \<and> tab io (s, p) = (edgx_rd16 io' base FILTER_TBL_0, edgx_rd16 io' base FILTER_TBL_1, edgx_rd16 io' base FILTER_TBL_2)))
   \<and> (\<forall>io s p. \<not> filter_busy base io \<longrightarrow> s < 1024 \<longrightarrow> p < EDGX_BR_NUM_PCP \<longrightarrow>
        (\<exists>io'. wait_clear dev (capture_busy base)
            (edgx_wr16 io base CNT_CAPT5 (FIELD_PREP 2 0 (word_of_int (int p) :: u8) OR FIELD_PREP 15 4 (word_of_int (int s) :: u16))) = Some io'
          \<and> \<not> filter_busy base io' \<and> tab io' = tab io \<and> cnt io' = cnt io \<and> cnt io (s, p) = cnt_regs base io'))"

definition idle :: "flt_sys \<Rightarrow> bool" where
  "idle y \<longleftrightarrow> \<not> filter_busy (pf_iobase (pf y)) (fio y)"

lemma flt_write_hwD:
  assumes "flt_contract dev (pf_iobase f) tab cnt" "s < 1024" "p < EDGX_BR_NUM_PCP" "\<not> filter_busy (pf_iobase f) io"
  shows "\<exists>io'. edgx_psfp_flt_write_hw dev f (int s) (int p) d io = Some io'
    \<and> tab io' = (tab io)((s, p) := filter_regs (pf_limits f) d) \<and> cnt io' = cnt io \<and> \<not> filter_busy (pf_iobase f) io'"
proof -
  obtain t0 t1 t2 where t: "filter_regs (pf_limits f) d = (t0, t1, t2)" by (cases "filter_regs (pf_limits f) d")
  have "\<exists>io'. wait_clear dev (filter_busy (pf_iobase f))
            (edgx_wr16 (edgx_wr16 (edgx_wr16 (edgx_wr16 io (pf_iobase f) FILTER_TBL_0 t0) (pf_iobase f) FILTER_TBL_1 t1) (pf_iobase f) FILTER_TBL_2 t2)
               (pf_iobase f) FILTER_CMD (filter_pos (int s) (int p) OR FILTER_WRITE OR FILTER_TRANSFER)) = Some io'
          \<and> tab io' = (tab io)((s, p) := (t0, t1, t2)) \<and> cnt io' = cnt io"
    using assms unfolding flt_contract_def by blast
  then show ?thesis unfolding edgx_psfp_flt_write_hw_def Let_def t prod.case using wait_clear_SomeD by blast
qed

lemma flt_get_cnt_hwD:
  assumes "flt_contract dev (pf_iobase f) tab cnt" "s < 1024" "p < EDGX_BR_NUM_PCP" "\<not> filter_busy (pf_iobase f) io"
  shows "\<exists>io'. edgx_psfp_flt_str_get_cnt_hw dev f (int s) (int p) io = Some (cnt io (s, p), io')
    \<and> tab io' = tab io \<and> cnt io' = cnt io \<and> \<not> filter_busy (pf_iobase f) io'"
proof -
  obtain io' where "wait_clear dev (capture_busy (pf_iobase f))
            (edgx_wr16 io (pf_iobase f) CNT_CAPT5 (FIELD_PREP 2 0 (word_of_int (int p) :: u8) OR FIELD_PREP 15 4 (word_of_int (int s) :: u16))) = Some io'"
    "\<not> filter_busy (pf_iobase f) io'" "tab io' = tab io" "cnt io' = cnt io" "cnt io (s, p) = cnt_regs (pf_iobase f) io'"
    using assms unfolding flt_contract_def by blast
  then show ?thesis unfolding edgx_psfp_flt_str_get_cnt_hw_def Let_def cnt_regs_def by simp
qed

section \<open>One step of the update\<close>

definition cur_at :: "psfp_flt \<Rightarrow> nat \<Rightarrow> nat \<Rightarrow> nat option" where
  "cur_at f s p = cur_sub f ! s ! p"

definition set_cur :: "nat \<Rightarrow> nat \<Rightarrow> nat option \<Rightarrow> psfp_flt \<Rightarrow> psfp_flt" where
  "set_cur s p v f = f\<lparr>cur_sub := (cur_sub f)[s := (cur_sub f ! s)[p := v]]\<rparr>"

definition cur_shape :: "psfp_flt \<Rightarrow> bool" where
  "cur_shape f \<longleftrightarrow> length (cur_sub f) = max_str_cnt (pf_limits f) \<and> (\<forall>row \<in> set (cur_sub f). length row = EDGX_BR_NUM_PCP)
     \<and> max_str_cnt (pf_limits f) \<le> 1024"

lemma cur_shapeD:
  assumes "cur_shape f" "s < max_str_cnt (pf_limits f)"
  shows "s < length (cur_sub f)" "length (cur_sub f ! s) = EDGX_BR_NUM_PCP" "s < 1024"
  using assms by (auto simp: cur_shape_def)

lemma cur_at_set_cur:
  assumes "cur_shape f" "s < max_str_cnt (pf_limits f)" "p < EDGX_BR_NUM_PCP"
  shows "cur_at (set_cur s p v f) s' p' = (if (s', p') = (s, p) then v else cur_at f s' p')"
  using cur_shapeD [OF assms(1,2)] assms(3) by (auto simp: cur_at_def set_cur_def nth_list_update)

lemma cur_shape_set_cur: "cur_shape f \<Longrightarrow> s < max_str_cnt (pf_limits f) \<Longrightarrow> cur_shape (set_cur s p v f)"
  using cur_shapeD(2) [of f s] unfolding cur_shape_def set_cur_def
  by (auto dest!: set_update_subset_insert [THEN subsetD])

text \<open>The entries whose counter reference the step moves.\<close>

definition moves_ref :: "nat option \<Rightarrow> nat option \<Rightarrow> nat option \<Rightarrow> psfp_flt_entry \<Rightarrow> bool" where
  "moves_ref trig eff cur e \<longleftrightarrow> trig \<noteq> None \<and> eff \<noteq> cur \<and> \<not> edgx_psfp_flt_str_is_wc (fe_key e)
     \<and> (eff = Some (fe_filter e) \<or> (cur = Some (fe_filter e) \<and> trig = eff))"

definition moved :: "nat option \<Rightarrow> nat option \<Rightarrow> nat option \<Rightarrow> psfp_flt_cnt \<Rightarrow> psfp_flt_entry \<Rightarrow> psfp_flt_entry" where
  "moved trig eff cur c e = (if moves_ref trig eff cur e then edgx_psfp_flt_update_cnt_ref c e else e)"

lemma deref_fltI:
  assumes "flts_ordered (flt_root f)" "e \<in> set (flt_root f)"
  shows "deref_flt f (fe_filter e) = Some e"
proof -
  have "find (\<lambda>x. fe_filter x = fe_filter e) (flt_root f) \<noteq> None"
    using assms(2) by (auto simp: find_None_iff)
  then obtain x where x: "find (\<lambda>x. fe_filter x = fe_filter e) (flt_root f) = Some x" by blast
  then have "x \<in> set (flt_root f)" "fe_filter x = fe_filter e" by (auto simp: find_Some_iff)
  then have "x = e" using flts_ordered_inj [OF assms(1) _ assms(2)] by blast
  with x show ?thesis by (simp add: deref_flt_def)
qed

lemma deref_fltD:
  assumes "deref_flt f n = Some e"
  shows "e \<in> set (flt_root f)" "fe_filter e = n"
  using assms by (auto simp: deref_flt_def find_Some_iff)

definition live :: "psfp_flt \<Rightarrow> nat option \<Rightarrow> bool" where
  "live f sub \<longleftrightarrow> (\<forall>n. sub = Some n \<longrightarrow> (\<exists>e \<in> set (flt_root f). fe_filter e = n))"

lemma liveD:
  assumes "flts_ordered (flt_root f)" "live f (Some n)"
  shows "\<exists>e. deref_flt f n = Some e"
  using assms(2) deref_fltI [OF assms(1)] unfolding live_def by blast

lemma flts_ordered_map: "(\<And>e. fe_filter (g e) = fe_filter e) \<Longrightarrow> flts_ordered (map g es) = flts_ordered es"
  by (simp add: flts_ordered_def comp_def)

lemma fe_update_cnt_ref [simp]:
  "fe_filter (edgx_psfp_flt_update_cnt_ref c e) = fe_filter e" "fe_key (edgx_psfp_flt_update_cnt_ref c e) = fe_key e"
  "fe_data (edgx_psfp_flt_update_cnt_ref c e) = fe_data e"
  by (simp_all add: edgx_psfp_flt_update_cnt_ref_def)

lemma fe_moved [simp]:
  "fe_filter (moved t a b c e) = fe_filter e" "fe_key (moved t a b c e) = fe_key e" "fe_data (moved t a b c e) = fe_data e"
  by (simp_all add: moved_def)

lemma upd_flt_two:
  assumes "\<And>e. fe_filter (g e) = fe_filter e" "a \<noteq> b"
  shows "upd_flt b g (upd_flt a g f) = f\<lparr>flt_root := map (\<lambda>e. if fe_filter e = a \<or> fe_filter e = b then g e else e) (flt_root f)\<rparr>"
proof -
  have "map (\<lambda>e. if fe_filter e = b then g e else e) (map (\<lambda>e. if fe_filter e = a then g e else e) (flt_root f))
      = map (\<lambda>e. if fe_filter e = a \<or> fe_filter e = b then g e else e) (flt_root f)"
    unfolding map_map by (rule map_cong) (use assms in auto)
  then show ?thesis by (simp add: upd_flt_def del: map_map)
qed

lemma upd_cnt_spec:
  assumes c: "flt_contract dev (pf_iobase (pf y)) tab cnt" and sh: "cur_shape (pf y)"
    and sp: "s < max_str_cnt (pf_limits (pf y))" "p < EDGX_BR_NUM_PCP" and o: "flts_ordered (flt_root (pf y))"
    and l: "live (pf y) eff" "live (pf y) (cur_at (pf y) s p)" and t: "trig \<noteq> None" and i: "idle y"
  shows "\<exists>io'. edgx_psfp_flt_upd_cnt dev trig (int s) (int p) eff y =
      Some (y\<lparr>pf := (pf y)\<lparr>flt_root := map (moved trig eff (cur_at (pf y) s p) (cnt (fio y) (s, p))) (flt_root (pf y))\<rparr>, fio := io'\<rparr>)
    \<and> tab io' = tab (fio y) \<and> cnt io' = cnt (fio y) \<and> \<not> filter_busy (pf_iobase (pf y)) io'"
proof -
  let ?f = "pf y" and ?cur = "cur_at (pf y) s p" and ?c = "cnt (fio y) (s, p)"
  define ue where "ue = (case eff of None \<Rightarrow> False | Some n \<Rightarrow> (case deref_flt ?f n of None \<Rightarrow> False | Some e \<Rightarrow> \<not> edgx_psfp_flt_str_is_wc (fe_key e)))"
  define uc where "uc = (case ?cur of None \<Rightarrow> False | Some n \<Rightarrow> trig = eff \<and> (case deref_flt ?f n of None \<Rightarrow> False | Some e \<Rightarrow> \<not> edgx_psfp_flt_str_is_wc (fe_key e)))"
  note shD = cur_shapeD [OF sh sp(1)]
  have row: "nth_opt (cur_sub ?f) (nat (int s)) = Some (cur_sub ?f ! s)" "nth_opt (cur_sub ?f ! s) (nat (int p)) = Some ?cur"
    using shD sp(2) by (simp_all add: cur_at_def)
  have eq_ue: "(case eff of None \<Rightarrow> Some False
     | Some n \<Rightarrow> Option.bind (deref_flt ?f n) (\<lambda>e. Some (\<not> edgx_psfp_flt_str_is_wc (fe_key e)))) = Some ue"
    using l(1) unfolding ue_def by (cases eff) (auto dest!: liveD [OF o])
  have eq_uc: "(case ?cur of None \<Rightarrow> Some False
     | Some n \<Rightarrow> if trig = eff then Option.bind (deref_flt ?f n) (\<lambda>e. Some (\<not> edgx_psfp_flt_str_is_wc (fe_key e))) else Some False) = Some uc"
    using l(2) unfolding uc_def by (cases ?cur) (auto dest!: liveD [OF o])
  have mv: "moves_ref trig eff ?cur e \<longleftrightarrow> eff \<noteq> ?cur \<and> ((ue \<and> eff = Some (fe_filter e)) \<or> (uc \<and> ?cur = Some (fe_filter e)))"
    if "e \<in> set (flt_root ?f)" for e
    using deref_fltI [OF o that] t by (auto simp: moves_ref_def ue_def uc_def)
  show ?thesis
  proof (cases "eff = ?cur \<or> (\<not> ue \<and> \<not> uc)")
    case True
    have "map (moved trig eff ?cur ?c) (flt_root ?f) = flt_root ?f"
      using mv True by (intro map_idI) (auto simp only: moved_def if_False split: if_split)
    moreover have "edgx_psfp_flt_upd_cnt dev trig (int s) (int p) eff y = Some y"
      unfolding edgx_psfp_flt_upd_cnt_def row eq_ue eq_uc bind.bind_lunit using True by (auto simp only: if_True simp_thms split: if_split)
    ultimately show ?thesis using i by (intro exI [of _ "fio y"]) (simp add: idle_def)
  next
    case False
    obtain io' where io': "edgx_psfp_flt_str_get_cnt_hw dev ?f (int s) (int p) (fio y) = Some (?c, io')"
      "tab io' = tab (fio y)" "cnt io' = cnt (fio y)" "\<not> filter_busy (pf_iobase ?f) io'"
      using flt_get_cnt_hwD [OF c shD(3) sp(2)] i unfolding idle_def by blast
    let ?g = "edgx_psfp_flt_update_cnt_ref ?c"
    let ?f1 = "if ue then upd_flt (the eff) ?g ?f else ?f"
    let ?f2 = "if uc then upd_flt (the ?cur) ?g ?f1 else ?f1"
    have some: "ue \<Longrightarrow> eff = Some (the eff)" "uc \<Longrightarrow> ?cur = Some (the ?cur)"
      unfolding ue_def uc_def by (auto split: option.splits)
    have "?f2 = ?f\<lparr>flt_root := map (\<lambda>e. if (ue \<and> fe_filter e = the eff) \<or> (uc \<and> fe_filter e = the ?cur) then ?g e else e) (flt_root ?f)\<rparr>"
    proof (cases "ue \<and> uc")
      case True
      then have "the eff \<noteq> the ?cur" using some False by metis
      then show ?thesis using True by (simp add: upd_flt_two)
    qed (use False in \<open>auto simp: upd_flt_def\<close>)
    also have "\<dots> = ?f\<lparr>flt_root := map (moved trig eff ?cur ?c) (flt_root ?f)\<rparr>"
    proof -
      have same: "(ue \<and> fe_filter e = the eff) \<or> (uc \<and> fe_filter e = the ?cur)
          \<longleftrightarrow> (ue \<and> eff = Some (fe_filter e)) \<or> (uc \<and> ?cur = Some (fe_filter e))" for e
        using some by (metis option.sel)
      have "map (\<lambda>e. if (ue \<and> fe_filter e = the eff) \<or> (uc \<and> fe_filter e = the ?cur) then ?g e else e) (flt_root ?f)
          = map (moved trig eff ?cur ?c) (flt_root ?f)"
        unfolding same using False mv by (intro map_cong refl) (simp add: moved_def)
      then show ?thesis by (simp only:)
    qed
    finally have f2: "?f2 = ?f\<lparr>flt_root := map (moved trig eff ?cur ?c) (flt_root ?f)\<rparr>" .
    have "edgx_psfp_flt_upd_cnt dev trig (int s) (int p) eff y = Some (y\<lparr>pf := ?f2, fio := io'\<rparr>)"
      unfolding edgx_psfp_flt_upd_cnt_def row eq_ue eq_uc bind.bind_lunit io'(1) prod.case
      using False by (simp only: if_False de_Morgan_disj if_True simp_thms Let_def split: if_split) simp
    then show ?thesis unfolding f2 using io'(2-4) by blast
  qed
qed

definition eff_data :: "psfp_flt \<Rightarrow> nat option \<Rightarrow> psfp_flt_data option" where
  "eff_data f eff = (case eff of None \<Rightarrow> None | Some n \<Rightarrow> map_option fe_data (deref_flt f n))"

lemma upd_hw_iter_spec:
  assumes c: "flt_contract dev (pf_iobase (pf y)) tab cnt" and sh: "cur_shape (pf y)"
    and sp: "s < max_str_cnt (pf_limits (pf y))" "p < EDGX_BR_NUM_PCP" and o: "flts_ordered (flt_root (pf y))"
    and l: "live (pf y) eff" "live (pf y) (cur_at (pf y) s p)" and i: "idle y"
  shows "\<exists>io'. edgx_psfp_flt_upd_hw_iter dev trig eff (int s) (int p) y =
      Some (y\<lparr>pf := set_cur s p eff
                ((pf y)\<lparr>flt_root := map (moved trig eff (cur_at (pf y) s p) (cnt (fio y) (s, p))) (flt_root (pf y))\<rparr>), fio := io'\<rparr>)
    \<and> tab io' = (tab (fio y))((s, p) := filter_regs (pf_limits (pf y)) (eff_data (pf y) eff)) \<and> cnt io' = cnt (fio y)
    \<and> \<not> filter_busy (pf_iobase (pf y)) io'"
proof -
  let ?f = "pf y"
  note shD = cur_shapeD [OF sh sp(1)]
  have d: "(case eff of None \<Rightarrow> Some None | Some n \<Rightarrow> map_option (\<lambda>e. Some (fe_data e)) (deref_flt ?f n)) = Some (eff_data ?f eff)"
    using l(1) by (cases eff) (auto simp: eff_data_def dest!: liveD [OF o])
  obtain io1 where io1: "edgx_psfp_flt_write_hw dev ?f (int s) (int p) (eff_data ?f eff) (fio y) = Some io1"
    "tab io1 = (tab (fio y))((s, p) := filter_regs (pf_limits ?f) (eff_data ?f eff))" "cnt io1 = cnt (fio y)"
    and busy1: "\<not> filter_busy (pf_iobase ?f) io1"
    using flt_write_hwD [OF c shD(3) sp(2)] i unfolding idle_def by blast
  let ?y1 = "y\<lparr>fio := io1\<rparr>"
  let ?m = "map (moved trig eff (cur_at ?f s p) (cnt (fio y) (s, p))) (flt_root ?f)"
  have "\<exists>io'. (if trig \<noteq> None then edgx_psfp_flt_upd_cnt dev trig (int s) (int p) eff ?y1 else Some ?y1)
      = Some (y\<lparr>pf := ?f\<lparr>flt_root := ?m\<rparr>, fio := io'\<rparr>) \<and> tab io' = tab io1 \<and> cnt io' = cnt io1 \<and> \<not> filter_busy (pf_iobase ?f) io'"
  proof (cases "trig = None")
    case True
    then have "?m = flt_root ?f" by (intro map_idI) (simp add: moved_def moves_ref_def)
    then show ?thesis using True busy1 by (intro exI [of _ io1]) simp
  next
    case False
    have "flt_contract dev (pf_iobase (pf ?y1)) tab cnt" "cur_shape (pf ?y1)" "s < max_str_cnt (pf_limits (pf ?y1))"
      "flts_ordered (flt_root (pf ?y1))" "live (pf ?y1) eff" "live (pf ?y1) (cur_at (pf ?y1) s p)" "idle ?y1"
      using c sh sp o l busy1 by (simp_all add: idle_def)
    from upd_cnt_spec [OF this(1-3) sp(2) this(4-6) False this(7)] show ?thesis using False io1(3) by simp
  qed
  then obtain io' where io': "(if trig \<noteq> None then edgx_psfp_flt_upd_cnt dev trig (int s) (int p) eff ?y1 else Some ?y1)
      = Some (y\<lparr>pf := ?f\<lparr>flt_root := ?m\<rparr>, fio := io'\<rparr>)" "tab io' = tab io1" "cnt io' = cnt io1"
    "\<not> filter_busy (pf_iobase ?f) io'" by blast
  have "edgx_psfp_flt_upd_hw_iter dev trig eff (int s) (int p) y = Some (y\<lparr>pf := set_cur s p eff (?f\<lparr>flt_root := ?m\<rparr>), fio := io'\<rparr>)"
    unfolding edgx_psfp_flt_upd_hw_iter_def d bind.bind_lunit io1(1) Let_def io'(1) using shD sp(2)
    by (simp add: set_cur_def nth_opt_def upd_opt_def)
  then show ?thesis using io1(2,3) io'(2-4) by auto
qed

section \<open>The update of all positions\<close>

text \<open>The user's view of the counters of a filter without wildcards.\<close>

definition cnt_minus :: "psfp_flt_cnt \<Rightarrow> psfp_flt_cnt \<Rightarrow> psfp_flt_cnt" where
  "cnt_minus a b = \<lparr>raw_matching = raw_matching a - raw_matching b, raw_passing = raw_passing a - raw_passing b,
     raw_sdu = raw_sdu a - raw_sdu b, raw_red = raw_red a - raw_red b\<rparr>"

lemma cnt_minus_minus [simp]: "cnt_minus c (cnt_minus c x) = x"
  by (simp add: cnt_minus_def)

definition key_pos :: "int \<times> int \<Rightarrow> nat \<times> nat" where
  "key_pos k = (nat (fst k), nat (snd k))"

definition counted :: "(iomem \<Rightarrow> nat \<times> nat \<Rightarrow> psfp_flt_cnt) \<Rightarrow> flt_sys \<Rightarrow> psfp_flt_entry \<Rightarrow> psfp_flt_cnt" where
  "counted cnt y e =
     (let (s, p) = key_pos (fe_key e)
      in if cur_at (pf y) s p = Some (fe_filter e) then cnt_minus (cnt (fio y) (s, p)) (fe_cnt_ref e) else fe_cnt_ref e)"

text \<open>
  The state in the middle of an update: the positions in \<open>D\<close> are done, \<open>es\<close> are the filters that the
  trees list, \<open>es0\<close> and \<open>y0\<close> what was there before.
\<close>

definition pos_ok :: "psfp_flt \<Rightarrow> nat \<times> nat \<Rightarrow> bool" where
  "pos_ok f d \<longleftrightarrow> fst d < max_str_cnt (pf_limits f) \<and> snd d < EDGX_BR_NUM_PCP"

definition upd_inv ::
  "(iomem \<Rightarrow> filter_table) \<Rightarrow> (iomem \<Rightarrow> nat \<times> nat \<Rightarrow> psfp_flt_cnt) \<Rightarrow> psfp_flt_entry list \<Rightarrow> flt_sys \<Rightarrow> (nat \<times> nat) set \<Rightarrow> flt_sys \<Rightarrow> bool" where
  "upd_inv tab cnt es y0 D y \<longleftrightarrow>
     (\<exists>g cs. pf y = (pf y0)\<lparr>flt_root := map g (flt_root (pf y0)), cur_sub := cs\<rparr>
        \<and> (\<forall>e. fe_filter (g e) = fe_filter e \<and> fe_key (g e) = fe_key e \<and> fe_data (g e) = fe_data e)
        \<and> (\<forall>e \<in> set es. \<not> edgx_psfp_flt_str_is_wc (fe_key e) \<longrightarrow> counted cnt y (g e) = counted cnt y0 e))
   \<and> cur_shape (pf y) \<and> idle y
   \<and> (\<forall>d. pos_ok (pf y0) d \<longrightarrow>
        cur_at (pf y) (fst d) (snd d) = (if d \<in> D then lowest es (int (fst d)) (int (snd d)) else cur_at (pf y0) (fst d) (snd d))
      \<and> tab (fio y) d = (if d \<in> D then filter_regs (pf_limits (pf y0)) (eff_data (pf y0) (lowest es (int (fst d)) (int (snd d))))
                         else tab (fio y0) d))
   \<and> cnt (fio y) = cnt (fio y0)"

text \<open>What an update starts from: \<open>trig\<close> is the filter that was added or removed.\<close>

definition key_ok :: "psfp_limits \<Rightarrow> int \<times> int \<Rightarrow> bool" where
  "key_ok lim k \<longleftrightarrow> (fst k = PSFP_WC \<or> (0 \<le> fst k \<and> fst k < int (max_str_cnt lim)))
     \<and> (snd k = PSFP_WC \<or> (0 \<le> snd k \<and> snd k < int EDGX_BR_NUM_PCP))"

definition upd_pre :: "psfp_flt_entry list \<Rightarrow> nat option \<Rightarrow> psfp_flt \<Rightarrow> bool" where
  "upd_pre es trig f \<longleftrightarrow> flts_ordered (flt_root f) \<and> flts_ordered es \<and> set es \<subseteq> set (flt_root f)
     \<and> (\<forall>e \<in> set es. key_ok (pf_limits f) (fe_key e))
     \<and> (trig = None \<longrightarrow> es = [])
     \<and> (\<forall>d. pos_ok f d \<longrightarrow> (\<forall>n. cur_at f (fst d) (snd d) = Some n \<longrightarrow>
          (\<exists>e \<in> set (flt_root f). fe_filter e = n \<and> key_matches (fe_key e) (int (fst d)) (int (snd d)))
        \<and> (n \<in> fe_filter ` set es \<longrightarrow> lowest es (int (fst d)) (int (snd d)) \<noteq> Some n
            \<longrightarrow> trig = lowest es (int (fst d)) (int (snd d)))))"

lemma find_map_same: "(\<And>e. P (g e) = P e) \<Longrightarrow> find P (map g xs) = map_option g (find P xs)"
  by (induction xs) auto

lemma deref_map:
  "(\<And>e. fe_filter (g e) = fe_filter e) \<Longrightarrow> deref_flt (f\<lparr>flt_root := map g (flt_root f), cur_sub := cs\<rparr>) n = map_option g (deref_flt f n)"
  by (simp add: deref_flt_def find_map_same)

lemma lowestD:
  assumes "flts_ordered es" "lowest es s p = Some n"
  shows "\<exists>e \<in> set es. fe_filter e = n \<and> key_matches (fe_key e) s p"
  using assms(2) unfolding lowest_def first_with_Some [OF assms(1)] by blast

text \<open>A filter without wildcards is concerned by one position only.\<close>

lemma exact_key:
  assumes "key_ok lim k" "\<not> edgx_psfp_flt_str_is_wc k"
  shows "key_matches k (int s) (int p) \<longleftrightarrow> (s, p) = key_pos k"
  using assms by (cases k) (auto simp: key_ok_def edgx_psfp_flt_str_is_wc_def key_matches_def key_pos_def)

lemma counted_step:
  assumes ok: "key_ok lim (fe_key e)" "\<not> edgx_psfp_flt_str_is_wc (fe_key e)"
    and only: "eff = Some (fe_filter e) \<or> cur_at (pf y) s p = Some (fe_filter e) \<Longrightarrow> key_matches (fe_key e) (int s) (int p)"
    and t: "trig \<noteq> None" "cur_at (pf y) s p = Some (fe_filter e) \<Longrightarrow> eff \<noteq> Some (fe_filter e) \<Longrightarrow> trig = eff"
    and y': "\<And>s' p'. (s', p') = key_pos (fe_key e) \<Longrightarrow> cur_at (pf y') s' p' = (if (s', p') = (s, p) then eff else cur_at (pf y) s' p')"
      "cnt (fio y') = cnt (fio y)"
  shows "counted cnt y' (moved trig eff (cur_at (pf y) s p) (cnt (fio y) (s, p)) e) = counted cnt y e"
proof (cases "(s, p) = key_pos (fe_key e)")
  case True
  then have k: "key_pos (fe_key e) = (s, p)" by simp
  have c': "cur_at (pf y') s p = eff" using y'(1) [OF True] by simp
  have upd: "fe_cnt_ref (edgx_psfp_flt_update_cnt_ref c e) = cnt_minus c (fe_cnt_ref e)" for c
    by (simp add: edgx_psfp_flt_update_cnt_ref_def cnt_minus_def)
  show ?thesis
  proof (cases "cur_at (pf y) s p = Some (fe_filter e)")
    case cur: True
    then show ?thesis
      using t ok(2) by (cases "eff = Some (fe_filter e)") (auto simp: counted_def moved_def moves_ref_def k c' y'(2) upd)
  next
    case False
    then show ?thesis
      using t ok(2) by (cases "eff = Some (fe_filter e)") (auto simp: counted_def moved_def moves_ref_def k c' y'(2) upd)
  qed
next
  case False
  then have "\<not> key_matches (fe_key e) (int s) (int p)" using exact_key [OF ok] by simp
  with only have "\<not> moves_ref trig eff (cur_at (pf y) s p) e" by (auto simp: moves_ref_def)
  then show ?thesis
    using False y' by (cases "key_pos (fe_key e)") (auto simp: counted_def moved_def)
qed

lemma upd_inv_start: "cur_shape (pf y) \<Longrightarrow> idle y \<Longrightarrow> upd_inv tab cnt es y {} y"
  unfolding upd_inv_def by (intro conjI exI [of _ "\<lambda>e. e"] exI [of _ "cur_sub (pf y)"]) simp_all

lemma upd_inv_step:
  assumes c: "flt_contract dev (pf_iobase (pf y0)) tab cnt" and pre: "upd_pre es trig (pf y0)"
    and inv: "upd_inv tab cnt es y0 D y" and d: "pos_ok (pf y0) (s, p)" and eff: "eff = lowest es (int s) (int p)"
  shows "\<exists>y'. edgx_psfp_flt_upd_hw_iter dev trig eff (int s) (int p) y = Some y' \<and> upd_inv tab cnt es y0 (insert (s, p) D) y'"
proof -
  obtain g cs where f: "pf y = (pf y0)\<lparr>flt_root := map g (flt_root (pf y0)), cur_sub := cs\<rparr>"
    and g: "\<And>e. fe_filter (g e) = fe_filter e" "\<And>e. fe_key (g e) = fe_key e" "\<And>e. fe_data (g e) = fe_data e"
    and cntd: "\<And>e. e \<in> set es \<Longrightarrow> \<not> edgx_psfp_flt_str_is_wc (fe_key e) \<Longrightarrow> counted cnt y (g e) = counted cnt y0 e"
    using inv unfolding upd_inv_def by blast
  have sh: "cur_shape (pf y)" and idle: "idle y" and io: "cnt (fio y) = cnt (fio y0)"
    and at: "\<And>d. pos_ok (pf y0) d \<Longrightarrow>
        cur_at (pf y) (fst d) (snd d) = (if d \<in> D then lowest es (int (fst d)) (int (snd d)) else cur_at (pf y0) (fst d) (snd d))
      \<and> tab (fio y) d = (if d \<in> D then filter_regs (pf_limits (pf y0)) (eff_data (pf y0) (lowest es (int (fst d)) (int (snd d))))
                         else tab (fio y0) d)"
    using inv unfolding upd_inv_def by blast+
  have o0: "flts_ordered (flt_root (pf y0))" and oes: "flts_ordered es" and sub: "set es \<subseteq> set (flt_root (pf y0))"
    and keys: "\<And>e. e \<in> set es \<Longrightarrow> key_ok (pf_limits (pf y0)) (fe_key e)" and tn: "trig = None \<Longrightarrow> es = []"
    and cur0: "\<And>n. cur_at (pf y0) s p = Some n \<Longrightarrow>
          (\<exists>e \<in> set (flt_root (pf y0)). fe_filter e = n \<and> key_matches (fe_key e) (int s) (int p))
        \<and> (n \<in> fe_filter ` set es \<longrightarrow> lowest es (int s) (int p) \<noteq> Some n \<longrightarrow> trig = lowest es (int s) (int p))"
    using pre d unfolding upd_pre_def by fastforce+
  have o: "flts_ordered (flt_root (pf y))" using o0 by (simp add: f flts_ordered_map g(1))
  have sp: "s < max_str_cnt (pf_limits (pf y))" "p < EDGX_BR_NUM_PCP" using d by (simp_all add: f pos_ok_def)
  have low: "\<exists>e \<in> set es. fe_filter e = n \<and> key_matches (fe_key e) (int s) (int p)" if "eff = Some n" for n
    using lowestD [OF oes] that eff by simp
  have cur: "\<exists>e \<in> set (flt_root (pf y0)). fe_filter e = n \<and> key_matches (fe_key e) (int s) (int p)"
    if "cur_at (pf y) s p = Some n" for n
  proof (cases "(s, p) \<in> D")
    case True
    then have "eff = Some n" using at [OF d] that eff by simp
    then show ?thesis using low sub by blast
  next
    case False
    then show ?thesis using at [OF d] that cur0 by simp
  qed
  have l: "live (pf y) eff" "live (pf y) (cur_at (pf y) s p)"
    using low cur sub by (fastforce simp: live_def f g)+
  let ?m = "moved trig eff (cur_at (pf y) s p) (cnt (fio y) (s, p))"
  have cy: "flt_contract dev (pf_iobase (pf y)) tab cnt" using c by (simp add: f)
  obtain io' where y': "edgx_psfp_flt_upd_hw_iter dev trig eff (int s) (int p) y =
      Some (y\<lparr>pf := set_cur s p eff ((pf y)\<lparr>flt_root := map ?m (flt_root (pf y))\<rparr>), fio := io'\<rparr>)"
    "tab io' = (tab (fio y))((s, p) := filter_regs (pf_limits (pf y)) (eff_data (pf y) eff))" "cnt io' = cnt (fio y)"
    and busy: "\<not> filter_busy (pf_iobase (pf y)) io'"
    using upd_hw_iter_spec [OF cy sh sp o l idle] by blast
  let ?y' = "y\<lparr>pf := set_cur s p eff ((pf y)\<lparr>flt_root := map ?m (flt_root (pf y))\<rparr>), fio := io'\<rparr>"
  have ca: "cur_at (pf ?y') s' p' = (if (s', p') = (s, p) then eff else cur_at (pf y) s' p')" for s' p'
  proof -
    have sh': "cur_shape ((pf y)\<lparr>flt_root := map ?m (flt_root (pf y))\<rparr>)" using sh by (simp add: cur_shape_def)
    show ?thesis using cur_at_set_cur [OF sh'] sp by (simp add: cur_at_def)
  qed
  have "upd_inv tab cnt es y0 (insert (s, p) D) ?y'"
    unfolding upd_inv_def
  proof (intro conjI exI [of _ "\<lambda>e. ?m (g e)"] exI [of _ "cur_sub (pf ?y')"] allI ballI impI)
    show "pf ?y' = (pf y0)\<lparr>flt_root := map (\<lambda>e. ?m (g e)) (flt_root (pf y0)), cur_sub := cur_sub (pf ?y')\<rparr>"
      by (simp add: set_cur_def f comp_def)
    show "cur_shape (pf ?y')" using cur_shape_set_cur [of "(pf y)\<lparr>flt_root := map ?m (flt_root (pf y))\<rparr>" s p eff] sh sp(1)
      by (simp add: cur_shape_def)
    show "idle ?y'" using busy by (simp add: idle_def set_cur_def)
    show "counted cnt ?y' (?m (g e)) = counted cnt y0 e" if e: "e \<in> set es" "\<not> edgx_psfp_flt_str_is_wc (fe_key e)" for e
    proof -
      have same: "e' = e" if "e' \<in> set (flt_root (pf y0))" "fe_filter e' = fe_filter e" for e'
        using flts_ordered_inj [OF o0 that(1) _ that(2)] e(1) sub by blast
      have "counted cnt ?y' (?m (g e)) = counted cnt y (g e)"
      proof (rule counted_step)
        show "key_ok (pf_limits (pf y0)) (fe_key (g e))" "\<not> edgx_psfp_flt_str_is_wc (fe_key (g e))" using keys e by (simp_all add: g)
        show "key_matches (fe_key (g e)) (int s) (int p)"
          if "eff = Some (fe_filter (g e)) \<or> cur_at (pf y) s p = Some (fe_filter (g e))"
          using that low [of "fe_filter e"] cur [of "fe_filter e"] same sub unfolding g by blast
        show "trig \<noteq> None" using tn e(1) by (cases "trig = None") auto
        show "trig = eff" if "cur_at (pf y) s p = Some (fe_filter (g e))" "eff \<noteq> Some (fe_filter (g e))"
        proof -
          have "cur_at (pf y0) s p = Some (fe_filter e)" using that at [OF d] eff by (simp add: g split: if_split_asm)
          from cur0 [OF this] show ?thesis using that(2) e(1) eff by (simp add: g)
        qed
        show "cur_at (pf ?y') s' p' = (if (s', p') = (s, p) then eff else cur_at (pf y) s' p')" for s' p' by (rule ca)
        show "cnt (fio ?y') = cnt (fio y)" using y'(3) by simp
      qed
      then show ?thesis using cntd [OF e] by simp
    qed
    fix d' assume d': "pos_ok (pf y0) d'"
    show "cur_at (pf ?y') (fst d') (snd d') = (if d' \<in> insert (s, p) D then lowest es (int (fst d')) (int (snd d')) else cur_at (pf y0) (fst d') (snd d'))"
      using at [OF d'] ca [of "fst d'" "snd d'"] eff by (cases d') auto
    have "eff_data (pf y) eff = eff_data (pf y0) eff"
      by (cases eff) (simp_all add: eff_data_def f deref_map g option.map_comp comp_def)
    then show "tab (fio ?y') d' = (if d' \<in> insert (s, p) D then filter_regs (pf_limits (pf y0)) (eff_data (pf y0) (lowest es (int (fst d')) (int (snd d'))))
        else tab (fio y0) d')"
      using at [OF d'] y'(2) eff by (cases d') (auto simp: f)
  qed (use g io y'(3) in simp_all)
  then show ?thesis using y'(1) by blast
qed

lemma first_sub_inv:
  assumes "upd_inv tab cnt es y0 D y" "index_ok (str_root (pf y0)) es"
  shows "edgx_psfp_flt_first_sub (pf y) s p = first_of es s p"
proof -
  have "str_root (pf y) = str_root (pf y0)" using assms(1) unfolding upd_inv_def by auto
  then have "index_ok (str_root (pf y)) es" using assms(2) by simp
  then show ?thesis by (rule first_sub_spec)
qed

lemma each_step:
  assumes "flt_contract dev (pf_iobase (pf y0)) tab cnt" "upd_pre es trig (pf y0)"
    and "upd_inv tab cnt es y0 D y" "pos_ok (pf y0) (s, p)"
    and cs: "set cs = {first_of es (int s) (int p), first_of es PSFP_WC (int p), first_of es (int s) PSFP_WC, first_of es PSFP_WC PSFP_WC}"
  shows "\<exists>y'. psfp_flt_each dev trig cs (int s) (int p) y = Some y' \<and> upd_inv tab cnt es y0 (insert (s, p) D) y'"
proof -
  have "flts_ordered es" using assms(2) by (simp add: upd_pre_def)
  then have "edgx_psfp_flt_str_find_eff_sub cs = lowest es (int s) (int p)" using cs by (rule eff_lowest)
  then show ?thesis using upd_inv_step [OF assms(1-4)] by (simp add: psfp_flt_each_def)
qed

lemma pos_set_eqI:
  assumes "upd_inv tab cnt es y0 D y" "D = D'"
  shows "upd_inv tab cnt es y0 D' y"
  using assms by simp

lemma upd_for_each:
  assumes c: "flt_contract dev (pf_iobase (pf y0)) tab cnt" and pre: "upd_pre es trig (pf y0)"
    and sh: "cur_shape (pf y0)" "idle y0" and ix: "index_ok (str_root (pf y0)) es"
    and cand: "edgx_psfp_flt_get_cand (pf y0) trig ks kp = first_of es ks kp" and k: "key_ok (pf_limits (pf y0)) (ks, kp)"
  shows "\<exists>y'. edgx_psfp_flt_for_each dev trig ks kp y0 = Some y'
    \<and> upd_inv tab cnt es y0 {d. pos_ok (pf y0) d \<and> key_matches (ks, kp) (int (fst d)) (int (snd d))} y'"
proof -
  let ?inv = "upd_inv tab cnt es y0" and ?m = "max_str_cnt (pf_limits (pf y0))"
  have start: "?inv {} y0" by (rule upd_inv_start [OF sh])
  note step = each_step [OF c pre]
  have fs: "?inv D y \<Longrightarrow> edgx_psfp_flt_first_sub (pf y) s p = first_of es s p" for D y s p
    using first_sub_inv [OF _ ix] by blast
  have fs0: "edgx_psfp_flt_first_sub (pf y0) s p = first_of es s p" for s p using fs [OF start] .
  consider (wc) "ks = PSFP_WC" "kp = PSFP_WC" | (wc_pcp) s where "ks = int s" "kp = PSFP_WC"
    | (wc_str) p where "ks = PSFP_WC" "kp = int p" | (one) s p where "ks = int s" "kp = int p"
    using k unfolding key_ok_def by (metis fst_conv snd_conv nonneg_int_cases)
  then show ?thesis
  proof cases
    case one
    then have "pos_ok (pf y0) (s, p)" using k by (simp add: key_ok_def pos_ok_def)
    with step [OF start this, of "[first_of es (int s) (int p), first_of es (int s) PSFP_WC, first_of es PSFP_WC (int p), first_of es PSFP_WC PSFP_WC]"]
    obtain y' where "psfp_flt_each dev trig [first_of es (int s) (int p), first_of es (int s) PSFP_WC, first_of es PSFP_WC (int p), first_of es PSFP_WC PSFP_WC] (int s) (int p) y0 = Some y'"
      "?inv (insert (s, p) {}) y'" by auto
    moreover have "insert (s, p) {} = {d. pos_ok (pf y0) d \<and> key_matches (ks, kp) (int (fst d)) (int (snd d))}"
      using one \<open>pos_ok (pf y0) (s, p)\<close> by (auto simp: key_matches_def)
    ultimately show ?thesis
      using one cand by (simp add: edgx_psfp_flt_for_each_def edgx_psfp_flt_for_each_one_def fs0)
  next
    case wc_pcp
    let ?f = "\<lambda>p y. psfp_flt_each dev trig [edgx_psfp_flt_first_sub (pf y) (int s) (int p), edgx_psfp_flt_first_sub (pf y) PSFP_WC (int p),
        first_of es (int s) PSFP_WC, first_of es PSFP_WC PSFP_WC] (int s) (int p) y"
    have "\<exists>y'. for_list ?f [0..<EDGX_BR_NUM_PCP] y0 = Some y' \<and> ?inv (Pair s ` set [0..<EDGX_BR_NUM_PCP]) y'"
    proof (rule for_list_inv [where I = "\<lambda>ds. ?inv (Pair s ` set ds)"])
      show "?inv (Pair s ` set []) y0" using start by simp
      fix ds p y assume I: "?inv (Pair s ` set ds) y" and p: "p \<in> set [0..<EDGX_BR_NUM_PCP]"
      then have "pos_ok (pf y0) (s, p)" using k wc_pcp by (simp add: key_ok_def pos_ok_def)
      from step [OF I this, of "[first_of es (int s) (int p), first_of es PSFP_WC (int p), first_of es (int s) PSFP_WC, first_of es PSFP_WC PSFP_WC]"]
      show "\<exists>y'. ?f p y = Some y' \<and> ?inv (Pair s ` set (ds @ [p])) y'" by (simp add: fs [OF I])
    qed
    moreover have "Pair s ` set [0..<EDGX_BR_NUM_PCP] = {d. pos_ok (pf y0) d \<and> key_matches (ks, kp) (int (fst d)) (int (snd d))}"
      using wc_pcp k by (auto simp: key_matches_def pos_ok_def key_ok_def)
    ultimately show ?thesis
      using wc_pcp cand by (simp add: edgx_psfp_flt_for_each_def edgx_psfp_flt_for_each_wc_pcp_def fs0 Let_def)
  next
    case wc_str
    let ?f = "\<lambda>s y. psfp_flt_each dev trig [edgx_psfp_flt_first_sub (pf y) (int s) (int p), first_of es PSFP_WC (int p),
        edgx_psfp_flt_first_sub (pf y) (int s) PSFP_WC, first_of es PSFP_WC PSFP_WC] (int s) (int p) y"
    let ?D = "\<lambda>ss. (\<lambda>s. (s, p)) ` set ss"
    have "\<exists>y'. for_list ?f [0..<?m] y0 = Some y' \<and> ?inv (?D [0..<?m]) y'"
    proof (rule for_list_inv [where I = "\<lambda>ds. ?inv (?D ds)"])
      show "?inv (?D []) y0" using start by simp
      fix ds s y assume I: "?inv (?D ds) y" and s: "s \<in> set [0..<?m]"
      then have "pos_ok (pf y0) (s, p)" using k wc_str by (simp add: key_ok_def pos_ok_def)
      from step [OF I this, of "[first_of es (int s) (int p), first_of es PSFP_WC (int p), first_of es (int s) PSFP_WC, first_of es PSFP_WC PSFP_WC]"]
      show "\<exists>y'. ?f s y = Some y' \<and> ?inv (?D (ds @ [s])) y'" by (simp add: fs [OF I])
    qed
    moreover have "?D [0..<?m] = {d. pos_ok (pf y0) d \<and> key_matches (ks, kp) (int (fst d)) (int (snd d))}"
      using wc_str k by (auto simp: key_matches_def pos_ok_def key_ok_def)
    ultimately show ?thesis
      using wc_str cand by (simp add: edgx_psfp_flt_for_each_def edgx_psfp_flt_for_each_wc_str_hdl_def fs0 Let_def)
  next
    case wc
    let ?w = "\<lambda>p. map (\<lambda>p. first_of es PSFP_WC (int p)) [0..<EDGX_BR_NUM_PCP] ! p"
    let ?g = "\<lambda>s a p y. psfp_flt_each dev trig [edgx_psfp_flt_first_sub (pf y) (int s) (int p), ?w p, a, first_of es PSFP_WC PSFP_WC] (int s) (int p) y"
    let ?f = "\<lambda>s y. let a = edgx_psfp_flt_first_sub (pf y) (int s) PSFP_WC in for_list (?g s a) [0..<EDGX_BR_NUM_PCP] y"
    let ?D = "\<lambda>ss. set ss \<times> set [0..<EDGX_BR_NUM_PCP]"
    have "\<exists>y'. for_list ?f [0..<?m] y0 = Some y' \<and> ?inv (?D [0..<?m]) y'"
    proof (rule for_list_inv [where I = "\<lambda>ds. ?inv (?D ds)"])
      show "?inv (?D []) y0" using start by simp
      fix ds s y assume I: "?inv (?D ds) y" and s: "s \<in> set [0..<?m]"
      have "\<exists>y'. for_list (?g s (first_of es (int s) PSFP_WC)) [0..<EDGX_BR_NUM_PCP] y = Some y'
          \<and> ?inv (?D ds \<union> Pair s ` set [0..<EDGX_BR_NUM_PCP]) y'"
      proof (rule for_list_inv [where I = "\<lambda>ps. ?inv (?D ds \<union> Pair s ` set ps)"])
        show "?inv (?D ds \<union> Pair s ` set []) y" using I by simp
        fix ps p y assume I': "?inv (?D ds \<union> Pair s ` set ps) y" and p: "p \<in> set [0..<EDGX_BR_NUM_PCP]"
        then have "pos_ok (pf y0) (s, p)" "?w p = first_of es PSFP_WC (int p)" using s by (simp_all add: pos_ok_def del: upt_Suc)
        with step [OF I' this(1), of "[first_of es (int s) (int p), first_of es PSFP_WC (int p), first_of es (int s) PSFP_WC, first_of es PSFP_WC PSFP_WC]"]
        show "\<exists>y'. ?g s (first_of es (int s) PSFP_WC) p y = Some y' \<and> ?inv (?D ds \<union> Pair s ` set (ps @ [p])) y'"
          by (simp add: fs [OF I'])
      qed
      moreover have "?D ds \<union> Pair s ` set [0..<EDGX_BR_NUM_PCP] = ?D (ds @ [s])" by auto
      ultimately show "\<exists>y'. ?f s y = Some y' \<and> ?inv (?D (ds @ [s])) y'" by (simp only: fs [OF I] Let_def)
    qed
    moreover have "?D [0..<?m] = {d. pos_ok (pf y0) d \<and> key_matches (ks, kp) (int (fst d)) (int (snd d))}"
      using wc by (auto simp: key_matches_def pos_ok_def)
    ultimately show ?thesis
      using wc cand by (simp add: edgx_psfp_flt_for_each_def edgx_psfp_flt_for_each_wc_def fs0 Let_def del: upt_Suc upt_conv_Cons)
  qed
qed

end
