(* ===== verification/PsfpFltInv.thy ===== *)
theory PsfpFltInv
  imports PsfpFltProps
begin

text \<open>
  The invariant of the stream filters and what the initialisation, an addition and a removal do to
  it, to the hardware table and to the counters.
\<close>

unbundle bit_operations_syntax

section \<open>Invariant and abstract view\<close>

definition flt_wf :: "psfp_flt \<Rightarrow> bool" where
  "flt_wf f \<longleftrightarrow> flts_ordered (flt_root f) \<and> index_ok (str_root f) (flt_root f) \<and> cur_shape f
     \<and> (\<forall>e \<in> set (flt_root f). key_ok (pf_limits f) (fe_key e))
     \<and> (\<forall>d. pos_ok f d \<longrightarrow> cur_at f (fst d) (snd d) = lowest (flt_root f) (int (fst d)) (int (snd d)))"

text \<open>The filters as a map from numbers to keys and data, and the counters the user sees.\<close>

definition flt_map :: "psfp_flt \<Rightarrow> nat \<Rightarrow> ((int \<times> int) \<times> psfp_flt_data) option" where
  "flt_map f n = map_option (\<lambda>e. (fe_key e, fe_data e)) (deref_flt f n)"

definition user_cnt :: "(iomem \<Rightarrow> nat \<times> nat \<Rightarrow> psfp_flt_cnt) \<Rightarrow> flt_sys \<Rightarrow> nat \<Rightarrow> psfp_flt_cnt option" where
  "user_cnt cnt y n =
     (case deref_flt (pf y) n of None \<Rightarrow> None
      | Some e \<Rightarrow> if edgx_psfp_flt_str_is_wc (fe_key e) then None else Some (counted cnt y e))"

text \<open>What the hardware table has to hold; the switch itself sets bit 14 when a stream is blocked.\<close>

definition want_regs :: "psfp_flt \<Rightarrow> nat \<times> nat \<Rightarrow> u16 \<times> u16 \<times> u16" where
  "want_regs f d = filter_regs (pf_limits f) (eff_data f (lowest (flt_root f) (int (fst d)) (int (snd d))))"

definition same_regs :: "u16 \<times> u16 \<times> u16 \<Rightarrow> u16 \<times> u16 \<times> u16 \<Rightarrow> bool" where
  "same_regs a b \<longleftrightarrow> fst a AND NOT 0x4000 = fst b AND NOT 0x4000 \<and> snd a = snd b"

definition table_ok :: "(iomem \<Rightarrow> filter_table) \<Rightarrow> flt_sys \<Rightarrow> bool" where
  "table_ok tab y \<longleftrightarrow> (\<forall>d. pos_ok (pf y) d \<longrightarrow> same_regs (tab (fio y) d) (want_regs (pf y) d))"

lemma same_regs_refl [simp]: "same_regs a a"
  by (simp add: same_regs_def)

section \<open>The end of an update\<close>

lemma first_with_map: "(\<And>e. fe_filter (g e) = fe_filter e) \<Longrightarrow> (\<And>e. P (g e) = P e) \<Longrightarrow> first_with P (map g es) = first_with P es"
  by (simp add: first_with_def find_map_same option.map_comp comp_def)

lemma lowest_map: "(\<And>e. fe_filter (g e) = fe_filter e) \<Longrightarrow> (\<And>e. fe_key (g e) = fe_key e) \<Longrightarrow> lowest (map g es) s p = lowest es s p"
  by (simp add: lowest_def first_with_map)

lemma index_ok_map:
  assumes "\<And>e. fe_filter (g e) = fe_filter e" "\<And>e. fe_key (g e) = fe_key e"
  shows "index_ok strs (map g es) = index_ok strs es"
  using assms by (simp add: index_ok_def filter_map comp_def image_image)

lemma deref_filter:
  assumes "\<And>e. P e = Q (fe_filter e)"
  shows "deref_flt (f\<lparr>flt_root := filter P es\<rparr>) n = (if Q n then find (\<lambda>e. fe_filter e = n) es else None)"
proof -
  have "find (\<lambda>e. fe_filter e = n) (filter P es) = (if Q n then find (\<lambda>e. fe_filter e = n) es else None)"
    by (induction es) (auto simp: assms)
  then show ?thesis by (simp add: deref_flt_def)
qed

lemma upd_inv_finish:
  assumes inv: "upd_inv tab cnt es y1 D y'" and o: "flts_ordered (flt_root (pf y1))"
    and es: "es = filter P (flt_root (pf y1))" and P: "\<And>e. P e = Q (fe_filter e)"
    and ix: "index_ok (str_root (pf y1)) es" and keys: "\<forall>e \<in> set es. key_ok (pf_limits (pf y1)) (fe_key e)"
    and out: "\<forall>d. pos_ok (pf y1) d \<longrightarrow> d \<notin> D \<longrightarrow> cur_at (pf y1) (fst d) (snd d) = lowest es (int (fst d)) (int (snd d))"
  defines "y2 \<equiv> set_pf (\<lambda>f. f\<lparr>flt_root := filter P (flt_root f)\<rparr>) y'"
  shows "flt_wf (pf y2)"
    and "flt_map (pf y2) n = (if Q n then flt_map (pf y1) n else None)"
    and "Q n \<Longrightarrow> user_cnt cnt y2 n = user_cnt cnt y1 n"
    and "pos_ok (pf y1) d \<Longrightarrow> tab (fio y2) d = (if d \<in> D then want_regs (pf y2) d else tab (fio y1) d)"
    and "lowest (flt_root (pf y2)) s p = lowest es s p"
    and "pf_limits (pf y2) = pf_limits (pf y1)" "pf_iobase (pf y2) = pf_iobase (pf y1)" "cnt (fio y2) = cnt (fio y1)" "idle y2"
proof -
  obtain g cs where f: "pf y' = (pf y1)\<lparr>flt_root := map g (flt_root (pf y1)), cur_sub := cs\<rparr>"
    and g: "\<And>e. fe_filter (g e) = fe_filter e" "\<And>e. fe_key (g e) = fe_key e" "\<And>e. fe_data (g e) = fe_data e"
    and cntd: "\<And>e. e \<in> set es \<Longrightarrow> \<not> edgx_psfp_flt_str_is_wc (fe_key e) \<Longrightarrow> counted cnt y' (g e) = counted cnt y1 e"
    using inv unfolding upd_inv_def by blast
  have sh: "cur_shape (pf y')" and idle: "idle y'" and io: "cnt (fio y') = cnt (fio y1)"
    and at: "\<And>d. pos_ok (pf y1) d \<Longrightarrow>
        cur_at (pf y') (fst d) (snd d) = (if d \<in> D then lowest es (int (fst d)) (int (snd d)) else cur_at (pf y1) (fst d) (snd d))
      \<and> tab (fio y') d = (if d \<in> D then filter_regs (pf_limits (pf y1)) (eff_data (pf y1) (lowest es (int (fst d)) (int (snd d))))
                         else tab (fio y1) d)"
    using inv unfolding upd_inv_def by blast+
  have P': "P = (\<lambda>e. Q (fe_filter e))" using P by (intro ext)
  have root: "flt_root (pf y2) = map g es"
    by (simp add: y2_def f es filter_map comp_def P' g)
  have pf2: "pf y2 = (pf y1)\<lparr>flt_root := map g es, cur_sub := cs\<rparr>" using root by (simp add: y2_def f)
  show low: "lowest (flt_root (pf y2)) s p = lowest es s p" for s p
    unfolding root by (rule lowest_map) (simp_all add: g)
  show lim: "pf_limits (pf y2) = pf_limits (pf y1)" "pf_iobase (pf y2) = pf_iobase (pf y1)" "cnt (fio y2) = cnt (fio y1)"
    by (simp_all add: y2_def f io)
  show "idle y2" using idle by (simp add: idle_def y2_def)
  have oes: "flts_ordered es" unfolding es by (rule flts_ordered_filter [OF o])
  have cur2: "cur_at (pf y2) = cur_at (pf y')" by (simp add: y2_def cur_at_def fun_eq_iff)
  have deref2: "deref_flt (pf y2) n = (if Q n then map_option g (deref_flt (pf y1) n) else None)" for n
  proof -
    have "deref_flt (pf y2) n = deref_flt ((pf y1)\<lparr>flt_root := filter P (map g (flt_root (pf y1)))\<rparr>) n"
      by (simp add: deref_flt_def y2_def f)
    also have "\<dots> = (if Q n then find (\<lambda>e. fe_filter e = n) (map g (flt_root (pf y1))) else None)"
      using P by (rule deref_filter)
    finally show ?thesis by (simp add: find_map_same g deref_flt_def)
  qed
  then show "flt_map (pf y2) n = (if Q n then flt_map (pf y1) n else None)" for n
    by (simp add: flt_map_def option.map_comp comp_def g)
  show "flt_wf (pf y2)"
    unfolding flt_wf_def
  proof (intro conjI allI impI)
    show "flts_ordered (flt_root (pf y2))" using oes by (simp add: root flts_ordered_map g)
    show "index_ok (str_root (pf y2)) (flt_root (pf y2))" using ix by (simp add: pf2 index_ok_map g)
    show "cur_shape (pf y2)" using sh by (simp add: cur_shape_def pf2 f)
    show "\<forall>e \<in> set (flt_root (pf y2)). key_ok (pf_limits (pf y2)) (fe_key e)" using keys by (auto simp: root lim g)
    fix d assume "pos_ok (pf y2) d"
    then have "pos_ok (pf y1) d" by (simp add: pos_ok_def lim)
    then show "cur_at (pf y2) (fst d) (snd d) = lowest (flt_root (pf y2)) (int (fst d)) (int (snd d))"
      using at out unfolding cur2 low by (cases "d \<in> D") auto
  qed
  show "user_cnt cnt y2 n = user_cnt cnt y1 n" if "Q n"
  proof (cases "deref_flt (pf y1) n")
    case None
    then show ?thesis by (simp add: user_cnt_def deref2)
  next
    case (Some e)
    have "e \<in> set es" using deref_fltD [OF Some] that by (auto simp: es P)
    moreover have "counted cnt y2 (g e) = counted cnt y' (g e)" unfolding counted_def cur2 lim(3) io ..
    ultimately show ?thesis using Some that cntd by (simp add: user_cnt_def deref2 g)
  qed
  show "tab (fio y2) d = (if d \<in> D then want_regs (pf y2) d else tab (fio y1) d)" if "pos_ok (pf y1) d"
  proof -
    have "eff_data (pf y2) (lowest es s p) = eff_data (pf y1) (lowest es s p)" for s p
    proof (cases "lowest es s p")
      case (Some n)
      then have "Q n" using lowestD [OF oes Some] by (auto simp: es P)
      then show ?thesis by (simp add: Some eff_data_def deref2 option.map_comp comp_def g)
    qed (simp add: eff_data_def)
    then show ?thesis using at [OF that] by (simp add: want_regs_def low lim) (simp add: y2_def)
  qed
qed

section \<open>Initialisation\<close>

definition limits_ok :: "psfp_limits \<Rightarrow> bool" where
  "limits_ok lim \<longleftrightarrow> max_str_cnt lim \<le> 1024"

lemma flt_init_wf:
  assumes "flt_contract dev base tab cnt" "limits_ok lim" "\<not> filter_busy base io"
  shows "\<exists>y. edgx_psfp_flt_init dev base lim io = Some y \<and> flt_wf (pf y) \<and> table_ok tab y
    \<and> flt_map (pf y) = Map.empty \<and> pf_limits (pf y) = lim \<and> pf_iobase (pf y) = base \<and> idle y"
proof -
  define y0 where "y0 = \<lparr>pf = \<lparr>pf_iobase = base, flt_root = [], str_root = [], pf_limits = lim,
              cur_sub = replicate (max_str_cnt lim) (replicate EDGX_BR_NUM_PCP None)\<rparr>, fio = io\<rparr>"
  have sh: "cur_shape (pf y0)" "idle y0" using assms(2,3) by (auto simp: cur_shape_def y0_def limits_ok_def idle_def)
  have cur: "cur_at (pf y0) (fst d) (snd d) = None" if "pos_ok (pf y0) d" for d
    using that by (simp add: cur_at_def y0_def pos_ok_def)
  have low: "lowest [] s p = None" for s p by (simp add: lowest_def first_with_def)
  have pre: "upd_pre [] None (pf y0)" using cur by (simp add: upd_pre_def low) (simp add: y0_def)
  have ix: "index_ok (str_root (pf y0)) []" by (simp add: index_ok_def y0_def sk.ordered_Nil)
  have c: "flt_contract dev (pf_iobase (pf y0)) tab cnt" using assms(1) by (simp add: y0_def)
  have "edgx_psfp_flt_get_cand (pf y0) None PSFP_WC PSFP_WC = first_of [] PSFP_WC PSFP_WC"
    by (simp add: edgx_psfp_flt_get_cand_def PSFP_FLT_SUB_IS_VALID_def first_sub_spec [OF ix])
  from upd_for_each [OF c pre sh ix this] obtain y where y: "edgx_psfp_flt_for_each dev None PSFP_WC PSFP_WC y0 = Some y"
    "upd_inv tab cnt [] y0 {d. pos_ok (pf y0) d \<and> key_matches (PSFP_WC, PSFP_WC) (int (fst d)) (int (snd d))} y"
    by (auto simp: key_ok_def)
  have same: "set_pf (\<lambda>f. f\<lparr>flt_root := filter (\<lambda>_. True) (flt_root f)\<rparr>) y = y" by simp
  note fin = upd_inv_finish [OF y(2), of "\<lambda>_. True" "\<lambda>_. True", unfolded same]
  have fin': "flt_wf (pf y)" "\<And>n. flt_map (pf y) n = flt_map (pf y0) n"
    "\<And>d. pos_ok (pf y0) d \<Longrightarrow> tab (fio y) d = want_regs (pf y) d" "pf_limits (pf y) = lim" "pf_iobase (pf y) = base" "idle y"
    using fin ix cur by (simp_all add: y0_def low key_matches_def pos_ok_def)
  have "table_ok tab y" using fin'(3,4) by (simp add: table_ok_def pos_ok_def) (simp add: y0_def)
  moreover have "edgx_psfp_flt_init dev base lim io = Some y"
    using y(1) by (simp add: edgx_psfp_flt_init_def edgx_psfp_flt_upd_hw_def y0_def)
  moreover have "flt_map (pf y) = Map.empty"
    using fin'(2) by (simp add: fun_eq_iff flt_map_def deref_flt_def y0_def)
  ultimately show ?thesis using fin' by blast
qed

section \<open>Adding a filter\<close>

definition subs_of :: "psfp_flt_entry list \<Rightarrow> int \<times> int \<Rightarrow> nat list" where
  "subs_of es k = map fe_filter (filter (\<lambda>e. fe_key e = k) es)"

lemma subs_of_sorted: "flts_ordered es \<Longrightarrow> sorted_wrt (<) (subs_of es k)"
  using flts_ordered_filter [of es] by (simp add: subs_of_def flts_ordered_def)

lemma set_subs_of: "set (subs_of es k) = fe_filter ` {e \<in> set es. fe_key e = k}"
  by (auto simp: subs_of_def)

lemma index_ok_subs:
  "index_ok strs es \<longleftrightarrow> sk.ordered (map str_key strs) \<and> str_key ` set strs = fe_key ` set es
     \<and> (\<forall>x \<in> set strs. se_sub_root x = subs_of es (str_key x))"
  by (simp add: index_ok_def subs_of_def)

lemma subs_of_other:
  assumes "flts_ordered es" "flts_ordered es'" "\<And>e. fe_key e = k \<Longrightarrow> e \<in> set es \<longleftrightarrow> e \<in> set es'"
  shows "subs_of es k = subs_of es' k"
  using assms by (intro strict_sorted_equal subs_of_sorted) (auto simp: set_subs_of)

lemma str_key_set_subs: "map str_key (set_subs k ns strs) = map str_key strs"
  by (simp add: set_subs_def str_key_def)

lemma index_insert:
  assumes ix: "index_ok strs es" and o: "flts_ordered es" "flts_ordered es'"
    and new: "set es' = insert new (set es)" "\<forall>e \<in> set es. fe_filter e \<noteq> fe_filter new"
  defines "k \<equiv> fe_key new"
  defines "found \<equiv> edgx_psfp_flt_str_search strs (fst k) (snd k)"
  defines "stre \<equiv> case found of Some e \<Rightarrow> e | None \<Rightarrow> edgx_psfp_flt_str_create (fst k) (snd k)"
  shows "edgx_psfp_flt_sub_insert (se_sub_root stre) (fe_filter new) = (0, subs_of es' k)"
    and "\<exists>strs'. (case found of Some e \<Rightarrow> (0, set_subs k (subs_of es' k) strs)
           | None \<Rightarrow> edgx_psfp_flt_str_insert strs (stre\<lparr>se_sub_root := subs_of es' k\<rparr>)) = (0, strs') \<and> index_ok strs' es'"
proof -
  have ord: "sk.ordered (map str_key strs)" and keys: "str_key ` set strs = fe_key ` set es"
    and sub: "\<And>x. x \<in> set strs \<Longrightarrow> se_sub_root x = subs_of es (str_key x)"
    using ix by (auto simp: index_ok_subs)
  have fnd: "found = find (\<lambda>x. str_key x = k) strs" unfolding found_def using str_search_spec [OF ord] by simp
  have other: "subs_of es' k' = subs_of es k'" if "k' \<noteq> k" for k'
    using subs_of_other [OF o(2,1), of k'] new(1) that by (auto simp: k_def)
  have root: "se_sub_root stre = subs_of es k"
  proof (cases found)
    case None
    then have "k \<notin> str_key ` set strs" by (auto simp: fnd find_None_iff)
    then have "\<forall>e \<in> set es. fe_key e \<noteq> k" using keys by (metis imageI)
    then show ?thesis using None by (simp add: stre_def edgx_psfp_flt_str_create_def subs_of_def)
  next
    case (Some x)
    then have "x \<in> set strs" "str_key x = k" by (auto simp: fnd find_Some_iff)
    then show ?thesis using sub Some by (simp add: stre_def)
  qed
  have notin: "fe_filter new \<notin> set (subs_of es k)" using new(2) by (auto simp: set_subs_of)
  obtain ns where ns: "edgx_psfp_flt_sub_insert (subs_of es k) (fe_filter new) = (0, ns)" "sorted_wrt (<) ns"
    "set ns = insert (fe_filter new) (set (subs_of es k))"
    using sub_insert_spec [OF subs_of_sorted [OF o(1)] notin] by blast
  have "ns = subs_of es' k"
    using ns(2,3) new(1) by (intro strict_sorted_equal subs_of_sorted o(2)) (auto simp: set_subs_of k_def)
  then show "edgx_psfp_flt_sub_insert (se_sub_root stre) (fe_filter new) = (0, subs_of es' k)"
    using ns(1) root by simp
  show "\<exists>strs'. (case found of Some e \<Rightarrow> (0, set_subs k (subs_of es' k) strs)
           | None \<Rightarrow> edgx_psfp_flt_str_insert strs (stre\<lparr>se_sub_root := subs_of es' k\<rparr>)) = (0, strs') \<and> index_ok strs' es'"
  proof (cases found)
    case None
    then have kn: "k \<notin> str_key ` set strs" by (auto simp: fnd find_None_iff)
    let ?e = "stre\<lparr>se_sub_root := subs_of es' k\<rparr>"
    have ek: "str_key ?e = k" using None by (simp add: stre_def edgx_psfp_flt_str_create_def str_key_def)
    obtain strs' where s: "edgx_psfp_flt_str_insert strs ?e = (0, strs')" "sk.ordered (map str_key strs')" "set strs' = insert ?e (set strs)"
      using str_insert_spec [OF ord, of ?e] kn ek by auto
    have "index_ok strs' es'"
      unfolding index_ok_subs s(3)
    proof (intro conjI ballI)
      show "str_key ` insert ?e (set strs) = fe_key ` set es'" using keys new(1) ek by (simp add: k_def)
      fix x assume "x \<in> insert ?e (set strs)"
      then show "se_sub_root x = subs_of es' (str_key x)" using ek sub other kn by (metis imageI insertE psfp_flt_str_entry.select_convs(3) psfp_flt_str_entry.surjective psfp_flt_str_entry.update_convs(3))
    qed (rule s(2))
    then show ?thesis using None s(1) by simp
  next
    case (Some x)
    then have x: "x \<in> set strs" "str_key x = k" by (auto simp: fnd find_Some_iff)
    have "index_ok (set_subs k (subs_of es' k) strs) es'"
      unfolding index_ok_subs
    proof (intro conjI ballI)
      show "sk.ordered (map str_key (set_subs k (subs_of es' k) strs))" using ord by (simp add: str_key_set_subs)
      have "str_key ` set (set_subs k (subs_of es' k) strs) = set (map str_key strs)"
        using str_key_set_subs [of k "subs_of es' k" strs] by (metis set_map)
      moreover have "k \<in> fe_key ` set es" using keys x by (metis imageI)
      ultimately show "str_key ` set (set_subs k (subs_of es' k) strs) = fe_key ` set es'"
        using keys new(1) by (simp add: k_def insert_absorb)
      fix z assume "z \<in> set (set_subs k (subs_of es' k) strs)"
      then show "se_sub_root z = subs_of es' (str_key z)" using sub other by (auto simp: set_subs_def str_key_def split: if_split_asm)
    qed
    then show ?thesis using Some by simp
  qed
qed

lemma lowest_insert:
  assumes "flts_ordered es" "flts_ordered es'" "set es' = insert new (set es)"
  shows "lowest es' s p = (if key_matches (fe_key new) s p
     then (case lowest es s p of None \<Rightarrow> Some (fe_filter new) | Some m \<Rightarrow> Some (min m (fe_filter new)))
     else lowest es s p)"
proof (cases "lowest es s p")
  case None
  then have none: "\<forall>e \<in> set es. \<not> key_matches (fe_key e) s p" by (simp add: lowest_def first_with_None)
  show ?thesis
  proof (cases "key_matches (fe_key new) s p")
    case True
    then have "lowest es' s p = Some (fe_filter new)"
      unfolding lowest_def first_with_Some [OF assms(2)] assms(3) using none by auto
    then show ?thesis using True None by simp
  next
    case False
    then have "lowest es' s p = None" unfolding lowest_def first_with_None assms(3) using none by auto
    then show ?thesis using False None by simp
  qed
next
  case (Some m)
  then have m: "(\<exists>e \<in> set es. fe_filter e = m \<and> key_matches (fe_key e) s p) \<and> (\<forall>e \<in> set es. key_matches (fe_key e) s p \<longrightarrow> m \<le> fe_filter e)"
    unfolding lowest_def first_with_Some [OF assms(1)] by simp
  have "lowest es' s p = Some (if key_matches (fe_key new) s p then min m (fe_filter new) else m)"
    unfolding lowest_def first_with_Some [OF assms(2)] assms(3) using m by (auto simp: min_def)
  then show ?thesis using Some by simp
qed

lemma subs_of_hd:
  assumes "flts_ordered es" "subs_of es k \<noteq> []"
  shows "first_of es (fst k) (snd k) = Some (hd (subs_of es k))"
  using assms by (auto simp: first_of_def first_with_def find_filter subs_of_def hd_map split: list.split)

lemma index_valid:
  "index_ok strs es \<Longrightarrow> str_root f = strs \<Longrightarrow> PSFP_FLT_SUB_IS_VALID f (Some n) \<longleftrightarrow> n \<in> fe_filter ` set es"
  by (fastforce simp: PSFP_FLT_SUB_IS_VALID_def list_ex_iff index_ok_subs set_subs_of)

text \<open>What every operation that changes a filter guarantees.\<close>

definition flt_post ::
  "(iomem \<Rightarrow> filter_table) \<Rightarrow> (iomem \<Rightarrow> nat \<times> nat \<Rightarrow> psfp_flt_cnt) \<Rightarrow> nat \<Rightarrow> ((int \<times> int) \<times> psfp_flt_data) option \<Rightarrow> flt_sys \<Rightarrow> flt_sys \<Rightarrow> bool" where
  "flt_post tab cnt no v y y' \<longleftrightarrow> flt_wf (pf y') \<and> flt_map (pf y') = (flt_map (pf y))(no := v)
     \<and> (\<forall>n. n \<noteq> no \<longrightarrow> user_cnt cnt y' n = user_cnt cnt y n)
     \<and> (\<forall>d. pos_ok (pf y) d \<longrightarrow> tab (fio y') d = want_regs (pf y') d
            \<or> (tab (fio y') d = tab (fio y) d \<and> want_regs (pf y') d = want_regs (pf y) d
               \<and> lowest (flt_root (pf y')) (int (fst d)) (int (snd d)) = lowest (flt_root (pf y)) (int (fst d)) (int (snd d))))
     \<and> pf_limits (pf y') = pf_limits (pf y) \<and> pf_iobase (pf y') = pf_iobase (pf y) \<and> cnt (fio y') = cnt (fio y) \<and> idle y'"

lemma flt_post_table: "flt_post tab cnt no v y y' \<Longrightarrow> table_ok tab y \<Longrightarrow> table_ok tab y'"
  unfolding flt_post_def table_ok_def pos_ok_def by (metis same_regs_refl)

lemma flt_search_map: "flt_wf f \<Longrightarrow> edgx_psfp_flt_search (flt_root f) n = deref_flt f n"
  by (simp add: flt_wf_def flt_search_spec deref_flt_def)

lemma deref_None_iff: "deref_flt f n = None \<longleftrightarrow> n \<notin> fe_filter ` set (flt_root f)"
  by (auto simp: deref_flt_def find_None_iff)

lemma deref_iff:
  "flts_ordered (flt_root f) \<Longrightarrow> deref_flt f n = Some e \<longleftrightarrow> e \<in> set (flt_root f) \<and> fe_filter e = n"
  using deref_fltI deref_fltD by metis

lemma eff_data_flt_map:
  "eff_data f eff = (case eff of None \<Rightarrow> None | Some n \<Rightarrow> map_option snd (flt_map f n))"
  by (simp add: eff_data_def flt_map_def option.map_comp comp_def split: option.split)

lemma flt_wfD:
  assumes "flt_wf f"
  shows "flts_ordered (flt_root f)" "index_ok (str_root f) (flt_root f)" "cur_shape f"
    "\<And>e. e \<in> set (flt_root f) \<Longrightarrow> key_ok (pf_limits f) (fe_key e)"
    "\<And>s p. pos_ok f (s, p) \<Longrightarrow> cur_at f s p = lowest (flt_root f) (int s) (int p)"
  using assms unfolding flt_wf_def by fastforce+

text \<open>The tables at the end, from those in the middle of the operation.\<close>

lemma want_regs_same:
  assumes "pf_limits f' = pf_limits f" "lowest (flt_root f') (int (fst d)) (int (snd d)) = lowest (flt_root f) (int (fst d)) (int (snd d))"
    and "\<And>n. lowest (flt_root f) (int (fst d)) (int (snd d)) = Some n \<Longrightarrow> flt_map f' n = flt_map f n"
  shows "want_regs f' d = want_regs f d"
  using assms by (auto simp: want_regs_def eff_data_flt_map split: option.split)

definition zero_cnt :: psfp_flt_cnt where
  "zero_cnt = \<lparr>raw_matching = 0, raw_passing = 0, raw_sdu = 0, raw_red = 0\<rparr>"

lemma lowest_not_first:
  assumes o: "flts_ordered es" "flts_ordered es'" and es': "set es' = insert new (set es)"
    and hd: "hd (subs_of es' (fe_key new)) \<noteq> fe_filter new"
  shows "lowest es' s p = lowest es s p"
proof (cases "key_matches (fe_key new) s p")
  case True
  let ?subs = "subs_of es' (fe_key new)"
  have new: "fe_filter new \<in> set ?subs" using es' by (auto simp: set_subs_of)
  have ne: "?subs \<noteq> []" using new by auto
  have less: "hd ?subs < fe_filter new" using subs_of_sorted [OF o(2), of "fe_key new"] hd new ne by (cases ?subs) auto
  have "hd ?subs \<in> set ?subs" using ne by simp
  then obtain e where e: "e \<in> set es'" "fe_filter e = hd ?subs" "fe_key e = fe_key new" by (auto simp: set_subs_of)
  then have in_es: "e \<in> set es" using es' hd by auto
  then have "lowest es s p \<noteq> None" using e(3) True unfolding lowest_def first_with_None by metis
  then obtain m where m: "lowest es s p = Some m" by blast
  then have "m \<le> hd ?subs" using in_es e True unfolding lowest_def first_with_Some [OF o(1)] by auto
  then show ?thesis using m less unfolding lowest_insert [OF o es'] by (simp add: min_def)
qed (simp add: lowest_insert [OF o es'])

text \<open>An update after which the filters other than \<open>no\<close> are those of before, as the driver's trees are.\<close>

lemma upd_inv_post:
  assumes inv: "upd_inv tab cnt es y1 D y'" and wf: "flt_wf (pf y)" and o: "flts_ordered (flt_root (pf y1))"
    and es: "es = filter (\<lambda>e. Q (fe_filter e)) (flt_root (pf y1))"
    and ix: "index_ok (str_root (pf y1)) es" and keys: "\<forall>e \<in> set es. key_ok (pf_limits (pf y1)) (fe_key e)"
    and y1: "pf_limits (pf y1) = pf_limits (pf y)" "pf_iobase (pf y1) = pf_iobase (pf y)" "cur_sub (pf y1) = cur_sub (pf y)" "fio y1 = fio y"
      "\<forall>n. n \<noteq> no \<longrightarrow> deref_flt (pf y1) n = deref_flt (pf y) n"
    and out: "\<forall>d. pos_ok (pf y) d \<longrightarrow> d \<notin> D \<longrightarrow> lowest es (int (fst d)) (int (snd d)) = lowest (flt_root (pf y)) (int (fst d)) (int (snd d))"
    and Q: "\<forall>n. n \<noteq> no \<longrightarrow> Q n" and no: "no \<notin> fe_filter ` set (flt_root (pf y)) \<or> \<not> Q no"
  shows "flt_post tab cnt no (if Q no then flt_map (pf y1) no else None) y
           (set_pf (\<lambda>f. f\<lparr>flt_root := filter (\<lambda>e. Q (fe_filter e)) (flt_root f)\<rparr>) y')"
    and "Q no \<Longrightarrow> user_cnt cnt (set_pf (\<lambda>f. f\<lparr>flt_root := filter (\<lambda>e. Q (fe_filter e)) (flt_root f)\<rparr>) y') no = user_cnt cnt y1 no"
proof -
  define y2 where "y2 = set_pf (\<lambda>f. f\<lparr>flt_root := filter (\<lambda>e. Q (fe_filter e)) (flt_root f)\<rparr>) y'"
  note w = flt_wfD [OF wf]
  have pos: "pos_ok (pf y1) = pos_ok (pf y)" and cur: "cur_at (pf y1) = cur_at (pf y)"
    by (simp_all add: fun_eq_iff pos_ok_def cur_at_def y1)
  have out1: "\<forall>d. pos_ok (pf y1) d \<longrightarrow> d \<notin> D \<longrightarrow> cur_at (pf y1) (fst d) (snd d) = lowest es (int (fst d)) (int (snd d))"
    using out w(5) by (simp add: pos cur)
  note fin = upd_inv_finish [OF inv o es refl ix keys out1, folded y2_def]
  have map2: "flt_map (pf y2) = (flt_map (pf y))(no := if Q no then flt_map (pf y1) no else None)"
    using fin(2) y1(5) Q by (auto simp: fun_eq_iff flt_map_def)
  have cnt1: "counted cnt y1 e = counted cnt y e" for e unfolding counted_def cur y1(4) ..
  have "flt_post tab cnt no (if Q no then flt_map (pf y1) no else None) y y2"
    unfolding flt_post_def
  proof (intro conjI allI impI)
    show "flt_wf (pf y2)" by (rule fin(1))
    show "flt_map (pf y2) = (flt_map (pf y))(no := if Q no then flt_map (pf y1) no else None)" by (rule map2)
    show "user_cnt cnt y2 n = user_cnt cnt y n" if "n \<noteq> no" for n
      using fin(3) [of n] Q y1(5) that unfolding user_cnt_def cnt1 by simp
    show "pf_limits (pf y2) = pf_limits (pf y)" "pf_iobase (pf y2) = pf_iobase (pf y)" "cnt (fio y2) = cnt (fio y)" "idle y2"
      using fin(6-9) y1 by simp_all
    fix d assume d: "pos_ok (pf y) d"
    show "tab (fio y2) d = want_regs (pf y2) d \<or> (tab (fio y2) d = tab (fio y) d \<and> want_regs (pf y2) d = want_regs (pf y) d
        \<and> lowest (flt_root (pf y2)) (int (fst d)) (int (snd d)) = lowest (flt_root (pf y)) (int (fst d)) (int (snd d)))"
    proof (cases "d \<in> D")
      case True
      then show ?thesis using fin(4) [of d] d by (simp add: pos)
    next
      case False
      have low: "lowest (flt_root (pf y2)) (int (fst d)) (int (snd d)) = lowest (flt_root (pf y)) (int (fst d)) (int (snd d))"
        using fin(5) out d False by simp
      moreover have "want_regs (pf y2) d = want_regs (pf y) d"
      proof (rule want_regs_same [OF _ low])
        show "pf_limits (pf y2) = pf_limits (pf y)" using fin(6) y1(1) by simp
        show "flt_map (pf y2) n = flt_map (pf y) n" if n: "lowest (flt_root (pf y)) (int (fst d)) (int (snd d)) = Some n" for n
        proof -
          have "n \<in> fe_filter ` set (flt_root (pf y))" using lowestD [OF w(1) n] by blast
          moreover have "lowest es (int (fst d)) (int (snd d)) = Some n" using n out d False by simp
          then have "n \<in> fe_filter ` set es" using lowestD [of es] o unfolding es by (blast intro: flts_ordered_filter)
          then have "Q n" by (auto simp: es)
          ultimately have "n \<noteq> no" using no by auto
          then show ?thesis by (simp add: map2)
        qed
      qed
      ultimately show ?thesis using fin(4) [of d] d False y1(4) by (simp add: pos)
    qed
  qed
  then show "flt_post tab cnt no (if Q no then flt_map (pf y1) no else None) y
      (set_pf (\<lambda>f. f\<lparr>flt_root := filter (\<lambda>e. Q (fe_filter e)) (flt_root f)\<rparr>) y')" by (simp only: y2_def)
  show "user_cnt cnt (set_pf (\<lambda>f. f\<lparr>flt_root := filter (\<lambda>e. Q (fe_filter e)) (flt_root f)\<rparr>) y') no = user_cnt cnt y1 no" if "Q no"
    using fin(3) [OF that] by (simp only: y2_def)
qed

lemma add_update:
  assumes c: "flt_contract dev (pf_iobase (pf y)) tab cnt" and wf: "flt_wf (pf y)" and idle: "idle y"
    and es': "flts_ordered es'" "set es' = insert new (set (flt_root (pf y)))" and ok: "key_ok (pf_limits (pf y)) (fe_key new)"
    and strs: "index_ok strs es'" and fresh: "fe_filter new \<notin> fe_filter ` set (flt_root (pf y))"
  defines "y1 \<equiv> set_pf (\<lambda>f. f\<lparr>str_root := strs, flt_root := es'\<rparr>) y"
  shows "\<exists>y' D. (if hd (subs_of es' (fe_key new)) = fe_filter new then edgx_psfp_flt_upd_hw dev (Some (fe_filter new)) y1 else Some y1) = Some y'
    \<and> upd_inv tab cnt es' y1 D y'
    \<and> (\<forall>d. pos_ok (pf y) d \<longrightarrow> d \<notin> D \<longrightarrow> lowest es' (int (fst d)) (int (snd d)) = lowest (flt_root (pf y)) (int (fst d)) (int (snd d)))"
proof (cases "hd (subs_of es' (fe_key new)) = fe_filter new")
  case True
  let ?es = "flt_root (pf y)" and ?k = "fe_key new" and ?no = "fe_filter new"
  note w = flt_wfD [OF wf]
  have f1: "flt_root (pf y1) = es'" "str_root (pf y1) = strs" "pf_limits (pf y1) = pf_limits (pf y)" "pf_iobase (pf y1) = pf_iobase (pf y)"
    "cur_at (pf y1) = cur_at (pf y)" "pos_ok (pf y1) = pos_ok (pf y)" "cur_shape (pf y1) = cur_shape (pf y)"
    by (simp_all add: y1_def cur_at_def pos_ok_def cur_shape_def fun_eq_iff)
  have idle1: "idle y1" using idle by (simp add: y1_def idle_def)
  note low = lowest_insert [OF w(1) es']
  have pre: "upd_pre es' (Some ?no) (pf y1)"
    unfolding upd_pre_def f1
  proof (intro conjI allI impI)
    show "flts_ordered es'" "flts_ordered es'" "set es' \<subseteq> set es'" using es' by simp_all
    show "\<forall>e \<in> set es'. key_ok (pf_limits (pf y)) (fe_key e)" using w(4) ok es'(2) by auto
    fix d n assume d: "pos_ok (pf y) d" and "cur_at (pf y) (fst d) (snd d) = Some n"
    then have n: "lowest ?es (int (fst d)) (int (snd d)) = Some n" using w(5) [of "fst d" "snd d"] by simp
    then show "\<exists>e \<in> set es'. fe_filter e = n \<and> key_matches (fe_key e) (int (fst d)) (int (snd d))"
      using lowestD [OF w(1)] es'(2) by auto
    show "Some ?no = lowest es' (int (fst d)) (int (snd d))" if "lowest es' (int (fst d)) (int (snd d)) \<noteq> Some n"
      using that unfolding low by (auto simp: n min_def split: if_split_asm)
  qed simp
  have mem: "?no \<in> set (subs_of es' ?k)" using es'(2) by (auto simp: set_subs_of)
  have ne: "subs_of es' ?k \<noteq> []" using mem by auto
  have "first_of es' (fst ?k) (snd ?k) = Some ?no" using subs_of_hd [OF es'(1) ne] True by simp
  then have "edgx_psfp_flt_get_cand (pf y1) (Some ?no) (fst ?k) (snd ?k) = first_of es' (fst ?k) (snd ?k)"
    using index_valid [OF strs f1(2), of ?no] es'(2) by (simp add: edgx_psfp_flt_get_cand_def)
  then obtain y' where y': "edgx_psfp_flt_for_each dev (Some ?no) (fst ?k) (snd ?k) y1 = Some y'"
    "upd_inv tab cnt es' y1 {d. pos_ok (pf y1) d \<and> key_matches ?k (int (fst d)) (int (snd d))} y'"
    using upd_for_each [of dev y1 tab cnt es' "Some ?no" "fst ?k" "snd ?k"] c pre w(3) idle1 strs ok f1 by auto
  have "deref_flt (pf y1) ?no = Some new" using es' by (simp add: deref_iff f1)
  then show ?thesis
    using True y' f1(6) low
    by (intro exI [of _ y'] exI [of _ "{d. pos_ok (pf y1) d \<and> key_matches ?k (int (fst d)) (int (snd d))}"])
      (simp add: edgx_psfp_flt_upd_hw_def case_prod_beta)
next
  case False
  have "cur_shape (pf y1)" "idle y1" using flt_wfD(3) [OF wf] idle by (simp_all add: y1_def cur_shape_def idle_def)
  then have "upd_inv tab cnt es' y1 {} y1" by (rule upd_inv_start)
  then show ?thesis
    using False lowest_not_first [OF flt_wfD(1) [OF wf] es' False] by (intro exI [of _ y1] exI [of _ "{}"]) simp
qed

lemma flt_add_ok:
  assumes c: "flt_contract dev (pf_iobase (pf y)) tab cnt" and wf: "flt_wf (pf y)" and idle: "idle y"
    and ok: "key_ok (pf_limits (pf y)) (sf_str_hdl d, sf_pcp d)" and fresh: "deref_flt (pf y) no = None"
  shows "\<exists>y'. edgx_psfp_flt_add dev no d y = Some (0, y')
    \<and> flt_post tab cnt no (Some ((sf_str_hdl d, sf_pcp d), sf_data d)) y y'
    \<and> user_cnt cnt y' no = (if edgx_psfp_flt_str_is_wc (sf_str_hdl d, sf_pcp d) then None else Some zero_cnt)"
proof -
  let ?f = "pf y" and ?es = "flt_root (pf y)" and ?k = "(sf_str_hdl d, sf_pcp d)"
  define new where "new = edgx_psfp_flt_create no ?k (sf_data d)"
  have nk: "fe_key new = ?k" "fe_filter new = no" "fe_data new = sf_data d" "fe_cnt_ref new = zero_cnt"
    by (simp_all add: new_def edgx_psfp_flt_create_def zero_cnt_def)
  note w = flt_wfD [OF wf]
  have notin: "\<forall>e \<in> set ?es. fe_filter e \<noteq> fe_filter new" using fresh by (auto simp: deref_None_iff nk)
  obtain es' where es': "edgx_psfp_flt_insert ?es new = (0, es')" "flts_ordered es'" "set es' = insert new (set ?es)"
    using flt_insert_spec [OF w(1) notin] by blast
  note ii = index_insert [OF w(2,1) es'(2,3) notin, unfolded nk]
  obtain strs where strs: "(case edgx_psfp_flt_str_search (str_root ?f) (fst ?k) (snd ?k) of Some e \<Rightarrow> (0, set_subs ?k (subs_of es' ?k) (str_root ?f))
     | None \<Rightarrow> edgx_psfp_flt_str_insert (str_root ?f) ((case edgx_psfp_flt_str_search (str_root ?f) (fst ?k) (snd ?k) of Some e \<Rightarrow> e
          | None \<Rightarrow> edgx_psfp_flt_str_create (fst ?k) (snd ?k))\<lparr>se_sub_root := subs_of es' ?k\<rparr>)) = (0, strs)" "index_ok strs es'"
    using ii(2) by blast
  define y1 where "y1 = set_pf (\<lambda>f. f\<lparr>str_root := strs, flt_root := es'\<rparr>) y"
  let ?upd = "if hd (subs_of es' ?k) = no then edgx_psfp_flt_upd_hw dev (Some no) y1 else Some y1"
  have add: "edgx_psfp_flt_add dev no d y = map_option (Pair 0) ?upd"
    unfolding edgx_psfp_flt_add_def Let_def new_def [symmetric] ii(1) prod.case strs(1) es'(1) y1_def [symmetric]
    by (cases "hd (subs_of es' ?k) = no"; cases "edgx_psfp_flt_upd_hw dev (Some no) y1") simp_all
  have f1: "flt_root (pf y1) = es'" "str_root (pf y1) = strs" by (simp_all add: y1_def)
  have deref1: "deref_flt (pf y1) n = (if n = no then Some new else deref_flt ?f n)" for n
  proof (cases "deref_flt ?f n")
    case None
    then have "n \<noteq> no \<Longrightarrow> deref_flt (pf y1) n = None" using es'(3) nk by (auto simp: deref_None_iff f1)
    moreover have "deref_flt (pf y1) no = Some new" using es' nk by (simp add: deref_iff f1)
    ultimately show ?thesis using None by simp
  next
    case (Some e)
    then have "n \<noteq> no" using fresh by auto
    moreover have "deref_flt (pf y1) n = Some e"
      using deref_fltD [OF Some] es'(2,3) deref_iff [of "pf y1" n e] by (simp add: f1)
    ultimately show ?thesis using Some by simp
  qed
  have nin: "no \<notin> fe_filter ` set ?es" using fresh by (simp add: deref_None_iff)
  have key1: "key_ok (pf_limits ?f) (fe_key new)" and nin1: "fe_filter new \<notin> fe_filter ` set ?es" using ok nin by (simp_all add: nk)
  obtain y' D where y': "?upd = Some y'" "upd_inv tab cnt es' y1 D y'"
    and out: "\<forall>d. pos_ok ?f d \<longrightarrow> d \<notin> D \<longrightarrow> lowest es' (int (fst d)) (int (snd d)) = lowest ?es (int (fst d)) (int (snd d))"
    using add_update [OF c wf idle es'(2,3) key1 strs(2) nin1] unfolding nk y1_def by blast
  have ord1: "flts_ordered (flt_root (pf y1))" and es1: "es' = filter (\<lambda>e. True) (flt_root (pf y1))"
    and ix1: "index_ok (str_root (pf y1)) es'" using es' strs f1 by simp_all
  have keys: "\<forall>e \<in> set es'. key_ok (pf_limits (pf y1)) (fe_key e)" using w(4) ok es'(3) nk by (auto simp: y1_def)
  have same: "set_pf (\<lambda>f. f\<lparr>flt_root := filter (\<lambda>_. True) (flt_root f)\<rparr>) y' = y'" by simp
  have eqs: "pf_limits (pf y1) = pf_limits ?f" "pf_iobase (pf y1) = pf_iobase ?f" "cur_sub (pf y1) = cur_sub ?f" "fio y1 = fio y"
    by (simp_all add: y1_def)
  have d1: "\<forall>n. n \<noteq> no \<longrightarrow> deref_flt (pf y1) n = deref_flt ?f n" using deref1 by simp
  have post1: "flt_post tab cnt no (flt_map (pf y1) no) y y'" and "user_cnt cnt y' no = user_cnt cnt y1 no"
    using upd_inv_post [where Q = "\<lambda>_. True" and no = no, OF y'(2) wf ord1 es1 ix1 keys eqs d1 out _ disjI1 [OF nin]] same by simp_all
  moreover have "user_cnt cnt y1 no = (if edgx_psfp_flt_str_is_wc ?k then None else Some zero_cnt)"
  proof -
    have cur_no: "cur_at ?f s p \<noteq> Some no" if "pos_ok ?f (s, p)" for s p
      using w(5) [OF that] lowestD [OF w(1), of "int s" "int p" no] notin unfolding nk by metis
    have "counted cnt y1 new = zero_cnt" if "\<not> edgx_psfp_flt_str_is_wc ?k"
    proof -
      have "pos_ok ?f (key_pos ?k)" using ok that by (auto simp: pos_ok_def key_ok_def key_pos_def edgx_psfp_flt_str_is_wc_def)
      then show ?thesis using cur_no by (cases "key_pos ?k") (simp add: counted_def nk cur_at_def eqs)
    qed
    then show ?thesis by (simp add: user_cnt_def deref1 nk)
  qed
  moreover have "flt_map (pf y1) no = Some (?k, sf_data d)" by (simp add: flt_map_def deref1 nk)
  ultimately show ?thesis using y'(1) add by auto
qed

end
