(* ===== verification/PsfpFltOps.thy ===== *)
theory PsfpFltOps
  imports PsfpFltInv
begin

text \<open>
  Removing stream filters, the files of the user, and what holds in every state that the
  operations and the switch can reach.
\<close>

unbundle bit_operations_syntax

section \<open>Removing a filter\<close>

lemma subs_of_removed:
  assumes "flts_ordered es'"
  shows "removeAll no (subs_of es' k) = subs_of (filter (\<lambda>e. fe_filter e \<noteq> no) es') k"
  by (simp add: subs_of_def removeAll_filter_not_eq filter_map comp_def eq_commute [of no])
    (simp add: conj_commute)

lemma index_erase:
  assumes ix: "index_ok strs es'" and o: "flts_ordered es'" and e: "e \<in> set es'"
  defines "k \<equiv> fe_key e" and "es \<equiv> filter (\<lambda>x. fe_filter x \<noteq> fe_filter e) es'"
  shows "\<exists>stre. edgx_psfp_flt_str_search strs (fst k) (snd k) = Some stre \<and> se_sub_root stre = subs_of es' k"
    and "index_ok (if subs_of es k = [] then erase_str k strs else set_subs k (subs_of es k) strs) es"
proof -
  have ord: "sk.ordered (map str_key strs)" and keys: "str_key ` set strs = fe_key ` set es'"
    and sub: "\<And>x. x \<in> set strs \<Longrightarrow> se_sub_root x = subs_of es' (str_key x)"
    using ix by (auto simp: index_ok_subs)
  have "k \<in> str_key ` set strs" using keys e by (simp add: k_def)
  then have "find (\<lambda>x. str_key x = k) strs \<noteq> None" by (auto simp: find_None_iff)
  then obtain x where x: "find (\<lambda>x. str_key x = k) strs = Some x" by blast
  then have "x \<in> set strs" "str_key x = k" by (auto simp: find_Some_iff)
  then show "\<exists>stre. edgx_psfp_flt_str_search strs (fst k) (snd k) = Some stre \<and> se_sub_root stre = subs_of es' k"
    using x sub str_search_spec [OF ord, of "fst k" "snd k"] by simp
  have other: "subs_of es k' = subs_of es' k'" if "k' \<noteq> k" for k'
  proof (rule subs_of_other)
    show "flts_ordered es" "flts_ordered es'" using o by (simp_all add: es_def flts_ordered_filter)
    show "x \<in> set es \<longleftrightarrow> x \<in> set es'" if "fe_key x = k'" for x
      using flts_ordered_inj [OF o _ e] \<open>k' \<noteq> k\<close> that by (auto simp: es_def k_def)
  qed
  have keyset: "fe_key ` set es = (if subs_of es k = [] then fe_key ` set es' - {k} else fe_key ` set es')"
  proof -
    have "k' \<in> fe_key ` set es \<longleftrightarrow> k' \<in> fe_key ` set es' \<and> \<not> (k' = k \<and> subs_of es k = [])" for k'
    proof (cases "k' = k")
      case True
      have "k \<in> fe_key ` set es \<longleftrightarrow> subs_of es k \<noteq> []" by (auto simp: subs_of_def filter_empty_conv)
      then show ?thesis using True e by (auto simp: k_def)
    next
      case False
      have "k' \<in> fe_key ` set es \<longleftrightarrow> subs_of es k' \<noteq> []" "k' \<in> fe_key ` set es' \<longleftrightarrow> subs_of es' k' \<noteq> []"
        by (auto simp: subs_of_def filter_empty_conv)
      then show ?thesis using False other by simp
    qed
    then show ?thesis unfolding set_eq_iff by (cases "subs_of es k = []") simp_all
  qed
  show "index_ok (if subs_of es k = [] then erase_str k strs else set_subs k (subs_of es k) strs) es"
  proof (cases "subs_of es k = []")
    case True
    have "erase_str k strs = filter (\<lambda>x. str_key x \<noteq> k) strs" by (simp add: erase_str_def str_key_def)
    moreover have "map str_key (filter (\<lambda>x. str_key x \<noteq> k) strs) = filter (\<lambda>k'. k' \<noteq> k) (map str_key strs)"
      by (simp add: filter_map comp_def)
    moreover have "str_key ` {x \<in> set strs. str_key x \<noteq> k} = fe_key ` set es" using keys keyset True by auto
    ultimately show ?thesis
      using True sub other sk.ordered_filter [OF ord] by (simp add: index_ok_subs)
  next
    case False
    have "str_key ` set (set_subs k (subs_of es k) strs) = str_key ` set strs"
      using str_key_set_subs by (metis list.set_map)
    moreover have "se_sub_root x = subs_of es (str_key x)" if "x \<in> set (set_subs k (subs_of es k) strs)" for x
      using that sub other by (auto simp: set_subs_def str_key_def split: if_split_asm)
    ultimately show ?thesis using False keyset keys ord by (simp add: index_ok_subs str_key_set_subs)
  qed
qed

lemma del_update:
  assumes c: "flt_contract dev (pf_iobase (pf y)) tab cnt" and wf: "flt_wf (pf y)" and idle: "idle y" and e: "e \<in> set (flt_root (pf y))"
  defines "es \<equiv> filter (\<lambda>x. fe_filter x \<noteq> fe_filter e) (flt_root (pf y))"
  assumes strs: "index_ok strs es"
  defines "y1 \<equiv> set_pf (\<lambda>f. f\<lparr>str_root := strs\<rparr>) y"
  shows "\<exists>y' D. (if hd (subs_of (flt_root (pf y)) (fe_key e)) = fe_filter e then edgx_psfp_flt_upd_hw dev (Some (fe_filter e)) y1 else Some y1) = Some y'
    \<and> upd_inv tab cnt es y1 D y'
    \<and> (\<forall>d. pos_ok (pf y) d \<longrightarrow> d \<notin> D \<longrightarrow> lowest es (int (fst d)) (int (snd d)) = lowest (flt_root (pf y)) (int (fst d)) (int (snd d)))"
proof -
  let ?root = "flt_root (pf y)" and ?k = "fe_key e" and ?no = "fe_filter e"
  note w = flt_wfD [OF wf]
  have oes: "flts_ordered es" using w(1) by (simp add: es_def flts_ordered_filter)
  have ins: "set ?root = insert e (set es)"
    using e flts_ordered_inj [OF w(1) _ e] by (auto simp: es_def)
  note low = lowest_insert [OF oes w(1) ins]
  have f1: "flt_root (pf y1) = ?root" "str_root (pf y1) = strs" "pf_limits (pf y1) = pf_limits (pf y)" "pf_iobase (pf y1) = pf_iobase (pf y)"
    "cur_at (pf y1) = cur_at (pf y)" "pos_ok (pf y1) = pos_ok (pf y)" "cur_shape (pf y1) = cur_shape (pf y)"
    by (simp_all add: y1_def cur_at_def pos_ok_def cur_shape_def fun_eq_iff)
  have idle1: "idle y1" using idle by (simp add: y1_def idle_def)
  show ?thesis
  proof (cases "hd (subs_of ?root ?k) = ?no")
    case True
    have pre: "upd_pre es (Some ?no) (pf y1)"
      unfolding upd_pre_def f1
    proof (intro conjI allI impI)
      show "flts_ordered ?root" "flts_ordered es" "set es \<subseteq> set ?root" using w(1) oes ins by auto
      show "\<forall>e \<in> set es. key_ok (pf_limits (pf y)) (fe_key e)" using w(4) by (auto simp: es_def)
      fix d n assume d: "pos_ok (pf y) d" and "cur_at (pf y) (fst d) (snd d) = Some n"
      then have n: "lowest ?root (int (fst d)) (int (snd d)) = Some n" using w(5) [of "fst d" "snd d"] by simp
      then show "\<exists>e \<in> set ?root. fe_filter e = n \<and> key_matches (fe_key e) (int (fst d)) (int (snd d))"
        using lowestD [OF w(1)] by auto
      show "Some ?no = lowest es (int (fst d)) (int (snd d))" if "n \<in> fe_filter ` set es" "lowest es (int (fst d)) (int (snd d)) \<noteq> Some n"
      proof -
        have "n \<noteq> ?no" using that(1) by (auto simp: es_def)
        then show ?thesis using that(2) n unfolding low by (auto simp: min_def split: if_split_asm option.split_asm)
      qed
    qed simp
    have "?no \<notin> fe_filter ` set es" by (auto simp: es_def)
    then have "edgx_psfp_flt_get_cand (pf y1) (Some ?no) (fst ?k) (snd ?k) = first_of es (fst ?k) (snd ?k)"
      using index_valid [OF strs f1(2), of ?no] strs f1(2) by (simp add: edgx_psfp_flt_get_cand_def first_sub_spec)
    then obtain y' where y': "edgx_psfp_flt_for_each dev (Some ?no) (fst ?k) (snd ?k) y1 = Some y'"
      "upd_inv tab cnt es y1 {d. pos_ok (pf y1) d \<and> key_matches ?k (int (fst d)) (int (snd d))} y'"
      using upd_for_each [of dev y1 tab cnt es "Some ?no" "fst ?k" "snd ?k"] c pre w(3,4) idle1 strs e f1 by auto
    have "deref_flt (pf y1) ?no = Some e" using w(1) e by (simp add: deref_iff f1)
    then show ?thesis
      using True y' f1(6) low
      by (intro exI [of _ y'] exI [of _ "{d. pos_ok (pf y1) d \<and> key_matches ?k (int (fst d)) (int (snd d))}"])
        (simp add: edgx_psfp_flt_upd_hw_def case_prod_beta)
  next
    case False
    have "cur_shape (pf y1)" using w(3) f1(7) by simp
    then have "upd_inv tab cnt es y1 {} y1" using idle1 by (rule upd_inv_start)
    then show ?thesis
      using False lowest_not_first [OF oes w(1) ins False] by (intro exI [of _ y1] exI [of _ "{}"]) simp
  qed
qed

lemma flt_del_ok:
  assumes c: "flt_contract dev (pf_iobase (pf y)) tab cnt" and wf: "flt_wf (pf y)" and idle: "idle y" and e: "deref_flt (pf y) no = Some e"
  shows "\<exists>y'. flt_del_store dev (Some no) count y = Some (count, y') \<and> flt_post tab cnt no None y y'"
proof -
  let ?root = "flt_root (pf y)" and ?k = "fe_key e"
  note w = flt_wfD [OF wf]
  have mem: "e \<in> set ?root" and fe: "fe_filter e = no" using deref_fltD [OF e] by blast+
  define es where "es = filter (\<lambda>x. fe_filter x \<noteq> no) ?root"
  define strs where "strs = (if subs_of es ?k = [] then erase_str ?k (str_root (pf y)) else set_subs ?k (subs_of es ?k) (str_root (pf y)))"
  obtain stre where stre: "edgx_psfp_flt_str_search (str_root (pf y)) (fst ?k) (snd ?k) = Some stre" "se_sub_root stre = subs_of ?root ?k"
    and ix: "index_ok strs es"
    using index_erase [OF w(2,1) mem] unfolding fe es_def [symmetric] strs_def [symmetric] by blast
  define y1 where "y1 = set_pf (\<lambda>f. f\<lparr>str_root := strs\<rparr>) y"
  have nsub: "no \<in> set (subs_of ?root ?k)" using mem fe by (auto simp: set_subs_of)
  let ?upd = "if hd (subs_of ?root ?k) = no then edgx_psfp_flt_upd_hw dev (Some no) y1 else Some y1"
  let ?fin = "set_pf (\<lambda>f. f\<lparr>flt_root := filter (\<lambda>e. fe_filter e \<noteq> no) (flt_root f)\<rparr>)"
  have first: "(case subs_of ?root ?k of [] \<Rightarrow> False | n # ns \<Rightarrow> n = no) = (hd (subs_of ?root ?k) = no)"
    using nsub by (cases "subs_of ?root ?k") auto
  have search: "edgx_psfp_flt_search ?root no = Some e" using e wf by (simp add: flt_search_map)
  have del: "flt_del_store dev (Some no) count y = map_option (\<lambda>y. (count, ?fin y)) ?upd"
    unfolding flt_del_store_def Let_def option.case search stre bind.bind_lunit first subs_of_removed [OF w(1)]
      es_def [symmetric] strs_def [symmetric] y1_def [symmetric]
    by (cases "hd (subs_of ?root ?k) = no"; cases "edgx_psfp_flt_upd_hw dev (Some no) y1") simp_all
  obtain y' D where y': "?upd = Some y'" "upd_inv tab cnt es y1 D y'"
    and out: "\<forall>d. pos_ok (pf y) d \<longrightarrow> d \<notin> D \<longrightarrow> lowest es (int (fst d)) (int (snd d)) = lowest ?root (int (fst d)) (int (snd d))"
    using del_update [OF c wf idle mem, unfolded fe, folded es_def, OF ix] unfolding y1_def by blast
  have ord1: "flts_ordered (flt_root (pf y1))" and es1: "es = filter (\<lambda>x. fe_filter x \<noteq> no) (flt_root (pf y1))"
    and ix1: "index_ok (str_root (pf y1)) es" using w(1) ix by (simp_all add: y1_def es_def)
  have keys: "\<forall>e \<in> set es. key_ok (pf_limits (pf y1)) (fe_key e)" using w(4) by (auto simp: y1_def es_def)
  have eqs: "pf_limits (pf y1) = pf_limits (pf y)" "pf_iobase (pf y1) = pf_iobase (pf y)" "cur_sub (pf y1) = cur_sub (pf y)" "fio y1 = fio y"
    by (simp_all add: y1_def)
  have d1: "\<forall>n. n \<noteq> no \<longrightarrow> deref_flt (pf y1) n = deref_flt (pf y) n" by (simp add: deref_flt_def y1_def)
  have "flt_post tab cnt no None y (?fin y')"
    using upd_inv_post(1) [where Q = "\<lambda>n. n \<noteq> no" and no = no, OF y'(2) wf ord1 es1 ix1 keys eqs d1 out] by simp
  then show ?thesis using y'(1) del by auto
qed

section \<open>The files of the user\<close>

datatype flt_op =
    Flt_Write psfp_flt_sysfs_entry int int
  | Flt_Read int int
  | Flt_Del "nat option" int
  | Flt_Cnt psfp_cnt_type int int

fun flt_run :: "device \<Rightarrow> flt_op \<Rightarrow> flt_sys \<Rightarrow> (int \<times> flt_sys) option" where
  "flt_run dev (Flt_Write d ofs count) y = flt_tbl_write dev d ofs count y"
| "flt_run dev (Flt_Read ofs count) y = map_option (\<lambda>(r, d, y). (r, y)) (flt_tbl_read dev ofs count y)"
| "flt_run dev (Flt_Del no count) y = flt_del_store dev no count y"
| "flt_run dev (Flt_Cnt t ofs count) y = map_option (\<lambda>(r, c, y). (r, y)) (flt_str_cnt_read dev t ofs count y)"

text \<open>What they are to do, on the filters as a map.\<close>

fun flt_spec :: "psfp_limits \<Rightarrow> flt_op \<Rightarrow> (nat \<Rightarrow> ((int \<times> int) \<times> psfp_flt_data) option)
    \<Rightarrow> int \<times> (nat \<Rightarrow> ((int \<times> int) \<times> psfp_flt_data) option)" where
  "flt_spec lim (Flt_Write d ofs count) m =
     (let n = nat (ofs div 22)
      in if \<not> 22 dvd ofs \<or> count \<noteq> 22 \<or> ofs div 22 \<ge> 8192 then (- EINVAL, m)
         else if \<not> key_ok lim (sf_str_hdl d, sf_pcp d) \<or> \<not> unat (fd_gate (sf_data d)) < max_gate_cnt lim
           \<or> \<not> (fd_fmtr (sf_data d) \<in> {- 1..<int (max_fmtr_cnt lim)}) then (- EINVAL, m)
         else if m n \<noteq> None then (- EEXIST, m)
         else (22, m(n \<mapsto> ((sf_str_hdl d, sf_pcp d), sf_data d))))"
| "flt_spec lim (Flt_Read ofs count) m =
     (if \<not> 22 dvd ofs \<or> count \<noteq> 22 \<or> ofs div 22 \<ge> 8192 then (- EINVAL, m)
      else if m (nat (ofs div 22)) = None then (- ENOENT, m) else (22, m))"
| "flt_spec lim (Flt_Del no count) m =
     (case no of None \<Rightarrow> (- EINVAL, m) | Some n \<Rightarrow> if m n = None then (- ENOENT, m) else (count, m(n := None)))"
| "flt_spec lim (Flt_Cnt t ofs count) m =
     (if \<not> 4 dvd ofs \<or> count \<noteq> 4 \<or> ofs div 4 \<ge> 8192 \<or> ofs div 4 \<ge> int (max_flt_cnt lim) then (- EINVAL, m)
      else if m (nat (ofs div 4)) = None then (- ENOENT, m) else (4, m))"

lemma flt_check_iff:
  "edgx_psfp_flt_check lim d = 0 \<longleftrightarrow> key_ok lim (sf_str_hdl d, sf_pcp d) \<and> unat (fd_gate (sf_data d)) < max_gate_cnt lim
     \<and> fd_fmtr (sf_data d) \<in> {- 1..<int (max_fmtr_cnt lim)}"
  by (auto simp: edgx_psfp_flt_check_def key_ok_def)

lemma flt_map_None: "flt_wf f \<Longrightarrow> edgx_psfp_flt_search (flt_root f) n = None \<longleftrightarrow> flt_map f n = None"
  by (simp add: flt_search_map flt_map_def)

text \<open>The states of the filters, and what an operation keeps.\<close>

definition flt_good :: "(iomem \<Rightarrow> filter_table) \<Rightarrow> nat \<Rightarrow> psfp_limits \<Rightarrow> flt_sys \<Rightarrow> bool" where
  "flt_good tab base lim y \<longleftrightarrow> flt_wf (pf y) \<and> table_ok tab y \<and> idle y \<and> pf_limits (pf y) = lim \<and> pf_iobase (pf y) = base"

text \<open>Nothing but the registers has changed.\<close>

definition only_regs :: "(iomem \<Rightarrow> filter_table) \<Rightarrow> (iomem \<Rightarrow> nat \<times> nat \<Rightarrow> psfp_flt_cnt) \<Rightarrow> flt_sys \<Rightarrow> flt_sys \<Rightarrow> bool" where
  "only_regs tab cnt y y' \<longleftrightarrow> pf y' = pf y \<and> tab (fio y') = tab (fio y) \<and> cnt (fio y') = cnt (fio y) \<and> idle y'"

lemma only_regs_good: "only_regs tab cnt y y' \<Longrightarrow> flt_good tab base lim y \<Longrightarrow> flt_good tab base lim y'"
  by (simp add: only_regs_def flt_good_def table_ok_def)

lemma only_regs_user_cnt: "only_regs tab cnt y y' \<Longrightarrow> user_cnt cnt y' n = user_cnt cnt y n"
proof -
  assume "only_regs tab cnt y y'"
  then have same: "pf y' = pf y" "cnt (fio y') = cnt (fio y)" by (simp_all add: only_regs_def)
  show ?thesis unfolding user_cnt_def counted_def same ..
qed

lemma flt_post_good:
  "flt_post tab cnt no v y y' \<Longrightarrow> flt_good tab base lim y \<Longrightarrow> flt_good tab base lim y'"
  using flt_post_table [of tab cnt no v y y'] by (simp add: flt_good_def) (simp add: flt_post_def)

lemma exact_pos:
  assumes "key_ok lim k" "\<not> edgx_psfp_flt_str_is_wc k" "max_str_cnt lim \<le> 1024"
  obtains s p where "k = (int s, int p)" "s < max_str_cnt lim" "s < 1024" "p < EDGX_BR_NUM_PCP"
  using assms that [of "nat (fst k)" "nat (snd k)"] by (cases k) (auto simp: key_ok_def edgx_psfp_flt_str_is_wc_def)

text \<open>The data that the hardware table shows.\<close>

definition regs_data :: "psfp_limits \<Rightarrow> u16 \<times> u16 \<times> u16 \<Rightarrow> psfp_flt_data" where
  "regs_data lim r =
     (let (table0, table1, table2) = r
      in \<lparr>fd_gate = (if FIELD_GET 7 7 table2 \<noteq> 0 then ucast (FIELD_GET 3 0 table2) else 0),
          fd_max_sdu = (ucast (FIELD_GET 10 0 table0) :: u32) - PSFP_FRAME_SZ_OVERHEAD,
          fd_fmtr = (if FIELD_GET 15 15 table1 \<noteq> 0
                     then sint ((ucast (FIELD_GET 11 0 table1) :: u32) - of_nat (res_fmtr_cnt lim)) else 0),
          fd_blk_oversz_ena = (FIELD_GET 15 15 table0 \<noteq> 0), fd_blk_oversz = (FIELD_GET 14 14 table0 \<noteq> 0)\<rparr>)"

lemma flt_read_hwD:
  assumes "flt_contract dev (pf_iobase f) tab cnt" "s < 1024" "p < EDGX_BR_NUM_PCP" "\<not> filter_busy (pf_iobase f) io"
  shows "\<exists>io'. edgx_psfp_flt_read_hw dev f (int s) (int p) io = Some (regs_data (pf_limits f) (tab io (s, p)), io')
    \<and> tab io' = tab io \<and> cnt io' = cnt io \<and> \<not> filter_busy (pf_iobase f) io'"
proof -
  obtain io' where io': "wait_clear dev (filter_busy (pf_iobase f)) (edgx_wr16 io (pf_iobase f) FILTER_CMD (filter_pos (int s) (int p) OR FILTER_TRANSFER)) = Some io'"
    "tab io' = tab io" "cnt io' = cnt io"
    "tab io (s, p) = (edgx_rd16 io' (pf_iobase f) FILTER_TBL_0, edgx_rd16 io' (pf_iobase f) FILTER_TBL_1, edgx_rd16 io' (pf_iobase f) FILTER_TBL_2)"
    using assms unfolding flt_contract_def by blast
  moreover have "\<not> filter_busy (pf_iobase f) io'" using wait_clear_SomeD [OF io'(1)] by blast
  ultimately show ?thesis unfolding edgx_psfp_flt_read_hw_def Let_def regs_data_def by simp
qed

lemma flt_tbl_read_outcome:
  assumes c: "flt_contract dev (pf_iobase (pf y)) tab cnt" and wf: "flt_wf (pf y)" and i: "idle y"
  shows "\<exists>r d y'. flt_tbl_read dev ofs count y = Some (r, d, y') \<and> only_regs tab cnt y y'
    \<and> r = fst (flt_spec (pf_limits (pf y)) (Flt_Read ofs count) (flt_map (pf y)))
    \<and> d = (if r = 22
           then map_option (\<lambda>(k, v). \<lparr>sf_str_hdl = fst k, sf_pcp = snd k, sf_data =
                  if edgx_psfp_flt_str_is_wc k then v
                  else v\<lparr>fd_blk_oversz := fd_blk_oversz (regs_data (pf_limits (pf y)) (tab (fio y) (key_pos k)))\<rparr>\<rparr>)
                (flt_map (pf y) (nat (ofs div 22))) else None)"
proof (cases "22 dvd ofs \<and> count = 22 \<and> ofs div 22 < 8192")
  case True
  show ?thesis
  proof (cases "deref_flt (pf y) (nat (ofs div 22))")
    case None
    then show ?thesis
      using True i wf by (simp add: flt_tbl_read_def sysfs_tbl_params_iff flt_search_map flt_map_def only_regs_def)
  next
    case (Some e)
    obtain s p where sp: "fe_key e = (s, p)" by (cases "fe_key e")
    show ?thesis
    proof (cases "edgx_psfp_flt_str_is_wc (s, p)")
      case wc: True
      then show ?thesis
        using True Some i wf by (simp add: flt_tbl_read_def sysfs_tbl_params_iff flt_search_map flt_map_def only_regs_def sp)
    next
      case False
      have "key_ok (pf_limits (pf y)) (s, p)" using flt_wfD(4) [OF wf, of e] deref_fltD(1) [OF Some] sp by simp
      moreover have "max_str_cnt (pf_limits (pf y)) \<le> 1024" using flt_wfD(3) [OF wf] by (simp add: cur_shape_def)
      ultimately obtain s' p' where "(s, p) = (int s', int p')" "s' < 1024" "p' < EDGX_BR_NUM_PCP"
        using exact_pos [OF _ False] by blast
      then show ?thesis
        using flt_read_hwD [OF c, of s' p' "fio y"] i True Some wf False
        by (auto simp: flt_tbl_read_def sysfs_tbl_params_iff flt_search_map flt_map_def only_regs_def sp idle_def key_pos_def)
    qed
  qed
next
  case False
  then show ?thesis using i by (auto simp: flt_tbl_read_def sysfs_tbl_params_iff only_regs_def)
qed

lemma get_user_cnt_minus:
  "edgx_psfp_flt_get_user_cnt cur (Some r) t = edgx_psfp_flt_get_user_cnt (cnt_minus cur r) None t"
  by (cases t) (simp_all add: edgx_psfp_flt_get_user_cnt_def cnt_minus_def)

definition shown_cnt :: "psfp_flt_cnt option \<Rightarrow> psfp_cnt_type \<Rightarrow> u32" where
  "shown_cnt c t = (case c of None \<Rightarrow> 0 | Some u \<Rightarrow> edgx_psfp_flt_get_user_cnt u None t)"

lemma flt_cnt_read_outcome:
  assumes c: "flt_contract dev (pf_iobase (pf y)) tab cnt" and wf: "flt_wf (pf y)" and i: "idle y"
  shows "\<exists>r v y'. flt_str_cnt_read dev t ofs count y = Some (r, v, y') \<and> only_regs tab cnt y y'
    \<and> r = fst (flt_spec (pf_limits (pf y)) (Flt_Cnt t ofs count) (flt_map (pf y)))
    \<and> v = (if r = 4 then Some (shown_cnt (user_cnt cnt y (nat (ofs div 4))) t) else None)"
proof (cases "4 dvd ofs \<and> count = 4 \<and> ofs div 4 < 8192 \<and> ofs div 4 < int (max_flt_cnt (pf_limits (pf y)))")
  case True
  show ?thesis
  proof (cases "deref_flt (pf y) (nat (ofs div 4))")
    case None
    then show ?thesis
      using True i wf
      by (simp add: flt_str_cnt_read_def sysfs_tbl_params_iff edgx_psfp_flt_get_cnt_def flt_search_map flt_map_def only_regs_def)
  next
    case (Some e)
    obtain s p where sp: "fe_key e = (s, p)" by (cases "fe_key e")
    have fe: "fe_filter e = nat (ofs div 4)" using deref_fltD(2) [OF Some] .
    show ?thesis
    proof (cases "edgx_psfp_flt_str_is_wc (s, p)")
      case wc: True
      then show ?thesis
        using True Some i wf
        by (simp add: flt_str_cnt_read_def sysfs_tbl_params_iff edgx_psfp_flt_get_cnt_def flt_search_map flt_map_def
            only_regs_def sp user_cnt_def shown_cnt_def)
    next
      case False
      have sh: "cur_shape (pf y)" by (rule flt_wfD(3) [OF wf])
      have "key_ok (pf_limits (pf y)) (s, p)" using flt_wfD(4) [OF wf, of e] deref_fltD(1) [OF Some] sp by simp
      moreover have "max_str_cnt (pf_limits (pf y)) \<le> 1024" using sh by (simp add: cur_shape_def)
      ultimately obtain s' p' where k: "(s, p) = (int s', int p')" "s' < max_str_cnt (pf_limits (pf y))" "s' < 1024" "p' < EDGX_BR_NUM_PCP"
        using exact_pos [OF _ False] by blast
      have row: "nth_opt (cur_sub (pf y)) s' = Some (cur_sub (pf y) ! s')" "nth_opt (cur_sub (pf y) ! s') p' = Some (cur_at (pf y) s' p')"
        using cur_shapeD [OF sh k(2)] k(4) by (simp_all add: cur_at_def)
      have u: "user_cnt cnt y (nat (ofs div 4)) = Some (if cur_at (pf y) s' p' = Some (nat (ofs div 4))
          then cnt_minus (cnt (fio y) (s', p')) (fe_cnt_ref e) else fe_cnt_ref e)"
        using Some False k(1) by (simp add: user_cnt_def sp counted_def key_pos_def fe)
      show ?thesis
      proof (cases "cur_at (pf y) s' p' = Some (nat (ofs div 4))")
        case cur: True
        obtain io' where "edgx_psfp_flt_str_get_cnt_hw dev (pf y) (int s') (int p') (fio y) = Some (cnt (fio y) (s', p'), io')"
          "tab io' = tab (fio y)" "cnt io' = cnt (fio y)" "\<not> filter_busy (pf_iobase (pf y)) io'"
          using flt_get_cnt_hwD [OF c k(3,4)] i unfolding idle_def by blast
        then show ?thesis
          using True Some wf False k(1) row cur u
          by (simp add: flt_str_cnt_read_def sysfs_tbl_params_iff edgx_psfp_flt_get_cnt_def flt_search_map flt_map_def
              only_regs_def sp shown_cnt_def get_user_cnt_minus idle_def)
      next
        case cur: False
        then show ?thesis
          using True Some wf False k(1) row u i
          by (simp add: flt_str_cnt_read_def sysfs_tbl_params_iff edgx_psfp_flt_get_cnt_def flt_search_map flt_map_def
              only_regs_def sp shown_cnt_def idle_def)
      qed
    qed
  qed
next
  case False
  then show ?thesis using i by (auto simp: flt_str_cnt_read_def sysfs_tbl_params_iff only_regs_def)
qed

text \<open>One operation: nothing but registers, or one filter added with counters from zero, or one removed.\<close>

definition flt_step :: "(iomem \<Rightarrow> filter_table) \<Rightarrow> (iomem \<Rightarrow> nat \<times> nat \<Rightarrow> psfp_flt_cnt) \<Rightarrow> flt_sys \<Rightarrow> flt_sys \<Rightarrow> bool" where
  "flt_step tab cnt y y' \<longleftrightarrow> only_regs tab cnt y y'
     \<or> (\<exists>no. flt_post tab cnt no None y y')
     \<or> (\<exists>no k v. flt_post tab cnt no (Some (k, v)) y y' \<and> flt_map (pf y) no = None
          \<and> user_cnt cnt y' no = (if edgx_psfp_flt_str_is_wc k then None else Some zero_cnt))"

lemma flt_run_ok:
  assumes c: "flt_contract dev (pf_iobase (pf y)) tab cnt" and wf: "flt_wf (pf y)" and i: "idle y"
  shows "\<exists>r y'. flt_run dev op y = Some (r, y') \<and> (r, flt_map (pf y')) = flt_spec (pf_limits (pf y)) op (flt_map (pf y))
    \<and> flt_step tab cnt y y'"
proof (cases op)
  case (Flt_Read ofs count)
  then show ?thesis
    using flt_tbl_read_outcome [OF assms, of ofs count] by (auto simp: flt_step_def only_regs_def Let_def)
next
  case (Flt_Cnt t ofs count)
  then show ?thesis
    using flt_cnt_read_outcome [OF assms, of t ofs count] by (auto simp: flt_step_def only_regs_def)
next
  case (Flt_Del no count)
  have self: "only_regs tab cnt y y" using i by (simp add: only_regs_def)
  show ?thesis
  proof (cases "no = None \<or> deref_flt (pf y) (the no) = None")
    case True
    then show ?thesis
      using Flt_Del self wf by (cases no) (auto simp: flt_del_store_def flt_search_map flt_map_def flt_step_def)
  next
    case False
    then obtain n e where n: "no = Some n" "deref_flt (pf y) n = Some e" by auto
    then show ?thesis
      using flt_del_ok [OF assms n(2), of count] Flt_Del by (auto simp: flt_step_def flt_post_def flt_map_def)
  qed
next
  case (Flt_Write d ofs count)
  have self: "only_regs tab cnt y y" using i by (simp add: only_regs_def)
  let ?n = "nat (ofs div 22)"
  show ?thesis
  proof (cases "22 dvd ofs \<and> count = 22 \<and> ofs div 22 < 8192 \<and> edgx_psfp_flt_check (pf_limits (pf y)) d = 0 \<and> deref_flt (pf y) ?n = None")
    case True
    then have ok: "key_ok (pf_limits (pf y)) (sf_str_hdl d, sf_pcp d)" by (simp add: flt_check_iff)
    obtain y' where y': "edgx_psfp_flt_add dev ?n d y = Some (0, y')"
      "flt_post tab cnt ?n (Some ((sf_str_hdl d, sf_pcp d), sf_data d)) y y'"
      "user_cnt cnt y' ?n = (if edgx_psfp_flt_str_is_wc (sf_str_hdl d, sf_pcp d) then None else Some zero_cnt)"
      using flt_add_ok [OF assms ok] True by blast
    have fresh: "flt_map (pf y) ?n = None" using True by (simp add: flt_map_def)
    have "flt_step tab cnt y y'" using y'(2,3) fresh unfolding flt_step_def by blast
    moreover have "flt_run dev op y = Some (22, y')"
      using True y'(1) wf Flt_Write by (simp add: flt_tbl_write_def sysfs_tbl_params_iff flt_search_map)
    moreover have "flt_spec (pf_limits (pf y)) op (flt_map (pf y)) = (22, flt_map (pf y'))"
      using True fresh y'(2) Flt_Write by (simp add: Let_def flt_check_iff flt_post_def)
    ultimately show ?thesis by auto
  next
    case False
    have "flt_run dev op y = Some (fst (flt_spec (pf_limits (pf y)) op (flt_map (pf y))), y)"
      using False wf Flt_Write
      by (auto simp: flt_tbl_write_def sysfs_tbl_params_iff flt_search_map flt_map_def Let_def flt_check_iff)
    moreover have "snd (flt_spec (pf_limits (pf y)) op (flt_map (pf y))) = flt_map (pf y)"
      using False Flt_Write by (auto simp: flt_map_def Let_def flt_check_iff)
    ultimately show ?thesis using self by (auto simp: flt_step_def prod_eq_iff)
  qed
qed

end
