(* ===== verification/PsfpFltReach.thy ===== *)
theory PsfpFltReach
  imports PsfpFltOps
begin

text \<open>
  What holds of the stream filters in every state that the files of the user and the switch can
  reach, with a concrete switch for the contract.
\<close>

unbundle bit_operations_syntax

section \<open>Reachable states\<close>

text \<open>Between two operations the switch counts and may set the flag of a blocked stream.\<close>

inductive flt_reach :: "device \<Rightarrow> nat \<Rightarrow> psfp_limits \<Rightarrow> (iomem \<Rightarrow> filter_table) \<Rightarrow> flt_sys \<Rightarrow> bool"
  for dev :: device and base :: nat and lim :: psfp_limits and tab :: "iomem \<Rightarrow> filter_table"
where
  init: "\<not> filter_busy base io \<Longrightarrow> edgx_psfp_flt_init dev base lim io = Some y \<Longrightarrow> flt_reach dev base lim tab y"
| run: "flt_reach dev base lim tab y \<Longrightarrow> flt_run dev op y = Some (r, y') \<Longrightarrow> flt_reach dev base lim tab y'"
| switch: "flt_reach dev base lim tab y \<Longrightarrow> \<not> filter_busy base io \<Longrightarrow> (\<And>d. same_regs (tab io d) (tab (fio y) d))
    \<Longrightarrow> flt_reach dev base lim tab (y\<lparr>fio := io\<rparr>)"

lemma same_regs_trans: "same_regs a b \<Longrightarrow> same_regs b c \<Longrightarrow> same_regs a c"
  by (simp add: same_regs_def)

lemma flt_step_good:
  "flt_step tab cnt y y' \<Longrightarrow> flt_good tab base lim y \<Longrightarrow> flt_good tab base lim y'"
  unfolding flt_step_def using only_regs_good flt_post_good by metis

lemma flt_reach_good:
  assumes "flt_contract dev base tab cnt" "limits_ok lim" "flt_reach dev base lim tab y"
  shows "flt_good tab base lim y"
  using assms(3)
proof induction
  case (init io y)
  then show ?case using flt_init_wf [OF assms(1,2) init(1)] by (auto simp: flt_good_def)
next
  case (run y op r y')
  then have "flt_contract dev (pf_iobase (pf y)) tab cnt" "flt_wf (pf y)" "idle y" using assms(1) by (simp_all add: flt_good_def)
  from flt_run_ok [OF this, of op] show ?case using run flt_step_good by fastforce
next
  case (switch y io)
  then show ?case
    unfolding flt_good_def table_ok_def by (simp add: idle_def) (blast intro: same_regs_trans)
qed

text \<open>The operations from a reachable state.\<close>

lemma flt_reach_run:
  assumes "flt_contract dev base tab cnt" "limits_ok lim" "flt_reach dev base lim tab y"
  shows "\<exists>r y'. flt_run dev op y = Some (r, y') \<and> flt_reach dev base lim tab y'
    \<and> (r, flt_map (pf y')) = flt_spec lim op (flt_map (pf y)) \<and> flt_step tab cnt y y'"
proof -
  have g: "flt_good tab base lim y" by (rule flt_reach_good [OF assms])
  then have "flt_contract dev (pf_iobase (pf y)) tab cnt" "flt_wf (pf y)" "idle y" using assms(1) by (simp_all add: flt_good_def)
  from flt_run_ok [OF this, of op] show ?thesis using g assms(3) by (auto simp: flt_good_def intro: flt_reach.run)
qed

section \<open>The effective filter\<close>

definition effective :: "(nat \<Rightarrow> ((int \<times> int) \<times> psfp_flt_data) option) \<Rightarrow> nat \<Rightarrow> nat \<Rightarrow> nat \<Rightarrow> bool" where
  "effective m s p n \<longleftrightarrow> (\<exists>k v. m n = Some (k, v) \<and> key_matches k (int s) (int p))
     \<and> (\<forall>n' k v. m n' = Some (k, v) \<longrightarrow> key_matches k (int s) (int p) \<longrightarrow> n \<le> n')"

lemma flt_map_Some:
  "flts_ordered (flt_root f) \<Longrightarrow> flt_map f n = Some (k, v) \<longleftrightarrow> (\<exists>e \<in> set (flt_root f). fe_filter e = n \<and> fe_key e = k \<and> fe_data e = v)"
  by (auto simp: flt_map_def deref_iff)

lemma lowest_effective:
  assumes "flts_ordered (flt_root f)"
  shows "lowest (flt_root f) (int s) (int p) = Some n \<longleftrightarrow> effective (flt_map f) s p n"
  unfolding lowest_def first_with_Some [OF assms] effective_def flt_map_Some [OF assms] by blast

section \<open>A switch\<close>

text \<open>
  A switch that keeps its table in cells above the registers, executes a command at once and counts
  a fixed number of frames for every stream and priority.
\<close>

definition cell :: "nat \<Rightarrow> nat \<times> nat \<Rightarrow> nat \<Rightarrow> nat" where
  "cell base d i = base + 0x20000 + 4 * (8 * fst d + snd d) + i"

definition demo_tab :: "nat \<Rightarrow> iomem \<Rightarrow> filter_table" where
  "demo_tab base io d = (if snd d < EDGX_BR_NUM_PCP then (io (cell base d 0), io (cell base d 1), io (cell base d 2)) else (0, 0, 0))"

definition demo_cnt :: "iomem \<Rightarrow> nat \<times> nat \<Rightarrow> psfp_flt_cnt" where
  "demo_cnt io d = \<lparr>raw_matching = of_nat (100 + fst d), raw_passing = of_nat (60 + snd d), raw_sdu = 50, raw_red = 7\<rparr>"

definition demo_capture :: "nat \<Rightarrow> psfp_flt_cnt \<Rightarrow> iomem \<Rightarrow> iomem" where
  "demo_capture base c io =
     edgx_wr16 (edgx_wr32 (edgx_wr32 (edgx_wr32 (edgx_wr32 io base CNT_MATCHING (raw_matching c)) base CNT_P_SGATE (raw_passing c))
       base CNT_P_FRAMESIZE (raw_sdu c)) base CNT_P_DROP (raw_red c)) base CNT_CAPT0 0"

definition demo_dev :: "nat \<Rightarrow> device" where
  "demo_dev base io =
     (let cmd = edgx_rd16 io base FILTER_CMD;
          d = (unat (FIELD_GET 9 0 cmd), unat (FIELD_GET 13 11 cmd));
          capt = edgx_rd16 io base CNT_CAPT5
      in if bit cmd 15
         then if bit cmd 14
              then io(cell base d 0 := edgx_rd16 io base FILTER_TBL_0, cell base d 1 := edgx_rd16 io base FILTER_TBL_1,
                      cell base d 2 := edgx_rd16 io base FILTER_TBL_2, base + FILTER_CMD := 0)
              else io(base + FILTER_TBL_0 := io (cell base d 0), base + FILTER_TBL_1 := io (cell base d 1),
                      base + FILTER_TBL_2 := io (cell base d 2), base + FILTER_CMD := 0)
         else demo_capture base (demo_cnt io (unat (FIELD_GET 15 4 capt), unat (FIELD_GET 2 0 capt))) io)"

lemma get16_bit: "edgx_get16 0 io base r (int k) (int k) \<noteq> 0 \<longleftrightarrow> bit (edgx_rd16 io base r) k"
  by (simp add: edgx_get16_def field_mask_def bit_iff_odd_drop_bit and_one_eq odd_iff_mod_2_eq_one)

lemma filter_busy_bit: "filter_busy base io \<longleftrightarrow> bit (edgx_rd16 io base FILTER_CMD) 15"
  using get16_bit [of io base FILTER_CMD 15] by (simp add: filter_busy_def)

lemma capture_busy_bit: "capture_busy base io \<longleftrightarrow> bit (edgx_rd16 io base CNT_CAPT0) 8"
  using get16_bit [of io base CNT_CAPT0 8] by (simp add: capture_busy_def)

lemma unat_small: "n < 1024 \<Longrightarrow> unat (of_nat n :: u16) = n"
  by (simp add: unsigned_of_nat take_bit_nat_eq_self)

lemma small_bit: "(n :: nat) < 2 ^ k \<Longrightarrow> k \<le> i \<Longrightarrow> \<not> bit n i"
  using take_bit_nat_eq_self [of n k] by (metis bit_take_bit_iff leD)

lemma cmd_pos:
  assumes "s < 1024" "p < 8" "\<forall>i. bit c i \<longrightarrow> 14 \<le> i"
  shows "FIELD_GET 9 0 (filter_pos (int s) (int p) OR c) = of_nat s"
    "FIELD_GET 13 11 (filter_pos (int s) (int p) OR c) = of_nat p"
    "14 \<le> i \<Longrightarrow> bit (filter_pos (int s) (int p) OR c) i = bit c i"
proof -
  have b: "bit s i \<Longrightarrow> i < 10" "bit p i \<Longrightarrow> i < 3" for i
    using assms small_bit [of s 10 i] small_bit [of p 3 i] by (simp_all add: not_le [symmetric]) blast+
  note simps = FIELD_GET_def filter_pos_def FIELD_PREP_def bit_simps bit_of_nat_iff_bit
  show "FIELD_GET 9 0 (filter_pos (int s) (int p) OR c) = of_nat s"
    by (rule bit_word_eqI) (auto simp: simps dest: b assms(3) [rule_format])
  show "FIELD_GET 13 11 (filter_pos (int s) (int p) OR c) = of_nat p"
    by (rule bit_word_eqI) (auto simp: simps dest: b assms(3) [rule_format])
  show "14 \<le> i \<Longrightarrow> bit (filter_pos (int s) (int p) OR c) i = bit c i"
    by (auto simp: simps)
qed

lemma capt_pos:
  assumes "s < 1024" "p < 8"
  defines "c \<equiv> FIELD_PREP 2 0 (word_of_int (int p) :: u8) OR FIELD_PREP 15 4 (word_of_int (int s) :: u16)"
  shows "FIELD_GET 15 4 c = of_nat s" "FIELD_GET 2 0 c = of_nat p"
proof -
  have b: "bit s i \<Longrightarrow> i < 10" "bit p i \<Longrightarrow> i < 3" for i
    using assms small_bit [of s 10 i] small_bit [of p 3 i] by (simp_all add: not_le [symmetric]) blast+
  note simps = FIELD_GET_def c_def FIELD_PREP_def bit_simps bit_of_nat_iff_bit
  show "FIELD_GET 15 4 c = of_nat s" by (rule bit_word_eqI) (auto simp: simps dest: b)
  show "FIELD_GET 2 0 c = of_nat p" by (rule bit_word_eqI) (auto simp: simps dest: b)
qed

lemma cell_apart: "r < 0x20000 \<Longrightarrow> cell base d j \<noteq> base + r" "r < 0x20000 \<Longrightarrow> cell base d j \<noteq> r + base"
  by (simp_all add: cell_def)

lemma cell_eq:
  assumes "snd d < 8" "snd d' < 8" "j < 4" "j' < 4"
  shows "cell base d j = cell base d' j' \<longleftrightarrow> d = d' \<and> j = j'"
proof
  assume "cell base d j = cell base d' j'"
  then have "4 * (8 * fst d + snd d) + j = 4 * (8 * fst d' + snd d') + j'" by (simp add: cell_def)
  then have "8 * fst d + snd d = 8 * fst d' + snd d'" "j = j'" using assms(3,4) by presburger+
  moreover from this(1) have "fst d = fst d'" using assms(1,2) by presburger
  ultimately show "d = d' \<and> j = j'" by (simp add: prod_eq_iff)
qed simp

lemma demo_write:
  assumes "s < 1024" "p < 8"
  shows "\<exists>io'. wait_clear (demo_dev base) (filter_busy base)
            (edgx_wr16 (edgx_wr16 (edgx_wr16 (edgx_wr16 io base FILTER_TBL_0 t0) base FILTER_TBL_1 t1) base FILTER_TBL_2 t2)
               base FILTER_CMD (filter_pos (int s) (int p) OR FILTER_WRITE OR FILTER_TRANSFER)) = Some io'
          \<and> demo_tab base io' = (demo_tab base io)((s, p) := (t0, t1, t2)) \<and> demo_cnt io' = demo_cnt io"
proof -
  define c where "c = filter_pos (int s) (int p) OR FILTER_WRITE OR FILTER_TRANSFER"
  have k: "FILTER_WRITE OR FILTER_TRANSFER = push_bit 14 (3 :: u16)" by simp
  have bits: "\<forall>i. bit (push_bit 14 (3 :: u16)) i \<longrightarrow> 14 \<le> i" unfolding bit_push_bit_iff by simp
  have c': "c = filter_pos (int s) (int p) OR push_bit 14 3" unfolding c_def k [symmetric] by (simp add: or.assoc)
  note pos = cmd_pos [OF assms bits, folded c']
  have "14 \<le> i \<Longrightarrow> bit c i = bit (push_bit 14 (3 :: u16)) i" for i by (rule pos(3))
  from this [of 15] this [of 14] have b: "bit c 15" "bit c 14" unfolding bit_push_bit_iff by simp_all
  define io1 where "io1 = edgx_wr16 (edgx_wr16 (edgx_wr16 (edgx_wr16 io base FILTER_TBL_0 t0) base FILTER_TBL_1 t1) base FILTER_TBL_2 t2) base FILTER_CMD c"
  have rd: "edgx_rd16 io1 base FILTER_CMD = c" "edgx_rd16 io1 base FILTER_TBL_0 = t0" "edgx_rd16 io1 base FILTER_TBL_1 = t1"
    "edgx_rd16 io1 base FILTER_TBL_2 = t2" by (simp_all add: io1_def)
  have un: "unat (of_nat s :: u16) = s" "unat (of_nat p :: u16) = p" using assms by (simp_all add: unat_small)
  have dev: "demo_dev base io1 = io1(cell base (s, p) 0 := t0, cell base (s, p) 1 := t1, cell base (s, p) 2 := t2, base + FILTER_CMD := 0)"
    unfolding demo_dev_def Let_def rd pos(1,2) un using b by simp
  have "\<not> filter_busy base (demo_dev base io1)"
    unfolding dev by (simp add: filter_busy_bit edgx_rd16_def)
  then have "wait_clear (demo_dev base) (filter_busy base) io1 = Some (demo_dev base io1)" by (rule wait_clear_ready)
  moreover have "demo_tab base (demo_dev base io1) = (demo_tab base io)((s, p) := (t0, t1, t2))"
    unfolding dev fun_eq_iff demo_tab_def using assms(2) by (simp add: cell_apart cell_eq io1_def)
  ultimately show ?thesis unfolding io1_def c_def by (auto simp: demo_cnt_def)
qed

lemma demo_read:
  assumes "s < 1024" "p < 8"
  shows "\<exists>io'. wait_clear (demo_dev base) (filter_busy base) (edgx_wr16 io base FILTER_CMD (filter_pos (int s) (int p) OR FILTER_TRANSFER)) = Some io'
          \<and> demo_tab base io' = demo_tab base io \<and> demo_cnt io' = demo_cnt io
          \<and> demo_tab base io (s, p) = (edgx_rd16 io' base FILTER_TBL_0, edgx_rd16 io' base FILTER_TBL_1, edgx_rd16 io' base FILTER_TBL_2)"
proof -
  define c where "c = filter_pos (int s) (int p) OR FILTER_TRANSFER"
  have k: "FILTER_TRANSFER = push_bit 15 (1 :: u16)" by simp
  have bits: "\<forall>i. bit (push_bit 15 (1 :: u16)) i \<longrightarrow> 14 \<le> i" unfolding bit_push_bit_iff by simp
  have c': "c = filter_pos (int s) (int p) OR push_bit 15 1" unfolding c_def k ..
  note pos = cmd_pos [OF assms bits, folded c']
  have "14 \<le> i \<Longrightarrow> bit c i = bit (push_bit 15 (1 :: u16)) i" for i by (rule pos(3))
  from this [of 15] this [of 14] have b: "bit c 15" "\<not> bit c 14" unfolding bit_push_bit_iff by simp_all
  define io1 where "io1 = edgx_wr16 io base FILTER_CMD c"
  have rd: "edgx_rd16 io1 base FILTER_CMD = c" by (simp add: io1_def)
  have un: "unat (of_nat s :: u16) = s" "unat (of_nat p :: u16) = p" using assms by (simp_all add: unat_small)
  have dev: "demo_dev base io1 = io1(base + FILTER_TBL_0 := io1 (cell base (s, p) 0), base + FILTER_TBL_1 := io1 (cell base (s, p) 1),
       base + FILTER_TBL_2 := io1 (cell base (s, p) 2), base + FILTER_CMD := 0)"
    unfolding demo_dev_def Let_def rd pos(1,2) un using b by simp
  have "\<not> filter_busy base (demo_dev base io1)"
    unfolding dev by (simp add: filter_busy_bit edgx_rd16_def)
  then have "wait_clear (demo_dev base) (filter_busy base) io1 = Some (demo_dev base io1)" by (rule wait_clear_ready)
  moreover have "demo_tab base (demo_dev base io1) = demo_tab base io"
    unfolding dev fun_eq_iff demo_tab_def by (simp add: cell_apart io1_def)
  moreover have "demo_tab base io (s, p) = (edgx_rd16 (demo_dev base io1) base FILTER_TBL_0,
      edgx_rd16 (demo_dev base io1) base FILTER_TBL_1, edgx_rd16 (demo_dev base io1) base FILTER_TBL_2)"
    unfolding dev using assms(2) by (simp add: demo_tab_def edgx_rd16_def cell_apart io1_def)
  ultimately show ?thesis unfolding io1_def c_def by (auto simp: demo_cnt_def)
qed

lemma demo_capture_regs: "cnt_regs base (demo_capture base c io) = c"
  by (simp add: cnt_regs_def demo_capture_def edgx_rd32_def edgx_wr32_def halves_of_u32)

lemma demo_count:
  assumes "s < 1024" "p < 8" "\<not> filter_busy base io"
  shows "\<exists>io'. wait_clear (demo_dev base) (capture_busy base)
            (edgx_wr16 io base CNT_CAPT5 (FIELD_PREP 2 0 (word_of_int (int p) :: u8) OR FIELD_PREP 15 4 (word_of_int (int s) :: u16))) = Some io'
          \<and> \<not> filter_busy base io' \<and> demo_tab base io' = demo_tab base io \<and> demo_cnt io' = demo_cnt io
          \<and> demo_cnt io (s, p) = cnt_regs base io'"
proof -
  define c where "c = FIELD_PREP 2 0 (word_of_int (int p) :: u8) OR FIELD_PREP 15 4 (word_of_int (int s) :: u16)"
  note pos = capt_pos [OF assms(1,2), folded c_def]
  define io1 where "io1 = edgx_wr16 io base CNT_CAPT5 c"
  have cmd: "edgx_rd16 io1 base FILTER_CMD = edgx_rd16 io base FILTER_CMD" "edgx_rd16 io1 base CNT_CAPT5 = c" by (simp_all add: io1_def)
  have b: "\<not> bit (edgx_rd16 io base FILTER_CMD) 15" using assms(3) by (simp add: filter_busy_bit)
  have un: "unat (of_nat s :: u16) = s" "unat (of_nat p :: u16) = p" using assms by (simp_all add: unat_small)
  have dev: "demo_dev base io1 = demo_capture base (demo_cnt io1 (s, p)) io1"
    unfolding demo_dev_def Let_def cmd pos un using b by simp
  have "\<not> capture_busy base (demo_dev base io1)"
    unfolding dev by (simp add: capture_busy_bit demo_capture_def)
  then have "wait_clear (demo_dev base) (capture_busy base) io1 = Some (demo_dev base io1)" by (rule wait_clear_ready)
  moreover have "\<not> filter_busy base (demo_dev base io1)"
    unfolding dev using b by (simp add: filter_busy_bit demo_capture_def edgx_rd16_def edgx_wr32_def io1_def)
  moreover have "demo_tab base (demo_dev base io1) = demo_tab base io"
    unfolding dev fun_eq_iff demo_tab_def by (simp add: cell_apart io1_def demo_capture_def edgx_wr32_def)
  moreover have "demo_cnt io (s, p) = cnt_regs base (demo_dev base io1)"
    unfolding dev demo_capture_regs by (simp add: demo_cnt_def)
  moreover have "demo_cnt (demo_dev base io1) = demo_cnt io" by (simp add: demo_cnt_def fun_eq_iff)
  ultimately show ?thesis unfolding io1_def c_def by blast
qed

lemma demo_contract: "flt_contract (demo_dev base) base (demo_tab base) demo_cnt"
  unfolding flt_contract_def using demo_write demo_read demo_count by simp

lemma demo_idle: "\<not> filter_busy base (\<lambda>_. 0)"
  by (simp add: filter_busy_bit edgx_rd16_def)

text \<open>A switch with two streams, and some filters for it.\<close>

definition demo_limits :: psfp_limits where
  "demo_limits = \<lparr>max_str_cnt = 2, max_flt_cnt = 16, max_gate_cnt = 4, max_fmtr_cnt = 0, res_fmtr_cnt = 4, max_gcl_len = 8\<rparr>"

definition demo_data :: "u32 \<Rightarrow> bool \<Rightarrow> psfp_flt_data" where
  "demo_data sdu blk = \<lparr>fd_gate = 1, fd_max_sdu = sdu, fd_fmtr = PSFP_FMTR_NONE, fd_blk_oversz_ena = True, fd_blk_oversz = blk\<rparr>"

definition demo_flt :: "int \<Rightarrow> int \<Rightarrow> psfp_flt_data \<Rightarrow> psfp_flt_sysfs_entry" where
  "demo_flt s p d = \<lparr>sf_str_hdl = s, sf_pcp = p, sf_data = d\<rparr>"

abbreviation demo_reach :: "flt_sys \<Rightarrow> bool" where
  "demo_reach \<equiv> flt_reach (demo_dev 0) 0 demo_limits (demo_tab 0)"

abbreviation demo_add :: "nat \<Rightarrow> int \<Rightarrow> int \<Rightarrow> psfp_flt_data \<Rightarrow> flt_op" where
  "demo_add n s p d \<equiv> Flt_Write (demo_flt s p d) (22 * int n) 22"

lemma demo_ok: "limits_ok demo_limits"
  by (simp add: limits_ok_def demo_limits_def)

lemma demo_key: "key_ok demo_limits (s, p) \<longleftrightarrow> s \<in> {- 1, 0, 1} \<and> p \<in> {- 1..<8}"
  by (auto simp: key_ok_def demo_limits_def)

lemma demo_spec_add:
  assumes "n < 8192" "s \<in> {- 1, 0, 1}" "p \<in> {- 1..<8}" "m n = None"
  shows "flt_spec demo_limits (demo_add n s p (demo_data sdu blk)) m = (22, m(n \<mapsto> ((s, p), demo_data sdu blk)))"
proof -
  have "key_ok demo_limits (s, p)" using assms(2,3) by (simp add: demo_key)
  then show ?thesis using assms(1,4) by (simp add: Let_def demo_flt_def demo_data_def) (simp add: demo_limits_def)
qed

lemma demo_start: "\<exists>y. demo_reach y \<and> flt_map (pf y) = Map.empty"
  using flt_init_wf [OF demo_contract demo_ok demo_idle] flt_reach.init [OF demo_idle] by blast

lemma demo_run_add:
  assumes "demo_reach y" "flt_map (pf y) = m" "n < 8192" "s \<in> {- 1, 0, 1}" "p \<in> {- 1..<8}" "m n = None"
  shows "\<exists>y'. flt_run (demo_dev 0) (demo_add n s p (demo_data sdu blk)) y = Some (22, y') \<and> demo_reach y'
    \<and> flt_map (pf y') = m(n \<mapsto> ((s, p), demo_data sdu blk))"
proof -
  obtain r y' where "flt_run (demo_dev 0) (demo_add n s p (demo_data sdu blk)) y = Some (r, y')" "demo_reach y'"
    "(r, flt_map (pf y')) = flt_spec demo_limits (demo_add n s p (demo_data sdu blk)) (flt_map (pf y))"
    using flt_reach_run [OF demo_contract demo_ok assms(1)] by blast
  then show ?thesis unfolding assms(2) demo_spec_add [where m = m, OF assms(3-6)] prod.inject by blast
qed

lemma demo_one:
  "\<exists>y. demo_reach y \<and> flt_map (pf y) = [5 \<mapsto> ((1, 3), demo_data 1000 False)]"
proof -
  obtain y where "demo_reach y" "flt_map (pf y) = Map.empty" using demo_start by blast
  from demo_run_add [OF this, of 5 1 3 1000 False] show ?thesis by auto
qed

lemma demo_two:
  "\<exists>y y'. demo_reach y \<and> flt_map (pf y) = [5 \<mapsto> ((1, 3), demo_data 1000 False)]
    \<and> flt_run (demo_dev 0) (demo_add 3 (- 1) 3 (demo_data 200 True)) y = Some (22, y') \<and> demo_reach y'
    \<and> flt_map (pf y') = [5 \<mapsto> ((1, 3), demo_data 1000 False), 3 \<mapsto> ((- 1, 3), demo_data 200 True)]"
proof -
  obtain y where y: "demo_reach y" "flt_map (pf y) = [5 \<mapsto> ((1, 3), demo_data 1000 False)]" using demo_one by blast
  from demo_run_add [OF this, of 3 "- 1" 3 200 True] y show ?thesis by auto
qed

section \<open>Properties\<close>

text \<open>Property C20. In every reachable state, for every stream and priority, the current filter is the
  one with the lowest number of those that match them, and the hardware table holds its limits.\<close>

lemma psfp_effective_filter:
  assumes "flt_contract dev base tab cnt" "limits_ok lim" "flt_reach dev base lim tab y" "s < max_str_cnt lim" "p < EDGX_BR_NUM_PCP"
  shows "(cur_at (pf y) s p = Some n \<longleftrightarrow> effective (flt_map (pf y)) s p n)
    \<and> same_regs (tab (fio y) (s, p))
        (filter_regs lim (case cur_at (pf y) s p of None \<Rightarrow> None | Some n \<Rightarrow> map_option snd (flt_map (pf y) n)))"
proof -
  have g: "flt_good tab base lim y" by (rule flt_reach_good [OF assms(1-3)])
  then have pos: "pos_ok (pf y) (s, p)" using assms(4,5) by (simp add: flt_good_def pos_ok_def)
  have w: "flt_wf (pf y)" using g by (simp add: flt_good_def)
  note cur = flt_wfD(5) [OF w pos]
  have "same_regs (tab (fio y) (s, p)) (want_regs (pf y) (s, p))" using g pos by (simp add: flt_good_def table_ok_def)
  then show ?thesis
    using cur lowest_effective [OF flt_wfD(1) [OF w]] g
    by (simp add: want_regs_def eff_data_flt_map flt_good_def)
qed

lemma psfp_effective_filter_witness:
  "\<exists>y y'. demo_reach y \<and> cur_at (pf y) 1 3 = Some 5
    \<and> flt_run (demo_dev 0) (demo_add 3 (- 1) 3 (demo_data 200 True)) y = Some (22, y') \<and> cur_at (pf y') 1 3 = Some 3
    \<and> same_regs (demo_tab 0 (fio y') (1, 3)) (0xC0D4, 0, 0x81)"
proof -
  obtain y y' where y: "demo_reach y" "flt_map (pf y) = [5 \<mapsto> ((1, 3), demo_data 1000 False)]"
    "flt_run (demo_dev 0) (demo_add 3 (- 1) 3 (demo_data 200 True)) y = Some (22, y')" "demo_reach y'"
    "flt_map (pf y') = [5 \<mapsto> ((1, 3), demo_data 1000 False), 3 \<mapsto> ((- 1, 3), demo_data 200 True)]" using demo_two by blast
  have pos: "1 < max_str_cnt demo_limits" "3 < EDGX_BR_NUM_PCP" by (simp_all add: demo_limits_def)
  have "effective (flt_map (pf y)) 1 3 5" "effective (flt_map (pf y')) 1 3 3"
    unfolding y(2,5) by (auto simp: effective_def key_matches_def split: if_split_asm)
  then have "cur_at (pf y) 1 3 = Some 5" and 3: "cur_at (pf y') 1 3 = Some 3"
    using psfp_effective_filter [OF demo_contract demo_ok _ pos] y(1,4) by blast+
  moreover have "filter_regs demo_limits (Some (demo_data 200 True)) = (0xC0D4, 0, 0x81)"
    by (simp add: filter_regs_def demo_data_def demo_limits_def Let_def FIELD_PREP_def mask_eq_exp_minus_1)
  ultimately show ?thesis
    using psfp_effective_filter [OF demo_contract demo_ok y(4) pos, of 3] y by (intro exI [of _ y] exI [of _ y']) simp
qed

text \<open>Property C21. From every state with consistent trees and candidates, each operation on the filter
  files returns (no wait without end, no pointer to a removed filter is followed, no array is left)
  and the state is consistent again.\<close>

lemma filter_operations_return:
  assumes "flt_contract dev (pf_iobase (pf y)) tab cnt" "flt_wf (pf y)" "idle y"
  shows "\<exists>r y'. flt_run dev op y = Some (r, y') \<and> flt_wf (pf y') \<and> idle y'
    \<and> pf_iobase (pf y') = pf_iobase (pf y) \<and> pf_limits (pf y') = pf_limits (pf y)"
proof -
  obtain r y' where y': "flt_run dev op y = Some (r, y')" "flt_step tab cnt y y'" using flt_run_ok [OF assms, of op] by blast
  have "flt_wf (pf y') \<and> idle y' \<and> pf_iobase (pf y') = pf_iobase (pf y) \<and> pf_limits (pf y') = pf_limits (pf y)"
    using y'(2) assms(2) unfolding flt_step_def only_regs_def flt_post_def by auto
  with y'(1) show ?thesis by blast
qed

lemma filter_operations_return_witness:
  "\<exists>y r y'. flt_map (pf y) 5 \<noteq> None \<and> flt_run (demo_dev 0) (Flt_Del (Some 5) 2) y = Some (r, y') \<and> flt_wf (pf y')"
proof -
  obtain y where y: "demo_reach y" "flt_map (pf y) = [5 \<mapsto> ((1, 3), demo_data 1000 False)]" using demo_one by blast
  have "flt_good (demo_tab 0) 0 demo_limits y" by (rule flt_reach_good [OF demo_contract demo_ok y(1)])
  then have "flt_contract (demo_dev 0) (pf_iobase (pf y)) (demo_tab 0) demo_cnt" "flt_wf (pf y)" "idle y"
    using demo_contract by (simp_all add: flt_good_def)
  from filter_operations_return [OF this, of "Flt_Del (Some 5) 2"]
  obtain r y' where "flt_run (demo_dev 0) (Flt_Del (Some 5) 2) y = Some (r, y')" "flt_wf (pf y')" by blast
  moreover have "flt_map (pf y) 5 \<noteq> None" by (simp add: y(2))
  ultimately show ?thesis by blast
qed

text \<open>Property C22. The filter files implement a map from numbers to filters: each operation returns what
  the operation on the map returns, and the map of the new state is the map it gives.\<close>

lemma filter_files_refine_map:
  assumes "flt_contract dev base tab cnt" "limits_ok lim" "flt_reach dev base lim tab y"
  shows "map_option (\<lambda>(r, y'). (r, flt_map (pf y'))) (flt_run dev op y) = Some (flt_spec lim op (flt_map (pf y)))"
  using flt_reach_run [OF assms, of op] by auto

lemma filter_files_refine_map_witness:
  "\<exists>y. demo_reach y \<and> map_option (\<lambda>(r, y'). (r, flt_map (pf y'))) (flt_run (demo_dev 0) (Flt_Del (Some 5) 2) y) = Some (2, Map.empty)
     \<and> map_option (\<lambda>(r, y'). (r, flt_map (pf y'))) (flt_run (demo_dev 0) (demo_add 5 0 0 (demo_data 9 True)) y)
       = Some (- EEXIST, [5 \<mapsto> ((1, 3), demo_data 1000 False)])"
proof -
  obtain y where y: "demo_reach y" "flt_map (pf y) = [5 \<mapsto> ((1, 3), demo_data 1000 False)]" using demo_one by blast
  have "flt_spec demo_limits (Flt_Del (Some 5) 2) (flt_map (pf y)) = (2, Map.empty)" by (simp add: y(2))
  moreover have "flt_spec demo_limits (demo_add 5 0 0 (demo_data 9 True)) (flt_map (pf y)) = (- EEXIST, [5 \<mapsto> ((1, 3), demo_data 1000 False)])"
    unfolding y(2) by (simp add: demo_flt_def demo_data_def key_ok_def demo_limits_def)
  ultimately show ?thesis
    using filter_files_refine_map [OF demo_contract demo_ok y(1), of "Flt_Del (Some 5) 2"]
      filter_files_refine_map [OF demo_contract demo_ok y(1), of "demo_add 5 0 0 (demo_data 9 True)"] y(1) by auto
qed

text \<open>The counters that a user reads.\<close>

definition read_cnt :: "device \<Rightarrow> psfp_cnt_type \<Rightarrow> nat \<Rightarrow> flt_sys \<Rightarrow> (int \<times> u32 option) option" where
  "read_cnt dev t n y = map_option (\<lambda>(r, v, y). (r, v)) (flt_str_cnt_read dev t (4 * int n) 4 y)"

lemma flt_step_cnt:
  assumes "flt_step tab cnt y y'" "flt_map (pf y') n \<noteq> None"
  shows "shown_cnt (user_cnt cnt y' n) t = (if flt_map (pf y) n = None then 0 else shown_cnt (user_cnt cnt y n) t)"
proof -
  have z: "shown_cnt (Some zero_cnt) t = 0" "shown_cnt None t = 0"
    by (cases t) (simp_all add: shown_cnt_def zero_cnt_def edgx_psfp_flt_get_user_cnt_def)
  from assms(1) consider (regs) "only_regs tab cnt y y'" | (del) no where "flt_post tab cnt no None y y'"
    | (add) no k v where "flt_post tab cnt no (Some (k, v)) y y'" "flt_map (pf y) no = None"
        "user_cnt cnt y' no = (if edgx_psfp_flt_str_is_wc k then None else Some zero_cnt)"
    unfolding flt_step_def by blast
  then show ?thesis
  proof cases
    case regs
    then show ?thesis using only_regs_user_cnt [OF regs, of n] assms(2) by (cases "flt_map (pf y) n") (simp_all add: only_regs_def)
  next
    case del
    then have "n \<noteq> no" "flt_map (pf y) n \<noteq> None" "user_cnt cnt y' n = user_cnt cnt y n"
      using assms(2) by (auto simp: flt_post_def)
    then show ?thesis by (simp only: if_False)
  next
    case add
    then show ?thesis using z assms(2) by (cases "n = no"; cases "flt_map (pf y) n") (auto simp: flt_post_def)
  qed
qed

text \<open>Property C23. While the switch does not count, no operation changes what a user reads of a counter
  of a filter that stays, whichever filters take over its stream; a new filter starts from zero.\<close>

lemma filter_counters_continue:
  assumes "flt_contract dev base tab cnt" "limits_ok lim" "flt_reach dev base lim tab y"
    and "flt_run dev op y = Some (r, y')" "flt_map (pf y') n \<noteq> None" "n < max_flt_cnt lim" "n < 8192"
  shows "\<exists>v. read_cnt dev t n y' = Some (4, Some v)
    \<and> (if flt_map (pf y) n = None then v = 0 else read_cnt dev t n y = Some (4, Some v))"
proof -
  have y': "flt_reach dev base lim tab y'" using assms(3,4) by (rule flt_reach.run)
  have step: "flt_step tab cnt y y'" using flt_reach_run [OF assms(1-3), of op] assms(4) by auto
  have rd: "read_cnt dev t n x = Some (if flt_map (pf x) n = None then (- ENOENT, None) else (4, Some (shown_cnt (user_cnt cnt x n) t)))"
    if "flt_reach dev base lim tab x" for x
  proof -
    have g: "flt_good tab base lim x" by (rule flt_reach_good [OF assms(1,2) that])
    then have "flt_contract dev (pf_iobase (pf x)) tab cnt" "flt_wf (pf x)" "idle x" using assms(1) by (simp_all add: flt_good_def)
    from flt_cnt_read_outcome [OF this, of t "4 * int n" 4] show ?thesis
      using assms(6,7) g by (auto simp: read_cnt_def flt_good_def)
  qed
  show ?thesis using rd [OF y'] rd [OF assms(3)] flt_step_cnt [OF step assms(5), of t] assms(5) by simp
qed

lemma filter_counters_continue_witness:
  "\<exists>y y' v. demo_reach y \<and> flt_run (demo_dev 0) (demo_add 3 (- 1) 3 (demo_data 200 True)) y = Some (22, y')
     \<and> cur_at (pf y) 1 3 = Some 5 \<and> cur_at (pf y') 1 3 = Some 3
     \<and> read_cnt (demo_dev 0) PSFP_CNT_RED_FRAMES 5 y = Some (4, Some v) \<and> read_cnt (demo_dev 0) PSFP_CNT_RED_FRAMES 5 y' = Some (4, Some v)"
proof -
  obtain y y' where y: "demo_reach y" "flt_map (pf y) = [5 \<mapsto> ((1, 3), demo_data 1000 False)]"
    "flt_run (demo_dev 0) (demo_add 3 (- 1) 3 (demo_data 200 True)) y = Some (22, y')" "demo_reach y'"
    "flt_map (pf y') = [5 \<mapsto> ((1, 3), demo_data 1000 False), 3 \<mapsto> ((- 1, 3), demo_data 200 True)]" using demo_two by blast
  have eff: "effective (flt_map (pf y)) 1 3 5" "effective (flt_map (pf y')) 1 3 3"
    unfolding y(2,5) by (auto simp: effective_def key_matches_def split: if_split_asm)
  have good: "flt_good (demo_tab 0) 0 demo_limits x" if "demo_reach x" for x by (rule flt_reach_good [OF demo_contract demo_ok that])
  have "cur_at (pf x) 1 3 = Some n \<longleftrightarrow> effective (flt_map (pf x)) 1 3 n" if "demo_reach x" for x n
    using flt_wfD(5) [of "pf x" 1 3] good [OF that] lowest_effective [of "pf x" 1 3 n] flt_wfD(1) [of "pf x"]
    by (simp add: flt_good_def pos_ok_def demo_limits_def)
  then have "cur_at (pf y) 1 3 = Some 5" "cur_at (pf y') 1 3 = Some 3" using y(1,4) eff by blast+
  moreover have "flt_map (pf y') 5 \<noteq> None" "(5 :: nat) < max_flt_cnt demo_limits" "(5 :: nat) < 8192" by (simp_all add: y(5) demo_limits_def)
  from filter_counters_continue [OF demo_contract demo_ok y(1,3) this, of PSFP_CNT_RED_FRAMES] y(2)
  have "\<exists>v. read_cnt (demo_dev 0) PSFP_CNT_RED_FRAMES 5 y' = Some (4, Some v) \<and> read_cnt (demo_dev 0) PSFP_CNT_RED_FRAMES 5 y = Some (4, Some v)"
    by simp
  ultimately show ?thesis using y by blast
qed

text \<open>Property C24. A filter that was written is read back, but for the flag of a blocked stream: without
  wildcards it comes from the hardware table at its stream and priority, which holds the data of the
  filter with the lowest number there, so a filter that is not this one shows the flag of another.\<close>

lemma filter_write_read:
  assumes "flt_contract dev base tab cnt" "limits_ok lim" "flt_reach dev base lim tab y"
    and "edgx_psfp_flt_check lim d = 0" "n < 8192" "flt_map (pf y) n = None"
  shows "\<exists>y' y'' flag. flt_tbl_write dev d (22 * int n) 22 y = Some (22, y')
    \<and> flt_tbl_read dev (22 * int n) 22 y' = Some (22, Some (d\<lparr>sf_data := (sf_data d)\<lparr>fd_blk_oversz := flag\<rparr>\<rparr>), y'')
    \<and> flag = (if edgx_psfp_flt_str_is_wc (sf_str_hdl d, sf_pcp d)
               \<or> effective (flt_map (pf y')) (nat (sf_str_hdl d)) (nat (sf_pcp d)) n
              then fd_blk_oversz (sf_data d)
              else bit (fst (tab (fio y') (nat (sf_str_hdl d), nat (sf_pcp d)))) 14)"
proof -
  let ?k = "(sf_str_hdl d, sf_pcp d)"
  have bit14: "fd_blk_oversz (regs_data lim x) = bit (fst x) 14" for x
    by (cases x) (simp add: regs_data_def FIELD_GET_def bit_iff_odd_drop_bit and_one_eq odd_iff_mod_2_eq_one split: prod.split)
  have g: "flt_good tab base lim y" by (rule flt_reach_good [OF assms(1-3)])
  then have w: "flt_contract dev (pf_iobase (pf y)) tab cnt" "flt_wf (pf y)" "idle y" and lim: "pf_limits (pf y) = lim"
    using assms(1) by (simp_all add: flt_good_def)
  have key: "key_ok lim ?k" using assms(4) by (simp add: flt_check_iff)
  obtain y' where add: "edgx_psfp_flt_add dev n d y = Some (0, y')" and post: "flt_post tab cnt n (Some (?k, sf_data d)) y y'"
    using flt_add_ok [OF w, unfolded lim, OF key, of n] assms(6) by (auto simp: flt_map_def)
  have wr: "flt_tbl_write dev d (22 * int n) 22 y = Some (22, y')"
    using add assms(4-6) w(2) by (simp add: flt_tbl_write_def sysfs_tbl_params_iff flt_search_map flt_map_def lim)
  have w': "flt_contract dev (pf_iobase (pf y')) tab cnt" "flt_wf (pf y')" "idle y'" and lim': "pf_limits (pf y') = lim"
    and map': "flt_map (pf y') n = Some (?k, sf_data d)"
    using post w lim by (simp_all add: flt_post_def)
  obtain y'' where rd: "flt_tbl_read dev (22 * int n) 22 y' = Some (22, Some \<lparr>sf_str_hdl = fst ?k, sf_pcp = snd ?k, sf_data =
      if edgx_psfp_flt_str_is_wc ?k then sf_data d
      else (sf_data d)\<lparr>fd_blk_oversz := fd_blk_oversz (regs_data lim (tab (fio y') (key_pos ?k)))\<rparr>\<rparr>, y'')"
    using flt_tbl_read_outcome [OF w', of "22 * int n" 22] assms(5) by (auto simp: map' lim')
  have own: "tab (fio y') (key_pos ?k) = filter_regs lim (Some (sf_data d))"
    if "\<not> edgx_psfp_flt_str_is_wc ?k" "effective (flt_map (pf y')) (nat (fst ?k)) (nat (snd ?k)) n"
  proof -
    have pos: "pos_ok (pf y) (key_pos ?k)"
      using key that(1) lim by (auto simp: pos_ok_def key_ok_def key_pos_def edgx_psfp_flt_str_is_wc_def)
    have low': "lowest (flt_root (pf y')) (int (fst (key_pos ?k))) (int (snd (key_pos ?k))) = Some n"
      using that(2) unfolding key_pos_def fst_conv snd_conv lowest_effective [OF flt_wfD(1) [OF w'(2)]] .
    have "lowest (flt_root (pf y)) (int (fst (key_pos ?k))) (int (snd (key_pos ?k))) \<noteq> Some n"
      using lowest_effective [OF flt_wfD(1) [OF w(2)]] assms(6) by (auto simp: effective_def)
    then have "tab (fio y') (key_pos ?k) = want_regs (pf y') (key_pos ?k)"
      using post pos low' unfolding flt_post_def by metis
    then show ?thesis by (simp add: want_regs_def low' eff_data_flt_map map' lim')
  qed
  have own14: "bit (fst (filter_regs lim (Some (sf_data d)))) 14 = fd_blk_oversz (sf_data d)"
    by (simp add: filter_regs_def Let_def FIELD_PREP_def bit_simps)
  define flag where "flag = (if edgx_psfp_flt_str_is_wc ?k \<or> effective (flt_map (pf y')) (nat (sf_str_hdl d)) (nat (sf_pcp d)) n
              then fd_blk_oversz (sf_data d) else bit (fst (tab (fio y') (nat (sf_str_hdl d), nat (sf_pcp d)))) 14)"
  have "fd_blk_oversz (regs_data lim (tab (fio y') (key_pos ?k))) = flag" if "\<not> edgx_psfp_flt_str_is_wc ?k"
  proof (cases "effective (flt_map (pf y')) (nat (fst ?k)) (nat (snd ?k)) n")
    case True
    then show ?thesis using own [OF that True] own14 bit14 by (simp add: flag_def)
  next
    case False
    then show ?thesis using that bit14 by (simp add: flag_def key_pos_def)
  qed
  then have "flt_tbl_read dev (22 * int n) 22 y' = Some (22, Some (d\<lparr>sf_data := (sf_data d)\<lparr>fd_blk_oversz := flag\<rparr>\<rparr>), y'')"
    using rd by (cases "edgx_psfp_flt_str_is_wc ?k") (simp_all add: flag_def)
  with wr flag_def show ?thesis by blast
qed

lemma filter_write_read_witness:
  "\<exists>y y' y''. demo_reach y \<and> flt_tbl_write (demo_dev 0) (demo_flt 1 3 (demo_data 1000 True)) 110 22 y = Some (22, y')
     \<and> flt_tbl_read (demo_dev 0) 110 22 y' = Some (22, Some (demo_flt 1 3 (demo_data 1000 True)), y'')"
proof -
  obtain y where y: "demo_reach y" "flt_map (pf y) = Map.empty" using demo_start by blast
  let ?d = "demo_flt 1 3 (demo_data 1000 True)"
  have ok: "edgx_psfp_flt_check demo_limits ?d = 0" "flt_map (pf y) 5 = None"
    by (simp_all add: edgx_psfp_flt_check_def demo_flt_def demo_data_def demo_limits_def y(2))
  obtain y1 where y1: "flt_run (demo_dev 0) (demo_add 5 1 3 (demo_data 1000 True)) y = Some (22, y1)"
    "flt_map (pf y1) = [5 \<mapsto> ((1, 3), demo_data 1000 True)]"
    using demo_run_add [OF y, of 5 1 3 1000 True] by auto
  have "effective (flt_map (pf y1)) (nat 1) (nat 3) 5"
    unfolding y1(2) by (auto simp: effective_def key_matches_def split: if_split_asm)
  moreover have d: "?d\<lparr>sf_data := (sf_data ?d)\<lparr>fd_blk_oversz := True\<rparr>\<rparr> = ?d"
    "sf_str_hdl ?d = 1" "sf_pcp ?d = 3" "fd_blk_oversz (sf_data ?d)" by (simp_all add: demo_flt_def demo_data_def)
  moreover obtain y' y'' flag where "flt_tbl_write (demo_dev 0) ?d (22 * int 5) 22 y = Some (22, y')"
    "flt_tbl_read (demo_dev 0) (22 * int 5) 22 y' = Some (22, Some (?d\<lparr>sf_data := (sf_data ?d)\<lparr>fd_blk_oversz := flag\<rparr>\<rparr>), y'')"
    "flag = (if edgx_psfp_flt_str_is_wc (sf_str_hdl ?d, sf_pcp ?d)
               \<or> effective (flt_map (pf y')) (nat (sf_str_hdl ?d)) (nat (sf_pcp ?d)) 5
              then fd_blk_oversz (sf_data ?d)
              else bit (fst (demo_tab 0 (fio y') (nat (sf_str_hdl ?d), nat (sf_pcp ?d)))) 14)"
    using filter_write_read [OF demo_contract demo_ok y(1) ok(1) _ ok(2)] by auto
  moreover have "y' = y1" using y1(1) calculation by simp
  ultimately have "flag" unfolding d(2,3) by simp
  then show ?thesis using \<open>flt_tbl_read _ _ _ _ = _\<close> \<open>flt_tbl_write _ _ _ _ _ = _\<close> y(1) d(1) by auto
qed

text \<open>The limit of the frame size in the hardware is the maximum SDU size plus twelve, at most
  1518, but computed in 32 bits: the check accepts every SDU size, and the largest twelve wrap to a
  limit of a few bytes, so the stream is blocked instead of unlimited.\<close>

lemma frame_limit_wraps:
  "unat (FIELD_GET 10 0 (fst (filter_regs lim (Some v)))) = min ((unat (fd_max_sdu v) + 12) mod 2 ^ 32) 1518
   \<and> edgx_psfp_flt_check lim (d\<lparr>sf_data := (sf_data d)\<lparr>fd_max_sdu := sdu\<rparr>\<rparr>) = edgx_psfp_flt_check lim d"
proof
  define m where "m = min (fd_max_sdu v + PSFP_FRAME_SZ_OVERHEAD) PSFP_MAX_FRAME_SZ"
  have sz: "unat (fd_max_sdu v + PSFP_FRAME_SZ_OVERHEAD) = (unat (fd_max_sdu v) + 12) mod 2 ^ 32"
    by (simp add: unat_word_ariths)
  have umin: "unat (min a b) = min (unat a) (unat b)" for a b :: u32 by (simp add: min_def word_le_nat_alt)
  have um: "unat m = min ((unat (fd_max_sdu v) + 12) mod 2 ^ 32) 1518"
    unfolding m_def umin sz by simp
  have "unat m < 2 ^ 11" unfolding um by simp
  then have hi: "bit m i \<Longrightarrow> i < 11" for i
    using small_bit [of "unat m" 11 i] by (simp add: bit_unsigned_iff not_le [symmetric] bit_imp_le_length) blast
  have "FIELD_GET 10 0 (fst (filter_regs lim (Some v))) = ucast m"
    by (rule bit_word_eqI)
      (auto simp: filter_regs_def Let_def FIELD_PREP_def FIELD_GET_def bit_simps m_def [symmetric] dest: hi)
  moreover have "unat (ucast m :: u16) = unat m"
    using \<open>unat m < 2 ^ 11\<close> by (simp add: unsigned_ucast_eq take_bit_nat_eq_self)
  ultimately show "unat (FIELD_GET 10 0 (fst (filter_regs lim (Some v)))) = min ((unat (fd_max_sdu v) + 12) mod 2 ^ 32) 1518"
    using um by simp
  show "edgx_psfp_flt_check lim (d\<lparr>sf_data := (sf_data d)\<lparr>fd_max_sdu := sdu\<rparr>\<rparr>) = edgx_psfp_flt_check lim d"
    by (simp add: edgx_psfp_flt_check_def)
qed

end
