(* ===== verification/PsfpGate.thy ===== *)
theory PsfpGate
  imports PsfpFlt StFscr
begin

text \<open>
  The second half of \<open>edge_psfp.c\<close>: the hit counters with their thresholds, the table of the stream
  gates, and the gates as clients of the scheduler with their files. Every gate has a scheduler of
  its own (a \<open>sys\<close> whose client is \<open>struct psfp_gt\<close>); they share the registers, which are in the
  record of all gates. A user's list element lies over a scheduler's list element: its priority is
  the low byte of what the scheduler takes for padding (little endian).
\<close>

unbundle bit_operations_syntax

section \<open>Hit counters\<close>

record psfp_hit =
  hit_iobase :: nat
  th_low_ns :: u32
  th_high_ns :: u32

datatype psfp_hit_th_type = PSFP_HIT_TH_LOW | PSFP_HIT_TH_HIGH
datatype psfp_hit_cnt_type = PSFP_CNT_HIT_A | PSFP_CNT_HIT_B

abbreviation (input) HIT_SGATE :: nat where "HIT_SGATE \<equiv> 0xF104"
abbreviation (input) HIT_TH_L :: nat where "HIT_TH_L \<equiv> 0xF100"
abbreviation (input) HIT_TH_H :: nat where "HIT_TH_H \<equiv> 0xF102"
abbreviation (input) CNT_CAPT4 :: nat where "CNT_CAPT4 \<equiv> 0xF008"
abbreviation (input) CNT_HIT_A :: nat where "CNT_HIT_A \<equiv> 0xF318"
abbreviation (input) CNT_HIT_B :: nat where "CNT_HIT_B \<equiv> 0xF31C"

definition edgx_psfp_hit_set_gate_hw :: "psfp_hit \<Rightarrow> u32 \<Rightarrow> iomem \<Rightarrow> int \<times> iomem" where
  "edgx_psfp_hit_set_gate_hw hit gate io = (0, edgx_wr16 io (hit_iobase hit) HIT_SGATE (ucast gate))"

definition edgx_psfp_hit_get_gate_hw :: "psfp_hit \<Rightarrow> iomem \<Rightarrow> u16" where
  "edgx_psfp_hit_get_gate_hw hit io = edgx_rd16 io (hit_iobase hit) HIT_SGATE AND mask 4"

definition edgx_psfp_hit_get_th_hw :: "psfp_hit \<Rightarrow> iomem \<Rightarrow> u32 \<times> u32" where
  "edgx_psfp_hit_get_th_hw hit io =
     (let low = edgx_rd16 io (hit_iobase hit) HIT_TH_L AND mask 14;
          high = edgx_rd16 io (hit_iobase hit) HIT_TH_H AND mask 14
      in (ucast low * 320, ucast high * 320))"

text \<open>An errno, or the two thresholds in units of 320 ns.\<close>

definition edgx_psfp_hit_check :: "u32 \<Rightarrow> u32 \<Rightarrow> int + u16 \<times> u16" where
  "edgx_psfp_hit_check low_ns high_ns =
     (if low_ns < 1 * 320 \<or> low_ns > 16382 * 320 then Inl (- ERANGE)
      else let low = (ucast (low_ns div 320) :: u16) in
      if ucast low * 320 \<noteq> low_ns then Inl (- EINVAL)
      else if high_ns < 2 * 320 \<or> high_ns > 16383 * 320 then Inl (- ERANGE)
      else let high = (ucast (high_ns div 320) :: u16) in
      if ucast high * 320 \<noteq> high_ns then Inl (- EINVAL)
      else if low \<ge> high then Inl (- EINVAL)
      else Inr (low, high))"

text \<open>The result also lists the registers after each of the writes.\<close>

definition edgx_psfp_hit_set_th_hw ::
  "psfp_hit \<Rightarrow> u32 \<Rightarrow> u32 \<Rightarrow> iomem \<Rightarrow> int \<times> psfp_hit \<times> iomem \<times> iomem list" where
  "edgx_psfp_hit_set_th_hw hit low_ns high_ns io =
     (case edgx_psfp_hit_check low_ns high_ns of Inl ret \<Rightarrow> (ret, hit, io, [])
      | Inr (low, high) \<Rightarrow>
          let (hit, io, ios) = (if low_ns \<ge> th_high_ns hit
                 then let io = edgx_wr16 io (hit_iobase hit) HIT_TH_H high in (hit\<lparr>th_high_ns := high_ns\<rparr>, io, [io])
                 else (hit, io, []));
              (hit, io, ios) = (if low_ns \<noteq> th_low_ns hit
                 then let io = edgx_wr16 io (hit_iobase hit) HIT_TH_L low in (hit\<lparr>th_low_ns := low_ns\<rparr>, io, ios @ [io])
                 else (hit, io, ios));
              (hit, io, ios) = (if high_ns \<noteq> th_high_ns hit
                 then let io = edgx_wr16 io (hit_iobase hit) HIT_TH_H high in (hit\<lparr>th_high_ns := high_ns\<rparr>, io, ios @ [io])
                 else (hit, io, ios))
          in (0, hit, io, ios))"

definition hit_busy :: "nat \<Rightarrow> iomem \<Rightarrow> bool" where
  "hit_busy base io \<longleftrightarrow> edgx_get16 0 io base CNT_CAPT0 6 6 \<noteq> 0"

definition edgx_psfp_hit_get_cnt_hw ::
  "device \<Rightarrow> psfp_hit \<Rightarrow> u16 \<Rightarrow> u16 \<Rightarrow> psfp_hit_cnt_type \<Rightarrow> iomem \<Rightarrow> (u32 \<times> iomem) option" where
  "edgx_psfp_hit_get_cnt_hw dev hit port str_hdl cnt_type io = do {
     let base = hit_iobase hit;
     let capture = FIELD_PREP 3 0 port OR FIELD_PREP 15 4 str_hdl;
     io \<leftarrow> wait_clear dev (hit_busy base) (edgx_wr16 io base CNT_CAPT4 capture);
     Some (case cnt_type of PSFP_CNT_HIT_A \<Rightarrow> edgx_rd32 io base CNT_HIT_A | PSFP_CNT_HIT_B \<Rightarrow> edgx_rd32 io base CNT_HIT_B, io)
   }"

text \<open>The initialisation, once the structure has been allocated.\<close>

definition edgx_psfp_hit_init :: "nat \<Rightarrow> iomem \<Rightarrow> (int + psfp_hit) \<times> iomem" where
  "edgx_psfp_hit_init base io =
     (let hit = \<lparr>hit_iobase = base, th_low_ns = 0, th_high_ns = 0\<rparr>;
          (low, high) = edgx_psfp_hit_get_th_hw hit io;
          (ret, hit, io, ios) = edgx_psfp_hit_set_th_hw (hit\<lparr>th_low_ns := low, th_high_ns := high\<rparr>) (1 * 320) (2 * 320) io
      in (if ret \<noteq> 0 then Inl ret else Inr hit, io))"

text \<open>The files; \<open>None\<close> is a switch without hit counters, a parsed value that is no number.\<close>

definition gt_hit_gate_store :: "psfp_limits \<Rightarrow> psfp_hit option \<Rightarrow> u32 option \<Rightarrow> int \<Rightarrow> iomem \<Rightarrow> int \<times> iomem" where
  "gt_hit_gate_store lim hit parsed count io =
     (case hit of None \<Rightarrow> (- EOPNOTSUPP, io)
      | Some hit \<Rightarrow> (case parsed of None \<Rightarrow> (- EINVAL, io)
          | Some gate \<Rightarrow>
              if unat gate \<ge> max_gate_cnt lim then (- EINVAL, io)
              else let (ret, io) = edgx_psfp_hit_set_gate_hw hit gate io in (if ret \<noteq> 0 then ret else count, io)))"

definition gt_hit_gate_show :: "psfp_hit option \<Rightarrow> iomem \<Rightarrow> int + u16" where
  "gt_hit_gate_show hit io = (case hit of None \<Rightarrow> Inl (- EOPNOTSUPP) | Some hit \<Rightarrow> Inr (edgx_psfp_hit_get_gate_hw hit io))"

definition gt_hit_th_store ::
  "psfp_hit_th_type \<Rightarrow> psfp_hit option \<Rightarrow> u32 option \<Rightarrow> int \<Rightarrow> iomem \<Rightarrow> int \<times> psfp_hit option \<times> iomem" where
  "gt_hit_th_store th_type hit parsed count io =
     (case hit of None \<Rightarrow> (- EOPNOTSUPP, None, io)
      | Some hit \<Rightarrow> (case parsed of None \<Rightarrow> (- EINVAL, Some hit, io)
          | Some th_ns \<Rightarrow>
              let (ret, hit, io, ios) = (case th_type of
                    PSFP_HIT_TH_LOW \<Rightarrow> edgx_psfp_hit_set_th_hw hit th_ns (th_high_ns hit) io
                  | PSFP_HIT_TH_HIGH \<Rightarrow> edgx_psfp_hit_set_th_hw hit (th_low_ns hit) th_ns io)
              in (if ret \<noteq> 0 then ret else count, Some hit, io)))"

definition gt_hit_th_show :: "psfp_hit_th_type \<Rightarrow> psfp_hit option \<Rightarrow> int + u32" where
  "gt_hit_th_show th_type hit =
     (case hit of None \<Rightarrow> Inl (- EOPNOTSUPP)
      | Some hit \<Rightarrow> Inr (case th_type of PSFP_HIT_TH_LOW \<Rightarrow> th_low_ns hit | PSFP_HIT_TH_HIGH \<Rightarrow> th_high_ns hit))"

definition gt_hit_th_low_store where "gt_hit_th_low_store = gt_hit_th_store PSFP_HIT_TH_LOW"
definition gt_hit_th_high_store where "gt_hit_th_high_store = gt_hit_th_store PSFP_HIT_TH_HIGH"
definition gt_hit_th_low_show where "gt_hit_th_low_show = gt_hit_th_show PSFP_HIT_TH_LOW"
definition gt_hit_th_high_show where "gt_hit_th_high_show = gt_hit_th_show PSFP_HIT_TH_HIGH"

definition gt_hit_cnt_read ::
  "device \<Rightarrow> psfp_limits \<Rightarrow> psfp_hit option \<Rightarrow> u16 \<Rightarrow> psfp_hit_cnt_type \<Rightarrow> int \<Rightarrow> int \<Rightarrow> iomem \<Rightarrow> (int \<times> u32 option \<times> iomem) option" where
  "gt_hit_cnt_read dev lim hit port cnt_type ofs count io =
     (case hit of None \<Rightarrow> Some (- EOPNOTSUPP, None, io)
      | Some hit \<Rightarrow> do {
          r \<leftarrow> edgx_sysfs_tbl_params ofs count 4;
          case r of Inl e \<Rightarrow> Some (- EINVAL, None, io)
          | Inr idx \<Rightarrow>
              if idx \<ge> 1024 \<or> idx \<ge> int (max_str_cnt lim) then Some (- EINVAL, None, io)
              else do {
                (cnt, io) \<leftarrow> edgx_psfp_hit_get_cnt_hw dev hit port (word_of_int idx) cnt_type io;
                Some (count, Some cnt, io)
              }
        })"

definition gt_hit_low_cnt_read where "gt_hit_low_cnt_read dev lim hit port = gt_hit_cnt_read dev lim hit port PSFP_CNT_HIT_A"
definition gt_hit_high_cnt_read where "gt_hit_high_cnt_read dev lim hit port = gt_hit_cnt_read dev lim hit port PSFP_CNT_HIT_B"

section \<open>Table of the stream gates\<close>

record psfp_gt_sgate_entry =
  closed_inv_rx_ena :: bool
  closed_inv_rx :: bool

abbreviation (input) SGATE_CMD :: nat where "SGATE_CMD \<equiv> 0x550"
abbreviation (input) SGATE_TBL_0 :: nat where "SGATE_TBL_0 \<equiv> 0x560"

definition sgate_busy :: "nat \<Rightarrow> iomem \<Rightarrow> bool" where
  "sgate_busy base io \<longleftrightarrow> edgx_get16 0 io base SGATE_CMD 15 15 \<noteq> 0"

definition edgx_psfp_gt_read_sgate_hw :: "device \<Rightarrow> nat \<Rightarrow> u16 \<Rightarrow> iomem \<Rightarrow> (psfp_gt_sgate_entry \<times> iomem) option" where
  "edgx_psfp_gt_read_sgate_hw dev base gate io = do {
     io \<leftarrow> wait_clear dev (sgate_busy base) (edgx_wr16 io base SGATE_CMD (FIELD_PREP 3 0 gate OR 0x8000));
     let table0 = edgx_rd16 io base SGATE_TBL_0;
     Some (\<lparr>closed_inv_rx_ena = (table0 AND 2 \<noteq> 0), closed_inv_rx = (table0 AND 1 \<noteq> 0)\<rparr>, io)
   }"

definition edgx_psfp_gt_write_sgate_hw :: "device \<Rightarrow> nat \<Rightarrow> u16 \<Rightarrow> psfp_gt_sgate_entry \<Rightarrow> iomem \<Rightarrow> iomem option" where
  "edgx_psfp_gt_write_sgate_hw dev base gate entry io =
     (let cmd = FIELD_PREP 3 0 gate OR 0x4000 OR 0x8000;
          table0 = prep_bool 1 (closed_inv_rx_ena entry) OR prep_bool 0 (closed_inv_rx entry);
          io = edgx_wr16 io base SGATE_TBL_0 table0
      in wait_clear dev (sgate_busy base) (edgx_wr16 io base SGATE_CMD cmd))"

text \<open>The mask says which of the two flags are set.\<close>

definition edgx_psfp_gt_set_sgate ::
  "device \<Rightarrow> nat \<Rightarrow> u16 \<Rightarrow> psfp_gt_sgate_entry \<Rightarrow> u32 \<Rightarrow> iomem \<Rightarrow> iomem option" where
  "edgx_psfp_gt_set_sgate dev base idx entry msk io = do {
     (new_entry, io) \<leftarrow> edgx_psfp_gt_read_sgate_hw dev base idx io;
     let new_entry = (if msk AND 1 \<noteq> 0 then new_entry\<lparr>closed_inv_rx_ena := closed_inv_rx_ena entry\<rparr> else new_entry);
     let new_entry = (if msk AND 2 \<noteq> 0 then new_entry\<lparr>closed_inv_rx := closed_inv_rx entry\<rparr> else new_entry);
     edgx_psfp_gt_write_sgate_hw dev base idx new_entry io
   }"

section \<open>Gates as clients of the scheduler\<close>

record psfp_gt_dly_pt =
  dp_parent :: "(edgx_link \<times> nat) option"
  dp_speed :: int
  dp_lnk_rx :: "int \<times> int"
  dp_i2sg :: "int \<times> int"
  dp_w2sg_min :: int
  dp_w2sg_max :: int
  dp_w2sg :: int
  dp_sgate_delay :: int

record psfp_gt_dly_sched =
  ds_clk :: int
  ds_s2g :: "int \<times> int"
  ds_s2g_mid :: int
  ds_s2sg :: int
  ds_retard :: int

text \<open>\<open>struct psfp_gt\<close>; a port is its link and its register base.\<close>

record psfp_gt =
  gt_br :: edgx_br
  dly_sched :: psfp_gt_dly_sched
  dly_pt :: "psfp_gt_dly_pt list"
  dly_pt_ref :: psfp_gt_dly_pt

type_synonym gt_sys = "psfp_gt sys"

abbreviation (input) S64_MAX :: int where "S64_MAX \<equiv> 9223372036854775807"
abbreviation (input) PSFP_GT_SCHED_GRAN_NS :: u32 where "PSFP_GT_SCHED_GRAN_NS \<equiv> 320"

definition edgx_psfp_gt_make_states :: "bool \<Rightarrow> bool \<Rightarrow> u8 \<Rightarrow> u8" where
  "edgx_psfp_gt_make_states gate_state ipv_enable ipv =
     (if gate_state then 1 else 0) OR (if ipv_enable then 2 else 0) OR push_bit 2 (ipv AND 7)"

definition edgx_psfp_gt_calc_retard ::
  "psfp_gt_dly_sched \<Rightarrow> psfp_gt_dly_pt \<Rightarrow> psfp_gt_dly_pt option \<Rightarrow> int \<times> psfp_gt_dly_pt" where
  "edgx_psfp_gt_calc_retard ds dp ref_opt =
     (let w_min = wrap_u64 (fst (dp_lnk_rx dp) + fst (dp_i2sg dp));
          w_max = wrap_u64 (snd (dp_lnk_rx dp) + snd (dp_i2sg dp));
          w = wrap_u64 (w_min + w_max + 1) div 2;
          dly = (case ref_opt of None \<Rightarrow> 0
                 | Some r \<Rightarrow> wrap_s64 (w - ds_s2g_mid ds - (dp_w2sg r - ds_s2g_mid ds - dp_sgate_delay r)));
          dp = dp\<lparr>dp_w2sg_min := w_min, dp_w2sg_max := w_max, dp_w2sg := w, dp_sgate_delay := dly\<rparr>
      in (wrap_s64 (w - ds_s2sg ds - dly), dp))"

text \<open>First loop: the delays at the highest speed; the port with the smallest retard is the reference.\<close>

fun find_reference ::
  "iomem \<Rightarrow> edgx_br \<Rightarrow> psfp_gt_dly_sched \<Rightarrow> psfp_gt_dly_pt \<Rightarrow> psfp_gt_dly_pt list
     \<Rightarrow> psfp_gt_dly_sched \<times> psfp_gt_dly_pt \<times> psfp_gt_dly_pt list" where
  "find_reference io br ds r [] = (ds, r, [])"
| "find_reference io br ds r (dp # dps) =
     (let skip = (\<lambda>dp. let (ds', r', dps') = find_reference io br ds r dps in (ds', r', dp # dps'))
      in case dp_parent dp of None \<Rightarrow> skip dp
         | Some (lnk, base) \<Rightarrow>
             let dp = dp\<lparr>dp_speed := SPEED_UNKNOWN\<rparr>; speed = link_speed lnk
             in if speed = SPEED_UNKNOWN then skip dp
                else case edgx_link_get_rx_delays_hi lnk of Inl ret \<Rightarrow> skip dp
                | Inr rx \<Rightarrow>
                    let dp = dp\<lparr>dp_lnk_rx := rx\<rparr>
                    in case edgx_pt_get_i2sg_hi io br (lnk_mode lnk) of Inl ret \<Rightarrow> skip dp
                    | Inr i2sg \<Rightarrow>
                        let dp = dp\<lparr>dp_i2sg := i2sg, dp_speed := speed\<rparr>;
                            (retard, dp) = edgx_psfp_gt_calc_retard ds dp None;
                            (ds, r) = (if retard < ds_retard ds then (ds\<lparr>ds_retard := retard\<rparr>, dp) else (ds, r));
                            (ds', r', dps') = find_reference io br ds r dps
                        in (ds', r', dp # dps'))"

text \<open>Second loop: the delays at the current speed, and the delay registers of the ports.\<close>

fun port_delays ::
  "edgx_br \<Rightarrow> psfp_gt_dly_sched \<Rightarrow> psfp_gt_dly_pt \<Rightarrow> psfp_gt_dly_pt list \<Rightarrow> iomem \<Rightarrow> psfp_gt_dly_pt list \<times> iomem" where
  "port_delays br ds r [] io = ([], io)"
| "port_delays br ds r (dp # dps) io =
     (let (dp, io) =
        (case dp_parent dp of None \<Rightarrow> (dp, io)
         | Some (lnk, base) \<Rightarrow>
             if dp_speed dp = SPEED_UNKNOWN then (dp, io)
             else let dp = dp\<lparr>dp_lnk_rx := (edgx_link_get_delay lnk DLY_RX DLY_MIN, edgx_link_get_delay lnk DLY_RX DLY_MAX),
                              dp_i2sg := (edgx_pt_get_dly io br (link_speed lnk) BR_FEAT_I2SG_BASE False,
                                          edgx_pt_get_dly io br (link_speed lnk) BR_FEAT_I2SG_BASE True)\<rparr>;
                      (retard, dp) = edgx_psfp_gt_calc_retard ds dp (Some r)
                  in (dp, edgx_pt_set_sg_delay io base (if dp_sgate_delay dp \<ge> 0 then dp_sgate_delay dp else 0)));
          (dps, io) = port_delays br ds r dps io
      in (dp # dps, io))"

definition edgx_psfp_gt_calc_delays :: "gt_sys \<Rightarrow> int \<times> gt_sys" where
  "edgx_psfp_gt_calc_delays y =
     (let gt = sys_client y; br = gt_br gt; io = sys_io y;
          r = (dly_pt_ref gt)\<lparr>dp_speed := SPEED_UNKNOWN\<rparr>;
          ds = (dly_sched gt)\<lparr>ds_retard := S64_MAX, ds_clk := uint (edgx_br_get_cycle_ns br)\<rparr>;
          put = (\<lambda>ds r dps. y\<lparr>sys_client := gt\<lparr>dly_sched := ds, dly_pt_ref := r, dly_pt := dps\<rparr>\<rparr>)
      in if ds_clk ds = 0 then (- EINVAL, put ds r (dly_pt gt))
         else let s2sg_sched = wrap_u64 (uint (sched_idx (sys_sd y)) * ds_clk ds) in
         case edgx_sched_get_s2g (ds_clk ds) y of Inl ret \<Rightarrow> (ret, put ds r (dly_pt gt))
         | Inr sg \<Rightarrow>
             let mid = wrap_u64 (fst sg + snd sg + 1) div 2;
                 ds = ds\<lparr>ds_s2g := sg, ds_s2g_mid := mid, ds_s2sg := wrap_u64 (mid + s2sg_sched)\<rparr>;
                 (ds, r, dps) = find_reference io br ds r (dly_pt gt)
             in if ds_retard ds = S64_MAX then (- EINVAL, put ds r dps)
                else let (dps, io) = port_delays br ds r dps io
                     in (0, (put ds r dps)\<lparr>sys_io := io\<rparr>))"

definition edgx_psfp_gt_get_sched_offset :: "gt_sys \<Rightarrow> ((int + int) \<times> gt_sys) option" where
  "edgx_psfp_gt_get_sched_offset y =
     (let (ret, y) = edgx_psfp_gt_calc_delays y
      in Some (if ret \<noteq> 0 then Inl ret else Inr (ds_retard (dly_sched (sys_client y))), y))"

fun gt_write_rows ::
  "device \<Rightarrow> sched_com \<Rightarrow> sched \<Rightarrow> nat \<Rightarrow> tab_entry list \<Rightarrow> nat \<Rightarrow> u32 \<Rightarrow> iomem \<Rightarrow> (int \<times> u32 \<times> iomem) option" where
  "gt_write_rows dev c s tab_idx [] i t io = Some (0, t, io)"
| "gt_write_rows dev c s tab_idx (e # es) i t io = do {
     let t = t + time_interval e;
     (ret, io) \<leftarrow> edgx_sched_write_entry dev c s io tab_idx i (ucast (gate_states e)) t;
     if ret \<noteq> 0 then Some (ret, t, io) else gt_write_rows dev c s tab_idx es (Suc i) t io
   }"

definition edgx_psfp_gt_prepare_config ::
  "device \<Rightarrow> gt_sys \<Rightarrow> tab_entry list \<Rightarrow> nat \<Rightarrow> (int \<times> gt_sys) option" where
  "edgx_psfp_gt_prepare_config dev y es0 count =
     (let c = sys_com y; s = sys_sd y; tab_idx = edgx_sched_get_free_tab (sys_io y) s
      in if tab_idx < 0 then Some (tab_idx, y)
         else if count = 0 \<or> length es0 < count then None
         else do {
           let es = take count es0;
           (ret, t, io) \<leftarrow> gt_write_rows dev c s (nat tab_idx) es 0 0 (sys_io y);
           (ret, io) \<leftarrow> (if ret \<noteq> 0 then Some (ret, io)
                        else edgx_sched_write_entry dev c s io (nat tab_idx) count (ucast (gate_states (last es))) t);
           Some (ret, y\<lparr>sys_io := io\<rparr>)
         })"

definition edgx_psfp_gt_config_changed :: "gt_sys \<Rightarrow> gt_sys option" where
  "edgx_psfp_gt_config_changed y = Some y"

definition edgx_psfp_gt_ops :: "device \<Rightarrow> psfp_gt sched_ops" where
  "edgx_psfp_gt_ops dev =
     \<lparr>get_sched_offset = edgx_psfp_gt_get_sched_offset,
      prepare_config = edgx_psfp_gt_prepare_config dev,
      config_changed = Some edgx_psfp_gt_config_changed\<rparr>"

section \<open>All gates\<close>

text \<open>The gates with the registers; the registers inside of the schedulers' records are not used here.\<close>

record psfp_gates =
  pg_iobase :: nat
  pg_limits :: psfp_limits
  pg_gts :: "gt_sys list"
  pg_io :: iomem

text \<open>
  The initialisation: \<open>com\<close> is the common part of the schedulers, \<open>outcomes\<close> whether the clock and the
  memory of each scheduler were there. When a scheduler fails, the loop
  \<open>do shutdown(gt[i]) while (--i > 0)\<close> runs on an unsigned index: for the first gate it leaves the
  array.
\<close>

fun gt_shutdown_down :: "gt_sys list \<Rightarrow> nat \<Rightarrow> iomem \<Rightarrow> iomem" where
  "gt_shutdown_down gts 0 io = io"
| "gt_shutdown_down gts (Suc i) io =
     (if i = 0 then io else gt_shutdown_down gts i (edgx_shutdown_sched (Some (sys_sd (gts ! i))) io))"

fun gt_probe_from ::
  "device \<Rightarrow> nat \<Rightarrow> sched_com \<Rightarrow> psfp_gt \<Rightarrow> (bool \<times> bool) list \<Rightarrow> gt_sys list \<Rightarrow> iomem \<Rightarrow> ((int + gt_sys list) \<times> iomem) option" where
  "gt_probe_from dev base com cl [] gts io = Some (Inr gts, io)"
| "gt_probe_from dev base com cl ((time_ok, alloc_ok) # os) gts io =
     (let i = length gts
      in case edgx_probe_sched time_ok alloc_ok com i io of
           (Inl ret, io) \<Rightarrow> if i = 0 then None else Some (Inl ret, gt_shutdown_down gts i io)
         | (Inr s, io) \<Rightarrow> do {
             io \<leftarrow> edgx_psfp_gt_write_sgate_hw dev base (of_nat i) \<lparr>closed_inv_rx_ena = False, closed_inv_rx = False\<rparr> io;
             gt_probe_from dev base com cl os
               (gts @ [\<lparr>sys_com = com, sys_sd = s, sys_running = False, sys_io = io, sys_client = cl\<rparr>]) io
           })"

definition edgx_psfp_gt_init ::
  "device \<Rightarrow> nat \<Rightarrow> psfp_limits \<Rightarrow> psfp_gt \<Rightarrow> int + sched_com \<Rightarrow> (bool \<times> bool) list \<Rightarrow> iomem
     \<Rightarrow> ((int + psfp_gates) \<times> iomem) option" where
  "edgx_psfp_gt_init dev base lim cl com_probe outcomes io =
     (case com_probe of Inl ret \<Rightarrow> Some (Inl ret, io)
      | Inr com \<Rightarrow> do {
          let (com, io) = edgx_sched_com_set_params 0 PSFP_GT_SCHED_GRAN_NS com io;
          (r, io) \<leftarrow> gt_probe_from dev base com cl (take (max_gate_cnt lim) outcomes) [] io;
          Some (case r of Inl ret \<Rightarrow> Inl ret
                | Inr gts \<Rightarrow> Inr \<lparr>pg_iobase = base, pg_limits = lim\<lparr>max_gcl_len := unat (max_entry_cnt (limits com))\<rparr>,
                                  pg_gts = gts, pg_io = io\<rparr>, io)
        })"

definition edgx_psfp_gt_shutdown :: "sched_com \<Rightarrow> psfp_gates \<Rightarrow> iomem" where
  "edgx_psfp_gt_shutdown com G =
     edgx_sched_com_shutdown (Some com) (foldr (\<lambda>y. edgx_shutdown_sched (Some (sys_sd y))) (pg_gts G) (pg_io G))"

text \<open>The limits that \<open>edgx_probe_psfp\<close> reads from the parameters of the bridge; flow meters are not supported.\<close>

definition psfp_probe_limits :: "iomem \<Rightarrow> edgx_br \<Rightarrow> psfp_limits" where
  "psfp_probe_limits io br =
     (let nstreams = edgx_br_get_generic_pow2 io br 0x38
      in \<lparr>max_str_cnt = unat nstreams, max_flt_cnt = unat (nstreams * 8), max_gate_cnt = unat (edgx_br_get_generic io br 0x3A),
          max_fmtr_cnt = 0, res_fmtr_cnt = 0, max_gcl_len = 0\<rparr>)"

definition edgx_dev2psfp_gate :: "psfp_gates \<Rightarrow> int \<Rightarrow> int \<Rightarrow> int \<Rightarrow> nat option option" where
  "edgx_dev2psfp_gate G ofs count entry_size = do {
     r \<leftarrow> edgx_sysfs_tbl_params ofs count entry_size;
     Some (case r of Inl e \<Rightarrow> None
           | Inr idx \<Rightarrow> if idx \<ge> int (max_gate_cnt (pg_limits G)) then None else Some (nat idx))
   }"

text \<open>\<open>struct psfp_gt_tab_entry\<close> has eight bytes; the gate, the first element and the number of elements.\<close>

definition edgx_dev2psfp_gcl_sched :: "psfp_gates \<Rightarrow> int \<Rightarrow> int \<Rightarrow> (nat \<times> nat \<times> nat) option option" where
  "edgx_dev2psfp_gcl_sched G ofs count = do {
     r \<leftarrow> edgx_sysfs_list_params ofs count 8;
     case r of Inl e \<Rightarrow> Some None
     | Inr (idx, nelems) \<Rightarrow>
         let per = max_gcl_len (pg_limits G)
         in if per = 0 then None
            else let gate = nat idx div per
            in Some (if gate \<ge> max_gate_cnt (pg_limits G) then None else Some (gate, nat idx mod per, nat nelems))
   }"

text \<open>A call of the scheduler of a gate: its result, a value, and the new state.\<close>

definition on_gate :: "nat \<Rightarrow> (gt_sys \<Rightarrow> ('r \<times> gt_sys) option) \<Rightarrow> psfp_gates \<Rightarrow> ('r \<times> psfp_gates) option" where
  "on_gate i f G = do {
     y \<leftarrow> nth_opt (pg_gts G) i;
     (r, y) \<leftarrow> f (y\<lparr>sys_io := pg_io G\<rparr>);
     Some (r, G\<lparr>pg_gts := (pg_gts G)[i := y], pg_io := sys_io y\<rparr>)
   }"

text \<open>A file with one element for each gate: a write, which returns an errno or the count, and a read.\<close>

definition gate_write ::
  "int \<Rightarrow> (gt_sys \<Rightarrow> (int \<times> gt_sys) option) \<Rightarrow> int \<Rightarrow> int \<Rightarrow> psfp_gates \<Rightarrow> (int \<times> psfp_gates) option" where
  "gate_write sz f ofs count G = do {
     gate \<leftarrow> edgx_dev2psfp_gate G ofs count sz;
     case gate of None \<Rightarrow> Some (- EINVAL, G)
     | Some i \<Rightarrow> do { (ret, G) \<leftarrow> on_gate i f G; Some (if ret \<noteq> 0 then ret else count, G) }
   }"

definition gate_read ::
  "int \<Rightarrow> (gt_sys \<Rightarrow> int + 'v) \<Rightarrow> int \<Rightarrow> int \<Rightarrow> psfp_gates \<Rightarrow> (int \<times> 'v option) option" where
  "gate_read sz f ofs count G = do {
     gate \<leftarrow> edgx_dev2psfp_gate G ofs count sz;
     case gate of None \<Rightarrow> Some (- EINVAL, None)
     | Some i \<Rightarrow> do {
         y \<leftarrow> nth_opt (pg_gts G) i;
         Some (case f (y\<lparr>sys_io := pg_io G\<rparr>) of Inl ret \<Rightarrow> (ret, None) | Inr v \<Rightarrow> (count, Some v))
       }
   }"

section \<open>Files of the gates\<close>

definition gt_gate_enabled_read where
  "gt_gate_enabled_read = gate_read 1 (\<lambda>y. Inr (edgx_sched_get_gate_enabled y))"

definition gt_gate_enabled_write where
  "gt_gate_enabled_write dev cur_time v =
     gate_write 1 (edgx_sched_set_gate_enabled (edgx_psfp_gt_ops dev) cur_time (v \<noteq> (0 :: u8)))"

definition gt_admin_gate_states_read where
  "gt_admin_gate_states_read = gate_read 1 (\<lambda>y. Inr (edgx_sched_get_admin_gate_states 1 y))"

definition gt_admin_gate_states_write where
  "gt_admin_gate_states_write v =
     gate_write 1 (\<lambda>y. Some (edgx_sched_set_admin_gate_states (if v \<noteq> (0 :: u8) then 1 else 0) 1 y))"

text \<open>The internal priority; -1 is none.\<close>

definition gt_admin_ipv_read where
  "gt_admin_ipv_read = gate_read 1 (\<lambda>y.
     let gs = edgx_sched_get_admin_gate_states 0x1e y
     in Inr (if gs AND 2 \<noteq> 0 then drop_bit 2 gs AND 7 else - 1))"

definition gt_admin_ipv_write where
  "gt_admin_ipv_write ipv =
     gate_write 1 (\<lambda>y. Some (edgx_sched_set_admin_gate_states (if ipv \<noteq> - 1 then 2 OR push_bit 2 (ipv AND 7) else 0) 0x1e y))"

definition gt_closed_inv_read ::
  "(psfp_gt_sgate_entry \<Rightarrow> bool) \<Rightarrow> device \<Rightarrow> int \<Rightarrow> int \<Rightarrow> psfp_gates \<Rightarrow> (int \<times> bool option \<times> psfp_gates) option" where
  "gt_closed_inv_read sel dev ofs count G = do {
     gate \<leftarrow> edgx_dev2psfp_gate G ofs count 1;
     case gate of None \<Rightarrow> Some (- EINVAL, None, G)
     | Some i \<Rightarrow> do {
         (entry, io) \<leftarrow> edgx_psfp_gt_read_sgate_hw dev (pg_iobase G) (of_nat i) (pg_io G);
         Some (count, Some (sel entry), G\<lparr>pg_io := io\<rparr>)
       }
   }"

definition gt_closed_inv_write ::
  "psfp_gt_sgate_entry \<Rightarrow> u32 \<Rightarrow> device \<Rightarrow> int \<Rightarrow> int \<Rightarrow> psfp_gates \<Rightarrow> (int \<times> psfp_gates) option" where
  "gt_closed_inv_write entry msk dev ofs count G = do {
     gate \<leftarrow> edgx_dev2psfp_gate G ofs count 1;
     case gate of None \<Rightarrow> Some (- EINVAL, G)
     | Some i \<Rightarrow> do {
         io \<leftarrow> edgx_psfp_gt_set_sgate dev (pg_iobase G) (of_nat i) entry msk (pg_io G);
         Some (count, G\<lparr>pg_io := io\<rparr>)
       }
   }"

definition gt_closed_inv_rx_ena_read where "gt_closed_inv_rx_ena_read = gt_closed_inv_read closed_inv_rx_ena"
definition gt_closed_inv_rx_read where "gt_closed_inv_rx_read = gt_closed_inv_read closed_inv_rx"
definition gt_closed_inv_rx_ena_write where
  "gt_closed_inv_rx_ena_write v = gt_closed_inv_write \<lparr>closed_inv_rx_ena = (v \<noteq> (0 :: u8)), closed_inv_rx = False\<rparr> 1"
definition gt_closed_inv_rx_write where
  "gt_closed_inv_rx_write v = gt_closed_inv_write \<lparr>closed_inv_rx_ena = False, closed_inv_rx = (v \<noteq> (0 :: u8))\<rparr> 2"

definition gt_admin_ctrl_list_len_read where
  "gt_admin_ctrl_list_len_read = gate_read 4 (\<lambda>y. Inr (edgx_sched_get_ctrl_list_len EDGX_SCHED_ADMIN y))"
definition gt_admin_ctrl_list_len_write where
  "gt_admin_ctrl_list_len_write len = gate_write 4 (\<lambda>y. Some (edgx_sched_set_ctrl_list_len len y))"
definition gt_oper_ctrl_list_len_read where
  "gt_oper_ctrl_list_len_read = gate_read 4 (\<lambda>y. Inr (edgx_sched_get_ctrl_list_len EDGX_SCHED_OPER y))"

definition gt_admin_cycle_time_read where
  "gt_admin_cycle_time_read = gate_read 8 (edgx_sched_get_cycle_time EDGX_SCHED_ADMIN)"
definition gt_admin_cycle_time_write where
  "gt_admin_cycle_time_write ct = gate_write 8 (edgx_sched_set_cycle_time ct)"
definition gt_oper_cycle_time_read where
  "gt_oper_cycle_time_read = gate_read 8 (edgx_sched_get_cycle_time EDGX_SCHED_OPER)"

text \<open>The extension of the cycle is not supported: it reads as zero, a write has no effect.\<close>

definition gt_admin_cycle_time_ext_read where "gt_admin_cycle_time_ext_read = gate_read 4 (\<lambda>y. Inr (0 :: u32))"
definition gt_oper_cycle_time_ext_read where "gt_oper_cycle_time_ext_read = gate_read 4 (\<lambda>y. Inr (0 :: u32))"

definition gt_admin_cycle_time_ext_write :: "int \<Rightarrow> int \<Rightarrow> psfp_gates \<Rightarrow> int option" where
  "gt_admin_cycle_time_ext_write ofs count G =
     map_option (\<lambda>gate. if gate = None then - EINVAL else count) (edgx_dev2psfp_gate G ofs count 4)"

definition gt_admin_base_time_read where
  "gt_admin_base_time_read = gate_read 16 (edgx_sched_get_base_time EDGX_SCHED_ADMIN)"
definition gt_admin_base_time_write where
  "gt_admin_base_time_write bt = gate_write 16 (\<lambda>y. Some (edgx_sched_set_base_time bt y))"
definition gt_oper_base_time_read where
  "gt_oper_base_time_read = gate_read 16 (edgx_sched_get_base_time EDGX_SCHED_OPER)"

definition gt_config_change_read where
  "gt_config_change_read = gate_read 1 (\<lambda>y. Inr (edgx_sched_get_config_change y))"
definition gt_config_change_write where
  "gt_config_change_write dev cur_time v =
     gate_write 1 (edgx_sched_set_config_change (edgx_psfp_gt_ops dev) cur_time (v \<noteq> (0 :: u8)))"
definition gt_config_change_time_read where
  "gt_config_change_time_read = gate_read 16 (\<lambda>y. Inr (edgx_sched_get_config_change_time y))"
definition gt_config_pending_read where
  "gt_config_pending_read = gate_read 1 (\<lambda>y. Inr (edgx_sched_get_config_pending y))"
definition gt_config_change_error_read where
  "gt_config_change_error_read = gate_read 8 (\<lambda>y. Inr (edgx_sched_get_config_change_error y))"
definition gt_tick_granul_read where
  "gt_tick_granul_read = gate_read 4 (\<lambda>y. Inr (hw_granularity_ns (limits (sys_com y)) * 10))"

section \<open>Control lists\<close>

text \<open>The gate and the internal priority of the user's element and the gate states of the scheduler's.\<close>

definition entry_ipv :: "tab_entry \<Rightarrow> u8" where
  "entry_ipv e = ucast (padding e)"

definition set_ipv :: "u8 \<Rightarrow> tab_entry \<Rightarrow> tab_entry" where
  "set_ipv v e = e\<lparr>padding := (padding e AND 0xff00) OR ucast v\<rparr>"

definition edgx_psfp_gt_import_gcl :: "tab_entry list \<Rightarrow> tab_entry list" where
  "edgx_psfp_gt_import_gcl =
     map (\<lambda>e. e\<lparr>gate_states := edgx_psfp_gt_make_states (gate_states e \<noteq> 0) (sint (entry_ipv e) \<ge> 0) (entry_ipv e)\<rparr>)"

definition edgx_psfp_gt_export_gcl :: "tab_entry list \<Rightarrow> tab_entry list" where
  "edgx_psfp_gt_export_gcl =
     map (\<lambda>e. let gs = gate_states e
              in (set_ipv (if gs AND 2 \<noteq> 0 then drop_bit 2 gs AND 7 else - 1) e)\<lparr>gate_states := gs AND 1\<rparr>)"

definition gt_admin_ctrl_list_read ::
  "int \<Rightarrow> int \<Rightarrow> psfp_gates \<Rightarrow> (int \<times> tab_entry list option) option" where
  "gt_admin_ctrl_list_read ofs count G = do {
     sel \<leftarrow> edgx_dev2psfp_gcl_sched G ofs count;
     case sel of None \<Rightarrow> Some (- EINVAL, None)
     | Some (gate, first, nelems) \<Rightarrow> do {
         y \<leftarrow> nth_opt (pg_gts G) gate;
         r \<leftarrow> edgx_sched_get_entries first nelems y;
         Some (case r of Inl ret \<Rightarrow> (ret, None) | Inr es \<Rightarrow> (count, Some (edgx_psfp_gt_export_gcl es)))
       }
   }"

definition gt_admin_ctrl_list_write ::
  "bool \<Rightarrow> tab_entry list \<Rightarrow> int \<Rightarrow> int \<Rightarrow> psfp_gates \<Rightarrow> (int \<times> psfp_gates) option" where
  "gt_admin_ctrl_list_write alloc_ok es ofs count G = do {
     sel \<leftarrow> edgx_dev2psfp_gcl_sched G ofs count;
     case sel of None \<Rightarrow> Some (- EINVAL, G)
     | Some (gate, first, nelems) \<Rightarrow> do {
         (ret, G) \<leftarrow> on_gate gate (edgx_sched_set_entries alloc_ok first (edgx_psfp_gt_import_gcl (take nelems es))) G;
         Some (if ret \<noteq> 0 then ret else count, G)
       }
   }"

text \<open>
  The loop over the elements \<open>buf\<close> of the caller. A row past the list ends it and leaves the element
  as it was; after another error the values of the row before are used, which are indeterminate for
  the first one (\<open>None\<close>), and the loop ends.
\<close>

definition gt_entry :: "u32 \<Rightarrow> u16 \<times> u32 \<Rightarrow> tab_entry \<Rightarrow> tab_entry" where
  "gt_entry prev_time r old =
     old\<lparr>time_interval := snd r - prev_time, gate_states := ucast (fst r), operation_name := 0\<rparr>"

fun gt_read_rows ::
  "device \<Rightarrow> sched_com \<Rightarrow> sched \<Rightarrow> nat \<Rightarrow> tab_entry list \<Rightarrow> nat \<Rightarrow> (u16 \<times> u32) option \<Rightarrow> u32 \<Rightarrow> iomem
     \<Rightarrow> (tab_entry list \<times> iomem) option" where
  "gt_read_rows dev c s tab_idx [] row prev prev_time io = Some ([], io)"
| "gt_read_rows dev c s tab_idx (b # bs) row prev prev_time io = do {
     (r, io) \<leftarrow> edgx_sched_read_entry dev c s io tab_idx row;
     case r of
       Inl ret \<Rightarrow> do {
         b' \<leftarrow> (if ret = - ENOENT then Some b else map_option (\<lambda>r. gt_entry prev_time r b) prev);
         Some (b' # replicate (length bs) edgx_sched_undef_entry, io)
       }
     | Inr r \<Rightarrow> do {
         (es, io) \<leftarrow> gt_read_rows dev c s tab_idx bs (Suc row) (Some r) (snd r) io;
         Some (gt_entry prev_time r b # es, io)
       }
   }"

definition edgx_psfp_gt_get_oper_ctrl_list ::
  "device \<Rightarrow> nat \<Rightarrow> tab_entry list \<Rightarrow> gt_sys \<Rightarrow> ((int + tab_entry list) \<times> gt_sys) option" where
  "edgx_psfp_gt_get_oper_ctrl_list dev first buf y =
     (let c = sys_com y; s = sys_sd y; tab_idx = edgx_sched_get_used_tab (sys_io y) s
      in if tab_idx < 0 then Some (Inl tab_idx, y)
         else do {
           (prev, io) \<leftarrow> (if first = 0 then Some (Inr (0, 0), sys_io y)
                         else edgx_sched_read_entry dev c s (sys_io y) (nat tab_idx) (first - 1));
           case prev of Inl ret \<Rightarrow> Some (Inl ret, y\<lparr>sys_io := io\<rparr>)
           | Inr (g, prev_time) \<Rightarrow> do {
               (es, io) \<leftarrow> gt_read_rows dev c s (nat tab_idx) buf first None prev_time io;
               Some (Inr es, y\<lparr>sys_io := io\<rparr>)
             }
         })"

definition gt_oper_ctrl_list_read ::
  "device \<Rightarrow> tab_entry list \<Rightarrow> int \<Rightarrow> int \<Rightarrow> psfp_gates \<Rightarrow> (int \<times> tab_entry list option \<times> psfp_gates) option" where
  "gt_oper_ctrl_list_read dev buf ofs count G = do {
     sel \<leftarrow> edgx_dev2psfp_gcl_sched G ofs count;
     case sel of None \<Rightarrow> Some (- EINVAL, None, G)
     | Some (gate, first, nelems) \<Rightarrow> do {
         (r, G) \<leftarrow> on_gate gate (edgx_psfp_gt_get_oper_ctrl_list dev first (take nelems buf)) G;
         Some (case r of Inl ret \<Rightarrow> (ret, None, G) | Inr es \<Rightarrow> (count, Some (edgx_psfp_gt_export_gcl es), G))
       }
   }"

section \<open>Parameters\<close>

definition max_flts_show where "max_flts_show G = max_flt_cnt (pg_limits G)"
definition max_gates_show where "max_gates_show G = max_gate_cnt (pg_limits G)"
definition max_fmtrs_show where "max_fmtrs_show G = max_fmtr_cnt (pg_limits G)"
definition max_gcl_len_show where "max_gcl_len_show G = max_gcl_len (pg_limits G)"

definition max_cyc_len_show :: "psfp_gates \<Rightarrow> sched_rational option" where
  "max_cyc_len_show G =
     map_option (\<lambda>y. edgx_sched_nsec_to_rational (wrap_u64 (max_cyc_ms (limits (sys_com y)) * NSEC_PER_MSEC)) 0)
       (nth_opt (pg_gts G) 0)"

definition max_int_len_show :: "psfp_gates \<Rightarrow> u32 option" where
  "max_int_len_show G =
     map_option (\<lambda>y. hw_granularity_ns (limits (sys_com y)) * max_int_len (limits (sys_com y))) (nth_opt (pg_gts G) 0)"

end
