(* ===== verification/PsfpGateProps.thy ===== *)
theory PsfpGateProps
  imports PsfpGate RowMemory
begin

text \<open>
  Properties of the hit counters and the stream gates: the two thresholds are ordered after every
  single write, the gates keep the contract of a scheduler's client, the delays of the ports line
  up with the reference port, and a control list of a gate survives the hardware.
\<close>

unbundle bit_operations_syntax

section \<open>Hit thresholds\<close>

text \<open>The thresholds in the structure are those of the registers, and the driver accepts them.\<close>

definition hit_ok :: "psfp_hit \<Rightarrow> iomem \<Rightarrow> bool" where
  "hit_ok hit io \<longleftrightarrow> edgx_psfp_hit_get_th_hw hit io = (th_low_ns hit, th_high_ns hit)
     \<and> (\<exists>p. edgx_psfp_hit_check (th_low_ns hit) (th_high_ns hit) = Inr p)"

lemma th_mult:
  fixes v :: u32
  assumes "v \<le> 16383 * 320" "ucast (ucast (v div 320) :: u16) * 320 = v"
  shows "ucast ((ucast (v div 320) :: u16) AND mask 14) * 320 = v" "unat (ucast (v div 320) :: u16) * 320 = unat v"
proof -
  let ?q = "ucast (v div 320) :: u16"
  have "unat v \<le> 16383 * 320" using assms(1) by (simp add: word_le_nat_alt)
  then have d: "unat (v div 320) \<le> 16383" by (simp add: unat_div)
  then have q: "unat ?q = unat (v div 320)" by (simp add: unsigned_ucast_eq take_bit_nat_eq_self)
  have "take_bit 14 (unat ?q) = unat ?q" using d q by (simp add: take_bit_nat_eq_self)
  then have "?q AND mask 14 = ?q"
    by (simp add: word_eq_iff_unsigned [where ?'a = nat] unsigned_take_bit_eq flip: take_bit_eq_mask)
  with assms(2) show "ucast (?q AND mask 14) * 320 = v" by simp
  have "unat (ucast x * 320 :: u32) = unat x * 320" if "unat x \<le> 16383" for x :: u16
    using that by (simp add: unat_word_ariths unsigned_ucast_eq take_bit_nat_eq_self)
  from this [of ?q] have "unat (ucast ?q * 320 :: u32) = unat ?q * 320" using d q by (simp del: unat_div)
  with assms(2) show "unat ?q * 320 = unat v" by simp
qed

lemma hit_checkD:
  assumes "edgx_psfp_hit_check lo hi = Inr (l, h)"
  shows "l = ucast (lo div 320)" "h = ucast (hi div 320)" "ucast (l AND mask 14) * 320 = lo"
    "ucast (h AND mask 14) * 320 = hi" "lo < hi"
proof -
  from assms have c: "lo \<le> 16382 * 320" "hi \<le> 16383 * 320" "ucast (ucast (lo div 320) :: u16) * 320 = lo"
    "ucast (ucast (hi div 320) :: u16) * 320 = hi" and lh: "l = ucast (lo div 320)" "h = ucast (hi div 320)" "l < h"
    by (auto simp: edgx_psfp_hit_check_def Let_def split: if_splits)
  show "l = ucast (lo div 320)" "h = ucast (hi div 320)" by fact+
  have "lo \<le> 16383 * 320" using c(1) by (simp add: word_le_nat_alt)
  note lo = th_mult [OF this c(3)] and hi = th_mult [OF c(2) c(4)]
  show "ucast (l AND mask 14) * 320 = lo" "ucast (h AND mask 14) * 320 = hi"
    unfolding lh(1,2) by (rule lo(1), rule hi(1))
  have "unat l * 320 < unat h * 320" using lh(3) by (simp add: word_less_nat_alt)
  then have "unat lo < unat hi" unfolding lh(1,2) lo(2) hi(2) .
  then show "lo < hi" by (simp add: word_less_nat_alt)
qed

lemma get_th_wr:
  "edgx_psfp_hit_get_th_hw hit' (edgx_wr16 io (hit_iobase hit') HIT_TH_L l)
     = (ucast (l AND mask 14) * 320, snd (edgx_psfp_hit_get_th_hw hit' io))"
  "edgx_psfp_hit_get_th_hw hit' (edgx_wr16 io (hit_iobase hit') HIT_TH_H h)
     = (fst (edgx_psfp_hit_get_th_hw hit' io), ucast (h AND mask 14) * 320)"
  by (simp_all add: edgx_psfp_hit_get_th_hw_def edgx_wr16_def edgx_rd16_def Let_def)

lemma get_th_base [simp]:
  "edgx_psfp_hit_get_th_hw (hit\<lparr>th_low_ns := lo, th_high_ns := hi\<rparr>) io = edgx_psfp_hit_get_th_hw hit io"
  by (simp add: edgx_psfp_hit_get_th_hw_def)

text \<open>
  A write of accepted thresholds, from registers that the structure agrees with; when they were
  ordered before, they are so after every single write.
\<close>

lemma set_th_accepted:
  assumes c: "edgx_psfp_hit_check lo hi = Inr (l, h)"
    and r: "edgx_psfp_hit_get_th_hw hit io = (th_low_ns hit, th_high_ns hit)"
    and s: "edgx_psfp_hit_set_th_hw hit lo hi io = (ret, hit', io', ios)"
  shows "ret = 0 \<and> hit' = hit\<lparr>th_low_ns := lo, th_high_ns := hi\<rparr> \<and> edgx_psfp_hit_get_th_hw hit io' = (lo, hi)
     \<and> (th_low_ns hit < th_high_ns hit \<longrightarrow>
          (\<forall>x \<in> set ios. fst (edgx_psfp_hit_get_th_hw hit x) < snd (edgx_psfp_hit_get_th_hw hit x)))"
proof -
  note v = hit_checkD [OF c]
  have w: "edgx_psfp_hit_get_th_hw hit (edgx_wr16 io (hit_iobase hit) HIT_TH_L l) = (lo, snd (edgx_psfp_hit_get_th_hw hit io))"
    "edgx_psfp_hit_get_th_hw hit (edgx_wr16 io (hit_iobase hit) HIT_TH_H h) = (fst (edgx_psfp_hit_get_th_hw hit io), hi)" for io
    using get_th_wr(1) [of hit io l] get_th_wr(2) [of hit io h] v(3,4) by simp_all
  show ?thesis
    using s r v(5) unfolding edgx_psfp_hit_set_th_hw_def c
    by (cases "lo \<ge> th_high_ns hit"; cases "lo = th_low_ns hit"; cases "hi = th_high_ns hit")
      (auto simp: Let_def w)
qed

text \<open>
  Property C28. The two hit thresholds never cross: from a state that the driver accepts, a change
  leaves the low register below the high one after every single register write; accepted values
  are in the registers afterwards, and rejected values change nothing. The initialisation brings
  any registers into such a state.
\<close>

theorem hit_thresholds_ordered:
  assumes "hit_ok hit io" "edgx_psfp_hit_set_th_hw hit lo hi io = (ret, hit', io', ios)"
  shows "hit_ok hit' io'
     \<and> (\<forall>x \<in> set ios. fst (edgx_psfp_hit_get_th_hw hit x) < snd (edgx_psfp_hit_get_th_hw hit x))
     \<and> (if ret = 0 then edgx_psfp_hit_get_th_hw hit io' = (lo, hi) else hit' = hit \<and> io' = io)
     \<and> (\<exists>hit0 io0. edgx_psfp_hit_init base io'' = (Inr hit0, io0) \<and> hit_ok hit0 io0)"
proof -
  have 1: "hit_ok hit' io'
     \<and> (\<forall>x \<in> set ios. fst (edgx_psfp_hit_get_th_hw hit x) < snd (edgx_psfp_hit_get_th_hw hit x))
     \<and> (if ret = 0 then edgx_psfp_hit_get_th_hw hit io' = (lo, hi) else hit' = hit \<and> io' = io)"
  proof (cases "edgx_psfp_hit_check lo hi")
    case (Inl e)
    then have "e \<noteq> 0" by (auto simp: edgx_psfp_hit_check_def Let_def split: if_splits)
    with Inl assms show ?thesis by (auto simp: edgx_psfp_hit_set_th_hw_def)
  next
    case (Inr p)
    obtain l h where p: "p = (l, h)" by (cases p)
    have "th_low_ns hit < th_high_ns hit" using assms(1) by (auto simp: hit_ok_def dest: hit_checkD)
    with set_th_accepted [OF Inr [unfolded p] _ assms(2)] assms(1) Inr show ?thesis
      by (auto simp: hit_ok_def)
  qed
  have c12: "edgx_psfp_hit_check 320 640 = Inr (1, 2)" by (simp add: edgx_psfp_hit_check_def word_le_nat_alt)
  note acc = set_th_accepted [OF c12]
  define h0 where "h0 = \<lparr>hit_iobase = base, th_low_ns = 0, th_high_ns = 0\<rparr>"
  define lh where "lh = edgx_psfp_hit_get_th_hw h0 io''"
  define hit1 where "hit1 = h0\<lparr>th_low_ns := fst lh, th_high_ns := snd lh\<rparr>"
  obtain ret0 hit0 io0 ios0 where s: "edgx_psfp_hit_set_th_hw hit1 320 640 io'' = (ret0, hit0, io0, ios0)"
    by (rule prod_cases4)
  have "edgx_psfp_hit_get_th_hw hit1 io'' = (th_low_ns hit1, th_high_ns hit1)" by (simp add: hit1_def lh_def)
  from acc [OF this s] have r: "ret0 = 0" "hit0 = hit1\<lparr>th_low_ns := 320, th_high_ns := 640\<rparr>"
    "edgx_psfp_hit_get_th_hw hit1 io0 = (320, 640)" by simp_all
  have "edgx_psfp_hit_init base io'' = (Inr hit0, io0)"
    using s r(1) by (simp add: edgx_psfp_hit_init_def hit1_def lh_def split_def Let_def flip: h0_def)
  moreover have "hit_ok hit0 io0" using r c12 by (simp add: hit_ok_def)
  ultimately show ?thesis using 1 by blast
qed

theorem hit_thresholds_ordered_witness:
  "hit_ok \<lparr>hit_iobase = 0, th_low_ns = 3200, th_high_ns = 6400\<rparr> ((\<lambda>_. 0)(0xF100 := 10, 0xF102 := 20))"
proof -
  let ?io = "(\<lambda>_. 0)(0xF100 := 1, 0xF102 := 2) :: iomem" and ?hit = "\<lparr>hit_iobase = 0, th_low_ns = 320, th_high_ns = 640\<rparr>"
  have m: "(mask 14 :: u16) = 0x3fff" by (simp add: mask_eq_exp_minus_1)
  have ok: "hit_ok ?hit ?io"
    by (simp add: hit_ok_def edgx_psfp_hit_get_th_hw_def edgx_psfp_hit_check_def edgx_rd16_def word_le_nat_alt m)
  have set: "edgx_psfp_hit_set_th_hw ?hit 3200 6400 ?io
      = (0, \<lparr>hit_iobase = 0, th_low_ns = 3200, th_high_ns = 6400\<rparr>, ?io(0xF102 := 20, 0xF100 := 10),
         [?io(0xF102 := 20), ?io(0xF102 := 20, 0xF100 := 10)])"
    by (simp add: edgx_psfp_hit_set_th_hw_def edgx_psfp_hit_check_def edgx_wr16_def word_le_nat_alt Let_def)
  have io: "?io(0xF102 := 20, 0xF100 := 10) = (\<lambda>_. 0)(0xF100 := 10, 0xF102 := 20)" by auto
  show ?thesis using hit_thresholds_ordered [OF ok set] unfolding io by blast
qed

section \<open>Gates keep the contract of a scheduler's client\<close>

lemma gt_calc_delays_same: "edgx_psfp_gt_calc_delays y = (r, y') \<Longrightarrow> same_sched y y'"
  by (auto simp: edgx_psfp_gt_calc_delays_def Let_def same_sched_def split: if_splits sum.splits prod.splits)

lemma gt_prepare_config_same: "edgx_psfp_gt_prepare_config dev y es n = Some (r, y') \<Longrightarrow> same_sched y y'"
  by (auto simp: edgx_psfp_gt_prepare_config_def Let_def same_sched_def bind_eq_Some split: if_splits)

interpretation gt_client: sched_client "edgx_psfp_gt_ops dev" for dev
proof unfold_locales
  show "same_sched y y'" if "get_sched_offset (edgx_psfp_gt_ops dev) y = Some (r, y')" for y r y'
    using that by (auto simp: edgx_psfp_gt_ops_def edgx_psfp_gt_get_sched_offset_def split: prod.splits
        dest: gt_calc_delays_same)
  show "same_sched y y'" if "prepare_config (edgx_psfp_gt_ops dev) y es n = Some (ret, y')" for y es n ret y'
    using that by (auto simp: edgx_psfp_gt_ops_def dest: gt_prepare_config_same)
  show "same_sched y y'" if "config_changed (edgx_psfp_gt_ops dev) = Some f" "f y = Some y'" for f y y'
    using that by (auto simp: edgx_psfp_gt_ops_def edgx_psfp_gt_config_changed_def same_sched_def)
qed

section \<open>Delays of the ports\<close>


















definition demo_link :: "int \<Rightarrow> u32 \<Rightarrow> u32 \<Rightarrow> edgx_link" where
  "demo_link spd fast slow = \<lparr>link_speed = spd, adpt_iobase = None,
     phy_dly = (\<lambda>dir i mm. if i = DLY_1000 then fast else slow), adpt_dly = (\<lambda>dir i. 0), dly_flags = (\<lambda>_. 0x3f),
     lnk_mode = EDGX_LNKMOD_100_1000\<rparr>"

definition demo_port :: "edgx_link \<Rightarrow> psfp_gt_dly_pt" where
  "demo_port lnk = \<lparr>dp_parent = Some (lnk, 0x30000), dp_speed = SPEED_UNKNOWN, dp_lnk_rx = (0, 0), dp_i2sg = (0, 0),
     dp_w2sg_min = 0, dp_w2sg_max = 0, dp_w2sg = 0, dp_sgate_delay = 0\<rparr>"

definition demo_gt :: psfp_gt where
  "demo_gt = \<lparr>gt_br = \<lparr>brparam = 0x40000, cycle_ns = 8\<rparr>,
     dly_sched = \<lparr>ds_clk = 0, ds_s2g = (0, 0), ds_s2g_mid = 0, ds_s2sg = 0, ds_retard = 0\<rparr>,
     dly_pt = [demo_port (demo_link 1000 300 0), demo_port (demo_link 100 400 1500), demo_port (demo_link (- 1) 0 0)],
     dly_pt_ref = demo_port (demo_link (- 1) 0 0)\<rparr>"

definition demo_gt_sys :: gt_sys where
  "demo_gt_sys = \<lparr>sys_com = demo_com, sys_sd = demo_sched\<lparr>op_tabs := [zero_table\<lparr>list_len := 2\<rparr>, zero_table\<lparr>list_len := 2\<rparr>]\<rparr>,
     sys_running = False, sys_io = (\<lambda>_. 0), sys_client = demo_gt\<rparr>"


section \<open>A control list through the hardware\<close>

text \<open>The rows of a gate's configuration: one per element, and the last gate states once more.\<close>

definition gate_rows :: "tab_entry list \<Rightarrow> (nat \<times> u16 \<times> u32) list" where
  "gate_rows es = map (\<lambda>k. (k, ucast (gate_states (es ! k)), time_at es k)) [0..<length es]
     @ [(length es, ucast (gate_states (last es)), time_at es (length es - 1))]"

lemma gt_write_rows_seq:
  "map_option (\<lambda>(ret, t, io). (ret, io)) (gt_write_rows dev c s tab es i t io) =
     write_seq dev c s tab (map (\<lambda>k. (i + k, ucast (gate_states (es ! k)),
                  t + sum_list (map time_interval (take (Suc k) es)))) [0..<length es]) io"
proof (induction es arbitrary: i t io)
  case Nil
  then show ?case by simp
next
  case (Cons e es)
  let ?t = "t + time_interval e"
  let ?rest = "map (\<lambda>k. (Suc i + k, ucast (gate_states (es ! k)), ?t + sum_list (map time_interval (take (Suc k) es))))
                 [0..<length es]"
  have upt: "[0..<length (e # es)] = 0 # map Suc [0..<length es]"
    by (simp add: upt_conv_Cons map_Suc_upt del: upt_Suc)
  have rows: "map (\<lambda>k. (i + k, ucast (gate_states ((e # es) ! k)), t + sum_list (map time_interval (take (Suc k) (e # es)))))
                [0..<length (e # es)] = (i, ucast (gate_states e), ?t) # ?rest"
    unfolding upt by (simp add: o_def add.assoc)
  show ?case
  proof (cases "edgx_sched_write_entry dev c s io tab i (ucast (gate_states e)) ?t")
    case None
    then show ?thesis unfolding rows by (simp add: Let_def)
  next
    case (Some p)
    obtain ret io1 where p: "p = (ret, io1)" by (cases p)
    show ?thesis using Some p Cons.IH [of "Suc i" ?t io1] unfolding rows by (simp add: Let_def)
  qed
qed

lemma gt_write_rows_done:
  "gt_write_rows dev c s tab es i t io = Some (0, t', io') \<Longrightarrow> t' = t + sum_list (map time_interval es)"
proof (induction es arbitrary: i t io)
  case (Cons e es)
  from Cons.prems obtain io1 where "gt_write_rows dev c s tab es (Suc i) (t + time_interval e) io1 = Some (0, t', io')"
    by (cases "edgx_sched_write_entry dev c s io tab i (ucast (gate_states e)) (t + time_interval e)")
      (auto simp: Let_def split: if_splits prod.splits)
  from Cons.IH [OF this] show ?case by (simp add: add.assoc)
qed simp

lemma gt_prepare_writes_rows:
  assumes free: "0 \<le> edgx_sched_get_free_tab (sys_io y) (sys_sd y)" and n: "0 < length es"
    and w: "write_seq dev (sys_com y) (sys_sd y) (nat (edgx_sched_get_free_tab (sys_io y) (sys_sd y))) (gate_rows es) (sys_io y)
              = Some (0, io')"
  shows "edgx_psfp_gt_prepare_config dev y es (length es) = Some (0, y\<lparr>sys_io := io'\<rparr>)"
proof -
  let ?c = "sys_com y" and ?s = "sys_sd y" and ?tab = "nat (edgx_sched_get_free_tab (sys_io y) (sys_sd y))"
  let ?R = "map (\<lambda>k. (k, ucast (gate_states (es ! k)), time_at es k)) [0..<length es]"
  have seq: "map_option (\<lambda>(ret, t, io). (ret, io)) (gt_write_rows dev ?c ?s ?tab es 0 0 (sys_io y))
      = write_seq dev ?c ?s ?tab ?R (sys_io y)"
    unfolding gt_write_rows_seq by (simp add: time_at_def)
  from w obtain io1 where 1: "write_seq dev ?c ?s ?tab ?R (sys_io y) = Some (0, io1)"
    and 2: "edgx_sched_write_entry dev ?c ?s io1 ?tab (length es) (ucast (gate_states (last es))) (time_at es (length es - 1))
              = Some (0, io')"
    unfolding gate_rows_def write_seq_append by (auto simp: bind_eq_Some split: if_splits)
  from seq 1 obtain t where g: "gt_write_rows dev ?c ?s ?tab es 0 0 (sys_io y) = Some (0, t, io1)" by auto
  have "t = time_at es (length es - 1)" using gt_write_rows_done [OF g] n by (simp add: time_at_def)
  with g 2 free n show ?thesis by (simp add: edgx_psfp_gt_prepare_config_def Let_def)
qed

lemma gt_read_rows_mem:
  assumes m: "row_memory dev (com_iobase c) rows" and t: "tab < length (op_tabs s)"
  shows "row + length bs \<le> unat (list_len (op_tabs s ! tab)) \<Longrightarrow>
     \<exists>io'. gt_read_rows dev c s tab bs row prev prev_time io = Some (map (\<lambda>k.
        gt_entry (if k = 0 then prev_time
           else ucast (snd (rows io (row_key s tab (row + k - 1)))) * hw_granularity_ns (limits c))
          (fst (rows io (row_key s tab (row + k))),
           ucast (snd (rows io (row_key s tab (row + k)))) * hw_granularity_ns (limits c)) (bs ! k))
        [0..<length bs], io') \<and> rows io' = rows io"
proof (induction bs arbitrary: row prev prev_time io)
  case Nil
  then show ?case by simp
next
  case (Cons b bs)
  let ?t = "ucast (snd (rows io (row_key s tab row))) * hw_granularity_ns (limits c)"
  let ?g = "fst (rows io (row_key s tab row))"
  from Cons.prems have r: "row < unat (list_len (op_tabs s ! tab))" by simp
  obtain io1 where w: "edgx_sched_read_entry dev c s io tab row = Some (Inr (?g, ?t), io1)" and ri: "rows io1 = rows io"
    by (rule read_entry_mem [OF m t r])
  from Cons.prems have l: "Suc row + length bs \<le> unat (list_len (op_tabs s ! tab))" by simp
  have upt: "[0..<length (b # bs)] = 0 # map Suc [0..<length bs]"
    by (simp add: upt_conv_Cons map_Suc_upt del: upt_Suc)
  have shift: "(if Suc k = 0 then prev_time
           else ucast (snd (rows io (row_key s tab (row + Suc k - 1)))) * hw_granularity_ns (limits c))
      = (if k = 0 then ?t else ucast (snd (rows io (row_key s tab (Suc row + k - 1)))) * hw_granularity_ns (limits c))" for k
    by (cases k) simp_all
  from Cons.IH [OF l, of "Some (?g, ?t)" ?t io1] show ?case
    unfolding upt list.map map_map o_def shift ri by (auto simp: w ri)
qed

text \<open>
  What a user can write: gates that are open or closed, the priority -1 (none) or one of eight, and
  times that the rows can hold without loss.
\<close>

definition gt_storable :: "nat \<Rightarrow> tab_entry list \<Rightarrow> bool" where
  "gt_storable gran es \<longleftrightarrow> es \<noteq> [] \<and> length es \<le> 1023
     \<and> (\<forall>e \<in> set es. operation_name e = 0 \<and> (gate_states e = 0 \<or> gate_states e = 1)
          \<and> (entry_ipv e = - 1 \<or> entry_ipv e < 8) \<and> gran dvd unat (time_interval e))
     \<and> end_ns es (length es) \<le> 65535 * gran \<and> end_ns es (length es) < 4294967296"

lemma gate_byte:
  fixes g ipv :: u8
  assumes "g = 0 \<or> g = 1" "ipv = - 1 \<or> ipv < 8"
  shows "let gs = edgx_psfp_gt_make_states (g \<noteq> 0) (sint ipv \<ge> 0) ipv
         in gs AND 1 = g \<and> (if gs AND 2 \<noteq> 0 then drop_bit 2 gs AND 7 else - 1) = ipv"
proof -
  have small: "ipv \<in> {255, 0, 1, 2, 3, 4, 5, 6, 7}"
  proof (cases "ipv = - 1")
    case False
    with assms(2) have "unat ipv < 8" by (simp add: word_less_nat_alt)
    then have "unat ipv \<in> {0, 1, 2, 3, 4, 5, 6, 7}" by auto
    then have "(of_nat (unat ipv) :: u8) \<in> of_nat ` {0, 1, 2, 3, 4, 5, 6, 7}" by (rule imageI)
    then show ?thesis by simp
  next
    case True
    then have "ipv = 255" by simp
    then show ?thesis by simp
  qed
  show ?thesis
    using assms(1) small by (auto simp: edgx_psfp_gt_make_states_def Let_def)
qed

lemma import_storable:
  assumes "gt_storable gran es" "nr_queues st = 8"
  shows "storable st gran (edgx_psfp_gt_import_gcl es)"
proof -
  have len: "length (edgx_psfp_gt_import_gcl es) = length es" by (simp add: edgx_psfp_gt_import_gcl_def)
  have ns: "end_ns (edgx_psfp_gt_import_gcl es) k = end_ns es k" for k
    by (simp add: end_ns_def edgx_psfp_gt_import_gcl_def take_map o_def)
  have low: "(ucast (g :: u8) :: u16) = ucast g AND 0xff" for g
  proof -
    have "(ucast g :: u16) = ucast g AND mask 8" by (rule bit_word_eqI) (auto simp: bit_simps dest: bit_imp_le_length)
    then show ?thesis by (simp add: mask_eq_exp_minus_1)
  qed
  have h: "(ucast (g :: u8) :: u16) AND 0x100 = 0" "(ucast g :: u16) AND ucast (0xff :: u8) = ucast g" for g
    by (subst low, simp add: and.assoc) (subst low, simp)
  have hold: "edgx_st_get_hold st = 0x100" "edgx_st_get_gate_mask st = 0xff"
    using assms(2) by (simp_all add: edgx_st_get_hold_def edgx_st_get_gate_mask_def)
  show ?thesis
    using assms(1) unfolding storable_def gt_storable_def len ns hold
    by (auto simp: edgx_psfp_gt_import_gcl_def h simp flip: low)
qed

lemma import_rows: "storable st gran (edgx_psfp_gt_import_gcl es) \<Longrightarrow>
     planned_rows st (edgx_psfp_gt_import_gcl es) = gate_rows (edgx_psfp_gt_import_gcl es)"
  unfolding gate_rows_def by (rule storable_plan)

text \<open>Reading a list that is in the rows, and what the user sees of it.\<close>

lemma gt_read_gate_rows:
  assumes m: "row_memory dev (com_iobase c) rows" and g: "hw_granularity_ns (limits c) \<noteq> 0"
    and st: "storable st (unat (hw_granularity_ns (limits c))) es"
    and tab: "tab < length (op_tabs s)" "unat (list_len (op_tabs s ! tab)) = length es"
    and mem: "rows io = fold (store_row s tab (hw_granularity_ns (limits c))) (gate_rows es) mem"
    and buf: "length buf = length es"
  shows "\<exists>io'. gt_read_rows dev c s tab buf 0 None 0 io = Some (map (\<lambda>(e, b). e\<lparr>padding := padding b\<rparr>) (zip es buf), io')"
proof -
  let ?gran = "hw_granularity_ns (limits c)"
  have row: "rows io (row_key s tab k) = (ucast (gate_states (es ! k)), ucast (time_at es k div ?gran))" if "k < length es" for k
    using storable_mem [OF st that, of s tab ?gran mem] unfolding mem gate_rows_def storable_plan [OF st] .
  have l: "0 + length buf \<le> unat (list_len (op_tabs s ! tab))" using tab(2) buf by simp
  have elem: "gt_entry (if k = 0 then 0 else ucast (snd (rows io (row_key s tab (0 + k - 1)))) * ?gran)
          (fst (rows io (row_key s tab (0 + k))), ucast (snd (rows io (row_key s tab (0 + k)))) * ?gran) (buf ! k)
      = (es ! k)\<lparr>padding := padding (buf ! k)\<rparr>" if k: "k < length es" for k
  proof -
    have op: "operation_name (es ! k) = 0" using st k by (auto simp: storable_def)
    have prev: "(if k = 0 then 0 else ucast (snd (rows io (row_key s tab (0 + k - 1)))) * ?gran)
        = (if k = 0 then 0 else time_at es (k - 1))"
      using k by (simp add: row storable_time [OF st g])
    have t: "time_at es k - (if k = 0 then 0 else time_at es (k - 1)) = time_interval (es ! k)"
      using k by (cases k) (simp_all add: time_at_def take_Suc_conv_app_nth)
    have gs: "ucast (ucast (x :: u8) :: u16) = x" for x by (rule bit_word_eqI) (auto simp: bit_simps)
    show ?thesis unfolding prev using k t by (simp add: gt_entry_def row storable_time [OF st g] gs op)
  qed
  have "map (\<lambda>k. gt_entry (if k = 0 then 0 else ucast (snd (rows io (row_key s tab (0 + k - 1)))) * ?gran)
          (fst (rows io (row_key s tab (0 + k))), ucast (snd (rows io (row_key s tab (0 + k)))) * ?gran) (buf ! k)) [0..<length buf]
      = map (\<lambda>(e, b). e\<lparr>padding := padding b\<rparr>) (zip es buf)"
  proof (rule trans)
    show "map (\<lambda>k. gt_entry (if k = 0 then 0 else ucast (snd (rows io (row_key s tab (0 + k - 1)))) * ?gran)
          (fst (rows io (row_key s tab (0 + k))), ucast (snd (rows io (row_key s tab (0 + k)))) * ?gran) (buf ! k)) [0..<length buf]
      = map (\<lambda>k. (es ! k)\<lparr>padding := padding (buf ! k)\<rparr>) [0..<length buf]"
      by (rule map_cong [OF refl], rule elem) (simp add: buf)
    show "map (\<lambda>k. (es ! k)\<lparr>padding := padding (buf ! k)\<rparr>) [0..<length buf]
      = map (\<lambda>(e, b). e\<lparr>padding := padding b\<rparr>) (zip es buf)"
      by (rule nth_equalityI) (simp_all add: buf)
  qed
  with gt_read_rows_mem [OF m tab(1) l, of None 0 io] show ?thesis by auto
qed

lemma export_import:
  assumes "gt_storable gran es" "length buf = length es"
  shows "edgx_psfp_gt_export_gcl (map (\<lambda>(e, b). e\<lparr>padding := padding b\<rparr>) (zip (edgx_psfp_gt_import_gcl es) buf))
           = map (\<lambda>(e, b). e\<lparr>padding := padding (set_ipv (entry_ipv e) b)\<rparr>) (zip es buf)"
proof (rule nth_equalityI)
  fix k assume "k < length (edgx_psfp_gt_export_gcl (map (\<lambda>(e, b). e\<lparr>padding := padding b\<rparr>) (zip (edgx_psfp_gt_import_gcl es) buf)))"
  then have k: "k < length es" using assms(2) by (simp add: edgx_psfp_gt_export_gcl_def edgx_psfp_gt_import_gcl_def)
  define e where "e = es ! k"
  have "e \<in> set es" using k by (simp add: e_def)
  with assms(1) have "gate_states e = 0 \<or> gate_states e = 1" "entry_ipv e = - 1 \<or> entry_ipv e < 8"
    by (auto simp: gt_storable_def)
  note g = gate_byte [OF this, unfolded Let_def, THEN conjunct1] gate_byte [OF this, unfolded Let_def, THEN conjunct2]
  have "edgx_psfp_gt_export_gcl (map (\<lambda>(e, b). e\<lparr>padding := padding b\<rparr>) (zip (edgx_psfp_gt_import_gcl es) buf)) ! k
      = (let gs = edgx_psfp_gt_make_states (gate_states e \<noteq> 0) (sint (entry_ipv e) \<ge> 0) (entry_ipv e)
         in (set_ipv (if gs AND 2 \<noteq> 0 then drop_bit 2 gs AND 7 else - 1) (e\<lparr>padding := padding (buf ! k)\<rparr>))\<lparr>gate_states := gs AND 1\<rparr>)"
    using k assms(2) by (simp add: edgx_psfp_gt_export_gcl_def edgx_psfp_gt_import_gcl_def Let_def set_ipv_def flip: e_def)
  also have "\<dots> = e\<lparr>padding := padding (set_ipv (entry_ipv e) (buf ! k))\<rparr>"
    unfolding Let_def g by (simp add: set_ipv_def)
  finally show "edgx_psfp_gt_export_gcl (map (\<lambda>(e, b). e\<lparr>padding := padding b\<rparr>) (zip (edgx_psfp_gt_import_gcl es) buf)) ! k
           = map (\<lambda>(e, b). e\<lparr>padding := padding (set_ipv (entry_ipv e) b)\<rparr>) (zip es buf) ! k"
    using k assms(2) by (simp add: e_def)
qed (use assms(2) in \<open>simp add: edgx_psfp_gt_export_gcl_def edgx_psfp_gt_import_gcl_def\<close>)

text \<open>
  Property C27. A control list that a user writes for a gate survives the hardware: preparing the
  scheduler's list made from it succeeds, and once the hardware has switched to the table that was
  free, the operational list read back has the intervals, gates and internal priorities that were
  written.
\<close>

theorem gate_list_roundtrip:
  assumes m: "row_memory dev (com_iobase (sys_com y)) rows" and g: "hw_granularity_ns (limits (sys_com y)) \<noteq> 0"
    and st: "gt_storable (unat (hw_granularity_ns (limits (sys_com y)))) es"
    and free: "0 \<le> edgx_sched_get_free_tab (sys_io y) (sys_sd y)"
    and tab: "tab = nat (edgx_sched_get_free_tab (sys_io y) (sys_sd y))" "tab < length (op_tabs (sys_sd y))"
      "unat (list_len (op_tabs (sys_sd y) ! tab)) = length es"
    and buf: "length buf = length es"
  shows "\<exists>y1. edgx_psfp_gt_prepare_config dev y (edgx_psfp_gt_import_gcl es) (length es) = Some (0, y1)
     \<and> (\<forall>io. rows io = rows (sys_io y1) \<and> edgx_sched_get_used_tab io (sys_sd y1) = int tab \<longrightarrow>
          (\<exists>es' y2. edgx_psfp_gt_get_oper_ctrl_list dev 0 buf (y1\<lparr>sys_io := io\<rparr>) = Some (Inr es', y2)
             \<and> edgx_psfp_gt_export_gcl es' = map (\<lambda>(e, b). e\<lparr>padding := padding (set_ipv (entry_ipv e) b)\<rparr>) (zip es buf)))"
proof -
  let ?c = "sys_com y" and ?s = "sys_sd y" and ?is = "edgx_psfp_gt_import_gcl es"
  have len: "length ?is = length es" "0 < length es" using st by (simp_all add: edgx_psfp_gt_import_gcl_def gt_storable_def)
  have st': "storable demo_st (unat (hw_granularity_ns (limits ?c))) ?is"
    by (rule import_storable [OF st]) (simp add: demo_st_def)
  obtain io1 where w: "write_seq dev ?c ?s tab (gate_rows ?is) (sys_io y) = Some (0, io1)"
    and mem: "rows io1 = fold (store_row ?s tab (hw_granularity_ns (limits ?c))) (gate_rows ?is) (rows (sys_io y))"
    using write_seq_mem [OF m g] by blast
  have p: "edgx_psfp_gt_prepare_config dev y ?is (length es) = Some (0, y\<lparr>sys_io := io1\<rparr>)"
    using gt_prepare_writes_rows [OF free, of ?is dev io1] w len by (simp add: tab(1))
  have "\<exists>es' y2. edgx_psfp_gt_get_oper_ctrl_list dev 0 buf ((y\<lparr>sys_io := io1\<rparr>)\<lparr>sys_io := io\<rparr>) = Some (Inr es', y2)
      \<and> edgx_psfp_gt_export_gcl es' = map (\<lambda>(e, b). e\<lparr>padding := padding (set_ipv (entry_ipv e) b)\<rparr>) (zip es buf)"
    if io: "rows io = rows io1" "edgx_sched_get_used_tab io ?s = int tab" for io
  proof -
    have l: "unat (list_len (op_tabs ?s ! tab)) = length ?is" "length buf = length ?is" using tab(3) buf len by simp_all
    from gt_read_gate_rows [OF m g st' tab(2) l(1) trans [OF io(1) mem] l(2)] obtain io' where
      "gt_read_rows dev ?c ?s tab buf 0 None 0 io = Some (map (\<lambda>(e, b). e\<lparr>padding := padding b\<rparr>) (zip ?is buf), io')" by blast
    with io(2) show ?thesis
      by (simp add: edgx_psfp_gt_get_oper_ctrl_list_def Let_def export_import [OF st buf])
  qed
  with p show ?thesis by auto
qed

definition demo_gate_row :: "u8 \<Rightarrow> u16 \<Rightarrow> tab_entry" where
  "demo_gate_row g ipv = \<lparr>time_interval = 640, operation_name = 0, gate_states = g, padding = ipv\<rparr>"

theorem gate_list_roundtrip_witness:
  "\<exists>y1. edgx_psfp_gt_prepare_config RowMemory.demo_dev demo_gt_sys
            (edgx_psfp_gt_import_gcl [demo_gate_row 1 5, demo_gate_row 0 0xff]) 2 = Some (0, y1)
     \<and> (\<forall>io. demo_rows io = demo_rows (sys_io y1) \<and> edgx_sched_get_used_tab io (sys_sd y1) = 0 \<longrightarrow>
          (\<exists>es' y2. edgx_psfp_gt_get_oper_ctrl_list RowMemory.demo_dev 0 [demo_row 9 9, demo_row 9 9] (y1\<lparr>sys_io := io\<rparr>)
              = Some (Inr es', y2)
             \<and> edgx_psfp_gt_export_gcl es' = [demo_gate_row 1 5, demo_gate_row 0 0xff]))"
proof -
  have c: "sys_com demo_gt_sys = demo_com" by (simp add: demo_gt_sys_def)
  have m: "row_memory RowMemory.demo_dev (com_iobase (sys_com demo_gt_sys)) demo_rows"
    by (simp add: c demo_com_def demo_row_memory)
  have g: "hw_granularity_ns (limits (sys_com demo_gt_sys)) \<noteq> 0" by (simp add: c demo_com_def)
  have st: "gt_storable (unat (hw_granularity_ns (limits (sys_com demo_gt_sys)))) [demo_gate_row 1 5, demo_gate_row 0 0xff]"
    by (simp add: gt_storable_def c demo_com_def demo_gate_row_def entry_ipv_def end_ns_def word_less_nat_alt)
  have f: "edgx_sched_get_free_tab (sys_io demo_gt_sys) (sys_sd demo_gt_sys) = 0"
    by (simp add: demo_gt_sys_def edgx_sched_get_free_tab_def demo_simps edgx_rd16_def)
  have t: "unat (list_len (op_tabs (sys_sd demo_gt_sys) ! 0)) = length [demo_gate_row 1 5, demo_gate_row 0 0xff]"
    "0 < length (op_tabs (sys_sd demo_gt_sys))"
    by (simp_all add: demo_gt_sys_def)
  have pad: "(demo_gate_row a b)\<lparr>padding := padding (set_ipv (entry_ipv (demo_gate_row a b)) (demo_row 9 9))\<rparr> = demo_gate_row a b"
    if "b = 5 \<or> b = 0xff" for a b
    using that by (auto simp: demo_gate_row_def set_ipv_def entry_ipv_def demo_row_def)
  show ?thesis
    using gate_list_roundtrip [OF m g st, of 0 "[demo_row 9 9, demo_row 9 9]"] f t
    by (simp add: pad numeral_2_eq_2)
qed

section \<open>All gates\<close>

text \<open>
  Every gate has a scheduler, and every scheduler is consistent. A step is a write to a file of a
  gate, a read that moves rows of the hardware, the interrupt or the delayed work of a scheduler,
  or a change of the hardware.
\<close>

definition gates_wf :: "psfp_gates \<Rightarrow> bool" where
  "gates_wf G \<longleftrightarrow> length (pg_gts G) = max_gate_cnt (pg_limits G) \<and> (\<forall>y \<in> set (pg_gts G). sched_wf y)"

text \<open>The expiry of the delay of a gate's configuration and its handler.\<close>

definition delay_expired :: "gt_sys \<Rightarrow> (int \<times> gt_sys) option" where
  "delay_expired y = (if hnd_delayed (sys_sd y) = None then None
     else Some (0, y\<lparr>sys_sd := (sys_sd y)\<lparr>hnd_delayed := None\<rparr>, sys_running := True\<rparr>))"

definition delayed_work :: "device \<Rightarrow> timespec64 \<Rightarrow> gt_sys \<Rightarrow> (int \<times> gt_sys) option" where
  "delayed_work dev cur y = (if \<not> sys_running y then None
     else map_option (\<lambda>y. (0, y\<lparr>sys_running := False\<rparr>)) (edgx_sched_stm_pending_delayed (edgx_psfp_gt_ops dev) cur y))"

definition table_irq :: "device \<Rightarrow> gt_sys \<Rightarrow> (int \<times> gt_sys) option" where
  "table_irq dev y = map_option (Pair 0) (edgx_sched_stm_cct_handler (edgx_psfp_gt_ops dev) y)"

inductive gates_step :: "device \<Rightarrow> psfp_gates \<Rightarrow> psfp_gates \<Rightarrow> bool" for dev where
  enabled: "gt_gate_enabled_write dev cur v ofs count G = Some (r, G') \<Longrightarrow> gates_step dev G G'"
| states: "gt_admin_gate_states_write v ofs count G = Some (r, G') \<Longrightarrow> gates_step dev G G'"
| ipv: "gt_admin_ipv_write v ofs count G = Some (r, G') \<Longrightarrow> gates_step dev G G'"
| list_len: "gt_admin_ctrl_list_len_write n ofs count G = Some (r, G') \<Longrightarrow> gates_step dev G G'"
| cycle_time: "gt_admin_cycle_time_write ct ofs count G = Some (r, G') \<Longrightarrow> gates_step dev G G'"
| base_time: "gt_admin_base_time_write bt ofs count G = Some (r, G') \<Longrightarrow> gates_step dev G G'"
| config_change: "gt_config_change_write dev cur v ofs count G = Some (r, G') \<Longrightarrow> gates_step dev G G'"
| ctrl_list: "gt_admin_ctrl_list_write ok es ofs count G = Some (r, G') \<Longrightarrow> gates_step dev G G'"
| oper_list: "gt_oper_ctrl_list_read dev buf ofs count G = Some (r, es, G') \<Longrightarrow> gates_step dev G G'"
| closed_ena: "gt_closed_inv_rx_ena_write v dev ofs count G = Some (r, G') \<Longrightarrow> gates_step dev G G'"
| closed: "gt_closed_inv_rx_write v dev ofs count G = Some (r, G') \<Longrightarrow> gates_step dev G G'"
| closed_read: "gt_closed_inv_read sel dev ofs count G = Some (r, b, G') \<Longrightarrow> gates_step dev G G'"
| interrupt: "on_gate i (table_irq dev) G = Some (r, G') \<Longrightarrow> gates_step dev G G'"
| delay: "on_gate i delay_expired G = Some (r, G') \<Longrightarrow> gates_step dev G G'"
| work: "on_gate i (delayed_work dev cur) G = Some (r, G') \<Longrightarrow> gates_step dev G G'"
| hardware: "gates_step dev G (G\<lparr>pg_io := io\<rparr>)"

inductive gates_reachable :: "device \<Rightarrow> psfp_gates \<Rightarrow> bool" for dev where
  init: "edgx_psfp_gt_init dev base lim cl (Inr com) outcomes io = Some (Inr G, io') \<Longrightarrow>
           length outcomes \<ge> max_gate_cnt lim \<Longrightarrow> gates_reachable dev G"
| step: "gates_reachable dev G \<Longrightarrow> gates_step dev G G' \<Longrightarrow> gates_reachable dev G'"

lemma case_sum_state:
  "(case r of Inl x \<Rightarrow> (f x, g x, S) | Inr z \<Rightarrow> (h z, k z, S)) = (a, b, S')
     \<longleftrightarrow> S = S' \<and> (case r of Inl x \<Rightarrow> (f x, g x) | Inr z \<Rightarrow> (h z, k z)) = (a, b)"
  by (cases r) auto

lemma case_sum_Inr: "(case r of Inl x \<Rightarrow> Inl x | Inr z \<Rightarrow> Inr (f z)) = Inr v \<longleftrightarrow> (\<exists>z. r = Inr z \<and> v = f z)"
  by (cases r) auto

definition keeps_wf :: "(gt_sys \<Rightarrow> ('r \<times> gt_sys) option) \<Rightarrow> bool" where
  "keeps_wf f \<longleftrightarrow> (\<forall>y r y'. f y = Some (r, y') \<longrightarrow> sched_wf y \<longrightarrow> sched_wf y')"

lemma sched_wf_io [simp]: "sched_wf (y\<lparr>sys_io := io\<rparr>) = sched_wf y"
  by (simp add: sched_wf_def)

lemma gates_wf_io [simp]: "gates_wf (G\<lparr>pg_io := io\<rparr>) = gates_wf G"
  by (simp add: gates_wf_def)

lemma on_gate_wf:
  assumes "keeps_wf f" "on_gate i f G = Some (r, G')" "gates_wf G"
  shows "gates_wf G' \<and> (\<forall>j. j \<noteq> i \<longrightarrow> pg_gts G' ! j = pg_gts G ! j)"
proof -
  from assms(2) obtain y y' where "i < length (pg_gts G)" "y = pg_gts G ! i" "f (y\<lparr>sys_io := pg_io G\<rparr>) = Some (r, y')"
    and G': "G' = G\<lparr>pg_gts := (pg_gts G)[i := y'], pg_io := sys_io y'\<rparr>"
    by (auto simp: on_gate_def bind_eq_Some nth_opt_def split: if_splits)
  with assms have "sched_wf y'" unfolding keeps_wf_def gates_wf_def by (metis nth_mem sched_wf_io)
  then show ?thesis using assms(3) unfolding G' gates_wf_def by (auto dest: set_update_subset_insert [THEN subsetD])
qed

lemma gate_write_wf: "keeps_wf f \<Longrightarrow> gate_write sz f ofs count G = Some (r, G') \<Longrightarrow> gates_wf G \<Longrightarrow> gates_wf G'"
  using on_gate_wf [of f _ G _ G']
  by (auto simp: gate_write_def bind_eq_Some split: option.split_asm if_split_asm)

lemma on_gate_limits: "on_gate i f G = Some (r, G') \<Longrightarrow> pg_limits G' = pg_limits G"
  by (auto simp: on_gate_def bind_eq_Some)

lemma gate_write_limits: "gate_write sz f ofs count G = Some (r, G') \<Longrightarrow> pg_limits G' = pg_limits G"
  using on_gate_limits [of _ f G _ G']
  by (auto simp: gate_write_def bind_eq_Some split: option.split_asm if_split_asm)

lemma keeps_wf_step: "\<forall>y r y'. f y = Some (r, y') \<longrightarrow> sched_step (edgx_psfp_gt_ops dev) y y' \<Longrightarrow> keeps_wf f"
  unfolding keeps_wf_def using gt_client.step_wf by blast

lemma gate_files_keep_wf:
  "keeps_wf (edgx_sched_set_gate_enabled (edgx_psfp_gt_ops dev) cur b)"
  "keeps_wf (\<lambda>y. Some (edgx_sched_set_admin_gate_states g m y))"
  "keeps_wf (\<lambda>y. Some (edgx_sched_set_ctrl_list_len n y))"
  "keeps_wf (edgx_sched_set_cycle_time ct)"
  "keeps_wf (\<lambda>y. Some (edgx_sched_set_base_time bt y))"
  "keeps_wf (edgx_sched_set_config_change (edgx_psfp_gt_ops dev) cur b)"
  "keeps_wf (edgx_sched_set_entries ok first es)"
  "keeps_wf (table_irq dev)" "keeps_wf delay_expired" "keeps_wf (delayed_work dev cur)"
  by (rule keeps_wf_step [where dev = dev]; auto simp: table_irq_def delay_expired_def delayed_work_def
      split: if_splits intro: sched_step.intros)+

lemma oper_list_keeps_wf: "keeps_wf (edgx_psfp_gt_get_oper_ctrl_list dev first buf)"
  by (auto simp: keeps_wf_def edgx_psfp_gt_get_oper_ctrl_list_def Let_def bind_eq_Some split: if_split_asm sum.split_asm)

lemma gates_step_wf: "gates_step dev G G' \<Longrightarrow> gates_wf G \<Longrightarrow> gates_wf G'"
proof (induction rule: gates_step.induct)
  case (oper_list buf ofs count G r es G')
  then show ?case
    by (auto simp: gt_oper_ctrl_list_read_def bind_eq_Some case_sum_state split: option.split_asm
        dest!: on_gate_wf [OF oper_list_keeps_wf])
next
  case (ctrl_list ok es ofs count G r G')
  then show ?case
    by (auto simp: gt_admin_ctrl_list_write_def bind_eq_Some split: option.splits if_splits
        dest!: on_gate_wf [OF gate_files_keep_wf(7)])
qed (auto simp: gt_gate_enabled_write_def gt_admin_gate_states_write_def gt_admin_ipv_write_def gt_admin_ctrl_list_len_write_def
    gt_admin_cycle_time_write_def gt_admin_base_time_write_def gt_config_change_write_def
    gt_closed_inv_rx_ena_write_def gt_closed_inv_rx_write_def gt_closed_inv_write_def gt_closed_inv_read_def
    bind_eq_Some split: option.splits
    dest!: gate_write_wf [OF gate_files_keep_wf(1)] gate_write_wf [OF gate_files_keep_wf(2)]
    gate_write_wf [OF gate_files_keep_wf(3)] gate_write_wf [OF gate_files_keep_wf(4)] gate_write_wf [OF gate_files_keep_wf(5)]
    gate_write_wf [OF gate_files_keep_wf(6)] on_gate_wf [OF gate_files_keep_wf(8)] on_gate_wf [OF gate_files_keep_wf(9)]
    on_gate_wf [OF gate_files_keep_wf(10)])

lemma gt_probe_wf:
  "gt_probe_from dev base com cl os gts io = Some (Inr gts', io') \<Longrightarrow> \<forall>y \<in> set gts. sched_wf y \<Longrightarrow>
     length gts' = length gts + length os \<and> (\<forall>y \<in> set gts'. sched_wf y)"
proof (induction os arbitrary: gts io)
  case (Cons os1 os)
  obtain t a where os1: "os1 = (t, a)" by (cases os1)
  from Cons.prems(1) obtain s io1 where p: "edgx_probe_sched t a com (length gts) io = (Inr s, io1)"
    unfolding os1 by (cases "edgx_probe_sched t a com (length gts) io") (auto simp: Let_def split: sum.split_asm if_split_asm)
  have "t" "a" using p by (auto simp: edgx_probe_sched_def Let_def split: if_split_asm)
  with p have "sched_probed com (length gts) io cl
      \<lparr>sys_com = com, sys_sd = s, sys_running = False, sys_io = io1, sys_client = cl\<rparr>" by (simp add: sched_probed_def)
  note probed_wf [OF this]
  then have wf: "sched_wf \<lparr>sys_com = com, sys_sd = s, sys_running = False, sys_io = io2, sys_client = cl\<rparr>" for io2
    by (simp add: sched_wf_def)
  from Cons.prems(1) p obtain io2 where "gt_probe_from dev base com cl os
      (gts @ [\<lparr>sys_com = com, sys_sd = s, sys_running = False, sys_io = io2, sys_client = cl\<rparr>]) io2 = Some (Inr gts', io')"
    unfolding os1 by (auto simp: Let_def bind_eq_Some)
  from Cons.IH [OF this] Cons.prems(2) wf show ?case by simp
qed simp

text \<open>
  In every state that the gates can reach - by writes to any of their files, reads of the operational
  lists and of the gate table, the interrupts and the delayed work of their schedulers, and arbitrary
  changes of the hardware - there is one scheduler for each gate, and each of them keeps the invariant
  of a scheduler.
\<close>

lemma reachable_gates_wf: "gates_reachable dev G \<Longrightarrow> gates_wf G"
proof (induction rule: gates_reachable.induct)
  case (init base lim cl com outcomes io G io')
  then obtain gts com1 io1 io2 where
    "gt_probe_from dev base com1 cl (take (max_gate_cnt lim) outcomes) [] io1 = Some (Inr gts, io2)"
    and "G = \<lparr>pg_iobase = base, pg_limits = lim\<lparr>max_gcl_len := unat (max_entry_cnt (limits com1))\<rparr>, pg_gts = gts, pg_io = io2\<rparr>"
    by (auto simp: edgx_psfp_gt_init_def bind_eq_Some case_sum_Inr split: prod.split_asm)
  with gt_probe_wf [of dev base com1 cl _ "[]" io1 gts io2] init(2) show ?case by (simp add: gates_wf_def)
next
  case (step G G')
  then show ?case by (blast intro: gates_step_wf)
qed

definition sgate_dev :: device where
  "sgate_dev io = io(0x550 := 0)"

definition demo_gates_init :: "((int + psfp_gates) \<times> iomem) option" where
  "demo_gates_init = edgx_psfp_gt_init sgate_dev 0
     \<lparr>max_str_cnt = 1, max_flt_cnt = 1, max_gate_cnt = 1, max_fmtr_cnt = 0, res_fmtr_cnt = 0, max_gcl_len = 0\<rparr>
     demo_gt (Inr demo_com) [(True, True)] (\<lambda>_. 0)"

lemma sgate_write_returns: "\<exists>io'. edgx_psfp_gt_write_sgate_hw sgate_dev 0 i e io = Some io'"
proof -
  have "\<not> sgate_busy 0 (sgate_dev io')" for io'
    by (simp add: sgate_busy_def sgate_dev_def edgx_get16_def edgx_rd16_def)
  then show ?thesis by (simp add: edgx_psfp_gt_write_sgate_hw_def Let_def wait_clear_ready)
qed

end
