(* ===== verification/PsfpGateFiles.thy ===== *)
theory PsfpGateFiles
  imports PsfpGateProps
begin

text \<open>
  The files of the stream gates: a write selects a gate by the offset, changes what the file stands
  for at this gate, and nothing else.
\<close>

unbundle bit_operations_syntax

section \<open>What a file stands for\<close>

datatype gate_req =
  Set_Enabled u8 | Set_States u8 | Set_Ipv u8 | Set_List_Len u32 | Set_Cycle_Time sched_rational
| Set_Base_Time timespec64 | Set_Config_Change u8

fun gate_file :: "device \<Rightarrow> timespec64 \<Rightarrow> gate_req \<Rightarrow> int \<Rightarrow> int \<Rightarrow> psfp_gates \<Rightarrow> (int \<times> psfp_gates) option" where
  "gate_file dev cur (Set_Enabled v) = gt_gate_enabled_write dev cur v"
| "gate_file dev cur (Set_States v) = gt_admin_gate_states_write v"
| "gate_file dev cur (Set_Ipv v) = gt_admin_ipv_write v"
| "gate_file dev cur (Set_List_Len n) = gt_admin_ctrl_list_len_write n"
| "gate_file dev cur (Set_Cycle_Time ct) = gt_admin_cycle_time_write ct"
| "gate_file dev cur (Set_Base_Time bt) = gt_admin_base_time_write bt"
| "gate_file dev cur (Set_Config_Change v) = gt_config_change_write dev cur v"

fun elem_size :: "gate_req \<Rightarrow> int" where
  "elem_size (Set_List_Len n) = 4"
| "elem_size (Set_Cycle_Time ct) = 8"
| "elem_size (Set_Base_Time bt) = 16"
| "elem_size _ = 1"

text \<open>
  The gate states: bit 0 opens the gate, bit 1 says that there is an internal priority, which is in
  bits 2 to 4; the value -1 stands for none.
\<close>

fun states_bit :: "gate_req \<Rightarrow> u8 \<Rightarrow> nat \<Rightarrow> bool" where
  "states_bit (Set_States v) gs n = (if n = 0 then v \<noteq> 0 else bit gs n)"
| "states_bit (Set_Ipv v) gs n =
     (if n = 1 then v \<noteq> - 1 else if n \<in> {2, 3, 4} then v \<noteq> - 1 \<and> bit v (n - 2) else bit gs n)"
| "states_bit _ gs n = bit gs n"

definition new_states :: "gate_req \<Rightarrow> gt_sys \<Rightarrow> gt_sys \<Rightarrow> bool" where
  "new_states req y y' \<longleftrightarrow> (\<exists>g. (\<forall>n < 8. bit g n = states_bit req (tab_gate_states (admin_tab (sys_sd y))) n)
     \<and> y' = y\<lparr>sys_sd := (sys_sd y)\<lparr>admin_tab := (admin_tab (sys_sd y))\<lparr>tab_gate_states := g\<rparr>\<rparr>\<rparr>)"

fun gate_effect :: "device \<Rightarrow> timespec64 \<Rightarrow> gate_req \<Rightarrow> gt_sys \<Rightarrow> int \<Rightarrow> gt_sys \<Rightarrow> bool" where
  "gate_effect dev cur (Set_Enabled v) y r y' = (edgx_sched_set_gate_enabled (edgx_psfp_gt_ops dev) cur (v \<noteq> 0) y = Some (r, y'))"
| "gate_effect dev cur (Set_Config_Change v) y r y' =
     (edgx_sched_set_config_change (edgx_psfp_gt_ops dev) cur (v \<noteq> 0) y = Some (r, y'))"
| "gate_effect dev cur (Set_List_Len n) y r y' = (edgx_sched_set_ctrl_list_len n y = (r, y'))"
| "gate_effect dev cur (Set_Cycle_Time ct) y r y' = (edgx_sched_set_cycle_time ct y = Some (r, y'))"
| "gate_effect dev cur (Set_Base_Time bt) y r y' = (edgx_sched_set_base_time bt y = (r, y'))"
| "gate_effect dev cur req y r y' = (r = 0 \<and> new_states req y y')"

section \<open>A write to a file\<close>

lemma gate_write_cases:
  assumes "gate_write sz f ofs count G = Some (r, G')" "0 \<le> ofs" "0 < sz" "length (pg_gts G) = max_gate_cnt (pg_limits G)"
  obtains (bad) "\<not> (count = sz \<and> ofs mod sz = 0 \<and> nat (ofs div sz) < max_gate_cnt (pg_limits G))" "r = - EINVAL" "G' = G"
  | (gate) ret y' where "count = sz" "ofs mod sz = 0" "nat (ofs div sz) < max_gate_cnt (pg_limits G)"
    "f ((pg_gts G ! nat (ofs div sz))\<lparr>sys_io := pg_io G\<rparr>) = Some (ret, y')" "r = (if ret \<noteq> 0 then ret else count)"
    "G' = G\<lparr>pg_gts := (pg_gts G)[nat (ofs div sz) := y'], pg_io := sys_io y'\<rparr>"
proof (cases "count = sz \<and> ofs mod sz = 0 \<and> nat (ofs div sz) < max_gate_cnt (pg_limits G)")
  case True
  then have "edgx_dev2psfp_gate G ofs count sz = Some (Some (nat (ofs div sz)))"
    using assms(2,3) by (auto simp: edgx_dev2psfp_gate_def edgx_sysfs_tbl_params_def nat_less_iff pos_imp_zdiv_nonneg_iff)
  with assms(1,4) True obtain ret y' where "f ((pg_gts G ! nat (ofs div sz))\<lparr>sys_io := pg_io G\<rparr>) = Some (ret, y')"
    "r = (if ret \<noteq> 0 then ret else count)" "G' = G\<lparr>pg_gts := (pg_gts G)[nat (ofs div sz) := y'], pg_io := sys_io y'\<rparr>"
    by (auto simp: gate_write_def on_gate_def bind_eq_Some nth_opt_def)
  then show thesis using True by (intro gate) simp_all
next
  case False
  then have "edgx_dev2psfp_gate G ofs count sz = Some None"
    using assms(2,3) by (auto simp: edgx_dev2psfp_gate_def edgx_sysfs_tbl_params_def nat_less_iff pos_imp_zdiv_nonneg_iff)
  with assms(1) False show thesis by (intro bad) (auto simp: gate_write_def)
qed

lemma less_8: "n < (8 :: nat) \<longleftrightarrow> n = 0 \<or> n = 1 \<or> n = 2 \<or> n = 3 \<or> n = 4 \<or> n = 5 \<or> n = 6 \<or> n = 7"
  by auto

lemma states_bits:
  "n < 8 \<Longrightarrow> bit ((gs AND NOT 1) OR ((if v \<noteq> 0 then 1 else 0) AND 1) :: u8) n = states_bit (Set_States v) gs n"
  by (auto simp: less_8 bit_or_iff bit_and_iff bit_not_iff bit_1_iff)

lemma ipv_bits:
  "n < 8 \<Longrightarrow> bit ((gs AND NOT 0x1e) OR ((if v \<noteq> - 1 then 2 OR push_bit 2 (v AND 7) else 0) AND 0x1e) :: u8) n
     = states_bit (Set_Ipv v) gs n"
  by (auto simp: less_8 bit_or_iff bit_and_iff bit_not_iff bit_push_bit_iff bit_numeral_simps)

lemma states_new_states:
  "edgx_sched_set_admin_gate_states (if v \<noteq> 0 then 1 else 0) 1 y = (r, y') \<Longrightarrow> r = 0 \<and> new_states (Set_States v) y y'"
  unfolding edgx_sched_set_admin_gate_states_def new_states_def prod.inject
  using states_bits [of _ "tab_gate_states (admin_tab (sys_sd y))" v] by blast

lemma ipv_new_states:
  "edgx_sched_set_admin_gate_states (if v \<noteq> - 1 then 2 OR push_bit 2 (v AND 7) else 0) 0x1e y = (r, y') \<Longrightarrow>
     r = 0 \<and> new_states (Set_Ipv v) y y'"
  unfolding edgx_sched_set_admin_gate_states_def new_states_def prod.inject
  using ipv_bits [of _ "tab_gate_states (admin_tab (sys_sd y))" v] by blast

lemma gate_file_write:
  obtains f where "gate_file dev cur req ofs count G = gate_write (elem_size req) f ofs count G" "keeps_wf f"
    "\<And>y r y'. f y = Some (r, y') \<Longrightarrow> gate_effect dev cur req y r y'"
proof (cases req)
  case (Set_Enabled v)
  show thesis
    by (rule that [OF _ gate_files_keep_wf(1)]) (simp_all add: Set_Enabled gt_gate_enabled_write_def)
next
  case (Set_States v)
  show thesis
    by (rule that [OF _ gate_files_keep_wf(2) [of "if v \<noteq> 0 then 1 else 0" 1]])
      (simp_all only: Set_States gt_admin_gate_states_write_def gate_file.simps elem_size.simps gate_effect.simps
        option.inject states_new_states simp_thms)
next
  case (Set_Ipv v)
  show thesis
    by (rule that [OF _ gate_files_keep_wf(2) [of "if v \<noteq> - 1 then 2 OR push_bit 2 (v AND 7) else 0" "0x1e"]])
      (simp_all only: Set_Ipv gt_admin_ipv_write_def gate_file.simps elem_size.simps gate_effect.simps
        option.inject ipv_new_states simp_thms)
next
  case (Set_List_Len n)
  show thesis
    by (rule that [OF _ gate_files_keep_wf(3)]) (simp_all add: Set_List_Len gt_admin_ctrl_list_len_write_def)
next
  case (Set_Cycle_Time ct)
  show thesis
    by (rule that [OF _ gate_files_keep_wf(4)]) (simp_all add: Set_Cycle_Time gt_admin_cycle_time_write_def)
next
  case (Set_Base_Time bt)
  show thesis
    by (rule that [OF _ gate_files_keep_wf(5)]) (simp_all add: Set_Base_Time gt_admin_base_time_write_def)
next
  case (Set_Config_Change v)
  show thesis
    by (rule that [OF _ gate_files_keep_wf(6)]) (simp_all add: Set_Config_Change gt_config_change_write_def)
qed

text \<open>
  Property C25. In every state that the gates can reach, a write to one of the seven files that set up
  the schedule of a gate (enabled, gate states, internal priority, length of the list, cycle time, base
  time, configuration change) acts on one gate, and exactly as the file stands for. A size that is not the size of an element, an offset that
  is not a multiple of it, or the number of a gate that does not exist is answered with -EINVAL and
  changes nothing. Otherwise the scheduler of the gate at that offset, and of no other gate, makes the
  step of the request, its errno or the size is the result, and the step's changes of the hardware are
  the only ones. The gate states and the internal priority change exactly their bits of the
  administrative gate states. Every scheduler still keeps its invariant.
\<close>

theorem gate_files_act_on_their_gate:
  assumes "gates_reachable dev G" "0 \<le> ofs" "gate_file dev cur req ofs count G = Some (r, G')"
    and i: "i = nat (ofs div elem_size req)"
  shows "if count = elem_size req \<and> ofs mod elem_size req = 0 \<and> i < max_gate_cnt (pg_limits G)
     then (\<exists>ret y'. gate_effect dev cur req ((pg_gts G ! i)\<lparr>sys_io := pg_io G\<rparr>) ret y'
             \<and> r = (if ret \<noteq> 0 then ret else count) \<and> pg_gts G' ! i = y' \<and> pg_io G' = sys_io y')
          \<and> (\<forall>j. j \<noteq> i \<longrightarrow> pg_gts G' ! j = pg_gts G ! j) \<and> length (pg_gts G') = length (pg_gts G)
          \<and> pg_limits G' = pg_limits G \<and> (\<forall>y \<in> set (pg_gts G'). sched_wf y)
     else r = - EINVAL \<and> G' = G"
proof -
  note wf = reachable_gates_wf [OF assms(1)]
  obtain f where f: "gate_file dev cur req ofs count G = gate_write (elem_size req) f ofs count G" "keeps_wf f"
    "\<And>y r y'. f y = Some (r, y') \<Longrightarrow> gate_effect dev cur req y r y'" by (rule gate_file_write [of dev cur req ofs count G]) blast
  have sz: "0 < elem_size req" by (cases req) simp_all
  have len: "length (pg_gts G) = max_gate_cnt (pg_limits G)" using wf by (simp add: gates_wf_def)
  note w = assms(3) [unfolded f(1)]
  from w assms(2) sz len show ?thesis
  proof (cases rule: gate_write_cases)
    case bad
    show ?thesis unfolding i if_not_P [OF bad(1)] using bad(2,3) by simp
  next
    case (gate ret y')
    have "\<forall>y \<in> set (pg_gts G'). sched_wf y" using gate_write_wf [OF f(2) w wf] by (simp add: gates_wf_def)
    moreover have c: "count = elem_size req \<and> ofs mod elem_size req = 0 \<and> nat (ofs div elem_size req) < max_gate_cnt (pg_limits G)"
      using gate(1-3) by blast
    ultimately show ?thesis unfolding i if_P [OF c] using gate(3,5,6) f(3) [OF gate(4)] len by auto
  qed
qed

text \<open>One gate; the internal priority 5 gives the gate states 0x16 beside the gate's own bit.\<close>

theorem gate_files_act_on_their_gate_witness:
  "\<exists>G io' G' G''. demo_gates_init = Some (Inr G, io') \<and> gt_admin_ipv_write 5 0 1 G = Some (1, G')
     \<and> bit (tab_gate_states (admin_tab (sys_sd (pg_gts G' ! 0)))) 4 \<and> \<not> bit (tab_gate_states (admin_tab (sys_sd (pg_gts G' ! 0)))) 3
     \<and> gt_admin_ipv_write 5 1 1 G' = Some (- EINVAL, G'') \<and> G'' = G'"
proof -
  define com where "com = fst (edgx_sched_com_set_params 0 320 demo_com (\<lambda>_. 0))"
  define io1 where "io1 = snd (edgx_sched_com_set_params 0 320 demo_com (\<lambda>_. 0))"
  obtain s io2 where p: "edgx_probe_sched True True com 0 io1 = (Inr s, io2)"
    by (cases "edgx_probe_sched True True com 0 io1")
      (auto simp: edgx_probe_sched_def edgx_sched_init_def edgx_sched_hw_init_def Let_def split: prod.splits if_splits)
  obtain io3 where w: "edgx_psfp_gt_write_sgate_hw sgate_dev 0 0 \<lparr>closed_inv_rx_ena = False, closed_inv_rx = False\<rparr> io2 = Some io3"
    using sgate_write_returns by blast
  obtain G io' where i: "demo_gates_init = Some (Inr G, io')" and G: "length (pg_gts G) = 1" "max_gate_cnt (pg_limits G) = 1"
    using w p by (auto simp: demo_gates_init_def edgx_psfp_gt_init_def com_def io1_def split_def demo_com_def
        edgx_sched_com_set_params_def)
  have r: "gates_reachable sgate_dev G"
    by (rule gates_reachable.init [OF i [unfolded demo_gates_init_def]]) simp
  have sel: "edgx_dev2psfp_gate H 0 1 1 = Some (Some 0)" "edgx_dev2psfp_gate H 1 1 1 = Some None"
    if "max_gate_cnt (pg_limits H) = 1" for H
    using that by (simp_all add: edgx_dev2psfp_gate_def edgx_sysfs_tbl_params_def do_div_def)
  obtain G' where f: "gt_admin_ipv_write 5 0 1 G = Some (1, G')"
    using G sel [OF G(2)] by (simp add: gt_admin_ipv_write_def gate_write_def on_gate_def nth_opt_def
        edgx_sched_set_admin_gate_states_def)
  have 1: "gate_file sgate_dev zero_timespec (Set_Ipv 5) 0 1 G = Some (1, G')" using f by simp
  note th = gate_files_act_on_their_gate [OF r _ 1 refl]
  have G': "max_gate_cnt (pg_limits G') = 1" using th G by simp
  have "new_states (Set_Ipv 5) ((pg_gts G ! 0)\<lparr>sys_io := pg_io G\<rparr>) (pg_gts G' ! 0)" using th G by simp
  then have "bit (tab_gate_states (admin_tab (sys_sd (pg_gts G' ! 0)))) 4" "\<not> bit (tab_gate_states (admin_tab (sys_sd (pg_gts G' ! 0)))) 3"
    by (auto simp: new_states_def bit_numeral_simps)
  moreover have "gt_admin_ipv_write 5 1 1 G' = Some (- EINVAL, G')"
    using sel [OF G'] by (simp add: gt_admin_ipv_write_def gate_write_def)
  ultimately show ?thesis using i f by blast
qed

end
