(* ===== verification/Frer.thy ===== *)
theory Frer
  imports LinkDelay
begin

text \<open>
  Frame replication and elimination (\<open>edge_frer.c\<close>): the state, the stream table of the hardware,
  the sequence generation functions and the sequence encoding of the ports. The search trees of the
  kernel are their in-order sequences. A read of memory that has just been released gives what the
  parameter \<open>stale\<close> makes of the value that was there.
\<close>

unbundle bit_operations_syntax

section \<open>State\<close>

datatype seqrec_alg = ALG_VECT | ALG_MATCH | ALG_UNKNOWN

abbreviation (input) DIR_IN_FAC :: u8 where "DIR_IN_FAC \<equiv> 0"
abbreviation (input) DIR_OUT_FAC :: u8 where "DIR_OUT_FAC \<equiv> 1"
abbreviation (input) DIR_UNKNOWN :: u8 where "DIR_UNKNOWN \<equiv> 2"
abbreviation (input) TYPE_UNKNOWN :: u8 where "TYPE_UNKNOWN \<equiv> 0"
abbreviation (input) TYPE_R_TAG :: u8 where "TYPE_R_TAG \<equiv> 1"
abbreviation (input) ENC_PASSIVE :: u8 where "ENC_PASSIVE \<equiv> 0"
abbreviation (input) ENC_ACTIVE :: u8 where "ENC_ACTIVE \<equiv> 1"
abbreviation (input) ENC_UNKNOWN :: u8 where "ENC_UNKNOWN \<equiv> 2"
abbreviation (input) ENC_UNDEFINED :: u8 where "ENC_UNDEFINED \<equiv> 3"
abbreviation (input) FRER_U16_INVALID :: u16 where "FRER_U16_INVALID \<equiv> 0xFFFF"
abbreviation (input) FRER_BOOL_INVALID :: u8 where "FRER_BOOL_INVALID \<equiv> 0xFF"

text \<open>A port's streams; a stream with the mask of its ports; the functions with their streams.\<close>

record se_port =
  se_list :: "u16 list"
  se_active :: u8

record se_stream =
  ss_strhdl :: u16
  ss_port_mask :: u16

record seqgen =
  sg_fnidx :: u16
  sg_list :: "u16 list"
  sg_dir :: u8

record seqrec =
  sr_fnidx :: u16
  sr_list :: "u16 list"
  sr_alg :: seqrec_alg
  sr_rcv_rst :: u16
  sr_ptmask :: u16
  sr_dir :: u8
  sr_hist_len :: u8
  sr_take_no_seq :: u8
  sr_ind_rec :: u8
  sr_lat_err :: u8
  seqrec_cfg_applied :: bool

record frer =
  fr_br :: edgx_br
  fr_iobase :: nat
  sg_root :: "seqgen list"
  se_root :: "se_stream list"
  sr_root :: "seqrec list"
  se_ports :: "se_port list"
  seqrec_max :: u16
  streams_max :: u16
  seqgencnt :: u16
  seqreccnt :: u16
  seqrec_rst :: "u16 list"
  fr_io :: iomem

section \<open>Trees\<close>

fun rb_search :: "('n \<Rightarrow> 'k::linorder) \<Rightarrow> 'n list \<Rightarrow> 'k \<Rightarrow> 'n option" where
  "rb_search key [] k = None"
| "rb_search key (n # ns) k =
     (if k < key n then None else if k > key n then rb_search key ns k else Some n)"

fun rb_insert :: "('n \<Rightarrow> 'k::linorder) \<Rightarrow> 'n list \<Rightarrow> 'n \<Rightarrow> int \<times> 'n list" where
  "rb_insert key [] new = (0, [new])"
| "rb_insert key (n # ns) new =
     (if key new < key n then (0, new # n # ns)
      else if key new > key n then (let (ret, ns') = rb_insert key ns new in (ret, n # ns'))
      else (- EINVAL, n # ns))"

text \<open>The node of a key changed in its place, and taken out.\<close>

definition upd_node :: "('n \<Rightarrow> 'k) \<Rightarrow> 'k \<Rightarrow> ('n \<Rightarrow> 'n) \<Rightarrow> 'n list \<Rightarrow> 'n list" where
  "upd_node key k f = map (\<lambda>n. if key n = k then f n else n)"

definition rb_erase :: "('n \<Rightarrow> 'k) \<Rightarrow> 'k \<Rightarrow> 'n list \<Rightarrow> 'n list" where
  "rb_erase key k = filter (\<lambda>n. key n \<noteq> k)"

definition seqgen_rbt_search :: "seqgen list \<Rightarrow> u16 \<Rightarrow> seqgen option" where "seqgen_rbt_search = rb_search sg_fnidx"
definition seqgen_rbt_insert_node :: "seqgen list \<Rightarrow> seqgen \<Rightarrow> int \<times> seqgen list" where "seqgen_rbt_insert_node = rb_insert sg_fnidx"
definition seqenc_rbt_search :: "se_stream list \<Rightarrow> u16 \<Rightarrow> se_stream option" where "seqenc_rbt_search = rb_search ss_strhdl"
definition seqenc_rbt_insert_node :: "se_stream list \<Rightarrow> se_stream \<Rightarrow> int \<times> se_stream list" where "seqenc_rbt_insert_node = rb_insert ss_strhdl"
definition seqrec_rbt_search :: "seqrec list \<Rightarrow> u16 \<Rightarrow> seqrec option" where "seqrec_rbt_search = rb_search sr_fnidx"
definition seqrec_rbt_insert_node :: "seqrec list \<Rightarrow> seqrec \<Rightarrow> int \<times> seqrec list" where "seqrec_rbt_insert_node = rb_insert sr_fnidx"

section \<open>Stream table\<close>

datatype frer_tbl = FRER_TBL0 | FRER_TBL1 | FRER_TBL2 | FRER_TBL3

abbreviation (input) STREAM_CMD :: nat where "STREAM_CMD \<equiv> 0x400"
abbreviation (input) SEQ_REC_CMD :: nat where "SEQ_REC_CMD \<equiv> 0x300"
abbreviation (input) SEQ_REC_TBL :: nat where "SEQ_REC_TBL \<equiv> 0x318"
abbreviation (input) SEQ_GEN_CMD :: nat where "SEQ_GEN_CMD \<equiv> 0x380"

fun strtbl_reg :: "frer_tbl \<Rightarrow> nat" where
  "strtbl_reg FRER_TBL0 = 0x410"
| "strtbl_reg FRER_TBL1 = 0x412"
| "strtbl_reg FRER_TBL2 = 0x414"
| "strtbl_reg FRER_TBL3 = 0x416"

definition fr_wr :: "nat \<Rightarrow> u16 \<Rightarrow> frer \<Rightarrow> frer" where
  "fr_wr reg v f = f\<lparr>fr_io := edgx_wr16 (fr_io f) (fr_iobase f) reg v\<rparr>"

definition fr_rd :: "nat \<Rightarrow> frer \<Rightarrow> u16" where
  "fr_rd reg f = edgx_rd16 (fr_io f) (fr_iobase f) reg"

text \<open>Polling until a bit of a command register is clear.\<close>

definition fr_wait :: "device \<Rightarrow> nat \<Rightarrow> u16 \<Rightarrow> frer \<Rightarrow> frer option" where
  "fr_wait dev reg b f =
     map_option (\<lambda>io. f\<lparr>fr_io := io\<rparr>) (wait_clear dev (\<lambda>io. edgx_rd16 io (fr_iobase f) reg AND b \<noteq> 0) (fr_io f))"

definition edgx_frer_ip_rd_strtbl :: "device \<Rightarrow> u16 \<Rightarrow> frer_tbl \<Rightarrow> frer \<Rightarrow> (u16 \<times> frer) option" where
  "edgx_frer_ip_rd_strtbl dev strhdl tbl f = do {
     f \<leftarrow> fr_wait dev STREAM_CMD 0x8000 (fr_wr STREAM_CMD (0x8000 OR strhdl) f);
     Some (fr_rd (strtbl_reg tbl) f, f)
   }"

definition edgx_frer_ip_wr_strtbl :: "device \<Rightarrow> u16 \<Rightarrow> u16 \<Rightarrow> frer_tbl \<Rightarrow> bool \<Rightarrow> frer \<Rightarrow> frer option" where
  "edgx_frer_ip_wr_strtbl dev strhdl val tbl del f = do {
     (_, f) \<leftarrow> edgx_frer_ip_rd_strtbl dev strhdl FRER_TBL0 f;
     let f = fr_wr (strtbl_reg tbl)
               (if tbl = FRER_TBL0 \<or> tbl = FRER_TBL1 then val
                else if \<not> del then val OR 0x8000 else val AND NOT 0x8000) f;
     fr_wait dev STREAM_CMD 0x8000 (fr_wr STREAM_CMD (0xC000 OR strhdl) f)
   }"

definition edgx_frer_ip_wr_seqrectbl :: "device \<Rightarrow> u16 \<Rightarrow> u16 \<Rightarrow> frer \<Rightarrow> frer option" where
  "edgx_frer_ip_wr_seqrectbl dev fnidx val f =
     fr_wait dev SEQ_REC_CMD 0x8000 (fr_wr SEQ_REC_CMD (0xC000 OR fnidx) (fr_wr SEQ_REC_TBL val f))"

definition seqgen_ip_reset :: "device \<Rightarrow> u16 \<Rightarrow> frer \<Rightarrow> frer option" where
  "seqgen_ip_reset dev fnidx f = fr_wait dev SEQ_GEN_CMD 0x2000 (fr_wr SEQ_GEN_CMD (fnidx OR 0x2000) f)"

definition edgx_frer_seqfn_enabled :: "device \<Rightarrow> u16 \<Rightarrow> frer_tbl \<Rightarrow> frer \<Rightarrow> (bool \<times> frer) option" where
  "edgx_frer_seqfn_enabled dev strhdl tbl f = do {
     (reg, f) \<leftarrow> edgx_frer_ip_rd_strtbl dev strhdl tbl f;
     Some (reg AND 0x8000 \<noteq> 0, f)
   }"

section \<open>Checks\<close>

definition edgx_frer_check_fnidx :: "u16 \<Rightarrow> frer \<Rightarrow> int" where
  "edgx_frer_check_fnidx fnidx f = (if fnidx \<ge> seqrec_max f then - EINVAL else 0)"

definition edgx_frer_check_strhdl :: "u16 \<Rightarrow> frer \<Rightarrow> int" where
  "edgx_frer_check_strhdl strhdl f = (if strhdl \<ge> streams_max f then - EINVAL else 0)"

definition edgx_frer_check_port :: "nat \<Rightarrow> frer \<Rightarrow> int" where
  "edgx_frer_check_port ptid f = (if ptid > unat (edgx_br_get_num_ports (fr_io f) (fr_br f)) then - EINVAL else 0)"

definition seqgen_check_direction :: "u8 \<Rightarrow> int" where
  "seqgen_check_direction dir = (if dir \<noteq> DIR_IN_FAC then - EINVAL else 0)"

definition seqenc_check_dir :: "u8 \<Rightarrow> int" where
  "seqenc_check_dir dir = (if dir \<noteq> DIR_OUT_FAC then - EINVAL else 0)"

definition seqenc_check_type :: "u8 \<Rightarrow> int" where
  "seqenc_check_type type = (if type \<noteq> TYPE_R_TAG then - EINVAL else 0)"

definition seqenc_check_active :: "u8 \<Rightarrow> int" where
  "seqenc_check_active active = (if active \<noteq> ENC_ACTIVE \<and> active \<noteq> ENC_PASSIVE then - EINVAL else 0)"

section \<open>Sequence generation\<close>

text \<open>The streams of a function: appended, searched, and taken out once.\<close>

definition seqgen_list_add :: "bool \<Rightarrow> u16 \<Rightarrow> seqgen \<Rightarrow> int \<times> seqgen" where
  "seqgen_list_add alloc_ok strhdl n = (if \<not> alloc_ok then (- ENOMEM, n) else (0, n\<lparr>sg_list := sg_list n @ [strhdl]\<rparr>))"

definition seqgen_list_entry_exists :: "u16 \<Rightarrow> seqgen \<Rightarrow> bool" where
  "seqgen_list_entry_exists strhdl n = (strhdl \<in> set (sg_list n))"

definition seqgen_list_rm_single :: "u16 \<Rightarrow> seqgen \<Rightarrow> int \<times> seqgen" where
  "seqgen_list_rm_single strhdl n =
     (if strhdl \<in> set (sg_list n) then (0, n\<lparr>sg_list := remove1 strhdl (sg_list n)\<rparr>) else (- ENOENT, n))"

definition upd_seqgen :: "u16 \<Rightarrow> (seqgen \<Rightarrow> seqgen) \<Rightarrow> frer \<Rightarrow> frer" where
  "upd_seqgen k u f = f\<lparr>sg_root := upd_node sg_fnidx k u (sg_root f)\<rparr>"

definition seqgen_list_del_entry :: "device \<Rightarrow> u16 \<Rightarrow> frer \<Rightarrow> (int \<times> frer) option" where
  "seqgen_list_del_entry dev str f = do {
     (enabled, f) \<leftarrow> edgx_frer_seqfn_enabled dev str FRER_TBL2 f;
     if \<not> enabled then Some (- EINVAL, f)
     else do {
       (reg, f) \<leftarrow> edgx_frer_ip_rd_strtbl dev str FRER_TBL2 f;
       let fn = reg AND 0xFFF;
       case seqgen_rbt_search (sg_root f) fn of None \<Rightarrow> Some (- EINVAL, f)
       | Some n \<Rightarrow>
           if str \<in> set (sg_list n) then do {
             let f = upd_seqgen fn (\<lambda>n. n\<lparr>sg_list := remove1 str (sg_list n)\<rparr>) f;
             f \<leftarrow> edgx_frer_ip_wr_strtbl dev str fn FRER_TBL2 True f;
             Some (0, f)
           } else Some (- EINVAL, f)
     }
   }"

text \<open>The handle of a stream is read after its element has been released.\<close>

fun seqgen_disable :: "device \<Rightarrow> (u16 \<Rightarrow> u16) \<Rightarrow> u16 list \<Rightarrow> frer \<Rightarrow> frer option" where
  "seqgen_disable dev stale [] f = Some f"
| "seqgen_disable dev stale (s # ss) f = do {
     f \<leftarrow> edgx_frer_ip_wr_strtbl dev (stale s) 0 FRER_TBL2 True f;
     seqgen_disable dev stale ss f
   }"

definition seqgen_rbt_del_entry :: "device \<Rightarrow> (u16 \<Rightarrow> u16) \<Rightarrow> u16 \<Rightarrow> frer \<Rightarrow> (int \<times> frer) option" where
  "seqgen_rbt_del_entry dev stale key f =
     (case seqgen_rbt_search (sg_root f) key of None \<Rightarrow> Some (- EINVAL, f)
      | Some n \<Rightarrow> do {
          f \<leftarrow> seqgen_disable dev stale (sg_list n) f;
          Some (0, f\<lparr>sg_root := rb_erase sg_fnidx key (sg_root f), seqgencnt := seqgencnt f - 1\<rparr>)
        })"

fun seqgen_apply_from :: "device \<Rightarrow> u16 \<Rightarrow> u16 list \<Rightarrow> frer \<Rightarrow> (int \<times> frer) option" where
  "seqgen_apply_from dev fnidx [] f = Some (0, f)"
| "seqgen_apply_from dev fnidx (s # ss) f = do {
     (enabled, f) \<leftarrow> edgx_frer_seqfn_enabled dev s FRER_TBL2 f;
     if enabled then do {
       (reg, f) \<leftarrow> edgx_frer_ip_rd_strtbl dev s FRER_TBL2 f;
       if reg AND 0xFFF \<noteq> fnidx then Some (- EBUSY, f) else seqgen_apply_from dev fnidx ss f
     } else do {
       f \<leftarrow> edgx_frer_ip_wr_strtbl dev s fnidx FRER_TBL2 False f;
       f \<leftarrow> seqgen_ip_reset dev fnidx f;
       seqgen_apply_from dev fnidx ss f
     }
   }"

definition edgx_frer_seqgen_apply :: "device \<Rightarrow> seqgen \<Rightarrow> frer \<Rightarrow> (int \<times> frer) option" where
  "edgx_frer_seqgen_apply dev n f =
     (if sg_dir n = DIR_UNKNOWN \<or> sg_list n = [] then Some (0, f) else seqgen_apply_from dev (sg_fnidx n) (sg_list n) f)"

definition edgx_frer_seqgen_addstr :: "device \<Rightarrow> bool \<Rightarrow> u16 \<Rightarrow> u16 \<Rightarrow> frer \<Rightarrow> (int \<times> frer) option" where
  "edgx_frer_seqgen_addstr dev alloc_ok str fnidx f =
     (if edgx_frer_check_strhdl str f \<noteq> 0 then Some (- EINVAL, f)
      else case seqgen_rbt_search (sg_root f) fnidx of None \<Rightarrow> Some (- ENOENT, f)
      | Some n \<Rightarrow>
          let (ret, n) = (if \<not> seqgen_list_entry_exists str n then seqgen_list_add alloc_ok str n else (0, n))
          in if ret \<noteq> 0 then Some (- ENOMEM, f)
             else do {
               let f = upd_seqgen fnidx (\<lambda>_. n) f;
               (ret, f) \<leftarrow> edgx_frer_seqgen_apply dev n f;
               if ret \<noteq> 0 then Some (- EBUSY, upd_seqgen fnidx (\<lambda>n. snd (seqgen_list_rm_single str n)) f)
               else Some (0, f)
             })"

definition edgx_frer_seqgen_adddir :: "device \<Rightarrow> u8 \<Rightarrow> u16 \<Rightarrow> frer \<Rightarrow> (int \<times> frer) option" where
  "edgx_frer_seqgen_adddir dev dir fnidx f =
     (if seqgen_check_direction dir \<noteq> 0 then Some (- EINVAL, f)
      else case seqgen_rbt_search (sg_root f) fnidx of None \<Rightarrow> Some (- ENOENT, f)
      | Some n \<Rightarrow> do {
          let n = n\<lparr>sg_dir := dir\<rparr>;
          (ret, f) \<leftarrow> edgx_frer_seqgen_apply dev n (upd_seqgen fnidx (\<lambda>_. n) f);
          if ret \<noteq> 0 then Some (- EBUSY, upd_seqgen fnidx (\<lambda>n. n\<lparr>sg_dir := DIR_UNKNOWN\<rparr>) f) else Some (0, f)
        })"

definition edgx_frer_seqgen_create :: "bool \<Rightarrow> u16 \<Rightarrow> frer \<Rightarrow> int \<times> frer" where
  "edgx_frer_seqgen_create alloc_ok fnidx f =
     (if edgx_frer_check_fnidx fnidx f \<noteq> 0 then (- EINVAL, f)
      else case seqgen_rbt_search (sg_root f) fnidx of Some n \<Rightarrow> (- EBUSY, f)
      | None \<Rightarrow>
          if \<not> alloc_ok then (- ENOMEM, f)
          else let new = \<lparr>sg_fnidx = fnidx, sg_list = [], sg_dir = DIR_UNKNOWN\<rparr>;
                   f = f\<lparr>seqgencnt := seqgencnt f + 1\<rparr>;
                   (ret, ns) = seqgen_rbt_insert_node (sg_root f) new
               in if ret \<noteq> 0 then (- EINVAL, f) else (0, f\<lparr>sg_root := ns\<rparr>))"

end
