(* ===== verification/FrerEnc.thy ===== *)
theory FrerEnc
  imports Frer
begin

text \<open>
  The sequence encoding of \<open>edge_frer.c\<close>: every port has a list of streams and whether it inserts or
  removes the tag (active, passive); every stream has the mask of its ports, and two words of the
  stream table tell the hardware which ports change the tag of the stream and which of them insert it.
\<close>

unbundle bit_operations_syntax

section \<open>Lists and masks\<close>

definition set_se_port :: "nat \<Rightarrow> (se_port \<Rightarrow> se_port) \<Rightarrow> frer \<Rightarrow> frer" where
  "set_se_port p u f = f\<lparr>se_ports := (se_ports f)[p := u (se_ports f ! p)]\<rparr>"

definition seqenc_list_entry_exists :: "u16 \<Rightarrow> se_port \<Rightarrow> bool" where
  "seqenc_list_entry_exists strhdl pt = (strhdl \<in> set (se_list pt))"

definition seqenc_list_add :: "bool \<Rightarrow> u16 \<Rightarrow> nat \<Rightarrow> frer \<Rightarrow> int \<times> frer" where
  "seqenc_list_add alloc_ok strhdl p f =
     (if \<not> alloc_ok then (- ENOMEM, f) else (0, set_se_port p (\<lambda>pt. pt\<lparr>se_list := se_list pt @ [strhdl]\<rparr>) f))"

definition upd_stream :: "u16 \<Rightarrow> (se_stream \<Rightarrow> se_stream) \<Rightarrow> frer \<Rightarrow> frer" where
  "upd_stream k u f = f\<lparr>se_root := upd_node ss_strhdl k u (se_root f)\<rparr>"

definition seqenc_del_str_from_rbt :: "u16 \<Rightarrow> frer \<Rightarrow> int \<times> frer" where
  "seqenc_del_str_from_rbt strhdl f =
     (case seqenc_rbt_search (se_root f) strhdl of None \<Rightarrow> (- ENOENT, f)
      | Some s \<Rightarrow> (0, f\<lparr>se_root := rb_erase ss_strhdl strhdl (se_root f)\<rparr>))"

section \<open>Hardware\<close>

definition strtbl_set_bit :: "device \<Rightarrow> bool \<Rightarrow> nat \<Rightarrow> u16 \<Rightarrow> frer_tbl \<Rightarrow> frer \<Rightarrow> frer option" where
  "strtbl_set_bit dev b pt str tbl f = do {
     (reg, f) \<leftarrow> edgx_frer_ip_rd_strtbl dev str tbl f;
     edgx_frer_ip_wr_strtbl dev str (if b then reg OR BIT pt else reg AND NOT (BIT pt)) tbl False f
   }"

definition seqenc_apply_active :: "device \<Rightarrow> nat \<Rightarrow> u16 \<Rightarrow> frer \<Rightarrow> frer option" where
  "seqenc_apply_active dev pt str f = do {
     f \<leftarrow> strtbl_set_bit dev True pt str FRER_TBL0 f;
     strtbl_set_bit dev True pt str FRER_TBL1 f
   }"

definition seqenc_apply_passive :: "device \<Rightarrow> nat \<Rightarrow> u16 \<Rightarrow> frer \<Rightarrow> frer option" where
  "seqenc_apply_passive dev pt str f = do {
     f \<leftarrow> strtbl_set_bit dev True pt str FRER_TBL0 f;
     strtbl_set_bit dev False pt str FRER_TBL1 f
   }"

fun seqenc_apply_from :: "device \<Rightarrow> nat \<Rightarrow> bool \<Rightarrow> u16 list \<Rightarrow> frer \<Rightarrow> frer option" where
  "seqenc_apply_from dev pt active [] f = Some f"
| "seqenc_apply_from dev pt active (s # ss) f = do {
     f \<leftarrow> (if active then seqenc_apply_active dev pt s f else seqenc_apply_passive dev pt s f);
     seqenc_apply_from dev pt active ss f
   }"

definition edgx_frer_seqenc_apply :: "device \<Rightarrow> nat \<Rightarrow> frer \<Rightarrow> (int \<times> frer) option" where
  "edgx_frer_seqenc_apply dev p f = do {
     pt \<leftarrow> nth_opt (se_ports f) p;
     if se_active pt > ENC_ACTIVE \<or> se_list pt = [] then Some (- ENOENT, f)
     else do { f \<leftarrow> seqenc_apply_from dev p (se_active pt \<noteq> 0) (se_list pt) f; Some (0, f) }
   }"

definition edgx_frer_seqenc_applydel :: "device \<Rightarrow> nat \<Rightarrow> u16 \<Rightarrow> u16 \<Rightarrow> frer \<Rightarrow> frer option" where
  "edgx_frer_seqenc_applydel dev port strhdl portmask f =
     (if portmask = 0 then do {
        f \<leftarrow> edgx_frer_ip_wr_strtbl dev strhdl 0 FRER_TBL0 False f;
        edgx_frer_ip_wr_strtbl dev strhdl 0 FRER_TBL1 False f
      } else do {
        f \<leftarrow> strtbl_set_bit dev False port strhdl FRER_TBL0 f;
        strtbl_set_bit dev False port strhdl FRER_TBL1 f
      })"

section \<open>Operations\<close>

definition edgx_frer_seqenc_create_entry :: "nat \<Rightarrow> u8 \<Rightarrow> frer \<Rightarrow> (int \<times> frer) option" where
  "edgx_frer_seqenc_create_entry p dir f =
     (if seqenc_check_dir dir \<noteq> 0 \<or> edgx_frer_check_port p f \<noteq> 0 then Some (- EINVAL, f)
      else if p \<ge> length (se_ports f) then None
      else Some (0, set_se_port p (\<lambda>pt. pt\<lparr>se_active := ENC_UNKNOWN\<rparr>) f))"

text \<open>\<open>list_ok\<close> and \<open>node_ok\<close>: whether there is memory for the list element and the node.\<close>

definition edgx_frer_seqenc_add_str :: "device \<Rightarrow> bool \<Rightarrow> bool \<Rightarrow> u16 \<Rightarrow> nat \<Rightarrow> frer \<Rightarrow> (int \<times> frer) option" where
  "edgx_frer_seqenc_add_str dev list_ok node_ok str p f = do {
     pt \<leftarrow> nth_opt (se_ports f) p;
     if se_active pt = ENC_UNDEFINED then Some (- ENOENT, f)
     else if edgx_frer_check_strhdl str f \<noteq> 0 then Some (- EINVAL, f)
     else do {
       let (ret, f) = (if \<not> seqenc_list_entry_exists str pt then seqenc_list_add list_ok str p f else (0, f));
       if ret \<noteq> 0 then Some (- ENOMEM, f)
       else do {
         let (ret, f) = (case seqenc_rbt_search (se_root f) str of
               Some s \<Rightarrow> (0, upd_stream str (\<lambda>s. s\<lparr>ss_port_mask := ss_port_mask s OR BIT p\<rparr>) f)
             | None \<Rightarrow>
                 if \<not> node_ok then (- ENOMEM, f)
                 else let (ret, ns) = seqenc_rbt_insert_node (se_root f) \<lparr>ss_strhdl = str, ss_port_mask = BIT p\<rparr>
                      in if ret \<noteq> 0 then (- EINVAL, f) else (0, f\<lparr>se_root := ns\<rparr>));
         if ret \<noteq> 0 then Some (ret, f)
         else do { (_, f) \<leftarrow> edgx_frer_seqenc_apply dev p f; Some (0, f) }
       }
     }
   }"

definition edgx_frer_seqenc_set_active :: "device \<Rightarrow> u8 \<Rightarrow> nat \<Rightarrow> frer \<Rightarrow> (int \<times> frer) option" where
  "edgx_frer_seqenc_set_active dev active p f = do {
     pt \<leftarrow> nth_opt (se_ports f) p;
     if se_active pt = ENC_UNDEFINED then Some (- ENOENT, f)
     else if seqenc_check_active active \<noteq> 0 then Some (- EINVAL, f)
     else do {
       (_, f) \<leftarrow> edgx_frer_seqenc_apply dev p
         (set_se_port p (\<lambda>pt. pt\<lparr>se_active := (if active \<noteq> 0 then 1 else 0)\<rparr>) f);
       Some (0, f)
     }
   }"

text \<open>A stream of a port loses the port; its node goes with its last port. The result is the mask.\<close>

definition drop_port :: "nat \<Rightarrow> u16 \<Rightarrow> frer \<Rightarrow> (u16 \<times> frer) option" where
  "drop_port p str f =
     (case seqenc_rbt_search (se_root f) str of None \<Rightarrow> None
      | Some s \<Rightarrow>
          let m = ss_port_mask s AND NOT (BIT p);
              f = upd_stream str (\<lambda>s. s\<lparr>ss_port_mask := m\<rparr>) f
          in Some (m, if m = 0 then snd (seqenc_del_str_from_rbt str f) else f))"

text \<open>The mask is read from the node even when the node has been released.\<close>

fun seqenc_del_streams :: "device \<Rightarrow> (u16 \<Rightarrow> u16) \<Rightarrow> nat \<Rightarrow> u16 list \<Rightarrow> frer \<Rightarrow> (int \<times> frer) option" where
  "seqenc_del_streams dev stale p [] f = Some (0, f)"
| "seqenc_del_streams dev stale p (s # ss) f =
     (case drop_port p s f of None \<Rightarrow> Some (- EINVAL, f)
      | Some (m, f) \<Rightarrow> do {
          let f = set_se_port p (\<lambda>pt. pt\<lparr>se_list := remove1 s (se_list pt)\<rparr>) f;
          f \<leftarrow> edgx_frer_seqenc_applydel dev p s (if m = 0 then stale m else m) f;
          seqenc_del_streams dev stale p ss f
        })"

definition edgx_frer_seqenc_delportfn :: "device \<Rightarrow> (u16 \<Rightarrow> u16) \<Rightarrow> nat \<Rightarrow> frer \<Rightarrow> (int \<times> frer) option" where
  "edgx_frer_seqenc_delportfn dev stale p f = do {
     pt \<leftarrow> nth_opt (se_ports f) p;
     if se_active pt = ENC_UNDEFINED then Some (- ENOENT, f)
     else do {
       (ret, f) \<leftarrow> seqenc_del_streams dev stale p (se_list pt) f;
       if ret \<noteq> 0 then Some (ret, f) else Some (0, set_se_port p (\<lambda>pt. pt\<lparr>se_active := ENC_UNDEFINED\<rparr>) f)
     }
   }"

definition edgx_frer_seqenc_delstr :: "device \<Rightarrow> u16 \<Rightarrow> nat \<Rightarrow> frer \<Rightarrow> (int \<times> frer) option" where
  "edgx_frer_seqenc_delstr dev str p f = do {
     pt \<leftarrow> nth_opt (se_ports f) p;
     let found = str \<in> set (se_list pt);
     let (portmask, f) = (if found then case drop_port p str f of None \<Rightarrow> (0xff, f) | Some r \<Rightarrow> r else (0xff, f));
     let f = (if found then set_se_port p (\<lambda>pt. pt\<lparr>se_list := remove1 str (se_list pt)\<rparr>) f else f);
     let f = (if se_list (se_ports f ! p) = [] then set_se_port p (\<lambda>pt. pt\<lparr>se_active := ENC_UNDEFINED\<rparr>) f else f);
     if \<not> found then Some (- ENOENT, f)
     else do { f \<leftarrow> edgx_frer_seqenc_applydel dev p str portmask f; Some (0, f) }
   }"

definition edgx_frer_seqenc_str2port :: "u16 \<Rightarrow> frer \<Rightarrow> int + u16" where
  "edgx_frer_seqenc_str2port str f =
     (case seqenc_rbt_search (se_root f) str of None \<Rightarrow> Inl (- ENOENT) | Some s \<Rightarrow> Inr (ss_port_mask s))"

section \<open>Files\<close>

text \<open>A file that stores one number: no number is -EINVAL, an error is returned, success is the count.\<close>

definition store_num :: "('v \<Rightarrow> frer \<Rightarrow> (int \<times> frer) option) \<Rightarrow> 'v option \<Rightarrow> int \<Rightarrow> frer \<Rightarrow> (int \<times> frer) option" where
  "store_num op parsed count f =
     (case parsed of None \<Rightarrow> Some (- EINVAL, f)
      | Some v \<Rightarrow> do { (ret, f) \<leftarrow> op v f; Some (if ret \<noteq> 0 then ret else count, f) })"

definition seqenc_create_store where "seqenc_create_store p = store_num (edgx_frer_seqenc_create_entry p)"
definition seqenc_active_store where "seqenc_active_store dev p = store_num (\<lambda>active. edgx_frer_seqenc_set_active dev active p)"
definition seqenc_add_str_store where
  "seqenc_add_str_store dev list_ok node_ok p = store_num (\<lambda>str. edgx_frer_seqenc_add_str dev list_ok node_ok str p)"
definition seqenc_delstr_store where "seqenc_delstr_store dev p = store_num (\<lambda>str. edgx_frer_seqenc_delstr dev str p)"

definition seqenc_delportfn_store :: "device \<Rightarrow> (u16 \<Rightarrow> u16) \<Rightarrow> nat \<Rightarrow> int \<Rightarrow> frer \<Rightarrow> (int \<times> frer) option" where
  "seqenc_delportfn_store dev stale p count f = do {
     (ret, f) \<leftarrow> edgx_frer_seqenc_delportfn dev stale p f;
     Some (if ret \<noteq> 0 then ret else count, f)
   }"

definition seqenc_create_show :: "nat \<Rightarrow> frer \<Rightarrow> u8 option" where
  "seqenc_create_show p f =
     map_option (\<lambda>pt. if se_active pt = ENC_UNDEFINED then DIR_UNKNOWN else DIR_OUT_FAC) (nth_opt (se_ports f) p)"

definition seqenc_active_show :: "nat \<Rightarrow> frer \<Rightarrow> u8 option" where
  "seqenc_active_show p f = map_option se_active (nth_opt (se_ports f) p)"

definition seqenc_type_store :: "nat \<Rightarrow> u8 option \<Rightarrow> int \<Rightarrow> frer \<Rightarrow> int option" where
  "seqenc_type_store p parsed count f =
     (case parsed of None \<Rightarrow> Some (- EINVAL)
      | Some type \<Rightarrow> map_option (\<lambda>pt. if se_active pt = ENC_UNDEFINED then - ENOENT
                               else if seqenc_check_type type \<noteq> 0 then - EINVAL else count) (nth_opt (se_ports f) p))"

definition seqenc_type_show :: "nat \<Rightarrow> frer \<Rightarrow> u8 option" where
  "seqenc_type_show p f =
     map_option (\<lambda>pt. if se_active pt = ENC_UNDEFINED then TYPE_UNKNOWN else TYPE_R_TAG) (nth_opt (se_ports f) p)"

definition get_numofports_show :: "frer \<Rightarrow> u16" where
  "get_numofports_show f = edgx_br_get_num_ports (fr_io f) (fr_br f)"

definition seqenc_str2port_read :: "int \<Rightarrow> int \<Rightarrow> frer \<Rightarrow> (int \<times> u16 option) option" where
  "seqenc_str2port_read ofs count f = do {
     r \<leftarrow> edgx_sysfs_tbl_params ofs count 2;
     Some (case r of Inl e \<Rightarrow> (- EINVAL, None)
           | Inr idx \<Rightarrow>
               if idx \<ge> uint (streams_max f) then (- EINVAL, None)
               else case edgx_frer_seqenc_str2port (word_of_int idx) f of Inl ret \<Rightarrow> (ret, None) | Inr m \<Rightarrow> (count, Some m))
   }"

text \<open>The loop that copies the elements from number \<open>idx\<close> on, \<open>n\<close> at most, and fills the rest.\<close>

fun copy_elems :: "int \<Rightarrow> int \<Rightarrow> int \<Rightarrow> 'a list \<Rightarrow> 'a list" where
  "copy_elems i idx n [] = []"
| "copy_elems i idx n (x # xs) =
     (if i + 1 > idx + n then [] else if i + 1 \<le> idx then copy_elems (i + 1) idx n xs else x # copy_elems (i + 1) idx n xs)"

definition fill_elems :: "int \<Rightarrow> u16 list \<Rightarrow> u16 list" where
  "fill_elems n xs = xs @ replicate (nat n - length xs) FRER_U16_INVALID"

definition seqenc_port2str_read :: "nat \<Rightarrow> int \<Rightarrow> int \<Rightarrow> frer \<Rightarrow> (int \<times> u16 list) option" where
  "seqenc_port2str_read p ofs count f = do {
     r \<leftarrow> edgx_sysfs_list_params ofs count 2;
     case r of Inl e \<Rightarrow> Some (- EINVAL, [])
     | Inr (idx, nelems) \<Rightarrow>
         if idx + nelems > uint (streams_max f) then Some (- EINVAL, [])
         else do {
           pt \<leftarrow> nth_opt (se_ports f) p;
           let str = fill_elems nelems (copy_elems 0 idx nelems (se_list pt));
           Some (2 * int (length str), str)
         }
   }"

end
