(* ===== verification/FrerRec.thy ===== *)
theory FrerRec
  imports FrerEnc
begin

text \<open>
  The sequence recovery functions of \<open>edge_frer.c\<close> with their parameters and streams, the table of
  the supported reset times, the counters, and the files of the generation and recovery functions.
\<close>

unbundle bit_operations_syntax

section \<open>Reset times\<close>

text \<open>
  The reset times in milliseconds: number \<open>4 * i + j\<close> has the rate scale \<open>i\<close> and the base rate \<open>j\<close>. The
  product is computed in 32 bits and divided in 64 bits; the quotient is stored in 16 bits.
\<close>

definition rcv_rst_ms :: "u32 \<Rightarrow> u32 \<Rightarrow> nat \<Rightarrow> u16" where
  "rcv_rst_ms tclk aging_bt k =
     (let i = k div 4; j = k mod 4; num = uint (tclk * aging_bt * 124); denom = 1000000 * 2 ^ i * (int j + 5)
      in word_of_int (num div denom))"

definition calc_rcv_rst :: "frer \<Rightarrow> frer" where
  "calc_rcv_rst f =
     (let tclk = edgx_br_get_cycle_ns (fr_br f);
          aging_bt = ucast (fr_rd 0x22 f) OR push_bit 16 (ucast (fr_rd 0x24 f) :: u32)
      in f\<lparr>seqrec_rst := map (rcv_rst_ms tclk aging_bt) [0..<16]\<rparr>)"

text \<open>The search from the last entry on leaves the array when no entry is large enough.\<close>

fun first_bigger_from :: "u16 list \<Rightarrow> u16 \<Rightarrow> nat \<Rightarrow> nat option" where
  "first_bigger_from rst val 0 = None"
| "first_bigger_from rst val (Suc i) =
     do { r \<leftarrow> nth_opt rst i; if r < val then first_bigger_from rst val i else Some i }"

definition first_bigger :: "frer \<Rightarrow> u16 \<Rightarrow> nat option" where
  "first_bigger f val = first_bigger_from (seqrec_rst f) val 16"

section \<open>Checks\<close>

definition seqrec_check_dir :: "u8 \<Rightarrow> int" where
  "seqrec_check_dir dir = (if dir \<noteq> DIR_IN_FAC then - EINVAL else 0)"

definition seqrec_check_bool :: "u8 \<Rightarrow> int" where
  "seqrec_check_bool val = (if val > 1 then - EINVAL else 0)"

definition seqrec_check_rcv_rst :: "u16 \<Rightarrow> frer \<Rightarrow> int" where
  "seqrec_check_rcv_rst rcvrst f = (if rcvrst > seqrec_rst f ! 0 then - EINVAL else 0)"

definition seqrec_check_histl :: "u8 \<Rightarrow> int" where
  "seqrec_check_histl histl = (if histl > 0xF \<or> histl < 2 then - EINVAL else 0)"

definition seqrec_check_alg :: "u8 \<Rightarrow> int" where
  "seqrec_check_alg alg = (if alg > 1 then - EINVAL else 0)"

section \<open>Functions\<close>

definition upd_seqrec :: "u16 \<Rightarrow> (seqrec \<Rightarrow> seqrec) \<Rightarrow> frer \<Rightarrow> frer" where
  "upd_seqrec k u f = f\<lparr>sr_root := upd_node sr_fnidx k u (sr_root f)\<rparr>"

definition seqrec_rbt_delnode :: "u16 \<Rightarrow> frer \<Rightarrow> frer" where
  "seqrec_rbt_delnode k f = f\<lparr>sr_root := rb_erase sr_fnidx k (sr_root f), seqreccnt := seqreccnt f - 1\<rparr>"

definition seqrec_list_entry_exists :: "u16 \<Rightarrow> seqrec \<Rightarrow> bool" where
  "seqrec_list_entry_exists strhdl n = (strhdl \<in> set (sr_list n))"

definition seqrec_list_add :: "bool \<Rightarrow> u16 \<Rightarrow> seqrec \<Rightarrow> int \<times> seqrec" where
  "seqrec_list_add alloc_ok strhdl n = (if \<not> alloc_ok then (- ENOMEM, n) else (0, n\<lparr>sr_list := sr_list n @ [strhdl]\<rparr>))"

definition seqrec_list_del :: "u16 \<Rightarrow> seqrec \<Rightarrow> int \<times> seqrec" where
  "seqrec_list_del strhdl n =
     (if strhdl \<in> set (sr_list n) then (0, n\<lparr>sr_list := remove1 strhdl (sr_list n)\<rparr>) else (- ENOENT, n))"

definition seqrec_fn_exists :: "frer \<Rightarrow> u16 \<Rightarrow> seqrec option" where
  "seqrec_fn_exists f fnidx = seqrec_rbt_search (sr_root f) fnidx"

definition seqrec_all_set :: "seqrec \<Rightarrow> bool" where
  "seqrec_all_set sr \<longleftrightarrow> sr_alg sr \<noteq> ALG_UNKNOWN \<and> sr_rcv_rst sr \<noteq> FRER_U16_INVALID \<and> sr_ptmask sr \<noteq> 0
     \<and> sr_ind_rec sr \<noteq> FRER_BOOL_INVALID \<and> sr_lat_err sr \<noteq> FRER_BOOL_INVALID \<and> sr_take_no_seq sr \<noteq> FRER_BOOL_INVALID
     \<and> sr_dir sr \<noteq> DIR_UNKNOWN \<and> sr_list sr \<noteq> []"

fun alg_code :: "seqrec_alg \<Rightarrow> u16" where
  "alg_code ALG_VECT = 0" | "alg_code ALG_MATCH = 1" | "alg_code ALG_UNKNOWN = 2"

definition seqrec_calc_cfg_val :: "seqrec \<Rightarrow> nat \<Rightarrow> u16" where
  "seqrec_calc_cfg_val sr aging_rate =
     ucast (sr_hist_len sr AND 0x1F) OR push_bit 5 (alg_code (sr_alg sr) AND 1) OR push_bit 6 (ucast (sr_ind_rec sr AND 1))
     OR push_bit 7 (ucast (sr_take_no_seq sr AND 1)) OR push_bit 12 (of_nat aging_rate AND 0xf)"

definition seqrec_write_tbl_err :: "device \<Rightarrow> u16 \<Rightarrow> u16 \<Rightarrow> frer \<Rightarrow> (int \<times> frer) option" where
  "seqrec_write_tbl_err dev str fnidx f = do {
     (enabled, f) \<leftarrow> edgx_frer_seqfn_enabled dev str FRER_TBL3 f;
     if enabled then do {
       (reg, f) \<leftarrow> edgx_frer_ip_rd_strtbl dev str FRER_TBL3 f;
       Some (if reg AND 0xFFF \<noteq> fnidx then - EBUSY else 0, f)
     } else Some (0, f)
   }"

text \<open>The first time all streams are written; each time the stream of the request is checked, not that of the row.\<close>

fun seqrec_write_streams :: "device \<Rightarrow> u16 \<Rightarrow> u16 \<Rightarrow> bool \<Rightarrow> u16 list \<Rightarrow> frer \<Rightarrow> frer option" where
  "seqrec_write_streams dev str fnidx del [] f = Some f"
| "seqrec_write_streams dev str fnidx del (s # ss) f = do {
     (ret, f) \<leftarrow> seqrec_write_tbl_err dev str fnidx f;
     f \<leftarrow> (if ret = 0 then edgx_frer_ip_wr_strtbl dev s fnidx FRER_TBL3 del f else Some f);
     seqrec_write_streams dev str fnidx del ss f
   }"

definition edgx_frer_seqrec_apply :: "device \<Rightarrow> u16 \<Rightarrow> u16 \<Rightarrow> bool \<Rightarrow> frer \<Rightarrow> frer option" where
  "edgx_frer_seqrec_apply dev key str del f = do {
     sr \<leftarrow> seqrec_rbt_search (sr_root f) key;
     if seqrec_all_set sr \<or> del then do {
       aging_rate \<leftarrow> first_bigger f (sr_rcv_rst sr);
       let val = seqrec_calc_cfg_val sr aging_rate;
       if \<not> seqrec_cfg_applied sr then do {
         f \<leftarrow> edgx_frer_ip_wr_seqrectbl dev key val f;
         f \<leftarrow> seqrec_write_streams dev str key del (sr_list sr) f;
         Some (upd_seqrec key (\<lambda>n. n\<lparr>seqrec_cfg_applied := True\<rparr>) f)
       }
       else if str \<noteq> FRER_U16_INVALID then do {
         (ret, f) \<leftarrow> seqrec_write_tbl_err dev str key f;
         if ret = 0 then edgx_frer_ip_wr_strtbl dev str key FRER_TBL3 del f else Some f
       }
       else edgx_frer_ip_wr_seqrectbl dev key val f
     } else Some f
   }"

text \<open>A change of a parameter: the function is looked up, changed and applied.\<close>

definition set_param :: "device \<Rightarrow> (seqrec \<Rightarrow> seqrec) \<Rightarrow> u16 \<Rightarrow> frer \<Rightarrow> (int \<times> frer) option" where
  "set_param dev u fnidx f =
     (case seqrec_fn_exists f fnidx of None \<Rightarrow> Some (- ENOENT, f)
      | Some sr \<Rightarrow> map_option (Pair 0) (edgx_frer_seqrec_apply dev fnidx FRER_U16_INVALID False (upd_seqrec fnidx u f)))"

definition edgx_frer_seqrec_addport :: "device \<Rightarrow> nat \<Rightarrow> u16 \<Rightarrow> frer \<Rightarrow> (int \<times> frer) option" where
  "edgx_frer_seqrec_addport dev ptid fnidx f =
     (if edgx_frer_check_port ptid f \<noteq> 0 then Some (- EINVAL, f)
      else set_param dev (\<lambda>sr. sr\<lparr>sr_ptmask := sr_ptmask sr OR BIT ptid\<rparr>) fnidx f)"

definition edgx_frer_seqrec_delport :: "nat \<Rightarrow> u16 \<Rightarrow> frer \<Rightarrow> int \<times> frer" where
  "edgx_frer_seqrec_delport ptid fnidx f =
     (if edgx_frer_check_port ptid f \<noteq> 0 then (- EINVAL, f)
      else case seqrec_fn_exists f fnidx of None \<Rightarrow> (- ENOENT, f)
      | Some sr \<Rightarrow> (0, upd_seqrec fnidx (\<lambda>sr. sr\<lparr>sr_ptmask := sr_ptmask sr AND NOT (BIT ptid)\<rparr>) f))"

definition edgx_frer_seqrec_delstr :: "device \<Rightarrow> u16 \<Rightarrow> u16 \<Rightarrow> frer \<Rightarrow> (int \<times> frer) option" where
  "edgx_frer_seqrec_delstr dev str fn f =
     (if edgx_frer_check_strhdl str f \<noteq> 0 then Some (- EINVAL, f)
      else case seqrec_fn_exists f fn of None \<Rightarrow> Some (- ENOENT, f)
      | Some sr \<Rightarrow>
          if \<not> seqrec_list_entry_exists str sr then Some (- ENOENT, f)
          else map_option (Pair 0)
                 (edgx_frer_seqrec_apply dev fn str True (upd_seqrec fn (\<lambda>sr. snd (seqrec_list_del str sr)) f)))"

text \<open>Every stream is taken out of the hardware before it leaves the list.\<close>

fun seqrec_del_streams :: "device \<Rightarrow> u16 \<Rightarrow> u16 list \<Rightarrow> frer \<Rightarrow> frer option" where
  "seqrec_del_streams dev k [] f = Some f"
| "seqrec_del_streams dev k (s # ss) f = do {
     f \<leftarrow> edgx_frer_seqrec_apply dev k s True f;
     seqrec_del_streams dev k ss (upd_seqrec k (\<lambda>sr. snd (seqrec_list_del s sr)) f)
   }"

definition edgx_frer_seqrec_delfn :: "device \<Rightarrow> u16 \<Rightarrow> frer \<Rightarrow> (int \<times> frer) option" where
  "edgx_frer_seqrec_delfn dev fnidx f =
     (case seqrec_fn_exists f fnidx of None \<Rightarrow> Some (- ENOENT, f)
      | Some sr \<Rightarrow> do {
          f \<leftarrow> seqrec_del_streams dev fnidx (sr_list sr) f;
          Some (0, seqrec_rbt_delnode fnidx f)
        })"

datatype seqrec_field = SEQREC_NO_SEQ | SEQREC_IND_REC | SEQREC_LAT_ERR

definition edgx_frer_seqrec_set_rbt_bool :: "device \<Rightarrow> u8 \<Rightarrow> u16 \<Rightarrow> seqrec_field \<Rightarrow> frer \<Rightarrow> (int \<times> frer) option" where
  "edgx_frer_seqrec_set_rbt_bool dev val fnidx field f =
     (if seqrec_check_bool val \<noteq> 0 then Some (- EINVAL, f)
      else case seqrec_fn_exists f fnidx of None \<Rightarrow> Some (- ENOENT, f)
      | Some sr \<Rightarrow>
          (case field of
             SEQREC_NO_SEQ \<Rightarrow> set_param dev (\<lambda>sr. sr\<lparr>sr_take_no_seq := val\<rparr>) fnidx f
           | SEQREC_IND_REC \<Rightarrow>
               if val = 0 \<or> sr_lat_err sr = 0 then set_param dev (\<lambda>sr. sr\<lparr>sr_ind_rec := val\<rparr>) fnidx f
               else Some (- EINVAL, f)
           | SEQREC_LAT_ERR \<Rightarrow>
               if val = 0 \<or> sr_ind_rec sr = 0 then set_param dev (\<lambda>sr. sr\<lparr>sr_lat_err := val\<rparr>) fnidx f
               else Some (- EINVAL, f)))"

definition edgx_frer_seqrec_set_alg :: "device \<Rightarrow> u32 \<Rightarrow> u16 \<Rightarrow> frer \<Rightarrow> (int \<times> frer) option" where
  "edgx_frer_seqrec_set_alg dev alg fnidx f =
     (if seqrec_check_alg (ucast alg) \<noteq> 0 then Some (- EINVAL, f)
      else set_param dev (\<lambda>sr. sr\<lparr>sr_alg := (if alg = 0 then ALG_VECT else if alg = 1 then ALG_MATCH else ALG_UNKNOWN)\<rparr>) fnidx f)"

definition edgx_frer_seqrec_set_rrst :: "device \<Rightarrow> u16 \<Rightarrow> u16 \<Rightarrow> frer \<Rightarrow> (int \<times> frer) option" where
  "edgx_frer_seqrec_set_rrst dev rrst fnidx f =
     (if seqrec_check_rcv_rst rrst f \<noteq> 0 then Some (- EINVAL, f)
      else set_param dev (\<lambda>sr. sr\<lparr>sr_rcv_rst := rrst\<rparr>) fnidx f)"

definition edgx_frer_seqrec_set_histl :: "device \<Rightarrow> u8 \<Rightarrow> u16 \<Rightarrow> frer \<Rightarrow> (int \<times> frer) option" where
  "edgx_frer_seqrec_set_histl dev hl fnidx f =
     (if seqrec_check_histl hl \<noteq> 0 then Some (- EINVAL, f)
      else set_param dev (\<lambda>sr. sr\<lparr>sr_hist_len := hl\<rparr>) fnidx f)"

definition edgx_frer_seqrec_addstr :: "device \<Rightarrow> bool \<Rightarrow> u16 \<Rightarrow> u16 \<Rightarrow> frer \<Rightarrow> (int \<times> frer) option" where
  "edgx_frer_seqrec_addstr dev alloc_ok str fnidx f =
     (if edgx_frer_check_strhdl str f \<noteq> 0 then Some (- EINVAL, f)
      else case seqrec_rbt_search (sr_root f) fnidx of None \<Rightarrow> Some (- ENOENT, f)
      | Some sr \<Rightarrow>
          let (ret, sr) = (if \<not> seqrec_list_entry_exists str sr then seqrec_list_add alloc_ok str sr else (0, sr))
          in if ret \<noteq> 0 then Some (- ENOMEM, f)
             else map_option (Pair 0) (edgx_frer_seqrec_apply dev fnidx str False (upd_seqrec fnidx (\<lambda>_. sr) f)))"

definition edgx_frer_seqrec_adddir :: "device \<Rightarrow> u8 \<Rightarrow> u16 \<Rightarrow> frer \<Rightarrow> (int \<times> frer) option" where
  "edgx_frer_seqrec_adddir dev dir fnidx f =
     (if seqrec_check_dir dir \<noteq> 0 then Some (- EINVAL, f)
      else set_param dev (\<lambda>sr. sr\<lparr>sr_dir := dir\<rparr>) fnidx f)"

definition new_seqrec :: "u16 \<Rightarrow> seqrec" where
  "new_seqrec fnidx = \<lparr>sr_fnidx = fnidx, sr_list = [], sr_alg = ALG_UNKNOWN, sr_rcv_rst = FRER_U16_INVALID, sr_ptmask = 0,
     sr_dir = DIR_UNKNOWN, sr_hist_len = 2, sr_take_no_seq = FRER_BOOL_INVALID, sr_ind_rec = FRER_BOOL_INVALID,
     sr_lat_err = FRER_BOOL_INVALID, seqrec_cfg_applied = False\<rparr>"

definition edgx_frer_seqrec_create :: "bool \<Rightarrow> u16 \<Rightarrow> frer \<Rightarrow> int \<times> frer" where
  "edgx_frer_seqrec_create alloc_ok fnidx f =
     (if edgx_frer_check_fnidx fnidx f \<noteq> 0 then (- EINVAL, f)
      else case seqrec_rbt_search (sr_root f) fnidx of Some n \<Rightarrow> (- EBUSY, f)
      | None \<Rightarrow>
          if \<not> alloc_ok then (- ENOMEM, f)
          else let (ret, ns) = seqrec_rbt_insert_node (sr_root f) (new_seqrec fnidx)
               in if ret \<noteq> 0 then (- EINVAL, f) else (0, f\<lparr>sr_root := ns, seqreccnt := seqreccnt f + 1\<rparr>))"

definition is_seqrec_strhdl_used :: "frer \<Rightarrow> u16 \<Rightarrow> nat \<Rightarrow> bool" where
  "is_seqrec_strhdl_used f strhdl ptid =
     list_ex (\<lambda>rec. seqrec_cfg_applied rec \<and> sr_ptmask rec AND BIT ptid \<noteq> 0 \<and> seqrec_list_entry_exists strhdl rec) (sr_root f)"

end
