(* ===== verification/FrerFiles.thy ===== *)
theory FrerFiles
  imports FrerRec BrFdb
begin

text \<open>
  The files of the sequence generation and recovery functions of \<open>edge_frer.c\<close>, the counters of the
  recovery, and the probe. A file of a table takes the element number from the offset; a read gives the
  byte count and the value, an error gives no value.
\<close>

unbundle bit_operations_syntax

section \<open>Table files\<close>

text \<open>The two shapes of the table files: an element below \<open>n\<close> is written by \<open>op\<close> or read by \<open>get\<close>.\<close>

definition elem_write :: "int \<Rightarrow> int \<Rightarrow> (u16 \<Rightarrow> frer \<Rightarrow> (int \<times> frer) option) \<Rightarrow> int \<Rightarrow> int \<Rightarrow> frer \<Rightarrow> (int \<times> frer) option" where
  "elem_write sz n op ofs count f = do {
     r \<leftarrow> edgx_sysfs_tbl_params ofs count sz;
     case r of Inl e \<Rightarrow> Some (- EINVAL, f)
     | Inr idx \<Rightarrow>
         if idx \<ge> n then Some (- EINVAL, f)
         else do { (ret, f) \<leftarrow> op (word_of_int idx) f; Some (if ret \<noteq> 0 then ret else count, f) }
   }"

definition elem_read :: "int \<Rightarrow> int \<Rightarrow> (u16 \<Rightarrow> int + 'v) \<Rightarrow> int \<Rightarrow> int \<Rightarrow> (int \<times> 'v option) option" where
  "elem_read sz n get ofs count = do {
     r \<leftarrow> edgx_sysfs_tbl_params ofs count sz;
     Some (case r of Inl e \<Rightarrow> (- EINVAL, None)
           | Inr idx \<Rightarrow>
               if idx \<ge> n then (- EINVAL, None)
               else case get (word_of_int idx) of Inl ret \<Rightarrow> (ret, None) | Inr v \<Rightarrow> (count, Some v))
   }"

text \<open>The keys of a tree from element \<open>idx\<close> on; and the streams of one function in a table of all pairs.\<close>

definition all_fn_read :: "u16 list \<Rightarrow> int \<Rightarrow> int \<Rightarrow> frer \<Rightarrow> (int \<times> u16 list) option" where
  "all_fn_read keys ofs count f = do {
     r \<leftarrow> edgx_sysfs_list_params ofs count 2;
     Some (case r of Inl e \<Rightarrow> (- EINVAL, [])
           | Inr (idx, nelems) \<Rightarrow>
               if idx + nelems > uint (seqrec_max f) then (- EINVAL, [])
               else let fns = copy_elems 0 idx nelems keys in (2 * int (length fns), fns))
   }"

definition fn2sid_read :: "(u16 \<Rightarrow> u16 list option) \<Rightarrow> int \<Rightarrow> int \<Rightarrow> frer \<Rightarrow> (int \<times> u16 list) option" where
  "fn2sid_read streams ofs count f =
     (if streams_max f = 0 then Some (- ENOENT, [])
      else do {
        r \<leftarrow> edgx_sysfs_list_params ofs count 2;
        Some (case r of Inl e \<Rightarrow> (e, [])
              | Inr (idx, nelems) \<Rightarrow>
                  let fnidx = idx div uint (streams_max f); stridx = idx mod uint (streams_max f) in
                  if fnidx \<ge> uint (seqrec_max f) \<or> stridx + nelems > uint (streams_max f) then (- EINVAL, [])
                  else case streams (word_of_int fnidx) of None \<Rightarrow> (- ENOENT, [])
                       | Some ss \<Rightarrow> (count, fill_elems nelems (copy_elems 0 stridx nelems ss)))
      })"

section \<open>Files of the generation functions\<close>

definition seqgen_del_str_store where
  "seqgen_del_str_store dev = store_num (seqgen_list_del_entry dev)"

definition seqgen_del_fn_store where
  "seqgen_del_fn_store dev stale = store_num (seqgen_rbt_del_entry dev stale)"

definition seqgen_create_store where
  "seqgen_create_store alloc_ok = store_num (\<lambda>fnidx f. Some (edgx_frer_seqgen_create alloc_ok fnidx f))"

definition seqgen_add_dir_write :: "device \<Rightarrow> u8 \<Rightarrow> int \<Rightarrow> int \<Rightarrow> frer \<Rightarrow> (int \<times> frer) option" where
  "seqgen_add_dir_write dev dir ofs count f =
     elem_write 1 (uint (seqrec_max f)) (edgx_frer_seqgen_adddir dev dir) ofs count f"

definition seqgen_add_str_write :: "device \<Rightarrow> bool \<Rightarrow> u16 \<Rightarrow> int \<Rightarrow> int \<Rightarrow> frer \<Rightarrow> (int \<times> frer) option" where
  "seqgen_add_str_write dev alloc_ok str ofs count f =
     elem_write 2 (uint (seqrec_max f)) (edgx_frer_seqgen_addstr dev alloc_ok str) ofs count f"

definition seqgen_list_all_fn_read :: "int \<Rightarrow> int \<Rightarrow> frer \<Rightarrow> (int \<times> u16 list) option" where
  "seqgen_list_all_fn_read ofs count f = all_fn_read (map sg_fnidx (sg_root f)) ofs count f"

definition seqgen_cnt_show :: "frer \<Rightarrow> u16" where
  "seqgen_cnt_show f = seqgencnt f"

text \<open>An enabled stream has its function in the hardware; of several functions with it the last one is given.\<close>

definition seqgen_sid2fn_read :: "device \<Rightarrow> int \<Rightarrow> int \<Rightarrow> frer \<Rightarrow> (int \<times> u16 option \<times> frer) option" where
  "seqgen_sid2fn_read dev ofs count f = do {
     r \<leftarrow> edgx_sysfs_tbl_params ofs count 2;
     case r of Inl e \<Rightarrow> Some (- EINVAL, None, f)
     | Inr idx \<Rightarrow>
         if idx \<ge> uint (streams_max f) then Some (- EINVAL, None, f)
         else do {
           (val, f) \<leftarrow> edgx_frer_ip_rd_strtbl dev (word_of_int idx) FRER_TBL2 f;
           if val AND 0x8000 \<noteq> 0 then Some (count, Some (val AND 0xFFF), f)
           else let fns = filter (\<lambda>n. word_of_int idx \<in> set (sg_list n)) (sg_root f)
                in if fns = [] then Some (- ENOENT, None, f) else Some (count, Some (sg_fnidx (last fns)), f)
         }
   }"

definition seqgen_fn2dir_read :: "int \<Rightarrow> int \<Rightarrow> frer \<Rightarrow> (int \<times> u8 option) option" where
  "seqgen_fn2dir_read ofs count f = elem_read 1 (uint (seqrec_max f)) (\<lambda>fnidx. Inr DIR_IN_FAC) ofs count"

definition seqgen_fn2sid_read :: "int \<Rightarrow> int \<Rightarrow> frer \<Rightarrow> (int \<times> u16 list) option" where
  "seqgen_fn2sid_read ofs count f = fn2sid_read (\<lambda>fn. map_option sg_list (seqgen_rbt_search (sg_root f) fn)) ofs count f"

section \<open>Files of the recovery functions\<close>

definition seqrec_create_store where
  "seqrec_create_store alloc_ok = store_num (\<lambda>fnidx f. Some (edgx_frer_seqrec_create alloc_ok fnidx f))"

definition seqrec_dir_write :: "device \<Rightarrow> u8 \<Rightarrow> int \<Rightarrow> int \<Rightarrow> frer \<Rightarrow> (int \<times> frer) option" where
  "seqrec_dir_write dev dir ofs count f = elem_write 1 (uint (seqrec_max f)) (edgx_frer_seqrec_adddir dev dir) ofs count f"

definition seqrec_add_str_write :: "device \<Rightarrow> bool \<Rightarrow> u16 \<Rightarrow> int \<Rightarrow> int \<Rightarrow> frer \<Rightarrow> (int \<times> frer) option" where
  "seqrec_add_str_write dev alloc_ok str ofs count f =
     elem_write 2 (uint (seqrec_max f)) (edgx_frer_seqrec_addstr dev alloc_ok str) ofs count f"

definition seqrec_del_str_write :: "device \<Rightarrow> u16 \<Rightarrow> int \<Rightarrow> int \<Rightarrow> frer \<Rightarrow> (int \<times> frer) option" where
  "seqrec_del_str_write dev str ofs count f = elem_write 2 (uint (seqrec_max f)) (edgx_frer_seqrec_delstr dev str) ofs count f"

text \<open>The element has four bytes; the first of them is the algorithm.\<close>

definition seqrec_alg_write :: "device \<Rightarrow> u8 \<Rightarrow> int \<Rightarrow> int \<Rightarrow> frer \<Rightarrow> (int \<times> frer) option" where
  "seqrec_alg_write dev b ofs count f =
     elem_write 4 (uint (seqrec_max f)) (edgx_frer_seqrec_set_alg dev (ucast b)) ofs count f"

definition seqrec_histlen_write :: "device \<Rightarrow> u8 \<Rightarrow> int \<Rightarrow> int \<Rightarrow> frer \<Rightarrow> (int \<times> frer) option" where
  "seqrec_histlen_write dev hl ofs count f = elem_write 1 (uint (seqrec_max f)) (edgx_frer_seqrec_set_histl dev hl) ofs count f"

definition seqrec_rst_timeout_write :: "device \<Rightarrow> u16 \<Rightarrow> int \<Rightarrow> int \<Rightarrow> frer \<Rightarrow> (int \<times> frer) option" where
  "seqrec_rst_timeout_write dev rrst ofs count f =
     elem_write 2 (uint (seqrec_max f)) (edgx_frer_seqrec_set_rrst dev rrst) ofs count f"

text \<open>The files of the three flags do not check the element number, which is cut to 16 bits.\<close>

definition seqrec_sysfs_set_bool :: "device \<Rightarrow> int \<Rightarrow> int \<Rightarrow> u8 \<Rightarrow> seqrec_field \<Rightarrow> frer \<Rightarrow> (int \<times> frer) option" where
  "seqrec_sysfs_set_bool dev ofs count val field f = do {
     r \<leftarrow> edgx_sysfs_tbl_params ofs count 1;
     case r of Inl e \<Rightarrow> Some (- EINVAL, f)
     | Inr idx \<Rightarrow> do {
         (ret, f) \<leftarrow> edgx_frer_seqrec_set_rbt_bool dev val (word_of_int idx) field f;
         Some (if ret \<noteq> 0 then ret else count, f)
       }
   }"

definition seqrec_take_no_seq_write :: "device \<Rightarrow> u8 \<Rightarrow> int \<Rightarrow> int \<Rightarrow> frer \<Rightarrow> (int \<times> frer) option" where
  "seqrec_take_no_seq_write dev val ofs count f = seqrec_sysfs_set_bool dev ofs count val SEQREC_NO_SEQ f"

definition seqrec_ind_recv_write :: "device \<Rightarrow> u8 \<Rightarrow> int \<Rightarrow> int \<Rightarrow> frer \<Rightarrow> (int \<times> frer) option" where
  "seqrec_ind_recv_write dev val ofs count f = seqrec_sysfs_set_bool dev ofs count val SEQREC_IND_REC f"

definition seqrec_latent_err_write :: "device \<Rightarrow> u8 \<Rightarrow> int \<Rightarrow> int \<Rightarrow> frer \<Rightarrow> (int \<times> frer) option" where
  "seqrec_latent_err_write dev val ofs count f =
     (if val \<noteq> 0 then Some (- EPERM, f) else seqrec_sysfs_set_bool dev ofs count val SEQREC_LAT_ERR f)"

definition seqrec_add_pt_store where
  "seqrec_add_pt_store dev p = store_num (edgx_frer_seqrec_addport dev p)"

definition seqrec_del_pt_store where
  "seqrec_del_pt_store p = store_num (\<lambda>fnidx f. Some (edgx_frer_seqrec_delport p fnidx f))"

definition seqrec_del_fn_store where
  "seqrec_del_fn_store dev = store_num (edgx_frer_seqrec_delfn dev)"

definition seqrec_fn2sid_read :: "int \<Rightarrow> int \<Rightarrow> frer \<Rightarrow> (int \<times> u16 list) option" where
  "seqrec_fn2sid_read ofs count f = fn2sid_read (\<lambda>fn. map_option sr_list (seqrec_rbt_search (sr_root f) fn)) ofs count f"

definition seqrec_get :: "(seqrec \<Rightarrow> 'v) \<Rightarrow> frer \<Rightarrow> u16 \<Rightarrow> int + 'v" where
  "seqrec_get get f fn = (case seqrec_rbt_search (sr_root f) fn of None \<Rightarrow> Inl (- ENOENT) | Some n \<Rightarrow> Inr (get n))"

definition seqrec_dir_read :: "int \<Rightarrow> int \<Rightarrow> frer \<Rightarrow> (int \<times> u8 option) option" where
  "seqrec_dir_read ofs count f = elem_read 1 (uint (seqrec_max f)) (seqrec_get sr_dir f) ofs count"

definition seqrec_alg_read :: "int \<Rightarrow> int \<Rightarrow> frer \<Rightarrow> (int \<times> u32 option) option" where
  "seqrec_alg_read ofs count f = elem_read 4 (uint (seqrec_max f)) (seqrec_get (\<lambda>n. ucast (alg_code (sr_alg n))) f) ofs count"

definition seqrec_histlen_read :: "int \<Rightarrow> int \<Rightarrow> frer \<Rightarrow> (int \<times> u8 option) option" where
  "seqrec_histlen_read ofs count f = elem_read 1 (uint (seqrec_max f)) (seqrec_get sr_hist_len f) ofs count"

definition seqrec_rst_timeout_read :: "int \<Rightarrow> int \<Rightarrow> frer \<Rightarrow> (int \<times> u16 option) option" where
  "seqrec_rst_timeout_read ofs count f = elem_read 2 (uint (seqrec_max f)) (seqrec_get sr_rcv_rst f) ofs count"

definition seqrec_take_no_seq_read :: "int \<Rightarrow> int \<Rightarrow> frer \<Rightarrow> (int \<times> u8 option) option" where
  "seqrec_take_no_seq_read ofs count f = elem_read 1 (uint (seqrec_max f)) (seqrec_get sr_take_no_seq f) ofs count"

definition seqrec_ind_recv_read :: "int \<Rightarrow> int \<Rightarrow> frer \<Rightarrow> (int \<times> u8 option) option" where
  "seqrec_ind_recv_read ofs count f = elem_read 1 (uint (seqrec_max f)) (seqrec_get sr_ind_rec f) ofs count"

definition seqrec_latent_err_read :: "int \<Rightarrow> int \<Rightarrow> frer \<Rightarrow> (int \<times> u8 option) option" where
  "seqrec_latent_err_read ofs count f = elem_read 1 (uint (seqrec_max f)) (seqrec_get sr_lat_err f) ofs count"

definition seqrec_pt_mask_read :: "int \<Rightarrow> int \<Rightarrow> frer \<Rightarrow> (int \<times> u16 option) option" where
  "seqrec_pt_mask_read ofs count f = elem_read 2 (uint (seqrec_max f)) (seqrec_get (\<lambda>n. push_bit 1 (sr_ptmask n)) f) ofs count"

definition seqrec_cnt_show :: "frer \<Rightarrow> u16" where
  "seqrec_cnt_show f = seqreccnt f"

definition seqrec_invseq_show :: u32 where
  "seqrec_invseq_show = 65536"

definition seqrec_list_all_fn_read :: "int \<Rightarrow> int \<Rightarrow> frer \<Rightarrow> (int \<times> u16 list) option" where
  "seqrec_list_all_fn_read ofs count f = all_fn_read (map sr_fnidx (sr_root f)) ofs count f"

section \<open>Counters\<close>

text \<open>A counter of two registers, of which the low one is named, after a capture of all counters.\<close>

definition cnt_rd :: "nat \<Rightarrow> frer \<Rightarrow> u32" where
  "cnt_rd reg f = ucast (fr_rd (0xF000 + reg) f) OR push_bit 16 (ucast (fr_rd (0xF000 + (reg + 2)) f))"

definition edgx_frer_ip_perfn_cnt :: "device \<Rightarrow> u16 \<Rightarrow> nat \<Rightarrow> frer \<Rightarrow> (u32 \<times> frer) option" where
  "edgx_frer_ip_perfn_cnt dev fnidx cnt f = do {
     f \<leftarrow> fr_wait dev (0xF000 + 0x0) 1 (fr_wr (0xF000 + 0x2) fnidx f);
     Some (if cnt \<in> {0x200, 0x202} then cnt_rd 0x200 f
           else if cnt \<in> {0x204, 0x206} then cnt_rd 0x204 f
           else if cnt \<in> {0x208, 0x20A} then cnt_rd 0x208 f else 0, f)
   }"

definition edgx_frer_ip_ppps_cnt :: "device \<Rightarrow> u16 \<Rightarrow> u8 \<Rightarrow> nat \<Rightarrow> frer \<Rightarrow> (u32 \<times> frer) option" where
  "edgx_frer_ip_ppps_cnt dev strhdl port cnt f = do {
     f \<leftarrow> fr_wait dev (0xF000 + 0x0) 0x20 (fr_wr (0xF000 + 0x6) (ucast port OR push_bit 4 strhdl) f);
     Some (if cnt \<in> {0x308, 0x30A} then cnt_rd 0x308 f
           else if cnt \<in> {0x30C, 0x30E} then cnt_rd 0x30C f
           else if cnt \<in> {0x310, 0x312} then cnt_rd 0x310 f
           else if cnt \<in> {0x314, 0x316} then cnt_rd 0x314 f else 0, f)
   }"

text \<open>The files of a port give the counter of a stream that an applied function recovers on the port.\<close>

definition cnt_pt_read ::
    "(u16 \<Rightarrow> frer \<Rightarrow> (u32 \<times> frer) option) \<Rightarrow> nat \<Rightarrow> int \<Rightarrow> int \<Rightarrow> frer \<Rightarrow> (int \<times> u32 option \<times> frer) option" where
  "cnt_pt_read get p ofs count f = do {
     r \<leftarrow> edgx_sysfs_tbl_params ofs count 4;
     case r of Inl e \<Rightarrow> Some (- EINVAL, None, f)
     | Inr idx \<Rightarrow>
         if idx \<ge> uint (streams_max f) then Some (- EINVAL, None, f)
         else if \<not> is_seqrec_strhdl_used f (word_of_int idx) p then Some (- EINVAL, None, f)
         else do { (v, f) \<leftarrow> get (word_of_int idx) f; Some (count, Some v, f) }
   }"

definition cnt_sr_out_of_order_read where
  "cnt_sr_out_of_order_read dev p = cnt_pt_read (\<lambda>str. edgx_frer_ip_ppps_cnt dev str (of_nat p) 0x308) p"

definition cnt_sr_rogue_read where
  "cnt_sr_rogue_read dev p = cnt_pt_read (\<lambda>str. edgx_frer_ip_ppps_cnt dev str (of_nat p) 0x30C) p"

definition cnt_tagless_read where
  "cnt_tagless_read dev p = cnt_pt_read (\<lambda>str. edgx_frer_ip_ppps_cnt dev str (of_nat p) 0x310) p"

definition cnt_sr_discarded_read where
  "cnt_sr_discarded_read dev p = cnt_pt_read (\<lambda>str. edgx_frer_ip_ppps_cnt dev str (of_nat p) 0x314) p"

text \<open>The passed frames are counted by the stream identification, a parameter.\<close>

definition cnt_sr_passed_read :: "(u16 \<Rightarrow> nat \<Rightarrow> u32) \<Rightarrow> nat \<Rightarrow> int \<Rightarrow> int \<Rightarrow> frer \<Rightarrow> (int \<times> u32 option \<times> frer) option" where
  "cnt_sr_passed_read sid_cnt p = cnt_pt_read (\<lambda>str f. Some (sid_cnt str p, f)) p"

definition cnt_fn_read ::
    "(u16 \<Rightarrow> frer \<Rightarrow> (u32 \<times> frer) option) \<Rightarrow> int \<Rightarrow> int \<Rightarrow> frer \<Rightarrow> (int \<times> u32 option \<times> frer) option" where
  "cnt_fn_read get ofs count f = do {
     r \<leftarrow> edgx_sysfs_tbl_params ofs count 4;
     case r of Inl e \<Rightarrow> Some (- EINVAL, None, f)
     | Inr idx \<Rightarrow>
         if idx \<ge> uint (seqrec_max f) then Some (- EINVAL, None, f)
         else case seqrec_rbt_search (sr_root f) (word_of_int idx) of None \<Rightarrow> Some (- ENOENT, None, f)
              | Some n \<Rightarrow> do { (v, f) \<leftarrow> get (word_of_int idx) f; Some (count, Some v, f) }
   }"

definition cnt_sr_lost_read where
  "cnt_sr_lost_read dev = cnt_fn_read (\<lambda>fn f. do {
     (cnt1, f) \<leftarrow> edgx_frer_ip_perfn_cnt dev fn 0x204 f;
     (cnt2, f) \<leftarrow> edgx_frer_ip_perfn_cnt dev fn 0x208 f;
     Some (cnt1 - cnt2, f)
   })"

definition cnt_sr_resets_read where
  "cnt_sr_resets_read dev = cnt_fn_read (\<lambda>fn f. do {
     (cnt, f) \<leftarrow> edgx_frer_ip_perfn_cnt dev fn 0x200 f;
     Some (cnt + 1, f)
   })"

section \<open>Probe\<close>

text \<open>\<open>ifd\<close>: the register base of the interface if the switch has it.\<close>

definition edgx_probe_frer :: "nat option \<Rightarrow> bool \<Rightarrow> edgx_br \<Rightarrow> edgx_brfdb \<Rightarrow> iomem \<Rightarrow> (int + frer) option" where
  "edgx_probe_frer ifd alloc_ok br fdb io =
     (case ifd of None \<Rightarrow> Some (Inl (- ENODEV))
      | Some base \<Rightarrow>
          if \<not> alloc_ok then Some (Inl (- ENOMEM))
          else do {
            n \<leftarrow> edgx_brfdb_sid_get_max_str fdb io;
            Some (Inr (calc_rcv_rst \<lparr>fr_br = br, fr_iobase = base, sg_root = [], se_root = [], sr_root = [],
              se_ports = replicate 16 \<lparr>se_list = [], se_active = ENC_UNDEFINED\<rparr>,
              seqrec_max = ucast (edgx_br_get_generic_pow2 io br 0x26), streams_max = n,
              seqgencnt = 0, seqreccnt = 0, seqrec_rst = replicate 16 0, fr_io = io\<rparr>))
          })"

end
