(* ===== verification/FrerTab.thy ===== *)
theory FrerTab
  imports FrerFiles
begin

text \<open>
  What the frame replication relies on: the laws of its search trees, stated once and interpreted on
  the three trees, and the contract of the stream table and of the recovery table in the hardware, with
  the effect of the table accesses of the driver.
\<close>

unbundle bit_operations_syntax

section \<open>Trees as maps\<close>

locale rb_map =
  fixes key :: "'n \<Rightarrow> 'k::linorder"
    and search :: "'n list \<Rightarrow> 'k \<Rightarrow> 'n option"
    and insert_node :: "'n list \<Rightarrow> 'n \<Rightarrow> int \<times> 'n list"
  assumes search_eq: "sorted_wrt (<) (map key ns) \<Longrightarrow> search ns k = Some n \<longleftrightarrow> n \<in> set ns \<and> key n = k"
    and insert_new: "sorted_wrt (<) (map key ns) \<Longrightarrow> key n \<notin> key ` set ns \<Longrightarrow>
      \<exists>ns'. insert_node ns n = (0, ns') \<and> sorted_wrt (<) (map key ns') \<and> set ns' = insert n (set ns)"
begin

lemma search_None: "sorted_wrt (<) (map key ns) \<Longrightarrow> search ns k = None \<longleftrightarrow> k \<notin> key ` set ns"
proof -
  assume s: "sorted_wrt (<) (map key ns)"
  show ?thesis
  proof (cases "search ns k")
    case None
    then have "\<not> (n \<in> set ns \<and> key n = k)" for n using search_eq [OF s, of k n] by simp
    then show ?thesis using None by auto
  next
    case (Some n)
    then show ?thesis using search_eq [OF s, of k n] by auto
  qed
qed

lemma search_key: "sorted_wrt (<) (map key ns) \<Longrightarrow> search ns k = Some n \<Longrightarrow> key n = k"
  by (simp add: search_eq)

lemma search_in: "sorted_wrt (<) (map key ns) \<Longrightarrow> search ns k = Some n \<Longrightarrow> n \<in> set ns"
  by (simp add: search_eq)

lemma search_node: "sorted_wrt (<) (map key ns) \<Longrightarrow> n \<in> set ns \<Longrightarrow> search ns (key n) = Some n"
  by (simp add: search_eq)

text \<open>Two sequences with the same nodes are the same map.\<close>

lemma search_cong:
  assumes "sorted_wrt (<) (map key ns)" "sorted_wrt (<) (map key ns')" "\<And>n. key n = k \<Longrightarrow> n \<in> set ns' \<longleftrightarrow> n \<in> set ns"
  shows "search ns' k = search ns k"
proof (cases "search ns k")
  case None
  then have "k \<notin> key ` set ns'" using assms(3) search_None [OF assms(1)] by auto
  then show ?thesis using None search_None [OF assms(2)] by metis
next
  case (Some n)
  then have "n \<in> set ns'" "key n = k" using assms by (auto simp: search_eq)
  then show ?thesis using Some search_node [OF assms(2)] by metis
qed

lemma search_insert:
  assumes "sorted_wrt (<) (map key ns)" "search ns (key n) = None"
  obtains ns' where "insert_node ns n = (0, ns')" "sorted_wrt (<) (map key ns')" "set ns' = insert n (set ns)"
    "\<And>k. search ns' k = (if k = key n then Some n else search ns k)"
proof -
  have "key n \<notin> key ` set ns" using assms by (simp add: search_None)
  from insert_new [OF assms(1) this] obtain ns' where ns': "insert_node ns n = (0, ns')"
    "sorted_wrt (<) (map key ns')" "set ns' = insert n (set ns)" by blast
  have "search ns' k = (if k = key n then Some n else search ns k)" for k
  proof (cases "k = key n")
    case True
    then show ?thesis using ns' search_node [OF ns'(2), of n] by simp
  next
    case False
    then show ?thesis using ns' by (auto intro: search_cong [OF assms(1)])
  qed
  with ns' show thesis by (rule that)
qed

lemma sorted_erase: "sorted_wrt (<) (map key ns) \<Longrightarrow> sorted_wrt (<) (map key (rb_erase key k ns))"
  unfolding rb_erase_def by (induction ns) auto

lemma search_erase:
  assumes "sorted_wrt (<) (map key ns)"
  shows "search (rb_erase key k ns) k' = (if k' = k then None else search ns k')"
proof (cases "k' = k")
  case True
  then show ?thesis using search_None [OF sorted_erase [OF assms]] by (auto simp: rb_erase_def)
next
  case False
  then show ?thesis using search_cong [OF assms sorted_erase [OF assms]] by (auto simp: rb_erase_def)
qed

lemma map_key_upd: "(\<And>n. key (u n) = key n) \<Longrightarrow> map key (upd_node key k u ns) = map key ns"
  by (auto simp: upd_node_def)

lemma search_upd:
  assumes "sorted_wrt (<) (map key ns)" "\<And>n. key (u n) = key n"
  shows "search (upd_node key k u ns) k' = (if k' = k then map_option u (search ns k') else search ns k')"
proof -
  have s: "sorted_wrt (<) (map key (upd_node key k u ns))" using assms(1) by (simp add: map_key_upd assms(2))
  show ?thesis
  proof (cases "search ns k'")
    case None
    then have "k' \<notin> set (map key ns)" using assms(1) by (simp add: search_None)
    then have "k' \<notin> set (map key (upd_node key k u ns))" by (simp only: map_key_upd [OF assms(2)] not_False_eq_True)
    then have "search (upd_node key k u ns) k' = None" using search_None [OF s] by simp
    then show ?thesis using None by (cases "k' = k") simp_all
  next
    case (Some n)
    then have n: "n \<in> set ns" "key n = k'" using assms(1) by (auto simp: search_eq)
    then have "(if k' = k then u n else n) \<in> set (upd_node key k u ns)" by (auto simp: upd_node_def)
    from search_node [OF s this] show ?thesis using Some n(2) assms(2) by (auto split: if_split_asm)
  qed
qed

end

lemma rb_search_eq:
  "sorted_wrt (<) (map key ns) \<Longrightarrow> rb_search key ns k = Some n \<longleftrightarrow> n \<in> set ns \<and> key n = k"
  by (induction ns) auto

lemma rb_insert_new:
  "sorted_wrt (<) (map key ns) \<Longrightarrow> key n \<notin> key ` set ns \<Longrightarrow>
   \<exists>ns'. rb_insert key ns n = (0, ns') \<and> sorted_wrt (<) (map key ns') \<and> set ns' = insert n (set ns)"
proof (induction ns)
  case (Cons m ns)
  show ?case
  proof (cases "key n < key m")
    case True
    then show ?thesis using Cons.prems by (auto dest: less_trans)
  next
    case False
    then have "key m < key n" using Cons.prems(2) by auto
    moreover obtain ns' where "rb_insert key ns n = (0, ns')" "sorted_wrt (<) (map key ns')" "set ns' = insert n (set ns)"
      using Cons by auto
    ultimately show ?thesis using Cons.prems by auto
  qed
qed simp

interpretation sg: rb_map sg_fnidx seqgen_rbt_search seqgen_rbt_insert_node
  unfolding seqgen_rbt_search_def seqgen_rbt_insert_node_def
  by unfold_locales (simp_all add: rb_search_eq rb_insert_new)

interpretation se: rb_map ss_strhdl seqenc_rbt_search seqenc_rbt_insert_node
  unfolding seqenc_rbt_search_def seqenc_rbt_insert_node_def
  by unfold_locales (simp_all add: rb_search_eq rb_insert_new)

interpretation sr: rb_map sr_fnidx seqrec_rbt_search seqrec_rbt_insert_node
  unfolding seqrec_rbt_search_def seqrec_rbt_insert_node_def
  by unfold_locales (simp_all add: rb_search_eq rb_insert_new)

section \<open>The hardware tables\<close>

text \<open>
  The contract of the device: \<open>tab io s t\<close> is word \<open>t\<close> of row \<open>s\<close> of the stream table. A command of the
  stream table with bit 14 stores the data registers in the row of its low twelve bits and leaves the
  registers alone, one without loads them. Neither a command of the recovery table nor the reset of a
  generation function changes the stream table. All end.
\<close>

definition frer_contract ::
    "device \<Rightarrow> nat \<Rightarrow> (iomem \<Rightarrow> u16 \<Rightarrow> frer_tbl \<Rightarrow> u16) \<Rightarrow> bool" where
  "frer_contract dev base tab \<longleftrightarrow>
     (\<forall>io cmd. bit cmd 15 \<longrightarrow>
        (\<exists>io'. wait_clear dev (\<lambda>io. edgx_rd16 io base STREAM_CMD AND 0x8000 \<noteq> 0) (edgx_wr16 io base STREAM_CMD cmd) = Some io'
           \<and> (if bit cmd 14 then tab io' = (tab io)(cmd AND 0xFFF := (\<lambda>t. edgx_rd16 io base (strtbl_reg t)))
                \<and> (\<forall>t. edgx_rd16 io' base (strtbl_reg t) = edgx_rd16 io base (strtbl_reg t))
              else tab io' = tab io \<and> (\<forall>t. edgx_rd16 io' base (strtbl_reg t) = tab io (cmd AND 0xFFF) t))))
   \<and> (\<forall>io fn. fn < 0x1000 \<longrightarrow>
        (\<exists>io'. wait_clear dev (\<lambda>io. edgx_rd16 io base SEQ_REC_CMD AND 0x8000 \<noteq> 0) (edgx_wr16 io base SEQ_REC_CMD (0xC000 OR fn)) = Some io'
           \<and> tab io' = tab io))
   \<and> (\<forall>io fn. fn < 0x1000 \<longrightarrow>
        (\<exists>io'. wait_clear dev (\<lambda>io. edgx_rd16 io base SEQ_GEN_CMD AND 0x2000 \<noteq> 0) (edgx_wr16 io base SEQ_GEN_CMD (fn OR 0x2000)) = Some io'
           \<and> tab io' = tab io))
   \<and> (\<forall>io t v. tab (edgx_wr16 io base (strtbl_reg t) v) = tab io)
   \<and> (\<forall>io v. tab (edgx_wr16 io base SEQ_REC_TBL v) = tab io)"

lemma bit_16_consts:
  "bit (0x8000 :: u16) n \<longleftrightarrow> n = 15" "bit (0xC000 :: u16) n \<longleftrightarrow> n = 14 \<or> n = 15"
  "bit (0xFFF :: u16) n \<longleftrightarrow> n < 12" "bit (0x2000 :: u16) n \<longleftrightarrow> n = 13"
proof -
  have "(0x8000 :: u16) = 2 ^ 15" "(0xC000 :: u16) = 2 ^ 15 OR 2 ^ 14" "(0xFFF :: u16) = mask 12" "(0x2000 :: u16) = 2 ^ 13"
    by (simp_all add: mask_eq_exp_minus_1)
  then show "bit (0x8000 :: u16) n \<longleftrightarrow> n = 15" "bit (0xC000 :: u16) n \<longleftrightarrow> n = 14 \<or> n = 15"
    "bit (0xFFF :: u16) n \<longleftrightarrow> n < 12" "bit (0x2000 :: u16) n \<longleftrightarrow> n = 13"
    by (auto simp only: bit_or_iff bit_exp_iff bit_mask_iff) auto
qed

lemma bit15: "v AND 0x8000 \<noteq> (0 :: u16) \<longleftrightarrow> bit v 15"
proof -
  have "(0x8000 :: u16) = 2 ^ 15" by simp
  then show ?thesis by (simp only: and_exp_eq_0_iff_not_bit not_not)
qed

lemma and_0xFFF: "(s :: u16) < 0x1000 \<Longrightarrow> s AND 0xFFF = s"
  using and_mask_12 [of s] by (simp add: mask_eq_exp_minus_1)

lemma small_bit_12: "(s :: u16) < 0x1000 \<Longrightarrow> 12 \<le> n \<Longrightarrow> \<not> bit s n"
  using arg_cong [OF and_0xFFF, of s "\<lambda>x. bit x n"] by (simp only: bit_and_iff bit_16_consts) simp

lemma str_cmd:
  assumes "(s :: u16) < 0x1000"
  shows "(0x8000 OR s) AND 0xFFF = s" "(0xC000 OR s) AND 0xFFF = s"
    "bit (0x8000 OR s) 15" "bit (0xC000 OR s) 15" "\<not> bit (0x8000 OR s) 14" "bit (0xC000 OR s) 14"
proof -
  have z: "(0x8000 :: u16) AND 0xFFF = 0" "(0xC000 :: u16) AND 0xFFF = 0" by simp_all
  show "(0x8000 OR s) AND 0xFFF = s" "(0xC000 OR s) AND 0xFFF = s"
    by (simp_all only: bit.conj_disj_distrib2 z and_0xFFF [OF assms] or.left_neutral)
  show "bit (0x8000 OR s) 15" "bit (0xC000 OR s) 15" "\<not> bit (0x8000 OR s) 14" "bit (0xC000 OR s) 14"
    using small_bit_12 [OF assms] by (simp_all only: bit_or_iff bit_16_consts) simp_all
qed

lemma strtbl_reg_inj [simp]: "strtbl_reg t = strtbl_reg t' \<longleftrightarrow> t = t'"
  by (cases t; cases t') simp_all

text \<open>The word that a write stores.\<close>

definition strval :: "frer_tbl \<Rightarrow> bool \<Rightarrow> u16 \<Rightarrow> u16" where
  "strval t del v = (if t = FRER_TBL0 \<or> t = FRER_TBL1 then v else if \<not> del then v OR 0x8000 else v AND NOT 0x8000)"

lemma str_cmdD:
  assumes "frer_contract dev (fr_iobase f) tab" "bit cmd 15"
  obtains io' where "fr_wait dev STREAM_CMD 0x8000 (fr_wr STREAM_CMD cmd f) = Some (f\<lparr>fr_io := io'\<rparr>)"
    "bit cmd 14 \<Longrightarrow> tab io' = (tab (fr_io f))(cmd AND 0xFFF := (\<lambda>t. fr_rd (strtbl_reg t) f))
       \<and> (\<forall>t. fr_rd (strtbl_reg t) (f\<lparr>fr_io := io'\<rparr>) = fr_rd (strtbl_reg t) f)"
    "\<not> bit cmd 14 \<Longrightarrow> tab io' = tab (fr_io f) \<and> (\<forall>t. fr_rd (strtbl_reg t) (f\<lparr>fr_io := io'\<rparr>) = tab (fr_io f) (cmd AND 0xFFF) t)"
proof -
  from assms obtain io' where
    "wait_clear dev (\<lambda>io. edgx_rd16 io (fr_iobase f) STREAM_CMD AND 0x8000 \<noteq> 0) (edgx_wr16 (fr_io f) (fr_iobase f) STREAM_CMD cmd) = Some io'"
    "if bit cmd 14 then tab io' = (tab (fr_io f))(cmd AND 0xFFF := (\<lambda>t. edgx_rd16 (fr_io f) (fr_iobase f) (strtbl_reg t)))
       \<and> (\<forall>t. edgx_rd16 io' (fr_iobase f) (strtbl_reg t) = edgx_rd16 (fr_io f) (fr_iobase f) (strtbl_reg t))
     else tab io' = tab (fr_io f) \<and> (\<forall>t. edgx_rd16 io' (fr_iobase f) (strtbl_reg t) = tab (fr_io f) (cmd AND 0xFFF) t)"
    unfolding frer_contract_def by blast
  then show thesis by (intro that [of io']) (simp_all add: fr_wait_def fr_wr_def fr_rd_def)
qed

lemma rd_strD:
  assumes "frer_contract dev (fr_iobase f) tab" "s < 0x1000"
  obtains io' where "edgx_frer_ip_rd_strtbl dev s t f = Some (tab (fr_io f) s t, f\<lparr>fr_io := io'\<rparr>)"
    "tab io' = tab (fr_io f)" "\<And>t. edgx_rd16 io' (fr_iobase f) (strtbl_reg t) = tab (fr_io f) s t"
proof -
  note c = str_cmd [OF assms(2)]
  obtain io' where "fr_wait dev STREAM_CMD 0x8000 (fr_wr STREAM_CMD (0x8000 OR s) f) = Some (f\<lparr>fr_io := io'\<rparr>)"
    "tab io' = tab (fr_io f) \<and> (\<forall>t. fr_rd (strtbl_reg t) (f\<lparr>fr_io := io'\<rparr>) = tab (fr_io f) s t)"
    using str_cmdD [OF assms(1) c(3)] c(5) unfolding c(1) by blast
  then show thesis by (intro that [of io']) (simp_all add: edgx_frer_ip_rd_strtbl_def fr_rd_def)
qed

text \<open>A read with any handle returns and changes at most the row that the handle denotes.\<close>

lemma rd_anyD:
  assumes "frer_contract dev (fr_iobase f) tab"
  obtains v io' where "edgx_frer_ip_rd_strtbl dev s t f = Some (v, f\<lparr>fr_io := io'\<rparr>)"
    "\<And>r. r \<noteq> s AND 0xFFF \<Longrightarrow> tab io' r = tab (fr_io f) r"
proof -
  have b: "bit (0x8000 OR s) 15" by (simp only: bit_or_iff bit_16_consts) simp
  have z: "(0x8000 OR s) AND 0xFFF = s AND 0xFFF" by (simp add: bit.conj_disj_distrib2)
  obtain io' where io': "fr_wait dev STREAM_CMD 0x8000 (fr_wr STREAM_CMD (0x8000 OR s) f) = Some (f\<lparr>fr_io := io'\<rparr>)"
    "bit (0x8000 OR s) 14 \<Longrightarrow> tab io' = (tab (fr_io f))(s AND 0xFFF := (\<lambda>t. fr_rd (strtbl_reg t) f))"
    "\<not> bit (0x8000 OR s) 14 \<Longrightarrow> tab io' = tab (fr_io f)"
    using str_cmdD [OF assms b] unfolding z by blast
  have "tab io' r = tab (fr_io f) r" if "r \<noteq> s AND 0xFFF" for r
    using io'(2,3) that by (cases "bit (0x8000 OR s) 14") simp_all
  with io'(1) show thesis
    by (intro that [of "fr_rd (strtbl_reg t) (f\<lparr>fr_io := io'\<rparr>)" io']) (simp_all add: edgx_frer_ip_rd_strtbl_def)
qed

lemma wr_strD:
  assumes c: "frer_contract dev (fr_iobase f) tab" and s: "s < 0x1000"
  obtains io' where "edgx_frer_ip_wr_strtbl dev s v t del f = Some (f\<lparr>fr_io := io'\<rparr>)"
    "tab io' = (tab (fr_io f))(s := (tab (fr_io f) s)(t := strval t del v))"
proof -
  let ?b = "fr_iobase f"
  note cmd = str_cmd [OF s]
  obtain io1 where 1: "edgx_frer_ip_rd_strtbl dev s FRER_TBL0 f = Some (tab (fr_io f) s FRER_TBL0, f\<lparr>fr_io := io1\<rparr>)"
    "tab io1 = tab (fr_io f)" "\<And>t. edgx_rd16 io1 ?b (strtbl_reg t) = tab (fr_io f) s t"
    using rd_strD [OF assms, where t = FRER_TBL0] by blast
  define f2 where "f2 = fr_wr (strtbl_reg t) (strval t del v) (f\<lparr>fr_io := io1\<rparr>)"
  have f2: "fr_iobase f2 = ?b" "f2\<lparr>fr_io := i\<rparr> = f\<lparr>fr_io := i\<rparr>" "fr_io f2 = edgx_wr16 io1 ?b (strtbl_reg t) (strval t del v)" for i
    by (simp_all add: f2_def fr_wr_def)
  have "tab (edgx_wr16 io1 ?b (strtbl_reg t) x) = tab io1" for x
    using c unfolding frer_contract_def by blast
  then have t2: "tab (fr_io f2) = tab (fr_io f)" by (simp_all add: f2 1)
  have r2: "(\<lambda>t. fr_rd (strtbl_reg t) f2) = (tab (fr_io f) s)(t := strval t del v)"
    by (rule ext) (simp add: fr_rd_def f2 1(3))
  have "frer_contract dev (fr_iobase f2) tab" using c by (simp add: f2)
  from str_cmdD [OF this cmd(4)] obtain io' where
    io': "fr_wait dev STREAM_CMD 0x8000 (fr_wr STREAM_CMD (0xC000 OR s) f2) = Some (f2\<lparr>fr_io := io'\<rparr>)"
    "tab io' = (tab (fr_io f2))((0xC000 OR s) AND 0xFFF := (\<lambda>t. fr_rd (strtbl_reg t) f2))"
    using cmd(6) by metis
  have "edgx_frer_ip_wr_strtbl dev s v t del f = Some (f\<lparr>fr_io := io'\<rparr>)"
    unfolding edgx_frer_ip_wr_strtbl_def 1(1) Let_def strval_def [symmetric]
    using io'(1) by (simp add: f2_def f2(2) [unfolded f2_def])
  then show thesis using io'(2) unfolding cmd(2) t2 r2 by (rule that)
qed

text \<open>A handle whose bit 14 is clear denotes the row of its low twelve bits, for reads and for writes.\<close>

lemma rd_plainD:
  assumes "frer_contract dev (fr_iobase f) tab" "\<not> bit s 14"
  obtains io' where "edgx_frer_ip_rd_strtbl dev s t f = Some (tab (fr_io f) (s AND 0xFFF) t, f\<lparr>fr_io := io'\<rparr>)"
    "tab io' = tab (fr_io f)" "\<And>t. edgx_rd16 io' (fr_iobase f) (strtbl_reg t) = tab (fr_io f) (s AND 0xFFF) t"
proof -
  have b: "bit (0x8000 OR s) 15" "\<not> bit (0x8000 OR s) 14" using assms(2) by (simp_all only: bit_or_iff bit_16_consts) simp_all
  have z: "(0x8000 OR s) AND 0xFFF = s AND 0xFFF" by (simp add: bit.conj_disj_distrib2)
  obtain io' where "fr_wait dev STREAM_CMD 0x8000 (fr_wr STREAM_CMD (0x8000 OR s) f) = Some (f\<lparr>fr_io := io'\<rparr>)"
    "tab io' = tab (fr_io f) \<and> (\<forall>t. fr_rd (strtbl_reg t) (f\<lparr>fr_io := io'\<rparr>) = tab (fr_io f) (s AND 0xFFF) t)"
    using str_cmdD [OF assms(1) b(1)] b(2) unfolding z by blast
  then show thesis by (intro that [of io']) (simp_all add: edgx_frer_ip_rd_strtbl_def fr_rd_def)
qed

lemma wr_plainD:
  assumes c: "frer_contract dev (fr_iobase f) tab" and s: "\<not> bit s 14"
  obtains io' where "edgx_frer_ip_wr_strtbl dev s v t del f = Some (f\<lparr>fr_io := io'\<rparr>)"
    "tab io' = (tab (fr_io f))(s AND 0xFFF := (tab (fr_io f) (s AND 0xFFF))(t := strval t del v))"
proof -
  let ?b = "fr_iobase f" and ?s = "s AND 0xFFF"
  have b: "bit (0xC000 OR s) 15" "bit (0xC000 OR s) 14" by (simp_all only: bit_or_iff bit_16_consts) simp_all
  have z: "(0xC000 OR s) AND 0xFFF = ?s" by (simp add: bit.conj_disj_distrib2)
  obtain io1 where 1: "edgx_frer_ip_rd_strtbl dev s FRER_TBL0 f = Some (tab (fr_io f) ?s FRER_TBL0, f\<lparr>fr_io := io1\<rparr>)"
    "tab io1 = tab (fr_io f)" "\<And>t. edgx_rd16 io1 ?b (strtbl_reg t) = tab (fr_io f) ?s t"
    using rd_plainD [OF assms, where t = FRER_TBL0] by blast
  define f2 where "f2 = fr_wr (strtbl_reg t) (strval t del v) (f\<lparr>fr_io := io1\<rparr>)"
  have f2: "fr_iobase f2 = ?b" "f2\<lparr>fr_io := i\<rparr> = f\<lparr>fr_io := i\<rparr>" "fr_io f2 = edgx_wr16 io1 ?b (strtbl_reg t) (strval t del v)" for i
    by (simp_all add: f2_def fr_wr_def)
  have "tab (edgx_wr16 io1 ?b (strtbl_reg t) x) = tab io1" for x
    using c unfolding frer_contract_def by blast
  then have t2: "tab (fr_io f2) = tab (fr_io f)" by (simp_all add: f2 1)
  have r2: "(\<lambda>t. fr_rd (strtbl_reg t) f2) = (tab (fr_io f) ?s)(t := strval t del v)"
    by (rule ext) (simp add: fr_rd_def f2 1(3))
  have "frer_contract dev (fr_iobase f2) tab" using c by (simp add: f2)
  from str_cmdD [OF this b(1)] obtain io' where
    io': "fr_wait dev STREAM_CMD 0x8000 (fr_wr STREAM_CMD (0xC000 OR s) f2) = Some (f2\<lparr>fr_io := io'\<rparr>)"
    "tab io' = (tab (fr_io f2))((0xC000 OR s) AND 0xFFF := (\<lambda>t. fr_rd (strtbl_reg t) f2))"
    using b(2) by metis
  have "edgx_frer_ip_wr_strtbl dev s v t del f = Some (f\<lparr>fr_io := io'\<rparr>)"
    unfolding edgx_frer_ip_wr_strtbl_def 1(1) Let_def strval_def [symmetric]
    using io'(1) by (simp add: f2_def f2(2) [unfolded f2_def])
  then show thesis using io'(2) unfolding z t2 r2 by (rule that)
qed

lemma seqgen_resetD:
  assumes "frer_contract dev (fr_iobase f) tab" "fn < 0x1000"
  obtains io' where "seqgen_ip_reset dev fn f = Some (f\<lparr>fr_io := io'\<rparr>)" "tab io' = tab (fr_io f)"
proof -
  from assms obtain io' where
    "wait_clear dev (\<lambda>io. edgx_rd16 io (fr_iobase f) SEQ_GEN_CMD AND 0x2000 \<noteq> 0) (edgx_wr16 (fr_io f) (fr_iobase f) SEQ_GEN_CMD (fn OR 0x2000)) = Some io'"
    "tab io' = tab (fr_io f)" unfolding frer_contract_def by blast
  then show thesis by (intro that [of io']) (simp_all add: seqgen_ip_reset_def fr_wait_def fr_wr_def)
qed

lemma wr_seqrecD:
  assumes c: "frer_contract dev (fr_iobase f) tab" and fn: "fn < 0x1000"
  obtains io' where "edgx_frer_ip_wr_seqrectbl dev fn v f = Some (f\<lparr>fr_io := io'\<rparr>)" "tab io' = tab (fr_io f)"
proof -
  define io1 where "io1 = edgx_wr16 (fr_io f) (fr_iobase f) SEQ_REC_TBL v"
  have 1: "tab io1 = tab (fr_io f)" using c unfolding frer_contract_def io1_def by blast+
  from assms obtain io' where
    "wait_clear dev (\<lambda>io. edgx_rd16 io (fr_iobase f) SEQ_REC_CMD AND 0x8000 \<noteq> 0) (edgx_wr16 io1 (fr_iobase f) SEQ_REC_CMD (0xC000 OR fn)) = Some io'"
    "tab io' = tab io1" unfolding frer_contract_def by blast
  then show thesis
    by (intro that [of io']) (simp_all add: edgx_frer_ip_wr_seqrectbl_def fr_wait_def fr_wr_def 1, simp_all add: io1_def)
qed

lemma seqfn_enabledD:
  assumes "frer_contract dev (fr_iobase f) tab" "s < 0x1000"
  obtains io' where "edgx_frer_seqfn_enabled dev s t f = Some (bit (tab (fr_io f) s t) 15, f\<lparr>fr_io := io'\<rparr>)"
    "tab io' = tab (fr_io f)"
  by (rule rd_strD [OF assms, of t]) (simp add: edgx_frer_seqfn_enabled_def bit15)

end
