(* ===== verification/FrerEncInv.thy ===== *)
theory FrerEncInv
  imports FrerTab
begin

text \<open>
  The invariant of the sequence encoding: the lists of the ports, the masks of the streams and the two
  words of the stream table agree; and that every operation of the encoding preserves it.
\<close>

unbundle bit_operations_syntax

section \<open>Invariant\<close>

definition port_mask :: "frer \<Rightarrow> u16 \<Rightarrow> u16" where
  "port_mask f s = (case seqenc_rbt_search (se_root f) s of None \<Rightarrow> 0 | Some n \<Rightarrow> ss_port_mask n)"

definition port_streams :: "frer \<Rightarrow> nat \<Rightarrow> u16 set" where
  "port_streams f p = set (se_list (se_ports f ! p))"

definition enc_soft :: "frer \<Rightarrow> bool" where
  "enc_soft f \<longleftrightarrow> length (se_ports f) = 16 \<and> sorted_wrt (<) (map ss_strhdl (se_root f))
     \<and> (\<forall>n \<in> set (se_root f). ss_port_mask n \<noteq> 0 \<and> ss_strhdl n < streams_max f)
     \<and> (\<forall>p < 16. distinct (se_list (se_ports f ! p)) \<and> (\<forall>s. s \<in> port_streams f p \<longleftrightarrow> bit (port_mask f s) p)
          \<and> (se_active (se_ports f ! p) = ENC_UNDEFINED \<longrightarrow> se_list (se_ports f ! p) = []))"

definition enc_hard :: "(u16 \<Rightarrow> frer_tbl \<Rightarrow> u16) \<Rightarrow> frer \<Rightarrow> bool" where
  "enc_hard t f \<longleftrightarrow> (\<forall>s < streams_max f. \<forall>p < 16.
     (s \<notin> port_streams f p \<longrightarrow> \<not> bit (t s FRER_TBL0) p \<and> \<not> bit (t s FRER_TBL1) p)
     \<and> (s \<in> port_streams f p \<and> se_active (se_ports f ! p) \<le> ENC_ACTIVE \<longrightarrow>
          bit (t s FRER_TBL0) p \<and> (bit (t s FRER_TBL1) p \<longleftrightarrow> se_active (se_ports f ! p) = ENC_ACTIVE)))"

text \<open>Two states that differ in the encoding and in the registers only.\<close>

definition enc_only :: "frer \<Rightarrow> frer \<Rightarrow> bool" where
  "enc_only f f' \<longleftrightarrow> f' = f\<lparr>se_root := se_root f', se_ports := se_ports f', fr_io := fr_io f'\<rparr>"

definition same_fn_words :: "(u16 \<Rightarrow> frer_tbl \<Rightarrow> u16) \<Rightarrow> (u16 \<Rightarrow> frer_tbl \<Rightarrow> u16) \<Rightarrow> bool" where
  "same_fn_words t t' \<longleftrightarrow> (\<forall>s. t' s FRER_TBL2 = t s FRER_TBL2 \<and> t' s FRER_TBL3 = t s FRER_TBL3)"

lemma enc_only_refl [simp]: "enc_only f f"
  by (simp add: enc_only_def)

lemma enc_only_trans: "enc_only f g \<Longrightarrow> enc_only g h \<Longrightarrow> enc_only f h"
  by (cases f; cases g; cases h) (simp add: enc_only_def)

lemma enc_only_fields:
  assumes "enc_only f f'"
  shows "fr_iobase f' = fr_iobase f" "streams_max f' = streams_max f" "seqrec_max f' = seqrec_max f"
    "sg_root f' = sg_root f" "sr_root f' = sr_root f" "seqrec_rst f' = seqrec_rst f" "fr_br f' = fr_br f"
  using assms by (cases f; cases f'; simp add: enc_only_def)+

lemma bit_or_BIT: "p < 16 \<Longrightarrow> bit ((x :: u16) OR 2 ^ p) q \<longleftrightarrow> bit x q \<or> q = p"
  by (auto simp: bit_or_iff bit_exp_iff)

lemma bit_andnot_BIT: "p < 16 \<Longrightarrow> bit ((x :: u16) AND NOT (2 ^ p)) q \<longleftrightarrow> bit x q \<and> q \<noteq> p"
  by (auto simp: bit_and_iff bit_not_iff bit_exp_iff dest: bit_imp_le_length)

lemma le_1_cases: "(x :: u8) \<le> 1 \<Longrightarrow> x = 0 \<or> x = 1"
proof -
  assume "x \<le> 1"
  then have "unat x = 0 \<or> unat x = unat (1 :: u8)" by (auto simp: word_le_nat_alt)
  then show ?thesis
  proof
    assume "unat x = unat (1 :: u8)"
    then have "x = 1" by (rule unsigned_word_eqI)
    then show ?thesis ..
  qed (simp add: unat_eq_0)
qed

section \<open>Writing the ports of a stream\<close>

lemma set_bitD:
  assumes "frer_contract dev (fr_iobase f) tab" "s < 0x1000" "t = FRER_TBL0 \<or> t = FRER_TBL1"
  obtains io' where "strtbl_set_bit dev b p s t f = Some (f\<lparr>fr_io := io'\<rparr>)"
    "tab io' = (tab (fr_io f))(s := (tab (fr_io f) s)(t := if b then tab (fr_io f) s t OR BIT p else tab (fr_io f) s t AND NOT (BIT p)))"
proof -
  let ?v = "if b then tab (fr_io f) s t OR BIT p else tab (fr_io f) s t AND NOT (BIT p)"
  obtain io1 where 1: "edgx_frer_ip_rd_strtbl dev s t f = Some (tab (fr_io f) s t, f\<lparr>fr_io := io1\<rparr>)"
    "tab io1 = tab (fr_io f)" using rd_strD [OF assms(1,2)] by blast
  have "frer_contract dev (fr_iobase (f\<lparr>fr_io := io1\<rparr>)) tab" using assms(1) by simp
  from wr_strD [OF this assms(2)] obtain io2 where
    2: "edgx_frer_ip_wr_strtbl dev s ?v t False (f\<lparr>fr_io := io1\<rparr>) = Some (f\<lparr>fr_io := io1\<rparr>\<lparr>fr_io := io2\<rparr>)"
    "tab io2 = (tab (fr_io (f\<lparr>fr_io := io1\<rparr>)))(s := (tab (fr_io (f\<lparr>fr_io := io1\<rparr>)) s)(t := strval t False ?v))"
    by blast
  have "strval t False ?v = ?v" using assms(3) by (auto simp: strval_def)
  with 1 2 show thesis by (intro that [of io2]) (simp_all add: strtbl_set_bit_def)
qed

text \<open>What a change of one port's bits leaves: the other words and the other rows.\<close>

definition port_bits :: "nat \<Rightarrow> bool \<Rightarrow> bool \<Rightarrow> (frer_tbl \<Rightarrow> u16) \<Rightarrow> frer_tbl \<Rightarrow> u16" where
  "port_bits p b0 b1 w =
     w(FRER_TBL0 := if b0 then w FRER_TBL0 OR BIT p else w FRER_TBL0 AND NOT (BIT p),
       FRER_TBL1 := if b1 then w FRER_TBL1 OR BIT p else w FRER_TBL1 AND NOT (BIT p))"

lemma two_bitsD:
  assumes "frer_contract dev (fr_iobase f) tab" "s < 0x1000"
  obtains io' where "do { f \<leftarrow> strtbl_set_bit dev b0 p s FRER_TBL0 f; strtbl_set_bit dev b1 p s FRER_TBL1 f } = Some (f\<lparr>fr_io := io'\<rparr>)"
    "tab io' = (tab (fr_io f))(s := port_bits p b0 b1 (tab (fr_io f) s))"
proof -
  obtain io1 where 1: "strtbl_set_bit dev b0 p s FRER_TBL0 f = Some (f\<lparr>fr_io := io1\<rparr>)"
    "tab io1 = (tab (fr_io f))(s := (tab (fr_io f) s)(FRER_TBL0 := if b0 then tab (fr_io f) s FRER_TBL0 OR BIT p else tab (fr_io f) s FRER_TBL0 AND NOT (BIT p)))"
    using set_bitD [OF assms, of FRER_TBL0] by blast
  have "frer_contract dev (fr_iobase (f\<lparr>fr_io := io1\<rparr>)) tab" using assms(1) by simp
  from set_bitD [OF this assms(2), of FRER_TBL1 b1 p] obtain io2 where
    2: "strtbl_set_bit dev b1 p s FRER_TBL1 (f\<lparr>fr_io := io1\<rparr>) = Some (f\<lparr>fr_io := io1\<rparr>\<lparr>fr_io := io2\<rparr>)"
    "tab io2 = (tab (fr_io (f\<lparr>fr_io := io1\<rparr>)))(s := (tab (fr_io (f\<lparr>fr_io := io1\<rparr>)) s)(FRER_TBL1 :=
       if b1 then tab (fr_io (f\<lparr>fr_io := io1\<rparr>)) s FRER_TBL1 OR BIT p else tab (fr_io (f\<lparr>fr_io := io1\<rparr>)) s FRER_TBL1 AND NOT (BIT p)))"
    by blast
  with 1 show thesis by (intro that [of io2]) (simp_all add: port_bits_def)
qed

lemma bit_port_bits:
  assumes "p < 16"
  shows "bit (port_bits p b0 b1 w FRER_TBL0) q \<longleftrightarrow> (if q = p then b0 else bit (w FRER_TBL0) q)"
    "bit (port_bits p b0 b1 w FRER_TBL1) q \<longleftrightarrow> (if q = p then b1 else bit (w FRER_TBL1) q)"
    "port_bits p b0 b1 w FRER_TBL2 = w FRER_TBL2" "port_bits p b0 b1 w FRER_TBL3 = w FRER_TBL3"
  by (auto simp: port_bits_def bit_or_BIT [OF assms] bit_andnot_BIT [OF assms])

lemma apply_fromD:
  assumes "frer_contract dev (fr_iobase f) tab" "\<forall>s \<in> set ss. s < 0x1000" "p < 16"
  shows "\<exists>io'. seqenc_apply_from dev p active ss f = Some (f\<lparr>fr_io := io'\<rparr>)
     \<and> (\<forall>s. s \<notin> set ss \<longrightarrow> tab io' s = tab (fr_io f) s) \<and> same_fn_words (tab (fr_io f)) (tab io')
     \<and> (\<forall>s q. bit (tab io' s FRER_TBL0) q \<longleftrightarrow> (if s \<in> set ss \<and> q = p then True else bit (tab (fr_io f) s FRER_TBL0) q))
     \<and> (\<forall>s q. bit (tab io' s FRER_TBL1) q \<longleftrightarrow> (if s \<in> set ss \<and> q = p then active else bit (tab (fr_io f) s FRER_TBL1) q))"
  using assms(1,2)
proof (induction ss arbitrary: f)
  case Nil
  show ?case by (rule exI [of _ "fr_io f"]) (simp add: same_fn_words_def)
next
  case (Cons x ss)
  obtain io1 where 1: "do { f \<leftarrow> strtbl_set_bit dev True p x FRER_TBL0 f; strtbl_set_bit dev active p x FRER_TBL1 f } = Some (f\<lparr>fr_io := io1\<rparr>)"
    "tab io1 = (tab (fr_io f))(x := port_bits p True active (tab (fr_io f) x))"
    using two_bitsD [OF Cons.prems(1), of x] Cons.prems(2) by (metis list.set_intros(1))
  from Cons.IH [of "f\<lparr>fr_io := io1\<rparr>"] Cons.prems obtain io2 where 2: "seqenc_apply_from dev p active ss (f\<lparr>fr_io := io1\<rparr>) = Some (f\<lparr>fr_io := io2\<rparr>)"
    "\<forall>s. s \<notin> set ss \<longrightarrow> tab io2 s = tab io1 s" "same_fn_words (tab io1) (tab io2)"
    "\<forall>s q. bit (tab io2 s FRER_TBL0) q \<longleftrightarrow> (if s \<in> set ss \<and> q = p then True else bit (tab io1 s FRER_TBL0) q)"
    "\<forall>s q. bit (tab io2 s FRER_TBL1) q \<longleftrightarrow> (if s \<in> set ss \<and> q = p then active else bit (tab io1 s FRER_TBL1) q)"
    by auto
  have "seqenc_apply_from dev p active (x # ss) f = Some (f\<lparr>fr_io := io2\<rparr>)"
    using 1(1) 2(1) by (cases active) (simp_all add: seqenc_apply_active_def seqenc_apply_passive_def)
  then show ?case
    using 1(2) 2(2-) by (intro exI [of _ io2]) (auto simp: same_fn_words_def bit_port_bits [OF assms(3)])
qed

lemma seqenc_applyD:
  assumes c: "frer_contract dev (fr_iobase f) tab" and s: "enc_soft f" "streams_max f \<le> 0x1000" "p < 16"
    and h: "\<And>s q. s < streams_max f \<Longrightarrow> q < 16 \<Longrightarrow> s \<notin> port_streams f q \<Longrightarrow>
      \<not> bit (tab (fr_io f) s FRER_TBL0) q \<and> \<not> bit (tab (fr_io f) s FRER_TBL1) q"
    "\<And>s q. s < streams_max f \<Longrightarrow> q < 16 \<Longrightarrow> s \<in> port_streams f q \<Longrightarrow> q \<noteq> p \<Longrightarrow> se_active (se_ports f ! q) \<le> ENC_ACTIVE \<Longrightarrow>
      bit (tab (fr_io f) s FRER_TBL0) q \<and> (bit (tab (fr_io f) s FRER_TBL1) q \<longleftrightarrow> se_active (se_ports f ! q) = ENC_ACTIVE)"
  shows "\<exists>r io'. edgx_frer_seqenc_apply dev p f = Some (r, f\<lparr>fr_io := io'\<rparr>)
     \<and> same_fn_words (tab (fr_io f)) (tab io') \<and> enc_hard (tab io') f"
proof (cases "se_active (se_ports f ! p) > ENC_ACTIVE \<or> se_list (se_ports f ! p) = []")
  case True
  then have "edgx_frer_seqenc_apply dev p f = Some (- ENOENT, f)" using s by (simp add: edgx_frer_seqenc_apply_def enc_soft_def)
  moreover have "\<not> (s \<in> port_streams f p \<and> se_active (se_ports f ! p) \<le> 1)" for s
    using True by (auto simp: port_streams_def)
  then have "enc_hard (tab (fr_io f)) f" unfolding enc_hard_def by (metis h)
  ultimately show ?thesis by (intro exI [of _ "- ENOENT"] exI [of _ "fr_io f"]) (simp add: same_fn_words_def)
next
  case False
  then have a: "se_active (se_ports f ! p) \<le> 1" by (simp add: not_less)
  then have a': "se_active (se_ports f ! p) \<noteq> 0 \<longleftrightarrow> se_active (se_ports f ! p) = ENC_ACTIVE"
    by (auto dest: le_1_cases)
  have "x < streams_max f" if "x \<in> set (se_list (se_ports f ! p))" for x
  proof -
    from that s have "bit (port_mask f x) p" by (simp add: enc_soft_def port_streams_def)
    then obtain n where "seqenc_rbt_search (se_root f) x = Some n" by (auto simp: port_mask_def split: option.split_asm)
    then have "n \<in> set (se_root f) \<and> ss_strhdl n = x" using s(1) se.search_eq by (auto simp: enc_soft_def)
    then show ?thesis using s(1) by (auto simp: enc_soft_def)
  qed
  then have "\<forall>x \<in> set (se_list (se_ports f ! p)). x < 0x1000" using s(2) by (auto intro: less_le_trans)
  from apply_fromD [OF c this s(3), of "se_active (se_ports f ! p) \<noteq> 0"] obtain io' where
    io': "seqenc_apply_from dev p (se_active (se_ports f ! p) \<noteq> 0) (se_list (se_ports f ! p)) f = Some (f\<lparr>fr_io := io'\<rparr>)"
    "same_fn_words (tab (fr_io f)) (tab io')"
    "\<And>s q. bit (tab io' s FRER_TBL0) q \<longleftrightarrow> (if s \<in> port_streams f p \<and> q = p then True else bit (tab (fr_io f) s FRER_TBL0) q)"
    "\<And>s q. bit (tab io' s FRER_TBL1) q \<longleftrightarrow> (if s \<in> port_streams f p \<and> q = p then se_active (se_ports f ! p) \<noteq> 0 else bit (tab (fr_io f) s FRER_TBL1) q)"
    unfolding port_streams_def by blast
  have "edgx_frer_seqenc_apply dev p f = Some (0, f\<lparr>fr_io := io'\<rparr>)"
    using s False io'(1) by (simp add: edgx_frer_seqenc_apply_def enc_soft_def)
  moreover have "enc_hard (tab io') f"
    unfolding enc_hard_def io'(3,4) a' using h by auto
  ultimately show ?thesis using io'(2) by blast
qed

end
