(* ===== verification/FrerEncOps.thy ===== *)
theory FrerEncOps
  imports FrerEncInv
begin

text \<open>Every operation of the sequence encoding returns and keeps its invariant.\<close>

unbundle bit_operations_syntax

definition enc_wf :: "(iomem \<Rightarrow> u16 \<Rightarrow> frer_tbl \<Rightarrow> u16) \<Rightarrow> frer \<Rightarrow> bool" where
  "enc_wf tab f \<longleftrightarrow> enc_soft f \<and> enc_hard (tab (fr_io f)) f"

text \<open>The parts that the encoding owns may change; the function words stay.\<close>

definition enc_post ::
    "(iomem \<Rightarrow> u16 \<Rightarrow> frer_tbl \<Rightarrow> u16) \<Rightarrow> frer \<Rightarrow> frer \<Rightarrow> bool" where
  "enc_post tab f f' \<longleftrightarrow> enc_wf tab f' \<and> enc_only f f'
     \<and> same_fn_words (tab (fr_io f)) (tab (fr_io f'))"

lemma enc_post_refl: "enc_wf tab f \<Longrightarrow> enc_post tab f f"
  by (simp add: enc_post_def same_fn_words_def)

section \<open>Changes of the lists and masks\<close>

lemma set_se_port_simps [simp]:
  "se_root (set_se_port p u f) = se_root f" "fr_io (set_se_port p u f) = fr_io f"
  "streams_max (set_se_port p u f) = streams_max f" "fr_iobase (set_se_port p u f) = fr_iobase f"
  "port_mask (set_se_port p u f) = port_mask f" "enc_only f (set_se_port p u f)"
  "se_ports (set_se_port p u f) = (se_ports f)[p := u (se_ports f ! p)]"
  by (simp_all add: set_se_port_def port_mask_def fun_eq_iff enc_only_def)

lemma stream_in_range:
  assumes "enc_soft f" "p < 16" "s \<in> port_streams f p"
  shows "s < streams_max f" "seqenc_rbt_search (se_root f) s \<noteq> None"
proof -
  from assms have "bit (port_mask f s) p" by (simp add: enc_soft_def)
  then obtain n where n: "seqenc_rbt_search (se_root f) s = Some n" by (auto simp: port_mask_def split: option.split_asm)
  then show "seqenc_rbt_search (se_root f) s \<noteq> None" by simp
  have "n \<in> set (se_root f) \<and> ss_strhdl n = s" using n assms(1) se.search_eq by (auto simp: enc_soft_def)
  then show "s < streams_max f" using assms(1) by (auto simp: enc_soft_def)
qed

text \<open>A new list for port \<open>p\<close> and a new mask for stream \<open>s\<close> that still agree.\<close>

lemma enc_soft_change:
  assumes "enc_soft f" "p < 16"
    and "se_ports f1 = (se_ports f)[p := pt]" "streams_max f1 = streams_max f"
    and "sorted_wrt (<) (map ss_strhdl (se_root f1))" "\<forall>n \<in> set (se_root f1). ss_port_mask n \<noteq> 0 \<and> ss_strhdl n < streams_max f"
    and "distinct (se_list pt)" "\<And>x. x \<noteq> s \<Longrightarrow> x \<in> set (se_list pt) \<longleftrightarrow> x \<in> port_streams f p"
    and "se_active pt = ENC_UNDEFINED \<Longrightarrow> se_list pt = []"
    and "port_mask f1 = (port_mask f)(s := m)" "\<And>q. q < 16 \<Longrightarrow> bit m q \<longleftrightarrow> (if q = p then s \<in> set (se_list pt) else s \<in> port_streams f q)"
  shows "enc_soft f1"
proof -
  have l: "length (se_ports f) = 16" using assms(1) by (simp add: enc_soft_def)
  have ps: "port_streams f1 q = (if q = p then set (se_list pt) else port_streams f q)" for q
    using assms(2,3) l by (simp add: port_streams_def)
  have "x \<in> port_streams f1 q \<longleftrightarrow> bit (port_mask f1 x) q" if "q < 16" for x q
    using assms(1,8,11) that by (simp add: ps assms(10) enc_soft_def)
  then show ?thesis using assms(1-7,9) l unfolding enc_soft_def by (simp add: nth_list_update)
qed

lemma add_soft:
  assumes "enc_soft f" "p < 16" "s < streams_max f" "se_active (se_ports f ! p) \<noteq> ENC_UNDEFINED"
  defines "fA \<equiv> if seqenc_list_entry_exists s (se_ports f ! p) then f
                 else set_se_port p (\<lambda>pt. pt\<lparr>se_list := se_list pt @ [s]\<rparr>) f"
  obtains f1 where
    "(case seqenc_rbt_search (se_root fA) s of
        Some s' \<Rightarrow> (0, upd_stream s (\<lambda>s. s\<lparr>ss_port_mask := ss_port_mask s OR BIT p\<rparr>) fA)
      | None \<Rightarrow> let (ret, ns) = seqenc_rbt_insert_node (se_root fA) \<lparr>ss_strhdl = s, ss_port_mask = BIT p\<rparr>
               in if ret \<noteq> 0 then (- EINVAL, fA) else (0, fA\<lparr>se_root := ns\<rparr>)) = (0, f1)"
    "enc_soft f1" "enc_only f f1" "fr_io f1 = fr_io f"
    "\<And>q. q < 16 \<Longrightarrow> port_streams f1 q = (if q = p then insert s (port_streams f p) else port_streams f q)"
    "\<And>q. q < 16 \<Longrightarrow> se_active (se_ports f1 ! q) = se_active (se_ports f ! q)"
proof -
  define pt where "pt = (se_ports f ! p)\<lparr>se_list := if s \<in> port_streams f p then se_list (se_ports f ! p) else se_list (se_ports f ! p) @ [s]\<rparr>"
  have l: "length (se_ports f) = 16" and srt: "sorted_wrt (<) (map ss_strhdl (se_root f))"
    and nodes: "\<forall>n \<in> set (se_root f). ss_port_mask n \<noteq> 0 \<and> ss_strhdl n < streams_max f"
    using assms(1) by (simp_all add: enc_soft_def)
  have A: "se_ports fA = (se_ports f)[p := pt]" "se_root fA = se_root f" "fr_io fA = fr_io f" "streams_max fA = streams_max f"
    "port_mask fA = port_mask f" "enc_only f fA"
    by (auto simp: fA_def pt_def port_streams_def seqenc_list_entry_exists_def)
  have p0: "(2 ^ p :: u16) \<noteq> 0" using assms(2) bit_exp_iff [where ?'a = u16, of p p] by auto
  have set_pt: "set (se_list pt) = insert s (port_streams f p)" and d: "distinct (se_list pt)"
    using assms(1,2) by (auto simp: pt_def port_streams_def enc_soft_def)
  have m: "bit (port_mask f s OR BIT p) q \<longleftrightarrow> (if q = p then s \<in> set (se_list pt) else s \<in> port_streams f q)" if "q < 16" for q
    using assms(1) that bit_or_BIT [OF assms(2), of "port_mask f s" q] by (simp add: set_pt enc_soft_def)
  have soft: "enc_soft f1" if "se_ports f1 = se_ports fA" "streams_max f1 = streams_max fA"
      "sorted_wrt (<) (map ss_strhdl (se_root f1))" "\<forall>n \<in> set (se_root f1). ss_port_mask n \<noteq> 0 \<and> ss_strhdl n < streams_max f"
      "port_mask f1 = (port_mask f)(s := port_mask f s OR BIT p)" for f1
    by (rule enc_soft_change [OF assms(1,2) _ _ that(3,4) d _ _ that(5) m])
       (use that(1,2) A set_pt assms(4) in \<open>simp_all add: pt_def\<close>)
  have ports: "port_streams f1 q = (if q = p then insert s (port_streams f p) else port_streams f q)
      \<and> se_active (se_ports f1 ! q) = se_active (se_ports f ! q)" if "se_ports f1 = se_ports fA" "q < 16" for f1 q
    using that A(1) l assms(2) set_pt by (auto simp: port_streams_def nth_list_update) (simp add: pt_def)
  show thesis
  proof (cases "seqenc_rbt_search (se_root f) s")
    case None
    from se.search_insert [of "se_root f" "\<lparr>ss_strhdl = s, ss_port_mask = BIT p\<rparr>"] srt None obtain ns where
      ns: "seqenc_rbt_insert_node (se_root f) \<lparr>ss_strhdl = s, ss_port_mask = BIT p\<rparr> = (0, ns)"
      "sorted_wrt (<) (map ss_strhdl ns)" "set ns = insert \<lparr>ss_strhdl = s, ss_port_mask = BIT p\<rparr> (set (se_root f))"
      "\<And>k. seqenc_rbt_search ns k = (if k = s then Some \<lparr>ss_strhdl = s, ss_port_mask = BIT p\<rparr> else seqenc_rbt_search (se_root f) k)"
      by auto
    define f1 where "f1 = fA\<lparr>se_root := ns\<rparr>"
    have f1: "se_ports f1 = se_ports fA" "enc_only f f1" "fr_io f1 = fr_io f" "streams_max f1 = streams_max fA"
      using A by (simp_all add: f1_def enc_only_def)
    have "enc_soft f1"
    proof (rule soft)
      show "port_mask f1 = (port_mask f)(s := port_mask f s OR BIT p)"
        using None by (simp add: f1_def fun_eq_iff port_mask_def ns(4))
      show "\<forall>n \<in> set (se_root f1). ss_port_mask n \<noteq> 0 \<and> ss_strhdl n < streams_max f"
        using nodes assms(3) p0 by (simp add: f1_def ns(3))
    qed (use f1 ns(2) in \<open>simp_all add: f1_def\<close>)
    with f1 ports [of f1] show thesis
      by (intro that [of f1]) (simp_all add: A(2) None ns(1) [unfolded push_bit_of_1], simp_all add: f1_def)
  next
    case (Some n)
    define f1 where "f1 = upd_stream s (\<lambda>s. s\<lparr>ss_port_mask := ss_port_mask s OR BIT p\<rparr>) fA"
    have f1: "se_ports f1 = se_ports fA" "enc_only f f1" "fr_io f1 = fr_io f" "streams_max f1 = streams_max fA"
      using A by (simp_all add: f1_def upd_stream_def enc_only_def)
    have "enc_soft f1"
    proof (rule soft)
      show "port_mask f1 = (port_mask f)(s := port_mask f s OR BIT p)"
        using Some A(2) srt by (simp add: f1_def upd_stream_def fun_eq_iff port_mask_def se.search_upd)
      show "sorted_wrt (<) (map ss_strhdl (se_root f1))"
        using srt by (simp add: f1_def upd_stream_def A(2) se.map_key_upd)
      show "\<forall>n \<in> set (se_root f1). ss_port_mask n \<noteq> 0 \<and> ss_strhdl n < streams_max f"
        using nodes by (auto simp: f1_def upd_stream_def A(2) upd_node_def or_eq_0_iff)
    qed (use f1 in simp_all)
    with f1 ports [of f1] show thesis
      by (intro that [of f1]) (simp_all add: A(2) Some, simp_all add: f1_def)
  qed
qed

section \<open>Creating, adding, activating\<close>

lemma io_change [simp]:
  "enc_soft (f\<lparr>fr_io := io\<rparr>) = enc_soft f" "enc_hard t (f\<lparr>fr_io := io\<rparr>) = enc_hard t f"
  "port_streams (f\<lparr>fr_io := io\<rparr>) = port_streams f" "enc_only f (f'\<lparr>fr_io := io\<rparr>) = enc_only f f'"
  by (simp_all add: enc_soft_def enc_hard_def port_streams_def port_mask_def enc_only_def fun_eq_iff)
    (cases f; cases f'; simp)

lemma active_soft:
  assumes "enc_soft f" "p < 16" "a = ENC_UNDEFINED \<Longrightarrow> se_list (se_ports f ! p) = []"
  shows "enc_soft (set_se_port p (\<lambda>pt. pt\<lparr>se_active := a\<rparr>) f)"
proof -
  have l: "length (se_ports f) = 16" using assms(1) by (simp add: enc_soft_def)
  then show ?thesis using assms by (simp add: enc_soft_def port_streams_def nth_list_update)
qed

lemma active_ports:
  assumes "enc_soft f" "p < 16" "q < 16"
  shows "port_streams (set_se_port p (\<lambda>pt. pt\<lparr>se_active := a\<rparr>) f) q = port_streams f q"
    "se_active (se_ports (set_se_port p (\<lambda>pt. pt\<lparr>se_active := a\<rparr>) f) ! q) = (if q = p then a else se_active (se_ports f ! q))"
  using assms by (auto simp: enc_soft_def port_streams_def nth_list_update)

lemma enc_hard_bits:
  assumes "enc_hard t f" "s < streams_max f" "p < 16"
  shows "s \<notin> port_streams f p \<Longrightarrow> \<not> bit (t s FRER_TBL0) p \<and> \<not> bit (t s FRER_TBL1) p"
    "s \<in> port_streams f p \<Longrightarrow> se_active (se_ports f ! p) \<le> ENC_ACTIVE \<Longrightarrow>
       bit (t s FRER_TBL0) p \<and> (bit (t s FRER_TBL1) p \<longleftrightarrow> se_active (se_ports f ! p) = ENC_ACTIVE)"
  using assms unfolding enc_hard_def by blast+

lemma enc_createD:
  assumes "enc_wf tab f" "p < 16"
  shows "\<exists>r f'. edgx_frer_seqenc_create_entry p dir f = Some (r, f') \<and> enc_post tab f f'"
proof (cases "seqenc_check_dir dir \<noteq> 0 \<or> edgx_frer_check_port p f \<noteq> 0")
  case True
  then show ?thesis using assms enc_post_refl by (simp add: edgx_frer_seqenc_create_entry_def)
next
  case False
  let ?f = "set_se_port p (\<lambda>pt. pt\<lparr>se_active := ENC_UNKNOWN\<rparr>) f"
  have w: "enc_soft f" "enc_hard (tab (fr_io f)) f" using assms(1) by (simp_all add: enc_wf_def)
  have n: "\<not> (ENC_UNKNOWN \<le> ENC_ACTIVE)" by (simp add: word_le_nat_alt)
  have "enc_soft ?f" by (rule active_soft [OF w(1) assms(2)]) simp
  moreover have "enc_hard (tab (fr_io f)) ?f"
    unfolding enc_hard_def using enc_hard_bits [OF w(2)] by (auto simp: n active_ports [OF w(1) assms(2)] simp del: set_se_port_simps(7))
  ultimately have "enc_post tab f ?f" by (simp add: enc_post_def enc_wf_def same_fn_words_def)
  then show ?thesis using False w(1) assms(2) by (auto simp: edgx_frer_seqenc_create_entry_def enc_soft_def)
qed

lemma enc_applied:
  assumes c: "frer_contract dev (fr_iobase f) tab" and m: "streams_max f \<le> 0x1000" and p: "p < 16"
    and w: "enc_wf tab f" and f1: "enc_soft f1" "enc_only f f1" "fr_io f1 = fr_io f"
    and ps: "\<And>q. q < 16 \<Longrightarrow> q \<noteq> p \<Longrightarrow> port_streams f1 q = port_streams f q \<and> se_active (se_ports f1 ! q) = se_active (se_ports f ! q)"
    and pp: "port_streams f p \<subseteq> port_streams f1 p"
  shows "\<exists>r f'. edgx_frer_seqenc_apply dev p f1 = Some (r, f') \<and> enc_post tab f f' \<and> se_ports f' = se_ports f1"
proof -
  note fld = enc_only_fields [OF f1(2)]
  have h: "enc_hard (tab (fr_io f)) f" using w by (simp add: enc_wf_def)
  have "\<exists>r io'. edgx_frer_seqenc_apply dev p f1 = Some (r, f1\<lparr>fr_io := io'\<rparr>)
      \<and> same_fn_words (tab (fr_io f1)) (tab io') \<and> enc_hard (tab io') f1"
  proof (rule seqenc_applyD [OF _ f1(1) _ p])
    show "frer_contract dev (fr_iobase f1) tab" "streams_max f1 \<le> 0x1000" using c m by (simp_all add: fld)
  next
    fix s q assume "s < streams_max f1" "q < 16" "s \<notin> port_streams f1 q"
    then show "\<not> bit (tab (fr_io f1) s FRER_TBL0) q \<and> \<not> bit (tab (fr_io f1) s FRER_TBL1) q"
      using enc_hard_bits(1) [OF h, of s q] ps [of q] pp by (cases "q = p") (auto simp: fld f1(3))
  next
    fix s q assume "s < streams_max f1" "q < 16" "s \<in> port_streams f1 q" "q \<noteq> p" "se_active (se_ports f1 ! q) \<le> ENC_ACTIVE"
    then show "bit (tab (fr_io f1) s FRER_TBL0) q \<and> (bit (tab (fr_io f1) s FRER_TBL1) q \<longleftrightarrow> se_active (se_ports f1 ! q) = ENC_ACTIVE)"
      using enc_hard_bits(2) [OF h, of s q] ps [of q] by (simp add: fld f1(3))
  qed
  then show ?thesis using f1 by (force simp: enc_post_def enc_wf_def)
qed

lemma enc_add_strD:
  assumes c: "frer_contract dev (fr_iobase f) tab" and m: "streams_max f \<le> 0x1000" and p: "p < 16" and w: "enc_wf tab f"
  shows "\<exists>r f'. edgx_frer_seqenc_add_str dev True True s p f = Some (r, f') \<and> enc_post tab f f'"
proof -
  have l: "nth_opt (se_ports f) p = Some (se_ports f ! p)" and w1: "enc_soft f" using w p by (simp_all add: enc_wf_def enc_soft_def)
  show ?thesis
  proof (cases "se_active (se_ports f ! p) = ENC_UNDEFINED \<or> edgx_frer_check_strhdl s f \<noteq> 0")
    case True
    then show ?thesis using enc_post_refl [OF w] by (auto simp: edgx_frer_seqenc_add_str_def l)
  next
    case False
    then have a: "se_active (se_ports f ! p) \<noteq> ENC_UNDEFINED" and s: "s < streams_max f"
      by (auto simp: edgx_frer_check_strhdl_def not_le split: if_split_asm)
    define fA where "fA = (if seqenc_list_entry_exists s (se_ports f ! p) then f
                 else set_se_port p (\<lambda>pt. pt\<lparr>se_list := se_list pt @ [s]\<rparr>) f)"
    obtain f1 where f1: "(case seqenc_rbt_search (se_root fA) s of
        Some s' \<Rightarrow> (0 :: int, upd_stream s (\<lambda>s. s\<lparr>ss_port_mask := ss_port_mask s OR BIT p\<rparr>) fA)
      | None \<Rightarrow> let (ret, ns) = seqenc_rbt_insert_node (se_root fA) \<lparr>ss_strhdl = s, ss_port_mask = BIT p\<rparr>
               in if ret \<noteq> 0 then (- EINVAL, fA) else (0, fA\<lparr>se_root := ns\<rparr>)) = (0, f1)"
      "enc_soft f1" "enc_only f f1" "fr_io f1 = fr_io f"
      "\<And>q. q < 16 \<Longrightarrow> port_streams f1 q = (if q = p then insert s (port_streams f p) else port_streams f q)"
      "\<And>q. q < 16 \<Longrightarrow> se_active (se_ports f1 ! q) = se_active (se_ports f ! q)"
      using add_soft [OF w1 p s a] unfolding fA_def by blast
    have "\<exists>r f'. edgx_frer_seqenc_apply dev p f1 = Some (r, f') \<and> enc_post tab f f' \<and> se_ports f' = se_ports f1"
      by (rule enc_applied [OF c m p w f1(2,3,4)]) (auto simp: f1(5,6) p)
    then obtain r f' where r: "edgx_frer_seqenc_apply dev p f1 = Some (r, f')" "enc_post tab f f'" by blast
    have L: "(if \<not> seqenc_list_entry_exists s (se_ports f ! p) then seqenc_list_add True s p f else (0, f)) = (0, fA)"
      by (simp add: fA_def seqenc_list_add_def)
    have "edgx_frer_seqenc_add_str dev True True s p f = Some (0, f')"
      unfolding edgx_frer_seqenc_add_str_def l Option.bind.simps L Let_def split simp_thms(6,7) if_True if_False not_True_eq_False
      using False f1(1) [unfolded Let_def] r(1) by simp
    with r(2) show ?thesis by blast
  qed
qed

lemma enc_set_activeD:
  assumes c: "frer_contract dev (fr_iobase f) tab" and m: "streams_max f \<le> 0x1000" and p: "p < 16" and w: "enc_wf tab f"
  shows "\<exists>r f'. edgx_frer_seqenc_set_active dev active p f = Some (r, f') \<and> enc_post tab f f'
    \<and> (se_active (se_ports f ! p) \<noteq> ENC_UNDEFINED \<and> seqenc_check_active active = 0 \<longrightarrow>
         r = 0 \<and> se_ports f' = se_ports (set_se_port p (\<lambda>pt. pt\<lparr>se_active := (if active \<noteq> 0 then 1 else 0)\<rparr>) f))"
proof -
  have l: "nth_opt (se_ports f) p = Some (se_ports f ! p)" and w1: "enc_soft f" using w p by (simp_all add: enc_wf_def enc_soft_def)
  let ?a = "if active \<noteq> 0 then 1 else 0 :: u8"
  define f1 where "f1 = set_se_port p (\<lambda>pt. pt\<lparr>se_active := ?a\<rparr>) f"
  have "enc_soft f1" unfolding f1_def by (rule active_soft [OF w1 p]) (simp split: if_split_asm)
  moreover have "enc_only f f1" "fr_io f1 = fr_io f" by (simp_all add: f1_def)
  ultimately have "\<exists>r f'. edgx_frer_seqenc_apply dev p f1 = Some (r, f') \<and> enc_post tab f f' \<and> se_ports f' = se_ports f1"
    by (rule enc_applied [OF c m p w]) (simp_all add: f1_def active_ports [OF w1 p] p)
  then obtain r f' where r: "edgx_frer_seqenc_apply dev p f1 = Some (r, f')" "enc_post tab f f'" "se_ports f' = se_ports f1" by blast
  show ?thesis
  proof (cases "se_active (se_ports f ! p) = ENC_UNDEFINED \<or> seqenc_check_active active \<noteq> 0")
    case True
    then show ?thesis using enc_post_refl [OF w] by (auto simp: edgx_frer_seqenc_set_active_def l)
  next
    case False
    then have "edgx_frer_seqenc_set_active dev active p f = Some (0, f')"
      using r(1) by (simp add: edgx_frer_seqenc_set_active_def l f1_def)
    with r(2,3) show ?thesis by (auto simp: f1_def)
  qed
qed

end
