(* ===== verification/FrerEncDel.thy ===== *)
theory FrerEncDel
  imports FrerEncOps
begin

text \<open>Removing streams and ports from the sequence encoding keeps its invariant.\<close>

unbundle bit_operations_syntax

lemma drop_soft:
  assumes "enc_soft f" "p < 16" "s \<in> port_streams f p"
  defines "m \<equiv> port_mask f s AND NOT (BIT p)"
  obtains f1 f2 where "drop_port p s f = Some (m, f1)" "f2 = set_se_port p (\<lambda>pt. pt\<lparr>se_list := remove1 s (se_list pt)\<rparr>) f1"
    "enc_soft f2" "enc_only f f2" "fr_io f2 = fr_io f" "se_ports f1 = se_ports f"
    "\<forall>q < 16. port_streams f2 q = (if q = p then port_streams f p - {s} else port_streams f q)
       \<and> se_active (se_ports f2 ! q) = se_active (se_ports f ! q) \<and> (bit m q \<longleftrightarrow> q \<noteq> p \<and> s \<in> port_streams f q)"
proof -
  have l: "length (se_ports f) = 16" and srt: "sorted_wrt (<) (map ss_strhdl (se_root f))"
    and nodes: "\<forall>n \<in> set (se_root f). ss_port_mask n \<noteq> 0 \<and> ss_strhdl n < streams_max f"
    and dist: "distinct (se_list (se_ports f ! p))" and masks: "\<And>x q. q < 16 \<Longrightarrow> bit (port_mask f x) q \<longleftrightarrow> x \<in> port_streams f q"
    using assms(1,2) by (simp_all add: enc_soft_def)
  obtain n where n: "seqenc_rbt_search (se_root f) s = Some n" using stream_in_range(2) [OF assms(1-3)] by blast
  then have key: "ss_strhdl n = s" and pm: "port_mask f s = ss_port_mask n" using se.search_key srt by (auto simp: port_mask_def)
  define g where "g = upd_stream s (\<lambda>s. s\<lparr>ss_port_mask := m\<rparr>) f"
  define f1 where "f1 = (if m = 0 then snd (seqenc_del_str_from_rbt s g) else g)"
  define pt where "pt = (se_ports f ! p)\<lparr>se_list := remove1 s (se_list (se_ports f ! p))\<rparr>"
  define f2 where "f2 = set_se_port p (\<lambda>pt. pt\<lparr>se_list := remove1 s (se_list pt)\<rparr>) f1"
  have m: "bit m q \<longleftrightarrow> q \<noteq> p \<and> s \<in> port_streams f q" if "q < 16" for q
    using bit_andnot_BIT [OF assms(2)] masks [OF that] by (auto simp: m_def)
  have srt': "sorted_wrt (<) (map ss_strhdl (se_root g))"
    and gs: "\<And>k. seqenc_rbt_search (se_root g) k = (if k = s then Some (n\<lparr>ss_port_mask := m\<rparr>) else seqenc_rbt_search (se_root f) k)"
    using srt n by (simp_all add: g_def upd_stream_def se.map_key_upd se.search_upd)
  have f1s: "seqenc_rbt_search (se_root f1) k = (if k = s then if m = 0 then None else Some (n\<lparr>ss_port_mask := m\<rparr>) else seqenc_rbt_search (se_root f) k)" for k
    by (simp add: f1_def seqenc_del_str_from_rbt_def gs se.search_erase [OF srt'])
  have f1: "se_ports f1 = se_ports f" "fr_io f1 = fr_io f" "streams_max f1 = streams_max f" "enc_only f f1"
    "sorted_wrt (<) (map ss_strhdl (se_root f1))"
    using srt' se.sorted_erase [OF srt']
    by (simp_all add: f1_def seqenc_del_str_from_rbt_def gs) (simp_all add: g_def upd_stream_def enc_only_def)
  have nodes1: "ss_port_mask x \<noteq> 0 \<and> ss_strhdl x < streams_max f" if "x \<in> set (se_root f1)" for x
  proof -
    from that have "seqenc_rbt_search (se_root f1) (ss_strhdl x) = Some x" by (rule se.search_node [OF f1(5)])
    then show ?thesis using nodes n key se.search_in [OF srt] by (auto simp: f1s split: if_split_asm)
  qed
  have "drop_port p s f = Some (m, f1)"
    by (simp add: drop_port_def n Let_def f1_def g_def m_def pm del: push_bit_of_1)
  moreover have "enc_soft f2"
  proof (rule enc_soft_change [OF assms(1,2), where pt = pt and s = s and m = m])
    show "se_ports f2 = (se_ports f)[p := pt]" by (simp add: f2_def pt_def f1(1))
    show "port_mask f2 = (port_mask f)(s := m)" by (simp add: f2_def fun_eq_iff port_mask_def f1s)
    show "bit m q \<longleftrightarrow> (if q = p then s \<in> set (se_list pt) else s \<in> port_streams f q)" if "q < 16" for q
      using m [OF that] dist by (auto simp: pt_def)
    show "se_active pt = ENC_UNDEFINED \<Longrightarrow> se_list pt = []" using assms(1,2) by (simp add: enc_soft_def pt_def)
  qed (use f1 nodes1 dist in \<open>auto simp: f2_def pt_def port_streams_def\<close>)
  moreover have "enc_only f f2" using enc_only_trans [OF f1(4), of f2] by (simp add: f2_def)
  moreover have "port_streams f2 q = (if q = p then port_streams f p - {s} else port_streams f q)
      \<and> se_active (se_ports f2 ! q) = se_active (se_ports f ! q)" if "q < 16" for q
    using l dist assms(2) that by (auto simp: f2_def f1(1) port_streams_def nth_list_update)
  ultimately show thesis using f1(1,2) m by (intro that [OF _ f2_def]) (simp_all add: f2_def)
qed

lemma applydelD:
  assumes c: "frer_contract dev (fr_iobase f) tab" and s: "s < 0x1000" and p: "p < 16"
  shows "\<exists>io'. edgx_frer_seqenc_applydel dev p s pm f = Some (f\<lparr>fr_io := io'\<rparr>)
     \<and> same_fn_words (tab (fr_io f)) (tab io') \<and> (\<forall>s'. s' \<noteq> s \<longrightarrow> tab io' s' = tab (fr_io f) s')
     \<and> (\<forall>q. bit (tab io' s FRER_TBL0) q \<longleftrightarrow> q \<noteq> p \<and> pm \<noteq> 0 \<and> bit (tab (fr_io f) s FRER_TBL0) q)
     \<and> (\<forall>q. bit (tab io' s FRER_TBL1) q \<longleftrightarrow> q \<noteq> p \<and> pm \<noteq> 0 \<and> bit (tab (fr_io f) s FRER_TBL1) q)"
proof (cases "pm = 0")
  case True
  obtain io1 where 1: "edgx_frer_ip_wr_strtbl dev s 0 FRER_TBL0 False f = Some (f\<lparr>fr_io := io1\<rparr>)"
    "tab io1 = (tab (fr_io f))(s := (tab (fr_io f) s)(FRER_TBL0 := strval FRER_TBL0 False 0))"
    using wr_strD [OF c s] by blast
  have "frer_contract dev (fr_iobase (f\<lparr>fr_io := io1\<rparr>)) tab" using c by simp
  from wr_strD [OF this s] obtain io2 where
    2: "edgx_frer_ip_wr_strtbl dev s 0 FRER_TBL1 False (f\<lparr>fr_io := io1\<rparr>) = Some (f\<lparr>fr_io := io1\<rparr>\<lparr>fr_io := io2\<rparr>)"
    "tab io2 = (tab (fr_io (f\<lparr>fr_io := io1\<rparr>)))(s := (tab (fr_io (f\<lparr>fr_io := io1\<rparr>)) s)(FRER_TBL1 := strval FRER_TBL1 False 0))"
    by blast
  from 1 2 True show ?thesis
    by (intro exI [of _ io2]) (simp add: edgx_frer_seqenc_applydel_def same_fn_words_def strval_def)
next
  case False
  obtain io' where io': "do { f \<leftarrow> strtbl_set_bit dev False p s FRER_TBL0 f; strtbl_set_bit dev False p s FRER_TBL1 f } = Some (f\<lparr>fr_io := io'\<rparr>)"
    "tab io' = (tab (fr_io f))(s := port_bits p False False (tab (fr_io f) s))"
    using two_bitsD [OF c s] by blast
  with False show ?thesis
    by (intro exI [of _ io']) (auto simp: edgx_frer_seqenc_applydel_def same_fn_words_def bit_port_bits [OF p])
qed

text \<open>
  The stream leaves the port in the lists and in the registers. The mask that decides whether the
  whole words are cleared may be any value, as long as zero stands for a stream without ports.
\<close>

lemma drop_applied:
  assumes c: "frer_contract dev (fr_iobase f) tab" and m: "streams_max f \<le> 0x1000" and p: "p < 16"
    and w: "enc_wf tab f" and s: "s \<in> port_streams f p"
    and f2: "enc_soft f2" "enc_only f f2" "fr_io f2 = fr_io f"
    and ps: "\<And>q. q < 16 \<Longrightarrow> port_streams f2 q = (if q = p then port_streams f p - {s} else port_streams f q)"
    and act: "\<And>q. q < 16 \<Longrightarrow> q \<noteq> p \<Longrightarrow> se_active (se_ports f2 ! q) = se_active (se_ports f ! q)"
      "port_streams f2 p \<noteq> {} \<Longrightarrow> se_active (se_ports f2 ! p) = se_active (se_ports f ! p)"
    and pm: "pm = 0 \<Longrightarrow> \<forall>q < 16. s \<notin> port_streams f2 q"
  shows "\<exists>f'. edgx_frer_seqenc_applydel dev p s pm f2 = Some f' \<and> enc_post tab f f'
     \<and> se_ports f' = se_ports f2 \<and> se_root f' = se_root f2"
proof -
  note fld = enc_only_fields [OF f2(2)]
  have h: "enc_hard (tab (fr_io f)) f" and so: "enc_soft f" using w by (simp_all add: enc_wf_def)
  have s': "s < 0x1000" "s < streams_max f" using stream_in_range(1) [OF so p s] m by auto
  obtain io' where io': "edgx_frer_seqenc_applydel dev p s pm f2 = Some (f2\<lparr>fr_io := io'\<rparr>)"
    "same_fn_words (tab (fr_io f2)) (tab io')" "\<forall>s'. s' \<noteq> s \<longrightarrow> tab io' s' = tab (fr_io f2) s'"
    "\<forall>q. bit (tab io' s FRER_TBL0) q \<longleftrightarrow> q \<noteq> p \<and> pm \<noteq> 0 \<and> bit (tab (fr_io f2) s FRER_TBL0) q"
    "\<forall>q. bit (tab io' s FRER_TBL1) q \<longleftrightarrow> q \<noteq> p \<and> pm \<noteq> 0 \<and> bit (tab (fr_io f2) s FRER_TBL1) q"
    using applydelD [of dev f2 tab s p pm] c s' p by (auto simp: fld)
  have "enc_hard (tab io') f2"
    unfolding enc_hard_def fld
  proof (intro allI impI conjI)
    fix x q assume x: "x < streams_max f" "q < 16" "x \<notin> port_streams f2 q"
    show "\<not> bit (tab io' x FRER_TBL0) q" "\<not> bit (tab io' x FRER_TBL1) q"
      using enc_hard_bits(1) [OF h x(1,2)] x io'(3,4,5) ps [OF x(2)] by (cases "x = s"; cases "q = p"; simp add: f2(3))+
  next
    fix x q assume x: "x < streams_max f" "q < 16" "x \<in> port_streams f2 q \<and> se_active (se_ports f2 ! q) \<le> ENC_ACTIVE"
    then have a: "x \<in> port_streams f q" "\<not> (x = s \<and> q = p)" "se_active (se_ports f2 ! q) = se_active (se_ports f ! q)"
      using ps [OF x(2)] act by (cases "q = p"; auto)+
    have "pm \<noteq> 0" if "x = s" using pm x that by blast
    then show "bit (tab io' x FRER_TBL0) q" "bit (tab io' x FRER_TBL1) q \<longleftrightarrow> se_active (se_ports f2 ! q) = ENC_ACTIVE"
      using enc_hard_bits(2) [OF h x(1,2) a(1)] x a(2,3) io'(3,4,5) by (cases "x = s"; simp add: f2(3))+
  qed
  with io' f2 show ?thesis by (auto simp: enc_post_def enc_wf_def)
qed

lemma enc_post_trans: "enc_post tab f g \<Longrightarrow> enc_post tab g h \<Longrightarrow> enc_post tab f h"
  using enc_only_trans [of f g h] by (simp add: enc_post_def same_fn_words_def)

lemma undefined_post:
  assumes "enc_wf tab f" "p < 16" "se_list (se_ports f ! p) = []"
  shows "enc_post tab f (set_se_port p (\<lambda>pt. pt\<lparr>se_active := ENC_UNDEFINED\<rparr>) f)"
proof -
  let ?f = "set_se_port p (\<lambda>pt. pt\<lparr>se_active := ENC_UNDEFINED\<rparr>) f"
  have w: "enc_soft f" "enc_hard (tab (fr_io f)) f" using assms(1) by (simp_all add: enc_wf_def)
  have e: "port_streams f p = {}" using assms(3) by (simp add: port_streams_def)
  have "enc_soft ?f" using active_soft [OF w(1) assms(2)] assms(3) by simp
  moreover have "enc_hard (tab (fr_io f)) ?f"
    unfolding enc_hard_def using enc_hard_bits [OF w(2)] e
    by (auto simp: active_ports [OF w(1) assms(2)] simp del: set_se_port_simps(7))
  ultimately show ?thesis by (simp add: enc_post_def enc_wf_def same_fn_words_def)
qed

end
