(* ===== verification/FrerReach.thy ===== *)
theory FrerReach
  imports FrerEncDel
begin

text \<open>The states that the operations of the frame replication reach, and the properties of its encoding.\<close>

unbundle bit_operations_syntax

section \<open>Deletions of the encoding\<close>

lemma enc_delstrD:
  assumes c: "frer_contract dev (fr_iobase f) tab" and m: "streams_max f \<le> 0x1000" and p: "p < 16" and w: "enc_wf tab f"
  shows "\<exists>r f'. edgx_frer_seqenc_delstr dev s p f = Some (r, f') \<and> enc_post tab f f'"
proof -
  have so: "enc_soft f" and l: "length (se_ports f) = 16" using w by (simp_all add: enc_wf_def enc_soft_def)
  then have nth: "nth_opt (se_ports f) p = Some (se_ports f ! p)" using p by simp
  show ?thesis
  proof (cases "s \<in> port_streams f p")
    case False
    then have "s \<notin> set (se_list (se_ports f ! p))" by (simp add: port_streams_def)
    then show ?thesis
      using enc_post_refl [OF w] undefined_post [OF w p]
      by (auto simp: edgx_frer_seqenc_delstr_def nth Let_def)
  next
    case True
    define m where "m = port_mask f s AND NOT (BIT p)"
    obtain f1 f2 where d: "drop_port p s f = Some (m, f1)" "f2 = set_se_port p (\<lambda>pt. pt\<lparr>se_list := remove1 s (se_list pt)\<rparr>) f1"
      "enc_soft f2" "enc_only f f2" "fr_io f2 = fr_io f" "se_ports f1 = se_ports f"
      "\<forall>q < 16. port_streams f2 q = (if q = p then port_streams f p - {s} else port_streams f q)
         \<and> se_active (se_ports f2 ! q) = se_active (se_ports f ! q) \<and> (bit m q \<longleftrightarrow> q \<noteq> p \<and> s \<in> port_streams f q)"
      using drop_soft [OF so p True, folded m_def] by blast
    have ps2: "\<And>q. q < 16 \<Longrightarrow> port_streams f2 q = (if q = p then port_streams f p - {s} else port_streams f q)"
      "\<And>q. q < 16 \<Longrightarrow> se_active (se_ports f2 ! q) = se_active (se_ports f ! q)"
      "\<And>q. q < 16 \<Longrightarrow> bit m q \<longleftrightarrow> q \<noteq> p \<and> s \<in> port_streams f q" using d(7) by blast+
    define f3 where "f3 = (if se_list (se_ports f2 ! p) = [] then set_se_port p (\<lambda>pt. pt\<lparr>se_active := ENC_UNDEFINED\<rparr>) f2 else f2)"
    have f3: "enc_soft f3" "enc_only f f3" "fr_io f3 = fr_io f"
      using d(3-5) active_soft [OF d(3) p] enc_only_trans [OF d(4), of f3] by (simp_all add: f3_def)
    have ps3: "port_streams f3 q = (if q = p then port_streams f p - {s} else port_streams f q)" if "q < 16" for q
      using ps2(1) [OF that] active_ports(1) [OF d(3) p that, of ENC_UNDEFINED] unfolding f3_def by presburger
    have act3: "se_active (se_ports f3 ! q) = se_active (se_ports f ! q)" if "q < 16" "q \<noteq> p \<or> port_streams f3 p \<noteq> {}" for q
    proof (cases "se_list (se_ports f2 ! p) = []")
      case True
      then have "port_streams f3 p = {}" using ps3 [OF p] ps2(1) [OF p] by (simp add: port_streams_def)
      then show ?thesis using that ps2(2) active_ports(2) [OF d(3) p that(1), of ENC_UNDEFINED] True
        by (simp only: f3_def if_True) simp
    next
      case False
      then show ?thesis using ps2(2) [OF that(1)] by (simp add: f3_def)
    qed
    have "\<exists>f'. edgx_frer_seqenc_applydel dev p s m f3 = Some f' \<and> enc_post tab f f' \<and> se_ports f' = se_ports f3 \<and> se_root f' = se_root f3"
    proof (rule drop_applied [OF c assms(2) p w True f3 ps3])
      show "\<forall>q < 16. s \<notin> port_streams f3 q" if "m = 0"
        using ps2(3) that ps3 by auto
    qed (use act3 p in auto)
    then obtain f' where f': "edgx_frer_seqenc_applydel dev p s m f3 = Some f'" "enc_post tab f f'" by blast
    have "s \<in> set (se_list (se_ports f ! p))" using True by (simp add: port_streams_def)
    then have "edgx_frer_seqenc_delstr dev s p f = Some (0, f')"
      using f'(1) by (cases "se_list (se_ports f2 ! p) = []")
        (simp_all add: edgx_frer_seqenc_delstr_def nth Let_def d(1) d(2) [symmetric] f3_def del: set_se_port_simps(7))
    with f'(2) show ?thesis by blast
  qed
qed

text \<open>Whatever the released node reads as, the streams leave the port.\<close>

lemma del_streamsD:
  assumes "frer_contract dev (fr_iobase f) tab" "streams_max f \<le> 0x1000" "p < 16" "enc_wf tab f"
    and "set ss = port_streams f p" "distinct ss"
  shows "\<exists>f'. seqenc_del_streams dev stale p ss f = Some (0, f') \<and> enc_post tab f f' \<and> port_streams f' p = {}"
  using assms
proof (induction ss arbitrary: f)
  case Nil
  then show ?case using enc_post_refl by auto
next
  case (Cons s ss)
  have so: "enc_soft f" using Cons.prems(4) by (simp add: enc_wf_def)
  have s: "s \<in> port_streams f p" using Cons.prems(5) by auto
  define m where "m = port_mask f s AND NOT (BIT p)"
  obtain f1 f2 where d: "drop_port p s f = Some (m, f1)" "f2 = set_se_port p (\<lambda>pt. pt\<lparr>se_list := remove1 s (se_list pt)\<rparr>) f1"
    "enc_soft f2" "enc_only f f2" "fr_io f2 = fr_io f" "se_ports f1 = se_ports f"
    "\<forall>q < 16. port_streams f2 q = (if q = p then port_streams f p - {s} else port_streams f q)
       \<and> se_active (se_ports f2 ! q) = se_active (se_ports f ! q) \<and> (bit m q \<longleftrightarrow> q \<noteq> p \<and> s \<in> port_streams f q)"
    using drop_soft [OF so Cons.prems(3) s, folded m_def] by blast
  have ps2: "\<And>q. q < 16 \<Longrightarrow> port_streams f2 q = (if q = p then port_streams f p - {s} else port_streams f q)"
    "\<And>q. q < 16 \<Longrightarrow> se_active (se_ports f2 ! q) = se_active (se_ports f ! q)"
    "\<And>q. q < 16 \<Longrightarrow> bit m q \<longleftrightarrow> q \<noteq> p \<and> s \<in> port_streams f q" using d(7) by blast+
  have "\<exists>f3. edgx_frer_seqenc_applydel dev p s (if m = 0 then stale m else m) f2 = Some f3 \<and> enc_post tab f f3
      \<and> se_ports f3 = se_ports f2 \<and> se_root f3 = se_root f2"
  proof (rule drop_applied [OF Cons.prems(1-4) s d(3-5) ps2(1)])
    show "\<forall>q < 16. s \<notin> port_streams f2 q" if "(if m = 0 then stale m else m) = 0"
    proof -
      have "m = 0" using that by presburger
      then show ?thesis using ps2(1,3) by auto
    qed
  qed (use ps2(2) Cons.prems(3) in auto)
  then obtain f3 where f3: "edgx_frer_seqenc_applydel dev p s (if m = 0 then stale m else m) f2 = Some f3" "enc_post tab f f3"
    "se_ports f3 = se_ports f2" by blast
  have "enc_only f f3" "enc_wf tab f3" using f3(2) by (simp_all add: enc_post_def)
  note fld = enc_only_fields [OF this(1)]
  have "set ss = port_streams f3 p"
    using Cons.prems(3,5,6) ps2(1) by (auto simp: port_streams_def f3(3))
  with Cons.IH [of f3] Cons.prems \<open>enc_wf tab f3\<close> obtain f' where
    f': "seqenc_del_streams dev stale p ss f3 = Some (0, f')" "enc_post tab f3 f'" "port_streams f' p = {}" by (auto simp: fld)
  have "seqenc_del_streams dev stale p (s # ss) f = Some (0, f')"
    using f3(1) f'(1) by (simp add: d(1) d(2) [symmetric] Let_def)
  with f' enc_post_trans [OF f3(2) f'(2)] show ?case by blast
qed

lemma enc_delportfnD:
  assumes c: "frer_contract dev (fr_iobase f) tab" and m: "streams_max f \<le> 0x1000" and p: "p < 16" and w: "enc_wf tab f"
  shows "\<exists>r f'. edgx_frer_seqenc_delportfn dev stale p f = Some (r, f') \<and> enc_post tab f f'"
proof -
  have l: "length (se_ports f) = 16" "distinct (se_list (se_ports f ! p))" using w p by (simp_all add: enc_wf_def enc_soft_def)
  obtain f1 where f1: "seqenc_del_streams dev stale p (se_list (se_ports f ! p)) f = Some (0, f1)" "enc_post tab f f1" "port_streams f1 p = {}"
    using del_streamsD [OF assms] l(2) by (metis port_streams_def)
  have "enc_post tab f1 (set_se_port p (\<lambda>pt. pt\<lparr>se_active := ENC_UNDEFINED\<rparr>) f1)"
    using f1(2,3) p by (intro undefined_post) (simp_all add: enc_post_def port_streams_def)
  from enc_post_trans [OF f1(2) this] show ?thesis
    using f1(1) enc_post_refl [OF w] l p by (simp add: edgx_frer_seqenc_delportfn_def)
qed

end
