(* ===== verification/FrerFn.thy ===== *)
theory FrerFn
  imports FrerReach
begin

text \<open>
  The operations of the generation and recovery functions leave the encoding alone: they change their
  own trees and the words two and three of the stream table.
\<close>

unbundle bit_operations_syntax

section \<open>What they may change\<close>

definition rcv_ok :: "u16 list \<Rightarrow> seqrec \<Rightarrow> bool" where
  "rcv_ok rst n \<longleftrightarrow> sr_rcv_rst n = FRER_U16_INVALID \<or> sr_rcv_rst n \<le> rst ! 0"

definition fn_wf :: "frer \<Rightarrow> bool" where
  "fn_wf f \<longleftrightarrow> streams_max f \<le> 0xFFF \<and> seqrec_max f \<le> 0x1000
     \<and> sorted_wrt (<) (map sg_fnidx (sg_root f)) \<and> sorted_wrt (<) (map sr_fnidx (sr_root f))
     \<and> (\<forall>n \<in> set (sg_root f). sg_fnidx n < seqrec_max f \<and> (\<forall>s \<in> set (sg_list n). s < streams_max f))
     \<and> (\<forall>n \<in> set (sr_root f). sr_fnidx n < seqrec_max f \<and> (\<forall>s \<in> set (sr_list n). s < streams_max f)
          \<and> rcv_ok (seqrec_rst f) n)"

definition fn_only :: "frer \<Rightarrow> frer \<Rightarrow> bool" where
  "fn_only f f' \<longleftrightarrow> f' = f\<lparr>sg_root := sg_root f', sr_root := sr_root f', seqgencnt := seqgencnt f', seqreccnt := seqreccnt f', fr_io := fr_io f'\<rparr>"

definition fn_post :: "(iomem \<Rightarrow> u16 \<Rightarrow> frer_tbl \<Rightarrow> u16) \<Rightarrow> frer \<Rightarrow> frer \<Rightarrow> bool" where
  "fn_post tab f f' \<longleftrightarrow> fn_wf f' \<and> fn_only f f'
     \<and> (\<forall>s < streams_max f. tab (fr_io f') s FRER_TBL0 = tab (fr_io f) s FRER_TBL0 \<and> tab (fr_io f') s FRER_TBL1 = tab (fr_io f) s FRER_TBL1)"

lemma fn_only_trans: "fn_only f g \<Longrightarrow> fn_only g h \<Longrightarrow> fn_only f h"
  by (cases f; cases g; cases h) (simp add: fn_only_def)

lemma fn_only_fields:
  assumes "fn_only f f'"
  shows "fr_iobase f' = fr_iobase f" "streams_max f' = streams_max f" "seqrec_max f' = seqrec_max f"
    "se_root f' = se_root f" "se_ports f' = se_ports f" "seqrec_rst f' = seqrec_rst f" "fr_br f' = fr_br f"
  using assms by (cases f; cases f'; simp add: fn_only_def)+

lemma fn_post_refl: "fn_wf f \<Longrightarrow> fn_post tab f f"
  by (simp add: fn_post_def fn_only_def)

lemma fn_post_trans: "fn_post tab f g \<Longrightarrow> fn_post tab g h \<Longrightarrow> fn_post tab f h"
  using fn_only_trans [of f g h] fn_only_fields [of f g] by (simp add: fn_post_def)

lemma fn_postD:
  assumes "fn_post tab f f'"
  shows "fn_wf f'" "fr_iobase f' = fr_iobase f" "streams_max f' = streams_max f"
  using assms fn_only_fields [of f f'] by (simp_all add: fn_post_def)

lemma fn_post_io:
  assumes "fn_wf f" "\<And>s. s < streams_max f \<Longrightarrow> tab io s FRER_TBL0 = tab (fr_io f) s FRER_TBL0 \<and> tab io s FRER_TBL1 = tab (fr_io f) s FRER_TBL1"
  shows "fn_post tab f (f\<lparr>fr_io := io\<rparr>)"
  using assms by (simp add: fn_post_def fn_only_def fn_wf_def)

lemma enc_kept:
  assumes "enc_wf tab f" "fn_post tab f f'"
  shows "enc_wf tab f'"
proof -
  have o: "fn_only f f'" using assms(2) by (simp add: fn_post_def)
  note fld = fn_only_fields [OF o]
  have ps: "port_streams f' = port_streams f" "port_mask f' = port_mask f"
    by (simp_all add: port_streams_def port_mask_def fld fun_eq_iff)
  have "tab (fr_io f') s FRER_TBL0 = tab (fr_io f) s FRER_TBL0" "tab (fr_io f') s FRER_TBL1 = tab (fr_io f) s FRER_TBL1"
    if "s < streams_max f" for s using assms(2) that by (simp_all add: fn_post_def)
  then show ?thesis using assms(1) by (simp add: enc_wf_def enc_soft_def enc_hard_def ps fld)
qed

text \<open>The streams and the key of a node.\<close>

lemma sg_node:
  assumes "fn_wf f" "seqgen_rbt_search (sg_root f) k = Some n"
  shows "sg_fnidx n = k" "k < 0x1000" "\<forall>s \<in> set (sg_list n). s < streams_max f" "n \<in> set (sg_root f)"
proof -
  have "n \<in> set (sg_root f) \<and> sg_fnidx n = k" using assms sg.search_eq by (auto simp: fn_wf_def)
  then show "sg_fnidx n = k" "k < 0x1000" "\<forall>s \<in> set (sg_list n). s < streams_max f" "n \<in> set (sg_root f)"
    using assms(1) by (auto simp: fn_wf_def intro: less_le_trans)
qed

lemma sr_node:
  assumes "fn_wf f" "seqrec_rbt_search (sr_root f) k = Some n"
  shows "sr_fnidx n = k" "k < 0x1000" "\<forall>s \<in> set (sr_list n). s < streams_max f" "n \<in> set (sr_root f)"
proof -
  have "n \<in> set (sr_root f) \<and> sr_fnidx n = k" using assms sr.search_eq by (auto simp: fn_wf_def)
  then show "sr_fnidx n = k" "k < 0x1000" "\<forall>s \<in> set (sr_list n). s < streams_max f" "n \<in> set (sr_root f)"
    using assms(1) by (auto simp: fn_wf_def intro: less_le_trans)
qed

lemma small_handle: "fn_wf f \<Longrightarrow> s < streams_max f \<Longrightarrow> s < 0x1000 \<and> s \<noteq> 0xFFF"
  unfolding fn_wf_def word_le_nat_alt word_less_nat_alt by auto

section \<open>Single accesses\<close>


lemma rd_post:
  assumes c: "frer_contract dev (fr_iobase f) tab" and w: "fn_wf f"
    and s: "s < 0x1000 \<or> s = FRER_U16_INVALID" and r: "edgx_frer_ip_rd_strtbl dev s t f = Some (v, f')"
  shows "fn_post tab f f'"
proof (cases "s < 0x1000")
  case True
  obtain io' where "edgx_frer_ip_rd_strtbl dev s t f = Some (tab (fr_io f) s t, f\<lparr>fr_io := io'\<rparr>)" "tab io' = tab (fr_io f)"
    using rd_strD [OF c True] by blast
  with r fn_post_io [OF w, of tab io'] show ?thesis by simp
next
  case False
  with s have s': "s AND 0xFFF = 0xFFF" by simp
  obtain v' io' where "edgx_frer_ip_rd_strtbl dev s t f = Some (v', f\<lparr>fr_io := io'\<rparr>)"
    "\<And>r. r \<noteq> s AND 0xFFF \<Longrightarrow> tab io' r = tab (fr_io f) r" using rd_anyD [OF c] by blast
  with r small_handle [OF w] fn_post_io [OF w, of tab io'] show ?thesis unfolding s' by simp
qed

lemma wr_post:
  assumes c: "frer_contract dev (fr_iobase f) tab" and w: "fn_wf f"
    and s: "s < 0x1000" "t = FRER_TBL2 \<or> t = FRER_TBL3" and r: "edgx_frer_ip_wr_strtbl dev s v t del f = Some f'"
  shows "fn_post tab f f'"
proof -
  obtain io' where "edgx_frer_ip_wr_strtbl dev s v t del f = Some (f\<lparr>fr_io := io'\<rparr>)"
    "tab io' = (tab (fr_io f))(s := (tab (fr_io f) s)(t := strval t del v))" using wr_strD [OF c s(1)] by blast
  then show ?thesis using r s(2) by (auto intro!: fn_post_io [OF w])
qed

text \<open>The same for a handle that is not checked and has bit 14 clear.\<close>

lemma rd_plain_post:
  assumes c: "frer_contract dev (fr_iobase f) tab" and w: "fn_wf f"
    and s: "\<not> bit s 14" and r: "edgx_frer_ip_rd_strtbl dev s t f = Some (v, f')"
  shows "fn_post tab f f'"
proof -
  obtain io' where "edgx_frer_ip_rd_strtbl dev s t f = Some (tab (fr_io f) (s AND 0xFFF) t, f\<lparr>fr_io := io'\<rparr>)" "tab io' = tab (fr_io f)"
    using rd_plainD [OF c s] by blast
  with r fn_post_io [OF w, of tab io'] show ?thesis by simp
qed

lemma wr_plain_post:
  assumes c: "frer_contract dev (fr_iobase f) tab" and w: "fn_wf f"
    and s: "\<not> bit s 14" "t = FRER_TBL2 \<or> t = FRER_TBL3" and r: "edgx_frer_ip_wr_strtbl dev s v t del f = Some f'"
  shows "fn_post tab f f'"
proof -
  obtain io' where "edgx_frer_ip_wr_strtbl dev s v t del f = Some (f\<lparr>fr_io := io'\<rparr>)"
    "tab io' = (tab (fr_io f))(s AND 0xFFF := (tab (fr_io f) (s AND 0xFFF))(t := strval t del v))" using wr_plainD [OF c s(1)] by blast
  then show ?thesis using r s(2) by (auto intro!: fn_post_io [OF w])
qed

lemma wr_rec_post:
  assumes c: "frer_contract dev (fr_iobase f) tab" and w: "fn_wf f" and "fn < 0x1000" and r: "edgx_frer_ip_wr_seqrectbl dev fn v f = Some f'"
  shows "fn_post tab f f'"
proof -
  obtain io' where "edgx_frer_ip_wr_seqrectbl dev fn v f = Some (f\<lparr>fr_io := io'\<rparr>)" "tab io' = tab (fr_io f)"
    using wr_seqrecD [OF c assms(3)] by blast
  then show ?thesis using r by (auto intro!: fn_post_io [OF w])
qed

lemma reset_post:
  assumes c: "frer_contract dev (fr_iobase f) tab" and w: "fn_wf f" and "fn < 0x1000" and r: "seqgen_ip_reset dev fn f = Some f'"
  shows "fn_post tab f f'"
proof -
  obtain io' where "seqgen_ip_reset dev fn f = Some (f\<lparr>fr_io := io'\<rparr>)" "tab io' = tab (fr_io f)"
    using seqgen_resetD [OF c assms(3)] by blast
  then show ?thesis using r by (auto intro!: fn_post_io [OF w])
qed


lemma enabled_post:
  assumes "frer_contract dev (fr_iobase f) tab" "fn_wf f"
    and "s < 0x1000 \<or> s = FRER_U16_INVALID" "edgx_frer_seqfn_enabled dev s t f = Some (b, f')"
  shows "fn_post tab f f'"
  using assms(4) rd_post [OF assms(1-3)] by (auto simp: edgx_frer_seqfn_enabled_def bind_eq_Some)

section \<open>Changes of the trees\<close>

lemma sg_change:
  assumes w: "fn_wf f" and k: "\<And>n. sg_fnidx (u n) = sg_fnidx n"
    and l: "\<And>n. n \<in> set (sg_root f) \<Longrightarrow> sg_fnidx n = k \<Longrightarrow> \<forall>s \<in> set (sg_list (u n)). s < streams_max f"
  shows "fn_post tab f (upd_seqgen k u f)"
proof -
  have "\<forall>n \<in> set (upd_node sg_fnidx k u (sg_root f)). sg_fnidx n < seqrec_max f \<and> (\<forall>s \<in> set (sg_list n). s < streams_max f)"
    using w l by (auto simp: upd_node_def fn_wf_def k split: if_split_asm)
  then show ?thesis using w
    by (simp add: fn_post_def fn_only_def upd_seqgen_def fn_wf_def sg.map_key_upd [OF k])
qed

lemma sr_change:
  assumes w: "fn_wf f" and k: "\<And>n. sr_fnidx (u n) = sr_fnidx n"
    and l: "\<And>n. n \<in> set (sr_root f) \<Longrightarrow> sr_fnidx n = k \<Longrightarrow> (\<forall>s \<in> set (sr_list (u n)). s < streams_max f) \<and> rcv_ok (seqrec_rst f) (u n)"
  shows "fn_post tab f (upd_seqrec k u f)"
proof -
  have "\<forall>n \<in> set (upd_node sr_fnidx k u (sr_root f)). sr_fnidx n < seqrec_max f \<and> (\<forall>s \<in> set (sr_list n). s < streams_max f) \<and> rcv_ok (seqrec_rst f) n"
    using w l by (auto simp: upd_node_def fn_wf_def k split: if_split_asm)
  then show ?thesis using w
    by (simp add: fn_post_def fn_only_def upd_seqrec_def fn_wf_def sr.map_key_upd [OF k])
qed

end
