(* ===== verification/FrerFnOps.thy ===== *)
theory FrerFnOps
  imports FrerFn
begin

text \<open>Every operation of the generation and recovery functions, as far as it returns, is such a change.\<close>

unbundle bit_operations_syntax

section \<open>Generation\<close>

lemma gen_del_strP:
  assumes c: "frer_contract dev (fr_iobase f) tab" and w: "fn_wf f" and s: "\<not> bit s 14"
    and r: "seqgen_list_del_entry dev s f = Some (r, f')"
  shows "fn_post tab f f'"
proof -
  obtain b f1 where 1: "edgx_frer_seqfn_enabled dev s FRER_TBL2 f = Some (b, f1)"
    by (rule rd_plainD [OF c s, of FRER_TBL2]) (auto simp: edgx_frer_seqfn_enabled_def)
  have p1: "fn_post tab f f1"
    using 1 rd_plain_post [OF c w s] by (auto simp: edgx_frer_seqfn_enabled_def bind_eq_Some)
  note w1 = fn_postD [OF p1]
  have c1: "frer_contract dev (fr_iobase f1) tab" using c w1 by simp
  show ?thesis
  proof (cases b)
    case False
    then show ?thesis using r p1 by (simp add: seqgen_list_del_entry_def 1)
  next
    case True
    obtain v f2 where 2: "edgx_frer_ip_rd_strtbl dev s FRER_TBL2 f1 = Some (v, f2)" using rd_plainD [OF c1 s] by blast
    have p2: "fn_post tab f f2" using fn_post_trans [OF p1] rd_plain_post [OF c1 w1(1) s 2] by blast
    note w2 = fn_postD [OF p2]
    define fn where "fn = v AND 0xFFF"
    show ?thesis
    proof (cases "\<exists>n. seqgen_rbt_search (sg_root f2) fn = Some n \<and> s \<in> set (sg_list n)")
      case False
      then have "f' = f2" using r True
        by (auto simp: seqgen_list_del_entry_def 1 2 Let_def fn_def split: option.split_asm if_split_asm)
      then show ?thesis using p2 by simp
    next
      case ex: True
      define f3 where "f3 = upd_seqgen fn (\<lambda>n. n\<lparr>sg_list := remove1 s (sg_list n)\<rparr>) f2"
      have "fn_post tab f2 f3" unfolding f3_def
        using w2(1) by (intro sg_change) (auto simp: fn_wf_def dest: notin_set_remove1)
      then have p3: "fn_post tab f f3" by (rule fn_post_trans [OF p2])
      note w3 = fn_postD [OF p3]
      obtain f4 where 4: "edgx_frer_ip_wr_strtbl dev s fn FRER_TBL2 True f3 = Some f4" "f' = f4"
        using r True ex by (auto simp: seqgen_list_del_entry_def 1 2 Let_def fn_def [symmetric] f3_def [symmetric] bind_eq_Some)
      show ?thesis using fn_post_trans [OF p3 wr_plain_post [OF _ w3(1) s _ 4(1)]] c w3 4(2) by simp
    qed
  qed
qed

lemma gen_disableP:
  assumes "frer_contract dev (fr_iobase f) tab" "fn_wf f" "\<forall>s. \<not> bit (stale s) 14" "seqgen_disable dev stale ss f = Some f'"
  shows "fn_post tab f f'"
  using assms
proof (induction ss arbitrary: f)
  case Nil
  then show ?case using fn_post_refl by simp
next
  case (Cons s ss)
  then obtain f1 where 1: "edgx_frer_ip_wr_strtbl dev (stale s) 0 FRER_TBL2 True f = Some f1" "seqgen_disable dev stale ss f1 = Some f'"
    by (auto simp: bind_eq_Some)
  have p1: "fn_post tab f f1" using wr_plain_post [OF Cons.prems(1,2) _ _ 1(1)] Cons.prems(3) by blast
  show ?case using fn_post_trans [OF p1] Cons.IH [of f1] Cons.prems 1(2) fn_postD [OF p1] by simp
qed

lemma gen_del_fnP:
  assumes c: "frer_contract dev (fr_iobase f) tab" and w: "fn_wf f" and st: "\<forall>s. \<not> bit (stale s) 14"
    and r: "seqgen_rbt_del_entry dev stale k f = Some (r, f')"
  shows "fn_post tab f f'"
proof (cases "seqgen_rbt_search (sg_root f) k")
  case None
  then show ?thesis using r fn_post_refl [OF w] by (simp add: seqgen_rbt_del_entry_def)
next
  case (Some n)
  then obtain f1 where 1: "seqgen_disable dev stale (sg_list n) f = Some f1"
    "f' = f1\<lparr>sg_root := rb_erase sg_fnidx k (sg_root f1), seqgencnt := seqgencnt f1 - 1\<rparr>"
    using r by (auto simp: seqgen_rbt_del_entry_def bind_eq_Some)
  have p1: "fn_post tab f f1" by (rule gen_disableP [OF c w st 1(1)])
  have "fn_post tab f1 f'"
    using fn_postD(1) [OF p1] sg.sorted_erase
    by (auto simp: 1(2) fn_post_def fn_only_def fn_wf_def rb_erase_def)
  then show ?thesis by (rule fn_post_trans [OF p1])
qed

lemma gen_apply_fromP:
  assumes "frer_contract dev (fr_iobase f) tab" "fn_wf f" "fn < 0x1000" "\<forall>s \<in> set ss. s < 0x1000"
    and "seqgen_apply_from dev fn ss f = Some (r, f')"
  shows "fn_post tab f f'"
  using assms
proof (induction ss arbitrary: f)
  case Nil
  then show ?case using fn_post_refl by simp
next
  case (Cons s ss)
  have s: "s < 0x1000" using Cons.prems(4) by simp
  obtain b f1 where 1: "edgx_frer_seqfn_enabled dev s FRER_TBL2 f = Some (b, f1)"
    using seqfn_enabledD [OF Cons.prems(1) s] by blast
  have p1: "fn_post tab f f1" using enabled_post [OF Cons.prems(1,2) _ 1] s by blast
  note w1 = fn_postD [OF p1]
  have c1: "frer_contract dev (fr_iobase f1) tab" using Cons.prems(1) w1 by simp
  show ?case
  proof (cases b)
    case True
    obtain v f2 where 2: "edgx_frer_ip_rd_strtbl dev s FRER_TBL2 f1 = Some (v, f2)" using rd_strD [OF c1 s] by blast
    have p2: "fn_post tab f f2" using fn_post_trans [OF p1] rd_post [OF c1 w1(1) _ 2] s by blast
    then show ?thesis using Cons.prems True Cons.IH [of f2] fn_postD [OF p2] fn_post_trans [OF p2]
      by (simp add: 1 2 split: if_split_asm)
  next
    case False
    obtain f2 f3 where 2: "edgx_frer_ip_wr_strtbl dev s fn FRER_TBL2 False f1 = Some f2" "seqgen_ip_reset dev fn f2 = Some f3"
      "seqgen_apply_from dev fn ss f3 = Some (r, f')"
      using Cons.prems(5) False by (auto simp: 1 bind_eq_Some)
    have p2: "fn_post tab f f2" using fn_post_trans [OF p1] wr_post [OF c1 w1(1) s _ 2(1)] by blast
    note w2 = fn_postD [OF p2]
    have p3: "fn_post tab f f3" using fn_post_trans [OF p2] reset_post [OF _ w2(1) Cons.prems(3) 2(2)] Cons.prems(1) w2 by simp
    show ?thesis using Cons.IH [of f3] Cons.prems(1,3,4) 2(3) fn_postD [OF p3] fn_post_trans [OF p3] by simp
  qed
qed

lemma gen_applyP:
  assumes "frer_contract dev (fr_iobase f) tab" "fn_wf f" "sg_fnidx n < 0x1000" "\<forall>s \<in> set (sg_list n). s < streams_max f"
    and "edgx_frer_seqgen_apply dev n f = Some (r, f')"
  shows "fn_post tab f f'"
  using assms gen_apply_fromP [OF assms(1-3), of "sg_list n"] small_handle [OF assms(2)] fn_post_refl [OF assms(2)]
  by (auto simp: edgx_frer_seqgen_apply_def split: if_split_asm)

lemma gen_add_strP:
  assumes c: "frer_contract dev (fr_iobase f) tab" and w: "fn_wf f" and r: "edgx_frer_seqgen_addstr dev ok s k f = Some (r, f')"
  shows "fn_post tab f f'"
proof (cases "edgx_frer_check_strhdl s f = 0")
  case False
  then show ?thesis using r fn_post_refl [OF w] by (simp add: edgx_frer_seqgen_addstr_def)
next
  case True
  then have s: "s < streams_max f" by (simp add: edgx_frer_check_strhdl_def not_le split: if_split_asm)
  show ?thesis
  proof (cases "seqgen_rbt_search (sg_root f) k")
    case None
    then show ?thesis using r True fn_post_refl [OF w] by (simp add: edgx_frer_seqgen_addstr_def)
  next
    case (Some n)
    note nd = sg_node [OF w Some]
    obtain ret n' where n': "(if \<not> seqgen_list_entry_exists s n then seqgen_list_add ok s n else (0, n)) = (ret, n')"
      by (meson prod.exhaust)
    then have l: "\<forall>s \<in> set (sg_list n'). s < streams_max f" "sg_fnidx n' = k"
      using nd s by (auto simp: seqgen_list_add_def split: if_split_asm)
    define f1 where "f1 = upd_seqgen k (\<lambda>_. n') f"
    have "upd_node sg_fnidx k (\<lambda>_. n') (sg_root f) = upd_node sg_fnidx k (\<lambda>n. n'\<lparr>sg_fnidx := sg_fnidx n\<rparr>) (sg_root f)"
      using l(2) by (auto simp: upd_node_def)
    then have f1: "f1 = upd_seqgen k (\<lambda>n. n'\<lparr>sg_fnidx := sg_fnidx n\<rparr>) f" by (simp add: f1_def upd_seqgen_def)
    have p1: "fn_post tab f f1" unfolding f1 using l by (intro sg_change [OF w]) auto
    note w1 = fn_postD [OF p1]
    show ?thesis
    proof (cases "ret = 0")
      case False
      then show ?thesis using r True fn_post_refl [OF w] by (simp add: edgx_frer_seqgen_addstr_def Some n' del: split_paired_All)
    next
      case ret: True
      obtain q f2 where 2: "edgx_frer_seqgen_apply dev n' f1 = Some (q, f2)"
        "f' = (if q \<noteq> 0 then upd_seqgen k (\<lambda>n. snd (seqgen_list_rm_single s n)) f2 else f2)"
        using r True ret by (auto simp: edgx_frer_seqgen_addstr_def Some n' f1_def [symmetric] bind_eq_Some split: if_split_asm)
      have p2: "fn_post tab f f2"
        using fn_post_trans [OF p1] gen_applyP [OF _ w1(1) _ _ 2(1)] c l nd(2) w1 by simp
      have "fn_post tab f2 (upd_seqgen k (\<lambda>n. snd (seqgen_list_rm_single s n)) f2)"
        using fn_postD(1) [OF p2]
        by (intro sg_change) (auto simp: seqgen_list_rm_single_def fn_wf_def dest: notin_set_remove1)
      then show ?thesis using p2 fn_post_trans [OF p2] 2(2) by simp
    qed
  qed
qed

lemma gen_add_dirP:
  assumes c: "frer_contract dev (fr_iobase f) tab" and w: "fn_wf f" and r: "edgx_frer_seqgen_adddir dev d k f = Some (r, f')"
  shows "fn_post tab f f'"
proof (cases "seqgen_check_direction d \<noteq> 0 \<or> seqgen_rbt_search (sg_root f) k = None")
  case True
  then show ?thesis using r fn_post_refl [OF w] by (auto simp: edgx_frer_seqgen_adddir_def split: if_split_asm)
next
  case False
  then obtain n where n: "seqgen_rbt_search (sg_root f) k = Some n" by blast
  note nd = sg_node [OF w n]
  let ?n = "n\<lparr>sg_dir := d\<rparr>"
  define f1 where "f1 = upd_seqgen k (\<lambda>_. ?n) f"
  have "upd_node sg_fnidx k (\<lambda>_. ?n) (sg_root f) = upd_node sg_fnidx k (\<lambda>m. ?n\<lparr>sg_fnidx := sg_fnidx m\<rparr>) (sg_root f)"
    using nd(1) by (auto simp: upd_node_def)
  then have f1: "f1 = upd_seqgen k (\<lambda>m. ?n\<lparr>sg_fnidx := sg_fnidx m\<rparr>) f" by (simp add: f1_def upd_seqgen_def)
  have p1: "fn_post tab f f1" unfolding f1 using nd(3) by (intro sg_change [OF w]) auto
  note w1 = fn_postD [OF p1]
  obtain q f2 where 2: "edgx_frer_seqgen_apply dev ?n f1 = Some (q, f2)"
    "f' = (if q \<noteq> 0 then upd_seqgen k (\<lambda>n. n\<lparr>sg_dir := DIR_UNKNOWN\<rparr>) f2 else f2)"
    using r False by (auto simp: edgx_frer_seqgen_adddir_def n f1_def [symmetric] bind_eq_Some split: if_split_asm)
  have p2: "fn_post tab f f2" using fn_post_trans [OF p1] gen_applyP [OF _ w1(1) _ _ 2(1)] c nd w1 by simp
  have "fn_post tab f2 (upd_seqgen k (\<lambda>n. n\<lparr>sg_dir := DIR_UNKNOWN\<rparr>) f2)"
    using fn_postD(1) [OF p2] by (intro sg_change) (auto simp: fn_wf_def)
  then show ?thesis using p2 fn_post_trans [OF p2] 2(2) by simp
qed

lemma gen_createP:
  assumes w: "fn_wf f" and r: "edgx_frer_seqgen_create ok k f = (r, f')"
  shows "fn_post tab f f'"
proof (cases "edgx_frer_check_fnidx k f \<noteq> 0 \<or> seqgen_rbt_search (sg_root f) k \<noteq> None \<or> \<not> ok")
  case True
  then show ?thesis using r fn_post_refl [OF w] by (auto simp: edgx_frer_seqgen_create_def split: if_split_asm option.split_asm)
next
  case False
  then have k: "k < seqrec_max f" "seqgen_rbt_search (sg_root f) k = None"
    by (auto simp: edgx_frer_check_fnidx_def not_le split: if_split_asm)
  define new where "new = \<lparr>sg_fnidx = k, sg_list = [], sg_dir = DIR_UNKNOWN\<rparr>"
  have srt: "sorted_wrt (<) (map sg_fnidx (sg_root f))" using w by (simp add: fn_wf_def)
  have "seqgen_rbt_search (sg_root f) (sg_fnidx new) = None" by (simp add: new_def k)
  then obtain ns where ns: "seqgen_rbt_insert_node (sg_root f) new = (0, ns)" "sorted_wrt (<) (map sg_fnidx ns)" "set ns = insert new (set (sg_root f))"
    using sg.search_insert [OF srt] by blast
  have "f' = f\<lparr>seqgencnt := seqgencnt f + 1, sg_root := ns\<rparr>"
    using r False k by (simp add: edgx_frer_seqgen_create_def new_def [symmetric] ns(1))
  then show ?thesis using w ns k by (simp add: fn_post_def fn_only_def fn_wf_def new_def)
qed

section \<open>Recovery\<close>

lemma rec_write_errP:
  assumes c: "frer_contract dev (fr_iobase f) tab" and w: "fn_wf f" and s: "s < 0x1000 \<or> s = FRER_U16_INVALID"
    and r: "seqrec_write_tbl_err dev s fn f = Some (r, f')"
  shows "fn_post tab f f'"
proof -
  obtain b f1 where 1: "edgx_frer_seqfn_enabled dev s FRER_TBL3 f = Some (b, f1)"
    using r by (auto simp: seqrec_write_tbl_err_def bind_eq_Some)
  have p1: "fn_post tab f f1" by (rule enabled_post [OF c w s 1])
  note w1 = fn_postD [OF p1]
  show ?thesis
  proof (cases b)
    case True
    then obtain v where "edgx_frer_ip_rd_strtbl dev s FRER_TBL3 f1 = Some (v, f')"
      using r by (auto simp: seqrec_write_tbl_err_def 1 bind_eq_Some)
    then show ?thesis using fn_post_trans [OF p1] rd_post [OF _ w1(1) s] c w1 by simp
  next
    case False
    then show ?thesis using r p1 by (simp add: seqrec_write_tbl_err_def 1)
  qed
qed

text \<open>The check of a handle, then the write of a stream if the check succeeds.\<close>

lemma rec_checked_writeP:
  assumes c: "frer_contract dev (fr_iobase f) tab" and w: "fn_wf f" and s: "s < 0x1000 \<or> s = FRER_U16_INVALID"
    and x: "x < 0x1000" and r: "seqrec_write_tbl_err dev s fn f = Some (ret, f1)"
    and r2: "(if ret = 0 then edgx_frer_ip_wr_strtbl dev x fn FRER_TBL3 del f1 else Some f1) = Some f'"
  shows "fn_post tab f f'"
proof -
  have p1: "fn_post tab f f1" by (rule rec_write_errP [OF c w s r])
  note w1 = fn_postD [OF p1]
  show ?thesis using r2 p1 fn_post_trans [OF p1 wr_post [OF _ w1(1) x, where t = FRER_TBL3]] c w1 by (auto split: if_split_asm)
qed

lemma rec_write_streamsP:
  assumes "frer_contract dev (fr_iobase f) tab" "fn_wf f" "s < 0x1000 \<or> s = FRER_U16_INVALID" "\<forall>x \<in> set ss. x < 0x1000"
    and "seqrec_write_streams dev s fn del ss f = Some f'"
  shows "fn_post tab f f'"
  using assms
proof (induction ss arbitrary: f)
  case Nil
  then show ?case using fn_post_refl by simp
next
  case (Cons x ss)
  then obtain ret f1 f2 where 1: "seqrec_write_tbl_err dev s fn f = Some (ret, f1)"
    "(if ret = 0 then edgx_frer_ip_wr_strtbl dev x fn FRER_TBL3 del f1 else Some f1) = Some f2"
    "seqrec_write_streams dev s fn del ss f2 = Some f'"
    by (auto simp: bind_eq_Some)
  have p: "fn_post tab f f2" using rec_checked_writeP [OF Cons.prems(1-3) _ 1(1,2)] Cons.prems(4) by simp
  show ?case using fn_post_trans [OF p] Cons.IH [of f2] Cons.prems 1(3) fn_postD [OF p] by simp
qed

lemma rec_applyP:
  assumes c: "frer_contract dev (fr_iobase f) tab" and w: "fn_wf f" and s: "s < 0x1000 \<or> s = FRER_U16_INVALID"
    and r: "edgx_frer_seqrec_apply dev k s del f = Some f'"
  shows "fn_post tab f f'"
proof -
  obtain n where n: "seqrec_rbt_search (sr_root f) k = Some n"
    using r by (auto simp: edgx_frer_seqrec_apply_def bind_eq_Some)
  note nd = sr_node [OF w n]
  have l: "\<forall>x \<in> set (sr_list n). x < 0x1000" using nd(3) small_handle [OF w] by blast
  show ?thesis
  proof (cases "seqrec_all_set n \<or> del")
    case False
    then show ?thesis using r fn_post_refl [OF w] by (simp add: edgx_frer_seqrec_apply_def n)
  next
    case True
    then obtain a where a: "first_bigger f (sr_rcv_rst n) = Some a"
      using r by (auto simp: edgx_frer_seqrec_apply_def n bind_eq_Some)
    consider (first) "\<not> seqrec_cfg_applied n" | (str) "seqrec_cfg_applied n" "s \<noteq> FRER_U16_INVALID"
      | (cfg) "seqrec_cfg_applied n" "s = FRER_U16_INVALID" by blast
    then show ?thesis
    proof cases
      case first
      then obtain f1 f2 where 1: "edgx_frer_ip_wr_seqrectbl dev k (seqrec_calc_cfg_val n a) f = Some f1"
        "seqrec_write_streams dev s k del (sr_list n) f1 = Some f2" "f' = upd_seqrec k (\<lambda>n. n\<lparr>seqrec_cfg_applied := True\<rparr>) f2"
        using r True by (auto simp: edgx_frer_seqrec_apply_def n a Let_def bind_eq_Some)
      have p1: "fn_post tab f f1" by (rule wr_rec_post [OF c w nd(2) 1(1)])
      note w1 = fn_postD [OF p1]
      have p2: "fn_post tab f f2" using fn_post_trans [OF p1] rec_write_streamsP [OF _ w1(1) s l 1(2)] c w1 by simp
      have "fn_post tab f2 f'" unfolding 1(3)
        using fn_postD(1) [OF p2] by (intro sr_change) (auto simp: fn_wf_def rcv_ok_def)
      then show ?thesis by (rule fn_post_trans [OF p2])
    next
      case str
      then obtain ret f1 where 1: "seqrec_write_tbl_err dev s k f = Some (ret, f1)"
        "(if ret = 0 then edgx_frer_ip_wr_strtbl dev s k FRER_TBL3 del f1 else Some f1) = Some f'"
        using r True by (auto simp: edgx_frer_seqrec_apply_def n a Let_def bind_eq_Some)
      show ?thesis using rec_checked_writeP [OF c w s _ 1] s str(2) by blast
    next
      case cfg
      then have "edgx_frer_ip_wr_seqrectbl dev k (seqrec_calc_cfg_val n a) f = Some f'"
        using r True by (auto simp: edgx_frer_seqrec_apply_def n a Let_def)
      then show ?thesis by (rule wr_rec_post [OF c w nd(2)])
    qed
  qed
qed

lemma rec_changeP:
  assumes c: "frer_contract dev (fr_iobase f) tab" and w: "fn_wf f" and k: "\<And>n. sr_fnidx (u n) = sr_fnidx n"
    and l: "\<And>n. n \<in> set (sr_root f) \<Longrightarrow> sr_fnidx n = k \<Longrightarrow> (\<forall>s \<in> set (sr_list (u n)). s < streams_max f) \<and> rcv_ok (seqrec_rst f) (u n)"
    and s: "s < 0x1000 \<or> s = FRER_U16_INVALID" and r: "edgx_frer_seqrec_apply dev k s del (upd_seqrec k u f) = Some f'"
  shows "fn_post tab f f'"
proof -
  have p: "fn_post tab f (upd_seqrec k u f)" by (rule sr_change [OF w k l])
  note w1 = fn_postD [OF p]
  show ?thesis using fn_post_trans [OF p] rec_applyP [OF _ w1(1) s r] c w1 by simp
qed

lemma set_paramP:
  assumes c: "frer_contract dev (fr_iobase f) tab" and w: "fn_wf f"
    and k: "\<And>n. sr_fnidx (u n) = sr_fnidx n" "\<And>n. sr_list (u n) = sr_list n"
    and rv: "\<And>n. rcv_ok (seqrec_rst f) n \<Longrightarrow> rcv_ok (seqrec_rst f) (u n)" and r: "set_param dev u k f = Some (r, f')"
  shows "fn_post tab f f'"
proof (cases "seqrec_fn_exists f k")
  case None
  then show ?thesis using r fn_post_refl [OF w] by (simp add: set_param_def)
next
  case (Some n)
  have "edgx_frer_seqrec_apply dev k FRER_U16_INVALID False (upd_seqrec k u f) = Some f'"
    using r by (auto simp: set_param_def Some)
  from rec_changeP [OF c w k(1) _ _ this] k(2) rv w show ?thesis by (simp add: fn_wf_def)
qed

lemma rec_paramsP:
  assumes c: "frer_contract dev (fr_iobase f) tab" and w: "fn_wf f"
  shows "edgx_frer_seqrec_addport dev p k f = Some (r, f') \<Longrightarrow> fn_post tab f f'"
    "edgx_frer_seqrec_set_rbt_bool dev v k fld f = Some (r, f') \<Longrightarrow> fn_post tab f f'"
    "edgx_frer_seqrec_set_alg dev a k f = Some (r, f') \<Longrightarrow> fn_post tab f f'"
    "edgx_frer_seqrec_set_rrst dev t k f = Some (r, f') \<Longrightarrow> fn_post tab f f'"
    "edgx_frer_seqrec_set_histl dev h k f = Some (r, f') \<Longrightarrow> fn_post tab f f'"
    "edgx_frer_seqrec_adddir dev d k f = Some (r, f') \<Longrightarrow> fn_post tab f f'"
  using fn_post_refl [OF w]
  by (auto elim!: set_paramP [OF c w, rotated 3] simp: rcv_ok_def seqrec_check_rcv_rst_def not_less edgx_frer_seqrec_addport_def edgx_frer_seqrec_set_rbt_bool_def edgx_frer_seqrec_set_alg_def edgx_frer_seqrec_set_rrst_def
      edgx_frer_seqrec_set_histl_def edgx_frer_seqrec_adddir_def split: if_split_asm option.split_asm seqrec_field.split_asm)

lemma rec_del_portP:
  assumes w: "fn_wf f" and r: "edgx_frer_seqrec_delport p k f = (r, f')"
  shows "fn_post tab f f'"
proof -
  have "fn_post tab f (upd_seqrec k (\<lambda>sr. sr\<lparr>sr_ptmask := sr_ptmask sr AND NOT (BIT p)\<rparr>) f)"
    using w by (intro sr_change) (auto simp: fn_wf_def rcv_ok_def)
  then show ?thesis using r fn_post_refl [OF w] by (auto simp: edgx_frer_seqrec_delport_def split: if_split_asm option.split_asm)
qed

lemma list_del_set: "s' \<in> set (sr_list (snd (seqrec_list_del s n))) \<Longrightarrow> s' \<in> set (sr_list n)"
  using set_remove1_subset [of s "sr_list n"] by (auto simp: seqrec_list_del_def split: if_split_asm)

lemma list_del_key [simp]: "sr_fnidx (snd (seqrec_list_del s n)) = sr_fnidx n"
  by (simp add: seqrec_list_del_def)

lemma list_del_rcv [simp]: "rcv_ok rst (snd (seqrec_list_del s n)) = rcv_ok rst n"
  by (simp add: seqrec_list_del_def rcv_ok_def)

lemma rec_del_strP:
  assumes c: "frer_contract dev (fr_iobase f) tab" and w: "fn_wf f" and r: "edgx_frer_seqrec_delstr dev s k f = Some (r, f')"
  shows "fn_post tab f f'"
proof (cases "edgx_frer_check_strhdl s f = 0 \<and> (\<exists>n. seqrec_fn_exists f k = Some n \<and> seqrec_list_entry_exists s n)")
  case False
  then show ?thesis using r fn_post_refl [OF w] by (auto simp: edgx_frer_seqrec_delstr_def split: if_split_asm option.split_asm)
next
  case True
  then have s: "s < 0x1000" using small_handle [OF w, of s] by (simp add: edgx_frer_check_strhdl_def not_le split: if_split_asm)
  have ap: "edgx_frer_seqrec_apply dev k s True (upd_seqrec k (\<lambda>sr. snd (seqrec_list_del s sr)) f) = Some f'"
    using r True by (auto simp: edgx_frer_seqrec_delstr_def)
  have l: "(\<forall>x \<in> set (sr_list (snd (seqrec_list_del s n))). x < streams_max f) \<and> rcv_ok (seqrec_rst f) (snd (seqrec_list_del s n))"
    if "n \<in> set (sr_root f)" for n
    using w that by (auto simp: fn_wf_def dest: list_del_set)
  show ?thesis
  proof (rule rec_changeP [OF c w _ _ _ ap])
    show "(\<forall>x \<in> set (sr_list (snd (seqrec_list_del s n))). x < streams_max f) \<and> rcv_ok (seqrec_rst f) (snd (seqrec_list_del s n))"
      if "n \<in> set (sr_root f)" for n
      using l [OF that] .
  qed (use s in simp_all)
qed

lemma rec_del_streamsP:
  assumes "frer_contract dev (fr_iobase f) tab" "fn_wf f" "\<forall>s \<in> set ss. s < 0x1000" "seqrec_del_streams dev k ss f = Some f'"
  shows "fn_post tab f f'"
  using assms
proof (induction ss arbitrary: f)
  case Nil
  then show ?case using fn_post_refl by simp
next
  case (Cons s ss)
  then obtain f1 where 1: "edgx_frer_seqrec_apply dev k s True f = Some f1"
    "seqrec_del_streams dev k ss (upd_seqrec k (\<lambda>sr. snd (seqrec_list_del s sr)) f1) = Some f'"
    by (auto simp: bind_eq_Some)
  have p1: "fn_post tab f f1" using rec_applyP [OF Cons.prems(1,2) _ 1(1)] Cons.prems(3) by simp
  have "fn_post tab f1 (upd_seqrec k (\<lambda>sr. snd (seqrec_list_del s sr)) f1)"
    using fn_postD(1) [OF p1] by (intro sr_change) (auto simp: fn_wf_def dest: list_del_set)
  then have p2: "fn_post tab f (upd_seqrec k (\<lambda>sr. snd (seqrec_list_del s sr)) f1)" by (rule fn_post_trans [OF p1])
  show ?case using fn_post_trans [OF p2] Cons.IH [OF _ _ _ 1(2)] Cons.prems(1,3) fn_postD [OF p2] by simp
qed

lemma rec_del_fnP:
  assumes c: "frer_contract dev (fr_iobase f) tab" and w: "fn_wf f" and r: "edgx_frer_seqrec_delfn dev k f = Some (r, f')"
  shows "fn_post tab f f'"
proof (cases "seqrec_fn_exists f k")
  case None
  then show ?thesis using r fn_post_refl [OF w] by (simp add: edgx_frer_seqrec_delfn_def)
next
  case (Some n)
  then have l: "\<forall>s \<in> set (sr_list n). s < 0x1000" using sr_node(3) [OF w, of k n] small_handle [OF w] by (auto simp: seqrec_fn_exists_def)
  obtain f1 where 1: "seqrec_del_streams dev k (sr_list n) f = Some f1" "f' = seqrec_rbt_delnode k f1"
    using r Some by (auto simp: edgx_frer_seqrec_delfn_def bind_eq_Some)
  have p1: "fn_post tab f f1" by (rule rec_del_streamsP [OF c w l 1(1)])
  have "fn_post tab f1 f'"
    using fn_postD(1) [OF p1] sr.sorted_erase
    by (auto simp: 1(2) seqrec_rbt_delnode_def fn_post_def fn_only_def fn_wf_def rb_erase_def)
  then show ?thesis by (rule fn_post_trans [OF p1])
qed

lemma rec_add_strP:
  assumes c: "frer_contract dev (fr_iobase f) tab" and w: "fn_wf f" and r: "edgx_frer_seqrec_addstr dev ok s k f = Some (r, f')"
  shows "fn_post tab f f'"
proof (cases "edgx_frer_check_strhdl s f = 0 \<and> seqrec_rbt_search (sr_root f) k \<noteq> None")
  case False
  then show ?thesis using r fn_post_refl [OF w] by (auto simp: edgx_frer_seqrec_addstr_def split: if_split_asm)
next
  case True
  then obtain n where n: "seqrec_rbt_search (sr_root f) k = Some n" by blast
  note nd = sr_node [OF w n]
  have s: "s < streams_max f" using True by (simp add: edgx_frer_check_strhdl_def not_le split: if_split_asm)
  obtain ret n' where n': "(if \<not> seqrec_list_entry_exists s n then seqrec_list_add ok s n else (0, n)) = (ret, n')"
    by (meson prod.exhaust)
  moreover have "rcv_ok (seqrec_rst f) n" using w nd(4) by (simp add: fn_wf_def)
  ultimately have l: "\<forall>s \<in> set (sr_list n'). s < streams_max f" "sr_fnidx n' = k" "rcv_ok (seqrec_rst f) n'"
    using nd s by (auto simp: seqrec_list_add_def rcv_ok_def split: if_split_asm)
  have l3: "rcv_ok (seqrec_rst f) (n'\<lparr>sr_fnidx := x\<rparr>)" for x using l(3) by (simp add: rcv_ok_def)
  have "upd_node sr_fnidx k (\<lambda>_. n') (sr_root f) = upd_node sr_fnidx k (\<lambda>n. n'\<lparr>sr_fnidx := sr_fnidx n\<rparr>) (sr_root f)"
    using l(2) by (auto simp: upd_node_def)
  then have u: "upd_seqrec k (\<lambda>_. n') f = upd_seqrec k (\<lambda>n. n'\<lparr>sr_fnidx := sr_fnidx n\<rparr>) f" by (simp add: upd_seqrec_def)
  show ?thesis
  proof (cases "ret = 0")
    case False
    then show ?thesis using r True fn_post_refl [OF w] by (simp add: edgx_frer_seqrec_addstr_def n n')
  next
    case ret: True
    have "edgx_frer_seqrec_apply dev k s False (upd_seqrec k (\<lambda>n. n'\<lparr>sr_fnidx := sr_fnidx n\<rparr>) f) = Some f'"
      using r True ret by (auto simp: edgx_frer_seqrec_addstr_def n n' u [symmetric])
    from rec_changeP [OF c w _ _ _ this] l l3 small_handle [OF w s] show ?thesis by simp
  qed
qed

lemma rec_createP:
  assumes w: "fn_wf f" and r: "edgx_frer_seqrec_create ok k f = (r, f')"
  shows "fn_post tab f f'"
proof (cases "edgx_frer_check_fnidx k f \<noteq> 0 \<or> seqrec_rbt_search (sr_root f) k \<noteq> None \<or> \<not> ok")
  case True
  then show ?thesis using r fn_post_refl [OF w] by (auto simp: edgx_frer_seqrec_create_def split: if_split_asm option.split_asm)
next
  case False
  then have k: "k < seqrec_max f" "seqrec_rbt_search (sr_root f) k = None"
    by (auto simp: edgx_frer_check_fnidx_def not_le split: if_split_asm)
  have srt: "sorted_wrt (<) (map sr_fnidx (sr_root f))" using w by (simp add: fn_wf_def)
  have "seqrec_rbt_search (sr_root f) (sr_fnidx (new_seqrec k)) = None" by (simp add: new_seqrec_def k)
  then obtain ns where ns: "seqrec_rbt_insert_node (sr_root f) (new_seqrec k) = (0, ns)" "sorted_wrt (<) (map sr_fnidx ns)"
    "set ns = insert (new_seqrec k) (set (sr_root f))"
    using sr.search_insert [OF srt] by blast
  have "f' = f\<lparr>sr_root := ns, seqreccnt := seqreccnt f + 1\<rparr>"
    using r False k by (simp add: edgx_frer_seqrec_create_def ns(1))
  then show ?thesis using w ns k by (simp add: fn_post_def fn_only_def fn_wf_def rcv_ok_def new_seqrec_def)
qed

end
