(* ===== verification/FrerDemo.thy ===== *)
theory FrerDemo
  imports FrerFnOps
begin

text \<open>A device that keeps the stream table in memory behind the registers: it satisfies the contract.\<close>

unbundle bit_operations_syntax

definition str_cell :: "u16 \<Rightarrow> nat" where
  "str_cell s = 0x10000 + 4 * unat s"

fun tbl_ofs :: "frer_tbl \<Rightarrow> nat" where
  "tbl_ofs FRER_TBL0 = 0" | "tbl_ofs FRER_TBL1 = 1" | "tbl_ofs FRER_TBL2 = 2" | "tbl_ofs FRER_TBL3 = 3"

definition frer_cells :: "iomem \<Rightarrow> u16 \<Rightarrow> frer_tbl \<Rightarrow> u16" where
  "frer_cells io s t = io (str_cell s + tbl_ofs t)"

definition frer_ram :: device where
  "frer_ram io =
     (if bit (io 0x300) 15 then io(0x300 := 0)
      else if bit (io 0x380) 13 then io(0x380 := 0)
      else if bit (io 0x400) 15
      then (let a = str_cell (io 0x400 AND 0xFFF); io0 = io(0x400 := 0) in
            if bit (io 0x400) 14 then io0(a := io 0x410, a + 1 := io 0x412, a + 2 := io 0x414, a + 3 := io 0x416)
            else io0(0x410 := io a, 0x412 := io (a + 1), 0x414 := io (a + 2), 0x416 := io (a + 3)))
      else io)"

lemma cells_low: "(\<And>x. 0x10000 \<le> x \<Longrightarrow> io' x = io x) \<Longrightarrow> frer_cells io' = frer_cells io"
  by (simp add: frer_cells_def str_cell_def fun_eq_iff)

lemma frer_cell_eq: "str_cell s + tbl_ofs t = str_cell s' + tbl_ofs t' \<longleftrightarrow> s = s' \<and> t = t'"
proof
  assume e: "str_cell s + tbl_ofs t = str_cell s' + tbl_ofs t'"
  have l: "tbl_ofs t < 4" "tbl_ofs t' < 4" by (cases t; simp) (cases t'; simp)
  then have u: "unat s = unat s'" using e by (simp add: str_cell_def)
  then have "tbl_ofs t = tbl_ofs t'" using e by (simp add: str_cell_def)
  with u show "s = s' \<and> t = t'" by (auto intro: unsigned_word_eqI) (cases t; cases t'; simp)+
qed simp

lemma cells_write:
  "frer_cells (io(str_cell s := w FRER_TBL0, str_cell s + 1 := w FRER_TBL1, str_cell s + 2 := w FRER_TBL2, str_cell s + 3 := w FRER_TBL3))
     = (frer_cells io)(s := w)"
proof (intro ext)
  fix x t
  have c: "str_cell s = str_cell s + tbl_ofs FRER_TBL0" "str_cell s + 1 = str_cell s + tbl_ofs FRER_TBL1"
    "str_cell s + 2 = str_cell s + tbl_ofs FRER_TBL2" "str_cell s + 3 = str_cell s + tbl_ofs FRER_TBL3" by simp_all
  show "frer_cells (io(str_cell s := w FRER_TBL0, str_cell s + 1 := w FRER_TBL1, str_cell s + 2 := w FRER_TBL2, str_cell s + 3 := w FRER_TBL3)) x t
     = ((frer_cells io)(s := w)) x t"
    by (subst c(1), subst c(2), subst c(3), subst c(4)) (cases t; simp only: frer_cells_def fun_upd_apply frer_cell_eq; simp add: frer_cells_def)
qed

text \<open>What a command of the stream table does once no other command is pending.\<close>

lemma ram_stream:
  assumes "\<not> bit (io 0x300) 15" "\<not> bit (io 0x380) 13" "bit (io 0x400) 15"
  shows "frer_ram io 0x400 = 0"
    "bit (io 0x400) 14 \<Longrightarrow> frer_cells (frer_ram io) = (frer_cells io)(io 0x400 AND 0xFFF := (\<lambda>t. io (strtbl_reg t)))
       \<and> (\<forall>t. frer_ram io (strtbl_reg t) = io (strtbl_reg t))"
    "\<not> bit (io 0x400) 14 \<Longrightarrow> frer_cells (frer_ram io) = frer_cells io \<and> (\<forall>t. frer_ram io (strtbl_reg t) = frer_cells io (io 0x400 AND 0xFFF) t)"
proof -
  let ?a = "str_cell (io 0x400 AND 0xFFF)"
  have hi: "0x10000 \<le> ?a" by (simp add: str_cell_def)
  show "frer_ram io 0x400 = 0" using assms hi by (simp add: frer_ram_def Let_def)
  show "frer_cells (frer_ram io) = (frer_cells io)(io 0x400 AND 0xFFF := (\<lambda>t. io (strtbl_reg t)))
       \<and> (\<forall>t. frer_ram io (strtbl_reg t) = io (strtbl_reg t))" if b: "bit (io 0x400) 14"
  proof
    have "frer_ram io = (io(0x400 := 0))(?a := io (strtbl_reg FRER_TBL0), ?a + 1 := io (strtbl_reg FRER_TBL1),
        ?a + 2 := io (strtbl_reg FRER_TBL2), ?a + 3 := io (strtbl_reg FRER_TBL3))"
      using assms b by (simp add: frer_ram_def Let_def)
    then have "frer_cells (frer_ram io) = (frer_cells (io(0x400 := 0)))(io 0x400 AND 0xFFF := (\<lambda>t. io (strtbl_reg t)))"
      by (simp only: cells_write [where w = "\<lambda>t. io (strtbl_reg t)"])
    moreover have "frer_cells (io(0x400 := 0)) = frer_cells io" by (rule cells_low) simp
    ultimately show "frer_cells (frer_ram io) = (frer_cells io)(io 0x400 AND 0xFFF := (\<lambda>t. io (strtbl_reg t)))" by simp
    show "\<forall>t. frer_ram io (strtbl_reg t) = io (strtbl_reg t)"
    proof
      fix t show "frer_ram io (strtbl_reg t) = io (strtbl_reg t)"
        using assms b hi by (cases t) (simp_all add: frer_ram_def Let_def)
    qed
  qed
  show "frer_cells (frer_ram io) = frer_cells io \<and> (\<forall>t. frer_ram io (strtbl_reg t) = frer_cells io (io 0x400 AND 0xFFF) t)" if b: "\<not> bit (io 0x400) 14"
  proof
    show "frer_cells (frer_ram io) = frer_cells io" using assms b by (intro cells_low) (simp add: frer_ram_def Let_def)
    show "\<forall>t. frer_ram io (strtbl_reg t) = frer_cells io (io 0x400 AND 0xFFF) t"
    proof
      fix t show "frer_ram io (strtbl_reg t) = frer_cells io (io 0x400 AND 0xFFF) t"
        using assms b by (cases t) (simp_all add: frer_ram_def frer_cells_def Let_def)
    qed
  qed
qed

text \<open>The busy bit of a command, and a step that leaves it set.\<close>

abbreviation stream_busy :: "iomem \<Rightarrow> bool" where
  "stream_busy \<equiv> \<lambda>io. edgx_rd16 io 0 STREAM_CMD AND 0x8000 \<noteq> 0"

lemma stream_busy: "stream_busy io \<longleftrightarrow> bit (io 0x400) 15"
  unfolding edgx_rd16_def by (simp add: bit15)

lemma wait_step: "busy (dev io) \<Longrightarrow> wait_clear dev busy io = wait_clear dev busy (dev io)"
  by (subst wait_clear.simps) (simp add: Let_def)

definition stream_done :: "iomem \<Rightarrow> iomem \<Rightarrow> bool" where
  "stream_done io io' \<longleftrightarrow>
     (if bit (io 0x400) 14 then frer_cells io' = (frer_cells io)(io 0x400 AND 0xFFF := (\<lambda>t. io (strtbl_reg t)))
        \<and> (\<forall>t. io' (strtbl_reg t) = io (strtbl_reg t))
      else frer_cells io' = frer_cells io \<and> (\<forall>t. io' (strtbl_reg t) = frer_cells io (io 0x400 AND 0xFFF) t))"

lemma stream_done_low:
  assumes "\<And>x. x \<notin> {0x300, 0x380} \<Longrightarrow> io1 x = io x" shows "stream_done io1 io' = stream_done io io'"
proof -
  have "frer_cells io1 = frer_cells io" by (rule cells_low) (use assms in auto)
  moreover have "io1 (strtbl_reg t) = io (strtbl_reg t)" for t using assms by (cases t) simp_all
  ultimately show ?thesis using assms by (simp add: stream_done_def)
qed

lemma ram_waits:
  assumes "bit (io 0x400) 15"
  shows "\<exists>io'. wait_clear frer_ram stream_busy io = Some io' \<and> stream_done io io'"
proof -
  have idle: "\<exists>io'. wait_clear frer_ram stream_busy io = Some io' \<and> stream_done io io'"
    if "\<not> bit (io 0x300) 15" "\<not> bit (io 0x380) 13" "bit (io 0x400) 15" for io
  proof -
    have "\<not> stream_busy (frer_ram io)" unfolding stream_busy using ram_stream(1) [OF that] by simp
    then show ?thesis using ram_stream(2,3) [OF that] by (auto simp: wait_clear_ready stream_done_def)
  qed
  have gen: "\<exists>io'. wait_clear frer_ram stream_busy io = Some io' \<and> stream_done io io'"
    if "\<not> bit (io 0x300) 15" "bit (io 0x400) 15" for io
  proof (cases "bit (io 0x380) 13")
    case True
    then have s: "frer_ram io = io(0x380 := 0)" using that by (simp add: frer_ram_def)
    have d: "stream_done (io(0x380 := 0)) x = stream_done io x" for x by (rule stream_done_low) simp
    have "stream_busy (frer_ram io)" unfolding stream_busy s using that by simp
    from wait_step [of stream_busy frer_ram io, OF this] idle [of "io(0x380 := 0)"] that show ?thesis
      unfolding s d by simp
  qed (use idle that in blast)
  show ?thesis
  proof (cases "bit (io 0x300) 15")
    case True
    then have s: "frer_ram io = io(0x300 := 0)" by (simp add: frer_ram_def)
    have d: "stream_done (io(0x300 := 0)) x = stream_done io x" for x by (rule stream_done_low) simp
    have "stream_busy (frer_ram io)" unfolding stream_busy s using assms by simp
    from wait_step [of stream_busy frer_ram io, OF this] gen [of "io(0x300 := 0)"] assms show ?thesis
      unfolding s d by simp
  qed (use gen assms in blast)
qed

lemma frer_ram_contract: "frer_contract frer_ram 0 frer_cells"
  unfolding frer_contract_def
proof (intro conjI allI impI)
  fix io :: iomem and cmd :: u16
  assume b: "bit cmd 15"
  let ?io = "edgx_wr16 io 0 STREAM_CMD cmd"
  have r: "?io (strtbl_reg t) = io (strtbl_reg t)" for t by (cases t) (simp_all add: edgx_wr16_def)
  have c: "frer_cells ?io = frer_cells io" by (rule cells_low) (simp add: edgx_wr16_def)
  obtain io' where io': "wait_clear frer_ram stream_busy ?io = Some io'" "stream_done ?io io'"
    using ram_waits [of ?io] b by (auto simp: edgx_wr16_def)
  from io'(2) have "if bit cmd 14 then frer_cells io' = (frer_cells io)(cmd AND 0xFFF := (\<lambda>t. io (strtbl_reg t))) \<and> (\<forall>t. io' (strtbl_reg t) = io (strtbl_reg t))
      else frer_cells io' = frer_cells io \<and> (\<forall>t. io' (strtbl_reg t) = frer_cells io (cmd AND 0xFFF) t)"
    unfolding stream_done_def c r by (simp add: edgx_wr16_def)
  with io'(1) show "\<exists>io'. wait_clear frer_ram stream_busy ?io = Some io'
     \<and> (if bit cmd 14 then frer_cells io' = (frer_cells io)(cmd AND 0xFFF := (\<lambda>t. edgx_rd16 io 0 (strtbl_reg t)))
             \<and> (\<forall>t. edgx_rd16 io' 0 (strtbl_reg t) = edgx_rd16 io 0 (strtbl_reg t))
        else frer_cells io' = frer_cells io \<and> (\<forall>t. edgx_rd16 io' 0 (strtbl_reg t) = frer_cells io (cmd AND 0xFFF) t))"
    unfolding edgx_rd16_def add_0 by blast
next
  fix io :: iomem and fn :: u16
  assume "fn < 0x1000"
  let ?io = "edgx_wr16 io 0 SEQ_REC_CMD (0xC000 OR fn)"
  have "bit (0xC000 OR fn) 15" by (simp only: bit_or_iff bit_16_consts) simp
  then have s: "frer_ram ?io = ?io(0x300 := 0)" by (simp add: frer_ram_def)
  have "wait_clear frer_ram (\<lambda>io. edgx_rd16 io 0 SEQ_REC_CMD AND 0x8000 \<noteq> 0) ?io = Some (frer_ram ?io)"
    by (rule wait_clear_ready) (simp add: s edgx_rd16_def)
  moreover have "frer_cells (frer_ram ?io) = frer_cells io" unfolding s by (rule cells_low) (simp add: edgx_wr16_def)
  ultimately show "\<exists>io'. wait_clear frer_ram (\<lambda>io. edgx_rd16 io 0 SEQ_REC_CMD AND 0x8000 \<noteq> 0) ?io = Some io' \<and> frer_cells io' = frer_cells io" by blast
next
  fix io :: iomem and fn :: u16
  assume "fn < 0x1000"
  let ?io = "edgx_wr16 io 0 SEQ_GEN_CMD (fn OR 0x2000)" and ?busy = "\<lambda>io. edgx_rd16 io 0 SEQ_GEN_CMD AND 0x2000 \<noteq> 0"
  have b: "bit (fn OR 0x2000) 13" by (simp only: bit_or_iff bit_16_consts) simp
  show "\<exists>io'. wait_clear frer_ram ?busy ?io = Some io' \<and> frer_cells io' = frer_cells io"
  proof (cases "bit (io 0x300) 15")
    case False
    then have s: "frer_ram ?io = ?io(0x380 := 0)" using b by (simp add: frer_ram_def)
    have "wait_clear frer_ram ?busy ?io = Some (frer_ram ?io)" by (rule wait_clear_ready) (simp add: s edgx_rd16_def)
    moreover have "frer_cells (frer_ram ?io) = frer_cells io" unfolding s by (rule cells_low) (simp add: edgx_wr16_def)
    ultimately show ?thesis by blast
  next
    case True
    let ?io1 = "?io(0x300 := 0)"
    have s: "frer_ram ?io = ?io1" using True by (simp add: frer_ram_def)
    have s1: "frer_ram ?io1 = ?io1(0x380 := 0)" using b by (simp add: frer_ram_def)
    have "?busy (frer_ram ?io)"
    proof -
      have "(fn OR 0x2000) AND 0x2000 = 0x2000" by (rule word_or_and_self)
      then show ?thesis by (simp add: s edgx_rd16_def)
    qed
    then have "wait_clear frer_ram ?busy ?io = wait_clear frer_ram ?busy (frer_ram ?io)" by (rule wait_step)
    also have "\<dots> = Some (frer_ram ?io1)" unfolding s by (rule wait_clear_ready) (simp add: s1 edgx_rd16_def)
    finally have "wait_clear frer_ram ?busy ?io = Some (frer_ram ?io1)" .
    moreover have "frer_cells (frer_ram ?io1) = frer_cells io" unfolding s1 by (rule cells_low) (simp add: edgx_wr16_def)
    ultimately show ?thesis by blast
  qed
next
  fix io :: iomem and t v
  show "frer_cells (edgx_wr16 io 0 (strtbl_reg t) v) = frer_cells io"
    by (rule cells_low) (cases t; simp add: edgx_wr16_def)
  show "frer_cells (edgx_wr16 io 0 SEQ_REC_TBL v) = frer_cells io" by (rule cells_low) (simp add: edgx_wr16_def)
qed

end
