(* ===== verification/FrerProps.thy ===== *)
theory FrerProps
  imports FrerDemo
begin

text \<open>The states that the frame replication reaches, and the agreement of its encoding tables in them.\<close>

unbundle bit_operations_syntax

section \<open>Reachable states\<close>

text \<open>
  A step is any operation that returns. Allocations of the encoding succeed (a port's list and the tree
  of the streams differ after a failed one). Two handles are not checked: the one that a deletion of
  a stream from its generation function gets from the user, and the one that a deletion of a generation
  function reads from a released list element (\<open>stale\<close> of the deleted one). Both have bit 14 clear here.
\<close>

inductive frer_reach :: "device \<Rightarrow> (u16 \<Rightarrow> u16) \<Rightarrow> frer \<Rightarrow> frer \<Rightarrow> bool" for dev stale f0 where
  fr_probe: "frer_reach dev stale f0 f0"
| enc_create: "frer_reach dev stale f0 f \<Longrightarrow> p < 16 \<Longrightarrow> edgx_frer_seqenc_create_entry p d f = Some (r, f') \<Longrightarrow> frer_reach dev stale f0 f'"
| enc_add: "frer_reach dev stale f0 f \<Longrightarrow> p < 16 \<Longrightarrow> edgx_frer_seqenc_add_str dev True True s p f = Some (r, f') \<Longrightarrow> frer_reach dev stale f0 f'"
| enc_active: "frer_reach dev stale f0 f \<Longrightarrow> p < 16 \<Longrightarrow> edgx_frer_seqenc_set_active dev a p f = Some (r, f') \<Longrightarrow> frer_reach dev stale f0 f'"
| enc_delport: "frer_reach dev stale f0 f \<Longrightarrow> p < 16 \<Longrightarrow> edgx_frer_seqenc_delportfn dev old p f = Some (r, f') \<Longrightarrow> frer_reach dev stale f0 f'"
| enc_delstr: "frer_reach dev stale f0 f \<Longrightarrow> p < 16 \<Longrightarrow> edgx_frer_seqenc_delstr dev s p f = Some (r, f') \<Longrightarrow> frer_reach dev stale f0 f'"
| gen_create: "frer_reach dev stale f0 f \<Longrightarrow> edgx_frer_seqgen_create ok k f = (r, f') \<Longrightarrow> frer_reach dev stale f0 f'"
| gen_addstr: "frer_reach dev stale f0 f \<Longrightarrow> edgx_frer_seqgen_addstr dev ok s k f = Some (r, f') \<Longrightarrow> frer_reach dev stale f0 f'"
| gen_adddir: "frer_reach dev stale f0 f \<Longrightarrow> edgx_frer_seqgen_adddir dev d k f = Some (r, f') \<Longrightarrow> frer_reach dev stale f0 f'"
| gen_delfn: "frer_reach dev stale f0 f \<Longrightarrow> seqgen_rbt_del_entry dev stale k f = Some (r, f') \<Longrightarrow> frer_reach dev stale f0 f'"
| gen_delstr: "frer_reach dev stale f0 f \<Longrightarrow> \<not> bit s 14 \<Longrightarrow> seqgen_list_del_entry dev s f = Some (r, f') \<Longrightarrow> frer_reach dev stale f0 f'"
| rec_create: "frer_reach dev stale f0 f \<Longrightarrow> edgx_frer_seqrec_create ok k f = (r, f') \<Longrightarrow> frer_reach dev stale f0 f'"
| rec_adddir: "frer_reach dev stale f0 f \<Longrightarrow> edgx_frer_seqrec_adddir dev d k f = Some (r, f') \<Longrightarrow> frer_reach dev stale f0 f'"
| rec_addstr: "frer_reach dev stale f0 f \<Longrightarrow> edgx_frer_seqrec_addstr dev ok s k f = Some (r, f') \<Longrightarrow> frer_reach dev stale f0 f'"
| rec_delstr: "frer_reach dev stale f0 f \<Longrightarrow> edgx_frer_seqrec_delstr dev s k f = Some (r, f') \<Longrightarrow> frer_reach dev stale f0 f'"
| rec_addport: "frer_reach dev stale f0 f \<Longrightarrow> edgx_frer_seqrec_addport dev p k f = Some (r, f') \<Longrightarrow> frer_reach dev stale f0 f'"
| rec_delport: "frer_reach dev stale f0 f \<Longrightarrow> edgx_frer_seqrec_delport p k f = (r, f') \<Longrightarrow> frer_reach dev stale f0 f'"
| rec_bool: "frer_reach dev stale f0 f \<Longrightarrow> edgx_frer_seqrec_set_rbt_bool dev v k fld f = Some (r, f') \<Longrightarrow> frer_reach dev stale f0 f'"
| rec_alg: "frer_reach dev stale f0 f \<Longrightarrow> edgx_frer_seqrec_set_alg dev al k f = Some (r, f') \<Longrightarrow> frer_reach dev stale f0 f'"
| rec_rrst: "frer_reach dev stale f0 f \<Longrightarrow> edgx_frer_seqrec_set_rrst dev t k f = Some (r, f') \<Longrightarrow> frer_reach dev stale f0 f'"
| rec_histl: "frer_reach dev stale f0 f \<Longrightarrow> edgx_frer_seqrec_set_histl dev h k f = Some (r, f') \<Longrightarrow> frer_reach dev stale f0 f'"
| rec_delfn: "frer_reach dev stale f0 f \<Longrightarrow> edgx_frer_seqrec_delfn dev k f = Some (r, f') \<Longrightarrow> frer_reach dev stale f0 f'"

text \<open>The table of the reset times is the one that the probe has computed.\<close>

definition reset_table :: "frer \<Rightarrow> bool" where
  "reset_table f \<longleftrightarrow> (\<exists>tclk bt. seqrec_rst f = map (rcv_rst_ms tclk bt) [0..<16])"

lemma reset_table_calc: "reset_table (calc_rcv_rst f)"
  by (auto simp: reset_table_def calc_rcv_rst_def Let_def)

lemma reset_table_cong: "seqrec_rst f' = seqrec_rst f \<Longrightarrow> reset_table f' = reset_table f"
  by (simp add: reset_table_def)

definition frer_inv :: "(iomem \<Rightarrow> u16 \<Rightarrow> frer_tbl \<Rightarrow> u16) \<Rightarrow> nat \<Rightarrow> frer \<Rightarrow> bool" where
  "frer_inv tab base f \<longleftrightarrow> enc_wf tab f \<and> fn_wf f \<and> reset_table f \<and> fr_iobase f = base"

lemma inv_enc:
  assumes "frer_inv tab base f" "enc_post tab f f'" shows "frer_inv tab base f'"
proof -
  have "enc_only f f'" using assms(2) by (simp add: enc_post_def)
  from enc_only_fields [OF this] assms show ?thesis by (simp add: frer_inv_def enc_post_def fn_wf_def reset_table_def)
qed

lemma inv_fn:
  assumes "frer_inv tab base f" "fn_post tab f f'" shows "frer_inv tab base f'"
proof -
  have "fn_only f f'" using assms(2) by (simp add: fn_post_def)
  from fn_only_fields [OF this] assms enc_kept [of tab f f'] fn_postD [of tab f f'] show ?thesis
    by (simp add: frer_inv_def reset_table_def)
qed

lemma reach_inv:
  assumes c: "frer_contract dev base tab" and st: "\<forall>s. \<not> bit (stale s) 14" and i: "frer_inv tab base f0"
    and r: "frer_reach dev stale f0 f"
  shows "frer_inv tab base f"
proof -
  have enc: "frer_inv tab base f'" if "frer_inv tab base f" "g = Some (r, f')" "\<exists>r f'. g = Some (r, f') \<and> enc_post tab f f'" for f f' g r
    using that inv_enc by auto
  have hw: "frer_contract dev (fr_iobase f) tab" "streams_max f \<le> 0x1000" "enc_wf tab f" "fn_wf f" if "frer_inv tab base f" for f
    using that c by (auto simp: frer_inv_def fn_wf_def intro: order_trans)
  from r show ?thesis
  proof induction
    case fr_probe then show ?case by (rule i)
  next
    case (enc_create f p d r f') from enc [OF enc_create.IH enc_create.hyps(3)] enc_createD [OF hw(3)] enc_create show ?case by blast
  next
    case (enc_add f p s r f') from enc [OF enc_add.IH enc_add.hyps(3)] enc_add_strD [OF hw(1,2) _ hw(3)] enc_add show ?case by blast
  next
    case (enc_active f p a r f') from enc [OF enc_active.IH enc_active.hyps(3)] enc_set_activeD [OF hw(1,2) _ hw(3)] enc_active show ?case by blast
  next
    case (enc_delport f p r f') from enc [OF enc_delport.IH enc_delport.hyps(3)] enc_delportfnD [OF hw(1,2) _ hw(3)] enc_delport show ?case by blast
  next
    case (enc_delstr f p s r f') from enc [OF enc_delstr.IH enc_delstr.hyps(3)] enc_delstrD [OF hw(1,2) _ hw(3)] enc_delstr show ?case by blast
  next
    case (gen_create f ok k r f') then show ?case using inv_fn gen_createP hw by blast
  next
    case (gen_addstr f ok s k r f') then show ?case using inv_fn gen_add_strP hw by blast
  next
    case (gen_adddir f d k r f') then show ?case using inv_fn gen_add_dirP hw by blast
  next
    case (gen_delfn f k r f') then show ?case using inv_fn gen_del_fnP [OF _ _ st] hw by blast
  next
    case (gen_delstr f s r f') then show ?case using inv_fn gen_del_strP hw by blast
  next
    case (rec_create f ok k r f') then show ?case using inv_fn rec_createP hw by blast
  next
    case (rec_adddir f d k r f') then show ?case using inv_fn rec_paramsP(6) hw by blast
  next
    case (rec_addstr f ok s k r f') then show ?case using inv_fn rec_add_strP hw by blast
  next
    case (rec_delstr f s k r f') then show ?case using inv_fn rec_del_strP hw by blast
  next
    case (rec_addport f p k r f') then show ?case using inv_fn rec_paramsP(1) hw by blast
  next
    case (rec_delport f p k r f') then show ?case using inv_fn rec_del_portP hw by blast
  next
    case (rec_bool f v k fld r f') then show ?case using inv_fn rec_paramsP(2) hw by blast
  next
    case (rec_alg f al k r f') then show ?case using inv_fn rec_paramsP(3) hw by blast
  next
    case (rec_rrst f t k r f') then show ?case using inv_fn rec_paramsP(4) hw by blast
  next
    case (rec_histl f h k r f') then show ?case using inv_fn rec_paramsP(5) hw by blast
  next
    case (rec_delfn f k r f') then show ?case using inv_fn rec_del_fnP hw by blast
  qed
qed

text \<open>The probe starts with empty tables.\<close>

definition frer_start :: "(iomem \<Rightarrow> u16 \<Rightarrow> frer_tbl \<Rightarrow> u16) \<Rightarrow> iomem \<Rightarrow> frer \<Rightarrow> bool" where
  "frer_start tab io f \<longleftrightarrow> (\<exists>ifd ok br fdb. edgx_probe_frer ifd ok br fdb io = Some (Inr f))
     \<and> streams_max f \<le> 0xFFF \<and> seqrec_max f \<le> 0x1000
     \<and> (\<forall>s < streams_max f. tab io s FRER_TBL0 = 0 \<and> tab io s FRER_TBL1 = 0)"

lemma start_inv:
  assumes "frer_start tab io f"
  shows "frer_inv tab (fr_iobase f) f"
proof -
  obtain base br fdb n g where fg: "f = calc_rcv_rst g" and g: "sg_root g = []" "se_root g = []" "sr_root g = []"
    "se_ports g = replicate 16 \<lparr>se_list = [], se_active = ENC_UNDEFINED\<rparr>" "fr_io g = io"
    using assms unfolding frer_start_def edgx_probe_frer_def
    by (auto simp: bind_eq_Some split: option.split_asm if_split_asm) (force+)?
  then have f: "sg_root f = []" "se_root f = []" "sr_root f = []" "fr_io f = io"
    "se_ports f = replicate 16 \<lparr>se_list = [], se_active = ENC_UNDEFINED\<rparr>" by (simp_all add: calc_rcv_rst_def Let_def)
  have "enc_soft f" by (simp add: enc_soft_def f port_streams_def port_mask_def seqenc_rbt_search_def)
  moreover have "enc_hard (tab (fr_io f)) f"
    using assms unfolding enc_hard_def frer_start_def f(4) by (simp add: f port_streams_def)
  moreover have "reset_table f" unfolding fg by (rule reset_table_calc)
  ultimately show ?thesis using assms by (simp add: frer_inv_def enc_wf_def fn_wf_def f frer_start_def)
qed

section \<open>Agreement\<close>

text \<open>
  Property C29. In every state that the frame replication reaches, the three views of the sequence
  encoding agree: a stream is in the list of a port exactly when the file of the stream reports the
  port in its mask; a port without an entry has no streams; a port's bits of a stream that is not in
  its list are clear in the two words of the stream table; and once a port is active or passive, the
  first word has the port's bit for every stream of its list, and the second word has it exactly when
  the port is active. The mask that the deletion of a port's streams reads from a released node is
  arbitrary. Assumed: the hardware contract, empty words at the start, at most 4095 streams, and that
  bit 14 is clear in the two stream handles which the code does not check: the one that a deletion of a
  generation function reads from a released list element (\<open>stale\<close>), and the one that the user asks to
  delete from a generation function. With that bit set a read becomes a write, and the rows and so this
  agreement can be overwritten (\<open>unchecked_handle_overwrites_row\<close>).
\<close>

theorem seqenc_tables_agree:
  assumes "frer_contract dev (fr_iobase f0) tab" "frer_start tab io f0" "\<forall>s. \<not> bit (stale s) 14"
    and "frer_reach dev stale f0 f" "p < 16" "s < streams_max f"
  shows "(s \<in> set (se_list (se_ports f ! p)) \<longleftrightarrow> (\<exists>m. edgx_frer_seqenc_str2port s f = Inr m \<and> bit m p))
    \<and> (se_active (se_ports f ! p) = ENC_UNDEFINED \<longrightarrow> se_list (se_ports f ! p) = [])
    \<and> (s \<notin> set (se_list (se_ports f ! p)) \<longrightarrow> \<not> bit (tab (fr_io f) s FRER_TBL0) p \<and> \<not> bit (tab (fr_io f) s FRER_TBL1) p)
    \<and> (s \<in> set (se_list (se_ports f ! p)) \<and> se_active (se_ports f ! p) \<le> ENC_ACTIVE \<longrightarrow>
         bit (tab (fr_io f) s FRER_TBL0) p \<and> (bit (tab (fr_io f) s FRER_TBL1) p \<longleftrightarrow> se_active (se_ports f ! p) = ENC_ACTIVE))"
proof -
  from reach_inv [OF assms(1,3) start_inv [OF assms(2)] assms(4)]
  have w: "enc_soft f" "enc_hard (tab (fr_io f)) f" by (simp_all add: frer_inv_def enc_wf_def)
  have m: "s \<in> port_streams f p \<longleftrightarrow> bit (port_mask f s) p" using w(1) assms(5) by (simp add: enc_soft_def)
  have "bit (port_mask f s) p \<longleftrightarrow> (\<exists>m. edgx_frer_seqenc_str2port s f = Inr m \<and> bit m p)"
    by (auto simp: port_mask_def edgx_frer_seqenc_str2port_def split: option.split)
  then show ?thesis
    using w(1) assms(5) m enc_hard_bits [OF w(2) assms(6,5)] by (auto simp: port_streams_def enc_soft_def)
qed

text \<open>A run: a port is created, gets a stream and becomes active.\<close>

definition demo_frer_io :: iomem where
  "demo_frer_io = (\<lambda>_. 0)(0x1028 := 4, 0x1026 := 3, 0x1000 := 4)"

definition demo_frer_br :: edgx_br where
  "demo_frer_br = \<lparr>brparam = 0x1000, cycle_ns = 8\<rparr>"

definition demo_frer_fdb :: edgx_brfdb where
  "demo_frer_fdb = \<lparr>fdb_br = demo_frer_br, fdb_iobase = 0x2000, nrows = 1024, sents = 0\<rparr>"

definition demo_frer :: frer where
  "demo_frer = (case edgx_probe_frer (Some 0) True demo_frer_br demo_frer_fdb demo_frer_io of Some (Inr f) \<Rightarrow> f)"

lemma demo_frer_probe: "edgx_probe_frer (Some 0) True demo_frer_br demo_frer_fdb demo_frer_io = Some (Inr demo_frer)"
proof -
  have "\<exists>n. edgx_brfdb_sid_get_max_str demo_frer_fdb demo_frer_io = Some n"
    by (simp add: edgx_brfdb_sid_get_max_str_def edgx_br_get_generic_def demo_frer_fdb_def demo_frer_br_def demo_frer_io_def edgx_rd16_def Let_def)
  then show ?thesis by (auto simp: demo_frer_def edgx_probe_frer_def)
qed

lemma calc_rcv_rst_limits [simp]:
  "streams_max (calc_rcv_rst f) = streams_max f" "seqrec_max (calc_rcv_rst f) = seqrec_max f" "fr_iobase (calc_rcv_rst f) = fr_iobase f"
  by (simp_all add: calc_rcv_rst_def Let_def)

lemma demo_frer_limits: "streams_max demo_frer = 16" "seqrec_max demo_frer = 8" "fr_iobase demo_frer = 0"
  by (simp_all add: demo_frer_def edgx_probe_frer_def edgx_brfdb_sid_get_max_str_def edgx_br_get_generic_def edgx_br_get_generic_pow2_def
      edgx_brfdb_sz_def demo_frer_fdb_def demo_frer_br_def demo_frer_io_def edgx_rd16_def Let_def)

lemma demo_frer_start: "frer_start frer_cells demo_frer_io demo_frer"
proof -
  have "frer_cells demo_frer_io s t = 0" for s t
    by (simp add: frer_cells_def str_cell_def demo_frer_io_def)
  moreover have "(16 :: u16) \<le> 0xFFF \<and> (8 :: u16) \<le> 0x1000" by (simp add: word_le_nat_alt)
  ultimately show ?thesis using demo_frer_probe unfolding frer_start_def demo_frer_limits by blast
qed

definition demo_added :: "frer option" where
  "demo_added = do {
     (_, f) \<leftarrow> edgx_frer_seqenc_create_entry 2 DIR_OUT_FAC demo_frer;
     (_, f) \<leftarrow> edgx_frer_seqenc_add_str frer_ram True True 5 2 f;
     Some f
   }"

lemma demo_added:
  obtains f where "frer_reach frer_ram stale demo_frer f" "se_ports f ! 2 = \<lparr>se_list = [5], se_active = ENC_UNKNOWN\<rparr>" "fr_iobase f = 0"
proof -
  have "map_option (\<lambda>f. (se_ports f ! 2, fr_iobase f)) demo_added = Some (\<lparr>se_list = [5], se_active = ENC_UNKNOWN\<rparr>, 0)" by code_simp
  then obtain f where f: "demo_added = Some f" "se_ports f ! 2 = \<lparr>se_list = [5], se_active = ENC_UNKNOWN\<rparr>" "fr_iobase f = 0" by auto
  then obtain r1 f1 r2 where "edgx_frer_seqenc_create_entry 2 DIR_OUT_FAC demo_frer = Some (r1, f1)"
    "edgx_frer_seqenc_add_str frer_ram True True 5 2 f1 = Some (r2, f)"
    by (auto simp: demo_added_def bind_eq_Some)
  then have "frer_reach frer_ram stale demo_frer f" by (intro enc_add [OF enc_create [OF fr_probe]]) simp_all
  with f(2,3) show thesis by (intro that)
qed

lemma and_0xFFF_bit: "\<not> bit ((x :: u16) AND 0xFFF) 14"
  by (simp only: bit_and_iff bit_16_consts) simp

theorem seqenc_tables_agree_witness:
  "\<exists>f. frer_reach frer_ram (\<lambda>s. s AND 0xFFF) demo_frer f \<and> se_list (se_ports f ! 2) = [5]
     \<and> (\<exists>m. edgx_frer_seqenc_str2port 5 f = Inr m \<and> bit m 2)
     \<and> bit (frer_cells (fr_io f) 5 FRER_TBL0) 2 \<and> bit (frer_cells (fr_io f) 5 FRER_TBL1) 2"
proof -
  let ?st = "\<lambda>s. s AND 0xFFF :: u16"
  have c: "frer_contract frer_ram (fr_iobase demo_frer) frer_cells" using frer_ram_contract by (simp add: demo_frer_limits)
  have st: "\<forall>s. \<not> bit (?st s) 14" using and_0xFFF_bit by blast
  obtain f where f: "frer_reach frer_ram ?st demo_frer f" "se_ports f ! 2 = \<lparr>se_list = [5], se_active = ENC_UNKNOWN\<rparr>" "fr_iobase f = 0"
    by (rule demo_added)
  from reach_inv [OF c st start_inv [OF demo_frer_start] f(1)] have w: "enc_wf frer_cells f" "fn_wf f" by (simp_all add: frer_inv_def)
  have l: "length (se_ports f) = 16" using w(1) by (simp add: enc_wf_def enc_soft_def)
  have m: "streams_max f \<le> 0x1000" using w(2) by (auto simp: fn_wf_def intro: order_trans)
  obtain r f' where f': "edgx_frer_seqenc_set_active frer_ram 1 2 f = Some (r, f')" "enc_post frer_cells f f'"
    "se_ports f' = se_ports (set_se_port 2 (\<lambda>pt. pt\<lparr>se_active := 1\<rparr>) f)"
    using enc_set_activeD [of frer_ram f frer_cells 2 1] frer_ram_contract f(2,3) m w(1) by (auto simp: seqenc_check_active_def)
  have reach: "frer_reach frer_ram ?st demo_frer f'" using enc_active [OF f(1) _ f'(1)] by simp
  have p: "se_ports f' ! 2 = \<lparr>se_list = [5], se_active = 1\<rparr>" using l by (simp add: f'(3) f(2))
  have "5 < streams_max f'"
    using stream_in_range(1) [of f' 2 5] f'(2) p by (simp add: enc_post_def enc_wf_def port_streams_def)
  from seqenc_tables_agree [OF c demo_frer_start st reach _ this, of 2] reach show ?thesis by (auto simp: p)
qed

end
