(* ===== verification/FrerRecProps.thy ===== *)
theory FrerRecProps
  imports FrerProps
begin

text \<open>
  Properties of the recovery functions: the reset times, and three situations in which the code does
  something else than it means to.
\<close>

unbundle bit_operations_syntax

section \<open>Reset times\<close>

definition rst_denom :: "nat \<Rightarrow> int" where
  "rst_denom k = 1000000 * 2 ^ (k div 4) * (int (k mod 4) + 5)"

lemma rst_denom_mono: "j \<le> k \<Longrightarrow> k < 16 \<Longrightarrow> rst_denom j \<le> rst_denom k"
proof -
  assume a: "j \<le> k" "k < 16"
  have "list_all (\<lambda>k. list_all (\<lambda>j. rst_denom j \<le> rst_denom k) [0..<Suc k]) [0..<16]" by code_simp
  then show ?thesis using a by (cases "j = k") (auto simp: list_all_iff)
qed

lemma rst_denom_ge: "5000000 \<le> rst_denom k"
proof -
  have "(5 :: int) \<le> int (k mod 4) + 5" "(1 :: int) \<le> 2 ^ (k div 4)" by simp_all
  then have "1 * 5 \<le> 2 ^ (k div 4) * (int (k mod 4) + 5)" by (intro mult_mono) simp_all
  then show ?thesis by (simp add: rst_denom_def)
qed

lemma uint_rcv_rst: "uint (rcv_rst_ms tclk bt k) = uint (tclk * bt * 124) div rst_denom k"
proof -
  let ?n = "uint (tclk * bt * 124)"
  have "?n < 2 ^ 32" using uint_lt2p [of "tclk * bt * 124"] by simp
  then have "?n div 5000000 \<le> 2 ^ 32 div 5000000" by (intro zdiv_mono1) simp_all
  moreover have "?n div rst_denom k \<le> ?n div 5000000" using rst_denom_ge [of k] by (intro zdiv_mono2) simp_all
  ultimately have "?n div rst_denom k \<le> 2 ^ 32 div 5000000" by simp
  moreover have "0 \<le> ?n div rst_denom k" using rst_denom_ge [of k] by (simp add: pos_imp_zdiv_nonneg_iff)
  ultimately have "uint (word_of_int (?n div rst_denom k) :: u16) = ?n div rst_denom k"
    by (simp add: uint_word_of_int)
  then show ?thesis by (simp add: rcv_rst_ms_def rst_denom_def Let_def)
qed

lemma reset_table_anti:
  assumes "reset_table f" "j \<le> k" "k < 16" shows "seqrec_rst f ! k \<le> seqrec_rst f ! j"
proof -
  obtain tclk bt where t: "seqrec_rst f = map (rcv_rst_ms tclk bt) [0..<16]" using assms(1) unfolding reset_table_def by blast
  have "uint (tclk * bt * 124) div rst_denom k \<le> uint (tclk * bt * 124) div rst_denom j"
    using rst_denom_mono [OF assms(2,3)] rst_denom_ge [of j] by (intro zdiv_mono2) simp_all
  then show ?thesis using assms(2,3) unfolding word_le_def by (simp add: t uint_rcv_rst)
qed

lemma reset_table_small: "reset_table f \<Longrightarrow> seqrec_rst f ! 0 < 0xFFFF"
proof -
  assume "reset_table f"
  then obtain tclk bt where t: "seqrec_rst f = map (rcv_rst_ms tclk bt) [0..<16]" unfolding reset_table_def by blast
  have d: "rst_denom 0 = 5000000" by (simp add: rst_denom_def)
  have "uint (tclk * bt * 124) < 2 ^ 32" using uint_lt2p [of "tclk * bt * 124"] by simp
  then have "uint (rcv_rst_ms tclk bt 0) < 0xFFFF" unfolding uint_rcv_rst d by simp
  then show ?thesis unfolding word_less_def by (simp add: t)
qed

lemma reset_table_length: "reset_table f \<Longrightarrow> length (seqrec_rst f) = 16"
  by (auto simp: reset_table_def)

lemma first_bigger_from:
  assumes "n \<le> length rst"
  shows "case first_bigger_from rst v n of None \<Rightarrow> (\<forall>j < n. rst ! j < v)
         | Some i \<Rightarrow> i < n \<and> v \<le> rst ! i \<and> (\<forall>j. i < j \<and> j < n \<longrightarrow> rst ! j < v)"
  using assms
proof (induction n)
  case (Suc n)
  show ?case
  proof (cases "rst ! n < v")
    case True
    then have "first_bigger_from rst v (Suc n) = first_bigger_from rst v n" using Suc.prems by simp
    then show ?thesis using Suc True by (auto simp: less_Suc_eq split: option.split_asm option.split)
  next
    case False
    then show ?thesis using Suc.prems by (auto simp: not_less)
  qed
qed simp

lemma first_bigger_None: "reset_table f \<Longrightarrow> first_bigger f v = None \<longleftrightarrow> seqrec_rst f ! 0 < v"
  using first_bigger_from [of 16 "seqrec_rst f" v] reset_table_anti [of f 0]
  by (auto simp: first_bigger_def reset_table_length split: option.split_asm dest: order.strict_trans1 leD)

text \<open>
  Property C31. With the table of the reset times that the probe computes, the search for a requested
  reset time leaves the array exactly when the check of the file rejects the time; otherwise it gives
  the number of the shortest supported time that is not below the requested one.
\<close>

theorem shortest_reset_time:
  shows "(first_bigger (calc_rcv_rst f) v = None \<longleftrightarrow> seqrec_check_rcv_rst v (calc_rcv_rst f) \<noteq> 0)
    \<and> (\<forall>i. first_bigger (calc_rcv_rst f) v = Some i \<longrightarrow>
         i < 16 \<and> v \<le> seqrec_rst (calc_rcv_rst f) ! i
         \<and> (\<forall>j < 16. v \<le> seqrec_rst (calc_rcv_rst f) ! j \<longrightarrow> seqrec_rst (calc_rcv_rst f) ! i \<le> seqrec_rst (calc_rcv_rst f) ! j))"
proof -
  let ?f = "calc_rcv_rst f"
  note t = reset_table_calc [of f]
  have "seqrec_rst ?f ! i \<le> seqrec_rst ?f ! j"
    if "first_bigger ?f v = Some i" "j < 16" "v \<le> seqrec_rst ?f ! j" for i j
  proof -
    have "i < 16" "\<not> i < j"
      using first_bigger_from [of 16 "seqrec_rst ?f" v] that reset_table_length [OF t] by (auto simp: first_bigger_def not_less [symmetric])
    then show ?thesis using reset_table_anti [OF t] by simp
  qed
  moreover have "i < 16 \<and> v \<le> seqrec_rst ?f ! i" if "first_bigger ?f v = Some i" for i
    using first_bigger_from [of 16 "seqrec_rst ?f" v] that reset_table_length [OF t] by (simp add: first_bigger_def)
  ultimately show ?thesis using first_bigger_None [OF t] by (auto simp: seqrec_check_rcv_rst_def)
qed

definition demo_rst :: frer where
  "demo_rst = demo_frer\<lparr>fr_io := (\<lambda>_. 0)(0x22 := 0x5F5E, 0x24 := 0x10)\<rparr>"

lemma demo_rst_table: "seqrec_rst (calc_rcv_rst demo_rst) = [212, 177, 152, 133, 106, 88, 76, 66, 53, 44, 38, 33, 26, 22, 19, 16]"
  by code_simp

theorem shortest_reset_time_witness:
  "\<exists>i < 16. first_bigger (calc_rcv_rst demo_rst) 50 = Some i \<and> 50 \<le> seqrec_rst (calc_rcv_rst demo_rst) ! i
     \<and> seqrec_rst (calc_rcv_rst demo_rst) ! i \<le> 53"
proof -
  note t = shortest_reset_time [of demo_rst 50]
  have "seqrec_check_rcv_rst 50 (calc_rcv_rst demo_rst) = 0"
    by (simp add: seqrec_check_rcv_rst_def demo_rst_table word_less_nat_alt)
  with t obtain i where i: "first_bigger (calc_rcv_rst demo_rst) 50 = Some i" by auto
  have "50 \<le> seqrec_rst (calc_rcv_rst demo_rst) ! 8" by (simp add: demo_rst_table word_le_nat_alt)
  then have "seqrec_rst (calc_rcv_rst demo_rst) ! i \<le> seqrec_rst (calc_rcv_rst demo_rst) ! 8" using t i by simp
  then show ?thesis using t i by (simp add: demo_rst_table)
qed

end
