(* ===== verification/FrerRet.thy ===== *)
theory FrerRet
  imports FrerRecProps
begin

text \<open>
  Which operations of the frame replication return: all of them, except the deletions from a recovery
  function whose reset time has not been set, which read outside the table of the reset times.
\<close>

unbundle bit_operations_syntax

section \<open>Accesses with any handle\<close>

lemma rd_ret:
  assumes "frer_contract dev (fr_iobase f) tab"
  obtains v io' where "edgx_frer_ip_rd_strtbl dev s t f = Some (v, f\<lparr>fr_io := io'\<rparr>)"
  using rd_anyD [OF assms] by blast

lemma wr_ret:
  assumes c: "frer_contract dev (fr_iobase f) tab"
  obtains io' where "edgx_frer_ip_wr_strtbl dev s v t del f = Some (f\<lparr>fr_io := io'\<rparr>)"
proof -
  obtain x io1 where 1: "edgx_frer_ip_rd_strtbl dev s FRER_TBL0 f = Some (x, f\<lparr>fr_io := io1\<rparr>)" by (rule rd_ret [OF c])
  define f2 where "f2 = fr_wr (strtbl_reg t) (strval t del v) (f\<lparr>fr_io := io1\<rparr>)"
  have f2: "fr_iobase f2 = fr_iobase f" "f2\<lparr>fr_io := i\<rparr> = f\<lparr>fr_io := i\<rparr>" for i by (simp_all add: f2_def fr_wr_def)
  have b: "bit (0xC000 OR s) 15" by (simp only: bit_or_iff bit_16_consts) simp
  have "frer_contract dev (fr_iobase f2) tab" using c by (simp add: f2)
  from str_cmdD [OF this b] obtain io' where
    "fr_wait dev STREAM_CMD 0x8000 (fr_wr STREAM_CMD (0xC000 OR s) f2) = Some (f2\<lparr>fr_io := io'\<rparr>)" by blast
  then have "edgx_frer_ip_wr_strtbl dev s v t del f = Some (f\<lparr>fr_io := io'\<rparr>)"
    unfolding edgx_frer_ip_wr_strtbl_def 1 Let_def strval_def [symmetric] f2(2) by (simp add: f2_def)
  then show thesis by (rule that)
qed

lemma enabled_ret:
  assumes "frer_contract dev (fr_iobase f) tab"
  obtains b io' where "edgx_frer_seqfn_enabled dev s t f = Some (b, f\<lparr>fr_io := io'\<rparr>)"
  by (rule rd_ret [OF assms, of s t]) (simp add: edgx_frer_seqfn_enabled_def)

lemma write_err_ret:
  assumes c: "frer_contract dev (fr_iobase f) tab"
  obtains r io' where "seqrec_write_tbl_err dev s fn f = Some (r, f\<lparr>fr_io := io'\<rparr>)"
proof -
  obtain b io1 where 1: "edgx_frer_seqfn_enabled dev s FRER_TBL3 f = Some (b, f\<lparr>fr_io := io1\<rparr>)" by (rule enabled_ret [OF c])
  obtain v io2 where 2: "edgx_frer_ip_rd_strtbl dev s FRER_TBL3 (f\<lparr>fr_io := io1\<rparr>) = Some (v, f\<lparr>fr_io := io1\<rparr>\<lparr>fr_io := io2\<rparr>)"
    by (rule rd_ret [of dev "f\<lparr>fr_io := io1\<rparr>" tab s FRER_TBL3]) (simp add: c)
  show thesis
  proof (cases b)
    case True
    show ?thesis by (rule that) (simp add: seqrec_write_tbl_err_def 1 2 True)
  next
    case False
    show ?thesis by (rule that) (simp add: seqrec_write_tbl_err_def 1 False)
  qed
qed

lemma checked_write_ret:
  assumes c: "frer_contract dev (fr_iobase f) tab"
  obtains io' where "do { (ret, f) \<leftarrow> seqrec_write_tbl_err dev s fn f;
     if ret = 0 then edgx_frer_ip_wr_strtbl dev x fn FRER_TBL3 del f else Some f } = Some (f\<lparr>fr_io := io'\<rparr>)"
proof -
  obtain r io1 where 1: "seqrec_write_tbl_err dev s fn f = Some (r, f\<lparr>fr_io := io1\<rparr>)" by (rule write_err_ret [OF c])
  obtain io2 where 2: "edgx_frer_ip_wr_strtbl dev x fn FRER_TBL3 del (f\<lparr>fr_io := io1\<rparr>) = Some (f\<lparr>fr_io := io1\<rparr>\<lparr>fr_io := io2\<rparr>)"
    by (rule wr_ret [of dev "f\<lparr>fr_io := io1\<rparr>" tab]) (simp add: c)
  show thesis by (rule that [of "if r = 0 then io2 else io1"]) (simp add: 1 2)
qed

lemma write_streams_ret:
  assumes "frer_contract dev (fr_iobase f) tab"
  shows "\<exists>io'. seqrec_write_streams dev s fn del ss f = Some (f\<lparr>fr_io := io'\<rparr>)"
  using assms
proof (induction ss arbitrary: f)
  case Nil
  show ?case by (intro exI [of _ "fr_io f"]) simp
next
  case (Cons x ss)
  obtain io1 where 1: "do { (ret, f) \<leftarrow> seqrec_write_tbl_err dev s fn f;
     if ret = 0 then edgx_frer_ip_wr_strtbl dev x fn FRER_TBL3 del f else Some f } = Some (f\<lparr>fr_io := io1\<rparr>)"
    by (rule checked_write_ret [OF Cons.prems])
  obtain io2 where 2: "seqrec_write_streams dev s fn del ss (f\<lparr>fr_io := io1\<rparr>) = Some (f\<lparr>fr_io := io1\<rparr>\<lparr>fr_io := io2\<rparr>)"
    using Cons.IH [of "f\<lparr>fr_io := io1\<rparr>"] Cons.prems by auto
  from 1 obtain ret g where "seqrec_write_tbl_err dev s fn f = Some (ret, g)"
    "(if ret = 0 then edgx_frer_ip_wr_strtbl dev x fn FRER_TBL3 del g else Some g) = Some (f\<lparr>fr_io := io1\<rparr>)"
    by (auto simp: bind_eq_Some)
  then show ?case using 2 by auto
qed

lemma rec_wr_ret:
  assumes "frer_contract dev (fr_iobase f) tab" "k < 0x1000"
  obtains io' where "edgx_frer_ip_wr_seqrectbl dev k v f = Some (f\<lparr>fr_io := io'\<rparr>)"
  using wr_seqrecD [OF assms] by blast

section \<open>Recovery functions\<close>

lemma first_bigger_unset:
  assumes "reset_table f" "rcv_ok (seqrec_rst f) n"
  shows "first_bigger f (sr_rcv_rst n) = None \<longleftrightarrow> sr_rcv_rst n = FRER_U16_INVALID"
  using assms(2) reset_table_small [OF assms(1)] by (auto simp: first_bigger_None [OF assms(1)] rcv_ok_def not_less [symmetric])

text \<open>The application of a function returns unless it needs a reset time that has not been set.\<close>

lemma rec_apply_none:
  assumes "reset_table f" "rcv_ok (seqrec_rst f) n" "seqrec_rbt_search (sr_root f) k = Some n" "sr_rcv_rst n = FRER_U16_INVALID"
  shows "edgx_frer_seqrec_apply dev k s True f = None"
  using first_bigger_unset [OF assms(1,2)] assms(3,4) by (simp add: edgx_frer_seqrec_apply_def)

lemma rec_apply_ret:
  assumes c: "frer_contract dev (fr_iobase f) tab" and t: "reset_table f" "rcv_ok (seqrec_rst f) n" and k: "k < 0x1000"
    and n: "seqrec_rbt_search (sr_root f) k = Some n" and set: "del \<longrightarrow> sr_rcv_rst n \<noteq> FRER_U16_INVALID"
  shows "\<exists>f'. edgx_frer_seqrec_apply dev k s del f = Some f' \<and> fr_iobase f' = fr_iobase f \<and> seqrec_rst f' = seqrec_rst f
    \<and> (\<exists>b. sr_root f' = upd_node sr_fnidx k (\<lambda>n. n\<lparr>seqrec_cfg_applied := seqrec_cfg_applied n \<or> b\<rparr>) (sr_root f))"
proof -
  have id: "sr_root f = upd_node sr_fnidx k (\<lambda>n. n\<lparr>seqrec_cfg_applied := seqrec_cfg_applied n \<or> False\<rparr>) (sr_root f)"
    by (simp add: upd_node_def)
  have io: "?thesis" if "edgx_frer_seqrec_apply dev k s del f = Some (f\<lparr>fr_io := io'\<rparr>)" for io'
    using that id by (intro exI [of _ "f\<lparr>fr_io := io'\<rparr>"] conjI exI [of _ False]) simp_all
  show ?thesis
  proof (cases "seqrec_all_set n \<or> del")
    case False
    have "f = f\<lparr>fr_io := fr_io f\<rparr>" by simp
    then have "edgx_frer_seqrec_apply dev k s del f = Some (f\<lparr>fr_io := fr_io f\<rparr>)"
      using False by (simp add: edgx_frer_seqrec_apply_def n)
    then show ?thesis by (rule io)
  next
    case True
    then have "sr_rcv_rst n \<noteq> FRER_U16_INVALID" using set by (auto simp: seqrec_all_set_def)
    then obtain a where a: "first_bigger f (sr_rcv_rst n) = Some a" using first_bigger_unset [OF t] by auto
    let ?v = "seqrec_calc_cfg_val n a"
    obtain io1 where 1: "edgx_frer_ip_wr_seqrectbl dev k ?v f = Some (f\<lparr>fr_io := io1\<rparr>)" by (rule rec_wr_ret [OF c k])
    obtain io2 where 2: "seqrec_write_streams dev s k del (sr_list n) (f\<lparr>fr_io := io1\<rparr>) = Some (f\<lparr>fr_io := io1\<rparr>\<lparr>fr_io := io2\<rparr>)"
      using write_streams_ret [of dev "f\<lparr>fr_io := io1\<rparr>" tab s k del "sr_list n"] c by auto
    obtain io3 where 3: "do { (ret, f) \<leftarrow> seqrec_write_tbl_err dev s k f;
       if ret = 0 then edgx_frer_ip_wr_strtbl dev s k FRER_TBL3 del f else Some f } = Some (f\<lparr>fr_io := io3\<rparr>)"
      by (rule checked_write_ret [OF c])
    consider (first) "\<not> seqrec_cfg_applied n" | (str) "seqrec_cfg_applied n" "s \<noteq> FRER_U16_INVALID"
      | (cfg) "seqrec_cfg_applied n" "s = FRER_U16_INVALID" by blast
    then show ?thesis
    proof cases
      case first
      let ?f' = "upd_seqrec k (\<lambda>n. n\<lparr>seqrec_cfg_applied := seqrec_cfg_applied n \<or> True\<rparr>) (f\<lparr>fr_io := io1\<rparr>\<lparr>fr_io := io2\<rparr>)"
      have "edgx_frer_seqrec_apply dev k s del f = Some ?f'"
        using True first by (simp add: edgx_frer_seqrec_apply_def n a Let_def 1 2 [simplified])
      then show ?thesis by (intro exI [of _ ?f'] conjI exI [of _ True]) (simp_all add: upd_seqrec_def)
    next
      case str
      then have "edgx_frer_seqrec_apply dev k s del f = Some (f\<lparr>fr_io := io3\<rparr>)"
        using True 3 by (simp add: edgx_frer_seqrec_apply_def n a Let_def)
      then show ?thesis by (rule io)
    next
      case cfg
      then have "edgx_frer_seqrec_apply dev k s del f = Some (f\<lparr>fr_io := io1\<rparr>)"
        using True 1 by (simp add: edgx_frer_seqrec_apply_def n a Let_def)
      then show ?thesis by (rule io)
    qed
  qed
qed


lemma upd_seqrec_fields [simp]:
  "fr_iobase (upd_seqrec k u f) = fr_iobase f" "seqrec_rst (upd_seqrec k u f) = seqrec_rst f"
  "reset_table (upd_seqrec k u f) = reset_table f" "sr_root (upd_seqrec k u f) = upd_node sr_fnidx k u (sr_root f)"
  by (simp_all add: upd_seqrec_def reset_table_def)

lemma rec_change_ret:
  assumes c: "frer_contract dev (fr_iobase f) tab" and w: "fn_wf f" and t: "reset_table f"
    and k: "\<And>n. sr_fnidx (u n) = sr_fnidx n" and n: "seqrec_rbt_search (sr_root f) k = Some n"
    and un: "rcv_ok (seqrec_rst f) (u n)" "del \<longrightarrow> sr_rcv_rst (u n) \<noteq> FRER_U16_INVALID"
  shows "\<exists>f'. edgx_frer_seqrec_apply dev k s del (upd_seqrec k u f) = Some f'"
proof -
  have "sorted_wrt (<) (map sr_fnidx (sr_root f))" using w by (simp add: fn_wf_def)
  then have "seqrec_rbt_search (sr_root (upd_seqrec k u f)) k = Some (u n)"
    using sr.search_upd [OF _ k] n by simp
  from rec_apply_ret [OF _ _ _ sr_node(2) [OF w n] this un(2), of dev tab s] show ?thesis using c t un(1) by auto
qed

lemma set_param_ret:
  assumes c: "frer_contract dev (fr_iobase f) tab" and w: "fn_wf f" and t: "reset_table f"
    and k: "\<And>n. sr_fnidx (u n) = sr_fnidx n" and u: "\<And>n. rcv_ok (seqrec_rst f) n \<Longrightarrow> rcv_ok (seqrec_rst f) (u n)"
  shows "set_param dev u k f \<noteq> None"
proof (cases "seqrec_fn_exists f k")
  case (Some n)
  then have n: "seqrec_rbt_search (sr_root f) k = Some n" by (simp add: seqrec_fn_exists_def)
  have "rcv_ok (seqrec_rst f) (u n)" using sr_node(4) [OF w n] w u by (simp add: fn_wf_def)
  then show ?thesis using rec_change_ret [OF c w t k n, of False FRER_U16_INVALID] by (auto simp: set_param_def Some)
qed (simp add: set_param_def)

lemma rec_params_ret:
  assumes "frer_contract dev (fr_iobase f) tab" "fn_wf f" "reset_table f"
  shows "edgx_frer_seqrec_addport dev p k f \<noteq> None" "edgx_frer_seqrec_set_rbt_bool dev v k fld f \<noteq> None"
    "edgx_frer_seqrec_set_alg dev a k f \<noteq> None" "edgx_frer_seqrec_set_rrst dev r k f \<noteq> None"
    "edgx_frer_seqrec_set_histl dev h k f \<noteq> None" "edgx_frer_seqrec_adddir dev d k f \<noteq> None"
  using set_param_ret [OF assms]
  by (auto simp: edgx_frer_seqrec_addport_def edgx_frer_seqrec_set_rbt_bool_def edgx_frer_seqrec_set_alg_def edgx_frer_seqrec_set_rrst_def
      edgx_frer_seqrec_set_histl_def edgx_frer_seqrec_adddir_def rcv_ok_def seqrec_check_rcv_rst_def not_less
      split: option.split seqrec_field.split)

lemma rec_add_str_ret:
  assumes c: "frer_contract dev (fr_iobase f) tab" and w: "fn_wf f" and t: "reset_table f"
  shows "edgx_frer_seqrec_addstr dev ok s k f \<noteq> None"
proof (cases "seqrec_rbt_search (sr_root f) k")
  case (Some n)
  obtain ret n' where n': "(if \<not> seqrec_list_entry_exists s n then seqrec_list_add ok s n else (0, n)) = (ret, n')"
    by (meson prod.exhaust)
  note nd = sr_node [OF w Some]
  have "rcv_ok (seqrec_rst f) n" using w nd(4) by (simp add: fn_wf_def)
  then have l: "sr_fnidx n' = k" "rcv_ok (seqrec_rst f) n'"
    using n' nd by (auto simp: seqrec_list_add_def rcv_ok_def split: if_split_asm)
  have "upd_node sr_fnidx k (\<lambda>_. n') (sr_root f) = upd_node sr_fnidx k (\<lambda>n. n'\<lparr>sr_fnidx := sr_fnidx n\<rparr>) (sr_root f)"
    using l(1) by (auto simp: upd_node_def)
  then have u: "upd_seqrec k (\<lambda>_. n') f = upd_seqrec k (\<lambda>n. n'\<lparr>sr_fnidx := sr_fnidx n\<rparr>) f" by (simp add: upd_seqrec_def)
  have "\<exists>f'. edgx_frer_seqrec_apply dev k s False (upd_seqrec k (\<lambda>n. n'\<lparr>sr_fnidx := sr_fnidx n\<rparr>) f) = Some f'"
    using rec_change_ret [OF c w t _ Some, of "\<lambda>n. n'\<lparr>sr_fnidx := sr_fnidx n\<rparr>" False s] l(2) by (simp add: rcv_ok_def)
  then show ?thesis by (auto simp: edgx_frer_seqrec_addstr_def Some n' u)
qed (simp add: edgx_frer_seqrec_addstr_def)

text \<open>A deletion: the reset time of the function decides.\<close>

lemma rec_del_str_ret:
  assumes c: "frer_contract dev (fr_iobase f) tab" and w: "fn_wf f" and t: "reset_table f"
  shows "edgx_frer_seqrec_delstr dev s k f = None \<longleftrightarrow>
    edgx_frer_check_strhdl s f = 0 \<and> (\<exists>n. seqrec_fn_exists f k = Some n \<and> s \<in> set (sr_list n) \<and> sr_rcv_rst n = FRER_U16_INVALID)"
proof (cases "edgx_frer_check_strhdl s f = 0 \<and> (\<exists>n. seqrec_fn_exists f k = Some n \<and> s \<in> set (sr_list n))")
  case False
  then show ?thesis by (auto simp: edgx_frer_seqrec_delstr_def seqrec_list_entry_exists_def split: option.split)
next
  case True
  then obtain n where n: "seqrec_rbt_search (sr_root f) k = Some n" "s \<in> set (sr_list n)" by (auto simp: seqrec_fn_exists_def)
  let ?u = "\<lambda>sr. snd (seqrec_list_del s sr)"
  have srt: "sorted_wrt (<) (map sr_fnidx (sr_root f))" using w by (simp add: fn_wf_def)
  have r: "sr_rcv_rst (?u n) = sr_rcv_rst n" by (simp add: seqrec_list_del_def)
  have ok: "rcv_ok (seqrec_rst f) (?u n)" using w sr_node(4) [OF w n(1)] by (simp add: fn_wf_def)
  have "edgx_frer_seqrec_apply dev k s True (upd_seqrec k ?u f) = None \<longleftrightarrow> sr_rcv_rst n = FRER_U16_INVALID"
  proof (cases "sr_rcv_rst n = FRER_U16_INVALID")
    case True
    have "seqrec_rbt_search (sr_root (upd_seqrec k ?u f)) k = Some (?u n)"
      using sr.search_upd [OF srt, of ?u] n by simp
    from rec_apply_none [OF _ _ this] True r ok t show ?thesis by simp
  next
    case False
    have "\<exists>f'. edgx_frer_seqrec_apply dev k s True (upd_seqrec k ?u f) = Some f'"
      by (rule rec_change_ret [OF c w t _ n(1), of ?u]) (use ok False r in simp_all)
    then show ?thesis using False by auto
  qed
  then show ?thesis using True n by (auto simp: edgx_frer_seqrec_delstr_def seqrec_list_entry_exists_def seqrec_fn_exists_def)
qed

lemma rec_del_streams_ret:
  assumes "frer_contract dev (fr_iobase f) tab" "reset_table f" "k < 0x1000" "sorted_wrt (<) (map sr_fnidx (sr_root f))"
    and "seqrec_rbt_search (sr_root f) k = Some n" "rcv_ok (seqrec_rst f) n" "sr_rcv_rst n \<noteq> FRER_U16_INVALID"
  shows "seqrec_del_streams dev k ss f \<noteq> None"
  using assms
proof (induction ss arbitrary: f n)
  case (Cons s ss)
  obtain f1 b where 1: "edgx_frer_seqrec_apply dev k s True f = Some f1" "fr_iobase f1 = fr_iobase f" "seqrec_rst f1 = seqrec_rst f"
    "sr_root f1 = upd_node sr_fnidx k (\<lambda>n. n\<lparr>seqrec_cfg_applied := seqrec_cfg_applied n \<or> b\<rparr>) (sr_root f)"
    using rec_apply_ret [OF Cons.prems(1,2,6,3,5), of True s] Cons.prems(7) by blast
  let ?f2 = "upd_seqrec k (\<lambda>sr. snd (seqrec_list_del s sr)) f1"
  let ?n1 = "n\<lparr>seqrec_cfg_applied := seqrec_cfg_applied n \<or> b\<rparr>"
  have s1: "sorted_wrt (<) (map sr_fnidx (sr_root f1))" using Cons.prems(4) by (simp add: 1(4) sr.map_key_upd)
  have "seqrec_rbt_search (sr_root f1) k = Some ?n1" using sr.search_upd [OF Cons.prems(4)] Cons.prems(5) by (simp add: 1(4))
  then have "seqrec_rbt_search (sr_root ?f2) k = Some (snd (seqrec_list_del s ?n1))"
    using sr.search_upd [OF s1] by simp
  from Cons.IH [OF _ _ Cons.prems(3) _ this] have "seqrec_del_streams dev k ss ?f2 \<noteq> None"
    using Cons.prems(1,2,6,7) 1(2,3) s1 reset_table_cong [OF 1(3)] by (simp add: sr.map_key_upd seqrec_list_del_def rcv_ok_def)
  then show ?case by (simp add: 1(1))
qed simp

lemma rec_del_fn_ret:
  assumes c: "frer_contract dev (fr_iobase f) tab" and w: "fn_wf f" and t: "reset_table f"
  shows "edgx_frer_seqrec_delfn dev k f = None \<longleftrightarrow>
    (\<exists>n. seqrec_fn_exists f k = Some n \<and> sr_list n \<noteq> [] \<and> sr_rcv_rst n = FRER_U16_INVALID)"
proof (cases "seqrec_fn_exists f k")
  case (Some n)
  then have n: "seqrec_rbt_search (sr_root f) k = Some n" by (simp add: seqrec_fn_exists_def)
  note nd = sr_node [OF w n]
  have ok: "rcv_ok (seqrec_rst f) n" "sorted_wrt (<) (map sr_fnidx (sr_root f))" using w nd(4) by (simp_all add: fn_wf_def)
  have "seqrec_del_streams dev k (sr_list n) f = None \<longleftrightarrow> sr_list n \<noteq> [] \<and> sr_rcv_rst n = FRER_U16_INVALID"
  proof (cases "sr_rcv_rst n = FRER_U16_INVALID")
    case True
    then show ?thesis using rec_apply_none [OF t ok(1) n True] by (cases "sr_list n") simp_all
  next
    case False
    then show ?thesis using rec_del_streams_ret [OF c t nd(2) ok(2) n ok(1)] by simp
  qed
  then show ?thesis by (auto simp: edgx_frer_seqrec_delfn_def Some)
qed (simp add: edgx_frer_seqrec_delfn_def)


section \<open>Generation functions\<close>

lemma gen_del_str_ret:
  assumes c: "frer_contract dev (fr_iobase f) tab"
  shows "seqgen_list_del_entry dev s f \<noteq> None"
proof -
  obtain b io1 where 1: "edgx_frer_seqfn_enabled dev s FRER_TBL2 f = Some (b, f\<lparr>fr_io := io1\<rparr>)" by (rule enabled_ret [OF c])
  obtain v io2 where 2: "edgx_frer_ip_rd_strtbl dev s FRER_TBL2 (f\<lparr>fr_io := io1\<rparr>) = Some (v, f\<lparr>fr_io := io1\<rparr>\<lparr>fr_io := io2\<rparr>)"
    by (rule rd_ret [of dev "f\<lparr>fr_io := io1\<rparr>" tab s FRER_TBL2]) (simp add: c)
  let ?k = "v AND 0xFFF"
  let ?f = "upd_seqgen ?k (\<lambda>n. n\<lparr>sg_list := remove1 s (sg_list n)\<rparr>) (f\<lparr>fr_io := io2\<rparr>)"
  have "frer_contract dev (fr_iobase ?f) tab" using c by (simp add: upd_seqgen_def)
  from wr_ret [OF this, of s ?k FRER_TBL2 True] obtain io3 where
    3: "edgx_frer_ip_wr_strtbl dev s ?k FRER_TBL2 True ?f = Some (?f\<lparr>fr_io := io3\<rparr>)" by blast
  show ?thesis
  proof (cases "seqgen_rbt_search (sg_root f) ?k")
    case None
    then show ?thesis by (simp add: seqgen_list_del_entry_def 1 2 [simplified] Let_def)
  next
    case (Some n)
    then show ?thesis using 3 by (simp add: seqgen_list_del_entry_def 1 2 [simplified] Let_def)
  qed
qed

lemma gen_disable_ret:
  assumes "frer_contract dev (fr_iobase f) tab"
  shows "seqgen_disable dev stale ss f \<noteq> None"
  using assms
proof (induction ss arbitrary: f)
  case (Cons s ss)
  obtain io1 where "edgx_frer_ip_wr_strtbl dev (stale s) 0 FRER_TBL2 True f = Some (f\<lparr>fr_io := io1\<rparr>)" by (rule wr_ret [OF Cons.prems])
  then show ?case using Cons.IH [of "f\<lparr>fr_io := io1\<rparr>"] Cons.prems by simp
qed simp

lemma gen_apply_from_ret:
  assumes "frer_contract dev (fr_iobase f) tab" "k < 0x1000"
  shows "\<exists>r io'. seqgen_apply_from dev k ss f = Some (r, f\<lparr>fr_io := io'\<rparr>)"
  using assms
proof (induction ss arbitrary: f)
  case Nil
  show ?case by (intro exI [of _ 0] exI [of _ "fr_io f"]) simp
next
  case (Cons s ss)
  note c = Cons.prems(1)
  obtain b io1 where 1: "edgx_frer_seqfn_enabled dev s FRER_TBL2 f = Some (b, f\<lparr>fr_io := io1\<rparr>)" by (rule enabled_ret [OF c])
  show ?case
  proof (cases b)
    case True
    obtain v io2 where 2: "edgx_frer_ip_rd_strtbl dev s FRER_TBL2 (f\<lparr>fr_io := io1\<rparr>) = Some (v, f\<lparr>fr_io := io1\<rparr>\<lparr>fr_io := io2\<rparr>)"
      by (rule rd_ret [of dev "f\<lparr>fr_io := io1\<rparr>" tab s FRER_TBL2]) (simp add: c)
    show ?thesis using Cons.IH [of "f\<lparr>fr_io := io2\<rparr>"] Cons.prems by (auto simp: 1 2 [simplified] True)
  next
    case False
    obtain io2 where 2: "edgx_frer_ip_wr_strtbl dev s k FRER_TBL2 False (f\<lparr>fr_io := io1\<rparr>) = Some (f\<lparr>fr_io := io1\<rparr>\<lparr>fr_io := io2\<rparr>)"
      by (rule wr_ret [of dev "f\<lparr>fr_io := io1\<rparr>" tab]) (simp add: c)
    obtain io3 where 3: "seqgen_ip_reset dev k (f\<lparr>fr_io := io2\<rparr>) = Some (f\<lparr>fr_io := io2\<rparr>\<lparr>fr_io := io3\<rparr>)"
      using seqgen_resetD [of dev "f\<lparr>fr_io := io2\<rparr>" tab k] Cons.prems by auto
    show ?thesis using Cons.IH [of "f\<lparr>fr_io := io3\<rparr>"] Cons.prems by (simp add: 1 2 [simplified] 3 [simplified] False)
  qed
qed

lemma gen_apply_ret:
  assumes "frer_contract dev (fr_iobase f) tab" "sg_fnidx n < 0x1000"
  shows "edgx_frer_seqgen_apply dev n f \<noteq> None"
  using gen_apply_from_ret [OF assms, of "sg_list n"] by (auto simp: edgx_frer_seqgen_apply_def)

lemma gen_ops_ret:
  assumes c: "frer_contract dev (fr_iobase f) tab" and w: "fn_wf f"
  shows "edgx_frer_seqgen_addstr dev ok s k f \<noteq> None" "edgx_frer_seqgen_adddir dev d k f \<noteq> None"
    "seqgen_rbt_del_entry dev stale k f \<noteq> None"
proof -
  have ap: "edgx_frer_seqgen_apply dev n' (upd_seqgen k u f) \<noteq> None"
    if "seqgen_rbt_search (sg_root f) k = Some n" "sg_fnidx n' = sg_fnidx n" for n n' u
    using gen_apply_ret [of dev "upd_seqgen k u f" tab n'] sg_node(1,2) [OF w that(1)] that(2) c by (simp add: upd_seqgen_def)
  show "edgx_frer_seqgen_addstr dev ok s k f \<noteq> None"
  proof (cases "seqgen_rbt_search (sg_root f) k")
    case (Some n)
    obtain ret n' where n': "(if \<not> seqgen_list_entry_exists s n then seqgen_list_add ok s n else (0, n)) = (ret, n')"
      by (meson prod.exhaust)
    then have "sg_fnidx n' = sg_fnidx n" by (auto simp: seqgen_list_add_def split: if_split_asm)
    from ap [OF Some this, of "\<lambda>_. n'"] show ?thesis by (auto simp: edgx_frer_seqgen_addstr_def Some n' Let_def)
  qed (simp add: edgx_frer_seqgen_addstr_def)
  show "edgx_frer_seqgen_adddir dev d k f \<noteq> None"
  proof (cases "seqgen_rbt_search (sg_root f) k")
    case (Some n)
    from ap [OF Some, of "n\<lparr>sg_dir := d\<rparr>" "\<lambda>_. n\<lparr>sg_dir := d\<rparr>"] show ?thesis
      by (auto simp: edgx_frer_seqgen_adddir_def Some Let_def)
  qed (simp add: edgx_frer_seqgen_adddir_def)
  show "seqgen_rbt_del_entry dev stale k f \<noteq> None"
  proof (cases "seqgen_rbt_search (sg_root f) k")
    case (Some n)
    show ?thesis using gen_disable_ret [OF c, of stale "sg_list n"] by (auto simp: seqgen_rbt_del_entry_def Some)
  qed (simp add: seqgen_rbt_del_entry_def)
qed

section \<open>Which operations return\<close>

text \<open>
  Property C30. In every state that the frame replication reaches, with a device that ends its commands,
  every operation of the sequence encoding and of the sequence generation returns, for any handle, port
  below 16 and number; so does every change of a parameter of a recovery function and the addition of a
  stream to one. A deletion from a recovery function (of a stream of it, or of the function with
  streams) reads outside the table of the reset times exactly when the reset time of the function has
  not been set. Assumed, as for the agreement of the tables: bit 14 is clear in the handles that a
  deletion of a generation function reads from released list elements (\<open>stale\<close>).
\<close>

theorem frer_operations_return:
  assumes "frer_contract dev (fr_iobase f0) tab" "frer_start tab io f0" "\<forall>s. \<not> bit (stale s) 14"
    and "frer_reach dev stale f0 f" "p < 16"
  shows "(edgx_frer_seqenc_create_entry p d f \<noteq> None \<and> edgx_frer_seqenc_add_str dev True True s p f \<noteq> None
      \<and> edgx_frer_seqenc_set_active dev a p f \<noteq> None \<and> edgx_frer_seqenc_delportfn dev old p f \<noteq> None
      \<and> edgx_frer_seqenc_delstr dev s p f \<noteq> None)
    \<and> (edgx_frer_seqgen_addstr dev ok s k f \<noteq> None \<and> edgx_frer_seqgen_adddir dev d k f \<noteq> None
      \<and> seqgen_rbt_del_entry dev stale k f \<noteq> None \<and> seqgen_list_del_entry dev s f \<noteq> None)
    \<and> (edgx_frer_seqrec_adddir dev d k f \<noteq> None \<and> edgx_frer_seqrec_addport dev n k f \<noteq> None
      \<and> edgx_frer_seqrec_set_rbt_bool dev v k fld f \<noteq> None \<and> edgx_frer_seqrec_set_alg dev al k f \<noteq> None
      \<and> edgx_frer_seqrec_set_rrst dev t k f \<noteq> None \<and> edgx_frer_seqrec_set_histl dev h k f \<noteq> None
      \<and> edgx_frer_seqrec_addstr dev ok s k f \<noteq> None)
    \<and> (edgx_frer_seqrec_delstr dev s k f = None \<longleftrightarrow>
      s < streams_max f \<and> (\<exists>n. seqrec_fn_exists f k = Some n \<and> s \<in> set (sr_list n) \<and> sr_rcv_rst n = FRER_U16_INVALID))
    \<and> (edgx_frer_seqrec_delfn dev k f = None \<longleftrightarrow>
      (\<exists>n. seqrec_fn_exists f k = Some n \<and> sr_list n \<noteq> [] \<and> sr_rcv_rst n = FRER_U16_INVALID))"
proof -
  from reach_inv [OF assms(1,3) start_inv [OF assms(2)] assms(4)]
  have w: "enc_wf tab f" "fn_wf f" "reset_table f" "fr_iobase f = fr_iobase f0" by (simp_all add: frer_inv_def)
  have c: "frer_contract dev (fr_iobase f) tab" using assms(1) w(4) by simp
  have m: "streams_max f \<le> 0x1000" using w(2) by (auto simp: fn_wf_def intro: order_trans)
  have "edgx_frer_seqenc_create_entry p d f \<noteq> None" using enc_createD [OF w(1) assms(5), of d] by auto
  moreover have "edgx_frer_seqenc_add_str dev True True s p f \<noteq> None" using enc_add_strD [OF c m assms(5) w(1), of s] by auto
  moreover have "edgx_frer_seqenc_set_active dev a p f \<noteq> None" using enc_set_activeD [OF c m assms(5) w(1), of a] by auto
  moreover have "edgx_frer_seqenc_delportfn dev old p f \<noteq> None" using enc_delportfnD [OF c m assms(5) w(1), of old] by auto
  moreover have "edgx_frer_seqenc_delstr dev s p f \<noteq> None" using enc_delstrD [OF c m assms(5) w(1), of s] by auto
  ultimately have e: "edgx_frer_seqenc_create_entry p d f \<noteq> None \<and> edgx_frer_seqenc_add_str dev True True s p f \<noteq> None
      \<and> edgx_frer_seqenc_set_active dev a p f \<noteq> None \<and> edgx_frer_seqenc_delportfn dev old p f \<noteq> None
      \<and> edgx_frer_seqenc_delstr dev s p f \<noteq> None" by blast
  have g: "edgx_frer_seqgen_addstr dev ok s k f \<noteq> None \<and> edgx_frer_seqgen_adddir dev d k f \<noteq> None
      \<and> seqgen_rbt_del_entry dev stale k f \<noteq> None \<and> seqgen_list_del_entry dev s f \<noteq> None"
    using gen_ops_ret [OF c w(2)] gen_del_str_ret [OF c] by blast
  have r: "edgx_frer_seqrec_adddir dev d k f \<noteq> None \<and> edgx_frer_seqrec_addport dev n k f \<noteq> None
      \<and> edgx_frer_seqrec_set_rbt_bool dev v k fld f \<noteq> None \<and> edgx_frer_seqrec_set_alg dev al k f \<noteq> None
      \<and> edgx_frer_seqrec_set_rrst dev t k f \<noteq> None \<and> edgx_frer_seqrec_set_histl dev h k f \<noteq> None
      \<and> edgx_frer_seqrec_addstr dev ok s k f \<noteq> None"
    using rec_params_ret [OF c w(2,3)] rec_add_str_ret [OF c w(2,3)] by blast
  have ds: "edgx_frer_seqrec_delstr dev s k f = None \<longleftrightarrow>
      s < streams_max f \<and> (\<exists>n. seqrec_fn_exists f k = Some n \<and> s \<in> set (sr_list n) \<and> sr_rcv_rst n = FRER_U16_INVALID)"
    using rec_del_str_ret [OF c w(2,3)] by (simp add: edgx_frer_check_strhdl_def not_le [symmetric])
  have df: "edgx_frer_seqrec_delfn dev k f = None \<longleftrightarrow>
      (\<exists>n. seqrec_fn_exists f k = Some n \<and> sr_list n \<noteq> [] \<and> sr_rcv_rst n = FRER_U16_INVALID)"
    by (rule rec_del_fn_ret [OF c w(2,3)])
  show ?thesis by (intro conjI) (use e g r ds df in simp_all)
qed

text \<open>A recovery function that has a stream and no reset time.\<close>

definition demo_unset :: frer where
  "demo_unset = demo_frer\<lparr>sr_root := [(new_seqrec 3)\<lparr>sr_list := [5]\<rparr>], seqreccnt := 1\<rparr>"

lemma demo_unset_reach: "frer_reach frer_ram stale demo_frer demo_unset"
proof -
  have cr: "sr_root (calc_rcv_rst f) = sr_root f" "seqreccnt (calc_rcv_rst f) = seqreccnt f" for f
    by (simp_all add: calc_rcv_rst_def Let_def)
  obtain n where "edgx_brfdb_sid_get_max_str demo_frer_fdb demo_frer_io = Some n"
    using demo_frer_probe by (auto simp: edgx_probe_frer_def bind_eq_Some)
  then have e: "sr_root demo_frer = []" "seqreccnt demo_frer = 0"
    by (simp_all add: demo_frer_def edgx_probe_frer_def cr)
  let ?f = "demo_frer\<lparr>sr_root := [new_seqrec 3], seqreccnt := 1\<rparr>"
  have "edgx_frer_seqrec_create True 3 demo_frer = (0, ?f)"
    by (simp add: edgx_frer_seqrec_create_def edgx_frer_check_fnidx_def demo_frer_limits e seqrec_rbt_search_def seqrec_rbt_insert_node_def)
  from rec_create [OF fr_probe this] have "frer_reach frer_ram stale demo_frer ?f" .
  moreover have "edgx_frer_seqrec_addstr frer_ram True 5 3 ?f = Some (0, demo_unset)"
    by (simp add: edgx_frer_seqrec_addstr_def edgx_frer_check_strhdl_def demo_frer_limits seqrec_rbt_search_def seqrec_list_entry_exists_def
        seqrec_list_add_def new_seqrec_def edgx_frer_seqrec_apply_def upd_seqrec_def upd_node_def seqrec_all_set_def demo_unset_def)
  ultimately show ?thesis by (rule rec_addstr)
qed

theorem frer_operations_return_witness:
  "edgx_frer_seqrec_delstr frer_ram 5 3 demo_unset = None \<and> edgx_frer_seqrec_delfn frer_ram 3 demo_unset = None
   \<and> edgx_frer_seqrec_delstr frer_ram 6 3 demo_unset \<noteq> None \<and> edgx_frer_seqrec_set_rrst frer_ram 10 3 demo_unset \<noteq> None"
proof -
  let ?st = "\<lambda>s. s AND 0xFFF :: u16"
  have c: "frer_contract frer_ram (fr_iobase demo_frer) frer_cells" using frer_ram_contract by (simp add: demo_frer_limits)
  have st: "\<forall>s. \<not> bit (?st s) 14" using and_0xFFF_bit by blast
  note ret5 = frer_operations_return [where k = 3 and t = 10 and s = 5 and p = 0, OF c demo_frer_start st demo_unset_reach]
  note ret6 = frer_operations_return [where k = 3 and t = 10 and s = 6 and p = 0, OF c demo_frer_start st demo_unset_reach]
  have "seqrec_fn_exists demo_unset 3 = Some ((new_seqrec 3)\<lparr>sr_list := [5]\<rparr>)" "streams_max demo_unset = 16"
    by (simp_all add: demo_unset_def seqrec_fn_exists_def seqrec_rbt_search_def demo_frer_limits new_seqrec_def)
  then show ?thesis using ret5 ret6 by (simp add: new_seqrec_def)
qed

end
