(* ===== verification/FrerFaults.thy ===== *)
theory FrerFaults
  imports FrerRet
begin

text \<open>
  A stream handle that is not checked and overwrites a row; and the pieces about a recovery function
  without streams that \<open>FrerLost\<close> puts together.
\<close>

unbundle bit_operations_syntax

section \<open>A handle that is not checked\<close>

text \<open>
  Property C33. The file that deletes a stream from its generation function does not check the handle. A
  number with bit 14 set turns the read of the stream's row into a write: the row of the low twelve bits
  takes the contents of the data registers, whatever row they were left from, while the file reports
  an invalid argument. Assumed: the hardware contract, and that the data register of the generation word
  is not left enabled.
\<close>

theorem unchecked_handle_overwrites_row:
  assumes c: "frer_contract dev (fr_iobase f) tab" and s: "bit s 14" "\<not> bit (fr_rd 0x414 f) 15"
  shows "\<exists>f'. seqgen_del_str_store dev (Some s) count f = Some (- EINVAL, f')
    \<and> tab (fr_io f') = (tab (fr_io f))(s AND 0xFFF := (\<lambda>t. fr_rd (strtbl_reg t) f))"
proof -
  have b: "bit (0x8000 OR s) 15" by (simp only: bit_or_iff bit_16_consts) simp
  have b14: "bit (0x8000 OR s) 14" by (simp only: bit_or_iff s(1) simp_thms)
  have z: "(0x8000 OR s) AND 0xFFF = s AND 0xFFF" by (simp add: bit.conj_disj_distrib2)
  obtain io' where 1: "fr_wait dev STREAM_CMD 0x8000 (fr_wr STREAM_CMD (0x8000 OR s) f) = Some (f\<lparr>fr_io := io'\<rparr>)"
    "tab io' = (tab (fr_io f))(s AND 0xFFF := (\<lambda>t. fr_rd (strtbl_reg t) f))"
    "\<forall>t. fr_rd (strtbl_reg t) (f\<lparr>fr_io := io'\<rparr>) = fr_rd (strtbl_reg t) f"
    using str_cmdD [OF c b] b14 unfolding z by blast
  have v: "fr_rd 0x414 (f\<lparr>fr_io := io'\<rparr>) = fr_rd 0x414 f" using 1(3) [THEN spec, of FRER_TBL2] by simp
  have "edgx_frer_seqfn_enabled dev s FRER_TBL2 f = Some (False, f\<lparr>fr_io := io'\<rparr>)"
    using s(2) by (simp add: edgx_frer_seqfn_enabled_def edgx_frer_ip_rd_strtbl_def 1(1) v bit15)
  then have "seqgen_del_str_store dev (Some s) count f = Some (- EINVAL, f\<lparr>fr_io := io'\<rparr>)"
    by (simp add: seqgen_del_str_store_def store_num_def seqgen_list_del_entry_def)
  then show ?thesis using 1(2) by auto
qed

text \<open>Row 5 belongs to a stream that port 2 tags; a deletion of the handle 0x4005 clears it.\<close>

definition demo_row :: frer where
  "demo_row = demo_frer\<lparr>fr_io := (\<lambda>_. 0)(str_cell 5 := 4)\<rparr>"

theorem unchecked_handle_overwrites_row_witness:
  "frer_cells (fr_io demo_row) 5 FRER_TBL0 = 4
   \<and> (\<exists>f'. seqgen_del_str_store frer_ram (Some 0x4005) 7 demo_row = Some (- EINVAL, f') \<and> frer_cells (fr_io f') 5 FRER_TBL0 = 0)"
proof -
  have c: "frer_contract frer_ram (fr_iobase demo_row) frer_cells" using frer_ram_contract by (simp add: demo_row_def demo_frer_limits)
  have "(0x4005 :: u16) = 2 ^ 14 OR 5" "(5 :: u16) < 2 ^ 3" by simp_all
  then have b: "bit (0x4005 :: u16) 14" by (simp only: bit_or_iff bit_exp_iff) simp
  have r: "fr_rd x demo_row = 0" if "x < 0x10000" for x :: nat
    using that by (simp add: fr_rd_def edgx_rd16_def demo_row_def demo_frer_limits str_cell_def)
  have "strtbl_reg t < 0x10000" for t by (cases t) simp_all
  then have t: "fr_rd (strtbl_reg t) demo_row = 0" for t by (rule r)
  have "\<not> bit (fr_rd 0x414 demo_row) 15" by (simp add: r)
  from unchecked_handle_overwrites_row [where count = 7, OF c b this] obtain f' where
    f': "seqgen_del_str_store frer_ram (Some 0x4005) 7 demo_row = Some (- EINVAL, f')"
    "frer_cells (fr_io f') = (frer_cells (fr_io demo_row))(5 := (\<lambda>t. 0))" using t by auto
  have "frer_cells (fr_io f') 5 FRER_TBL0 = 0" unfolding f'(2) by simp
  moreover have "frer_cells (fr_io demo_row) 5 FRER_TBL0 = 4" by (simp add: demo_row_def frer_cells_def)
  ultimately show ?thesis using f'(1) by blast
qed

section \<open>Parameters of a function without streams\<close>

text \<open>A view of the registers that the commands of the stream table leave alone.\<close>

definition rows_kept :: "device \<Rightarrow> nat \<Rightarrow> (iomem \<Rightarrow> 'a) \<Rightarrow> bool" where
  "rows_kept dev base rows \<longleftrightarrow>
     (\<forall>io cmd io'. bit cmd 15 \<longrightarrow>
        wait_clear dev (\<lambda>io. edgx_rd16 io base STREAM_CMD AND 0x8000 \<noteq> 0) (edgx_wr16 io base STREAM_CMD cmd) = Some io' \<longrightarrow> rows io' = rows io)
   \<and> (\<forall>io t v. rows (edgx_wr16 io base (strtbl_reg t) v) = rows io)"

lemma cmd_rows:
  assumes "rows_kept dev (fr_iobase f) rows" "bit cmd 15" "fr_wait dev STREAM_CMD 0x8000 (fr_wr STREAM_CMD cmd f) = Some f'"
  shows "rows (fr_io f') = rows (fr_io f) \<and> fr_iobase f' = fr_iobase f"
  using assms unfolding rows_kept_def fr_wait_def fr_wr_def by auto

lemma rd_rows:
  assumes "rows_kept dev (fr_iobase f) rows" "edgx_frer_ip_rd_strtbl dev s t f = Some (v, f')"
  shows "rows (fr_io f') = rows (fr_io f) \<and> fr_iobase f' = fr_iobase f"
proof -
  have "bit (0x8000 OR s) 15" by (simp only: bit_or_iff bit_16_consts) simp
  from cmd_rows [OF assms(1) this] assms(2) show ?thesis by (auto simp: edgx_frer_ip_rd_strtbl_def bind_eq_Some)
qed

lemma wr_rows:
  assumes k: "rows_kept dev (fr_iobase f) rows" and r: "edgx_frer_ip_wr_strtbl dev s v t del f = Some f'"
  shows "rows (fr_io f') = rows (fr_io f)"
proof -
  have b: "bit (0xC000 OR s) 15" by (simp only: bit_or_iff bit_16_consts) simp
  obtain x f1 where 1: "edgx_frer_ip_rd_strtbl dev s FRER_TBL0 f = Some (x, f1)"
    "fr_wait dev STREAM_CMD 0x8000 (fr_wr STREAM_CMD (0xC000 OR s) (fr_wr (strtbl_reg t) (strval t del v) f1)) = Some f'"
    using r by (auto simp: edgx_frer_ip_wr_strtbl_def bind_eq_Some Let_def strval_def)
  note r1 = rd_rows [OF k 1(1)]
  let ?f2 = "fr_wr (strtbl_reg t) (strval t del v) f1"
  have "rows (fr_io ?f2) = rows (fr_io f1)" "fr_iobase ?f2 = fr_iobase f1"
    using k r1 by (simp_all add: rows_kept_def fr_wr_def)
  then show ?thesis using cmd_rows [OF _ b 1(2), of rows] k r1 by simp
qed

text \<open>The first stream of an applied function: only the row of the stream is written.\<close>

lemma apply_stream_only:
  assumes c: "frer_contract dev (fr_iobase f) tab" and s: "s < 0x1000" and t: "reset_table f" "rcv_ok (seqrec_rst f) n"
    and n: "seqrec_rbt_search (sr_root f) k = Some n" "seqrec_all_set n" "seqrec_cfg_applied n"
    and free: "\<not> bit (tab (fr_io f) s FRER_TBL3) 15"
  shows "\<exists>f'. edgx_frer_seqrec_apply dev k s False f = Some f' \<and> sr_root f' = sr_root f
    \<and> tab (fr_io f') = (tab (fr_io f))(s := (tab (fr_io f) s)(FRER_TBL3 := k OR 0x8000))
    \<and> (rows_kept dev (fr_iobase f) rows \<longrightarrow> rows (fr_io f') = rows (fr_io f))"
proof -
  have inv: "s \<noteq> FRER_U16_INVALID" using s by auto
  have "sr_rcv_rst n \<noteq> FRER_U16_INVALID" using n(2) by (simp add: seqrec_all_set_def)
  then obtain a where a: "first_bigger f (sr_rcv_rst n) = Some a" using first_bigger_unset [OF t] by auto
  obtain io1 where 1: "edgx_frer_ip_rd_strtbl dev s FRER_TBL3 f = Some (tab (fr_io f) s FRER_TBL3, f\<lparr>fr_io := io1\<rparr>)"
    "tab io1 = tab (fr_io f)" using rd_strD [OF c s, where t = FRER_TBL3] by blast
  have e: "seqrec_write_tbl_err dev s k f = Some (0, f\<lparr>fr_io := io1\<rparr>)"
    using free by (simp add: seqrec_write_tbl_err_def edgx_frer_seqfn_enabled_def 1(1) bit15)
  obtain io2 where 2: "edgx_frer_ip_wr_strtbl dev s k FRER_TBL3 False (f\<lparr>fr_io := io1\<rparr>) = Some (f\<lparr>fr_io := io1\<rparr>\<lparr>fr_io := io2\<rparr>)"
    "tab io2 = (tab io1)(s := (tab io1 s)(FRER_TBL3 := k OR 0x8000))"
    using wr_strD [of dev "f\<lparr>fr_io := io1\<rparr>" tab s k FRER_TBL3 False] c s by (auto simp: strval_def)
  have "edgx_frer_seqrec_apply dev k s False f = Some (f\<lparr>fr_io := io2\<rparr>)"
    using n inv by (simp add: edgx_frer_seqrec_apply_def a Let_def e 2(1) [simplified])
  moreover have "rows io2 = rows (fr_io f)" if "rows_kept dev (fr_iobase f) rows"
    using wr_rows [OF _ 2(1), of rows] rd_rows [OF that 1(1)] that by simp
  ultimately show ?thesis using 1(2) 2(2) by simp
qed

text \<open>A run that ends in such a state: the stream is deleted before the parameters are complete.\<close>

lemma quiet_param:
  assumes "sr_root f = [n]" "sr_fnidx n = k" "sr_fnidx (u n) = k" "sr_list (u n) = []"
  shows "set_param dev u k f = Some (0, f\<lparr>sr_root := [u n]\<rparr>)"
  using assms
  by (simp add: set_param_def seqrec_fn_exists_def seqrec_rbt_search_def upd_seqrec_def upd_node_def edgx_frer_seqrec_apply_def seqrec_all_set_def)

definition demo_params :: seqrec where
  "demo_params = \<lparr>sr_fnidx = 3, sr_list = [], sr_alg = ALG_VECT, sr_rcv_rst = 0, sr_ptmask = 1, sr_dir = DIR_IN_FAC, sr_hist_len = 2,
     sr_take_no_seq = 0, sr_ind_rec = 0, sr_lat_err = 0, seqrec_cfg_applied = True\<rparr>"

lemma demo_params_reach:
  obtains io' where "frer_reach frer_ram stale demo_frer (demo_unset\<lparr>fr_io := io', sr_root := [demo_params]\<rparr>)"
    "frer_cells io' = frer_cells (fr_io demo_frer)"
proof -
  let ?f1 = "demo_unset\<lparr>sr_root := [(new_seqrec 3)\<lparr>sr_list := [5], sr_rcv_rst := 0\<rparr>]\<rparr>"
  have "edgx_frer_seqrec_set_rrst frer_ram 0 3 demo_unset = Some (0, ?f1)"
    by (simp add: edgx_frer_seqrec_set_rrst_def seqrec_check_rcv_rst_def set_param_def seqrec_fn_exists_def seqrec_rbt_search_def demo_unset_def
        new_seqrec_def upd_seqrec_def upd_node_def edgx_frer_seqrec_apply_def seqrec_all_set_def)
  then have r1: "frer_reach frer_ram stale demo_frer ?f1" by (rule rec_rrst [OF demo_unset_reach])
  let ?n = "(new_seqrec 3)\<lparr>sr_list := [], sr_rcv_rst := 0\<rparr>"
  let ?f2 = "demo_unset\<lparr>sr_root := [?n]\<rparr>"
  have c: "frer_contract frer_ram (fr_iobase ?f2) frer_cells" using frer_ram_contract by (simp add: demo_unset_def demo_frer_limits)
  have t: "reset_table ?f2" using start_inv [OF demo_frer_start] by (simp add: frer_inv_def demo_unset_def reset_table_def)
  have "rcv_ok (seqrec_rst ?f2) ?n" by (simp add: rcv_ok_def)
  then have "first_bigger ?f2 0 \<noteq> None" using first_bigger_unset [OF t, of ?n] by simp
  then obtain a where a: "first_bigger ?f2 0 = Some a" by blast
  obtain io' where io': "edgx_frer_ip_wr_seqrectbl frer_ram 3 (seqrec_calc_cfg_val ?n a) ?f2 = Some (?f2\<lparr>fr_io := io'\<rparr>)"
    "frer_cells io' = frer_cells (fr_io ?f2)"
    by (rule wr_seqrecD [OF c, of 3]) simp_all
  let ?m = "?n\<lparr>seqrec_cfg_applied := True\<rparr>"
  let ?g = "demo_unset\<lparr>fr_io := io'\<rparr>"
  have "edgx_frer_seqrec_delstr frer_ram 5 3 ?f1 = Some (0, ?g\<lparr>sr_root := [?m]\<rparr>)"
    using a io'(1)
    by (simp add: edgx_frer_seqrec_delstr_def edgx_frer_check_strhdl_def demo_unset_def demo_frer_limits seqrec_fn_exists_def seqrec_rbt_search_def
        new_seqrec_def seqrec_list_entry_exists_def seqrec_list_del_def upd_seqrec_def upd_node_def edgx_frer_seqrec_apply_def)
  then have r2: "frer_reach frer_ram stale demo_frer (?g\<lparr>sr_root := [?m]\<rparr>)" by (rule rec_delstr [OF r1])
  note step = quiet_param [where k = 3 and f = "?g\<lparr>sr_root := [x]\<rparr>" and n = x for x, simplified]
  let ?m1 = "?m\<lparr>sr_alg := ALG_VECT\<rparr>"
  have "frer_reach frer_ram stale demo_frer (?g\<lparr>sr_root := [?m1]\<rparr>)"
    by (rule rec_alg [OF r2, where al = 0 and k = 3 and r = 0]) (simp add: edgx_frer_seqrec_set_alg_def seqrec_check_alg_def step new_seqrec_def)
  note r3 = this
  let ?m2 = "?m1\<lparr>sr_ptmask := 1\<rparr>"
  have "frer_reach frer_ram stale demo_frer (?g\<lparr>sr_root := [?m2]\<rparr>)"
    by (rule rec_addport [OF r3, where p = 0 and k = 3 and r = 0]) (simp add: edgx_frer_seqrec_addport_def edgx_frer_check_port_def step new_seqrec_def)
  note r4 = this
  let ?m3 = "?m2\<lparr>sr_dir := DIR_IN_FAC\<rparr>"
  have "frer_reach frer_ram stale demo_frer (?g\<lparr>sr_root := [?m3]\<rparr>)"
    by (rule rec_adddir [OF r4, where d = DIR_IN_FAC and k = 3 and r = 0]) (simp add: edgx_frer_seqrec_adddir_def seqrec_check_dir_def step new_seqrec_def)
  note r5 = this
  have bools: "seqrec_check_bool 0 = 0" by (simp add: seqrec_check_bool_def)
  have found: "seqrec_fn_exists (?g\<lparr>sr_root := [x]\<rparr>) 3 = Some x" if "sr_fnidx x = 3" for x
    using that by (simp add: seqrec_fn_exists_def seqrec_rbt_search_def)
  let ?m4 = "?m3\<lparr>sr_take_no_seq := 0\<rparr>"
  have "frer_reach frer_ram stale demo_frer (?g\<lparr>sr_root := [?m4]\<rparr>)"
    by (rule rec_bool [OF r5, where v = 0 and k = 3 and fld = SEQREC_NO_SEQ and r = 0])
      (simp add: edgx_frer_seqrec_set_rbt_bool_def bools found step new_seqrec_def)
  note r6 = this
  let ?m5 = "?m4\<lparr>sr_ind_rec := 0\<rparr>"
  have "frer_reach frer_ram stale demo_frer (?g\<lparr>sr_root := [?m5]\<rparr>)"
    by (rule rec_bool [OF r6, where v = 0 and k = 3 and fld = SEQREC_IND_REC and r = 0])
      (simp add: edgx_frer_seqrec_set_rbt_bool_def bools found step new_seqrec_def)
  note r7 = this
  let ?m6 = "?m5\<lparr>sr_lat_err := 0\<rparr>"
  have "frer_reach frer_ram stale demo_frer (?g\<lparr>sr_root := [?m6]\<rparr>)"
    by (rule rec_bool [OF r7, where v = 0 and k = 3 and fld = SEQREC_LAT_ERR and r = 0])
      (simp add: edgx_frer_seqrec_set_rbt_bool_def bools found step new_seqrec_def)
  moreover have "?m6 = demo_params" by (simp add: demo_params_def new_seqrec_def)
  moreover have "fr_io ?f2 = fr_io demo_frer" by (simp add: demo_unset_def)
  ultimately show thesis using io'(2) by (intro that [of io']) simp_all
qed


text \<open>A register that the device never changes by itself keeps its value through a wait.\<close>

lemma wait_clear_keeps:
  assumes "wait_clear dev busy io = Some io'" "\<forall>io. v (dev io) = v io"
  shows "v io' = v io"
proof -
  have "(\<forall>io. v (dev io) = v io) \<longrightarrow> v io' = v io"
  proof (rule wait_clear.raw_induct [where P = "\<lambda>dev busy io io'. (\<forall>io. v (dev io) = v io) \<longrightarrow> v io' = v io", OF _ assms(1)])
    fix wc :: "device \<Rightarrow> (iomem \<Rightarrow> bool) \<Rightarrow> iomem \<Rightarrow> iomem option" and dev busy io io'
    assume ih: "\<And>dev busy io io'. wc dev busy io = Some io' \<Longrightarrow> (\<forall>io. v (dev io) = v io) \<longrightarrow> v io' = v io"
      and r: "(let m' = dev io in if busy m' then wc dev busy m' else Some m') = Some io'"
    show "(\<forall>io. v (dev io) = v io) \<longrightarrow> v io' = v io"
    proof (cases "busy (dev io)")
      case True
      then show ?thesis using ih [of dev busy "dev io" io'] r by (simp add: Let_def)
    next
      case False
      then show ?thesis using r by (auto simp: Let_def)
    qed
  qed
  then show ?thesis using assms(2) by blast
qed

lemma ram_rows: "rows_kept frer_ram 0 (\<lambda>io. io SEQ_REC_TBL)"
  unfolding rows_kept_def
proof (intro conjI allI impI)
  fix io :: iomem and cmd :: u16 and io' :: iomem
  have d: "frer_ram io 0x318 = io 0x318" for io by (auto simp: frer_ram_def Let_def str_cell_def)
  assume "wait_clear frer_ram (\<lambda>io. edgx_rd16 io 0 STREAM_CMD AND 0x8000 \<noteq> 0) (edgx_wr16 io 0 STREAM_CMD cmd) = Some io'"
  from wait_clear_keeps [where v = "\<lambda>io. io 0x318", OF this] d show "io' SEQ_REC_TBL = io SEQ_REC_TBL" by (simp add: edgx_wr16_def)
next
  fix io :: iomem and t v
  show "edgx_wr16 io 0 (strtbl_reg t) v SEQ_REC_TBL = io SEQ_REC_TBL" by (cases t) (simp_all add: edgx_wr16_def)
qed

end
