(* ===== verification/FrerLost.thy ===== *)
theory FrerLost
  imports FrerFaults
begin

text \<open>
  Changes of the parameters of a recovery function that has been applied and has no stream: what the
  driver remembers, what the hardware gets, and when.
\<close>

unbundle bit_operations_syntax

section \<open>Requests\<close>

datatype rec_param =
  Set_Alg u32 | Set_Reset_Time u16 | Set_Hist_Len u8 | Set_Flag u8 seqrec_field | Set_Dir u8 | Add_Port nat

fun rec_set :: "device \<Rightarrow> rec_param \<Rightarrow> u16 \<Rightarrow> frer \<Rightarrow> (int \<times> frer) option" where
  "rec_set dev (Set_Alg a) = edgx_frer_seqrec_set_alg dev a"
| "rec_set dev (Set_Reset_Time t) = edgx_frer_seqrec_set_rrst dev t"
| "rec_set dev (Set_Hist_Len h) = edgx_frer_seqrec_set_histl dev h"
| "rec_set dev (Set_Flag v fld) = (\<lambda>k. edgx_frer_seqrec_set_rbt_bool dev v k fld)"
| "rec_set dev (Set_Dir d) = edgx_frer_seqrec_adddir dev d"
| "rec_set dev (Add_Port p) = edgx_frer_seqrec_addport dev p"

text \<open>
  Which values a function takes: individual recovery and the detection of latent errors exclude each
  other; and what the function shows afterwards.
\<close>

fun rec_accepts :: "rec_param \<Rightarrow> frer \<Rightarrow> seqrec \<Rightarrow> bool" where
  "rec_accepts (Set_Alg a) f n = (ucast a \<le> (1 :: u8))"
| "rec_accepts (Set_Reset_Time t) f n = (t \<le> seqrec_rst f ! 0)"
| "rec_accepts (Set_Hist_Len h) f n = (2 \<le> h \<and> h \<le> 15)"
| "rec_accepts (Set_Flag v fld) f n = (v \<le> 1 \<and> (case fld of SEQREC_NO_SEQ \<Rightarrow> True
     | SEQREC_IND_REC \<Rightarrow> v = 0 \<or> sr_lat_err n = 0 | SEQREC_LAT_ERR \<Rightarrow> v = 0 \<or> sr_ind_rec n = 0))"
| "rec_accepts (Set_Dir d) f n = (d = DIR_IN_FAC)"
| "rec_accepts (Add_Port p) f n = (p \<le> unat (edgx_br_get_num_ports (fr_io f) (fr_br f)))"

fun rec_value :: "rec_param \<Rightarrow> seqrec \<Rightarrow> seqrec" where
  "rec_value (Set_Alg a) = (\<lambda>n. n\<lparr>sr_alg := (if a = 0 then ALG_VECT else if a = 1 then ALG_MATCH else ALG_UNKNOWN)\<rparr>)"
| "rec_value (Set_Reset_Time t) = (\<lambda>n. n\<lparr>sr_rcv_rst := t\<rparr>)"
| "rec_value (Set_Hist_Len h) = (\<lambda>n. n\<lparr>sr_hist_len := h\<rparr>)"
| "rec_value (Set_Flag v SEQREC_NO_SEQ) = (\<lambda>n. n\<lparr>sr_take_no_seq := v\<rparr>)"
| "rec_value (Set_Flag v SEQREC_IND_REC) = (\<lambda>n. n\<lparr>sr_ind_rec := v\<rparr>)"
| "rec_value (Set_Flag v SEQREC_LAT_ERR) = (\<lambda>n. n\<lparr>sr_lat_err := v\<rparr>)"
| "rec_value (Set_Dir d) = (\<lambda>n. n\<lparr>sr_dir := d\<rparr>)"
| "rec_value (Add_Port p) = (\<lambda>n. n\<lparr>sr_ptmask := sr_ptmask n OR BIT p\<rparr>)"

lemma rec_set_def2:
  assumes "seqrec_fn_exists f k = Some n"
  shows "rec_set dev p k f = (if rec_accepts p f n then set_param dev (rec_value p) k f else Some (- EINVAL, f))"
proof (cases p)
  case (Set_Flag v fld)
  then show ?thesis using assms
    by (cases fld) (auto simp: edgx_frer_seqrec_set_rbt_bool_def seqrec_check_bool_def not_le [symmetric])
qed (use assms in \<open>auto simp: edgx_frer_seqrec_set_alg_def edgx_frer_seqrec_set_rrst_def edgx_frer_seqrec_set_histl_def
      edgx_frer_seqrec_adddir_def edgx_frer_seqrec_addport_def seqrec_check_alg_def seqrec_check_rcv_rst_def
      seqrec_check_histl_def seqrec_check_dir_def edgx_frer_check_port_def not_le [symmetric]\<close>)

lemma rec_set_reach: "frer_reach dev stale f0 f \<Longrightarrow> rec_set dev p k f = Some (r, f') \<Longrightarrow> frer_reach dev stale f0 f'"
  by (cases p) (auto intro: frer_reach.intros)

lemma rec_value_fields [simp]: "sr_fnidx (rec_value p n) = sr_fnidx n" "sr_list (rec_value p n) = sr_list n"
  "seqrec_cfg_applied (rec_value p n) = seqrec_cfg_applied n"
  by (induction p rule: rec_value.induct) simp_all

lemma rec_accepts_cong:
  "seqrec_rst f' = seqrec_rst f \<Longrightarrow> fr_io f' = fr_io f \<Longrightarrow> fr_br f' = fr_br f \<Longrightarrow> rec_accepts p f' n = rec_accepts p f n"
  by (cases p) simp_all

lemma upd_seqrec_search:
  assumes "sorted_wrt (<) (map sr_fnidx (sr_root f))" "seqrec_fn_exists f k = Some n"
  shows "seqrec_fn_exists (upd_seqrec k (rec_value p) f) k = Some (rec_value p n)"
  using sr.search_upd [OF assms(1), of "rec_value p"] assms by (simp add: seqrec_fn_exists_def)

section \<open>A sequence of changes\<close>

fun rec_changes :: "device \<Rightarrow> u16 \<Rightarrow> rec_param list \<Rightarrow> frer \<Rightarrow> (int list \<times> frer) option" where
  "rec_changes dev k [] f = Some ([], f)"
| "rec_changes dev k (p # ps) f = do {
     (r, f) \<leftarrow> rec_set dev p k f;
     (rs, f) \<leftarrow> rec_changes dev k ps f;
     Some (r # rs, f)
   }"

text \<open>The results of the changes, and what the function shows after them.\<close>

fun results :: "frer \<Rightarrow> rec_param list \<Rightarrow> seqrec \<Rightarrow> int list" where
  "results f [] n = []"
| "results f (p # ps) n = (if rec_accepts p f n then 0 # results f ps (rec_value p n) else - EINVAL # results f ps n)"

fun shown :: "frer \<Rightarrow> rec_param list \<Rightarrow> seqrec \<Rightarrow> seqrec" where
  "shown f [] n = n"
| "shown f (p # ps) n = shown f ps (if rec_accepts p f n then rec_value p n else n)"

lemma results_cong:
  assumes "seqrec_rst f' = seqrec_rst f" "fr_io f' = fr_io f" "fr_br f' = fr_br f"
  shows "results f' ps n = results f ps n" "shown f' ps n = shown f ps n"
  using rec_accepts_cong [OF assms] by (induction ps arbitrary: n) simp_all

lemma shown_fields [simp]: "sr_list (shown f ps n) = sr_list n" "seqrec_cfg_applied (shown f ps n) = seqrec_cfg_applied n"
  by (induction ps arbitrary: n) simp_all

lemma rec_set_quiet:
  assumes "sorted_wrt (<) (map sr_fnidx (sr_root f))" "seqrec_fn_exists f k = Some n" "sr_list n = []"
  shows "rec_set dev p k f = Some (if rec_accepts p f n then (0, upd_seqrec k (rec_value p) f) else (- EINVAL, f))"
proof (cases "rec_accepts p f n")
  case True
  have "seqrec_rbt_search (sr_root (upd_seqrec k (rec_value p) f)) k = Some (rec_value p n)"
    using upd_seqrec_search [OF assms(1,2)] by (simp add: seqrec_fn_exists_def)
  then have "edgx_frer_seqrec_apply dev k FRER_U16_INVALID False (upd_seqrec k (rec_value p) f) = Some (upd_seqrec k (rec_value p) f)"
    using assms(3) by (simp add: edgx_frer_seqrec_apply_def seqrec_all_set_def)
  then show ?thesis using True by (simp add: rec_set_def2 [OF assms(2)] set_param_def assms(2))
qed (simp add: rec_set_def2 [OF assms(2)])

lemma rec_changes_quiet:
  assumes c: "frer_contract dev base tab" "\<forall>s. \<not> bit (stale s) 14" "frer_inv tab base f0"
  shows "frer_reach dev stale f0 f \<Longrightarrow> seqrec_fn_exists f k = Some n \<Longrightarrow> sr_list n = [] \<Longrightarrow>
    \<exists>f1. rec_changes dev k ps f = Some (results f ps n, f1) \<and> frer_reach dev stale f0 f1
      \<and> seqrec_fn_exists f1 k = Some (shown f ps n) \<and> fr_io f1 = fr_io f \<and> streams_max f1 = streams_max f"
proof (induction ps arbitrary: f n)
  case Nil
  then show ?case by simp
next
  case (Cons p ps)
  have srt: "sorted_wrt (<) (map sr_fnidx (sr_root f))"
    using reach_inv [OF c Cons.prems(1)] by (simp add: frer_inv_def fn_wf_def)
  note q = rec_set_quiet [OF srt Cons.prems(2,3), of dev p]
  show ?case
  proof (cases "rec_accepts p f n")
    case False
    with q Cons.IH [OF Cons.prems] show ?thesis by auto
  next
    case True
    let ?f = "upd_seqrec k (rec_value p) f"
    have 1: "rec_set dev p k f = Some (0, ?f)" using q True by simp
    have cong: "seqrec_rst ?f = seqrec_rst f" "fr_io ?f = fr_io f" "fr_br ?f = fr_br f" "streams_max ?f = streams_max f"
      by (simp_all add: upd_seqrec_def)
    from Cons.IH [OF rec_set_reach [OF Cons.prems(1) 1] upd_seqrec_search [OF srt Cons.prems(2)]] Cons.prems(3) 1 True
    show ?thesis by (auto simp: results_cong [OF cong(1-3)] cong)
  qed
qed

section \<open>The next stream, and the next change\<close>

lemma add_stream_quiet:
  assumes c: "frer_contract dev base tab" and i: "frer_inv tab base f" and n: "seqrec_fn_exists f k = Some n" "sr_list n = []" "seqrec_cfg_applied n"
    and s: "s < streams_max f" "seqrec_all_set (n\<lparr>sr_list := [s]\<rparr>)"
    and free: "\<not> bit (tab (fr_io f) s FRER_TBL3) 15" and rows: "rows_kept dev base rows"
  shows "\<exists>f2. edgx_frer_seqrec_addstr dev True s k f = Some (0, f2) \<and> seqrec_fn_exists f2 k = Some (n\<lparr>sr_list := [s]\<rparr>)
    \<and> tab (fr_io f2) s FRER_TBL3 = k OR 0x8000 \<and> rows (fr_io f2) = rows (fr_io f)"
proof -
  have w: "fn_wf f" "reset_table f" "fr_iobase f = base" using i by (simp_all add: frer_inv_def)
  have n': "seqrec_rbt_search (sr_root f) k = Some n" using n(1) by (simp add: seqrec_fn_exists_def)
  have srt: "sorted_wrt (<) (map sr_fnidx (sr_root f))" using w(1) by (simp add: fn_wf_def)
  have ok: "rcv_ok (seqrec_rst f) n" using w(1) sr_node(4) [OF w(1) n'] by (simp add: fn_wf_def)
  let ?n2 = "n\<lparr>sr_list := [s]\<rparr>"
  let ?f2 = "upd_seqrec k (\<lambda>_. ?n2) f"
  have key: "sr_fnidx n = k" using sr_node(1) [OF w(1) n'] .
  have "upd_node sr_fnidx k (\<lambda>_. ?n2) (sr_root f) = upd_node sr_fnidx k (\<lambda>m. ?n2\<lparr>sr_fnidx := sr_fnidx m\<rparr>) (sr_root f)"
    using key by (auto simp: upd_node_def)
  then have u: "sr_root ?f2 = upd_node sr_fnidx k (\<lambda>m. ?n2\<lparr>sr_fnidx := sr_fnidx m\<rparr>) (sr_root f)" by (simp add: upd_seqrec_def)
  have s2: "seqrec_rbt_search (sr_root ?f2) k = Some ?n2"
    unfolding u using sr.search_upd [OF srt, of "\<lambda>m. ?n2\<lparr>sr_fnidx := sr_fnidx m\<rparr>"] n' key by simp
  have io: "fr_io ?f2 = fr_io f" by (simp add: upd_seqrec_def)
  have "frer_contract dev (fr_iobase ?f2) tab" using c w(3) by simp
  moreover have "s < 0x1000" using small_handle [OF w(1) s(1)] by simp
  moreover have "reset_table ?f2" "rcv_ok (seqrec_rst ?f2) ?n2" using w(2) ok by (simp_all add: rcv_ok_def)
  moreover have "seqrec_all_set ?n2" "seqrec_cfg_applied ?n2" using s(2) n(3) by simp_all
  moreover have "\<not> bit (tab (fr_io ?f2) s FRER_TBL3) 15" using free by (simp add: io)
  ultimately obtain f3 where f3: "edgx_frer_seqrec_apply dev k s False ?f2 = Some f3" "sr_root f3 = sr_root ?f2"
    "tab (fr_io f3) = (tab (fr_io ?f2))(s := (tab (fr_io ?f2) s)(FRER_TBL3 := k OR 0x8000))"
    "rows_kept dev (fr_iobase ?f2) rows \<longrightarrow> rows (fr_io f3) = rows (fr_io ?f2)"
    using apply_stream_only [of dev ?f2 tab s ?n2 k rows] s2 by blast
  have "edgx_frer_seqrec_addstr dev True s k f = Some (0, f3)"
    using f3(1) n' n(2) s(1) by (simp add: edgx_frer_seqrec_addstr_def edgx_frer_check_strhdl_def seqrec_list_entry_exists_def seqrec_list_add_def)
  moreover have "seqrec_fn_exists f3 k = Some ?n2" using s2 f3(2) by (simp add: seqrec_fn_exists_def)
  moreover have "rows (fr_io f3) = rows (fr_io f)" using f3(4) rows w(3) by (simp add: io)
  ultimately show ?thesis using f3(3) by auto
qed

lemma late_change:
  assumes c: "frer_contract dev base tab" and i: "frer_inv tab base f" and n: "seqrec_fn_exists f k = Some n" "seqrec_all_set n" "seqrec_cfg_applied n"
    and p: "rec_accepts p f n" "seqrec_all_set (rec_value p n)"
  shows "\<exists>a f'. first_bigger f (sr_rcv_rst (rec_value p n)) = Some a \<and> rec_set dev p k f = Some (0, f')
    \<and> edgx_frer_ip_wr_seqrectbl dev k (seqrec_calc_cfg_val (rec_value p n) a) (upd_seqrec k (rec_value p) f) = Some f'"
proof -
  have w: "fn_wf f" "reset_table f" "fr_iobase f = base" using i by (simp_all add: frer_inv_def)
  have n': "seqrec_rbt_search (sr_root f) k = Some n" using n(1) by (simp add: seqrec_fn_exists_def)
  have srt: "sorted_wrt (<) (map sr_fnidx (sr_root f))" using w(1) by (simp add: fn_wf_def)
  have ok: "rcv_ok (seqrec_rst f) n" using w(1) sr_node(4) [OF w(1) n'] by (simp add: fn_wf_def)
  have ok': "rcv_ok (seqrec_rst f) (rec_value p n)"
    using p(1) ok by (induction p rule: rec_value.induct) (simp_all add: rcv_ok_def)
  let ?f = "upd_seqrec k (rec_value p) f" and ?n = "rec_value p n"
  have "sr_rcv_rst ?n \<noteq> FRER_U16_INVALID" using p(2) by (simp add: seqrec_all_set_def)
  then obtain a where a: "first_bigger f (sr_rcv_rst ?n) = Some a" using first_bigger_unset [OF w(2) ok'] by auto
  have a': "first_bigger ?f (sr_rcv_rst ?n) = Some a" using a by (simp add: first_bigger_def upd_seqrec_def)
  obtain io' where io': "edgx_frer_ip_wr_seqrectbl dev k (seqrec_calc_cfg_val ?n a) ?f = Some (?f\<lparr>fr_io := io'\<rparr>)"
    by (rule wr_seqrecD [of dev ?f tab k]) (use c w(3) sr_node(2) [OF w(1) n'] in \<open>simp_all add: upd_seqrec_def\<close>)
  have "seqrec_rbt_search (sr_root ?f) k = Some ?n"
    using upd_seqrec_search [OF srt n(1)] by (simp add: seqrec_fn_exists_def)
  then have "edgx_frer_seqrec_apply dev k FRER_U16_INVALID False ?f = Some (?f\<lparr>fr_io := io'\<rparr>)"
    using p(2) n(3) a' io' by (simp add: edgx_frer_seqrec_apply_def Let_def)
  then have "rec_set dev p k f = Some (0, ?f\<lparr>fr_io := io'\<rparr>)"
    using p(1) by (simp add: rec_set_def2 [OF n(1)] set_param_def n(1))
  then show ?thesis using a io' by blast
qed

text \<open>
  Property C32. The parameters of a recovery function that are changed while the function has been
  applied and has no stream are lost for the hardware, for the time being. Any sequence of such changes
  is answered as usual (success for a value that the function takes, -EINVAL for another), the function
  shows the new values, and no register is written. When the function then gets a stream, the stream is
  enabled for the function, and the row of the function still has its old configuration. What brings the
  new values to the row is a further change of a parameter: the next one that the function takes while
  it has the stream writes the whole configuration. Stated for a function whose parameters are all
  set, for a stream that no function has, and for every view \<open>rows\<close> of the registers that the commands
  of the stream table leave alone, such as the recovery table.
\<close>

theorem parameter_changes_without_streams_lost:
  assumes c: "frer_contract dev (fr_iobase f0) tab" "frer_start tab io f0" "\<forall>s. \<not> bit (stale s) 14"
    and r: "frer_reach dev stale f0 f" and n: "seqrec_fn_exists f k = Some n" "sr_list n = []" "seqrec_cfg_applied n"
    and n2: "n2 = (shown f ps n)\<lparr>sr_list := [s]\<rparr>" "seqrec_all_set n2" and s: "s < streams_max f"
    and free: "\<not> bit (tab (fr_io f) s FRER_TBL3) 15" and rows: "rows_kept dev (fr_iobase f) rows"
  shows "\<exists>f1 f2. rec_changes dev k ps f = Some (results f ps n, f1)
    \<and> seqrec_fn_exists f1 k = Some (shown f ps n) \<and> fr_io f1 = fr_io f
    \<and> edgx_frer_seqrec_addstr dev True s k f1 = Some (0, f2) \<and> seqrec_fn_exists f2 k = Some n2
    \<and> tab (fr_io f2) s FRER_TBL3 = k OR 0x8000 \<and> rows (fr_io f2) = rows (fr_io f)
    \<and> (\<forall>p. rec_accepts p f2 n2 \<and> seqrec_all_set (rec_value p n2) \<longrightarrow>
          (\<exists>a f3. first_bigger f2 (sr_rcv_rst (rec_value p n2)) = Some a \<and> rec_set dev p k f2 = Some (0, f3)
             \<and> edgx_frer_ip_wr_seqrectbl dev k (seqrec_calc_cfg_val (rec_value p n2) a) (upd_seqrec k (rec_value p) f2) = Some f3))"
proof -
  note start = start_inv [OF c(2)]
  note inv = reach_inv [OF c(1,3) start]
  obtain f1 where f1: "rec_changes dev k ps f = Some (results f ps n, f1)" "frer_reach dev stale f0 f1"
    "seqrec_fn_exists f1 k = Some (shown f ps n)" "fr_io f1 = fr_io f" "streams_max f1 = streams_max f"
    using rec_changes_quiet [OF c(1,3) start r n(1,2)] by blast
  have b: "fr_iobase f = fr_iobase f0" using inv [OF r] by (simp add: frer_inv_def)
  have l: "sr_list (shown f ps n) = []" "seqrec_cfg_applied (shown f ps n)" using n by simp_all
  obtain f2 where f2: "edgx_frer_seqrec_addstr dev True s k f1 = Some (0, f2)" "seqrec_fn_exists f2 k = Some n2"
    "tab (fr_io f2) s FRER_TBL3 = k OR 0x8000" "rows (fr_io f2) = rows (fr_io f1)"
    using add_stream_quiet [OF c(1) inv [OF f1(2)] f1(3) l, of s rows] s n2 free rows b f1(4,5) by auto
  have a: "seqrec_cfg_applied n2" using l(2) by (simp add: n2(1))
  note late = late_change [OF c(1) inv [OF rec_addstr [OF f1(2) f2(1)]] f2(2) n2(2) a]
  show ?thesis
    by (rule exI [of _ f1], rule exI [of _ f2]) (use f1 f2 late in simp)
qed

text \<open>A history length of nine and the matching algorithm; a history length of one is refused.\<close>

definition demo_changes :: "rec_param list" where
  "demo_changes = [Set_Hist_Len 9, Set_Hist_Len 1, Set_Alg 1]"

theorem parameter_changes_without_streams_lost_witness:
  "\<exists>f f1 f2. frer_reach frer_ram (\<lambda>s. s AND 0xFFF) demo_frer f
     \<and> rec_changes frer_ram 3 demo_changes f = Some ([0, - EINVAL, 0], f1) \<and> edgx_frer_seqrec_addstr frer_ram True 6 3 f1 = Some (0, f2)
     \<and> map_option sr_hist_len (seqrec_fn_exists f2 3) = Some 9 \<and> map_option sr_alg (seqrec_fn_exists f2 3) = Some ALG_MATCH
     \<and> fr_io f2 SEQ_REC_TBL = fr_io f SEQ_REC_TBL"
proof -
  let ?st = "\<lambda>s. s AND 0xFFF :: u16"
  have c: "frer_contract frer_ram (fr_iobase demo_frer) frer_cells" using frer_ram_contract by (simp add: demo_frer_limits)
  have st: "\<forall>s. \<not> bit (?st s) 14" using and_0xFFF_bit by blast
  obtain io' where io': "frer_reach frer_ram ?st demo_frer (demo_unset\<lparr>fr_io := io', sr_root := [demo_params]\<rparr>)"
    "frer_cells io' = frer_cells (fr_io demo_frer)" by (rule demo_params_reach)
  let ?f = "demo_unset\<lparr>fr_io := io', sr_root := [demo_params]\<rparr>"
  have n: "seqrec_fn_exists ?f 3 = Some demo_params" by (simp add: seqrec_fn_exists_def seqrec_rbt_search_def demo_params_def)
  have lim: "6 < streams_max ?f" "fr_iobase ?f = 0" by (simp_all add: demo_unset_def demo_frer_limits word_less_nat_alt)
  have "fr_io demo_frer = demo_frer_io"
  proof -
    obtain n where "edgx_brfdb_sid_get_max_str demo_frer_fdb demo_frer_io = Some n"
      using demo_frer_probe by (auto simp: edgx_probe_frer_def bind_eq_Some)
    then show ?thesis by (simp add: demo_frer_def edgx_probe_frer_def calc_rcv_rst_def Let_def)
  qed
  then have "frer_cells io' 6 FRER_TBL3 = 0" by (simp add: io'(2) frer_cells_def str_cell_def demo_frer_io_def)
  then have free: "\<not> bit (frer_cells (fr_io ?f) 6 FRER_TBL3) 15" by simp
  have rows: "rows_kept frer_ram (fr_iobase ?f) (\<lambda>io. io SEQ_REC_TBL)" using ram_rows by (simp add: lim)
  have p: "sr_list demo_params = []" "seqrec_cfg_applied demo_params" by (simp_all add: demo_params_def)
  have sh: "shown ?f demo_changes demo_params = demo_params\<lparr>sr_hist_len := 9, sr_alg := ALG_MATCH\<rparr>"
    "results ?f demo_changes demo_params = [0, - EINVAL, 0]"
    by (simp_all add: demo_changes_def word_le_nat_alt)
  let ?n2 = "(shown ?f demo_changes demo_params)\<lparr>sr_list := [6]\<rparr>"
  have all: "seqrec_all_set ?n2" by (simp add: sh(1)) (simp add: seqrec_all_set_def demo_params_def)
  obtain f1 f2 where
    "rec_changes frer_ram 3 demo_changes ?f = Some (results ?f demo_changes demo_params, f1)" "edgx_frer_seqrec_addstr frer_ram True 6 3 f1 = Some (0, f2)"
    "seqrec_fn_exists f2 3 = Some ?n2" "fr_io f2 SEQ_REC_TBL = fr_io ?f SEQ_REC_TBL"
    using parameter_changes_without_streams_lost [OF c demo_frer_start st io'(1) n p refl all lim(1) free rows] by blast
  then show ?thesis using io'(1) by (intro exI [of _ ?f] exI [of _ f1] exI [of _ f2]) (simp add: sh)
qed

end
