(* ===== verification/BrSid2.thy ===== *)
theory BrSid2
  imports Frer BrFdb
begin

text \<open>
  The stream identification of \<open>edge_br_sid2.c\<close>, the variant with a table of its own. Every
  identification has a number (its ordinal), which orders it; identifications with the same tag, VLAN
  and address share one row of a hash table, whose words give the stream handle of every port. Three
  trees hold the ordinals, the keys of the identifications, and the occupied rows. A pointer to a node
  of a tree is the key of the node. Variables that say whether there is memory end in \<open>ok\<close>.
\<close>

unbundle bit_operations_syntax

section \<open>Data\<close>

abbreviation (input) SID_TAGGED :: u32 where "SID_TAGGED \<equiv> 1"
abbreviation (input) SID_PRIORITY :: u32 where "SID_PRIORITY \<equiv> 2"
abbreviation (input) SID_ALL :: u32 where "SID_ALL \<equiv> 3"
abbreviation (input) OUT_FAC_IN :: u32 where "OUT_FAC_IN \<equiv> 3"
abbreviation (input) SID_NULL :: u32 where "SID_NULL \<equiv> 1"
abbreviation (input) SID_INVALID_STRHDL :: u16 where "SID_INVALID_STRHDL \<equiv> 0xFFFF"
abbreviation (input) SID_TAB_INVALID :: u16 where "SID_TAB_INVALID \<equiv> 0xFFFF"
abbreviation (input) SID_MAX_NPORTS :: nat where "SID_MAX_NPORTS \<equiv> 12"
abbreviation (input) SID_MAX_ORD :: int where "SID_MAX_ORD \<equiv> 0xFFFF"
abbreviation (input) EEXIST :: int where "EEXIST \<equiv> 17"
abbreviation (input) ENOSPC :: int where "ENOSPC \<equiv> 28"

record port_pos =
  pp_port :: u16
  pp_pos :: u32

record ident_params =
  ip_addr :: "u8 list"
  ip_tag :: u32
  ip_vid :: u16
  ip_id_type :: u32
  ip_str_hdl :: u16

record port_list =
  in_fac_out :: u16
  out_fac_out :: u16
  in_fac_in :: u16
  out_fac_in :: u16

record sid_tab_entry =
  te_used :: bool
  te_match_vlan :: bool
  te_mac :: "u8 list"
  te_vid :: u16
  te_str_hdl :: "u16 list"

record sid_tmvt_o_entry =
  to_key :: u64
  to_str_hdl :: u16
  to_port_mask :: u32

record sid_tmvt_entry =
  tm_key :: u64
  tm_addr :: "u8 list"
  tm_tag :: u32
  tm_vid :: u16
  tm_o_root :: "sid_tmvt_o_entry list"
  tm_ht0 :: "u64 option"
  tm_ht1 :: "u64 option"

record sid_o_entry =
  o_key :: u64
  o_ord :: u16
  o_tmvt :: u64

record sid_ht_entry =
  ht_key :: u64
  ht_tmvt :: u64
  ht_used :: bool

record edgx_sid2_br =
  s2_parent :: edgx_br
  tab_iobase :: nat
  counter_iobase :: nat
  s2_max_streams :: u16
  s2_total_cnt :: u32
  rb_o_root :: "sid_o_entry list"
  rb_tmvt_root :: "sid_tmvt_entry list"
  rb_ht_root :: "sid_ht_entry list"
  tab_row_cnt :: u16
  port_cnt :: nat
  s2_sup_port_mask :: u16
  s2_io :: iomem

section \<open>Trees\<close>

fun sid_rb_search :: "('n \<Rightarrow> u64) \<Rightarrow> 'n list \<Rightarrow> u64 \<Rightarrow> 'n option" where
  "sid_rb_search key [] k = None"
| "sid_rb_search key (n # ns) k =
     (if k < key n then None else if k > key n then sid_rb_search key ns k else Some n)"

fun sid_rb_insert :: "('n \<Rightarrow> u64) \<Rightarrow> 'n list \<Rightarrow> 'n \<Rightarrow> int \<times> 'n list" where
  "sid_rb_insert key [] new = (0, [new])"
| "sid_rb_insert key (n # ns) new =
     (if key new < key n then (0, new # n # ns)
      else if key new > key n then (let (ret, ns') = sid_rb_insert key ns new in (ret, n # ns'))
      else (- EEXIST, n # ns))"

definition sid_del_entry :: "('n \<Rightarrow> u64) \<Rightarrow> 'n list \<Rightarrow> u64 \<Rightarrow> 'n list" where
  "sid_del_entry key ns k = rb_erase key k ns"

definition upd_tmvt :: "u64 \<Rightarrow> (sid_tmvt_entry \<Rightarrow> sid_tmvt_entry) \<Rightarrow> edgx_sid2_br \<Rightarrow> edgx_sid2_br" where
  "upd_tmvt k u s = s\<lparr>rb_tmvt_root := upd_node tm_key k u (rb_tmvt_root s)\<rparr>"

definition upd_ht :: "u64 \<Rightarrow> (sid_ht_entry \<Rightarrow> sid_ht_entry) \<Rightarrow> edgx_sid2_br \<Rightarrow> edgx_sid2_br" where
  "upd_ht k u s = s\<lparr>rb_ht_root := upd_node ht_key k u (rb_ht_root s)\<rparr>"

section \<open>Hardware table\<close>

definition edgx_sid_get_match_vlan :: "u32 \<Rightarrow> u16 \<Rightarrow> bool" where
  "edgx_sid_get_match_vlan tag vl \<longleftrightarrow> tag = SID_TAGGED \<and> vl \<noteq> 0"

definition edgx_sid_calc_tab_rows :: "edgx_sid2_br \<Rightarrow> u8 list \<Rightarrow> u32 \<Rightarrow> u16 \<Rightarrow> bool \<Rightarrow> u16 list" where
  "edgx_sid_calc_tab_rows s m tag vl use_src_match =
     (let crc = fold crc_byte (take 6 m) (NOT 0);
          tagged = (if tag = SID_TAGGED then 0x20 else 0 :: u64);
          srcdst = (if use_src_match then 0x40 else 0 :: u64);
          crc = crc AND 0xffffffffff;
          extra = push_bit 10 (ucast ((m ! 3 XOR m ! 4) AND 3) :: u64);
          hash = extra OR (crc AND 0x3ff);
          hash = hash OR push_bit 16 (extra OR (drop_bit 10 crc AND 0x3ff));
          hash = hash OR push_bit 32 (extra OR (drop_bit 20 crc AND 0x3ff));
          hash = hash OR push_bit 48 (extra OR (drop_bit 30 crc AND 0x3ff));
          hash = hash XOR (push_bit 16 (ucast vl) OR ucast vl);
          hash = hash XOR (push_bit 48 tagged OR push_bit 32 tagged OR push_bit 16 tagged OR tagged);
          hash = hash XOR (push_bit 48 srcdst OR push_bit 32 srcdst OR push_bit 16 srcdst OR srcdst);
          msk = (ucast (tab_row_cnt s) :: u64) - 1
      in [if edgx_sid_get_match_vlan tag vl then ucast (hash AND msk) else SID_TAB_INVALID,
          if edgx_sid_get_match_vlan tag vl then ucast (drop_bit 16 hash AND msk) else SID_TAB_INVALID,
          ucast (drop_bit 32 hash AND msk), ucast (drop_bit 48 hash AND msk)])"

definition SID_CTL_POS :: "u16 \<Rightarrow> u16 \<Rightarrow> u16" where
  "SID_CTL_POS row col = push_bit 12 (col AND 3) OR (row AND 0xFFF)"

definition sid_tab_busy :: "nat \<Rightarrow> iomem \<Rightarrow> bool" where
  "sid_tab_busy base io \<longleftrightarrow> edgx_rd16 io base 0x280 AND 0x8000 \<noteq> 0"

definition edgx_sid_tab_get :: "device \<Rightarrow> u16 \<Rightarrow> u16 \<Rightarrow> edgx_sid2_br \<Rightarrow> (sid_tab_entry \<times> edgx_sid2_br) option" where
  "edgx_sid_tab_get dev col row s = do {
     let base = tab_iobase s;
     io \<leftarrow> wait_clear dev (sid_tab_busy base) (edgx_wr16 (s2_io s) base 0x280 (0x8000 OR SID_CTL_POS row col));
     let gen = edgx_rd16 io base 0x290;
     Some (\<lparr>te_used = (gen AND 1 \<noteq> 0), te_match_vlan = (gen AND 2 \<noteq> 0),
            te_mac = mac_bytes (edgx_rd16 io base 0x292) (edgx_rd16 io base 0x294) (edgx_rd16 io base 0x296),
            te_vid = edgx_rd16 io base 0x298,
            te_str_hdl = map (\<lambda>i. if i < port_cnt s then edgx_rd16 io base (0x29a + i * 2) else 0) [0..<SID_MAX_NPORTS]\<rparr>,
           s\<lparr>s2_io := io\<rparr>)
   }"

definition edgx_sid_tab_set :: "device \<Rightarrow> u16 \<Rightarrow> u16 \<Rightarrow> sid_tab_entry \<Rightarrow> edgx_sid2_br \<Rightarrow> edgx_sid2_br option" where
  "edgx_sid_tab_set dev col row e s = do {
     let base = tab_iobase s;
     let io = edgx_wr16 (s2_io s) base 0x290 ((if te_used e then 1 else 0) OR (if te_match_vlan e then 2 else 0));
     let io = edgx_wr16 io base 0x292 (mac16 (te_mac e) 0);
     let io = edgx_wr16 io base 0x294 (mac16 (te_mac e) 1);
     let io = edgx_wr16 io base 0x296 (mac16 (te_mac e) 2);
     let io = edgx_wr16 io base 0x298 (te_vid e);
     let io = fold (\<lambda>i io. edgx_wr16 io base (0x29a + i * 2) (te_str_hdl e ! i)) [0..<port_cnt s] io;
     io \<leftarrow> wait_clear dev (sid_tab_busy base) (edgx_wr16 io base 0x280 (0xC000 OR SID_CTL_POS row col));
     Some (s\<lparr>s2_io := io\<rparr>)
   }"

text \<open>The dump for debugging reads the whole table, row by row.\<close>

fun tab_get_all :: "device \<Rightarrow> (nat \<times> nat) list \<Rightarrow> edgx_sid2_br \<Rightarrow> edgx_sid2_br option" where
  "tab_get_all dev [] s = Some s"
| "tab_get_all dev ((row, col) # ps) s = do {
     (_, s) \<leftarrow> edgx_sid_tab_get dev (of_nat col) (of_nat row) s;
     tab_get_all dev ps s
   }"

definition sid_dump :: "device \<Rightarrow> edgx_sid2_br \<Rightarrow> edgx_sid2_br option" where
  "sid_dump dev s = tab_get_all dev (List.product [0..<unat (tab_row_cnt s)] [0..<4]) s"

section \<open>Keys\<close>

text \<open>The key of an identification keeps the low bits of the tag and of the VLAN.\<close>

definition params_to_tmvt_key :: "ident_params \<Rightarrow> u64" where
  "params_to_tmvt_key p =
     push_bit 56 (ucast (ip_addr p ! 0)) OR push_bit 48 (ucast (ip_addr p ! 1)) OR push_bit 40 (ucast (ip_addr p ! 2))
     OR push_bit 32 (ucast (ip_addr p ! 3)) OR push_bit 24 (ucast (ip_addr p ! 4)) OR push_bit 16 (ucast (ip_addr p ! 5))
     OR push_bit 14 (ucast (ip_tag p AND 3)) OR ucast (ip_vid p AND 0x3fff)"

definition sid_ht_get_key :: "u16 \<Rightarrow> u8 \<Rightarrow> u64" where
  "sid_ht_get_key row col = push_bit 8 (ucast row) OR ucast col"

definition sid_ht_get_row :: "sid_ht_entry \<Rightarrow> u16" where
  "sid_ht_get_row h = ucast (drop_bit 8 (ht_key h))"

definition sid_ht_get_col :: "sid_ht_entry \<Rightarrow> u8" where
  "sid_ht_get_col h = ucast (ht_key h AND 0xff)"

section \<open>Rows\<close>

text \<open>The first column, in order, whose row exists and is free.\<close>

definition sid_ht_free_col :: "u16 list \<Rightarrow> sid_ht_entry list \<Rightarrow> nat option" where
  "sid_ht_free_col rows hts =
     find_idx (\<lambda>i. rows ! i \<noteq> SID_TAB_INVALID \<and> sid_rb_search ht_key hts (sid_ht_get_key (rows ! i) (of_nat i)) = None) [0..<4]"

definition sid_ht_create :: "bool \<Rightarrow> u64 \<Rightarrow> u8 list \<Rightarrow> u16 \<Rightarrow> u32 \<Rightarrow> edgx_sid2_br \<Rightarrow> int \<times> u64 option \<times> edgx_sid2_br" where
  "sid_ht_create ok tmvt addr vl sub_tag s =
     (let rows = edgx_sid_calc_tab_rows s addr sub_tag vl False
      in case sid_ht_free_col rows (rb_ht_root s) of
           None \<Rightarrow> (- ENOSPC, None, s)
         | Some i \<Rightarrow>
             if \<not> ok then (- ENOMEM, None, s)
             else let k = sid_ht_get_key (rows ! i) (of_nat i);
                      (ret, hts) = sid_rb_insert ht_key (rb_ht_root s) \<lparr>ht_key = k, ht_tmvt = tmvt, ht_used = False\<rparr>
                  in if ret \<noteq> 0 then (ret, None, s) else (0, Some k, s\<lparr>rb_ht_root := hts\<rparr>))"

definition empty_tab_entry :: sid_tab_entry where
  "empty_tab_entry = \<lparr>te_used = False, te_match_vlan = False, te_mac = replicate 6 0, te_vid = 0, te_str_hdl = replicate 12 0\<rparr>"

definition sid_ht_deactivate :: "device \<Rightarrow> u64 \<Rightarrow> edgx_sid2_br \<Rightarrow> edgx_sid2_br option" where
  "sid_ht_deactivate dev k s = do {
     h \<leftarrow> sid_rb_search ht_key (rb_ht_root s) k;
     if \<not> ht_used h then Some s
     else do {
       s \<leftarrow> edgx_sid_tab_set dev (ucast (sid_ht_get_col h)) (sid_ht_get_row h) empty_tab_entry s;
       Some (upd_ht k (\<lambda>h. h\<lparr>ht_used := False\<rparr>) s)
     }
   }"

definition sid_ht_activate :: "device \<Rightarrow> u64 \<Rightarrow> u32 \<Rightarrow> sid_tab_entry \<Rightarrow> edgx_sid2_br \<Rightarrow> edgx_sid2_br option" where
  "sid_ht_activate dev k tag e s = do {
     h \<leftarrow> sid_rb_search ht_key (rb_ht_root s) k;
     t \<leftarrow> sid_rb_search tm_key (rb_tmvt_root s) (ht_tmvt h);
     let e = e\<lparr>te_used := True, te_vid := tm_vid t, te_mac := tm_addr t, te_match_vlan := edgx_sid_get_match_vlan tag (tm_vid t)\<rparr>;
     s \<leftarrow> edgx_sid_tab_set dev (ucast (sid_ht_get_col h)) (sid_ht_get_row h) e s;
     Some (upd_ht k (\<lambda>h. h\<lparr>ht_used := True\<rparr>) s)
   }"

definition sid_ht_release :: "device \<Rightarrow> u64 \<Rightarrow> edgx_sid2_br \<Rightarrow> edgx_sid2_br option" where
  "sid_ht_release dev k s = do {
     h \<leftarrow> sid_rb_search ht_key (rb_ht_root s) k;
     s \<leftarrow> (if ht_used h then sid_ht_deactivate dev k s else Some s);
     Some (s\<lparr>rb_ht_root := sid_del_entry ht_key (rb_ht_root s) k\<rparr>)
   }"

text \<open>Release of a row that may be missing.\<close>

definition release_opt :: "device \<Rightarrow> u64 option \<Rightarrow> edgx_sid2_br \<Rightarrow> edgx_sid2_br option" where
  "release_opt dev k s = (case k of None \<Rightarrow> Some s | Some k \<Rightarrow> sid_ht_release dev k s)"

section \<open>Identifications\<close>

definition sid_tmvt_create ::
    "device \<Rightarrow> bool \<Rightarrow> bool \<Rightarrow> bool \<Rightarrow> u64 \<Rightarrow> u32 \<Rightarrow> u16 \<Rightarrow> u8 list \<Rightarrow> edgx_sid2_br \<Rightarrow> (int \<times> edgx_sid2_br) option" where
  "sid_tmvt_create dev tm_ok h0_ok h1_ok k tag vl addr s =
     (if \<not> tm_ok then Some (- ENOMEM, s)
      else do {
        let (ret, k0, s) = sid_ht_create h0_ok k addr vl (if tag = SID_ALL then SID_TAGGED else tag) s;
        if ret \<noteq> 0 then Some (ret, s)
        else do {
          let (ret, k1, s) = (if tag = SID_ALL then sid_ht_create h1_ok k addr vl SID_PRIORITY s else (0, None, s));
          let (ret, ns) = (if ret \<noteq> 0 then (ret, rb_tmvt_root s)
            else sid_rb_insert tm_key (rb_tmvt_root s)
              \<lparr>tm_key = k, tm_addr = addr, tm_tag = tag, tm_vid = vl, tm_o_root = [], tm_ht0 = k0, tm_ht1 = k1\<rparr>);
          if ret \<noteq> 0 then do {
            s \<leftarrow> release_opt dev k1 s;
            s \<leftarrow> release_opt dev k0 s;
            Some (ret, s)
          } else Some (0, s\<lparr>rb_tmvt_root := ns\<rparr>)
        }
      })"

definition sid_tmvt_release :: "device \<Rightarrow> u64 \<Rightarrow> edgx_sid2_br \<Rightarrow> edgx_sid2_br option" where
  "sid_tmvt_release dev k s = do {
     t \<leftarrow> sid_rb_search tm_key (rb_tmvt_root s) k;
     s \<leftarrow> release_opt dev (tm_ht1 t) s;
     s \<leftarrow> release_opt dev (tm_ht0 t) s;
     Some (s\<lparr>rb_tmvt_root := sid_del_entry tm_key (rb_tmvt_root s) k\<rparr>)
   }"

definition sid_tmvt_is_empty :: "sid_tmvt_entry \<Rightarrow> bool" where
  "sid_tmvt_is_empty t \<longleftrightarrow> tm_o_root t = []"

text \<open>The handles of the ports: from the last ordinal to the first, so that the first one counts.\<close>

definition put_hdls :: "nat \<Rightarrow> sid_tmvt_o_entry \<Rightarrow> u16 list \<times> bool \<Rightarrow> u16 list \<times> bool" where
  "put_hdls n toe r =
     (if to_port_mask toe \<noteq> 0 \<and> to_str_hdl toe \<noteq> SID_INVALID_STRHDL
      then fold (\<lambda>i (hs, found). if to_port_mask toe AND BIT (i + 1) \<noteq> 0 then (hs[i := to_str_hdl toe], True) else (hs, found)) [0..<n] r
      else r)"

definition gen_hdls :: "nat \<Rightarrow> sid_tmvt_o_entry list \<Rightarrow> u16 list \<times> bool" where
  "gen_hdls n toes = foldr (put_hdls n) toes (replicate SID_MAX_NPORTS 0, False)"

definition sid_gen_port_str_hdls :: "device \<Rightarrow> u64 \<Rightarrow> edgx_sid2_br \<Rightarrow> edgx_sid2_br option" where
  "sid_gen_port_str_hdls dev k s = do {
     t \<leftarrow> sid_rb_search tm_key (rb_tmvt_root s) k;
     let (hs, str_hdl_found) = gen_hdls (port_cnt s) (tm_o_root t);
     let e = empty_tab_entry\<lparr>te_str_hdl := hs\<rparr>;
     k0 \<leftarrow> tm_ht0 t;
     if str_hdl_found then
       (if tm_tag t = SID_ALL then do {
          s \<leftarrow> sid_ht_activate dev k0 SID_TAGGED e s;
          k1 \<leftarrow> tm_ht1 t;
          sid_ht_activate dev k1 SID_PRIORITY e s
        } else sid_ht_activate dev k0 (tm_tag t) e s)
     else do {
       s \<leftarrow> sid_ht_deactivate dev k0 s;
       if tm_tag t = SID_ALL then do { k1 \<leftarrow> tm_ht1 t; sid_ht_deactivate dev k1 s } else Some s
     }
   }"

section \<open>Ordinals\<close>

definition sid_o_create :: "bool \<Rightarrow> bool \<Rightarrow> u16 \<Rightarrow> u64 \<Rightarrow> edgx_sid2_br \<Rightarrow> (int \<times> edgx_sid2_br) option" where
  "sid_o_create o_ok to_ok ord tmvt s =
     (if \<not> o_ok \<or> \<not> to_ok then Some (- ENOMEM, s)
      else do {
        let (ret, os) = sid_rb_insert o_key (rb_o_root s) \<lparr>o_key = ucast ord, o_ord = ord, o_tmvt = tmvt\<rparr>;
        if ret \<noteq> 0 then Some (ret, s)
        else do {
          t \<leftarrow> sid_rb_search tm_key (rb_tmvt_root s) tmvt;
          let (ret, tos) = sid_rb_insert to_key (tm_o_root t) \<lparr>to_key = ucast ord, to_str_hdl = SID_INVALID_STRHDL, to_port_mask = 0\<rparr>;
          if ret \<noteq> 0 then Some (ret, s\<lparr>rb_o_root := sid_del_entry o_key os (ucast ord)\<rparr>)
          else Some (0, upd_tmvt tmvt (\<lambda>t. t\<lparr>tm_o_root := tos\<rparr>) (s\<lparr>rb_o_root := os, s2_total_cnt := s2_total_cnt s + 1\<rparr>))
        }
      })"

definition sid_o_release :: "sid_o_entry \<Rightarrow> edgx_sid2_br \<Rightarrow> edgx_sid2_br" where
  "sid_o_release oe s =
     upd_tmvt (o_tmvt oe) (\<lambda>t. t\<lparr>tm_o_root := sid_del_entry to_key (tm_o_root t) (o_key oe)\<rparr>)
       (s\<lparr>rb_o_root := sid_del_entry o_key (rb_o_root s) (o_key oe), s2_total_cnt := s2_total_cnt s - 1\<rparr>)"

text \<open>The entry of an ordinal in the tree of its identification.\<close>

definition tmvt_o_of :: "sid_o_entry \<Rightarrow> edgx_sid2_br \<Rightarrow> sid_tmvt_o_entry option" where
  "tmvt_o_of oe s = do {
     t \<leftarrow> sid_rb_search tm_key (rb_tmvt_root s) (o_tmvt oe);
     sid_rb_search to_key (tm_o_root t) (o_key oe)
   }"

definition upd_tmvt_o :: "sid_o_entry \<Rightarrow> (sid_tmvt_o_entry \<Rightarrow> sid_tmvt_o_entry) \<Rightarrow> edgx_sid2_br \<Rightarrow> edgx_sid2_br" where
  "upd_tmvt_o oe u s = upd_tmvt (o_tmvt oe) (\<lambda>t. t\<lparr>tm_o_root := upd_node to_key (o_key oe) u (tm_o_root t)\<rparr>) s"

section \<open>Files\<close>

definition sid2_ident_params_read :: "int \<Rightarrow> int \<Rightarrow> edgx_sid2_br \<Rightarrow> (int \<times> ident_params option) option" where
  "sid2_ident_params_read ofs count s = do {
     r \<leftarrow> edgx_sysfs_tbl_params ofs count 18;
     case r of Inl e \<Rightarrow> Some (- EINVAL, None)
     | Inr idx \<Rightarrow>
         if idx > SID_MAX_ORD then Some (- EINVAL, None)
         else (case sid_rb_search o_key (rb_o_root s) (word_of_int idx) of None \<Rightarrow> Some (- ENOENT, None)
               | Some oe \<Rightarrow> do {
                   t \<leftarrow> sid_rb_search tm_key (rb_tmvt_root s) (o_tmvt oe);
                   toe \<leftarrow> tmvt_o_of oe s;
                   Some (count, Some \<lparr>ip_addr = tm_addr t, ip_tag = tm_tag t, ip_vid = tm_vid t, ip_id_type = SID_NULL,
                                      ip_str_hdl = to_str_hdl toe\<rparr>)
                 })
   }"

definition sid2_create ::
    "device \<Rightarrow> (nat \<Rightarrow> bool) \<Rightarrow> ident_params \<Rightarrow> u16 \<Rightarrow> edgx_sid2_br \<Rightarrow> (int \<times> edgx_sid2_br) option" where
  "sid2_create dev ok p ord s =
     (case sid_rb_search o_key (rb_o_root s) (ucast ord) of Some oe \<Rightarrow> Some (- EEXIST, s)
      | None \<Rightarrow> do {
          let k = params_to_tmvt_key p;
          let known = sid_rb_search tm_key (rb_tmvt_root s) k \<noteq> None;
          (ret, s) \<leftarrow> (if known then Some (0, s)
                       else sid_tmvt_create dev (ok 0) (ok 1) (ok 2) k (ip_tag p) (ip_vid p) (ip_addr p) s);
          if ret \<noteq> 0 then Some (ret, s)
          else do {
            (ret, s) \<leftarrow> sid_o_create (ok 3) (ok 4) ord k s;
            if ret \<noteq> 0 then do {
              s \<leftarrow> (if known then Some s else sid_tmvt_release dev k s);
              Some (ret, s)
            } else do { s \<leftarrow> sid_dump dev s; Some (0, s) }
          }
        })"

definition sid2_ident_params_write ::
    "device \<Rightarrow> (nat \<Rightarrow> bool) \<Rightarrow> ident_params \<Rightarrow> int \<Rightarrow> int \<Rightarrow> edgx_sid2_br \<Rightarrow> (int \<times> edgx_sid2_br) option" where
  "sid2_ident_params_write dev ok p ofs count s = do {
     r \<leftarrow> edgx_sysfs_tbl_params ofs count 18;
     case r of Inl e \<Rightarrow> Some (- EINVAL, s)
     | Inr idx \<Rightarrow>
         if idx > SID_MAX_ORD then Some (- EINVAL, s)
         else if \<not> ip_tag p = SID_TAGGED \<and> \<not> (ip_tag p = SID_PRIORITY \<and> ip_vid p = 0) \<and> \<not> (ip_tag p = SID_ALL \<and> ip_vid p = 0)
         then Some (- EINVAL, s)
         else if ip_id_type p \<noteq> SID_NULL then Some (- EINVAL, s)
         else do { (ret, s) \<leftarrow> sid2_create dev ok p (word_of_int idx) s; Some (if ret \<noteq> 0 then ret else count, s) }
   }"

text \<open>The end of an ordinal, of the rows and of the identification when it has no other.\<close>

definition sid2_release :: "device \<Rightarrow> sid_o_entry \<Rightarrow> edgx_sid2_br \<Rightarrow> edgx_sid2_br option" where
  "sid2_release dev oe s = do {
     let s = sid_o_release oe s;
     s \<leftarrow> sid_gen_port_str_hdls dev (o_tmvt oe) s;
     t \<leftarrow> sid_rb_search tm_key (rb_tmvt_root s) (o_tmvt oe);
     if sid_tmvt_is_empty t then sid_tmvt_release dev (o_tmvt oe) s else Some s
   }"

definition sid2_delete_write :: "device \<Rightarrow> int \<Rightarrow> int \<Rightarrow> edgx_sid2_br \<Rightarrow> (int \<times> edgx_sid2_br) option" where
  "sid2_delete_write dev ofs count s = do {
     r \<leftarrow> edgx_sysfs_tbl_params ofs count 2;
     case r of Inl e \<Rightarrow> Some (- EINVAL, s)
     | Inr idx \<Rightarrow>
         if idx > SID_MAX_ORD then Some (- EINVAL, s)
         else (case sid_rb_search o_key (rb_o_root s) (word_of_int idx) of None \<Rightarrow> Some (- ENOENT, s)
               | Some oe \<Rightarrow> do { s \<leftarrow> sid2_release dev oe s; s \<leftarrow> sid_dump dev s; Some (count, s) })
   }"

definition sid2_set_strhdl_write :: "device \<Rightarrow> u16 \<Rightarrow> int \<Rightarrow> int \<Rightarrow> edgx_sid2_br \<Rightarrow> (int \<times> edgx_sid2_br) option" where
  "sid2_set_strhdl_write dev hdl ofs count s = do {
     r \<leftarrow> edgx_sysfs_tbl_params ofs count 2;
     case r of Inl e \<Rightarrow> Some (- EINVAL, s)
     | Inr idx \<Rightarrow>
         if idx > SID_MAX_ORD then Some (- EINVAL, s)
         else (case sid_rb_search o_key (rb_o_root s) (word_of_int idx) of None \<Rightarrow> Some (- ENOENT, s)
               | Some oe \<Rightarrow>
                   if hdl \<ge> s2_max_streams s then Some (- EINVAL, s)
                   else do {
                     s \<leftarrow> sid_gen_port_str_hdls dev (o_tmvt oe) (upd_tmvt_o oe (\<lambda>toe. toe\<lparr>to_str_hdl := hdl\<rparr>) s);
                     s \<leftarrow> sid_dump dev s;
                     Some (count, s)
                   })
   }"

definition sid2_port_pos_read :: "int \<Rightarrow> int \<Rightarrow> edgx_sid2_br \<Rightarrow> (int \<times> port_list option) option" where
  "sid2_port_pos_read ofs count s = do {
     r \<leftarrow> edgx_sysfs_tbl_params ofs count 8;
     case r of Inl e \<Rightarrow> Some (- EINVAL, None)
     | Inr idx \<Rightarrow>
         if idx > SID_MAX_ORD then Some (- EINVAL, None)
         else (case sid_rb_search o_key (rb_o_root s) (word_of_int idx) of None \<Rightarrow> Some (- ENOENT, None)
               | Some oe \<Rightarrow> do {
                   toe \<leftarrow> tmvt_o_of oe s;
                   Some (count, Some \<lparr>in_fac_out = 0, out_fac_out = 0, in_fac_in = 0, out_fac_in = ucast (to_port_mask toe)\<rparr>)
                 })
   }"

definition sid_port_pos_set :: "device \<Rightarrow> u16 \<Rightarrow> port_pos \<Rightarrow> bool \<Rightarrow> edgx_sid2_br \<Rightarrow> (int \<times> edgx_sid2_br) option" where
  "sid_port_pos_set dev ord pp clear s =
     (if unat (pp_port pp) > port_cnt s then Some (- EINVAL, s)
      else if pp_pos pp \<noteq> OUT_FAC_IN then Some (- EINVAL, s)
      else case sid_rb_search o_key (rb_o_root s) (ucast ord) of None \<Rightarrow> Some (- ENOENT, s)
      | Some oe \<Rightarrow> do {
          let b = BIT (unat (pp_port pp));
          let s = upd_tmvt_o oe (\<lambda>toe. toe\<lparr>to_port_mask :=
                    (if clear then to_port_mask toe AND NOT b else to_port_mask toe OR b)\<rparr>) s;
          s \<leftarrow> sid_gen_port_str_hdls dev (o_tmvt oe) s;
          s \<leftarrow> sid_dump dev s;
          Some (0, s)
        })"

definition port_pos_file :: "device \<Rightarrow> port_pos \<Rightarrow> bool \<Rightarrow> int \<Rightarrow> int \<Rightarrow> edgx_sid2_br \<Rightarrow> (int \<times> edgx_sid2_br) option" where
  "port_pos_file dev pp clear ofs count s = do {
     r \<leftarrow> edgx_sysfs_tbl_params ofs count 6;
     case r of Inl e \<Rightarrow> Some (- EINVAL, s)
     | Inr idx \<Rightarrow>
         if idx > SID_MAX_ORD then Some (- EINVAL, s)
         else do { (ret, s) \<leftarrow> sid_port_pos_set dev (word_of_int idx) pp clear s; Some (if ret \<noteq> 0 then ret else count, s) }
   }"

definition sid2_port_pos_write where "sid2_port_pos_write dev pp = port_pos_file dev pp False"
definition sid2_port_pos_del_write where "sid2_port_pos_del_write dev pp = port_pos_file dev pp True"

definition sid2_cnt_show :: "edgx_sid2_br \<Rightarrow> u32" where "sid2_cnt_show s = s2_total_cnt s"
definition sid2_tab_len_show :: "edgx_sid2_br \<Rightarrow> u32" where "sid2_tab_len_show s = ucast (tab_row_cnt s) * 4"
definition sid2_max_sup_show :: "edgx_sid2_br \<Rightarrow> u16" where
  "sid2_max_sup_show s = (if s2_max_streams s \<noteq> 0 then s2_max_streams s - 1 else 0)"
definition sid2_sup_ports_show :: "edgx_sid2_br \<Rightarrow> u16" where "sid2_sup_ports_show s = s2_sup_port_mask s"

definition sid2_list_entries_read :: "int \<Rightarrow> int \<Rightarrow> edgx_sid2_br \<Rightarrow> (int \<times> u16 list) option" where
  "sid2_list_entries_read ofs count s =
     (if s2_total_cnt s = 0 then Some (- ENOENT, [])
      else do {
        r \<leftarrow> edgx_sysfs_list_params ofs count 2;
        case r of Inl e \<Rightarrow> Some (- EINVAL, [])
        | Inr (idx, nelems) \<Rightarrow>
            if idx + nelems > uint (s2_total_cnt s) then Some (- EINVAL, [])
            else let ords = take (nat nelems) (drop (nat idx) (map o_ord (rb_o_root s)))
                 in Some (2 * int (length ords), ords)
      })"

definition sid2_sup_ident_types_read :: "int \<Rightarrow> int \<Rightarrow> (int \<times> u8 option) option" where
  "sid2_sup_ident_types_read ofs count = do {
     r \<leftarrow> edgx_sysfs_tbl_params ofs count 1;
     Some (case r of Inl e \<Rightarrow> (- EINVAL, None)
           | Inr idx \<Rightarrow> if idx \<ge> 5 \<or> idx = 0 then (- EINVAL, None) else (count, Some (if idx = 1 then 1 else 0)))
   }"

section \<open>Counters\<close>

datatype cnt_type = CNT_OUT | CNT_IN

definition sid_get_cnt_at :: "device \<Rightarrow> nat \<Rightarrow> u16 \<Rightarrow> u8 \<Rightarrow> cnt_type \<Rightarrow> iomem \<Rightarrow> (u32 \<times> iomem) option" where
  "sid_get_cnt_at dev base hdl port type io = do {
     let capture = ucast port OR push_bit 4 hdl;
     io \<leftarrow> wait_clear dev (\<lambda>io. edgx_rd16 io base 0x0 AND 0x10 \<noteq> 0) (edgx_wr16 io base 0x4 capture);
     Some (case type of
             CNT_IN \<Rightarrow> ucast (edgx_rd16 io base 0x300) OR push_bit 16 (ucast (edgx_rd16 io base 0x302))
           | CNT_OUT \<Rightarrow> ucast (edgx_rd16 io base 0x304) OR push_bit 16 (ucast (edgx_rd16 io base 0x306)), io)
   }"

definition edgx_sid2_get_cnt :: "device \<Rightarrow> u16 \<Rightarrow> u8 \<Rightarrow> cnt_type \<Rightarrow> edgx_sid2_br \<Rightarrow> (u32 \<times> edgx_sid2_br) option" where
  "edgx_sid2_get_cnt dev hdl port type s = do {
     (v, io) \<leftarrow> sid_get_cnt_at dev (counter_iobase s) hdl port type (s2_io s);
     Some (v, s\<lparr>s2_io := io\<rparr>)
   }"

definition sid2_cps_in_read :: "device \<Rightarrow> u8 \<Rightarrow> int \<Rightarrow> int \<Rightarrow> edgx_sid2_br \<Rightarrow> (int \<times> u32 option \<times> edgx_sid2_br) option" where
  "sid2_cps_in_read dev port ofs count s = do {
     r \<leftarrow> edgx_sysfs_tbl_params ofs count 4;
     case r of Inl e \<Rightarrow> Some (- EINVAL, None, s)
     | Inr idx \<Rightarrow>
         if idx \<ge> uint (s2_max_streams s) then Some (- EINVAL, None, s)
         else do { (v, s) \<leftarrow> edgx_sid2_get_cnt dev (word_of_int idx) port CNT_IN s; Some (count, Some v, s) }
   }"

definition sid2_cps_out_read :: "int \<Rightarrow> int \<Rightarrow> edgx_sid2_br \<Rightarrow> (int \<times> u32 option) option" where
  "sid2_cps_out_read ofs count s = do {
     r \<leftarrow> edgx_sysfs_tbl_params ofs count 4;
     Some (case r of Inl e \<Rightarrow> (- EINVAL, None)
           | Inr idx \<Rightarrow> if idx \<ge> uint (s2_max_streams s) then (- EINVAL, None) else (count, Some 0))
   }"

section \<open>Probe and shutdown\<close>

text \<open>\<open>ifd\<close>: the base of the counters and the map of the ports, if the switch has the interface.\<close>

definition edgx_probe_sid2 :: "(nat \<times> u32) option \<Rightarrow> bool \<Rightarrow> edgx_br \<Rightarrow> nat \<Rightarrow> iomem \<Rightarrow> int + edgx_sid2_br" where
  "edgx_probe_sid2 ifd ok br br_iobase io =
     (case ifd of None \<Rightarrow> Inl (- ENODEV)
      | Some (base, ptmap) \<Rightarrow>
          if \<not> ok then Inl (- ENOMEM)
          else Inr \<lparr>s2_parent = br, tab_iobase = br_iobase, counter_iobase = base,
            s2_max_streams = ucast (max (edgx_br_get_generic_pow2 io br 0x28) (edgx_br_get_generic_pow2 io br 0x38)),
            s2_total_cnt = 0, rb_o_root = [], rb_tmvt_root = [], rb_ht_root = [],
            tab_row_cnt = ucast (edgx_br_get_generic_pow2 io br 0x3C),
            port_cnt = unat (min (edgx_br_get_num_ports io br) 12), s2_sup_port_mask = push_bit 1 (ucast ptmap),
            s2_io = edgx_wr16 io br_iobase 0x282 5\<rparr>)"

fun release_ords :: "device \<Rightarrow> sid_o_entry list \<Rightarrow> edgx_sid2_br \<Rightarrow> edgx_sid2_br option" where
  "release_ords dev [] s = Some s"
| "release_ords dev (oe # os) s = do { s \<leftarrow> sid2_release dev oe s; release_ords dev os s }"

definition sid_release_all :: "device \<Rightarrow> edgx_sid2_br \<Rightarrow> edgx_sid2_br option" where
  "sid_release_all dev s = release_ords dev (rb_o_root s) s"

end
