(* ===== verification/BrSid.thy ===== *)
theory BrSid
  imports BrSid2
begin

text \<open>
  The stream identification of \<open>edge_br_sid.c\<close>, the variant that keeps the streams in the static
  forwarding database: a tree of the streams by handle, and the entries of the database, which the
  bridge uses for its stations too. The user data and the counters are those of the other variant.
\<close>

unbundle bit_operations_syntax

section \<open>Data\<close>

abbreviation (input) SID_UNKNOWN :: u32 where "SID_UNKNOWN \<equiv> 0"
abbreviation (input) SID_VID_MAX :: u16 where "SID_VID_MAX \<equiv> 4094"
abbreviation (input) SID_INVALID_RBT :: u16 where "SID_INVALID_RBT \<equiv> 0xFFFF"

record edgx_sid_br =
  s1_parent :: edgx_br
  s1_fdb :: edgx_brfdb
  s1_max_streams :: u16
  s1_total_cnt :: u16
  s1_base_addr :: nat
  sid_root :: "edgx_sid list"
  s1_sup_port_mask :: u16
  s1_io :: iomem

definition edgx_sid_rbt_search :: "edgx_sid list \<Rightarrow> u16 \<Rightarrow> edgx_sid option" where
  "edgx_sid_rbt_search = rb_search str_hdl"

definition edgx_sid_rbt_insert :: "edgx_sid \<Rightarrow> edgx_sid_br \<Rightarrow> int \<times> edgx_sid_br" where
  "edgx_sid_rbt_insert newsid s =
     (let (ret, ns) = rb_insert str_hdl (sid_root s) newsid
      in if ret \<noteq> 0 then (- EINVAL, s) else (0, s\<lparr>sid_root := ns, s1_total_cnt := s1_total_cnt s + 1\<rparr>))"

definition upd_sid :: "u16 \<Rightarrow> (edgx_sid \<Rightarrow> edgx_sid) \<Rightarrow> edgx_sid_br \<Rightarrow> edgx_sid_br" where
  "upd_sid k u s = s\<lparr>sid_root := upd_node str_hdl k u (sid_root s)\<rparr>"

definition edgx_sid_del_entry :: "device \<Rightarrow> edgx_sid \<Rightarrow> edgx_sid_br \<Rightarrow> (int \<times> edgx_sid_br) option" where
  "edgx_sid_del_entry dev sid s = do {
     (ret, io) \<leftarrow> edgx_brfdb_sid_del dev (s1_fdb s) (sid_addr sid) (sid_vid sid) (s1_io s);
     let s = s\<lparr>s1_io := io\<rparr>;
     Some (if ret \<noteq> 0 then (- ENOENT, s)
           else (0, s\<lparr>sid_root := rb_erase str_hdl (str_hdl sid) (sid_root s), s1_total_cnt := s1_total_cnt s - 1\<rparr>))
   }"

definition edgx_sid_get_cnt :: "device \<Rightarrow> u16 \<Rightarrow> u8 \<Rightarrow> cnt_type \<Rightarrow> edgx_sid_br \<Rightarrow> (u32 \<times> edgx_sid_br) option" where
  "edgx_sid_get_cnt dev hdl port type s = do {
     (v, io) \<leftarrow> sid_get_cnt_at dev (s1_base_addr s) hdl port type (s1_io s);
     Some (v, s\<lparr>s1_io := io\<rparr>)
   }"

section \<open>Checks\<close>

definition edgx_sid_check_add :: "u16 \<Rightarrow> port_pos \<Rightarrow> edgx_sid_br \<Rightarrow> int" where
  "edgx_sid_check_add hdl add s =
     (if pp_port add > edgx_br_get_num_ports (s1_io s) (s1_parent s) then - EINVAL
      else if pp_pos add \<noteq> OUT_FAC_IN then - EINVAL
      else if hdl \<ge> s1_max_streams s then - EINVAL else 0)"

definition edgx_sid_check_ident :: "u16 \<Rightarrow> ident_params \<Rightarrow> edgx_sid_br \<Rightarrow> int" where
  "edgx_sid_check_ident hdl i s =
     (if ip_id_type i \<noteq> SID_NULL then - EINVAL
      else if ip_tag i \<noteq> SID_TAGGED then - EINVAL
      else if ip_vid i = 0 \<or> ip_vid i > SID_VID_MAX then - EINVAL
      else if hdl \<ge> s1_max_streams s then - EINVAL else 0)"

section \<open>Operations\<close>

definition edgx_sid_apply_sid :: "device \<Rightarrow> edgx_sid \<Rightarrow> edgx_sid_br \<Rightarrow> (int \<times> edgx_sid \<times> edgx_sid_br) option" where
  "edgx_sid_apply_sid dev sid s =
     (if id_type sid \<noteq> SID_UNKNOWN \<and> sid_port_mask sid \<noteq> 0 then do {
        (r, fdb, sid, io) \<leftarrow> edgx_brfdb_sid_add dev (s1_fdb s) sid (s1_io s);
        let s = s\<lparr>s1_fdb := fdb, s1_io := io\<rparr>;
        Some (if r = 0 then (if \<not> valid_fdb sid then - EINVAL else 0) else - ENOMEM, sid, s)
      } else Some (0, sid, s))"

definition edgx_sid_try_delete :: "device \<Rightarrow> u16 \<Rightarrow> edgx_sid_br \<Rightarrow> (int \<times> edgx_sid_br) option" where
  "edgx_sid_try_delete dev hdl s =
     (if hdl \<ge> s1_max_streams s then Some (- EINVAL, s)
      else case edgx_sid_rbt_search (sid_root s) hdl of None \<Rightarrow> Some (- ENOENT, s)
      | Some sid \<Rightarrow> do { (ret, s) \<leftarrow> edgx_sid_del_entry dev sid s; Some (if ret \<noteq> 0 then - ENOENT else 0, s) })"

text \<open>The result of the check of the port is not used; a shift by the width of a long is undefined.\<close>

definition edgx_sid_try_del_pt :: "device \<Rightarrow> u16 \<Rightarrow> port_pos \<Rightarrow> edgx_sid_br \<Rightarrow> (int \<times> edgx_sid_br) option" where
  "edgx_sid_try_del_pt dev hdl del s =
     (case edgx_sid_rbt_search (sid_root s) hdl of None \<Rightarrow> Some (- EINVAL, s)
      | Some old \<Rightarrow>
          if pp_port del \<ge> 64 then None
          else let old = old\<lparr>sid_port_mask := sid_port_mask old AND NOT (BIT (unat (pp_port del)))\<rparr>;
                   s = upd_sid hdl (\<lambda>_. old) s
               in if sid_port_mask old = 0
                  then do { (ret, s) \<leftarrow> edgx_sid_del_entry dev old s; Some (if ret \<noteq> 0 then - ENOENT else 0, s) }
                  else Some (0, s))"

definition edgx_sid_try_port_add :: "device \<Rightarrow> u16 \<Rightarrow> port_pos \<Rightarrow> edgx_sid_br \<Rightarrow> (int \<times> edgx_sid_br) option" where
  "edgx_sid_try_port_add dev hdl add s =
     (if edgx_sid_check_add hdl add s \<noteq> 0 then Some (- EINVAL, s)
      else case edgx_sid_rbt_search (sid_root s) hdl of None \<Rightarrow> Some (- ENOENT, s)
      | Some sid \<Rightarrow> do {
          let b = BIT (unat (pp_port add));
          let sid = (if sid_port_mask sid = SID_INVALID_RBT then sid\<lparr>sid_port_mask := 0\<rparr> else sid);
          let sid = sid\<lparr>sid_port_mask := sid_port_mask sid OR b\<rparr>;
          (ret, sid, s) \<leftarrow> (if \<not> valid_fdb sid then edgx_sid_apply_sid dev sid s else Some (0, sid, s));
          let sid = (if ret \<noteq> 0 then sid\<lparr>sid_port_mask := sid_port_mask sid AND NOT b\<rparr> else sid);
          Some (ret, upd_sid hdl (\<lambda>_. sid) s)
        })"

definition edgx_sid_try_ident_add :: "device \<Rightarrow> u16 \<Rightarrow> ident_params \<Rightarrow> edgx_sid_br \<Rightarrow> (int \<times> edgx_sid_br) option" where
  "edgx_sid_try_ident_add dev hdl i s =
     (if edgx_sid_check_ident hdl i s \<noteq> 0 then Some (- EINVAL, s)
      else case edgx_sid_rbt_search (sid_root s) hdl of None \<Rightarrow> Some (- ENOENT, s)
      | Some sid \<Rightarrow>
          if valid_fdb sid then Some (- EBUSY, s)
          else do {
            let sid = sid\<lparr>str_hdl := hdl, sid_vid := ip_vid i, id_type := ip_id_type i, sid_addr := ip_addr i\<rparr>;
            (ret, sid, s) \<leftarrow> edgx_sid_apply_sid dev sid s;
            let sid = (if ret \<noteq> 0 then sid\<lparr>id_type := SID_UNKNOWN\<rparr> else sid);
            Some (ret, upd_sid hdl (\<lambda>_. sid) s)
          })"

definition new_sid :: "u16 \<Rightarrow> edgx_sid" where
  "new_sid hdl = \<lparr>sid_addr = replicate 6 0, sid_vid = 0, id_type = SID_UNKNOWN, str_hdl = hdl, sid_port_mask = 0, valid_fdb = False\<rparr>"

definition edgx_sid_try_create :: "bool \<Rightarrow> u16 \<Rightarrow> edgx_sid_br \<Rightarrow> int \<times> edgx_sid_br" where
  "edgx_sid_try_create ok hdl s =
     (if hdl \<ge> s1_max_streams s then (- EINVAL, s)
      else case edgx_sid_rbt_search (sid_root s) hdl of Some old \<Rightarrow> (- EEXIST, s)
      | None \<Rightarrow>
          if \<not> ok then (- ENOMEM, s)
          else let (ret, s) = edgx_sid_rbt_insert (new_sid hdl) s in if ret \<noteq> 0 then (- EINVAL, s) else (0, s))"

section \<open>Files\<close>

text \<open>The number of a table element below the number of streams.\<close>

definition sid1_idx :: "int \<Rightarrow> int \<Rightarrow> int \<Rightarrow> edgx_sid_br \<Rightarrow> u16 option option" where
  "sid1_idx ofs count elem s = do {
     r \<leftarrow> edgx_sysfs_tbl_params ofs count elem;
     Some (case r of Inl e \<Rightarrow> None | Inr idx \<Rightarrow> if idx \<ge> uint (s1_max_streams s) then None else Some (word_of_int idx))
   }"

definition sid1_write ::
    "int \<Rightarrow> (u16 \<Rightarrow> edgx_sid_br \<Rightarrow> (int \<times> edgx_sid_br) option) \<Rightarrow> int \<Rightarrow> int \<Rightarrow> edgx_sid_br \<Rightarrow> (int \<times> edgx_sid_br) option" where
  "sid1_write elem op ofs count s = do {
     i \<leftarrow> sid1_idx ofs count elem s;
     case i of None \<Rightarrow> Some (- EINVAL, s)
     | Some idx \<Rightarrow> do { (ret, s) \<leftarrow> op idx s; Some (if ret \<noteq> 0 then ret else count, s) }
   }"

definition sid_delete_write where "sid_delete_write dev = sid1_write 2 (edgx_sid_try_delete dev)"
definition sid_port_pos_del_write where "sid_port_pos_del_write dev del = sid1_write 6 (\<lambda>idx. edgx_sid_try_del_pt dev idx del)"
definition sid_port_pos_write where "sid_port_pos_write dev add = sid1_write 6 (\<lambda>idx. edgx_sid_try_port_add dev idx add)"

definition sid_ident_params_write where
  "sid_ident_params_write dev ok add = sid1_write 18 (\<lambda>idx s.
     let (ret, s) = edgx_sid_try_create ok idx s
     in if ret = 0 then edgx_sid_try_ident_add dev idx add s else Some (ret, s))"

definition sid_set_strhdl_write :: "u16 \<Rightarrow> int \<Rightarrow> int \<Rightarrow> edgx_sid_br \<Rightarrow> int option" where
  "sid_set_strhdl_write hdl ofs count s = do {
     i \<leftarrow> sid1_idx ofs count 2 s;
     Some (case i of None \<Rightarrow> - EINVAL
           | Some idx \<Rightarrow> if idx \<noteq> hdl then - EINVAL
                         else if edgx_sid_rbt_search (sid_root s) idx = None then - ENOENT else count)
   }"

definition sid_port_pos_read :: "int \<Rightarrow> int \<Rightarrow> edgx_sid_br \<Rightarrow> (int \<times> port_list option) option" where
  "sid_port_pos_read ofs count s = do {
     i \<leftarrow> sid1_idx ofs count 8 s;
     Some (case i of None \<Rightarrow> (- EINVAL, None)
           | Some idx \<Rightarrow>
               (case edgx_sid_rbt_search (sid_root s) idx of None \<Rightarrow> (- ENOENT, None)
                | Some sid \<Rightarrow> (count, Some \<lparr>in_fac_out = 0, out_fac_out = 0, in_fac_in = 0, out_fac_in = sid_port_mask sid\<rparr>)))
   }"

text \<open>Of a stream without an identification only the handle is stored, the rest of the buffer stays.\<close>

definition sid_ident_params_read :: "int \<Rightarrow> int \<Rightarrow> ident_params \<Rightarrow> edgx_sid_br \<Rightarrow> (int \<times> ident_params) option" where
  "sid_ident_params_read ofs count buf s = do {
     i \<leftarrow> sid1_idx ofs count 18 s;
     Some (case i of None \<Rightarrow> (- EINVAL, buf)
           | Some idx \<Rightarrow>
               (case edgx_sid_rbt_search (sid_root s) idx of None \<Rightarrow> (- ENOENT, buf)
                | Some sid \<Rightarrow>
                    if id_type sid \<noteq> SID_UNKNOWN
                    then (count, \<lparr>ip_addr = sid_addr sid, ip_tag = SID_TAGGED, ip_vid = sid_vid sid, ip_id_type = id_type sid, ip_str_hdl = str_hdl sid\<rparr>)
                    else (count, buf\<lparr>ip_id_type := SID_UNKNOWN, ip_str_hdl := str_hdl sid\<rparr>)))
   }"

text \<open>All handles are stored, whatever part of the file was asked for.\<close>

definition sid_list_entries_read :: "edgx_sid_br \<Rightarrow> int \<times> u16 list" where
  "sid_list_entries_read s =
     (let hs = map str_hdl (sid_root s)
      in (if s1_total_cnt s = 0 then - ENOENT else uint (of_nat (length hs) :: u16) * 2, hs))"

definition sid_cps_read :: "device \<Rightarrow> cnt_type \<Rightarrow> u8 \<Rightarrow> int \<Rightarrow> int \<Rightarrow> edgx_sid_br \<Rightarrow> (int \<times> u32 option \<times> edgx_sid_br) option" where
  "sid_cps_read dev type port ofs count s = do {
     i \<leftarrow> sid1_idx ofs count 4 s;
     case i of None \<Rightarrow> Some (- EINVAL, None, s)
     | Some idx \<Rightarrow>
         if edgx_sid_rbt_search (sid_root s) idx = None then Some (- ENOENT, None, s)
         else do { (v, s) \<leftarrow> edgx_sid_get_cnt dev idx port type s; Some (count, Some v, s) }
   }"

definition sid_cps_in_read where "sid_cps_in_read dev = sid_cps_read dev CNT_IN"
definition sid_cps_out_read where "sid_cps_out_read dev = sid_cps_read dev CNT_OUT"

definition sid_cnt_show :: "edgx_sid_br \<Rightarrow> u16" where "sid_cnt_show s = s1_total_cnt s"
definition sid_tab_len_show :: "edgx_sid_br \<Rightarrow> u16" where "sid_tab_len_show s = s1_max_streams s"
definition sid_max_sup_show :: "edgx_sid_br \<Rightarrow> u16" where
  "sid_max_sup_show s = (if s1_max_streams s \<noteq> 0 then s1_max_streams s - 1 else 0)"
definition sid_sup_ports_show :: "edgx_sid_br \<Rightarrow> u16" where "sid_sup_ports_show s = s1_sup_port_mask s"

definition edgx_probe_sid :: "(nat \<times> u32) option \<Rightarrow> bool \<Rightarrow> edgx_br \<Rightarrow> edgx_brfdb \<Rightarrow> iomem \<Rightarrow> (int + edgx_sid_br) option" where
  "edgx_probe_sid ifd ok br fdb io =
     (case ifd of None \<Rightarrow> Some (Inl (- ENODEV))
      | Some (base, ptmap) \<Rightarrow>
          if \<not> ok then Some (Inl (- ENOMEM))
          else do {
            n \<leftarrow> edgx_brfdb_sid_get_max_str fdb io;
            Some (Inr \<lparr>s1_parent = br, s1_fdb = fdb, s1_max_streams = n, s1_total_cnt = 0, s1_base_addr = base, sid_root = [],
              s1_sup_port_mask = push_bit 1 (ucast ptmap), s1_io = io\<rparr>)
          })"

end
