(* ===== verification/BrSidProps.thy ===== *)
theory BrSidProps
  imports BrSid BrFdbProps FrerTab
begin

text \<open>
  The stream identification in the forwarding database: what the first port of a stream does to the
  entries of the database, and what a rejected identification leaves behind.
\<close>

unbundle bit_operations_syntax

interpretation s1: rb_map str_hdl edgx_sid_rbt_search "rb_insert str_hdl"
  unfolding edgx_sid_rbt_search_def by unfold_locales (simp_all add: rb_search_eq rb_insert_new)

section \<open>The first port of a stream\<close>

lemma sid_used_bit: "edgx_brfdb_is_sid_used x \<longleftrightarrow> bit (general x) 6"
proof -
  have "(0x40 :: u16) = 2 ^ 6" by simp
  then show ?thesis unfolding edgx_brfdb_is_sid_used_def by (simp only: and_exp_eq_0_iff_not_bit) simp
qed

lemma bit_0x1040: "bit (0x1040 :: u16) n \<longleftrightarrow> n = 6 \<or> n = 12" "bit (0x80 :: u16) n \<longleftrightarrow> n = 7"
proof -
  have "(0x1040 :: u16) = 2 ^ 6 OR 2 ^ 12" "(0x80 :: u16) = 2 ^ 7" by simp_all
  then show "bit (0x1040 :: u16) n \<longleftrightarrow> n = 6 \<or> n = 12" "bit (0x80 :: u16) n \<longleftrightarrow> n = 7" by (auto simp only: bit_or_iff bit_exp_iff) auto
qed

text \<open>The entry of a stream in the place of another entry.\<close>

definition stream_entry :: "edgx_sid \<Rightarrow> smac_entry \<Rightarrow> smac_entry" where
  "stream_entry sid e = e\<lparr>mac := sid_addr sid, vlan := sid_vid sid,
     general := (if id_type sid \<noteq> 0 then (general e OR 0x1040) OR 0x80 else general e OR 0x1040), stream_no := str_hdl sid\<rparr>"

lemma stream_entry_flags:
  "edgx_brfdb_is_sid_used (stream_entry sid e)" "edgx_brfdb_is_fdb_used (stream_entry sid e) = edgx_brfdb_is_fdb_used e"
  "edgx_brfdb_is_sid_used (e\<lparr>policed_pts := a, policer := b\<rparr>) = edgx_brfdb_is_sid_used e"
  "edgx_brfdb_is_fdb_used (e\<lparr>policed_pts := a, policer := b\<rparr>) = edgx_brfdb_is_fdb_used e"
  by (simp_all add: stream_entry_def sid_used_bit edgx_brfdb_is_fdb_used_def and_0x8000)
    (simp_all add: bit_or_iff bit_0x1040)

lemma sid_addD:
  fixes io :: iomem
  assumes c: "smac_contract dev (fdb_iobase f) tab" and n: "nrows f \<noteq> 0" "nrows f \<le> 4096" and a: "length (sid_addr sid) = 6"
  defines "es \<equiv> candidates (tab io) f (sid_addr sid) (sid_vid sid)"
  assumes new: "\<forall>x \<in> set (take 2 es). \<not> (edgx_brfdb_is_fdb_fit x (sid_addr sid) (sid_vid sid) \<and> stream_no x = str_hdl sid \<and> edgx_brfdb_is_sid_used x)"
    and i: "find_idx (\<lambda>x. \<not> edgx_brfdb_is_sid_used x) (take 2 es) = Some i"
  shows "\<exists>io'. edgx_brfdb_sid_add dev f sid io = Some (0, f\<lparr>sents := sents f + 1\<rparr>, sid\<lparr>valid_fdb := True\<rparr>, io')
     \<and> only_changed f (sid_addr sid) (sid_vid sid) i (tab io) (tab io')
     \<and> candidates (tab io') f (sid_addr sid) (sid_vid sid) = es[i := (stream_entry sid (es ! i))\<lparr>policed_pts := 0, policer := 0\<rparr>]"
proof -
  let ?row = "edgx_brfdb_calc_smac_rows f (sid_addr sid) (sid_vid sid)"
  have "\<forall>j \<in> set [0..<NCOLS_VLAN]. j < SMAC_NCOLS \<and> ?row ! j < 4096" using rows_in_range [OF n] by auto
  from smac_get_allD [OF c this, of io] obtain io1 where
    rd: "smac_get_all dev f ?row [0..<NCOLS_VLAN] io = Some (map (\<lambda>j. tab io j (?row ! j)) [0..<NCOLS_VLAN], io1)" and t1: "tab io1 = tab io" by blast
  have es2: "map (\<lambda>j. tab io j (?row ! j)) [0..<NCOLS_VLAN] = take 2 es"
    by (simp add: es_def candidates_def upt_rec)
  have i2: "i < 2" "take 2 es ! i = es ! i" using find_idx_SomeD [OF i] by (auto simp: es_def)
  let ?x = "stream_entry sid (es ! i)"
  have "i < 4" "length (mac ?x) = 6" using i2(1) a by (simp_all add: stream_entry_def)
  from write_candidate [OF c n this, of "sid_addr sid" "sid_vid sid" True io1] obtain io' s where
    w: "edgx_brfdb_smac_set dev f i (?row ! i) ?x True io1 = Some io'" "s = stream_no ?x"
    and es': "candidates (tab io') f (sid_addr sid) (sid_vid sid) = es[i := ?x\<lparr>policed_pts := 0, policer := 0, stream_no := s\<rparr>]"
    and o: "only_changed f (sid_addr sid) (sid_vid sid) i (tab io) (tab io')" unfolding t1 es_def by blast
  have nex: "(\<exists>x \<in> set (take 2 es). edgx_brfdb_is_fdb_fit x (sid_addr sid) (sid_vid sid) \<and> stream_no x = str_hdl sid \<and> edgx_brfdb_is_sid_used x) = False"
    using new by blast
  have "edgx_brfdb_sid_add dev f sid io = Some (0, f\<lparr>sents := sents f + 1\<rparr>, sid\<lparr>valid_fdb := True\<rparr>, io')"
    unfolding edgx_brfdb_sid_add_def Let_def rd es2 bind.bind_lunit prod.case nex if_False i option.case i2(2)
    using w(1) by (simp only: stream_entry_def bind.bind_lunit)
  moreover have "?x\<lparr>policed_pts := 0, policer := 0, stream_no := s\<rparr> = ?x\<lparr>policed_pts := 0, policer := 0\<rparr>" by (simp add: w(2))
  ultimately show ?thesis using o es' by auto
qed

lemma sid1_idx_ok:
  assumes "hdl < s1_max_streams s" "0 < elem" shows "sid1_idx (uint hdl * elem) elem elem s = Some (Some hdl)"
  using assms by (simp add: sid1_idx_def word_less_def)

text \<open>
  Property C38. The first port of an identified stream is accepted when the entry of the stream's address
  in the first column has no stream yet, even if the bridge uses the entry for a station: the stream's
  address and VLAN replace those of the station, the forwarding ports and the used flag stay. The station
  is no longer found there, and the frames to the stream's address go to the ports of the station.
\<close>

theorem stream_replaces_station:
  fixes s :: edgx_sid_br
  defines "f \<equiv> s1_fdb s"
  assumes c: "smac_contract dev (fdb_iobase f) tab" and n: "nrows f \<noteq> 0" "nrows f \<le> 4096"
    and chk: "edgx_sid_check_add hdl pp s = 0" "pp_port pp < 16"
    and sid: "edgx_sid_rbt_search (sid_root s) hdl = Some sid" "\<not> valid_fdb sid" "id_type sid \<noteq> 0" "length (sid_addr sid) = 6"
  defines "es \<equiv> candidates (tab (s1_io s)) f (sid_addr sid) (sid_vid sid)"
  assumes new: "\<not> edgx_brfdb_is_sid_used (es ! 0)" "stream_no (es ! 1) = str_hdl sid \<longrightarrow> \<not> edgx_brfdb_is_sid_used (es ! 1)"
  shows "\<exists>s'. sid_port_pos_write dev pp (uint hdl * 6) 6 s = Some (6, s')
    \<and> only_changed f (sid_addr sid) (sid_vid sid) 0 (tab (s1_io s)) (tab (s1_io s'))
    \<and> (let e = es ! 0; e' = candidates (tab (s1_io s')) f (sid_addr sid) (sid_vid sid) ! 0
       in edgx_brfdb_is_sid_fit e' (sid_addr sid) (sid_vid sid) \<and> stream_no e' = str_hdl sid \<and> fwd_mask e' = fwd_mask e
        \<and> edgx_brfdb_is_fdb_used e' = edgx_brfdb_is_fdb_used e
        \<and> (\<forall>addr v. edgx_brfdb_is_fdb_fit e addr v \<longrightarrow> (addr, v) \<noteq> (sid_addr sid, sid_vid sid) \<longrightarrow> \<not> edgx_brfdb_is_fdb_fit e' addr v))"
proof -
  let ?b = "BIT (unat (pp_port pp)) :: u16"
  let ?m = "if sid_port_mask sid = SID_INVALID_RBT then 0 else sid_port_mask sid"
  define sid1 where "sid1 = sid\<lparr>sid_port_mask := ?m OR ?b\<rparr>"
  have f1: "sid_addr sid1 = sid_addr sid" "sid_vid sid1 = sid_vid sid" "id_type sid1 = id_type sid" "str_hdl sid1 = str_hdl sid" "\<not> valid_fdb sid1"
    using sid(2) by (simp_all add: sid1_def)
  have "unat (pp_port pp) < 16" using chk(2) by (simp add: word_less_nat_alt)
  then have m: "sid_port_mask sid1 \<noteq> 0" using BIT_u16_nz by (simp add: sid1_def or_eq_0_iff)
  have e: "take 2 es = [es ! 0, es ! 1]" using length_candidates by (simp add: es_def take_Suc_conv_app_nth numeral_2_eq_2)
  have a1: "\<forall>x \<in> set (take 2 es). \<not> (edgx_brfdb_is_fdb_fit x (sid_addr sid1) (sid_vid sid1) \<and> stream_no x = str_hdl sid1 \<and> edgx_brfdb_is_sid_used x)"
    and a2: "find_idx (\<lambda>x. \<not> edgx_brfdb_is_sid_used x) (take 2 es) = Some 0" using new by (auto simp: e f1)
  have "length (sid_addr sid1) = 6" using sid(4) by (simp add: f1)
  from sid_addD [OF c n this, where io = "s1_io s", unfolded f1, OF a1 [unfolded es_def f1] a2 [unfolded es_def]] obtain io' where
    io': "edgx_brfdb_sid_add dev f sid1 (s1_io s) = Some (0, f\<lparr>sents := sents f + 1\<rparr>, sid1\<lparr>valid_fdb := True\<rparr>, io')"
    "only_changed f (sid_addr sid) (sid_vid sid) 0 (tab (s1_io s)) (tab io')"
    "candidates (tab io') f (sid_addr sid) (sid_vid sid) = es[0 := (stream_entry sid1 (es ! 0))\<lparr>policed_pts := 0, policer := 0\<rparr>]"
    unfolding es_def by blast
  have sid1: "(if sid_port_mask sid = SID_INVALID_RBT then sid\<lparr>sid_port_mask := 0\<rparr> else sid)
      \<lparr>sid_port_mask := sid_port_mask (if sid_port_mask sid = SID_INVALID_RBT then sid\<lparr>sid_port_mask := 0\<rparr> else sid) OR ?b\<rparr> = sid1"
    by (simp add: sid1_def)
  have ap: "edgx_sid_apply_sid dev sid1 s = Some (0, sid1\<lparr>valid_fdb := True\<rparr>, s\<lparr>s1_fdb := f\<lparr>sents := sents f + 1\<rparr>, s1_io := io'\<rparr>)"
    using io'(1) m sid(3) f1 by (simp add: edgx_sid_apply_sid_def f_def)
  define s' where "s' = upd_sid hdl (\<lambda>_. sid1\<lparr>valid_fdb := True\<rparr>) (s\<lparr>s1_fdb := f\<lparr>sents := sents f + 1\<rparr>, s1_io := io'\<rparr>)"
  have "edgx_sid_try_port_add dev hdl pp s = Some (0, s')"
    unfolding edgx_sid_try_port_add_def Let_def sid(1) using chk(1) sid1 ap f1(5) by (simp add: s'_def)
  moreover have "hdl < s1_max_streams s" using chk(1) by (simp add: edgx_sid_check_add_def split: if_split_asm)
  ultimately have w: "sid_port_pos_write dev pp (uint hdl * 6) 6 s = Some (6, s')"
    by (simp add: sid_port_pos_write_def sid1_write_def sid1_idx_ok)
  have io: "s1_io s' = io'" by (simp add: s'_def upd_sid_def)
  let ?e = "(stream_entry sid1 (es ! 0))\<lparr>policed_pts := 0, policer := 0\<rparr>"
  have "candidates (tab io') f (sid_addr sid) (sid_vid sid) ! 0 = ?e" using io'(3) by (simp add: es_def)
  moreover have "mac ?e = sid_addr sid" "vlan ?e = sid_vid sid" "stream_no ?e = str_hdl sid" "fwd_mask ?e = fwd_mask (es ! 0)"
    by (simp_all add: stream_entry_def f1)
  moreover have "edgx_brfdb_is_sid_used ?e" "edgx_brfdb_is_fdb_used ?e = edgx_brfdb_is_fdb_used (es ! 0)" by (simp_all add: stream_entry_flags)
  ultimately show ?thesis using w io'(2) unfolding io
    by (intro exI [of _ s'] conjI) (auto simp: Let_def io edgx_brfdb_is_sid_fit_def edgx_brfdb_is_smac_match_def fit_fields)
qed

text \<open>A switch whose first column holds a station with port 2.\<close>

definition station_io :: iomem where
  "station_io = (\<lambda>_. 0)(0x1000 := 0x9000, 0x1001 := 0x0109, 0x1004 := 4, 0x1005 := 7)"

definition stream_3 :: edgx_sid where
  "stream_3 = \<lparr>sid_addr = [1, 2, 3, 4, 5, 6], sid_vid = 5, id_type = 1, str_hdl = 3, sid_port_mask = 0, valid_fdb = False\<rparr>"

definition station_demo :: edgx_sid_br where
  "station_demo = \<lparr>s1_parent = \<lparr>brparam = 0, cycle_ns = 8\<rparr>, s1_fdb = small_fdb, s1_max_streams = 8, s1_total_cnt = 1, s1_base_addr = 0x800,
     sid_root = [stream_3], s1_sup_port_mask = 6, s1_io = station_io\<rparr>"

theorem stream_replaces_station_witness:
  "\<exists>s'. sid_port_pos_write smac_ram \<lparr>pp_port = 1, pp_pos = OUT_FAC_IN\<rparr> 18 6 station_demo = Some (6, s')
     \<and> edgx_brfdb_is_fdb_fit (candidates (ram_tab station_io) small_fdb [1, 2, 3, 4, 5, 6] 5 ! 0) [9, 1, 0, 0, 0, 0] 7
     \<and> \<not> edgx_brfdb_is_fdb_fit (candidates (ram_tab (s1_io s')) small_fdb [1, 2, 3, 4, 5, 6] 5 ! 0) [9, 1, 0, 0, 0, 0] 7
     \<and> fwd_mask (candidates (ram_tab (s1_io s')) small_fdb [1, 2, 3, 4, 5, 6] 5 ! 0) = 4"
proof -
  let ?es = "candidates (ram_tab station_io) small_fdb [1, 2, 3, 4, 5, 6] 5"
  have e: "?es ! 0 = \<lparr>general = 0x9000, mac = [9, 1, 0, 0, 0, 0], fwd_mask = 4, policed_pts = 0, policer = 0, vlan = 7, stream_no = 0\<rparr>"
    "?es ! 1 = \<lparr>general = 0, mac = [0, 0, 0, 0, 0, 0], fwd_mask = 0, policed_pts = 0, policer = 0, vlan = 0, stream_no = 0\<rparr>"
    by (simp_all add: nth_candidates small_row ram_tab_def Let_def mac_bytes_def smac_addr_def SMAC_CTL_POS_def station_io_def)
  have fit: "edgx_brfdb_is_fdb_fit (?es ! 0) [9, 1, 0, 0, 0, 0] 7" by (simp add: e fit_fields edgx_brfdb_is_fdb_used_def)
  have chk: "edgx_sid_check_add 3 \<lparr>pp_port = 1, pp_pos = OUT_FAC_IN\<rparr> station_demo = 0"
    by (simp add: edgx_sid_check_add_def station_demo_def edgx_br_get_num_ports_def edgx_br_get_generic_def edgx_rd16_def station_io_def)
  have c: "smac_contract smac_ram (fdb_iobase (s1_fdb station_demo)) ram_tab" by (simp add: station_demo_def smac_ram_contract)
  have sr: "edgx_sid_rbt_search (sid_root station_demo) 3 = Some stream_3" by (simp add: edgx_sid_rbt_search_def station_demo_def stream_3_def)
  have f: "s1_fdb station_demo = small_fdb" "s1_io station_demo = station_io" "sid_addr stream_3 = [1, 2, 3, 4, 5, 6]" "sid_vid stream_3 = 5"
    "str_hdl stream_3 = 3" "id_type stream_3 = 1" "\<not> valid_fdb stream_3"
    by (simp_all add: station_demo_def stream_3_def)
  have un: "\<not> edgx_brfdb_is_sid_used (?es ! 0)" "\<not> edgx_brfdb_is_sid_used (?es ! 1)" unfolding e edgx_brfdb_is_sid_used_def by simp_all
  from stream_replaces_station [OF c _ _ chk _ sr] un fit show ?thesis by (auto simp: f Let_def e(1))
qed

section \<open>A rejected identification\<close>

text \<open>
  Property C39. A write of parameters for a new handle that is rejected because of its parameters still
  creates the stream: the write fails with \<open>-EINVAL\<close>, and from then on every write of parameters for the handle
  fails with \<open>-EEXIST\<close>, until the stream is deleted.
\<close>

theorem rejected_identification_blocks_handle:
  assumes "sorted_wrt (<) (map str_hdl (sid_root s))" "hdl < s1_max_streams s" "edgx_sid_rbt_search (sid_root s) hdl = None"
    and "edgx_sid_check_ident hdl p s \<noteq> 0"
  shows "\<exists>s'. sid_ident_params_write dev True p (uint hdl * 18) 18 s = Some (- EINVAL, s')
    \<and> s1_total_cnt s' = s1_total_cnt s + 1 \<and> edgx_sid_rbt_search (sid_root s') hdl = Some (new_sid hdl)
    \<and> (\<forall>dev' ok q. sid_ident_params_write dev' ok q (uint hdl * 18) 18 s' = Some (- EEXIST, s'))"
proof -
  have k: "str_hdl (new_sid hdl) = hdl" by (simp add: new_sid_def)
  obtain ns where ns: "rb_insert str_hdl (sid_root s) (new_sid hdl) = (0, ns)"
    "\<And>j. edgx_sid_rbt_search ns j = (if j = hdl then Some (new_sid hdl) else edgx_sid_rbt_search (sid_root s) j)"
    using s1.search_insert [OF assms(1), of "new_sid hdl"] assms(3) unfolding k by blast
  define s' where "s' = s\<lparr>sid_root := ns, s1_total_cnt := s1_total_cnt s + 1\<rparr>"
  have cr: "edgx_sid_try_create True hdl s = (0, s')"
    using assms(2,3) ns(1) by (simp add: edgx_sid_try_create_def edgx_sid_rbt_insert_def s'_def)
  have "edgx_sid_check_ident hdl p s' = edgx_sid_check_ident hdl p s" by (simp add: edgx_sid_check_ident_def s'_def)
  then have "sid_ident_params_write dev True p (uint hdl * 18) 18 s = Some (- EINVAL, s')"
    using assms(2,4) cr by (simp add: sid_ident_params_write_def sid1_write_def sid1_idx_ok edgx_sid_try_ident_add_def)
  moreover have "sid_ident_params_write dev' ok q (uint hdl * 18) 18 s' = Some (- EEXIST, s')" for dev' ok q
  proof -
    have "hdl < s1_max_streams s'" "edgx_sid_rbt_search (sid_root s') hdl = Some (new_sid hdl)" using assms(2) ns(2) by (simp_all add: s'_def)
    then show ?thesis by (simp add: sid_ident_params_write_def sid1_write_def sid1_idx_ok edgx_sid_try_create_def)
  qed
  ultimately show ?thesis using ns(2) by (intro exI [of _ s']) (simp add: s'_def)
qed

theorem rejected_identification_blocks_handle_witness:
  "\<exists>s'. sid_ident_params_write smac_ram True \<lparr>ip_addr = [1, 2, 3, 4, 5, 6], ip_tag = SID_TAGGED, ip_vid = 4095, ip_id_type = SID_NULL, ip_str_hdl = 0\<rparr>
       72 18 station_demo = Some (- 22, s')
     \<and> sid_ident_params_write smac_ram True \<lparr>ip_addr = [1, 2, 3, 4, 5, 6], ip_tag = SID_TAGGED, ip_vid = 5, ip_id_type = SID_NULL, ip_str_hdl = 0\<rparr>
       72 18 s' = Some (- 17, s')"
proof -
  let ?p = "\<lparr>ip_addr = [1, 2, 3, 4, 5, 6 :: u8], ip_tag = SID_TAGGED, ip_vid = 4095, ip_id_type = SID_NULL, ip_str_hdl = 0\<rparr>"
  have h: "sorted_wrt (<) (map str_hdl (sid_root station_demo))" "(4 :: u16) < s1_max_streams station_demo"
    "edgx_sid_rbt_search (sid_root station_demo) 4 = None" "edgx_sid_check_ident 4 ?p station_demo \<noteq> 0"
    by (simp_all add: station_demo_def stream_3_def edgx_sid_rbt_search_def edgx_sid_check_ident_def)
  from rejected_identification_blocks_handle [OF h, of smac_ram] show ?thesis by auto
qed

end
