(* ===== verification/BrSid2Tab.thy ===== *)
theory BrSid2Tab
  imports BrSid2 FrerTab
begin

text \<open>
  What the stream identification with its own table relies on: the laws of its trees, the contract of
  the table in the hardware, the effect of the table accesses, and the handles of the ports of a row.
\<close>

unbundle bit_operations_syntax

section \<open>Trees\<close>

lemma sid_search_eq:
  "sorted_wrt (<) (map key ns) \<Longrightarrow> sid_rb_search key ns k = Some n \<longleftrightarrow> n \<in> set ns \<and> key n = k"
  by (induction ns) auto

lemma sid_insert_new:
  "sorted_wrt (<) (map key ns) \<Longrightarrow> key n \<notin> key ` set ns \<Longrightarrow>
   \<exists>ns'. sid_rb_insert key ns n = (0, ns') \<and> sorted_wrt (<) (map key ns') \<and> set ns' = insert n (set ns)"
proof (induction ns)
  case (Cons m ns)
  show ?case
  proof (cases "key n < key m")
    case True
    then show ?thesis using Cons.prems by (auto dest: less_trans)
  next
    case False
    then have "key m < key n" using Cons.prems(2) by auto
    moreover obtain ns' where "sid_rb_insert key ns n = (0, ns')" "sorted_wrt (<) (map key ns')" "set ns' = insert n (set ns)"
      using Cons by auto
    ultimately show ?thesis using Cons.prems by auto
  qed
qed simp

interpretation so: rb_map o_key "sid_rb_search o_key" "sid_rb_insert o_key"
  by unfold_locales (simp_all add: sid_search_eq sid_insert_new)

interpretation st: rb_map tm_key "sid_rb_search tm_key" "sid_rb_insert tm_key"
  by unfold_locales (simp_all add: sid_search_eq sid_insert_new)

interpretation sh: rb_map ht_key "sid_rb_search ht_key" "sid_rb_insert ht_key"
  by unfold_locales (simp_all add: sid_search_eq sid_insert_new)

interpretation sto: rb_map to_key "sid_rb_search to_key" "sid_rb_insert to_key"
  by unfold_locales (simp_all add: sid_search_eq sid_insert_new)

section \<open>The table\<close>

text \<open>
  \<open>tab io p\<close> are the seventeen words of the row at position \<open>p\<close>. A command with bit 14 stores the data
  registers there, one without leaves the table alone; every command ends.
\<close>

definition sid_contract :: "device \<Rightarrow> nat \<Rightarrow> (iomem \<Rightarrow> u16 \<Rightarrow> u16 list) \<Rightarrow> bool" where
  "sid_contract dev base tab \<longleftrightarrow>
     (\<forall>io cmd. bit cmd 15 \<longrightarrow>
        (\<exists>io'. wait_clear dev (sid_tab_busy base) (edgx_wr16 io base 0x280 cmd) = Some io'
           \<and> tab io' = (if bit cmd 14 then (tab io)(cmd AND 0x3FFF := map (\<lambda>j. edgx_rd16 io base (0x290 + 2 * j)) [0..<17]) else tab io)))
   \<and> (\<forall>io j v. j < 17 \<longrightarrow> tab (edgx_wr16 io base (0x290 + 2 * j) v) = tab io)"

definition tab_flags :: "sid_tab_entry \<Rightarrow> u16" where
  "tab_flags e = (if te_used e then 1 else 0) OR (if te_match_vlan e then 2 else 0)"

text \<open>The words of a row that an access with \<open>n\<close> ports stores.\<close>

definition entry_words :: "nat \<Rightarrow> sid_tab_entry \<Rightarrow> u16 list" where
  "entry_words n e =
     [tab_flags e, mac16 (te_mac e) 0, mac16 (te_mac e) 1, mac16 (te_mac e) 2, te_vid e] @ map (\<lambda>i. te_str_hdl e ! i) [0..<n]"

definition row_used :: "u16 list \<Rightarrow> bool" where
  "row_used ws \<longleftrightarrow> ws ! 0 AND 1 \<noteq> 0"

lemma tab_flags_used: "tab_flags e AND 1 \<noteq> 0 \<longleftrightarrow> te_used e"
  by (simp add: tab_flags_def bit.conj_disj_distrib2)

lemma sid_ctl_bits: "bit (SID_CTL_POS row col) i \<longleftrightarrow> (i < 12 \<and> bit row i) \<or> (12 \<le> i \<and> i < 14 \<and> bit col (i - 12))"
proof -
  have m: "(3 :: u16) = mask 2" "(0xFFF :: u16) = mask 12" by (simp_all add: mask_eq_exp_minus_1)
  show ?thesis unfolding SID_CTL_POS_def m
    by (auto simp: bit_or_iff bit_push_bit_iff bit_and_iff bit_mask_iff dest: bit_imp_le_length)
qed

lemma sid_cmd_pos: "(0xC000 OR SID_CTL_POS row col) AND 0x3FFF = SID_CTL_POS row col"
proof (rule bit_eqI)
  fix i :: nat
  have m: "(0x3FFF :: u16) = mask 14" by (simp add: mask_eq_exp_minus_1)
  show "bit ((0xC000 OR SID_CTL_POS row col) AND 0x3FFF) i = bit (SID_CTL_POS row col) i"
    unfolding m by (simp only: bit_and_iff bit_or_iff bit_mask_iff bit_16_consts sid_ctl_bits) auto
qed

lemma sid_cmd_bits:
  "bit (0xC000 OR SID_CTL_POS row col) 15" "bit (0xC000 OR SID_CTL_POS row col) 14"
  "bit (0x8000 OR SID_CTL_POS row col) 15" "\<not> bit (0x8000 OR SID_CTL_POS row col) 14"
  by (simp_all only: bit_or_iff bit_16_consts sid_ctl_bits) simp_all

lemma fold_wr_hdls:
  "fold (\<lambda>i io. edgx_wr16 io base (0x29a + i * 2) (hs ! i)) [0..<n] io x
     = (if \<exists>i < n. x = base + (0x29a + i * 2) then hs ! ((x - base - 0x29a) div 2) else io x)"
  by (induction n) (auto simp: edgx_wr16_def less_Suc_eq)

lemma tab_setD:
  assumes c: "sid_contract dev (tab_iobase s) tab" and n: "port_cnt s \<le> 12"
  obtains io' ws where "edgx_sid_tab_set dev col row e s = Some (s\<lparr>s2_io := io'\<rparr>)"
    "tab io' = (tab (s2_io s))(SID_CTL_POS row col := ws)" "take (5 + port_cnt s) ws = entry_words (port_cnt s) e"
    "row_used ws = te_used e"
proof -
  let ?b = "tab_iobase s"
  define io1 where "io1 = edgx_wr16 (edgx_wr16 (edgx_wr16 (edgx_wr16 (edgx_wr16 (s2_io s) ?b 0x290 (tab_flags e)) ?b 0x292 (mac16 (te_mac e) 0))
      ?b 0x294 (mac16 (te_mac e) 1)) ?b 0x296 (mac16 (te_mac e) 2)) ?b 0x298 (te_vid e)"
  define io2 where "io2 = fold (\<lambda>i io. edgx_wr16 io ?b (0x29a + i * 2) (te_str_hdl e ! i)) [0..<port_cnt s] io1"
  have wr: "tab (edgx_wr16 io ?b (0x290 + 2 * j) v) = tab io" if "j < 17" for io j v
    using c that unfolding sid_contract_def by blast
  have t1: "tab io1 = tab (s2_io s)"
    using wr [of 0] wr [of 1] wr [of 2] wr [of 3] wr [of 4] by (simp add: io1_def)
  have "tab (fold (\<lambda>i io. edgx_wr16 io ?b (0x29a + i * 2) (te_str_hdl e ! i)) [0..<m] io) = tab io" if "m \<le> 12" for m io
    using that
  proof (induction m)
    case (Suc m)
    have "tab (edgx_wr16 io' ?b (0x29a + m * 2) v) = tab io'" for io' v
      using wr [of "5 + m" io' v] Suc.prems by (simp add: mult.commute)
    then show ?case using Suc by (simp del: wr16_apply)
  qed simp
  then have t2: "tab io2 = tab (s2_io s)" using n by (simp add: io2_def t1)
  define ws where "ws = map (\<lambda>j. edgx_rd16 io2 ?b (0x290 + 2 * j)) [0..<17]"
  from c sid_cmd_bits(1,2) [of row col] obtain io' where io':
    "wait_clear dev (sid_tab_busy ?b) (edgx_wr16 io2 ?b 0x280 (0xC000 OR SID_CTL_POS row col)) = Some io'"
    "tab io' = (tab io2)((0xC000 OR SID_CTL_POS row col) AND 0x3FFF := ws)"
    unfolding sid_contract_def ws_def by (metis (no_types, lifting))
  have r: "edgx_rd16 io2 ?b (0x290 + 2 * j) = (if j < 5 then [tab_flags e, mac16 (te_mac e) 0, mac16 (te_mac e) 1, mac16 (te_mac e) 2, te_vid e] ! j
      else te_str_hdl e ! (j - 5))" if "j < 5 + port_cnt s" for j
  proof (cases "j < 5")
    case True
    have low: "io2 x = io1 x" if "x < ?b + 0x29a" for x using that unfolding io2_def fold_wr_hdls by auto
    from True have "j = 0 \<or> j = 1 \<or> j = 2 \<or> j = 3 \<or> j = 4" by auto
    then show ?thesis by (auto simp: edgx_rd16_def low io1_def)
  next
    case False
    then have "?b + (0x290 + 2 * j) = ?b + (0x29a + (j - 5) * 2)" "j - 5 < port_cnt s" using that by auto
    moreover have "(?b + (0x29a + (j - 5) * 2) - ?b - 0x29a) div 2 = j - 5" by simp
    ultimately show ?thesis using False unfolding edgx_rd16_def io2_def fold_wr_hdls by (auto simp: exI [of _ "j - 5"])
  qed
  have "edgx_sid_tab_set dev col row e s = Some (s\<lparr>s2_io := io'\<rparr>)"
    using io'(1) unfolding edgx_sid_tab_set_def Let_def tab_flags_def [symmetric] io1_def [symmetric] io2_def [symmetric] by simp
  moreover have "take (5 + port_cnt s) ws = entry_words (port_cnt s) e"
  proof (rule nth_equalityI)
    show "length (take (5 + port_cnt s) ws) = length (entry_words (port_cnt s) e)" using n by (simp add: ws_def entry_words_def)
    fix j assume "j < length (take (5 + port_cnt s) ws)"
    then have j: "j < 5 + port_cnt s" "j < 17" by (simp_all add: ws_def)
    show "take (5 + port_cnt s) ws ! j = entry_words (port_cnt s) e ! j"
    proof (cases "j < 5")
      case True
      then have "j = 0 \<or> j = 1 \<or> j = 2 \<or> j = 3 \<or> j = 4" by auto
      then show ?thesis using j r [OF j(1)] by (auto simp: ws_def entry_words_def)
    next
      case False
      then obtain i where i: "j = 5 + i" by (metis le_Suc_ex not_less)
      then show ?thesis using j r [OF j(1)] by (simp add: ws_def entry_words_def nth_append)
    qed
  qed
  moreover have "row_used ws = te_used e" using r [of 0] tab_flags_used [of e] by (simp add: row_used_def ws_def)
  moreover have "tab io' = (tab (s2_io s))(SID_CTL_POS row col := ws)" using io'(2) unfolding sid_cmd_pos t2 .
  ultimately show thesis using that by blast
qed

text \<open>The dump leaves the table alone.\<close>

lemma tab_get_allD:
  assumes "sid_contract dev (tab_iobase s) tab"
  shows "\<exists>io'. tab_get_all dev ps s = Some (s\<lparr>s2_io := io'\<rparr>) \<and> tab io' = tab (s2_io s)"
  using assms
proof (induction ps arbitrary: s)
  case Nil
  show ?case by (intro exI [of _ "s2_io s"]) simp
next
  case (Cons p ps)
  obtain row col where p: "p = (row, col)" by (cases p)
  obtain io1 where 1: "wait_clear dev (sid_tab_busy (tab_iobase s))
      (edgx_wr16 (s2_io s) (tab_iobase s) 0x280 (0x8000 OR SID_CTL_POS (of_nat row) (of_nat col))) = Some io1" "tab io1 = tab (s2_io s)"
    using Cons.prems sid_cmd_bits(3,4) unfolding sid_contract_def by (metis (no_types, lifting))
  show ?case using Cons.IH [of "s\<lparr>s2_io := io1\<rparr>"] Cons.prems 1 by (simp add: p edgx_sid_tab_get_def Let_def)
qed

lemma dumpD:
  assumes "sid_contract dev (tab_iobase s) tab"
  obtains io' where "sid_dump dev s = Some (s\<lparr>s2_io := io'\<rparr>)" "tab io' = tab (s2_io s)"
  using tab_get_allD [OF assms] unfolding sid_dump_def by blast

section \<open>Keys of rows\<close>

definition kpos :: "u64 \<Rightarrow> u16" where
  "kpos k = SID_CTL_POS (ucast (drop_bit 8 k)) (ucast (ucast (k AND 0xff) :: u8))"

definition valid_key :: "u64 \<Rightarrow> bool" where
  "valid_key k \<longleftrightarrow> (\<forall>i. bit k i \<longrightarrow> i < 2 \<or> (8 \<le> i \<and> i < 20))"

lemma kpos_bits: "bit (kpos k) i \<longleftrightarrow> (i < 12 \<and> bit k (i + 8)) \<or> (12 \<le> i \<and> i < 14 \<and> bit k (i - 12))"
proof -
  have m: "(0xff :: u64) = mask 8" by (simp add: mask_eq_exp_minus_1)
  show ?thesis unfolding kpos_def sid_ctl_bits m
    by (auto simp: bit_unsigned_iff bit_drop_bit_eq bit_and_iff bit_mask_iff add.commute)
qed

lemma kpos_inj: "valid_key k \<Longrightarrow> valid_key k' \<Longrightarrow> kpos k = kpos k' \<Longrightarrow> k = k'"
proof (rule bit_eqI)
  fix i :: nat
  assume v: "valid_key k" "valid_key k'" and e: "kpos k = kpos k'"
  have b: "bit (kpos k) j = bit (kpos k') j" for j using e by simp
  consider "i < 2" | "8 \<le> i" "i < 20" | "\<not> i < 2" "\<not> (8 \<le> i \<and> i < 20)" by blast
  then show "bit k i = bit k' i"
  proof cases
    case 1 then show ?thesis using b [of "i + 12"] by (simp add: kpos_bits)
  next
    case 2
    then have "i - 8 < 12" "i - 8 + 8 = i" by simp_all
    then show ?thesis using b [of "i - 8"] by (simp add: kpos_bits)
  next
    case 3 then show ?thesis using v unfolding valid_key_def by blast
  qed
qed

lemma ht_key_valid:
  assumes "row < 0x1000" "c < 4" shows "valid_key (sid_ht_get_key row (of_nat c))"
  unfolding valid_key_def
proof (intro allI impI)
  fix i assume b: "bit (sid_ht_get_key row (of_nat c)) i"
  have r: "bit row j \<Longrightarrow> j < 12" for j using small_bit_12 [OF assms(1), of j] by (cases "12 \<le> j") auto
  have "take_bit 2 c = c" using assms(2) by (simp add: take_bit_nat_eq_self)
  then have "take_bit 2 (of_nat c) = (of_nat c :: u8)" by (simp only: take_bit_of_nat)
  then have c: "bit (of_nat c :: u8) j \<Longrightarrow> j < 2" for j by (metis bit_take_bit_iff)
  from b have "(8 \<le> i \<and> bit row (i - 8)) \<or> bit (of_nat c :: u8) i"
    by (auto simp: sid_ht_get_key_def bit_or_iff bit_push_bit_iff bit_unsigned_iff)
  then show "i < 2 \<or> (8 \<le> i \<and> i < 20)" using r c by fastforce
qed

section \<open>Handles of a row\<close>

text \<open>An ordinal gives a port its handle.\<close>

definition speaks :: "nat \<Rightarrow> sid_tmvt_o_entry \<Rightarrow> bool" where
  "speaks i toe \<longleftrightarrow> to_str_hdl toe \<noteq> SID_INVALID_STRHDL \<and> to_port_mask toe AND BIT (i + 1) \<noteq> 0"

text \<open>The handle of a port is that of the first ordinal that speaks for it.\<close>

definition first_hdl :: "sid_tmvt_o_entry list \<Rightarrow> nat \<Rightarrow> u16" where
  "first_hdl toes i = (case find (speaks i) toes of None \<Rightarrow> 0 | Some toe \<Rightarrow> to_str_hdl toe)"

definition found :: "nat \<Rightarrow> sid_tmvt_o_entry list \<Rightarrow> bool" where
  "found n toes \<longleftrightarrow> (\<exists>toe \<in> set toes. \<exists>i < n. speaks i toe)"

lemma put_hdls_eq:
  assumes "length hs = 12" "n \<le> 12"
  shows "put_hdls n toe (hs, f) =
    (map (\<lambda>i. if i < n \<and> speaks i toe then to_str_hdl toe else hs ! i) [0..<12], f \<or> (\<exists>i < n. speaks i toe))"
proof (cases "to_port_mask toe \<noteq> 0 \<and> to_str_hdl toe \<noteq> SID_INVALID_STRHDL")
  case True
  then have sp: "speaks i toe \<longleftrightarrow> to_port_mask toe AND BIT (i + 1) \<noteq> 0" for i by (simp add: speaks_def)
  have "fold (\<lambda>i (hs, found). if speaks i toe then (hs[i := to_str_hdl toe], True) else (hs, found)) [0..<m] (hs, f)
    = (map (\<lambda>i. if i < m \<and> speaks i toe then to_str_hdl toe else hs ! i) [0..<12], f \<or> (\<exists>i < m. speaks i toe))" if "m \<le> 12" for m
    using that
  proof (induction m)
    case 0
    then show ?case using assms(1) by (auto simp: list_eq_iff_nth_eq)
  next
    case (Suc m)
    then show ?case unfolding upt_Suc_append [OF le0] fold_append
      by (auto simp: list_eq_iff_nth_eq nth_list_update less_Suc_eq)
  qed
  from this [OF assms(2), unfolded sp] show ?thesis using True unfolding put_hdls_def sp by simp
next
  case False
  then have "\<not> speaks i toe" for i by (auto simp: speaks_def)
  then show ?thesis using False assms(1) by (auto simp: put_hdls_def list_eq_iff_nth_eq)
qed

lemma gen_hdls_eq:
  assumes "n \<le> 12"
  shows "gen_hdls n toes = (map (\<lambda>i. if i < n then first_hdl toes i else 0) [0..<12], found n toes)"
proof (induction toes)
  case Nil
  then show ?case by (auto simp: gen_hdls_def first_hdl_def found_def list_eq_iff_nth_eq)
next
  case (Cons toe toes)
  have "gen_hdls n (toe # toes) = put_hdls n toe (gen_hdls n toes)" by (simp add: gen_hdls_def)
  also have "\<dots> = (map (\<lambda>i. if i < n then first_hdl (toe # toes) i else 0) [0..<12], found n (toe # toes))"
    unfolding Cons.IH using assms by (subst put_hdls_eq) (auto simp: first_hdl_def found_def)
  finally show ?case .
qed

end
