(* ===== verification/BrSid2Inv.thy ===== *)
theory BrSid2Inv
  imports BrSid2Tab
begin

text \<open>
  The invariant of the stream identification with its own table: the three trees describe the same
  identifications, and the used rows of the table are those of the identifications that give a port a
  handle, with the handles of the first ordinals. The update of the rows of an identification restores it.
\<close>

unbundle bit_operations_syntax

section \<open>Invariant\<close>

definition slots :: "sid_tmvt_entry \<Rightarrow> u64 list" where
  "slots t = (case tm_ht0 t of None \<Rightarrow> [] | Some k \<Rightarrow> [k]) @ (case tm_ht1 t of None \<Rightarrow> [] | Some k \<Rightarrow> [k])"

definition slot_tag :: "sid_tmvt_entry \<Rightarrow> u64 \<Rightarrow> u32" where
  "slot_tag t k = (if tm_tag t \<noteq> SID_ALL then tm_tag t else if tm_ht0 t = Some k then SID_TAGGED else SID_PRIORITY)"

definition row_entry :: "nat \<Rightarrow> sid_tmvt_entry \<Rightarrow> u64 \<Rightarrow> sid_tab_entry" where
  "row_entry n t k = \<lparr>te_used = True, te_match_vlan = edgx_sid_get_match_vlan (slot_tag t k) (tm_vid t), te_mac = tm_addr t,
     te_vid = tm_vid t, te_str_hdl = fst (gen_hdls n (tm_o_root t))\<rparr>"

definition tmvt_ok :: "sid_tmvt_entry \<Rightarrow> bool" where
  "tmvt_ok t \<longleftrightarrow> sorted_wrt (<) (map to_key (tm_o_root t)) \<and> tm_ht0 t \<noteq> None \<and> (tm_ht1 t \<noteq> None \<longleftrightarrow> tm_tag t = SID_ALL)
     \<and> distinct (slots t)"

definition sid_soft :: "edgx_sid2_br \<Rightarrow> bool" where
  "sid_soft s \<longleftrightarrow> port_cnt s \<le> 12 \<and> 0 < tab_row_cnt s \<and> tab_row_cnt s \<le> 0x1000
     \<and> sorted_wrt (<) (map o_key (rb_o_root s)) \<and> sorted_wrt (<) (map tm_key (rb_tmvt_root s)) \<and> sorted_wrt (<) (map ht_key (rb_ht_root s))
     \<and> (\<forall>x \<in> set (rb_o_root s). o_key x = ucast (o_ord x))
     \<and> (\<forall>t \<in> set (rb_tmvt_root s). tmvt_ok t)
     \<and> (\<forall>h \<in> set (rb_ht_root s). valid_key (ht_key h))
     \<and> (\<forall>k a. (\<exists>h \<in> set (rb_ht_root s). ht_key h = k \<and> ht_tmvt h = a) \<longleftrightarrow> (\<exists>t \<in> set (rb_tmvt_root s). tm_key t = a \<and> k \<in> set (slots t)))
     \<and> (\<forall>k a. (\<exists>x \<in> set (rb_o_root s). o_key x = k \<and> o_tmvt x = a)
          \<longleftrightarrow> (\<exists>t \<in> set (rb_tmvt_root s). tm_key t = a \<and> k \<in> to_key ` set (tm_o_root t)))"

definition hw_used :: "(iomem \<Rightarrow> u16 \<Rightarrow> u16 list) \<Rightarrow> edgx_sid2_br \<Rightarrow> bool" where
  "hw_used tab s \<longleftrightarrow> (\<forall>p. row_used (tab (s2_io s) p) \<longleftrightarrow> (\<exists>h \<in> set (rb_ht_root s). ht_used h \<and> kpos (ht_key h) = p))"

definition hw_row :: "(iomem \<Rightarrow> u16 \<Rightarrow> u16 list) \<Rightarrow> edgx_sid2_br \<Rightarrow> sid_tmvt_entry \<Rightarrow> sid_ht_entry \<Rightarrow> bool" where
  "hw_row tab s t h \<longleftrightarrow> ht_used h = found (port_cnt s) (tm_o_root t)
     \<and> (ht_used h \<longrightarrow> take (5 + port_cnt s) (tab (s2_io s) (kpos (ht_key h))) = entry_words (port_cnt s) (row_entry (port_cnt s) t (ht_key h)))"

text \<open>The rows of all identifications but those of the keys in \<open>X\<close> are up to date.\<close>

definition hw_rows :: "(iomem \<Rightarrow> u16 \<Rightarrow> u16 list) \<Rightarrow> u64 set \<Rightarrow> edgx_sid2_br \<Rightarrow> bool" where
  "hw_rows tab X s \<longleftrightarrow> (\<forall>t \<in> set (rb_tmvt_root s). tm_key t \<notin> X \<longrightarrow>
     (\<forall>h \<in> set (rb_ht_root s). ht_tmvt h = tm_key t \<longrightarrow> hw_row tab s t h))"

lemma key_unique: "sorted_wrt (<) (map (key :: 'n \<Rightarrow> 'k::linorder) ns) \<Longrightarrow> x \<in> set ns \<Longrightarrow> y \<in> set ns \<Longrightarrow> key x = key y \<Longrightarrow> x = y"
proof (induction ns)
  case (Cons n ns)
  have l: "key n < key m" if "m \<in> set ns" for m using Cons.prems(1) that by simp
  show ?case
  proof (cases "x = n \<or> y = n")
    case True
    then show ?thesis using l [of x] l [of y] Cons.prems(2-4) by fastforce
  next
    case False
    then show ?thesis using Cons by simp
  qed
qed simp

lemma soft_row:
  assumes "sid_soft s" "t \<in> set (rb_tmvt_root s)" "k \<in> set (slots t)"
  obtains h where "h \<in> set (rb_ht_root s)" "ht_key h = k" "ht_tmvt h = tm_key t" "sid_rb_search ht_key (rb_ht_root s) k = Some h"
proof -
  have "\<exists>h \<in> set (rb_ht_root s). ht_key h = k \<and> ht_tmvt h = tm_key t" using assms unfolding sid_soft_def by blast
  then obtain h where h: "h \<in> set (rb_ht_root s)" "ht_key h = k" "ht_tmvt h = tm_key t" by blast
  moreover have "sorted_wrt (<) (map ht_key (rb_ht_root s))" using assms(1) by (simp add: sid_soft_def)
  ultimately show thesis using that sh.search_node [of "rb_ht_root s" h] by blast
qed

lemma soft_tmvt:
  assumes "sid_soft s" "t \<in> set (rb_tmvt_root s)"
  shows "sid_rb_search tm_key (rb_tmvt_root s) (tm_key t) = Some t" "tmvt_ok t"
proof -
  have "sorted_wrt (<) (map tm_key (rb_tmvt_root s))" using assms(1) by (simp add: sid_soft_def)
  from st.search_node [OF this assms(2)] show "sid_rb_search tm_key (rb_tmvt_root s) (tm_key t) = Some t" .
  show "tmvt_ok t" using assms by (simp add: sid_soft_def)
qed

lemma slots_ok:
  assumes "tmvt_ok t"
  shows "tm_tag t \<noteq> SID_ALL \<Longrightarrow> \<exists>k0. tm_ht0 t = Some k0 \<and> tm_ht1 t = None \<and> slots t = [k0]"
    and "tm_tag t = SID_ALL \<Longrightarrow> \<exists>k0 k1. tm_ht0 t = Some k0 \<and> tm_ht1 t = Some k1 \<and> slots t = [k0, k1] \<and> k0 \<noteq> k1"
proof -
  obtain k0 where k0: "tm_ht0 t = Some k0" using assms by (auto simp: tmvt_ok_def)
  show "\<exists>k0. tm_ht0 t = Some k0 \<and> tm_ht1 t = None \<and> slots t = [k0]" if "tm_tag t \<noteq> SID_ALL"
    using assms that k0 by (simp add: tmvt_ok_def slots_def)
  show "\<exists>k0 k1. tm_ht0 t = Some k0 \<and> tm_ht1 t = Some k1 \<and> slots t = [k0, k1] \<and> k0 \<noteq> k1" if all: "tm_tag t = SID_ALL"
  proof -
    obtain k1 where "tm_ht1 t = Some k1" using assms all by (auto simp: tmvt_ok_def)
    then show ?thesis using assms k0 by (simp add: tmvt_ok_def slots_def)
  qed
qed

section \<open>Rows set together\<close>

text \<open>The rows of the keys \<open>ks\<close> are used or not, as \<open>b\<close> says, with the words of \<open>W\<close>; all else is as before.\<close>

definition rows_set ::
    "(iomem \<Rightarrow> u16 \<Rightarrow> u16 list) \<Rightarrow> u64 list \<Rightarrow> bool \<Rightarrow> (u64 \<Rightarrow> sid_tab_entry) \<Rightarrow> edgx_sid2_br \<Rightarrow> edgx_sid2_br \<Rightarrow> bool" where
  "rows_set tab ks b W s s' \<longleftrightarrow>
     s' = s\<lparr>rb_ht_root := map (\<lambda>h. if ht_key h \<in> set ks then h\<lparr>ht_used := b\<rparr> else h) (rb_ht_root s), s2_io := s2_io s'\<rparr>
     \<and> (\<forall>k \<in> set ks. row_used (tab (s2_io s') (kpos k)) = b
          \<and> (b \<longrightarrow> take (5 + port_cnt s) (tab (s2_io s') (kpos k)) = entry_words (port_cnt s) (W k)))
     \<and> (\<forall>p. p \<notin> kpos ` set ks \<longrightarrow> tab (s2_io s') p = tab (s2_io s) p)"

lemma rows_set_two:
  assumes "rows_set tab [k0] b W s s1" "rows_set tab [k1] b W s1 s2" "kpos k0 \<noteq> kpos k1"
  shows "rows_set tab [k0, k1] b W s s2"
proof -
  have s1: "s1 = s\<lparr>rb_ht_root := map (\<lambda>h. if ht_key h \<in> set [k0] then h\<lparr>ht_used := b\<rparr> else h) (rb_ht_root s), s2_io := s2_io s1\<rparr>"
    and s2: "s2 = s1\<lparr>rb_ht_root := map (\<lambda>h. if ht_key h \<in> set [k1] then h\<lparr>ht_used := b\<rparr> else h) (rb_ht_root s1), s2_io := s2_io s2\<rparr>"
    using assms(1,2) unfolding rows_set_def by blast+
  have "rb_ht_root s1 = map (\<lambda>h. if ht_key h \<in> set [k0] then h\<lparr>ht_used := b\<rparr> else h) (rb_ht_root s)" "port_cnt s1 = port_cnt s"
    by (subst s1, simp)+
  then have "rb_ht_root s2 = map (\<lambda>h. if ht_key h \<in> set [k0, k1] then h\<lparr>ht_used := b\<rparr> else h) (rb_ht_root s)" "port_cnt s1 = port_cnt s"
    by (subst s2, auto)+
  moreover have "s2 = s\<lparr>rb_ht_root := rb_ht_root s2, s2_io := s2_io s2\<rparr>" using s1 s2 by (cases s; cases s1; cases s2; simp)
  ultimately show ?thesis using assms unfolding rows_set_def by auto
qed

lemma ht_pos: "SID_CTL_POS (sid_ht_get_row h) (ucast (sid_ht_get_col h)) = kpos (ht_key h)"
  by (simp add: kpos_def sid_ht_get_row_def sid_ht_get_col_def)

lemma deactivateD:
  assumes c: "sid_contract dev (tab_iobase s) tab" and n: "port_cnt s \<le> 12" and srt: "sorted_wrt (<) (map ht_key (rb_ht_root s))"
    and h: "h \<in> set (rb_ht_root s)" "ht_key h = k" and u: "\<not> ht_used h \<Longrightarrow> \<not> row_used (tab (s2_io s) (kpos k))"
  shows "\<exists>s'. sid_ht_deactivate dev k s = Some s' \<and> rows_set tab [k] False W s s'"
proof -
  have f: "sid_rb_search ht_key (rb_ht_root s) k = Some h" using sh.search_node [OF srt h(1)] h(2) by simp
  show ?thesis
  proof (cases "ht_used h")
    case False
    have "map (\<lambda>h. if ht_key h \<in> set [k] then h\<lparr>ht_used := False\<rparr> else h) (rb_ht_root s) = rb_ht_root s"
    proof (rule map_idI)
      fix x assume "x \<in> set (rb_ht_root s)"
      then show "(if ht_key x \<in> set [k] then x\<lparr>ht_used := False\<rparr> else x) = x"
        using key_unique [OF srt _ h(1)] h(2) False by (cases "ht_key x = k") auto
    qed
    then have "rows_set tab [k] False W s s" using u False by (simp add: rows_set_def)
    then show ?thesis using False by (simp add: sid_ht_deactivate_def f)
  next
    case True
    obtain io' ws where 1: "edgx_sid_tab_set dev (ucast (sid_ht_get_col h)) (sid_ht_get_row h) empty_tab_entry s = Some (s\<lparr>s2_io := io'\<rparr>)"
      "tab io' = (tab (s2_io s))(kpos k := ws)" "row_used ws = te_used empty_tab_entry"
      by (rule tab_setD [OF c n, of "ucast (sid_ht_get_col h)" "sid_ht_get_row h" empty_tab_entry]) (auto simp: ht_pos h(2))
    then have "rows_set tab [k] False W s (upd_ht k (\<lambda>h. h\<lparr>ht_used := False\<rparr>) (s\<lparr>s2_io := io'\<rparr>))"
      by (auto simp: rows_set_def upd_ht_def upd_node_def empty_tab_entry_def)
    then show ?thesis using True 1(1) by (simp add: sid_ht_deactivate_def f)
  qed
qed

lemma activateD:
  assumes c: "sid_contract dev (tab_iobase s) tab" and n: "port_cnt s \<le> 12" and srt: "sorted_wrt (<) (map ht_key (rb_ht_root s))"
    and h: "h \<in> set (rb_ht_root s)" "ht_key h = k" and t: "sid_rb_search tm_key (rb_tmvt_root s) (ht_tmvt h) = Some t"
    and W: "W k = e\<lparr>te_used := True, te_vid := tm_vid t, te_mac := tm_addr t, te_match_vlan := edgx_sid_get_match_vlan tag (tm_vid t)\<rparr>"
  shows "\<exists>s'. sid_ht_activate dev k tag e s = Some s' \<and> rows_set tab [k] True W s s'"
proof -
  have f: "sid_rb_search ht_key (rb_ht_root s) k = Some h" using sh.search_node [OF srt h(1)] h(2) by simp
  obtain io' ws where 1: "edgx_sid_tab_set dev (ucast (sid_ht_get_col h)) (sid_ht_get_row h) (W k) s = Some (s\<lparr>s2_io := io'\<rparr>)"
    "tab io' = (tab (s2_io s))(kpos k := ws)" "take (5 + port_cnt s) ws = entry_words (port_cnt s) (W k)" "row_used ws = te_used (W k)"
    by (rule tab_setD [OF c n, of "ucast (sid_ht_get_col h)" "sid_ht_get_row h" "W k"]) (auto simp: ht_pos h(2))
  then have "rows_set tab [k] True W s (upd_ht k (\<lambda>h. h\<lparr>ht_used := True\<rparr>) (s\<lparr>s2_io := io'\<rparr>))"
    by (auto simp: rows_set_def upd_ht_def upd_node_def W)
  then show ?thesis using 1(1) by (simp add: sid_ht_activate_def f t W [symmetric])
qed

section \<open>Update of the rows of an identification\<close>

lemma rows_set_fields:
  assumes "rows_set tab ks b W s s'"
  shows "rb_o_root s' = rb_o_root s" "rb_tmvt_root s' = rb_tmvt_root s" "port_cnt s' = port_cnt s" "tab_row_cnt s' = tab_row_cnt s"
    "tab_iobase s' = tab_iobase s" "s2_max_streams s' = s2_max_streams s" "s2_total_cnt s' = s2_total_cnt s"
    "rb_ht_root s' = map (\<lambda>h. if ht_key h \<in> set ks then h\<lparr>ht_used := b\<rparr> else h) (rb_ht_root s)"
proof -
  have "s' = s\<lparr>rb_ht_root := map (\<lambda>h. if ht_key h \<in> set ks then h\<lparr>ht_used := b\<rparr> else h) (rb_ht_root s), s2_io := s2_io s'\<rparr>"
    using assms unfolding rows_set_def by blast
  then show "rb_o_root s' = rb_o_root s" "rb_tmvt_root s' = rb_tmvt_root s" "port_cnt s' = port_cnt s" "tab_row_cnt s' = tab_row_cnt s"
    "tab_iobase s' = tab_iobase s" "s2_max_streams s' = s2_max_streams s" "s2_total_cnt s' = s2_total_cnt s"
    "rb_ht_root s' = map (\<lambda>h. if ht_key h \<in> set ks then h\<lparr>ht_used := b\<rparr> else h) (rb_ht_root s)"
    by (cases s, cases s', simp)+
qed

lemma rows_set_ht:
  assumes "rows_set tab ks b W s s'"
  shows "map ht_key (rb_ht_root s') = map ht_key (rb_ht_root s)"
    and "(\<exists>h \<in> set (rb_ht_root s'). P (ht_key h) (ht_tmvt h)) \<longleftrightarrow> (\<exists>h \<in> set (rb_ht_root s). P (ht_key h) (ht_tmvt h))"
proof -
  have "map (\<lambda>h. (ht_key h, ht_tmvt h)) (rb_ht_root s') = map (\<lambda>h. (ht_key h, ht_tmvt h)) (rb_ht_root s)"
    unfolding rows_set_fields(8) [OF assms] by (simp add: o_def if_distrib cong: if_cong)
  then have "(\<exists>x \<in> set (map (\<lambda>h. (ht_key h, ht_tmvt h)) (rb_ht_root s')). P (fst x) (snd x))
      \<longleftrightarrow> (\<exists>x \<in> set (map (\<lambda>h. (ht_key h, ht_tmvt h)) (rb_ht_root s)). P (fst x) (snd x))" by (simp only:)
  then show "(\<exists>h \<in> set (rb_ht_root s'). P (ht_key h) (ht_tmvt h)) \<longleftrightarrow> (\<exists>h \<in> set (rb_ht_root s). P (ht_key h) (ht_tmvt h))" by simp
  show "map ht_key (rb_ht_root s') = map ht_key (rb_ht_root s)" unfolding rows_set_fields(8) [OF assms] by (auto simp: o_def)
qed

lemma soft_rows_set:
  assumes "sid_soft s" "rows_set tab ks b W s s'" shows "sid_soft s'"
proof -
  have "(\<forall>h \<in> set (rb_ht_root s'). valid_key (ht_key h)) \<longleftrightarrow> (\<forall>k \<in> set (map ht_key (rb_ht_root s')). valid_key k)" by simp
  then have "\<forall>h \<in> set (rb_ht_root s'). valid_key (ht_key h)" using assms(1) unfolding rows_set_ht(1) [OF assms(2)] by (simp add: sid_soft_def)
  then show ?thesis using assms(1) rows_set_ht(2) [OF assms(2), where P = "\<lambda>x y. x = _ \<and> y = _"]
    unfolding sid_soft_def rows_set_fields [OF assms(2)] by (simp only: rows_set_ht(1) [OF assms(2)] rows_set_fields(8) [OF assms(2), symmetric]) simp
qed

lemma used_rows_set:
  assumes w: "sid_soft s" "hw_used tab s" and r: "rows_set tab ks b W s s'" and ks: "\<And>k. k \<in> set ks \<Longrightarrow> k \<in> ht_key ` set (rb_ht_root s)"
  shows "hw_used tab s'"
  unfolding hw_used_def
proof
  fix p
  have v: "\<And>h. h \<in> set (rb_ht_root s) \<Longrightarrow> valid_key (ht_key h)" using w(1) by (simp add: sid_soft_def)
  have H: "(\<exists>h \<in> set (rb_ht_root s'). ht_used h \<and> kpos (ht_key h) = p) \<longleftrightarrow>
      (\<exists>h \<in> set (rb_ht_root s). (if ht_key h \<in> set ks then b else ht_used h) \<and> kpos (ht_key h) = p)"
  proof -
    have "map (\<lambda>h. (ht_key h, ht_used h)) (rb_ht_root s') = map (\<lambda>h. (ht_key h, if ht_key h \<in> set ks then b else ht_used h)) (rb_ht_root s)"
      unfolding rows_set_fields(8) [OF r] by (simp add: o_def if_distrib cong: if_cong)
    then have "(\<exists>x \<in> set (map (\<lambda>h. (ht_key h, ht_used h)) (rb_ht_root s')). snd x \<and> kpos (fst x) = p) \<longleftrightarrow>
        (\<exists>x \<in> set (map (\<lambda>h. (ht_key h, if ht_key h \<in> set ks then b else ht_used h)) (rb_ht_root s)). snd x \<and> kpos (fst x) = p)" by (simp only:)
    then show ?thesis by simp
  qed
  show "row_used (tab (s2_io s') p) \<longleftrightarrow> (\<exists>h \<in> set (rb_ht_root s'). ht_used h \<and> kpos (ht_key h) = p)"
  proof (cases "p \<in> kpos ` set ks")
    case True
    then obtain k where k: "k \<in> set ks" "p = kpos k" by blast
    obtain h where h: "h \<in> set (rb_ht_root s)" "ht_key h = k" using ks [OF k(1)] by blast
    have one: "ht_key h' = k" if "h' \<in> set (rb_ht_root s)" "kpos (ht_key h') = p" for h'
      using kpos_inj [OF v [OF that(1)] v [OF h(1)]] that(2) h(2) k(2) by simp
    have "row_used (tab (s2_io s') p) = b" using r k unfolding rows_set_def by blast
    moreover have "(\<exists>h \<in> set (rb_ht_root s). (if ht_key h \<in> set ks then b else ht_used h) \<and> kpos (ht_key h) = p) = b"
    proof
      assume "\<exists>h \<in> set (rb_ht_root s). (if ht_key h \<in> set ks then b else ht_used h) \<and> kpos (ht_key h) = p"
      then obtain h' where "h' \<in> set (rb_ht_root s)" "kpos (ht_key h') = p" "if ht_key h' \<in> set ks then b else ht_used h'" by blast
      then show b using one [of h'] k(1) by simp
    next
      assume b
      then show "\<exists>h \<in> set (rb_ht_root s). (if ht_key h \<in> set ks then b else ht_used h) \<and> kpos (ht_key h) = p"
        using h k by (intro bexI [of _ h]) simp_all
    qed
    ultimately show ?thesis using H by simp
  next
    case False
    then have "tab (s2_io s') p = tab (s2_io s) p" using r unfolding rows_set_def by blast
    moreover have "(\<exists>h \<in> set (rb_ht_root s). (if ht_key h \<in> set ks then b else ht_used h) \<and> kpos (ht_key h) = p)
        \<longleftrightarrow> (\<exists>h \<in> set (rb_ht_root s). ht_used h \<and> kpos (ht_key h) = p)"
      using False by auto
    ultimately show ?thesis using w(2) H by (simp add: hw_used_def)
  qed
qed

lemma gen_rowsD:
  assumes c: "sid_contract dev (tab_iobase s) tab" and w: "sid_soft s" "hw_used tab s" and t: "t \<in> set (rb_tmvt_root s)"
  shows "\<exists>s'. sid_gen_port_str_hdls dev (tm_key t) s = Some s'
    \<and> rows_set tab (slots t) (found (port_cnt s) (tm_o_root t)) (row_entry (port_cnt s) t) s s'"
proof -
  let ?n = "port_cnt s" and ?W = "row_entry (port_cnt s) t" and ?b = "found (port_cnt s) (tm_o_root t)"
  have n: "?n \<le> 12" and srt: "sorted_wrt (<) (map ht_key (rb_ht_root s))" using w(1) by (simp_all add: sid_soft_def)
  note ts = soft_tmvt [OF w(1) t]
  have v: "\<And>h. h \<in> set (rb_ht_root s) \<Longrightarrow> valid_key (ht_key h)" using w(1) by (simp add: sid_soft_def)
  define hs where "hs = fst (gen_hdls ?n (tm_o_root t))"
  have g: "gen_hdls ?n (tm_o_root t) = (hs, ?b)" by (simp add: hs_def gen_hdls_eq [OF n])
  let ?e = "empty_tab_entry\<lparr>te_str_hdl := hs\<rparr>"
  have W: "?W k = ?e\<lparr>te_used := True, te_vid := tm_vid t, te_mac := tm_addr t, te_match_vlan := edgx_sid_get_match_vlan (slot_tag t k) (tm_vid t)\<rparr>" for k
    by (simp add: row_entry_def empty_tab_entry_def hs_def)
  have unused: "\<not> row_used (tab (s2_io s) (kpos k))" if "h \<in> set (rb_ht_root s)" "ht_key h = k" "\<not> ht_used h" for h k
  proof -
    have "ht_key h' = k" if "h' \<in> set (rb_ht_root s)" "kpos (ht_key h') = kpos k" for h'
      using kpos_inj [OF v [OF that(1)] v [OF \<open>h \<in> set (rb_ht_root s)\<close>]] that(2) \<open>ht_key h = k\<close> by simp
    then have "\<not> (\<exists>h' \<in> set (rb_ht_root s). ht_used h' \<and> kpos (ht_key h') = kpos k)"
      using that(2,3) key_unique [OF srt _ that(1)] by metis
    then show ?thesis using w(2) by (simp add: hw_used_def)
  qed
  text \<open>One row of the identification, in a state that has the same rows.\<close>
  have one: "\<exists>s2. (if ?b then sid_ht_activate dev k (slot_tag t k) ?e s1 else sid_ht_deactivate dev k s1) = Some s2 \<and> rows_set tab [k] ?b ?W s1 s2"
    if k: "k \<in> set (slots t)" and s1: "s1 = s \<or> (\<exists>k'. rows_set tab [k'] ?b ?W s s1 \<and> k' \<in> set (slots t) \<and> k' \<noteq> k)" for k s1
  proof -
    obtain h where h: "h \<in> set (rb_ht_root s)" "ht_key h = k" "ht_tmvt h = tm_key t" by (rule soft_row [OF w(1) t k])
    have f: "tab_iobase s1 = tab_iobase s" "port_cnt s1 = ?n" "map ht_key (rb_ht_root s1) = map ht_key (rb_ht_root s)"
      "rb_tmvt_root s1 = rb_tmvt_root s"
      using s1 rows_set_fields rows_set_ht(1) by auto
    have h1: "h \<in> set (rb_ht_root s1)" "tab (s2_io s1) (kpos k) = tab (s2_io s) (kpos k)"
    proof -
      have "h \<in> set (rb_ht_root s1) \<and> tab (s2_io s1) (kpos k) = tab (s2_io s) (kpos k)"
      proof (cases "s1 = s")
        case False
        then obtain k' where k': "rows_set tab [k'] ?b ?W s s1" "k' \<in> set (slots t)" "k' \<noteq> k" using s1 by blast
        obtain h' where h': "h' \<in> set (rb_ht_root s)" "ht_key h' = k'" by (rule soft_row [OF w(1) t k'(2)])
        have "kpos k' \<noteq> kpos k" using kpos_inj [OF v [OF h'(1)] v [OF h(1)]] h(2) h'(2) k'(3) by auto
        then have "tab (s2_io s1) (kpos k) = tab (s2_io s) (kpos k)" using k'(1) by (simp add: rows_set_def)
        moreover have "h \<in> set (rb_ht_root s1)" unfolding rows_set_fields(8) [OF k'(1)] using h(1,2) k'(3) by force
        ultimately show ?thesis by blast
      qed (use h in simp)
      then show "h \<in> set (rb_ht_root s1)" "tab (s2_io s1) (kpos k) = tab (s2_io s) (kpos k)" by blast+
    qed
    have srt1: "sorted_wrt (<) (map ht_key (rb_ht_root s1))" "sid_contract dev (tab_iobase s1) tab" "port_cnt s1 \<le> 12" using srt c n by (simp_all add: f)
    show ?thesis
    proof (cases ?b)
      case True
      have "sid_rb_search tm_key (rb_tmvt_root s1) (ht_tmvt h) = Some t" using ts(1) by (simp add: f h(3))
      from activateD [OF srt1(2,3,1) h1(1) h(2) this W] show ?thesis using True by simp
    next
      case False
      from deactivateD [OF srt1(2,3,1) h1(1) h(2), of ?W] unused [OF h(1,2)] h1(2) show ?thesis using False by simp
    qed
  qed
  show ?thesis
  proof (cases "tm_tag t = SID_ALL")
    case False
    then obtain k0 where k0: "tm_ht0 t = Some k0" "slots t = [k0]" using slots_ok(1) [OF ts(2)] by blast
    obtain s2 where "(if ?b then sid_ht_activate dev k0 (slot_tag t k0) ?e s else sid_ht_deactivate dev k0 s) = Some s2" "rows_set tab [k0] ?b ?W s s2"
      using one [of k0 s] k0(2) by auto
    then show ?thesis using False by (simp add: sid_gen_port_str_hdls_def ts(1) g k0 slot_tag_def split: if_split_asm)
  next
    case True
    then obtain k0 k1 where k: "tm_ht0 t = Some k0" "tm_ht1 t = Some k1" "slots t = [k0, k1]" "k0 \<noteq> k1" using slots_ok(2) [OF ts(2)] by blast
    obtain s1 where 1: "(if ?b then sid_ht_activate dev k0 (slot_tag t k0) ?e s else sid_ht_deactivate dev k0 s) = Some s1" "rows_set tab [k0] ?b ?W s s1"
      using one [of k0 s] k(3) by auto
    obtain s2 where 2: "(if ?b then sid_ht_activate dev k1 (slot_tag t k1) ?e s1 else sid_ht_deactivate dev k1 s1) = Some s2" "rows_set tab [k1] ?b ?W s1 s2"
      using one [of k1 s1] k(3,4) 1(2) by auto
    have m: "k0 \<in> set (slots t)" "k1 \<in> set (slots t)" by (simp_all add: k(3))
    obtain h0 where h0: "h0 \<in> set (rb_ht_root s)" "ht_key h0 = k0" by (rule soft_row [OF w(1) t m(1)])
    obtain h1 where h1: "h1 \<in> set (rb_ht_root s)" "ht_key h1 = k1" by (rule soft_row [OF w(1) t m(2)])
    have "kpos k0 \<noteq> kpos k1" using kpos_inj [OF v [OF h0(1)] v [OF h1(1)]] h0(2) h1(2) k(4) by blast
    from rows_set_two [OF 1(2) 2(2) this] 1(1) 2(1) True k show ?thesis
      by (simp add: sid_gen_port_str_hdls_def ts(1) g slot_tag_def split: if_split_asm)
  qed
qed

end
