(* ===== verification/BrSid2Ops.thy ===== *)
theory BrSid2Ops
  imports BrSid2Inv
begin

text \<open>
  The operations of the stream identification with its own table return, keep the invariant, and
  change the map from ordinals to identifications, handles and ports as they should.
\<close>

unbundle bit_operations_syntax

section \<open>Map and invariant\<close>

text \<open>What the files show of an ordinal: the key of its identification, its handle and its ports.\<close>

definition sid_map :: "edgx_sid2_br \<Rightarrow> u64 \<Rightarrow> (u64 \<times> u16 \<times> u32) option" where
  "sid_map s k = do {
     x \<leftarrow> sid_rb_search o_key (rb_o_root s) k;
     e \<leftarrow> tmvt_o_of x s;
     Some (o_tmvt x, to_str_hdl e, to_port_mask e)
   }"

definition sid_inv :: "(iomem \<Rightarrow> u16 \<Rightarrow> u16 list) \<Rightarrow> nat \<Rightarrow> edgx_sid2_br \<Rightarrow> bool" where
  "sid_inv tab base s \<longleftrightarrow> sid_soft s \<and> hw_used tab s \<and> hw_rows tab {} s \<and> (\<forall>t \<in> set (rb_tmvt_root s). tm_o_root t \<noteq> [])
     \<and> s2_total_cnt s = of_nat (card (set (rb_o_root s))) \<and> tab_iobase s = base"

lemma sorted_unique:
  assumes "sorted_wrt (<) (map (key :: 'n \<Rightarrow> 'k::linorder) xs)" "sorted_wrt (<) (map key ys)" "set xs = set ys"
  shows "xs = ys"
proof (rule map_sorted_distinct_set_unique)
  show "inj_on key (set xs \<union> set ys)" using key_unique [OF assms(1)] assms(3) by (auto intro: inj_onI)
qed (use assms in \<open>simp_all add: strict_sorted_iff\<close>)

lemma gen_silent:
  assumes "n \<le> 12" "sorted_wrt (<) (map to_key xs)" "sorted_wrt (<) (map to_key ys)" "set ys = insert e (set xs)" "\<And>i. \<not> speaks i e"
  shows "gen_hdls n ys = gen_hdls n xs"
proof -
  let ?P = "\<lambda>e. \<exists>i. speaks i e"
  have "filter ?P ys = filter ?P xs"
  proof (rule sorted_unique)
    show "sorted_wrt (<) (map to_key (filter ?P ys))" "sorted_wrt (<) (map to_key (filter ?P xs))"
      using assms(2,3) by (simp_all add: sorted_wrt_map sorted_wrt_filter)
    show "set (filter ?P ys) = set (filter ?P xs)" using assms(4,5) by auto
  qed
  moreover have "first_hdl zs i = first_hdl (filter ?P zs) i" for zs i
    unfolding first_hdl_def by (induction zs) auto
  moreover have "found n zs = found n (filter ?P zs)" for zs by (auto simp: found_def)
  ultimately have "first_hdl ys i = first_hdl xs i" "found n ys = found n xs" for i by metis+
  then show ?thesis by (simp add: gen_hdls_eq [OF assms(1)])
qed

section \<open>Update of the rows\<close>

lemma genD:
  assumes c: "sid_contract dev (tab_iobase s) tab" and w: "sid_soft s" "hw_used tab s" "hw_rows tab (insert (tm_key t) X) s"
    and t: "t \<in> set (rb_tmvt_root s)"
  shows "\<exists>s' b W. sid_gen_port_str_hdls dev (tm_key t) s = Some s' \<and> rows_set tab (slots t) b W s s'
    \<and> sid_soft s' \<and> hw_used tab s' \<and> hw_rows tab X s'
    \<and> (\<forall>h \<in> set (rb_ht_root s'). ht_tmvt h = tm_key t \<longrightarrow> ht_used h = found (port_cnt s) (tm_o_root t))"
proof -
  let ?n = "port_cnt s" and ?b = "found (port_cnt s) (tm_o_root t)" and ?W = "row_entry (port_cnt s) t"
  obtain s' where s': "sid_gen_port_str_hdls dev (tm_key t) s = Some s'" "rows_set tab (slots t) ?b ?W s s'"
    using gen_rowsD [OF c w(1,2) t] by blast
  note fld = rows_set_fields [OF s'(2)]
  have v: "\<And>h. h \<in> set (rb_ht_root s) \<Longrightarrow> valid_key (ht_key h)" and srt: "sorted_wrt (<) (map tm_key (rb_tmvt_root s))"
    using w(1) by (simp_all add: sid_soft_def)
  have owner: "ht_tmvt h = tm_key t' \<longleftrightarrow> ht_key h \<in> set (slots t')" if hs: "h \<in> set (rb_ht_root s)" and ts: "t' \<in> set (rb_tmvt_root s)" for h t'
  proof
    assume "ht_tmvt h = tm_key t'"
    then have "\<exists>t2 \<in> set (rb_tmvt_root s). tm_key t2 = tm_key t' \<and> ht_key h \<in> set (slots t2)" using w(1) hs unfolding sid_soft_def by blast
    then obtain t2 where t2: "t2 \<in> set (rb_tmvt_root s)" "tm_key t2 = tm_key t'" "ht_key h \<in> set (slots t2)" by blast
    then show "ht_key h \<in> set (slots t')" using key_unique [OF srt t2(1) ts] by simp
  next
    assume "ht_key h \<in> set (slots t')"
    then obtain h' where "h' \<in> set (rb_ht_root s)" "ht_key h' = ht_key h" "ht_tmvt h' = tm_key t'"
      by (rule soft_row [OF w(1) ts])
    moreover have "sorted_wrt (<) (map ht_key (rb_ht_root s))" using w(1) by (simp add: sid_soft_def)
    ultimately show "ht_tmvt h = tm_key t'" using key_unique hs by metis
  qed
  have mem: "\<exists>h0 \<in> set (rb_ht_root s). ht_key h = ht_key h0 \<and> ht_tmvt h = ht_tmvt h0 \<and> ht_used h = (if ht_key h0 \<in> set (slots t) then ?b else ht_used h0)"
    if hm: "h \<in> set (rb_ht_root s')" for h
  proof -
    from hm obtain h0 where "h0 \<in> set (rb_ht_root s)" "h = (if ht_key h0 \<in> set (slots t) then h0\<lparr>ht_used := ?b\<rparr> else h0)"
      unfolding fld by auto
    then show ?thesis by (intro bexI [of _ h0]) auto
  qed
  have used: "ht_used h = ?b" if hm: "h \<in> set (rb_ht_root s')" and ht: "ht_tmvt h = tm_key t" for h
  proof -
    obtain h0 where h0: "h0 \<in> set (rb_ht_root s)" "ht_tmvt h = ht_tmvt h0" "ht_used h = (if ht_key h0 \<in> set (slots t) then ?b else ht_used h0)"
      using mem [OF hm] by blast
    have "ht_key h0 \<in> set (slots t)" using owner [OF h0(1) t] h0(2) ht by (metis (no_types))
    then show ?thesis using h0(3) by (simp only: if_True)
  qed
  have "hw_rows tab X s'"
    unfolding hw_rows_def fld
  proof (intro ballI impI)
    fix t' h assume t': "t' \<in> set (rb_tmvt_root s)" "tm_key t' \<notin> X"
    assume "h \<in> set (map (\<lambda>h. if ht_key h \<in> set (slots t) then h\<lparr>ht_used := ?b\<rparr> else h) (rb_ht_root s))" "ht_tmvt h = tm_key t'"
    then have h: "h \<in> set (rb_ht_root s')" "ht_tmvt h = tm_key t'" by (simp_all only: fld)
    obtain h0 where h0: "h0 \<in> set (rb_ht_root s)" "ht_key h = ht_key h0" "ht_tmvt h = ht_tmvt h0"
      "ht_used h = (if ht_key h0 \<in> set (slots t) then ?b else ht_used h0)" using mem [OF h(1)] by blast
    show "hw_row tab s' t' h"
    proof (cases "t' = t")
      case True
      have k: "ht_key h \<in> set (slots t)" using owner [OF h0(1) t] h0(2,3) h(2) True by simp
      then have "?b \<longrightarrow> take (5 + ?n) (tab (s2_io s') (kpos (ht_key h))) = entry_words ?n (?W (ht_key h))"
        using s'(2) unfolding rows_set_def by blast
      then show ?thesis using used [OF h(1)] h(2) True by (simp add: hw_row_def fld)
    next
      case False
      then have ne: "tm_key t' \<noteq> tm_key t" using key_unique [OF srt t'(1) t] by blast
      then have nk: "ht_key h0 \<notin> set (slots t)" using owner [OF h0(1) t] h0(3) h(2) by simp
      have "kpos (ht_key h0) \<notin> kpos ` set (slots t)"
      proof
        assume "kpos (ht_key h0) \<in> kpos ` set (slots t)"
        then obtain k where k: "k \<in> set (slots t)" "kpos (ht_key h0) = kpos k" by blast
        obtain h1 where "h1 \<in> set (rb_ht_root s)" "ht_key h1 = k" by (rule soft_row [OF w(1) t k(1)])
        then show False using kpos_inj [OF v [OF h0(1)] v] k nk by metis
      qed
      then have tab: "tab (s2_io s') (kpos (ht_key h)) = tab (s2_io s) (kpos (ht_key h0))" using s'(2) h0(2) by (simp add: rows_set_def)
      have "hw_row tab s t' h0" using w(3) t' ne h0(1,3) h(2) unfolding hw_rows_def by auto
      then show ?thesis using tab h0(2,4) nk by (simp add: hw_row_def fld)
    qed
  qed
  moreover have "hw_used tab s'"
  proof (rule used_rows_set [OF w(1,2) s'(2)])
    fix k assume "k \<in> set (slots t)"
    then obtain h where "h \<in> set (rb_ht_root s)" "ht_key h = k" by (rule soft_row [OF w(1) t])
    then show "k \<in> ht_key ` set (rb_ht_root s)" by blast
  qed
  ultimately show ?thesis using s' soft_rows_set [OF w(1) s'(2)] used by blast
qed

lemma map_rows_set: "rows_set tab ks b W s s' \<Longrightarrow> sid_map s' = sid_map s"
  by (rule ext) (simp add: sid_map_def tmvt_o_of_def rows_set_fields)

section \<open>Changes of an ordinal\<close>

lemma search_sorted: "sorted_wrt (<) (map key ns) \<Longrightarrow> n \<in> set ns \<Longrightarrow> sid_rb_search key ns (key n) = Some n"
  by (simp add: sid_search_eq)

lemma soft_ord:
  assumes "sid_soft s" "x \<in> set (rb_o_root s)"
  obtains t e where "t \<in> set (rb_tmvt_root s)" "tm_key t = o_tmvt x" "e \<in> set (tm_o_root t)" "to_key e = o_key x" "tmvt_o_of x s = Some e"
proof -
  have "\<exists>t \<in> set (rb_tmvt_root s). tm_key t = o_tmvt x \<and> o_key x \<in> to_key ` set (tm_o_root t)"
    using assms unfolding sid_soft_def by blast
  then obtain t e where t: "t \<in> set (rb_tmvt_root s)" "tm_key t = o_tmvt x" "e \<in> set (tm_o_root t)" "to_key e = o_key x" by force
  have "sorted_wrt (<) (map to_key (tm_o_root t))" using soft_tmvt(2) [OF assms(1) t(1)] by (simp add: tmvt_ok_def)
  then have "tmvt_o_of x s = Some e" using soft_tmvt(1) [OF assms(1) t(1)] search_sorted [of to_key "tm_o_root t" e] t
    by (simp add: tmvt_o_of_def)
  with t show thesis by (rule that)
qed

lemma inv_ord:
  assumes "sid_soft s" "sid_rb_search o_key (rb_o_root s) k = Some x"
  shows "x \<in> set (rb_o_root s)" "o_key x = k"
  using assms sid_search_eq [of o_key "rb_o_root s" k x] by (simp_all add: sid_soft_def)

text \<open>The invariant of the trees sees of an identification only its key, tag, rows and ordinals.\<close>

definition tshape :: "sid_tmvt_entry \<Rightarrow> u64 \<times> u64 option \<times> u64 option \<times> u32 \<times> u64 list" where
  "tshape t = (tm_key t, tm_ht0 t, tm_ht1 t, tm_tag t, map to_key (tm_o_root t))"

lemma tshape_eq:
  assumes "tshape t' = tshape t"
  shows "tm_key t' = tm_key t" "slots t' = slots t" "tmvt_ok t' = tmvt_ok t" "to_key ` set (tm_o_root t') = to_key ` set (tm_o_root t)"
proof -
  have m: "map to_key (tm_o_root t') = map to_key (tm_o_root t)" using assms by (simp add: tshape_def)
  show "tm_key t' = tm_key t" "slots t' = slots t" using assms by (simp_all add: tshape_def slots_def)
  then show "tmvt_ok t' = tmvt_ok t" using assms m by (simp add: tshape_def tmvt_ok_def)
  show "to_key ` set (tm_o_root t') = to_key ` set (tm_o_root t)" using arg_cong [OF m, of set] by simp
qed

lemma shape_mem:
  assumes "map tshape ts' = map tshape ts" "t' \<in> set ts'"
  obtains t where "t \<in> set ts" "tshape t' = tshape t"
proof -
  have "tshape t' \<in> set (map tshape ts')" using assms(2) by simp
  then have "tshape t' \<in> tshape ` set ts" unfolding assms(1) by simp
  then show thesis using that by blast
qed

lemma soft_shape:
  assumes w: "sid_soft s" and T: "map tshape (rb_tmvt_root s') = map tshape (rb_tmvt_root s)"
    and f: "rb_o_root s' = rb_o_root s" "rb_ht_root s' = rb_ht_root s" "port_cnt s' = port_cnt s" "tab_row_cnt s' = tab_row_cnt s"
  shows "sid_soft s'"
proof -
  have k: "map tm_key (rb_tmvt_root s') = map tm_key (rb_tmvt_root s)"
    using arg_cong [OF T, of "map fst"] by (simp add: o_def tshape_def)
  have ok: "\<forall>t \<in> set (rb_tmvt_root s'). tmvt_ok t"
  proof
    fix t' assume "t' \<in> set (rb_tmvt_root s')"
    then obtain t where t: "t \<in> set (rb_tmvt_root s)" "tshape t' = tshape t" by (rule shape_mem [OF T])
    have "tmvt_ok t" using w t(1) by (simp add: sid_soft_def)
    then show "tmvt_ok t'" by (simp only: tshape_eq(3) [OF t(2)])
  qed
  have ex: "(\<exists>t \<in> set (rb_tmvt_root s'). P t) \<longleftrightarrow> (\<exists>t \<in> set (rb_tmvt_root s). P t)"
    if P: "\<And>t t'. tshape t' = tshape t \<Longrightarrow> P t' = P t" for P
  proof
    assume "\<exists>t \<in> set (rb_tmvt_root s'). P t"
    then obtain t' where t': "t' \<in> set (rb_tmvt_root s')" "P t'" by blast
    obtain t where "t \<in> set (rb_tmvt_root s)" "tshape t' = tshape t" by (rule shape_mem [OF T t'(1)])
    then show "\<exists>t \<in> set (rb_tmvt_root s). P t" using P t'(2) by blast
  next
    assume "\<exists>t \<in> set (rb_tmvt_root s). P t"
    then obtain t where t: "t \<in> set (rb_tmvt_root s)" "P t" by blast
    obtain t' where "t' \<in> set (rb_tmvt_root s')" "tshape t = tshape t'" by (rule shape_mem [OF T [symmetric] t(1)])
    then show "\<exists>t \<in> set (rb_tmvt_root s'). P t" using P t(2) by metis
  qed
  have "(\<exists>t \<in> set (rb_tmvt_root s'). tm_key t = a \<and> b \<in> set (slots t)) \<longleftrightarrow> (\<exists>t \<in> set (rb_tmvt_root s). tm_key t = a \<and> b \<in> set (slots t))" for a b
  proof (rule ex)
    fix t t' assume "tshape t' = tshape t"
    from tshape_eq [OF this] show "(tm_key t' = a \<and> b \<in> set (slots t')) = (tm_key t = a \<and> b \<in> set (slots t))" by simp
  qed
  moreover have "(\<exists>t \<in> set (rb_tmvt_root s'). tm_key t = a \<and> b \<in> to_key ` set (tm_o_root t))
      \<longleftrightarrow> (\<exists>t \<in> set (rb_tmvt_root s). tm_key t = a \<and> b \<in> to_key ` set (tm_o_root t))" for a b
  proof (rule ex)
    fix t t' assume "tshape t' = tshape t"
    from tshape_eq [OF this] show "(tm_key t' = a \<and> b \<in> to_key ` set (tm_o_root t')) = (tm_key t = a \<and> b \<in> to_key ` set (tm_o_root t))"
      by (simp only:)
  qed
  ultimately show ?thesis using w ok unfolding sid_soft_def f k by (elim conjE) (intro conjI, assumption+, simp_all only: simp_thms)
qed

lemma change_toeD:
  assumes c: "sid_contract dev base tab" and w: "sid_inv tab base s" and x: "sid_rb_search o_key (rb_o_root s) k = Some x"
    and u: "\<And>e. to_key (u e) = to_key e" and e: "tmvt_o_of x s = Some e"
  shows "\<exists>s'. sid_gen_port_str_hdls dev (o_tmvt x) (upd_tmvt_o x u s) = Some s' \<and> sid_inv tab base s'
    \<and> sid_map s' = (sid_map s)(k \<mapsto> (o_tmvt x, to_str_hdl (u e), to_port_mask (u e)))"
proof -
  have sf: "sid_soft s" using w by (simp add: sid_inv_def)
  note xo = inv_ord [OF sf x]
  obtain t e' where t: "t \<in> set (rb_tmvt_root s)" "tm_key t = o_tmvt x" "e' \<in> set (tm_o_root t)" "to_key e' = k"
    using soft_ord [OF sf xo(1)] xo(2) by metis
  let ?f = "\<lambda>t. t\<lparr>tm_o_root := upd_node to_key k u (tm_o_root t)\<rparr>"
  let ?s = "upd_tmvt_o x u s"
  have T: "rb_tmvt_root ?s = upd_node tm_key (o_tmvt x) ?f (rb_tmvt_root s)" by (simp add: upd_tmvt_o_def upd_tmvt_def xo(2))
  have fld: "rb_o_root ?s = rb_o_root s" "rb_ht_root ?s = rb_ht_root s" "s2_io ?s = s2_io s" "port_cnt ?s = port_cnt s"
    "tab_row_cnt ?s = tab_row_cnt s" "tab_iobase ?s = tab_iobase s" "s2_total_cnt ?s = s2_total_cnt s"
    by (simp_all add: upd_tmvt_o_def upd_tmvt_def)
  have srt: "sorted_wrt (<) (map tm_key (rb_tmvt_root s))" using sf by (simp add: sid_soft_def)
  have K: "map tm_key (rb_tmvt_root ?s) = map tm_key (rb_tmvt_root s)" unfolding T by (rule st.map_key_upd) simp
  have mem: "t' \<in> set (rb_tmvt_root ?s) \<longleftrightarrow> (\<exists>t0 \<in> set (rb_tmvt_root s). t' = (if tm_key t0 = o_tmvt x then ?f t0 else t0))" for t'
    unfolding T upd_node_def by auto
  have sh: "tshape (?f t0) = tshape t0" for t0 using sto.map_key_upd [of u k "tm_o_root t0"] u by (simp add: tshape_def)
  have S: "map tshape (rb_tmvt_root ?s) = map tshape (rb_tmvt_root s)" unfolding T by (simp add: upd_node_def [of tm_key] o_def sh if_distrib cong: if_cong)
  have soft: "sid_soft ?s" by (rule soft_shape [OF sf S]) (simp_all add: fld)
  have used: "hw_used tab ?s" using w by (simp add: sid_inv_def hw_used_def fld)
  have rows: "hw_rows tab {o_tmvt x} ?s"
    unfolding hw_rows_def
  proof (intro ballI impI)
    fix t' h assume t': "t' \<in> set (rb_tmvt_root ?s)" "tm_key t' \<notin> {o_tmvt x}" and h: "h \<in> set (rb_ht_root ?s)" "ht_tmvt h = tm_key t'"
    then have "t' \<in> set (rb_tmvt_root s)" unfolding mem by (auto split: if_splits)
    then show "hw_row tab ?s t' h" using w h by (simp add: sid_inv_def hw_rows_def hw_row_def fld)
  qed
  have ft: "?f t \<in> set (rb_tmvt_root ?s)" "tm_key (?f t) = o_tmvt x" using t(1,2) unfolding mem by (auto intro!: bexI [of _ t])
  have "sid_contract dev (tab_iobase ?s) tab" using c w by (simp add: fld sid_inv_def)
  from genD [OF this soft used _ ft(1), of "{}"] rows obtain s' b W where s':
    "sid_gen_port_str_hdls dev (o_tmvt x) ?s = Some s'" "rows_set tab (slots (?f t)) b W ?s s'" "sid_soft s'" "hw_used tab s'" "hw_rows tab {} s'"
    unfolding ft(2) by blast
  have "\<forall>t' \<in> set (rb_tmvt_root s'). tm_o_root t' \<noteq> []"
  proof
    fix t' assume "t' \<in> set (rb_tmvt_root s')"
    then obtain t0 where t0: "t0 \<in> set (rb_tmvt_root s)" "t' = (if tm_key t0 = o_tmvt x then ?f t0 else t0)"
      unfolding rows_set_fields [OF s'(2)] mem by blast
    then show "tm_o_root t' \<noteq> []" using w by (auto simp: sid_inv_def upd_node_def)
  qed
  then have "sid_inv tab base s'" using s'(3-5) w by (simp add: sid_inv_def rows_set_fields [OF s'(2)] fld)
  moreover have "sid_map ?s = (sid_map s)(k \<mapsto> (o_tmvt x, to_str_hdl (u e), to_port_mask (u e)))"
  proof
    fix k'
    have of: "tmvt_o_of y ?s = (if k' = k then map_option u (tmvt_o_of y s) else tmvt_o_of y s)"
      if y: "sid_rb_search o_key (rb_o_root s) k' = Some y" for y
    proof -
      note yo = inv_ord [OF sf y]
      obtain t2 e2 where t2: "t2 \<in> set (rb_tmvt_root s)" "tm_key t2 = o_tmvt y" by (rule soft_ord [OF sf yo(1)])
      have f2: "sid_rb_search tm_key (rb_tmvt_root s) (o_tmvt y) = Some t2" using soft_tmvt(1) [OF sf t2(1)] t2(2) by simp
      have "sid_rb_search tm_key (rb_tmvt_root ?s) (o_tmvt y) = (if o_tmvt y = o_tmvt x then Some (?f t2) else Some t2)"
        unfolding T using f2 by (cases "o_tmvt y = o_tmvt x") (simp_all add: st.search_upd [OF srt, of ?f])
      moreover have "sorted_wrt (<) (map to_key (tm_o_root t2))" using soft_tmvt(2) [OF sf t2(1)] by (simp add: tmvt_ok_def)
      from sto.search_upd [OF this u] have "sid_rb_search to_key (upd_node to_key k u (tm_o_root t2)) k'
          = (if k' = k then map_option u (sid_rb_search to_key (tm_o_root t2) k') else sid_rb_search to_key (tm_o_root t2) k')" .
      ultimately show ?thesis using f2 yo(2) y x by (auto simp: tmvt_o_of_def)
    qed
    show "sid_map ?s k' = ((sid_map s)(k \<mapsto> (o_tmvt x, to_str_hdl (u e), to_port_mask (u e)))) k'"
    proof (cases "sid_rb_search o_key (rb_o_root s) k'")
      case None
      then show ?thesis using x by (auto simp: sid_map_def fld)
    next
      case (Some y)
      show ?thesis using of [OF Some] Some x e by (auto simp: sid_map_def fld)
    qed
  qed
  ultimately show ?thesis using s'(1) map_rows_set [OF s'(2)] by metis
qed

end
