(* ===== verification/BrSid2Del.thy ===== *)
theory BrSid2Del
  imports BrSid2Ops
begin

text \<open>
  The end of an identification: the ordinal leaves both trees, the rows are written again, and an
  identification without ordinals gives its rows back.
\<close>

unbundle bit_operations_syntax

section \<open>Changes of one identification\<close>

lemma ex_upd: "(\<exists>t \<in> set (upd_node key a f T). P t) \<longleftrightarrow> (\<exists>t \<in> set T. P (if key t = a then f t else t))"
  by (auto simp: upd_node_def)

lemma all_upd: "(\<forall>t \<in> set (upd_node key a f T). P t) \<longleftrightarrow> (\<forall>t \<in> set T. P (if key t = a then f t else t))"
  by (auto simp: upd_node_def)

lemma hw_rows_upd:
  assumes "hw_rows tab {} s" "rb_tmvt_root s' = upd_node tm_key a f (rb_tmvt_root s)" "\<And>t. tm_key (f t) = tm_key t"
    "rb_ht_root s' = rb_ht_root s" "s2_io s' = s2_io s" "port_cnt s' = port_cnt s"
  shows "hw_rows tab {a} s'"
  unfolding hw_rows_def
proof (intro ballI impI)
  fix t h assume t: "t \<in> set (rb_tmvt_root s')" "tm_key t \<notin> {a}" and h: "h \<in> set (rb_ht_root s')" "ht_tmvt h = tm_key t"
  have "t \<in> set (rb_tmvt_root s)" using t assms(3) unfolding assms(2) by (auto simp: upd_node_def)
  then show "hw_row tab s' t h" using assms(1,4-6) h by (simp add: hw_rows_def hw_row_def)
qed

lemma soft_sorted:
  assumes "sid_soft s"
  shows "sorted_wrt (<) (map o_key (rb_o_root s))" "sorted_wrt (<) (map tm_key (rb_tmvt_root s))" "sorted_wrt (<) (map ht_key (rb_ht_root s))"
    "t \<in> set (rb_tmvt_root s) \<Longrightarrow> sorted_wrt (<) (map to_key (tm_o_root t))"
  using assms by (auto simp: sid_soft_def tmvt_ok_def)

section \<open>Release of an ordinal\<close>

lemma o_release_soft:
  assumes w: "sid_soft s" and x: "x \<in> set (rb_o_root s)"
  shows "sid_soft (sid_o_release x s)"
proof -
  let ?k = "o_key x" and ?a = "o_tmvt x" and ?s = "sid_o_release x s"
  let ?f = "\<lambda>t. t\<lparr>tm_o_root := rb_erase to_key ?k (tm_o_root t)\<rparr>"
  have T: "rb_tmvt_root ?s = upd_node tm_key ?a ?f (rb_tmvt_root s)" and O: "rb_o_root ?s = rb_erase o_key ?k (rb_o_root s)"
    and fld: "rb_ht_root ?s = rb_ht_root s" "port_cnt ?s = port_cnt s" "tab_row_cnt ?s = tab_row_cnt s"
    by (simp_all add: sid_o_release_def upd_tmvt_def sid_del_entry_def)
  have K: "map tm_key (rb_tmvt_root ?s) = map tm_key (rb_tmvt_root s)" unfolding T by (rule st.map_key_upd) simp
  have ok: "tmvt_ok (?f t)" if "tmvt_ok t" for t
    using that sto.sorted_erase [of "tm_o_root t" ?k] by (simp add: tmvt_ok_def slots_def)
  have oks: "\<forall>t \<in> set (rb_tmvt_root ?s). tmvt_ok t" using w ok unfolding T all_upd by (simp add: sid_soft_def)
  have one: "o_tmvt y = ?a" if "y \<in> set (rb_o_root s)" "o_key y = ?k" for y
    using key_unique [OF soft_sorted(1) [OF w] that(1) x that(2)] by simp
  have rows: "(\<exists>h \<in> set (rb_ht_root s). ht_key h = k \<and> ht_tmvt h = a) \<longleftrightarrow> (\<exists>t \<in> set (rb_tmvt_root ?s). tm_key t = a \<and> k \<in> set (slots t))" for k a
  proof -
    have "(\<exists>t \<in> set (rb_tmvt_root ?s). tm_key t = a \<and> k \<in> set (slots t)) \<longleftrightarrow> (\<exists>t \<in> set (rb_tmvt_root s). tm_key t = a \<and> k \<in> set (slots t))"
      unfolding T ex_upd by (rule bex_cong) (simp_all add: slots_def)
    then show ?thesis using w unfolding sid_soft_def by blast
  qed
  have os: "(\<exists>y \<in> set (rb_o_root ?s). o_key y = k \<and> o_tmvt y = a) \<longleftrightarrow> (\<exists>t \<in> set (rb_tmvt_root ?s). tm_key t = a \<and> k \<in> to_key ` set (tm_o_root t))" for k a
  proof -
    have old: "(\<exists>y \<in> set (rb_o_root s). o_key y = k \<and> o_tmvt y = a) \<longleftrightarrow> (\<exists>t \<in> set (rb_tmvt_root s). tm_key t = a \<and> k \<in> to_key ` set (tm_o_root t))"
      using w unfolding sid_soft_def by blast
    have "(\<exists>y \<in> set (rb_o_root ?s). o_key y = k \<and> o_tmvt y = a) \<longleftrightarrow> k \<noteq> ?k \<and> (\<exists>y \<in> set (rb_o_root s). o_key y = k \<and> o_tmvt y = a)"
      unfolding O by (auto simp: rb_erase_def)
    moreover have "(\<exists>t \<in> set (rb_tmvt_root ?s). tm_key t = a \<and> k \<in> to_key ` set (tm_o_root t))
        \<longleftrightarrow> (\<exists>t \<in> set (rb_tmvt_root s). tm_key t = a \<and> k \<in> to_key ` set (tm_o_root t) \<and> \<not> (a = ?a \<and> k = ?k))"
      unfolding T ex_upd by (rule bex_cong) (auto simp: rb_erase_def)
    moreover have "a = ?a" if "k = ?k" "\<exists>y \<in> set (rb_o_root s). o_key y = k \<and> o_tmvt y = a" using one that by blast
    ultimately show ?thesis using old by blast
  qed
  have "\<forall>y \<in> set (rb_o_root ?s). o_key y = ucast (o_ord y)" using w unfolding O by (simp add: sid_soft_def rb_erase_def)
  then show ?thesis using w oks rows os so.sorted_erase [OF soft_sorted(1) [OF w], of ?k]
    unfolding sid_soft_def fld K O by blast
qed

lemma o_release_map:
  assumes w: "sid_soft s" and x: "x \<in> set (rb_o_root s)"
  shows "sid_map (sid_o_release x s) = (sid_map s)(o_key x := None)"
proof
  fix k
  let ?s = "sid_o_release x s" and ?f = "\<lambda>t. t\<lparr>tm_o_root := rb_erase to_key (o_key x) (tm_o_root t)\<rparr>"
  have T: "rb_tmvt_root ?s = upd_node tm_key (o_tmvt x) ?f (rb_tmvt_root s)" and O: "rb_o_root ?s = rb_erase o_key (o_key x) (rb_o_root s)"
    by (simp_all add: sid_o_release_def upd_tmvt_def sid_del_entry_def)
  have S: "sid_rb_search o_key (rb_o_root ?s) k = (if k = o_key x then None else sid_rb_search o_key (rb_o_root s) k)"
    unfolding O by (rule so.search_erase [OF soft_sorted(1) [OF w]])
  show "sid_map ?s k = ((sid_map s)(o_key x := None)) k"
  proof (cases "k = o_key x \<or> sid_rb_search o_key (rb_o_root s) k = None")
    case True
    then show ?thesis using S by (auto simp: sid_map_def)
  next
    case False
    then obtain y where y: "sid_rb_search o_key (rb_o_root s) k = Some y" "k \<noteq> o_key x" by auto
    note yo = inv_ord [OF w y(1)]
    obtain t where t: "t \<in> set (rb_tmvt_root s)" "tm_key t = o_tmvt y" by (rule soft_ord [OF w yo(1)])
    have f: "sid_rb_search tm_key (rb_tmvt_root s) (o_tmvt y) = Some t" using soft_tmvt(1) [OF w t(1)] t(2) by simp
    have "sid_rb_search tm_key (rb_tmvt_root ?s) (o_tmvt y) = Some (if o_tmvt y = o_tmvt x then ?f t else t)"
      unfolding T using f by (cases "o_tmvt y = o_tmvt x") (simp_all add: st.search_upd [OF soft_sorted(2) [OF w], of ?f])
    then have "tmvt_o_of y ?s = tmvt_o_of y s"
      using f y(2) yo(2) sto.search_erase [OF soft_sorted(4) [OF w t(1)], of "o_key x" k] by (simp add: tmvt_o_of_def)
    then show ?thesis using S y by (simp add: sid_map_def)
  qed
qed

section \<open>Release of the rows of an identification\<close>

lemma ht_releaseD:
  assumes "sorted_wrt (<) (map ht_key (rb_ht_root s))" "h \<in> set (rb_ht_root s)" "ht_key h = k" "\<not> ht_used h"
  shows "release_opt dev (Some k) s = Some (s\<lparr>rb_ht_root := rb_erase ht_key k (rb_ht_root s)\<rparr>)"
  using sh.search_node [OF assms(1,2)] assms(3,4) by (simp add: release_opt_def sid_ht_release_def sid_del_entry_def)

lemma tmvt_release_eq:
  assumes w: "sid_soft s" "hw_rows tab {} s" and t: "t \<in> set (rb_tmvt_root s)" "tm_o_root t = []"
  shows "sid_tmvt_release dev (tm_key t) s = Some (s\<lparr>rb_ht_root := filter (\<lambda>h. ht_key h \<notin> set (slots t)) (rb_ht_root s),
    rb_tmvt_root := rb_erase tm_key (tm_key t) (rb_tmvt_root s)\<rparr>)"
proof -
  have un: "\<exists>h \<in> set (rb_ht_root s). ht_key h = k \<and> \<not> ht_used h" if k: "k \<in> set (slots t)" for k
  proof -
    obtain h where h: "h \<in> set (rb_ht_root s)" "ht_key h = k" "ht_tmvt h = tm_key t" by (rule soft_row [OF w(1) t(1) k])
    have "hw_row tab s t h" using w(2) t(1) h by (simp add: hw_rows_def)
    then show ?thesis using h t(2) by (auto simp: hw_row_def found_def)
  qed
  note f = soft_tmvt [OF w(1) t(1)] and srt = soft_sorted(3) [OF w(1)]
  show ?thesis
  proof (cases "tm_tag t = SID_ALL")
    case False
    then obtain k0 where k0: "tm_ht0 t = Some k0" "tm_ht1 t = None" "slots t = [k0]" using slots_ok(1) [OF f(2)] by blast
    obtain h where "h \<in> set (rb_ht_root s)" "ht_key h = k0" "\<not> ht_used h" using un [of k0] k0(3) by auto
    from ht_releaseD [OF srt this] show ?thesis
      using k0 f(1) by (simp add: sid_tmvt_release_def release_opt_def [of _ None] sid_del_entry_def rb_erase_def [of ht_key])
  next
    case True
    then obtain k0 k1 where k: "tm_ht0 t = Some k0" "tm_ht1 t = Some k1" "slots t = [k0, k1]" "k0 \<noteq> k1" using slots_ok(2) [OF f(2)] by blast
    obtain h1 where "h1 \<in> set (rb_ht_root s)" "ht_key h1 = k1" "\<not> ht_used h1" using un [of k1] k(3) by auto
    note r1 = ht_releaseD [OF srt this, of dev]
    let ?s = "s\<lparr>rb_ht_root := rb_erase ht_key k1 (rb_ht_root s)\<rparr>"
    obtain h0 where h0: "h0 \<in> set (rb_ht_root s)" "ht_key h0 = k0" "\<not> ht_used h0" using un [of k0] k(3) by auto
    have "sorted_wrt (<) (map ht_key (rb_ht_root ?s))" "h0 \<in> set (rb_ht_root ?s)"
      using sh.sorted_erase [OF srt, of k1] h0 k(4) by (simp_all add: rb_erase_def)
    note r0 = ht_releaseD [OF this h0(2,3), of dev]
    have "filter (\<lambda>h. ht_key h \<notin> set (slots t)) (rb_ht_root s) = rb_erase ht_key k0 (rb_erase ht_key k1 (rb_ht_root s))"
      by (simp add: rb_erase_def k(3) conj_commute)
    then show ?thesis using r0 r1 k f(1) by (simp add: sid_tmvt_release_def sid_del_entry_def)
  qed
qed

lemma tmvt_releaseD:
  assumes w: "sid_soft s" "hw_used tab s" "hw_rows tab {} s" and t: "t \<in> set (rb_tmvt_root s)" "tm_o_root t = []"
  shows "\<exists>s'. sid_tmvt_release dev (tm_key t) s = Some s' \<and> sid_soft s' \<and> hw_used tab s' \<and> hw_rows tab {} s' \<and> sid_map s' = sid_map s
    \<and> rb_tmvt_root s' = rb_erase tm_key (tm_key t) (rb_tmvt_root s) \<and> rb_o_root s' = rb_o_root s
    \<and> s2_total_cnt s' = s2_total_cnt s \<and> tab_iobase s' = tab_iobase s \<and> s2_max_streams s' = s2_max_streams s"
proof -
  let ?H = "filter (\<lambda>h. ht_key h \<notin> set (slots t)) (rb_ht_root s)" and ?T = "rb_erase tm_key (tm_key t) (rb_tmvt_root s)"
  let ?s = "s\<lparr>rb_ht_root := ?H, rb_tmvt_root := ?T\<rparr>"
  note f = soft_tmvt [OF w(1) t(1)] and srt = soft_sorted [OF w(1)]
  have T: "t' \<in> set ?T \<longleftrightarrow> t' \<in> set (rb_tmvt_root s) \<and> t' \<noteq> t" for t'
    using key_unique [OF srt(2) _ t(1)] by (auto simp: rb_erase_def)
  have own: "ht_tmvt h = tm_key t \<longleftrightarrow> ht_key h \<in> set (slots t)" if h: "h \<in> set (rb_ht_root s)" for h
  proof
    assume "ht_tmvt h = tm_key t"
    then have "\<exists>t' \<in> set (rb_tmvt_root s). tm_key t' = tm_key t \<and> ht_key h \<in> set (slots t')" using w(1) h unfolding sid_soft_def by blast
    then show "ht_key h \<in> set (slots t)" using key_unique [OF srt(2) _ t(1)] by blast
  next
    assume "ht_key h \<in> set (slots t)"
    then obtain h' where "h' \<in> set (rb_ht_root s)" "ht_key h' = ht_key h" "ht_tmvt h' = tm_key t" by (rule soft_row [OF w(1) t(1)])
    then show "ht_tmvt h = tm_key t" using key_unique [OF srt(3) _ h] by metis
  qed
  have rows: "(\<exists>h \<in> set ?H. ht_key h = k \<and> ht_tmvt h = a) \<longleftrightarrow> (\<exists>t' \<in> set ?T. tm_key t' = a \<and> k \<in> set (slots t'))" for k a
  proof -
    have old: "(\<exists>h \<in> set (rb_ht_root s). ht_key h = k \<and> ht_tmvt h = a) \<longleftrightarrow> (\<exists>t' \<in> set (rb_tmvt_root s). tm_key t' = a \<and> k \<in> set (slots t'))"
      using w(1) unfolding sid_soft_def by blast
    have "(\<exists>h \<in> set ?H. ht_key h = k \<and> ht_tmvt h = a) \<longleftrightarrow> a \<noteq> tm_key t \<and> (\<exists>h \<in> set (rb_ht_root s). ht_key h = k \<and> ht_tmvt h = a)"
      using own by auto
    moreover have "(\<exists>t' \<in> set ?T. tm_key t' = a \<and> k \<in> set (slots t')) \<longleftrightarrow> a \<noteq> tm_key t \<and> (\<exists>t' \<in> set (rb_tmvt_root s). tm_key t' = a \<and> k \<in> set (slots t'))"
      by (auto simp: rb_erase_def)
    ultimately show ?thesis using old by blast
  qed
  have os: "(\<exists>x \<in> set (rb_o_root s). o_key x = k \<and> o_tmvt x = a) \<longleftrightarrow> (\<exists>t' \<in> set ?T. tm_key t' = a \<and> k \<in> to_key ` set (tm_o_root t'))" for k a
  proof -
    have "(\<exists>x \<in> set (rb_o_root s). o_key x = k \<and> o_tmvt x = a) \<longleftrightarrow> (\<exists>t' \<in> set (rb_tmvt_root s). tm_key t' = a \<and> k \<in> to_key ` set (tm_o_root t'))"
      using w(1) unfolding sid_soft_def by blast
    then show ?thesis unfolding Bex_def T using t(2) by auto
  qed
  have srtH: "sorted_wrt (<) (map ht_key ?H)" using srt(3) by (simp add: sorted_wrt_map sorted_wrt_filter)
  have "\<forall>t' \<in> set ?T. tmvt_ok t'" "\<forall>h \<in> set ?H. valid_key (ht_key h)" using w(1) T by (simp_all add: sid_soft_def)
  then have "sid_soft ?s" using w(1) rows os srtH st.sorted_erase [OF srt(2), of "tm_key t"] by (simp add: sid_soft_def)
  moreover have "hw_used tab ?s"
  proof -
    have "\<not> ht_used h" if "h \<in> set (rb_ht_root s)" "ht_key h \<in> set (slots t)" for h
    proof -
      have "hw_row tab s t h" using w(3) t(1) that own [OF that(1)] by (simp add: hw_rows_def)
      then show ?thesis using t(2) by (simp add: hw_row_def found_def)
    qed
    then have "(\<exists>h \<in> set ?H. ht_used h \<and> kpos (ht_key h) = p) \<longleftrightarrow> (\<exists>h \<in> set (rb_ht_root s). ht_used h \<and> kpos (ht_key h) = p)" for p by auto
    then show ?thesis using w(2) by (simp add: hw_used_def)
  qed
  moreover have "hw_rows tab {} ?s" using w(3) T by (simp add: hw_rows_def hw_row_def)
  moreover have "sid_map ?s = sid_map s"
  proof
    fix k
    show "sid_map ?s k = sid_map s k"
    proof (cases "sid_rb_search o_key (rb_o_root s) k")
      case None
      then show ?thesis by (simp add: sid_map_def)
    next
      case (Some x)
      obtain t2 e where t2: "t2 \<in> set (rb_tmvt_root s)" "tm_key t2 = o_tmvt x" "e \<in> set (tm_o_root t2)"
        by (rule soft_ord [OF w(1) inv_ord(1) [OF w(1) Some]])
      have "t2 \<noteq> t" using t2(3) t(2) by auto
      then have "o_tmvt x \<noteq> tm_key t" using key_unique [OF srt(2) t2(1) t(1)] t2(2) by metis
      then have "tmvt_o_of x ?s = tmvt_o_of x s" by (simp add: tmvt_o_of_def st.search_erase [OF srt(2)])
      then show ?thesis using Some by (simp add: sid_map_def)
    qed
  qed
  ultimately show ?thesis using tmvt_release_eq [OF w(1,3) t, of dev] by simp
qed

section \<open>Deletion of an ordinal\<close>

lemma gen_ordinal:
  assumes c: "sid_contract dev base tab" and w: "sid_soft s" "hw_used tab s" "hw_rows tab {tm_key t} s"
    and b: "tab_iobase s = base" and t: "t \<in> set (rb_tmvt_root s)"
  shows "\<exists>s'. sid_gen_port_str_hdls dev (tm_key t) s = Some s' \<and> sid_soft s' \<and> hw_used tab s' \<and> hw_rows tab {} s' \<and> sid_map s' = sid_map s
    \<and> rb_tmvt_root s' = rb_tmvt_root s \<and> rb_o_root s' = rb_o_root s \<and> s2_total_cnt s' = s2_total_cnt s \<and> tab_iobase s' = base
    \<and> s2_max_streams s' = s2_max_streams s"
proof -
  have "sid_contract dev (tab_iobase s) tab" "hw_rows tab (insert (tm_key t) {}) s" using c b w(3) by simp_all
  from genD [OF this(1) w(1,2) this(2) t] obtain s' b' W where s': "sid_gen_port_str_hdls dev (tm_key t) s = Some s'"
    "rows_set tab (slots t) b' W s s'" "sid_soft s'" "hw_used tab s'" "hw_rows tab {} s'" by blast
  then show ?thesis using map_rows_set [OF s'(2)] rows_set_fields [OF s'(2)] b by metis
qed

lemma releaseD:
  assumes c: "sid_contract dev base tab" and w: "sid_inv tab base s" and x: "sid_rb_search o_key (rb_o_root s) k = Some x"
  shows "\<exists>s'. sid2_release dev x s = Some s' \<and> sid_inv tab base s' \<and> sid_map s' = (sid_map s)(k := None) \<and> s2_max_streams s' = s2_max_streams s"
proof -
  have sf: "sid_soft s" using w by (simp add: sid_inv_def)
  note xo = inv_ord [OF sf x]
  let ?s = "sid_o_release x s" and ?f = "\<lambda>t. t\<lparr>tm_o_root := rb_erase to_key (o_key x) (tm_o_root t)\<rparr>"
  have T: "rb_tmvt_root ?s = upd_node tm_key (o_tmvt x) ?f (rb_tmvt_root s)" and O: "rb_o_root ?s = rb_erase o_key (o_key x) (rb_o_root s)"
    and fld: "rb_ht_root ?s = rb_ht_root s" "port_cnt ?s = port_cnt s" "s2_io ?s = s2_io s" "tab_iobase ?s = base"
      "s2_total_cnt ?s = s2_total_cnt s - 1" "s2_max_streams ?s = s2_max_streams s"
    using w by (simp_all add: sid_o_release_def upd_tmvt_def sid_del_entry_def sid_inv_def)
  have cnt: "s2_total_cnt ?s = of_nat (card (set (rb_o_root ?s)))"
  proof -
    have "set (rb_o_root ?s) = set (rb_o_root s) - {x}"
      unfolding O using key_unique [OF soft_sorted(1) [OF sf] _ xo(1)] by (auto simp: rb_erase_def)
    moreover have "0 < card (set (rb_o_root s))" using xo(1) by (auto simp: card_gt_0_iff)
    ultimately have "card (set (rb_o_root s)) = Suc (card (set (rb_o_root ?s)))" using xo(1) by simp
    then show ?thesis using w by (simp add: fld sid_inv_def)
  qed
  have soft: "sid_soft ?s" by (rule o_release_soft [OF sf xo(1)])
  have used: "hw_used tab ?s" using w by (simp add: sid_inv_def hw_used_def fld)
  have rows: "hw_rows tab {o_tmvt x} ?s" by (rule hw_rows_upd [OF _ T]) (use w in \<open>simp_all add: sid_inv_def fld\<close>)
  obtain t0 where t0: "t0 \<in> set (rb_tmvt_root s)" "tm_key t0 = o_tmvt x" by (rule soft_ord [OF sf xo(1)])
  define t where "t = ?f t0"
  have t: "t \<in> set (rb_tmvt_root ?s)" "tm_key t = o_tmvt x" using t0 unfolding T t_def by (auto simp: upd_node_def intro!: rev_image_eqI)
  have rest: "tm_o_root t' \<noteq> []" if t': "t' \<in> set (rb_tmvt_root ?s)" "t' \<noteq> t" for t'
  proof -
    obtain t1 where t1: "t1 \<in> set (rb_tmvt_root s)" "t' = (if tm_key t1 = o_tmvt x then ?f t1 else t1)" using t'(1) unfolding T upd_node_def by auto
    then have "tm_key t1 \<noteq> o_tmvt x" using t'(2) key_unique [OF soft_sorted(2) [OF sf] t1(1) t0(1)] t0(2) by (auto simp: t_def)
    then show ?thesis using t1 w by (simp add: sid_inv_def)
  qed
  from gen_ordinal [OF c soft used _ fld(4) t(1)] rows obtain s2 where s2: "sid_gen_port_str_hdls dev (o_tmvt x) ?s = Some s2"
    "sid_soft s2" "hw_used tab s2" "hw_rows tab {} s2" "sid_map s2 = sid_map ?s" "rb_tmvt_root s2 = rb_tmvt_root ?s" "rb_o_root s2 = rb_o_root ?s"
    "s2_total_cnt s2 = s2_total_cnt ?s" "tab_iobase s2 = base" "s2_max_streams s2 = s2_max_streams ?s" unfolding t(2) by blast
  have t2: "t \<in> set (rb_tmvt_root s2)" using t(1) s2(6) by simp
  have fnd: "sid_rb_search tm_key (rb_tmvt_root s2) (o_tmvt x) = Some t" using soft_tmvt(1) [OF s2(2) t2] t(2) by simp
  have m: "sid_map s2 = (sid_map s)(k := None)" using o_release_map [OF sf xo(1)] s2(5) xo(2) by simp
  show ?thesis
  proof (cases "tm_o_root t = []")
    case False
    then have "\<forall>t' \<in> set (rb_tmvt_root s2). tm_o_root t' \<noteq> []" using rest s2(6) by metis
    then have "sid_inv tab base s2" using s2 cnt by (simp add: sid_inv_def)
    then show ?thesis using s2(1,10) fnd False m fld(6) by (simp add: sid2_release_def sid_tmvt_is_empty_def)
  next
    case True
    from tmvt_releaseD [OF s2(2-4) t2 True, of dev] obtain s3 where s3: "sid_tmvt_release dev (o_tmvt x) s2 = Some s3"
      "sid_soft s3" "hw_used tab s3" "hw_rows tab {} s3" "sid_map s3 = sid_map s2" "rb_tmvt_root s3 = rb_erase tm_key (tm_key t) (rb_tmvt_root s2)"
      "rb_o_root s3 = rb_o_root s2" "s2_total_cnt s3 = s2_total_cnt s2" "tab_iobase s3 = tab_iobase s2" "s2_max_streams s3 = s2_max_streams s2"
      unfolding t(2) by blast
    have "\<forall>t' \<in> set (rb_tmvt_root s3). tm_o_root t' \<noteq> []" using rest unfolding s3(6) s2(6) by (auto simp: rb_erase_def)
    then have "sid_inv tab base s3" using s3 s2(7-9) cnt by (simp add: sid_inv_def)
    then show ?thesis using s2(1,10) s3(1,5,10) fnd True m fld(6) by (simp add: sid2_release_def sid_tmvt_is_empty_def)
  qed
qed

end
