(* ===== verification/BrSid2New.thy ===== *)
theory BrSid2New
  imports BrSid2Del
begin

text \<open>
  The creation of an identification: rows are taken from the hash, a failure takes them back, and the
  new ordinal has no handle and no port, so that the rows in the hardware stay as they are.
\<close>

unbundle bit_operations_syntax

section \<open>Rows\<close>

lemma calc_rows_valid:
  assumes "0 < tab_row_cnt s" "tab_row_cnt s \<le> 0x1000" "i < 4" "edgx_sid_calc_tab_rows s m tag vl src ! i \<noteq> SID_TAB_INVALID"
  shows "edgx_sid_calc_tab_rows s m tag vl src ! i < 0x1000"
proof -
  have "(ucast (x AND ((ucast (tab_row_cnt s) :: u64) - 1)) :: u16) < 0x1000" for x
  proof -
    have "tab_row_cnt s \<noteq> 0" using assms(1) by auto
    from row_mask_less [OF this] assms(2) show ?thesis by (rule less_le_trans)
  qed
  moreover have "i = 0 \<or> i = 1 \<or> i = 2 \<or> i = 3" using assms(3) by auto
  ultimately show ?thesis using assms(4) unfolding edgx_sid_calc_tab_rows_def Let_def by (elim disjE) (simp_all split: if_split_asm)
qed

lemma free_col:
  assumes "0 < tab_row_cnt s" "tab_row_cnt s \<le> 0x1000" "sid_ht_free_col (edgx_sid_calc_tab_rows s m tag vl src) hts = Some i"
  shows "valid_key (sid_ht_get_key (edgx_sid_calc_tab_rows s m tag vl src ! i) (of_nat i))"
    "sid_rb_search ht_key hts (sid_ht_get_key (edgx_sid_calc_tab_rows s m tag vl src ! i) (of_nat i)) = None"
proof -
  have l: "i < 4" using find_idx_SomeD [OF assms(3) [unfolded sid_ht_free_col_def]] by simp
  then have "[0..<4] ! i = i" by (simp del: upt_rec_numeral add: nth_upt)
  with l have i: "i < 4" "edgx_sid_calc_tab_rows s m tag vl src ! i \<noteq> SID_TAB_INVALID"
    "sid_rb_search ht_key hts (sid_ht_get_key (edgx_sid_calc_tab_rows s m tag vl src ! i) (of_nat i)) = None"
    using find_idx_SomeD [OF assms(3) [unfolded sid_ht_free_col_def]] by (simp_all del: upt_rec_numeral)
  show "sid_rb_search ht_key hts (sid_ht_get_key (edgx_sid_calc_tab_rows s m tag vl src ! i) (of_nat i)) = None" by (rule i(3))
  show "valid_key (sid_ht_get_key (edgx_sid_calc_tab_rows s m tag vl src ! i) (of_nat i))"
    by (rule ht_key_valid [OF calc_rows_valid [OF assms(1,2) i(1,2)] i(1)])
qed

text \<open>
  The rows that an identification may use, in the order of the columns, and those of them that no
  identification has; the rows of a VLAN exist only for a tagged identification.
\<close>

definition row_keys :: "edgx_sid2_br \<Rightarrow> u8 list \<Rightarrow> u32 \<Rightarrow> u16 \<Rightarrow> u64 list" where
  "row_keys s addr tag vl =
     (let rows = edgx_sid_calc_tab_rows s addr tag vl False
      in map (\<lambda>i. sid_ht_get_key (rows ! i) (of_nat i)) (filter (\<lambda>i. rows ! i \<noteq> SID_TAB_INVALID) [0, 1, 2, 3]))"

definition free_rows :: "edgx_sid2_br \<Rightarrow> u8 list \<Rightarrow> u32 \<Rightarrow> u16 \<Rightarrow> u64 list" where
  "free_rows s addr tag vl = filter (\<lambda>k. k \<notin> ht_key ` set (rb_ht_root s)) (row_keys s addr tag vl)"

text \<open>An identification of both kinds of frames needs two rows, and takes the first free one for the tagged frames.\<close>

definition no_free_row :: "edgx_sid2_br \<Rightarrow> u8 list \<Rightarrow> u32 \<Rightarrow> u16 \<Rightarrow> bool" where
  "no_free_row s addr tag vl \<longleftrightarrow>
     (if tag = SID_ALL then free_rows s addr SID_TAGGED vl = []
         \<or> set (free_rows s addr SID_PRIORITY vl) \<subseteq> {hd (free_rows s addr SID_TAGGED vl)}
      else free_rows s addr tag vl = [])"

lemma find_idx_filter:
  "find_idx P xs = None \<Longrightarrow> filter P xs = []"
  "find_idx P xs = Some i \<Longrightarrow> filter P xs \<noteq> [] \<and> hd (filter P xs) = xs ! i"
  by (induction xs arbitrary: i) (auto split: if_splits)

lemma free_rows_filter:
  assumes "sorted_wrt (<) (map ht_key (rb_ht_root s))" "rows = edgx_sid_calc_tab_rows s addr tag vl False"
  shows "free_rows s addr tag vl = map (\<lambda>i. sid_ht_get_key (rows ! i) (of_nat i))
    (filter (\<lambda>i. rows ! i \<noteq> SID_TAB_INVALID \<and> sid_rb_search ht_key (rb_ht_root s) (sid_ht_get_key (rows ! i) (of_nat i)) = None) [0, 1, 2, 3])"
  unfolding free_rows_def row_keys_def assms(2) [symmetric] Let_def filter_map filter_filter sh.search_None [OF assms(1)]
  by (simp only: o_def conj_commute)

lemma columns: "[0..<4] = [0, 1, 2, 3 :: nat]"
  by (simp add: upt_rec)

lemma free_rows_none:
  assumes "sorted_wrt (<) (map ht_key (rb_ht_root s))"
    and "sid_ht_free_col (edgx_sid_calc_tab_rows s addr tag vl False) (rb_ht_root s) = None"
  shows "free_rows s addr tag vl = []"
  using find_idx_filter(1) [OF assms(2) [unfolded sid_ht_free_col_def columns]]
  unfolding free_rows_filter [OF assms(1) refl] by (simp only: list.map)

lemma free_rows_first:
  assumes "sorted_wrt (<) (map ht_key (rb_ht_root s))"
    and "sid_ht_free_col (edgx_sid_calc_tab_rows s addr tag vl False) (rb_ht_root s) = Some i"
  shows "hd (free_rows s addr tag vl) = sid_ht_get_key (edgx_sid_calc_tab_rows s addr tag vl False ! i) (of_nat i)"
proof -
  have "i < 4" using find_idx_SomeD [OF assms(2) [unfolded sid_ht_free_col_def]] by simp
  then have "[0, 1, 2, 3] ! i = i" unfolding columns [symmetric] by (simp del: upt_rec_numeral)
  note nth = this
  note F = find_idx_filter(2) [OF assms(2) [unfolded sid_ht_free_col_def columns]]
  show ?thesis
    unfolding free_rows_filter [OF assms(1) refl] hd_map [OF conjunct1 [OF F]] conjunct2 [OF F] nth ..
qed

lemma rows_root: "edgx_sid_calc_tab_rows (s\<lparr>rb_ht_root := H\<rparr>) m tag vl src = edgx_sid_calc_tab_rows s m tag vl src"
proof -
  have "tab_row_cnt (s\<lparr>rb_ht_root := H\<rparr>) = tab_row_cnt s" by simp
  then show ?thesis by (simp only: edgx_sid_calc_tab_rows_def)
qed

lemma free_rows_root:
  "free_rows (s\<lparr>rb_ht_root := H\<rparr>) addr tag vl = filter (\<lambda>k. k \<notin> ht_key ` set H) (row_keys s addr tag vl)"
proof -
  have "rb_ht_root (s\<lparr>rb_ht_root := H\<rparr>) = H" by simp
  then show ?thesis unfolding free_rows_def row_keys_def rows_root by (simp only:)
qed

lemma ht_createD:
  assumes "0 < tab_row_cnt s" "tab_row_cnt s \<le> 0x1000" "sorted_wrt (<) (map ht_key (rb_ht_root s))"
  obtains ret where "sid_ht_create ok a addr vl tag s = (ret, None, s)"
      "ret = - ENOSPC \<and> free_rows s addr tag vl = [] \<or> ret = - ENOMEM \<and> \<not> ok"
  | k hts where "sid_ht_create ok a addr vl tag s = (0, Some k, s\<lparr>rb_ht_root := hts\<rparr>)" "valid_key k" "k \<notin> ht_key ` set (rb_ht_root s)"
      "sorted_wrt (<) (map ht_key hts)" "set hts = insert \<lparr>ht_key = k, ht_tmvt = a, ht_used = False\<rparr> (set (rb_ht_root s))"
      "k = hd (free_rows s addr tag vl)"
proof -
  let ?rows = "edgx_sid_calc_tab_rows s addr tag vl False"
  show thesis
  proof (cases "sid_ht_free_col ?rows (rb_ht_root s)")
    case None
    then show thesis using free_rows_none [OF assms(3) None] by (intro that(1) [of "- ENOSPC"]) (simp_all add: sid_ht_create_def)
  next
    case (Some i)
    define k where "k = sid_ht_get_key (?rows ! i) (of_nat i)"
    note f = free_col [OF assms(1,2) Some, folded k_def]
    have k: "k \<notin> ht_key ` set (rb_ht_root s)" using f(2) sh.search_None [OF assms(3)] by simp
    obtain hts where hts: "sid_rb_insert ht_key (rb_ht_root s) \<lparr>ht_key = k, ht_tmvt = a, ht_used = False\<rparr> = (0, hts)"
      "sorted_wrt (<) (map ht_key hts)" "set hts = insert \<lparr>ht_key = k, ht_tmvt = a, ht_used = False\<rparr> (set (rb_ht_root s))"
      using sid_insert_new [OF assms(3), of "\<lparr>ht_key = k, ht_tmvt = a, ht_used = False\<rparr>"] k by auto
    show thesis
    proof (cases ok)
      case False
      then show thesis using Some by (intro that(1) [of "- ENOMEM"]) (simp_all add: sid_ht_create_def)
    next
      case True
      then have "sid_ht_create ok a addr vl tag s = (0, Some k, s\<lparr>rb_ht_root := hts\<rparr>)"
        using Some hts(1) by (simp add: sid_ht_create_def k_def)
      then show thesis using f(1) k hts(2,3) free_rows_first [OF assms(3) Some, folded k_def, symmetric] by (rule that(2))
    qed
  qed
qed

section \<open>A new identification\<close>

text \<open>The effect of the creation: new unused rows, and an identification without ordinals.\<close>

definition tmvt_added :: "sid_tmvt_entry \<Rightarrow> edgx_sid2_br \<Rightarrow> edgx_sid2_br \<Rightarrow> bool" where
  "tmvt_added t s s' \<longleftrightarrow> s' = s\<lparr>rb_ht_root := rb_ht_root s', rb_tmvt_root := rb_tmvt_root s'\<rparr>
     \<and> tmvt_ok t \<and> tm_o_root t = [] \<and> (\<forall>k \<in> set (slots t). valid_key k \<and> k \<notin> ht_key ` set (rb_ht_root s))
     \<and> sorted_wrt (<) (map ht_key (rb_ht_root s')) \<and> sorted_wrt (<) (map tm_key (rb_tmvt_root s'))
     \<and> set (rb_ht_root s') = (\<lambda>k. \<lparr>ht_key = k, ht_tmvt = tm_key t, ht_used = False\<rparr>) ` set (slots t) \<union> set (rb_ht_root s)
     \<and> set (rb_tmvt_root s') = insert t (set (rb_tmvt_root s))"

lemma erase_fresh:
  assumes "sorted_wrt (<) (map ht_key hts)" "sorted_wrt (<) (map ht_key hts')" "set hts' = insert h (set hts)" "ht_key h \<notin> ht_key ` set hts"
  shows "rb_erase ht_key (ht_key h) hts' = hts"
proof (rule sorted_unique)
  show "sorted_wrt (<) (map ht_key (rb_erase ht_key (ht_key h) hts'))" by (rule sh.sorted_erase [OF assms(2)])
  have "ht_key x \<noteq> ht_key h" if "x \<in> set hts" for x using that assms(4) by (metis imageI)
  then show "set (rb_erase ht_key (ht_key h) hts') = set hts" using assms(3) by (auto simp: rb_erase_def)
qed (rule assms(1))

lemma tmvt_insert:
  assumes "sorted_wrt (<) (map tm_key T)" "k \<notin> tm_key ` set T" "tm_key t = k"
  obtains T' where "sid_rb_insert tm_key T t = (0, T')" "sorted_wrt (<) (map tm_key T')" "set T' = insert t (set T)"
  using sid_insert_new [OF assms(1), of t] assms(2,3) by auto

lemma tmvt_createD:
  assumes w: "sid_soft s" and new: "a \<notin> tm_key ` set (rb_tmvt_root s)"
  shows "\<exists>ret s'. sid_tmvt_create dev ok0 ok1 ok2 a tag vl addr s = Some (ret, s')
    \<and> ((ret = - ENOSPC \<and> no_free_row s addr tag vl \<or> ret = - ENOMEM \<and> \<not> (ok0 \<and> ok1 \<and> ok2)) \<and> s' = s \<or> ret = 0 \<and> (\<exists>t. tm_key t = a \<and> tmvt_added t s s'))"
proof (cases ok0)
  case False
  then show ?thesis by (simp add: sid_tmvt_create_def)
next
  case True
  note srt = soft_sorted [OF w]
  have n: "0 < tab_row_cnt s" "tab_row_cnt s \<le> 0x1000" using w by (simp_all add: sid_soft_def)
  let ?t = "\<lambda>k0 k1. \<lparr>tm_key = a, tm_addr = addr, tm_tag = tag, tm_vid = vl, tm_o_root = [], tm_ht0 = Some k0, tm_ht1 = k1\<rparr>"
  show ?thesis
  proof (rule ht_createD [OF n srt(3), of ok1 a addr vl "if tag = SID_ALL then SID_TAGGED else tag"])
    fix ret assume "sid_ht_create ok1 a addr vl (if tag = SID_ALL then SID_TAGGED else tag) s = (ret, None, s)"
      "ret = - ENOSPC \<and> free_rows s addr (if tag = SID_ALL then SID_TAGGED else tag) vl = [] \<or> ret = - ENOMEM \<and> \<not> ok1"
    then show ?thesis using True by (auto simp: sid_tmvt_create_def no_free_row_def split: if_split_asm)
  next
    fix k0 H0 assume c0: "sid_ht_create ok1 a addr vl (if tag = SID_ALL then SID_TAGGED else tag) s = (0, Some k0, s\<lparr>rb_ht_root := H0\<rparr>)"
      "valid_key k0" "k0 \<notin> ht_key ` set (rb_ht_root s)" "sorted_wrt (<) (map ht_key H0)"
      "set H0 = insert \<lparr>ht_key = k0, ht_tmvt = a, ht_used = False\<rparr> (set (rb_ht_root s))"
      "k0 = hd (free_rows s addr (if tag = SID_ALL then SID_TAGGED else tag) vl)"
    show ?thesis
    proof (cases "tag = SID_ALL")
      case False
      obtain T' where T': "sid_rb_insert tm_key (rb_tmvt_root s) (?t k0 None) = (0, T')" "sorted_wrt (<) (map tm_key T')"
        "set T' = insert (?t k0 None) (set (rb_tmvt_root s))" by (rule tmvt_insert [OF srt(2) new, of "?t k0 None"]) (simp, blast)
      have "tmvt_added (?t k0 None) s (s\<lparr>rb_ht_root := H0, rb_tmvt_root := T'\<rparr>)"
        using c0 T' False by (simp add: tmvt_added_def tmvt_ok_def slots_def)
      then have "\<exists>t. tm_key t = a \<and> tmvt_added t s (s\<lparr>rb_ht_root := H0, rb_tmvt_root := T'\<rparr>)" by (intro exI [of _ "?t k0 None"]) simp
      then show ?thesis using True False c0(1) T'(1) by (simp add: sid_tmvt_create_def)
    next
      case all: True
      let ?s = "s\<lparr>rb_ht_root := H0\<rparr>"
      have n1: "0 < tab_row_cnt ?s" "tab_row_cnt ?s \<le> 0x1000" "sorted_wrt (<) (map ht_key (rb_ht_root ?s))" using n c0(4) by simp_all
      show ?thesis
      proof (rule ht_createD [OF n1, of ok2 a addr vl SID_PRIORITY])
        fix ret assume r: "sid_ht_create ok2 a addr vl SID_PRIORITY ?s = (ret, None, ?s)"
          "ret = - ENOSPC \<and> free_rows ?s addr SID_PRIORITY vl = [] \<or> ret = - ENOMEM \<and> \<not> ok2"
        have "no_free_row s addr tag vl" if "free_rows ?s addr SID_PRIORITY vl = []"
        proof -
          have "set (free_rows s addr SID_PRIORITY vl) \<subseteq> {k0}"
            using that unfolding free_rows_root filter_empty_conv c0(5) by (auto simp: free_rows_def)
          then show ?thesis using c0(6) all by (simp add: no_free_row_def)
        qed
        note full = this
        have "release_opt dev (Some k0) ?s = Some (?s\<lparr>rb_ht_root := rb_erase ht_key k0 (rb_ht_root ?s)\<rparr>)"
          by (rule ht_releaseD [of _ "\<lparr>ht_key = k0, ht_tmvt = a, ht_used = False\<rparr>"]) (use c0 in simp_all)
        moreover have "rb_erase ht_key k0 H0 = rb_ht_root s" using erase_fresh [OF srt(3) c0(4,5)] c0(3) by simp
        ultimately show ?thesis using True all r c0(1) full by (auto simp: sid_tmvt_create_def release_opt_def [of _ None])
      next
        fix k1 H1 assume c1: "sid_ht_create ok2 a addr vl SID_PRIORITY ?s = (0, Some k1, ?s\<lparr>rb_ht_root := H1\<rparr>)"
          "valid_key k1" "k1 \<notin> ht_key ` set (rb_ht_root ?s)" "sorted_wrt (<) (map ht_key H1)"
          "set H1 = insert \<lparr>ht_key = k1, ht_tmvt = a, ht_used = False\<rparr> (set (rb_ht_root ?s))"
          "k1 = hd (free_rows ?s addr SID_PRIORITY vl)"
        obtain T' where T': "sid_rb_insert tm_key (rb_tmvt_root s) (?t k0 (Some k1)) = (0, T')" "sorted_wrt (<) (map tm_key T')"
          "set T' = insert (?t k0 (Some k1)) (set (rb_tmvt_root s))" by (rule tmvt_insert [OF srt(2) new, of "?t k0 (Some k1)"]) (simp, blast)
        have "tmvt_added (?t k0 (Some k1)) s (s\<lparr>rb_ht_root := H1, rb_tmvt_root := T'\<rparr>)"
          using c0(2-5) c1(2-5) T' all by (auto simp: tmvt_added_def tmvt_ok_def slots_def)
        then have "\<exists>t. tm_key t = a \<and> tmvt_added t s (s\<lparr>rb_ht_root := H1, rb_tmvt_root := T'\<rparr>)"
          by (intro exI [of _ "?t k0 (Some k1)"]) simp
        then show ?thesis using True all c0(1) c1(1) T'(1) by (simp add: sid_tmvt_create_def)
      qed
    qed
  qed
qed

lemma addedD:
  assumes w: "sid_soft s" "hw_used tab s" "hw_rows tab {} s" and new: "tm_key t \<notin> tm_key ` set (rb_tmvt_root s)" and a: "tmvt_added t s s'"
  shows "sid_soft s'" "hw_used tab s'" "hw_rows tab {} s'" "sid_map s' = sid_map s"
proof -
  let ?new = "\<lambda>k. \<lparr>ht_key = k, ht_tmvt = tm_key t, ht_used = False\<rparr>"
  have "s' = s\<lparr>rb_ht_root := rb_ht_root s', rb_tmvt_root := rb_tmvt_root s'\<rparr>" using a by (simp add: tmvt_added_def)
  then have fld: "rb_o_root s' = rb_o_root s" "port_cnt s' = port_cnt s" "tab_row_cnt s' = tab_row_cnt s" "s2_io s' = s2_io s"
    by (cases s, cases s', simp)+
  have t: "tmvt_ok t" "tm_o_root t = []" "\<forall>k \<in> set (slots t). valid_key k \<and> k \<notin> ht_key ` set (rb_ht_root s)"
    and srt: "sorted_wrt (<) (map ht_key (rb_ht_root s'))" "sorted_wrt (<) (map tm_key (rb_tmvt_root s'))"
    and H: "set (rb_ht_root s') = ?new ` set (slots t) \<union> set (rb_ht_root s)" and T: "set (rb_tmvt_root s') = insert t (set (rb_tmvt_root s))"
    using a by (simp_all add: tmvt_added_def)
  have own: "ht_tmvt h \<noteq> tm_key t" if "h \<in> set (rb_ht_root s)" for h
  proof -
    have "\<exists>t' \<in> set (rb_tmvt_root s). tm_key t' = ht_tmvt h \<and> ht_key h \<in> set (slots t')" using w(1) that unfolding sid_soft_def by blast
    then obtain t' where "t' \<in> set (rb_tmvt_root s)" "tm_key t' = ht_tmvt h" by blast
    then show ?thesis using new by (metis imageI)
  qed
  have rows: "(\<exists>h \<in> set (rb_ht_root s'). ht_key h = k \<and> ht_tmvt h = b) \<longleftrightarrow> (\<exists>t' \<in> set (rb_tmvt_root s'). tm_key t' = b \<and> k \<in> set (slots t'))" for k b
  proof -
    have "(\<exists>h \<in> set (rb_ht_root s). ht_key h = k \<and> ht_tmvt h = b) \<longleftrightarrow> (\<exists>t' \<in> set (rb_tmvt_root s). tm_key t' = b \<and> k \<in> set (slots t'))"
      using w(1) unfolding sid_soft_def by blast
    then show ?thesis unfolding H T by (auto simp: bex_Un)
  qed
  have os: "(\<exists>x \<in> set (rb_o_root s). o_key x = k \<and> o_tmvt x = b) \<longleftrightarrow> (\<exists>t' \<in> set (rb_tmvt_root s'). tm_key t' = b \<and> k \<in> to_key ` set (tm_o_root t'))" for k b
  proof -
    have "(\<exists>x \<in> set (rb_o_root s). o_key x = k \<and> o_tmvt x = b) \<longleftrightarrow> (\<exists>t' \<in> set (rb_tmvt_root s). tm_key t' = b \<and> k \<in> to_key ` set (tm_o_root t'))"
      using w(1) unfolding sid_soft_def by blast
    then show ?thesis unfolding T using t(2) by simp
  qed
  have "\<forall>t' \<in> set (rb_tmvt_root s'). tmvt_ok t'" "\<forall>h \<in> set (rb_ht_root s'). valid_key (ht_key h)"
    using w(1) t unfolding H T by (auto simp: sid_soft_def)
  then show "sid_soft s'" using w(1) rows os srt unfolding sid_soft_def fld by blast
  have "(\<exists>h \<in> set (rb_ht_root s'). ht_used h \<and> kpos (ht_key h) = p) \<longleftrightarrow> (\<exists>h \<in> set (rb_ht_root s). ht_used h \<and> kpos (ht_key h) = p)" for p
    unfolding H by auto
  then show "hw_used tab s'" using w(2) by (simp add: hw_used_def fld)
  show "hw_rows tab {} s'"
    unfolding hw_rows_def
  proof (intro ballI impI)
    fix t' h assume a: "t' \<in> set (rb_tmvt_root s')" "h \<in> set (rb_ht_root s')" "ht_tmvt h = tm_key t'"
    show "hw_row tab s' t' h"
    proof (cases "t' = t")
      case True
      then have "h \<in> ?new ` set (slots t)" using a(2,3) own unfolding H by blast
      then show ?thesis using t(2) True by (auto simp: hw_row_def found_def)
    next
      case False
      then have t': "t' \<in> set (rb_tmvt_root s)" using a(1) T by simp
      then have "h \<in> set (rb_ht_root s)" using a(2,3) new unfolding H by force
      then show ?thesis using w(3) t' a(3) by (simp add: hw_rows_def hw_row_def fld)
    qed
  qed
  show "sid_map s' = sid_map s"
  proof
    fix k
    have "tmvt_o_of x s' = tmvt_o_of x s" if x: "x \<in> set (rb_o_root s)" for x
    proof -
      obtain t2 e where t2: "t2 \<in> set (rb_tmvt_root s)" "tm_key t2 = o_tmvt x" by (rule soft_ord [OF w(1) x])
      have "t2 \<in> set (rb_tmvt_root s')" using t2(1) T by simp
      from st.search_node [OF srt(2) this] soft_tmvt(1) [OF w(1) t2(1)] show ?thesis using t2(2) by (simp add: tmvt_o_of_def)
    qed
    then show "sid_map s' k = sid_map s k"
      using inv_ord(1) [OF w(1), of k] by (cases "sid_rb_search o_key (rb_o_root s) k") (simp_all add: sid_map_def fld)
  qed
qed

section \<open>A new ordinal\<close>

lemma o_createD:
  assumes w: "sid_soft s" "hw_used tab s" "hw_rows tab {} s" and t: "t \<in> set (rb_tmvt_root s)"
    and new: "sid_rb_search o_key (rb_o_root s) (ucast ord) = None" and cnt: "s2_total_cnt s = of_nat (card (set (rb_o_root s)))"
  shows "\<exists>s'. sid_o_create True True ord (tm_key t) s = Some (0, s') \<and> sid_soft s' \<and> hw_used tab s' \<and> hw_rows tab {} s'
    \<and> s2_total_cnt s' = of_nat (card (set (rb_o_root s'))) \<and> tab_iobase s' = tab_iobase s \<and> s2_max_streams s' = s2_max_streams s
    \<and> sid_map s' = (sid_map s)(ucast ord \<mapsto> (tm_key t, SID_INVALID_STRHDL, 0))
    \<and> (\<forall>t' \<in> set (rb_tmvt_root s'). tm_o_root t' = [] \<longrightarrow> t' \<in> set (rb_tmvt_root s) \<and> t' \<noteq> t)"
proof -
  let ?k = "ucast ord :: u64" and ?a = "tm_key t"
  let ?x = "\<lparr>o_key = ?k, o_ord = ord, o_tmvt = ?a\<rparr>" and ?e = "\<lparr>to_key = ?k, to_str_hdl = SID_INVALID_STRHDL, to_port_mask = 0\<rparr>"
  note srt = soft_sorted [OF w(1)]
  have kO: "?k \<notin> o_key ` set (rb_o_root s)" using new so.search_None [OF srt(1)] by simp
  obtain O' where O': "sid_rb_insert o_key (rb_o_root s) ?x = (0, O')" "sorted_wrt (<) (map o_key O')" "set O' = insert ?x (set (rb_o_root s))"
    "\<And>j. sid_rb_search o_key O' j = (if j = ?k then Some ?x else sid_rb_search o_key (rb_o_root s) j)"
    using so.search_insert [OF srt(1), of ?x] new by auto
  have old: "(\<exists>x \<in> set (rb_o_root s). o_key x = k \<and> o_tmvt x = b) \<longleftrightarrow> (\<exists>t' \<in> set (rb_tmvt_root s). tm_key t' = b \<and> k \<in> to_key ` set (tm_o_root t'))" for k b
    using w(1) unfolding sid_soft_def by blast
  have "?k \<notin> to_key ` set (tm_o_root t)" using old [of ?k ?a] kO t by force
  then have tn: "sid_rb_search to_key (tm_o_root t) ?k = None" using sto.search_None [OF srt(4) [OF t]] by simp
  obtain E where E: "sid_rb_insert to_key (tm_o_root t) ?e = (0, E)" "sorted_wrt (<) (map to_key E)" "set E = insert ?e (set (tm_o_root t))"
    "\<And>j. sid_rb_search to_key E j = (if j = ?k then Some ?e else sid_rb_search to_key (tm_o_root t) j)"
    using sto.search_insert [OF srt(4) [OF t], of ?e] tn by auto
  let ?f = "\<lambda>t. t\<lparr>tm_o_root := E\<rparr>"
  define s' where "s' = upd_tmvt ?a ?f (s\<lparr>rb_o_root := O', s2_total_cnt := s2_total_cnt s + 1\<rparr>)"
  have T: "rb_tmvt_root s' = upd_node tm_key ?a ?f (rb_tmvt_root s)"
    and fld: "rb_o_root s' = O'" "rb_ht_root s' = rb_ht_root s" "port_cnt s' = port_cnt s" "tab_row_cnt s' = tab_row_cnt s" "s2_io s' = s2_io s"
      "tab_iobase s' = tab_iobase s" "s2_max_streams s' = s2_max_streams s" "s2_total_cnt s' = s2_total_cnt s + 1"
    by (simp_all add: s'_def upd_tmvt_def)
  have one: "t' = t" if "t' \<in> set (rb_tmvt_root s)" "tm_key t' = ?a" for t' by (rule key_unique [OF srt(2) that(1) t that(2)])
  have K: "map tm_key (rb_tmvt_root s') = map tm_key (rb_tmvt_root s)" unfolding T by (rule st.map_key_upd) simp
  have oks: "\<forall>t' \<in> set (rb_tmvt_root s'). tmvt_ok t'"
    unfolding T all_upd using w(1) one E(2) by (auto simp: sid_soft_def tmvt_ok_def slots_def)
  have rows: "(\<exists>h \<in> set (rb_ht_root s). ht_key h = k \<and> ht_tmvt h = b) \<longleftrightarrow> (\<exists>t' \<in> set (rb_tmvt_root s'). tm_key t' = b \<and> k \<in> set (slots t'))" for k b
  proof -
    have "(\<exists>t' \<in> set (rb_tmvt_root s'). tm_key t' = b \<and> k \<in> set (slots t')) \<longleftrightarrow> (\<exists>t' \<in> set (rb_tmvt_root s). tm_key t' = b \<and> k \<in> set (slots t'))"
      unfolding T ex_upd by (rule bex_cong) (simp_all add: slots_def)
    then show ?thesis using w(1) unfolding sid_soft_def by blast
  qed
  have os: "(\<exists>x \<in> set O'. o_key x = k \<and> o_tmvt x = b) \<longleftrightarrow> (\<exists>t' \<in> set (rb_tmvt_root s'). tm_key t' = b \<and> k \<in> to_key ` set (tm_o_root t'))" for k b
  proof -
    have "(\<exists>t' \<in> set (rb_tmvt_root s'). tm_key t' = b \<and> k \<in> to_key ` set (tm_o_root t'))
        \<longleftrightarrow> (\<exists>t' \<in> set (rb_tmvt_root s). tm_key t' = b \<and> (k \<in> to_key ` set (tm_o_root t') \<or> b = ?a \<and> k = ?k))"
      unfolding T ex_upd by (rule bex_cong) (use one E(3) in auto)
    then show ?thesis using old [of k b] t unfolding O'(3) by auto
  qed
  have "\<forall>x \<in> set O'. o_key x = ucast (o_ord x)" using w(1) unfolding O'(3) by (simp add: sid_soft_def)
  then have soft: "sid_soft s'" using w(1) oks rows os O'(2) unfolding sid_soft_def fld K by blast
  have n: "port_cnt s \<le> 12" using w(1) by (simp add: sid_soft_def)
  have g: "gen_hdls (port_cnt s) E = gen_hdls (port_cnt s) (tm_o_root t)"
    by (rule gen_silent [OF n srt(4) [OF t] E(2,3)]) (simp add: speaks_def)
  then have fn: "found (port_cnt s) E = found (port_cnt s) (tm_o_root t)" by (simp add: gen_hdls_eq [OF n])
  have hr: "hw_row tab s' (?f t) h = hw_row tab s t h" for h
    using g fn by (simp add: hw_row_def fld row_entry_def slot_tag_def)
  have hrows: "hw_rows tab {} s'"
    unfolding hw_rows_def
  proof (intro ballI impI)
    fix t' h assume a: "t' \<in> set (rb_tmvt_root s')" "h \<in> set (rb_ht_root s')" "ht_tmvt h = tm_key t'"
    from a(1) obtain t1 where t1: "t1 \<in> set (rb_tmvt_root s)" "t' = (if tm_key t1 = ?a then ?f t1 else t1)" unfolding T upd_node_def by auto
    show "hw_row tab s' t' h"
    proof (cases "tm_key t1 = ?a")
      case True
      then have "t' = ?f t" using one [OF t1(1)] t1(2) by simp
      then show ?thesis using w(3) t a(2,3) hr by (simp add: hw_rows_def fld)
    next
      case False
      then show ?thesis using w(3) t1 a(2,3) by (simp add: hw_rows_def fld hw_row_def)
    qed
  qed
  have "set O' = insert ?x (set (rb_o_root s))" "?x \<notin> set (rb_o_root s)" using O'(3) kO by force+
  then have "s2_total_cnt s' = of_nat (card (set (rb_o_root s')))" using cnt by (simp add: fld)
  moreover have "sid_map s' = (sid_map s)(?k \<mapsto> (?a, SID_INVALID_STRHDL, 0))"
  proof
    fix k
    have F: "sid_rb_search tm_key (rb_tmvt_root s') b = (if b = ?a then Some (?f t) else sid_rb_search tm_key (rb_tmvt_root s) b)" for b
      unfolding T using soft_tmvt(1) [OF w(1) t] by (simp add: st.search_upd [OF srt(2), of ?f])
    have of: "tmvt_o_of y s' = tmvt_o_of y s" if "o_key y \<noteq> ?k" for y
      using that soft_tmvt(1) [OF w(1) t] E(4) by (simp add: tmvt_o_of_def F)
    show "sid_map s' k = ((sid_map s)(?k \<mapsto> (?a, SID_INVALID_STRHDL, 0))) k"
    proof (cases "k = ?k")
      case True
      have "tmvt_o_of ?x s' = Some ?e" using E(4) by (simp add: tmvt_o_of_def F)
      then show ?thesis using True O'(4) by (simp add: sid_map_def fld)
    next
      case False
      then show ?thesis using O'(4) of inv_ord(2) [OF w(1), of k]
        by (cases "sid_rb_search o_key (rb_o_root s) k") (simp_all add: sid_map_def fld)
    qed
  qed
  moreover have "t' \<in> set (rb_tmvt_root s) \<and> t' \<noteq> t" if t': "t' \<in> set (rb_tmvt_root s')" "tm_o_root t' = []" for t'
  proof -
    from t'(1) obtain t1 where t1: "t1 \<in> set (rb_tmvt_root s)" "t' = (if tm_key t1 = ?a then ?f t1 else t1)" unfolding T upd_node_def by auto
    moreover have "E \<noteq> []" using E(3) by auto
    ultimately show ?thesis using t'(2) by (auto split: if_splits)
  qed
  moreover have "sid_o_create True True ord ?a s = Some (0, s')"
    using O'(1) E(1) soft_tmvt(1) [OF w(1) t] by (simp add: sid_o_create_def s'_def)
  moreover have "hw_used tab s'" using w(2) by (simp add: hw_used_def fld)
  ultimately show ?thesis using soft hrows fld by blast
qed

section \<open>Creation\<close>

lemma inv_core: "sid_inv tab base s \<Longrightarrow> sid_soft s \<and> hw_used tab s \<and> hw_rows tab {} s"
  by (simp add: sid_inv_def)

lemma dump_inv:
  assumes "sid_inv tab base s" "tab io = tab (s2_io s)"
  shows "sid_inv tab base (s\<lparr>s2_io := io\<rparr>)" "sid_map (s\<lparr>s2_io := io\<rparr>) = sid_map s" "s2_max_streams (s\<lparr>s2_io := io\<rparr>) = s2_max_streams s"
proof -
  have "sid_soft (s\<lparr>s2_io := io\<rparr>) \<longleftrightarrow> sid_soft s" unfolding sid_soft_def by simp
  then show "sid_inv tab base (s\<lparr>s2_io := io\<rparr>)" using assms by (simp add: sid_inv_def hw_used_def hw_rows_def hw_row_def)
qed (simp_all add: fun_eq_iff sid_map_def tmvt_o_of_def)

text \<open>A new ordinal of an identification in the tree, and the dump after it.\<close>

lemma ord_dumpD:
  assumes c: "sid_contract dev base tab" and w: "sid_soft s" "hw_used tab s" "hw_rows tab {} s" "tab_iobase s = base"
    and t: "t \<in> set (rb_tmvt_root s)" "\<And>t'. t' \<in> set (rb_tmvt_root s) \<Longrightarrow> t' \<noteq> t \<Longrightarrow> tm_o_root t' \<noteq> []"
    and new: "sid_rb_search o_key (rb_o_root s) (ucast ord) = None" and cnt: "s2_total_cnt s = of_nat (card (set (rb_o_root s)))"
  shows "\<exists>s1 s2. sid_o_create True True ord (tm_key t) s = Some (0, s1) \<and> sid_dump dev s1 = Some s2 \<and> sid_inv tab base s2
    \<and> s2_max_streams s2 = s2_max_streams s \<and> sid_map s2 = (sid_map s)(ucast ord \<mapsto> (tm_key t, SID_INVALID_STRHDL, 0))"
proof -
  from o_createD [OF w(1-3) t(1) new cnt] obtain s1 where s1: "sid_o_create True True ord (tm_key t) s = Some (0, s1)"
    "sid_soft s1" "hw_used tab s1" "hw_rows tab {} s1" "s2_total_cnt s1 = of_nat (card (set (rb_o_root s1)))" "tab_iobase s1 = tab_iobase s"
    "s2_max_streams s1 = s2_max_streams s" "sid_map s1 = (sid_map s)(ucast ord \<mapsto> (tm_key t, SID_INVALID_STRHDL, 0))"
    "\<forall>t' \<in> set (rb_tmvt_root s1). tm_o_root t' = [] \<longrightarrow> t' \<in> set (rb_tmvt_root s) \<and> t' \<noteq> t" by blast
  have "tm_o_root t' \<noteq> []" if "t' \<in> set (rb_tmvt_root s1)" for t' using s1(9) t(2) that by blast
  then have inv: "sid_inv tab base s1" using s1 w(4) by (simp add: sid_inv_def)
  have "sid_contract dev (tab_iobase s1) tab" using c s1(6) w(4) by simp
  then obtain io where "sid_dump dev s1 = Some (s1\<lparr>s2_io := io\<rparr>)" "tab io = tab (s2_io s1)" by (rule dumpD)
  then show ?thesis using s1(1,7,8) dump_inv [OF inv] by auto
qed

text \<open>The outcomes of a creation.\<close>

definition created :: "(nat \<Rightarrow> bool) \<Rightarrow> ident_params \<Rightarrow> u64 \<Rightarrow> int \<Rightarrow> edgx_sid2_br \<Rightarrow> edgx_sid2_br \<Rightarrow> bool" where
  "created ok p k ret s s' \<longleftrightarrow>
     (case sid_map s k of Some v \<Rightarrow> ret = - EEXIST \<and> sid_map s' = sid_map s
      | None \<Rightarrow> ret = 0 \<and> sid_map s' = (sid_map s)(k \<mapsto> (params_to_tmvt_key p, SID_INVALID_STRHDL, 0))
          \<or> sid_map s' = sid_map s \<and> (ret = - ENOMEM \<and> (\<exists>i. \<not> ok i)
              \<or> ret = - ENOSPC \<and> (\<forall>k' v. sid_map s k' = Some v \<longrightarrow> fst v \<noteq> params_to_tmvt_key p)
                 \<and> no_free_row s (ip_addr p) (ip_tag p) (ip_vid p)))"

lemma map_key_tree: "sid_soft s \<Longrightarrow> sid_map s k = Some v \<Longrightarrow> fst v \<in> tm_key ` set (rb_tmvt_root s)"
proof -
  assume w: "sid_soft s" and m: "sid_map s k = Some v"
  obtain x where x: "sid_rb_search o_key (rb_o_root s) k = Some x" "fst v = o_tmvt x" using m by (auto simp: sid_map_def bind_eq_Some_conv)
  obtain t where "t \<in> set (rb_tmvt_root s)" "tm_key t = o_tmvt x" by (rule soft_ord [OF w inv_ord(1) [OF w x(1)]])
  then show "fst v \<in> tm_key ` set (rb_tmvt_root s)" using x(2) by (metis imageI)
qed

lemma create_knownD:
  assumes c: "sid_contract dev base tab" and w: "sid_inv tab base s" and new: "sid_rb_search o_key (rb_o_root s) (ucast ord) = None"
    and t: "sid_rb_search tm_key (rb_tmvt_root s) (params_to_tmvt_key p) = Some t"
  shows "\<exists>ret s'. sid2_create dev ok p ord s = Some (ret, s') \<and> sid_inv tab base s' \<and> s2_max_streams s' = s2_max_streams s
    \<and> created ok p (ucast ord) ret s s'"
proof (cases "ok 3 \<and> ok 4")
  case False
  then have "\<exists>i. \<not> ok i" by blast
  then show ?thesis using w new t False
    by (intro exI [of _ "- ENOMEM"] exI [of _ s]) (auto simp: sid2_create_def sid_o_create_def created_def sid_map_def)
next
  case True
  note core = inv_core [OF w]
  have t: "t \<in> set (rb_tmvt_root s)" "tm_key t = params_to_tmvt_key p" "sid_rb_search tm_key (rb_tmvt_root s) (params_to_tmvt_key p) = Some t"
    using t core sid_search_eq [of tm_key "rb_tmvt_root s" "params_to_tmvt_key p" t] by (simp_all add: sid_soft_def)
  from ord_dumpD [OF c _ _ _ _ t(1) _ new] core w obtain s1 s2 where "sid_o_create True True ord (params_to_tmvt_key p) s = Some (0, s1)"
    "sid_dump dev s1 = Some s2" "sid_inv tab base s2" "s2_max_streams s2 = s2_max_streams s"
    "sid_map s2 = (sid_map s)(ucast ord \<mapsto> (params_to_tmvt_key p, SID_INVALID_STRHDL, 0))"
    unfolding t(2) sid_inv_def by blast
  then show ?thesis using True new t(3) by (auto simp: sid2_create_def created_def sid_map_def)
qed

lemma create_newD:
  assumes c: "sid_contract dev base tab" and w: "sid_inv tab base s" and new: "sid_rb_search o_key (rb_o_root s) (ucast ord) = None"
    and tn: "sid_rb_search tm_key (rb_tmvt_root s) (params_to_tmvt_key p) = None"
  shows "\<exists>ret s'. sid2_create dev ok p ord s = Some (ret, s') \<and> sid_inv tab base s' \<and> s2_max_streams s' = s2_max_streams s
    \<and> created ok p (ucast ord) ret s s'"
proof -
  let ?k = "params_to_tmvt_key p"
  have core: "sid_soft s" "hw_used tab s" "hw_rows tab {} s" using inv_core [OF w] by blast+
  have fresh: "?k \<notin> tm_key ` set (rb_tmvt_root s)" using tn st.search_None [OF soft_sorted(2) [OF core(1)]] by simp
  have nokey: "\<forall>k' v. sid_map s k' = Some v \<longrightarrow> fst v \<noteq> ?k" using map_key_tree [OF core(1)] fresh by metis
  have free: "sid_map s (ucast ord) = None" by (simp add: sid_map_def new)
  from tmvt_createD [OF core(1) fresh, of dev "ok 0" "ok 1" "ok 2" "ip_tag p" "ip_vid p" "ip_addr p"] obtain ret s1 where
    s1: "sid_tmvt_create dev (ok 0) (ok 1) (ok 2) ?k (ip_tag p) (ip_vid p) (ip_addr p) s = Some (ret, s1)"
    "(ret = - ENOSPC \<and> no_free_row s (ip_addr p) (ip_tag p) (ip_vid p) \<or> ret = - ENOMEM \<and> \<not> (ok 0 \<and> ok 1 \<and> ok 2)) \<and> s1 = s \<or> ret = 0 \<and> (\<exists>t. tm_key t = ?k \<and> tmvt_added t s s1)" by blast
  show ?thesis
  proof (cases "ret = 0")
    case False
    then have "sid2_create dev ok p ord s = Some (ret, s)" using s1 tn new by (auto simp: sid2_create_def)
    moreover have "created ok p (ucast ord) ret s s" using False s1(2) nokey free by (auto simp: created_def)
    ultimately show ?thesis using w by blast
  next
    case True
    then obtain t where t: "tm_key t = ?k" "tmvt_added t s s1" using s1(2) by auto
    note a = addedD [OF core fresh [folded t(1)] t(2)]
    have "s1 = s\<lparr>rb_ht_root := rb_ht_root s1, rb_tmvt_root := rb_tmvt_root s1\<rparr>" using t(2) by (simp add: tmvt_added_def)
    then have fld: "rb_o_root s1 = rb_o_root s" "s2_total_cnt s1 = s2_total_cnt s" "tab_iobase s1 = tab_iobase s" "s2_max_streams s1 = s2_max_streams s"
      by (cases s, cases s1, simp)+
    have T: "set (rb_tmvt_root s1) = insert t (set (rb_tmvt_root s))" and te: "tm_o_root t = []" using t(2) by (simp_all add: tmvt_added_def)
    have rest: "t' \<in> set (rb_tmvt_root s1) \<Longrightarrow> t' \<noteq> t \<Longrightarrow> tm_o_root t' \<noteq> []" for t' using T w by (simp add: sid_inv_def)
    have t1: "t \<in> set (rb_tmvt_root s1)" using T by simp
    show ?thesis
    proof (cases "ok 3 \<and> ok 4")
      case False
      from tmvt_releaseD [OF a(1-3) t1 te, of dev] obtain s2 where s2: "sid_tmvt_release dev ?k s1 = Some s2" "sid_soft s2" "hw_used tab s2"
        "hw_rows tab {} s2" "sid_map s2 = sid_map s1" "rb_tmvt_root s2 = rb_erase tm_key ?k (rb_tmvt_root s1)" "rb_o_root s2 = rb_o_root s1"
        "s2_total_cnt s2 = s2_total_cnt s1" "tab_iobase s2 = tab_iobase s1" "s2_max_streams s2 = s2_max_streams s1" unfolding t(1) by blast
      have "\<forall>t' \<in> set (rb_tmvt_root s2). tm_o_root t' \<noteq> []" using rest t(1) unfolding s2(6) by (auto simp: rb_erase_def)
      then have "sid_inv tab base s2" using s2 fld w by (simp add: sid_inv_def)
      moreover have "sid2_create dev ok p ord s = Some (- ENOMEM, s2)"
        using s1(1) s2(1) True new tn False by (simp add: sid2_create_def sid_o_create_def)
      moreover have "\<exists>i. \<not> ok i" using False by blast
      then have "created ok p (ucast ord) (- ENOMEM) s s2" using free s2(5) a(4) by (simp add: created_def)
      ultimately show ?thesis using s2(10) fld(4) by auto
    next
      case ok: True
      have "tab_iobase s1 = base" "sid_rb_search o_key (rb_o_root s1) (ucast ord) = None" "s2_total_cnt s1 = of_nat (card (set (rb_o_root s1)))"
        using new w by (simp_all add: fld sid_inv_def)
      from ord_dumpD [OF c a(1-3) this(1) t1 rest this(2,3)] obtain s2 s3 where s2: "sid_o_create True True ord ?k s1 = Some (0, s2)"
        "sid_dump dev s2 = Some s3" "sid_inv tab base s3" "s2_max_streams s3 = s2_max_streams s1"
        "sid_map s3 = (sid_map s1)(ucast ord \<mapsto> (?k, SID_INVALID_STRHDL, 0))" unfolding t(1) by blast
      have "sid2_create dev ok p ord s = Some (0, s3)" using s1(1) s2(1,2) True new tn ok by (simp add: sid2_create_def)
      moreover have "created ok p (ucast ord) 0 s s3" using free s2(5) a(4) by (simp add: created_def)
      ultimately show ?thesis using s2(3,4) fld(4) by auto
    qed
  qed
qed

lemma createD:
  assumes c: "sid_contract dev base tab" and w: "sid_inv tab base s"
  shows "\<exists>ret s'. sid2_create dev ok p ord s = Some (ret, s') \<and> sid_inv tab base s' \<and> s2_max_streams s' = s2_max_streams s
    \<and> created ok p (ucast ord) ret s s'"
proof (cases "sid_rb_search o_key (rb_o_root s) (ucast ord)")
  case (Some oe)
  have sf: "sid_soft s" using w by (simp add: sid_inv_def)
  obtain e where e: "tmvt_o_of oe s = Some e" by (rule soft_ord [OF sf inv_ord(1) [OF sf Some]])
  show ?thesis using w Some e by (intro exI [of _ "- EEXIST"] exI [of _ s]) (simp add: sid2_create_def created_def sid_map_def)
next
  case None
  show ?thesis
  proof (cases "sid_rb_search tm_key (rb_tmvt_root s) (params_to_tmvt_key p)")
    case (Some t)
    show ?thesis by (rule create_knownD [OF c w None Some])
  next
    case tn: None
    show ?thesis by (rule create_newD [OF c w None tn])
  qed
qed

end
