(* ===== verification/BrSid2Fix.thy ===== *)
theory BrSid2Fix
  imports BrSid2
begin

text \<open>What no operation of the stream identification with its own table changes.\<close>

definition sid_fixed :: "edgx_sid2_br \<Rightarrow> nat \<times> u16 \<times> u16 \<times> nat \<times> nat" where
  "sid_fixed s = (port_cnt s, s2_max_streams s, tab_row_cnt s, tab_iobase s, counter_iobase s)"

named_theorems sid_fix

lemma fix_tree [simp]:
  "sid_fixed (upd_tmvt k u s) = sid_fixed s" "sid_fixed (upd_ht k v s) = sid_fixed s" "sid_fixed (upd_tmvt_o oe w s) = sid_fixed s"
  "sid_fixed (sid_o_release oe s) = sid_fixed s"
  by (simp_all add: sid_fixed_def upd_tmvt_def upd_ht_def upd_tmvt_o_def sid_o_release_def)

lemma fix_fields [simp]:
  "sid_fixed (s\<lparr>rb_o_root := os\<rparr>) = sid_fixed s" "sid_fixed (s\<lparr>rb_tmvt_root := ts\<rparr>) = sid_fixed s" "sid_fixed (s\<lparr>rb_ht_root := hs\<rparr>) = sid_fixed s"
  "sid_fixed (s\<lparr>s2_io := io\<rparr>) = sid_fixed s" "sid_fixed (s\<lparr>s2_total_cnt := n\<rparr>) = sid_fixed s"
  by (simp_all add: sid_fixed_def)

lemma fix_tab [sid_fix]:
  "edgx_sid_tab_set dev col row e s = Some s' \<Longrightarrow> sid_fixed s' = sid_fixed s"
  "edgx_sid_tab_get dev col row s = Some (v, s') \<Longrightarrow> sid_fixed s' = sid_fixed s"
  by (auto simp: edgx_sid_tab_set_def edgx_sid_tab_get_def Let_def bind_eq_Some_conv)

lemma fix_get_all: "tab_get_all dev ps s = Some s' \<Longrightarrow> sid_fixed s' = sid_fixed s"
proof (induction ps arbitrary: s)
  case (Cons p ps)
  then show ?case by (cases p) (auto simp: bind_eq_Some_conv fix_tab(2))
qed simp

lemma fix_dump [sid_fix]: "sid_dump dev s = Some s' \<Longrightarrow> sid_fixed s' = sid_fixed s"
  unfolding sid_dump_def by (rule fix_get_all)

lemma fix_ht [sid_fix]:
  "sid_ht_deactivate dev k s = Some s' \<Longrightarrow> sid_fixed s' = sid_fixed s"
  "sid_ht_activate dev k tag e s = Some s' \<Longrightarrow> sid_fixed s' = sid_fixed s"
  by (auto simp: sid_ht_deactivate_def sid_ht_activate_def Let_def dest!: sid_fix elim!: bind_eq_SomeE split: if_split_asm)

lemma fix_release [sid_fix]: "release_opt dev ko s = Some s' \<Longrightarrow> sid_fixed s' = sid_fixed s"
  by (auto simp: release_opt_def sid_ht_release_def dest!: sid_fix elim!: bind_eq_SomeE split: if_split_asm option.split_asm)

lemma fix_ht_create [sid_fix]: "sid_ht_create ok a addr vl tag s = (ret, k, s') \<Longrightarrow> sid_fixed s' = sid_fixed s"
  by (auto simp: sid_ht_create_def Let_def dest!: sid_fix split: if_split_asm option.split_asm prod.split_asm)

lemma fix_ht_create_snd [simp]: "sid_fixed (snd (snd (sid_ht_create ok a addr vl tag s))) = sid_fixed s"
  using fix_ht_create [of ok a addr vl tag s] by (cases "sid_ht_create ok a addr vl tag s") simp

lemma fix_tmvt_release [sid_fix]: "sid_tmvt_release dev k s = Some s' \<Longrightarrow> sid_fixed s' = sid_fixed s"
  by (auto simp: sid_tmvt_release_def dest!: sid_fix elim!: bind_eq_SomeE)

lemma fix_gen [sid_fix]: "sid_gen_port_str_hdls dev k s = Some s' \<Longrightarrow> sid_fixed s' = sid_fixed s"
  unfolding sid_gen_port_str_hdls_def split_beta Let_def by (auto dest!: sid_fix elim!: bind_eq_SomeE split: if_split_asm)

lemma fix_o_create [sid_fix]: "sid_o_create ok1 ok2 ord a s = Some (ret, s') \<Longrightarrow> sid_fixed s' = sid_fixed s"
  unfolding sid_o_create_def split_beta Let_def by (auto dest!: sid_fix elim!: bind_eq_SomeE split: if_split_asm)

lemma fix_tmvt_create [sid_fix]: "sid_tmvt_create dev ok0 ok1 ok2 k tag vl addr s = Some (ret, s') \<Longrightarrow> sid_fixed s' = sid_fixed s"
  unfolding sid_tmvt_create_def split_beta Let_def by (auto dest!: sid_fix elim!: bind_eq_SomeE split: if_split_asm)

lemma fix_create [sid_fix]: "sid2_create dev ok p ord s = Some (ret, s') \<Longrightarrow> sid_fixed s' = sid_fixed s"
  by (auto simp: sid2_create_def Let_def dest!: sid_fix elim!: bind_eq_SomeE split: if_split_asm option.split_asm prod.split_asm)

lemma fix_sid2_release [sid_fix]: "sid2_release dev oe s = Some s' \<Longrightarrow> sid_fixed s' = sid_fixed s"
  by (auto simp: sid2_release_def Let_def dest!: sid_fix elim!: bind_eq_SomeE split: if_split_asm)

lemma fix_files [sid_fix]:
  "sid2_ident_params_write dev ok p ofs count s = Some (ret, s') \<Longrightarrow> sid_fixed s' = sid_fixed s"
  "sid2_delete_write dev ofs count s = Some (ret, s') \<Longrightarrow> sid_fixed s' = sid_fixed s"
  "sid2_set_strhdl_write dev h ofs count s = Some (ret, s') \<Longrightarrow> sid_fixed s' = sid_fixed s"
  "port_pos_file dev pp clear ofs count s = Some (ret, s') \<Longrightarrow> sid_fixed s' = sid_fixed s"
  by (auto simp: sid2_ident_params_write_def sid2_delete_write_def sid2_set_strhdl_write_def port_pos_file_def sid_port_pos_set_def
      Let_def dest!: sid_fix elim!: bind_eq_SomeE split: if_split_asm option.split_asm sum.split_asm)

end
