(* ===== verification/BrSid2Props.thy ===== *)
theory BrSid2Props
  imports BrSid2New BrSid2Fix
begin

text \<open>
  The states that the stream identification with its own table reaches, the agreement of the hardware
  table with the identifications in them, and the files as operations on a map.
\<close>

unbundle bit_operations_syntax

section \<open>Requests\<close>

text \<open>What a write to one of the files asks for. The elements of the files have different sizes.\<close>

datatype sid2_req = Create ident_params | Delete | SetHdl u16 | AddPort port_pos | DelPort port_pos

fun sid2_call :: "device \<Rightarrow> (nat \<Rightarrow> bool) \<Rightarrow> sid2_req \<Rightarrow> int \<Rightarrow> int \<Rightarrow> edgx_sid2_br \<Rightarrow> (int \<times> edgx_sid2_br) option" where
  "sid2_call dev ok (Create p) = sid2_ident_params_write dev ok p"
| "sid2_call dev ok Delete = sid2_delete_write dev"
| "sid2_call dev ok (SetHdl h) = sid2_set_strhdl_write dev h"
| "sid2_call dev ok (AddPort pp) = sid2_port_pos_write dev pp"
| "sid2_call dev ok (DelPort pp) = sid2_port_pos_del_write dev pp"

fun elem_size :: "sid2_req \<Rightarrow> int" where
  "elem_size (Create p) = 18" | "elem_size Delete = 2" | "elem_size (SetHdl h) = 2" | "elem_size (AddPort pp) = 6" | "elem_size (DelPort pp) = 6"

text \<open>The parameters of an identification that the code takes.\<close>

definition params_ok :: "ident_params \<Rightarrow> bool" where
  "params_ok p \<longleftrightarrow> ip_id_type p = SID_NULL \<and> (ip_tag p = SID_TAGGED \<or> (ip_tag p = SID_PRIORITY \<or> ip_tag p = SID_ALL) \<and> ip_vid p = 0)"

type_synonym sid_files = "u64 \<Rightarrow> (u64 \<times> u16 \<times> u32) option"

definition port_spec :: "nat \<Rightarrow> (u32 \<Rightarrow> u32 \<Rightarrow> u32) \<Rightarrow> port_pos \<Rightarrow> u64 \<Rightarrow> sid_files \<Rightarrow> int + sid_files" where
  "port_spec nports f pp ord m =
     (if unat (pp_port pp) > nports \<or> pp_pos pp \<noteq> OUT_FAC_IN then Inl (- EINVAL)
      else case m ord of None \<Rightarrow> Inl (- ENOENT) | Some (a, h, pm) \<Rightarrow> Inr (m(ord \<mapsto> (a, h, f pm (BIT (unat (pp_port pp)))))))"

text \<open>The files as operations on a map from ordinals to key, handle and ports.\<close>

fun sid2_spec :: "u16 \<Rightarrow> nat \<Rightarrow> sid2_req \<Rightarrow> u64 \<Rightarrow> sid_files \<Rightarrow> int + sid_files" where
  "sid2_spec maxs nports (Create p) ord m =
     (if \<not> params_ok p then Inl (- EINVAL)
      else if m ord \<noteq> None then Inl (- EEXIST) else Inr (m(ord \<mapsto> (params_to_tmvt_key p, SID_INVALID_STRHDL, 0))))"
| "sid2_spec maxs nports Delete ord m = (if m ord = None then Inl (- ENOENT) else Inr (m(ord := None)))"
| "sid2_spec maxs nports (SetHdl h) ord m =
     (case m ord of None \<Rightarrow> Inl (- ENOENT) | Some (a, h0, pm) \<Rightarrow> if h \<ge> maxs then Inl (- EINVAL) else Inr (m(ord \<mapsto> (a, h, pm))))"
| "sid2_spec maxs nports (AddPort pp) ord m = port_spec nports (\<lambda>pm b. pm OR b) pp ord m"
| "sid2_spec maxs nports (DelPort pp) ord m = port_spec nports (\<lambda>pm b. pm AND NOT b) pp ord m"

section \<open>One request\<close>

lemma dump_step:
  assumes c: "sid_contract dev base tab" and w: "sid_inv tab base s"
  obtains s' where "sid_dump dev s = Some s'" "sid_inv tab base s'" "sid_map s' = sid_map s" "s2_max_streams s' = s2_max_streams s" "port_cnt s' = port_cnt s"
proof -
  have "sid_contract dev (tab_iobase s) tab" using c w by (simp add: sid_inv_def)
  then obtain io where io: "sid_dump dev s = Some (s\<lparr>s2_io := io\<rparr>)" "tab io = tab (s2_io s)" by (rule dumpD)
  show thesis by (rule that [OF io(1)]) (use dump_inv [OF w io(2)] in simp_all)
qed

lemma map_search:
  assumes "sid_inv tab base s" "sid_rb_search o_key (rb_o_root s) k = Some x"
  obtains e where "tmvt_o_of x s = Some e" "sid_map s k = Some (o_tmvt x, to_str_hdl e, to_port_mask e)"
proof -
  have sf: "sid_soft s" using assms(1) by (simp add: sid_inv_def)
  obtain e where "tmvt_o_of x s = Some e" by (rule soft_ord [OF sf inv_ord(1) [OF sf assms(2)]])
  then show thesis using assms(2) by (intro that [of e]) (simp_all add: sid_map_def)
qed

lemma map_None: "sid_rb_search o_key (rb_o_root s) k = None \<Longrightarrow> sid_map s k = None"
  by (simp add: sid_map_def)

text \<open>The outcome of a request that the specification answers with \<open>v\<close>.\<close>

definition outcome :: "(int + sid_files) \<Rightarrow> int \<Rightarrow> int \<Rightarrow> edgx_sid2_br \<Rightarrow> edgx_sid2_br \<Rightarrow> bool" where
  "outcome v count ret s s' \<longleftrightarrow> (case v of Inl e \<Rightarrow> ret = e \<and> sid_map s' = sid_map s | Inr m \<Rightarrow> ret = count \<and> sid_map s' = m)"

lemma change_dumpD:
  assumes c: "sid_contract dev base tab" and w: "sid_inv tab base s" and x: "sid_rb_search o_key (rb_o_root s) k = Some x"
    and u: "\<And>e. to_key (u e) = to_key e" and e: "tmvt_o_of x s = Some e"
  shows "\<exists>s1 s'. sid_gen_port_str_hdls dev (o_tmvt x) (upd_tmvt_o x u s) = Some s1 \<and> sid_dump dev s1 = Some s' \<and> sid_inv tab base s'
    \<and> sid_map s' = (sid_map s)(k \<mapsto> (o_tmvt x, to_str_hdl (u e), to_port_mask (u e)))"
proof -
  from change_toeD [OF c w x u e] obtain s1 where s1: "sid_gen_port_str_hdls dev (o_tmvt x) (upd_tmvt_o x u s) = Some s1" "sid_inv tab base s1"
    "sid_map s1 = (sid_map s)(k \<mapsto> (o_tmvt x, to_str_hdl (u e), to_port_mask (u e)))" by blast
  obtain s' where "sid_dump dev s1 = Some s'" "sid_inv tab base s'" "sid_map s' = sid_map s1" by (rule dump_step [OF c s1(2)])
  then show ?thesis using s1 by auto
qed

lemma deleteD:
  assumes c: "sid_contract dev base tab" and w: "sid_inv tab base s" and ord: "ord \<le> 0xFFFF"
  shows "\<exists>ret s'. sid2_delete_write dev (ord * 2) 2 s = Some (ret, s') \<and> sid_inv tab base s'
    \<and> outcome (sid2_spec (s2_max_streams s) (port_cnt s) Delete (word_of_int ord) (sid_map s)) 2 ret s s'"
proof (cases "sid_rb_search o_key (rb_o_root s) (word_of_int ord)")
  case None
  then show ?thesis using w ord map_None [OF None] by (simp add: sid2_delete_write_def outcome_def)
next
  case (Some x)
  obtain e where e: "tmvt_o_of x s = Some e" "sid_map s (word_of_int ord) = Some (o_tmvt x, to_str_hdl e, to_port_mask e)" by (rule map_search [OF w Some])
  from releaseD [OF c w Some] obtain s1 where s1: "sid2_release dev x s = Some s1" "sid_inv tab base s1"
    "sid_map s1 = (sid_map s)(word_of_int ord := None)" by blast
  obtain s' where "sid_dump dev s1 = Some s'" "sid_inv tab base s'" "sid_map s' = sid_map s1" by (rule dump_step [OF c s1(2)])
  then show ?thesis using Some ord e s1 by (simp add: sid2_delete_write_def outcome_def)
qed

lemma set_hdlD:
  assumes c: "sid_contract dev base tab" and w: "sid_inv tab base s" and ord: "ord \<le> 0xFFFF"
  shows "\<exists>ret s'. sid2_set_strhdl_write dev h (ord * 2) 2 s = Some (ret, s') \<and> sid_inv tab base s'
    \<and> outcome (sid2_spec (s2_max_streams s) (port_cnt s) (SetHdl h) (word_of_int ord) (sid_map s)) 2 ret s s'"
proof (cases "sid_rb_search o_key (rb_o_root s) (word_of_int ord)")
  case None
  then show ?thesis using w ord map_None [OF None] by (simp add: sid2_set_strhdl_write_def outcome_def)
next
  case (Some x)
  obtain e where e: "tmvt_o_of x s = Some e" "sid_map s (word_of_int ord) = Some (o_tmvt x, to_str_hdl e, to_port_mask e)" by (rule map_search [OF w Some])
  show ?thesis
  proof (cases "h \<ge> s2_max_streams s")
    case True
    then show ?thesis using Some ord e w by (simp add: sid2_set_strhdl_write_def outcome_def)
  next
    case False
    from change_dumpD [OF c w Some _ e(1), of "\<lambda>e. e\<lparr>to_str_hdl := h\<rparr>"] show ?thesis
      using Some ord e False by (auto simp: sid2_set_strhdl_write_def outcome_def)
  qed
qed

lemma port_setD:
  assumes c: "sid_contract dev base tab" and w: "sid_inv tab base s" and ord: "0 \<le> ord" "ord \<le> 0xFFFF"
  shows "\<exists>ret s'. port_pos_file dev pp clear (ord * 6) 6 s = Some (ret, s') \<and> sid_inv tab base s'
    \<and> outcome (port_spec (port_cnt s) (if clear then (\<lambda>pm b. pm AND NOT b) else (\<lambda>pm b. pm OR b)) pp (word_of_int ord) (sid_map s)) 6 ret s s'"
proof -
  have u: "ucast (word_of_int ord :: u16) = (word_of_int ord :: u64)"
    using ord by (simp add: unsigned_of_int take_bit_int_eq_self)
  show ?thesis
  proof (cases "unat (pp_port pp) > port_cnt s \<or> pp_pos pp \<noteq> OUT_FAC_IN")
    case True
    then show ?thesis using w ord by (auto simp: port_pos_file_def sid_port_pos_set_def outcome_def port_spec_def)
  next
    case ok: False
    show ?thesis
    proof (cases "sid_rb_search o_key (rb_o_root s) (word_of_int ord)")
      case None
      then show ?thesis using w ord ok u map_None [OF None] by (auto simp: port_pos_file_def sid_port_pos_set_def outcome_def port_spec_def)
    next
      case (Some x)
      obtain e where e: "tmvt_o_of x s = Some e" "sid_map s (word_of_int ord) = Some (o_tmvt x, to_str_hdl e, to_port_mask e)"
        by (rule map_search [OF w Some])
      let ?u = "\<lambda>toe. toe\<lparr>to_port_mask := (if clear then to_port_mask toe AND NOT (BIT (unat (pp_port pp))) else to_port_mask toe OR BIT (unat (pp_port pp)))\<rparr>"
      have uk: "to_key (?u e) = to_key e" for e by simp
      from change_dumpD [OF c w Some uk e(1)] obtain s1 s' where s': "sid_gen_port_str_hdls dev (o_tmvt x) (upd_tmvt_o x ?u s) = Some s1"
        "sid_dump dev s1 = Some s'" "sid_inv tab base s'"
        "sid_map s' = (sid_map s)(word_of_int ord \<mapsto> (o_tmvt x, to_str_hdl (?u e), to_port_mask (?u e)))" by blast
      have "sid_port_pos_set dev (word_of_int ord) pp clear s = Some (0, s')"
        using ok u Some s'(1,2) unfolding sid_port_pos_set_def Let_def by simp
      then have "port_pos_file dev pp clear (ord * 6) 6 s = Some (6, s')" using ord by (simp add: port_pos_file_def)
      moreover have "outcome (port_spec (port_cnt s) (if clear then (\<lambda>pm b. pm AND NOT b) else (\<lambda>pm b. pm OR b)) pp (word_of_int ord) (sid_map s)) 6 6 s s'"
        using ok e(2) s'(4) by (simp add: outcome_def port_spec_def)
      ultimately show ?thesis using s'(3) by blast
    qed
  qed
qed

text \<open>A creation that the specification grants may find no memory, or none of the rows of a new identification free.\<close>

definition no_room :: "(nat \<Rightarrow> bool) \<Rightarrow> sid2_req \<Rightarrow> u64 \<Rightarrow> int \<Rightarrow> edgx_sid2_br \<Rightarrow> edgx_sid2_br \<Rightarrow> bool" where
  "no_room ok r k ret s s' \<longleftrightarrow>
     (\<exists>p. r = Create p \<and> params_ok p \<and> sid_map s k = None \<and> sid_map s' = sid_map s
        \<and> (ret = - ENOMEM \<and> (\<exists>i. \<not> ok i) \<or> ret = - ENOSPC \<and> (\<forall>k' v. sid_map s k' = Some v \<longrightarrow> fst v \<noteq> params_to_tmvt_key p)
           \<and> no_free_row s (ip_addr p) (ip_tag p) (ip_vid p)))"

lemma ord_cast:
  assumes "0 \<le> ord" "ord \<le> 0xFFFF" shows "ucast (word_of_int ord :: u16) = (word_of_int ord :: u64)"
  using assms by (simp add: unsigned_of_int take_bit_int_eq_self)

lemma create_fileD:
  assumes c: "sid_contract dev base tab" and w: "sid_inv tab base s" and ord: "0 \<le> ord" "ord \<le> 0xFFFF"
  shows "\<exists>ret s'. sid2_ident_params_write dev ok p (ord * 18) 18 s = Some (ret, s') \<and> sid_inv tab base s'
    \<and> (outcome (sid2_spec (s2_max_streams s) (port_cnt s) (Create p) (word_of_int ord) (sid_map s)) 18 ret s s'
       \<or> no_room ok (Create p) (word_of_int ord) ret s s')"
proof (cases "params_ok p")
  case False
  then have "sid2_ident_params_write dev ok p (ord * 18) 18 s = Some (- EINVAL, s)"
    using ord by (auto simp: sid2_ident_params_write_def params_ok_def)
  then show ?thesis using False w by (auto simp: outcome_def)
next
  case True
  from createD [OF c w, of ok p "word_of_int ord"] obtain ret s' where s': "sid2_create dev ok p (word_of_int ord) s = Some (ret, s')"
    "sid_inv tab base s'" "created ok p (ucast (word_of_int ord :: u16)) ret s s'" by blast
  have e: "sid2_ident_params_write dev ok p (ord * 18) 18 s = Some (if ret \<noteq> 0 then ret else 18, s')"
    using True ord s'(1) by (auto simp: sid2_ident_params_write_def params_ok_def)
  have cr: "created ok p (word_of_int ord) ret s s'" using s'(3) unfolding ord_cast [OF ord] .
  show ?thesis
  proof (cases "sid_map s (word_of_int ord)")
    case (Some v)
    then show ?thesis using e s'(2) cr True by (auto simp: created_def outcome_def)
  next
    case None
    then show ?thesis using e s'(2) cr True unfolding created_def outcome_def no_room_def by auto
  qed
qed

lemma callD:
  assumes c: "sid_contract dev base tab" and w: "sid_inv tab base s" and ord: "0 \<le> ord" "ord \<le> 0xFFFF"
  shows "\<exists>ret s'. sid2_call dev ok r (ord * elem_size r) (elem_size r) s = Some (ret, s') \<and> sid_inv tab base s'
    \<and> (outcome (sid2_spec (s2_max_streams s) (port_cnt s) r (word_of_int ord) (sid_map s)) (elem_size r) ret s s'
       \<or> no_room ok r (word_of_int ord) ret s s')"
proof (cases r)
  case (Create p) with create_fileD [OF c w ord, of ok p] show ?thesis by simp
next
  case Delete with deleteD [OF c w ord(2)] show ?thesis by auto
next
  case (SetHdl h) with set_hdlD [OF c w ord(2), of h] show ?thesis by auto
next
  case (AddPort pp) with port_setD [OF c w ord, of pp False] show ?thesis by (auto simp: sid2_port_pos_write_def)
next
  case (DelPort pp) with port_setD [OF c w ord, of pp True] show ?thesis by (auto simp: sid2_port_pos_del_write_def)
qed

lemma call_inv:
  assumes c: "sid_contract dev base tab" and w: "sid_inv tab base s" and ofs: "0 \<le> ofs" and r: "sid2_call dev ok r ofs count s = Some (ret, s')"
  shows "sid_inv tab base s'"
proof (cases "elem_size r dvd ofs \<and> count = elem_size r \<and> ofs div elem_size r \<le> 0xFFFF")
  case True
  have "0 < elem_size r" by (cases r) simp_all
  then have "0 \<le> ofs div elem_size r" "ofs = ofs div elem_size r * elem_size r" using ofs True by (simp_all add: pos_imp_zdiv_nonneg_iff)
  with callD [OF c w this(1), of ok r] True r show ?thesis by auto
next
  case False
  then have "s' = s" using r
    by (cases r) (auto simp: sysfs_tbl_params_iff sid2_ident_params_write_def sid2_delete_write_def sid2_set_strhdl_write_def sid2_port_pos_write_def
      sid2_port_pos_del_write_def port_pos_file_def split: if_split_asm)
  then show ?thesis using w by simp
qed

section \<open>Reachable states\<close>

text \<open>After the probe no row of the table is used.\<close>

definition sid2_start :: "(iomem \<Rightarrow> u16 \<Rightarrow> u16 list) \<Rightarrow> edgx_sid2_br \<Rightarrow> bool" where
  "sid2_start tab s0 \<longleftrightarrow> (\<exists>ifd br base io. edgx_probe_sid2 (Some ifd) True br base io = Inr s0)
     \<and> 0 < tab_row_cnt s0 \<and> tab_row_cnt s0 \<le> 0x1000 \<and> (\<forall>p. \<not> row_used (tab (s2_io s0) p))"

text \<open>A step is a request, or a change of registers outside of the table, as by a read of a counter.\<close>

inductive sid2_reach :: "device \<Rightarrow> (iomem \<Rightarrow> u16 \<Rightarrow> u16 list) \<Rightarrow> edgx_sid2_br \<Rightarrow> edgx_sid2_br \<Rightarrow> bool" for dev tab s0 where
  sid2_init: "sid2_reach dev tab s0 s0"
| sid2_request: "sid2_reach dev tab s0 s \<Longrightarrow> 0 \<le> ofs \<Longrightarrow> sid2_call dev ok r ofs count s = Some (ret, s') \<Longrightarrow> sid2_reach dev tab s0 s'"
| sid2_registers: "sid2_reach dev tab s0 s \<Longrightarrow> tab io = tab (s2_io s) \<Longrightarrow> sid2_reach dev tab s0 (s\<lparr>s2_io := io\<rparr>)"

lemma sid2_start_inv:
  assumes "sid2_start tab s0" shows "sid_inv tab (tab_iobase s0) s0"
proof -
  obtain ifd br base io where p: "edgx_probe_sid2 (Some ifd) True br base io = Inr s0" using assms by (auto simp: sid2_start_def)
  then have "rb_o_root s0 = [] \<and> rb_tmvt_root s0 = [] \<and> rb_ht_root s0 = [] \<and> s2_total_cnt s0 = 0
    \<and> port_cnt s0 = unat (min (edgx_br_get_num_ports io br) 12)" by (cases ifd) (auto simp: edgx_probe_sid2_def)
  moreover have "unat (min x 12 :: u16) \<le> 12" for x :: u16 by (auto simp: min_def word_le_nat_alt)
  ultimately show ?thesis using assms by (simp add: sid2_start_def sid_inv_def sid_soft_def hw_used_def hw_rows_def)
qed

lemma sid2_reach_inv:
  assumes c: "sid_contract dev (tab_iobase s0) tab" and st: "sid2_start tab s0" and r: "sid2_reach dev tab s0 s"
  shows "sid_inv tab (tab_iobase s0) s"
  using r
proof induction
  case sid2_init then show ?case by (rule sid2_start_inv [OF st])
next
  case (sid2_request s ofs ok r count ret s') from call_inv [OF c sid2_request.IH sid2_request.hyps(2,3)] show ?case .
next
  case (sid2_registers s io) from dump_inv(1) [OF sid2_registers.IH sid2_registers.hyps(2)] show ?case .
qed

lemma call_fixed: "sid2_call dev ok r ofs count s = Some (ret, s') \<Longrightarrow> sid_fixed s' = sid_fixed s"
  by (cases r) (auto simp: sid2_port_pos_write_def sid2_port_pos_del_write_def dest: fix_files)

lemma reach_fixed: "sid2_reach dev tab s0 s \<Longrightarrow> sid_fixed s = sid_fixed s0"
  by (induction rule: sid2_reach.induct) (simp_all add: call_fixed)

section \<open>The table\<close>

text \<open>Ordinal \<open>ord\<close> gives port \<open>i\<close> of the identification with key \<open>a\<close> the handle \<open>h\<close>.\<close>

definition gives :: "edgx_sid2_br \<Rightarrow> u64 \<Rightarrow> nat \<Rightarrow> u64 \<Rightarrow> u16 \<Rightarrow> bool" where
  "gives s a i ord h \<longleftrightarrow> (\<exists>pm. sid_map s ord = Some (a, h, pm) \<and> h \<noteq> SID_INVALID_STRHDL \<and> pm AND BIT (i + 1) \<noteq> 0)"

lemma gives_iff:
  assumes w: "sid_soft s" and t: "t \<in> set (rb_tmvt_root s)"
  shows "gives s (tm_key t) i ord h \<longleftrightarrow> (\<exists>e \<in> set (tm_o_root t). to_key e = ord \<and> to_str_hdl e = h \<and> speaks i e)"
proof
  assume "gives s (tm_key t) i ord h"
  then obtain x e pm where x: "sid_rb_search o_key (rb_o_root s) ord = Some x" "tmvt_o_of x s = Some e" "o_tmvt x = tm_key t"
    "to_str_hdl e = h" "to_port_mask e = pm" "h \<noteq> SID_INVALID_STRHDL" "pm AND BIT (i + 1) \<noteq> 0"
    by (auto simp: gives_def sid_map_def bind_eq_Some_conv)
  obtain t2 e2 where t2: "t2 \<in> set (rb_tmvt_root s)" "tm_key t2 = o_tmvt x" "e2 \<in> set (tm_o_root t2)" "to_key e2 = o_key x" "tmvt_o_of x s = Some e2"
    by (rule soft_ord [OF w inv_ord(1) [OF w x(1)]])
  have "t2 = t" by (rule key_unique [OF soft_sorted(2) [OF w] t2(1) t]) (simp add: t2(2) x(3))
  then show "\<exists>e \<in> set (tm_o_root t). to_key e = ord \<and> to_str_hdl e = h \<and> speaks i e"
    using t2(3-5) x inv_ord(2) [OF w x(1)] by (auto simp: speaks_def)
next
  assume "\<exists>e \<in> set (tm_o_root t). to_key e = ord \<and> to_str_hdl e = h \<and> speaks i e"
  then obtain e where e: "e \<in> set (tm_o_root t)" "to_key e = ord" "to_str_hdl e = h" "speaks i e" by blast
  have "\<exists>x \<in> set (rb_o_root s). o_key x = ord \<and> o_tmvt x = tm_key t" using w t e(1,2) unfolding sid_soft_def by blast
  then obtain x where x: "x \<in> set (rb_o_root s)" "o_key x = ord" "o_tmvt x = tm_key t" by blast
  have "tmvt_o_of x s = Some e" using soft_tmvt(1) [OF w t] x search_sorted [OF soft_sorted(4) [OF w t] e(1)] e(2) by (simp add: tmvt_o_of_def)
  then show "gives s (tm_key t) i ord h"
    using search_sorted [OF soft_sorted(1) [OF w] x(1)] x e(3,4) by (auto simp: gives_def sid_map_def speaks_def)
qed

lemma find_first:
  assumes "sorted_wrt (<) (map (key :: 'n \<Rightarrow> 'k::linorder) xs)" "e \<in> set xs" "P e" "\<And>x. x \<in> set xs \<Longrightarrow> key x < key e \<Longrightarrow> \<not> P x"
  shows "find P xs = Some e"
  using assms by (induction xs) auto

lemma row_of:
  assumes w: "sid_inv tab base s" and t: "t \<in> set (rb_tmvt_root s)" and k: "k \<in> set (slots t)"
  shows "row_used (tab (s2_io s) (kpos k)) \<longleftrightarrow> (\<exists>i < port_cnt s. \<exists>ord h. gives s (tm_key t) i ord h)"
    and "row_used (tab (s2_io s) (kpos k)) \<Longrightarrow> take (5 + port_cnt s) (tab (s2_io s) (kpos k)) = entry_words (port_cnt s) (row_entry (port_cnt s) t k)"
proof -
  have sf: "sid_soft s" and hu: "hw_used tab s" and hr: "hw_rows tab {} s" using w by (simp_all add: sid_inv_def)
  obtain h where h: "h \<in> set (rb_ht_root s)" "ht_key h = k" "ht_tmvt h = tm_key t" by (rule soft_row [OF sf t k])
  have row: "hw_row tab s t h" using hr t h by (simp add: hw_rows_def)
  have "h' = h" if "h' \<in> set (rb_ht_root s)" "kpos (ht_key h') = kpos k" for h'
  proof (rule key_unique [OF soft_sorted(3) [OF sf] that(1) h(1)])
    have "valid_key (ht_key h')" "valid_key (ht_key h)" using sf that(1) h(1) by (simp_all add: sid_soft_def)
    then show "ht_key h' = ht_key h" using kpos_inj that(2) h(2) by simp
  qed
  then have u: "row_used (tab (s2_io s) (kpos k)) \<longleftrightarrow> ht_used h" using hu h(1,2) unfolding hw_used_def by blast
  have "found (port_cnt s) (tm_o_root t) \<longleftrightarrow> (\<exists>i < port_cnt s. \<exists>ord h. gives s (tm_key t) i ord h)"
    unfolding found_def gives_iff [OF sf t] by blast
  then show "row_used (tab (s2_io s) (kpos k)) \<longleftrightarrow> (\<exists>i < port_cnt s. \<exists>ord h. gives s (tm_key t) i ord h)" using u row by (simp add: hw_row_def)
  show "row_used (tab (s2_io s) (kpos k)) \<Longrightarrow> take (5 + port_cnt s) (tab (s2_io s) (kpos k)) = entry_words (port_cnt s) (row_entry (port_cnt s) t k)"
    using u row h(2) by (simp add: hw_row_def)
qed

lemma row_words:
  assumes w: "sid_inv tab base s" and t: "t \<in> set (rb_tmvt_root s)" and k: "k \<in> set (slots t)" and u: "row_used (tab (s2_io s) (kpos k))"
  shows "i < port_cnt s \<Longrightarrow> tab (s2_io s) (kpos k) ! (5 + i) = first_hdl (tm_o_root t) i"
    "j < 3 \<Longrightarrow> tab (s2_io s) (kpos k) ! (1 + j) = mac16 (tm_addr t) j" "tab (s2_io s) (kpos k) ! 4 = tm_vid t"
proof -
  have n: "port_cnt s \<le> 12" using w by (simp add: sid_inv_def sid_soft_def)
  have nth: "tab (s2_io s) (kpos k) ! m = entry_words (port_cnt s) (row_entry (port_cnt s) t k) ! m" if "m < 5 + port_cnt s" for m
    using arg_cong [OF row_of(2) [OF w t k u], of "\<lambda>l. l ! m"] that by simp
  show "tab (s2_io s) (kpos k) ! (5 + i) = first_hdl (tm_o_root t) i" if "i < port_cnt s"
    using nth [of "5 + i"] that n by (simp add: entry_words_def nth_append row_entry_def gen_hdls_eq [OF n])
  show "tab (s2_io s) (kpos k) ! (1 + j) = mac16 (tm_addr t) j" if "j < 3"
  proof -
    from that have "j = 0 \<or> j = 1 \<or> j = 2" by auto
    then show ?thesis using nth [of "1 + j"] by (auto simp: entry_words_def row_entry_def)
  qed
  show "tab (s2_io s) (kpos k) ! 4 = tm_vid t" using nth [of 4] by (simp add: entry_words_def row_entry_def)
qed

end
