(* ===== verification/BrSid2Agree.thy ===== *)
theory BrSid2Agree
  imports BrSid2Props
begin

text \<open>
  The properties of the stream identification with its own table: the table agrees with the
  identifications in every reachable state, and the files refine a map. A device that keeps the table
  in memory behind the registers satisfies the contract.
\<close>

unbundle bit_operations_syntax

section \<open>A device\<close>

definition sid_cell :: "u16 \<Rightarrow> nat" where
  "sid_cell p = 0x10000 + 32 * unat p"

definition sid_rows :: "iomem \<Rightarrow> u16 \<Rightarrow> u16 list" where
  "sid_rows io p = map (\<lambda>j. io (sid_cell p + j)) [0..<17]"

definition sid_ram :: device where
  "sid_ram io =
     (if bit (io 0x280) 15
      then let a = sid_cell (io 0x280 AND 0x3FFF); io0 = io(0x280 := 0) in
           if bit (io 0x280) 14 then (\<lambda>x. if a \<le> x \<and> x < a + 17 then io (0x290 + 2 * (x - a)) else io0 x)
           else (\<lambda>x. if 0x290 \<le> x \<and> x < 0x2B2 \<and> even x then io (a + (x - 0x290) div 2) else io0 x)
      else io)"

lemma sid_rows_low: "(\<And>x. 0x10000 \<le> x \<Longrightarrow> io' x = io x) \<Longrightarrow> sid_rows io' = sid_rows io"
  by (simp add: sid_rows_def sid_cell_def fun_eq_iff)

lemma sid_cell_apart:
  assumes "p \<noteq> q" "j < 17" shows "\<not> (sid_cell q \<le> sid_cell p + j \<and> sid_cell p + j < sid_cell q + 17)"
proof -
  have "unat p \<noteq> unat q" using assms(1) by (auto intro: unsigned_word_eqI)
  then have "unat p < unat q \<or> unat q < unat p" by arith
  then show ?thesis using assms(2) unfolding sid_cell_def by arith
qed

lemma sid_ram_store:
  assumes "bit (io 0x280) 15" "bit (io 0x280) 14"
  shows "sid_rows (sid_ram io) = (sid_rows io)(io 0x280 AND 0x3FFF := map (\<lambda>j. io (0x290 + 2 * j)) [0..<17])"
proof
  fix p
  show "sid_rows (sid_ram io) p = ((sid_rows io)(io 0x280 AND 0x3FFF := map (\<lambda>j. io (0x290 + 2 * j)) [0..<17])) p"
  proof (cases "p = io 0x280 AND 0x3FFF")
    case True
    then show ?thesis using assms by (simp add: sid_rows_def sid_ram_def Let_def)
  next
    case False
    have "sid_ram io (sid_cell p + j) = io (sid_cell p + j)" if "j < 17" for j
    proof -
      have "sid_cell p + j \<noteq> 0x280" by (simp add: sid_cell_def)
      then show ?thesis using assms sid_cell_apart [OF False that] by (auto simp: sid_ram_def Let_def)
    qed
    then show ?thesis using False by (simp add: sid_rows_def)
  qed
qed

lemma sid_ram_contract: "sid_contract sid_ram 0 sid_rows"
  unfolding sid_contract_def
proof (intro conjI allI impI)
  fix io :: iomem and cmd :: u16
  assume b: "bit cmd 15"
  let ?io = "edgx_wr16 io 0 0x280 cmd"
  have r: "?io 0x280 = cmd" "?io (0x290 + 2 * j) = io (0x290 + 2 * j)" for j by (simp_all add: edgx_wr16_def)
  have low: "sid_rows ?io = sid_rows io" by (rule sid_rows_low) (simp add: edgx_wr16_def)
  have z: "sid_ram ?io 0x280 = 0" using b by (simp add: sid_ram_def Let_def r sid_cell_def del: wr16_apply)
  have w: "wait_clear sid_ram (sid_tab_busy 0) ?io = Some (sid_ram ?io)"
    by (rule wait_clear_ready) (simp add: sid_tab_busy_def edgx_rd16_def z del: wr16_apply)
  have "sid_rows (sid_ram ?io) = (if bit cmd 14 then (sid_rows io)(cmd AND 0x3FFF := map (\<lambda>j. edgx_rd16 io 0 (0x290 + 2 * j)) [0..<17]) else sid_rows io)"
  proof (cases "bit cmd 14")
    case True
    then show ?thesis using sid_ram_store [of ?io] b low r by (simp add: edgx_rd16_def del: wr16_apply)
  next
    case False
    have "sid_rows (sid_ram ?io) = sid_rows ?io"
    proof (rule sid_rows_low)
      fix x :: nat assume "0x10000 \<le> x"
      then have "x \<noteq> 0x280" "\<not> x < 0x2B2" by simp_all
      then show "sid_ram ?io x = ?io x" using b False unfolding sid_ram_def Let_def r(1) by (simp del: wr16_apply)
    qed
    then show ?thesis using False low by simp
  qed
  with w show "\<exists>io'. wait_clear sid_ram (sid_tab_busy 0) ?io = Some io'
      \<and> sid_rows io' = (if bit cmd 14 then (sid_rows io)(cmd AND 0x3FFF := map (\<lambda>j. edgx_rd16 io 0 (0x290 + 2 * j)) [0..<17]) else sid_rows io)" by blast
next
  fix io :: iomem and j :: nat and v :: u16
  assume "j < 17"
  then show "sid_rows (edgx_wr16 io 0 (0x290 + 2 * j) v) = sid_rows io" by (intro sid_rows_low) (simp add: edgx_wr16_def)
qed

text \<open>A switch with four ports, eight streams and one row of four columns.\<close>

definition sid_demo_io :: iomem where
  "sid_demo_io x = (if x = 0x1000 then 3 else if x = 0x1028 then 3 else 0)"

definition sid_demo :: edgx_sid2_br where
  "sid_demo = projr (edgx_probe_sid2 (Some (0x2000, 0xF)) True \<lparr>brparam = 0x1000, cycle_ns = 8\<rparr> 0 sid_demo_io)"

definition demo_ident :: ident_params where
  "demo_ident = \<lparr>ip_addr = [2, 0, 0, 0, 0, 1], ip_tag = SID_PRIORITY, ip_vid = 0, ip_id_type = SID_NULL, ip_str_hdl = 0\<rparr>"

lemma sid_demo_fields:
  "tab_iobase sid_demo = 0" "port_cnt sid_demo = 4" "s2_max_streams sid_demo = 8" "tab_row_cnt sid_demo = 1"
  "rb_o_root sid_demo = []" "rb_tmvt_root sid_demo = []" "rb_ht_root sid_demo = []"
  "s2_io sid_demo = edgx_wr16 sid_demo_io 0 0x282 5"
  by (simp_all add: sid_demo_def edgx_probe_sid2_def edgx_br_get_generic_pow2_def edgx_br_get_num_ports_def edgx_br_get_generic_def
      sid_demo_io_def edgx_rd16_def max_def min_def word_le_nat_alt)

lemma sid_demo_start: "sid2_start sid_rows sid_demo"
proof -
  have p: "edgx_probe_sid2 (Some (0x2000, 0xF)) True \<lparr>brparam = 0x1000, cycle_ns = 8\<rparr> 0 sid_demo_io = Inr sid_demo"
    by (simp add: sid_demo_def edgx_probe_sid2_def)
  have "\<not> row_used (sid_rows (s2_io sid_demo) p)" for p
    by (simp add: row_used_def sid_rows_def sid_demo_fields edgx_wr16_def sid_cell_def sid_demo_io_def del: upt_rec_numeral)
  moreover have "\<exists>ifd br base io. edgx_probe_sid2 (Some ifd) True br base io = Inr sid_demo" using p by blast
  ultimately show ?thesis by (simp add: sid2_start_def sid_demo_fields)
qed

text \<open>The requests on ordinal 5 that the specification grants.\<close>

definition demo_tagged :: ident_params where
  "demo_tagged = demo_ident\<lparr>ip_tag := SID_TAGGED, ip_vid := 1\<rparr>"

lemma sid_demo_contract: "sid_contract sid_ram (tab_iobase sid_demo) sid_rows"
  by (simp add: sid_demo_fields sid_ram_contract)

lemma demo_granted:
  assumes "sid2_reach sid_ram sid_rows sid_demo s" "0 \<le> ord" "ord \<le> 0xFFFF" "sid2_spec 8 4 r (word_of_int ord) (sid_map s) = Inr m"
    and "\<And>ret s'. sid2_call sid_ram (\<lambda>_. True) r (ord * elem_size r) (elem_size r) s = Some (ret, s') \<Longrightarrow> \<not> no_room (\<lambda>_. True) r (word_of_int ord) ret s s'"
  shows "\<exists>s'. sid2_call sid_ram (\<lambda>_. True) r (ord * elem_size r) (elem_size r) s = Some (elem_size r, s') \<and> sid2_reach sid_ram sid_rows sid_demo s' \<and> sid_map s' = m"
proof -
  have f: "s2_max_streams s = 8" "port_cnt s = 4" using reach_fixed [OF assms(1)] by (simp_all add: sid_fixed_def sid_demo_fields)
  from callD [OF sid_demo_contract sid2_reach_inv [OF sid_demo_contract sid_demo_start assms(1)] assms(2,3), of "\<lambda>_. True" r] obtain ret s' where
    s': "sid2_call sid_ram (\<lambda>_. True) r (ord * elem_size r) (elem_size r) s = Some (ret, s')"
    "outcome (sid2_spec 8 4 r (word_of_int ord) (sid_map s)) (elem_size r) ret s s' \<or> no_room (\<lambda>_. True) r (word_of_int ord) ret s s'" unfolding f by auto
  then have "ret = elem_size r" "sid_map s' = m" using assms(4,5) by (auto simp: outcome_def)
  moreover have "0 \<le> ord * elem_size r" using assms(2) by (cases r) simp_all
  ultimately show ?thesis using sid2_request [OF assms(1) _ s'(1)] s'(1) by blast
qed

lemma demo_create:
  assumes "p = demo_ident \<or> p = demo_tagged"
  shows "\<exists>s'. sid2_ident_params_write sid_ram (\<lambda>_. True) p 90 18 sid_demo = Some (18, s') \<and> sid2_reach sid_ram sid_rows sid_demo s'
    \<and> sid_map s' = [5 \<mapsto> (params_to_tmvt_key p, SID_INVALID_STRHDL, 0)]"
proof -
  have m0: "sid_map sid_demo = Map.empty" by (simp add: sid_map_def sid_demo_fields fun_eq_iff)
  have ok: "params_ok p" using assms by (auto simp: params_ok_def demo_ident_def demo_tagged_def)
  have rows: "edgx_sid_calc_tab_rows sid_demo m SID_PRIORITY v False = [0xFFFF, 0xFFFF, 0, 0]"
    "edgx_sid_calc_tab_rows sid_demo m SID_TAGGED 1 False = [0, 0, 0, 0]" for m v
    by (simp_all add: edgx_sid_calc_tab_rows_def Let_def edgx_sid_get_match_vlan_def sid_demo_fields)
  have "sid_ht_free_col [0xFFFF, 0xFFFF, 0, 0] [] = Some 2" "sid_ht_free_col [0, 0, 0, 0] [] = Some 0"
    by (simp_all add: sid_ht_free_col_def upt_rec)
  then have ht: "\<exists>k hs. sid_ht_create True a (ip_addr p) (ip_vid p) (ip_tag p) sid_demo = (0, Some k, sid_demo\<lparr>rb_ht_root := hs\<rparr>)" for a
    using assms by (auto simp: sid_ht_create_def rows demo_ident_def demo_tagged_def sid_demo_fields Let_def)
  have "ip_tag p \<noteq> SID_ALL" using assms by (auto simp: demo_ident_def demo_tagged_def)
  then obtain s1 t where s1: "sid_tmvt_create sid_ram True True True (params_to_tmvt_key p) (ip_tag p) (ip_vid p) (ip_addr p) sid_demo = Some (0, s1)"
    "rb_o_root s1 = []" "rb_tmvt_root s1 = [t]" "tm_key t = params_to_tmvt_key p" "tm_o_root t = []"
    using ht [of "params_to_tmvt_key p"] by (auto simp: sid_tmvt_create_def sid_demo_fields)
  then have "sid2_create sid_ram (\<lambda>_. True) p 5 sid_demo \<noteq> Some (- ENOSPC, s')" for s'
    by (auto simp: sid2_create_def sid_demo_fields sid_o_create_def upd_tmvt_def upd_node_def bind_eq_Some Let_def)
  then have "ret \<noteq> - ENOSPC" if "sid2_ident_params_write sid_ram (\<lambda>_. True) p 90 18 sid_demo = Some (ret, s')" for ret s'
    using that ok sysfs_tbl_params_elem [of 18 5] by (auto simp: sid2_ident_params_write_def params_ok_def bind_eq_Some split: if_split_asm)
  then have room: "\<not> no_room (\<lambda>_. True) (Create p) 5 ret sid_demo s'"
    if "sid2_ident_params_write sid_ram (\<lambda>_. True) p 90 18 sid_demo = Some (ret, s')" for ret s' using that by (auto simp: no_room_def)
  from demo_granted [OF sid2_init, of 5 "Create p"] show ?thesis using room ok by (simp add: m0)
qed

lemma demo_request:
  assumes "sid2_reach sid_ram sid_rows sid_demo s" "sid2_spec 8 4 r 5 (sid_map s) = Inr m" "\<And>p. r \<noteq> Create p"
  shows "\<exists>s'. sid2_reach sid_ram sid_rows sid_demo s' \<and> sid_map s' = m"
proof -
  have "\<not> no_room (\<lambda>_. True) r (word_of_int 5) ret s s'" for ret s' using assms(3) by (auto simp: no_room_def)
  from demo_granted [where ord = 5 and m = m and r = r, OF assms(1) _ _ _ this] assms(2) show ?thesis by auto
qed

text \<open>One identification with handle 7 at port 1.\<close>

lemma sid_demo_reach:
  obtains s where "sid2_reach sid_ram sid_rows sid_demo s" "sid_map s = [5 \<mapsto> (params_to_tmvt_key demo_ident, 7, 2)]"
    "port_cnt s = 4" "s2_max_streams s = 8"
proof -
  obtain s1 where s1: "sid2_reach sid_ram sid_rows sid_demo s1" "sid_map s1 = [5 \<mapsto> (params_to_tmvt_key demo_ident, SID_INVALID_STRHDL, 0)]"
    using demo_create [of demo_ident] by blast
  obtain s2 where s2: "sid2_reach sid_ram sid_rows sid_demo s2" "sid_map s2 = [5 \<mapsto> (params_to_tmvt_key demo_ident, 7, 0)]"
    using demo_request [OF s1(1), of "SetHdl 7"] by (auto simp: s1(2))
  obtain s3 where s3: "sid2_reach sid_ram sid_rows sid_demo s3" "sid_map s3 = [5 \<mapsto> (params_to_tmvt_key demo_ident, 7, 2)]"
    using demo_request [OF s2(1), of "AddPort \<lparr>pp_port = 1, pp_pos = OUT_FAC_IN\<rparr>"] by (auto simp: s2(2) port_spec_def)
  show thesis using s3 reach_fixed [OF s3(1)] by (intro that [of s3]) (simp_all add: sid_fixed_def sid_demo_fields)
qed

section \<open>Properties\<close>

text \<open>
  Property C34. In every state that the stream identification reaches, a row of the hardware table is
  used exactly when it belongs to an identification one of whose ordinals gives a port a handle. The row
  then holds the address and the VLAN of the identification, the handle of a port is that of the lowest
  ordinal that gives the port one, and it is zero for a port that no ordinal gives one.
\<close>

theorem sid2_table_agrees:
  assumes "sid_contract dev (tab_iobase s0) tab" "sid2_start tab s0" "sid2_reach dev tab s0 s"
  shows "(\<forall>p. row_used (tab (s2_io s) p) \<longleftrightarrow>
       (\<exists>t \<in> set (rb_tmvt_root s). p \<in> kpos ` set (slots t) \<and> (\<exists>i < port_cnt s. \<exists>ord h. gives s (tm_key t) i ord h)))
    \<and> (\<forall>t \<in> set (rb_tmvt_root s). \<forall>k \<in> set (slots t). let ws = tab (s2_io s) (kpos k) in row_used ws \<longrightarrow>
         (\<forall>j < 3. ws ! (1 + j) = mac16 (tm_addr t) j) \<and> ws ! 4 = tm_vid t
       \<and> (\<forall>i < port_cnt s. (\<forall>ord h. gives s (tm_key t) i ord h \<and> (\<forall>ord' < ord. \<forall>h'. \<not> gives s (tm_key t) i ord' h') \<longrightarrow> ws ! (5 + i) = h)
           \<and> ((\<forall>ord h. \<not> gives s (tm_key t) i ord h) \<longrightarrow> ws ! (5 + i) = 0)))"
proof (intro conjI allI ballI)
  have w: "sid_inv tab (tab_iobase s0) s" by (rule sid2_reach_inv [OF assms])
  then have sf: "sid_soft s" and hu: "hw_used tab s" by (simp_all add: sid_inv_def)
  show "row_used (tab (s2_io s) p) \<longleftrightarrow>
       (\<exists>t \<in> set (rb_tmvt_root s). p \<in> kpos ` set (slots t) \<and> (\<exists>i < port_cnt s. \<exists>ord h. gives s (tm_key t) i ord h))" for p
  proof
    assume "row_used (tab (s2_io s) p)"
    then obtain h where h: "h \<in> set (rb_ht_root s)" "kpos (ht_key h) = p" "row_used (tab (s2_io s) (kpos (ht_key h)))" using hu by (auto simp: hw_used_def)
    have "\<exists>t \<in> set (rb_tmvt_root s). tm_key t = ht_tmvt h \<and> ht_key h \<in> set (slots t)" using sf h(1) unfolding sid_soft_def by blast
    then obtain t where t: "t \<in> set (rb_tmvt_root s)" "ht_key h \<in> set (slots t)" by blast
    show "\<exists>t \<in> set (rb_tmvt_root s). p \<in> kpos ` set (slots t) \<and> (\<exists>i < port_cnt s. \<exists>ord h. gives s (tm_key t) i ord h)"
      using row_of(1) [OF w t] h(2,3) t by blast
  next
    assume "\<exists>t \<in> set (rb_tmvt_root s). p \<in> kpos ` set (slots t) \<and> (\<exists>i < port_cnt s. \<exists>ord h. gives s (tm_key t) i ord h)"
    then show "row_used (tab (s2_io s) p)" using row_of(1) [OF w] by blast
  qed
  fix t k assume t: "t \<in> set (rb_tmvt_root s)" and k: "k \<in> set (slots t)"
  have srt: "sorted_wrt (<) (map to_key (tm_o_root t))" by (rule soft_sorted(4) [OF sf t])
  have first: "first_hdl (tm_o_root t) i = h" if g: "gives s (tm_key t) i ord h" and low: "\<forall>ord' < ord. \<forall>h'. \<not> gives s (tm_key t) i ord' h'" for i ord h
  proof -
    obtain e where e: "e \<in> set (tm_o_root t)" "to_key e = ord" "to_str_hdl e = h" "speaks i e" using g unfolding gives_iff [OF sf t] by blast
    have "\<not> speaks i x" if "x \<in> set (tm_o_root t)" "to_key x < to_key e" for x
      using low that e(2) unfolding gives_iff [OF sf t] by blast
    from find_first [where key = to_key and P = "speaks i", OF srt e(1,4) this] show ?thesis using e(3) by (simp add: first_hdl_def)
  qed
  have none: "first_hdl (tm_o_root t) i = 0" if "\<forall>ord h. \<not> gives s (tm_key t) i ord h" for i
  proof -
    have "find (speaks i) (tm_o_root t) = None" using that unfolding gives_iff [OF sf t] find_None_iff by blast
    then show ?thesis by (simp add: first_hdl_def)
  qed
  show "let ws = tab (s2_io s) (kpos k) in row_used ws \<longrightarrow>
         (\<forall>j < 3. ws ! (1 + j) = mac16 (tm_addr t) j) \<and> ws ! 4 = tm_vid t
       \<and> (\<forall>i < port_cnt s. (\<forall>ord h. gives s (tm_key t) i ord h \<and> (\<forall>ord' < ord. \<forall>h'. \<not> gives s (tm_key t) i ord' h') \<longrightarrow> ws ! (5 + i) = h)
           \<and> ((\<forall>ord h. \<not> gives s (tm_key t) i ord h) \<longrightarrow> ws ! (5 + i) = 0))"
    unfolding Let_def
  proof (intro impI conjI allI)
    assume u: "row_used (tab (s2_io s) (kpos k))"
    note rw = row_words [OF w t k u]
    show "tab (s2_io s) (kpos k) ! (1 + j) = mac16 (tm_addr t) j" if "j < 3" for j by (rule rw(2) [OF that])
    show "tab (s2_io s) (kpos k) ! 4 = tm_vid t" by (rule rw(3))
    fix i assume i: "i < port_cnt s"
    show "tab (s2_io s) (kpos k) ! (5 + i) = h"
      if "gives s (tm_key t) i ord h \<and> (\<forall>ord' < ord. \<forall>h'. \<not> gives s (tm_key t) i ord' h')" for ord h
      unfolding rw(1) [OF i] using that first by blast
    show "tab (s2_io s) (kpos k) ! (5 + i) = 0" if "\<forall>ord h. \<not> gives s (tm_key t) i ord h"
      unfolding rw(1) [OF i] by (rule none [OF that])
  qed
qed

theorem sid2_table_agrees_witness:
  "\<exists>s p. sid2_reach sid_ram sid_rows sid_demo s \<and> row_used (sid_rows (s2_io s) p) \<and> sid_rows (s2_io s) p ! 5 = 7"
proof (rule sid_demo_reach)
  fix s assume s: "sid2_reach sid_ram sid_rows sid_demo s" "sid_map s = [5 \<mapsto> (params_to_tmvt_key demo_ident, 7, 2)]" "port_cnt s = 4"
  note agree = sid2_table_agrees [OF sid_demo_contract sid_demo_start s(1)]
  have sf: "sid_soft s" using sid2_reach_inv [OF sid_demo_contract sid_demo_start s(1)] by (simp add: sid_inv_def)
  let ?a = "params_to_tmvt_key demo_ident"
  have g: "gives s ?a 0 ord h \<longleftrightarrow> ord = 5 \<and> h = 7" for ord h by (auto simp: gives_def s(2))
  obtain t where t: "t \<in> set (rb_tmvt_root s)" "tm_key t = ?a" using map_key_tree [OF sf, of 5] s(2) by force
  have "slots t \<noteq> []" using slots_ok [OF soft_tmvt(2) [OF sf t(1)]] by (cases "tm_tag t = SID_ALL") auto
  then obtain k where k: "k \<in> set (slots t)" by (cases "slots t") auto
  have g': "gives s (tm_key t) 0 ord h \<longleftrightarrow> ord = 5 \<and> h = 7" for ord h using g t(2) by simp
  have "0 < port_cnt s" using s(3) by simp
  then have u: "row_used (sid_rows (s2_io s) (kpos k))" using conjunct1 [OF agree] t(1) k g' by blast
  note row = mp [OF bspec [OF bspec [OF conjunct2 [OF agree] t(1)] k, unfolded Let_def] u]
  note hdl = conjunct1 [OF mp [OF spec [OF conjunct2 [OF conjunct2 [OF row]], of 0] \<open>0 < port_cnt s\<close>]]
  have "sid_rows (s2_io s) (kpos k) ! (5 + 0) = 7" by (rule spec [OF spec [OF hdl, of 5], of 7, THEN mp]) (auto simp: g')
  then show ?thesis using s(1) u by auto
qed

text \<open>
  Property C35. In every reachable state each write to one of the files returns, and what the files show
  of the ordinals (key, handle and ports) changes as the operation on a map says, with its return value.
  The only exception is a creation without memory, or -ENOSPC for an identification that is new when
  every row that its address, VLAN and kind of tag allow is taken (for both kinds of frames, when the
  first free row for the tagged frames leaves none for the others).
\<close>

theorem sid2_files_refine_map:
  assumes "sid_contract dev (tab_iobase s0) tab" "sid2_start tab s0" "sid2_reach dev tab s0 s" "0 \<le> ord" "ord \<le> 0xFFFF"
  shows "\<exists>ret s'. sid2_call dev ok r (ord * elem_size r) (elem_size r) s = Some (ret, s') \<and> sid2_reach dev tab s0 s'
    \<and> (outcome (sid2_spec (s2_max_streams s0) (port_cnt s0) r (word_of_int ord) (sid_map s)) (elem_size r) ret s s'
       \<or> no_room ok r (word_of_int ord) ret s s')"
proof -
  have f: "s2_max_streams s = s2_max_streams s0" "port_cnt s = port_cnt s0" using reach_fixed [OF assms(3)] by (simp_all add: sid_fixed_def)
  from callD [OF assms(1) sid2_reach_inv [OF assms(1-3)] assms(4,5), of ok r] obtain ret s' where
    s': "sid2_call dev ok r (ord * elem_size r) (elem_size r) s = Some (ret, s')"
    "outcome (sid2_spec (s2_max_streams s0) (port_cnt s0) r (word_of_int ord) (sid_map s)) (elem_size r) ret s s'
       \<or> no_room ok r (word_of_int ord) ret s s'" unfolding f by blast
  have "0 \<le> ord * elem_size r" using assms(4) by (cases r) simp_all
  then show ?thesis using s' sid2_request [OF assms(3) _ s'(1)] by blast
qed

theorem sid2_files_refine_map_witness:
  "\<exists>s s'. sid2_reach sid_ram sid_rows sid_demo s \<and> sid_map s 5 = Some (params_to_tmvt_key demo_ident, 7, 2)
     \<and> sid2_delete_write sid_ram 10 2 s = Some (2, s') \<and> sid_map s' = Map.empty"
proof (rule sid_demo_reach)
  fix s assume s: "sid2_reach sid_ram sid_rows sid_demo s" "sid_map s = [5 \<mapsto> (params_to_tmvt_key demo_ident, 7, 2)]"
  from sid2_files_refine_map [OF sid_demo_contract sid_demo_start s(1), of 5 "\<lambda>_. True" Delete]
  obtain s' where "sid2_delete_write sid_ram 10 2 s = Some (2, s')" "sid_map s' = Map.empty"
    by (auto simp: s(2) outcome_def no_room_def)
  then show ?thesis using s by auto
qed

end
