(* ===== verification/BrSid2Read.thy ===== *)
theory BrSid2Read
  imports BrSid2Agree
begin

text \<open>
  What the parameters of an identification read as: the key of an identification fixes its address, its
  tag and the low bits of its VLAN, and identifications with one key share one entry.
\<close>

unbundle bit_operations_syntax

section \<open>Keys\<close>

lemma key_bit:
  "bit (params_to_tmvt_key p) n \<longleftrightarrow>
     n < 14 \<and> bit (ip_vid p) n \<or> 14 \<le> n \<and> n < 16 \<and> bit (ip_tag p) (n - 14)
     \<or> (\<exists>i < 6. 16 + 8 * i \<le> n \<and> n < 24 + 8 * i \<and> bit (ip_addr p ! (5 - i)) (n - (16 + 8 * i)))"
proof -
  have m: "(0x3fff :: u16) = mask 14" "(3 :: u32) = mask 2" by (simp_all add: mask_eq_exp_minus_1)
  have e: "(\<exists>i < 6. P i) \<longleftrightarrow> P 0 \<or> P 1 \<or> P 2 \<or> P 3 \<or> P 4 \<or> P (5 :: nat)" for P
    by (auto simp: less_Suc_eq eval_nat_numeral)
  have f: "bit (push_bit k (ucast (w :: u8)) :: u64) n \<longleftrightarrow> k \<le> n \<and> n < k + 8 \<and> bit w (n - k)" if "k \<le> 56" for k w
    using that by (auto simp: bit_push_bit_iff bit_unsigned_iff dest: bit_imp_le_length)
  have tg: "bit (push_bit 14 (ucast (ip_tag p AND mask 2)) :: u64) n \<longleftrightarrow> 14 \<le> n \<and> n < 16 \<and> bit (ip_tag p) (n - 14)"
    and vd: "bit (ucast (ip_vid p AND mask 14) :: u64) n \<longleftrightarrow> n < 14 \<and> bit (ip_vid p) n"
    by (auto simp: bit_push_bit_iff bit_unsigned_iff bit_and_iff bit_mask_iff)
  have "bit (params_to_tmvt_key p) n \<longleftrightarrow>
      56 \<le> n \<and> n < 56 + 8 \<and> bit (ip_addr p ! 0) (n - 56) \<or> 48 \<le> n \<and> n < 48 + 8 \<and> bit (ip_addr p ! 1) (n - 48)
      \<or> 40 \<le> n \<and> n < 40 + 8 \<and> bit (ip_addr p ! 2) (n - 40) \<or> 32 \<le> n \<and> n < 32 + 8 \<and> bit (ip_addr p ! 3) (n - 32)
      \<or> 24 \<le> n \<and> n < 24 + 8 \<and> bit (ip_addr p ! 4) (n - 24) \<or> 16 \<le> n \<and> n < 16 + 8 \<and> bit (ip_addr p ! 5) (n - 16)
      \<or> 14 \<le> n \<and> n < 16 \<and> bit (ip_tag p) (n - 14) \<or> n < 14 \<and> bit (ip_vid p) n"
    unfolding params_to_tmvt_key_def m bit_or_iff tg vd by (subst f, simp)+ (rule refl)
  then show ?thesis unfolding e by simp blast
qed

lemma key_inj:
  assumes "params_to_tmvt_key p = params_to_tmvt_key q"
  shows "i < 6 \<Longrightarrow> ip_addr p ! i = ip_addr q ! i" "ip_tag p AND 3 = ip_tag q AND 3" "ip_vid p AND 0x3fff = ip_vid q AND 0x3fff"
proof -
  have e: "bit (params_to_tmvt_key p) n = bit (params_to_tmvt_key q) n" for n using assms by simp
  have m: "(0x3fff :: u16) = mask 14" "(3 :: u32) = mask 2" by (simp_all add: mask_eq_exp_minus_1)
  show "ip_vid p AND 0x3fff = ip_vid q AND 0x3fff"
  proof (rule bit_eqI)
    fix n show "bit (ip_vid p AND 0x3fff) n = bit (ip_vid q AND 0x3fff) n"
      unfolding m using e [of n] by (auto simp: key_bit bit_and_iff bit_mask_iff)
  qed
  show "ip_tag p AND 3 = ip_tag q AND 3"
  proof (rule bit_eqI)
    fix n show "bit (ip_tag p AND 3) n = bit (ip_tag q AND 3) n"
      unfolding m using e [of "n + 14"] by (auto simp: key_bit bit_and_iff bit_mask_iff)
  qed
  show "ip_addr p ! i = ip_addr q ! i" if i: "i < 6"
  proof (rule bit_eqI)
    fix n show "bit (ip_addr p ! i) n = bit (ip_addr q ! i) n"
    proof (cases "n < 8")
      case True
      have r: "bit (params_to_tmvt_key x) (n + (16 + 8 * (5 - i))) = bit (ip_addr x ! i) n" for x
      proof -
        have "(\<exists>j < 6. 16 + 8 * j \<le> n + (16 + 8 * (5 - i)) \<and> n + (16 + 8 * (5 - i)) < 24 + 8 * j
            \<and> bit (ip_addr x ! (5 - j)) (n + (16 + 8 * (5 - i)) - (16 + 8 * j))) \<longleftrightarrow> bit (ip_addr x ! i) n"
        proof
          assume "\<exists>j < 6. 16 + 8 * j \<le> n + (16 + 8 * (5 - i)) \<and> n + (16 + 8 * (5 - i)) < 24 + 8 * j
            \<and> bit (ip_addr x ! (5 - j)) (n + (16 + 8 * (5 - i)) - (16 + 8 * j))"
          then obtain j where j: "j < 6" "16 + 8 * j \<le> n + (16 + 8 * (5 - i))" "n + (16 + 8 * (5 - i)) < 24 + 8 * j"
            "bit (ip_addr x ! (5 - j)) (n + (16 + 8 * (5 - i)) - (16 + 8 * j))" by blast
          then have "j = 5 - i" using True i by arith
          then show "bit (ip_addr x ! i) n" using j(4) i by simp
        next
          assume "bit (ip_addr x ! i) n"
          then show "\<exists>j < 6. 16 + 8 * j \<le> n + (16 + 8 * (5 - i)) \<and> n + (16 + 8 * (5 - i)) < 24 + 8 * j
            \<and> bit (ip_addr x ! (5 - j)) (n + (16 + 8 * (5 - i)) - (16 + 8 * j))" using True i by (intro exI [of _ "5 - i"]) auto
        qed
        then show ?thesis unfolding key_bit by auto
      qed
      show ?thesis using e [of "n + (16 + 8 * (5 - i))"] unfolding r .
    qed (use bit_imp_le_length [of "ip_addr p ! i" n] bit_imp_le_length [of "ip_addr q ! i" n] in auto)
  qed
qed

section \<open>Entries\<close>

text \<open>An entry of the tree has the key of its own parameters, and a tag that the code takes.\<close>

definition own_params :: "sid_tmvt_entry \<Rightarrow> ident_params" where
  "own_params t = \<lparr>ip_addr = tm_addr t, ip_tag = tm_tag t, ip_vid = tm_vid t, ip_id_type = SID_NULL, ip_str_hdl = 0\<rparr>"

definition own_key :: "sid_tmvt_entry \<Rightarrow> bool" where
  "own_key t \<longleftrightarrow> tm_key t = params_to_tmvt_key (own_params t) \<and> tm_tag t \<in> {1, 2, 3}"

definition own_keys :: "edgx_sid2_br \<Rightarrow> bool" where
  "own_keys s \<longleftrightarrow> (\<forall>t \<in> set (rb_tmvt_root s). own_key t)"

named_theorems own_rules

lemma own_fields [simp]:
  "own_keys (s\<lparr>rb_o_root := os\<rparr>) = own_keys s" "own_keys (s\<lparr>rb_ht_root := hs\<rparr>) = own_keys s"
  "own_keys (s\<lparr>s2_io := io\<rparr>) = own_keys s" "own_keys (s\<lparr>s2_total_cnt := n\<rparr>) = own_keys s" "own_keys (upd_ht k v s) = own_keys s"
  by (simp_all add: own_keys_def upd_ht_def)

lemma own_upd:
  assumes "own_keys s" "\<And>t. own_key (f t) = own_key t" shows "own_keys (upd_tmvt k f s)"
  using assms by (auto simp: own_keys_def upd_tmvt_def upd_node_def)

lemma own_tree:
  "own_keys s \<Longrightarrow> own_keys (upd_tmvt k (\<lambda>t. t\<lparr>tm_o_root := g t\<rparr>) s)"
  "own_keys s \<Longrightarrow> own_keys (upd_tmvt_o oe w s)" "own_keys s \<Longrightarrow> own_keys (sid_o_release oe s)"
  "own_keys s \<Longrightarrow> own_keys (s\<lparr>rb_tmvt_root := sid_del_entry tm_key (rb_tmvt_root s) k\<rparr>)"
proof -
  have o: "own_key (t\<lparr>tm_o_root := ys\<rparr>) = own_key t" for t ys by (simp add: own_key_def own_params_def)
  show "own_keys s \<Longrightarrow> own_keys (upd_tmvt k (\<lambda>t. t\<lparr>tm_o_root := g t\<rparr>) s)" by (erule own_upd) (rule o)
  show "own_keys s \<Longrightarrow> own_keys (upd_tmvt_o oe w s)" unfolding upd_tmvt_o_def by (erule own_upd) (rule o)
  show "own_keys s \<Longrightarrow> own_keys (sid_o_release oe s)" unfolding sid_o_release_def by (rule own_upd) (simp, rule o)
  show "own_keys s \<Longrightarrow> own_keys (s\<lparr>rb_tmvt_root := sid_del_entry tm_key (rb_tmvt_root s) k\<rparr>)"
    by (simp add: own_keys_def sid_del_entry_def rb_erase_def)
qed

lemma own_tab [own_rules]:
  "edgx_sid_tab_set dev col row e s = Some s' \<Longrightarrow> own_keys s \<longrightarrow> own_keys s'"
  "edgx_sid_tab_get dev col row s = Some (v, s') \<Longrightarrow> own_keys s \<longrightarrow> own_keys s'"
  by (auto simp: edgx_sid_tab_set_def edgx_sid_tab_get_def Let_def elim!: bind_eq_SomeE)

lemma own_get_all: "tab_get_all dev ps s = Some s' \<Longrightarrow> own_keys s \<longrightarrow> own_keys s'"
proof (induction ps arbitrary: s)
  case (Cons p ps)
  then show ?case by (cases p) (auto elim!: bind_eq_SomeE dest!: own_tab(2))
qed simp

lemma own_dump [own_rules]: "sid_dump dev s = Some s' \<Longrightarrow> own_keys s \<longrightarrow> own_keys s'"
  unfolding sid_dump_def by (rule own_get_all)

lemma own_ht [own_rules]:
  "sid_ht_deactivate dev k s = Some s' \<Longrightarrow> own_keys s \<longrightarrow> own_keys s'"
  "sid_ht_activate dev k tag e s = Some s' \<Longrightarrow> own_keys s \<longrightarrow> own_keys s'"
  by (auto simp: sid_ht_deactivate_def sid_ht_activate_def Let_def dest!: own_rules elim!: bind_eq_SomeE split: if_split_asm)

lemma own_release [own_rules]: "release_opt dev ko s = Some s' \<Longrightarrow> own_keys s \<longrightarrow> own_keys s'"
  by (auto simp: release_opt_def sid_ht_release_def dest!: own_rules elim!: bind_eq_SomeE split: if_split_asm option.split_asm)

lemma own_ht_create: "own_keys (snd (snd (sid_ht_create ok a addr vl tag s))) = own_keys s"
  by (auto simp: sid_ht_create_def Let_def split: option.split prod.split)

lemma own_tmvt_release [own_rules]: "sid_tmvt_release dev k s = Some s' \<Longrightarrow> own_keys s \<longrightarrow> own_keys s'"
  by (auto simp: sid_tmvt_release_def intro: own_tree dest!: own_rules elim!: bind_eq_SomeE)

lemma own_gen [own_rules]: "sid_gen_port_str_hdls dev k s = Some s' \<Longrightarrow> own_keys s \<longrightarrow> own_keys s'"
  unfolding sid_gen_port_str_hdls_def split_beta Let_def by (auto dest!: own_rules elim!: bind_eq_SomeE split: if_split_asm)

lemma own_o_create [own_rules]: "sid_o_create ok1 ok2 ord a s = Some (ret, s') \<Longrightarrow> own_keys s \<longrightarrow> own_keys s'"
  unfolding sid_o_create_def split_beta Let_def by (auto intro!: own_tree(1) elim!: bind_eq_SomeE split: if_split_asm)

lemma insert_set: "set (snd (sid_rb_insert key ns n)) \<subseteq> insert n (set ns)"
  by (induction ns) (auto split: prod.splits)

lemma own_tmvt_create:
  assumes r: "sid_tmvt_create dev ok0 ok1 ok2 a tag vl addr s = Some (ret, s')"
    and t: "\<And>k0 k1. own_key \<lparr>tm_key = a, tm_addr = addr, tm_tag = tag, tm_vid = vl, tm_o_root = [], tm_ht0 = k0, tm_ht1 = k1\<rparr>"
  shows "own_keys s \<longrightarrow> own_keys s'"
proof -
  have ins: "own_keys (s1\<lparr>rb_tmvt_root := snd (sid_rb_insert tm_key (rb_tmvt_root s1)
      \<lparr>tm_key = a, tm_addr = addr, tm_tag = tg, tm_vid = vl, tm_o_root = [], tm_ht0 = k0, tm_ht1 = k1\<rparr>)\<rparr>)"
    if w: "own_keys s1" and tg: "tg = tag" for s1 k0 k1 tg
    using w t [of k0 k1] insert_set [of tm_key "rb_tmvt_root s1"] unfolding own_keys_def tg by fastforce
  have c: "own_keys (snd (snd (sid_ht_create ok a addr vl tag s1)))" if "own_keys s1" for ok a addr vl tag s1 using that by (simp add: own_ht_create)
  show ?thesis using r unfolding sid_tmvt_create_def split_beta Let_def
    by (auto dest!: own_rules intro!: ins c elim!: bind_eq_SomeE split: if_split_asm)
qed

lemma own_create:
  assumes r: "sid2_create dev ok p ord s = Some (ret, s')" and t: "ip_tag p \<in> {1, 2, 3}"
  shows "own_keys s \<longrightarrow> own_keys s'"
proof -
  have k: "own_key \<lparr>tm_key = params_to_tmvt_key p, tm_addr = ip_addr p, tm_tag = ip_tag p, tm_vid = ip_vid p, tm_o_root = [], tm_ht0 = k0, tm_ht1 = k1\<rparr>"
    for k0 k1 using t by (simp add: own_key_def own_params_def params_to_tmvt_key_def)
  note own_tmvt_create [OF _ k]
  with r show ?thesis unfolding sid2_create_def Let_def
    by (auto dest!: own_rules elim!: bind_eq_SomeE split: if_split_asm option.split_asm)
qed

lemma own_sid2_release [own_rules]: "sid2_release dev oe s = Some s' \<Longrightarrow> own_keys s \<longrightarrow> own_keys s'"
  by (auto simp: sid2_release_def Let_def dest!: own_rules intro: own_tree elim!: bind_eq_SomeE split: if_split_asm)

lemma own_call: "sid2_call dev ok r ofs count s = Some (ret, s') \<Longrightarrow> own_keys s \<Longrightarrow> own_keys s'"
proof (cases r)
  case (Create p)
  assume "sid2_call dev ok r ofs count s = Some (ret, s')" "own_keys s"
  then show ?thesis using Create
    by (auto simp: sid2_ident_params_write_def dest: own_create elim!: bind_eq_SomeE split: if_split_asm sum.split_asm)
qed (auto simp: sid2_delete_write_def sid2_set_strhdl_write_def sid2_port_pos_write_def sid2_port_pos_del_write_def port_pos_file_def sid_port_pos_set_def
    Let_def dest!: own_rules intro: own_tree elim!: bind_eq_SomeE split: if_split_asm option.split_asm sum.split_asm)

section \<open>Reading back\<close>

lemma own_reach:
  assumes "sid2_start tab s0" "sid2_reach dev tab s0 s" shows "own_keys s"
  using assms(2)
proof induction
  case sid2_init
  obtain ifd br base io where "edgx_probe_sid2 (Some ifd) True br base io = Inr s0" using assms(1) by (auto simp: sid2_start_def)
  then have "rb_tmvt_root s0 = []" by (cases ifd) (auto simp: edgx_probe_sid2_def)
  then show ?case by (simp add: own_keys_def)
next
  case (sid2_request s ofs ok r count ret s')
  show ?case by (rule own_call [OF sid2_request.hyps(3) sid2_request.IH])
qed simp

lemma readD:
  assumes w: "sid_inv tab base s" and m: "sid_map s (word_of_int ord) = Some (a, h, pm)" and ord: "ord \<le> 0xFFFF"
    and t: "sid_rb_search tm_key (rb_tmvt_root s) a = Some t"
  shows "sid2_ident_params_read (ord * 18) 18 s
    = Some (18, Some \<lparr>ip_addr = tm_addr t, ip_tag = tm_tag t, ip_vid = tm_vid t, ip_id_type = SID_NULL, ip_str_hdl = h\<rparr>)"
proof -
  obtain x e where "sid_rb_search o_key (rb_o_root s) (word_of_int ord) = Some x" "tmvt_o_of x s = Some e" "o_tmvt x = a" "to_str_hdl e = h"
    using m by (auto simp: sid_map_def bind_eq_Some)
  then show ?thesis using ord t by (simp add: sid2_ident_params_read_def)
qed

lemma key_found:
  assumes "sid_inv tab base s" "own_keys s" "sid_map s k = Some (a, h, pm)"
  obtains t where "sid_rb_search tm_key (rb_tmvt_root s) a = Some t" "own_key t" "tm_key t = a"
proof -
  have sf: "sid_soft s" using assms(1) by (simp add: sid_inv_def)
  obtain t where t: "t \<in> set (rb_tmvt_root s)" "tm_key t = a" using map_key_tree [OF sf assms(3)] by auto
  show thesis using that [of t] soft_tmvt(1) [OF sf t(1)] t assms(2) by (simp add: own_keys_def)
qed

lemma tag_low: "x \<in> {1, 2, 3} \<Longrightarrow> x AND 3 = (x :: u32)"
  by auto

text \<open>
  Property C36. After a write of parameters that succeeds, the file shows for this ordinal the address,
  the tag and the type of the write, the low 14 bits of its VLAN, and no handle.
\<close>

theorem sid2_params_read_back:
  assumes "sid_contract dev (tab_iobase s0) tab" "sid2_start tab s0" "sid2_reach dev tab s0 s" "0 \<le> ord" "ord \<le> 0xFFFF"
    and "sid2_ident_params_write dev ok p (ord * 18) 18 s = Some (18, s')"
  shows "\<exists>q. sid2_ident_params_read (ord * 18) 18 s' = Some (18, Some q) \<and> (\<forall>i < 6. ip_addr q ! i = ip_addr p ! i) \<and> ip_tag q = ip_tag p
    \<and> ip_id_type q = ip_id_type p \<and> ip_str_hdl q = SID_INVALID_STRHDL \<and> ip_vid q AND 0x3fff = ip_vid p AND 0x3fff"
proof -
  note w = sid2_reach_inv [OF assms(1-3)]
  from create_fileD [OF assms(1) w assms(4,5), of ok p] assms(6) have
    w': "sid_inv tab (tab_iobase s0) s'" "params_ok p" "sid_map s' (word_of_int ord) = Some (params_to_tmvt_key p, SID_INVALID_STRHDL, 0)"
    by (auto simp: outcome_def no_room_def split: if_split_asm)
  have "sid2_call dev ok (Create p) (ord * 18) 18 s = Some (18, s')" using assms(6) by simp
  then have own: "own_keys s'" by (rule own_call) (rule own_reach [OF assms(2,3)])
  obtain t where t: "sid_rb_search tm_key (rb_tmvt_root s') (params_to_tmvt_key p) = Some t" "own_key t" "tm_key t = params_to_tmvt_key p"
    by (rule key_found [OF w'(1) own w'(3)])
  have k: "params_to_tmvt_key (own_params t) = params_to_tmvt_key p" and tt: "tm_tag t \<in> {1, 2, 3}" using t(2,3) by (simp_all add: own_key_def)
  have "ip_tag p \<in> {1, 2, 3}" "ip_id_type p = SID_NULL" using w'(2) by (auto simp: params_ok_def)
  then show ?thesis using readD [OF w'(1,3) assms(5) t(1)] key_inj [OF k] tag_low tt by (simp add: own_params_def)
qed

theorem sid2_params_read_back_witness:
  "\<exists>s q. sid2_ident_params_write sid_ram (\<lambda>_. True) demo_tagged 90 18 sid_demo = Some (18, s)
     \<and> sid2_ident_params_read 90 18 s = Some (18, Some q) \<and> ip_tag q = SID_TAGGED \<and> ip_vid q AND 0x3fff = 1"
proof -
  obtain s where s: "sid2_ident_params_write sid_ram (\<lambda>_. True) demo_tagged 90 18 sid_demo = Some (18, s)" using demo_create [of demo_tagged] by blast
  from sid2_params_read_back [OF sid_demo_contract sid_demo_start sid2_init, of 5 "\<lambda>_. True" demo_tagged s] s
  obtain q where "sid2_ident_params_read 90 18 s = Some (18, Some q)" "ip_tag q = ip_tag demo_tagged" "ip_vid q AND 0x3fff = ip_vid demo_tagged AND 0x3fff"
    by auto
  then show ?thesis using s by (simp add: demo_tagged_def)
qed

text \<open>
  Property C37. The bits of the VLAN above the 14th are lost: the parameters of two ordinals whose tags
  and addresses agree and whose VLANs agree in the low 14 bits read with one and the same VLAN, even
  if different ones were written.
\<close>

theorem sid2_vid_bits_lost:
  assumes "sid_contract dev (tab_iobase s0) tab" "sid2_start tab s0" "sid2_reach dev tab s0 s"
    and "0 \<le> ord1" "ord1 \<le> 0xFFFF" "0 \<le> ord2" "ord2 \<le> 0xFFFF"
    and "sid2_ident_params_write dev ok p (ord1 * 18) 18 s = Some (18, s1)"
    and "sid2_ident_params_write dev ok (p\<lparr>ip_vid := v\<rparr>) (ord2 * 18) 18 s1 = Some (18, s2)"
    and "v AND 0x3fff = ip_vid p AND 0x3fff"
  shows "\<exists>q. sid2_ident_params_read (ord1 * 18) 18 s2 = Some (18, Some q) \<and> sid2_ident_params_read (ord2 * 18) 18 s2 = Some (18, Some q)"
proof -
  let ?p2 = "p\<lparr>ip_vid := v\<rparr>"
  have k: "params_to_tmvt_key ?p2 = params_to_tmvt_key p" using assms(10) by (simp add: params_to_tmvt_key_def)
  note w = sid2_reach_inv [OF assms(1-3)]
  from create_fileD [OF assms(1) w assms(4,5), of ok p] assms(8) have
    w1: "sid_inv tab (tab_iobase s0) s1" "sid_map s1 (word_of_int ord1) = Some (params_to_tmvt_key p, SID_INVALID_STRHDL, 0)"
    by (auto simp: outcome_def no_room_def split: if_split_asm)
  from create_fileD [OF assms(1) w1(1) assms(6,7), of ok ?p2] assms(9) have
    w2: "sid_inv tab (tab_iobase s0) s2" "sid_map s2 = (sid_map s1)(word_of_int ord2 \<mapsto> (params_to_tmvt_key p, SID_INVALID_STRHDL, 0))"
    unfolding k by (auto simp: outcome_def no_room_def k split: if_split_asm)
  have m: "sid_map s2 (word_of_int ord1) = Some (params_to_tmvt_key p, SID_INVALID_STRHDL, 0)"
    "sid_map s2 (word_of_int ord2) = Some (params_to_tmvt_key p, SID_INVALID_STRHDL, 0)" using w1(2) w2(2) by simp_all
  have "sid2_call dev ok (Create p) (ord1 * 18) 18 s = Some (18, s1)" "sid2_call dev ok (Create ?p2) (ord2 * 18) 18 s1 = Some (18, s2)"
    using assms(8,9) by simp_all
  then have own: "own_keys s2" using own_call own_reach [OF assms(2,3)] by blast
  obtain t where t: "sid_rb_search tm_key (rb_tmvt_root s2) (params_to_tmvt_key p) = Some t" by (rule key_found [OF w2(1) own m(1)])
  show ?thesis using readD [OF w2(1) m(1) assms(5) t] readD [OF w2(1) m(2) assms(7) t] by blast
qed

theorem sid2_vid_bits_lost_witness:
  "\<exists>s1 s2 q. sid2_ident_params_write sid_ram (\<lambda>_. True) demo_tagged 90 18 sid_demo = Some (18, s1)
     \<and> sid2_ident_params_write sid_ram (\<lambda>_. True) (demo_tagged\<lparr>ip_vid := 0x4001\<rparr>) 108 18 s1 = Some (18, s2)
     \<and> sid2_ident_params_read 90 18 s2 = Some (18, Some q) \<and> sid2_ident_params_read 108 18 s2 = Some (18, Some q)"
proof -
  let ?p2 = "demo_tagged\<lparr>ip_vid := 0x4001\<rparr>"
  obtain s1 where s1: "sid2_ident_params_write sid_ram (\<lambda>_. True) demo_tagged 90 18 sid_demo = Some (18, s1)" "sid2_reach sid_ram sid_rows sid_demo s1"
    "sid_map s1 = [5 \<mapsto> (params_to_tmvt_key demo_tagged, SID_INVALID_STRHDL, 0)]" using demo_create [of demo_tagged] by blast
  have v: "(0x4001 :: u16) AND 0x3fff = ip_vid demo_tagged AND 0x3fff" by (simp add: demo_tagged_def)
  then have k: "params_to_tmvt_key ?p2 = params_to_tmvt_key demo_tagged" by (simp add: params_to_tmvt_key_def)
  have room: "\<not> no_room (\<lambda>_. True) (Create ?p2) (word_of_int 6) ret s1 s'" for ret s' by (auto simp: no_room_def k s1(3))
  have "params_ok ?p2" by (simp add: params_ok_def demo_tagged_def demo_ident_def)
  then obtain s2 where s2: "sid2_ident_params_write sid_ram (\<lambda>_. True) ?p2 108 18 s1 = Some (18, s2)"
    using demo_granted [OF s1(2) _ _ _ room, of "(sid_map s1)(6 \<mapsto> (params_to_tmvt_key ?p2, SID_INVALID_STRHDL, 0))"] by (auto simp: s1(3))
  from sid2_vid_bits_lost [OF sid_demo_contract sid_demo_start sid2_init, of 5 6 "\<lambda>_. True" demo_tagged s1 "0x4001" s2, OF _ _ _ _ _ _ v] s1(1) s2
  obtain q where "sid2_ident_params_read 90 18 s2 = Some (18, Some q)" "sid2_ident_params_read 108 18 s2 = Some (18, Some q)" by auto
  then show ?thesis using s1(1) s2 by blast
qed

end
